(* ===== verification/Prelude.thy ===== *)
theory Prelude
  imports Main "HOL-Library.Word" "HOL-Library.Sublist"
begin

text \<open>
  What every component of the development shares: Go strings (byte lists) with the functions
  of package \<open>strings\<close> the sources call, 64-bit integers, instants and durations, Go error
  values with their wrapping chain, the HTTP answers the handlers write, and a database
  connection whose calls can fail.

  A Go string is a list of bytes, here a HOL \<open>string\<close> (a \<open>char\<close> is a byte). A Go \<open>int64\<close> is
  an \<open>int\<close>, and arithmetic the code does without a range check goes through \<open>wrap64\<close>. An instant
  is the number of nanoseconds since Go's zero time, so \<open>IsZero\<close> is \<open>t = 0\<close>; \<open>UTC\<close> changes
  the location of an instant only, not the instant, and is the identity here.
\<close>

section \<open>Fact collections\<close>

named_theorems sentinel_defs \<open>the sentinel error variables of the packages\<close>
named_theorems frame_simps \<open>fields an operation leaves unchanged\<close>

section \<open>Integers and time\<close>

type_synonym time = int
type_synonym duration = int

definition wrap64 :: "int \<Rightarrow> int" where
  "wrap64 n = sint (word_of_int n :: 64 word)"

definition is_zero_time :: "time \<Rightarrow> bool" where
  "is_zero_time t \<longleftrightarrow> t = 0"

definition second_ns :: duration where
  "second_ns = 1000000000"

lemma wrap64_range: "- (2 ^ 63) \<le> wrap64 n \<and> wrap64 n < 2 ^ 63"
  using sint_ge [of "word_of_int n :: 64 word"] sint_lt [of "word_of_int n :: 64 word"]
  by (simp add: wrap64_def)

lemma wrap64_id: "- (2 ^ 63) \<le> n \<Longrightarrow> n < 2 ^ 63 \<Longrightarrow> wrap64 n = n"
  by (simp add: wrap64_def sint_sbintrunc' signed_take_bit_int_eq_self)

section \<open>Strings\<close>

text \<open>
  \<open>strings.TrimSpace\<close> cuts leading and trailing Unicode white space; these are the UTF-8
  encodings of the runes for which \<open>unicode.IsSpace\<close> holds.
\<close>

definition space_runes :: "string list" where
  "space_runes =
     [[CHR 0x20], [CHR 0x09], [CHR 0x0A], [CHR 0x0B], [CHR 0x0C], [CHR 0x0D],
      [CHR 0xC2, CHR 0x85], [CHR 0xC2, CHR 0xA0], [CHR 0xE1, CHR 0x9A, CHR 0x80]]
     @ map (\<lambda>b. [CHR 0xE2, CHR 0x80, b])
         [CHR 0x80, CHR 0x81, CHR 0x82, CHR 0x83, CHR 0x84, CHR 0x85, CHR 0x86, CHR 0x87,
          CHR 0x88, CHR 0x89, CHR 0x8A, CHR 0xA8, CHR 0xA9, CHR 0xAF]
     @ [[CHR 0xE2, CHR 0x81, CHR 0x9F], [CHR 0xE3, CHR 0x80, CHR 0x80]]"

function strip_runes :: "string list \<Rightarrow> string \<Rightarrow> string" where
  "strip_runes rs s =
     (case find (\<lambda>r. r \<noteq> [] \<and> prefix r s) rs of
        None \<Rightarrow> s
      | Some r \<Rightarrow> strip_runes rs (drop (length r) s))"
  by pat_completeness auto
termination
proof (relation "measure (\<lambda>(rs, s). length s)")
  fix rs :: "string list" and s r :: string
  assume "find (\<lambda>r. r \<noteq> [] \<and> prefix r s) rs = Some r"
  then have "r \<noteq> []" and "prefix r s"
    by (auto simp: find_Some_iff)
  then show "((rs, drop (length r) s), rs, s) \<in> measure (\<lambda>(rs, s). length s)"
    by (cases r; cases s) auto
qed simp

declare strip_runes.simps [simp del]

definition trim_left_space :: "string \<Rightarrow> string" where
  "trim_left_space s = strip_runes space_runes s"

definition trim_right_space :: "string \<Rightarrow> string" where
  "trim_right_space s = rev (strip_runes (map rev space_runes) (rev s))"

definition trim_space :: "string \<Rightarrow> string" where
  "trim_space s = trim_right_space (trim_left_space s)"

lemma strip_runes_Nil [simp]: "strip_runes rs [] = []"
  by (subst strip_runes.simps) (auto split: option.splits simp: find_Some_iff)

lemma trim_space_Nil [simp]: "trim_space [] = []"
  by (simp add: trim_space_def trim_left_space_def trim_right_space_def)

lemma strip_runes_suffix: "suffix (strip_runes rs s) s"
proof (induction rs s rule: strip_runes.induct)
  case (1 rs s)
  show ?case
  proof (cases "find (\<lambda>r. r \<noteq> [] \<and> prefix r s) rs")
    case None
    then show ?thesis by (subst strip_runes.simps) simp
  next
    case (Some r)
    with 1 have "suffix (strip_runes rs (drop (length r) s)) (drop (length r) s)" by simp
    then have "suffix (strip_runes rs (drop (length r) s)) s"
      by (rule suffix_order.trans) (rule suffix_drop)
    with Some show ?thesis by (subst strip_runes.simps) simp
  qed
qed

lemma strip_runes_fixed: "find (\<lambda>r. r \<noteq> [] \<and> prefix r s) rs = None \<Longrightarrow> strip_runes rs s = s"
  by (subst strip_runes.simps) simp

lemma strip_runes_stable:
  "find (\<lambda>r. r \<noteq> [] \<and> prefix r (strip_runes rs s)) rs = None"
proof (induction rs s rule: strip_runes.induct)
  case (1 rs s)
  show ?case
  proof (cases "find (\<lambda>r. r \<noteq> [] \<and> prefix r s) rs")
    case None
    then show ?thesis by (simp add: strip_runes_fixed)
  next
    case (Some r)
    with 1 show ?thesis by (simp add: strip_runes.simps [of rs s])
  qed
qed

lemma strip_runes_idem [simp]: "strip_runes rs (strip_runes rs s) = strip_runes rs s"
  by (rule strip_runes_fixed) (rule strip_runes_stable)

lemma set_trim_space: "set (trim_space s) \<subseteq> set s"
proof -
  have "set (strip_runes (map rev space_runes) (rev (trim_left_space s))) \<subseteq> set (trim_left_space s)"
    using strip_runes_suffix [THEN set_mono_suffix] by (metis set_rev)
  moreover have "set (trim_left_space s) \<subseteq> set s"
    unfolding trim_left_space_def by (rule strip_runes_suffix [THEN set_mono_suffix])
  ultimately show ?thesis
    by (auto simp: trim_space_def trim_right_space_def)
qed

lemma trim_space_idem [simp]: "trim_space (trim_space s) = trim_space s"
proof -
  let ?l = "trim_left_space s"
  have pre: "prefix (trim_space s) ?l"
    unfolding trim_space_def trim_right_space_def
    using strip_runes_suffix [of "map rev space_runes" "rev ?l"] by (simp add: suffix_to_prefix)
  have "find (\<lambda>r. r \<noteq> [] \<and> prefix r ?l) space_runes = None"
    unfolding trim_left_space_def by (rule strip_runes_stable)
  then have "find (\<lambda>r. r \<noteq> [] \<and> prefix r (trim_space s)) space_runes = None"
    using pre by (auto simp: find_None_iff dest: prefix_order.trans)
  then have "trim_left_space (trim_space s) = trim_space s"
    unfolding trim_left_space_def by (rule strip_runes_fixed)
  moreover have "trim_right_space (trim_right_space ?l) = trim_right_space ?l"
    by (simp add: trim_right_space_def strip_runes_idem)
  ultimately show ?thesis by (simp add: trim_space_def [of "trim_space s"]) (simp add: trim_space_def)
qed

lemma length_trim_space: "length (trim_space s) \<le> length s"
proof -
  have "length (trim_right_space u) \<le> length u" for u
    unfolding trim_right_space_def
    using suffix_length_le [OF strip_runes_suffix, of "map rev space_runes" "rev u"] by simp
  moreover have "length (trim_left_space s) \<le> length s"
    unfolding trim_left_space_def by (rule suffix_length_le) (rule strip_runes_suffix)
  ultimately show ?thesis
    unfolding trim_space_def using le_trans by blast
qed

text \<open>A string of printing ASCII bytes has nothing to trim.\<close>

definition graphic :: "char \<Rightarrow> bool" where
  "graphic c = (let n = of_char c :: nat in 33 \<le> n \<and> n \<le> 126)"

lemma space_runes_edges: "r \<in> set space_runes \<Longrightarrow> r \<noteq> [] \<and> \<not> graphic (hd r) \<and> \<not> graphic (last r)"
  by (auto simp: space_runes_def graphic_def)

lemma trim_space_graphic: "\<forall>c\<in>set s. graphic c \<Longrightarrow> trim_space s = s"
proof -
  assume s: "\<forall>c\<in>set s. graphic c"
  have "find (\<lambda>r. r \<noteq> [] \<and> prefix r s) space_runes = None"
    unfolding find_None_iff
  proof
    assume "\<exists>r. r \<in> set space_runes \<and> r \<noteq> [] \<and> prefix r s"
    then obtain r where r: "r \<in> set space_runes" "r \<noteq> []" "prefix r s" by blast
    then have "hd r \<in> set s" by (meson hd_in_set set_mono_prefix subsetD)
    with s space_runes_edges [OF r(1)] show False by blast
  qed
  moreover have "find (\<lambda>r. r \<noteq> [] \<and> prefix r (rev s)) (map rev space_runes) = None"
    unfolding find_None_iff
  proof
    assume "\<exists>r. r \<in> set (map rev space_runes) \<and> r \<noteq> [] \<and> prefix r (rev s)"
    then obtain r where r: "r \<in> set space_runes" "r \<noteq> []" "prefix (rev r) (rev s)" by auto
    then have "last r \<in> set s"
      by (metis last_in_set set_mono_prefix set_rev subsetD)
    with s space_runes_edges [OF r(1)] show False by blast
  qed
  ultimately show ?thesis
    by (simp add: trim_space_def trim_left_space_def trim_right_space_def strip_runes_fixed)
qed

subsection \<open>Splitting and joining at a separator\<close>

text \<open>\<open>strings.Split\<close> with a one-byte separator, and \<open>strings.Join\<close>.\<close>

fun split_on :: "char \<Rightarrow> string \<Rightarrow> string list" where
  "split_on c [] = [[]]"
| "split_on c (x # xs) =
     (if x = c then [] # split_on c xs
      else (case split_on c xs of [] \<Rightarrow> [[x]] | y # ys \<Rightarrow> (x # y) # ys))"

fun join_on :: "char \<Rightarrow> string list \<Rightarrow> string" where
  "join_on c [] = []"
| "join_on c [x] = x"
| "join_on c (x # y # zs) = x @ [c] @ join_on c (y # zs)"

lemma split_on_nonempty [simp]: "split_on c s \<noteq> []"
  by (induction s) (auto split: list.splits)

lemma join_split [simp]: "join_on c (split_on c s) = s"
proof (induction s)
  case (Cons x s)
  show ?case
  proof (cases "split_on c s")
    case (Cons y ys)
    with Cons.IH show ?thesis by (cases ys) auto
  qed simp
qed simp

lemma split_no_sep: "c \<notin> set s \<Longrightarrow> split_on c s = [s]"
  by (induction s) auto

lemma split_append_sep: "c \<notin> set s \<Longrightarrow> split_on c (s @ c # t) = s # split_on c t"
  by (induction s) auto

lemma split_join: "ps \<noteq> [] \<Longrightarrow> \<forall>p\<in>set ps. c \<notin> set p \<Longrightarrow> split_on c (join_on c ps) = ps"
  by (induction c ps rule: join_on.induct) (auto simp: split_no_sep split_append_sep)

lemma split_parts_no_sep: "p \<in> set (split_on c s) \<Longrightarrow> c \<notin> set p"
  by (induction s arbitrary: p) (auto split: list.splits if_splits)

subsection \<open>Trimming and comparing bytes\<close>

definition trim_left_char :: "char \<Rightarrow> string \<Rightarrow> string" where
  "trim_left_char c s = dropWhile (\<lambda>x. x = c) s"

definition trim_right_char :: "char \<Rightarrow> string \<Rightarrow> string" where
  "trim_right_char c s = rev (dropWhile (\<lambda>x. x = c) (rev s))"

text \<open>\<open>strings.ToUpper\<close> and \<open>strings.ToLower\<close> on the ASCII letters; other bytes are kept.\<close>

definition byte_upper :: "char \<Rightarrow> char" where
  "byte_upper c = (let n = of_char c :: nat in if 97 \<le> n \<and> n \<le> 122 then char_of (n - 32) else c)"

definition byte_lower :: "char \<Rightarrow> char" where
  "byte_lower c = (let n = of_char c :: nat in if 65 \<le> n \<and> n \<le> 90 then char_of (n + 32) else c)"

definition to_upper :: "string \<Rightarrow> string" where
  "to_upper s = map byte_upper s"

definition to_lower :: "string \<Rightarrow> string" where
  "to_lower s = map byte_lower s"

fun nat_digits :: "nat \<Rightarrow> string" where
  "nat_digits n =
     (if n < 10 then [char_of (48 + n)] else nat_digits (n div 10) @ [char_of (48 + n mod 10)])"

declare nat_digits.simps [simp del]

definition show_int :: "int \<Rightarrow> string" where
  "show_int i = (if i < 0 then CHR ''-'' # nat_digits (nat (- i)) else nat_digits (nat i))"

section \<open>Go errors\<close>

text \<open>
  An \<open>error\<close> value is a package's sentinel variable (told apart by package and text), a
  \<open>fmt.Errorf\<close> with \<open>%w\<close> (the text before and after the wrapped error), a \<open>fmt.Errorf\<close> without
  it, the packages' \<open>ServiceError\<close> (a wrapped error, a code and an HTTP status), or an error of
  the database driver.
\<close>

datatype go_err =
    Sentinel string string
  | Wrapped string go_err string
  | Errorf string
  | ServiceErr go_err string int
  | DriverErr

fun err_text :: "go_err \<Rightarrow> string" where
  "err_text (Sentinel p s) = s"
| "err_text (Wrapped a e b) = a @ err_text e @ b"
| "err_text (Errorf s) = s"
| "err_text (ServiceErr e c n) = err_text e"
| "err_text DriverErr = ''driver error''"

text \<open>\<open>errors.Is\<close> follows the chain of wrapped errors.\<close>

fun errors_is :: "go_err \<Rightarrow> go_err \<Rightarrow> bool" where
  "errors_is (Sentinel p s) t \<longleftrightarrow> Sentinel p s = t"
| "errors_is (Wrapped a e b) t \<longleftrightarrow> Wrapped a e b = t \<or> errors_is e t"
| "errors_is (Errorf s) t \<longleftrightarrow> Errorf s = t"
| "errors_is (ServiceErr e c n) t \<longleftrightarrow> ServiceErr e c n = t \<or> errors_is e t"
| "errors_is DriverErr t \<longleftrightarrow> DriverErr = t"

text \<open>\<open>errors.As\<close> with a target that carries a code and a status: the first such error of the chain.\<close>

fun errors_as_coded :: "go_err \<Rightarrow> (int \<times> string) option" where
  "errors_as_coded (Wrapped a e b) = errors_as_coded e"
| "errors_as_coded (ServiceErr e c n) = Some (n, c)"
| "errors_as_coded _ = None"

section \<open>A database connection whose calls can fail\<close>

text \<open>
  \<open>pg_faults\<close> scripts the driver: each call takes the next entry, \<open>True\<close> makes it fail without an
  effect, and an exhausted script means no further failure. A statement is a function of the
  tables; \<open>None\<close> is a violated constraint, which the driver also reports as an error.
\<close>

record 'd pg =
  pg_data :: 'd
  pg_faults :: "bool list"

type_synonym ('d, 'a) stmt = "'d \<Rightarrow> ('a \<times> 'd) option"

definition pg_call :: "('d, 'a) stmt \<Rightarrow> 'd pg \<Rightarrow> (go_err + 'a) \<times> 'd pg" where
  "pg_call q db =
     (let rest = db\<lparr>pg_faults := tl (pg_faults db)\<rparr>
      in if pg_faults db \<noteq> [] \<and> hd (pg_faults db) then (Inl DriverErr, rest)
         else (case q (pg_data db) of
                 None \<Rightarrow> (Inl DriverErr, rest)
               | Some (x, d) \<Rightarrow> (Inr x, rest\<lparr>pg_data := d\<rparr>)))"

definition read_only :: "('d \<Rightarrow> 'a) \<Rightarrow> ('d, 'a) stmt" where
  "read_only f d = Some (f d, d)"

text \<open>\<open>tx.Rollback\<close>: the tables are those the transaction began with.\<close>

definition pg_rollback :: "'d pg \<Rightarrow> 'd pg \<Rightarrow> 'd pg" where
  "pg_rollback db0 db = db\<lparr>pg_data := pg_data db0\<rparr>"

lemma pg_call_Inr: "pg_call q db = (Inr x, db') \<Longrightarrow> q (pg_data db) = Some (x, pg_data db')"
  by (auto simp: pg_call_def Let_def split: if_splits option.splits)

lemma pg_call_Inl: "pg_call q db = (Inl e, db') \<Longrightarrow> e = DriverErr \<and> pg_data db' = pg_data db"
  by (auto simp: pg_call_def Let_def split: if_splits option.splits)

lemma pg_call_cases:
  obtains (fail) db' where "pg_call q db = (Inl DriverErr, db')" and "pg_data db' = pg_data db"
  | (ok) x db' where "pg_call q db = (Inr x, db')" and "q (pg_data db) = Some (x, pg_data db')"
proof (cases "pg_call q db")
  case (Pair r db')
  then show thesis
  proof (cases r)
    case (Inl e)
    with Pair pg_call_Inl [of q db e db'] fail show thesis by simp
  next
    case (Inr x)
    with Pair pg_call_Inr [of q db x db'] ok show thesis by simp
  qed
qed

lemma pg_call_healthy:
  "pg_faults db = [] \<Longrightarrow> q (pg_data db) = Some (x, d) \<Longrightarrow> pg_call q db = (Inr x, db\<lparr>pg_data := d\<rparr>)"
  by (simp add: pg_call_def Let_def)

lemma pg_call_read_only [frame_simps]: "pg_data (snd (pg_call (read_only f) db)) = pg_data db"
  by (simp add: pg_call_def read_only_def Let_def)

lemma pg_call_read_only_Inr: "pg_call (read_only f) db = (Inr x, db') \<Longrightarrow> x = f (pg_data db) \<and> pg_data db' = pg_data db"
  by (drule pg_call_Inr) (auto simp: read_only_def)

lemma pg_rollback_data [simp]: "pg_data (pg_rollback db0 db) = pg_data db0"
  by (simp add: pg_rollback_def)

section \<open>Tables\<close>

text \<open>
  A table is the list of its rows in insertion order. \<open>row_lookup\<close> is a select by a unique column,
  \<open>update_where\<close> an update statement, \<open>count_where\<close> the number of rows it affects.
\<close>

definition row_lookup :: "('r \<Rightarrow> 'k) \<Rightarrow> 'k \<Rightarrow> 'r list \<Rightarrow> 'r option" where
  "row_lookup key k rs = find (\<lambda>r. key r = k) rs"

definition update_where :: "('r \<Rightarrow> bool) \<Rightarrow> ('r \<Rightarrow> 'r) \<Rightarrow> 'r list \<Rightarrow> 'r list" where
  "update_where P f rs = map (\<lambda>r. if P r then f r else r) rs"

definition count_where :: "('r \<Rightarrow> bool) \<Rightarrow> 'r list \<Rightarrow> int" where
  "count_where P rs = int (length (filter P rs))"

definition ErrNoRows :: go_err where [sentinel_defs]:
  "ErrNoRows = Sentinel ''pgx'' ''no rows in result set''"

lemma row_lookup_Nil [simp]: "row_lookup key k [] = None"
  by (simp add: row_lookup_def)

lemma row_lookup_Cons [simp]:
  "row_lookup key k (r # rs) = (if key r = k then Some r else row_lookup key k rs)"
  by (simp add: row_lookup_def)

lemma row_lookup_append:
  "row_lookup key k (rs @ ts) = (case row_lookup key k rs of None \<Rightarrow> row_lookup key k ts | Some r \<Rightarrow> Some r)"
  by (induction rs) auto

lemma row_lookup_Some: "row_lookup key k rs = Some r \<Longrightarrow> r \<in> set rs \<and> key r = k"
  by (induction rs) (auto split: if_splits)

lemma row_lookup_None: "row_lookup key k rs = None \<longleftrightarrow> k \<notin> key ` set rs"
  by (induction rs) auto

lemma row_lookup_distinct:
  "distinct (map key rs) \<Longrightarrow> r \<in> set rs \<Longrightarrow> row_lookup key (key r) rs = Some r"
  by (induction rs) (auto simp: rev_image_eqI)

lemma row_lookup_update_where:
  "(\<And>r. key (f r) = key r) \<Longrightarrow>
   row_lookup key k (update_where P f rs) =
     map_option (\<lambda>r. if P r then f r else r) (row_lookup key k rs)"
  by (induction rs) (auto simp: update_where_def)

lemma map_update_where:
  "(\<And>r. key (f r) = key r) \<Longrightarrow> map key (update_where P f rs) = map key rs"
  by (induction rs) (auto simp: update_where_def)

lemma set_update_where: "r \<in> set (update_where P f rs) \<Longrightarrow> \<exists>r0\<in>set rs. r = (if P r0 then f r0 else r0)"
  by (auto simp: update_where_def)

lemma length_update_where [simp]: "length (update_where P f rs) = length rs"
  by (simp add: update_where_def)

lemma update_where_id: "\<forall>r\<in>set rs. \<not> P r \<Longrightarrow> update_where P f rs = rs"
  by (induction rs) (auto simp: update_where_def)

subsection \<open>Scanning the rows of a query\<close>

text \<open>The loop over \<open>rows.Next\<close>: the first row that does not scan ends it with its error.\<close>

fun scan_all :: "('r \<Rightarrow> go_err + 'a) \<Rightarrow> 'r list \<Rightarrow> go_err + 'a list" where
  "scan_all f [] = Inr []"
| "scan_all f (r # rs) =
     (case f r of
        Inl e \<Rightarrow> Inl e
      | Inr x \<Rightarrow> (case scan_all f rs of Inl e \<Rightarrow> Inl e | Inr xs \<Rightarrow> Inr (x # xs)))"

lemma scan_all_ok: "(\<And>r. r \<in> set rs \<Longrightarrow> f r = Inr (g r)) \<Longrightarrow> scan_all f rs = Inr (map g rs)"
  by (induction rs) auto

lemma scan_all_Inr: "scan_all f rs = Inr xs \<Longrightarrow> map f rs = map Inr xs"
  by (induction rs arbitrary: xs) (auto split: sum.splits)

subsection \<open>Path parameters\<close>

text \<open>
  \<open>parseRequiredInt64\<close> of the delivery and runtime packages: the digits are accumulated in an
  \<open>int64\<close> without a range check.
\<close>

definition is_digit :: "char \<Rightarrow> bool" where
  "is_digit c = (let n = of_char c :: nat in 48 \<le> n \<and> n \<le> 57)"

definition digit_value :: "char \<Rightarrow> int" where
  "digit_value c = int (of_char c) - 48"

fun parse_digits :: "int \<Rightarrow> string \<Rightarrow> go_err + int" where
  "parse_digits acc [] = Inr acc"
| "parse_digits acc (c # cs) =
     (if \<not> is_digit c then Inl (Sentinel ''strconv'' ''value must be numeric'')
      else parse_digits (wrap64 (acc * 10 + digit_value c)) cs)"

definition parse_required_int64 :: "string \<Rightarrow> go_err + int" where
  "parse_required_int64 v =
     (if v = [] then Inl (Sentinel ''strconv'' ''value is required'') else parse_digits 0 v)"

lemma parse_digits_range:
  "- (2 ^ 63) \<le> acc \<Longrightarrow> acc < 2 ^ 63 \<Longrightarrow> parse_digits acc cs = Inr n \<Longrightarrow> - (2 ^ 63) \<le> n \<and> n < 2 ^ 63"
proof (induction cs arbitrary: acc)
  case (Cons c cs)
  then show ?case using wrap64_range by (auto split: if_splits)
qed simp

end
