(* ===== verification/Shared_Api.thy ===== *)
theory Shared_Api
  imports Prelude
begin

text \<open>
  Package \<open>shared/api\<close>: how a handler turns a result into an HTTP answer. \<open>write_json\<close> and
  \<open>write_service_error\<close> give the answer the client sees; \<open>statusForError\<close> takes the status and
  code of the first coded error of the chain, else of the first sentinel of the table that the
  chain contains, else 500. The body a handler decodes is an input of the handler's model: a
  value of the request type or the error \<open>DecodeJSON\<close> returned.
\<close>

section \<open>Sentinels\<close>

definition ErrBadRequest :: go_err where [sentinel_defs]: "ErrBadRequest = Sentinel ''api'' ''bad request''"
definition ErrUnauthorized :: go_err where [sentinel_defs]: "ErrUnauthorized = Sentinel ''api'' ''unauthorized''"
definition ErrForbidden :: go_err where [sentinel_defs]: "ErrForbidden = Sentinel ''api'' ''forbidden''"
definition ErrNotFound :: go_err where [sentinel_defs]: "ErrNotFound = Sentinel ''api'' ''not found''"
definition ErrConflict :: go_err where [sentinel_defs]: "ErrConflict = Sentinel ''api'' ''conflict''"
definition ErrValidation :: go_err where [sentinel_defs]: "ErrValidation = Sentinel ''api'' ''validation failed''"
definition ErrUnavailable :: go_err where [sentinel_defs]: "ErrUnavailable = Sentinel ''api'' ''service unavailable''"

section \<open>Status of an error\<close>

record error_status =
  es_err :: go_err
  es_status :: int
  es_code :: string

definition status_map :: "error_status list" where
  "status_map =
     [\<lparr>es_err = ErrBadRequest, es_status = 400, es_code = ''bad_request''\<rparr>,
      \<lparr>es_err = ErrUnauthorized, es_status = 401, es_code = ''unauthorized''\<rparr>,
      \<lparr>es_err = ErrForbidden, es_status = 403, es_code = ''forbidden''\<rparr>,
      \<lparr>es_err = ErrNotFound, es_status = 404, es_code = ''not_found''\<rparr>,
      \<lparr>es_err = ErrConflict, es_status = 409, es_code = ''conflict''\<rparr>,
      \<lparr>es_err = ErrValidation, es_status = 400, es_code = ''validation_failed''\<rparr>,
      \<lparr>es_err = ErrUnavailable, es_status = 503, es_code = ''service_unavailable''\<rparr>]"

definition statusForError :: "go_err \<Rightarrow> int \<times> string" where
  "statusForError e =
     (case errors_as_coded e of
        Some (status, code) \<Rightarrow> (status, code)
      | None \<Rightarrow>
          (case find (\<lambda>entry. errors_is e (es_err entry)) status_map of
             Some entry \<Rightarrow> (es_status entry, es_code entry)
           | None \<Rightarrow> (500, ''internal_error'')))"

section \<open>Answers\<close>

record error_body =
  eb_code :: string
  eb_message :: string

datatype 'a http_response = JSONResponse int 'a | ErrorResponse int error_body

definition WriteError :: "int \<Rightarrow> string \<Rightarrow> string \<Rightarrow> 'a http_response" where
  "WriteError status code msg = ErrorResponse status \<lparr>eb_code = code, eb_message = msg\<rparr>"

definition WriteJSON :: "int \<Rightarrow> 'a \<Rightarrow> 'a http_response" where
  "WriteJSON status payload = JSONResponse status payload"

definition WriteServiceError :: "go_err option \<Rightarrow> 'a http_response" where
  "WriteServiceError err =
     (case err of
        None \<Rightarrow> WriteError 500 ''internal_error'' ''unexpected nil error''
      | Some e \<Rightarrow> (let (status, code) = statusForError e in WriteError status code (err_text e)))"

lemma statusForError_ServiceErr [simp]: "statusForError (ServiceErr e c n) = (n, c)"
  by (simp add: statusForError_def)

lemma statusForError_Wrapped_ServiceErr [simp]:
  "statusForError (Wrapped a (ServiceErr e c n) b) = (n, c)"
  by (simp add: statusForError_def)

lemma WriteServiceError_ServiceErr [simp]:
  "WriteServiceError (Some (ServiceErr e c n)) = ErrorResponse n \<lparr>eb_code = c, eb_message = err_text e\<rparr>"
  by (simp add: WriteServiceError_def WriteError_def)

lemma statusForError_driver [simp]: "statusForError (Wrapped a DriverErr b) = (500, ''internal_error'')"
  by (simp add: statusForError_def status_map_def sentinel_defs)

section \<open>Identities\<close>

text \<open>
  Package \<open>shared/identity\<close>: profile, instance and session names, and the agent identity that
  delivery intents and runtime instances carry.
\<close>

type_synonym profile_identity = string
type_synonym agent_instance_id = string
type_synonym session_key = string

definition ErrInvalidAgentIdentity :: go_err where [sentinel_defs]:
  "ErrInvalidAgentIdentity = Sentinel ''identity'' ''invalid agent identity''"

definition profile_is_valid :: "profile_identity \<Rightarrow> bool" where
  "profile_is_valid p \<longleftrightarrow> trim_space p \<noteq> []"

definition instance_is_valid :: "agent_instance_id \<Rightarrow> bool" where
  "instance_is_valid i \<longleftrightarrow> trim_space i \<noteq> []"

definition session_is_valid :: "session_key \<Rightarrow> bool" where
  "session_is_valid s \<longleftrightarrow> trim_space s \<noteq> []"

record agent_identity =
  ai_profile :: profile_identity
  ai_instance :: agent_instance_id
  ai_session :: "session_key option"

definition agent_is_valid :: "agent_identity \<Rightarrow> bool" where
  "agent_is_valid a =
     (if \<not> profile_is_valid (ai_profile a) \<or> \<not> instance_is_valid (ai_instance a) then False
      else if (case ai_session a of None \<Rightarrow> False | Some s \<Rightarrow> \<not> session_is_valid s) then False
      else True)"

definition NewAgentIdentity ::
    "profile_identity \<Rightarrow> agent_instance_id \<Rightarrow> session_key option \<Rightarrow> go_err + agent_identity" where
  "NewAgentIdentity p i s =
     (let a = \<lparr>ai_profile = p, ai_instance = i, ai_session = s\<rparr>
      in if \<not> agent_is_valid a then Inl ErrInvalidAgentIdentity else Inr a)"

definition agent_equal :: "agent_identity \<Rightarrow> agent_identity \<Rightarrow> bool" where
  "agent_equal a b =
     (if ai_profile a \<noteq> ai_profile b \<or> ai_instance a \<noteq> ai_instance b then False
      else case (ai_session a, ai_session b) of
             (Some s, Some t) \<Rightarrow> s = t
           | (None, None) \<Rightarrow> True
           | _ \<Rightarrow> False)"

text \<open>The field-wise comparison of the code is equality of the identities.\<close>

lemma agent_equal_eq [simp]: "agent_equal a b \<longleftrightarrow> a = b"
  by (cases a; cases b) (auto simp: agent_equal_def split: option.splits)

lemma NewAgentIdentity_valid: "NewAgentIdentity p i s = Inr a \<Longrightarrow> agent_is_valid a"
  by (auto simp: NewAgentIdentity_def Let_def split: if_splits)

end
