(* ===== verification/Idempotency.thy ===== *)
theory Idempotency
  imports Shared_Api
begin

text \<open>
  Package \<open>shared/idempotency\<close>: keys of the form \<open>operation:channel:profile:nonce\<close>. The random
  bytes of \<open>crypto/rand\<close> are an input of \<open>generateNonce\<close> (16 bytes, or the error of the reader).
\<close>

definition ErrInvalidKey :: go_err where [sentinel_defs]:
  "ErrInvalidKey = Sentinel ''idempotency'' ''invalid idempotency key''"

definition keyPartCount :: nat where
  "keyPartCount = 4"

record key =
  k_operation :: string
  k_channel :: string
  k_profile :: profile_identity
  k_nonce :: string

definition validPart :: "string \<Rightarrow> bool" where
  "validPart v \<longleftrightarrow> trim_space v \<noteq> [] \<and> CHR '':'' \<notin> set v"

definition key_validate :: "key \<Rightarrow> go_err option" where
  "key_validate k =
     (if \<not> validPart (k_operation k) then Some (Wrapped [] ErrInvalidKey '': operation is required'')
      else if \<not> validPart (k_channel k) then Some (Wrapped [] ErrInvalidKey '': channel_id is required'')
      else if \<not> profile_is_valid (k_profile k) \<or> CHR '':'' \<in> set (k_profile k)
      then Some (Wrapped [] ErrInvalidKey '': target_profile is invalid'')
      else if \<not> validPart (k_nonce k) then Some (Wrapped [] ErrInvalidKey '': nonce is required'')
      else None)"

definition NewKey :: "string \<Rightarrow> string \<Rightarrow> profile_identity \<Rightarrow> string \<Rightarrow> go_err + key" where
  "NewKey operation channel profile nonce =
     (let k = \<lparr>k_operation = operation, k_channel = channel, k_profile = profile, k_nonce = nonce\<rparr>
      in case key_validate k of Some e \<Rightarrow> Inl e | None \<Rightarrow> Inr k)"

definition hex_digit :: "nat \<Rightarrow> char" where
  "hex_digit n = (if n < 10 then char_of (48 + n) else char_of (87 + n))"

definition hex_encode :: "string \<Rightarrow> string" where
  "hex_encode bs =
     concat (map (\<lambda>b. let n = of_char b :: nat in [hex_digit (n div 16), hex_digit (n mod 16)]) bs)"

definition generateNonce :: "go_err + string \<Rightarrow> go_err + string" where
  "generateNonce rand =
     (case rand of
        Inl e \<Rightarrow> Inl (Wrapped ''generating nonce: '' e [])
      | Inr bs \<Rightarrow> Inr (hex_encode bs))"

definition Generate ::
    "string \<Rightarrow> string \<Rightarrow> profile_identity \<Rightarrow> go_err + string \<Rightarrow> go_err + key" where
  "Generate operation channel profile rand =
     (case generateNonce rand of
        Inl e \<Rightarrow> Inl e
      | Inr nonce \<Rightarrow> NewKey operation channel profile nonce)"

definition Parse :: "string \<Rightarrow> go_err + key" where
  "Parse raw =
     (let parts = split_on (CHR '':'') raw
      in if length parts \<noteq> keyPartCount then Inl (Wrapped [] ErrInvalidKey '': expected 4 parts'')
         else NewKey (parts ! 0) (parts ! 1) (parts ! 2) (parts ! 3))"

definition key_string :: "key \<Rightarrow> string" where
  "key_string k = join_on (CHR '':'') [k_operation k, k_channel k, k_profile k, k_nonce k]"

section \<open>Round trip\<close>

lemma key_validate_None:
  "key_validate k = None \<longleftrightarrow>
     validPart (k_operation k) \<and> validPart (k_channel k) \<and> validPart (k_profile k) \<and> validPart (k_nonce k)"
  by (auto simp: key_validate_def validPart_def profile_is_valid_def)

lemma NewKey_Inr:
  "NewKey a b c d = Inr k \<longleftrightarrow>
     k = \<lparr>k_operation = a, k_channel = b, k_profile = c, k_nonce = d\<rparr> \<and> key_validate k = None"
  by (auto simp: NewKey_def Let_def split: option.splits)

lemma NewKey_validates: "NewKey a b c d = Inr k \<Longrightarrow> key_validate k = None"
  by (auto simp: NewKey_Inr)

lemma Parse_key_string: "key_validate k = None \<Longrightarrow> Parse (key_string k) = Inr k"
proof -
  assume k: "key_validate k = None"
  have "split_on (CHR '':'') (key_string k) = [k_operation k, k_channel k, k_profile k, k_nonce k]"
    unfolding key_string_def
    by (rule split_join) (use k in \<open>auto simp: key_validate_None validPart_def\<close>)
  with k show ?thesis
    by (simp add: Parse_def keyPartCount_def NewKey_Inr)
qed

lemma Parse_Inr_string: "Parse raw = Inr k \<Longrightarrow> key_string k = raw \<and> key_validate k = None"
proof -
  assume p: "Parse raw = Inr k"
  define ps where "ps = split_on (CHR '':'') raw"
  from p have l: "length ps = 4"
    by (auto simp: Parse_def Let_def ps_def keyPartCount_def split: if_splits)
  then obtain a b c d where ps: "ps = [a, b, c, d]"
    by (auto simp: numeral_eq_Suc length_Suc_conv)
  with p have "NewKey a b c d = Inr k"
    by (simp add: Parse_def keyPartCount_def flip: ps_def)
  then have k: "k = \<lparr>k_operation = a, k_channel = b, k_profile = c, k_nonce = d\<rparr>"
    and v: "key_validate k = None"
    by (auto simp: NewKey_Inr)
  have "join_on (CHR '':'') ps = raw" by (simp add: ps_def)
  with k v ps show ?thesis by (simp add: key_string_def)
qed

lemma hex_digit_graphic: "n < 16 \<Longrightarrow> graphic (hex_digit n) \<and> hex_digit n \<noteq> CHR '':''"
proof -
  assume n: "n < 16"
  define m where "m = (if n < 10 then 48 + n else 87 + n)"
  have m: "hex_digit n = char_of m" "m < 256" "33 \<le> m" "m \<le> 126" "m \<noteq> 58"
    using n by (auto simp: m_def hex_digit_def)
  then have "of_char (hex_digit n) = m" by simp
  moreover have "of_char (CHR '':'') = (58::nat)" by simp
  ultimately show ?thesis using m(3-5) by (auto simp: graphic_def)
qed

lemma hex_encode_chars: "c \<in> set (hex_encode bs) \<Longrightarrow> graphic c \<and> c \<noteq> CHR '':''"
proof -
  assume "c \<in> set (hex_encode bs)"
  then obtain b :: char where "c = hex_digit (of_char b div 16) \<or> c = hex_digit (of_char b mod 16)"
    by (auto simp: hex_encode_def Let_def)
  moreover have "(of_char b :: nat) div 16 < 16"
    using nat_of_char_less_256 [of b] by (simp add: less_mult_imp_div_less)
  ultimately show ?thesis
    using hex_digit_graphic [of "of_char b div 16"] hex_digit_graphic [of "of_char b mod 16"] by auto
qed

lemma validPart_hex_encode: "bs \<noteq> [] \<Longrightarrow> validPart (hex_encode bs)"
proof -
  assume "bs \<noteq> []"
  then have "hex_encode bs \<noteq> []" by (cases bs) (auto simp: hex_encode_def Let_def)
  then show ?thesis
    using hex_encode_chars by (auto simp: validPart_def trim_space_graphic)
qed

end
