(* ===== verification/Delivery_Types.thy ===== *)
theory Delivery_Types
  imports Idempotency Shared_Api
begin

text \<open>
  Package \<open>delivery\<close>, the data: delivery intents with their states (\<open>types.go\<close>), the claim and
  report guards (\<open>state.go\<close>), the service errors (\<open>errors.go\<close>) and the requests with their
  validation (\<open>dto.go\<close>). An intent state is a Go string: the constants are constructors and any
  other string is \<open>IntentOther\<close>.
\<close>

section \<open>States\<close>

datatype intent_state =
    IntentStatePending | IntentStateClaimed | IntentStateRunning | IntentStateCompleted
  | IntentStateFailed | IntentStateExpired | IntentStateCancelled | IntentStateDisplayOnly
  | IntentOther string

definition intent_state_of :: "string \<Rightarrow> intent_state" where
  "intent_state_of s =
     (if s = ''pending'' then IntentStatePending
      else if s = ''claimed'' then IntentStateClaimed
      else if s = ''running'' then IntentStateRunning
      else if s = ''completed'' then IntentStateCompleted
      else if s = ''failed'' then IntentStateFailed
      else if s = ''expired'' then IntentStateExpired
      else if s = ''cancelled'' then IntentStateCancelled
      else if s = ''display_only'' then IntentStateDisplayOnly
      else IntentOther s)"

fun intent_state_valid :: "intent_state \<Rightarrow> bool" where
  "intent_state_valid (IntentOther s) = False"
| "intent_state_valid _ = True"

fun intent_state_terminal :: "intent_state \<Rightarrow> bool" where
  "intent_state_terminal IntentStateCompleted = True"
| "intent_state_terminal IntentStateFailed = True"
| "intent_state_terminal IntentStateExpired = True"
| "intent_state_terminal IntentStateCancelled = True"
| "intent_state_terminal IntentStateDisplayOnly = True"
| "intent_state_terminal _ = False"

section \<open>Errors\<close>

definition ErrInvalidIntent :: go_err where [sentinel_defs]: "ErrInvalidIntent = Sentinel ''delivery'' ''invalid delivery intent''"
definition ErrInvalidIntentState :: go_err where [sentinel_defs]: "ErrInvalidIntentState = Sentinel ''delivery'' ''invalid delivery intent state''"
definition ErrIntentNotFound :: go_err where [sentinel_defs]: "ErrIntentNotFound = Sentinel ''delivery'' ''delivery intent not found''"
definition ErrIntentAlreadyClaimed :: go_err where [sentinel_defs]: "ErrIntentAlreadyClaimed = Sentinel ''delivery'' ''intent already claimed''"
definition ErrIntentAlreadyCompleted :: go_err where [sentinel_defs]: "ErrIntentAlreadyCompleted = Sentinel ''delivery'' ''intent already completed''"
definition ErrIntentExpired :: go_err where [sentinel_defs]: "ErrIntentExpired = Sentinel ''delivery'' ''intent expired''"
definition ErrIntentTargetMismatch :: go_err where [sentinel_defs]: "ErrIntentTargetMismatch = Sentinel ''delivery'' ''intent target mismatch''"
definition ErrRuntimeNotAlive :: go_err where [sentinel_defs]: "ErrRuntimeNotAlive = Sentinel ''delivery'' ''runtime is not alive''"
definition ErrInvalidLifecycleEvent :: go_err where [sentinel_defs]: "ErrInvalidLifecycleEvent = Sentinel ''delivery'' ''invalid lifecycle event''"
definition ErrInvalidClaimToken :: go_err where [sentinel_defs]: "ErrInvalidClaimToken = Sentinel ''delivery'' ''invalid claim token''"

definition errorCode :: "go_err \<Rightarrow> string" where
  "errorCode e =
     (if errors_is e ErrIntentAlreadyClaimed then ''intent_already_claimed''
      else if errors_is e ErrIntentAlreadyCompleted then ''intent_already_completed''
      else if errors_is e ErrIntentExpired then ''intent_expired''
      else if errors_is e ErrIntentTargetMismatch then ''intent_target_mismatch''
      else if errors_is e ErrRuntimeNotAlive then ''runtime_not_alive''
      else if errors_is e ErrInvalidClaimToken then ''invalid_claim_token''
      else ''conflict'')"

definition conflict :: "go_err \<Rightarrow> go_err" where
  "conflict e = ServiceErr e (errorCode e) 409"

definition notFound :: "int \<Rightarrow> go_err" where
  "notFound i = ServiceErr (Wrapped [] ErrIntentNotFound ('': '' @ show_int i)) ''intent_not_found'' 404"

definition badRequest :: "go_err \<Rightarrow> go_err" where
  "badRequest e = ServiceErr e ''bad_request'' 400"

section \<open>Intents\<close>

record delivery_intent =
  di_id :: int
  di_target :: agent_identity
  di_state :: intent_state
  di_key :: string
  di_created :: time
  di_expires :: time
  di_claimed_at :: "time option"
  di_token :: "string option"
  di_claimed_by :: "agent_identity option"
  di_completed_at :: "time option"
  di_source :: "string option"
  di_channel_message :: "int option"
  di_watermark :: "string option"

record delivery_event =
  de_id :: int
  de_intent :: int
  de_type :: string
  de_payload :: string
  de_created :: time

definition intent_valid :: "delivery_intent \<Rightarrow> bool" where
  "intent_valid i \<longleftrightarrow>
     agent_is_valid (di_target i) \<and> intent_state_valid (di_state i) \<and> di_key i \<noteq> [] \<and>
     \<not> is_zero_time (di_created i) \<and> di_expires i > di_created i"

definition NewDeliveryIntent ::
    "agent_identity \<Rightarrow> string \<Rightarrow> duration \<Rightarrow> string option \<Rightarrow> int option \<Rightarrow> time \<Rightarrow> go_err + delivery_intent" where
  "NewDeliveryIntent target key ttl source msg now =
     (let i = \<lparr>di_id = 0, di_target = target, di_state = IntentStatePending, di_key = key,
               di_created = now, di_expires = now + ttl, di_claimed_at = None, di_token = None,
               di_claimed_by = None, di_completed_at = None, di_source = source,
               di_channel_message = msg, di_watermark = None\<rparr>
      in if \<not> intent_valid i then Inl ErrInvalidIntent else Inr i)"

definition rehydrateDeliveryIntent :: "delivery_intent \<Rightarrow> go_err + delivery_intent" where
  "rehydrateDeliveryIntent i = (if \<not> intent_valid i then Inl ErrInvalidIntent else Inr i)"

text \<open>\<open>state.go\<close>: the claim on a loaded intent and the guard of a lifecycle report.\<close>

definition applyClaim :: "string \<Rightarrow> agent_identity \<Rightarrow> time \<Rightarrow> delivery_intent \<Rightarrow> go_err + delivery_intent" where
  "applyClaim token claimed_by at i =
     (if di_state i \<noteq> IntentStatePending then Inl ErrIntentAlreadyClaimed
      else Inr (i\<lparr>di_state := IntentStateClaimed, di_token := Some token,
                  di_claimed_by := Some claimed_by, di_claimed_at := Some at\<rparr>))"

definition canReport :: "string \<Rightarrow> string \<Rightarrow> delivery_intent \<Rightarrow> go_err option" where
  "canReport event token i =
     (if di_token i \<noteq> Some token then Some ErrInvalidClaimToken
      else if intent_state_terminal (di_state i) then Some ErrIntentAlreadyCompleted
      else if event = ''running''
      then (if di_state i \<noteq> IntentStateClaimed then Some ErrInvalidLifecycleEvent else None)
      else if event = ''completed'' \<or> event = ''failed''
      then (if di_state i \<noteq> IntentStateRunning \<and> di_state i \<noteq> IntentStateClaimed
            then Some ErrInvalidLifecycleEvent else None)
      else Some ErrInvalidLifecycleEvent)"

section \<open>Requests\<close>

record create_intent_request =
  cir_target :: agent_identity
  cir_key :: string
  cir_ttl_seconds :: "int option"
  cir_source :: "string option"
  cir_channel_message :: "int option"

definition create_request_validate :: "create_intent_request \<Rightarrow> go_err option" where
  "create_request_validate r =
     (if \<not> agent_is_valid (cir_target r) then Some ErrInvalidIntent
      else case Parse (cir_key r) of
             Inl e \<Rightarrow> Some e
           | Inr k \<Rightarrow>
               if k_profile k \<noteq> ai_profile (cir_target r) then Some ErrInvalidIntent
               else if (case cir_ttl_seconds r of None \<Rightarrow> False | Some s \<Rightarrow> s \<le> 0) then Some ErrInvalidIntent
               else None)"

record claim_request =
  clr_token :: string
  clr_claimed_by :: agent_identity

definition claim_request_validate :: "claim_request \<Rightarrow> go_err option" where
  "claim_request_validate r =
     (if clr_token r = [] \<or> \<not> agent_is_valid (clr_claimed_by r) then Some ErrInvalidIntent else None)"

record lifecycle_event_request =
  ler_type :: string
  ler_token :: string
  ler_payload :: string

definition lifecycle_request_validate :: "lifecycle_event_request \<Rightarrow> go_err option" where
  "lifecycle_request_validate r =
     (if ler_token r = [] then Some ErrInvalidClaimToken
      else if ler_type r = ''running'' \<or> ler_type r = ''completed'' \<or> ler_type r = ''failed'' then None
      else Some ErrInvalidLifecycleEvent)"

record intent_response =
  ir_id :: int
  ir_target :: agent_identity
  ir_state :: intent_state
  ir_key :: string
  ir_created :: time
  ir_expires :: time
  ir_claimed_at :: "time option"
  ir_claimed_by :: "agent_identity option"
  ir_completed_at :: "time option"
  ir_source :: "string option"
  ir_channel_message :: "int option"
  ir_watermark :: "string option"

definition toIntentResponse :: "delivery_intent \<Rightarrow> intent_response" where
  "toIntentResponse i =
     \<lparr>ir_id = di_id i, ir_target = di_target i, ir_state = di_state i, ir_key = di_key i,
      ir_created = di_created i, ir_expires = di_expires i, ir_claimed_at = di_claimed_at i,
      ir_claimed_by = di_claimed_by i, ir_completed_at = di_completed_at i,
      ir_source = di_source i, ir_channel_message = di_channel_message i,
      ir_watermark = di_watermark i\<rparr>"

section \<open>Basic facts\<close>

lemma rehydrate_valid [simp]: "intent_valid i \<Longrightarrow> rehydrateDeliveryIntent i = Inr i"
  by (simp add: rehydrateDeliveryIntent_def)

lemma rehydrate_Inr: "rehydrateDeliveryIntent i = Inr j \<longleftrightarrow> j = i \<and> intent_valid i"
  by (auto simp: rehydrateDeliveryIntent_def)

lemma NewDeliveryIntent_Inr:
  "NewDeliveryIntent t k ttl s m now = Inr i \<Longrightarrow>
     intent_valid i \<and> di_state i = IntentStatePending \<and> di_target i = t \<and> di_key i = k \<and>
     di_created i = now \<and> di_expires i = now + ttl \<and> 0 < ttl \<and> di_token i = None \<and>
     di_completed_at i = None"
  by (auto simp: NewDeliveryIntent_def Let_def intent_valid_def split: if_splits)

lemma canReport_None:
  "canReport event token i = None \<longleftrightarrow>
     di_token i = Some token \<and>
     ((event = ''running'' \<and> di_state i = IntentStateClaimed) \<or>
      (event \<in> {''completed'', ''failed''} \<and> di_state i \<in> {IntentStateRunning, IntentStateClaimed}))"
  by (cases "di_state i") (auto simp: canReport_def)

lemma applyClaim_Inr:
  "applyClaim token by at i = Inr j \<longleftrightarrow>
     di_state i = IntentStatePending \<and>
     j = i\<lparr>di_state := IntentStateClaimed, di_token := Some token,
           di_claimed_by := Some by, di_claimed_at := Some at\<rparr>"
  by (auto simp: applyClaim_def)

end
