(* ===== verification/Delivery_Store.thy ===== *)
theory Delivery_Store
  imports Delivery_Types
begin

text \<open>
  Package \<open>delivery\<close>, the PostgreSQL store (\<open>store.go\<close>): the two tables with the constraints of
  the schema, one definition per SQL statement, and one per method of \<open>Store\<close>, which calls
  the statements through the connection and scans the rows it gets back. A lifecycle report
  runs in a transaction that is rolled back on every error.
\<close>

section \<open>Tables and constraints\<close>

record delivery_db =
  dd_intents :: "delivery_intent list"
  dd_events :: "delivery_event list"
  dd_next_intent :: int
  dd_next_event :: int

definition intent_checks :: "delivery_intent \<Rightarrow> bool" where
  "intent_checks r \<longleftrightarrow>
     di_expires r > di_created r \<and>
     (case di_completed_at r of None \<Rightarrow> True | Some c \<Rightarrow> di_created r \<le> c)"

definition token_free :: "string \<Rightarrow> int \<Rightarrow> delivery_intent list \<Rightarrow> bool" where
  "token_free token i rs \<longleftrightarrow> (\<forall>r\<in>set rs. di_id r \<noteq> i \<longrightarrow> di_token r \<noteq> Some token)"

section \<open>Statements\<close>

definition createIntentSQL :: "delivery_intent \<Rightarrow> (delivery_db, delivery_intent) stmt" where
  "createIntentSQL i db =
     (let n = dd_next_intent db;
          new = \<lparr>di_id = n, di_target = di_target i, di_state = di_state i, di_key = di_key i,
                 di_created = di_created i, di_expires = di_expires i, di_claimed_at = None,
                 di_token = None, di_claimed_by = None, di_completed_at = None,
                 di_source = di_source i, di_channel_message = di_channel_message i,
                 di_watermark = None\<rparr>
      in if \<not> intent_checks new then None
         else case row_lookup di_key (di_key i) (dd_intents db) of
                Some r \<Rightarrow> Some (r, db\<lparr>dd_next_intent := n + 1\<rparr>)
              | None \<Rightarrow> Some (new, db\<lparr>dd_intents := dd_intents db @ [new], dd_next_intent := n + 1\<rparr>))"

definition getIntentSQL :: "int \<Rightarrow> delivery_db \<Rightarrow> delivery_intent option" where
  "getIntentSQL i db = row_lookup di_id i (dd_intents db)"

definition getIntentForUpdateSQL :: "int \<Rightarrow> delivery_db \<Rightarrow> delivery_intent option" where
  "getIntentForUpdateSQL i db = row_lookup di_id i (dd_intents db)"

definition listIntentsSQL :: "delivery_db \<Rightarrow> delivery_intent list" where
  "listIntentsSQL db = sort_key (\<lambda>r. - di_created r) (dd_intents db)"

definition listIntentsByStateSQL :: "intent_state \<Rightarrow> delivery_db \<Rightarrow> delivery_intent list" where
  "listIntentsByStateSQL s db =
     sort_key (\<lambda>r. - di_created r) (filter (\<lambda>r. di_state r = s) (dd_intents db))"

definition claimed_row :: "string \<Rightarrow> agent_identity \<Rightarrow> time \<Rightarrow> delivery_intent \<Rightarrow> delivery_intent" where
  "claimed_row token claimed_by at r =
     r\<lparr>di_state := IntentStateClaimed, di_token := Some token, di_claimed_by := Some claimed_by,
       di_claimed_at := Some at\<rparr>"

definition claimPendingSQL ::
    "int \<Rightarrow> string \<Rightarrow> agent_identity \<Rightarrow> time \<Rightarrow> (delivery_db, delivery_intent option) stmt" where
  "claimPendingSQL i token claimed_by at db =
     (case row_lookup di_id i (dd_intents db) of
        None \<Rightarrow> Some (None, db)
      | Some r \<Rightarrow>
          if di_state r \<noteq> IntentStatePending then Some (None, db)
          else if \<not> token_free token i (dd_intents db) then None
          else Some (Some (claimed_row token claimed_by at r),
                 db\<lparr>dd_intents := update_where (\<lambda>r. di_id r = i \<and> di_state r = IntentStatePending)
                                     (claimed_row token claimed_by at) (dd_intents db)\<rparr>))"

definition completed_row :: "intent_state \<Rightarrow> time option \<Rightarrow> delivery_intent \<Rightarrow> delivery_intent" where
  "completed_row s at r = r\<lparr>di_state := s, di_completed_at := at\<rparr>"

text \<open>An update that sets the state and the completion time of the rows it selects.\<close>

definition complete_where ::
    "(delivery_intent \<Rightarrow> bool) \<Rightarrow> intent_state \<Rightarrow> time option \<Rightarrow> delivery_db \<Rightarrow> delivery_db option" where
  "complete_where P s at db =
     (let rs = update_where P (completed_row s at) (dd_intents db)
      in if list_all intent_checks rs then Some (db\<lparr>dd_intents := rs\<rparr>) else None)"

definition expireIfPendingSQL :: "int \<Rightarrow> time \<Rightarrow> (delivery_db, unit) stmt" where
  "expireIfPendingSQL i at db =
     map_option (\<lambda>d. ((), d))
       (complete_where (\<lambda>r. di_id r = i \<and> di_state r = IntentStatePending) IntentStateExpired (Some at) db)"

definition updateLifecycleSQL ::
    "int \<Rightarrow> intent_state \<Rightarrow> time option \<Rightarrow> (delivery_db, delivery_intent option) stmt" where
  "updateLifecycleSQL i s at db =
     map_option (\<lambda>d. (row_lookup di_id i (dd_intents d), d)) (complete_where (\<lambda>r. di_id r = i) s at db)"

definition insertEventSQL :: "int \<Rightarrow> string \<Rightarrow> string \<Rightarrow> time \<Rightarrow> (delivery_db, unit) stmt" where
  "insertEventSQL i event payload at db =
     (if row_lookup di_id i (dd_intents db) = None then None
      else Some ((), db\<lparr>dd_events := dd_events db @ [\<lparr>de_id = dd_next_event db, de_intent = i,
                          de_type = event, de_payload = payload, de_created = at\<rparr>],
                        dd_next_event := dd_next_event db + 1\<rparr>))"

definition expirePendingBeforeSQL :: "time \<Rightarrow> time \<Rightarrow> (delivery_db, int) stmt" where
  "expirePendingBeforeSQL before at db =
     (let P = (\<lambda>r. di_state r = IntentStatePending \<and> di_created r \<le> before)
      in map_option (\<lambda>d. (count_where P (dd_intents db), d))
           (complete_where P IntentStateExpired (Some at) db))"

definition listRunningBeforeSQL :: "time \<Rightarrow> delivery_db \<Rightarrow> delivery_intent list" where
  "listRunningBeforeSQL before db =
     filter (\<lambda>r. di_state r = IntentStateRunning \<and>
                 (case di_claimed_at r of None \<Rightarrow> False | Some c \<Rightarrow> c \<le> before)) (dd_intents db)"

definition failRunningSQL :: "int \<Rightarrow> time \<Rightarrow> (delivery_db, unit) stmt" where
  "failRunningSQL i at db =
     map_option (\<lambda>d. ((), d))
       (complete_where (\<lambda>r. di_id r = i \<and> di_state r = IntentStateRunning) IntentStateFailed (Some at) db)"

section \<open>Store methods\<close>

definition scanIntent :: "delivery_intent \<Rightarrow> go_err + delivery_intent" where
  "scanIntent r = rehydrateDeliveryIntent r"

text \<open>\<open>QueryRow\<close> followed by \<open>scanIntent\<close> on a row that is there.\<close>

definition scan_wrapped :: "string \<Rightarrow> delivery_intent \<Rightarrow> go_err + delivery_intent" where
  "scan_wrapped ctx r = (case scanIntent r of Inl e \<Rightarrow> Inl (Wrapped ctx e []) | Inr i \<Rightarrow> Inr i)"

definition store_Create :: "delivery_intent \<Rightarrow> delivery_db pg \<Rightarrow> (go_err + delivery_intent) \<times> delivery_db pg" where
  "store_Create i db =
     (case pg_call (createIntentSQL i) db of
        (Inl e, db') \<Rightarrow> (Inl (Wrapped ''creating delivery intent: '' e []), db')
      | (Inr r, db') \<Rightarrow> (scan_wrapped ''creating delivery intent: '' r, db'))"

definition store_GetByID :: "int \<Rightarrow> delivery_db pg \<Rightarrow> (go_err + delivery_intent) \<times> delivery_db pg" where
  "store_GetByID i db =
     (let ctx = ''getting delivery intent '' @ show_int i @ '': ''
      in case pg_call (read_only (getIntentSQL i)) db of
           (Inl e, db') \<Rightarrow> (Inl (Wrapped ctx e []), db')
         | (Inr None, db') \<Rightarrow> (Inl (notFound i), db')
         | (Inr (Some r), db') \<Rightarrow> (scan_wrapped ctx r, db'))"

text \<open>The rows of a list query: scanned one by one, then \<open>rows.Err\<close> is read.\<close>

definition read_rows ::
    "string \<Rightarrow> string \<Rightarrow> (delivery_db \<Rightarrow> delivery_intent list) \<Rightarrow> delivery_db pg \<Rightarrow>
     (go_err + delivery_intent list) \<times> delivery_db pg" where
  "read_rows qctx rctx q db =
     (case pg_call (read_only q) db of
        (Inl e, db') \<Rightarrow> (Inl (Wrapped qctx e []), db')
      | (Inr rows, db') \<Rightarrow>
          (case scan_all scanIntent rows of
             Inl e \<Rightarrow> (Inl e, db')
           | Inr is \<Rightarrow>
               (case pg_call (read_only (\<lambda>_. ())) db' of
                  (Inl e, db'') \<Rightarrow> (Inl (Wrapped rctx e []), db'')
                | (Inr _, db'') \<Rightarrow> (Inr is, db''))))"

definition store_List :: "intent_state option \<Rightarrow> delivery_db pg \<Rightarrow> (go_err + delivery_intent list) \<times> delivery_db pg" where
  "store_List s db =
     read_rows ''listing delivery intents: '' ''reading delivery intents: ''
       (case s of None \<Rightarrow> listIntentsSQL | Some s \<Rightarrow> listIntentsByStateSQL s) db"

definition claimConflict :: "int \<Rightarrow> delivery_db pg \<Rightarrow> go_err \<times> delivery_db pg" where
  "claimConflict i db =
     (case store_GetByID i db of
        (Inl e, db') \<Rightarrow> (e, db')
      | (Inr r, db') \<Rightarrow>
          (if di_state r \<in> {IntentStateCompleted, IntentStateFailed, IntentStateCancelled, IntentStateDisplayOnly}
           then (conflict ErrIntentAlreadyCompleted, db')
           else if di_state r = IntentStateExpired then (conflict ErrIntentExpired, db')
           else (conflict ErrIntentAlreadyClaimed, db')))"

definition store_ClaimPending ::
    "int \<Rightarrow> string \<Rightarrow> agent_identity \<Rightarrow> time \<Rightarrow> delivery_db pg \<Rightarrow> (go_err + delivery_intent) \<times> delivery_db pg" where
  "store_ClaimPending i token claimed_by at db =
     (let ctx = ''claiming delivery intent '' @ show_int i @ '': ''
      in case pg_call (claimPendingSQL i token claimed_by at) db of
           (Inl e, db') \<Rightarrow> (Inl (Wrapped ctx e []), db')
         | (Inr None, db') \<Rightarrow> (let (e, db'') = claimConflict i db' in (Inl e, db''))
         | (Inr (Some r), db') \<Rightarrow> (scan_wrapped ctx r, db'))"

definition store_ExpireIfPending :: "int \<Rightarrow> time \<Rightarrow> delivery_db pg \<Rightarrow> (go_err + unit) \<times> delivery_db pg" where
  "store_ExpireIfPending i at db =
     (case pg_call (expireIfPendingSQL i at) db of
        (Inl e, db') \<Rightarrow> (Inl (Wrapped (''expiring pending delivery intent '' @ show_int i @ '': '') e []), db')
      | (Inr _, db') \<Rightarrow> (Inr (), db'))"

definition next_state :: "string \<Rightarrow> intent_state" where
  "next_state event =
     (if event = ''failed'' then IntentStateFailed
      else if event = ''completed'' then IntentStateCompleted
      else IntentStateRunning)"

definition next_completed :: "string \<Rightarrow> time \<Rightarrow> time option" where
  "next_completed event at = (if event = ''completed'' \<or> event = ''failed'' then Some at else None)"

text \<open>The statements of a lifecycle report, between \<open>BeginTx\<close> and the end of the transaction.\<close>

definition report_body ::
    "int \<Rightarrow> string \<Rightarrow> string \<Rightarrow> string \<Rightarrow> time \<Rightarrow> delivery_db pg \<Rightarrow> (go_err + delivery_intent) \<times> delivery_db pg" where
  "report_body i token event payload at db =
     (let lctx = ''loading delivery intent '' @ show_int i @ '' for lifecycle: '';
          uctx = ''updating delivery intent '' @ show_int i @ '' lifecycle: '';
          ectx = ''recording delivery event '' @ show_int i @ '': ''
      in case pg_call (read_only (getIntentForUpdateSQL i)) db of
           (Inl e, db1) \<Rightarrow> (Inl (Wrapped lctx e []), db1)
         | (Inr None, db1) \<Rightarrow> (Inl (notFound i), db1)
         | (Inr (Some r), db1) \<Rightarrow>
             (case scan_wrapped lctx r of
                Inl e \<Rightarrow> (Inl e, db1)
              | Inr current \<Rightarrow>
                  (case canReport event token current of
                     Some e \<Rightarrow> (Inl (conflict e), db1)
                   | None \<Rightarrow>
                       (case pg_call (updateLifecycleSQL i (next_state event) (next_completed event at)) db1 of
                          (Inl e, db2) \<Rightarrow> (Inl (Wrapped uctx e []), db2)
                        | (Inr None, db2) \<Rightarrow> (Inl (Wrapped uctx ErrNoRows []), db2)
                        | (Inr (Some r'), db2) \<Rightarrow>
                            (case scan_wrapped uctx r' of
                               Inl e \<Rightarrow> (Inl e, db2)
                             | Inr intent \<Rightarrow>
                                 (case pg_call (insertEventSQL i event payload at) db2 of
                                    (Inl e, db3) \<Rightarrow> (Inl (Wrapped ectx e []), db3)
                                  | (Inr _, db3) \<Rightarrow>
                                      (case pg_call (read_only (\<lambda>_. ())) db3 of
                                         (Inl e, db4) \<Rightarrow> (Inl (Wrapped ''committing delivery lifecycle event: '' e []), db4)
                                       | (Inr _, db4) \<Rightarrow> (Inr intent, db4))))))))"

definition store_ReportEvent ::
    "int \<Rightarrow> string \<Rightarrow> string \<Rightarrow> string \<Rightarrow> time \<Rightarrow> delivery_db pg \<Rightarrow> (go_err + delivery_intent) \<times> delivery_db pg" where
  "store_ReportEvent i token event payload at db =
     (case pg_call (read_only (\<lambda>_. ())) db of
        (Inl e, db0) \<Rightarrow> (Inl (Wrapped ''beginning lifecycle event: '' e []), db0)
      | (Inr _, db0) \<Rightarrow>
          (case report_body i token event payload at db0 of
             (Inl e, db') \<Rightarrow> (Inl e, pg_rollback db0 db')
           | (Inr intent, db') \<Rightarrow> (Inr intent, db')))"

definition store_ExpirePendingBefore :: "time \<Rightarrow> time \<Rightarrow> delivery_db pg \<Rightarrow> (go_err + int) \<times> delivery_db pg" where
  "store_ExpirePendingBefore before at db =
     (case pg_call (expirePendingBeforeSQL before at) db of
        (Inl e, db') \<Rightarrow> (Inl (Wrapped ''expiring pending delivery intents: '' e []), db')
      | (Inr n, db') \<Rightarrow> (Inr n, db'))"

definition store_ListRunningBefore :: "time \<Rightarrow> delivery_db pg \<Rightarrow> (go_err + delivery_intent list) \<times> delivery_db pg" where
  "store_ListRunningBefore before db =
     read_rows ''listing running delivery intents: '' ''reading running delivery intents: ''
       (listRunningBeforeSQL before) db"

definition store_FailRunning :: "int \<Rightarrow> time \<Rightarrow> delivery_db pg \<Rightarrow> (go_err + unit) \<times> delivery_db pg" where
  "store_FailRunning i at db =
     (case pg_call (failRunningSQL i at) db of
        (Inl e, db') \<Rightarrow> (Inl (Wrapped (''failing running delivery intent '' @ show_int i @ '': '') e []), db')
      | (Inr _, db') \<Rightarrow> (Inr (), db'))"

end
