(* ===== verification/Delivery_Inv.thy ===== *)
theory Delivery_Inv
  imports Delivery_Store
begin

text \<open>
  The invariant of the delivery tables, the lifecycle of one intent as an abstract step relation
  on rows, and the refinement: every store method, under any schedule of driver failures, moves
  each stored intent by at most one abstract step and keeps the invariant.
\<close>

section \<open>The abstract lifecycle of an intent\<close>

inductive intent_step :: "delivery_intent \<Rightarrow> delivery_intent \<Rightarrow> bool" where
  stay: "intent_step r r"
| claim: "di_state r = IntentStatePending \<Longrightarrow> intent_step r (claimed_row token claimed_by at r)"
| expire: "di_state r = IntentStatePending \<Longrightarrow>
     intent_step r (completed_row IntentStateExpired (Some at) r)"
| start: "di_state r = IntentStateClaimed \<Longrightarrow> intent_step r (completed_row IntentStateRunning None r)"
| finish: "di_state r \<in> {IntentStateClaimed, IntentStateRunning} \<Longrightarrow>
     s \<in> {IntentStateCompleted, IntentStateFailed} \<Longrightarrow> intent_step r (completed_row s (Some at) r)"

inductive_cases intent_stepE: "intent_step r r'"

lemma intent_step_frame:
  "intent_step r r' \<Longrightarrow>
     di_id r' = di_id r \<and> di_target r' = di_target r \<and> di_key r' = di_key r \<and>
     di_created r' = di_created r \<and> di_expires r' = di_expires r \<and> di_source r' = di_source r \<and>
     di_channel_message r' = di_channel_message r \<and> di_watermark r' = di_watermark r"
  by (auto elim!: intent_stepE simp: claimed_row_def completed_row_def)

lemma intent_step_terminal: "intent_step r r' \<Longrightarrow> intent_state_terminal (di_state r) \<Longrightarrow> r' = r"
  by (auto elim!: intent_stepE)

lemma intent_step_claimed:
  "intent_step r r' \<Longrightarrow> di_state r \<noteq> IntentStatePending \<Longrightarrow>
     di_token r' = di_token r \<and> di_claimed_by r' = di_claimed_by r \<and> di_claimed_at r' = di_claimed_at r \<and>
     di_state r' \<noteq> IntentStatePending"
  by (auto elim!: intent_stepE simp: claimed_row_def completed_row_def)

section \<open>The invariant\<close>

definition lifecycle_ok :: "delivery_intent \<Rightarrow> bool" where
  "lifecycle_ok r =
     (case di_state r of
        IntentStatePending \<Rightarrow> di_token r = None \<and> di_claimed_by r = None \<and> di_completed_at r = None
      | IntentStateClaimed \<Rightarrow> di_token r \<noteq> None \<and> di_claimed_by r \<noteq> None \<and> di_claimed_at r \<noteq> None \<and> di_completed_at r = None
      | IntentStateRunning \<Rightarrow> di_token r \<noteq> None \<and> di_claimed_by r \<noteq> None \<and> di_claimed_at r \<noteq> None \<and> di_completed_at r = None
      | IntentStateCompleted \<Rightarrow> di_token r \<noteq> None \<and> di_completed_at r \<noteq> None
      | IntentStateFailed \<Rightarrow> di_token r \<noteq> None \<and> di_completed_at r \<noteq> None
      | IntentStateExpired \<Rightarrow> di_token r = None \<and> di_completed_at r \<noteq> None
      | _ \<Rightarrow> True)"

definition row_ok :: "delivery_intent \<Rightarrow> bool" where
  "row_ok r \<longleftrightarrow> intent_valid r \<and> intent_checks r \<and> lifecycle_ok r"

definition tokens_unique :: "delivery_intent list \<Rightarrow> bool" where
  "tokens_unique rs \<longleftrightarrow>
     (\<forall>r\<in>set rs. \<forall>r'\<in>set rs. di_token r \<noteq> None \<longrightarrow> di_token r = di_token r' \<longrightarrow> di_id r = di_id r')"

lemma tokens_uniqueD:
  "tokens_unique rs \<Longrightarrow> r \<in> set rs \<Longrightarrow> r' \<in> set rs \<Longrightarrow> di_token r = Some t \<Longrightarrow>
     di_token r' = Some t \<Longrightarrow> di_id r = di_id r'"
  unfolding tokens_unique_def by (metis option.distinct(1))

lemma tokens_uniqueI:
  "(\<And>r r' t. r \<in> set rs \<Longrightarrow> r' \<in> set rs \<Longrightarrow> di_token r = Some t \<Longrightarrow> di_token r' = Some t \<Longrightarrow>
     di_id r = di_id r') \<Longrightarrow> tokens_unique rs"
  unfolding tokens_unique_def
proof (intro ballI impI)
  fix r r' assume *: "\<And>r r' t. r \<in> set rs \<Longrightarrow> r' \<in> set rs \<Longrightarrow> di_token r = Some t \<Longrightarrow>
      di_token r' = Some t \<Longrightarrow> di_id r = di_id r'"
    and r: "r \<in> set rs" "r' \<in> set rs" and t: "di_token r \<noteq> None" "di_token r = di_token r'"
  from t obtain u where "di_token r = Some u" "di_token r' = Some u" by auto
  with r show "di_id r = di_id r'" by (rule *)
qed

definition delivery_inv :: "delivery_db \<Rightarrow> bool" where
  "delivery_inv db \<longleftrightarrow>
     distinct (map di_id (dd_intents db)) \<and> distinct (map di_key (dd_intents db)) \<and>
     tokens_unique (dd_intents db) \<and> 0 < dd_next_intent db \<and>
     (\<forall>r\<in>set (dd_intents db). row_ok r \<and> 0 < di_id r \<and> di_id r < dd_next_intent db) \<and>
     (\<forall>e\<in>set (dd_events db). de_intent e \<in> di_id ` set (dd_intents db))"

definition empty_delivery_db :: delivery_db where
  "empty_delivery_db = \<lparr>dd_intents = [], dd_events = [], dd_next_intent = 1, dd_next_event = 1\<rparr>"

lemma delivery_inv_empty: "delivery_inv empty_delivery_db"
  by (simp add: delivery_inv_def empty_delivery_db_def tokens_unique_def)

lemma row_ok_claimed: "row_ok r \<Longrightarrow> di_state r = IntentStatePending \<Longrightarrow> row_ok (claimed_row t b at r)"
  by (simp add: row_ok_def intent_valid_def intent_checks_def lifecycle_ok_def claimed_row_def)

lemma row_ok_completed:
  assumes "row_ok r" and "intent_checks (completed_row s at r)"
    and "(s = IntentStateExpired \<and> di_state r = IntentStatePending \<and> at \<noteq> None) \<or>
         (s = IntentStateRunning \<and> di_state r = IntentStateClaimed \<and> at = None) \<or>
         (s \<in> {IntentStateCompleted, IntentStateFailed} \<and>
          di_state r \<in> {IntentStateClaimed, IntentStateRunning} \<and> at \<noteq> None)"
  shows "row_ok (completed_row s at r)"
  using assms by (auto simp: row_ok_def intent_valid_def lifecycle_ok_def completed_row_def)

lemma claimed_row_simps [simp]:
  "di_id (claimed_row t b at r) = di_id r" "di_key (claimed_row t b at r) = di_key r"
  "di_token (claimed_row t b at r) = Some t" "di_state (claimed_row t b at r) = IntentStateClaimed"
  by (simp_all add: claimed_row_def)

lemma completed_row_simps [simp]:
  "di_id (completed_row s at r) = di_id r" "di_key (completed_row s at r) = di_key r"
  "di_token (completed_row s at r) = di_token r" "di_state (completed_row s at r) = s"
  "di_completed_at (completed_row s at r) = at" "di_claimed_by (completed_row s at r) = di_claimed_by r"
  by (simp_all add: completed_row_def)

section \<open>Moving every row by an abstract step\<close>

text \<open>
  \<open>rows_step rs rs'\<close>: the rows of \<open>rs\<close> are those at the front of \<open>rs'\<close>, each moved by at most
  one abstract step.
\<close>

definition rows_step :: "delivery_intent list \<Rightarrow> delivery_intent list \<Rightarrow> bool" where
  "rows_step rs rs' \<longleftrightarrow> (\<exists>ts us. rs' = ts @ us \<and> list_all2 intent_step rs ts \<and> set us \<subseteq> {u. di_state u = IntentStatePending})"

lemma rows_step_refl [simp]: "rows_step rs rs"
  unfolding rows_step_def
  by (rule exI [of _ rs], rule exI [of _ "[]"]) (auto simp: list_all2_same intro: intent_step.stay)

lemma rows_step_update:
  "(\<And>r. r \<in> set rs \<Longrightarrow> P r \<Longrightarrow> intent_step r (f r)) \<Longrightarrow> rows_step rs (update_where P f rs)"
  unfolding rows_step_def update_where_def
  by (rule exI [of _ "map (\<lambda>r. if P r then f r else r) rs"], rule exI [of _ "[]"])
    (auto simp: list_all2_conv_all_nth intro: intent_step.stay)

lemma rows_step_append: "di_state u = IntentStatePending \<Longrightarrow> rows_step rs (rs @ [u])"
  unfolding rows_step_def
  by (rule exI [of _ rs], rule exI [of _ "[u]"]) (auto simp: list_all2_same intro: intent_step.stay)

lemma rows_step_lookup:
  assumes "rows_step rs rs'" and "row_lookup di_id i rs = Some r"
  shows "\<exists>r'. row_lookup di_id i rs' = Some r' \<and> intent_step r r'"
proof -
  from assms(1) obtain ts us where rs': "rs' = ts @ us" and a: "list_all2 intent_step rs ts"
    by (auto simp: rows_step_def)
  from a assms(2) have "\<exists>r'. row_lookup di_id i ts = Some r' \<and> intent_step r r'"
    by (induction rs ts rule: list_all2_induct) (auto split: if_splits dest: intent_step_frame)
  then show ?thesis by (auto simp: rs' row_lookup_append)
qed

section \<open>Statements\<close>

definition good_step :: "delivery_db \<Rightarrow> delivery_db \<Rightarrow> bool" where
  "good_step d d' \<longleftrightarrow> delivery_inv d' \<and> rows_step (dd_intents d) (dd_intents d')"

lemma good_step_refl: "delivery_inv d \<Longrightarrow> good_step d d"
  by (simp add: good_step_def)

lemma complete_where_Some:
  "complete_where P s at db = Some db' \<Longrightarrow>
     db' = db\<lparr>dd_intents := update_where P (completed_row s at) (dd_intents db)\<rparr> \<and>
     (\<forall>r\<in>set (dd_intents db). P r \<longrightarrow> intent_checks (completed_row s at r))"
  by (auto simp: complete_where_def Let_def list_all_iff update_where_def split: if_splits)

definition completes :: "intent_state \<Rightarrow> time option \<Rightarrow> delivery_intent \<Rightarrow> bool" where
  "completes s at r \<longleftrightarrow>
     (s = IntentStateExpired \<and> di_state r = IntentStatePending \<and> at \<noteq> None) \<or>
     (s = IntentStateRunning \<and> di_state r = IntentStateClaimed \<and> at = None) \<or>
     (s \<in> {IntentStateCompleted, IntentStateFailed} \<and>
      di_state r \<in> {IntentStateClaimed, IntentStateRunning} \<and> at \<noteq> None)"

lemma completes_intent_step: "completes s at r \<Longrightarrow> intent_step r (completed_row s at r)"
  by (auto simp: completes_def intro: intent_step.intros)

text \<open>
  Updating rows in place keeps the invariant when the update keeps the identifying columns and
  each updated row is well formed.
\<close>

lemma delivery_inv_update:
  assumes inv: "delivery_inv db"
    and keep: "\<And>r. di_id (f r) = di_id r \<and> di_key (f r) = di_key r"
    and ok: "\<And>r. r \<in> set (dd_intents db) \<Longrightarrow> P r \<Longrightarrow> row_ok (f r)"
    and tok: "tokens_unique (update_where P f (dd_intents db))"
  shows "delivery_inv (db\<lparr>dd_intents := update_where P f (dd_intents db)\<rparr>)"
proof -
  let ?rs = "update_where P f (dd_intents db)"
  have ids: "map di_id ?rs = map di_id (dd_intents db)" and keys: "map di_key ?rs = map di_key (dd_intents db)"
    using keep by (simp_all add: map_update_where)
  have "di_id ` set ?rs = di_id ` set (dd_intents db)"
    using ids by (metis list.set_map)
  moreover have "\<forall>r\<in>set ?rs. row_ok r \<and> 0 < di_id r \<and> di_id r < dd_next_intent db"
    using inv ok keep by (auto simp: delivery_inv_def dest!: set_update_where)
  ultimately show ?thesis
    using inv tok by (simp add: delivery_inv_def ids keys)
qed

lemma tokens_unique_keep:
  assumes "tokens_unique rs" and "\<And>r. di_id (f r) = di_id r \<and> di_token (f r) = di_token r"
  shows "tokens_unique (update_where P f rs)"
proof (rule tokens_uniqueI)
  fix r r' t assume r: "r \<in> set (update_where P f rs)" and r': "r' \<in> set (update_where P f rs)"
    and t: "di_token r = Some t" "di_token r' = Some t"
  from r assms(2) obtain q where q: "q \<in> set rs" "di_id r = di_id q" "di_token q = di_token r"
    by (metis set_update_where)
  from r' assms(2) obtain q' where q': "q' \<in> set rs" "di_id r' = di_id q'" "di_token q' = di_token r'"
    by (metis set_update_where)
  have "di_id q = di_id q'"
    by (rule tokens_uniqueD [OF assms(1) q(1) q'(1)]) (simp_all only: q(3) q'(3) t)
  with q(2) q'(2) show "di_id r = di_id r'" by (simp only:)
qed

lemma tokens_unique_claim:
  assumes "tokens_unique rs" and "token_free t i rs" and "\<And>r. P r \<Longrightarrow> di_id r = i"
  shows "tokens_unique (update_where P (claimed_row t b at) rs)"
proof (rule tokens_uniqueI)
  fix r r' u assume r: "r \<in> set (update_where P (claimed_row t b at) rs)"
    and r': "r' \<in> set (update_where P (claimed_row t b at) rs)"
    and u: "di_token r = Some u" "di_token r' = Some u"
  have row: "(di_id q = i \<and> u = t) \<or> (q \<in> set rs \<and> di_token q = Some u)"
    if "q \<in> set (update_where P (claimed_row t b at) rs)" "di_token q = Some u" for q
    using that assms(3) by (auto dest!: set_update_where split: if_splits)
  have free: "di_id q = i" if "q \<in> set rs" "di_token q = Some t" for q
    using that assms(2) unfolding token_free_def by blast
  show "di_id r = di_id r'"
  proof (cases "u = t")
    case True
    then have "di_id r = i" and "di_id r' = i"
      using row [OF r u(1)] row [OF r' u(2)] free by blast+
    then show ?thesis by (simp only:)
  next
    case False
    then have "r \<in> set rs" and "r' \<in> set rs"
      using row [OF r u(1)] row [OF r' u(2)] by blast+
    then show ?thesis using u by (rule tokens_uniqueD [OF assms(1)])
  qed
qed

lemma complete_where_good:
  assumes inv: "delivery_inv db" and some: "complete_where P s at db = Some db'"
    and comp: "\<And>r. r \<in> set (dd_intents db) \<Longrightarrow> P r \<Longrightarrow> completes s at r"
  shows "good_step db db'"
proof -
  note c = complete_where_Some [OF some]
  have "row_ok (completed_row s at r)" if "r \<in> set (dd_intents db)" "P r" for r
    using that c comp [OF that] inv row_ok_completed [of r s at]
    by (auto simp: delivery_inv_def completes_def)
  moreover have "tokens_unique (update_where P (completed_row s at) (dd_intents db))"
    using inv by (intro tokens_unique_keep) (auto simp: delivery_inv_def)
  ultimately have "delivery_inv db'"
    using inv c by (auto intro!: delivery_inv_update)
  moreover have "rows_step (dd_intents db) (dd_intents db')"
    using c comp by (auto intro: rows_step_update completes_intent_step)
  ultimately show ?thesis by (simp add: good_step_def)
qed

lemma claimPendingSQL_good:
  assumes "delivery_inv db" and "claimPendingSQL i t b at db = Some (x, db')"
  shows "good_step db db'"
proof (cases "db' = db")
  case True
  with assms show ?thesis by (simp add: good_step_refl)
next
  case False
  let ?P = "\<lambda>r. di_id r = i \<and> di_state r = IntentStatePending"
  from assms(2) False have db': "db' = db\<lparr>dd_intents := update_where ?P (claimed_row t b at) (dd_intents db)\<rparr>"
    and free: "token_free t i (dd_intents db)"
    by (auto simp: claimPendingSQL_def split: option.splits if_splits)
  have "delivery_inv db'"
    unfolding db'
  proof (rule delivery_inv_update)
    show "tokens_unique (update_where ?P (claimed_row t b at) (dd_intents db))"
      using assms(1) free by (intro tokens_unique_claim) (auto simp: delivery_inv_def)
  qed (use assms(1) in \<open>auto simp: delivery_inv_def intro: row_ok_claimed\<close>)
  moreover have "rows_step (dd_intents db) (dd_intents db')"
    by (auto simp: db' intro!: rows_step_update intent_step.claim)
  ultimately show ?thesis by (simp add: good_step_def)
qed

lemma createIntentSQL_good:
  assumes inv: "delivery_inv db" and i: "intent_valid i" "di_state i = IntentStatePending"
    and c: "createIntentSQL i db = Some (x, db')"
  shows "good_step db db'"
proof (cases "row_lookup di_key (di_key i) (dd_intents db)")
  case (Some r)
  with c have db': "db' = db\<lparr>dd_next_intent := dd_next_intent db + 1\<rparr>"
    by (auto simp: createIntentSQL_def Let_def split: if_splits)
  from inv show ?thesis by (auto simp: db' good_step_def delivery_inv_def)
next
  case None
  with c obtain n where db': "db' = db\<lparr>dd_intents := dd_intents db @ [n], dd_next_intent := dd_next_intent db + 1\<rparr>"
    and n: "di_id n = dd_next_intent db" "di_key n = di_key i" "di_state n = IntentStatePending"
      "row_ok n" "di_token n = None"
    using i by (auto simp: createIntentSQL_def Let_def row_ok_def intent_valid_def lifecycle_ok_def split: if_splits)
  have "tokens_unique (dd_intents db @ [n])"
    using inv n(5) by (intro tokens_uniqueI) (auto simp: delivery_inv_def dest: tokens_uniqueD)
  then have "delivery_inv db'"
    using inv n None by (auto simp: db' delivery_inv_def row_lookup_None)
  moreover have "rows_step (dd_intents db) (dd_intents db')"
    using n(3) by (simp add: db' rows_step_append)
  ultimately show ?thesis by (simp add: good_step_def)
qed

lemma insertEventSQL_good:
  assumes "delivery_inv db" and "insertEventSQL i ev p at db = Some (x, db')"
  shows "good_step db db' \<and> dd_intents db' = dd_intents db"
proof -
  from assms(2) have "dd_intents db' = dd_intents db" and "dd_next_intent db' = dd_next_intent db"
    and ev: "\<forall>e\<in>set (dd_events db'). e \<in> set (dd_events db) \<or> de_intent e = i"
    and i: "row_lookup di_id i (dd_intents db) \<noteq> None"
    by (auto simp: insertEventSQL_def split: if_splits)
  moreover from i have "i \<in> di_id ` set (dd_intents db)"
    by (simp add: row_lookup_None)
  ultimately show ?thesis using assms(1) by (auto simp: good_step_def delivery_inv_def)
qed

end
