(* ===== verification/Delivery_Service.thy ===== *)
theory Delivery_Service
  imports Delivery_Types
begin

text \<open>
  Package \<open>delivery\<close>, the service (\<open>service.go\<close>) and the HTTP handlers (\<open>handler.go\<close>). The Go
  interfaces \<open>IntentStore\<close> and \<open>RuntimeChecker\<close> are records of functions over a world \<open>'w\<close>,
  whatever the store and the runtime service keep; each call returns its result and the world
  after it, so a failed call can leave a changed world behind.
\<close>

section \<open>Interfaces\<close>

type_synonym ('w, 'a) action = "'w \<Rightarrow> (go_err + 'a) \<times> 'w"

record 'w intent_store =
  is_Create :: "delivery_intent \<Rightarrow> ('w, delivery_intent) action"
  is_GetByID :: "int \<Rightarrow> ('w, delivery_intent) action"
  is_List :: "intent_state option \<Rightarrow> ('w, delivery_intent list) action"
  is_ClaimPending :: "int \<Rightarrow> string \<Rightarrow> agent_identity \<Rightarrow> time \<Rightarrow> ('w, delivery_intent) action"
  is_ExpireIfPending :: "int \<Rightarrow> time \<Rightarrow> ('w, unit) action"
  is_ReportEvent :: "int \<Rightarrow> string \<Rightarrow> string \<Rightarrow> string \<Rightarrow> time \<Rightarrow> ('w, delivery_intent) action"
  is_ExpirePendingBefore :: "time \<Rightarrow> time \<Rightarrow> ('w, int) action"
  is_ListRunningBefore :: "time \<Rightarrow> ('w, delivery_intent list) action"
  is_FailRunning :: "int \<Rightarrow> time \<Rightarrow> ('w, unit) action"

record 'w runtime_checker =
  rc_IsAlive :: "agent_instance_id \<Rightarrow> ('w, bool) action"

record 'w intent_service =
  sv_store :: "'w intent_store"
  sv_runtime :: "'w runtime_checker"
  sv_clock :: "'w \<Rightarrow> time"
  sv_defaultTTL :: duration
  sv_maxTTL :: duration
  sv_pendingTTL :: duration
  sv_runningTTL :: duration

definition NewIntentService ::
    "'w intent_store \<Rightarrow> 'w runtime_checker \<Rightarrow> ('w \<Rightarrow> time) \<Rightarrow> duration \<Rightarrow> duration \<Rightarrow> duration \<Rightarrow> duration \<Rightarrow>
     'w intent_service" where
  "NewIntentService store runtime clock dttl mttl pttl rttl =
     \<lparr>sv_store = store, sv_runtime = runtime, sv_clock = clock, sv_defaultTTL = dttl,
      sv_maxTTL = mttl, sv_pendingTTL = pttl, sv_runningTTL = rttl\<rparr>"

section \<open>Operations\<close>

definition Create :: "'w intent_service \<Rightarrow> create_intent_request \<Rightarrow> ('w, delivery_intent) action" where
  "Create s req w =
     (case create_request_validate req of
        Some e \<Rightarrow> (Inl (badRequest e), w)
      | None \<Rightarrow>
          (let ttl = (case cir_ttl_seconds req of None \<Rightarrow> sv_defaultTTL s | Some n \<Rightarrow> wrap64 (n * second_ns))
           in if ttl > sv_maxTTL s then (Inl (badRequest ErrInvalidIntent), w)
              else case NewDeliveryIntent (cir_target req) (cir_key req) ttl (cir_source req)
                          (cir_channel_message req) (sv_clock s w) of
                     Inl e \<Rightarrow> (Inl (badRequest e), w)
                   | Inr i \<Rightarrow> is_Create (sv_store s) i w))"

definition Claim :: "'w intent_service \<Rightarrow> int \<Rightarrow> claim_request \<Rightarrow> ('w, delivery_intent) action" where
  "Claim s i req w =
     (case claim_request_validate req of
        Some e \<Rightarrow> (Inl (badRequest e), w)
      | None \<Rightarrow>
          (let now = sv_clock s w
           in case is_GetByID (sv_store s) i w of
                (Inl e, w1) \<Rightarrow> (Inl e, w1)
              | (Inr intent, w1) \<Rightarrow>
                  if \<not> agent_equal (di_target intent) (clr_claimed_by req)
                  then (Inl (conflict ErrIntentTargetMismatch), w1)
                  else if di_state intent = IntentStatePending \<and> \<not> now < di_expires intent
                  then (let (_, w2) = is_ExpireIfPending (sv_store s) i now w1
                        in (Inl (conflict ErrIntentExpired), w2))
                  else (case rc_IsAlive (sv_runtime s) (ai_instance (clr_claimed_by req)) w1 of
                          (Inl e, w2) \<Rightarrow> (Inl e, w2)
                        | (Inr alive, w2) \<Rightarrow>
                            if \<not> alive
                            then (let (_, w3) = is_ExpireIfPending (sv_store s) i now w2
                                  in (Inl (conflict ErrRuntimeNotAlive), w3))
                            else is_ClaimPending (sv_store s) i (clr_token req) (clr_claimed_by req) now w2)))"

definition ReportEvent :: "'w intent_service \<Rightarrow> int \<Rightarrow> lifecycle_event_request \<Rightarrow> ('w, delivery_intent) action" where
  "ReportEvent s i req w =
     (case lifecycle_request_validate req of
        Some e \<Rightarrow> (Inl (badRequest e), w)
      | None \<Rightarrow>
          (let payload = (if ler_payload req = [] then ''{}'' else ler_payload req)
           in is_ReportEvent (sv_store s) i (ler_token req) (ler_type req) payload (sv_clock s w) w))"

definition Get :: "'w intent_service \<Rightarrow> int \<Rightarrow> ('w, delivery_intent) action" where
  "Get s i w = (if i \<le> 0 then (Inl (badRequest ErrInvalidIntent), w) else is_GetByID (sv_store s) i w)"

definition ListIntents :: "'w intent_service \<Rightarrow> intent_state option \<Rightarrow> ('w, delivery_intent list) action" where
  "ListIntents s st w =
     (if (case st of None \<Rightarrow> False | Some x \<Rightarrow> \<not> intent_state_valid x)
      then (Inl (badRequest ErrInvalidIntentState), w)
      else is_List (sv_store s) st w)"

text \<open>
  The loop of \<open>Reap\<close> over the running intents: the number of intents failed so far, with the
  error that ended the loop early, if one did.
\<close>

fun reap_loop ::
    "'w intent_service \<Rightarrow> time \<Rightarrow> delivery_intent list \<Rightarrow> int \<Rightarrow> 'w \<Rightarrow> (int \<times> go_err option) \<times> 'w" where
  "reap_loop s now [] failed w = ((failed, None), w)"
| "reap_loop s now (intent # rest) failed w =
     (case di_claimed_by intent of
        None \<Rightarrow>
          (case is_FailRunning (sv_store s) (di_id intent) now w of
             (Inl e, w1) \<Rightarrow> ((failed, Some e), w1)
           | (Inr _, w1) \<Rightarrow> reap_loop s now rest (failed + 1) w1)
      | Some claimed_by \<Rightarrow>
          (case rc_IsAlive (sv_runtime s) (ai_instance claimed_by) w of
             (Inl e, w1) \<Rightarrow> ((failed, Some e), w1)
           | (Inr alive, w1) \<Rightarrow>
               if alive then reap_loop s now rest failed w1
               else (case is_FailRunning (sv_store s) (di_id intent) now w1 of
                       (Inl e, w2) \<Rightarrow> ((failed, Some e), w2)
                     | (Inr _, w2) \<Rightarrow> reap_loop s now rest (failed + 1) w2)))"

definition Reap :: "'w intent_service \<Rightarrow> 'w \<Rightarrow> (int \<times> int \<times> go_err option) \<times> 'w" where
  "Reap s w =
     (let now = sv_clock s w
      in case is_ExpirePendingBefore (sv_store s) (now - sv_pendingTTL s) now w of
           (Inl e, w1) \<Rightarrow> ((0, 0, Some e), w1)
         | (Inr expired, w1) \<Rightarrow>
             (case is_ListRunningBefore (sv_store s) (now - sv_runningTTL s) w1 of
                (Inl e, w2) \<Rightarrow> ((0, 0, Some e), w2)
              | (Inr running, w2) \<Rightarrow>
                  (let ((failed, err), w3) = reap_loop s now running 0 w2
                   in ((expired, failed, err), w3))))"

section \<open>Handlers\<close>

text \<open>
  A handler's inputs are the path parameter, the query parameter and the decoded body (or the
  error of \<open>DecodeJSON\<close>); its result is the answer it writes and the world it leaves.
\<close>

definition respond :: "int \<Rightarrow> (go_err + delivery_intent) \<times> 'w \<Rightarrow> intent_response http_response \<times> 'w" where
  "respond status r =
     (case r of
        (Inl e, w) \<Rightarrow> (WriteServiceError (Some e), w)
      | (Inr i, w) \<Rightarrow> (WriteJSON status (toIntentResponse i), w))"

definition createIntent ::
    "'w intent_service \<Rightarrow> go_err + create_intent_request \<Rightarrow> 'w \<Rightarrow> intent_response http_response \<times> 'w" where
  "createIntent s body w =
     (case body of
        Inl e \<Rightarrow> (WriteServiceError (Some e), w)
      | Inr req \<Rightarrow> respond 201 (Create s req w))"

definition listIntents ::
    "'w intent_service \<Rightarrow> string \<Rightarrow> 'w \<Rightarrow> intent_response list http_response \<times> 'w" where
  "listIntents s raw w =
     (let st = (if raw \<noteq> [] then Some (intent_state_of raw) else None)
      in case ListIntents s st w of
           (Inl e, w') \<Rightarrow> (WriteServiceError (Some e), w')
         | (Inr xs, w') \<Rightarrow> (WriteJSON 200 (map toIntentResponse xs), w'))"

definition getIntent :: "'w intent_service \<Rightarrow> string \<Rightarrow> 'w \<Rightarrow> intent_response http_response \<times> 'w" where
  "getIntent s rawid w =
     (case parse_required_int64 rawid of
        Inl e \<Rightarrow> (WriteServiceError (Some (badRequest ErrInvalidIntent)), w)
      | Inr i \<Rightarrow> respond 200 (Get s i w))"

definition claimIntent ::
    "'w intent_service \<Rightarrow> string \<Rightarrow> go_err + claim_request \<Rightarrow> 'w \<Rightarrow> intent_response http_response \<times> 'w" where
  "claimIntent s rawid body w =
     (case parse_required_int64 rawid of
        Inl e \<Rightarrow> (WriteServiceError (Some (badRequest ErrInvalidIntent)), w)
      | Inr i \<Rightarrow>
          (case body of
             Inl e \<Rightarrow> (WriteServiceError (Some e), w)
           | Inr req \<Rightarrow> respond 200 (Claim s i req w)))"

definition reportEvent ::
    "'w intent_service \<Rightarrow> string \<Rightarrow> go_err + lifecycle_event_request \<Rightarrow> 'w \<Rightarrow>
     intent_response http_response \<times> 'w" where
  "reportEvent s rawid body w =
     (case parse_required_int64 rawid of
        Inl e \<Rightarrow> (WriteServiceError (Some (badRequest ErrInvalidIntent)), w)
      | Inr i \<Rightarrow>
          (case body of
             Inl e \<Rightarrow> (WriteServiceError (Some e), w)
           | Inr req \<Rightarrow> respond 200 (ReportEvent s i req w)))"

section \<open>The liveness client\<close>

text \<open>
  \<open>RuntimeClient.IsAlive\<close> (\<open>runtime_client.go\<close>). The HTTP transport is a parameter: the answer to
  \<open>GET /v1/runtime/instances/<id>\<close>, or the error of the request. An answer has a status and the
  \<open>state\<close> field of its decoded body, or the error of decoding it.
\<close>

record liveness_reply =
  lr_status :: int
  lr_state :: "go_err + string"

definition RuntimeClient_IsAlive ::
    "(agent_instance_id \<Rightarrow> ('w, liveness_reply) action) \<Rightarrow> agent_instance_id \<Rightarrow> ('w, bool) action" where
  "RuntimeClient_IsAlive transport i w =
     (case transport i w of
        (Inl e, w') \<Rightarrow> (Inl (Wrapped ''checking runtime liveness: '' e []), w')
      | (Inr resp, w') \<Rightarrow>
          if lr_status resp = 404 then (Inr False, w')
          else if lr_status resp < 200 \<or> lr_status resp \<ge> 300
          then (Inl (Errorf (''runtime liveness status: '' @ show_int (lr_status resp))), w')
          else (case lr_state resp of
                  Inl e \<Rightarrow> (Inl (Wrapped ''decoding runtime liveness: '' e []), w')
                | Inr st \<Rightarrow>
                    (if st = ''active'' \<or> st = ''idle'' \<or> st = ''busy'' then (Inr True, w') else (Inr False, w'))))"

end
