(* ===== verification/Delivery_Client.thy ===== *)
theory Delivery_Client
  imports Delivery_Inv Delivery_Service
begin

text \<open>
  The contract between the delivery service and its store: what the methods of \<open>IntentStore\<close>
  do to the rows the store keeps (locale \<open>intent_store_laws\<close>), what the service's operations
  do over any store that keeps the contract (proved in the locale), and the proof that the
  PostgreSQL store keeps it under every schedule of driver failures.
\<close>

section \<open>What a store promises\<close>

definition expire_row :: "time \<Rightarrow> delivery_intent \<Rightarrow> delivery_intent" where
  "expire_row at r =
     (if di_state r = IntentStatePending then completed_row IntentStateExpired (Some at) r else r)"

definition fail_row :: "time \<Rightarrow> delivery_intent \<Rightarrow> delivery_intent" where
  "fail_row at r =
     (if di_state r = IntentStateRunning then completed_row IntentStateFailed (Some at) r else r)"

definition expire_before_row :: "time \<Rightarrow> time \<Rightarrow> delivery_intent \<Rightarrow> delivery_intent" where
  "expire_before_row before at r =
     (if di_state r = IntentStatePending \<and> di_created r \<le> before
      then completed_row IntentStateExpired (Some at) r else r)"

definition running_before :: "time \<Rightarrow> delivery_intent \<Rightarrow> bool" where
  "running_before before r \<longleftrightarrow>
     di_state r = IntentStateRunning \<and>
     (case di_claimed_at r of None \<Rightarrow> False | Some c \<Rightarrow> c \<le> before)"

type_synonym rows = "int \<Rightarrow> delivery_intent option"

text \<open>\<open>on_row i f m\<close>: the rows with \<open>f\<close> applied to row \<open>i\<close>, if it is there.\<close>

definition on_row :: "int \<Rightarrow> (delivery_intent \<Rightarrow> delivery_intent) \<Rightarrow> rows \<Rightarrow> rows" where
  "on_row i f m = m(i := map_option f (m i))"

locale intent_store_laws =
  fixes st :: "'w intent_store"
    and rows :: "'w \<Rightarrow> rows"
    and inv :: "'w \<Rightarrow> bool"
  assumes keys_unique: "inv w \<Longrightarrow> rows w i = Some a \<Longrightarrow> rows w j = Some c \<Longrightarrow> di_key a = di_key c \<Longrightarrow> i = j"
    and create_inv: "inv w \<Longrightarrow> intent_valid new \<Longrightarrow> di_state new = IntentStatePending \<Longrightarrow>
      is_Create st new w = (res, w') \<Longrightarrow> inv w'"
    and create_ok: "inv w \<Longrightarrow> intent_valid new \<Longrightarrow> di_state new = IntentStatePending \<Longrightarrow>
      is_Create st new w = (Inr x, w') \<Longrightarrow>
      di_key x = di_key new \<and>
      ((rows w' = rows w \<and> rows w (di_id x) = Some x) \<or>
       (rows w (di_id x) = None \<and> (\<forall>j r. rows w j = Some r \<longrightarrow> di_key r \<noteq> di_key new) \<and>
        rows w' = (rows w)(di_id x \<mapsto> x) \<and> di_state x = IntentStatePending \<and> di_target x = di_target new \<and> di_expires x = di_expires new \<and> di_created x = di_created new))"
    and create_err: "inv w \<Longrightarrow> intent_valid new \<Longrightarrow> di_state new = IntentStatePending \<Longrightarrow>
      is_Create st new w = (Inl e, w') \<Longrightarrow> rows w' = rows w"
    and get_inv: "inv w \<Longrightarrow> is_GetByID st i w = (res, w') \<Longrightarrow> inv w' \<and> rows w' = rows w"
    and get_ok: "inv w \<Longrightarrow> is_GetByID st i w = (Inr x, w') \<Longrightarrow> rows w i = Some x"
    and claim_inv: "inv w \<Longrightarrow> is_ClaimPending st i t b at w = (res, w') \<Longrightarrow> inv w'"
    and claim_ok: "inv w \<Longrightarrow> is_ClaimPending st i t b at w = (Inr x, w') \<Longrightarrow>
      \<exists>r. rows w i = Some r \<and> di_state r = IntentStatePending \<and> x = claimed_row t b at r \<and>
          rows w' = (rows w)(i \<mapsto> x)"
    and claim_err: "inv w \<Longrightarrow> is_ClaimPending st i t b at w = (Inl e, w') \<Longrightarrow> rows w' = rows w"
    and expire_inv: "inv w \<Longrightarrow> is_ExpireIfPending st i at w = (ures, w') \<Longrightarrow> inv w'"
    and expire_ok: "inv w \<Longrightarrow> is_ExpireIfPending st i at w = (Inr u, w') \<Longrightarrow>
      rows w' = on_row i (expire_row at) (rows w)"
    and expire_err: "inv w \<Longrightarrow> is_ExpireIfPending st i at w = (Inl e, w') \<Longrightarrow> rows w' = rows w"
    and report_inv: "inv w \<Longrightarrow> is_ReportEvent st i t ev p at w = (res, w') \<Longrightarrow> inv w'"
    and report_ok: "inv w \<Longrightarrow> is_ReportEvent st i t ev p at w = (Inr x, w') \<Longrightarrow>
      \<exists>r. rows w i = Some r \<and> canReport ev t r = None \<and>
          x = completed_row (next_state ev) (next_completed ev at) r \<and> rows w' = (rows w)(i \<mapsto> x)"
    and report_err: "inv w \<Longrightarrow> is_ReportEvent st i t ev p at w = (Inl e, w') \<Longrightarrow> rows w' = rows w"
    and expire_before_inv: "inv w \<Longrightarrow> is_ExpirePendingBefore st before at w = (nres, w') \<Longrightarrow> inv w'"
    and expire_before_ok: "inv w \<Longrightarrow> is_ExpirePendingBefore st before at w = (Inr n, w') \<Longrightarrow>
      rows w' = map_option (expire_before_row before at) \<circ> rows w"
    and expire_before_err: "inv w \<Longrightarrow> is_ExpirePendingBefore st before at w = (Inl e, w') \<Longrightarrow> rows w' = rows w"
    and running_inv: "inv w \<Longrightarrow> is_ListRunningBefore st before w = (lres, w') \<Longrightarrow> inv w' \<and> rows w' = rows w"
    and running_ok: "inv w \<Longrightarrow> is_ListRunningBefore st before w = (Inr xs, w') \<Longrightarrow>
      (\<forall>x\<in>set xs. rows w (di_id x) = Some x \<and> running_before before x) \<and>
      (\<forall>i r. rows w i = Some r \<longrightarrow> running_before before r \<longrightarrow> r \<in> set xs)"
    and fail_inv: "inv w \<Longrightarrow> is_FailRunning st i at w = (ures, w') \<Longrightarrow> inv w'"
    and fail_ok: "inv w \<Longrightarrow> is_FailRunning st i at w = (Inr u, w') \<Longrightarrow>
      rows w' = on_row i (fail_row at) (rows w)"
    and fail_err: "inv w \<Longrightarrow> is_FailRunning st i at w = (Inl e, w') \<Longrightarrow> rows w' = rows w"
    and list_inv: "inv w \<Longrightarrow> is_List st q w = (lres, w') \<Longrightarrow> inv w' \<and> rows w' = rows w"
    and list_ok: "inv w \<Longrightarrow> is_List st q w = (Inr xs, w') \<Longrightarrow>
      x \<in> set xs \<longleftrightarrow> rows w (di_id x) = Some x \<and> (case q of None \<Rightarrow> True | Some s \<Rightarrow> di_state x = s)"

section \<open>The PostgreSQL store keeps the promises\<close>

definition pg_rows :: "delivery_db pg \<Rightarrow> rows" where
  "pg_rows db i = row_lookup di_id i (dd_intents (pg_data db))"

definition pg_inv :: "delivery_db pg \<Rightarrow> bool" where
  "pg_inv db \<longleftrightarrow> delivery_inv (pg_data db)"

definition pg_intent_store :: "delivery_db pg intent_store" where
  "pg_intent_store =
     \<lparr>is_Create = store_Create, is_GetByID = store_GetByID, is_List = store_List,
      is_ClaimPending = store_ClaimPending, is_ExpireIfPending = store_ExpireIfPending,
      is_ReportEvent = store_ReportEvent, is_ExpirePendingBefore = store_ExpirePendingBefore,
      is_ListRunningBefore = store_ListRunningBefore, is_FailRunning = store_FailRunning\<rparr>"

lemma pg_rows_cong: "pg_data db' = pg_data db \<Longrightarrow> pg_rows db' = pg_rows db"
  by (simp add: pg_rows_def fun_eq_iff)

lemma pg_row_ok: "pg_inv db \<Longrightarrow> pg_rows db i = Some r \<Longrightarrow> row_ok r \<and> di_id r = i"
  by (auto simp: pg_inv_def pg_rows_def delivery_inv_def dest: row_lookup_Some)

lemma scan_wrapped_ok [simp]: "row_ok r \<Longrightarrow> scan_wrapped ctx r = Inr r"
  by (simp add: scan_wrapped_def scanIntent_def row_ok_def)

lemma scan_wrapped_Inr: "scan_wrapped ctx r = Inr x \<Longrightarrow> x = r"
  by (auto simp: scan_wrapped_def scanIntent_def rehydrate_Inr split: sum.splits)

lemma pg_rows_complete:
  assumes "complete_where P s at (pg_data db) = Some (pg_data db')"
  shows "pg_rows db' = map_option (\<lambda>r. if P r then completed_row s at r else r) \<circ> pg_rows db"
  using complete_where_Some [OF assms]
  by (auto simp: pg_rows_def fun_eq_iff row_lookup_update_where)

lemma pg_rows_update_id:
  assumes "dd_intents (pg_data db') = update_where (\<lambda>r. di_id r = i \<and> Q r) f (dd_intents (pg_data db))"
    and "\<And>r. di_id (f r) = di_id r"
  shows "pg_rows db' = on_row i (\<lambda>r. if Q r then f r else r) (pg_rows db)"
proof
  fix j
  have rows: "pg_rows db' j = map_option (\<lambda>r. if di_id r = i \<and> Q r then f r else r) (pg_rows db j)"
    by (simp add: pg_rows_def assms row_lookup_update_where)
  show "pg_rows db' j = on_row i (\<lambda>r. if Q r then f r else r) (pg_rows db) j"
  proof (cases "pg_rows db j")
    case None
    with rows show ?thesis by (auto simp: on_row_def)
  next
    case (Some r)
    then have "di_id r = j" by (auto simp: pg_rows_def dest: row_lookup_Some)
    with rows Some show ?thesis by (auto simp: on_row_def)
  qed
qed

lemma pg_rows_complete_id:
  assumes "complete_where (\<lambda>r. di_id r = i \<and> Q r) s at (pg_data db) = Some (pg_data db')"
  shows "pg_rows db' = on_row i (\<lambda>r. if Q r then completed_row s at r else r) (pg_rows db)"
  using complete_where_Some [OF assms] by (intro pg_rows_update_id) auto

text \<open>One lemma per method: the invariant, and the rows after each outcome.\<close>

lemma store_GetByID_laws:
  assumes "pg_inv db" and "store_GetByID i db = (res, db')"
  shows "pg_data db' = pg_data db \<and> (\<forall>x. res = Inr x \<longrightarrow> pg_rows db i = Some x)"
proof (cases rule: pg_call_cases [of "read_only (getIntentSQL i)" db])
  case (fail d)
  with assms show ?thesis by (auto simp: store_GetByID_def Let_def)
next
  case (ok r d)
  then have d: "pg_data d = pg_data db" and r: "r = pg_rows db i"
    by (auto simp: read_only_def getIntentSQL_def pg_rows_def)
  with ok assms show ?thesis
    by (cases "pg_rows db i") (auto simp: store_GetByID_def Let_def dest: scan_wrapped_Inr)
qed

lemma store_Create_laws:
  assumes inv: "pg_inv db" and new: "intent_valid new" "di_state new = IntentStatePending"
    and c: "store_Create new db = (res, db')"
  shows "pg_inv db'"
    and "res = Inl e \<Longrightarrow> pg_rows db' = pg_rows db"
    and "res = Inr x \<Longrightarrow> di_key x = di_key new \<and>
      ((pg_rows db' = pg_rows db \<and> pg_rows db (di_id x) = Some x) \<or>
       (pg_rows db (di_id x) = None \<and> (\<forall>j r. pg_rows db j = Some r \<longrightarrow> di_key r \<noteq> di_key new) \<and>
        pg_rows db' = (pg_rows db)(di_id x \<mapsto> x) \<and>
        di_state x = IntentStatePending \<and> di_target x = di_target new \<and>
        di_expires x = di_expires new \<and> di_created x = di_created new))"
proof -
  have "pg_inv db' \<and> (res = Inl e \<longrightarrow> pg_rows db' = pg_rows db) \<and> (res = Inr x \<longrightarrow> di_key x = di_key new \<and>
      ((pg_rows db' = pg_rows db \<and> pg_rows db (di_id x) = Some x) \<or>
       (pg_rows db (di_id x) = None \<and> (\<forall>j r. pg_rows db j = Some r \<longrightarrow> di_key r \<noteq> di_key new) \<and>
        pg_rows db' = (pg_rows db)(di_id x \<mapsto> x) \<and>
        di_state x = IntentStatePending \<and> di_target x = di_target new \<and>
        di_expires x = di_expires new \<and> di_created x = di_created new)))"
  proof (cases rule: pg_call_cases [of "createIntentSQL new" db])
    case (fail d)
    with c inv show ?thesis by (auto simp: store_Create_def pg_inv_def intro: pg_rows_cong)
  next
    case (ok r d)
    with inv new have inv': "pg_inv d"
      using createIntentSQL_good by (auto simp: pg_inv_def good_step_def)
    from c ok have db': "db' = d" and res: "res = scan_wrapped ''creating delivery intent: '' r"
      by (simp_all add: store_Create_def)
    show ?thesis
    proof (cases "row_lookup di_key (di_key new) (dd_intents (pg_data db))")
      case (Some q)
      with ok(2) [symmetric] have q: "q = r" and rows: "dd_intents (pg_data d) = dd_intents (pg_data db)"
        by (auto simp: createIntentSQL_def Let_def split: if_splits)
      from Some q have r: "r \<in> set (dd_intents (pg_data db))" "di_key r = di_key new"
        by (auto dest: row_lookup_Some)
      with inv have "pg_rows db (di_id r) = Some r" and "row_ok r"
        by (auto simp: pg_inv_def delivery_inv_def pg_rows_def row_lookup_distinct)
      then show ?thesis
        using inv' rows r by (simp add: db' res) (auto simp: pg_rows_def)
    next
      case None
      let ?n = "dd_next_intent (pg_data db)"
      from None ok(2) [symmetric] have rows: "dd_intents (pg_data d) = dd_intents (pg_data db) @ [r]"
        and r: "di_id r = ?n" "di_key r = di_key new" "di_state r = IntentStatePending"
          "di_target r = di_target new" "di_expires r = di_expires new" "di_created r = di_created new"
        using new by (auto simp: createIntentSQL_def Let_def split: if_splits)
      have fresh: "pg_rows db ?n = None"
        using inv by (auto simp: pg_rows_def row_lookup_None pg_inv_def delivery_inv_def)
      have nokey: "\<forall>j q. pg_rows db j = Some q \<longrightarrow> di_key q \<noteq> di_key new"
        using None unfolding row_lookup_None pg_rows_def by (metis row_lookup_Some imageI)
      have "row_ok r"
        using inv' rows by (simp add: pg_inv_def delivery_inv_def)
      moreover have "pg_rows d = (pg_rows db)(?n \<mapsto> r)"
        using fresh r(1) by (auto simp: pg_rows_def rows row_lookup_append fun_eq_iff split: option.splits)
      ultimately show ?thesis
        using inv' r fresh nokey by (auto simp: db' res)
    qed
  qed
  then show "pg_inv db'" and "res = Inl e \<Longrightarrow> pg_rows db' = pg_rows db"
    and "res = Inr x \<Longrightarrow> di_key x = di_key new \<and>
      ((pg_rows db' = pg_rows db \<and> pg_rows db (di_id x) = Some x) \<or>
       (pg_rows db (di_id x) = None \<and> (\<forall>j r. pg_rows db j = Some r \<longrightarrow> di_key r \<noteq> di_key new) \<and>
        pg_rows db' = (pg_rows db)(di_id x \<mapsto> x) \<and>
        di_state x = IntentStatePending \<and> di_target x = di_target new \<and>
        di_expires x = di_expires new \<and> di_created x = di_created new))"
    by blast+
qed

lemma claimConflict_data: "pg_inv db \<Longrightarrow> claimConflict i db = (e, db') \<Longrightarrow> pg_data db' = pg_data db"
  using store_GetByID_laws [of db i]
  by (auto simp: claimConflict_def split: prod.splits sum.splits if_splits)

lemma store_ClaimPending_laws:
  assumes inv: "pg_inv db" and c: "store_ClaimPending i t b at db = (res, db')"
  shows "pg_inv db'"
    and "res = Inl e \<Longrightarrow> pg_rows db' = pg_rows db"
    and "res = Inr x \<Longrightarrow> \<exists>r. pg_rows db i = Some r \<and> di_state r = IntentStatePending \<and>
      x = claimed_row t b at r \<and> pg_rows db' = (pg_rows db)(i \<mapsto> x)"
proof -
  have "pg_inv db' \<and>
    (pg_rows db' = pg_rows db \<and> (\<exists>e. res = Inl e) \<or>
     (\<exists>r. pg_rows db i = Some r \<and> di_state r = IntentStatePending \<and>
        res = Inr (claimed_row t b at r) \<and> pg_rows db' = (pg_rows db)(i \<mapsto> claimed_row t b at r)))"
  proof (cases rule: pg_call_cases [of "claimPendingSQL i t b at" db])
    case (fail d)
    with c inv show ?thesis by (auto simp: store_ClaimPending_def pg_inv_def intro: pg_rows_cong)
  next
    case (ok q d)
    with inv have inv': "pg_inv d"
      using claimPendingSQL_good by (auto simp: pg_inv_def good_step_def)
    show ?thesis
    proof (cases q)
      case None
      with ok have d: "pg_data d = pg_data db"
        by (auto simp: claimPendingSQL_def split: option.splits if_splits)
      obtain e d' where cc: "claimConflict i d = (e, d')" by fastforce
      with inv' have "pg_data d' = pg_data d" by (rule claimConflict_data)
      with c ok None cc d inv show ?thesis
        by (auto simp: store_ClaimPending_def pg_inv_def intro: pg_rows_cong)
    next
      case (Some r')
      with ok(2) [symmetric] obtain r where r: "pg_rows db i = Some r" "di_state r = IntentStatePending"
        "r' = claimed_row t b at r"
        and rows: "dd_intents (pg_data d) =
          update_where (\<lambda>r. di_id r = i \<and> di_state r = IntentStatePending) (claimed_row t b at)
            (dd_intents (pg_data db))"
        by (auto simp: claimPendingSQL_def pg_rows_def split: option.splits if_splits)
      have new: "pg_rows d = (pg_rows db)(i \<mapsto> r')"
        using pg_rows_update_id [OF rows] r by (simp add: on_row_def)
      have "row_ok r'"
        using pg_row_ok [OF inv r(1)] r(2,3) by (simp add: row_ok_claimed)
      then have "res = Inr r'" and "db' = d"
        using c ok(1) Some by (simp_all add: store_ClaimPending_def)
      with inv' new r show ?thesis by blast
    qed
  qed
  then show "pg_inv db'" and "res = Inl e \<Longrightarrow> pg_rows db' = pg_rows db"
    and "res = Inr x \<Longrightarrow> \<exists>r. pg_rows db i = Some r \<and> di_state r = IntentStatePending \<and>
      x = claimed_row t b at r \<and> pg_rows db' = (pg_rows db)(i \<mapsto> x)"
    by auto
qed

text \<open>The statements that complete rows: the call fails and changes nothing, or completes them.\<close>

lemma store_ExpireIfPending_laws:
  assumes inv: "pg_inv db" and c: "store_ExpireIfPending i at db = (res, db')"
  shows "pg_inv db'"
    and "res = Inl e \<Longrightarrow> pg_rows db' = pg_rows db"
    and "res = Inr u \<Longrightarrow> pg_rows db' = on_row i (expire_row at) (pg_rows db)"
proof -
  have "pg_inv db' \<and> (res = Inl e \<longrightarrow> pg_rows db' = pg_rows db) \<and>
      (res = Inr u \<longrightarrow> pg_rows db' = on_row i (expire_row at) (pg_rows db))"
  proof (cases rule: pg_call_cases [of "expireIfPendingSQL i at" db])
    case (fail d)
    with c inv show ?thesis by (auto simp: store_ExpireIfPending_def pg_inv_def intro: pg_rows_cong)
  next
    case (ok q d)
    then have cw: "complete_where (\<lambda>r. di_id r = i \<and> di_state r = IntentStatePending) IntentStateExpired
        (Some at) (pg_data db) = Some (pg_data d)"
      by (auto simp: expireIfPendingSQL_def)
    from inv cw have "pg_inv d"
      using complete_where_good by (fastforce simp: pg_inv_def good_step_def completes_def)
    moreover from pg_rows_complete_id [OF cw] have "pg_rows d = on_row i (expire_row at) (pg_rows db)"
      by (simp add: expire_row_def [abs_def])
    ultimately show ?thesis using c ok(1) by (auto simp: store_ExpireIfPending_def)
  qed
  then show "pg_inv db'" and "res = Inl e \<Longrightarrow> pg_rows db' = pg_rows db"
    and "res = Inr u \<Longrightarrow> pg_rows db' = on_row i (expire_row at) (pg_rows db)" by blast+
qed

lemma store_FailRunning_laws:
  assumes inv: "pg_inv db" and c: "store_FailRunning i at db = (res, db')"
  shows "pg_inv db'"
    and "res = Inl e \<Longrightarrow> pg_rows db' = pg_rows db"
    and "res = Inr u \<Longrightarrow> pg_rows db' = on_row i (fail_row at) (pg_rows db)"
proof -
  have "pg_inv db' \<and> (res = Inl e \<longrightarrow> pg_rows db' = pg_rows db) \<and>
      (res = Inr u \<longrightarrow> pg_rows db' = on_row i (fail_row at) (pg_rows db))"
  proof (cases rule: pg_call_cases [of "failRunningSQL i at" db])
    case (fail d)
    with c inv show ?thesis by (auto simp: store_FailRunning_def pg_inv_def intro: pg_rows_cong)
  next
    case (ok q d)
    then have cw: "complete_where (\<lambda>r. di_id r = i \<and> di_state r = IntentStateRunning) IntentStateFailed
        (Some at) (pg_data db) = Some (pg_data d)"
      by (auto simp: failRunningSQL_def)
    from inv cw have "pg_inv d"
      using complete_where_good by (fastforce simp: pg_inv_def good_step_def completes_def)
    moreover from pg_rows_complete_id [OF cw] have "pg_rows d = on_row i (fail_row at) (pg_rows db)"
      by (simp add: fail_row_def [abs_def])
    ultimately show ?thesis using c ok(1) by (auto simp: store_FailRunning_def)
  qed
  then show "pg_inv db'" and "res = Inl e \<Longrightarrow> pg_rows db' = pg_rows db"
    and "res = Inr u \<Longrightarrow> pg_rows db' = on_row i (fail_row at) (pg_rows db)" by blast+
qed

lemma store_ExpirePendingBefore_laws:
  assumes inv: "pg_inv db" and c: "store_ExpirePendingBefore before at db = (res, db')"
  shows "pg_inv db'"
    and "res = Inl e \<Longrightarrow> pg_rows db' = pg_rows db"
    and "res = Inr n \<Longrightarrow> pg_rows db' = map_option (expire_before_row before at) \<circ> pg_rows db"
proof -
  have "pg_inv db' \<and> (res = Inl e \<longrightarrow> pg_rows db' = pg_rows db) \<and>
      (res = Inr n \<longrightarrow> pg_rows db' = map_option (expire_before_row before at) \<circ> pg_rows db)"
  proof (cases rule: pg_call_cases [of "expirePendingBeforeSQL before at" db])
    case (fail d)
    with c inv show ?thesis by (auto simp: store_ExpirePendingBefore_def pg_inv_def intro: pg_rows_cong)
  next
    case (ok q d)
    then have cw: "complete_where (\<lambda>r. di_state r = IntentStatePending \<and> di_created r \<le> before)
        IntentStateExpired (Some at) (pg_data db) = Some (pg_data d)"
      by (auto simp: expirePendingBeforeSQL_def Let_def)
    from inv cw have "pg_inv d"
      using complete_where_good by (fastforce simp: pg_inv_def good_step_def completes_def)
    moreover from pg_rows_complete [OF cw]
    have "pg_rows d = map_option (expire_before_row before at) \<circ> pg_rows db"
      by (simp add: expire_before_row_def [abs_def])
    ultimately show ?thesis using c ok(1) by (auto simp: store_ExpirePendingBefore_def)
  qed
  then show "pg_inv db'" and "res = Inl e \<Longrightarrow> pg_rows db' = pg_rows db"
    and "res = Inr n \<Longrightarrow> pg_rows db' = map_option (expire_before_row before at) \<circ> pg_rows db" by blast+
qed

lemma scan_all_row_ok: "\<forall>r\<in>set rs. row_ok r \<Longrightarrow> scan_all scanIntent rs = Inr rs"
  using scan_all_ok [of rs scanIntent "\<lambda>r. r"] by (auto simp: scanIntent_def row_ok_def)

text \<open>A list query reads the rows the statement selects and changes nothing.\<close>

lemma read_rows_laws:
  assumes inv: "pg_inv db" and sub: "\<And>d. set (q d) \<subseteq> set (dd_intents d)"
    and c: "read_rows qc rc q db = (res, db')"
  shows "pg_data db' = pg_data db \<and> (\<forall>xs. res = Inr xs \<longrightarrow> xs = q (pg_data db))"
proof (cases rule: pg_call_cases [of "read_only q" db])
  case (fail d)
  with c show ?thesis by (auto simp: read_rows_def)
next
  case (ok rs d)
  then have rs: "rs = q (pg_data db)" and d: "pg_data d = pg_data db" by (auto simp: read_only_def)
  have "scan_all scanIntent rs = Inr rs"
    using inv sub [of "pg_data db"] by (intro scan_all_row_ok) (auto simp: rs pg_inv_def delivery_inv_def)
  with c ok(1) have rest: "(case pg_call (read_only (\<lambda>_. ())) d of
      (Inl e, d') \<Rightarrow> (Inl (Wrapped rc e []), d') | (Inr _, d') \<Rightarrow> (Inr rs, d')) = (res, db')"
    by (simp add: read_rows_def)
  show ?thesis
    using rest rs d by (cases rule: pg_call_cases [of "read_only (\<lambda>_. ())" d]) (auto simp: read_only_def)
qed

lemma store_ListRunningBefore_laws:
  assumes inv: "pg_inv db" and c: "store_ListRunningBefore before db = (res, db')"
  shows "pg_data db' = pg_data db"
    and "res = Inr xs \<Longrightarrow> (\<forall>x\<in>set xs. pg_rows db (di_id x) = Some x \<and> running_before before x) \<and>
      (\<forall>i r. pg_rows db i = Some r \<longrightarrow> running_before before r \<longrightarrow> r \<in> set xs)"
proof -
  from c have "read_rows ''listing running delivery intents: '' ''reading running delivery intents: ''
      (listRunningBeforeSQL before) db = (res, db')"
    by (simp only: store_ListRunningBefore_def)
  moreover have "set (listRunningBeforeSQL before d) \<subseteq> set (dd_intents d)" for d
    by (auto simp: listRunningBeforeSQL_def)
  ultimately have *: "pg_data db' = pg_data db \<and>
      (\<forall>xs. res = Inr xs \<longrightarrow> xs = listRunningBeforeSQL before (pg_data db))"
    using read_rows_laws [OF inv] by blast
  then show "pg_data db' = pg_data db" by blast
  assume "res = Inr xs"
  with * have xs: "xs = filter (running_before before) (dd_intents (pg_data db))"
    by (simp add: listRunningBeforeSQL_def running_before_def [abs_def])
  show "(\<forall>x\<in>set xs. pg_rows db (di_id x) = Some x \<and> running_before before x) \<and>
      (\<forall>i r. pg_rows db i = Some r \<longrightarrow> running_before before r \<longrightarrow> r \<in> set xs)"
    using inv by (auto simp: xs pg_rows_def pg_inv_def delivery_inv_def row_lookup_distinct dest: row_lookup_Some)
qed

lemma updateLifecycleSQL_good:
  assumes inv: "delivery_inv d" and u: "updateLifecycleSQL i s at d = Some (q, d')"
    and r: "row_lookup di_id i (dd_intents d) = Some r" and c: "completes s at r"
  shows "delivery_inv d' \<and> q = Some (completed_row s at r) \<and>
    dd_intents d' = update_where (\<lambda>r. di_id r = i \<and> True) (completed_row s at) (dd_intents d)"
proof -
  from u have cw: "complete_where (\<lambda>r. di_id r = i) s at d = Some d'"
    and q: "q = row_lookup di_id i (dd_intents d')"
    by (auto simp: updateLifecycleSQL_def)
  have "r' = r" if "r' \<in> set (dd_intents d)" "di_id r' = i" for r'
    using that inv r row_lookup_distinct [of di_id "dd_intents d" r'] by (auto simp: delivery_inv_def)
  then have "good_step d d'"
    using c by (intro complete_where_good [OF inv cw]) auto
  with r q complete_where_Some [OF cw] show ?thesis
    by (auto simp: good_step_def row_lookup_update_where dest: row_lookup_Some)
qed

lemma canReport_completes:
  "canReport ev t r = None \<Longrightarrow> completes (next_state ev) (next_completed ev at) r"
  by (auto simp: canReport_None completes_def next_state_def next_completed_def)

text \<open>A transaction body that ends without an error has updated the row and appended the event.\<close>

lemma report_body_ok:
  assumes inv: "pg_inv db" and b: "report_body i t ev p at db = (Inr x, db')"
  shows "pg_inv db' \<and> (\<exists>r. pg_rows db i = Some r \<and> canReport ev t r = None \<and>
      x = completed_row (next_state ev) (next_completed ev at) r \<and> pg_rows db' = (pg_rows db)(i \<mapsto> x))"
proof -
  obtain db1 db2 db3 r r' y where
    c1: "pg_call (read_only (getIntentForUpdateSQL i)) db = (Inr (Some r), db1)"
    and can: "canReport ev t r = None"
    and c2: "pg_call (updateLifecycleSQL i (next_state ev) (next_completed ev at)) db1 = (Inr (Some r'), db2)"
    and x: "x = r'"
    and c3: "pg_call (insertEventSQL i ev p at) db2 = (Inr y, db3)"
    and c4: "pg_call (read_only (\<lambda>_. ())) db3 = (Inr (), db')"
    using b unfolding report_body_def Let_def
    by (auto split: prod.splits sum.splits option.splits dest!: scan_wrapped_Inr)
  from c1 have r: "pg_rows db i = Some r" and d1: "pg_data db1 = pg_data db"
    using pg_call_read_only_Inr [OF c1] by (auto simp: getIntentForUpdateSQL_def pg_rows_def)
  have d2: "delivery_inv (pg_data db2)" "x = completed_row (next_state ev) (next_completed ev at) r"
    "dd_intents (pg_data db2) = update_where (\<lambda>r. di_id r = i \<and> True)
       (completed_row (next_state ev) (next_completed ev at)) (dd_intents (pg_data db))"
    using updateLifecycleSQL_good [OF _ pg_call_Inr [OF c2], of r] inv r d1 x canReport_completes [OF can]
    by (auto simp: pg_inv_def pg_rows_def)
  have d3: "delivery_inv (pg_data db3)" "dd_intents (pg_data db3) = dd_intents (pg_data db2)"
    using insertEventSQL_good [OF d2(1) pg_call_Inr [OF c3]] by (auto simp: good_step_def)
  have d4: "pg_data db' = pg_data db3" using pg_call_read_only_Inr [OF c4] by simp
  have "pg_rows db' = on_row i (completed_row (next_state ev) (next_completed ev at)) (pg_rows db)"
    using pg_rows_update_id [of db' i "\<lambda>_. True" "completed_row (next_state ev) (next_completed ev at)" db]
      d2(3) d3(2) d4 by simp
  then show ?thesis
    using d2(2) d3(1) d4 r can by (simp add: pg_inv_def on_row_def)
qed

text \<open>The event log: a successful report appends one event, the other statements none.\<close>

definition logged :: "int \<Rightarrow> string \<Rightarrow> string \<Rightarrow> time \<Rightarrow> delivery_event list \<Rightarrow> delivery_event list \<Rightarrow> bool" where
  "logged i ev p at es es' \<longleftrightarrow>
     (\<exists>n. es' = es @ [\<lparr>de_id = n, de_intent = i, de_type = ev, de_payload = p, de_created = at\<rparr>])"

lemma report_body_logged:
  assumes b: "report_body i t ev p at db = (Inr x, db')"
  shows "logged i ev p at (dd_events (pg_data db)) (dd_events (pg_data db'))"
proof -
  obtain db1 db2 db3 r r' y where
    c1: "pg_call (read_only (getIntentForUpdateSQL i)) db = (Inr (Some r), db1)"
    and c2: "pg_call (updateLifecycleSQL i (next_state ev) (next_completed ev at)) db1 = (Inr (Some r'), db2)"
    and c3: "pg_call (insertEventSQL i ev p at) db2 = (Inr y, db3)"
    and c4: "pg_call (read_only (\<lambda>_. ())) db3 = (Inr (), db')"
    using b unfolding report_body_def Let_def
    by (auto split: prod.splits sum.splits option.splits dest!: scan_wrapped_Inr)
  have "pg_data db1 = pg_data db" "pg_data db' = pg_data db3"
    using pg_call_read_only_Inr [OF c1] pg_call_read_only_Inr [OF c4] by simp_all
  moreover have "dd_events (pg_data db2) = dd_events (pg_data db1)"
    using pg_call_Inr [OF c2] by (auto simp: updateLifecycleSQL_def complete_where_def Let_def split: if_splits dest!: sym [of _ "pg_data db2"])
  moreover have "logged i ev p at (dd_events (pg_data db2)) (dd_events (pg_data db3))"
    using pg_call_Inr [OF c3] by (auto simp: insertEventSQL_def logged_def split: if_splits dest!: sym [of _ "pg_data db3"])
  ultimately show ?thesis by simp
qed

lemma store_ReportEvent_logged:
  assumes "store_ReportEvent i t ev p at db = (Inr x, db')"
  shows "logged i ev p at (dd_events (pg_data db)) (dd_events (pg_data db'))"
proof (cases rule: pg_call_cases [of "read_only (\<lambda>_. ())" db])
  case (fail d)
  with assms show ?thesis by (simp add: store_ReportEvent_def)
next
  case (ok q d)
  then have "pg_data d = pg_data db" by (auto simp: read_only_def)
  moreover from assms ok(1) have "report_body i t ev p at d = (Inr x, db')"
    by (auto simp: store_ReportEvent_def split: prod.splits sum.splits)
  ultimately show ?thesis using report_body_logged by metis
qed

lemma store_ReportEvent_laws:
  assumes inv: "pg_inv db" and c: "store_ReportEvent i t ev p at db = (res, db')"
  shows "pg_inv db'"
    and "res = Inl e \<Longrightarrow> pg_data db' = pg_data db"
    and "res = Inr x \<Longrightarrow> \<exists>r. pg_rows db i = Some r \<and> canReport ev t r = None \<and>
      x = completed_row (next_state ev) (next_completed ev at) r \<and> pg_rows db' = (pg_rows db)(i \<mapsto> x)"
proof -
  have "pg_inv db' \<and> (res = Inl e \<longrightarrow> pg_data db' = pg_data db) \<and>
    (res = Inr x \<longrightarrow> (\<exists>r. pg_rows db i = Some r \<and> canReport ev t r = None \<and>
      x = completed_row (next_state ev) (next_completed ev at) r \<and> pg_rows db' = (pg_rows db)(i \<mapsto> x)))"
  proof (cases rule: pg_call_cases [of "read_only (\<lambda>_. ())" db])
    case (fail d)
    with c inv show ?thesis by (auto simp: store_ReportEvent_def pg_inv_def)
  next
    case (ok q d)
    then have d: "pg_data d = pg_data db" by (auto simp: read_only_def)
    obtain bres bd where b: "report_body i t ev p at d = (bres, bd)" by fastforce
    show ?thesis
    proof (cases bres)
      case (Inl e')
      with c ok(1) b d inv show ?thesis by (auto simp: store_ReportEvent_def pg_inv_def)
    next
      case (Inr y)
      with b d inv have "pg_inv bd \<and> (\<exists>r. pg_rows d i = Some r \<and> canReport ev t r = None \<and>
          y = completed_row (next_state ev) (next_completed ev at) r \<and> pg_rows bd = (pg_rows d)(i \<mapsto> y))"
        by (intro report_body_ok) (auto simp: pg_inv_def)
      with c ok(1) b d Inr pg_rows_cong [OF d] show ?thesis
        by (auto simp: store_ReportEvent_def)
    qed
  qed
  then show "pg_inv db'" and "res = Inl e \<Longrightarrow> pg_data db' = pg_data db"
    and "res = Inr x \<Longrightarrow> \<exists>r. pg_rows db i = Some r \<and> canReport ev t r = None \<and>
      x = completed_row (next_state ev) (next_completed ev at) r \<and> pg_rows db' = (pg_rows db)(i \<mapsto> x)"
    by blast+
qed

lemma store_GetByID_frame:
  "pg_inv db \<Longrightarrow> store_GetByID i db = (res, db') \<Longrightarrow> pg_inv db' \<and> pg_rows db' = pg_rows db"
  using store_GetByID_laws [of db i res db'] by (auto simp: pg_inv_def pg_rows_def fun_eq_iff)

lemma store_ListRunningBefore_frame:
  "pg_inv db \<Longrightarrow> store_ListRunningBefore before db = (res, db') \<Longrightarrow> pg_inv db' \<and> pg_rows db' = pg_rows db"
  using store_ListRunningBefore_laws(1) [of db before res db'] by (auto simp: pg_inv_def pg_rows_def fun_eq_iff)

lemma store_List_laws:
  assumes inv: "pg_inv db" and c: "store_List q db = (res, db')"
  shows "pg_data db' = pg_data db"
    and "res = Inr xs \<Longrightarrow> x \<in> set xs \<longleftrightarrow>
      pg_rows db (di_id x) = Some x \<and> (case q of None \<Rightarrow> True | Some s \<Rightarrow> di_state x = s)"
proof -
  let ?sql = "case q of None \<Rightarrow> listIntentsSQL | Some s \<Rightarrow> listIntentsByStateSQL s"
  have "set (?sql d) \<subseteq> set (dd_intents d)" for d
    by (cases q) (auto simp: listIntentsSQL_def listIntentsByStateSQL_def)
  then have *: "pg_data db' = pg_data db \<and> (\<forall>xs. res = Inr xs \<longrightarrow> xs = ?sql (pg_data db))"
    by (rule read_rows_laws [OF inv _ c [unfolded store_List_def]])
  then show "pg_data db' = pg_data db" by blast
  have "pg_rows db (di_id x) = Some x \<longleftrightarrow> x \<in> set (dd_intents (pg_data db))"
    using inv by (auto simp: pg_rows_def pg_inv_def delivery_inv_def row_lookup_distinct dest: row_lookup_Some)
  with * show "x \<in> set xs \<longleftrightarrow>
      pg_rows db (di_id x) = Some x \<and> (case q of None \<Rightarrow> True | Some s \<Rightarrow> di_state x = s)" if "res = Inr xs"
    using that by (cases q) (auto simp: listIntentsSQL_def listIntentsByStateSQL_def)
qed

lemma store_List_frame:
  "pg_inv db \<Longrightarrow> store_List q db = (res, db') \<Longrightarrow> pg_inv db' \<and> pg_rows db' = pg_rows db"
  using store_List_laws(1) [of db q res db'] by (auto simp: pg_inv_def pg_rows_def fun_eq_iff)

lemma pg_keys_unique:
  "pg_inv db \<Longrightarrow> pg_rows db i = Some a \<Longrightarrow> pg_rows db j = Some c \<Longrightarrow> di_key a = di_key c \<Longrightarrow> i = j"
  unfolding pg_inv_def delivery_inv_def pg_rows_def
  by (auto dest!: row_lookup_Some) (metis distinct_map inj_on_def)

interpretation pg_store: intent_store_laws pg_intent_store pg_rows pg_inv
proof (unfold_locales, unfold pg_intent_store_def intent_store.simps, goal_cases)
  case 1
  then show ?case by (rule pg_keys_unique)
next
  case 2
  then show ?case by (rule store_Create_laws(1))
next
  case 3
  then show ?case by (rule store_Create_laws(3) [OF _ _ _ _ refl])
next
  case 4
  then show ?case by (rule store_Create_laws(2) [OF _ _ _ _ refl])
next
  case 5
  then show ?case by (rule store_GetByID_frame)
next
  case 6
  then show ?case using store_GetByID_laws by blast
next
  case 7
  then show ?case by (rule store_ClaimPending_laws(1))
next
  case 8
  then show ?case by (rule store_ClaimPending_laws(3) [OF _ _ refl])
next
  case 9
  then show ?case by (rule store_ClaimPending_laws(2) [OF _ _ refl])
next
  case 10
  then show ?case by (rule store_ExpireIfPending_laws(1))
next
  case 11
  then show ?case by (rule store_ExpireIfPending_laws(3) [OF _ _ refl])
next
  case 12
  then show ?case by (rule store_ExpireIfPending_laws(2) [OF _ _ refl])
next
  case 13
  then show ?case by (rule store_ReportEvent_laws(1))
next
  case 14
  then show ?case by (rule store_ReportEvent_laws(3) [OF _ _ refl])
next
  case 15
  then show ?case by (rule pg_rows_cong [OF store_ReportEvent_laws(2) [OF _ _ refl]])
next
  case 16
  then show ?case by (rule store_ExpirePendingBefore_laws(1))
next
  case 17
  then show ?case by (rule store_ExpirePendingBefore_laws(3) [OF _ _ refl])
next
  case 18
  then show ?case by (rule store_ExpirePendingBefore_laws(2) [OF _ _ refl])
next
  case 19
  then show ?case by (rule store_ListRunningBefore_frame)
next
  case 20
  then show ?case by (rule store_ListRunningBefore_laws(2) [OF _ _ refl])
next
  case 21
  then show ?case by (rule store_FailRunning_laws(1))
next
  case 22
  then show ?case by (rule store_FailRunning_laws(3) [OF _ _ refl])
next
  case 23
  then show ?case by (rule store_FailRunning_laws(2) [OF _ _ refl])
next
  case 24
  then show ?case by (rule store_List_frame)
next
  case 25
  then show ?case by (rule store_List_laws(2) [OF _ _ refl])
qed

end
