(* ===== verification/Delivery_Ops.thy ===== *)
theory Delivery_Ops
  imports Delivery_Client
begin

text \<open>
  The operations of the delivery service over any store that keeps \<open>intent_store_laws\<close> and any
  liveness checker that leaves the store alone: what a successful claim has checked, what a
  failed one can have changed, idempotent creation, guarded reports, and the exact effect of
  the reaper.
\<close>

definition expired_rows :: "int \<Rightarrow> time \<Rightarrow> rows \<Rightarrow> rows" where
  "expired_rows i at m = on_row i (expire_row at) m"

text \<open>What one pass of the reaper does to a row, given which instances are alive.\<close>

definition reap_row :: "(agent_instance_id \<Rightarrow> bool) \<Rightarrow> time \<Rightarrow> duration \<Rightarrow> duration \<Rightarrow> delivery_intent \<Rightarrow> delivery_intent" where
  "reap_row alive now pttl rttl r =
     (if di_state r = IntentStatePending \<and> di_created r \<le> now - pttl
      then completed_row IntentStateExpired (Some now) r
      else if running_before (now - rttl) r \<and>
              (case di_claimed_by r of None \<Rightarrow> True | Some a \<Rightarrow> \<not> alive (ai_instance a))
      then completed_row IntentStateFailed (Some now) r
      else r)"

locale intent_client = intent_store_laws "sv_store s" rows inv
  for s :: "'w intent_service" and rows :: "'w \<Rightarrow> rows" and inv :: "'w \<Rightarrow> bool" +
  assumes alive_inv: "inv w \<Longrightarrow> rc_IsAlive (sv_runtime s) a w = (bres, w') \<Longrightarrow> inv w' \<and> rows w' = rows w"
begin

lemma Claim_ok:
  assumes inv: "inv w" and c: "Claim s i req w = (Inr x, w')"
  shows "inv w'"
    and "\<exists>r. rows w i = Some r \<and> di_state r = IntentStatePending \<and> di_target r = clr_claimed_by req \<and>
      sv_clock s w < di_expires r \<and>
      x = claimed_row (clr_token req) (clr_claimed_by req) (sv_clock s w) r \<and> rows w' = (rows w)(i \<mapsto> x)"
    and "\<exists>y w1 w2. is_GetByID (sv_store s) i w = (y, w1) \<and>
      rc_IsAlive (sv_runtime s) (ai_instance (clr_claimed_by req)) w1 = (Inr True, w2)"
proof -
  obtain intent w1 w2 where g: "is_GetByID (sv_store s) i w = (Inr intent, w1)"
    and t: "di_target intent = clr_claimed_by req"
    and e: "di_state intent = IntentStatePending \<longrightarrow> sv_clock s w < di_expires intent"
    and a: "rc_IsAlive (sv_runtime s) (ai_instance (clr_claimed_by req)) w1 = (Inr True, w2)"
    and p: "is_ClaimPending (sv_store s) i (clr_token req) (clr_claimed_by req) (sv_clock s w) w2 = (Inr x, w')"
    using c by (auto simp: Claim_def Let_def split: option.splits prod.splits sum.splits if_splits)
  from get_inv [OF inv g] get_ok [OF inv g] have w1: "inv w1" "rows w1 = rows w" "rows w i = Some intent" by auto
  from alive_inv [OF w1(1) a] w1 have w2: "inv w2" "rows w2 = rows w" by auto
  show "inv w'" by (rule claim_inv [OF w2(1) p])
  show "\<exists>r. rows w i = Some r \<and> di_state r = IntentStatePending \<and> di_target r = clr_claimed_by req \<and>
      sv_clock s w < di_expires r \<and>
      x = claimed_row (clr_token req) (clr_claimed_by req) (sv_clock s w) r \<and> rows w' = (rows w)(i \<mapsto> x)"
    using claim_ok [OF w2(1) p] w1 w2 t e by auto
  show "\<exists>y w1 w2. is_GetByID (sv_store s) i w = (y, w1) \<and>
      rc_IsAlive (sv_runtime s) (ai_instance (clr_claimed_by req)) w1 = (Inr True, w2)"
    using g a by blast
qed

lemma expire_attempt:
  "inv w \<Longrightarrow> is_ExpireIfPending (sv_store s) i at w = (res, w') \<Longrightarrow>
     inv w' \<and> (rows w' = rows w \<or> rows w' = expired_rows i at (rows w))"
  using expire_inv expire_ok expire_err by (cases res) (auto simp: expired_rows_def)

lemma Claim_err:
  assumes inv: "inv w" and c: "Claim s i req w = (Inl e, w')"
  shows "inv w' \<and> (rows w' = rows w \<or>
    rows w' = expired_rows i (sv_clock s w) (rows w) \<and> e \<in> {conflict ErrIntentExpired, conflict ErrRuntimeNotAlive})"
proof (cases "claim_request_validate req")
  case (Some e')
  with c inv show ?thesis by (auto simp: Claim_def)
next
  case None
  obtain res w1 where g: "is_GetByID (sv_store s) i w = (res, w1)" by fastforce
  with get_inv [OF inv g] have w1: "inv w1" "rows w1 = rows w" by auto
  show ?thesis
  proof (cases res)
    case (Inl e')
    with c None g w1 show ?thesis by (auto simp: Claim_def Let_def)
  next
    case (Inr intent)
    obtain ares w2 where a: "rc_IsAlive (sv_runtime s) (ai_instance (clr_claimed_by req)) w1 = (ares, w2)" by fastforce
    from alive_inv [OF w1(1) a] w1 have w2: "inv w2" "rows w2 = rows w" by auto
    obtain x1 v1 where e1: "is_ExpireIfPending (sv_store s) i (sv_clock s w) w1 = (x1, v1)" by fastforce
    obtain x2 v2 where e2: "is_ExpireIfPending (sv_store s) i (sv_clock s w) w2 = (x2, v2)" by fastforce
    obtain pres w3 where p: "is_ClaimPending (sv_store s) i (clr_token req) (clr_claimed_by req) (sv_clock s w) w2 = (pres, w3)"
      by fastforce
    note claim_inv [OF w2(1) p]
    moreover have "pres = Inl e \<Longrightarrow> rows w3 = rows w" using claim_err [OF w2(1)] p w2 by auto
    ultimately show ?thesis
      using c None g Inr a e1 e2 p w1 w2 expire_attempt [OF w1(1) e1] expire_attempt [OF w2(1) e2]
      by (auto simp: Claim_def Let_def split: if_splits sum.splits)
  qed
qed

lemma Report_ok:
  assumes "inv w" and "ReportEvent s i req w = (Inr x, w')"
  shows "inv w' \<and> (\<exists>r. rows w i = Some r \<and> canReport (ler_type req) (ler_token req) r = None \<and>
    x = completed_row (next_state (ler_type req)) (next_completed (ler_type req) (sv_clock s w)) r \<and>
    rows w' = (rows w)(i \<mapsto> x))"
  using assms report_inv report_ok
  by (fastforce simp: ReportEvent_def Let_def split: option.splits)

lemma Report_err:
  assumes "inv w" and "ReportEvent s i req w = (Inl e, w')"
  shows "inv w' \<and> rows w' = rows w"
  using assms report_inv report_err
  by (auto simp: ReportEvent_def Let_def split: option.splits)

lemma Create_store:
  assumes "Create s req w = (Inr x, w')"
  shows "\<exists>new. is_Create (sv_store s) new w = (Inr x, w') \<and> intent_valid new \<and>
    di_state new = IntentStatePending \<and> di_key new = cir_key req \<and> di_target new = cir_target req \<and>
    di_created new = sv_clock s w \<and> 0 < di_expires new - di_created new \<and>
    di_expires new - di_created new \<le> sv_maxTTL s"
  using assms by (auto simp: Create_def Let_def split: option.splits sum.splits if_splits dest!: NewDeliveryIntent_Inr)

lemma Create_ok:
  assumes inv: "inv w" and c: "Create s req w = (Inr x, w')"
  shows "inv w' \<and> di_key x = cir_key req \<and> rows w' (di_id x) = Some x \<and>
    (rows w' = rows w \<or>
     rows w (di_id x) = None \<and> (\<forall>j r. rows w j = Some r \<longrightarrow> di_key r \<noteq> cir_key req) \<and>
     rows w' = (rows w)(di_id x \<mapsto> x) \<and> di_state x = IntentStatePending \<and> di_target x = cir_target req \<and>
     di_created x = sv_clock s w \<and> di_created x < di_expires x \<and> di_expires x \<le> sv_clock s w + sv_maxTTL s)"
proof -
  obtain new where n: "is_Create (sv_store s) new w = (Inr x, w')" "intent_valid new"
    "di_state new = IntentStatePending" "di_key new = cir_key req" "di_target new = cir_target req"
    "di_created new = sv_clock s w" "0 < di_expires new - di_created new"
    "di_expires new - di_created new \<le> sv_maxTTL s"
    using Create_store [OF c] by blast
  from create_inv [OF inv n(2,3,1)] create_ok [OF inv n(2,3,1)] n(4-8) show ?thesis by auto
qed

text \<open>A second creation with the same key returns the stored intent and changes nothing.\<close>

lemma Create_replay:
  assumes inv: "inv w" and r: "rows w i = Some r" "di_key r = cir_key req"
    and c: "Create s req w = (Inr x, w')"
  shows "x = r \<and> di_id x = i \<and> rows w' = rows w"
proof -
  from Create_ok [OF inv c] r have x: "di_key x = cir_key req" "rows w' = rows w" "rows w' (di_id x) = Some x"
    by auto
  moreover from this r have "di_id x = i"
    using keys_unique [OF inv, of "di_id x" x i r] by simp
  ultimately show ?thesis using r by simp
qed

text \<open>The loop of the reaper, whatever the checker answers and wherever it stops.\<close>

lemma fail_row_idem: "fail_row now (fail_row now r) = fail_row now r"
  by (simp add: fail_row_def)

definition dead :: "(agent_instance_id \<Rightarrow> bool) \<Rightarrow> delivery_intent \<Rightarrow> bool" where
  "dead alive r \<longleftrightarrow> (case di_claimed_by r of None \<Rightarrow> True | Some a \<Rightarrow> \<not> alive (ai_instance a))"

lemma reap_loop_frame:
  "inv w \<Longrightarrow> reap_loop s now xs n w = ((m, err), w') \<Longrightarrow>
     inv w' \<and> n \<le> m \<and> (\<forall>i. rows w' i = rows w i \<or>
       i \<in> di_id ` set xs \<and> rows w' i = map_option (fail_row now) (rows w i))"
proof (induction xs arbitrary: n w w')
  case Nil
  then show ?case by simp
next
  case (Cons x xs)
  have fail: "inv w2 \<and> n \<le> m \<and> (\<forall>i. rows w2 i = rows w1 i \<or>
       i \<in> di_id ` set (x # xs) \<and> rows w2 i = map_option (fail_row now) (rows w1 i))"
    if w1: "inv w1" and r: "(case is_FailRunning (sv_store s) (di_id x) now w1 of
        (Inl e, w2) \<Rightarrow> ((n, Some e), w2) | (Inr u, w2) \<Rightarrow> reap_loop s now xs (n + 1) w2) = ((m, err), w2)"
    for w1 w2
  proof -
    obtain res v where f: "is_FailRunning (sv_store s) (di_id x) now w1 = (res, v)" by fastforce
    show ?thesis
    proof (cases res)
      case (Inl e)
      with r f w1 fail_inv fail_err show ?thesis by auto
    next
      case (Inr u)
      with f w1 fail_inv fail_ok have v: "inv v" "rows v = on_row (di_id x) (fail_row now) (rows w1)" by auto
      have on: "rows v j = (if j = di_id x then map_option (fail_row now) (rows w1 j) else rows w1 j)" for j
        by (simp add: v(2) on_row_def)
      from r f Inr have "reap_loop s now xs (n + 1) v = ((m, err), w2)" by simp
      note IH = Cons.IH [OF v(1) this]
      have "rows w2 i = rows w1 i \<or>
          i \<in> di_id ` set (x # xs) \<and> rows w2 i = map_option (fail_row now) (rows w1 i)" for i
        using IH [THEN conjunct2, THEN conjunct2, rule_format, of i]
        by (cases "i = di_id x") (auto simp: on option.map_comp o_def fail_row_idem)
      with IH show ?thesis by auto
    qed
  qed
  show ?case
  proof (cases "di_claimed_by x")
    case None
    with Cons.prems fail [of w w'] show ?thesis by simp
  next
    case (Some a)
    obtain ares w1 where al: "rc_IsAlive (sv_runtime s) (ai_instance a) w = (ares, w1)" by fastforce
    from alive_inv [OF Cons.prems(1) al] have w1: "inv w1" "rows w1 = rows w" by auto
    show ?thesis
    proof (cases ares)
      case (Inl e)
      with Cons.prems Some al w1 show ?thesis by auto
    next
      case (Inr b)
      with Cons.prems Some al Cons.IH [OF w1(1), of n] fail [OF w1(1), of w'] w1(2)
      show ?thesis by (cases b) (auto split: if_splits)
    qed
  qed
qed

text \<open>
  With a checker whose answers, when it answers, agree with \<open>alive\<close> in every world of a set \<open>Q\<close>
  that the calls of the reaper do not leave, a loop that ends without an error fails exactly the
  dead ones.
\<close>

definition steady :: "(agent_instance_id \<Rightarrow> bool) \<Rightarrow> ('w \<Rightarrow> bool) \<Rightarrow> bool" where
  "steady alive Q \<longleftrightarrow>
     (\<forall>a v b v'. Q v \<longrightarrow> rc_IsAlive (sv_runtime s) a v = (Inr b, v') \<longrightarrow> b = alive a \<and> Q v') \<and>
     (\<forall>i at v. Q v \<longrightarrow> Q (snd (is_FailRunning (sv_store s) i at v))) \<and>
     (\<forall>b at v. Q v \<longrightarrow> Q (snd (is_ExpirePendingBefore (sv_store s) b at v))) \<and>
     (\<forall>b v. Q v \<longrightarrow> Q (snd (is_ListRunningBefore (sv_store s) b v)))"

lemma reap_loop_exact:
  assumes chk: "steady alive Q"
  shows "inv w \<Longrightarrow> Q w \<Longrightarrow> reap_loop s now xs n w = ((m, None), w') \<Longrightarrow>
     inv w' \<and> m = n + int (length (filter (dead alive) xs)) \<and>
     rows w' = (\<lambda>i. if i \<in> di_id ` set (filter (dead alive) xs)
                     then map_option (fail_row now) (rows w i) else rows w i)"
proof (induction xs arbitrary: n w w')
  case Nil
  then show ?case by simp
next
  case (Cons x xs)
  have fail: "inv w2 \<and> m = n + int (length (filter (dead alive) (x # xs))) \<and>
     rows w2 = (\<lambda>i. if i \<in> di_id ` set (filter (dead alive) (x # xs))
                     then map_option (fail_row now) (rows w1 i) else rows w1 i)"
    if d: "dead alive x" and w1: "inv w1" "Q w1" and r: "(case is_FailRunning (sv_store s) (di_id x) now w1 of
        (Inl e, w2) \<Rightarrow> ((n, Some e), w2) | (Inr u, w2) \<Rightarrow> reap_loop s now xs (n + 1) w2) = ((m, None), w2)"
    for w1 w2
  proof -
    obtain u v where f: "is_FailRunning (sv_store s) (di_id x) now w1 = (Inr u, v)"
      using r by (auto split: prod.splits sum.splits)
    with w1 fail_inv fail_ok have v: "inv v" "rows v = on_row (di_id x) (fail_row now) (rows w1)" by auto
    have "Q v" using chk w1(2) f unfolding steady_def by (metis snd_conv)
    from r f have "reap_loop s now xs (n + 1) v = ((m, None), w2)" by simp
    from Cons.IH [OF v(1) \<open>Q v\<close> this] d show ?thesis
      by (auto simp: v(2) on_row_def fun_eq_iff option.map_comp o_def fail_row_idem)
  qed
  show ?case
  proof (cases "di_claimed_by x")
    case None
    then have "dead alive x" by (simp add: dead_def)
    with None Cons.prems fail [of w w'] show ?thesis by simp
  next
    case (Some a)
    obtain b w1 where b: "rc_IsAlive (sv_runtime s) (ai_instance a) w = (Inr b, w1)"
      using Cons.prems(3) Some by (auto split: prod.splits sum.splits)
    with chk Cons.prems(2) have al: "rc_IsAlive (sv_runtime s) (ai_instance a) w = (Inr (alive (ai_instance a)), w1)" "Q w1"
      unfolding steady_def by blast+
    from alive_inv [OF Cons.prems(1) al(1)] have w1: "inv w1" "rows w1 = rows w" by auto
    show ?thesis
    proof (cases "alive (ai_instance a)")
      case True
      with Some have "\<not> dead alive x" by (simp add: dead_def)
      from True Some Cons.prems al have "reap_loop s now xs n w1 = ((m, None), w')" by simp
      from Cons.IH [OF w1(1) al(2) this] \<open>\<not> dead alive x\<close> show ?thesis unfolding w1(2) by simp
    next
      case False
      with Some have "dead alive x" by (simp add: dead_def)
      moreover from False Some Cons.prems al have "(case is_FailRunning (sv_store s) (di_id x) now w1 of
          (Inl e, w2) \<Rightarrow> ((n, Some e), w2) | (Inr u, w2) \<Rightarrow> reap_loop s now xs (n + 1) w2) = ((m, None), w')"
        by simp
      ultimately show ?thesis using fail [OF _ w1(1) al(2)] unfolding w1(2) by blast
    qed
  qed
qed

lemma Reap_frame:
  assumes inv: "inv w" and r: "Reap s w = ((e, f, err), w')"
  shows "inv w' \<and> (\<forall>i r. rows w i = Some r \<longrightarrow> (\<exists>r'. rows w' i = Some r' \<and>
    (r' = r \<or> r' = expire_before_row (sv_clock s w - sv_pendingTTL s) (sv_clock s w) r \<or>
     di_state r = IntentStateRunning \<and> r' = completed_row IntentStateFailed (Some (sv_clock s w)) r)))"
proof -
  let ?now = "sv_clock s w" and ?b = "sv_clock s w - sv_pendingTTL s"
  obtain eres w1 where x: "is_ExpirePendingBefore (sv_store s) ?b ?now w = (eres, w1)" by fastforce
  note w1 = expire_before_inv [OF inv x]
  show ?thesis
  proof (cases eres)
    case (Inl e')
    with r x w1 expire_before_err [OF inv] show ?thesis by (auto simp: Reap_def Let_def)
  next
    case (Inr n)
    with expire_before_ok [OF inv] x have rows1: "rows w1 = map_option (expire_before_row ?b ?now) \<circ> rows w" by simp
    obtain lres w2 where l: "is_ListRunningBefore (sv_store s) (?now - sv_runningTTL s) w1 = (lres, w2)" by fastforce
    from running_inv [OF w1 l] have w2: "inv w2" "rows w2 = rows w1" by auto
    show ?thesis
    proof (cases lres)
      case (Inl e')
      with r x Inr l w2 rows1 show ?thesis by (auto simp: Reap_def Let_def)
    next
      case (Inr xs)
      obtain m err' w3 where lp: "reap_loop s ?now xs 0 w2 = ((m, err'), w3)" by (metis prod.collapse)
      from r x \<open>eres = Inr n\<close> l Inr lp have "w' = w3" by (simp add: Reap_def Let_def)
      with reap_loop_frame [OF w2(1) lp] have w': "inv w'"
        and rows': "\<And>i. rows w' i = rows w1 i \<or> rows w' i = map_option (fail_row ?now) (rows w1 i)"
        unfolding w2(2) by blast+
      have "\<exists>r'. rows w' i = Some r' \<and> (r' = q \<or> r' = expire_before_row ?b ?now q \<or>
          di_state q = IntentStateRunning \<and> r' = completed_row IntentStateFailed (Some ?now) q)"
        if "rows w i = Some q" for i q
      proof -
        have "rows w1 i = Some (expire_before_row ?b ?now q)" by (simp add: rows1 that)
        with rows' [of i] show ?thesis
          by (auto simp: fail_row_def expire_before_row_def split: if_splits)
      qed
      with w' show ?thesis by blast
    qed
  qed
qed

lemma Reap_exact:
  assumes chk: "steady alive Q" and inv: "inv w" "Q w" and r: "Reap s w = ((e, f, None), w')"
  shows "inv w' \<and> rows w' =
    map_option (reap_row alive (sv_clock s w) (sv_pendingTTL s) (sv_runningTTL s)) \<circ> rows w"
proof -
  let ?now = "sv_clock s w" and ?b = "sv_clock s w - sv_pendingTTL s"
  obtain n w1 xs w2 where x: "is_ExpirePendingBefore (sv_store s) ?b ?now w = (Inr n, w1)"
    and l: "is_ListRunningBefore (sv_store s) (?now - sv_runningTTL s) w1 = (Inr xs, w2)"
    and lp: "reap_loop s ?now xs 0 w2 = ((f, None), w')"
    using r by (auto simp: Reap_def Let_def split: prod.splits sum.splits)
  note w1 = expire_before_inv [OF inv(1) x]
  have rows1: "rows w1 = map_option (expire_before_row ?b ?now) \<circ> rows w" by (rule expire_before_ok [OF inv(1) x])
  from running_inv [OF w1 l] have w2: "inv w2" "rows w2 = rows w1" by auto
  note xs = running_ok [OF w1 l]
  have "Q w1" using chk inv(2) x unfolding steady_def by (metis snd_conv)
  then have Q2: "Q w2" using chk l unfolding steady_def by (metis snd_conv)
  have w': "inv w'" "rows w' = (\<lambda>i. if i \<in> di_id ` set (filter (dead alive) xs)
      then map_option (fail_row ?now) (rows w1 i) else rows w1 i)"
    using reap_loop_exact [OF chk w2(1) Q2 lp] unfolding w2(2) by blast+
  have mem: "i \<in> di_id ` set (filter (dead alive) xs) \<longleftrightarrow> running_before (?now - sv_runningTTL s) r \<and> dead alive r"
    if "rows w1 i = Some r" for i r
  proof
    assume "i \<in> di_id ` set (filter (dead alive) xs)"
    with xs that show "running_before (?now - sv_runningTTL s) r \<and> dead alive r" by fastforce
  next
    assume d: "running_before (?now - sv_runningTTL s) r \<and> dead alive r"
    with xs that have "r \<in> set xs" and "rows w1 (di_id r) = Some r" by blast+
    moreover from this that have "di_id r = i" using keys_unique [OF w1] by blast
    ultimately show "i \<in> di_id ` set (filter (dead alive) xs)" using d by auto
  qed
  have "rows w' i = map_option (reap_row alive ?now (sv_pendingTTL s) (sv_runningTTL s)) (rows w i)" for i
  proof (cases "rows w i")
    case None
    then show ?thesis by (simp add: w'(2) rows1)
  next
    case (Some q)
    with rows1 have r1: "rows w1 i = Some (expire_before_row ?b ?now q)" by simp
    show ?thesis
      using mem [OF r1] Some r1
      by (auto simp: w'(2) reap_row_def expire_before_row_def fail_row_def running_before_def dead_def)
  qed
  with w'(1) show ?thesis by (simp add: fun_eq_iff)
qed

end

end
