(* ===== verification/Runtime_Types.thy ===== *)
theory Runtime_Types
  imports Shared_Api
begin

text \<open>
  Package \<open>runtime\<close>, the data: runtime instances with their states, channel subscriptions
  (\<open>types.go\<close>), the heartbeat rules (\<open>state.go\<close>), the service errors (\<open>errors.go\<close>) and the
  requests and responses (\<open>dto.go\<close>). A state that is none of the constants is \<open>RuntimeOther\<close>.
\<close>

section \<open>States\<close>

datatype runtime_state =
    RuntimeStateStarting | RuntimeStateActive | RuntimeStateIdle | RuntimeStateBusy
  | RuntimeStateDegraded | RuntimeStateStopped | RuntimeStateStale | RuntimeStateDead
  | RuntimeOther string

definition runtime_state_of :: "string \<Rightarrow> runtime_state" where
  "runtime_state_of s =
     (if s = ''starting'' then RuntimeStateStarting
      else if s = ''active'' then RuntimeStateActive
      else if s = ''idle'' then RuntimeStateIdle
      else if s = ''busy'' then RuntimeStateBusy
      else if s = ''degraded'' then RuntimeStateDegraded
      else if s = ''stopped'' then RuntimeStateStopped
      else if s = ''stale'' then RuntimeStateStale
      else if s = ''dead'' then RuntimeStateDead
      else RuntimeOther s)"

fun runtime_state_string :: "runtime_state \<Rightarrow> string" where
  "runtime_state_string RuntimeStateStarting = ''starting''"
| "runtime_state_string RuntimeStateActive = ''active''"
| "runtime_state_string RuntimeStateIdle = ''idle''"
| "runtime_state_string RuntimeStateBusy = ''busy''"
| "runtime_state_string RuntimeStateDegraded = ''degraded''"
| "runtime_state_string RuntimeStateStopped = ''stopped''"
| "runtime_state_string RuntimeStateStale = ''stale''"
| "runtime_state_string RuntimeStateDead = ''dead''"
| "runtime_state_string (RuntimeOther s) = s"

fun runtime_state_valid :: "runtime_state \<Rightarrow> bool" where
  "runtime_state_valid (RuntimeOther s) = False"
| "runtime_state_valid _ = True"

section \<open>Errors\<close>

definition ErrInvalidRuntimeInstance :: go_err where [sentinel_defs]: "ErrInvalidRuntimeInstance = Sentinel ''runtime'' ''invalid runtime instance''"
definition ErrInvalidRuntimeState :: go_err where [sentinel_defs]: "ErrInvalidRuntimeState = Sentinel ''runtime'' ''invalid runtime state''"
definition ErrInstanceNotFound :: go_err where [sentinel_defs]: "ErrInstanceNotFound = Sentinel ''runtime'' ''runtime instance not found''"
definition ErrSubscriptionNotFound :: go_err where [sentinel_defs]: "ErrSubscriptionNotFound = Sentinel ''runtime'' ''subscription not found''"
definition ErrInvalidSubscription :: go_err where [sentinel_defs]: "ErrInvalidSubscription = Sentinel ''runtime'' ''invalid subscription''"

definition rt_notFound :: "go_err \<Rightarrow> string \<Rightarrow> go_err" where
  "rt_notFound e ident = ServiceErr (Wrapped [] e ('': '' @ ident)) ''not_found'' 404"

definition rt_badRequest :: "go_err \<Rightarrow> go_err" where
  "rt_badRequest e = ServiceErr e ''bad_request'' 400"

section \<open>Instances and subscriptions\<close>

record runtime_instance =
  ri_id :: agent_instance_id
  ri_profile :: profile_identity
  ri_host :: string
  ri_pid :: "int option"
  ri_state :: runtime_state
  ri_started :: time
  ri_heartbeat :: "time option"
  ri_stopped :: "time option"
  ri_degraded :: "string option"

definition instance_valid :: "runtime_instance \<Rightarrow> bool" where
  "instance_valid i \<longleftrightarrow>
     instance_is_valid (ri_id i) \<and> profile_is_valid (ri_profile i) \<and> ri_host i \<noteq> [] \<and>
     runtime_state_valid (ri_state i) \<and> \<not> is_zero_time (ri_started i)"

definition NewRuntimeInstance ::
    "agent_instance_id \<Rightarrow> profile_identity \<Rightarrow> string \<Rightarrow> int option \<Rightarrow> time \<Rightarrow> go_err + runtime_instance" where
  "NewRuntimeInstance iid profile host pid now =
     (let i = \<lparr>ri_id = iid, ri_profile = profile, ri_host = host, ri_pid = pid,
               ri_state = RuntimeStateStarting, ri_started = now, ri_heartbeat = None,
               ri_stopped = None, ri_degraded = None\<rparr>
      in if \<not> instance_valid i then Inl ErrInvalidRuntimeInstance else Inr i)"

definition rehydrateRuntimeInstance :: "runtime_instance \<Rightarrow> go_err + runtime_instance" where
  "rehydrateRuntimeInstance i = (if \<not> instance_valid i then Inl ErrInvalidRuntimeInstance else Inr i)"

record channel_subscription =
  cs_id :: int
  cs_instance :: agent_instance_id
  cs_channel :: int
  cs_cursor :: int
  cs_polled :: "time option"
  cs_policy :: "string option"
  cs_created :: time

definition subscription_valid :: "channel_subscription \<Rightarrow> bool" where
  "subscription_valid c \<longleftrightarrow>
     instance_is_valid (cs_instance c) \<and> cs_channel c > 0 \<and> \<not> is_zero_time (cs_created c)"

definition NewChannelSubscription ::
    "agent_instance_id \<Rightarrow> int \<Rightarrow> string option \<Rightarrow> time \<Rightarrow> go_err + channel_subscription" where
  "NewChannelSubscription iid channel policy now =
     (let c = \<lparr>cs_id = 0, cs_instance = iid, cs_channel = channel, cs_cursor = 0, cs_polled = None,
               cs_policy = policy, cs_created = now\<rparr>
      in if \<not> subscription_valid c then Inl ErrInvalidSubscription else Inr c)"

definition rehydrateChannelSubscription :: "channel_subscription \<Rightarrow> go_err + channel_subscription" where
  "rehydrateChannelSubscription c = (if \<not> subscription_valid c then Inl ErrInvalidSubscription else Inr c)"

section \<open>Heartbeat rules\<close>

definition applyHeartbeat :: "time \<Rightarrow> runtime_instance \<Rightarrow> runtime_instance" where
  "applyHeartbeat at i =
     (let j = i\<lparr>ri_heartbeat := Some at\<rparr>
      in if ri_state j = RuntimeStateStarting \<or> ri_state j = RuntimeStateStale \<or> ri_state j = RuntimeStateDead
         then j\<lparr>ri_state := RuntimeStateActive\<rparr> else j)"

definition stateForHeartbeat ::
    "time option \<Rightarrow> runtime_state \<Rightarrow> time \<Rightarrow> duration \<Rightarrow> duration \<Rightarrow> runtime_state" where
  "stateForHeartbeat lastHeartbeatAt current now staleThreshold deadThreshold =
     (if current = RuntimeStateStopped then current
      else case lastHeartbeatAt of
             None \<Rightarrow> current
           | Some t \<Rightarrow>
               (let age = now - t
                in if age \<ge> deadThreshold then RuntimeStateDead
                   else if age \<ge> staleThreshold then RuntimeStateStale
                   else current))"

section \<open>Requests and responses\<close>

record register_request =
  rr_instance :: agent_instance_id
  rr_profile :: profile_identity
  rr_host :: string
  rr_pid :: "int option"

definition register_validate :: "register_request \<Rightarrow> go_err option" where
  "register_validate r =
     (if \<not> instance_is_valid (rr_instance r) \<or> \<not> profile_is_valid (rr_profile r) \<or> rr_host r = []
      then Some ErrInvalidRuntimeInstance else None)"

definition heartbeat_request_validate :: "runtime_state option \<Rightarrow> go_err option" where
  "heartbeat_request_validate st =
     (if (case st of None \<Rightarrow> False | Some s \<Rightarrow> \<not> runtime_state_valid s) then Some ErrInvalidRuntimeState else None)"

record runtime_instance_response =
  rir_id :: agent_instance_id
  rir_profile :: profile_identity
  rir_host :: string
  rir_pid :: "int option"
  rir_state :: runtime_state
  rir_started :: time
  rir_heartbeat :: "time option"
  rir_stopped :: "time option"
  rir_degraded :: "string option"

definition toRuntimeInstanceResponse :: "runtime_instance \<Rightarrow> runtime_instance_response" where
  "toRuntimeInstanceResponse i =
     \<lparr>rir_id = ri_id i, rir_profile = ri_profile i, rir_host = ri_host i, rir_pid = ri_pid i,
      rir_state = ri_state i, rir_started = ri_started i, rir_heartbeat = ri_heartbeat i,
      rir_stopped = ri_stopped i, rir_degraded = ri_degraded i\<rparr>"

record create_subscription_request =
  csr_instance :: agent_instance_id
  csr_channel :: int
  csr_policy :: "string option"

definition create_subscription_validate :: "create_subscription_request \<Rightarrow> go_err option" where
  "create_subscription_validate r =
     (if \<not> instance_is_valid (csr_instance r) \<or> csr_channel r \<le> 0 then Some ErrInvalidSubscription else None)"

record subscription_response =
  sr_id :: int
  sr_instance :: agent_instance_id
  sr_channel :: int
  sr_cursor :: int
  sr_polled :: "time option"
  sr_policy :: "string option"
  sr_created :: time

definition toSubscriptionResponse :: "channel_subscription \<Rightarrow> subscription_response" where
  "toSubscriptionResponse c =
     \<lparr>sr_id = cs_id c, sr_instance = cs_instance c, sr_channel = cs_channel c, sr_cursor = cs_cursor c,
      sr_polled = cs_polled c, sr_policy = cs_policy c, sr_created = cs_created c\<rparr>"

record stream_event =
  se_id :: int
  se_kind :: string
  se_created :: time

record stream_response =
  st_id :: int
  st_after :: int
  st_cursor :: int
  st_events :: "stream_event list"

section \<open>Basic facts\<close>

lemma rehydrateRuntimeInstance_valid [simp]: "instance_valid i \<Longrightarrow> rehydrateRuntimeInstance i = Inr i"
  by (simp add: rehydrateRuntimeInstance_def)

lemma rehydrateChannelSubscription_valid [simp]:
  "subscription_valid c \<Longrightarrow> rehydrateChannelSubscription c = Inr c"
  by (simp add: rehydrateChannelSubscription_def)

lemma NewRuntimeInstance_Inr:
  "NewRuntimeInstance iid p h pid now = Inr i \<Longrightarrow>
     instance_valid i \<and> ri_id i = iid \<and> ri_state i = RuntimeStateStarting \<and> ri_heartbeat i = None \<and>
     ri_stopped i = None \<and> ri_started i = now"
  by (auto simp: NewRuntimeInstance_def Let_def split: if_splits)

lemma NewChannelSubscription_Inr:
  "NewChannelSubscription iid ch p now = Inr c \<Longrightarrow>
     subscription_valid c \<and> cs_instance c = iid \<and> cs_channel c = ch \<and> cs_cursor c = 0 \<and> cs_policy c = p"
  by (auto simp: NewChannelSubscription_def Let_def split: if_splits)

lemma runtime_state_of_string: "runtime_state_valid st \<Longrightarrow> runtime_state_of (runtime_state_string st) = st"
  by (cases st) (simp_all add: runtime_state_of_def)

end
