(* ===== verification/Runtime_Store.thy ===== *)
theory Runtime_Store
  imports Runtime_Types
begin

text \<open>
  Package \<open>runtime\<close>, the PostgreSQL store (\<open>store.go\<close>): the tables of instances and channel
  subscriptions, one definition per SQL statement and one per method of \<open>Store\<close>.
\<close>

record runtime_db =
  rd_instances :: "runtime_instance list"
  rd_subs :: "channel_subscription list"
  rd_next_sub :: int

section \<open>Statements\<close>

definition registerInstanceSQL :: "runtime_instance \<Rightarrow> (runtime_db, runtime_instance) stmt" where
  "registerInstanceSQL i db =
     (let new = \<lparr>ri_id = ri_id i, ri_profile = ri_profile i, ri_host = ri_host i, ri_pid = ri_pid i,
                 ri_state = ri_state i, ri_started = ri_started i, ri_heartbeat = None,
                 ri_stopped = None, ri_degraded = None\<rparr>
      in case row_lookup ri_id (ri_id i) (rd_instances db) of
           None \<Rightarrow> Some (new, db\<lparr>rd_instances := rd_instances db @ [new]\<rparr>)
         | Some _ \<Rightarrow> Some (new, db\<lparr>rd_instances :=
                        update_where (\<lambda>r. ri_id r = ri_id i) (\<lambda>_. new) (rd_instances db)\<rparr>))"

definition listInstancesSQL :: "runtime_db \<Rightarrow> runtime_instance list" where
  "listInstancesSQL db = sort_key (\<lambda>r. - ri_started r) (rd_instances db)"

definition listInstancesByStateSQL :: "runtime_state \<Rightarrow> runtime_db \<Rightarrow> runtime_instance list" where
  "listInstancesByStateSQL s db =
     sort_key (\<lambda>r. - ri_started r) (filter (\<lambda>r. ri_state r = s) (rd_instances db))"

definition getInstanceSQL :: "agent_instance_id \<Rightarrow> runtime_db \<Rightarrow> runtime_instance option" where
  "getInstanceSQL i db = row_lookup ri_id i (rd_instances db)"

definition heartbeat_row :: "time \<Rightarrow> runtime_instance \<Rightarrow> runtime_instance" where
  "heartbeat_row at r =
     r\<lparr>ri_heartbeat := Some at,
       ri_state := (if ri_state r \<in> {RuntimeStateStarting, RuntimeStateStale, RuntimeStateDead}
                    then RuntimeStateActive else ri_state r)\<rparr>"

definition heartbeatSQL :: "agent_instance_id \<Rightarrow> time \<Rightarrow> (runtime_db, runtime_instance option) stmt" where
  "heartbeatSQL i at db =
     (let rs = update_where (\<lambda>r. ri_id r = i) (heartbeat_row at) (rd_instances db)
      in Some (row_lookup ri_id i rs, db\<lparr>rd_instances := rs\<rparr>))"

definition sub_key :: "channel_subscription \<Rightarrow> agent_instance_id \<times> int" where
  "sub_key c = (cs_instance c, cs_channel c)"

definition createSubscriptionSQL :: "channel_subscription \<Rightarrow> (runtime_db, channel_subscription) stmt" where
  "createSubscriptionSQL c db =
     (let n = rd_next_sub db;
          new = \<lparr>cs_id = n, cs_instance = cs_instance c, cs_channel = cs_channel c, cs_cursor = 0,
                 cs_polled = None, cs_policy = cs_policy c, cs_created = cs_created c\<rparr>
      in case row_lookup sub_key (sub_key c) (rd_subs db) of
           Some r \<Rightarrow> Some (r\<lparr>cs_policy := cs_policy c\<rparr>,
                       db\<lparr>rd_subs := update_where (\<lambda>r. sub_key r = sub_key c)
                                        (\<lambda>r. r\<lparr>cs_policy := cs_policy c\<rparr>) (rd_subs db),
                          rd_next_sub := n + 1\<rparr>)
         | None \<Rightarrow>
             if row_lookup ri_id (cs_instance c) (rd_instances db) = None then None
             else Some (new, db\<lparr>rd_subs := rd_subs db @ [new], rd_next_sub := n + 1\<rparr>))"

definition getSubscriptionSQL :: "int \<Rightarrow> runtime_db \<Rightarrow> channel_subscription option" where
  "getSubscriptionSQL i db = row_lookup cs_id i (rd_subs db)"

definition polled_row :: "int \<Rightarrow> time \<Rightarrow> channel_subscription \<Rightarrow> channel_subscription" where
  "polled_row cursor at c = c\<lparr>cs_cursor := max (cs_cursor c) cursor, cs_polled := Some at\<rparr>"

definition markSubscriptionPolledSQL :: "int \<Rightarrow> int \<Rightarrow> time \<Rightarrow> (runtime_db, channel_subscription option) stmt" where
  "markSubscriptionPolledSQL i cursor at db =
     (let rs = update_where (\<lambda>r. cs_id r = i) (polled_row cursor at) (rd_subs db)
      in Some (row_lookup cs_id i rs, db\<lparr>rd_subs := rs\<rparr>))"

definition silent_since :: "time \<Rightarrow> runtime_instance \<Rightarrow> bool" where
  "silent_since before r \<longleftrightarrow> (case ri_heartbeat r of None \<Rightarrow> False | Some t \<Rightarrow> t \<le> before)"

definition stale_due :: "time \<Rightarrow> runtime_instance \<Rightarrow> bool" where
  "stale_due before r \<longleftrightarrow>
     ri_state r \<in> {RuntimeStateStarting, RuntimeStateActive, RuntimeStateIdle, RuntimeStateBusy, RuntimeStateDegraded} \<and>
     silent_since before r"

definition dead_due :: "time \<Rightarrow> runtime_instance \<Rightarrow> bool" where
  "dead_due before r \<longleftrightarrow>
     ri_state r \<in> {RuntimeStateStarting, RuntimeStateActive, RuntimeStateIdle, RuntimeStateBusy,
                   RuntimeStateDegraded, RuntimeStateStale} \<and>
     silent_since before r"

definition markStaleSQL :: "time \<Rightarrow> (runtime_db, int) stmt" where
  "markStaleSQL before db =
     Some (count_where (stale_due before) (rd_instances db),
           db\<lparr>rd_instances := update_where (stale_due before) (\<lambda>r. r\<lparr>ri_state := RuntimeStateStale\<rparr>)
                                (rd_instances db)\<rparr>)"

definition markDeadSQL :: "time \<Rightarrow> (runtime_db, int) stmt" where
  "markDeadSQL before db =
     Some (count_where (dead_due before) (rd_instances db),
           db\<lparr>rd_instances := update_where (dead_due before) (\<lambda>r. r\<lparr>ri_state := RuntimeStateDead\<rparr>)
                                (rd_instances db)\<rparr>)"

section \<open>Store methods\<close>

definition scanRuntimeInstance :: "runtime_instance \<Rightarrow> go_err + runtime_instance" where
  "scanRuntimeInstance r = rehydrateRuntimeInstance r"

definition scanSubscription :: "channel_subscription \<Rightarrow> go_err + channel_subscription" where
  "scanSubscription c = rehydrateChannelSubscription c"

text \<open>
  A method that runs one statement and scans the row it returns: \<open>one_row\<close> when the statement
  always returns a row, \<open>maybe_row\<close> when no row is the error \<open>missing\<close>.
\<close>

definition one_row ::
    "string \<Rightarrow> ('r \<Rightarrow> go_err + 'r) \<Rightarrow> (runtime_db, 'r) stmt \<Rightarrow> runtime_db pg \<Rightarrow> (go_err + 'r) \<times> runtime_db pg" where
  "one_row ctx scan q db =
     (case pg_call q db of
        (Inl e, db') \<Rightarrow> (Inl (Wrapped ctx e []), db')
      | (Inr r, db') \<Rightarrow> (case scan r of Inl e \<Rightarrow> (Inl (Wrapped ctx e []), db') | Inr x \<Rightarrow> (Inr x, db')))"

definition maybe_row ::
    "string \<Rightarrow> go_err \<Rightarrow> ('r \<Rightarrow> go_err + 'r) \<Rightarrow> (runtime_db, 'r option) stmt \<Rightarrow> runtime_db pg \<Rightarrow>
     (go_err + 'r) \<times> runtime_db pg" where
  "maybe_row ctx missing scan q db =
     (case pg_call q db of
        (Inl e, db') \<Rightarrow> (Inl (Wrapped ctx e []), db')
      | (Inr None, db') \<Rightarrow> (Inl missing, db')
      | (Inr (Some r), db') \<Rightarrow> (case scan r of Inl e \<Rightarrow> (Inl (Wrapped ctx e []), db') | Inr x \<Rightarrow> (Inr x, db')))"

definition rt_RegisterInstance :: "runtime_instance \<Rightarrow> runtime_db pg \<Rightarrow> (go_err + runtime_instance) \<times> runtime_db pg" where
  "rt_RegisterInstance i =
     one_row (''registering runtime instance '' @ ri_id i @ '': '') scanRuntimeInstance (registerInstanceSQL i)"

definition rt_ListInstances ::
    "runtime_state option \<Rightarrow> runtime_db pg \<Rightarrow> (go_err + runtime_instance list) \<times> runtime_db pg" where
  "rt_ListInstances s db =
     (let q = (case s of None \<Rightarrow> listInstancesSQL | Some st \<Rightarrow> listInstancesByStateSQL st)
      in case pg_call (read_only q) db of
           (Inl e, db1) \<Rightarrow> (Inl (Wrapped ''listing runtime instances: '' e []), db1)
         | (Inr rows, db1) \<Rightarrow>
             (case scan_all scanRuntimeInstance rows of
                Inl e \<Rightarrow> (Inl e, db1)
              | Inr xs \<Rightarrow>
                  (case pg_call (read_only (\<lambda>_. ())) db1 of
                     (Inl e, db2) \<Rightarrow> (Inl (Wrapped ''reading runtime instances: '' e []), db2)
                   | (Inr _, db2) \<Rightarrow> (Inr xs, db2))))"

definition rt_GetInstance :: "agent_instance_id \<Rightarrow> runtime_db pg \<Rightarrow> (go_err + runtime_instance) \<times> runtime_db pg" where
  "rt_GetInstance i =
     maybe_row (''getting runtime instance '' @ i @ '': '') (rt_notFound ErrInstanceNotFound i)
       scanRuntimeInstance (read_only (getInstanceSQL i))"

definition rt_Heartbeat :: "agent_instance_id \<Rightarrow> time \<Rightarrow> runtime_db pg \<Rightarrow> (go_err + runtime_instance) \<times> runtime_db pg" where
  "rt_Heartbeat i at =
     maybe_row (''heartbeating runtime instance '' @ i @ '': '') (rt_notFound ErrInstanceNotFound i)
       scanRuntimeInstance (heartbeatSQL i at)"

definition rt_CreateSubscription ::
    "channel_subscription \<Rightarrow> runtime_db pg \<Rightarrow> (go_err + channel_subscription) \<times> runtime_db pg" where
  "rt_CreateSubscription c = one_row ''creating subscription: '' scanSubscription (createSubscriptionSQL c)"

definition rt_GetSubscription :: "int \<Rightarrow> runtime_db pg \<Rightarrow> (go_err + channel_subscription) \<times> runtime_db pg" where
  "rt_GetSubscription i =
     maybe_row (''getting subscription '' @ show_int i @ '': '') (rt_notFound ErrSubscriptionNotFound (show_int i))
       scanSubscription (read_only (getSubscriptionSQL i))"

definition rt_MarkSubscriptionPolled ::
    "int \<Rightarrow> int \<Rightarrow> time \<Rightarrow> runtime_db pg \<Rightarrow> (go_err + channel_subscription) \<times> runtime_db pg" where
  "rt_MarkSubscriptionPolled i cursor at =
     maybe_row (''marking subscription '' @ show_int i @ '' polled: '')
       (rt_notFound ErrSubscriptionNotFound (show_int i)) scanSubscription (markSubscriptionPolledSQL i cursor at)"

definition rt_MarkStale :: "time \<Rightarrow> runtime_db pg \<Rightarrow> (go_err + int) \<times> runtime_db pg" where
  "rt_MarkStale before db =
     (case pg_call (markStaleSQL before) db of
        (Inl e, db') \<Rightarrow> (Inl (Wrapped ''marking stale runtimes: '' e []), db')
      | (Inr n, db') \<Rightarrow> (Inr n, db'))"

definition rt_MarkDead :: "time \<Rightarrow> runtime_db pg \<Rightarrow> (go_err + int) \<times> runtime_db pg" where
  "rt_MarkDead before db =
     (case pg_call (markDeadSQL before) db of
        (Inl e, db') \<Rightarrow> (Inl (Wrapped ''marking dead runtimes: '' e []), db')
      | (Inr n, db') \<Rightarrow> (Inr n, db'))"

end
