(* ===== verification/Runtime_Service.thy ===== *)
theory Runtime_Service
  imports Runtime_Types
begin

text \<open>
  Package \<open>runtime\<close>, the service (\<open>service.go\<close>) over the interface \<open>RuntimeStore\<close>, a record of
  functions on a world \<open>'w\<close>, and the HTTP handlers (\<open>handler.go\<close>).
\<close>

section \<open>The store interface and the service\<close>

record 'w runtime_store =
  rs_RegisterInstance :: "runtime_instance \<Rightarrow> 'w \<Rightarrow> (go_err + runtime_instance) \<times> 'w"
  rs_ListInstances :: "runtime_state option \<Rightarrow> 'w \<Rightarrow> (go_err + runtime_instance list) \<times> 'w"
  rs_GetInstance :: "agent_instance_id \<Rightarrow> 'w \<Rightarrow> (go_err + runtime_instance) \<times> 'w"
  rs_Heartbeat :: "agent_instance_id \<Rightarrow> time \<Rightarrow> 'w \<Rightarrow> (go_err + runtime_instance) \<times> 'w"
  rs_CreateSubscription :: "channel_subscription \<Rightarrow> 'w \<Rightarrow> (go_err + channel_subscription) \<times> 'w"
  rs_GetSubscription :: "int \<Rightarrow> 'w \<Rightarrow> (go_err + channel_subscription) \<times> 'w"
  rs_MarkSubscriptionPolled :: "int \<Rightarrow> int \<Rightarrow> time \<Rightarrow> 'w \<Rightarrow> (go_err + channel_subscription) \<times> 'w"
  rs_MarkStale :: "time \<Rightarrow> 'w \<Rightarrow> (go_err + int) \<times> 'w"
  rs_MarkDead :: "time \<Rightarrow> 'w \<Rightarrow> (go_err + int) \<times> 'w"

record 'w runtime_service =
  rv_store :: "'w runtime_store"
  rv_clock :: "'w \<Rightarrow> time"
  rv_stale :: duration
  rv_dead :: duration

definition NewRuntimeService ::
    "'w runtime_store \<Rightarrow> ('w \<Rightarrow> time) \<Rightarrow> duration \<Rightarrow> duration \<Rightarrow> 'w runtime_service" where
  "NewRuntimeService store clock stale dead =
     \<lparr>rv_store = store, rv_clock = clock, rv_stale = stale, rv_dead = dead\<rparr>"

section \<open>Operations\<close>

definition rv_Register :: "'w runtime_service \<Rightarrow> register_request \<Rightarrow> 'w \<Rightarrow> (go_err + runtime_instance) \<times> 'w" where
  "rv_Register s req w =
     (case register_validate req of
        Some e \<Rightarrow> (Inl (rt_badRequest e), w)
      | None \<Rightarrow>
          (case NewRuntimeInstance (rr_instance req) (rr_profile req) (rr_host req) (rr_pid req) (rv_clock s w) of
             Inl e \<Rightarrow> (Inl (rt_badRequest e), w)
           | Inr i \<Rightarrow> rs_RegisterInstance (rv_store s) i w))"

definition rv_List :: "'w runtime_service \<Rightarrow> runtime_state option \<Rightarrow> 'w \<Rightarrow> (go_err + runtime_instance list) \<times> 'w" where
  "rv_List s st w =
     (if (case st of None \<Rightarrow> False | Some x \<Rightarrow> \<not> runtime_state_valid x)
      then (Inl (rt_badRequest ErrInvalidRuntimeState), w)
      else rs_ListInstances (rv_store s) st w)"

definition rv_Get :: "'w runtime_service \<Rightarrow> agent_instance_id \<Rightarrow> 'w \<Rightarrow> (go_err + runtime_instance) \<times> 'w" where
  "rv_Get s i w =
     (if \<not> instance_is_valid i then (Inl (rt_badRequest ErrInvalidRuntimeInstance), w)
      else case rs_GetInstance (rv_store s) i w of
             (Inl e, w') \<Rightarrow> (Inl e, w')
           | (Inr x, w') \<Rightarrow> (Inr x, w'))"

definition rv_Heartbeat :: "'w runtime_service \<Rightarrow> agent_instance_id \<Rightarrow> 'w \<Rightarrow> (go_err + runtime_instance) \<times> 'w" where
  "rv_Heartbeat s i w =
     (if \<not> instance_is_valid i then (Inl (rt_badRequest ErrInvalidRuntimeInstance), w)
      else rs_Heartbeat (rv_store s) i (rv_clock s w) w)"

definition rv_CreateSubscription ::
    "'w runtime_service \<Rightarrow> create_subscription_request \<Rightarrow> 'w \<Rightarrow> (go_err + channel_subscription) \<times> 'w" where
  "rv_CreateSubscription s req w =
     (case create_subscription_validate req of
        Some e \<Rightarrow> (Inl (rt_badRequest e), w)
      | None \<Rightarrow>
          (case rs_GetInstance (rv_store s) (csr_instance req) w of
             (Inl e, w1) \<Rightarrow> (Inl e, w1)
           | (Inr _, w1) \<Rightarrow>
               (case NewChannelSubscription (csr_instance req) (csr_channel req) (csr_policy req) (rv_clock s w1) of
                  Inl e \<Rightarrow> (Inl (rt_badRequest e), w1)
                | Inr c \<Rightarrow> rs_CreateSubscription (rv_store s) c w1)))"

definition rv_Stream :: "'w runtime_service \<Rightarrow> int \<Rightarrow> int \<Rightarrow> 'w \<Rightarrow> (go_err + channel_subscription) \<times> 'w" where
  "rv_Stream s sid after w =
     (if sid \<le> 0 \<or> after < 0 then (Inl (rt_badRequest ErrInvalidSubscription), w)
      else case rs_GetSubscription (rv_store s) sid w of
             (Inl e, w1) \<Rightarrow> (Inl e, w1)
           | (Inr _, w1) \<Rightarrow> rs_MarkSubscriptionPolled (rv_store s) sid after (rv_clock s w1) w1)"

definition rv_Sweep :: "'w runtime_service \<Rightarrow> 'w \<Rightarrow> (go_err + int \<times> int) \<times> 'w" where
  "rv_Sweep s w =
     (let now = rv_clock s w
      in case rs_MarkStale (rv_store s) (now - rv_stale s) w of
           (Inl e, w1) \<Rightarrow> (Inl e, w1)
         | (Inr staleCount, w1) \<Rightarrow>
             (case rs_MarkDead (rv_store s) (now - rv_dead s) w1 of
                (Inl e, w2) \<Rightarrow> (Inl e, w2)
              | (Inr deadCount, w2) \<Rightarrow> (Inr (staleCount, deadCount), w2)))"

section \<open>Handlers\<close>

definition rt_respond :: "int \<Rightarrow> ('a \<Rightarrow> 'b) \<Rightarrow> (go_err + 'a) \<times> 'w \<Rightarrow> 'b http_response \<times> 'w" where
  "rt_respond status f r =
     (case r of
        (Inl e, w) \<Rightarrow> (WriteServiceError (Some e), w)
      | (Inr x, w) \<Rightarrow> (WriteJSON status (f x), w))"

definition registerInstance ::
    "'w runtime_service \<Rightarrow> go_err + register_request \<Rightarrow> 'w \<Rightarrow> runtime_instance_response http_response \<times> 'w" where
  "registerInstance s body w =
     (case body of
        Inl e \<Rightarrow> (WriteServiceError (Some e), w)
      | Inr req \<Rightarrow> rt_respond 201 toRuntimeInstanceResponse (rv_Register s req w))"

definition listInstances ::
    "'w runtime_service \<Rightarrow> string \<Rightarrow> 'w \<Rightarrow> runtime_instance_response list http_response \<times> 'w" where
  "listInstances s raw w =
     (let st = (if raw \<noteq> [] then Some (runtime_state_of raw) else None)
      in rt_respond 200 (map toRuntimeInstanceResponse) (rv_List s st w))"

definition getInstance ::
    "'w runtime_service \<Rightarrow> string \<Rightarrow> 'w \<Rightarrow> runtime_instance_response http_response \<times> 'w" where
  "getInstance s rawid w = rt_respond 200 toRuntimeInstanceResponse (rv_Get s rawid w)"

definition heartbeat ::
    "'w runtime_service \<Rightarrow> string \<Rightarrow> 'w \<Rightarrow> runtime_instance_response http_response \<times> 'w" where
  "heartbeat s rawid w = rt_respond 200 toRuntimeInstanceResponse (rv_Heartbeat s rawid w)"

definition createSubscription ::
    "'w runtime_service \<Rightarrow> go_err + create_subscription_request \<Rightarrow> 'w \<Rightarrow> subscription_response http_response \<times> 'w" where
  "createSubscription s body w =
     (case body of
        Inl e \<Rightarrow> (WriteServiceError (Some e), w)
      | Inr req \<Rightarrow> rt_respond 201 toSubscriptionResponse (rv_CreateSubscription s req w))"

definition stream :: "'w runtime_service \<Rightarrow> string \<Rightarrow> string \<Rightarrow> 'w \<Rightarrow> stream_response http_response \<times> 'w" where
  "stream s rawid rawafter w =
     (case parse_required_int64 rawid of
        Inl e \<Rightarrow> (WriteServiceError (Some (rt_badRequest ErrInvalidSubscription)), w)
      | Inr sid \<Rightarrow>
          (case (if rawafter \<noteq> [] then parse_required_int64 rawafter else Inr 0) of
             Inl e \<Rightarrow> (WriteServiceError (Some (rt_badRequest ErrInvalidSubscription)), w)
           | Inr after \<Rightarrow>
               rt_respond 200 (\<lambda>c. \<lparr>st_id = cs_id c, st_after = after, st_cursor = cs_cursor c, st_events = []\<rparr>)
                 (rv_Stream s sid after w)))"

end
