(* ===== verification/Runtime_Client.thy ===== *)
theory Runtime_Client
  imports Runtime_Store Runtime_Service
begin

text \<open>
  The contract of the runtime store (locale \<open>runtime_store_laws\<close>), the operations of the runtime
  service over any store that keeps it, and the proof that the PostgreSQL store does. The SQL
  heartbeat is \<open>applyHeartbeat\<close>; the two sweep statements together are \<open>sweep_row\<close>, which
  is compared with \<open>stateForHeartbeat\<close>.
\<close>

type_synonym instances = "agent_instance_id \<Rightarrow> runtime_instance option"
type_synonym subscriptions = "int \<Rightarrow> channel_subscription option"

definition stale_row :: "time \<Rightarrow> runtime_instance \<Rightarrow> runtime_instance" where
  "stale_row before r = (if stale_due before r then r\<lparr>ri_state := RuntimeStateStale\<rparr> else r)"

definition dead_row :: "time \<Rightarrow> runtime_instance \<Rightarrow> runtime_instance" where
  "dead_row before r = (if dead_due before r then r\<lparr>ri_state := RuntimeStateDead\<rparr> else r)"

definition sweep_row :: "time \<Rightarrow> duration \<Rightarrow> duration \<Rightarrow> runtime_instance \<Rightarrow> runtime_instance" where
  "sweep_row now stale dead r = dead_row (now - dead) (stale_row (now - stale) r)"

lemma heartbeat_row_apply: "heartbeat_row at r = applyHeartbeat at r"
  by (auto simp: heartbeat_row_def applyHeartbeat_def Let_def)

text \<open>The sweep follows \<open>stateForHeartbeat\<close> on every valid state but \<open>dead\<close>, which it never leaves.\<close>

lemma sweep_row_state:
  "runtime_state_valid (ri_state r) \<Longrightarrow>
   sweep_row now stale dead r =
     (if ri_state r = RuntimeStateDead then r
      else r\<lparr>ri_state := stateForHeartbeat (ri_heartbeat r) (ri_state r) now stale dead\<rparr>)"
  by (cases "ri_state r"; cases "ri_heartbeat r")
    (auto simp: sweep_row_def dead_row_def stale_row_def stale_due_def dead_due_def silent_since_def
      stateForHeartbeat_def Let_def)

section \<open>What a store promises\<close>

locale runtime_store_laws =
  fixes st :: "'w runtime_store"
    and insts :: "'w \<Rightarrow> instances"
    and subs :: "'w \<Rightarrow> subscriptions"
    and inv :: "'w \<Rightarrow> bool"
  assumes valid: "inv w \<Longrightarrow> insts w a = Some r \<Longrightarrow> instance_valid r \<and> ri_id r = a"
    and register: "inv w \<Longrightarrow> instance_valid new \<Longrightarrow> ri_state new = RuntimeStateStarting \<Longrightarrow>
      rs_RegisterInstance st new w = (res, w') \<Longrightarrow>
      inv w' \<and> subs w' = subs w \<and>
      (\<forall>e. res = Inl e \<longrightarrow> insts w' = insts w) \<and>
      (\<forall>x. res = Inr x \<longrightarrow>
         x = new\<lparr>ri_heartbeat := None, ri_stopped := None, ri_degraded := None\<rparr> \<and>
         insts w' = (insts w)(ri_id new \<mapsto> x))"
    and get: "inv w \<Longrightarrow> rs_GetInstance st a w = (res, w') \<Longrightarrow>
      inv w' \<and> insts w' = insts w \<and> subs w' = subs w \<and> (\<forall>x. res = Inr x \<longrightarrow> insts w a = Some x)"
    and beat: "inv w \<Longrightarrow> rs_Heartbeat st a at w = (res, w') \<Longrightarrow>
      inv w' \<and> subs w' = subs w \<and>
      (\<forall>e. res = Inl e \<longrightarrow> insts w' = insts w) \<and>
      (\<forall>x. res = Inr x \<longrightarrow> (\<exists>r. insts w a = Some r \<and> x = applyHeartbeat at r \<and> insts w' = (insts w)(a \<mapsto> x)))"
    and stale: "inv w \<Longrightarrow> rs_MarkStale st before w = (nres, w') \<Longrightarrow>
      inv w' \<and> subs w' = subs w \<and>
      (\<forall>e. nres = Inl e \<longrightarrow> insts w' = insts w) \<and>
      (\<forall>n. nres = Inr n \<longrightarrow> insts w' = map_option (stale_row before) \<circ> insts w)"
    and dead: "inv w \<Longrightarrow> rs_MarkDead st before w = (nres, w') \<Longrightarrow>
      inv w' \<and> subs w' = subs w \<and>
      (\<forall>e. nres = Inl e \<longrightarrow> insts w' = insts w) \<and>
      (\<forall>n. nres = Inr n \<longrightarrow> insts w' = map_option (dead_row before) \<circ> insts w)"
    and subscribe: "inv w \<Longrightarrow> subscription_valid c \<Longrightarrow> rs_CreateSubscription st c w = (sres, w') \<Longrightarrow>
      inv w' \<and> insts w' = insts w \<and>
      (\<forall>e. sres = Inl e \<longrightarrow> subs w' = subs w) \<and>
      (\<forall>x. sres = Inr x \<longrightarrow> sub_key x = sub_key c \<and> cs_policy x = cs_policy c \<and>
         subs w' = (subs w)(cs_id x \<mapsto> x) \<and>
         (case subs w (cs_id x) of None \<Rightarrow> cs_cursor x = 0
          | Some old \<Rightarrow> x = old\<lparr>cs_policy := cs_policy c\<rparr>))"
    and get_sub: "inv w \<Longrightarrow> rs_GetSubscription st i w = (sres, w') \<Longrightarrow>
      inv w' \<and> insts w' = insts w \<and> subs w' = subs w \<and> (\<forall>x. sres = Inr x \<longrightarrow> subs w i = Some x)"
    and polled: "inv w \<Longrightarrow> rs_MarkSubscriptionPolled st i cursor at w = (sres, w') \<Longrightarrow>
      inv w' \<and> insts w' = insts w \<and>
      (\<forall>e. sres = Inl e \<longrightarrow> subs w' = subs w) \<and>
      (\<forall>x. sres = Inr x \<longrightarrow>
         (\<exists>c. subs w i = Some c \<and> x = polled_row cursor at c \<and> subs w' = (subs w)(i \<mapsto> x)))"
    and missing: "inv w \<Longrightarrow> rs_GetInstance st a w = (Inl e, w') \<Longrightarrow> 400 \<le> fst (statusForError e) \<and> (insts w a = None \<or> fst (statusForError e) \<noteq> 404)"

section \<open>The service over any such store\<close>

locale runtime_client = runtime_store_laws "rv_store s" insts subs inv
  for s :: "'w runtime_service" and insts :: "'w \<Rightarrow> instances" and subs :: "'w \<Rightarrow> subscriptions"
    and inv :: "'w \<Rightarrow> bool"
begin

lemma Register_ok:
  assumes "inv w" and "rv_Register s req w = (Inr x, w')"
  shows "inv w' \<and> ri_state x = RuntimeStateStarting \<and> ri_heartbeat x = None \<and> ri_id x = rr_instance req \<and>
    insts w' = (insts w)(rr_instance req \<mapsto> x) \<and> subs w' = subs w"
proof -
  from assms(2) obtain new where
    n: "NewRuntimeInstance (rr_instance req) (rr_profile req) (rr_host req) (rr_pid req) (rv_clock s w) = Inr new"
    and r: "rs_RegisterInstance (rv_store s) new w = (Inr x, w')"
    by (auto simp: rv_Register_def split: option.splits sum.splits)
  from NewRuntimeInstance_Inr [OF n] register [OF assms(1) _ _ r] show ?thesis by auto
qed

lemma Get_ok: "inv w \<Longrightarrow> rv_Get s a w = (res, w') \<Longrightarrow>
    inv w' \<and> insts w' = insts w \<and> subs w' = subs w \<and> (\<forall>x. res = Inr x \<longrightarrow> insts w a = Some x)"
  using get by (fastforce simp: rv_Get_def split: if_splits prod.splits sum.splits)

lemma Get_missing: "inv w \<Longrightarrow> rv_Get s a w = (Inl e, w') \<Longrightarrow> 400 \<le> fst (statusForError e) \<and> (insts w a = None \<or> fst (statusForError e) \<noteq> 404)"
  using missing by (fastforce simp: rv_Get_def rt_badRequest_def split: if_splits prod.splits sum.splits)

lemma Heartbeat_ok:
  "inv w \<Longrightarrow> rv_Heartbeat s a w = (Inr x, w') \<Longrightarrow>
     inv w' \<and> subs w' = subs w \<and>
     (\<exists>r. insts w a = Some r \<and> x = applyHeartbeat (rv_clock s w) r \<and> insts w' = (insts w)(a \<mapsto> x))"
  using beat by (fastforce simp: rv_Heartbeat_def split: if_splits)

lemma Subscribe_ok:
  assumes "inv w" and "rv_CreateSubscription s req w = (Inr x, w')"
  shows "inv w' \<and> insts w' = insts w \<and> insts w (csr_instance req) \<noteq> None \<and>
    sub_key x = (csr_instance req, csr_channel req) \<and> cs_policy x = csr_policy req \<and>
    subs w' = (subs w)(cs_id x \<mapsto> x) \<and>
    (case subs w (cs_id x) of None \<Rightarrow> cs_cursor x = 0 | Some old \<Rightarrow> cs_cursor x = cs_cursor old)"
proof -
  from assms(2) obtain i w1 c where g: "rs_GetInstance (rv_store s) (csr_instance req) w = (Inr i, w1)"
    and n: "NewChannelSubscription (csr_instance req) (csr_channel req) (csr_policy req) (rv_clock s w1) = Inr c"
    and p: "rs_CreateSubscription (rv_store s) c w1 = (Inr x, w')"
    by (auto simp: rv_CreateSubscription_def split: option.splits sum.splits prod.splits)
  note w1 = get [OF assms(1) g]
  from w1 NewChannelSubscription_Inr [OF n] subscribe [OF _ _ p] show ?thesis
    by (auto simp: sub_key_def split: option.splits)
qed

lemma Stream_ok:
  assumes "inv w" and "rv_Stream s i after w = (Inr x, w')"
  shows "inv w' \<and> insts w' = insts w \<and>
    (\<exists>c. subs w i = Some c \<and> cs_cursor x = max (cs_cursor c) after \<and> subs w' = (subs w)(i \<mapsto> x))"
proof -
  from assms(2) obtain c w1 where g: "rs_GetSubscription (rv_store s) i w = (Inr c, w1)"
    and p: "rs_MarkSubscriptionPolled (rv_store s) i after (rv_clock s w1) w1 = (Inr x, w')"
    by (auto simp: rv_Stream_def split: if_splits sum.splits prod.splits)
  from get_sub [OF assms(1) g] have w1: "inv w1" "insts w1 = insts w" "subs w1 = subs w" by auto
  from polled [OF w1(1) p] w1 show ?thesis by (auto simp: polled_row_def)
qed

lemma Sweep_ok:
  assumes "inv w" and "rv_Sweep s w = (Inr (n, m), w')"
  shows "inv w' \<and> subs w' = subs w \<and>
    insts w' = map_option (sweep_row (rv_clock s w) (rv_stale s) (rv_dead s)) \<circ> insts w"
proof -
  from assms(2) obtain w1 where m1: "rs_MarkStale (rv_store s) (rv_clock s w - rv_stale s) w = (Inr n, w1)"
    and m2: "rs_MarkDead (rv_store s) (rv_clock s w - rv_dead s) w1 = (Inr m, w')"
    by (auto simp: rv_Sweep_def Let_def split: sum.splits prod.splits)
  from stale [OF assms(1) m1] have w1: "inv w1" "subs w1 = subs w"
    "insts w1 = map_option (stale_row (rv_clock s w - rv_stale s)) \<circ> insts w" by auto
  from dead [OF w1(1) m2] w1 show ?thesis
    by (auto simp: fun_eq_iff option.map_comp o_def sweep_row_def [abs_def])
qed

text \<open>A sweep that stops at its second statement has applied the first.\<close>

lemma Sweep_frame:
  assumes "inv w" and "rv_Sweep s w = (res, w')"
  shows "inv w' \<and> subs w' = subs w \<and>
    (\<forall>a r. insts w a = Some r \<longrightarrow> (\<exists>r'. insts w' a = Some r' \<and> ri_heartbeat r' = ri_heartbeat r \<and>
       (ri_state r = RuntimeStateStopped \<or> ri_heartbeat r = None \<longrightarrow> r' = r)))"
proof -
  let ?b = "rv_clock s w - rv_stale s" and ?d = "rv_clock s w - rv_dead s"
  obtain n1 w1 where m1: "rs_MarkStale (rv_store s) ?b w = (n1, w1)" by fastforce
  obtain n2 w2 where m2: "rs_MarkDead (rv_store s) ?d w1 = (n2, w2)" by fastforce
  note s1 = stale [OF assms(1) m1]
  note s2 = dead [OF s1 [THEN conjunct1] m2]
  have keep: "\<exists>r'. map_option f (Some r) = Some r' \<and> ri_heartbeat r' = ri_heartbeat r \<and>
      (ri_state r = RuntimeStateStopped \<or> ri_heartbeat r = None \<longrightarrow> r' = r)"
    if "f \<in> {id, stale_row ?b, dead_row ?d, dead_row ?d \<circ> stale_row ?b}" for f r
    using that by (auto simp: stale_row_def dead_row_def stale_due_def dead_due_def silent_since_def)
  have "\<exists>f \<in> {id, stale_row ?b, dead_row ?d, dead_row ?d \<circ> stale_row ?b}. insts w' = map_option f \<circ> insts w"
    using assms(2) m1 m2 s1 s2
    by (cases n1; cases n2) (auto simp: rv_Sweep_def Let_def option.map_comp fun_eq_iff option.map_id0)
  moreover have "inv w' \<and> subs w' = subs w"
    using assms(2) m1 m2 s1 s2 by (cases n1; cases n2) (auto simp: rv_Sweep_def Let_def)
  ultimately show ?thesis using keep by fastforce
qed

end

end
