(* ===== verification/Runtime_Pg.thy ===== *)
theory Runtime_Pg
  imports Runtime_Client
begin

text \<open>
  The invariant of the runtime tables and the proof that the PostgreSQL store of package
  \<open>runtime\<close> keeps \<open>runtime_store_laws\<close> under every schedule of driver failures.
\<close>

section \<open>The invariant of the tables\<close>

definition runtime_inv :: "runtime_db \<Rightarrow> bool" where
  "runtime_inv db \<longleftrightarrow>
     distinct (map ri_id (rd_instances db)) \<and> (\<forall>r\<in>set (rd_instances db). instance_valid r) \<and>
     distinct (map cs_id (rd_subs db)) \<and> distinct (map sub_key (rd_subs db)) \<and>
     (\<forall>c\<in>set (rd_subs db). subscription_valid c \<and> 0 \<le> cs_cursor c \<and> 0 < cs_id c \<and> cs_id c < rd_next_sub db \<and>
        cs_instance c \<in> ri_id ` set (rd_instances db)) \<and> 0 < rd_next_sub db"

definition empty_runtime_db :: runtime_db where
  "empty_runtime_db = \<lparr>rd_instances = [], rd_subs = [], rd_next_sub = 1\<rparr>"

lemma runtime_inv_empty: "runtime_inv empty_runtime_db"
  by (simp add: runtime_inv_def empty_runtime_db_def)

definition rt_insts :: "runtime_db pg \<Rightarrow> instances" where
  "rt_insts db a = row_lookup ri_id a (rd_instances (pg_data db))"

definition rt_subs :: "runtime_db pg \<Rightarrow> subscriptions" where
  "rt_subs db i = row_lookup cs_id i (rd_subs (pg_data db))"

definition rt_inv :: "runtime_db pg \<Rightarrow> bool" where
  "rt_inv db \<longleftrightarrow> runtime_inv (pg_data db)"

definition pg_runtime_store :: "runtime_db pg runtime_store" where
  "pg_runtime_store =
     \<lparr>rs_RegisterInstance = rt_RegisterInstance, rs_ListInstances = rt_ListInstances,
      rs_GetInstance = rt_GetInstance, rs_Heartbeat = rt_Heartbeat,
      rs_CreateSubscription = rt_CreateSubscription, rs_GetSubscription = rt_GetSubscription,
      rs_MarkSubscriptionPolled = rt_MarkSubscriptionPolled, rs_MarkStale = rt_MarkStale,
      rs_MarkDead = rt_MarkDead\<rparr>"

lemma rt_obs_cong:
  "pg_data db' = pg_data db \<Longrightarrow> rt_insts db' = rt_insts db \<and> rt_subs db' = rt_subs db \<and> (rt_inv db' \<longleftrightarrow> rt_inv db)"
  by (simp add: rt_insts_def rt_subs_def rt_inv_def fun_eq_iff)

text \<open>Updating instance rows, or subscription rows, in place.\<close>

lemma runtime_inv_instances:
  assumes "runtime_inv db" and "\<And>r. r \<in> set (rd_instances db) \<Longrightarrow> P r \<Longrightarrow> instance_valid (f r)"
    and "\<And>r. P r \<Longrightarrow> ri_id (f r) = ri_id r"
  shows "runtime_inv (db\<lparr>rd_instances := update_where P f (rd_instances db)\<rparr>)"
proof -
  have ids: "map ri_id (update_where P f (rd_instances db)) = map ri_id (rd_instances db)"
    using assms(3) by (auto simp: update_where_def)
  then have "ri_id ` set (update_where P f (rd_instances db)) = ri_id ` set (rd_instances db)"
    by (metis list.set_map)
  with assms(1,2) ids show ?thesis
    by (auto simp: runtime_inv_def dest!: set_update_where)
qed

lemma runtime_inv_subs:
  assumes "runtime_inv db" and "\<And>r. r \<in> set (rd_subs db) \<Longrightarrow> P r \<Longrightarrow> subscription_valid (f r) \<and> 0 \<le> cs_cursor (f r)"
    and "\<And>r. cs_id (f r) = cs_id r \<and> cs_instance (f r) = cs_instance r \<and> cs_channel (f r) = cs_channel r"
    and "n \<ge> rd_next_sub db"
  shows "runtime_inv (db\<lparr>rd_subs := update_where P f (rd_subs db), rd_next_sub := n\<rparr>)"
proof -
  have "map cs_id (update_where P f (rd_subs db)) = map cs_id (rd_subs db)"
    and "map sub_key (update_where P f (rd_subs db)) = map sub_key (rd_subs db)"
    using assms(3) by (auto simp: map_update_where sub_key_def)
  with assms show ?thesis
    by (fastforce simp: runtime_inv_def dest!: set_update_where)
qed

lemma rt_insts_update:
  assumes "rd_instances (pg_data db') = update_where P f (rd_instances (pg_data db))"
    and "\<And>r. ri_id (f r) = ri_id r"
  shows "rt_insts db' = map_option (\<lambda>r. if P r then f r else r) \<circ> rt_insts db"
  using assms by (simp add: rt_insts_def fun_eq_iff row_lookup_update_where)

section \<open>Methods of one statement\<close>

lemma one_row_result:
  assumes "one_row ctx scan q db = (res, db')"
    and "\<And>x d. q (pg_data db) = Some (x, d) \<Longrightarrow> scan x = Inr x"
  shows "(pg_data db' = pg_data db \<and> (\<exists>e. res = Inl e)) \<or> (\<exists>x. q (pg_data db) = Some (x, pg_data db') \<and> res = Inr x)"
  using assms by (cases rule: pg_call_cases [of q db]) (auto simp: one_row_def)

lemma maybe_row_result:
  assumes "maybe_row ctx missing scan q db = (res, db')"
    and "\<And>x d. q (pg_data db) = Some (Some x, d) \<Longrightarrow> scan x = Inr x"
  shows "(pg_data db' = pg_data db \<and> (\<exists>e. res = Inl e)) \<or>
    (q (pg_data db) = Some (None, pg_data db') \<and> res = Inl missing) \<or>
    (\<exists>x. q (pg_data db) = Some (Some x, pg_data db') \<and> res = Inr x)"
proof (cases rule: pg_call_cases [of q db])
  case (fail d)
  with assms show ?thesis by (auto simp: maybe_row_def)
next
  case (ok x d)
  with assms show ?thesis by (cases x) (auto simp: maybe_row_def)
qed

text \<open>The row a registration stores.\<close>

definition fresh_instance :: "runtime_instance \<Rightarrow> runtime_instance" where
  "fresh_instance i = i\<lparr>ri_heartbeat := None, ri_stopped := None, ri_degraded := None\<rparr>"

lemma fresh_instance_facts [simp]:
  "ri_id (fresh_instance i) = ri_id i" "instance_valid (fresh_instance i) = instance_valid i"
  "ri_state (fresh_instance i) = ri_state i"
  by (simp_all add: fresh_instance_def instance_valid_def)

lemma registerInstanceSQL_eq:
  "registerInstanceSQL i db =
     (case row_lookup ri_id (ri_id i) (rd_instances db) of
        None \<Rightarrow> Some (fresh_instance i, db\<lparr>rd_instances := rd_instances db @ [fresh_instance i]\<rparr>)
      | Some _ \<Rightarrow> Some (fresh_instance i, db\<lparr>rd_instances :=
            update_where (\<lambda>r. ri_id r = ri_id i) (\<lambda>_. fresh_instance i) (rd_instances db)\<rparr>))"
proof -
  have "\<lparr>ri_id = ri_id i, ri_profile = ri_profile i, ri_host = ri_host i, ri_pid = ri_pid i,
      ri_state = ri_state i, ri_started = ri_started i, ri_heartbeat = None, ri_stopped = None,
      ri_degraded = None\<rparr> = fresh_instance i"
    by (simp add: fresh_instance_def)
  then show ?thesis by (simp only: registerInstanceSQL_def Let_def)
qed

lemma row_lookup_replace:
  "key x = k \<Longrightarrow> row_lookup key a (update_where (\<lambda>r. key r = k) (\<lambda>_. x) rs) =
     (if a = k \<and> row_lookup key a rs \<noteq> None then Some x else row_lookup key a rs)"
  by (induction rs) (auto simp: update_where_def)

lemma rt_register_laws:
  assumes inv: "rt_inv db" and new: "instance_valid new"
    and c: "rt_RegisterInstance new db = (res, db')"
  shows "rt_inv db' \<and> rt_subs db' = rt_subs db \<and> (\<forall>e. res = Inl e \<longrightarrow> rt_insts db' = rt_insts db) \<and>
    (\<forall>x. res = Inr x \<longrightarrow> x = fresh_instance new \<and> rt_insts db' = (rt_insts db)(ri_id new \<mapsto> x))"
proof -
  let ?x = "fresh_instance new" and ?rs = "rd_instances (pg_data db)"
  have y: "y = ?x" if "registerInstanceSQL new (pg_data db) = Some (y, d)" for y d
    using that by (simp add: registerInstanceSQL_eq split: option.splits)
  have scan: "scanRuntimeInstance ?x = Inr ?x" using new by (simp add: scanRuntimeInstance_def)
  have "pg_data db' = pg_data db \<and> (\<exists>e. res = Inl e) \<or>
      (\<exists>y. registerInstanceSQL new (pg_data db) = Some (y, pg_data db') \<and> res = Inr y)"
  proof (rule one_row_result [OF c [unfolded rt_RegisterInstance_def]])
    fix z d assume "registerInstanceSQL new (pg_data db) = Some (z, d)"
    from y [OF this] scan show "scanRuntimeInstance z = Inr z" by (simp only:)
  qed
  then have "pg_data db' = pg_data db \<and> (\<exists>e. res = Inl e) \<or>
      (registerInstanceSQL new (pg_data db) = Some (?x, pg_data db') \<and> res = Inr ?x)"
    using y by blast
  then show ?thesis
  proof (elim disjE exE conjE)
    fix e assume d: "pg_data db' = pg_data db" and e: "res = Inl e"
    from inv rt_obs_cong [OF d] e show ?thesis by simp
  next
    assume q: "registerInstanceSQL new (pg_data db) = Some (?x, pg_data db')" and y: "res = Inr ?x"
    show ?thesis
    proof (cases "row_lookup ri_id (ri_id new) ?rs")
      case None
      with q [symmetric] have d: "pg_data db' = (pg_data db)\<lparr>rd_instances := ?rs @ [?x]\<rparr>"
        by (simp add: registerInstanceSQL_eq)
      have "runtime_inv (pg_data db')"
        using inv new None by (auto simp: d rt_inv_def runtime_inv_def row_lookup_None)
      moreover have "rt_insts db' = (rt_insts db)(ri_id new \<mapsto> ?x)"
        using None by (auto simp: rt_insts_def d row_lookup_append fun_eq_iff split: option.splits)
      moreover have "rt_subs db' = rt_subs db" by (simp add: rt_subs_def d fun_eq_iff)
      ultimately show ?thesis using y by (simp add: rt_inv_def)
    next
      case (Some old)
      with q [symmetric] have d: "pg_data db' =
          (pg_data db)\<lparr>rd_instances := update_where (\<lambda>r. ri_id r = ri_id new) (\<lambda>_. ?x) ?rs\<rparr>"
        by (simp add: registerInstanceSQL_eq)
      have "runtime_inv (pg_data db')"
        unfolding d using inv new by (intro runtime_inv_instances) (auto simp: rt_inv_def)
      moreover have "rt_insts db' = (rt_insts db)(ri_id new \<mapsto> ?x)"
        using Some by (auto simp: rt_insts_def d row_lookup_replace fun_eq_iff)
      moreover have "rt_subs db' = rt_subs db" by (simp add: rt_subs_def d fun_eq_iff)
      ultimately show ?thesis using y by (simp add: rt_inv_def)
    qed
  qed
qed

lemma rt_inv_valid: "rt_inv db \<Longrightarrow> rt_insts db a = Some r \<Longrightarrow> instance_valid r \<and> ri_id r = a"
  by (auto simp: rt_inv_def runtime_inv_def rt_insts_def dest: row_lookup_Some)

lemma rt_sub_valid: "rt_inv db \<Longrightarrow> rt_subs db i = Some c \<Longrightarrow> subscription_valid c \<and> cs_id c = i \<and> 0 \<le> cs_cursor c"
  by (auto simp: rt_inv_def runtime_inv_def rt_subs_def dest: row_lookup_Some)

lemma rt_get_laws:
  assumes inv: "rt_inv db" and c: "rt_GetInstance a db = (res, db')"
  shows "rt_inv db' \<and> rt_insts db' = rt_insts db \<and> rt_subs db' = rt_subs db \<and>
    (\<forall>x. res = Inr x \<longrightarrow> rt_insts db a = Some x)"
proof -
  have g: "getInstanceSQL a (pg_data db) = rt_insts db a" by (simp add: getInstanceSQL_def rt_insts_def)
  have "pg_data db' = pg_data db \<and> (\<forall>x. res = Inr x \<longrightarrow> rt_insts db a = Some x)"
    using maybe_row_result [OF c [unfolded rt_GetInstance_def]] rt_inv_valid [OF inv]
    by (fastforce simp: read_only_def g scanRuntimeInstance_def)
  with inv rt_obs_cong show ?thesis by blast
qed

lemma rt_get_missing:
  assumes inv: "rt_inv db" and c: "rt_GetInstance a db = (Inl e, db')"
  shows "400 \<le> fst (statusForError e) \<and> (rt_insts db a = None \<or> fst (statusForError e) \<noteq> 404)"
proof -
  have g: "getInstanceSQL a (pg_data db) = rt_insts db a" by (simp add: getInstanceSQL_def rt_insts_def)
  have "scanRuntimeInstance r = Inr r" if "rt_insts db a = Some r" for r
    using rt_inv_valid [OF inv that] by (simp add: scanRuntimeInstance_def)
  with c g show ?thesis
    by (cases rule: pg_call_cases [of "read_only (getInstanceSQL a)" db]; cases "rt_insts db a")
      (auto simp: rt_GetInstance_def maybe_row_def read_only_def rt_notFound_def)
qed

lemma rt_get_sub_laws:
  assumes inv: "rt_inv db" and c: "rt_GetSubscription i db = (res, db')"
  shows "rt_inv db' \<and> rt_insts db' = rt_insts db \<and> rt_subs db' = rt_subs db \<and>
    (\<forall>x. res = Inr x \<longrightarrow> rt_subs db i = Some x)"
proof -
  have g: "getSubscriptionSQL i (pg_data db) = rt_subs db i" by (simp add: getSubscriptionSQL_def rt_subs_def)
  have "pg_data db' = pg_data db \<and> (\<forall>x. res = Inr x \<longrightarrow> rt_subs db i = Some x)"
    using maybe_row_result [OF c [unfolded rt_GetSubscription_def]] rt_sub_valid [OF inv]
    by (fastforce simp: read_only_def g scanSubscription_def)
  with inv rt_obs_cong show ?thesis by blast
qed

lemma instance_valid_apply [simp]: "instance_valid r \<Longrightarrow> instance_valid (applyHeartbeat at r)"
  by (auto simp: applyHeartbeat_def Let_def instance_valid_def)

lemma applyHeartbeat_id [simp]: "ri_id (applyHeartbeat at r) = ri_id r"
  by (simp add: applyHeartbeat_def Let_def)

lemma heartbeat_row_eq: "heartbeat_row = applyHeartbeat"
  by (simp add: fun_eq_iff heartbeat_row_apply)

lemma rt_heartbeat_laws:
  assumes inv: "rt_inv db" and c: "rt_Heartbeat a at db = (res, db')"
  shows "rt_inv db' \<and> rt_subs db' = rt_subs db \<and> (\<forall>e. res = Inl e \<longrightarrow> rt_insts db' = rt_insts db) \<and>
    (\<forall>x. res = Inr x \<longrightarrow> (\<exists>r. rt_insts db a = Some r \<and> x = applyHeartbeat at r \<and> rt_insts db' = (rt_insts db)(a \<mapsto> x)))"
proof -
  let ?rs = "update_where (\<lambda>r. ri_id r = a) (applyHeartbeat at) (rd_instances (pg_data db))"
  have q: "heartbeatSQL a at (pg_data db) =
      Some (map_option (applyHeartbeat at) (rt_insts db a), (pg_data db)\<lparr>rd_instances := ?rs\<rparr>)"
    by (cases "rt_insts db a")
      (auto simp: heartbeatSQL_def Let_def heartbeat_row_eq row_lookup_update_where rt_insts_def dest: row_lookup_Some)
  have upd: "rt_insts db' = on" if "pg_data db' = (pg_data db)\<lparr>rd_instances := ?rs\<rparr>"
    and "on = (\<lambda>b. if b = a then map_option (applyHeartbeat at) (rt_insts db a) else rt_insts db b)" for on
  proof
    fix b show "rt_insts db' b = on b"
      using that by (cases "rt_insts db b")
        (auto simp: rt_insts_def row_lookup_update_where dest: row_lookup_Some)
  qed
  have inv': "runtime_inv ((pg_data db)\<lparr>rd_instances := ?rs\<rparr>)"
    using inv by (intro runtime_inv_instances) (auto simp: rt_inv_def runtime_inv_def)
  have "pg_data db' = pg_data db \<and> (\<exists>e. res = Inl e) \<or>
      heartbeatSQL a at (pg_data db) = Some (None, pg_data db') \<and> res = Inl (rt_notFound ErrInstanceNotFound a) \<or>
      (\<exists>x. heartbeatSQL a at (pg_data db) = Some (Some x, pg_data db') \<and> res = Inr x)"
  proof (rule maybe_row_result [OF c [unfolded rt_Heartbeat_def]])
    fix x d assume "heartbeatSQL a at (pg_data db) = Some (Some x, d)"
    with rt_inv_valid [OF inv, of a] show "scanRuntimeInstance x = Inr x"
      by (auto simp: q scanRuntimeInstance_def)
  qed
  then consider (err) e where "res = Inl e" "pg_data db' = pg_data db"
    | (missing) e where "res = Inl e" "rt_insts db a = None" "pg_data db' = (pg_data db)\<lparr>rd_instances := ?rs\<rparr>"
    | (ok) r where "rt_insts db a = Some r" "res = Inr (applyHeartbeat at r)" "pg_data db' = (pg_data db)\<lparr>rd_instances := ?rs\<rparr>"
    by (elim disjE exE conjE) (auto simp: q)
  then show ?thesis
  proof cases
    case err
    with inv rt_obs_cong [OF err(2)] show ?thesis by simp
  next
    case missing
    have "rt_insts db' = rt_insts db" using missing(2) by (intro upd [OF missing(3)]) auto
    with missing inv' show ?thesis by (simp add: rt_inv_def rt_subs_def fun_eq_iff)
  next
    case ok
    have "rt_insts db' = (rt_insts db)(a \<mapsto> applyHeartbeat at r)"
      using ok(1) by (intro upd [OF ok(3)]) auto
    with ok inv' show ?thesis by (simp add: rt_inv_def rt_subs_def fun_eq_iff)
  qed
qed

lemma rt_mark_laws:
  assumes inv: "rt_inv db" and P: "\<And>r. P r \<Longrightarrow> runtime_state_valid s"
    and d: "pg_data db' = (pg_data db)\<lparr>rd_instances := update_where P (\<lambda>r. r\<lparr>ri_state := s\<rparr>) (rd_instances (pg_data db))\<rparr>"
  shows "rt_inv db' \<and> rt_subs db' = rt_subs db \<and>
    rt_insts db' = map_option (\<lambda>r. if P r then r\<lparr>ri_state := s\<rparr> else r) \<circ> rt_insts db"
proof -
  have "runtime_inv (pg_data db')"
    unfolding d using inv P
    by (intro runtime_inv_instances) (auto simp: rt_inv_def runtime_inv_def instance_valid_def)
  moreover have "rt_insts db' = map_option (\<lambda>r. if P r then r\<lparr>ri_state := s\<rparr> else r) \<circ> rt_insts db"
    by (rule rt_insts_update) (simp_all add: d)
  ultimately show ?thesis by (simp add: rt_inv_def rt_subs_def d fun_eq_iff)
qed

lemma rt_stale_laws:
  assumes inv: "rt_inv db" and c: "rt_MarkStale before db = (res, db')"
  shows "rt_inv db' \<and> rt_subs db' = rt_subs db \<and> (\<forall>e. res = Inl e \<longrightarrow> rt_insts db' = rt_insts db) \<and>
    (\<forall>n. res = Inr n \<longrightarrow> rt_insts db' = map_option (stale_row before) \<circ> rt_insts db)"
proof (cases rule: pg_call_cases [of "markStaleSQL before" db])
  case (fail d)
  with c inv rt_obs_cong [OF fail(2)] show ?thesis by (auto simp: rt_MarkStale_def)
next
  case (ok n d)
  then have "pg_data d = (pg_data db)\<lparr>rd_instances :=
      update_where (stale_due before) (\<lambda>r. r\<lparr>ri_state := RuntimeStateStale\<rparr>) (rd_instances (pg_data db))\<rparr>"
    by (simp add: markStaleSQL_def)
  from rt_mark_laws [OF inv _ this] c ok(1) show ?thesis
    by (auto simp: rt_MarkStale_def stale_row_def [abs_def])
qed

lemma rt_dead_laws:
  assumes inv: "rt_inv db" and c: "rt_MarkDead before db = (res, db')"
  shows "rt_inv db' \<and> rt_subs db' = rt_subs db \<and> (\<forall>e. res = Inl e \<longrightarrow> rt_insts db' = rt_insts db) \<and>
    (\<forall>n. res = Inr n \<longrightarrow> rt_insts db' = map_option (dead_row before) \<circ> rt_insts db)"
proof (cases rule: pg_call_cases [of "markDeadSQL before" db])
  case (fail d)
  with c inv rt_obs_cong [OF fail(2)] show ?thesis by (auto simp: rt_MarkDead_def)
next
  case (ok n d)
  then have "pg_data d = (pg_data db)\<lparr>rd_instances :=
      update_where (dead_due before) (\<lambda>r. r\<lparr>ri_state := RuntimeStateDead\<rparr>) (rd_instances (pg_data db))\<rparr>"
    by (simp add: markDeadSQL_def)
  from rt_mark_laws [OF inv _ this] c ok(1) show ?thesis
    by (auto simp: rt_MarkDead_def dead_row_def [abs_def])
qed

lemma rt_polled_laws:
  assumes inv: "rt_inv db" and c: "rt_MarkSubscriptionPolled i cursor at db = (res, db')"
  shows "rt_inv db' \<and> rt_insts db' = rt_insts db \<and> (\<forall>e. res = Inl e \<longrightarrow> rt_subs db' = rt_subs db) \<and>
    (\<forall>x. res = Inr x \<longrightarrow> (\<exists>r. rt_subs db i = Some r \<and> x = polled_row cursor at r \<and> rt_subs db' = (rt_subs db)(i \<mapsto> x)))"
proof -
  let ?rs = "update_where (\<lambda>r. cs_id r = i) (polled_row cursor at) (rd_subs (pg_data db))"
  have q: "markSubscriptionPolledSQL i cursor at (pg_data db) =
      Some (map_option (polled_row cursor at) (rt_subs db i), (pg_data db)\<lparr>rd_subs := ?rs\<rparr>)"
    by (cases "rt_subs db i")
      (auto simp: markSubscriptionPolledSQL_def Let_def row_lookup_update_where rt_subs_def polled_row_def
        dest: row_lookup_Some)
  have upd: "rt_subs db' = on" if "pg_data db' = (pg_data db)\<lparr>rd_subs := ?rs\<rparr>"
    and "on = (\<lambda>b. if b = i then map_option (polled_row cursor at) (rt_subs db i) else rt_subs db b)" for on
  proof
    fix b show "rt_subs db' b = on b"
      using that by (cases "rt_subs db b")
        (auto simp: rt_subs_def row_lookup_update_where polled_row_def dest: row_lookup_Some)
  qed
  have "runtime_inv ((pg_data db)\<lparr>rd_subs := ?rs, rd_next_sub := rd_next_sub (pg_data db)\<rparr>)"
    using inv by (intro runtime_inv_subs) (auto simp: rt_inv_def runtime_inv_def polled_row_def subscription_valid_def)
  then have inv': "runtime_inv ((pg_data db)\<lparr>rd_subs := ?rs\<rparr>)" by simp
  have scan: "rt_subs db i = Some r \<Longrightarrow> scanSubscription (polled_row cursor at r) = Inr (polled_row cursor at r)" for r
    using rt_sub_valid [OF inv, of i r] by (simp add: scanSubscription_def polled_row_def subscription_valid_def)
  have "pg_data db' = pg_data db \<and> (\<exists>e. res = Inl e) \<or>
      markSubscriptionPolledSQL i cursor at (pg_data db) = Some (None, pg_data db') \<and>
      res = Inl (rt_notFound ErrSubscriptionNotFound (show_int i)) \<or>
      (\<exists>x. markSubscriptionPolledSQL i cursor at (pg_data db) = Some (Some x, pg_data db') \<and> res = Inr x)"
  proof (rule maybe_row_result [OF c [unfolded rt_MarkSubscriptionPolled_def]])
    fix x d assume "markSubscriptionPolledSQL i cursor at (pg_data db) = Some (Some x, d)"
    with scan show "scanSubscription x = Inr x" by (auto simp: q)
  qed
  then consider (err) e where "res = Inl e" "pg_data db' = pg_data db"
    | (missing) e where "res = Inl e" "rt_subs db i = None" "pg_data db' = (pg_data db)\<lparr>rd_subs := ?rs\<rparr>"
    | (ok) r where "rt_subs db i = Some r" "res = Inr (polled_row cursor at r)" "pg_data db' = (pg_data db)\<lparr>rd_subs := ?rs\<rparr>"
    by (elim disjE exE conjE) (auto simp: q)
  then show ?thesis
  proof cases
    case err
    with inv rt_obs_cong [OF err(2)] show ?thesis by simp
  next
    case missing
    have "rt_subs db' = rt_subs db" using missing(2) by (intro upd [OF missing(3)]) auto
    with missing inv' show ?thesis by (simp add: rt_inv_def rt_insts_def fun_eq_iff)
  next
    case ok
    have "rt_subs db' = (rt_subs db)(i \<mapsto> polled_row cursor at r)"
      using ok(1) by (intro upd [OF ok(3)]) auto
    with ok inv' show ?thesis by (simp add: rt_inv_def rt_insts_def fun_eq_iff)
  qed
qed

lemma rt_subscribe_laws:
  assumes inv: "rt_inv db" and new: "subscription_valid c" and call: "rt_CreateSubscription c db = (res, db')"
  shows "rt_inv db' \<and> rt_insts db' = rt_insts db \<and> (\<forall>e. res = Inl e \<longrightarrow> rt_subs db' = rt_subs db) \<and>
    (\<forall>x. res = Inr x \<longrightarrow> sub_key x = sub_key c \<and> cs_policy x = cs_policy c \<and>
       rt_subs db' = (rt_subs db)(cs_id x \<mapsto> x) \<and>
       (case rt_subs db (cs_id x) of None \<Rightarrow> cs_cursor x = 0 | Some old \<Rightarrow> x = old\<lparr>cs_policy := cs_policy c\<rparr>))"
proof (cases "row_lookup sub_key (sub_key c) (rd_subs (pg_data db))")
  case (Some old)
  let ?x = "old\<lparr>cs_policy := cs_policy c\<rparr>" and ?f = "\<lambda>r. r\<lparr>cs_policy := cs_policy c\<rparr>"
  let ?P = "\<lambda>r. sub_key r = sub_key c"
  let ?d = "(pg_data db)\<lparr>rd_subs := update_where ?P ?f (rd_subs (pg_data db)), rd_next_sub := rd_next_sub (pg_data db) + 1\<rparr>"
  have q: "createSubscriptionSQL c (pg_data db) = Some (?x, ?d)"
    by (simp add: createSubscriptionSQL_def Let_def Some)
  from Some have old: "old \<in> set (rd_subs (pg_data db))" "sub_key old = sub_key c" by (auto dest: row_lookup_Some)
  have keys: "distinct (map sub_key (rd_subs (pg_data db)))" and ids: "distinct (map cs_id (rd_subs (pg_data db)))"
    using inv by (auto simp: rt_inv_def runtime_inv_def)
  have same: "r = old" if "r \<in> set (rd_subs (pg_data db))" "sub_key r = sub_key c" for r
    using row_lookup_distinct [OF keys that(1)] row_lookup_distinct [OF keys old(1)] that(2) old(2) by simp
  have at: "rt_subs db (cs_id old) = Some old" using row_lookup_distinct [OF ids old(1)] by (simp add: rt_subs_def)
  have "runtime_inv ?d"
    using inv by (intro runtime_inv_subs) (auto simp: rt_inv_def runtime_inv_def subscription_valid_def)
  moreover have "rt_subs d = (rt_subs db)(cs_id old \<mapsto> ?x)" if "pg_data d = ?d" for d
  proof
    fix j
    have look: "rt_subs d j = map_option (\<lambda>r. if ?P r then ?f r else r) (rt_subs db j)"
      by (simp add: rt_subs_def that row_lookup_update_where)
    show "rt_subs d j = ((rt_subs db)(cs_id old \<mapsto> ?x)) j"
    proof (cases "rt_subs db j")
      case None
      with at have "j \<noteq> cs_id old" by auto
      with None look show ?thesis by simp
    next
      case (Some r)
      then have r: "r \<in> set (rd_subs (pg_data db))" "cs_id r = j" by (auto simp: rt_subs_def dest: row_lookup_Some)
      show ?thesis
      proof (cases "j = cs_id old")
        case True
        with at old(2) look show ?thesis by simp
      next
        case False
        with same [OF r(1)] r(2) have "\<not> ?P r" by blast
        with look Some False show ?thesis by simp
      qed
    qed
  qed
  moreover have "scanSubscription ?x = Inr ?x"
    using inv old(1) by (auto simp: scanSubscription_def rt_inv_def runtime_inv_def subscription_valid_def)
  then have "(pg_data db' = pg_data db \<and> (\<exists>e. res = Inl e)) \<or> (pg_data db' = ?d \<and> res = Inr ?x)"
    using one_row_result [OF call [unfolded rt_CreateSubscription_def]] by (auto simp: q)
  ultimately show ?thesis
    using inv rt_obs_cong [of db' db] old(2) at by (auto simp: rt_inv_def rt_insts_def fun_eq_iff sub_key_def)
next
  case None
  let ?n = "rd_next_sub (pg_data db)"
  define x where "x = \<lparr>cs_id = ?n, cs_instance = cs_instance c, cs_channel = cs_channel c, cs_cursor = 0,
    cs_polled = None, cs_policy = cs_policy c, cs_created = cs_created c\<rparr>"
  have xf: "cs_id x = ?n" "sub_key x = sub_key c" "cs_policy x = cs_policy c" "cs_cursor x = 0"
    "subscription_valid x" "cs_instance x = cs_instance c"
    using new by (simp_all add: x_def sub_key_def subscription_valid_def)
  let ?d = "(pg_data db)\<lparr>rd_subs := rd_subs (pg_data db) @ [x], rd_next_sub := ?n + 1\<rparr>"
  have q: "createSubscriptionSQL c (pg_data db) =
      (if row_lookup ri_id (cs_instance c) (rd_instances (pg_data db)) = None then None else Some (x, ?d))"
    by (simp add: createSubscriptionSQL_def Let_def None flip: x_def)
  have fresh: "rt_subs db ?n = None"
    using inv by (auto simp: rt_subs_def row_lookup_None rt_inv_def runtime_inv_def)
  have "runtime_inv ?d" if "row_lookup ri_id (cs_instance c) (rd_instances (pg_data db)) \<noteq> None"
    using inv that xf None by (auto simp: rt_inv_def runtime_inv_def row_lookup_None)
  moreover have "rt_subs d = (rt_subs db)(?n \<mapsto> x)" if "pg_data d = ?d" for d
    using fresh xf(1) that by (auto simp: rt_subs_def row_lookup_append fun_eq_iff split: option.splits)
  moreover have "(pg_data db' = pg_data db \<and> (\<exists>e. res = Inl e)) \<or>
      (\<exists>y. createSubscriptionSQL c (pg_data db) = Some (y, pg_data db') \<and> res = Inr y)"
    by (rule one_row_result [OF call [unfolded rt_CreateSubscription_def]])
      (use xf in \<open>auto simp: q scanSubscription_def split: if_splits\<close>)
  then have "(pg_data db' = pg_data db \<and> (\<exists>e. res = Inl e)) \<or> (pg_data db' = ?d \<and> res = Inr x \<and>
      row_lookup ri_id (cs_instance c) (rd_instances (pg_data db)) \<noteq> None)"
    by (elim disjE exE conjE) (auto simp: q split: if_splits)
  ultimately show ?thesis
    using inv rt_obs_cong [of db' db] xf fresh by (auto simp: rt_inv_def rt_insts_def fun_eq_iff)
qed

interpretation pg_runtime: runtime_store_laws pg_runtime_store rt_insts rt_subs rt_inv
proof (unfold_locales, unfold pg_runtime_store_def runtime_store.simps, goal_cases)
  case 1 then show ?case by (rule rt_inv_valid)
next
  case 2 then show ?case unfolding fresh_instance_def [symmetric] by (intro rt_register_laws)
next
  case 3 then show ?case by (rule rt_get_laws)
next
  case 4 then show ?case by (rule rt_heartbeat_laws)
next
  case 5 then show ?case by (rule rt_stale_laws)
next
  case 6 then show ?case by (rule rt_dead_laws)
next
  case 7 then show ?case by (rule rt_subscribe_laws)
next
  case 8 then show ?case by (rule rt_get_sub_laws)
next
  case 9 then show ?case by (rule rt_polled_laws)
next
  case 10 then show ?case by (rule rt_get_missing)
qed

end
