(* ===== verification/Den_World.thy ===== *)
theory Den_World
  imports Delivery_Ops Runtime_Pg
begin

text \<open>
  The delivery and runtime services together: a world with both databases and a clock, the
  delivery service wired as its binaries do (its PostgreSQL store, the liveness client whose
  requests the runtime service's handler answers), the runtime service over its own store, and
  the facts of both client locales on this model.
\<close>

section \<open>The world and the wiring\<close>

record den_world =
  dw_delivery :: "delivery_db pg"
  dw_runtime :: "runtime_db pg"
  dw_now :: time

record den_config =
  dc_defaultTTL :: duration
  dc_maxTTL :: duration
  dc_pendingTTL :: duration
  dc_runningTTL :: duration
  dc_stale :: duration
  dc_dead :: duration

definition in_delivery :: "(delivery_db pg \<Rightarrow> 'a \<times> delivery_db pg) \<Rightarrow> den_world \<Rightarrow> 'a \<times> den_world" where
  "in_delivery f w = (let (r, d) = f (dw_delivery w) in (r, w\<lparr>dw_delivery := d\<rparr>))"

definition in_runtime :: "(runtime_db pg \<Rightarrow> 'a \<times> runtime_db pg) \<Rightarrow> den_world \<Rightarrow> 'a \<times> den_world" where
  "in_runtime f w = (let (r, d) = f (dw_runtime w) in (r, w\<lparr>dw_runtime := d\<rparr>))"

definition world_intent_store :: "den_world intent_store" where
  "world_intent_store =
     \<lparr>is_Create = (\<lambda>i. in_delivery (store_Create i)), is_GetByID = (\<lambda>i. in_delivery (store_GetByID i)),
      is_List = (\<lambda>s. in_delivery (store_List s)),
      is_ClaimPending = (\<lambda>i t b at. in_delivery (store_ClaimPending i t b at)),
      is_ExpireIfPending = (\<lambda>i at. in_delivery (store_ExpireIfPending i at)),
      is_ReportEvent = (\<lambda>i t ev p at. in_delivery (store_ReportEvent i t ev p at)),
      is_ExpirePendingBefore = (\<lambda>before at. in_delivery (store_ExpirePendingBefore before at)),
      is_ListRunningBefore = (\<lambda>before. in_delivery (store_ListRunningBefore before)),
      is_FailRunning = (\<lambda>i at. in_delivery (store_FailRunning i at))\<rparr>"

definition world_runtime_store :: "den_world runtime_store" where
  "world_runtime_store =
     \<lparr>rs_RegisterInstance = (\<lambda>i. in_runtime (rt_RegisterInstance i)),
      rs_ListInstances = (\<lambda>s. in_runtime (rt_ListInstances s)),
      rs_GetInstance = (\<lambda>i. in_runtime (rt_GetInstance i)),
      rs_Heartbeat = (\<lambda>i at. in_runtime (rt_Heartbeat i at)),
      rs_CreateSubscription = (\<lambda>c. in_runtime (rt_CreateSubscription c)),
      rs_GetSubscription = (\<lambda>i. in_runtime (rt_GetSubscription i)),
      rs_MarkSubscriptionPolled = (\<lambda>i c at. in_runtime (rt_MarkSubscriptionPolled i c at)),
      rs_MarkStale = (\<lambda>before. in_runtime (rt_MarkStale before)),
      rs_MarkDead = (\<lambda>before. in_runtime (rt_MarkDead before))\<rparr>"

definition den_runtime :: "den_config \<Rightarrow> den_world runtime_service" where
  "den_runtime cfg = NewRuntimeService world_runtime_store dw_now (dc_stale cfg) (dc_dead cfg)"

text \<open>The runtime service's handler answers the liveness request.\<close>

definition serve_liveness :: "den_config \<Rightarrow> agent_instance_id \<Rightarrow> (den_world, liveness_reply) action" where
  "serve_liveness cfg i w =
     (case getInstance (den_runtime cfg) i w of
        (JSONResponse status r, w') \<Rightarrow>
          (Inr \<lparr>lr_status = status, lr_state = Inr (runtime_state_string (rir_state r))\<rparr>, w')
      | (ErrorResponse status b, w') \<Rightarrow> (Inr \<lparr>lr_status = status, lr_state = Inr []\<rparr>, w'))"

definition den_checker :: "den_config \<Rightarrow> den_world runtime_checker" where
  "den_checker cfg = \<lparr>rc_IsAlive = RuntimeClient_IsAlive (serve_liveness cfg)\<rparr>"

definition den_delivery :: "den_config \<Rightarrow> den_world intent_service" where
  "den_delivery cfg =
     NewIntentService world_intent_store (den_checker cfg) dw_now (dc_defaultTTL cfg) (dc_maxTTL cfg)
       (dc_pendingTTL cfg) (dc_runningTTL cfg)"

section \<open>What the world shows of its stores\<close>

definition w_rows :: "den_world \<Rightarrow> rows" where
  "w_rows w = pg_rows (dw_delivery w)"

definition w_insts :: "den_world \<Rightarrow> instances" where
  "w_insts w = rt_insts (dw_runtime w)"

definition w_subs :: "den_world \<Rightarrow> subscriptions" where
  "w_subs w = rt_subs (dw_runtime w)"

definition world_inv :: "den_world \<Rightarrow> bool" where
  "world_inv w \<longleftrightarrow> pg_inv (dw_delivery w) \<and> rt_inv (dw_runtime w)"

definition empty_world :: "time \<Rightarrow> den_world" where
  "empty_world now =
     \<lparr>dw_delivery = \<lparr>pg_data = empty_delivery_db, pg_faults = []\<rparr>,
      dw_runtime = \<lparr>pg_data = empty_runtime_db, pg_faults = []\<rparr>, dw_now = now\<rparr>"

lemma world_inv_empty: "world_inv (empty_world now)"
  by (simp add: world_inv_def empty_world_def pg_inv_def rt_inv_def delivery_inv_empty runtime_inv_empty)

lemma in_delivery_eq:
  "in_delivery f w = (r, w') \<longleftrightarrow> (\<exists>d. f (dw_delivery w) = (r, d) \<and> w' = w\<lparr>dw_delivery := d\<rparr>)"
  by (auto simp: in_delivery_def Let_def split: prod.splits)

lemma in_runtime_eq:
  "in_runtime f w = (r, w') \<longleftrightarrow> (\<exists>d. f (dw_runtime w) = (r, d) \<and> w' = w\<lparr>dw_runtime := d\<rparr>)"
  by (auto simp: in_runtime_def Let_def split: prod.splits)

interpretation world_store: intent_store_laws world_intent_store w_rows world_inv
proof (unfold_locales, unfold world_intent_store_def intent_store.simps in_delivery_eq w_rows_def world_inv_def, goal_cases)
  case 1
  then show ?case by (metis pg_keys_unique)
next
  case 2
  then show ?case using store_Create_laws(1) by auto
next
  case 3
  then show ?case by (elim exE conjE) (simp, rule store_Create_laws(3) [OF _ _ _ _ refl], assumption+)
next
  case 4
  then show ?case by (elim exE conjE) (simp, rule store_Create_laws(2) [OF _ _ _ _ refl], assumption+)
next
  case 5
  then show ?case using store_GetByID_frame by fastforce
next
  case 6
  then show ?case using store_GetByID_laws by blast
next
  case 7
  then show ?case using store_ClaimPending_laws(1) by fastforce
next
  case 8
  then show ?case by (elim exE conjE) (simp, rule store_ClaimPending_laws(3) [OF _ _ refl], assumption+)
next
  case 9
  then show ?case by (elim exE conjE) (simp, rule store_ClaimPending_laws(2) [OF _ _ refl], assumption+)
next
  case 10
  then show ?case using store_ExpireIfPending_laws(1) by fastforce
next
  case 11
  then show ?case by (elim exE conjE) (simp, rule store_ExpireIfPending_laws(3) [OF _ _ refl], assumption+)
next
  case 12
  then show ?case by (elim exE conjE) (simp, rule store_ExpireIfPending_laws(2) [OF _ _ refl], assumption+)
next
  case 13
  then show ?case using store_ReportEvent_laws(1) by fastforce
next
  case 14
  then show ?case by (elim exE conjE) (simp, rule store_ReportEvent_laws(3) [OF _ _ refl], assumption+)
next
  case 15
  then show ?case by (elim exE conjE) (simp, rule pg_rows_cong [OF store_ReportEvent_laws(2) [OF _ _ refl]], assumption+)
next
  case 16
  then show ?case using store_ExpirePendingBefore_laws(1) by fastforce
next
  case 17
  then show ?case by (elim exE conjE) (simp, rule store_ExpirePendingBefore_laws(3) [OF _ _ refl], assumption+)
next
  case 18
  then show ?case by (elim exE conjE) (simp, rule store_ExpirePendingBefore_laws(2) [OF _ _ refl], assumption+)
next
  case 19
  then show ?case using store_ListRunningBefore_frame by fastforce
next
  case 20
  then show ?case by (elim exE conjE) (rule store_ListRunningBefore_laws(2) [OF _ _ refl], assumption+)
next
  case 21
  then show ?case using store_FailRunning_laws(1) by fastforce
next
  case 22
  then show ?case by (elim exE conjE) (simp, rule store_FailRunning_laws(3) [OF _ _ refl], assumption+)
next
  case 23
  then show ?case by (elim exE conjE) (simp, rule store_FailRunning_laws(2) [OF _ _ refl], assumption+)
next
  case 24
  then show ?case using store_List_frame by fastforce
next
  case 25
  then show ?case by (elim exE conjE) (rule store_List_laws(2) [OF _ _ refl], assumption+)
qed

interpretation world_runtime: runtime_store_laws world_runtime_store w_insts w_subs world_inv
proof (unfold_locales, unfold world_runtime_store_def runtime_store.simps in_runtime_eq w_insts_def w_subs_def world_inv_def, goal_cases)
  case 1 then show ?case using rt_inv_valid by blast
next
  case 2 then show ?case unfolding fresh_instance_def [symmetric] using rt_register_laws by fastforce
next
  case 3 then show ?case using rt_get_laws by fastforce
next
  case 4 then show ?case using rt_heartbeat_laws by fastforce
next
  case 5 then show ?case using rt_stale_laws by fastforce
next
  case 6 then show ?case using rt_dead_laws by fastforce
next
  case 7 then show ?case by (elim exE conjE) (simp, drule (2) rt_subscribe_laws, simp)
next
  case 8 then show ?case using rt_get_sub_laws by fastforce
next
  case 9 then show ?case by (elim exE conjE) (simp, drule (1) rt_polled_laws, simp)
next
  case 10 then show ?case using rt_get_missing by blast
qed

section \<open>The services in the world\<close>

lemma den_service_simps [simp]:
  "rv_store (den_runtime cfg) = world_runtime_store" "rv_clock (den_runtime cfg) = dw_now"
  "rv_stale (den_runtime cfg) = dc_stale cfg" "rv_dead (den_runtime cfg) = dc_dead cfg"
  "sv_store (den_delivery cfg) = world_intent_store" "sv_runtime (den_delivery cfg) = den_checker cfg"
  "sv_clock (den_delivery cfg) = dw_now" "sv_defaultTTL (den_delivery cfg) = dc_defaultTTL cfg"
  "sv_maxTTL (den_delivery cfg) = dc_maxTTL cfg" "sv_pendingTTL (den_delivery cfg) = dc_pendingTTL cfg"
  "sv_runningTTL (den_delivery cfg) = dc_runningTTL cfg"
  by (simp_all add: den_runtime_def NewRuntimeService_def den_delivery_def NewIntentService_def)

interpretation den_instances: runtime_client "den_runtime cfg" w_insts w_subs world_inv for cfg
  by (unfold_locales, unfold den_service_simps)
    (rule world_runtime.valid world_runtime.register world_runtime.get world_runtime.beat world_runtime.stale
      world_runtime.dead world_runtime.subscribe world_runtime.get_sub world_runtime.polled world_runtime.missing; assumption)+

text \<open>A request to the runtime service leaves the delivery tables alone.\<close>

lemma in_runtime_delivery: "dw_delivery (snd (in_runtime f w)) = dw_delivery w"
  by (simp add: in_runtime_def split: prod.split)

lemma in_runtime_now: "dw_now (snd (in_runtime f w)) = dw_now w"
  by (simp add: in_runtime_def split: prod.split)

lemma rv_Get_delivery:
  "rv_Get (den_runtime cfg) a w = (res, w') \<Longrightarrow> dw_delivery w' = dw_delivery w \<and> dw_now w' = dw_now w"
  using in_runtime_delivery [of "rt_GetInstance a" w] in_runtime_now [of "rt_GetInstance a" w]
  by (auto simp: rv_Get_def world_runtime_store_def split: if_splits prod.splits sum.splits)

definition live_state :: "runtime_state \<Rightarrow> bool" where
  "live_state st \<longleftrightarrow> st \<in> {RuntimeStateActive, RuntimeStateIdle, RuntimeStateBusy}"

definition live_instance :: "instances \<Rightarrow> agent_instance_id \<Rightarrow> bool" where
  "live_instance m a \<longleftrightarrow> (case m a of None \<Rightarrow> False | Some r \<Rightarrow> live_state (ri_state r))"

lemma live_state_string:
  "runtime_state_valid st \<Longrightarrow>
     (runtime_state_string st = ''active'' \<or> runtime_state_string st = ''idle'' \<or> runtime_state_string st = ''busy'')
     \<longleftrightarrow> live_state st"
  by (cases st) (auto simp: live_state_def)

text \<open>The liveness check, as the delivery service sees it.\<close>

lemma IsAlive_frame:
  assumes inv: "world_inv w" and c: "rc_IsAlive (den_checker cfg) a w = (res, w')"
  shows "world_inv w' \<and> dw_delivery w' = dw_delivery w \<and> dw_now w' = dw_now w \<and> w_insts w' = w_insts w \<and>
    (\<forall>b. res = Inr b \<longrightarrow> b = live_instance (w_insts w) a)"
proof -
  obtain g w1 where g: "rv_Get (den_runtime cfg) a w = (g, w1)" by fastforce
  note ok = den_instances.Get_ok [OF inv g] rv_Get_delivery [OF g] den_instances.Get_missing [OF inv, of cfg a]
  have "runtime_state_valid (ri_state r)" if "g = Inr r" for r
    using den_instances.valid [OF inv, of a r] ok that by (auto simp: instance_valid_def)
  then show ?thesis
    using c g ok live_state_string
    by (cases g) (auto simp: den_checker_def RuntimeClient_IsAlive_def serve_liveness_def getInstance_def rt_respond_def
        WriteJSON_def WriteServiceError_def WriteError_def toRuntimeInstanceResponse_def live_instance_def Let_def
        split: if_splits prod.splits)
qed

interpretation den_intents: intent_client "den_delivery cfg" w_rows world_inv for cfg
proof (intro intent_client.intro intent_client_axioms.intro)
  show "intent_store_laws (sv_store (den_delivery cfg)) w_rows world_inv"
    using world_store.intent_store_laws_axioms by simp
  fix w a res w'
  assume "world_inv w" and "rc_IsAlive (sv_runtime (den_delivery cfg)) a w = (res, w')"
  with IsAlive_frame [of w cfg a res w'] show "world_inv w' \<and> w_rows w' = w_rows w"
    by (simp add: w_rows_def pg_rows_def fun_eq_iff)
qed

end
