(* ===== verification/Delivery_System.thy ===== *)
theory Delivery_System
  imports Den_World
begin

text \<open>
  Interleavings of delivery requests. Handlers of concurrent requests interleave between the
  calls of the store, each of which is one statement or one transaction: \<open>store_step\<close> is one such
  call with any arguments, or a step \<open>env\<close> of everything else (the clock, the runtime service,
  the driver's failures). What it keeps holds for every interleaving of the operations of
  \<open>IntentService\<close>, which are sequences of these steps.
\<close>

inductive store_step :: "('w \<Rightarrow> 'w \<Rightarrow> bool) \<Rightarrow> 'w intent_store \<Rightarrow> 'w \<Rightarrow> 'w \<Rightarrow> bool"
  for env :: "'w \<Rightarrow> 'w \<Rightarrow> bool" and st :: "'w intent_store" where
  ss_create: "is_Create st new w = (r, w') \<Longrightarrow> intent_valid new \<Longrightarrow> di_state new = IntentStatePending \<Longrightarrow>
    store_step env st w w'"
| ss_get: "is_GetByID st i w = (r, w') \<Longrightarrow> store_step env st w w'"
| ss_list: "is_List st q w = (l, w') \<Longrightarrow> store_step env st w w'"
| ss_claim: "is_ClaimPending st i t b at w = (r, w') \<Longrightarrow> store_step env st w w'"
| ss_expire: "is_ExpireIfPending st i at w = (u, w') \<Longrightarrow> store_step env st w w'"
| ss_report: "is_ReportEvent st i t ev p at w = (r, w') \<Longrightarrow> store_step env st w w'"
| ss_expire_before: "is_ExpirePendingBefore st before at w = (n, w') \<Longrightarrow> store_step env st w w'"
| ss_running: "is_ListRunningBefore st before w = (l, w') \<Longrightarrow> store_step env st w w'"
| ss_fail: "is_FailRunning st i at w = (u, w') \<Longrightarrow> store_step env st w w'"
| ss_env: "env w w' \<Longrightarrow> store_step env st w w'"

inductive_cases store_stepE: "store_step env st w w'"

text \<open>Rows move along the lifecycle; none disappears.\<close>

definition rows_le :: "rows \<Rightarrow> rows \<Rightarrow> bool" where
  "rows_le m m' \<longleftrightarrow> (\<forall>i r. m i = Some r \<longrightarrow> (\<exists>r'. m' i = Some r' \<and> intent_step\<^sup>*\<^sup>* r r'))"

lemma rows_le_refl [simp]: "rows_le m m"
  by (simp add: rows_le_def)

lemma rows_le_trans: "rows_le a b \<Longrightarrow> rows_le b c \<Longrightarrow> rows_le a c"
  unfolding rows_le_def by (meson rtranclp_trans)

lemma rows_le_upd: "m i = Some r \<Longrightarrow> intent_step r x \<Longrightarrow> rows_le m (m(i \<mapsto> x))"
  by (auto simp: rows_le_def)

lemma rows_le_fresh: "m i = None \<Longrightarrow> rows_le m (m(i \<mapsto> x))"
  by (auto simp: rows_le_def)

lemma rows_le_map: "(\<And>r. intent_step r (f r)) \<Longrightarrow> rows_le m (map_option f \<circ> m)"
  by (auto simp: rows_le_def)

lemma rows_le_on_row: "(\<And>r. intent_step r (f r)) \<Longrightarrow> rows_le m (on_row i f m)"
  by (auto simp: rows_le_def on_row_def)

lemma expire_row_step: "intent_step r (expire_row at r)"
  by (auto simp: expire_row_def intro: intent_step.stay intent_step.expire)

lemma expire_before_row_step: "intent_step r (expire_before_row before at r)"
  by (auto simp: expire_before_row_def intro: intent_step.stay intent_step.expire)

lemma fail_row_step: "intent_step r (fail_row at r)"
  by (auto simp: fail_row_def intro: intent_step.stay intent_step.finish)

lemma report_row_step:
  "canReport ev t r = None \<Longrightarrow> intent_step r (completed_row (next_state ev) (next_completed ev at) r)"
  by (auto simp: canReport_None next_state_def next_completed_def
      intro: intent_step.start intent_step.finish)

context intent_store_laws
begin

lemma store_step_keeps:
  assumes inv: "inv w" and env: "\<And>v v'. env v v' \<Longrightarrow> inv v \<Longrightarrow> inv v' \<and> rows v' = rows v"
    and s: "store_step env st w w'"
  shows "inv w' \<and> rows_le (rows w) (rows w')"
  using s
proof cases
  case (ss_create new r)
  then show ?thesis
    using create_inv [OF inv _ _ ss_create(1)] create_ok [OF inv, of new] create_err [OF inv, of new]
    by (cases r) (metis rows_le_fresh rows_le_refl)+
next
  case (ss_claim i t b at r)
  then show ?thesis
    using claim_inv [OF inv] claim_err [OF inv] claim_ok [OF inv]
    by (cases r) (fastforce intro: rows_le_upd intent_step.claim)+
next
  case (ss_expire i at u)
  then show ?thesis
    using expire_inv [OF inv] expire_err [OF inv] expire_ok [OF inv]
    by (cases u) (auto intro: rows_le_on_row expire_row_step)
next
  case (ss_report i t ev p at r)
  then show ?thesis
    using report_inv [OF inv] report_err [OF inv] report_ok [OF inv]
    by (cases r) (fastforce intro: rows_le_upd report_row_step)+
next
  case (ss_expire_before before at n)
  then show ?thesis
    using expire_before_inv [OF inv] expire_before_err [OF inv] expire_before_ok [OF inv]
    by (cases n) (auto intro: rows_le_map expire_before_row_step)
next
  case (ss_fail i at u)
  then show ?thesis
    using fail_inv [OF inv] fail_err [OF inv] fail_ok [OF inv]
    by (cases u) (auto intro: rows_le_on_row fail_row_step)
qed (use get_inv [OF inv] list_inv [OF inv] running_inv [OF inv] env inv in auto)

lemma store_steps_keep:
  assumes env: "\<And>v v'. env v v' \<Longrightarrow> inv v \<Longrightarrow> inv v' \<and> rows v' = rows v"
    and s: "(store_step env st)\<^sup>*\<^sup>* w w'"
  shows "inv w \<Longrightarrow> inv w' \<and> rows_le (rows w) (rows w')"
  using s
proof (induction rule: rtranclp_induct)
  case (step y z)
  then have y: "inv y" "rows_le (rows w) (rows y)" by auto
  with store_step_keeps [OF y(1) env step.hyps(2)] show ?case by (blast intro: rows_le_trans)
qed simp

end

lemma intent_steps_terminal: "intent_step\<^sup>*\<^sup>* r r' \<Longrightarrow> intent_state_terminal (di_state r) \<Longrightarrow> r' = r"
  by (induction rule: rtranclp_induct) (auto dest: intent_step_terminal)

lemma intent_steps_claimed:
  "intent_step\<^sup>*\<^sup>* r r' \<Longrightarrow> di_state r \<noteq> IntentStatePending \<Longrightarrow>
     di_token r' = di_token r \<and> di_claimed_by r' = di_claimed_by r \<and> di_claimed_at r' = di_claimed_at r \<and>
     di_state r' \<noteq> IntentStatePending"
  by (induction rule: rtranclp_induct) (auto dest: intent_step_claimed)

lemma intent_steps_frame:
  "intent_step\<^sup>*\<^sup>* r r' \<Longrightarrow>
     di_id r' = di_id r \<and> di_target r' = di_target r \<and> di_key r' = di_key r \<and>
     di_created r' = di_created r \<and> di_expires r' = di_expires r"
  by (induction rule: rtranclp_induct) (auto dest!: intent_step_frame)

section \<open>The operations are sequences of these steps\<close>

lemma store_step_alive:
  "(\<And>a v. env v (snd (rc_IsAlive rt a v))) \<Longrightarrow> rc_IsAlive rt a w = (r, w') \<Longrightarrow> store_step env st w w'"
  by (metis ss_env snd_conv)

lemma Create_steps: "Create s req w = (r, w') \<Longrightarrow> (store_step env (sv_store s))\<^sup>*\<^sup>* w w'"
  by (auto simp: Create_def Let_def split: option.splits sum.splits if_splits
      dest!: NewDeliveryIntent_Inr intro: r_into_rtranclp ss_create)

lemma Report_steps: "ReportEvent s i req w = (r, w') \<Longrightarrow> (store_step env (sv_store s))\<^sup>*\<^sup>* w w'"
  by (auto simp: ReportEvent_def Let_def split: option.splits intro: r_into_rtranclp ss_report)

lemma Get_steps: "Get s i w = (r, w') \<Longrightarrow> (store_step env (sv_store s))\<^sup>*\<^sup>* w w'"
  by (auto simp: Get_def split: if_splits intro: r_into_rtranclp ss_get)

lemma List_steps: "ListIntents s q w = (r, w') \<Longrightarrow> (store_step env (sv_store s))\<^sup>*\<^sup>* w w'"
  by (auto simp: ListIntents_def split: if_splits option.splits intro: r_into_rtranclp ss_list)

lemma Claim_steps:
  assumes "\<And>a v. env v (snd (rc_IsAlive (sv_runtime s) a v))" and "Claim s i req w = (r, w')"
  shows "(store_step env (sv_store s))\<^sup>*\<^sup>* w w'"
proof (cases "claim_request_validate req")
  case (Some e)
  with assms(2) show ?thesis by (simp add: Claim_def)
next
  case None
  let ?S = "store_step env (sv_store s)"
  obtain g w1 where g: "is_GetByID (sv_store s) i w = (g, w1)" by fastforce
  obtain al w2 where al: "rc_IsAlive (sv_runtime s) (ai_instance (clr_claimed_by req)) w1 = (al, w2)" by fastforce
  obtain x1 v1 where e1: "is_ExpireIfPending (sv_store s) i (sv_clock s w) w1 = (x1, v1)" by fastforce
  obtain x2 v2 where e2: "is_ExpireIfPending (sv_store s) i (sv_clock s w) w2 = (x2, v2)" by fastforce
  obtain p w3 where p: "is_ClaimPending (sv_store s) i (clr_token req) (clr_claimed_by req) (sv_clock s w) w2 = (p, w3)"
    by fastforce
  note step = rtranclp.rtrancl_into_rtrancl
  have s1: "?S\<^sup>*\<^sup>* w w1" by (rule r_into_rtranclp, rule ss_get [OF g])
  have s2: "?S\<^sup>*\<^sup>* w w2" by (rule step [OF s1], rule store_step_alive [of env, OF assms(1) al])
  have "?S\<^sup>*\<^sup>* w v1" by (rule step [OF s1], rule ss_expire [OF e1])
  moreover have "?S\<^sup>*\<^sup>* w v2" by (rule step [OF s2], rule ss_expire [OF e2])
  moreover have "?S\<^sup>*\<^sup>* w w3" by (rule step [OF s2], rule ss_claim [OF p])
  moreover note s1 s2
  ultimately show ?thesis
    using assms(2) None g al e1 e2 p
    by (auto simp: Claim_def Let_def split: sum.splits if_splits)
qed

lemma reap_loop_steps:
  assumes "\<And>a v. env v (snd (rc_IsAlive (sv_runtime s) a v))"
  shows "reap_loop s now xs n w = (r, w') \<Longrightarrow> (store_step env (sv_store s))\<^sup>*\<^sup>* w w'"
proof (induction xs arbitrary: n w)
  case (Cons x xs)
  let ?S = "store_step env (sv_store s)"
  have fail: "?S\<^sup>*\<^sup>* v w'" if "(case is_FailRunning (sv_store s) (di_id x) now v of
        (Inl e, w2) \<Rightarrow> ((n, Some e), w2) | (Inr u, w2) \<Rightarrow> reap_loop s now xs (n + 1) w2) = (r, w')" for v
  proof -
    obtain u v1 where f: "is_FailRunning (sv_store s) (di_id x) now v = (u, v1)" by fastforce
    then have "?S v v1" by (rule ss_fail)
    moreover have "?S\<^sup>*\<^sup>* v1 w'" using that f Cons.IH [of "n + 1" v1] by (cases u) auto
    ultimately show ?thesis by (rule converse_rtranclp_into_rtranclp)
  qed
  show ?case
  proof (cases "di_claimed_by x")
    case None
    with Cons.prems fail [of w] show ?thesis by simp
  next
    case (Some a)
    obtain b w1 where b: "rc_IsAlive (sv_runtime s) (ai_instance a) w = (b, w1)" by fastforce
    with assms have "?S w w1" by (intro store_step_alive [of env])
    moreover have "?S\<^sup>*\<^sup>* w1 w'"
      using Cons.prems Some b fail [of w1] Cons.IH [of n w1] by (cases b) (auto split: if_splits)
    ultimately show ?thesis by (rule converse_rtranclp_into_rtranclp)
  qed
qed simp

lemma Reap_steps:
  assumes env: "\<And>a v. env v (snd (rc_IsAlive (sv_runtime s) a v))" and r: "Reap s w = (r, w')"
  shows "(store_step env (sv_store s))\<^sup>*\<^sup>* w w'"
proof -
  let ?S = "store_step env (sv_store s)" and ?now = "sv_clock s w"
  obtain e w1 where e: "is_ExpirePendingBefore (sv_store s) (?now - sv_pendingTTL s) ?now w = (e, w1)" by fastforce
  obtain l w2 where l: "is_ListRunningBefore (sv_store s) (?now - sv_runningTTL s) w1 = (l, w2)" by fastforce
  have s: "?S\<^sup>*\<^sup>* w w1" by (rule r_into_rtranclp, rule ss_expire_before [OF e])
  have s2: "?S\<^sup>*\<^sup>* w w2" by (rule rtranclp.rtrancl_into_rtrancl [OF s], rule ss_running [OF l])
  have "?S\<^sup>*\<^sup>* w2 w'" if "l = Inr xs" "e = Inr n" for xs n
  proof -
    obtain m w3 where "reap_loop s ?now xs 0 w2 = (m, w3)" by fastforce
    with r e l that reap_loop_steps [of env, OF env this] show ?thesis
      by (auto simp: Reap_def Let_def split: prod.splits)
  qed
  then have "?S\<^sup>*\<^sup>* w w'" if "l = Inr xs" "e = Inr n" for xs n
    using rtranclp_trans [OF s2] that by blast
  moreover have "w' = w1" if "e = Inl x" for x using r e that by (simp add: Reap_def Let_def)
  moreover have "w' = w2" if "e = Inr n" "l = Inl x" for n x using r e l that by (simp add: Reap_def Let_def)
  ultimately show ?thesis using s s2 by (cases e; cases l) auto
qed

end
