(* ===== verification/Den_Props.thy ===== *)
theory Den_Props
  imports Delivery_System
begin

text \<open>
  The properties of the delivery and runtime services, stated of the world in which both run,
  with witnesses on concrete worlds.
\<close>

section \<open>Concrete worlds for the witnesses\<close>

definition ex_agent :: agent_identity where
  "ex_agent = \<lparr>ai_profile = ''coder'', ai_instance = ''i1'', ai_session = Some ''s1''\<rparr>"

definition ex_cfg :: den_config where
  "ex_cfg = \<lparr>dc_defaultTTL = 60 * second_ns, dc_maxTTL = 3600 * second_ns, dc_pendingTTL = 300 * second_ns,
     dc_runningTTL = 600 * second_ns, dc_stale = 30 * second_ns, dc_dead = 90 * second_ns\<rparr>"

definition ex_create :: create_intent_request where
  "ex_create = \<lparr>cir_target = ex_agent, cir_key = ''deliver:5:coder:n1'', cir_ttl_seconds = None,
     cir_source = None, cir_channel_message = None\<rparr>"

definition ex_register :: register_request where
  "ex_register = \<lparr>rr_instance = ''i1'', rr_profile = ''coder'', rr_host = ''h'', rr_pid = None\<rparr>"

definition ex_claim :: claim_request where
  "ex_claim = \<lparr>clr_token = ''t1'', clr_claimed_by = ex_agent\<rparr>"

definition ex_report :: lifecycle_event_request where
  "ex_report = \<lparr>ler_type = ''running'', ler_token = ''t1'', ler_payload = []\<rparr>"

text \<open>A registered instance that has sent a heartbeat, and one intent for it.\<close>

definition ex_alive :: den_world where
  "ex_alive = snd (rv_Heartbeat (den_runtime ex_cfg) ''i1''
     (snd (rv_Register (den_runtime ex_cfg) ex_register (empty_world (1000 * second_ns)))))"

definition ex_pending :: den_world where
  "ex_pending = snd (Create (den_delivery ex_cfg) ex_create ex_alive)"

definition ex_claimed :: den_world where
  "ex_claimed = snd (Claim (den_delivery ex_cfg) 1 ex_claim ex_pending)"

definition ex_running :: den_world where
  "ex_running = snd (ReportEvent (den_delivery ex_cfg) 1 ex_report ex_claimed)"

definition ok_result :: "(go_err + 'a) \<times> 'w \<Rightarrow> bool" where
  "ok_result r = (case fst r of Inl e \<Rightarrow> False | Inr x \<Rightarrow> True)"

definition result_of :: "(go_err + 'a) \<times> 'w \<Rightarrow> 'a option" where
  "result_of r = (case fst r of Inl e \<Rightarrow> None | Inr x \<Rightarrow> Some x)"

lemma result_of_Some: "result_of r = Some x \<Longrightarrow> r = (Inr x, snd r)"
  by (cases r) (auto simp: result_of_def split: sum.splits)

lemma ex_inv_alive: "world_inv ex_alive" by code_simp
lemma ex_inv_pending: "world_inv ex_pending" by code_simp
lemma ex_inv_claimed: "world_inv ex_claimed" by code_simp
lemma ex_inv_running: "world_inv ex_running" by code_simp

section \<open>The environment of the delivery tables\<close>

definition den_env :: "den_world \<Rightarrow> den_world \<Rightarrow> bool" where
  "den_env w w' \<longleftrightarrow> pg_data (dw_delivery w') = pg_data (dw_delivery w) \<and> (rt_inv (dw_runtime w) \<longrightarrow> rt_inv (dw_runtime w'))"

text \<open>Every world the delivery store's calls can lead to, whatever else happens between them.\<close>

definition den_steps :: "den_world \<Rightarrow> den_world \<Rightarrow> bool" where
  "den_steps = (store_step den_env world_intent_store)\<^sup>*\<^sup>*"

lemma den_env_keeps: "den_env v v' \<Longrightarrow> world_inv v \<Longrightarrow> world_inv v' \<and> w_rows v' = w_rows v"
  by (auto simp: den_env_def world_inv_def pg_inv_def w_rows_def pg_rows_def fun_eq_iff)

lemma den_steps_keep: "den_steps w w' \<Longrightarrow> world_inv w \<Longrightarrow> world_inv w' \<and> rows_le (w_rows w) (w_rows w')"
  unfolding den_steps_def using world_store.store_steps_keep [OF den_env_keeps] by blast

lemma IsAlive_env: "den_env v (snd (rc_IsAlive (sv_runtime (den_delivery cfg)) a v))"
proof -
  have r: "dw_delivery (snd (rv_Get (den_runtime cfg) a v)) = dw_delivery v \<and>
      (rt_inv (dw_runtime v) \<longrightarrow> rt_inv (dw_runtime (snd (rv_Get (den_runtime cfg) a v))))"
    using rt_get_laws [of "dw_runtime v" a]
    by (auto simp: rv_Get_def world_runtime_store_def in_runtime_def split: prod.splits sum.splits)
  then show ?thesis
    by (auto simp: den_env_def den_checker_def RuntimeClient_IsAlive_def serve_liveness_def getInstance_def rt_respond_def
        WriteJSON_def WriteServiceError_def WriteError_def Let_def split: prod.splits sum.splits)
qed

lemma den_ops_steps:
  "Create (den_delivery cfg) req w = (r, w') \<Longrightarrow> den_steps w w'"
  "Claim (den_delivery cfg) i creq w = (r, w') \<Longrightarrow> den_steps w w'"
  "ReportEvent (den_delivery cfg) i lreq w = (r, w') \<Longrightarrow> den_steps w w'"
  "Get (den_delivery cfg) i w = (r, w') \<Longrightarrow> den_steps w w'"
  "ListIntents (den_delivery cfg) q w = (l, w') \<Longrightarrow> den_steps w w'"
  "Reap (den_delivery cfg) w = (t, w') \<Longrightarrow> den_steps w w'"
  unfolding den_steps_def
  using Create_steps [of "den_delivery cfg"] Report_steps [of "den_delivery cfg"] Get_steps [of "den_delivery cfg"]
    List_steps [of "den_delivery cfg"] Claim_steps [of den_env "den_delivery cfg", OF IsAlive_env]
    Reap_steps [of den_env "den_delivery cfg", OF IsAlive_env]
  by simp_all

lemma in_delivery_insts: "in_delivery f w = (r, w') \<Longrightarrow> w_insts w' = w_insts w \<and> dw_now w' = dw_now w"
  by (auto simp: in_delivery_eq w_insts_def)

section \<open>Claims and reports\<close>

text \<open>
  C1. A claim that succeeds has found the intent pending, addressed to the claimer and not yet
  expired, and the claimer's instance alive in the runtime service (active, idle or busy); it
  stores exactly the claimed row and changes no other intent.
\<close>

theorem claim_success_checked:
  assumes "world_inv w" and "Claim (den_delivery cfg) i req w = (Inr x, w')"
  shows "world_inv w' \<and> live_instance (w_insts w) (ai_instance (clr_claimed_by req)) \<and>
    (\<exists>r. w_rows w i = Some r \<and> di_state r = IntentStatePending \<and> di_target r = clr_claimed_by req \<and>
      dw_now w < di_expires r \<and>
      x = claimed_row (clr_token req) (clr_claimed_by req) (dw_now w) r \<and> w_rows w' = (w_rows w)(i \<mapsto> x))"
proof -
  obtain y w1 w2 where g: "is_GetByID world_intent_store i w = (y, w1)"
    and a: "rc_IsAlive (den_checker cfg) (ai_instance (clr_claimed_by req)) w1 = (Inr True, w2)"
    using den_intents.Claim_ok(3) [OF assms] by auto
  from world_store.get_inv [OF assms(1) g] have w1: "world_inv w1" by blast
  from g have "w_insts w1 = w_insts w"
    by (auto simp: world_intent_store_def dest: in_delivery_insts)
  with IsAlive_frame [OF w1 a] den_intents.Claim_ok(1,2) [OF assms] show ?thesis by auto
qed

lemma claim_success_checked_witness:
  "\<exists>x. live_instance (w_insts ex_pending) ''i1'' \<and> w_rows ex_claimed 1 = Some x \<and> di_token x = Some ''t1''"
proof -
  obtain x where "result_of (Claim (den_delivery ex_cfg) 1 ex_claim ex_pending) = Some x"
    by (cases "result_of (Claim (den_delivery ex_cfg) 1 ex_claim ex_pending)") (code_simp, blast)
  then have "Claim (den_delivery ex_cfg) 1 ex_claim ex_pending = (Inr x, ex_claimed)"
    by (auto simp: ex_claimed_def dest: result_of_Some)
  from claim_success_checked [OF ex_inv_pending this] show ?thesis
    by (auto simp: ex_claim_def ex_agent_def)
qed

text \<open>
  C2. A claim is exclusive: once it has succeeded, whatever calls of the store and whatever
  changes of the runtime service, the clock and the connection follow, no further claim of the
  intent succeeds, and the intent keeps the token and the identity of the first claim.
\<close>

theorem claim_exclusive:
  assumes inv: "world_inv w" and c: "Claim (den_delivery cfg) i req w = (Inr x, w1)" and s: "den_steps w1 w2"
  shows "(\<exists>e. fst (Claim (den_delivery cfg) i req' w2) = Inl e) \<and>
    (\<exists>r. w_rows w2 i = Some r \<and> di_token r = Some (clr_token req) \<and> di_claimed_by r = Some (clr_claimed_by req))"
proof -
  from den_intents.Claim_ok(1,2) [OF inv c] have w1: "world_inv w1"
    and r: "w_rows w1 i = Some x" "di_token x = Some (clr_token req)" "di_claimed_by x = Some (clr_claimed_by req)"
      "di_state x \<noteq> IntentStatePending"
    by (auto simp: claimed_row_def)
  from den_steps_keep [OF s w1] r(1) obtain y where w2: "world_inv w2" "w_rows w2 i = Some y" "intent_step\<^sup>*\<^sup>* x y"
    by (auto simp: rows_le_def)
  from intent_steps_claimed [OF w2(3) r(4)] have y: "di_state y \<noteq> IntentStatePending"
    "di_token y = di_token x" "di_claimed_by y = di_claimed_by x" by auto
  have "fst (Claim (den_delivery cfg) i req' w2) \<noteq> Inr z" for z
  proof
    assume "fst (Claim (den_delivery cfg) i req' w2) = Inr z"
    then obtain w3 where "Claim (den_delivery cfg) i req' w2 = (Inr z, w3)" by (metis prod.collapse)
    from den_intents.Claim_ok(2) [OF w2(1) this] w2(2) y(1) show False by auto
  qed
  then have "\<exists>e. fst (Claim (den_delivery cfg) i req' w2) = Inl e"
    by (metis obj_sumE)
  with w2(2) y(2,3) r(2,3) show ?thesis by auto
qed

lemma ex_claim_result: "\<exists>x. Claim (den_delivery ex_cfg) 1 ex_claim ex_pending = (Inr x, ex_claimed)"
proof -
  have "result_of (Claim (den_delivery ex_cfg) 1 ex_claim ex_pending) \<noteq> None" by code_simp
  then show ?thesis by (auto simp: ex_claimed_def dest: result_of_Some)
qed

lemma ex_report_result: "\<exists>x. ReportEvent (den_delivery ex_cfg) 1 ex_report ex_claimed = (Inr x, ex_running)"
proof -
  have "result_of (ReportEvent (den_delivery ex_cfg) 1 ex_report ex_claimed) \<noteq> None" by code_simp
  then show ?thesis by (auto simp: ex_running_def dest: result_of_Some)
qed

lemma claim_exclusive_witness:
  "\<exists>e r. fst (Claim (den_delivery ex_cfg) 1 (ex_claim\<lparr>clr_token := ''t2''\<rparr>) ex_running) = Inl e \<and>
     w_rows ex_running 1 = Some r \<and> di_token r = Some ''t1''"
proof -
  obtain x where c: "Claim (den_delivery ex_cfg) 1 ex_claim ex_pending = (Inr x, ex_claimed)"
    using ex_claim_result by blast
  obtain y where "ReportEvent (den_delivery ex_cfg) 1 ex_report ex_claimed = (Inr y, ex_running)"
    using ex_report_result by blast
  then have "den_steps ex_claimed ex_running" by (rule den_ops_steps(3))
  from claim_exclusive [OF ex_inv_pending c this] show ?thesis by (auto simp: ex_claim_def)
qed

text \<open>
  A claim that fails changes at most the state of its own intent, from pending to expired,
  and then only when it reports that the intent has expired or that the claimer is not alive.
\<close>

theorem claim_failure_frame:
  assumes "world_inv w" and "Claim (den_delivery cfg) i req w = (Inl e, w')"
  shows "world_inv w' \<and> (w_rows w' = w_rows w \<or>
    w_rows w' = on_row i (expire_row (dw_now w)) (w_rows w) \<and>
    e \<in> {conflict ErrIntentExpired, conflict ErrRuntimeNotAlive})"
  using den_intents.Claim_err [OF assms] by (simp add: expired_rows_def)

definition ex_late :: den_world where
  "ex_late = ex_pending\<lparr>dw_now := 2000 * second_ns\<rparr>"

lemma claim_failure_frame_witness:
  "\<exists>w'. Claim (den_delivery ex_cfg) 1 ex_claim ex_late = (Inl (conflict ErrIntentExpired), w') \<and> world_inv w'"
proof -
  have "world_inv ex_late" by code_simp
  moreover have "fst (Claim (den_delivery ex_cfg) 1 ex_claim ex_late) = Inl (conflict ErrIntentExpired)" by code_simp
  then obtain w' where c: "Claim (den_delivery ex_cfg) 1 ex_claim ex_late = (Inl (conflict ErrIntentExpired), w')"
    by (metis prod.collapse)
  ultimately show ?thesis using claim_failure_frame [of ex_late ex_cfg 1 ex_claim _ w'] by blast
qed

text \<open>
  C4. A lifecycle report is accepted only with the token of the claim and in a state that allows
  it; it then moves the intent to the state the event names, with a completion time exactly when
  the event ends the intent, and appends one event to the log. A report that fails at any
  statement of its transaction leaves the intents and the event log as they were.
\<close>

theorem report_transactional:
  assumes inv: "world_inv w" and c: "ReportEvent (den_delivery cfg) i req w = (res, w')"
  shows "case res of
      Inl e \<Rightarrow> pg_data (dw_delivery w') = pg_data (dw_delivery w)
    | Inr x \<Rightarrow> (\<exists>r. w_rows w i = Some r \<and> canReport (ler_type req) (ler_token req) r = None \<and>
        x = completed_row (next_state (ler_type req)) (next_completed (ler_type req) (dw_now w)) r \<and>
        w_rows w' = (w_rows w)(i \<mapsto> x)) \<and>
        logged i (ler_type req) (if ler_payload req = [] then ''{}'' else ler_payload req) (dw_now w)
          (dd_events (pg_data (dw_delivery w))) (dd_events (pg_data (dw_delivery w')))"
proof (cases "lifecycle_request_validate req")
  case (Some e)
  with c show ?thesis by (auto simp: ReportEvent_def)
next
  case None
  let ?p = "if ler_payload req = [] then ''{}'' else ler_payload req"
  from None c obtain d where d: "store_ReportEvent i (ler_token req) (ler_type req) ?p (dw_now w) (dw_delivery w) = (res, d)"
    and w': "w' = w\<lparr>dw_delivery := d\<rparr>"
    by (auto simp: ReportEvent_def world_intent_store_def in_delivery_eq Let_def)
  from inv have "pg_inv (dw_delivery w)" by (simp add: world_inv_def)
  note laws = store_ReportEvent_laws(2,3) [OF this d]
  show ?thesis
  proof (cases res)
    case (Inl e)
    with laws(1) [OF Inl] w' show ?thesis by simp
  next
    case (Inr x)
    with laws(2) [OF Inr] w' store_ReportEvent_logged [OF d [unfolded Inr]] show ?thesis
      by (simp add: w_rows_def)
  qed
qed

lemma report_transactional_witness:
  "\<exists>x r. ReportEvent (den_delivery ex_cfg) 1 ex_report ex_claimed = (Inr x, ex_running) \<and>
     w_rows ex_claimed 1 = Some r \<and> x = completed_row IntentStateRunning None r"
proof -
  obtain x where c: "ReportEvent (den_delivery ex_cfg) 1 ex_report ex_claimed = (Inr x, ex_running)"
    using ex_report_result by blast
  with report_transactional [OF ex_inv_claimed c] show ?thesis
    by (auto simp: ex_report_def next_state_def next_completed_def)
qed

text \<open>
  C5. In every world an interleaving can lead to, the tables satisfy their invariant, every intent
  that was stored is still there with its identity, and one that was completed, failed, expired,
  cancelled or display-only is unchanged.
\<close>

theorem lifecycle_refined:
  assumes "world_inv w" and "den_steps w w'" and "w_rows w i = Some r"
  shows "world_inv w' \<and> (\<exists>r'. w_rows w' i = Some r' \<and> intent_step\<^sup>*\<^sup>* r r' \<and> lifecycle_ok r' \<and>
    di_id r' = di_id r \<and> di_key r' = di_key r \<and> di_target r' = di_target r \<and> di_expires r' = di_expires r \<and>
    (intent_state_terminal (di_state r) \<longrightarrow> r' = r))"
proof -
  from den_steps_keep [OF assms(2,1)] assms(3) obtain r' where
    r': "world_inv w'" "w_rows w' i = Some r'" "intent_step\<^sup>*\<^sup>* r r'" by (auto simp: rows_le_def)
  moreover from r'(1,2) have "lifecycle_ok r'"
    by (auto simp: world_inv_def pg_inv_def delivery_inv_def w_rows_def pg_rows_def row_ok_def dest!: row_lookup_Some)
  ultimately show ?thesis
    using intent_steps_frame [OF r'(3)] intent_steps_terminal [OF r'(3)] by auto
qed

lemma lifecycle_refined_witness: "\<exists>r'. w_rows ex_running 1 = Some r' \<and> di_key r' = ''deliver:5:coder:n1''"
proof -
  obtain x where c: "Claim (den_delivery ex_cfg) 1 ex_claim ex_pending = (Inr x, ex_claimed)"
    using ex_claim_result by blast
  obtain y where "ReportEvent (den_delivery ex_cfg) 1 ex_report ex_claimed = (Inr y, ex_running)"
    using ex_report_result by blast
  from den_ops_steps(2) [OF c] den_ops_steps(3) [OF this] have s: "den_steps ex_pending ex_running"
    unfolding den_steps_def by (rule rtranclp_trans)
  have "map_option di_key (w_rows ex_pending 1) = Some ''deliver:5:coder:n1''" by code_simp
  then obtain r where "w_rows ex_pending 1 = Some r" "di_key r = ''deliver:5:coder:n1''" by auto
  with lifecycle_refined [OF ex_inv_pending s this(1)] show ?thesis by auto
qed

section \<open>Creation\<close>

text \<open>
  C6. Creation is idempotent in the key: once an intent with a key is stored, whatever happens in
  between, a later creation with that key that succeeds returns the stored intent as it now is
  and changes no row, whatever the rest of the request says.
\<close>

theorem create_idempotent:
  assumes inv: "world_inv w" and c: "Create (den_delivery cfg) req w = (Inr x, w1)" and s: "den_steps w1 w2"
    and c': "Create (den_delivery cfg) req' w2 = (Inr y, w3)" and k: "cir_key req' = cir_key req"
  shows "di_id y = di_id x \<and> w_rows w2 (di_id x) = Some y \<and> w_rows w3 = w_rows w2 \<and> intent_step\<^sup>*\<^sup>* x y"
proof -
  from den_intents.Create_ok [OF inv c] have w1: "world_inv w1" "w_rows w1 (di_id x) = Some x" "di_key x = cir_key req"
    by auto
  from den_steps_keep [OF s w1(1)] w1(2) obtain r where w2: "world_inv w2" "w_rows w2 (di_id x) = Some r"
    "intent_step\<^sup>*\<^sup>* x r" by (auto simp: rows_le_def)
  from intent_steps_frame [OF w2(3)] w1(3) k have "di_key r = cir_key req'" by simp
  from den_intents.Create_replay [OF w2(1,2) this c'] w2 show ?thesis by auto
qed

lemma ex_create_result: "\<exists>x. Create (den_delivery ex_cfg) ex_create ex_alive = (Inr x, ex_pending)"
proof -
  have "result_of (Create (den_delivery ex_cfg) ex_create ex_alive) \<noteq> None" by code_simp
  then show ?thesis by (auto simp: ex_pending_def dest: result_of_Some)
qed

lemma create_idempotent_witness:
  "\<exists>x y w3. Create (den_delivery ex_cfg) ex_create ex_alive = (Inr x, ex_pending) \<and>
     Create (den_delivery ex_cfg) (ex_create\<lparr>cir_ttl_seconds := Some 5\<rparr>) ex_claimed = (Inr y, w3) \<and>
     di_id y = di_id x \<and> w_rows w3 = w_rows ex_claimed"
proof -
  obtain x where c: "Create (den_delivery ex_cfg) ex_create ex_alive = (Inr x, ex_pending)"
    using ex_create_result by blast
  obtain z where "Claim (den_delivery ex_cfg) 1 ex_claim ex_pending = (Inr z, ex_claimed)"
    using ex_claim_result by blast
  then have s: "den_steps ex_pending ex_claimed" by (rule den_ops_steps(2))
  let ?req = "ex_create\<lparr>cir_ttl_seconds := Some 5\<rparr>"
  have "result_of (Create (den_delivery ex_cfg) ?req ex_claimed) \<noteq> None" by code_simp
  then obtain y where c': "Create (den_delivery ex_cfg) ?req ex_claimed = (Inr y, snd (Create (den_delivery ex_cfg) ?req ex_claimed))"
    by (auto dest: result_of_Some)
  have "cir_key ?req = cir_key ex_create" by simp
  from create_idempotent [OF ex_inv_alive c s c' this] c c' show ?thesis by blast
qed

text \<open>
  A creation that stores a new intent stores it pending, for the target and key of the
  request, with a key that parses and names the target's profile, an id that was free, and an
  expiry after its creation and at most the maximal time to live later.
\<close>

theorem create_new_bounded:
  assumes inv: "world_inv w" and c: "Create (den_delivery cfg) req w = (Inr x, w')" and new: "w_rows w' \<noteq> w_rows w"
  shows "w_rows w' = (w_rows w)(di_id x \<mapsto> x) \<and> w_rows w (di_id x) = None \<and> di_state x = IntentStatePending \<and>
    di_target x = cir_target req \<and> di_key x = cir_key req \<and>
    (\<exists>k. Parse (di_key x) = Inr k \<and> k_profile k = ai_profile (di_target x)) \<and>
    di_created x = dw_now w \<and> dw_now w < di_expires x \<and> di_expires x \<le> dw_now w + dc_maxTTL cfg"
proof -
  from c have "create_request_validate req = None" by (auto simp: Create_def split: option.splits)
  then have "\<exists>k. Parse (cir_key req) = Inr k \<and> k_profile k = ai_profile (cir_target req)"
    by (auto simp: create_request_validate_def split: if_splits sum.splits)
  with den_intents.Create_ok [OF inv c] new show ?thesis by auto
qed

lemma create_new_bounded_witness:
  "\<exists>x. w_rows ex_pending 1 = Some x \<and> di_expires x \<le> 4600 * second_ns \<and> di_state x = IntentStatePending"
proof -
  obtain x where c: "Create (den_delivery ex_cfg) ex_create ex_alive = (Inr x, ex_pending)"
    using ex_create_result by blast
  have r: "w_rows ex_alive 1 = None" "w_rows ex_pending 1 \<noteq> None" "dw_now ex_alive = 1000 * second_ns"
    "dc_maxTTL ex_cfg = 3600 * second_ns"
    by code_simp+
  then have "w_rows ex_pending \<noteq> w_rows ex_alive" by metis
  note new = create_new_bounded [OF ex_inv_alive c this]
  then have "di_id x = 1" using r(1,2) by (auto split: if_splits)
  with new r(3,4) show ?thesis by auto
qed

text \<open>
  The time to live of a request is multiplied by a second in 64 bits: a request for
  18446744074 seconds (some 584 years) passes the check against a maximum of one hour and is
  stored to expire in less than a third of a second.
\<close>

theorem create_ttl_overflow:
  "\<exists>x. fst (Create (den_delivery ex_cfg) (ex_create\<lparr>cir_ttl_seconds := Some 18446744074\<rparr>) ex_alive) = Inr x \<and>
     di_expires x - di_created x = 290448384"
proof -
  let ?r = "Create (den_delivery ex_cfg) (ex_create\<lparr>cir_ttl_seconds := Some 18446744074\<rparr>) ex_alive"
  have "map_option (\<lambda>x. di_expires x - di_created x) (result_of ?r) = Some 290448384" by code_simp
  then show ?thesis by (auto simp: result_of_def split: sum.splits)
qed

section \<open>The reaper\<close>

lemma den_steady:
  "den_intents.steady cfg (live_instance m) (\<lambda>v. world_inv v \<and> w_insts v = m)"
  unfolding den_intents.steady_def
proof (intro conjI allI impI)
  fix a v b v' assume "world_inv v \<and> w_insts v = m" and "rc_IsAlive (sv_runtime (den_delivery cfg)) a v = (Inr b, v')"
  then have "world_inv v' \<and> w_insts v' = m \<and> b = live_instance m a"
    using IsAlive_frame [of v cfg a "Inr b" v'] by simp
  then show "b = live_instance m a" and "world_inv v'" and "w_insts v' = m" by auto
next
  fix i at v assume v: "world_inv v \<and> w_insts v = m"
  show "world_inv (snd (is_FailRunning (sv_store (den_delivery cfg)) i at v))"
    using v world_store.fail_inv [of v i at] by (metis den_service_simps(5) prod.collapse)
  show "w_insts (snd (is_FailRunning (sv_store (den_delivery cfg)) i at v)) = m"
    using v by (simp add: world_intent_store_def in_delivery_def w_insts_def split: prod.splits)
next
  fix b at v assume v: "world_inv v \<and> w_insts v = m"
  show "world_inv (snd (is_ExpirePendingBefore (sv_store (den_delivery cfg)) b at v))"
    using v world_store.expire_before_inv [of v b at] by (metis den_service_simps(5) prod.collapse)
  show "w_insts (snd (is_ExpirePendingBefore (sv_store (den_delivery cfg)) b at v)) = m"
    using v by (simp add: world_intent_store_def in_delivery_def w_insts_def split: prod.splits)
next
  fix b v assume v: "world_inv v \<and> w_insts v = m"
  show "world_inv (snd (is_ListRunningBefore (sv_store (den_delivery cfg)) b v))"
    using v world_store.running_inv [of v b] by (metis den_service_simps(5) prod.collapse)
  show "w_insts (snd (is_ListRunningBefore (sv_store (den_delivery cfg)) b v)) = m"
    using v by (simp add: world_intent_store_def in_delivery_def w_insts_def split: prod.splits)
qed

text \<open>
  A pass of the reaper that ends without an error applies \<open>reap_row\<close> to every intent: pending
  ones older than the pending time to live expire, running ones claimed longer ago than the
  running time to live fail unless their claimer's instance is alive in the runtime service, and
  every other intent, claimed ones included, stays as it is.
\<close>

theorem reap_exact:
  assumes "world_inv w" and "Reap (den_delivery cfg) w = ((e, f, None), w')"
  shows "world_inv w' \<and>
    w_rows w' = map_option (reap_row (live_instance (w_insts w)) (dw_now w) (dc_pendingTTL cfg) (dc_runningTTL cfg)) \<circ> w_rows w"
  using den_intents.Reap_exact [OF den_steady _ _ assms(2), of "w_insts w"] assms(1) by simp

definition ex_old :: den_world where
  "ex_old = snd (rv_Sweep (den_runtime ex_cfg) (ex_running\<lparr>dw_now := 5000 * second_ns\<rparr>))"

lemma reap_exact_witness:
  "\<exists>w' r. Reap (den_delivery ex_cfg) ex_old = ((0, 1, None), w') \<and> w_rows w' 1 = Some r \<and> di_state r = IntentStateFailed"
proof -
  have "fst (Reap (den_delivery ex_cfg) ex_old) = (0, 1, None)" by code_simp
  then obtain w' where c: "Reap (den_delivery ex_cfg) ex_old = ((0, 1, None), w')" by (metis prod.collapse)
  have "world_inv ex_old" by code_simp
  note ex = reap_exact [OF this c]
  have "map_option (\<lambda>r. di_state (reap_row (live_instance (w_insts ex_old)) (dw_now ex_old)
      (dc_pendingTTL ex_cfg) (dc_runningTTL ex_cfg) r)) (w_rows ex_old 1) = Some IntentStateFailed" by code_simp
  with ex c show ?thesis by auto
qed

text \<open>
  However the reaper ends, and whatever the runtime service answers, a stored intent is kept:
  it is unchanged, or it was pending longer than the pending time to live and is expired, or it
  was running and is failed.
\<close>

theorem reap_frame:
  assumes "world_inv w" and "Reap (den_delivery cfg) w = (res, w')" and "w_rows w i = Some r"
  shows "world_inv w' \<and> (\<exists>r'. w_rows w' i = Some r' \<and>
    (r' = r \<or> r' = expire_before_row (dw_now w - dc_pendingTTL cfg) (dw_now w) r \<or>
     di_state r = IntentStateRunning \<and> r' = completed_row IntentStateFailed (Some (dw_now w)) r))"
proof -
  obtain e f err where "res = (e, f, err)" by (metis prod.collapse)
  with den_intents.Reap_frame [OF assms(1)] assms(2,3) show ?thesis by fastforce
qed

lemma reap_frame_witness: "\<exists>r'. w_rows (snd (Reap (den_delivery ex_cfg) ex_claimed)) 1 = Some r'"
proof -
  have "w_rows ex_claimed 1 \<noteq> None" by code_simp
  then obtain r where "w_rows ex_claimed 1 = Some r" by auto
  with reap_frame [OF ex_inv_claimed, of ex_cfg] show ?thesis by (metis prod.collapse)
qed

end
