(* ===== verification/Runtime_Props.thy ===== *)
theory Runtime_Props
  imports Den_Props
begin

text \<open>
  The properties of idempotency keys and path parameters, of the runtime service, and of the
  liveness check between the two services.
\<close>

section \<open>Keys and path parameters\<close>

text \<open>
  Idempotency keys round trip: rendering a valid key and parsing it gives the key back, a text
  that parses is the rendering of the key it gives, and a generated key is one that parses.
\<close>

theorem key_round_trip:
  shows "(key_validate k = None \<longrightarrow> Parse (key_string k) = Inr k) \<and>
    (Parse raw = Inr k \<longrightarrow> key_string k = raw \<and> key_validate k = None) \<and>
    (Generate op ch prof rand = Inr k \<longrightarrow> Parse (key_string k) = Inr k \<and>
       k_operation k = op \<and> k_channel k = ch \<and> k_profile k = prof)"
proof (intro conjI impI)
  assume "Parse raw = Inr k"
  then show "key_string k = raw" "key_validate k = None" using Parse_Inr_string by auto
next
  assume "Generate op ch prof rand = Inr k"
  then have "k_operation k = op \<and> k_channel k = ch \<and> k_profile k = prof \<and> key_validate k = None"
    by (auto simp: Generate_def NewKey_Inr split: sum.splits)
  then show "Parse (key_string k) = Inr k" "k_operation k = op" "k_channel k = ch" "k_profile k = prof"
    using Parse_key_string by auto
qed (rule Parse_key_string)

lemma key_round_trip_witness:
  "\<exists>k. Parse ''deliver:5:coder:n1'' = Inr k \<and> key_string k = ''deliver:5:coder:n1'' \<and> k_profile k = ''coder''"
proof -
  let ?k = "\<lparr>k_operation = ''deliver'', k_channel = ''5'', k_profile = ''coder'', k_nonce = ''n1''\<rparr>"
  have p: "Parse ''deliver:5:coder:n1'' = Inr ?k" by code_simp
  have "key_string ?k = ''deliver:5:coder:n1''"
    using key_round_trip [of ?k "''deliver:5:coder:n1''"] p by blast
  with p show ?thesis by (intro exI [of _ ?k]) simp
qed

text \<open>
  A generated nonce is always accepted: with sixteen random bytes, generation fails only for
  an operation, a channel or a profile that is blank or contains a colon.
\<close>

theorem generate_complete:
  assumes "length bs = 16" and "validPart op" and "validPart ch" and "validPart prof"
  shows "\<exists>k. Generate op ch prof (Inr bs) = Inr k \<and> length (k_nonce k) = 32"
proof -
  have bs: "bs \<noteq> []" using assms(1) by auto
  have "length (hex_encode bs) = 2 * length bs"
    unfolding hex_encode_def by (induction bs) (auto simp: Let_def)
  with validPart_hex_encode [OF bs] assms show ?thesis
    by (auto simp: Generate_def generateNonce_def NewKey_Inr key_validate_None)
qed

lemma generate_complete_witness:
  "\<exists>k. Generate ''op'' ''5'' ''coder'' (Inr (replicate 16 (CHR ''a''))) = Inr k \<and> length (k_nonce k) = 32"
proof (rule generate_complete)
  show "validPart ''op''" "validPart ''5''" "validPart ''coder''" by code_simp+
qed simp

lemma wrap64_step: "wrap64 (wrap64 a * 10 + b) = wrap64 (a * 10 + b)"
  by (simp add: wrap64_def)

lemma wrap64_add_range: "wrap64 (i + 2 ^ 64) = wrap64 i"
proof -
  have "(word_of_int (2 ^ 64) :: 64 word) = 0" by simp
  then have "(word_of_int (i + 2 ^ 64) :: 64 word) = word_of_int i" unfolding of_int_add by simp
  then show ?thesis by (simp only: wrap64_def)
qed

lemma digit_char: "n < 10 \<Longrightarrow> is_digit (char_of (48 + n)) \<and> digit_value (char_of (48 + n)) = int n"
  by (simp add: is_digit_def digit_value_def Let_def)

lemma parse_nat_digits: "parse_digits 0 (nat_digits n @ cs) = parse_digits (wrap64 (int n)) cs"
proof (induction n arbitrary: cs rule: nat_digits.induct)
  case (1 n)
  show ?case
  proof (cases "n < 10")
    case True
    then show ?thesis using digit_char [of n] by (subst nat_digits.simps) simp
  next
    case False
    have "parse_digits 0 (nat_digits n @ cs) = parse_digits (wrap64 (int (n div 10))) (char_of (48 + n mod 10) # cs)"
      using 1 [OF False, of "char_of (48 + n mod 10) # cs"] False by (subst nat_digits.simps) simp
    also have "\<dots> = parse_digits (wrap64 (int (n div 10) * 10 + int (n mod 10))) cs"
      using digit_char [of "n mod 10"] by (simp add: wrap64_step)
    also have "int (n div 10) * 10 + int (n mod 10) = int n" by (metis div_mult_mod_eq of_nat_add of_nat_mult of_nat_numeral)
    finally show ?thesis .
  qed
qed

lemma nat_digits_not_Nil: "nat_digits n \<noteq> []"
  by (subst nat_digits.simps) simp

text \<open>
  A path parameter of digits is read as its value modulo 2 to the 64, as a signed 64-bit
  integer: exact below 2 to the 63, and beyond it the request is answered for another intent.
\<close>

theorem path_parameter_wraps:
  "parse_required_int64 (nat_digits n) = Inr (wrap64 (int n)) \<and>
   getIntent s (nat_digits (n + 2 ^ 64)) w = getIntent s (nat_digits n) w"
proof -
  have p: "parse_required_int64 (nat_digits m) = Inr (wrap64 (int m))" for m
    using parse_nat_digits [of m "[]"] by (simp add: parse_required_int64_def nat_digits_not_Nil)
  have "wrap64 (int (n + 2 ^ 64)) = wrap64 (int n)" 
    by (simp only: of_nat_add of_nat_power of_nat_numeral wrap64_add_range)
  then show ?thesis by (simp add: p getIntent_def)
qed

section \<open>The liveness check\<close>

text \<open>
  C14. The delivery service's liveness check, answered by the runtime service's handler, never
  changes what either service stores; when it answers, the answer is whether the instance is
  registered and active, idle or busy, and it can fail only when the instance id is blank or a
  call of the database fails.
\<close>

theorem liveness_refined:
  assumes inv: "world_inv w" and c: "rc_IsAlive (den_checker cfg) a w = (res, w')"
  shows "w_rows w' = w_rows w \<and> w_insts w' = w_insts w \<and> w_subs w' = w_subs w \<and>
    (case res of Inr b \<Rightarrow> b = live_instance (w_insts w) a
     | Inl e \<Rightarrow> \<not> instance_is_valid a \<or> pg_faults (dw_runtime w) \<noteq> [])"
proof -
  have healthy: "\<exists>b v. rc_IsAlive (den_checker cfg) a w = (Inr b, v)"
    if a: "instance_is_valid a" and f: "pg_faults (dw_runtime w) = []"
  proof -
    have q: "pg_call (read_only (getInstanceSQL a)) (dw_runtime w) = (Inr (w_insts w a), dw_runtime w)"
      using f by (simp add: pg_call_def Let_def read_only_def getInstanceSQL_def w_insts_def rt_insts_def)
    have "scanRuntimeInstance r = Inr r" if "w_insts w a = Some r" for r
      using den_instances.valid [OF inv that] by (simp add: scanRuntimeInstance_def)
    with a q show ?thesis
      by (cases "w_insts w a")
        (auto simp: den_checker_def RuntimeClient_IsAlive_def serve_liveness_def getInstance_def rt_respond_def rv_Get_def
          world_runtime_store_def in_runtime_def rt_GetInstance_def maybe_row_def rt_notFound_def WriteJSON_def)
  qed
  have "w_subs w' = w_subs w"
  proof -
    obtain g w1 where g: "rv_Get (den_runtime cfg) a w = (g, w1)" by fastforce
    with c have "w' = w1"
      by (auto simp: den_checker_def RuntimeClient_IsAlive_def serve_liveness_def getInstance_def rt_respond_def
        WriteJSON_def WriteServiceError_def WriteError_def Let_def split: if_splits prod.splits sum.splits)
    with den_instances.Get_ok [OF inv g] show ?thesis by simp
  qed
  with IsAlive_frame [OF inv c] healthy c show ?thesis
    by (auto simp: w_rows_def pg_rows_def fun_eq_iff split: sum.splits)
qed

lemma liveness_refined_witness:
  "\<exists>w'. rc_IsAlive (den_checker ex_cfg) ''i1'' ex_alive = (Inr True, w') \<and> live_instance (w_insts ex_alive) ''i1''"
proof -
  have "fst (rc_IsAlive (den_checker ex_cfg) ''i1'' ex_alive) = Inr True" by code_simp
  then obtain w' where c: "rc_IsAlive (den_checker ex_cfg) ''i1'' ex_alive = (Inr True, w')" by (metis prod.collapse)
  from liveness_refined [OF ex_inv_alive c] c show ?thesis by auto
qed

section \<open>Instances and subscriptions\<close>

text \<open>
  A sweep that ends without an error gives every instance the state of \<open>stateForHeartbeat\<close>,
  except that an instance already dead stays dead; it changes nothing else.
\<close>

theorem sweep_follows_state:
  assumes inv: "world_inv w" and c: "rv_Sweep (den_runtime cfg) w = (Inr nm, w')"
  shows "world_inv w' \<and> w_subs w' = w_subs w \<and>
    w_insts w' = (\<lambda>a. map_option (\<lambda>r. if ri_state r = RuntimeStateDead then r
      else r\<lparr>ri_state := stateForHeartbeat (ri_heartbeat r) (ri_state r) (dw_now w) (dc_stale cfg) (dc_dead cfg)\<rparr>)
      (w_insts w a))"
proof -
  obtain n m where "nm = (n, m)" by (metis prod.collapse)
  with den_instances.Sweep_ok [OF inv, of cfg n m w'] c have ok: "world_inv w'" "w_subs w' = w_subs w"
    "w_insts w' = map_option (sweep_row (dw_now w) (dc_stale cfg) (dc_dead cfg)) \<circ> w_insts w" by auto
  have "sweep_row (dw_now w) (dc_stale cfg) (dc_dead cfg) r = (if ri_state r = RuntimeStateDead then r
      else r\<lparr>ri_state := stateForHeartbeat (ri_heartbeat r) (ri_state r) (dw_now w) (dc_stale cfg) (dc_dead cfg)\<rparr>)"
    if "w_insts w a = Some r" for a r
    using den_instances.valid [OF inv that] by (intro sweep_row_state) (simp add: instance_valid_def)
  then have "map_option (sweep_row (dw_now w) (dc_stale cfg) (dc_dead cfg)) (w_insts w a) =
      map_option (\<lambda>r. if ri_state r = RuntimeStateDead then r
      else r\<lparr>ri_state := stateForHeartbeat (ri_heartbeat r) (ri_state r) (dw_now w) (dc_stale cfg) (dc_dead cfg)\<rparr>) (w_insts w a)" for a
    by (cases "w_insts w a") auto
  with ok show ?thesis by (simp add: fun_eq_iff)
qed

lemma sweep_follows_state_witness:
  "\<exists>w'. rv_Sweep (den_runtime ex_cfg) (ex_alive\<lparr>dw_now := 1050 * second_ns\<rparr>) = (Inr (1, 0), w') \<and>
     map_option ri_state (w_insts w' ''i1'') = Some RuntimeStateStale"
proof -
  let ?w = "ex_alive\<lparr>dw_now := 1050 * second_ns\<rparr>"
  have "fst (rv_Sweep (den_runtime ex_cfg) ?w) = Inr (1, 0)" by code_simp
  then obtain w' where c: "rv_Sweep (den_runtime ex_cfg) ?w = (Inr (1, 0), w')" by (metis prod.collapse)
  have inv: "world_inv ?w" using ex_inv_alive by (simp add: world_inv_def)
  have "map_option (\<lambda>r. (ri_state r, stateForHeartbeat (ri_heartbeat r) (ri_state r) (dw_now ?w) (dc_stale ex_cfg) (dc_dead ex_cfg)))
      (w_insts ?w ''i1'') = Some (RuntimeStateActive, RuntimeStateStale)" by code_simp
  then obtain r where "w_insts ?w ''i1'' = Some r" "ri_state r = RuntimeStateActive"
    "stateForHeartbeat (ri_heartbeat r) (ri_state r) (dw_now ?w) (dc_stale ex_cfg) (dc_dead ex_cfg) = RuntimeStateStale"
    by (auto simp only: map_option_eq_Some prod.inject)
  with sweep_follows_state [OF inv c] have "map_option ri_state (w_insts w' ''i1'') = Some RuntimeStateStale" by simp
  with c show ?thesis by blast
qed

text \<open>
  A heartbeat that succeeds is the pure \<open>applyHeartbeat\<close> on the stored instance, and makes it
  alive for the delivery service unless the instance is degraded or stopped.
\<close>

theorem heartbeat_revives:
  assumes inv: "world_inv w" and c: "rv_Heartbeat (den_runtime cfg) a w = (Inr x, w')"
  shows "world_inv w' \<and> (\<exists>r. w_insts w a = Some r \<and> x = applyHeartbeat (dw_now w) r \<and>
    w_insts w' = (w_insts w)(a \<mapsto> x) \<and> ri_heartbeat x = Some (dw_now w) \<and>
    (live_instance (w_insts w') a \<longleftrightarrow> ri_state r \<notin> {RuntimeStateDegraded, RuntimeStateStopped}))"
proof -
  from den_instances.Heartbeat_ok [OF inv c] obtain r where r: "world_inv w'" "w_insts w a = Some r"
    "x = applyHeartbeat (dw_now w) r" "w_insts w' = (w_insts w)(a \<mapsto> x)" by auto
  from den_instances.valid [OF inv r(2)] have "runtime_state_valid (ri_state r)" by (simp add: instance_valid_def)
  then have "live_state (ri_state x) \<longleftrightarrow> ri_state r \<notin> {RuntimeStateDegraded, RuntimeStateStopped}"
    unfolding r(3) by (cases "ri_state r") (auto simp: live_state_def applyHeartbeat_def Let_def)
  moreover have "ri_heartbeat x = Some (dw_now w)" by (simp add: r(3) applyHeartbeat_def Let_def)
  ultimately show ?thesis using r by (simp add: live_instance_def)
qed

lemma heartbeat_revives_witness:
  "\<exists>x w'. rv_Heartbeat (den_runtime ex_cfg) ''i1'' ex_old = (Inr x, w') \<and> live_instance (w_insts w') ''i1''"
proof -
  let ?r = "rv_Heartbeat (den_runtime ex_cfg) ''i1'' ex_old"
  have "result_of ?r \<noteq> None" by code_simp
  then obtain x where c: "?r = (Inr x, snd ?r)" by (auto dest: result_of_Some)
  have "world_inv ex_old" by code_simp
  note h = heartbeat_revives [OF this c]
  have "map_option ri_state (w_insts ex_old ''i1'') = Some RuntimeStateDead" by code_simp
  with h c show ?thesis by auto
qed

text \<open>
  A subscription's cursor never moves back: a poll that succeeds stores the larger of the old
  cursor and the requested one, and subscribing again to the same channel keeps the subscription
  and its cursor.
\<close>

theorem cursor_monotone:
  assumes inv: "world_inv w"
  shows "(rv_Stream (den_runtime cfg) i after w = (Inr x, w') \<longrightarrow>
      (\<exists>c. w_subs w i = Some c \<and> cs_cursor x = max (cs_cursor c) after \<and> w_subs w' = (w_subs w)(i \<mapsto> x))) \<and>
    (rv_CreateSubscription (den_runtime cfg) req w = (Inr x, w') \<longrightarrow>
      w_insts w (csr_instance req) \<noteq> None \<and> w_subs w' = (w_subs w)(cs_id x \<mapsto> x) \<and>
      sub_key x = (csr_instance req, csr_channel req) \<and>
      cs_cursor x = (case w_subs w (cs_id x) of None \<Rightarrow> 0 | Some c \<Rightarrow> cs_cursor c))"
  using den_instances.Stream_ok [OF inv, of cfg i after x w'] den_instances.Subscribe_ok [OF inv, of cfg req x w']
  by (auto split: option.splits)

definition ex_sub :: create_subscription_request where
  "ex_sub = \<lparr>csr_instance = ''i1'', csr_channel = 5, csr_policy = None\<rparr>"

lemma cursor_monotone_witness:
  "\<exists>x w' y w''. rv_CreateSubscription (den_runtime ex_cfg) ex_sub ex_alive = (Inr x, w') \<and> cs_cursor x = 0 \<and>
     rv_Stream (den_runtime ex_cfg) 1 7 w' = (Inr y, w'') \<and> cs_cursor y = 7"
proof -
  let ?c = "rv_CreateSubscription (den_runtime ex_cfg) ex_sub ex_alive"
  have "result_of ?c \<noteq> None" by code_simp
  then obtain x where c: "?c = (Inr x, snd ?c)" by (auto dest: result_of_Some)
  have "w_subs ex_alive 1 = None" "map_option cs_id (result_of ?c) = Some 1" by code_simp+
  with cursor_monotone [OF ex_inv_alive, of ex_cfg 1 0 x "snd ?c" ex_sub] c have x: "cs_cursor x = 0"
    by (metis (no_types, lifting) map_option_eq_Some option.case(1) option.inject result_of_def sum.case(2) fst_conv)
  have "result_of (rv_Stream (den_runtime ex_cfg) 1 7 (snd ?c)) \<noteq> None" by code_simp
  then obtain y where s: "rv_Stream (den_runtime ex_cfg) 1 7 (snd ?c) = (Inr y, snd (rv_Stream (den_runtime ex_cfg) 1 7 (snd ?c)))"
    by (auto dest: result_of_Some)
  have "world_inv (snd ?c)" by code_simp
  from cursor_monotone [OF this, of ex_cfg 1 7 y _ ex_sub] s obtain d where
    "w_subs (snd ?c) 1 = Some d" "cs_cursor y = max (cs_cursor d) 7" by blast
  moreover have "map_option cs_cursor (w_subs (snd ?c) 1) = Some 0" by code_simp
  ultimately have "cs_cursor y = 7" by simp
  with c x s show ?thesis by blast
qed

end
