(* ===== verification/Json_Syntax.thy ===== *)
theory Json_Syntax
  imports Prelude
begin

text \<open>
  \<open>json.Valid\<close> of the standard library, as its scanner works: a state machine over the bytes with
  a stack of the enclosing objects and arrays, at most \<open>maxNestingDepth\<close> deep. A text is valid
  when feeding it and one final space ends in the state of a complete top-level value.
\<close>

datatype json_nesting = ParseObjectKey | ParseObjectValue | ParseArrayValue

datatype json_state =
    BeginValue | BeginValueOrEmpty | BeginString | BeginStringOrEmpty | EndValue | EndTop
  | InString | InStringEsc | InStringEscU nat
  | Neg | Num1 | Num0 | Dot | Dot0 | Exp | ExpSign | Exp0
  | Lit string | JsonError

type_synonym json_scanner = "json_state \<times> json_nesting list"

definition maxNestingDepth :: nat where
  "maxNestingDepth = 10000"

definition json_error :: json_scanner where
  "json_error = (JsonError, [])"

definition is_json_space :: "char \<Rightarrow> bool" where
  "is_json_space c \<longleftrightarrow> c = CHR 0x20 \<or> c = CHR 0x09 \<or> c = CHR 0x0D \<or> c = CHR 0x0A"

definition is_hex_digit :: "char \<Rightarrow> bool" where
  "is_hex_digit c = (let n = of_char c :: nat in (48 \<le> n \<and> n \<le> 57) \<or> (97 \<le> n \<and> n \<le> 102) \<or> (65 \<le> n \<and> n \<le> 70))"

definition push_state :: "json_nesting \<Rightarrow> json_state \<Rightarrow> json_nesting list \<Rightarrow> json_scanner" where
  "push_state p next st = (if length st < maxNestingDepth then (next, p # st) else json_error)"

text \<open>A value ended before the character \<open>c\<close>, which ends it or follows it.\<close>

definition state_end_value :: "char \<Rightarrow> json_nesting list \<Rightarrow> json_scanner" where
  "state_end_value c st =
     (case st of
        [] \<Rightarrow> (if is_json_space c then (EndTop, []) else json_error)
      | p # rest \<Rightarrow>
          if is_json_space c then (EndValue, st)
          else case p of
                 ParseObjectKey \<Rightarrow> (if c = CHR '':'' then (BeginValue, ParseObjectValue # rest) else json_error)
               | ParseObjectValue \<Rightarrow>
                   (if c = CHR '','' then (BeginString, ParseObjectKey # rest)
                    else if c = CHR ''}'' then (if rest = [] then EndTop else EndValue, rest)
                    else json_error)
               | ParseArrayValue \<Rightarrow>
                   (if c = CHR '','' then (BeginValue, st)
                    else if c = CHR '']'' then (if rest = [] then EndTop else EndValue, rest)
                    else json_error))"

definition state_begin_value :: "char \<Rightarrow> json_nesting list \<Rightarrow> json_scanner" where
  "state_begin_value c st =
     (if is_json_space c then (BeginValue, st)
      else if c = CHR ''{'' then push_state ParseObjectKey BeginStringOrEmpty st
      else if c = CHR ''['' then push_state ParseArrayValue BeginValueOrEmpty st
      else if c = CHR 0x22 then (InString, st)
      else if c = CHR ''-'' then (Neg, st)
      else if c = CHR ''0'' then (Num0, st)
      else if c = CHR ''t'' then (Lit ''rue'', st)
      else if c = CHR ''f'' then (Lit ''alse'', st)
      else if c = CHR ''n'' then (Lit ''ull'', st)
      else if is_digit c then (Num1, st)
      else json_error)"

definition state0 :: "char \<Rightarrow> json_nesting list \<Rightarrow> json_scanner" where
  "state0 c st =
     (if c = CHR ''.'' then (Dot, st)
      else if c = CHR ''e'' \<or> c = CHR ''E'' then (Exp, st)
      else state_end_value c st)"

fun json_step :: "char \<Rightarrow> json_scanner \<Rightarrow> json_scanner" where
  "json_step c (BeginValue, st) = state_begin_value c st"
| "json_step c (BeginValueOrEmpty, st) =
     (if is_json_space c then (BeginValueOrEmpty, st)
      else if c = CHR '']'' then state_end_value c st else state_begin_value c st)"
| "json_step c (BeginStringOrEmpty, st) =
     (if is_json_space c then (BeginStringOrEmpty, st)
      else if c = CHR ''}'' then state_end_value c (ParseObjectValue # tl st)
      else if c = CHR 0x22 then (InString, st) else json_error)"
| "json_step c (BeginString, st) =
     (if is_json_space c then (BeginString, st)
      else if c = CHR 0x22 then (InString, st) else json_error)"
| "json_step c (EndValue, st) = state_end_value c st"
| "json_step c (EndTop, st) = (if is_json_space c then (EndTop, st) else json_error)"
| "json_step c (InString, st) =
     (if c = CHR 0x22 then (EndValue, st)
      else if c = CHR 0x5C then (InStringEsc, st)
      else if (of_char c :: nat) < 32 then json_error
      else (InString, st))"
| "json_step c (InStringEsc, st) =
     (if c \<in> set [CHR ''b'', CHR ''f'', CHR ''n'', CHR ''r'', CHR ''t'', CHR 0x5C, CHR ''/'', CHR 0x22] then (InString, st)
      else if c = CHR ''u'' then (InStringEscU 3, st) else json_error)"
| "json_step c (InStringEscU n, st) =
     (if is_hex_digit c then (case n of 0 \<Rightarrow> InString | Suc m \<Rightarrow> InStringEscU m, st) else json_error)"
| "json_step c (Neg, st) =
     (if c = CHR ''0'' then (Num0, st) else if is_digit c then (Num1, st) else json_error)"
| "json_step c (Num1, st) = (if is_digit c then (Num1, st) else state0 c st)"
| "json_step c (Num0, st) = state0 c st"
| "json_step c (Dot, st) = (if is_digit c then (Dot0, st) else json_error)"
| "json_step c (Dot0, st) =
     (if is_digit c then (Dot0, st)
      else if c = CHR ''e'' \<or> c = CHR ''E'' then (Exp, st) else state_end_value c st)"
| "json_step c (Exp, st) =
     (if c = CHR ''+'' \<or> c = CHR ''-'' then (ExpSign, st)
      else if is_digit c then (Exp0, st) else json_error)"
| "json_step c (ExpSign, st) = (if is_digit c then (Exp0, st) else json_error)"
| "json_step c (Exp0, st) = (if is_digit c then (Exp0, st) else state_end_value c st)"
| "json_step c (Lit s, st) =
     (case s of [] \<Rightarrow> json_error
      | x # rest \<Rightarrow> (if c = x then (if rest = [] then EndValue else Lit rest, st) else json_error))"
| "json_step c (JsonError, st) = json_error"

definition json_valid :: "string \<Rightarrow> bool" where
  "json_valid s = (fst (json_step (CHR 0x20) (fold json_step s (BeginValue, []))) = EndTop)"

lemma json_error_stays [simp]: "fold json_step s (JsonError, st) = (JsonError, if s = [] then st else [])"
  by (induction s arbitrary: st) (auto simp: json_error_def)

lemma json_valid_not_blank: "\<forall>c\<in>set s. is_json_space c \<Longrightarrow> \<not> json_valid s"
proof -
  assume "\<forall>c\<in>set s. is_json_space c"
  then have "fold json_step s (BeginValue, []) = (BeginValue, [])"
    by (induction s) (auto simp: state_begin_value_def)
  then show ?thesis by (simp add: json_valid_def state_begin_value_def is_json_space_def)
qed

lemma json_examples:
  "json_valid ''{}''" "json_valid ''[1, -2.5e3, true, null]''" "\<not> json_valid ''{,}''"
  "\<not> json_valid ''01''" "\<not> json_valid ''[1,]''" "json_valid ''0''"
  by code_simp+

end
