(* ===== verification/Board_Types.thy ===== *)
theory Board_Types
  imports Json_Syntax Shared_Api
begin

text \<open>
  Package \<open>board\<close>, the data (\<open>types.go\<close>): posts and comments, the limits of a deployment, the
  requests and pages, the constructors that normalise what a request carries, and the purge
  context. A metadata value that Go holds as a nil or an empty slice is the empty text.
\<close>

section \<open>Constants and errors\<close>

definition PostStatusActive :: string where "PostStatusActive = ''active''"
definition PostStatusDeleted :: string where "PostStatusDeleted = ''deleted''"
definition CommentStatusActive :: string where "CommentStatusActive = ''active''"
definition CommentStatusDeleted :: string where "CommentStatusDeleted = ''deleted''"
definition SearchResultPost :: string where "SearchResultPost = ''post''"
definition SearchResultComment :: string where "SearchResultComment = ''comment''"

lemmas board_status_defs [simp] =
  PostStatusActive_def PostStatusDeleted_def CommentStatusActive_def CommentStatusDeleted_def
  SearchResultPost_def SearchResultComment_def

definition ErrPostNotFound :: go_err where [sentinel_defs]: "ErrPostNotFound = Sentinel ''board'' ''board post not found''"
definition ErrCommentNotFound :: go_err where [sentinel_defs]: "ErrCommentNotFound = Sentinel ''board'' ''board comment not found''"
definition ErrMissingProjectID :: go_err where [sentinel_defs]: "ErrMissingProjectID = Sentinel ''board'' ''project_id is required''"
definition ErrMissingTitle :: go_err where [sentinel_defs]: "ErrMissingTitle = Sentinel ''board'' ''title is required''"
definition ErrMissingBody :: go_err where [sentinel_defs]: "ErrMissingBody = Sentinel ''board'' ''body_markdown is required''"
definition ErrMissingAuthor :: go_err where [sentinel_defs]: "ErrMissingAuthor = Sentinel ''board'' ''author_identity is required''"
definition ErrMissingReason :: go_err where [sentinel_defs]: "ErrMissingReason = Sentinel ''board'' ''reason is required''"
definition ErrInvalidMetadata :: go_err where [sentinel_defs]: "ErrInvalidMetadata = Sentinel ''board'' ''metadata must be valid json''"
definition ErrInvalidID :: go_err where [sentinel_defs]: "ErrInvalidID = Sentinel ''board'' ''id must be positive''"
definition ErrInvalidAfterID :: go_err where [sentinel_defs]: "ErrInvalidAfterID = Sentinel ''board'' ''after_id must not be negative''"
definition ErrInvalidLimit :: go_err where [sentinel_defs]: "ErrInvalidLimit = Sentinel ''board'' ''limit must not be negative''"
definition ErrInvalidPathLimit :: go_err where [sentinel_defs]: "ErrInvalidPathLimit = Sentinel ''board'' ''path limit must be positive''"
definition ErrParentPostMismatch :: go_err where [sentinel_defs]: "ErrParentPostMismatch = Sentinel ''board'' ''parent comment must belong to the same post''"
definition ErrInvalidSearchQuery :: go_err where [sentinel_defs]: "ErrInvalidSearchQuery = Sentinel ''board'' ''q is required''"
definition ErrProjectValidatorUnset :: go_err where [sentinel_defs]: "ErrProjectValidatorUnset = Sentinel ''board'' ''project validator is not configured''"
definition ErrInvalidLimits :: go_err where [sentinel_defs]: "ErrInvalidLimits = Sentinel ''board'' ''board limits are invalid''"
definition ErrCommentCycle :: go_err where [sentinel_defs]: "ErrCommentCycle = Sentinel ''board'' ''comment parent cycle detected''"
definition ErrMissingAdapterIdentity :: go_err where [sentinel_defs]: "ErrMissingAdapterIdentity = Sentinel ''board'' ''authenticated adapter identity is required''"

definition validationFailed :: "go_err \<Rightarrow> go_err" where
  "validationFailed e = ServiceErr e ''validation_failed'' 400"

definition postNotFound :: go_err where
  "postNotFound = ServiceErr ErrPostNotFound ''board_post_not_found'' 404"

definition commentNotFound :: go_err where
  "commentNotFound = ServiceErr ErrCommentNotFound ''board_comment_not_found'' 404"

definition board_conflict :: "go_err \<Rightarrow> string \<Rightarrow> go_err" where
  "board_conflict e code = ServiceErr e code 409"

definition board_forbidden :: "go_err \<Rightarrow> string \<Rightarrow> go_err" where
  "board_forbidden e code = ServiceErr e code 403"

section \<open>Limits\<close>

record limits =
  lm_DefaultPageSize :: int
  lm_MaxPageSize :: int
  lm_MaxPathComments :: int
  lm_MaxProjectIDBytes :: int
  lm_MaxTitleBytes :: int
  lm_MaxBodyBytes :: int
  lm_MaxAuthorIdentityBytes :: int
  lm_MaxMetadataBytes :: int
  lm_MaxSearchQueryBytes :: int
  lm_MaxPurgeReasonBytes :: int
  lm_MaxIdempotencyKeyBytes :: int

definition DefaultLimits :: limits where
  "DefaultLimits =
     \<lparr>lm_DefaultPageSize = 50, lm_MaxPageSize = 100, lm_MaxPathComments = 50,
      lm_MaxProjectIDBytes = 256, lm_MaxTitleBytes = 512, lm_MaxBodyBytes = 64 * 1024,
      lm_MaxAuthorIdentityBytes = 256, lm_MaxMetadataBytes = 16 * 1024,
      lm_MaxSearchQueryBytes = 256, lm_MaxPurgeReasonBytes = 2000, lm_MaxIdempotencyKeyBytes = 256\<rparr>"

definition or_default :: "int \<Rightarrow> int \<Rightarrow> int" where
  "or_default x d = (if x = 0 then d else x)"

definition withDefaults :: "limits \<Rightarrow> limits" where
  "withDefaults l =
     (let d = DefaultLimits
      in \<lparr>lm_DefaultPageSize = or_default (lm_DefaultPageSize l) (lm_DefaultPageSize d),
          lm_MaxPageSize = or_default (lm_MaxPageSize l) (lm_MaxPageSize d),
          lm_MaxPathComments = or_default (lm_MaxPathComments l) (lm_MaxPathComments d),
          lm_MaxProjectIDBytes = or_default (lm_MaxProjectIDBytes l) (lm_MaxProjectIDBytes d),
          lm_MaxTitleBytes = or_default (lm_MaxTitleBytes l) (lm_MaxTitleBytes d),
          lm_MaxBodyBytes = or_default (lm_MaxBodyBytes l) (lm_MaxBodyBytes d),
          lm_MaxAuthorIdentityBytes = or_default (lm_MaxAuthorIdentityBytes l) (lm_MaxAuthorIdentityBytes d),
          lm_MaxMetadataBytes = or_default (lm_MaxMetadataBytes l) (lm_MaxMetadataBytes d),
          lm_MaxSearchQueryBytes = or_default (lm_MaxSearchQueryBytes l) (lm_MaxSearchQueryBytes d),
          lm_MaxPurgeReasonBytes = or_default (lm_MaxPurgeReasonBytes l) (lm_MaxPurgeReasonBytes d),
          lm_MaxIdempotencyKeyBytes = or_default (lm_MaxIdempotencyKeyBytes l) (lm_MaxIdempotencyKeyBytes d)\<rparr>)"

definition limits_validate :: "limits \<Rightarrow> go_err option" where
  "limits_validate l =
     (if lm_DefaultPageSize l \<le> 0 \<or> lm_MaxPageSize l < lm_DefaultPageSize l \<or> lm_MaxPathComments l \<le> 0 \<or>
         lm_MaxProjectIDBytes l \<le> 0 \<or> lm_MaxTitleBytes l \<le> 0 \<or> lm_MaxBodyBytes l \<le> 0 \<or>
         lm_MaxAuthorIdentityBytes l \<le> 0 \<or> lm_MaxMetadataBytes l \<le> 0 \<or> lm_MaxSearchQueryBytes l \<le> 0 \<or>
         lm_MaxPurgeReasonBytes l \<le> 0 \<or> lm_MaxIdempotencyKeyBytes l \<le> 0
      then Some ErrInvalidLimits else None)"

definition validateFieldSize :: "string \<Rightarrow> string \<Rightarrow> int \<Rightarrow> go_err option" where
  "validateFieldSize name v maximum =
     (if int (length v) > maximum
      then Some (Errorf (name @ '' exceeds configured maximum of '' @ show_int maximum @ '' bytes''))
      else None)"

text \<open>The checks of a field list run in order and stop at the first error.\<close>

fun first_error :: "go_err option list \<Rightarrow> go_err option" where
  "first_error [] = None"
| "first_error (None # es) = first_error es"
| "first_error (Some e # es) = Some e"

section \<open>Posts, comments, pages and requests\<close>

record post =
  po_id :: int
  po_project :: string
  po_title :: string
  po_body :: string
  po_author :: string
  po_metadata :: string
  po_status :: string
  po_created :: time
  po_updated :: time
  po_deleted :: "time option"

record post_summary =
  ps_id :: int
  ps_project :: string
  ps_title :: string
  ps_author :: string
  ps_created :: time
  ps_updated :: time

record comment =
  co_id :: int
  co_post :: int
  co_parent :: "int option"
  co_author :: string
  co_body :: string
  co_metadata :: string
  co_status :: string
  co_created :: time
  co_updated :: time
  co_deleted :: "time option"

record search_result =
  re_kind :: string
  re_id :: int
  re_post :: int
  re_project :: string
  re_title :: string
  re_author :: string
  re_snippet :: string
  re_created :: time

record post_page =
  pp_posts :: "post_summary list"
  pp_next :: "int option"

record comment_page =
  cp_comments :: "comment list"
  cp_next :: "int option"

record search_page =
  sp_results :: "search_result list"
  sp_next :: "int option"

record comment_path =
  cpa_post :: "post option"
  cpa_comments :: "comment list"
  cpa_truncated :: bool

record list_posts_query =
  lq_project :: string
  lq_after :: int
  lq_limit :: int

record search_query =
  sq_project :: string
  sq_query :: string
  sq_after :: int
  sq_limit :: int

record list_comments_query =
  cq_post :: int
  cq_parent :: "int option"
  cq_after :: int
  cq_limit :: int

record create_post_request =
  cpr_title :: string
  cpr_body :: string
  cpr_author :: string
  cpr_metadata :: string
  cpr_key :: string

record create_comment_request =
  ccr_parent :: "int option"
  ccr_body :: string
  ccr_author :: string
  ccr_metadata :: string
  ccr_key :: string

record purge_request =
  pr_actor :: string
  pr_reason :: string

definition purge_request_validate :: "purge_request \<Rightarrow> go_err option" where
  "purge_request_validate r =
     (let reason = trim_space (pr_reason r)
      in if reason = [] then Some ErrMissingReason
         else if length reason > 2000 then Some (Errorf (''reason exceeds '' @ show_int 2000 @ '' characters''))
         else None)"

section \<open>Field checks\<close>

definition validateProjectID :: "limits \<Rightarrow> string \<Rightarrow> go_err option" where
  "validateProjectID l p = validateFieldSize ''project_id'' p (lm_MaxProjectIDBytes l)"

definition validatePostFields :: "limits \<Rightarrow> string \<Rightarrow> create_post_request \<Rightarrow> go_err option" where
  "validatePostFields l p req =
     first_error
       [validateProjectID l p,
        validateFieldSize ''title'' (trim_space (cpr_title req)) (lm_MaxTitleBytes l),
        validateFieldSize ''body_markdown'' (trim_space (cpr_body req)) (lm_MaxBodyBytes l),
        validateFieldSize ''author_identity'' (trim_space (cpr_author req)) (lm_MaxAuthorIdentityBytes l),
        validateFieldSize ''metadata'' (cpr_metadata req) (lm_MaxMetadataBytes l),
        validateFieldSize ''idempotency_key'' (trim_space (cpr_key req)) (lm_MaxIdempotencyKeyBytes l)]"

definition validateCommentFields :: "limits \<Rightarrow> create_comment_request \<Rightarrow> go_err option" where
  "validateCommentFields l req =
     first_error
       [validateFieldSize ''body_markdown'' (trim_space (ccr_body req)) (lm_MaxBodyBytes l),
        validateFieldSize ''author_identity'' (trim_space (ccr_author req)) (lm_MaxAuthorIdentityBytes l),
        validateFieldSize ''metadata'' (ccr_metadata req) (lm_MaxMetadataBytes l),
        validateFieldSize ''idempotency_key'' (trim_space (ccr_key req)) (lm_MaxIdempotencyKeyBytes l)]"

definition validateSearchQuery :: "limits \<Rightarrow> string \<Rightarrow> go_err option" where
  "validateSearchQuery l q = validateFieldSize ''q'' q (lm_MaxSearchQueryBytes l)"

definition validatePurgeRequest :: "limits \<Rightarrow> purge_request \<Rightarrow> go_err option" where
  "validatePurgeRequest l req =
     (let reason = trim_space (pr_reason req)
      in if reason = [] then Some ErrMissingReason
         else validateFieldSize ''reason'' reason (lm_MaxPurgeReasonBytes l))"

definition validateID :: "int \<Rightarrow> go_err option" where
  "validateID i = (if i \<le> 0 then Some ErrInvalidID else None)"

definition validateAfterID :: "int \<Rightarrow> go_err option" where
  "validateAfterID i = (if i < 0 then Some ErrInvalidAfterID else None)"

section \<open>The purge context\<close>

text \<open>
  The values a request's context carries: the adapter identity the server bound after
  authentication, and the audit record the service binds for the store.
\<close>

record purge_audit =
  pa_adapter :: string
  pa_reason :: string

record board_ctx =
  bc_adapter :: "string option"
  bc_audit :: "purge_audit option"

definition WithAuthenticatedAdapterIdentity :: "board_ctx \<Rightarrow> string \<Rightarrow> board_ctx" where
  "WithAuthenticatedAdapterIdentity ctx identity = ctx\<lparr>bc_adapter := Some (trim_space identity)\<rparr>"

definition authenticatedAdapterIdentity :: "board_ctx \<Rightarrow> string \<times> bool" where
  "authenticatedAdapterIdentity ctx =
     (let identity = trim_space (case bc_adapter ctx of None \<Rightarrow> [] | Some s \<Rightarrow> s)
      in (identity, bc_adapter ctx \<noteq> None \<and> identity \<noteq> []))"

definition withPurgeAudit :: "board_ctx \<Rightarrow> purge_audit \<Rightarrow> board_ctx" where
  "withPurgeAudit ctx a =
     ctx\<lparr>bc_audit := Some \<lparr>pa_adapter = trim_space (pa_adapter a), pa_reason = trim_space (pa_reason a)\<rparr>\<rparr>"

definition purgeAuditFromContext :: "board_ctx \<Rightarrow> purge_audit \<times> bool" where
  "purgeAuditFromContext ctx =
     (let a = (case bc_audit ctx of None \<Rightarrow> \<lparr>pa_adapter = [], pa_reason = []\<rparr> | Some a \<Rightarrow> a);
          a' = a\<lparr>pa_adapter := trim_space (pa_adapter a)\<rparr>
      in (a', bc_audit ctx \<noteq> None \<and> pa_adapter a' \<noteq> []))"

definition requirePurgeAudit :: "board_ctx \<Rightarrow> go_err option" where
  "requirePurgeAudit ctx =
     (if \<not> snd (purgeAuditFromContext ctx)
      then Some (board_forbidden ErrMissingAdapterIdentity ''purge_adapter_identity_required'')
      else None)"

section \<open>Constructors\<close>

definition normalizeMetadata :: "string \<Rightarrow> go_err + string" where
  "normalizeMetadata raw =
     (if raw = [] \<or> raw = ''null'' then Inr []
      else if \<not> json_valid raw then Inl ErrInvalidMetadata
      else Inr raw)"

text \<open>
  The format verb \<open>%q\<close>; the bytes of characters outside ASCII are copied.
\<close>

definition go_quote :: "string \<Rightarrow> string" where
  "go_quote s =
     CHR 0x22 # concat (map (\<lambda>c.
        if c = CHR 0x22 \<or> c = CHR 0x5C then [CHR 0x5C, c]
        else if c = CHR 0x0A then [CHR 0x5C, CHR ''n'']
        else if c = CHR 0x0D then [CHR 0x5C, CHR ''r'']
        else if c = CHR 0x09 then [CHR 0x5C, CHR ''t'']
        else [c]) s) @ [CHR 0x22]"

text \<open>\<open>wall\<close> is what \<open>time.Now\<close> returns; it is used only for a missing creation time.\<close>

definition NewPost :: "time \<Rightarrow> post \<Rightarrow> go_err + post" where
  "NewPost wall params =
     (let projectID = trim_space (po_project params); title = trim_space (po_title params);
          body = trim_space (po_body params); author = trim_space (po_author params)
      in if projectID = [] then Inl ErrMissingProjectID
         else if title = [] then Inl ErrMissingTitle
         else if body = [] then Inl ErrMissingBody
         else if author = [] then Inl ErrMissingAuthor
         else case normalizeMetadata (po_metadata params) of
                Inl e \<Rightarrow> Inl e
              | Inr metadata \<Rightarrow>
                  (let createdAt = (if is_zero_time (po_created params) then wall else po_created params);
                       updatedAt = (if is_zero_time (po_updated params) then createdAt else po_updated params);
                       status0 = trim_space (po_status params);
                       status = (if status0 = [] then PostStatusActive else status0)
                   in if status \<noteq> PostStatusActive
                      then Inl (Errorf (''invalid new post status '' @ go_quote status))
                      else Inr \<lparr>po_id = po_id params, po_project = projectID, po_title = title, po_body = body,
                                po_author = author, po_metadata = metadata, po_status = status,
                                po_created = createdAt, po_updated = updatedAt, po_deleted = None\<rparr>))"

definition NewComment :: "time \<Rightarrow> comment \<Rightarrow> go_err + comment" where
  "NewComment wall params =
     (let body = trim_space (co_body params); author = trim_space (co_author params)
      in if co_post params \<le> 0 then Inl ErrInvalidID
         else if body = [] then Inl ErrMissingBody
         else if author = [] then Inl ErrMissingAuthor
         else case normalizeMetadata (co_metadata params) of
                Inl e \<Rightarrow> Inl e
              | Inr metadata \<Rightarrow>
                  (let createdAt = (if is_zero_time (co_created params) then wall else co_created params);
                       updatedAt = (if is_zero_time (co_updated params) then createdAt else co_updated params);
                       status0 = trim_space (co_status params);
                       status = (if status0 = [] then CommentStatusActive else status0)
                   in if status \<noteq> CommentStatusActive
                      then Inl (Errorf (''invalid new comment status '' @ go_quote status))
                      else Inr \<lparr>co_id = co_id params, co_post = co_post params, co_parent = co_parent params,
                                co_author = author, co_body = body, co_metadata = metadata,
                                co_status = status, co_created = createdAt, co_updated = updatedAt,
                                co_deleted = None\<rparr>))"

section \<open>Pages\<close>

text \<open>
  \<open>store.go\<close>: a store reads one entry more than the limit; the entry past the limit only says
  that there is a next page, whose cursor is the last entry kept.
\<close>

definition postPage :: "post_summary list \<Rightarrow> int \<Rightarrow> post_page" where
  "postPage posts limit =
     (if int (length posts) \<le> limit then \<lparr>pp_posts = posts, pp_next = None\<rparr>
      else \<lparr>pp_posts = take (nat limit) posts, pp_next = Some (ps_id (posts ! nat (limit - 1)))\<rparr>)"

definition commentPage :: "comment list \<Rightarrow> int \<Rightarrow> comment_page" where
  "commentPage comments limit =
     (if int (length comments) \<le> limit then \<lparr>cp_comments = comments, cp_next = None\<rparr>
      else \<lparr>cp_comments = take (nat limit) comments, cp_next = Some (co_id (comments ! nat (limit - 1)))\<rparr>)"

definition searchCursor :: "search_result \<Rightarrow> int" where
  "searchCursor r = (if re_kind r = SearchResultComment then re_id r * 2 + 1 else re_id r * 2)"

definition searchPage :: "search_result list \<Rightarrow> int \<Rightarrow> search_page" where
  "searchPage results limit =
     (if int (length results) \<le> limit then \<lparr>sp_results = results, sp_next = None\<rparr>
      else \<lparr>sp_results = take (nat limit) results, sp_next = Some (searchCursor (results ! nat (limit - 1)))\<rparr>)"

section \<open>Basic facts\<close>

lemma first_error_None: "first_error es = None \<longleftrightarrow> (\<forall>e\<in>set es. e = None)"
  by (induction es rule: first_error.induct) auto

lemma normalizeMetadata_Inr: "normalizeMetadata raw = Inr m \<Longrightarrow> m = [] \<or> m = raw \<and> json_valid m"
  by (auto simp: normalizeMetadata_def split: if_splits)

lemma if_Inl_Inr: "(if b then Inl e else r) = Inr x \<longleftrightarrow> \<not> b \<and> r = Inr x"
  by simp

lemma sum_case_Inr: "(case r of Inl e \<Rightarrow> Inl e | Inr y \<Rightarrow> f y) = Inr x \<longleftrightarrow> (\<exists>y. r = Inr y \<and> f y = Inr x)"
  by (cases r) auto

lemma NewPost_Inr:
  assumes "NewPost wall p = Inr x"
  shows "po_id x = po_id p \<and> po_status x = ''active'' \<and> po_deleted x = None \<and> po_project x = trim_space (po_project p) \<and>
     po_project x \<noteq> [] \<and> po_title x = trim_space (po_title p) \<and> po_title x \<noteq> [] \<and>
     po_body x = trim_space (po_body p) \<and> po_body x \<noteq> [] \<and>
     po_author x = trim_space (po_author p) \<and> po_author x \<noteq> [] \<and>
     (po_metadata x = [] \<or> po_metadata x = po_metadata p \<and> json_valid (po_metadata x))"
proof -
  from assms obtain m where "normalizeMetadata (po_metadata p) = Inr m" and
    "trim_space (po_project p) \<noteq> []" "trim_space (po_title p) \<noteq> []" "trim_space (po_body p) \<noteq> []"
    "trim_space (po_author p) \<noteq> []" and
    "po_id x = po_id p" "po_project x = trim_space (po_project p)" "po_title x = trim_space (po_title p)"
    "po_body x = trim_space (po_body p)" "po_author x = trim_space (po_author p)" "po_metadata x = m"
    "po_status x = ''active''" "po_deleted x = None"
    unfolding NewPost_def Let_def if_Inl_Inr sum_case_Inr by (elim conjE exE) (simp only: sum.inject, force)
  then show ?thesis using normalizeMetadata_Inr by metis
qed

lemma NewComment_Inr:
  assumes "NewComment wall c = Inr x"
  shows "co_id x = co_id c \<and> co_status x = ''active'' \<and> co_deleted x = None \<and> co_post x = co_post c \<and> 0 < co_post x \<and>
     co_parent x = co_parent c \<and> co_body x = trim_space (co_body c) \<and> co_body x \<noteq> [] \<and>
     co_author x = trim_space (co_author c) \<and> co_author x \<noteq> [] \<and>
     (co_metadata x = [] \<or> co_metadata x = co_metadata c \<and> json_valid (co_metadata x))"
proof -
  from assms obtain m where "normalizeMetadata (co_metadata c) = Inr m" and
    "0 < co_post c" "trim_space (co_body c) \<noteq> []" "trim_space (co_author c) \<noteq> []" and
    "co_id x = co_id c" "co_post x = co_post c" "co_parent x = co_parent c"
    "co_body x = trim_space (co_body c)" "co_author x = trim_space (co_author c)" "co_metadata x = m"
    "co_status x = ''active''" "co_deleted x = None"
    unfolding NewComment_def Let_def if_Inl_Inr sum_case_Inr by (elim conjE exE) (simp only: sum.inject, force)
  then show ?thesis using normalizeMetadata_Inr by metis
qed

lemma requirePurgeAudit_bound:
  "authenticatedAdapterIdentity ctx = (i, True) \<Longrightarrow>
     requirePurgeAudit (withPurgeAudit ctx' \<lparr>pa_adapter = i, pa_reason = r\<rparr>) = None"
  by (auto simp: authenticatedAdapterIdentity_def requirePurgeAudit_def purgeAuditFromContext_def withPurgeAudit_def Let_def)

end
