(* ===== verification/Board_Service.thy ===== *)
theory Board_Service
  imports Board_Types
begin

text \<open>
  Package \<open>board\<close>, the service (\<open>service.go\<close>) over the interfaces \<open>BoardStore\<close>,
  \<open>IdempotentWriteStore\<close> and \<open>ProjectValidator\<close>, records of functions on a world \<open>'w\<close>, and the
  client of the project service (\<open>scope.go\<close>). Listing comments walks the tree of replies, a loop
  that need not end on any data: its result is an option, \<open>None\<close> for a call that does not return.
\<close>

section \<open>Interfaces\<close>

type_synonym ('w, 'a) board_action = "'w \<Rightarrow> (go_err + 'a) \<times> 'w"

record 'w idempotent_write_store =
  iw_CreatePostIdempotent :: "post \<Rightarrow> string \<Rightarrow> ('w, post option) board_action"
  iw_CreateCommentIdempotent :: "comment \<Rightarrow> string \<Rightarrow> ('w, comment option) board_action"

record 'w board_store =
  bo_Ping :: "('w, unit) board_action"
  bo_CreatePost :: "post \<Rightarrow> ('w, post) board_action"
  bo_GetPost :: "int \<Rightarrow> ('w, post option) board_action"
  bo_ListPosts :: "list_posts_query \<Rightarrow> ('w, post_page) board_action"
  bo_Search :: "search_query \<Rightarrow> ('w, search_page) board_action"
  bo_CreateComment :: "comment \<Rightarrow> ('w, comment) board_action"
  bo_GetComment :: "int \<Rightarrow> ('w, comment option) board_action"
  bo_ListComments :: "list_comments_query \<Rightarrow> 'w \<Rightarrow> ((go_err + comment_page) \<times> 'w) option"
  bo_GetCommentPath :: "int \<Rightarrow> int \<Rightarrow> ('w, comment_path) board_action"
  bo_PurgePost :: "board_ctx \<Rightarrow> int \<Rightarrow> time \<Rightarrow> 'w \<Rightarrow> go_err option \<times> 'w"
  bo_PurgeComment :: "board_ctx \<Rightarrow> int \<Rightarrow> time \<Rightarrow> 'w \<Rightarrow> go_err option \<times> 'w"
  bo_idempotent :: "'w idempotent_write_store option"

record 'w board_service =
  bv_store :: "'w board_store"
  bv_AssertWritable :: "string \<Rightarrow> 'w \<Rightarrow> go_err option \<times> 'w"
  bv_clock :: "'w \<Rightarrow> time"
  bv_wall :: "'w \<Rightarrow> time"
  bv_limits :: limits

definition NoopAssertWritable :: "string \<Rightarrow> 'w \<Rightarrow> go_err option \<times> 'w" where
  "NoopAssertWritable p w = (None, w)"

text \<open>A missing validator or clock is \<open>None\<close>; \<open>wall\<close> is \<open>time.Now\<close>.\<close>

definition NewServiceWithLimits ::
    "'w board_store \<Rightarrow> (string \<Rightarrow> 'w \<Rightarrow> go_err option \<times> 'w) option \<Rightarrow> ('w \<Rightarrow> time) option \<Rightarrow> ('w \<Rightarrow> time) \<Rightarrow>
     limits \<Rightarrow> 'w board_service" where
  "NewServiceWithLimits store projects clock wall l =
     \<lparr>bv_store = store,
      bv_AssertWritable = (case projects of None \<Rightarrow> NoopAssertWritable | Some p \<Rightarrow> p),
      bv_clock = (case clock of None \<Rightarrow> wall | Some c \<Rightarrow> c), bv_wall = wall,
      bv_limits = withDefaults l\<rparr>"

definition NewService ::
    "'w board_store \<Rightarrow> (string \<Rightarrow> 'w \<Rightarrow> go_err option \<times> 'w) option \<Rightarrow> ('w \<Rightarrow> time) option \<Rightarrow> ('w \<Rightarrow> time) \<Rightarrow>
     'w board_service" where
  "NewService store projects clock wall = NewServiceWithLimits store projects clock wall DefaultLimits"

section \<open>Limits of a page\<close>

definition pageLimit :: "'w board_service \<Rightarrow> int \<Rightarrow> go_err + int" where
  "pageLimit s limit =
     (if limit < 0 then Inl ErrInvalidLimit
      else if limit = 0 then Inr (lm_DefaultPageSize (bv_limits s))
      else if limit > lm_MaxPageSize (bv_limits s) then Inr (lm_MaxPageSize (bv_limits s))
      else Inr limit)"

definition pathLimit :: "'w board_service \<Rightarrow> int \<Rightarrow> go_err + int" where
  "pathLimit s limit =
     (if limit < 0 then Inl ErrInvalidPathLimit
      else if limit = 0 then Inr (lm_MaxPathComments (bv_limits s))
      else if limit > lm_MaxPathComments (bv_limits s) then Inr (lm_MaxPathComments (bv_limits s))
      else Inr limit)"

definition post_active :: "post option \<Rightarrow> bool" where
  "post_active p = (case p of None \<Rightarrow> False | Some x \<Rightarrow> po_status x = PostStatusActive)"

definition comment_active :: "comment option \<Rightarrow> bool" where
  "comment_active c = (case c of None \<Rightarrow> False | Some x \<Rightarrow> co_status x = CommentStatusActive)"

section \<open>Posts\<close>

definition bs_CheckStore :: "'w board_service \<Rightarrow> ('w, unit) board_action" where
  "bs_CheckStore s w = bo_Ping (bv_store s) w"

definition bs_CreatePost :: "'w board_service \<Rightarrow> string \<Rightarrow> create_post_request \<Rightarrow> ('w, post option) board_action" where
  "bs_CreatePost s project0 req w =
     (let projectID = trim_space project0
      in if projectID = [] then (Inl (validationFailed ErrMissingProjectID), w)
         else case validatePostFields (bv_limits s) projectID req of
                Some e \<Rightarrow> (Inl (validationFailed e), w)
              | None \<Rightarrow>
                  (case bv_AssertWritable s projectID w of
                     (Some e, w1) \<Rightarrow> (Inl e, w1)
                   | (None, w1) \<Rightarrow>
                       (let now = bv_clock s w1
                        in case NewPost (bv_wall s w1)
                                  \<lparr>po_id = 0, po_project = projectID, po_title = cpr_title req, po_body = cpr_body req,
                                   po_author = cpr_author req, po_metadata = cpr_metadata req,
                                   po_status = PostStatusActive, po_created = now, po_updated = now,
                                   po_deleted = None\<rparr> of
                             Inl e \<Rightarrow> (Inl (validationFailed e), w1)
                           | Inr post \<Rightarrow>
                               (let key = trim_space (cpr_key req)
                                in case (key = [], bo_idempotent (bv_store s)) of
                                     (False, Some st) \<Rightarrow> iw_CreatePostIdempotent st post key w1
                                   | _ \<Rightarrow> (case bo_CreatePost (bv_store s) post w1 of
                                            (Inl e, w2) \<Rightarrow> (Inl e, w2)
                                          | (Inr p, w2) \<Rightarrow> (Inr (Some p), w2))))))"

definition bs_ListPosts :: "'w board_service \<Rightarrow> string \<Rightarrow> list_posts_query \<Rightarrow> ('w, post_page) board_action" where
  "bs_ListPosts s project0 q w =
     (let projectID = trim_space project0
      in if projectID = [] then (Inl (validationFailed ErrMissingProjectID), w)
         else case validateProjectID (bv_limits s) projectID of
                Some e \<Rightarrow> (Inl (validationFailed e), w)
              | None \<Rightarrow>
                  (case validateAfterID (lq_after q) of
                     Some e \<Rightarrow> (Inl (validationFailed e), w)
                   | None \<Rightarrow>
                       (case pageLimit s (lq_limit q) of
                          Inl e \<Rightarrow> (Inl (validationFailed e), w)
                        | Inr limit \<Rightarrow> bo_ListPosts (bv_store s) (q\<lparr>lq_project := projectID, lq_limit := limit\<rparr>) w)))"

definition bs_Search :: "'w board_service \<Rightarrow> string \<Rightarrow> search_query \<Rightarrow> ('w, search_page) board_action" where
  "bs_Search s project0 q0 w =
     (let projectID = trim_space project0; q = q0\<lparr>sq_query := trim_space (sq_query q0)\<rparr>
      in if projectID = [] then (Inl (validationFailed ErrMissingProjectID), w)
         else if sq_query q = [] then (Inl (validationFailed ErrInvalidSearchQuery), w)
         else case first_error [validateProjectID (bv_limits s) projectID,
                                validateSearchQuery (bv_limits s) (sq_query q),
                                validateAfterID (sq_after q)] of
                Some e \<Rightarrow> (Inl (validationFailed e), w)
              | None \<Rightarrow>
                  (case pageLimit s (sq_limit q) of
                     Inl e \<Rightarrow> (Inl (validationFailed e), w)
                   | Inr limit \<Rightarrow> bo_Search (bv_store s) (q\<lparr>sq_project := projectID, sq_limit := limit\<rparr>) w))"

definition bs_GetPost :: "'w board_service \<Rightarrow> int \<Rightarrow> ('w, post) board_action" where
  "bs_GetPost s i w =
     (case validateID i of
        Some e \<Rightarrow> (Inl (validationFailed e), w)
      | None \<Rightarrow>
          (case bo_GetPost (bv_store s) i w of
             (Inl e, w1) \<Rightarrow> (Inl e, w1)
           | (Inr None, w1) \<Rightarrow> (Inl postNotFound, w1)
           | (Inr (Some p), w1) \<Rightarrow> if po_status p \<noteq> PostStatusActive then (Inl postNotFound, w1) else (Inr p, w1)))"

section \<open>Comments\<close>

text \<open>The check of the parent of a new comment; \<open>None\<close> when it may be used.\<close>

definition check_parent :: "'w board_service \<Rightarrow> int \<Rightarrow> int option \<Rightarrow> 'w \<Rightarrow> go_err option \<times> 'w" where
  "check_parent s postID parent w =
     (case parent of
        None \<Rightarrow> (None, w)
      | Some pid \<Rightarrow>
          (case validateID pid of
             Some e \<Rightarrow> (Some (validationFailed e), w)
           | None \<Rightarrow>
               (case bo_GetComment (bv_store s) pid w of
                  (Inl e, w1) \<Rightarrow> (Some e, w1)
                | (Inr None, w1) \<Rightarrow> (Some commentNotFound, w1)
                | (Inr (Some c), w1) \<Rightarrow>
                    if co_status c \<noteq> CommentStatusActive then (Some commentNotFound, w1)
                    else if co_post c \<noteq> postID then (Some (validationFailed ErrParentPostMismatch), w1)
                    else (None, w1))))"

definition bs_CreateComment :: "'w board_service \<Rightarrow> int \<Rightarrow> create_comment_request \<Rightarrow> ('w, comment option) board_action" where
  "bs_CreateComment s postID req w =
     (case validateID postID of
        Some e \<Rightarrow> (Inl (validationFailed e), w)
      | None \<Rightarrow>
     (case validateCommentFields (bv_limits s) req of
        Some e \<Rightarrow> (Inl (validationFailed e), w)
      | None \<Rightarrow>
     (case bo_GetPost (bv_store s) postID w of
        (Inl e, w1) \<Rightarrow> (Inl e, w1)
      | (Inr None, w1) \<Rightarrow> (Inl postNotFound, w1)
      | (Inr (Some p), w1) \<Rightarrow>
          if po_status p \<noteq> PostStatusActive then (Inl postNotFound, w1)
          else (case bv_AssertWritable s (po_project p) w1 of
                  (Some e, w2) \<Rightarrow> (Inl e, w2)
                | (None, w2) \<Rightarrow>
          (case check_parent s postID (ccr_parent req) w2 of
             (Some e, w3) \<Rightarrow> (Inl e, w3)
           | (None, w3) \<Rightarrow>
               (let now = bv_clock s w3
                in case NewComment (bv_wall s w3)
                          \<lparr>co_id = 0, co_post = postID, co_parent = ccr_parent req, co_author = ccr_author req,
                           co_body = ccr_body req, co_metadata = ccr_metadata req,
                           co_status = CommentStatusActive, co_created = now, co_updated = now,
                           co_deleted = None\<rparr> of
                     Inl e \<Rightarrow> (Inl (validationFailed e), w3)
                   | Inr comment \<Rightarrow>
                       (let key = trim_space (ccr_key req)
                        in case (key = [], bo_idempotent (bv_store s)) of
                             (False, Some st) \<Rightarrow> iw_CreateCommentIdempotent st comment key w3
                           | _ \<Rightarrow> (case bo_CreateComment (bv_store s) comment w3 of
                                    (Inl e, w4) \<Rightarrow> (Inl e, w4)
                                  | (Inr c, w4) \<Rightarrow> (Inr (Some c), w4)))))))))"

text \<open>
  Listing the replies to a comment also works for a deleted parent, so that the replies under it
  stay reachable.
\<close>

definition check_list_parent :: "'w board_service \<Rightarrow> int \<Rightarrow> int option \<Rightarrow> 'w \<Rightarrow> go_err option \<times> 'w" where
  "check_list_parent s postID parent w =
     (case parent of
        None \<Rightarrow> (None, w)
      | Some pid \<Rightarrow>
          (case validateID pid of
             Some e \<Rightarrow> (Some (validationFailed e), w)
           | None \<Rightarrow>
               (case bo_GetComment (bv_store s) pid w of
                  (Inl e, w1) \<Rightarrow> (Some e, w1)
                | (Inr None, w1) \<Rightarrow> (Some commentNotFound, w1)
                | (Inr (Some c), w1) \<Rightarrow>
                    if co_post c \<noteq> postID then (Some (validationFailed ErrParentPostMismatch), w1) else (None, w1))))"

definition bs_ListComments ::
    "'w board_service \<Rightarrow> int \<Rightarrow> list_comments_query \<Rightarrow> 'w \<Rightarrow> ((go_err + comment_page) \<times> 'w) option" where
  "bs_ListComments s postID q w =
     (case validateID postID of
        Some e \<Rightarrow> Some (Inl (validationFailed e), w)
      | None \<Rightarrow>
     (case bo_GetPost (bv_store s) postID w of
        (Inl e, w1) \<Rightarrow> Some (Inl e, w1)
      | (Inr None, w1) \<Rightarrow> Some (Inl postNotFound, w1)
      | (Inr (Some p), w1) \<Rightarrow>
          if po_status p \<noteq> PostStatusActive then Some (Inl postNotFound, w1)
          else (case validateAfterID (cq_after q) of
                  Some e \<Rightarrow> Some (Inl (validationFailed e), w1)
                | None \<Rightarrow>
          (case check_list_parent s postID (cq_parent q) w1 of
             (Some e, w2) \<Rightarrow> Some (Inl e, w2)
           | (None, w2) \<Rightarrow>
               (case pageLimit s (cq_limit q) of
                  Inl e \<Rightarrow> Some (Inl (validationFailed e), w2)
                | Inr limit \<Rightarrow> bo_ListComments (bv_store s) (q\<lparr>cq_post := postID, cq_limit := limit\<rparr>) w2)))))"

definition bs_GetComment :: "'w board_service \<Rightarrow> int \<Rightarrow> ('w, comment) board_action" where
  "bs_GetComment s i w =
     (case validateID i of
        Some e \<Rightarrow> (Inl (validationFailed e), w)
      | None \<Rightarrow>
     (case bo_GetComment (bv_store s) i w of
        (Inl e, w1) \<Rightarrow> (Inl e, w1)
      | (Inr None, w1) \<Rightarrow> (Inl commentNotFound, w1)
      | (Inr (Some c), w1) \<Rightarrow>
          if co_status c \<noteq> CommentStatusActive then (Inl commentNotFound, w1)
          else (case bo_GetPost (bv_store s) (co_post c) w1 of
                  (Inl e, w2) \<Rightarrow> (Inl e, w2)
                | (Inr p, w2) \<Rightarrow> if \<not> post_active p then (Inl commentNotFound, w2) else (Inr c, w2))))"

definition redact_deleted :: "comment \<Rightarrow> comment" where
  "redact_deleted c =
     (if co_status c = CommentStatusDeleted
      then c\<lparr>co_author := [], co_body := [], co_metadata := [], co_deleted := None\<rparr> else c)"

definition bs_GetCommentPath :: "'w board_service \<Rightarrow> int \<Rightarrow> int \<Rightarrow> ('w, comment_path) board_action" where
  "bs_GetCommentPath s i limit w =
     (case validateID i of
        Some e \<Rightarrow> (Inl (validationFailed e), w)
      | None \<Rightarrow>
     (case pathLimit s limit of
        Inl e \<Rightarrow> (Inl (validationFailed e), w)
      | Inr n \<Rightarrow>
     (case bo_GetCommentPath (bv_store s) i n w of
        (Inl e, w1) \<Rightarrow> (Inl e, w1)
      | (Inr path, w1) \<Rightarrow>
          if \<not> post_active (cpa_post path) then (Inl commentNotFound, w1)
          else if cpa_comments path = [] \<or> co_id (last (cpa_comments path)) \<noteq> i then (Inl commentNotFound, w1)
          else if co_status (last (cpa_comments path)) \<noteq> CommentStatusActive then (Inl commentNotFound, w1)
          else (Inr (path\<lparr>cpa_comments := map redact_deleted (cpa_comments path)\<rparr>), w1))))"

section \<open>Purges\<close>

definition preparePurgeContext :: "'w board_service \<Rightarrow> board_ctx \<Rightarrow> purge_request \<Rightarrow> go_err + board_ctx" where
  "preparePurgeContext s ctx req =
     (let (identity, ok) = authenticatedAdapterIdentity ctx
      in if \<not> ok then Inl (board_forbidden ErrMissingAdapterIdentity ''purge_adapter_identity_required'')
         else case validatePurgeRequest (bv_limits s) req of
                Some e \<Rightarrow> Inl (validationFailed e)
              | None \<Rightarrow> Inr (withPurgeAudit ctx \<lparr>pa_adapter = identity, pa_reason = trim_space (pr_reason req)\<rparr>))"

definition bs_PurgePost :: "'w board_service \<Rightarrow> board_ctx \<Rightarrow> int \<Rightarrow> purge_request \<Rightarrow> 'w \<Rightarrow> go_err option \<times> 'w" where
  "bs_PurgePost s ctx i req w =
     (case validateID i of
        Some e \<Rightarrow> (Some (validationFailed e), w)
      | None \<Rightarrow>
     (case preparePurgeContext s ctx req of
        Inl e \<Rightarrow> (Some e, w)
      | Inr ctx' \<Rightarrow>
     (case bo_GetPost (bv_store s) i w of
        (Inl e, w1) \<Rightarrow> (Some e, w1)
      | (Inr None, w1) \<Rightarrow> (Some postNotFound, w1)
      | (Inr (Some p), w1) \<Rightarrow>
          if po_status p \<noteq> PostStatusActive then (Some postNotFound, w1)
          else (case bv_AssertWritable s (po_project p) w1 of
                  (Some e, w2) \<Rightarrow> (Some e, w2)
                | (None, w2) \<Rightarrow> bo_PurgePost (bv_store s) ctx' i (bv_clock s w2) w2))))"

definition bs_PurgeComment :: "'w board_service \<Rightarrow> board_ctx \<Rightarrow> int \<Rightarrow> purge_request \<Rightarrow> 'w \<Rightarrow> go_err option \<times> 'w" where
  "bs_PurgeComment s ctx i req w =
     (case validateID i of
        Some e \<Rightarrow> (Some (validationFailed e), w)
      | None \<Rightarrow>
     (case preparePurgeContext s ctx req of
        Inl e \<Rightarrow> (Some e, w)
      | Inr ctx' \<Rightarrow>
     (case bo_GetComment (bv_store s) i w of
        (Inl e, w1) \<Rightarrow> (Some e, w1)
      | (Inr None, w1) \<Rightarrow> (Some commentNotFound, w1)
      | (Inr (Some c), w1) \<Rightarrow>
          if co_status c \<noteq> CommentStatusActive then (Some commentNotFound, w1)
          else (case bo_GetPost (bv_store s) (co_post c) w1 of
                  (Inl e, w2) \<Rightarrow> (Some e, w2)
                | (Inr None, w2) \<Rightarrow> (Some commentNotFound, w2)
                | (Inr (Some p), w2) \<Rightarrow>
                    if po_status p \<noteq> PostStatusActive then (Some commentNotFound, w2)
                    else (case bv_AssertWritable s (po_project p) w2 of
                            (Some e, w3) \<Rightarrow> (Some e, w3)
                          | (None, w3) \<Rightarrow> bo_PurgeComment (bv_store s) ctx' i (bv_clock s w3) w3)))))"

section \<open>The client of the project service\<close>

text \<open>
  \<open>ProjectScopeClient.AssertWritable\<close> (\<open>scope.go\<close>). The HTTP transport is a parameter: the answer to
  the request for a project, a status with its text and the message of the decoded error envelope,
  or the error of the request.
\<close>

record scope_reply =
  sr_code :: int
  sr_text :: string
  sr_message :: string

definition projectErrorMessage :: "scope_reply \<Rightarrow> string" where
  "projectErrorMessage resp =
     (if trim_space (sr_message resp) \<noteq> [] then trim_space (sr_message resp) else sr_text resp)"

definition ProjectScopeClient_baseURL :: "string \<Rightarrow> string" where
  "ProjectScopeClient_baseURL baseURL = trim_right_char (CHR ''/'') (trim_space baseURL)"

definition ProjectScopeClient_AssertWritable ::
    "(string \<Rightarrow> 'w \<Rightarrow> (go_err + scope_reply) \<times> 'w) \<Rightarrow> string \<Rightarrow> string \<Rightarrow> 'w \<Rightarrow> go_err option \<times> 'w" where
  "ProjectScopeClient_AssertWritable transport baseURL projectID w =
     (if baseURL = []
      then (Some (ServiceErr ErrProjectValidatorUnset ''project_scope_client_unconfigured'' 500), w)
      else case transport projectID w of
             (Inl e, w1) \<Rightarrow> (Some (Wrapped ''asserting project scope writable: '' e []), w1)
           | (Inr resp, w1) \<Rightarrow>
               if sr_code resp \<ge> 200 \<and> sr_code resp < 300 then (None, w1)
               else let message = projectErrorMessage resp
                    in if sr_code resp = 409
                       then (Some (board_conflict (Errorf (''project scope is not writable: '' @ message))
                                    ''project_scope_not_writable''), w1)
                       else if sr_code resp = 404
                       then (Some (validationFailed (Errorf (''project scope not found: '' @ projectID))), w1)
                       else (Some (Errorf (''project scope writable check failed: '' @ message)), w1))"

end
