(* ===== verification/Board_Memory.thy ===== *)
theory Board_Memory
  imports Board_Service "HOL-Library.AList"
begin

text \<open>
  Package \<open>board\<close>, the in-memory store (\<open>memory_store.go\<close>). A Go map is an association list whose
  order stands for the order of iteration, which the results do not depend on; the locks make
  each method one step.
\<close>

section \<open>State\<close>

record memory_store =
  ms_next :: int
  ms_posts :: "(int \<times> post) list"
  ms_comments :: "(int \<times> comment) list"
  ms_postKeys :: "(string \<times> int) list"
  ms_commentKeys :: "(string \<times> int) list"

definition NewMemoryStore :: memory_store where
  "NewMemoryStore = \<lparr>ms_next = 1, ms_posts = [], ms_comments = [], ms_postKeys = [], ms_commentKeys = []\<rparr>"

definition allocateID :: "memory_store \<Rightarrow> int \<times> memory_store" where
  "allocateID s = (ms_next s, s\<lparr>ms_next := ms_next s + 1\<rparr>)"

definition mem_Ping :: "(memory_store, unit) board_action" where
  "mem_Ping s = (Inr (), s)"

section \<open>Posts\<close>

definition mem_CreatePost :: "post \<Rightarrow> (memory_store, post) board_action" where
  "mem_CreatePost p s =
     (let (i, s1) = allocateID s; p' = p\<lparr>po_id := i\<rparr>
      in (Inr p', s1\<lparr>ms_posts := AList.update i p' (ms_posts s1)\<rparr>))"

definition mem_CreatePostIdempotent :: "post \<Rightarrow> string \<Rightarrow> (memory_store, post option) board_action" where
  "mem_CreatePostIdempotent p key s =
     (case map_of (ms_postKeys s) key of
        Some i \<Rightarrow> (Inr (map_of (ms_posts s) i), s)
      | None \<Rightarrow>
          (let (i, s1) = allocateID s; p' = p\<lparr>po_id := i\<rparr>
           in (Inr (Some p'), s1\<lparr>ms_posts := AList.update i p' (ms_posts s1),
                                 ms_postKeys := AList.update key i (ms_postKeys s1)\<rparr>)))"

definition mem_GetPost :: "int \<Rightarrow> (memory_store, post option) board_action" where
  "mem_GetPost i s = (Inr (map_of (ms_posts s) i), s)"

definition post_summary_of :: "post \<Rightarrow> post_summary" where
  "post_summary_of p =
     \<lparr>ps_id = po_id p, ps_project = po_project p, ps_title = po_title p, ps_author = po_author p,
      ps_created = po_created p, ps_updated = po_updated p\<rparr>"

definition mem_ListPosts :: "list_posts_query \<Rightarrow> (memory_store, post_page) board_action" where
  "mem_ListPosts q s =
     (let posts = map post_summary_of
            (filter (\<lambda>p. po_project p = lq_project q \<and> po_status p = PostStatusActive \<and> po_id p > lq_after q)
               (map snd (ms_posts s)));
          sorted = sort_key ps_id posts;
          cut = (if int (length sorted) > lq_limit q + 1 then take (nat (lq_limit q + 1)) sorted else sorted)
      in (Inr (postPage cut (lq_limit q)), s))"

section \<open>Search\<close>

text \<open>\<open>strings.Fields\<close>: the maximal runs without a space.\<close>

function fields_from :: "string \<Rightarrow> string \<Rightarrow> string list" where
  "fields_from acc s =
     (case s of
        [] \<Rightarrow> if acc = [] then [] else [acc]
      | c # cs \<Rightarrow>
          (case find (\<lambda>r. r \<noteq> [] \<and> prefix r s) space_runes of
             Some r \<Rightarrow> (if acc = [] then [] else [acc]) @ fields_from [] (drop (length r) s)
           | None \<Rightarrow> fields_from (acc @ [c]) cs))"
  by pat_completeness auto
termination
  by (relation "measure (\<lambda>(acc, s). length s)") (auto simp: find_Some_iff)

declare fields_from.simps [simp del]

definition strings_Fields :: "string \<Rightarrow> string list" where
  "strings_Fields s = fields_from [] s"

fun strings_Contains :: "string \<Rightarrow> string \<Rightarrow> bool" where
  "strings_Contains [] t = (t = [])"
| "strings_Contains (c # cs) t = (prefix t (c # cs) \<or> strings_Contains cs t)"

definition containsAllTerms :: "string \<Rightarrow> string list \<Rightarrow> bool" where
  "containsAllTerms value terms =
     (list_all (strings_Contains (to_lower value)) terms \<and> length terms > 0)"

definition snippet :: "string \<Rightarrow> string" where
  "snippet v = (if length v \<le> 240 then v else take 240 v)"

definition post_result :: "post \<Rightarrow> search_result" where
  "post_result p =
     \<lparr>re_kind = SearchResultPost, re_id = po_id p, re_post = po_id p, re_project = po_project p,
      re_title = po_title p, re_author = po_author p, re_snippet = snippet (po_body p), re_created = po_created p\<rparr>"

definition comment_result :: "post \<Rightarrow> comment \<Rightarrow> search_result" where
  "comment_result p c =
     \<lparr>re_kind = SearchResultComment, re_id = co_id c, re_post = po_id p, re_project = po_project p,
      re_title = po_title p, re_author = co_author c, re_snippet = snippet (co_body c), re_created = co_created c\<rparr>"

definition mem_Search :: "search_query \<Rightarrow> (memory_store, search_page) board_action" where
  "mem_Search q s =
     (let terms = strings_Fields (to_lower (sq_query q));
          results = concat (map (\<lambda>p.
            if po_project p \<noteq> sq_project q \<or> po_status p \<noteq> PostStatusActive then []
            else filter (\<lambda>r. searchCursor r > sq_after q)
                   ((if containsAllTerms (po_title p @ '' '' @ po_body p) terms then [post_result p] else []) @
                    map (comment_result p)
                      (filter (\<lambda>c. co_post c = po_id p \<and> co_status c = CommentStatusActive \<and>
                                   containsAllTerms (co_body c) terms) (map snd (ms_comments s)))))
            (map snd (ms_posts s)));
          sorted = sort_key searchCursor results;
          cut = (if int (length sorted) > sq_limit q + 1 then take (nat (sq_limit q + 1)) sorted else sorted)
      in (Inr (searchPage cut (sq_limit q)), s))"

section \<open>Comments\<close>

text \<open>The checks of a new comment against the store, in both creation methods.\<close>

definition mem_check_comment :: "comment \<Rightarrow> memory_store \<Rightarrow> go_err option" where
  "mem_check_comment c s =
     (if \<not> post_active (map_of (ms_posts s) (co_post c)) then Some postNotFound
      else case co_parent c of
             None \<Rightarrow> None
           | Some pid \<Rightarrow>
               (case map_of (ms_comments s) pid of
                  None \<Rightarrow> Some commentNotFound
                | Some parent \<Rightarrow>
                    if co_status parent \<noteq> CommentStatusActive then Some commentNotFound
                    else if co_post parent \<noteq> co_post c then Some (validationFailed ErrParentPostMismatch)
                    else None))"

definition mem_CreateComment :: "comment \<Rightarrow> (memory_store, comment) board_action" where
  "mem_CreateComment c s =
     (case mem_check_comment c s of
        Some e \<Rightarrow> (Inl e, s)
      | None \<Rightarrow>
          (let (i, s1) = allocateID s; c' = c\<lparr>co_id := i\<rparr>
           in (Inr c', s1\<lparr>ms_comments := AList.update i c' (ms_comments s1)\<rparr>)))"

definition mem_CreateCommentIdempotent :: "comment \<Rightarrow> string \<Rightarrow> (memory_store, comment option) board_action" where
  "mem_CreateCommentIdempotent c key s =
     (case map_of (ms_commentKeys s) key of
        Some i \<Rightarrow> (Inr (map_of (ms_comments s) i), s)
      | None \<Rightarrow>
          (case mem_check_comment c s of
             Some e \<Rightarrow> (Inl e, s)
           | None \<Rightarrow>
               (let (i, s1) = allocateID s; c' = c\<lparr>co_id := i\<rparr>
                in (Inr (Some c'), s1\<lparr>ms_comments := AList.update i c' (ms_comments s1),
                                      ms_commentKeys := AList.update key i (ms_commentKeys s1)\<rparr>))))"

definition mem_GetComment :: "int \<Rightarrow> (memory_store, comment option) board_action" where
  "mem_GetComment i s = (Inr (map_of (ms_comments s) i), s)"

text \<open>
  The recursion of \<open>hasActiveDescendant\<close>: \<open>todo\<close> is the rest of the loop over the comments. On a
  cycle of parents it does not return.
\<close>

partial_function (option) descend :: "comment list \<Rightarrow> comment list \<Rightarrow> int \<Rightarrow> bool option" where
  "descend all todo parent =
     (case todo of
        [] \<Rightarrow> Some False
      | c # rest \<Rightarrow>
          if co_parent c \<noteq> Some parent then descend all rest parent
          else if co_status c = CommentStatusActive then Some True
          else Option.bind (descend all all (co_id c))
                 (\<lambda>b. if b then Some True else descend all rest parent))"

definition hasActiveDescendant :: "memory_store \<Rightarrow> int \<Rightarrow> bool option" where
  "hasActiveDescendant s parent =
     (let all = map snd (ms_comments s) in descend all all parent)"

definition sameParent :: "int option \<Rightarrow> int option \<Rightarrow> bool" where
  "sameParent l r =
     (if l = None \<or> r = None then l = None \<and> r = None else the l = the r)"

fun visible_comments :: "memory_store \<Rightarrow> list_comments_query \<Rightarrow> comment list \<Rightarrow> comment list option" where
  "visible_comments s q [] = Some []"
| "visible_comments s q (c # cs) =
     (if co_post c \<noteq> cq_post q \<or> co_id c \<le> cq_after q \<or> \<not> sameParent (co_parent c) (cq_parent q)
      then visible_comments s q cs
      else Option.bind (if co_status c = CommentStatusActive then Some True else hasActiveDescendant s (co_id c))
             (\<lambda>b. map_option (\<lambda>rest. if b then c # rest else rest) (visible_comments s q cs)))"

definition mem_ListComments ::
    "list_comments_query \<Rightarrow> memory_store \<Rightarrow> ((go_err + comment_page) \<times> memory_store) option" where
  "mem_ListComments q s =
     map_option (\<lambda>comments.
       let sorted = sort_key co_id comments;
           cut = (if int (length sorted) > cq_limit q + 1 then take (nat (cq_limit q + 1)) sorted else sorted)
       in (Inr (commentPage cut (cq_limit q)), s))
       (visible_comments s q (map snd (ms_comments s)))"

text \<open>
  The loop of \<open>GetCommentPath\<close>, with \<open>n\<close> the number of comments the limit still allows: the
  comments in the order they are met and the one the loop stopped before.
\<close>

fun path_loop :: "(int \<times> comment) list \<Rightarrow> nat \<Rightarrow> int list \<Rightarrow> comment option \<Rightarrow> go_err + (comment list \<times> comment option)" where
  "path_loop cs n seen None = Inr ([], None)"
| "path_loop cs 0 seen (Some c) = Inr ([], Some c)"
| "path_loop cs (Suc n) seen (Some c) =
     (if co_id c \<in> set seen then Inl ErrCommentCycle
      else case path_loop cs n (co_id c # seen)
                  (case co_parent c of None \<Rightarrow> None | Some p \<Rightarrow> map_of cs p) of
             Inl e \<Rightarrow> Inl e
           | Inr (met, rest) \<Rightarrow> Inr (c # met, rest))"

definition empty_path :: comment_path where
  "empty_path = \<lparr>cpa_post = None, cpa_comments = [], cpa_truncated = False\<rparr>"

definition mem_GetCommentPath :: "int \<Rightarrow> int \<Rightarrow> (memory_store, comment_path) board_action" where
  "mem_GetCommentPath i limit s =
     (case map_of (ms_comments s) i of
        None \<Rightarrow> (Inr empty_path, s)
      | Some target \<Rightarrow>
          (case path_loop (ms_comments s) (nat limit) [] (Some target) of
             Inl e \<Rightarrow> (Inl e, s)
           | Inr (met, stopped) \<Rightarrow>
               (Inr \<lparr>cpa_post = map_of (ms_posts s) (co_post target), cpa_comments = rev met,
                     cpa_truncated = (stopped \<noteq> None)\<rparr>, s)))"

section \<open>Purges\<close>

definition scrubPost :: "time \<Rightarrow> post \<Rightarrow> post" where
  "scrubPost now p =
     p\<lparr>po_title := [], po_body := [], po_author := [], po_metadata := [], po_status := PostStatusDeleted,
       po_updated := now, po_deleted := Some now\<rparr>"

definition scrubComment :: "time \<Rightarrow> comment \<Rightarrow> comment" where
  "scrubComment now c =
     c\<lparr>co_body := [], co_author := [], co_metadata := [], co_status := CommentStatusDeleted,
       co_updated := now, co_deleted := Some now\<rparr>"

definition mem_PurgePost :: "board_ctx \<Rightarrow> int \<Rightarrow> time \<Rightarrow> memory_store \<Rightarrow> go_err option \<times> memory_store" where
  "mem_PurgePost ctx i now s =
     (case requirePurgeAudit ctx of
        Some e \<Rightarrow> (Some e, s)
      | None \<Rightarrow>
          (case map_of (ms_posts s) i of
             None \<Rightarrow> (Some postNotFound, s)
           | Some p \<Rightarrow>
               if po_status p \<noteq> PostStatusActive then (Some postNotFound, s)
               else (None, s\<lparr>ms_posts := AList.update i (scrubPost now p) (ms_posts s),
                             ms_comments := map (\<lambda>(k, c). (k, if co_post c = i \<and> co_status c = CommentStatusActive
                                                              then scrubComment now c else c)) (ms_comments s)\<rparr>)))"

definition mem_PurgeComment :: "board_ctx \<Rightarrow> int \<Rightarrow> time \<Rightarrow> memory_store \<Rightarrow> go_err option \<times> memory_store" where
  "mem_PurgeComment ctx i now s =
     (case requirePurgeAudit ctx of
        Some e \<Rightarrow> (Some e, s)
      | None \<Rightarrow>
          (case map_of (ms_comments s) i of
             None \<Rightarrow> (Some commentNotFound, s)
           | Some c \<Rightarrow>
               if co_status c \<noteq> CommentStatusActive then (Some commentNotFound, s)
               else (None, s\<lparr>ms_comments := AList.update i (scrubComment now c) (ms_comments s)\<rparr>)))"

definition mem_board_store :: "memory_store board_store" where
  "mem_board_store =
     \<lparr>bo_Ping = mem_Ping, bo_CreatePost = mem_CreatePost, bo_GetPost = mem_GetPost,
      bo_ListPosts = mem_ListPosts, bo_Search = mem_Search, bo_CreateComment = mem_CreateComment,
      bo_GetComment = mem_GetComment, bo_ListComments = mem_ListComments,
      bo_GetCommentPath = mem_GetCommentPath, bo_PurgePost = mem_PurgePost,
      bo_PurgeComment = mem_PurgeComment,
      bo_idempotent = Some \<lparr>iw_CreatePostIdempotent = mem_CreatePostIdempotent,
                            iw_CreateCommentIdempotent = mem_CreateCommentIdempotent\<rparr>\<rparr>"

end
