(* ===== verification/Board_Laws.thy ===== *)
theory Board_Laws
  imports Board_Memory
begin

text \<open>
  The contract of a board store. Its abstract state is two maps, posts and comments by id;
  \<open>board_ok\<close> is the well-formedness both stores keep: replies point to older comments of the same
  post, an active comment has an active post, and what was purged holds no content. The locales
  state what each method of \<open>BoardStore\<close> and \<open>IdempotentWriteStore\<close> does to these maps.
\<close>

type_synonym posts = "int \<Rightarrow> post option"
type_synonym comments = "int \<Rightarrow> comment option"

section \<open>Well-formedness\<close>

definition scrubbed_post :: "post \<Rightarrow> bool" where
  "scrubbed_post p \<longleftrightarrow> po_title p = [] \<and> po_body p = [] \<and> po_author p = [] \<and> po_metadata p = [] \<and> po_deleted p \<noteq> None"

definition scrubbed_comment :: "comment \<Rightarrow> bool" where
  "scrubbed_comment c \<longleftrightarrow> co_body c = [] \<and> co_author c = [] \<and> co_metadata c = [] \<and> co_deleted c \<noteq> None"

definition post_ok :: "post \<Rightarrow> bool" where
  "post_ok p \<longleftrightarrow> (po_status p = ''active'' \<and> po_deleted p = None) \<or> (po_status p = ''deleted'' \<and> scrubbed_post p)"

definition comment_ok :: "comment \<Rightarrow> bool" where
  "comment_ok c \<longleftrightarrow>
     (co_status c = ''active'' \<and> co_deleted c = None) \<or> (co_status c = ''deleted'' \<and> scrubbed_comment c)"

definition board_ok :: "posts \<Rightarrow> comments \<Rightarrow> bool" where
  "board_ok P C \<longleftrightarrow>
     finite (dom P) \<and> finite (dom C) \<and>
     (\<forall>i p. P i = Some p \<longrightarrow> po_id p = i \<and> 0 < i \<and> post_ok p) \<and>
     (\<forall>i c. C i = Some c \<longrightarrow> co_id c = i \<and> 0 < i \<and> comment_ok c \<and>
        (\<exists>p. P (co_post c) = Some p \<and> (co_status c = ''active'' \<longrightarrow> po_status p = ''active'')) \<and>
        (\<forall>q. co_parent c = Some q \<longrightarrow> q < i \<and> (\<exists>d. C q = Some d \<and> co_post d = co_post c)))"

section \<open>What the reads show\<close>

text \<open>A comment has an active reply somewhere below it.\<close>

inductive active_below :: "comments \<Rightarrow> int \<Rightarrow> bool" for C :: comments where
  reply: "C j = Some c \<Longrightarrow> co_parent c = Some i \<Longrightarrow> co_status c = ''active'' \<Longrightarrow> active_below C i"
| below: "C j = Some c \<Longrightarrow> co_parent c = Some i \<Longrightarrow> active_below C j \<Longrightarrow> active_below C i"

inductive_cases active_belowE: "active_below C i"

definition listed_post :: "string \<Rightarrow> int \<Rightarrow> post \<Rightarrow> bool" where
  "listed_post project after p \<longleftrightarrow> po_project p = project \<and> po_status p = ''active'' \<and> after < po_id p"

definition listed_comment :: "comments \<Rightarrow> int \<Rightarrow> int option \<Rightarrow> int \<Rightarrow> comment \<Rightarrow> bool" where
  "listed_comment C postID parent after c \<longleftrightarrow>
     co_post c = postID \<and> co_parent c = parent \<and> after < co_id c \<and>
     (co_status c = ''active'' \<or> active_below C (co_id c))"

text \<open>The values of a finite map that satisfy \<open>Q\<close>, in the order of their keys.\<close>

definition entries :: "('v \<Rightarrow> bool) \<Rightarrow> (int \<Rightarrow> 'v option) \<Rightarrow> 'v list" where
  "entries Q M = map (\<lambda>i. the (M i)) (sorted_list_of_set {i. \<exists>v. M i = Some v \<and> Q v})"

definition post_list :: "posts \<Rightarrow> string \<Rightarrow> int \<Rightarrow> post_summary list" where
  "post_list P project after = map post_summary_of (entries (listed_post project after) P)"

definition comment_list :: "comments \<Rightarrow> int \<Rightarrow> int option \<Rightarrow> int \<Rightarrow> comment list" where
  "comment_list C postID parent after = entries (listed_comment C postID parent after) C"

text \<open>The comment \<open>i\<close> and its ancestors, at most \<open>n\<close> of them.\<close>

fun chain :: "comments \<Rightarrow> nat \<Rightarrow> int option \<Rightarrow> comment list" where
  "chain C 0 i = []"
| "chain C (Suc n) None = []"
| "chain C (Suc n) (Some i) = (case C i of None \<Rightarrow> [] | Some c \<Rightarrow> c # chain C n (co_parent c))"

definition path_of :: "posts \<Rightarrow> comments \<Rightarrow> int \<Rightarrow> int \<Rightarrow> comment_path" where
  "path_of P C i limit =
     (case C i of
        None \<Rightarrow> empty_path
      | Some c \<Rightarrow>
          (let up = chain C (nat limit) (Some i)
           in \<lparr>cpa_post = P (co_post c), cpa_comments = rev up, cpa_truncated = (co_parent (last up) \<noteq> None)\<rparr>))"

text \<open>A search hit shows an active post of the project, or an active comment under one.\<close>

definition visible_hit :: "posts \<Rightarrow> comments \<Rightarrow> string \<Rightarrow> search_result \<Rightarrow> bool" where
  "visible_hit P C project r \<longleftrightarrow>
     (\<exists>p. P (re_post r) = Some p \<and> po_status p = ''active'' \<and> po_project p = project \<and>
        (re_kind r = ''post'' \<and> re_id r = po_id p \<and> re_author r = po_author p \<or>
         re_kind r = ''comment'' \<and>
         (\<exists>c. C (re_id r) = Some c \<and> co_post c = po_id p \<and> co_status c = ''active'' \<and> re_author r = co_author c)))"

section \<open>What the writes do\<close>

definition comment_allowed :: "posts \<Rightarrow> comments \<Rightarrow> comment \<Rightarrow> bool" where
  "comment_allowed P C c \<longleftrightarrow>
     (\<exists>p. P (co_post c) = Some p \<and> po_status p = ''active'') \<and>
     (\<forall>q. co_parent c = Some q \<longrightarrow> (\<exists>d. C q = Some d \<and> co_status d = ''active'' \<and> co_post d = co_post c))"

text \<open>The stores differ in the update time of what they purge.\<close>

definition purged_post :: "time \<Rightarrow> post \<Rightarrow> post \<Rightarrow> bool" where
  "purged_post now p p' \<longleftrightarrow> p' = (scrubPost now p)\<lparr>po_updated := po_updated p'\<rparr>"

definition purged_comment :: "time \<Rightarrow> comment \<Rightarrow> comment \<Rightarrow> bool" where
  "purged_comment now c c' \<longleftrightarrow> c' = (scrubComment now c)\<lparr>co_updated := co_updated c'\<rparr>"

definition comments_purged :: "(comment \<Rightarrow> bool) \<Rightarrow> time \<Rightarrow> comments \<Rightarrow> comments \<Rightarrow> bool" where
  "comments_purged Q now C C' \<longleftrightarrow>
     (\<forall>i. case C i of None \<Rightarrow> C' i = None
          | Some c \<Rightarrow> (\<exists>c'. C' i = Some c' \<and> (if Q c \<and> co_status c = ''active'' then purged_comment now c c' else c' = c)))"

section \<open>The contract\<close>

locale board_store_laws =
  fixes st :: "'w board_store"
    and P :: "'w \<Rightarrow> posts"
    and C :: "'w \<Rightarrow> comments"
    and inv :: "'w \<Rightarrow> bool"
  assumes ok: "inv w \<Longrightarrow> board_ok (P w) (C w)"
    and create_post: "inv w \<Longrightarrow> po_status p = ''active'' \<Longrightarrow> po_deleted p = None \<Longrightarrow>
      bo_CreatePost st p w = (pres, w') \<Longrightarrow>
      inv w' \<and> C w' = C w \<and> (\<forall>e. pres = Inl e \<longrightarrow> P w' = P w) \<and>
      (\<forall>x. pres = Inr x \<longrightarrow> P w (po_id x) = None \<and> x = p\<lparr>po_id := po_id x\<rparr> \<and> P w' = (P w)(po_id x \<mapsto> x))"
    and get_post: "inv w \<Longrightarrow> bo_GetPost st i w = (gpres, w') \<Longrightarrow>
      inv w' \<and> P w' = P w \<and> C w' = C w \<and> (\<forall>x. gpres = Inr x \<longrightarrow> x = P w i)"
    and list_posts: "inv w \<Longrightarrow> 0 < lq_limit lq \<Longrightarrow> bo_ListPosts st lq w = (ppres, w') \<Longrightarrow>
      inv w' \<and> P w' = P w \<and> C w' = C w \<and>
      (\<forall>x. ppres = Inr x \<longrightarrow> x = postPage (post_list (P w) (lq_project lq) (lq_after lq)) (lq_limit lq))"
    and search: "inv w \<Longrightarrow> 0 < sq_limit sq \<Longrightarrow> bo_Search st sq w = (sres, w') \<Longrightarrow>
      inv w' \<and> P w' = P w \<and> C w' = C w \<and>
      (\<forall>x. sres = Inr x \<longrightarrow> (\<forall>r\<in>set (sp_results x). visible_hit (P w) (C w) (sq_project sq) r \<and> sq_after sq < searchCursor r) \<and>
         sorted_wrt (<) (map searchCursor (sp_results x)) \<and> int (length (sp_results x)) \<le> sq_limit sq)"
    and create_comment: "inv w \<Longrightarrow> co_status c = ''active'' \<Longrightarrow> co_deleted c = None \<Longrightarrow>
      bo_CreateComment st c w = (cres, w') \<Longrightarrow>
      inv w' \<and> P w' = P w \<and> (\<forall>e. cres = Inl e \<longrightarrow> C w' = C w) \<and>
      (\<forall>x. cres = Inr x \<longrightarrow> comment_allowed (P w) (C w) c \<and> C w (co_id x) = None \<and>
         x = c\<lparr>co_id := co_id x\<rparr> \<and> C w' = (C w)(co_id x \<mapsto> x))"
    and get_comment: "inv w \<Longrightarrow> bo_GetComment st i w = (gcres, w') \<Longrightarrow>
      inv w' \<and> P w' = P w \<and> C w' = C w \<and> (\<forall>x. gcres = Inr x \<longrightarrow> x = C w i)"
    and list_comments: "inv w \<Longrightarrow> 0 < cq_limit cq \<Longrightarrow>
      \<exists>lres w'. bo_ListComments st cq w = Some (lres, w') \<and> inv w' \<and> P w' = P w \<and> C w' = C w \<and>
        (\<forall>x. lres = Inr x \<longrightarrow>
           x = commentPage (comment_list (C w) (cq_post cq) (cq_parent cq) (cq_after cq)) (cq_limit cq))"
    and path: "inv w \<Longrightarrow> 0 < limit \<Longrightarrow> bo_GetCommentPath st i limit w = (pares, w') \<Longrightarrow>
      inv w' \<and> P w' = P w \<and> C w' = C w \<and> (\<forall>x. pares = Inr x \<longrightarrow> x = path_of (P w) (C w) i limit)"
    and purge_post: "inv w \<Longrightarrow> bo_PurgePost st ctx i now w = (err, w') \<Longrightarrow>
      inv w' \<and> (err \<noteq> None \<longrightarrow> P w' = P w \<and> C w' = C w) \<and>
      (err = None \<longrightarrow> requirePurgeAudit ctx = None \<and>
         (\<exists>p p'. P w i = Some p \<and> po_status p = ''active'' \<and> purged_post now p p' \<and> P w' = (P w)(i \<mapsto> p')) \<and>
         comments_purged (\<lambda>c. co_post c = i) now (C w) (C w'))"
    and purge_comment: "inv w \<Longrightarrow> bo_PurgeComment st ctx i now w = (err, w') \<Longrightarrow>
      inv w' \<and> P w' = P w \<and> (err \<noteq> None \<longrightarrow> C w' = C w) \<and>
      (err = None \<longrightarrow> requirePurgeAudit ctx = None \<and> (\<exists>c. C w i = Some c \<and> co_status c = ''active'') \<and>
         comments_purged (\<lambda>c. co_id c = i) now (C w) (C w'))"

text \<open>The replay seam: what a key was used for first is what every later use returns.\<close>

locale idempotent_store_laws = board_store_laws st P C inv
  for st :: "'w board_store" and P :: "'w \<Rightarrow> posts" and C :: "'w \<Rightarrow> comments" and inv :: "'w \<Rightarrow> bool" +
  fixes ist :: "'w idempotent_write_store"
    and pk :: "'w \<Rightarrow> string \<Rightarrow> int option"
    and ck :: "'w \<Rightarrow> string \<Rightarrow> int option"
  assumes offered: "bo_idempotent st = Some ist"
    and keys: "inv w \<Longrightarrow> (pk w k = Some i \<longrightarrow> P w i \<noteq> None) \<and> (ck w k = Some i \<longrightarrow> C w i \<noteq> None)"
    and post_key: "inv w \<Longrightarrow> po_status p = ''active'' \<Longrightarrow> po_deleted p = None \<Longrightarrow>
      iw_CreatePostIdempotent ist p key w = (ipres, w') \<Longrightarrow>
      inv w' \<and> C w' = C w \<and> ck w' = ck w \<and> (\<forall>e. ipres = Inl e \<longrightarrow> P w' = P w \<and> pk w' = pk w) \<and>
      (\<forall>r. ipres = Inr r \<longrightarrow>
         (case pk w key of
            Some i \<Rightarrow> r = P w i \<and> P w' = P w \<and> pk w' = pk w
          | None \<Rightarrow> (\<exists>x. r = Some x \<and> P w (po_id x) = None \<and> x = p\<lparr>po_id := po_id x\<rparr> \<and>
                       P w' = (P w)(po_id x \<mapsto> x) \<and> pk w' = (pk w)(key \<mapsto> po_id x))))"
    and comment_key: "inv w \<Longrightarrow> co_status c = ''active'' \<Longrightarrow> co_deleted c = None \<Longrightarrow>
      iw_CreateCommentIdempotent ist c key w = (icres, w') \<Longrightarrow>
      inv w' \<and> P w' = P w \<and> pk w' = pk w \<and> (\<forall>e. icres = Inl e \<longrightarrow> C w' = C w \<and> ck w' = ck w) \<and>
      (\<forall>r. icres = Inr r \<longrightarrow>
         (case ck w key of
            Some i \<Rightarrow> r = C w i \<and> C w' = C w \<and> ck w' = ck w
          | None \<Rightarrow> (\<exists>x. r = Some x \<and> comment_allowed (P w) (C w) c \<and> C w (co_id x) = None \<and>
                       x = c\<lparr>co_id := co_id x\<rparr> \<and> C w' = (C w)(co_id x \<mapsto> x) \<and>
                       ck w' = (ck w)(key \<mapsto> co_id x))))"

section \<open>Keeping well-formedness\<close>

lemma post_ok_purged: "purged_post now p p' \<Longrightarrow> po_id p' = po_id p \<and> po_status p' = ''deleted'' \<and> scrubbed_post p' \<and> po_project p' = po_project p"
  by (cases p; cases p') (simp add: purged_post_def scrubPost_def scrubbed_post_def)

lemma comment_ok_purged:
  "purged_comment now c c' \<Longrightarrow> co_id c' = co_id c \<and> co_post c' = co_post c \<and> co_parent c' = co_parent c \<and>
     co_status c' = ''deleted'' \<and> scrubbed_comment c'"
  by (cases c; cases c') (simp add: purged_comment_def scrubComment_def scrubbed_comment_def)

lemma board_ok_post: "board_ok P C \<Longrightarrow> P i = Some p \<Longrightarrow> po_id p = i \<and> 0 < i \<and> post_ok p"
  by (simp add: board_ok_def)

lemma board_ok_comment: "board_ok P C \<Longrightarrow> C i = Some c \<Longrightarrow> co_id c = i \<and> 0 < i \<and> comment_ok c"
  by (simp add: board_ok_def)

lemma board_ok_comment_post:
  "board_ok P C \<Longrightarrow> C i = Some c \<Longrightarrow>
     \<exists>p. P (co_post c) = Some p \<and> (co_status c = ''active'' \<longrightarrow> po_status p = ''active'')"
  unfolding board_ok_def by blast

lemma board_ok_parent:
  "board_ok P C \<Longrightarrow> C i = Some c \<Longrightarrow> co_parent c = Some q \<Longrightarrow> q < i \<and> (\<exists>d. C q = Some d \<and> co_post d = co_post c)"
  unfolding board_ok_def by blast

lemma board_ok_finite: "board_ok P C \<Longrightarrow> finite (dom P) \<and> finite (dom C)"
  by (simp add: board_ok_def)

lemma board_okI:
  assumes "finite (dom P)" and "finite (dom C)"
    and "\<And>i p. P i = Some p \<Longrightarrow> po_id p = i \<and> 0 < i \<and> post_ok p"
    and "\<And>i c. C i = Some c \<Longrightarrow> co_id c = i \<and> 0 < i \<and> comment_ok c"
    and "\<And>i c. C i = Some c \<Longrightarrow> \<exists>p. P (co_post c) = Some p \<and> (co_status c = ''active'' \<longrightarrow> po_status p = ''active'')"
    and "\<And>i c q. C i = Some c \<Longrightarrow> co_parent c = Some q \<Longrightarrow> q < i \<and> (\<exists>d. C q = Some d \<and> co_post d = co_post c)"
  shows "board_ok P C"
  unfolding board_ok_def using assms by blast

lemma board_ok_new_post:
  assumes ok: "board_ok P C" and i: "P i = None" "0 < i" and p: "po_status p = ''active''" "po_deleted p = None"
  shows "board_ok (P(i \<mapsto> p\<lparr>po_id := i\<rparr>)) C"
proof (rule board_okI)
  fix j c assume c: "C j = Some c"
  from board_ok_comment_post [OF ok c] i
  show "\<exists>q. (P(i \<mapsto> p\<lparr>po_id := i\<rparr>)) (co_post c) = Some q \<and> (co_status c = ''active'' \<longrightarrow> po_status q = ''active'')"
    by (auto simp: p)
  show "co_id c = j \<and> 0 < j \<and> comment_ok c" by (rule board_ok_comment [OF ok c])
  fix q assume "co_parent c = Some q"
  then show "q < j \<and> (\<exists>d. C q = Some d \<and> co_post d = co_post c)" by (rule board_ok_parent [OF ok c])
next
  fix j q assume "(P(i \<mapsto> p\<lparr>po_id := i\<rparr>)) j = Some q"
  then show "po_id q = j \<and> 0 < j \<and> post_ok q"
    using board_ok_post [OF ok, of j q] i p by (auto simp: post_ok_def split: if_splits)
qed (use board_ok_finite [OF ok] in auto)

lemma board_ok_new_comment:
  assumes ok: "board_ok P C" and i: "0 < i" "\<forall>j\<in>dom C. j < i" and c: "co_status c = ''active''" "co_deleted c = None"
    and al: "comment_allowed P C c"
  shows "board_ok P (C(i \<mapsto> c\<lparr>co_id := i\<rparr>))"
proof (rule board_okI)
  have none: "C i = None" using i(2) by (auto simp: dom_def)
  fix j d assume d: "(C(i \<mapsto> c\<lparr>co_id := i\<rparr>)) j = Some d"
  show "co_id d = j \<and> 0 < j \<and> comment_ok d"
    using board_ok_comment [OF ok, of j d] d i c by (auto simp: comment_ok_def split: if_splits)
  show "\<exists>p. P (co_post d) = Some p \<and> (co_status d = ''active'' \<longrightarrow> po_status p = ''active'')"
    using board_ok_comment_post [OF ok, of j d] d al by (auto simp: comment_allowed_def split: if_splits)
  fix q assume q: "co_parent d = Some q"
  show "q < j \<and> (\<exists>e. (C(i \<mapsto> c\<lparr>co_id := i\<rparr>)) q = Some e \<and> co_post e = co_post d)"
  proof (cases "j = i")
    case True
    with d q al obtain e where e: "C q = Some e" "co_post e = co_post d" by (auto simp: comment_allowed_def)
    with i(2) True none show ?thesis by auto
  next
    case False
    with d board_ok_parent [OF ok, of j d q] q none show ?thesis by auto
  qed
next
  fix j p assume "P j = Some p"
  then show "po_id p = j \<and> 0 < j \<and> post_ok p" by (rule board_ok_post [OF ok])
qed (use board_ok_finite [OF ok] in auto)

lemma comments_purgedI:
  assumes "\<And>i. C' i = map_option (\<lambda>c. if Q c \<and> co_status c = ''active'' then g c else c) (C i)"
    and "\<And>c. purged_comment now c (g c)"
  shows "comments_purged Q now C C'"
  unfolding comments_purged_def
proof
  fix i
  show "case C i of None \<Rightarrow> C' i = None
      | Some c \<Rightarrow> (\<exists>c'. C' i = Some c' \<and> (if Q c \<and> co_status c = ''active'' then purged_comment now c c' else c' = c))"
    using assms(1) [of i] assms(2) by (cases "C i") simp_all
qed

lemma comments_purged_at:
  assumes pur: "comments_purged Q now C C'"
  shows "C' i = None \<longleftrightarrow> C i = None"
    and "C i = Some c \<Longrightarrow> \<exists>c'. C' i = Some c' \<and> co_id c' = co_id c \<and> co_post c' = co_post c \<and> co_parent c' = co_parent c \<and>
      (c' = c \<and> \<not> (Q c \<and> co_status c = ''active'') \<or> Q c \<and> co_status c = ''active'' \<and> co_status c' = ''deleted'' \<and> scrubbed_comment c')"
proof -
  note at = pur [unfolded comments_purged_def, rule_format, of i]
  show "C' i = None \<longleftrightarrow> C i = None" using at by (cases "C i") auto
  assume c: "C i = Some c"
  then obtain c' where c': "C' i = Some c'"
    "if Q c \<and> co_status c = ''active'' then purged_comment now c c' else c' = c" using at by auto
  show "\<exists>c'. C' i = Some c' \<and> co_id c' = co_id c \<and> co_post c' = co_post c \<and> co_parent c' = co_parent c \<and>
      (c' = c \<and> \<not> (Q c \<and> co_status c = ''active'') \<or> Q c \<and> co_status c = ''active'' \<and> co_status c' = ''deleted'' \<and> scrubbed_comment c')"
  proof (cases "Q c \<and> co_status c = ''active''")
    case True
    with c'(2) have "purged_comment now c c'" by simp
    from comment_ok_purged [OF this] c'(1) True show ?thesis by simp
  next
    case False
    with c' show ?thesis by simp
  qed
qed

lemma comments_purged_back:
  assumes "comments_purged Q now C C'" and "C' i = Some c'"
  obtains c where "C i = Some c" "co_id c' = co_id c" "co_post c' = co_post c" "co_parent c' = co_parent c"
    "c' = c \<and> \<not> (Q c \<and> co_status c = ''active'') \<or> Q c \<and> co_status c = ''active'' \<and> co_status c' = ''deleted'' \<and> scrubbed_comment c'"
proof -
  from assms comments_purged_at(1) [OF assms(1), of i] obtain c where c: "C i = Some c" by auto
  from comments_purged_at(2) [OF assms(1) c] assms(2) c that show thesis by auto
qed

lemma board_ok_purge_comments:
  assumes ok: "board_ok P C" and pur: "comments_purged Q now C C'"
  shows "board_ok P C'"
proof (rule board_okI)
  have "dom C' = dom C" using comments_purged_at(1) [OF pur] by (auto simp: dom_def)
  then show "finite (dom C')" using board_ok_finite [OF ok] by simp
  fix i c' assume at: "C' i = Some c'"
  obtain c where c: "C i = Some c" "co_id c' = co_id c" "co_post c' = co_post c" "co_parent c' = co_parent c"
    and c': "c' = c \<or> co_status c' = ''deleted'' \<and> scrubbed_comment c'"
    by (rule comments_purged_back [OF pur at]) blast
  show "co_id c' = i \<and> 0 < i \<and> comment_ok c'"
    using board_ok_comment [OF ok c(1)] c(2) c' by (auto simp: comment_ok_def)
  show "\<exists>p. P (co_post c') = Some p \<and> (co_status c' = ''active'' \<longrightarrow> po_status p = ''active'')"
    using board_ok_comment_post [OF ok c(1)] c(3) c' by auto
  fix q assume "co_parent c' = Some q"
  with c(4) board_ok_parent [OF ok c(1), of q] obtain d where d: "q < i" "C q = Some d" "co_post d = co_post c" by auto
  from comments_purged_at(2) [OF pur d(2)] d(1,3) c(3)
  show "q < i \<and> (\<exists>d. C' q = Some d \<and> co_post d = co_post c')" by auto
next
  fix j p assume "P j = Some p"
  then show "po_id p = j \<and> 0 < j \<and> post_ok p" by (rule board_ok_post [OF ok])
qed (use board_ok_finite [OF ok] in auto)

lemma board_ok_purge_post:
  assumes ok: "board_ok P C" and p: "P i = Some p" "purged_post now p p'"
    and pur: "comments_purged (\<lambda>c. co_post c = i) now C C'"
  shows "board_ok (P(i \<mapsto> p')) C'"
proof (rule board_okI)
  note ok' = board_ok_purge_comments [OF ok pur]
  fix j c assume c: "C' j = Some c"
  show "co_id c = j \<and> 0 < j \<and> comment_ok c" by (rule board_ok_comment [OF ok' c])
  have "co_post c = i \<Longrightarrow> co_status c \<noteq> ''active''"
    by (rule comments_purged_back [OF pur c]) fastforce
  with board_ok_comment_post [OF ok' c]
  show "\<exists>q. (P(i \<mapsto> p')) (co_post c) = Some q \<and> (co_status c = ''active'' \<longrightarrow> po_status q = ''active'')" by auto
  fix q assume "co_parent c = Some q"
  then show "q < j \<and> (\<exists>d. C' q = Some d \<and> co_post d = co_post c)" by (rule board_ok_parent [OF ok' c])
next
  fix j q assume "(P(i \<mapsto> p')) j = Some q"
  then show "po_id q = j \<and> 0 < j \<and> post_ok q"
    using board_ok_post [OF ok, of j q] board_ok_post [OF ok p(1)] post_ok_purged [OF p(2)]
    by (auto simp: post_ok_def split: if_splits)
qed (use board_ok_finite [OF ok] board_ok_finite [OF board_ok_purge_comments [OF ok pur]] in auto)

end
