(* ===== verification/Board_Mem_Laws.thy ===== *)
theory Board_Mem_Laws
  imports Board_Laws
begin

text \<open>
  The in-memory store keeps the contract of a board store and of the replay seam. In particular
  the recursion of \<open>hasActiveDescendant\<close> returns on every store that satisfies the invariant, and
  the cycle check of \<open>GetCommentPath\<close> never fires.
\<close>

section \<open>The invariant\<close>

definition mp :: "memory_store \<Rightarrow> posts" where "mp s = map_of (ms_posts s)"
definition mc :: "memory_store \<Rightarrow> comments" where "mc s = map_of (ms_comments s)"
definition mpk :: "memory_store \<Rightarrow> string \<Rightarrow> int option" where "mpk s = map_of (ms_postKeys s)"
definition mck :: "memory_store \<Rightarrow> string \<Rightarrow> int option" where "mck s = map_of (ms_commentKeys s)"

definition mem_inv :: "memory_store \<Rightarrow> bool" where
  "mem_inv s \<longleftrightarrow>
     board_ok (mp s) (mc s) \<and> distinct (map fst (ms_posts s)) \<and> distinct (map fst (ms_comments s)) \<and>
     0 < ms_next s \<and> (\<forall>i\<in>dom (mp s) \<union> dom (mc s). i < ms_next s) \<and>
     ran (mpk s) \<subseteq> dom (mp s) \<and> ran (mck s) \<subseteq> dom (mc s)"

lemma mem_inv_new: "mem_inv NewMemoryStore"
  by (simp add: mem_inv_def NewMemoryStore_def mp_def mc_def mpk_def mck_def board_ok_def)

lemma mem_invD:
  assumes "mem_inv s"
  shows "board_ok (mp s) (mc s)" "distinct (map fst (ms_posts s))" "distinct (map fst (ms_comments s))"
    "0 < ms_next s" "i \<in> dom (mp s) \<Longrightarrow> i < ms_next s" "i \<in> dom (mc s) \<Longrightarrow> i < ms_next s"
    "mpk s k = Some i \<Longrightarrow> mp s i \<noteq> None" "mck s k = Some i \<Longrightarrow> mc s i \<noteq> None"
  using assms by (auto simp: mem_inv_def ran_def)

lemma mem_fresh: "mem_inv s \<Longrightarrow> mp s (ms_next s) = None \<and> mc s (ms_next s) = None"
  using mem_invD(5,6) [of s "ms_next s"] by auto

section \<open>Sorted lists of the values of a map\<close>

lemma strict_sorted_key_unique:
  assumes "sorted_wrt (<) (map key xs)" and "sorted_wrt (<) (map (key :: 'a \<Rightarrow> int) ys)" and "set xs = set ys"
  shows "xs = ys"
proof -
  have "map key xs = map key ys"
  proof (rule strict_sorted_equal [OF assms(2,1)])
    show "set (map key xs) = set (map key ys)" using assms(3) by simp
  qed
  moreover have "inj_on key (set xs \<union> set ys)"
    using assms(1,3) by (simp add: strict_sorted_iff distinct_map)
  ultimately show ?thesis by (rule map_inj_on)
qed

lemma entries_set: "finite (dom M) \<Longrightarrow> set (entries Q M) = {v. \<exists>i. M i = Some v \<and> Q v}"
proof -
  assume "finite (dom M)"
  then have "finite {i. \<exists>v. M i = Some v \<and> Q v}" by (rule rev_finite_subset) auto
  then show ?thesis by (force simp: entries_def image_iff)
qed

lemma entries_keys:
  assumes fin: "finite (dom M)" and key: "\<And>i v. M i = Some v \<Longrightarrow> key v = i"
  shows "map key (entries Q M) = sorted_list_of_set {i. \<exists>v. M i = Some v \<and> Q v}"
proof -
  let ?S = "{i. \<exists>v. M i = Some v \<and> Q v}"
  have "finite ?S" using fin by (rule rev_finite_subset) auto
  then have "key (the (M i)) = i" if "i \<in> set (sorted_list_of_set ?S)" for i
    using that key by auto
  then show ?thesis unfolding entries_def by (simp add: map_idI)
qed

lemma entries_unique:
  assumes fin: "finite (dom M)" and key: "\<And>i v. M i = Some v \<Longrightarrow> key v = i"
    and xs: "sorted_wrt (<) (map key xs)" "set xs = {v. \<exists>i. M i = Some v \<and> Q v}"
  shows "xs = entries Q M"
proof (rule strict_sorted_key_unique [of key])
  have "map key (entries Q M) = sorted_list_of_set {i. \<exists>v. M i = Some v \<and> Q v}"
    by (rule entries_keys) (use fin key in auto)
  then show "sorted_wrt (<) (map key (entries Q M))" by simp
qed (use xs entries_set [OF fin] in auto)

lemma set_map_snd: "distinct (map fst al) \<Longrightarrow> v \<in> set (map snd al) \<longleftrightarrow> (\<exists>i. map_of al i = Some v)"
  by (auto simp: map_of_eq_Some_iff) (metis map_of_SomeD map_of_is_SomeI snd_conv image_iff)

lemma sort_key_strict: "distinct (map key xs) \<Longrightarrow> sorted_wrt (<) (map key (sort_key key (xs :: 'a list) :: 'a list) :: int list)"
  by (simp add: strict_sorted_iff distinct_map)

lemma distinct_map_key:
  assumes "distinct (map fst al)" and "\<And>i v. map_of al i = Some v \<Longrightarrow> key v = i"
  shows "map key (map snd al) = map fst al"
proof -
  have "key (snd x) = fst x" if "x \<in> set al" for x
    using assms that by (metis map_of_is_SomeI prod.collapse)
  then show ?thesis by simp
qed

lemma sort_filter_entries:
  assumes d: "distinct (map fst al)" and key: "\<And>i v. map_of al i = Some v \<Longrightarrow> key v = i"
  shows "sort_key key (filter Q (map snd al)) = entries Q (map_of al)"
proof (rule entries_unique [where key = key])
  have "map key (map snd al) = map fst al" by (rule distinct_map_key) (use d key in auto)
  with d have "distinct (map key (map snd al))" by (simp only:)
  then have "distinct (map key (filter Q (map snd al)))" by (rule distinct_map_filter)
  then show "sorted_wrt (<) (map key (sort_key key (filter Q (map snd al))))" by (rule sort_key_strict)
  show "set (sort_key key (filter Q (map snd al))) = {v. \<exists>i. map_of al i = Some v \<and> Q v}"
    using set_map_snd [OF d] by auto
qed (use key in \<open>auto simp: finite_dom_map_of\<close>)

text \<open>Reading one entry past the limit does not change the page.\<close>

definition cut_at :: "int \<Rightarrow> 'a list \<Rightarrow> 'a list" where
  "cut_at limit xs = (if int (length xs) > limit + 1 then take (nat (limit + 1)) xs else xs)"

lemma cut_at_page:
  assumes "0 < limit"
  shows "int (length (cut_at limit xs)) \<le> limit \<longleftrightarrow> int (length xs) \<le> limit"
    and "\<not> int (length xs) \<le> limit \<Longrightarrow> take (nat limit) (cut_at limit xs) = take (nat limit) xs"
    and "\<not> int (length xs) \<le> limit \<Longrightarrow> cut_at limit xs ! nat (limit - 1) = xs ! nat (limit - 1)"
    and "int (length xs) \<le> limit \<Longrightarrow> cut_at limit xs = xs"
  using assms by (auto simp: cut_at_def min_def)

lemma postPage_cut: "0 < limit \<Longrightarrow> postPage (cut_at limit xs) limit = postPage xs limit"
  using cut_at_page [of limit xs] by (simp add: postPage_def)

lemma commentPage_cut: "0 < limit \<Longrightarrow> commentPage (cut_at limit xs) limit = commentPage xs limit"
  using cut_at_page [of limit xs] by (simp add: commentPage_def)

lemma searchPage_cut: "0 < limit \<Longrightarrow> searchPage (cut_at limit xs) limit = searchPage xs limit"
  using cut_at_page [of limit xs] by (simp add: searchPage_def)

section \<open>Walking the replies\<close>

lemma active_below_iff:
  "active_below C i \<longleftrightarrow>
     (\<exists>j c. C j = Some c \<and> co_parent c = Some i \<and> (co_status c = ''active'' \<or> active_below C j))"
proof
  assume "active_below C i"
  then show "\<exists>j c. C j = Some c \<and> co_parent c = Some i \<and> (co_status c = ''active'' \<or> active_below C j)"
    by cases auto
qed (auto intro: active_below.intros)

lemma descend_returns:
  assumes ok: "board_ok P C" and all: "set all = ran C" and sub: "set todo \<subseteq> ran C"
  shows "descend all todo parent =
    Some (\<exists>c\<in>set todo. co_parent c = Some parent \<and> (co_status c = ''active'' \<or> active_below C (co_id c)))"
  using sub
proof (induction "(nat (Max (insert 0 (dom C)) + 1 - parent), length todo)" arbitrary: todo parent
    rule: wf_induct_rule [OF wf_lex_prod [OF wf_less_than wf_less_than]])
  case 1
  show ?case
  proof (cases todo)
    case Nil
    then show ?thesis by (simp add: descend.simps)
  next
    case (Cons c rest)
    have rest: "descend all rest parent =
        Some (\<exists>c\<in>set rest. co_parent c = Some parent \<and> (co_status c = ''active'' \<or> active_below C (co_id c)))"
      using 1 Cons by auto
    show ?thesis
    proof (cases "co_parent c = Some parent \<and> co_status c \<noteq> ''active''")
      case False
      then show ?thesis using Cons rest by (subst descend.simps) auto
    next
      case True
      from "1.prems" Cons obtain j where c: "C j = Some c" by (auto simp: ran_def)
      from board_ok_comment [OF ok c] board_ok_parent [OF ok c] True have "parent < co_id c" "co_id c = j" by auto
      moreover have "j \<le> Max (insert 0 (dom C))"
        using c board_ok_finite [OF ok] by (intro Max_ge) auto
      ultimately have "descend all all (co_id c) =
          Some (\<exists>c'\<in>set all. co_parent c' = Some (co_id c) \<and> (co_status c' = ''active'' \<or> active_below C (co_id c')))"
        using all by (intro "1.hyps") auto
      also have "(\<exists>c'\<in>set all. co_parent c' = Some (co_id c) \<and> (co_status c' = ''active'' \<or> active_below C (co_id c')))
          = active_below C (co_id c)"
        unfolding active_below_iff [of C "co_id c"] all using board_ok_comment [OF ok] by (auto simp: ran_def)
      finally have "descend all all (co_id c) = Some (active_below C (co_id c))" .
      then show ?thesis using Cons rest True by (subst descend.simps) auto
    qed
  qed
qed

lemma hasActiveDescendant_returns:
  assumes "mem_inv s"
  shows "hasActiveDescendant s i = Some (active_below (mc s) i)"
proof -
  note ok = mem_invD(1) [OF assms]
  have all: "set (map snd (ms_comments s)) = ran (mc s)"
    using set_map_snd [OF mem_invD(3) [OF assms]] by (auto simp: mc_def ran_def)
  have "(\<exists>c\<in>ran (mc s). co_parent c = Some i \<and> (co_status c = ''active'' \<or> active_below (mc s) (co_id c)))
      = active_below (mc s) i"
    unfolding active_below_iff [of "mc s" i] using board_ok_comment [OF ok] by (auto simp: ran_def)
  then show ?thesis
    using descend_returns [OF ok all] all by (simp add: hasActiveDescendant_def Let_def)
qed

lemma sameParent_eq: "sameParent l r \<longleftrightarrow> l = r"
  by (cases l; cases r) (auto simp: sameParent_def)

lemma visible_comments_eq:
  "mem_inv s \<Longrightarrow> visible_comments s q cs =
     Some (filter (listed_comment (mc s) (cq_post q) (cq_parent q) (cq_after q)) cs)"
  by (induction cs) (auto simp: hasActiveDescendant_returns sameParent_eq listed_comment_def)

section \<open>The path to the root\<close>

lemma path_loop_chain:
  assumes ok: "board_ok P (map_of cs)"
  shows "map_of cs i = Some c \<Longrightarrow> \<forall>x\<in>set seen. i < x \<Longrightarrow>
    \<exists>stop. path_loop cs n seen (Some c) = Inr (chain (map_of cs) n (Some i), stop) \<and>
      (0 < n \<longrightarrow> (stop \<noteq> None) = (co_parent (last (chain (map_of cs) n (Some i))) \<noteq> None))"
proof (induction n arbitrary: i c seen)
  case (Suc n)
  note c = Suc.prems(1)
  have cid: "co_id c = i" using board_ok_comment [OF ok c] by simp
  show ?case
  proof (cases "co_parent c")
    case None
    then have "chain (map_of cs) n None = []" by (cases n) auto
    with None c cid Suc.prems(2) show ?thesis by auto
  next
    case (Some q)
    from board_ok_parent [OF ok c Some] obtain d where d: "q < i" "map_of cs q = Some d" by auto
    with Suc.prems(2) have seen: "\<forall>x\<in>set (i # seen). q < x" by auto
    from Suc.IH [OF d(2) this] obtain stop where
      s: "path_loop cs n (i # seen) (Some d) = Inr (chain (map_of cs) n (Some q), stop)"
      "0 < n \<longrightarrow> (stop \<noteq> None) = (co_parent (last (chain (map_of cs) n (Some q))) \<noteq> None)" by blast
    show ?thesis
    proof (cases n)
      case 0
      with s c cid Some d Suc.prems(2) show ?thesis by auto
    next
      case (Suc m)
      then have "chain (map_of cs) n (Some q) \<noteq> []" using d(2) by simp
      with s c cid Some d Suc.prems(2) \<open>n = Suc m\<close> show ?thesis by auto
    qed
  qed
qed auto

lemma mem_path:
  assumes inv: "mem_inv s" and l: "0 < limit"
  shows "mem_GetCommentPath i limit s = (Inr (path_of (mp s) (mc s) i limit), s)"
proof (cases "map_of (ms_comments s) i")
  case None
  then show ?thesis by (simp add: mem_GetCommentPath_def path_of_def mc_def)
next
  case (Some c)
  from mem_invD(1) [OF inv] have "board_ok (mp s) (map_of (ms_comments s))" by (simp add: mc_def)
  from path_loop_chain [OF this Some, of "[]" "nat limit"] l Some show ?thesis
    by (auto simp: mem_GetCommentPath_def path_of_def mc_def mp_def Let_def)
qed

section \<open>Lists and search\<close>

lemma mem_list_posts:
  assumes inv: "mem_inv s" and l: "0 < lq_limit q"
  shows "mem_ListPosts q s = (Inr (postPage (post_list (mp s) (lq_project q) (lq_after q)) (lq_limit q)), s)"
proof -
  let ?Q = "listed_post (lq_project q) (lq_after q)"
  let ?xs = "filter ?Q (map snd (ms_posts s))"
  note d = mem_invD(2) [OF inv] and ok = mem_invD(1) [OF inv]
  have key: "\<And>i v. map_of (ms_posts s) i = Some v \<Longrightarrow> po_id v = i"
    using board_ok_post [OF ok] by (simp add: mp_def)
  have ids: "ps_id \<circ> post_summary_of = po_id" by (simp add: fun_eq_iff post_summary_of_def)
  have "distinct (map po_id ?xs)"
  proof (rule distinct_map_filter)
    have "map po_id (map snd (ms_posts s)) = map fst (ms_posts s)" by (rule distinct_map_key [OF d key])
    with d show "distinct (map po_id (map snd (ms_posts s)))" by (simp only:)
  qed
  then have "sorted_wrt (<) (map ps_id (sort_key ps_id (map post_summary_of ?xs)))"
    by (intro sort_key_strict) (simp add: ids)
  moreover have "sorted_wrt (<) (map ps_id (map post_summary_of (sort_key po_id ?xs)))"
    using sort_key_strict [OF \<open>distinct (map po_id ?xs)\<close>] by (simp add: ids)
  ultimately have "sort_key ps_id (map post_summary_of ?xs) = map post_summary_of (sort_key po_id ?xs)"
    by (rule strict_sorted_key_unique) simp
  also have "sort_key po_id ?xs = entries ?Q (map_of (ms_posts s))" by (rule sort_filter_entries [OF d key])
  finally have "sort_key ps_id (map post_summary_of ?xs) = post_list (mp s) (lq_project q) (lq_after q)"
    by (simp add: post_list_def mp_def)
  moreover have "(\<lambda>p. po_project p = lq_project q \<and> po_status p = PostStatusActive \<and> lq_after q < po_id p) = ?Q"
    by (simp add: listed_post_def fun_eq_iff)
  ultimately show ?thesis
    using postPage_cut [OF l] by (simp add: mem_ListPosts_def Let_def cut_at_def [symmetric])
qed

lemma mem_list_comments:
  assumes inv: "mem_inv s" and l: "0 < cq_limit q"
  shows "mem_ListComments q s =
    Some (Inr (commentPage (comment_list (mc s) (cq_post q) (cq_parent q) (cq_after q)) (cq_limit q)), s)"
proof -
  let ?Q = "listed_comment (mc s) (cq_post q) (cq_parent q) (cq_after q)"
  have "sort_key co_id (filter ?Q (map snd (ms_comments s))) = entries ?Q (map_of (ms_comments s))"
    by (rule sort_filter_entries [OF mem_invD(3) [OF inv]])
      (use board_ok_comment [OF mem_invD(1) [OF inv]] in \<open>simp add: mc_def\<close>)
  then show ?thesis
    using commentPage_cut [OF l] visible_comments_eq [OF inv]
    by (simp add: mem_ListComments_def Let_def cut_at_def [symmetric] comment_list_def) (simp add: mc_def)
qed

definition post_hits :: "search_query \<Rightarrow> memory_store \<Rightarrow> post \<Rightarrow> search_result list" where
  "post_hits q s p =
     (if po_project p \<noteq> sq_project q \<or> po_status p \<noteq> PostStatusActive then []
      else filter (\<lambda>r. searchCursor r > sq_after q)
             ((if containsAllTerms (po_title p @ '' '' @ po_body p) (strings_Fields (to_lower (sq_query q)))
               then [post_result p] else []) @
              map (comment_result p)
                (filter (\<lambda>c. co_post c = po_id p \<and> co_status c = CommentStatusActive \<and>
                             containsAllTerms (co_body c) (strings_Fields (to_lower (sq_query q))))
                   (map snd (ms_comments s)))))"

lemma result_simps [simp]:
  "re_kind (post_result p) = ''post''" "re_id (post_result p) = po_id p" "re_post (post_result p) = po_id p"
  "re_kind (comment_result p c) = ''comment''" "re_id (comment_result p c) = co_id c"
  "re_post (comment_result p c) = po_id p" "re_author (post_result p) = po_author p"
  "re_author (comment_result p c) = co_author c"
  "searchCursor (post_result p) = po_id p * 2" "searchCursor (comment_result p c) = co_id c * 2 + 1"
  by (simp_all add: post_result_def comment_result_def searchCursor_def)

lemma post_hits_cases:
  "r \<in> set (post_hits q s p) \<Longrightarrow>
     po_project p = sq_project q \<and> po_status p = ''active'' \<and> sq_after q < searchCursor r \<and>
     (r = post_result p \<or>
      (\<exists>c. c \<in> set (map snd (ms_comments s)) \<and> co_post c = po_id p \<and> co_status c = ''active'' \<and> r = comment_result p c))"
  by (auto simp: post_hits_def split: if_splits)

lemma distinct_map_concat:
  assumes "distinct ps" and "\<And>p. p \<in> set ps \<Longrightarrow> distinct (map g (f p))"
    and "\<And>p p' r r'. p \<in> set ps \<Longrightarrow> p' \<in> set ps \<Longrightarrow> p \<noteq> p' \<Longrightarrow> r \<in> set (f p) \<Longrightarrow> r' \<in> set (f p') \<Longrightarrow> g r \<noteq> g r'"
  shows "distinct (map g (concat (map f ps)))"
  using assms
proof (induction ps)
  case (Cons p ps)
  have "g ` set (f p) \<inter> g ` set (concat (map f ps)) = {}"
    using Cons.prems(1,3) by fastforce
  moreover have "distinct (map g (concat (map f ps)))"
  proof (rule Cons.IH)
    show "distinct ps" using Cons.prems(1) by simp
    show "distinct (map g (f q))" if "q \<in> set ps" for q using that Cons.prems(2) by simp
    show "g r \<noteq> g r'" if "q \<in> set ps" "q' \<in> set ps" "q \<noteq> q'" "r \<in> set (f q)" "r' \<in> set (f q')" for q q' r r'
      using that by (intro Cons.prems(3) [of q q']) auto
  qed
  ultimately show ?case using Cons.prems(2) by auto
qed simp

lemma mem_hits_distinct:
  assumes inv: "mem_inv s"
  shows "distinct (map searchCursor (concat (map (post_hits q s) (map snd (ms_posts s)))))"
proof (rule distinct_map_concat)
  note ok = mem_invD(1) [OF inv]
  have pids: "map po_id (map snd (ms_posts s)) = map fst (ms_posts s)"
    by (rule distinct_map_key [OF mem_invD(2) [OF inv]]) (use board_ok_post [OF ok] in \<open>simp add: mp_def\<close>)
  have cids: "map co_id (map snd (ms_comments s)) = map fst (ms_comments s)"
    by (rule distinct_map_key [OF mem_invD(3) [OF inv]]) (use board_ok_comment [OF ok] in \<open>simp add: mc_def\<close>)
  from pids mem_invD(2) [OF inv] have dp: "distinct (map po_id (map snd (ms_posts s)))" by (simp only:)
  from cids mem_invD(3) [OF inv] have dc: "distinct (map co_id (map snd (ms_comments s)))" by (simp only:)
  from dp show "distinct (map snd (ms_posts s))" by (simp only: distinct_map)
  fix p p' r r' assume p: "p \<in> set (map snd (ms_posts s))" "p' \<in> set (map snd (ms_posts s))" "p \<noteq> p'"
    and r: "r \<in> set (post_hits q s p)" "r' \<in> set (post_hits q s p')"
  from dp p have ne: "po_id p \<noteq> po_id p'" by (metis distinct_map inj_onD)
  from r show "searchCursor r \<noteq> searchCursor r'"
  proof (elim post_hits_cases [THEN conjunct2, THEN conjunct2, THEN conjunct2, THEN disjE] exE conjE)
    fix c d assume *: "c \<in> set (map snd (ms_comments s))" "d \<in> set (map snd (ms_comments s))"
      "co_post c = po_id p" "co_post d = po_id p'" "r = comment_result p c" "r' = comment_result p' d"
    with ne have "co_id c \<noteq> co_id d" using dc by (metis distinct_map inj_onD)
    with * show ?thesis by simp
  qed (use ne in \<open>auto, presburger+\<close>)
next
  fix p
  note ok = mem_invD(1) [OF inv]
  have cids: "map co_id (map snd (ms_comments s)) = map fst (ms_comments s)"
    by (rule distinct_map_key [OF mem_invD(3) [OF inv]]) (use board_ok_comment [OF ok] in \<open>simp add: mc_def\<close>)
  with mem_invD(3) [OF inv] have dc: "distinct (map co_id (map snd (ms_comments s)))" by (simp only:)
  have "distinct (map searchCursor (map (comment_result p) (filter Q (map snd (ms_comments s)))))" for Q
    using distinct_map_filter [OF dc, of Q] by (simp add: distinct_map inj_on_def)
  then show "distinct (map searchCursor (post_hits q s p))"
    unfolding post_hits_def
    by (cases "po_project p \<noteq> sq_project q \<or> po_status p \<noteq> PostStatusActive")
      (simp, simp only: if_False, intro distinct_map_filter, auto, presburger)
qed

lemma mem_search:
  assumes inv: "mem_inv s" and l: "0 < sq_limit q"
  shows "\<exists>x. mem_Search q s = (Inr x, s) \<and>
     (\<forall>r\<in>set (sp_results x). visible_hit (mp s) (mc s) (sq_project q) r \<and> sq_after q < searchCursor r) \<and>
     sorted_wrt (<) (map searchCursor (sp_results x)) \<and> int (length (sp_results x)) \<le> sq_limit q"
proof -
  let ?hits = "sort_key searchCursor (concat (map (post_hits q s) (map snd (ms_posts s))))"
  let ?page = "searchPage ?hits (sq_limit q)"
  have "mem_Search q s = (Inr ?page, s)"
    using searchPage_cut [OF l] by (simp add: mem_Search_def Let_def cut_at_def [symmetric] post_hits_def [abs_def])
  moreover have "sorted_wrt (<) (map searchCursor ?hits)"
    by (rule sort_key_strict) (rule mem_hits_distinct [OF inv])
  then have "sorted_wrt (<) (map searchCursor (sp_results ?page))"
    by (simp add: searchPage_def take_map [symmetric] sorted_wrt_take)
  moreover have "visible_hit (mp s) (mc s) (sq_project q) r \<and> sq_after q < searchCursor r" if "r \<in> set (sp_results ?page)" for r
  proof -
    from that have "r \<in> set ?hits" by (auto simp: searchPage_def split: if_splits dest: in_set_takeD)
    then obtain p where p: "p \<in> set (map snd (ms_posts s))" "r \<in> set (post_hits q s p)" by auto
    from p(1) set_map_snd [OF mem_invD(2) [OF inv]] obtain i where "map_of (ms_posts s) i = Some p" by blast
    with board_ok_post [OF mem_invD(1) [OF inv]] have P: "mp s (po_id p) = Some p" by (simp add: mp_def)
    have C: "mc s (co_id c) = Some c" if "(i, c) \<in> set (ms_comments s)" for i c
    proof -
      have "mc s i = Some c" using that mem_invD(3) [OF inv] by (simp add: mc_def)
      with board_ok_comment [OF mem_invD(1) [OF inv] this] show ?thesis by simp
    qed
    from post_hits_cases [OF p(2)] P show ?thesis by (auto simp: visible_hit_def C)
  qed
  moreover have "int (length (sp_results ?page)) \<le> sq_limit q"
    using l by (simp add: searchPage_def)
  ultimately show ?thesis by blast
qed

end
