(* ===== verification/Board_Mem.thy ===== *)
theory Board_Mem
  imports Board_Mem_Laws
begin

text \<open>
  The writes of the in-memory store, and the interpretation of the contracts on it.
\<close>

lemma mem_view_simps [simp]:
  "mp (s\<lparr>ms_posts := ps\<rparr>) = map_of ps" "mc (s\<lparr>ms_posts := ps\<rparr>) = mc s"
  "mc (s\<lparr>ms_comments := cs\<rparr>) = map_of cs" "mp (s\<lparr>ms_comments := cs\<rparr>) = mp s"
  "mp (s\<lparr>ms_next := n\<rparr>) = mp s" "mc (s\<lparr>ms_next := n\<rparr>) = mc s"
  "mpk (s\<lparr>ms_next := n\<rparr>) = mpk s" "mck (s\<lparr>ms_next := n\<rparr>) = mck s"
  "mpk (s\<lparr>ms_posts := ps\<rparr>) = mpk s" "mck (s\<lparr>ms_posts := ps\<rparr>) = mck s"
  "mpk (s\<lparr>ms_comments := cs\<rparr>) = mpk s" "mck (s\<lparr>ms_comments := cs\<rparr>) = mck s"
  "mpk (s\<lparr>ms_postKeys := k\<rparr>) = map_of k" "mck (s\<lparr>ms_postKeys := k\<rparr>) = mck s"
  "mpk (s\<lparr>ms_commentKeys := k\<rparr>) = mpk s" "mck (s\<lparr>ms_commentKeys := k\<rparr>) = map_of k"
  "mp (s\<lparr>ms_postKeys := k\<rparr>) = mp s" "mc (s\<lparr>ms_postKeys := k\<rparr>) = mc s"
  "mp (s\<lparr>ms_commentKeys := k\<rparr>) = mp s" "mc (s\<lparr>ms_commentKeys := k\<rparr>) = mc s"
  by (simp_all add: mp_def mc_def mpk_def mck_def)

lemma mem_invI:
  assumes "board_ok (mp s) (mc s)" and "distinct (map fst (ms_posts s))" and "distinct (map fst (ms_comments s))"
    and "0 < ms_next s" and "\<And>i. i \<in> dom (mp s) \<union> dom (mc s) \<Longrightarrow> i < ms_next s"
    and "\<And>k i. mpk s k = Some i \<Longrightarrow> i \<in> dom (mp s)" and "\<And>k i. mck s k = Some i \<Longrightarrow> i \<in> dom (mc s)"
  shows "mem_inv s"
  unfolding mem_inv_def ran_def using assms by blast

text \<open>Adding a post, with or without a key.\<close>

lemma mem_add_post:
  assumes inv: "mem_inv s" and p: "po_status p = ''active''" "po_deleted p = None" and i: "i = ms_next s"
    and s': "ms_posts s' = AList.update i (p\<lparr>po_id := i\<rparr>) (ms_posts s)" "ms_next s' = ms_next s + 1"
      "ms_comments s' = ms_comments s" "ms_commentKeys s' = ms_commentKeys s"
      "ms_postKeys s' = ms_postKeys s \<or> ms_postKeys s' = AList.update key i (ms_postKeys s)"
  shows "mem_inv s'" and "mp s' = (mp s)(i \<mapsto> p\<lparr>po_id := i\<rparr>)" and "mc s' = mc s" and "mck s' = mck s"
proof -
  show mp: "mp s' = (mp s)(i \<mapsto> p\<lparr>po_id := i\<rparr>)" and mc: "mc s' = mc s" and mck: "mck s' = mck s"
    by (simp_all add: mp_def mc_def mck_def s' update_conv')
  note d = mem_invD [OF inv]
  show "mem_inv s'"
  proof (rule mem_invI)
    show "board_ok (mp s') (mc s')"
      unfolding mp mc using d(1,4) mem_fresh [OF inv] p by (intro board_ok_new_post) (auto simp: i)
    show "distinct (map fst (ms_posts s'))" using d(2) by (simp add: s' distinct_update)
    show "j \<in> dom (mp s')" if "mpk s' k = Some j" for k j
      using that s'(5) d(7) [of k j] by (auto simp: mp mpk_def update_conv' split: if_splits)
    show "j < ms_next s'" if "j \<in> dom (mp s') \<union> dom (mc s')" for j
      using that d(5) [of j] d(6) [of j] by (force simp: mp mc i s'(2))
  qed (use d(3,4,8) mc mck in \<open>auto simp: s'\<close>)
qed

lemma mem_add_comment:
  assumes inv: "mem_inv s" and c: "co_status c = ''active''" "co_deleted c = None" and i: "i = ms_next s"
    and al: "comment_allowed (mp s) (mc s) c"
    and s': "ms_comments s' = AList.update i (c\<lparr>co_id := i\<rparr>) (ms_comments s)" "ms_next s' = ms_next s + 1"
      "ms_posts s' = ms_posts s" "ms_postKeys s' = ms_postKeys s"
      "ms_commentKeys s' = ms_commentKeys s \<or> ms_commentKeys s' = AList.update key i (ms_commentKeys s)"
  shows "mem_inv s'" and "mc s' = (mc s)(i \<mapsto> c\<lparr>co_id := i\<rparr>)" and "mp s' = mp s" and "mpk s' = mpk s"
proof -
  show mc: "mc s' = (mc s)(i \<mapsto> c\<lparr>co_id := i\<rparr>)" and mp: "mp s' = mp s" and mpk: "mpk s' = mpk s"
    by (simp_all add: mp_def mc_def mpk_def s' update_conv')
  note d = mem_invD [OF inv]
  show "mem_inv s'"
  proof (rule mem_invI)
    show "board_ok (mp s') (mc s')"
      unfolding mp mc using d(1,4,6) c al by (intro board_ok_new_comment) (auto simp: i)
    show "distinct (map fst (ms_comments s'))" using d(3) by (simp add: s' distinct_update)
    show "j \<in> dom (mc s')" if "mck s' k = Some j" for k j
      using that s'(5) d(8) [of k j] by (auto simp: mc mck_def update_conv' split: if_splits)
    show "j < ms_next s'" if "j \<in> dom (mp s') \<union> dom (mc s')" for j
      using that d(5) [of j] d(6) [of j] by (force simp: mp mc i s'(2))
  qed (use d(2,4,7) mp mpk in \<open>auto simp: s'\<close>)
qed

lemma mem_check_allowed: "mem_check_comment c s = None \<longleftrightarrow> comment_allowed (mp s) (mc s) c"
  by (auto simp: mem_check_comment_def comment_allowed_def post_active_def mp_def mc_def split: option.splits)

lemma mem_create_post:
  assumes inv: "mem_inv s" and p: "po_status p = ''active''" "po_deleted p = None"
    and c: "mem_CreatePost p s = (res, s')"
  shows "mem_inv s' \<and> mc s' = mc s \<and> (\<forall>e. res = Inl e \<longrightarrow> mp s' = mp s) \<and>
      (\<forall>x. res = Inr x \<longrightarrow> mp s (po_id x) = None \<and> x = p\<lparr>po_id := po_id x\<rparr> \<and> mp s' = (mp s)(po_id x \<mapsto> x))"
proof -
  from c have s': "res = Inr (p\<lparr>po_id := ms_next s\<rparr>)"
    "s' = s\<lparr>ms_next := ms_next s + 1, ms_posts := AList.update (ms_next s) (p\<lparr>po_id := ms_next s\<rparr>) (ms_posts s)\<rparr>"
    by (auto simp: mem_CreatePost_def allocateID_def Let_def)
  have "mem_inv s' \<and> mp s' = (mp s)(ms_next s \<mapsto> p\<lparr>po_id := ms_next s\<rparr>) \<and> mc s' = mc s"
    using mem_add_post [OF inv p refl, of s'] s'(2) by simp
  with s'(1) mem_fresh [OF inv] show ?thesis by simp
qed

lemma mem_create_comment:
  assumes inv: "mem_inv s" and p: "co_status c = ''active''" "co_deleted c = None"
    and c: "mem_CreateComment c s = (res, s')"
  shows "mem_inv s' \<and> mp s' = mp s \<and> (\<forall>e. res = Inl e \<longrightarrow> mc s' = mc s) \<and>
      (\<forall>x. res = Inr x \<longrightarrow> comment_allowed (mp s) (mc s) c \<and> mc s (co_id x) = None \<and>
         x = c\<lparr>co_id := co_id x\<rparr> \<and> mc s' = (mc s)(co_id x \<mapsto> x))"
proof (cases "mem_check_comment c s")
  case (Some e)
  with c inv show ?thesis by (auto simp: mem_CreateComment_def)
next
  case None
  with c have s': "res = Inr (c\<lparr>co_id := ms_next s\<rparr>)"
    "s' = s\<lparr>ms_next := ms_next s + 1, ms_comments := AList.update (ms_next s) (c\<lparr>co_id := ms_next s\<rparr>) (ms_comments s)\<rparr>"
    by (auto simp: mem_CreateComment_def allocateID_def Let_def)
  from None have al: "comment_allowed (mp s) (mc s) c" by (simp add: mem_check_allowed)
  have "mem_inv s' \<and> mc s' = (mc s)(ms_next s \<mapsto> c\<lparr>co_id := ms_next s\<rparr>) \<and> mp s' = mp s"
    using mem_add_comment [OF inv p refl al, of s'] s'(2) by simp
  with s'(1) al mem_fresh [OF inv] show ?thesis by simp
qed

lemma mem_post_key:
  assumes inv: "mem_inv s" and p: "po_status p = ''active''" "po_deleted p = None"
    and c: "mem_CreatePostIdempotent p key s = (res, s')"
  shows "mem_inv s' \<and> mc s' = mc s \<and> mck s' = mck s \<and> (\<forall>e. res = Inl e \<longrightarrow> mp s' = mp s \<and> mpk s' = mpk s) \<and>
      (\<forall>r. res = Inr r \<longrightarrow>
         (case mpk s key of
            Some i \<Rightarrow> r = mp s i \<and> mp s' = mp s \<and> mpk s' = mpk s
          | None \<Rightarrow> (\<exists>x. r = Some x \<and> mp s (po_id x) = None \<and> x = p\<lparr>po_id := po_id x\<rparr> \<and>
                       mp s' = (mp s)(po_id x \<mapsto> x) \<and> mpk s' = (mpk s)(key \<mapsto> po_id x))))"
proof (cases "mpk s key")
  case (Some i)
  with c inv show ?thesis by (auto simp: mem_CreatePostIdempotent_def mpk_def mp_def)
next
  case None
  with c have s': "res = Inr (Some (p\<lparr>po_id := ms_next s\<rparr>))"
    "s' = s\<lparr>ms_next := ms_next s + 1, ms_posts := AList.update (ms_next s) (p\<lparr>po_id := ms_next s\<rparr>) (ms_posts s),
       ms_postKeys := AList.update key (ms_next s) (ms_postKeys s)\<rparr>"
    by (auto simp: mem_CreatePostIdempotent_def allocateID_def Let_def mpk_def)
  have "mem_inv s' \<and> mp s' = (mp s)(ms_next s \<mapsto> p\<lparr>po_id := ms_next s\<rparr>) \<and> mc s' = mc s \<and> mck s' = mck s"
    using mem_add_post [OF inv p refl, of s' key] s'(2) by simp
  moreover have "mpk s' = (mpk s)(key \<mapsto> ms_next s)" by (simp add: s'(2) mpk_def update_conv')
  ultimately show ?thesis using s'(1) None mem_fresh [OF inv] by simp
qed

lemma mem_comment_key:
  assumes inv: "mem_inv s" and p: "co_status c = ''active''" "co_deleted c = None"
    and c: "mem_CreateCommentIdempotent c key s = (res, s')"
  shows "mem_inv s' \<and> mp s' = mp s \<and> mpk s' = mpk s \<and> (\<forall>e. res = Inl e \<longrightarrow> mc s' = mc s \<and> mck s' = mck s) \<and>
      (\<forall>r. res = Inr r \<longrightarrow>
         (case mck s key of
            Some i \<Rightarrow> r = mc s i \<and> mc s' = mc s \<and> mck s' = mck s
          | None \<Rightarrow> (\<exists>x. r = Some x \<and> comment_allowed (mp s) (mc s) c \<and> mc s (co_id x) = None \<and>
                       x = c\<lparr>co_id := co_id x\<rparr> \<and> mc s' = (mc s)(co_id x \<mapsto> x) \<and>
                       mck s' = (mck s)(key \<mapsto> co_id x))))"
proof (cases "mck s key")
  case (Some i)
  with c inv show ?thesis by (auto simp: mem_CreateCommentIdempotent_def mck_def mc_def)
next
  case None
  show ?thesis
  proof (cases "mem_check_comment c s")
    case (Some e)
    with c inv None show ?thesis by (auto simp: mem_CreateCommentIdempotent_def mck_def)
  next
    case ok: None
    with None c have s': "res = Inr (Some (c\<lparr>co_id := ms_next s\<rparr>))"
      "s' = s\<lparr>ms_next := ms_next s + 1, ms_comments := AList.update (ms_next s) (c\<lparr>co_id := ms_next s\<rparr>) (ms_comments s),
         ms_commentKeys := AList.update key (ms_next s) (ms_commentKeys s)\<rparr>"
      by (auto simp: mem_CreateCommentIdempotent_def allocateID_def Let_def mck_def)
    from ok have al: "comment_allowed (mp s) (mc s) c" by (simp add: mem_check_allowed)
    have "mem_inv s' \<and> mc s' = (mc s)(ms_next s \<mapsto> c\<lparr>co_id := ms_next s\<rparr>) \<and> mp s' = mp s \<and> mpk s' = mpk s"
      using mem_add_comment [OF inv p refl al, of s' key] s'(2) by simp
    moreover have "mck s' = (mck s)(key \<mapsto> ms_next s)" by (simp add: s'(2) mck_def update_conv')
    ultimately show ?thesis using s'(1) None al mem_fresh [OF inv] by simp
  qed
qed

section \<open>Purges\<close>

lemma mem_inv_same_dom:
  assumes inv: "mem_inv s" and ok: "board_ok (mp s') (mc s')" and dom: "dom (mp s') = dom (mp s)" "dom (mc s') = dom (mc s)"
    and s': "ms_next s' = ms_next s" "ms_postKeys s' = ms_postKeys s" "ms_commentKeys s' = ms_commentKeys s"
      "distinct (map fst (ms_posts s'))" "distinct (map fst (ms_comments s'))"
  shows "mem_inv s'"
  using assms by (auto simp: mem_inv_def mpk_def mck_def)

lemma mem_purge_post:
  assumes inv: "mem_inv s" and c: "mem_PurgePost ctx i now s = (err, s')"
  shows "mem_inv s' \<and> (err \<noteq> None \<longrightarrow> mp s' = mp s \<and> mc s' = mc s) \<and>
      (err = None \<longrightarrow> requirePurgeAudit ctx = None \<and>
         (\<exists>p p'. mp s i = Some p \<and> po_status p = ''active'' \<and> purged_post now p p' \<and> mp s' = (mp s)(i \<mapsto> p')) \<and>
         comments_purged (\<lambda>c. co_post c = i) now (mc s) (mc s'))"
proof (cases "err = None")
  case False
  with c inv show ?thesis by (auto simp: mem_PurgePost_def split: option.splits if_splits)
next
  case True
  let ?f = "\<lambda>c. if co_post c = i \<and> co_status c = ''active'' then scrubComment now c else c"
  from c True obtain p where ctx: "requirePurgeAudit ctx = None" and p: "mp s i = Some p" "po_status p = ''active''"
    and s': "s' = s\<lparr>ms_posts := AList.update i (scrubPost now p) (ms_posts s),
      ms_comments := map (\<lambda>(k, c). (k, ?f c)) (ms_comments s)\<rparr>"
    by (auto simp: mem_PurgePost_def mp_def split: option.splits if_splits)
  have mp': "mp s' = (mp s)(i \<mapsto> scrubPost now p)" by (simp add: s' mp_def update_conv')
  have "ms_comments s' = map (\<lambda>(k, c). (k, ?f c)) (ms_comments s)" by (simp add: s')
  with map_of_map [of ?f "ms_comments s"] have "map_of (ms_comments s') = map_option ?f \<circ> map_of (ms_comments s)"
    by (simp only:)
  then have mc': "mc s' j = map_option ?f (mc s j)" for j by (simp add: mc_def)
  have pur: "comments_purged (\<lambda>c. co_post c = i) now (mc s) (mc s')"
    by (rule comments_purgedI [where g = "scrubComment now", OF mc']) (simp add: purged_comment_def scrubComment_def)
  have pp: "purged_post now p (scrubPost now p)" by (simp add: purged_post_def scrubPost_def)
  have "mem_inv s'"
  proof (rule mem_inv_same_dom [OF inv])
    show "board_ok (mp s') (mc s')" unfolding mp' by (rule board_ok_purge_post [OF mem_invD(1) [OF inv] p(1) pp pur])
    show "dom (mp s') = dom (mp s)" using p(1) by (auto simp: mp')
    show "dom (mc s') = dom (mc s)" by (auto simp: dom_def mc')
    show "distinct (map fst (ms_posts s'))" using mem_invD(2) [OF inv] by (simp add: s' distinct_update)
    have "map fst (ms_comments s') = map fst (ms_comments s)" by (simp add: s' case_prod_beta comp_def)
    then show "distinct (map fst (ms_comments s'))" using mem_invD(3) [OF inv] by simp
  qed (simp_all add: s')
  with True ctx p mp' pur pp show ?thesis by blast
qed

lemma mem_purge_comment:
  assumes inv: "mem_inv s" and c: "mem_PurgeComment ctx i now s = (err, s')"
  shows "mem_inv s' \<and> mp s' = mp s \<and> (err \<noteq> None \<longrightarrow> mc s' = mc s) \<and>
      (err = None \<longrightarrow> requirePurgeAudit ctx = None \<and> (\<exists>c. mc s i = Some c \<and> co_status c = ''active'') \<and>
         comments_purged (\<lambda>c. co_id c = i) now (mc s) (mc s'))"
proof (cases "err = None")
  case False
  with c inv show ?thesis by (auto simp: mem_PurgeComment_def split: option.splits if_splits)
next
  case True
  from c True obtain p where ctx: "requirePurgeAudit ctx = None" and p: "mc s i = Some p" "co_status p = ''active''"
    and s': "s' = s\<lparr>ms_comments := AList.update i (scrubComment now p) (ms_comments s)\<rparr>"
    by (auto simp: mem_PurgeComment_def mc_def split: option.splits if_splits)
  have mc': "mc s' = (mc s)(i \<mapsto> scrubComment now p)" by (simp add: s' mc_def update_conv')
  have ids: "co_id d = j" if "mc s j = Some d" for j d using board_ok_comment [OF mem_invD(1) [OF inv] that] by simp
  have pur: "comments_purged (\<lambda>c. co_id c = i) now (mc s) (mc s')"
  proof (rule comments_purgedI [where g = "scrubComment now"])
    show "mc s' j = map_option (\<lambda>c. if co_id c = i \<and> co_status c = ''active'' then scrubComment now c else c) (mc s j)" for j
      using p ids [of j] by (cases "mc s j"; cases "j = i") (simp_all add: mc')
  qed (simp add: purged_comment_def scrubComment_def)
  have "mem_inv s'"
  proof (rule mem_inv_same_dom [OF inv])
    show "board_ok (mp s') (mc s')"
      using board_ok_purge_comments [OF mem_invD(1) [OF inv] pur] by (simp add: s')
    show "dom (mc s') = dom (mc s)" using p(1) by (auto simp: mc')
    show "distinct (map fst (ms_comments s'))" using mem_invD(3) [OF inv] by (simp add: s' distinct_update)
  qed (use mem_invD(2) [OF inv] in \<open>simp_all add: s'\<close>)
  with True ctx p pur show ?thesis by (auto simp: s')
qed

section \<open>The contracts\<close>

interpretation mem_board: board_store_laws mem_board_store mp mc mem_inv
proof (unfold_locales, unfold mem_board_store_def board_store.simps, goal_cases)
  case 1 then show ?case by (rule mem_invD(1))
next
  case 2 then show ?case by (rule mem_create_post)
next
  case 3 then show ?case by (auto simp: mem_GetPost_def mp_def)
next
  case 4 then show ?case by (auto simp: mem_list_posts)
next
  case (5 w q) with mem_search [of w q] show ?case by auto
next
  case 6 then show ?case by (rule mem_create_comment)
next
  case 7 then show ?case by (auto simp: mem_GetComment_def mc_def)
next
  case 8 then show ?case by (simp add: mem_list_comments)
next
  case 9 then show ?case by (auto simp: mem_path)
next
  case 10 then show ?case by (rule mem_purge_post)
next
  case 11 then show ?case by (rule mem_purge_comment)
qed

definition mem_idempotent_store :: "memory_store idempotent_write_store" where
  "mem_idempotent_store =
     \<lparr>iw_CreatePostIdempotent = mem_CreatePostIdempotent, iw_CreateCommentIdempotent = mem_CreateCommentIdempotent\<rparr>"

interpretation mem_replay: idempotent_store_laws mem_board_store mp mc mem_inv mem_idempotent_store mpk mck
proof (unfold_locales, unfold mem_idempotent_store_def idempotent_write_store.simps, goal_cases)
  case 1 then show ?case by (simp add: mem_board_store_def)
next
  case 2 then show ?case using mem_invD(7,8) by blast
next
  case 3 then show ?case by (rule mem_post_key)
next
  case 4 then show ?case by (rule mem_comment_key)
qed

end
