(* ===== verification/Board_Client.thy ===== *)
theory Board_Client
  imports Board_Mem
begin

text \<open>
  The operations of the board service over any store that keeps the contracts and any project
  validator that leaves the store alone: what a read shows, what a write has checked, and the
  relation \<open>board_evolves\<close> that every operation keeps: posts and comments never disappear or move,
  and the only change to one is its purge.
\<close>

section \<open>How a board evolves\<close>

definition post_evolves :: "post \<Rightarrow> post \<Rightarrow> bool" where
  "post_evolves p p' \<longleftrightarrow> p' = p \<or>
     po_status p = ''active'' \<and> po_status p' = ''deleted'' \<and> scrubbed_post p' \<and> po_project p' = po_project p"

definition comment_evolves :: "comment \<Rightarrow> comment \<Rightarrow> bool" where
  "comment_evolves c c' \<longleftrightarrow> c' = c \<or>
     co_status c = ''active'' \<and> co_status c' = ''deleted'' \<and> scrubbed_comment c' \<and>
     co_post c' = co_post c \<and> co_parent c' = co_parent c"

definition board_evolves :: "posts \<Rightarrow> comments \<Rightarrow> posts \<Rightarrow> comments \<Rightarrow> bool" where
  "board_evolves P C P' C' \<longleftrightarrow>
     (\<forall>i p. P i = Some p \<longrightarrow> (\<exists>p'. P' i = Some p' \<and> post_evolves p p')) \<and>
     (\<forall>i c. C i = Some c \<longrightarrow> (\<exists>c'. C' i = Some c' \<and> comment_evolves c c'))"

lemma board_evolves_refl [simp]: "board_evolves P C P C"
  by (simp add: board_evolves_def post_evolves_def comment_evolves_def)

lemma post_evolves_trans: "post_evolves a b \<Longrightarrow> post_evolves b c \<Longrightarrow> post_evolves a c"
  by (auto simp: post_evolves_def)

lemma comment_evolves_trans: "comment_evolves a b \<Longrightarrow> comment_evolves b c \<Longrightarrow> comment_evolves a c"
  by (auto simp: comment_evolves_def)

lemma board_evolves_trans: "board_evolves P C P' C' \<Longrightarrow> board_evolves P' C' P'' C'' \<Longrightarrow> board_evolves P C P'' C''"
  unfolding board_evolves_def by (meson post_evolves_trans comment_evolves_trans)

lemma board_evolves_new_post: "P i = None \<Longrightarrow> board_evolves P C (P(i \<mapsto> p)) C"
  by (auto simp: board_evolves_def post_evolves_def comment_evolves_def)

lemma board_evolves_new_comment: "C i = None \<Longrightarrow> board_evolves P C P (C(i \<mapsto> c))"
  by (auto simp: board_evolves_def post_evolves_def comment_evolves_def)

lemma board_evolves_purge:
  assumes "comments_purged Q now C C'" and "P' = P \<or> (\<exists>p p'. P i = Some p \<and> po_status p = ''active'' \<and> purged_post now p p' \<and> P' = P(i \<mapsto> p'))"
  shows "board_evolves P C P' C'"
proof -
  have "\<exists>c'. C' j = Some c' \<and> comment_evolves c c'" if "C j = Some c" for j c
    using comments_purged_at(2) [OF assms(1) that] unfolding comment_evolves_def by blast
  moreover have "\<exists>p'. P' j = Some p' \<and> post_evolves p p'" if "P j = Some p" for j p
    using assms(2) that post_ok_purged unfolding post_evolves_def by fastforce
  ultimately show ?thesis unfolding board_evolves_def by blast
qed

text \<open>What a creation hands to the store.\<close>

definition post_for :: "string \<Rightarrow> create_post_request \<Rightarrow> post \<Rightarrow> bool" where
  "post_for project req p \<longleftrightarrow>
     po_status p = ''active'' \<and> po_deleted p = None \<and> po_project p = trim_space project \<and> po_project p \<noteq> [] \<and>
     po_title p = trim_space (cpr_title req) \<and> po_title p \<noteq> [] \<and>
     po_body p = trim_space (cpr_body req) \<and> po_body p \<noteq> [] \<and>
     po_author p = trim_space (cpr_author req) \<and> po_author p \<noteq> []"

lemma post_for_id: "post_for project req (p\<lparr>po_id := i\<rparr>) = post_for project req p"
  by (simp add: post_for_def)

definition comment_for :: "int \<Rightarrow> create_comment_request \<Rightarrow> comment \<Rightarrow> bool" where
  "comment_for postID req c \<longleftrightarrow>
     co_status c = ''active'' \<and> co_deleted c = None \<and> co_post c = postID \<and> co_parent c = ccr_parent req \<and>
     co_body c = trim_space (ccr_body req) \<and> co_body c \<noteq> [] \<and>
     co_author c = trim_space (ccr_author req) \<and> co_author c \<noteq> []"

lemma comment_for_id: "comment_for postID req (c\<lparr>co_id := i\<rparr>) = comment_for postID req c"
  by (simp add: comment_for_def)

section \<open>The service over a store\<close>

locale board_client = idempotent_store_laws "bv_store s" P C inv ist pk ck
  for s :: "'w board_service" and P :: "'w \<Rightarrow> posts" and C :: "'w \<Rightarrow> comments" and inv :: "'w \<Rightarrow> bool"
    and ist :: "'w idempotent_write_store" and pk :: "'w \<Rightarrow> string \<Rightarrow> int option" and ck :: "'w \<Rightarrow> string \<Rightarrow> int option" +
  assumes writable: "inv w \<Longrightarrow> bv_AssertWritable s p w = (err, w') \<Longrightarrow>
      inv w' \<and> P w' = P w \<and> C w' = C w \<and> pk w' = pk w \<and> ck w' = ck w"
    and get_keys: "inv w \<Longrightarrow> bo_GetPost (bv_store s) i w = (gpres, w') \<Longrightarrow> pk w' = pk w \<and> ck w' = ck w"
    and get_comment_keys: "inv w \<Longrightarrow> bo_GetComment (bv_store s) i w = (gcres, w') \<Longrightarrow> pk w' = pk w \<and> ck w' = ck w"
    and limits_ok: "limits_validate (bv_limits s) = None"
begin

lemma pageLimit_pos: "pageLimit s l = Inr n \<Longrightarrow> 0 < n \<and> n \<le> lm_MaxPageSize (bv_limits s)"
  using limits_ok by (auto simp: pageLimit_def limits_validate_def split: if_splits)

lemma pathLimit_pos: "pathLimit s l = Inr n \<Longrightarrow> 0 < n \<and> n \<le> lm_MaxPathComments (bv_limits s)"
  using limits_ok by (auto simp: pathLimit_def limits_validate_def split: if_splits)

text \<open>Everything the service can see of a world.\<close>

definition same :: "'w \<Rightarrow> 'w \<Rightarrow> bool" where
  "same w w' \<longleftrightarrow> inv w' \<and> P w' = P w \<and> C w' = C w \<and> pk w' = pk w \<and> ck w' = ck w"

lemma same_get: "inv w \<Longrightarrow> bo_GetPost (bv_store s) i w = (r, w') \<Longrightarrow> same w w' \<and> (\<forall>x. r = Inr x \<longrightarrow> x = P w i)"
  using get_post get_keys by (simp add: same_def)

lemma same_get_comment: "inv w \<Longrightarrow> bo_GetComment (bv_store s) i w = (r, w') \<Longrightarrow> same w w' \<and> (\<forall>x. r = Inr x \<longrightarrow> x = C w i)"
  using get_comment get_comment_keys by (simp add: same_def)

lemma same_writable: "inv w \<Longrightarrow> bv_AssertWritable s p w = (r, w') \<Longrightarrow> same w w'"
  using writable by (simp add: same_def)

lemma same_trans: "same w v \<Longrightarrow> same v u \<Longrightarrow> same w u"
  by (simp add: same_def)

lemma same_refl: "inv w \<Longrightarrow> same w w"
  by (simp add: same_def)

lemma GetPost_ok:
  assumes "inv w" and "bs_GetPost s i w = (res, w')"
  shows "same w w' \<and> (\<forall>p. res = Inr p \<longrightarrow> P w i = Some p \<and> po_status p = ''active'')"
  using assms same_get [of w i] same_refl
  by (fastforce simp: bs_GetPost_def split: option.splits prod.splits sum.splits if_splits)

lemma GetComment_ok:
  assumes inv: "inv w" and c: "bs_GetComment s i w = (res, w')"
  shows "same w w' \<and> (\<forall>x. res = Inr x \<longrightarrow> C w i = Some x \<and> co_status x = ''active'')"
proof (cases "validateID i")
  case (Some e)
  with c inv show ?thesis by (auto simp: bs_GetComment_def same_refl)
next
  case None
  obtain g w1 where g: "bo_GetComment (bv_store s) i w = (g, w1)" by fastforce
  note w1 = same_get_comment [OF inv g]
  then have inv1: "inv w1" by (simp add: same_def)
  show ?thesis
  proof (cases "\<exists>x. g = Inr (Some x) \<and> co_status x = ''active''")
    case False
    with c None g w1 show ?thesis
      by (auto simp: bs_GetComment_def split: sum.splits option.splits if_splits)
  next
    case True
    then obtain x where x: "g = Inr (Some x)" "co_status x = ''active''" by blast
    obtain p w2 where p: "bo_GetPost (bv_store s) (co_post x) w1 = (p, w2)" by fastforce
    from same_get [OF inv1 p] w1 have "same w w2" by (blast intro: same_trans)
    with c None g p x w1 show ?thesis
      by (auto simp: bs_GetComment_def split: sum.splits if_splits)
  qed
qed

lemma ListPosts_ok:
  assumes inv: "inv w" and c: "bs_ListPosts s project q w = (res, w')"
  shows "inv w' \<and> P w' = P w \<and> C w' = C w \<and>
    (\<forall>x. res = Inr x \<longrightarrow> (\<exists>n. pageLimit s (lq_limit q) = Inr n \<and> 0 \<le> lq_after q \<and>
       x = postPage (post_list (P w) (trim_space project) (lq_after q)) n))"
proof (cases "trim_space project \<noteq> [] \<and> validateProjectID (bv_limits s) (trim_space project) = None \<and>
    validateAfterID (lq_after q) = None \<and> (\<exists>n. pageLimit s (lq_limit q) = Inr n)")
  case True
  then obtain n where n: "pageLimit s (lq_limit q) = Inr n" and "0 \<le> lq_after q"
    by (auto simp: validateAfterID_def split: if_splits)
  moreover from True n c have
    "bo_ListPosts (bv_store s) (q\<lparr>lq_project := trim_space project, lq_limit := n\<rparr>) w = (res, w')"
    by (simp add: bs_ListPosts_def Let_def)
  from list_posts [OF inv _ this] pageLimit_pos [OF n] have "inv w' \<and> P w' = P w \<and> C w' = C w \<and>
      (\<forall>x. res = Inr x \<longrightarrow> x = postPage (post_list (P w) (trim_space project) (lq_after q)) n)" by simp
  ultimately show ?thesis by blast
next
  case False
  with c inv show ?thesis
    by (auto simp: bs_ListPosts_def Let_def split: option.splits sum.splits if_splits)
qed

lemma check_list_parent_same:
  "inv w \<Longrightarrow> check_list_parent s postID par w = (err, w') \<Longrightarrow> same w w'"
  using same_get_comment [of w "the par"] same_refl [of w]
  by (auto simp: check_list_parent_def split: option.splits sum.splits prod.splits if_splits)

lemma check_parent_same:
  "inv w \<Longrightarrow> check_parent s postID par w = (err, w') \<Longrightarrow> same w w'"
  using same_get_comment [of w "the par"] same_refl [of w]
  by (auto simp: check_parent_def split: option.splits sum.splits prod.splits if_splits)

text \<open>Listing comments always returns.\<close>

lemma ListComments_ok:
  assumes inv: "inv w"
  shows "\<exists>res w'. bs_ListComments s postID q w = Some (res, w') \<and> inv w' \<and> P w' = P w \<and> C w' = C w \<and>
    (\<forall>x. res = Inr x \<longrightarrow> (\<exists>n. pageLimit s (cq_limit q) = Inr n \<and> 0 \<le> cq_after q \<and>
       post_active (P w postID) \<and> x = commentPage (comment_list (C w) postID (cq_parent q) (cq_after q)) n))"
proof (cases "validateID postID")
  case (Some e)
  with inv show ?thesis by (simp add: bs_ListComments_def)
next
  case None
  obtain g w1 where g: "bo_GetPost (bv_store s) postID w = (g, w1)" by fastforce
  note w1 = same_get [OF inv g]
  show ?thesis
  proof (cases "\<exists>p. g = Inr (Some p) \<and> po_status p = ''active'' \<and> validateAfterID (cq_after q) = None")
    case False
    with None g w1 show ?thesis
      by (auto simp: bs_ListComments_def same_def split: sum.splits option.splits)
  next
    case True
    then obtain p where p: "g = Inr (Some p)" "po_status p = ''active''" "validateAfterID (cq_after q) = None" by blast
    from w1 p(1) have "P w postID = Some p" by auto
    with p(2) have act: "post_active (P w postID)" by (simp add: post_active_def)
    obtain err w2 where k: "check_list_parent s postID (cq_parent q) w1 = (err, w2)" by fastforce
    from check_list_parent_same [OF _ k] w1 have w2: "same w w2" by (auto simp: same_def)
    show ?thesis
    proof (cases "\<exists>n. err = None \<and> pageLimit s (cq_limit q) = Inr n")
      case False
      with None g p k w2 show ?thesis
        by (auto simp: bs_ListComments_def same_def split: option.splits sum.splits)
    next
      case True
      then obtain n where n: "err = None" "pageLimit s (cq_limit q) = Inr n" by blast
      from w2 have i2: "inv w2" by (simp add: same_def)
      have "0 < cq_limit (q\<lparr>cq_post := postID, cq_limit := n\<rparr>)" using pageLimit_pos [OF n(2)] by simp
      from list_comments [OF i2 this] obtain res w3 where
        "bo_ListComments (bv_store s) (q\<lparr>cq_post := postID, cq_limit := n\<rparr>) w2 = Some (res, w3)"
        "inv w3" "P w3 = P w2" "C w3 = C w2"
        "\<forall>x. res = Inr x \<longrightarrow> x = commentPage (comment_list (C w2) postID (cq_parent q) (cq_after q)) n" by auto
      moreover have "0 \<le> cq_after q" using p(3) by (auto simp: validateAfterID_def split: if_splits)
      ultimately show ?thesis
        using None g p k n w2 act by (auto simp: bs_ListComments_def same_def)
    qed
  qed
qed

lemma Search_ok:
  assumes inv: "inv w" and c: "bs_Search s project q w = (res, w')"
  shows "inv w' \<and> P w' = P w \<and> C w' = C w \<and>
    (\<forall>x. res = Inr x \<longrightarrow> (\<forall>r\<in>set (sp_results x). visible_hit (P w) (C w) (trim_space project) r))"
proof (cases "\<exists>n. trim_space project \<noteq> [] \<and> trim_space (sq_query q) \<noteq> [] \<and>
    first_error [validateProjectID (bv_limits s) (trim_space project),
      validateSearchQuery (bv_limits s) (trim_space (sq_query q)), validateAfterID (sq_after q)] = None \<and>
    pageLimit s (sq_limit q) = Inr n")
  case True
  then obtain n where n: "pageLimit s (sq_limit q) = Inr n" by blast
  let ?q = "q\<lparr>sq_query := trim_space (sq_query q), sq_project := trim_space project, sq_limit := n\<rparr>"
  from True n c have "bo_Search (bv_store s) ?q w = (res, w')" by (simp add: bs_Search_def Let_def)
  from search [OF inv _ this] pageLimit_pos [OF n] show ?thesis by simp
next
  case False
  with c inv show ?thesis
    by (auto simp: bs_Search_def Let_def split: option.splits sum.splits if_splits)
qed

lemma GetCommentPath_ok:
  assumes inv: "inv w" and c: "bs_GetCommentPath s i limit w = (res, w')"
  shows "inv w' \<and> P w' = P w \<and> C w' = C w \<and>
    (\<forall>x. res = Inr x \<longrightarrow> (\<exists>n y. pathLimit s limit = Inr n \<and> y = path_of (P w) (C w) i n \<and>
       post_active (cpa_post y) \<and> cpa_comments y \<noteq> [] \<and> co_id (last (cpa_comments y)) = i \<and>
       co_status (last (cpa_comments y)) = ''active'' \<and>
       x = y\<lparr>cpa_comments := map redact_deleted (cpa_comments y)\<rparr>))"
proof (cases "\<exists>n. validateID i = None \<and> pathLimit s limit = Inr n")
  case False
  with c inv show ?thesis by (auto simp: bs_GetCommentPath_def split: option.splits sum.splits)
next
  case True
  then obtain n where n: "validateID i = None" "pathLimit s limit = Inr n" by blast
  obtain g w1 where g: "bo_GetCommentPath (bv_store s) i n w = (g, w1)" by fastforce
  note w1 = path [OF inv _ g] pathLimit_pos [OF n(2)]
  show ?thesis
  proof (cases g)
    case (Inl e)
    with c n g w1 show ?thesis by (auto simp: bs_GetCommentPath_def)
  next
    case (Inr y)
    let ?shown = "post_active (cpa_post y) \<and> cpa_comments y \<noteq> [] \<and> co_id (last (cpa_comments y)) = i \<and>
        co_status (last (cpa_comments y)) = ''active''"
    have "w' = w1 \<and> res = (if ?shown then Inr (y\<lparr>cpa_comments := map redact_deleted (cpa_comments y)\<rparr>)
        else Inl commentNotFound)"
      using c n g Inr by (auto simp: bs_GetCommentPath_def split: if_splits)
    moreover have "y = path_of (P w) (C w) i n \<and> inv w1 \<and> P w1 = P w \<and> C w1 = C w" using w1 Inr by auto
    ultimately show ?thesis using n(2) by (cases ?shown) simp_all
  qed
qed

lemma CreatePost_cases:
  assumes inv: "inv w" and c: "bs_CreatePost s project req w = (res, w')"
  obtains (err) e where "res = Inl e" and "same w w'"
  | (plain) p w1 r where "same w w1" and "post_for project req p" and "trim_space (cpr_key req) = []"
      and "bo_CreatePost (bv_store s) p w1 = (r, w')" and "res = map_sum id Some r"
  | (key) p w1 where "same w w1" and "post_for project req p" and "trim_space (cpr_key req) \<noteq> []"
      and "iw_CreatePostIdempotent ist p (trim_space (cpr_key req)) w1 = (res, w')"
proof -
  let ?pid = "trim_space project"
  consider (a) "?pid = []" | (b) e where "?pid \<noteq> []" "validatePostFields (bv_limits s) ?pid req = Some e"
    | (c) "?pid \<noteq> []" "validatePostFields (bv_limits s) ?pid req = None" by blast
  then show thesis
  proof cases
    case a
    with c inv err show ?thesis by (auto simp: bs_CreatePost_def Let_def same_refl)
  next
    case b
    with c inv err show ?thesis by (auto simp: bs_CreatePost_def Let_def same_refl)
  next
    case valid: c
    obtain e w1 where a: "bv_AssertWritable s ?pid w = (e, w1)" by fastforce
    note w1 = same_writable [OF inv a]
    obtain n where n: "NewPost (bv_wall s w1) \<lparr>po_id = 0, po_project = ?pid, po_title = cpr_title req,
        po_body = cpr_body req, po_author = cpr_author req, po_metadata = cpr_metadata req,
        po_status = PostStatusActive, po_created = bv_clock s w1, po_updated = bv_clock s w1, po_deleted = None\<rparr> = n" by blast
    show ?thesis
    proof (cases "e = None \<and> (\<exists>p. n = Inr p)")
      case False
      then have "\<exists>x. res = Inl x \<and> w' = w1"
        using c valid a n by (cases e; cases n) (auto simp: bs_CreatePost_def Let_def)
      with err w1 show ?thesis by blast
    next
      case True
      then obtain p where p: "e = None" "n = Inr p" by blast
      from NewPost_Inr [OF n [unfolded p(2)]] have pf: "post_for project req p" by (auto simp: post_for_def)
      have step: "(case (trim_space (cpr_key req) = [], bo_idempotent (bv_store s)) of
            (False, Some st) \<Rightarrow> iw_CreatePostIdempotent st p (trim_space (cpr_key req)) w1
          | _ \<Rightarrow> (case bo_CreatePost (bv_store s) p w1 of (Inl e, w2) \<Rightarrow> (Inl e, w2) | (Inr p, w2) \<Rightarrow> (Inr (Some p), w2))) = (res, w')"
        using c valid a n p by (simp add: bs_CreatePost_def Let_def)
      show ?thesis
      proof (cases "trim_space (cpr_key req) = []")
        case True
        obtain r w2 where b: "bo_CreatePost (bv_store s) p w1 = (r, w2)" by fastforce
        with step True have "w2 = w' \<and> res = map_sum id Some r" by (cases r) auto
        with plain [OF w1 pf True] b show ?thesis by blast
      next
        case False
        with step offered have "iw_CreatePostIdempotent ist p (trim_space (cpr_key req)) w1 = (res, w')" by simp
        with key [OF w1 pf False] show ?thesis by blast
      qed
    qed
  qed
qed

lemma CreatePost_ok:
  assumes inv: "inv w" and c: "bs_CreatePost s project req w = (res, w')"
  shows "inv w' \<and> C w' = C w \<and>
    ((P w' = P w \<and> (\<forall>r. res = Inr r \<longrightarrow> (\<exists>i. pk w (trim_space (cpr_key req)) = Some i \<and> r = P w i \<and> r \<noteq> None))) \<or>
     (\<exists>x. res = Inr (Some x) \<and> P w (po_id x) = None \<and> P w' = (P w)(po_id x \<mapsto> x) \<and> post_for project req x \<and>
        (trim_space (cpr_key req) \<noteq> [] \<longrightarrow>
           pk w (trim_space (cpr_key req)) = None \<and> pk w' (trim_space (cpr_key req)) = Some (po_id x))))"
  using inv c
proof (cases rule: CreatePost_cases)
  case (err e)
  then show ?thesis by (simp add: same_def)
next
  case (plain p w1 r)
  then have w1: "inv w1" "P w1 = P w" "C w1 = C w" by (auto simp: same_def)
  from plain(2) have "po_status p = ''active''" "po_deleted p = None" by (auto simp: post_for_def)
  note cp = create_post [OF w1(1) this plain(4)]
  show ?thesis
  proof (cases r)
    case (Inl e)
    with cp w1 plain show ?thesis by simp
  next
    case (Inr x)
    with cp w1 have x: "inv w'" "C w' = C w" "P w (po_id x) = None" "P w' = (P w)(po_id x \<mapsto> x)" "x = p\<lparr>po_id := po_id x\<rparr>"
      by auto
    from x(5) plain(2) have "post_for project req x" by (metis post_for_id)
    with x Inr plain show ?thesis by simp
  qed
next
  case (key p w1)
  then have w1: "inv w1" "P w1 = P w" "C w1 = C w" "pk w1 = pk w" by (auto simp: same_def)
  from key(2) have "po_status p = ''active''" "po_deleted p = None" by (auto simp: post_for_def)
  note cp = post_key [OF w1(1) this key(4)]
  show ?thesis
  proof (cases res)
    case (Inl e)
    with cp w1 show ?thesis by simp
  next
    case (Inr r)
    show ?thesis
    proof (cases "pk w (trim_space (cpr_key req))")
      case (Some i)
      with cp w1 Inr keys [OF inv, of "trim_space (cpr_key req)" i] show ?thesis by simp
    next
      case None
      with cp w1 Inr obtain x where x: "r = Some x" "P w (po_id x) = None" "x = p\<lparr>po_id := po_id x\<rparr>"
        "P w' = (P w)(po_id x \<mapsto> x)" "pk w' = (pk w)(trim_space (cpr_key req) \<mapsto> po_id x)" "inv w'" "C w' = C w" by auto
      from x(3) key(2) have "post_for project req x" by (metis post_for_id)
      with x Inr None show ?thesis by simp
    qed
  qed
qed

lemma CreateComment_cases:
  assumes inv: "inv w" and c: "bs_CreateComment s postID req w = (res, w')"
  obtains (err) e where "res = Inl e" and "same w w'"
  | (plain) d w1 r where "same w w1" and "comment_for postID req d" and "trim_space (ccr_key req) = []"
      and "bo_CreateComment (bv_store s) d w1 = (r, w')" and "res = map_sum id Some r"
  | (key) d w1 where "same w w1" and "comment_for postID req d" and "trim_space (ccr_key req) \<noteq> []"
      and "iw_CreateCommentIdempotent ist d (trim_space (ccr_key req)) w1 = (res, w')"
proof -
  consider (bad) e where "validateID postID = Some e \<or> (validateID postID = None \<and> validateCommentFields (bv_limits s) req = Some e)"
    | (valid) "validateID postID = None" "validateCommentFields (bv_limits s) req = None"
    by (metis not_None_eq)
  then show thesis
  proof cases
    case bad
    with c inv err show ?thesis by (auto simp: bs_CreateComment_def same_refl)
  next
    case valid
    obtain g w1 where g: "bo_GetPost (bv_store s) postID w = (g, w1)" by fastforce
    note w1 = same_get [OF inv g, THEN conjunct1]
    show ?thesis
    proof (cases "\<exists>p. g = Inr (Some p) \<and> po_status p = ''active''")
      case False
      then have "\<exists>x. res = Inl x \<and> w' = w1"
        using c valid g by (auto simp: bs_CreateComment_def split: sum.splits option.splits if_splits)
      with err w1 show ?thesis by blast
    next
      case True
      then obtain p where p: "g = Inr (Some p)" "po_status p = ''active''" by blast
      obtain e w2 where a: "bv_AssertWritable s (po_project p) w1 = (e, w2)" by fastforce
      from same_writable [OF _ a] w1 have w2: "same w w2" by (auto simp: same_def)
      obtain e2 w3 where k: "check_parent s postID (ccr_parent req) w2 = (e2, w3)" by fastforce
      from check_parent_same [OF _ k] w2 have w3: "same w w3" by (auto simp: same_def)
      obtain n where n: "NewComment (bv_wall s w3) \<lparr>co_id = 0, co_post = postID, co_parent = ccr_parent req,
          co_author = ccr_author req, co_body = ccr_body req, co_metadata = ccr_metadata req,
          co_status = CommentStatusActive, co_created = bv_clock s w3, co_updated = bv_clock s w3, co_deleted = None\<rparr> = n" by blast
      show ?thesis
      proof (cases "e = None \<and> e2 = None \<and> (\<exists>d. n = Inr d)")
        case False
        then have "\<exists>x. res = Inl x \<and> w' \<in> {w2, w3}"
          using c valid g p a k n by (cases e; cases e2; cases n) (auto simp: bs_CreateComment_def Let_def)
        with err w2 w3 show ?thesis by blast
      next
        case True
        then obtain d where d: "e = None" "e2 = None" "n = Inr d" by blast
        from NewComment_Inr [OF n [unfolded d(3)]] have cf: "comment_for postID req d" by (auto simp: comment_for_def)
        have step: "(case (trim_space (ccr_key req) = [], bo_idempotent (bv_store s)) of
              (False, Some st) \<Rightarrow> iw_CreateCommentIdempotent st d (trim_space (ccr_key req)) w3
            | _ \<Rightarrow> (case bo_CreateComment (bv_store s) d w3 of (Inl e, w4) \<Rightarrow> (Inl e, w4) | (Inr c, w4) \<Rightarrow> (Inr (Some c), w4))) = (res, w')"
          using c valid g p a k n d by (simp add: bs_CreateComment_def Let_def)
        show ?thesis
        proof (cases "trim_space (ccr_key req) = []")
          case True
          obtain r w4 where b: "bo_CreateComment (bv_store s) d w3 = (r, w4)" by fastforce
          with step True have "w4 = w' \<and> res = map_sum id Some r" by (cases r) auto
          with plain [OF w3 cf True] b show ?thesis by blast
        next
          case False
          with step offered have "iw_CreateCommentIdempotent ist d (trim_space (ccr_key req)) w3 = (res, w')" by simp
          with key [OF w3 cf False] show ?thesis by blast
        qed
      qed
    qed
  qed
qed

lemma CreateComment_ok:
  assumes inv: "inv w" and c: "bs_CreateComment s postID req w = (res, w')"
  shows "inv w' \<and> P w' = P w \<and>
    ((C w' = C w \<and> (\<forall>r. res = Inr r \<longrightarrow> (\<exists>i. ck w (trim_space (ccr_key req)) = Some i \<and> r = C w i \<and> r \<noteq> None))) \<or>
     (\<exists>x. res = Inr (Some x) \<and> C w (co_id x) = None \<and> C w' = (C w)(co_id x \<mapsto> x) \<and> comment_for postID req x \<and>
        comment_allowed (P w) (C w) x))"
  using inv c
proof (cases rule: CreateComment_cases)
  case (err e)
  then show ?thesis by (simp add: same_def)
next
  case (plain d w1 r)
  then have w1: "inv w1" "P w1 = P w" "C w1 = C w" by (auto simp: same_def)
  from plain(2) have "co_status d = ''active''" "co_deleted d = None" by (auto simp: comment_for_def)
  note cc = create_comment [OF w1(1) this plain(4)]
  show ?thesis
  proof (cases r)
    case (Inl e)
    with cc w1 plain show ?thesis by simp
  next
    case (Inr x)
    with cc w1 have x: "inv w'" "P w' = P w" "C w (co_id x) = None" "C w' = (C w)(co_id x \<mapsto> x)" "x = d\<lparr>co_id := co_id x\<rparr>"
      "comment_allowed (P w) (C w) d" by auto
    from x(5) plain(2) have cf: "comment_for postID req x" by (metis comment_for_id)
    from cf plain(2) x(6) have "comment_allowed (P w) (C w) x" by (simp add: comment_allowed_def comment_for_def)
    with x cf Inr plain show ?thesis by simp
  qed
next
  case (key d w1)
  then have w1: "inv w1" "P w1 = P w" "C w1 = C w" "ck w1 = ck w" by (auto simp: same_def)
  from key(2) have "co_status d = ''active''" "co_deleted d = None" by (auto simp: comment_for_def)
  note cc = comment_key [OF w1(1) this key(4)]
  show ?thesis
  proof (cases res)
    case (Inl e)
    with cc w1 show ?thesis by simp
  next
    case (Inr r)
    show ?thesis
    proof (cases "ck w (trim_space (ccr_key req))")
      case (Some i)
      with cc w1 Inr keys [OF inv, of "trim_space (ccr_key req)" i] show ?thesis by simp
    next
      case None
      with cc w1 Inr obtain x where x: "r = Some x" "C w (co_id x) = None" "x = d\<lparr>co_id := co_id x\<rparr>"
        "C w' = (C w)(co_id x \<mapsto> x)" "inv w'" "P w' = P w" "comment_allowed (P w) (C w) d" by auto
      from x(3) key(2) have cf: "comment_for postID req x" by (metis comment_for_id)
      from cf key(2) x(7) have "comment_allowed (P w) (C w) x" by (simp add: comment_allowed_def comment_for_def)
      with x cf Inr show ?thesis by simp
    qed
  qed
qed

text \<open>A purge is refused without an authenticated adapter identity or a reason.\<close>

lemma PurgePost_ok:
  assumes inv: "inv w" and c: "bs_PurgePost s ctx i req w = (err, w')"
  shows "inv w' \<and> (err \<noteq> None \<longrightarrow> P w' = P w \<and> C w' = C w) \<and>
    (err = None \<longrightarrow> snd (authenticatedAdapterIdentity ctx) \<and> trim_space (pr_reason req) \<noteq> [] \<and>
       (\<exists>now. (\<exists>p p'. P w i = Some p \<and> po_status p = ''active'' \<and> purged_post now p p' \<and> P w' = (P w)(i \<mapsto> p')) \<and>
          comments_purged (\<lambda>c. co_post c = i) now (C w) (C w')))"
proof (cases "validateID i = None \<and> (\<exists>x. preparePurgeContext s ctx req = Inr x)")
  case False
  with c inv show ?thesis by (auto simp: bs_PurgePost_def split: option.splits sum.splits)
next
  case True
  then obtain x where x: "validateID i = None" "preparePurgeContext s ctx req = Inr x" by blast
  from x(2) have auth: "snd (authenticatedAdapterIdentity ctx) \<and> trim_space (pr_reason req) \<noteq> []"
    by (auto simp: preparePurgeContext_def validatePurgeRequest_def Let_def split: prod.splits if_splits)
  obtain g w1 where g: "bo_GetPost (bv_store s) i w = (g, w1)" by fastforce
  note w1 = same_get [OF inv g]
  show ?thesis
  proof (cases "\<exists>p. g = Inr (Some p) \<and> po_status p = ''active''")
    case False
    with c x g w1 show ?thesis
      by (auto simp: bs_PurgePost_def same_def split: sum.splits option.splits if_splits)
  next
    case True
    then obtain p where p: "g = Inr (Some p)" "po_status p = ''active''" by blast
    obtain e w2 where a: "bv_AssertWritable s (po_project p) w1 = (e, w2)" by fastforce
    from same_writable [OF _ a] w1 have w2: "inv w2" "P w2 = P w" "C w2 = C w" by (auto simp: same_def)
    show ?thesis
    proof (cases e)
      case (Some y)
      with c x g p a w2 show ?thesis by (auto simp: bs_PurgePost_def)
    next
      case None
      with c x g p a have "bo_PurgePost (bv_store s) x i (bv_clock s w2) w2 = (err, w')" by (simp add: bs_PurgePost_def)
      from purge_post [OF w2(1) this] w2 auth show ?thesis by auto
    qed
  qed
qed

lemma PurgeComment_ok:
  assumes inv: "inv w" and c: "bs_PurgeComment s ctx i req w = (err, w')"
  shows "inv w' \<and> P w' = P w \<and> (err \<noteq> None \<longrightarrow> C w' = C w) \<and>
    (err = None \<longrightarrow> snd (authenticatedAdapterIdentity ctx) \<and> trim_space (pr_reason req) \<noteq> [] \<and>
       (\<exists>c. C w i = Some c \<and> co_status c = ''active'') \<and>
       (\<exists>now. comments_purged (\<lambda>c. co_id c = i) now (C w) (C w')))"
proof (cases "validateID i = None \<and> (\<exists>x. preparePurgeContext s ctx req = Inr x)")
  case False
  with c inv show ?thesis by (auto simp: bs_PurgeComment_def split: option.splits sum.splits)
next
  case True
  then obtain x where x: "validateID i = None" "preparePurgeContext s ctx req = Inr x" by blast
  from x(2) have auth: "snd (authenticatedAdapterIdentity ctx) \<and> trim_space (pr_reason req) \<noteq> []"
    by (auto simp: preparePurgeContext_def validatePurgeRequest_def Let_def split: prod.splits if_splits)
  obtain g w1 where g: "bo_GetComment (bv_store s) i w = (g, w1)" by fastforce
  note w1 = same_get_comment [OF inv g]
  show ?thesis
  proof (cases "\<exists>d. g = Inr (Some d) \<and> co_status d = ''active''")
    case False
    with c x g w1 show ?thesis
      by (auto simp: bs_PurgeComment_def same_def split: sum.splits option.splits if_splits)
  next
    case True
    then obtain d where d: "g = Inr (Some d)" "co_status d = ''active''" by blast
    obtain h w2 where h: "bo_GetPost (bv_store s) (co_post d) w1 = (h, w2)" by fastforce
    from same_get [OF _ h] w1 have w2: "same w w2" by (auto simp: same_def)
    show ?thesis
    proof (cases "\<exists>p. h = Inr (Some p) \<and> po_status p = ''active''")
      case False
      with c x g d h w2 show ?thesis
        by (auto simp: bs_PurgeComment_def same_def split: sum.splits option.splits if_splits)
    next
      case True
      then obtain p where p: "h = Inr (Some p)" "po_status p = ''active''" by blast
      obtain e w3 where a: "bv_AssertWritable s (po_project p) w2 = (e, w3)" by fastforce
      from same_writable [OF _ a] w2 have w3: "inv w3" "P w3 = P w" "C w3 = C w" by (auto simp: same_def)
      show ?thesis
      proof (cases e)
        case (Some y)
        with c x g d h p a w3 show ?thesis by (auto simp: bs_PurgeComment_def)
      next
        case None
        with c x g d h p a have "bo_PurgeComment (bv_store s) x i (bv_clock s w3) w3 = (err, w')"
          by (simp add: bs_PurgeComment_def)
        from purge_comment [OF w3(1) this] w3 auth show ?thesis by auto
      qed
    qed
  qed
qed

end

section \<open>Sequences of requests\<close>

text \<open>One request to the board, whatever it answers.\<close>

inductive board_step :: "'w board_service \<Rightarrow> 'w \<Rightarrow> 'w \<Rightarrow> bool" for s :: "'w board_service" where
  st_create_post: "bs_CreatePost s project req w = (r1, w') \<Longrightarrow> board_step s w w'"
| st_list_posts: "bs_ListPosts s project q w = (r2, w') \<Longrightarrow> board_step s w w'"
| st_search: "bs_Search s project q' w = (r3, w') \<Longrightarrow> board_step s w w'"
| st_get_post: "bs_GetPost s i w = (r4, w') \<Longrightarrow> board_step s w w'"
| st_create_comment: "bs_CreateComment s i creq w = (r5, w') \<Longrightarrow> board_step s w w'"
| st_list_comments: "bs_ListComments s i cq w = Some (r6, w') \<Longrightarrow> board_step s w w'"
| st_get_comment: "bs_GetComment s i w = (r7, w') \<Longrightarrow> board_step s w w'"
| st_path: "bs_GetCommentPath s i limit w = (r8, w') \<Longrightarrow> board_step s w w'"
| st_purge_post: "bs_PurgePost s ctx i preq w = (e, w') \<Longrightarrow> board_step s w w'"
| st_purge_comment: "bs_PurgeComment s ctx i preq w = (e, w') \<Longrightarrow> board_step s w w'"

context board_client
begin

lemma board_step_keeps:
  assumes st: "board_step s w w'" and inv: "inv w"
  shows "inv w' \<and> board_evolves (P w) (C w) (P w') (C w')"
  using st
proof cases
  case (st_create_post project req r)
  from CreatePost_ok [OF inv this] show ?thesis using board_evolves_new_post [of "P w"] by auto
next
  case (st_list_posts project q r)
  from ListPosts_ok [OF inv this] show ?thesis by simp
next
  case (st_search project q r)
  from Search_ok [OF inv this] show ?thesis by simp
next
  case (st_get_post i r)
  from GetPost_ok [OF inv this] show ?thesis by (simp add: same_def)
next
  case (st_create_comment i req r)
  from CreateComment_ok [OF inv this] show ?thesis using board_evolves_new_comment [of "C w"] by auto
next
  case (st_list_comments i q r)
  with ListComments_ok [OF inv, of i q] show ?thesis by auto
next
  case (st_get_comment i r)
  from GetComment_ok [OF inv this] show ?thesis by (simp add: same_def)
next
  case (st_path i limit r)
  from GetCommentPath_ok [OF inv this] show ?thesis by simp
next
  case (st_purge_post ctx i req e)
  note ok = PurgePost_ok [OF inv this]
  show ?thesis
  proof (cases "e = None")
    case True
    with ok obtain now where "comments_purged (\<lambda>c. co_post c = i) now (C w) (C w')"
      "\<exists>p p'. P w i = Some p \<and> po_status p = ''active'' \<and> purged_post now p p' \<and> P w' = (P w)(i \<mapsto> p')" by blast
    with ok board_evolves_purge show ?thesis by metis
  qed (use ok in simp)
next
  case (st_purge_comment ctx i req e)
  note ok = PurgeComment_ok [OF inv this]
  show ?thesis
  proof (cases "e = None")
    case True
    with ok obtain now where "comments_purged (\<lambda>c. co_id c = i) now (C w) (C w')" by blast
    with ok board_evolves_purge [of _ _ _ _ "P w" "P w"] show ?thesis by metis
  qed (use ok in simp)
qed

lemma board_steps_keep:
  "(board_step s)\<^sup>*\<^sup>* w w' \<Longrightarrow> inv w \<Longrightarrow> inv w' \<and> board_evolves (P w) (C w) (P w') (C w')"
proof (induction rule: rtranclp_induct)
  case (step y z)
  then have "inv y" "board_evolves (P w) (C w) (P y) (C y)" by auto
  with board_step_keeps [OF step.hyps(2)] show ?case by (blast intro: board_evolves_trans)
qed simp

end

end
