(* ===== verification/Board_Props.thy ===== *)
theory Board_Props
  imports Board_Client
begin

text \<open>
  The board service on the in-memory store, with any project validator and any clock, and its
  properties.
\<close>

section \<open>The service\<close>

definition mem_service ::
    "(string \<Rightarrow> memory_store \<Rightarrow> go_err option) \<Rightarrow> (memory_store \<Rightarrow> time) \<Rightarrow> (memory_store \<Rightarrow> time) \<Rightarrow>
     memory_store board_service" where
  "mem_service ext clock wall = NewService mem_board_store (Some (\<lambda>p s. (ext p s, s))) (Some clock) wall"

lemma mem_service_simps [simp]:
  "bv_store (mem_service ext clock wall) = mem_board_store"
  "bv_AssertWritable (mem_service ext clock wall) = (\<lambda>p s. (ext p s, s))"
  "bv_limits (mem_service ext clock wall) = DefaultLimits"
  by (simp_all add: mem_service_def NewService_def NewServiceWithLimits_def withDefaults_def DefaultLimits_def or_default_def)

interpretation mem_client: board_client "mem_service ext clock wall" mp mc mem_inv mem_idempotent_store mpk mck
  for ext clock wall
proof (intro board_client.intro board_client_axioms.intro)
  show "idempotent_store_laws (bv_store (mem_service ext clock wall)) mp mc mem_inv mem_idempotent_store mpk mck"
    using mem_replay.idempotent_store_laws_axioms by simp
  show "limits_validate (bv_limits (mem_service ext clock wall)) = None"
    by (simp add: DefaultLimits_def limits_validate_def)
qed (auto simp: mem_board_store_def mem_GetPost_def mem_GetComment_def)

definition ex_board :: "memory_store board_service" where
  "ex_board = mem_service (\<lambda>p s. None) (\<lambda>s. 1000) (\<lambda>s. 1000)"

definition ex_post_req :: create_post_request where
  "ex_post_req = \<lparr>cpr_title = '' Title '', cpr_body = ''hello world'', cpr_author = ''ann'', cpr_metadata = ''{}'', cpr_key = ''k1''\<rparr>"

definition ex_comment_req :: "int option \<Rightarrow> create_comment_request" where
  "ex_comment_req par = \<lparr>ccr_parent = par, ccr_body = ''reply'', ccr_author = ''bob'', ccr_metadata = [], ccr_key = []\<rparr>"

definition ex_ctx :: board_ctx where
  "ex_ctx = WithAuthenticatedAdapterIdentity \<lparr>bc_adapter = None, bc_audit = None\<rparr> ''adapter''"

definition ex_purge :: purge_request where
  "ex_purge = \<lparr>pr_actor = ''mallory'', pr_reason = ''spam''\<rparr>"

text \<open>A post (1), a comment (2), a reply to it (3), and the board after the first comment is purged.\<close>

definition ex_board1 :: memory_store where
  "ex_board1 = snd (bs_CreatePost ex_board ''proj'' ex_post_req NewMemoryStore)"

definition ex_board2 :: memory_store where
  "ex_board2 = snd (bs_CreateComment ex_board 1 (ex_comment_req None) ex_board1)"

definition ex_board3 :: memory_store where
  "ex_board3 = snd (bs_CreateComment ex_board 1 (ex_comment_req (Some 2)) ex_board2)"

definition ex_board4 :: memory_store where
  "ex_board4 = snd (bs_PurgeComment ex_board ex_ctx 2 ex_purge ex_board3)"

lemma ex_board_steps:
  "(board_step ex_board)\<^sup>*\<^sup>* NewMemoryStore ex_board1" "(board_step ex_board)\<^sup>*\<^sup>* NewMemoryStore ex_board2"
  "(board_step ex_board)\<^sup>*\<^sup>* NewMemoryStore ex_board3" "(board_step ex_board)\<^sup>*\<^sup>* NewMemoryStore ex_board4"
proof -
  have s: "board_step ex_board NewMemoryStore ex_board1" "board_step ex_board ex_board1 ex_board2"
    "board_step ex_board ex_board2 ex_board3" "board_step ex_board ex_board3 ex_board4"
    unfolding ex_board1_def ex_board2_def ex_board3_def ex_board4_def
    by (rule st_create_post st_create_comment st_purge_comment, rule surjective_pairing)+
  note trans = rtranclp.rtrancl_into_rtrancl [where r = "board_step ex_board"]
  show 1: "(board_step ex_board)\<^sup>*\<^sup>* NewMemoryStore ex_board1" using s(1) by blast
  show 2: "(board_step ex_board)\<^sup>*\<^sup>* NewMemoryStore ex_board2" by (rule trans [OF 1 s(2)])
  show 3: "(board_step ex_board)\<^sup>*\<^sup>* NewMemoryStore ex_board3" by (rule trans [OF 2 s(3)])
  show "(board_step ex_board)\<^sup>*\<^sup>* NewMemoryStore ex_board4" by (rule trans [OF 3 s(4)])
qed

definition board_reachable :: "memory_store board_service \<Rightarrow> memory_store \<Rightarrow> bool" where
  "board_reachable s w \<longleftrightarrow> (\<exists>ext clock wall. s = mem_service ext clock wall) \<and> (board_step s)\<^sup>*\<^sup>* NewMemoryStore w"

lemma board_reachable_inv: "board_reachable s w \<Longrightarrow> mem_inv w"
  using mem_client.board_steps_keep [OF _ mem_inv_new] by (auto simp: board_reachable_def)

lemma ex_reachable: "board_reachable ex_board ex_board1" "board_reachable ex_board ex_board3" "board_reachable ex_board ex_board4"
  using ex_board_steps by (auto simp: board_reachable_def ex_board_def)

lemma ex_content: "map_option co_status (mc ex_board4 2) = Some ''deleted''" "map_option co_status (mc ex_board4 3) = Some ''active''"
  by code_simp+

definition created :: "(go_err + 'a option) \<times> 'w \<Rightarrow> 'a option" where
  "created r = (case fst r of Inl e \<Rightarrow> None | Inr x \<Rightarrow> x)"

lemma created_Some: "created r = Some x \<Longrightarrow> r = (Inr (Some x), snd r)"
  by (cases r) (auto simp: created_def split: sum.splits)

section \<open>Properties\<close>

text \<open>
  C18. On every board that requests can lead to, the tree of comments is well formed: a comment
  belongs to a stored post, its parent is an older comment of the same post, an active comment's
  post is active, and a deleted post or comment holds no title, body, author or metadata. One
  further request only adds entries or purges them.
\<close>

theorem board_well_formed:
  assumes "board_reachable s w"
  shows "board_ok (mp w) (mc w) \<and>
    (board_step s w w' \<longrightarrow> board_ok (mp w') (mc w') \<and> board_evolves (mp w) (mc w) (mp w') (mc w'))"
proof (intro conjI impI)
  note inv = board_reachable_inv [OF assms]
  then show "board_ok (mp w) (mc w)" by (rule mem_invD(1))
  assume "board_step s w w'"
  with assms mem_client.board_step_keeps [OF _ inv, of _ _ _ w'] have "mem_inv w' \<and> board_evolves (mp w) (mc w) (mp w') (mc w')"
    by (auto simp: board_reachable_def)
  then show "board_ok (mp w') (mc w')" "board_evolves (mp w) (mc w) (mp w') (mc w')" using mem_invD(1) by auto
qed

lemma board_well_formed_witness: "\<exists>c. mc ex_board4 2 = Some c \<and> scrubbed_comment c"
proof -
  obtain c where c: "mc ex_board4 2 = Some c" "co_status c = ''deleted''" using ex_content(1) by auto
  have "board_ok (mp ex_board4) (mc ex_board4)" using board_well_formed [OF ex_reachable(3)] by blast
  from board_ok_comment [OF this c(1)] c show ?thesis by (auto simp: comment_ok_def)
qed

text \<open>
  C19. A purge of a post is final: it needs an authenticated adapter identity and a reason, and
  after it, whatever requests follow, the post and all its comments hold no content, reading the
  post or any of its comments answers not found, and no search shows them.
\<close>

theorem purge_final:
  assumes inv: "board_reachable s w" and p: "bs_PurgePost s ctx i req w = (None, w1)" and st: "(board_step s)\<^sup>*\<^sup>* w1 w2"
  shows "snd (authenticatedAdapterIdentity ctx) \<and> trim_space (pr_reason req) \<noteq> [] \<and>
    (\<exists>x. mp w2 i = Some x \<and> scrubbed_post x) \<and>
    (\<forall>j c. mc w2 j = Some c \<longrightarrow> co_post c = i \<longrightarrow> scrubbed_comment c) \<and>
    (\<exists>e. fst (bs_GetPost s i w2) = Inl e) \<and>
    (\<forall>j c. mc w2 j = Some c \<longrightarrow> co_post c = i \<longrightarrow> (\<exists>e. fst (bs_GetComment s j w2) = Inl e)) \<and>
    (\<forall>x. fst (bs_Search s project q w2) = Inr x \<longrightarrow> (\<forall>r\<in>set (sp_results x). re_post r \<noteq> i))"
proof -
  from inv obtain ext clock wall where s: "s = mem_service ext clock wall" by (auto simp: board_reachable_def)
  from mem_client.PurgePost_ok [OF board_reachable_inv [OF inv] p [unfolded s]] obtain now a b where
    auth: "snd (authenticatedAdapterIdentity ctx) \<and> trim_space (pr_reason req) \<noteq> []" and w1: "mem_inv w1"
    and b: "purged_post now a b" "mp w1 = (mp w)(i \<mapsto> b)" by auto
  from mem_client.board_steps_keep [OF st [unfolded s] w1] have w2: "mem_inv w2"
    and ev: "board_evolves (mp w1) (mc w1) (mp w2) (mc w2)" by auto
  from b(2) have "mp w1 i = Some b" by simp
  with ev obtain b' where b': "mp w2 i = Some b'" "post_evolves b b'" unfolding board_evolves_def by blast
  with post_ok_purged [OF b(1)] have x: "mp w2 i = Some b" "scrubbed_post b" "po_status b = ''deleted''"
    by (auto simp: post_evolves_def)
  note ok = mem_invD(1) [OF w2]
  have del: "scrubbed_comment c \<and> co_status c = ''deleted''" if "mc w2 j = Some c" "co_post c = i" for j c
    using board_ok_comment [OF ok that(1)] board_ok_comment_post [OF ok that(1)] that(2) x by (auto simp: comment_ok_def)
  have "fst (bs_GetPost s i w2) \<noteq> Inr y" for y
  proof
    assume "fst (bs_GetPost s i w2) = Inr y"
    then have "bs_GetPost (mem_service ext clock wall) i w2 = (Inr y, snd (bs_GetPost s i w2))"
      using s by (metis prod.collapse)
    from mem_client.GetPost_ok [OF w2 this] x show False by auto
  qed
  moreover have "fst (bs_GetComment s j w2) \<noteq> Inr y" if "mc w2 j = Some c" "co_post c = i" for j c y
  proof
    assume "fst (bs_GetComment s j w2) = Inr y"
    then have "bs_GetComment (mem_service ext clock wall) j w2 = (Inr y, snd (bs_GetComment s j w2))"
      using s by (metis prod.collapse)
    from mem_client.GetComment_ok [OF w2 this] that del [OF that] show False by auto
  qed
  moreover have "re_post r \<noteq> i" if "fst (bs_Search s project q w2) = Inr y" "r \<in> set (sp_results y)" for y r
  proof -
    from that(1) have "bs_Search (mem_service ext clock wall) project q w2 = (Inr y, snd (bs_Search s project q w2))"
      using s by (metis prod.collapse)
    from mem_client.Search_ok [OF w2 this] that(2) have "visible_hit (mp w2) (mc w2) (trim_space project) r" by auto
    with x show ?thesis by (auto simp: visible_hit_def)
  qed
  ultimately show ?thesis using auth x del by (metis obj_sumE)
qed

lemma ex_purge_post: "\<exists>w. bs_PurgePost ex_board ex_ctx 1 ex_purge ex_board3 = (None, w)"
proof -
  have "fst (bs_PurgePost ex_board ex_ctx 1 ex_purge ex_board3) = None" by code_simp
  then show ?thesis by (metis prod.collapse)
qed

lemma purge_final_witness:
  "\<exists>w x. bs_PurgePost ex_board ex_ctx 1 ex_purge ex_board3 = (None, w) \<and> mp w 1 = Some x \<and> scrubbed_post x"
proof -
  obtain w where w: "bs_PurgePost ex_board ex_ctx 1 ex_purge ex_board3 = (None, w)" using ex_purge_post by blast
  from purge_final [OF ex_reachable(2) w rtranclp.rtrancl_refl] w show ?thesis by blast
qed

text \<open>
  A purge that answers an error changes nothing, and one without an authenticated adapter
  identity or without a reason always answers an error; the actor named in the request's body
  plays no part.
\<close>

theorem purge_authorised:
  assumes inv: "board_reachable s w" and p: "bs_PurgeComment s ctx i req w = (err, w')"
  shows "(err \<noteq> None \<longrightarrow> mp w' = mp w \<and> mc w' = mc w) \<and>
    (\<not> snd (authenticatedAdapterIdentity ctx) \<or> trim_space (pr_reason req) = [] \<longrightarrow> err \<noteq> None) \<and>
    bs_PurgeComment s ctx i (req\<lparr>pr_actor := other\<rparr>) w = (err, w')"
proof -
  from inv obtain ext clock wall where s: "s = mem_service ext clock wall" by (auto simp: board_reachable_def)
  have eq: "pr_reason (req\<lparr>pr_actor := other\<rparr>) = pr_reason req" by simp
  have prep: "preparePurgeContext s ctx (req\<lparr>pr_actor := other\<rparr>) = preparePurgeContext s ctx req"
    unfolding preparePurgeContext_def validatePurgeRequest_def eq by (rule refl)
  have "bs_PurgeComment s ctx i (req\<lparr>pr_actor := other\<rparr>) w = (err, w')"
    using p unfolding bs_PurgeComment_def prep .
  with mem_client.PurgeComment_ok [OF board_reachable_inv [OF inv] p [unfolded s]] show ?thesis by blast
qed

lemma purge_authorised_witness:
  "fst (bs_PurgeComment ex_board \<lparr>bc_adapter = None, bc_audit = None\<rparr> 2 ex_purge ex_board3) \<noteq> None"
proof -
  let ?c = "\<lparr>bc_adapter = None, bc_audit = None\<rparr>"
  have "\<not> snd (authenticatedAdapterIdentity ?c)" by (simp add: authenticatedAdapterIdentity_def)
  with purge_authorised [OF ex_reachable(2) surjective_pairing, of ?c 2 ex_purge] show ?thesis by blast
qed

text \<open>
  A comment is only created under an active post and, when it names a parent, under an
  active comment of the same post; what is stored is the trimmed request with a fresh id, and no
  other comment changes. A request whose key was used before returns the comment stored then.
\<close>

theorem create_comment_checked:
  assumes inv: "board_reachable s w" and c: "bs_CreateComment s postID req w = (res, w')"
  shows "mp w' = mp w \<and>
    ((mc w' = mc w \<and> (\<forall>r. res = Inr r \<longrightarrow> (\<exists>i. mck w (trim_space (ccr_key req)) = Some i \<and> r = mc w i \<and> r \<noteq> None))) \<or>
     (\<exists>x. res = Inr (Some x) \<and> mc w (co_id x) = None \<and> mc w' = (mc w)(co_id x \<mapsto> x) \<and>
        comment_for postID req x \<and> comment_allowed (mp w) (mc w) x))"
proof -
  from inv obtain ext clock wall where s: "s = mem_service ext clock wall" by (auto simp: board_reachable_def)
  from mem_client.CreateComment_ok [OF board_reachable_inv [OF inv] c [unfolded s]] show ?thesis by blast
qed

lemma create_comment_checked_witness:
  "\<exists>x w'. bs_CreateComment ex_board 1 (ex_comment_req (Some 3)) ex_board4 = (Inr (Some x), w') \<and>
     comment_allowed (mp ex_board4) (mc ex_board4) x"
proof -
  let ?r = "bs_CreateComment ex_board 1 (ex_comment_req (Some 3)) ex_board4"
  have r: "created ?r \<noteq> None" and none: "mck ex_board4 (trim_space (ccr_key (ex_comment_req (Some 3)))) = None"
    by code_simp+
  from r obtain x where "created ?r = Some x" by blast
  then have c: "?r = (Inr (Some x), snd ?r)" by (rule created_Some)
  note checked = create_comment_checked [OF ex_reachable(3) c, THEN conjunct2]
  then have "comment_allowed (mp ex_board4) (mc ex_board4) x"
  proof (elim disjE conjE exE)
    assume "\<forall>q. Inr (Some x) = Inr q \<longrightarrow> (\<exists>i. mck ex_board4 (trim_space (ccr_key (ex_comment_req (Some 3)))) = Some i \<and> q = mc ex_board4 i \<and> q \<noteq> None)"
    with none show ?thesis by simp
  next
    fix y assume "Inr (Some x) = Inr (Some y)" and "comment_allowed (mp ex_board4) (mc ex_board4) y"
    then show ?thesis by simp
  qed
  with c show ?thesis by blast
qed

text \<open>
  The replay seam: once a creation with a key has stored a post, the next creation with that
  key that succeeds returns this post, whatever its project and content, and changes nothing.
\<close>

theorem create_post_replay:
  assumes inv: "board_reachable s w" and c: "bs_CreatePost s project req w = (Inr (Some x), w1)"
    and new: "mp w1 \<noteq> mp w" and k: "trim_space (cpr_key req') = trim_space (cpr_key req)" "trim_space (cpr_key req) \<noteq> []"
    and c': "bs_CreatePost s project' req' w1 = (Inr r, w2)"
  shows "r = Some x \<and> mp w2 = mp w1 \<and> mc w2 = mc w1"
proof -
  from inv obtain ext clock wall where s: "s = mem_service ext clock wall" by (auto simp: board_reachable_def)
  from mem_client.CreatePost_ok [OF board_reachable_inv [OF inv] c [unfolded s]] new k(2)
  have w1: "mem_inv w1" "mp w1 (po_id x) = Some x" "mpk w1 (trim_space (cpr_key req)) = Some (po_id x)" by auto
  from mem_client.CreatePost_ok [OF w1(1) c' [unfolded s]] k w1 show ?thesis by auto
qed

lemma create_post_replay_witness:
  "\<exists>x w2. bs_CreatePost ex_board ''other'' (ex_post_req\<lparr>cpr_title := ''Different''\<rparr>) ex_board1 = (Inr (Some x), w2) \<and>
     po_project x = ''proj'' \<and> po_title x = ''Title''"
proof -
  let ?a = "bs_CreatePost ex_board ''proj'' ex_post_req NewMemoryStore"
  let ?b = "bs_CreatePost ex_board ''other'' (ex_post_req\<lparr>cpr_title := ''Different''\<rparr>) ex_board1"
  have v: "map_option po_project (created ?a) = Some ''proj''" "map_option po_title (created ?a) = Some ''Title''"
    "created ?b \<noteq> None" and n: "mp ex_board1 1 \<noteq> None" by code_simp+
  then obtain x where x: "created ?a = Some x" "po_project x = ''proj''" "po_title x = ''Title''" by auto
  from v(3) obtain y where "created ?b = Some y" by blast
  then have b: "?b = (Inr (Some y), snd ?b)" by (rule created_Some)
  from created_Some [OF x(1)] have a: "?a = (Inr (Some x), ex_board1)" by (simp add: ex_board1_def)
  have "board_reachable ex_board NewMemoryStore" by (auto simp: board_reachable_def ex_board_def)
  moreover have "mp ex_board1 \<noteq> mp NewMemoryStore" using n by (auto simp: mp_def NewMemoryStore_def)
  moreover have "trim_space (cpr_key ex_post_req) \<noteq> []" by code_simp
  ultimately have "Some y = Some x" using create_post_replay [OF _ a _ _ _ b] by simp
  with x b show ?thesis by (metis option.inject)
qed

end
