(* ===== verification/Board_Pages.thy ===== *)
theory Board_Pages
  imports Board_Props
begin

text \<open>
  Properties of the board's reads: pages that follow each other show every entry exactly once, a
  listing of comments always returns, and the path to a comment is its chain of parents.
\<close>

section \<open>Pages\<close>

lemma strict_sorted_after:
  assumes "sorted_wrt (<) (map key L)" and "0 < n" and "n \<le> length L"
  shows "set (drop n L) = {v \<in> set L. (key (L ! (n - 1)) :: int) < key v}"
proof (intro set_eqI iffI)
  have mono: "a < b \<Longrightarrow> b < length L \<Longrightarrow> key (L ! a) < key (L ! b)" for a b
    using assms(1) by (simp add: sorted_wrt_iff_nth_less)
  fix v
  {
    assume "v \<in> set (drop n L)"
    then obtain j where j: "j < length (drop n L)" "v = drop n L ! j" by (auto simp: in_set_conv_nth)
    then have "v = L ! (n + j)" "n + j < length L" by auto
    with mono [of "n - 1" "n + j"] assms(2) show "v \<in> {v \<in> set L. key (L ! (n - 1)) < key v}" by auto
  next
    assume "v \<in> {v \<in> set L. key (L ! (n - 1)) < key v}"
    then obtain j where j: "j < length L" "v = L ! j" "key (L ! (n - 1)) < key (L ! j)" by (auto simp: in_set_conv_nth)
    have "\<not> j \<le> n - 1"
    proof
      assume "j \<le> n - 1"
      moreover have "n - 1 < length L" using assms(2,3) by simp
      ultimately show False using mono [of j "n - 1"] j(3) by (cases "j = n - 1") auto
    qed
    then have "n \<le> j" by simp
    with j show "v \<in> set (drop n L)" by (auto simp: in_set_conv_nth intro!: exI [of _ "j - n"])
  }
qed

lemma entries_rest:
  assumes fin: "finite (dom M)" and key: "\<And>i v. M i = Some v \<Longrightarrow> key v = i"
    and n: "0 < n" "n \<le> length (entries (\<lambda>v. R v \<and> a < key v) M)"
  shows "drop n (entries (\<lambda>v. R v \<and> a < key v) M) =
    entries (\<lambda>v. R v \<and> key (entries (\<lambda>v. R v \<and> a < key v) M ! (n - 1)) < key v) M"
proof (rule entries_unique [where key = key])
  let ?L = "entries (\<lambda>v. R v \<and> a < key v) M"
  have "map key ?L = sorted_list_of_set {i. \<exists>v. M i = Some v \<and> R v \<and> a < key v}"
    by (rule entries_keys) (use fin key in auto)
  then have sorted: "sorted_wrt (<) (map key ?L)" by simp
  then show "sorted_wrt (<) (map key (drop n ?L))" by (simp add: sorted_wrt_drop flip: drop_map)
  have "?L ! (n - 1) \<in> set ?L" using n by simp
  then have "a < key (?L ! (n - 1))" using entries_set [OF fin] by auto
  then show "set (drop n ?L) = {v. \<exists>i. M i = Some v \<and> R v \<and> key (?L ! (n - 1)) < key v}"
    unfolding strict_sorted_after [OF sorted n] entries_set [OF fin] by auto
qed (use fin key in auto)

lemma page_rest:
  assumes fin: "finite (dom M)" and key: "\<And>i v. M i = Some v \<Longrightarrow> key v = i" and l: "0 < limit"
    and L: "L = entries (\<lambda>v. R v \<and> a < key v) M" and more: "\<not> int (length L) \<le> limit"
  shows "L = take (nat limit) L @ entries (\<lambda>v. R v \<and> key (L ! nat (limit - 1)) < key v) M"
proof -
  have "drop (nat limit) L = entries (\<lambda>v. R v \<and> key (L ! (nat limit - 1)) < key v) M"
    unfolding L by (rule entries_rest [OF fin key]) (use l more L in auto)
  moreover have "nat limit - 1 = nat (limit - 1)" by simp
  ultimately show ?thesis by (metis append_take_drop_id)
qed

lemma comment_page_rest:
  assumes ok: "board_ok P C" and l: "0 < limit"
    and pg: "page = commentPage (comment_list C postID par after) limit"
  shows "comment_list C postID par after =
    cp_comments page @ (case cp_next page of None \<Rightarrow> [] | Some k \<Rightarrow> comment_list C postID par k)"
proof -
  let ?R = "\<lambda>c. co_post c = postID \<and> co_parent c = par \<and> (co_status c = ''active'' \<or> active_below C (co_id c))"
  have eq: "comment_list C postID par a = entries (\<lambda>c. ?R c \<and> a < co_id c) C" for a
    unfolding comment_list_def by (rule arg_cong [where f = "\<lambda>Q. entries Q C"]) (auto simp: listed_comment_def)
  show ?thesis
  proof (cases "int (length (comment_list C postID par after)) \<le> limit")
    case True
    then show ?thesis by (simp add: pg commentPage_def)
  next
    case False
    have "comment_list C postID par after = take (nat limit) (comment_list C postID par after) @
        entries (\<lambda>c. ?R c \<and> co_id (comment_list C postID par after ! nat (limit - 1)) < co_id c) C"
      by (rule page_rest [OF _ _ l eq False]) (use board_ok_finite [OF ok] board_ok_comment [OF ok] in auto)
    note this [folded eq]
    with False show ?thesis by (simp add: pg commentPage_def)
  qed
qed

lemma post_page_rest:
  assumes ok: "board_ok P C" and l: "0 < limit"
    and pg: "page = postPage (post_list P project after) limit"
  shows "post_list P project after =
    pp_posts page @ (case pp_next page of None \<Rightarrow> [] | Some k \<Rightarrow> post_list P project k)"
proof -
  let ?R = "\<lambda>p. po_project p = project \<and> po_status p = ''active''"
  let ?e = "\<lambda>a. entries (\<lambda>p. ?R p \<and> a < po_id p) P"
  have eq: "post_list P project a = map post_summary_of (?e a)" for a
    unfolding post_list_def listed_post_def by (simp add: conj_assoc)
  show ?thesis
  proof (cases "int (length (post_list P project after)) \<le> limit")
    case True
    then show ?thesis by (simp add: pg postPage_def)
  next
    case False
    have more: "\<not> int (length (?e after)) \<le> limit" using False by (simp add: eq)
    have "?e after = take (nat limit) (?e after) @ ?e (po_id (?e after ! nat (limit - 1)))"
      by (rule page_rest [OF _ _ l refl more]) (use board_ok_finite [OF ok] board_ok_post [OF ok] in auto)
    then have "post_list P project after = take (nat limit) (post_list P project after) @
        post_list P project (po_id (?e after ! nat (limit - 1)))"
      unfolding eq take_map by (metis map_append)
    moreover have "ps_id (post_list P project after ! nat (limit - 1)) = po_id (?e after ! nat (limit - 1))"
      using more l by (simp add: eq post_summary_of_def)
    ultimately show ?thesis using False by (simp add: pg postPage_def)
  qed
qed

text \<open>
  C23. Listing the comments of a post or the replies to a comment always returns, on every board
  that requests can lead to. A page shows, in the order of their ids, comments that are active or
  have an active reply somewhere below them, and the page followed by what its cursor leads to is
  the whole listing: following the cursors shows each of these comments exactly once.
\<close>

theorem comment_listing:
  assumes inv: "board_reachable s w"
  shows "\<exists>res w'. bs_ListComments s postID q w = Some (res, w') \<and> mp w' = mp w \<and> mc w' = mc w \<and>
    (case res of Inl e \<Rightarrow> True
     | Inr page \<Rightarrow>
         (\<forall>c\<in>set (cp_comments page). mc w (co_id c) = Some c \<and> co_post c = postID \<and> co_parent c = cq_parent q \<and>
            (co_status c = ''active'' \<or> active_below (mc w) (co_id c))) \<and>
         comment_list (mc w) postID (cq_parent q) (cq_after q) =
           cp_comments page @ (case cp_next page of None \<Rightarrow> [] | Some k \<Rightarrow> comment_list (mc w) postID (cq_parent q) k))"
proof -
  from inv obtain ext clock wall where s: "s = mem_service ext clock wall" by (auto simp: board_reachable_def)
  note w = board_reachable_inv [OF inv]
  note ok = mem_invD(1) [OF w]
  from mem_client.ListComments_ok [OF w, of ext clock wall postID q] obtain res w' where
    r: "bs_ListComments s postID q w = Some (res, w')" "mp w' = mp w" "mc w' = mc w"
    and res: "\<forall>x. res = Inr x \<longrightarrow> (\<exists>n. pageLimit (mem_service ext clock wall) (cq_limit q) = Inr n \<and>
        x = commentPage (comment_list (mc w) postID (cq_parent q) (cq_after q)) n)"
    unfolding s by auto
  show ?thesis
  proof (cases res)
    case (Inl e)
    with r show ?thesis by auto
  next
    case (Inr page)
    with res obtain n where n: "pageLimit (mem_service ext clock wall) (cq_limit q) = Inr n"
      and page: "page = commentPage (comment_list (mc w) postID (cq_parent q) (cq_after q)) n" by auto
    from mem_client.pageLimit_pos [OF n] have "0 < n" by simp
    note rest = comment_page_rest [OF ok this page]
    have "listed_comment (mc w) postID (cq_parent q) (cq_after q) c \<and> mc w (co_id c) = Some c"
      if "c \<in> set (cp_comments page)" for c
    proof -
      from that have "c \<in> set (comment_list (mc w) postID (cq_parent q) (cq_after q))" using rest by (metis UnCI set_append)
      then obtain i where "mc w i = Some c" "listed_comment (mc w) postID (cq_parent q) (cq_after q) c"
        using board_ok_finite [OF ok] by (auto simp: comment_list_def entries_set)
      with board_ok_comment [OF ok] show ?thesis by auto
    qed
    with r rest Inr show ?thesis by (auto simp: listed_comment_def)
  qed
qed

lemma comment_listing_witness:
  "\<exists>res w'. bs_ListComments ex_board 1 \<lparr>cq_post = 0, cq_parent = None, cq_after = 0, cq_limit = 10\<rparr> ex_board4 = Some (res, w') \<and>
     mc w' = mc ex_board4"
  using comment_listing [OF ex_reachable(3), of 1 "\<lparr>cq_post = 0, cq_parent = None, cq_after = 0, cq_limit = 10\<rparr>"] by blast

text \<open>
  A page of posts shows active posts of the project by increasing id, and the page followed by
  what its cursor leads to is the whole listing.
\<close>

theorem post_listing:
  assumes inv: "board_reachable s w" and c: "bs_ListPosts s project q w = (Inr page, w')"
  shows "mp w' = mp w \<and> length (pp_posts page) \<le> 100 \<and>
    post_list (mp w) (trim_space project) (lq_after q) =
      pp_posts page @ (case pp_next page of None \<Rightarrow> [] | Some k \<Rightarrow> post_list (mp w) (trim_space project) k)"
proof -
  from inv obtain ext clock wall where s: "s = mem_service ext clock wall" by (auto simp: board_reachable_def)
  note w = board_reachable_inv [OF inv]
  from mem_client.ListPosts_ok [OF w c [unfolded s]] obtain n where mp: "mp w' = mp w"
    and n: "pageLimit (mem_service ext clock wall) (lq_limit q) = Inr n"
    and page: "page = postPage (post_list (mp w) (trim_space project) (lq_after q)) n" by auto
  from mem_client.pageLimit_pos [OF n] have l: "0 < n" "n \<le> 100" by (auto simp: DefaultLimits_def)
  have "length (pp_posts page) \<le> 100" using l by (auto simp: page postPage_def)
  with mp post_page_rest [OF mem_invD(1) [OF w] l(1) page] show ?thesis by simp
qed

lemma post_listing_witness:
  "\<exists>page. bs_ListPosts ex_board ''proj'' \<lparr>lq_project = [], lq_after = 0, lq_limit = 10\<rparr> ex_board1 = (Inr page, ex_board1) \<and>
     post_list (mp ex_board1) ''proj'' 0 = pp_posts page \<and> length (pp_posts page) = 1"
proof -
  let ?q = "\<lparr>lq_project = [], lq_after = 0, lq_limit = 10\<rparr>"
  let ?r = "bs_ListPosts ex_board ''proj'' ?q ex_board1"
  have v: "snd ?r = ex_board1" "(case fst ?r of Inl e \<Rightarrow> None | Inr p \<Rightarrow> Some (length (pp_posts p), pp_next p)) = Some (1, None)"
    and t: "trim_space ''proj'' = ''proj''" by code_simp+
  then obtain page where p: "?r = (Inr page, ex_board1)" "length (pp_posts page) = 1" "pp_next page = None"
    by (cases ?r) (auto split: sum.splits)
  from post_listing [OF ex_reachable(1) p(1)] p t show ?thesis by auto
qed

section \<open>The path to a comment\<close>

lemma chain_props:
  assumes ok: "board_ok P C"
  shows "C i = Some c \<Longrightarrow>
    length (chain C n (Some i)) \<le> n \<and>
    (\<forall>d\<in>set (chain C n (Some i)). C (co_id d) = Some d \<and> co_post d = co_post c) \<and>
    successively (\<lambda>d e. co_parent d = Some (co_id e)) (chain C n (Some i)) \<and>
    (0 < n \<longrightarrow> chain C n (Some i) \<noteq> [] \<and> hd (chain C n (Some i)) = c)"
proof (induction n arbitrary: i c)
  case (Suc n)
  have cid: "C (co_id c) = Some c" using board_ok_comment [OF ok Suc.prems] Suc.prems by simp
  show ?case
  proof (cases "co_parent c")
    case None
    then have "chain C n None = []" by (cases n) auto
    with None Suc.prems cid show ?thesis by auto
  next
    case (Some q)
    from board_ok_parent [OF ok Suc.prems Some] obtain d where d: "C q = Some d" "co_post d = co_post c" by auto
    note IH = Suc.IH [OF d(1)]
    have "co_id d = q" using board_ok_comment [OF ok d(1)] by simp
    moreover have "successively (\<lambda>d e. co_parent d = Some (co_id e)) (c # chain C n (Some q))"
    proof (cases n)
      case (Suc m)
      with IH have "chain C n (Some q) \<noteq> []" "hd (chain C n (Some q)) = d" by auto
      with IH Some \<open>co_id d = q\<close> show ?thesis by (cases "chain C n (Some q)") auto
    qed simp
    ultimately show ?thesis using Suc.prems cid Some d IH by auto
  qed
qed simp

text \<open>
  The path to a comment ends with the comment, which is active and whose post is active; each
  entry is the parent of the next, all belong to one post, at most fifty are shown and the path
  says whether it was cut before the root; a deleted ancestor shows no content. The store never
  reports a cycle.
\<close>

theorem comment_path_sound:
  assumes inv: "board_reachable s w" and c: "bs_GetCommentPath s i limit w = (res, w')"
  shows "res \<noteq> Inl ErrCommentCycle \<and> mc w' = mc w \<and>
    (\<forall>x. res = Inr x \<longrightarrow>
       cpa_comments x \<noteq> [] \<and> co_id (last (cpa_comments x)) = i \<and> co_status (last (cpa_comments x)) = ''active'' \<and>
       post_active (cpa_post x) \<and> length (cpa_comments x) \<le> 50 \<and>
       successively (\<lambda>d e. co_parent e = Some (co_id d)) (cpa_comments x) \<and>
       (\<forall>d\<in>set (cpa_comments x). cpa_post x = mp w (co_post d) \<and>
          (co_status d = ''deleted'' \<longrightarrow> co_body d = [] \<and> co_author d = [] \<and> co_metadata d = [])) \<and>
       cpa_truncated x = (co_parent (hd (cpa_comments x)) \<noteq> None))"
proof (intro conjI allI ballI impI)
  from inv obtain ext clock wall where s: "s = mem_service ext clock wall" by (auto simp: board_reachable_def)
  note w = board_reachable_inv [OF inv]
  note ok = mem_invD(1) [OF w]
  note path = mem_client.GetCommentPath_ok [OF w c [unfolded s]]
  then show "mc w' = mc w" by simp
  have "bs_GetCommentPath s i limit w = (res, w') \<Longrightarrow> res \<noteq> Inl ErrCommentCycle"
    using mem_path [OF w] mem_client.pathLimit_pos [of ext clock wall limit]
    by (auto simp: bs_GetCommentPath_def s mem_board_store_def validationFailed_def commentNotFound_def ErrCommentCycle_def
        split: option.splits sum.splits if_splits)
  with c show "res \<noteq> Inl ErrCommentCycle" by blast
  fix x assume "res = Inr x"
  with path obtain n y where n: "pathLimit (mem_service ext clock wall) limit = Inr n"
    and y: "y = path_of (mp w) (mc w) i n" "post_active (cpa_post y)" "cpa_comments y \<noteq> []"
      "co_id (last (cpa_comments y)) = i" "co_status (last (cpa_comments y)) = ''active''"
    and x: "x = y\<lparr>cpa_comments := map redact_deleted (cpa_comments y)\<rparr>" by auto
  from mem_client.pathLimit_pos [OF n] have l: "0 < n" "n \<le> 50" by (auto simp: DefaultLimits_def)
  from y obtain d where d: "mc w i = Some d" by (cases "mc w i") (auto simp: path_of_def empty_path_def)
  let ?up = "chain (mc w) (nat n) (Some i)"
  have y': "cpa_comments y = rev ?up" "cpa_post y = mp w (co_post d)" "cpa_truncated y = (co_parent (last ?up) \<noteq> None)"
    using y(1) d by (simp_all add: path_of_def Let_def)
  note up = chain_props [OF ok d, of "nat n"]
  have red: "co_id (redact_deleted e) = co_id e" "co_parent (redact_deleted e) = co_parent e"
    "co_status (redact_deleted e) = co_status e" "co_post (redact_deleted e) = co_post e" for e
    by (simp_all add: redact_deleted_def)
  show "cpa_comments x \<noteq> []" using y(3) by (simp add: x)
  show "co_id (last (cpa_comments x)) = i" "co_status (last (cpa_comments x)) = ''active''"
    using y(3-5) by (simp_all add: x last_map red)
  show "post_active (cpa_post x)" using y(2) by (simp add: x)
  have "nat n \<le> 50" using l by simp
  with up have "length ?up \<le> 50" by linarith
  then show "length (cpa_comments x) \<le> 50" by (simp add: x y'(1))
  show "successively (\<lambda>d e. co_parent e = Some (co_id d)) (cpa_comments x)"
    using up by (simp add: x y'(1) successively_map red)
  show "cpa_truncated x = (co_parent (hd (cpa_comments x)) \<noteq> None)"
    using y(3) by (simp add: x y' hd_map red hd_rev)
  fix e assume "e \<in> set (cpa_comments x)"
  then obtain f where f: "f \<in> set ?up" "e = redact_deleted f" by (auto simp: x y'(1))
  with up show "cpa_post x = mp w (co_post e)" by (simp add: x y'(2) red)
  assume "co_status e = ''deleted''"
  then show "co_body e = []" "co_author e = []" "co_metadata e = []" by (simp_all add: f(2) redact_deleted_def split: if_splits)
qed

lemma comment_path_sound_witness:
  "\<exists>x. bs_GetCommentPath ex_board 3 0 ex_board4 = (Inr x, ex_board4) \<and>
     successively (\<lambda>d e. co_parent e = Some (co_id d)) (cpa_comments x) \<and> length (cpa_comments x) = 2"
proof -
  let ?r = "bs_GetCommentPath ex_board 3 0 ex_board4"
  have v: "snd ?r = ex_board4" "(case fst ?r of Inl e \<Rightarrow> None | Inr x \<Rightarrow> Some (length (cpa_comments x))) = Some 2" by code_simp+
  then obtain x where x: "?r = (Inr x, ex_board4)" "length (cpa_comments x) = 2" by (cases ?r) (auto split: sum.splits)
  with comment_path_sound [OF ex_reachable(3) x(1)] show ?thesis by blast
qed

end
