(* ===== verification/Gateway_Identity.thy ===== *)
theory Gateway_Identity
  imports Shared_Api
begin

text \<open>
  The gateway's translation of legacy identity fields (\<open>gateway/internal/identity.go\<close>): its
  configuration, and the rewriting of a request's JSON object. A decoded object is a map from
  field names to values; of a value the code looks at whether it decodes as a string (\<open>null\<close>
  decodes as the empty one). The bytes of a body appear as what the decoder makes of them.
\<close>

definition ErrIdentityTranslationFailed :: go_err where [sentinel_defs]:
  "ErrIdentityTranslationFailed = Sentinel ''gateway'' ''identity translation failed''"

section \<open>Configuration\<close>

record target_file =
  tf_canonical :: string
  tf_required :: bool
  tf_profiles :: "string list"
  tf_instances :: "string list"
  tf_sessions :: "string list"

record mapping_file =
  mf_legacy :: string
  mf_profile :: string
  mf_instance :: string
  mf_session :: string

record translation_file =
  xf_enabled :: bool
  xf_targets :: "target_file list"
  xf_mappings :: "mapping_file list"

record translation_target =
  tt_canonical :: string
  tt_required :: bool
  tt_profiles :: "string list"
  tt_instances :: "string list"
  tt_sessions :: "string list"

record identity_mapping =
  im_legacy :: string
  im_profile :: profile_identity
  im_instance :: agent_instance_id
  im_session :: "session_key option"

record identity_translation =
  it_enabled :: bool
  it_targets :: "translation_target list"
  it_mappings :: "string \<rightharpoonup> identity_mapping"

definition no_translation :: identity_translation where
  "no_translation = \<lparr>it_enabled = False, it_targets = [], it_mappings = Map.empty\<rparr>"

definition defaultProfileFields :: "string list" where
  "defaultProfileFields = [''member_identity'', ''agent_identity'']"

definition defaultInstanceFields :: "string list" where
  "defaultInstanceFields = [''agent_instance_id'', ''concrete_identity'']"

definition defaultSessionFields :: "string list" where
  "defaultSessionFields = [''session_key'', ''hermes_session_key'']"

definition configuredFields :: "string list \<Rightarrow> string list \<Rightarrow> string list" where
  "configuredFields configured defaults =
     (if length configured = 0 then defaults
      else [trim_space field. field \<leftarrow> configured, trim_space field \<noteq> []])"

definition newIdentityTranslationTarget :: "target_file \<Rightarrow> go_err + translation_target" where
  "newIdentityTranslationTarget file =
     (if trim_space (tf_canonical file) = [] then
        Inl (Errorf ''identity_translation target canonical_field is required'')
      else Inr
        \<lparr>tt_canonical = trim_space (tf_canonical file), tt_required = tf_required file,
         tt_profiles = configuredFields (tf_profiles file) defaultProfileFields,
         tt_instances = configuredFields (tf_instances file) defaultInstanceFields,
         tt_sessions = configuredFields (tf_sessions file) defaultSessionFields\<rparr>)"

definition newIdentityMapping :: "mapping_file \<Rightarrow> go_err + identity_mapping" where
  "newIdentityMapping file =
     (if trim_space (mf_legacy file) = [] then Inl (Errorf ''identity mapping legacy_identity is required'')
      else if trim_space (mf_profile file) = [] then
        Inl (Errorf (''identity mapping '' @ mf_legacy file @ '' profile is required''))
      else Inr
        \<lparr>im_legacy = trim_space (mf_legacy file), im_profile = trim_space (mf_profile file),
         im_instance = trim_space (mf_instance file),
         im_session = (if trim_space (mf_session file) \<noteq> [] then Some (trim_space (mf_session file)) else None)\<rparr>)"

fun mappings_loop :: "(string \<rightharpoonup> identity_mapping) \<Rightarrow> mapping_file list \<Rightarrow> go_err + (string \<rightharpoonup> identity_mapping)" where
  "mappings_loop mappings [] = Inr mappings"
| "mappings_loop mappings (file # rest) =
     (case newIdentityMapping file of
        Inl e \<Rightarrow> Inl e
      | Inr mapping \<Rightarrow>
          (case mappings (im_legacy mapping) of
             Some _ \<Rightarrow> Inl (Errorf (''duplicate legacy identity mapping: '' @ im_legacy mapping))
           | None \<Rightarrow> mappings_loop (mappings(im_legacy mapping \<mapsto> mapping)) rest))"

definition newIdentityTranslation :: "translation_file \<Rightarrow> go_err + identity_translation" where
  "newIdentityTranslation file =
     (if \<not> xf_enabled file then Inr no_translation
      else if length (xf_targets file) = 0 then Inl (Errorf ''identity_translation.targets is required'')
      else if length (xf_mappings file) = 0 then Inl (Errorf ''identity_translation.mappings is required'')
      else case scan_all newIdentityTranslationTarget (xf_targets file) of
        Inl e \<Rightarrow> Inl e
      | Inr targets \<Rightarrow>
          (case mappings_loop Map.empty (xf_mappings file) of
             Inl e \<Rightarrow> Inl e
           | Inr mappings \<Rightarrow> Inr \<lparr>it_enabled = True, it_targets = targets, it_mappings = mappings\<rparr>))"

section \<open>Translating a body\<close>

datatype json_value = JString string | JNull | JAgent agent_identity | JOther string

type_synonym json_payload = "string \<rightharpoonup> json_value"

text \<open>
  A body is blank (only white space), \<open>null\<close>, an object, or something that does not decode into
  an object, with the decoder's error.
\<close>

datatype json_body = BlankBody | NullBody | ObjectBody json_payload | UndecodableBody go_err

definition translation_failed :: "string \<Rightarrow> go_err" where
  "translation_failed s = Wrapped [] ErrIdentityTranslationFailed ('': '' @ s)"

text \<open>Decoding a value into a Go string.\<close>

fun decode_string :: "json_value \<Rightarrow> string option" where
  "decode_string (JString s) = Some s"
| "decode_string JNull = Some []"
| "decode_string (JAgent a) = None"
| "decode_string (JOther raw) = None"

fun firstString :: "json_payload \<Rightarrow> string list \<Rightarrow> go_err + string option" where
  "firstString payload [] = Inr None"
| "firstString payload (field # rest) =
     (case payload field of
        None \<Rightarrow> firstString payload rest
      | Some raw \<Rightarrow>
          (case decode_string raw of
             None \<Rightarrow> Inl (translation_failed (field @ '' must be a string''))
           | Some v \<Rightarrow>
               let v = trim_space v
               in if v = [] then Inl (translation_failed (field @ '' must not be empty''))
                  else Inr (Some v)))"

definition translateTarget ::
    "identity_translation \<Rightarrow> json_payload \<Rightarrow> translation_target \<Rightarrow> go_err + agent_identity option" where
  "translateTarget t payload target =
     (case firstString payload (tt_profiles target) of
        Inl e \<Rightarrow> Inl e
      | Inr None \<Rightarrow> Inr None
      | Inr (Some legacy) \<Rightarrow>
          (case it_mappings t legacy of
             None \<Rightarrow> Inl (translation_failed (''unknown legacy identity '' @ legacy))
           | Some mapping \<Rightarrow>
               (case firstString payload (tt_instances target) of
                  Inl e \<Rightarrow> Inl e
                | Inr explicit_instance \<Rightarrow>
                    let instance_id = (case explicit_instance of Some i \<Rightarrow> i | None \<Rightarrow> im_instance mapping) in
                    (case firstString payload (tt_sessions target) of
                       Inl e \<Rightarrow> Inl e
                     | Inr explicit_session \<Rightarrow>
                         let session = (case explicit_session of Some s \<Rightarrow> Some s | None \<Rightarrow> im_session mapping) in
                         (case NewAgentIdentity (im_profile mapping) instance_id session of
                            Inl e \<Rightarrow> Inl (translation_failed (''incomplete canonical identity for '' @ legacy))
                          | Inr translated \<Rightarrow> Inr (Some translated))))))"

definition legacy_fields :: "translation_target \<Rightarrow> string list" where
  "legacy_fields target = tt_profiles target @ tt_instances target @ tt_sessions target"

definition removeLegacyFields :: "translation_target \<Rightarrow> json_payload \<Rightarrow> json_payload" where
  "removeLegacyFields target payload = fold (\<lambda>field p. p(field := None)) (legacy_fields target) payload"

text \<open>The loop of \<open>TranslateJSON\<close> over the targets.\<close>

fun translate_loop :: "identity_translation \<Rightarrow> json_payload \<Rightarrow> translation_target list \<Rightarrow> go_err + json_payload" where
  "translate_loop t payload [] = Inr payload"
| "translate_loop t payload (target # rest) =
     (case translateTarget t payload target of
        Inl e \<Rightarrow> Inl e
      | Inr None \<Rightarrow>
          if tt_required target then
            Inl (translation_failed (''missing legacy identity fields for '' @ tt_canonical target))
          else translate_loop t payload rest
      | Inr (Some translated) \<Rightarrow>
          translate_loop t (removeLegacyFields target (payload(tt_canonical target \<mapsto> JAgent translated))) rest)"

definition hasRequiredTarget :: "identity_translation \<Rightarrow> bool" where
  "hasRequiredTarget t = list_ex tt_required (it_targets t)"

text \<open>
  Decoding \<open>null\<close> leaves the map nil, which reads as empty and encodes as \<open>null\<close> again; it has no
  field, so no target writes to it.
\<close>

definition TranslateJSON :: "identity_translation \<Rightarrow> json_body \<Rightarrow> go_err + json_body" where
  "TranslateJSON t body =
     (if \<not> it_enabled t then Inr body
      else case body of
        BlankBody \<Rightarrow>
          if hasRequiredTarget t then
            Inl (translation_failed ''request body is required for identity translation'')
          else Inr body
      | UndecodableBody e \<Rightarrow> Inl (Wrapped [] ErrIdentityTranslationFailed ('': decoding json body: '' @ err_text e))
      | NullBody \<Rightarrow>
          (case translate_loop t Map.empty (it_targets t) of Inl e \<Rightarrow> Inl e | Inr payload \<Rightarrow> Inr NullBody)
      | ObjectBody payload \<Rightarrow>
          (case translate_loop t payload (it_targets t) of
             Inl e \<Rightarrow> Inl e
           | Inr payload' \<Rightarrow> Inr (ObjectBody payload')))"

end
