(* ===== verification/Gateway_Routing.thy ===== *)
theory Gateway_Routing
  imports Gateway_Identity "HOL-Library.Product_Lexorder"
begin

text \<open>
  The gateway's route table (\<open>gateway/internal/routing.go\<close>) and path joining (\<open>proxy.go\<close>): the
  validation of a configured route, the checks and the order of a table, and the selection of a
  route and of its upstream. \<open>url.Parse\<close> is an argument, \<open>parse\<close>; a set of methods is the list
  of its elements, empty for the code's nil map.
\<close>

record url =
  url_scheme :: string
  url_host :: string
  url_path :: string
  url_escaped :: string

type_synonym url_parser = "string \<Rightarrow> go_err + url"

type_synonym successor_mode = string

definition SuccessorModeHeader :: successor_mode where "SuccessorModeHeader = ''header''"
definition SuccessorModeAlways :: successor_mode where "SuccessorModeAlways = ''always''"

record path_rewrite_file =
  pf_from :: string
  pf_to :: string

record route_file =
  rf_name :: string
  rf_pattern :: string
  rf_methods :: "string list"
  rf_legacy :: string
  rf_successor :: string
  rf_mode :: string
  rf_translation :: translation_file
  rf_rewrite :: path_rewrite_file

record path_rewrite =
  pr_from :: string
  pr_to :: string

record route =
  ro_name :: string
  ro_pattern :: string
  ro_methods :: "string list"
  ro_legacy :: url
  ro_successor :: "url option"
  ro_mode :: successor_mode
  ro_translation :: identity_translation
  ro_rewrite :: path_rewrite

record route_match =
  ma_target :: url
  ma_translation :: identity_translation
  ma_rewrite :: path_rewrite
  ma_uses_successor :: bool

type_synonym route_table = "route list"

definition no_rewrite :: path_rewrite where
  "no_rewrite = \<lparr>pr_from = [], pr_to = []\<rparr>"

section \<open>Paths\<close>

definition slash :: char where "slash = CHR ''/''"

definition joinPaths :: "string \<Rightarrow> string \<Rightarrow> string" where
  "joinPaths left right =
     (if left = [] \<or> left = ''/'' then right
      else if right = [] \<or> right = ''/'' then left
      else trim_right_char slash left @ ''/'' @ trim_left_char slash right)"

text \<open>\<open>strings.TrimPrefix\<close>.\<close>

definition trim_prefix :: "string \<Rightarrow> string \<Rightarrow> string" where
  "trim_prefix s p = (if prefix p s then drop (length p) s else s)"

definition rewrite_enabled :: "path_rewrite \<Rightarrow> bool" where
  "rewrite_enabled r \<longleftrightarrow> pr_from r \<noteq> []"

definition rewrite_apply :: "path_rewrite \<Rightarrow> string \<Rightarrow> string" where
  "rewrite_apply r path =
     (if \<not> rewrite_enabled r then path
      else joinPaths (pr_to r) (trim_prefix path (pr_from r)))"

definition newPathRewrite :: "string \<Rightarrow> string \<Rightarrow> path_rewrite_file \<Rightarrow> go_err + path_rewrite" where
  "newPathRewrite name pattern file =
     (let from_prefix = trim_right_char slash (trim_space (pf_from file));
          to_prefix = trim_right_char slash (trim_space (pf_to file))
      in if from_prefix = [] \<and> to_prefix = [] then Inr no_rewrite
         else if from_prefix = [] \<or> to_prefix = [] then
           Inl (Errorf (''route '' @ name @ '' path_rewrite requires both from_prefix and to_prefix''))
         else if \<not> prefix ''/'' from_prefix \<or> \<not> prefix ''/'' to_prefix then
           Inl (Errorf (''route '' @ name @ '' path_rewrite prefixes must start with /''))
         else if CHR ''{'' \<in> set pattern then
           Inl (Errorf (''route '' @ name @ '' path_rewrite does not support templated path_pattern''))
         else if from_prefix \<noteq> trim_right_char slash pattern then
           Inl (Errorf (''route '' @ name @ '' path_rewrite.from_prefix must equal path_pattern''))
         else Inr \<lparr>pr_from = from_prefix, pr_to = to_prefix\<rparr>)"

section \<open>A configured route\<close>

definition parseUpstreamURL :: "url_parser \<Rightarrow> string \<Rightarrow> string \<Rightarrow> go_err + url" where
  "parseUpstreamURL parse name raw =
     (if trim_space raw = [] then Inl (Errorf (name @ '' is required''))
      else case parse raw of
        Inl e \<Rightarrow> Inl (Wrapped (''parsing '' @ name @ '': '') e [])
      | Inr u \<Rightarrow>
          if url_scheme u \<noteq> ''http'' \<and> url_scheme u \<noteq> ''https'' then
            Inl (Errorf (name @ '' must use http or https''))
          else if url_host u = [] then Inl (Errorf (name @ '' host is required''))
          else Inr u)"

text \<open>The loop of \<open>parseMethods\<close>; \<open>methods\<close> holds the methods read so far.\<close>

fun parse_methods_loop :: "string \<Rightarrow> string list \<Rightarrow> string list \<Rightarrow> go_err + string list" where
  "parse_methods_loop name methods [] = Inr methods"
| "parse_methods_loop name methods (raw # rest) =
     (let method = to_upper (trim_space raw)
      in if method = [] then Inl (Errorf (''route '' @ name @ '' methods must not contain empty values''))
         else if method \<in> set methods then Inl (Errorf (''route '' @ name @ '' duplicate method '' @ method))
         else parse_methods_loop name (methods @ [method]) rest)"

definition parseMethods :: "string \<Rightarrow> string list \<Rightarrow> go_err + string list" where
  "parseMethods name raws = parse_methods_loop name [] raws"

definition parseSuccessorMode :: "string \<Rightarrow> string \<Rightarrow> bool \<Rightarrow> go_err + successor_mode" where
  "parseSuccessorMode name raw has_successor =
     (let mode0 = to_lower (trim_space raw);
          mode = (if mode0 = [] then SuccessorModeHeader else mode0)
      in if mode = SuccessorModeHeader then Inr mode
         else if mode = SuccessorModeAlways then
           (if \<not> has_successor then
              Inl (Errorf (''route '' @ name @ '' successor_mode always requires successor_upstream_url''))
            else Inr mode)
         else Inl (Errorf (''route '' @ name @ '' successor_mode must be header or always'')))"

definition in_route :: "string \<Rightarrow> go_err + 'a \<Rightarrow> go_err + 'a" where
  "in_route name r = (case r of Inl e \<Rightarrow> Inl (Wrapped (''route '' @ name @ '': '') e []) | Inr x \<Rightarrow> Inr x)"

definition parse_successor :: "url_parser \<Rightarrow> route_file \<Rightarrow> go_err + url option" where
  "parse_successor parse file =
     (if trim_space (rf_successor file) = [] then Inr None
      else map_sum id Some (in_route (rf_name file) (parseUpstreamURL parse ''successor_upstream_url'' (rf_successor file))))"

definition newRoute :: "url_parser \<Rightarrow> route_file \<Rightarrow> go_err + route" where
  "newRoute parse file =
     (if trim_space (rf_name file) = [] then Inl (Errorf ''route name is required'')
      else
        let pattern = trim_space (rf_pattern file) in
        if \<not> prefix ''/'' pattern then
          Inl (Errorf (''route '' @ rf_name file @ '' path_pattern must start with /''))
        else case parseMethods (rf_name file) (rf_methods file) of Inl e \<Rightarrow> Inl e | Inr methods \<Rightarrow>
        (case in_route (rf_name file) (parseUpstreamURL parse ''legacy_upstream_url'' (rf_legacy file)) of
           Inl e \<Rightarrow> Inl e | Inr legacy \<Rightarrow>
        (case parse_successor parse file of Inl e \<Rightarrow> Inl e | Inr successor \<Rightarrow>
        (case parseSuccessorMode (rf_name file) (rf_mode file) (successor \<noteq> None) of
           Inl e \<Rightarrow> Inl e | Inr mode \<Rightarrow>
        (case in_route (rf_name file) (newIdentityTranslation (rf_translation file)) of
           Inl e \<Rightarrow> Inl e | Inr translation \<Rightarrow>
        if it_enabled translation \<and> successor = None then
          Inl (Errorf (''route '' @ rf_name file @ '' identity_translation requires successor_upstream_url''))
        else
        (case newPathRewrite (rf_name file) pattern (rf_rewrite file) of Inl e \<Rightarrow> Inl e | Inr rewrite \<Rightarrow>
           Inr \<lparr>ro_name = rf_name file, ro_pattern = pattern, ro_methods = methods, ro_legacy = legacy,
                ro_successor = successor, ro_mode = mode, ro_translation = translation, ro_rewrite = rewrite\<rparr>))))))"

section \<open>A route table\<close>

definition methodsOverlap :: "string list \<Rightarrow> string list \<Rightarrow> bool" where
  "methodsOverlap left right =
     (if length left = 0 \<or> length right = 0 then True else list_ex (\<lambda>m. m \<in> set right) left)"

text \<open>The loop of \<open>validateUniqueRouteCoverage\<close>; \<open>seen\<close> is \<open>routes[:i]\<close>, whose names are the map.\<close>

fun validate_coverage_loop :: "route list \<Rightarrow> route list \<Rightarrow> go_err option" where
  "validate_coverage_loop seen [] = None"
| "validate_coverage_loop seen (route # rest) =
     (if ro_name route \<in> ro_name ` set seen then Some (Errorf (''duplicate route name '' @ ro_name route))
      else case find (\<lambda>existing. ro_pattern route = ro_pattern existing \<and>
                        methodsOverlap (ro_methods route) (ro_methods existing)) seen of
        Some existing \<Rightarrow>
          Some (Errorf (''route '' @ ro_name route @ '' overlaps route '' @ ro_name existing @ '' for path '' @ ro_pattern route))
      | None \<Rightarrow> validate_coverage_loop (seen @ [route]) rest)"

definition validateUniqueRouteCoverage :: "route list \<Rightarrow> go_err option" where
  "validateUniqueRouteCoverage routes = validate_coverage_loop [] routes"

text \<open>
  The comparison given to \<open>sort.SliceStable\<close> is the order of this key, so the stable sort is
  \<open>sort_key\<close>.
\<close>

definition route_less :: "route \<Rightarrow> route \<Rightarrow> bool" where
  "route_less a b =
     (if length (ro_pattern a) \<noteq> length (ro_pattern b) then length (ro_pattern a) > length (ro_pattern b)
      else length (ro_methods a) > length (ro_methods b))"

definition route_key :: "route \<Rightarrow> int \<times> int" where
  "route_key r = (- int (length (ro_pattern r)), - int (length (ro_methods r)))"

definition NewRouteTable :: "url_parser \<Rightarrow> route_file list \<Rightarrow> go_err + route_table" where
  "NewRouteTable parse files =
     (if length files = 0 then Inl (Errorf ''at least one route is required'')
      else case scan_all (newRoute parse) files of Inl e \<Rightarrow> Inl e | Inr routes \<Rightarrow>
        (case validateUniqueRouteCoverage routes of
           Some e \<Rightarrow> Inl e
         | None \<Rightarrow> Inr (sort_key route_key routes)))"

section \<open>Selecting a route\<close>

definition splitPathSegments :: "string \<Rightarrow> string list" where
  "splitPathSegments path =
     (let path = trim_right_char slash (trim_left_char slash path)
      in if path = [] then [] else split_on slash path)"

definition isPathVariable :: "string \<Rightarrow> bool" where
  "isPathVariable segment \<longleftrightarrow> prefix ''{'' segment \<and> suffix ''}'' segment \<and> length segment > 2"

text \<open>The loop over the pattern's segments; the path has at least as many.\<close>

fun segments_match :: "string list \<Rightarrow> string list \<Rightarrow> bool" where
  "segments_match [] ss = True"
| "segments_match (p # ps) (s # ss) =
     (if isPathVariable p then (if s = [] then False else segments_match ps ss)
      else if s \<noteq> p then False else segments_match ps ss)"
| "segments_match (p # ps) [] = False"

definition pathTemplateMatches :: "string \<Rightarrow> string \<Rightarrow> bool" where
  "pathTemplateMatches pattern path =
     (let pattern = trim_right_char slash pattern;
          path = trim_right_char slash path;
          pattern = (if pattern = [] then ''/'' else pattern);
          path = (if path = [] then ''/'' else path);
          pattern_segments = splitPathSegments pattern;
          path_segments = splitPathSegments path
      in if length path_segments < length pattern_segments then False
         else segments_match pattern_segments path_segments)"

definition route_matches :: "route \<Rightarrow> string \<Rightarrow> string \<Rightarrow> bool" where
  "route_matches r method path =
     (if length (ro_methods r) > 0 \<and> to_upper (trim_space method) \<notin> set (ro_methods r) then False
      else if CHR ''{'' \<in> set (ro_pattern r) then pathTemplateMatches (ro_pattern r) path
      else if ro_pattern r = ''/'' then True
      else path = ro_pattern r \<or> prefix (trim_right_char slash (ro_pattern r) @ ''/'') path)"

definition usesSuccessor :: "route \<Rightarrow> bool \<Rightarrow> bool" where
  "usesSuccessor r prefer =
     (if ro_successor r = None then False else ro_mode r = SuccessorModeAlways \<or> prefer)"

definition route_result :: "route \<Rightarrow> bool \<Rightarrow> route_match" where
  "route_result r prefer =
     (if usesSuccessor r prefer then
        \<lparr>ma_target = the (ro_successor r), ma_translation = ro_translation r, ma_rewrite = ro_rewrite r,
         ma_uses_successor = True\<rparr>
      else
        \<lparr>ma_target = ro_legacy r, ma_translation = no_translation, ma_rewrite = ro_rewrite r,
         ma_uses_successor = False\<rparr>)"

fun Match :: "route_table \<Rightarrow> string \<Rightarrow> string \<Rightarrow> bool \<Rightarrow> route_match option" where
  "Match [] method path prefer = None"
| "Match (r # rs) method path prefer =
     (if \<not> route_matches r method path then Match rs method path prefer
      else Some (route_result r prefer))"

section \<open>The handler\<close>

text \<open>
  The gateway's handler (\<open>gateway/internal/proxy.go\<close>). Reading and closing a request's body gives
  its decoding or an error; a forwarded request is what the reverse proxy is told to send.
\<close>

record gw_request =
  rq_method :: string
  rq_path :: string
  rq_escaped_path :: string
  rq_query :: string
  rq_migrated :: string
  rq_body :: "(go_err + json_body) option"

record out_request =
  out_method :: string
  out_scheme :: string
  out_url_host :: string
  out_path :: string
  out_raw_path :: string
  out_query :: string
  out_host :: string
  out_body :: "(go_err + json_body) option"

datatype gw_outcome = RouteNotFound | GatewayError int error_body | Forward out_request

definition preferSuccessor :: "gw_request \<Rightarrow> bool" where
  "preferSuccessor r \<longleftrightarrow> to_lower (trim_space (rq_migrated r)) = ''true''"

definition rewriteProxyRequest :: "gw_request \<Rightarrow> url \<Rightarrow> path_rewrite \<Rightarrow> out_request" where
  "rewriteProxyRequest r target rewrite =
     \<lparr>out_method = rq_method r, out_scheme = url_scheme target, out_url_host = url_host target,
      out_path = joinPaths (url_path target) (rewrite_apply rewrite (rq_path r)),
      out_raw_path = joinPaths (url_escaped target) (rewrite_apply rewrite (rq_escaped_path r)),
      out_query = rq_query r, out_host = url_host target, out_body = rq_body r\<rparr>"

definition translatedRequest :: "gw_request \<Rightarrow> identity_translation \<Rightarrow> go_err + gw_request" where
  "translatedRequest r t =
     (case rq_body r of
        None \<Rightarrow> Inr r
      | Some (Inl e) \<Rightarrow> Inl e
      | Some (Inr body) \<Rightarrow>
          (case TranslateJSON t body of
             Inl e \<Rightarrow> Inl e
           | Inr translated \<Rightarrow> Inr (r\<lparr>rq_body := Some (Inr translated)\<rparr>)))"

definition gateway_error :: "unit http_response \<Rightarrow> gw_outcome" where
  "gateway_error a = (case a of ErrorResponse status b \<Rightarrow> GatewayError status b | JSONResponse status _ \<Rightarrow> RouteNotFound)"

definition ServeHTTP :: "route_table \<Rightarrow> gw_request \<Rightarrow> gw_outcome" where
  "ServeHTTP routes r =
     (case Match routes (rq_method r) (rq_path r) (preferSuccessor r) of
        None \<Rightarrow> RouteNotFound
      | Some m \<Rightarrow>
          if ma_uses_successor m \<and> it_enabled (ma_translation m) then
            (case translatedRequest r (ma_translation m) of
               Inl e \<Rightarrow>
                 if errors_is e ErrIdentityTranslationFailed then
                   gateway_error (WriteError 400 ''identity_translation_failed'' (err_text e))
                 else gateway_error (WriteServiceError (Some e))
             | Inr translated \<Rightarrow> Forward (rewriteProxyRequest translated (ma_target m) (ma_rewrite m)))
          else Forward (rewriteProxyRequest r (ma_target m) (ma_rewrite m)))"

end
