(* ===== verification/Gateway_Laws.thy ===== *)
theory Gateway_Laws
  imports Gateway_Routing "HOL-Library.Multiset"
begin

text \<open>
  Facts about the gateway's definitions: trimming and splitting of paths, what an accepted route
  satisfies, the order of a table and the first route that matches.
\<close>

section \<open>Slashes\<close>

lemma trim_right_char_append [simp]: "x \<noteq> c \<Longrightarrow> trim_right_char c (s @ [x]) = s @ [x]"
  by (simp add: trim_right_char_def)

lemma trim_right_char_snoc [simp]: "trim_right_char c (s @ [c]) = trim_right_char c s"
  by (simp add: trim_right_char_def)

lemma trim_right_char_Nil [simp]: "trim_right_char c [] = []"
  by (simp add: trim_right_char_def)

lemma trim_right_char_split: "\<exists>n. s = trim_right_char c s @ replicate n c"
proof (induction s rule: rev_induct)
  case (snoc x s)
  then obtain n where n: "s = trim_right_char c s @ replicate n c" by blast
  show ?case
  proof (cases "x = c")
    case True
    have "s @ [x] = trim_right_char c s @ replicate (Suc n) c"
      by (subst n) (simp add: True replicate_append_same)
    with True show ?thesis by (metis trim_right_char_snoc)
  next
    case False
    then show ?thesis by (intro exI [of _ 0]) simp
  qed
qed simp

lemma trim_right_char_last: "trim_right_char c s \<noteq> [] \<Longrightarrow> last (trim_right_char c s) \<noteq> c"
  by (induction s rule: rev_induct) (auto split: if_splits simp: trim_right_char_def dest: hd_dropWhile)

lemma trim_right_char_fixed: "s = [] \<or> last s \<noteq> c \<Longrightarrow> trim_right_char c s = s"
  by (cases s rule: rev_cases) auto

lemma trim_right_char_idem [simp]: "trim_right_char c (trim_right_char c s) = trim_right_char c s"
  by (rule trim_right_char_fixed) (use trim_right_char_last in blast)

lemma trim_left_char_fixed: "s = [] \<or> hd s \<noteq> c \<Longrightarrow> trim_left_char c s = s"
  by (cases s) (auto simp: trim_left_char_def)

lemma trim_left_char_hd: "trim_left_char c s \<noteq> [] \<Longrightarrow> hd (trim_left_char c s) \<noteq> c"
  by (induction s) (auto simp: trim_left_char_def)

lemma trim_left_char_idem [simp]: "trim_left_char c (trim_left_char c s) = trim_left_char c s"
  by (rule trim_left_char_fixed) (use trim_left_char_hd in blast)

lemma trim_left_char_Cons [simp]: "trim_left_char c (c # s) = trim_left_char c s"
  by (simp add: trim_left_char_def)

lemma trim_left_char_append:
  "trim_left_char c s \<noteq> [] \<Longrightarrow> trim_left_char c (s @ t) = trim_left_char c s @ t"
  by (induction s) (auto simp: trim_left_char_def)

lemma trim_right_char_append_nonempty:
  "trim_right_char c t \<noteq> [] \<Longrightarrow> trim_right_char c (s @ t) = s @ trim_right_char c t"
  using trim_left_char_append [of c "rev t" "rev s"] by (simp add: trim_right_char_def trim_left_char_def)

lemma trim_left_right_commute:
  "trim_right_char c (trim_left_char c s) = trim_left_char c (trim_right_char c s)"
proof (cases "trim_left_char c s = []")
  case True
  then have "\<forall>x\<in>set s. x = c" by (auto simp: trim_left_char_def)
  then have "trim_right_char c s = []" by (auto simp: trim_right_char_def)
  with True show ?thesis by simp (simp add: trim_left_char_def)
next
  case False
  then show ?thesis
  proof (induction s)
    case (Cons x s)
    show ?case
    proof (cases "x = c")
      case True
      with Cons have ne: "trim_left_char c s \<noteq> []" by simp
      obtain n where n: "s = trim_right_char c s @ replicate n c" using trim_right_char_split by blast
      have "trim_right_char c s \<noteq> []"
      proof
        assume "trim_right_char c s = []"
        with n have "\<forall>x\<in>set s. x = c" by (metis append_Nil in_set_replicate)
        with ne show False by (simp add: trim_left_char_def dropWhile_eq_Nil_conv)
      qed
      then have "trim_right_char c (x # s) = x # trim_right_char c s"
        using trim_right_char_append_nonempty [of c s "[x]"] by simp
      with True Cons.IH [OF ne] show ?thesis by simp
    next
      case False
      moreover from False have "trim_right_char c (x # s) = x # trim_right_char c s"
        by (induction s rule: rev_induct) (auto simp: trim_right_char_def)
      ultimately show ?thesis by (simp add: trim_left_char_def)
    qed
  qed (simp add: trim_left_char_def)
qed

lemma split_on_append: "split_on c (s @ c # t) = split_on c s @ split_on c t"
  by (induction s) (auto split: list.splits)

text \<open>A string extends another by whole segments exactly when it goes on with the separator.\<close>

lemma prefix_split_on: "prefix (split_on c p) (split_on c q) \<longleftrightarrow> q = p \<or> prefix (p @ [c]) q"
proof
  assume "prefix (split_on c p) (split_on c q)"
  then obtain zs where zs: "split_on c q = split_on c p @ zs" by (auto simp: prefix_def)
  show "q = p \<or> prefix (p @ [c]) q"
  proof (cases "zs = []")
    case True
    with zs show ?thesis by (metis append_Nil2 join_split)
  next
    case False
    have join: "join_on c (xs @ zs) = join_on c xs @ c # join_on c zs" if "xs \<noteq> []" for xs
      using that False by (induction c xs rule: join_on.induct) (auto simp: neq_Nil_conv)
    have "q = join_on c (split_on c p @ zs)" by (metis zs join_split)
    also have "\<dots> = p @ c # join_on c zs" by (simp add: join)
    finally show ?thesis by (simp add: prefix_def)
  qed
qed (auto simp: prefix_def split_on_append)

section \<open>Segments of a path\<close>

lemma splitPathSegments_trim_left: "splitPathSegments (trim_left_char slash s) = splitPathSegments s"
  by (simp add: splitPathSegments_def)

lemma splitPathSegments_trim_right: "splitPathSegments (trim_right_char slash s) = splitPathSegments s"
  unfolding splitPathSegments_def by (simp flip: trim_left_right_commute)

lemma trim_right_left_Nil: "trim_left_char c b = b \<Longrightarrow> trim_right_char c b = [] \<Longrightarrow> b = []"
proof (rule ccontr)
  assume l: "trim_left_char c b = b" and r: "trim_right_char c b = []" and "b \<noteq> []"
  then have "hd b \<noteq> c" using trim_left_char_hd [of c b] by simp
  moreover have "\<forall>x\<in>set b. x = c" using r by (simp add: trim_right_char_def dropWhile_eq_Nil_conv)
  ultimately show False using \<open>b \<noteq> []\<close> by simp
qed

lemma splitPathSegments_join:
  assumes "trim_right_char slash a = a" and "trim_left_char slash a \<noteq> []"
  shows "splitPathSegments (a @ slash # trim_left_char slash b) = splitPathSegments a @ splitPathSegments b"
proof -
  let ?l = "trim_left_char slash" and ?r = "trim_right_char slash"
  have l: "?l (a @ slash # ?l b) = ?l a @ slash # ?l b" using assms(2) by (rule trim_left_char_append)
  have ra: "?r (?l a) = ?l a" using assms(1) by (metis trim_left_right_commute)
  have a: "splitPathSegments a = split_on slash (?l a)" using assms(2) by (simp add: splitPathSegments_def ra)
  show ?thesis
  proof (cases "?r (?l b) = []")
    case True
    from trim_right_left_Nil [OF trim_left_char_idem True] have "?l b = []" .
    with True l ra assms(2) a show ?thesis by (simp add: splitPathSegments_def)
  next
    case False
    then have "?r (slash # ?l b) = slash # ?r (?l b)"
      using trim_right_char_append_nonempty [of slash "?l b" "[slash]"] by simp
    then have "?r (?l a @ slash # ?l b) = ?l a @ slash # ?r (?l b)"
      using trim_right_char_append_nonempty [of slash "slash # ?l b" "?l a"] by simp
    with False l a show ?thesis by (simp add: splitPathSegments_def split_on_append)
  qed
qed

section \<open>An accepted route\<close>

definition accepted_url :: "url \<Rightarrow> bool" where
  "accepted_url u \<longleftrightarrow> url_scheme u \<in> {''http'', ''https''} \<and> url_host u \<noteq> []"

lemma parseUpstreamURL_ok: "parseUpstreamURL parse name raw = Inr u \<Longrightarrow> accepted_url u"
  by (auto simp: parseUpstreamURL_def accepted_url_def split: if_splits sum.splits)

lemma in_route_Inr: "in_route name r = Inr x \<Longrightarrow> r = Inr x"
  by (auto simp: in_route_def split: sum.splits)

lemma parse_successor_ok: "parse_successor parse file = Inr (Some u) \<Longrightarrow> accepted_url u"
  by (auto simp: parse_successor_def map_sum_def split: if_splits sum.splits dest!: in_route_Inr parseUpstreamURL_ok)

lemma parse_methods_loop_ok:
  "parse_methods_loop name ms raws = Inr ms' \<Longrightarrow> distinct ms \<Longrightarrow>
     distinct ms' \<and> set ms' = set ms \<union> (to_upper \<circ> trim_space) ` set raws \<and> length ms' = length ms + length raws"
  by (induction name ms raws arbitrary: ms' rule: parse_methods_loop.induct) (auto simp: Let_def split: if_splits)

lemma parseMethods_ok:
  "parseMethods name raws = Inr ms \<Longrightarrow> distinct ms \<and> set ms = (to_upper \<circ> trim_space) ` set raws \<and> length ms = length raws"
  using parse_methods_loop_ok [of name "[]" raws ms] by (simp add: parseMethods_def)

lemma parseSuccessorMode_ok:
  "parseSuccessorMode name raw has = Inr mode \<Longrightarrow>
     (mode = SuccessorModeHeader \<or> mode = SuccessorModeAlways) \<and> (mode = SuccessorModeAlways \<longrightarrow> has)"
  by (auto simp: parseSuccessorMode_def Let_def SuccessorModeHeader_def SuccessorModeAlways_def split: if_splits)

definition rewrite_ok :: "string \<Rightarrow> path_rewrite \<Rightarrow> bool" where
  "rewrite_ok pattern r \<longleftrightarrow> r = no_rewrite \<or>
     pr_from r = trim_right_char slash pattern \<and> pr_from r \<noteq> [] \<and> CHR ''{'' \<notin> set pattern \<and>
     trim_right_char slash (pr_to r) = pr_to r \<and> prefix ''/'' (pr_to r) \<and> trim_left_char slash (pr_to r) \<noteq> []"

lemma newPathRewrite_ok: "newPathRewrite name pattern file = Inr r \<Longrightarrow> rewrite_ok pattern r"
proof -
  assume a: "newPathRewrite name pattern file = Inr r"
  let ?t = "trim_right_char slash (trim_space (pf_to file))"
  have "trim_left_char slash ?t \<noteq> []" if "?t \<noteq> []"
  proof
    assume "trim_left_char slash ?t = []"
    then have "last ?t = slash" using that by (simp add: trim_left_char_def dropWhile_eq_Nil_conv)
    with that trim_right_char_last show False by blast
  qed
  with a show ?thesis
    by (auto simp: newPathRewrite_def Let_def rewrite_ok_def split: if_splits)
qed

definition route_ok :: "route \<Rightarrow> bool" where
  "route_ok r \<longleftrightarrow> trim_space (ro_name r) \<noteq> [] \<and> prefix ''/'' (ro_pattern r) \<and> distinct (ro_methods r) \<and>
     accepted_url (ro_legacy r) \<and> pred_option accepted_url (ro_successor r) \<and>
     (ro_mode r = SuccessorModeAlways \<or> it_enabled (ro_translation r) \<longrightarrow> ro_successor r \<noteq> None) \<and>
     rewrite_ok (ro_pattern r) (ro_rewrite r)"

lemma newRoute_ok:
  assumes "newRoute parse file = Inr r"
  shows "route_ok r"
proof -
  from assms obtain methods legacy successor mode translation rewrite where
    "trim_space (rf_name file) \<noteq> []" "prefix ''/'' (trim_space (rf_pattern file))"
    and p: "parseMethods (rf_name file) (rf_methods file) = Inr methods"
      "in_route (rf_name file) (parseUpstreamURL parse ''legacy_upstream_url'' (rf_legacy file)) = Inr legacy"
      "parse_successor parse file = Inr successor"
      "parseSuccessorMode (rf_name file) (rf_mode file) (successor \<noteq> None) = Inr mode"
      "newPathRewrite (rf_name file) (trim_space (rf_pattern file)) (rf_rewrite file) = Inr rewrite"
    and "\<not> (it_enabled translation \<and> successor = None)"
    and "r = \<lparr>ro_name = rf_name file, ro_pattern = trim_space (rf_pattern file), ro_methods = methods,
           ro_legacy = legacy, ro_successor = successor, ro_mode = mode, ro_translation = translation,
           ro_rewrite = rewrite\<rparr>"
    unfolding newRoute_def Let_def by (force split: if_splits sum.splits)
  moreover from p have "distinct methods" "accepted_url legacy" "pred_option accepted_url successor"
    "mode = SuccessorModeAlways \<longrightarrow> successor \<noteq> None" "rewrite_ok (trim_space (rf_pattern file)) rewrite"
    by (cases successor; force dest: parseMethods_ok in_route_Inr parseUpstreamURL_ok parse_successor_ok
        parseSuccessorMode_ok newPathRewrite_ok)+
  ultimately show ?thesis by (auto simp: route_ok_def)
qed

end
