(* ===== verification/Gateway_Table.thy ===== *)
theory Gateway_Table
  imports Gateway_Laws
begin

text \<open>
  What an accepted route table is, which of its routes a request takes, and when a route matches.
\<close>

section \<open>An accepted table\<close>

lemma scan_all_Inr_iff: "scan_all f rs = Inr xs \<longleftrightarrow> map f rs = map Inr xs"
proof
  assume "map f rs = map Inr xs"
  then show "scan_all f rs = Inr xs" by (induction rs arbitrary: xs) (auto simp: Cons_eq_map_conv)
qed (rule scan_all_Inr)

definition routes_apart :: "route \<Rightarrow> route \<Rightarrow> bool" where
  "routes_apart a b \<longleftrightarrow> ro_name a \<noteq> ro_name b \<and>
     (ro_pattern a = ro_pattern b \<longrightarrow> \<not> methodsOverlap (ro_methods b) (ro_methods a))"

lemma methodsOverlap_iff: "methodsOverlap ms ns \<longleftrightarrow> ms = [] \<or> ns = [] \<or> set ms \<inter> set ns \<noteq> {}"
  by (auto simp: methodsOverlap_def list_ex_iff)

lemma routes_apart_sym: "routes_apart a b \<Longrightarrow> routes_apart b a"
  by (auto simp: routes_apart_def methodsOverlap_iff)

lemma routes_apart_irrefl [simp]: "\<not> routes_apart a a"
  by (simp add: routes_apart_def)

lemma find_None_iff_Ball: "find P xs = None \<longleftrightarrow> (\<forall>x\<in>set xs. \<not> P x)"
  by (auto simp: find_None_iff)

lemma validate_coverage_loop_None:
  "validate_coverage_loop seen rs = None \<longleftrightarrow>
     (\<forall>a\<in>set seen. \<forall>b\<in>set rs. routes_apart a b) \<and> sorted_wrt routes_apart rs"
proof (induction seen rs rule: validate_coverage_loop.induct)
  case (2 seen route rest)
  have "(\<forall>a\<in>set seen. routes_apart a route) \<longleftrightarrow>
      ro_name route \<notin> ro_name ` set seen \<and>
      find (\<lambda>e. ro_pattern route = ro_pattern e \<and> methodsOverlap (ro_methods route) (ro_methods e)) seen = None"
    by (auto simp: routes_apart_def find_None_iff_Ball image_iff)
  with 2 show ?case by (auto split: option.splits)
qed simp

lemma apart_pairwise:
  "sorted_wrt routes_apart rs \<longleftrightarrow> distinct rs \<and> (\<forall>a\<in>set rs. \<forall>b\<in>set rs. a \<noteq> b \<longrightarrow> routes_apart a b)"
  by (induction rs) (auto dest: routes_apart_sym)

lemma NewRouteTable_Inr:
  "NewRouteTable parse files = Inr t \<longleftrightarrow>
     files \<noteq> [] \<and> (\<exists>rs. map (newRoute parse) files = map Inr rs \<and> sorted_wrt routes_apart rs \<and> t = sort_key route_key rs)"
  by (auto simp: NewRouteTable_def validateUniqueRouteCoverage_def validate_coverage_loop_None option.case_eq_if
      scan_all_Inr_iff [symmetric] split: sum.splits)

lemma route_key_less: "route_key b < route_key a \<longleftrightarrow> route_less b a"
  by (auto simp: route_key_def route_less_def)

lemma table_routes:
  assumes "NewRouteTable parse files = Inr t"
  shows "Inr ` set t = newRoute parse ` set files" and "r \<in> set t \<Longrightarrow> route_ok r"
    and "a \<in> set t \<Longrightarrow> b \<in> set t \<Longrightarrow> a \<noteq> b \<Longrightarrow> routes_apart a b"
    and "sorted (map route_key t)"
proof -
  from assms obtain rs where rs: "map (newRoute parse) files = map Inr rs" "sorted_wrt routes_apart rs"
    "t = sort_key route_key rs" by (auto simp: NewRouteTable_Inr)
  from arg_cong [OF rs(1), of set] rs(3) show im: "Inr ` set t = newRoute parse ` set files" by simp
  then show "route_ok r" if "r \<in> set t" using that by (metis image_iff newRoute_ok)
  show "a \<in> set t \<Longrightarrow> b \<in> set t \<Longrightarrow> a \<noteq> b \<Longrightarrow> routes_apart a b"
    using rs(2,3) by (simp add: apart_pairwise)
  show "sorted (map route_key t)" using rs(3) by simp
qed

section \<open>The first match\<close>

lemma Match_find: "Match t method path prefer = map_option (\<lambda>r. route_result r prefer) (find (\<lambda>r. route_matches r method path) t)"
  by (induction t) auto

lemma find_sorted_least:
  fixes key :: "'a \<Rightarrow> 'b::linorder"
  assumes "sorted (map key xs)" and "find P xs = Some x" and "y \<in> set xs" and "P y"
  shows "key x \<le> key y"
  using assms by (induction xs) (auto split: if_splits)

lemma find_SomeD: "find P xs = Some x \<Longrightarrow> x \<in> set xs \<and> P x"
  by (auto simp: find_Some_iff)

lemma Match_Some:
  assumes t: "NewRouteTable parse files = Inr t" and m: "Match t method path prefer = Some m"
  obtains f r where "f \<in> set files" "newRoute parse f = Inr r" "r \<in> set t" "route_ok r"
    "route_matches r method path" "m = route_result r prefer"
    "\<forall>r'\<in>set t. route_matches r' method path \<longrightarrow> \<not> route_less r' r"
proof -
  note tab = table_routes [OF t]
  from m obtain r where r: "find (\<lambda>r. route_matches r method path) t = Some r" "m = route_result r prefer"
    by (auto simp: Match_find)
  with find_SomeD [OF r(1)] have "r \<in> set t" "route_matches r method path" by auto
  moreover from tab(1) \<open>r \<in> set t\<close> obtain f where "f \<in> set files" "newRoute parse f = Inr r"
    by (metis image_iff)
  moreover have "\<not> route_less r' r" if "r' \<in> set t" "route_matches r' method path" for r'
    using find_sorted_least [OF tab(4) r(1) that] by (simp flip: route_key_less)
  ultimately show ?thesis using that r(2) tab(2) by blast
qed

section \<open>Patterns\<close>

lemma method_overlap:
  "route_matches a method path \<Longrightarrow> route_matches b method path \<Longrightarrow> methodsOverlap (ro_methods b) (ro_methods a)"
  by (auto simp: route_matches_def methodsOverlap_iff split: if_splits)

text \<open>A pattern without a variable that does not end in two slashes.\<close>

definition plain_pattern :: "string \<Rightarrow> bool" where
  "plain_pattern p \<longleftrightarrow> CHR ''{'' \<notin> set p \<and> \<not> suffix ''//'' p"

lemma plain_trim:
  assumes "plain_pattern p" and "prefix ''/'' p" and "p \<noteq> ''/''"
  shows "p = trim_right_char slash p \<or> p = trim_right_char slash p @ ''/''"
proof -
  obtain n where n: "p = trim_right_char slash p @ replicate n slash" using trim_right_char_split by blast
  have "n < 2"
  proof (rule ccontr)
    assume "\<not> n < 2"
    then obtain k where "n = k + 2" by (metis add.commute le_Suc_ex not_less)
    with replicate_add [of k 2 slash] have "replicate n slash = replicate k slash @ ''//''"
      by (simp add: slash_def numeral_2_eq_2)
    with n assms(1) show False by (metis append_assoc plain_pattern_def suffix_def)
  qed
  then have "n = 0 \<or> n = 1" by auto
  with n show ?thesis by (auto simp: slash_def)
qed

lemma plain_match_prefix:
  assumes "plain_pattern p" and "prefix ''/'' p" and "p = path \<or> prefix (trim_right_char slash p @ ''/'') path"
  shows "prefix p path"
proof (cases "p = ''/''")
  case True
  with assms show ?thesis by (auto simp: trim_right_char_def slash_def)
next
  case False
  from plain_trim [OF assms(1,2) False] assms(3) show ?thesis
    by (metis append_prefixD prefix_order.refl)
qed

lemma plain_match_unique:
  assumes "plain_pattern (ro_pattern a)" "plain_pattern (ro_pattern b)" "route_ok a" "route_ok b"
    and "route_matches a method path" "route_matches b method path"
    and "length (ro_pattern a) = length (ro_pattern b)"
  shows "ro_pattern a = ro_pattern b"
proof (cases "ro_pattern a = ''/'' \<or> ro_pattern b = ''/''")
  case True
  with assms(3,4,7) show ?thesis by (auto simp: route_ok_def prefix_def)
next
  case False
  have "prefix (ro_pattern r) path" if "plain_pattern (ro_pattern r)" "route_ok r" "route_matches r method path"
      "ro_pattern r \<noteq> ''/''" for r
  proof -
    from that have "ro_pattern r = path \<or> prefix (trim_right_char slash (ro_pattern r) @ ''/'') path"
      by (auto simp: route_matches_def plain_pattern_def split: if_splits)
    moreover from that(2) have "prefix ''/'' (ro_pattern r)" unfolding route_ok_def by blast
    ultimately show ?thesis using plain_match_prefix [OF that(1)] by blast
  qed
  with False assms have "prefix (ro_pattern a) path" "prefix (ro_pattern b) path" by blast+
  with assms(7) show ?thesis by (auto simp: prefix_def append_eq_append_conv)
qed

text \<open>The segments a template has to match are an initial part of the path's.\<close>

definition segment_matches :: "string \<Rightarrow> string \<Rightarrow> bool" where
  "segment_matches p s \<longleftrightarrow> (if isPathVariable p then s \<noteq> [] else s = p)"

lemma segments_match_Cons: "segments_match (p # ps) (s # ss) \<longleftrightarrow> segment_matches p s \<and> segments_match ps ss"
  by (simp add: segment_matches_def)

lemma segments_match_iff: "segments_match ps ss \<longleftrightarrow> (\<exists>us vs. ss = us @ vs \<and> list_all2 segment_matches ps us)"
proof (induction ps arbitrary: ss)
  case (Cons p ps)
  note IH = Cons.IH
  show ?case
  proof (cases ss)
    case (Cons s ss')
    show ?thesis
      unfolding Cons segments_match_Cons IH [of ss'] by (auto simp: list_all2_Cons1 Cons_eq_append_conv)
  qed (simp add: list_all2_Cons1)
qed simp

lemma pathTemplateMatches_iff:
  "pathTemplateMatches pattern path \<longleftrightarrow>
     (\<exists>us vs. splitPathSegments path = us @ vs \<and> list_all2 segment_matches (splitPathSegments pattern) us)"
proof -
  have root: "splitPathSegments (if trim_right_char slash s = [] then ''/'' else trim_right_char slash s) = splitPathSegments s" for s
  proof (cases "trim_right_char slash s = []")
    case True
    then have "splitPathSegments s = splitPathSegments []" by (metis splitPathSegments_trim_right)
    with True show ?thesis by (simp add: splitPathSegments_def slash_def trim_left_char_def)
  qed (simp add: splitPathSegments_trim_right)
  have "length ps \<le> length ss" if "segments_match ps ss" for ps ss
    using that by (auto simp: segments_match_iff dest: list_all2_lengthD)
  then show ?thesis
    unfolding pathTemplateMatches_def Let_def root by (auto simp: segments_match_iff dest: list_all2_lengthD)
qed

lemma plain_match_segments:
  assumes "route_ok r" and "CHR ''{'' \<notin> set (ro_pattern r)" and "\<not> suffix ''/'' (ro_pattern r)"
  shows "route_matches r method path \<longleftrightarrow>
    (ro_methods r = [] \<or> to_upper (trim_space method) \<in> set (ro_methods r)) \<and>
    prefix (split_on slash (ro_pattern r)) (split_on slash path)"
proof -
  have "ro_pattern r \<noteq> []" using assms(1) by (auto simp: route_ok_def)
  moreover from this assms(3) have "last (ro_pattern r) \<noteq> slash"
    by (metis append_butlast_last_id slash_def suffix_def)
  ultimately have "trim_right_char slash (ro_pattern r) = ro_pattern r" by (simp add: trim_right_char_fixed)
  moreover have "ro_pattern r \<noteq> ''/''" using assms(3) by auto
  ultimately show ?thesis using assms(2) by (auto simp: route_matches_def prefix_split_on slash_def)
qed

end
