(* ===== verification/Gateway_Translation.thy ===== *)
theory Gateway_Translation
  imports Gateway_Table
begin

text \<open>
  What the translation of a body does to each field of the object, and the errors it can report.
\<close>

section \<open>Fields\<close>

lemma removeLegacyFields_apply:
  "removeLegacyFields target p f = (if f \<in> set (legacy_fields target) then None else p f)"
proof -
  have "fold (\<lambda>g p. p(g := None)) gs p f = (if f \<in> set gs then None else p f)" for gs
    by (induction gs arbitrary: p) auto
  then show ?thesis by (simp add: removeLegacyFields_def)
qed

lemma firstString_Some:
  "firstString p gs = Inr (Some v) \<Longrightarrow> \<exists>g\<in>set gs. \<exists>s. p g = Some (JString s) \<and> v = trim_space s \<and> v \<noteq> []"
proof (induction p gs rule: firstString.induct)
  case (2 p g gs)
  show ?case
  proof (cases "p g")
    case (Some raw)
    with 2 show ?thesis by (cases raw) (auto simp: Let_def split: if_splits)
  qed (use 2 in auto)
qed simp

definition mapped_identity :: "identity_translation \<Rightarrow> json_payload \<Rightarrow> translation_target \<Rightarrow> agent_identity \<Rightarrow> bool" where
  "mapped_identity t p target a \<longleftrightarrow> agent_is_valid a \<and>
     (\<exists>g\<in>set (tt_profiles target). \<exists>s m. p g = Some (JString s) \<and> it_mappings t (trim_space s) = Some m \<and>
        ai_profile a = im_profile m)"

lemma translateTarget_Some: "translateTarget t p target = Inr (Some a) \<Longrightarrow> mapped_identity t p target a"
proof -
  assume a: "translateTarget t p target = Inr (Some a)"
  then obtain v m where v: "firstString p (tt_profiles target) = Inr (Some v)" "it_mappings t v = Some m"
    and "\<exists>i s. NewAgentIdentity (im_profile m) i s = Inr a"
    unfolding translateTarget_def Let_def by (force split: sum.splits option.splits)
  then have "ai_profile a = im_profile m" "agent_is_valid a"
    by (auto dest: NewAgentIdentity_valid simp: NewAgentIdentity_def Let_def split: if_splits)
  with firstString_Some [OF v(1)] v(2) show ?thesis by (auto simp: mapped_identity_def)
qed

definition fields_separate :: "translation_target list \<Rightarrow> bool" where
  "fields_separate ts \<longleftrightarrow> distinct (map tt_canonical ts) \<and>
     (\<forall>target\<in>set ts. \<forall>target'\<in>set ts. tt_canonical target \<notin> set (legacy_fields target'))"

definition touched :: "translation_target list \<Rightarrow> string set" where
  "touched ts = tt_canonical ` set ts \<union> (\<Union>target\<in>set ts. set (legacy_fields target))"

lemma translate_loop_frame:
  "translate_loop t p ts = Inr p' \<Longrightarrow> f \<notin> touched ts \<Longrightarrow> p' f = p f"
  by (induction t p ts rule: translate_loop.induct)
    (auto simp: touched_def removeLegacyFields_apply split: sum.splits option.splits if_splits)

lemma translate_loop_legacy:
  "translate_loop t p ts = Inr p' \<Longrightarrow> f \<notin> tt_canonical ` set ts \<Longrightarrow> p' f = p f \<or> p' f = None"
  by (induction t p ts rule: translate_loop.induct)
    (auto simp: removeLegacyFields_apply split: sum.splits option.splits if_splits)

text \<open>What a translated target leaves in the object; \<open>p\<close> is the object it started from.\<close>

definition translated_for :: "identity_translation \<Rightarrow> json_payload \<Rightarrow> json_payload \<Rightarrow> translation_target \<Rightarrow> bool" where
  "translated_for t p p' target \<longleftrightarrow>
     (\<exists>a. p' (tt_canonical target) = Some (JAgent a) \<and> mapped_identity t p target a) \<and>
     (\<forall>g\<in>set (legacy_fields target). p' g = None)"

lemma mapped_identity_mono:
  "mapped_identity t p target a \<Longrightarrow> (\<forall>g\<in>set (legacy_fields target). p g = p0 g \<or> p g = None) \<Longrightarrow>
     mapped_identity t p0 target a"
  by (auto simp: mapped_identity_def legacy_fields_def) (metis UnI1 option.distinct(1))

text \<open>No profile field names an identity for the target, but for fields another target takes away.\<close>

definition unnamed :: "translation_target list \<Rightarrow> json_payload \<Rightarrow> translation_target \<Rightarrow> bool" where
  "unnamed ts p target \<longleftrightarrow>
     (\<forall>g\<in>set (tt_profiles target). p g = None \<or> (\<exists>x\<in>set ts. x \<noteq> target \<and> g \<in> set (legacy_fields x)))"

lemma firstString_None: "firstString p gs = Inr None \<Longrightarrow> g \<in> set gs \<Longrightarrow> p g = None"
  by (induction p gs rule: firstString.induct) (auto simp: Let_def split: option.splits if_splits)

lemma translateTarget_None: "translateTarget t p target = Inr None \<Longrightarrow> g \<in> set (tt_profiles target) \<Longrightarrow> p g = None"
  by (auto simp: translateTarget_def Let_def intro: firstString_None split: sum.splits option.splits)

text \<open>After a translation that succeeds, no profile field is left.\<close>

lemma translate_loop_profiles:
  "translate_loop t p ts = Inr p' \<Longrightarrow> target \<in> set ts \<Longrightarrow> g \<in> set (tt_profiles target) \<Longrightarrow> g \<notin> tt_canonical ` set ts \<Longrightarrow> p' g = None"
proof (induction t p ts rule: translate_loop.induct)
  case (2 t p x rest)
  consider (none) "translateTarget t p x = Inr None" "\<not> tt_required x" "translate_loop t p rest = Inr p'"
    | (some) a where "translateTarget t p x = Inr (Some a)"
      "translate_loop t (removeLegacyFields x (p(tt_canonical x \<mapsto> JAgent a))) rest = Inr p'"
    using "2.prems"(1) by (auto split: sum.splits option.splits if_splits)
  then show ?case
  proof cases
    case none
    have "p' g = p g \<or> p' g = None" using translate_loop_legacy [OF none(3), of g] "2.prems"(4) by auto
    then show ?thesis
      using "2.IH"(1) [OF none(1) refl none(2,3)] "2.prems"(2-4) translateTarget_None [OF none(1), of g] by auto
  next
    case some
    let ?q = "removeLegacyFields x (p(tt_canonical x \<mapsto> JAgent a))"
    have "p' g = ?q g \<or> p' g = None" using translate_loop_legacy [OF some(2), of g] "2.prems"(4) by auto
    moreover have "?q g = None" if "target = x"
      using that "2.prems"(3) by (simp add: removeLegacyFields_apply legacy_fields_def)
    ultimately show ?thesis using "2.IH"(2) [OF some(1) refl some(2)] "2.prems"(2-4) by auto
  qed
qed simp

lemma translate_loop_targets:
  assumes "translate_loop t p ts = Inr p'" and "fields_separate ts"
    and "\<forall>target\<in>set ts. \<forall>g\<in>set (legacy_fields target). p g = p0 g \<or> p g = None"
    and "target \<in> set ts"
  shows "translated_for t p0 p' target \<or>
    (\<not> tt_required target \<and> p' (tt_canonical target) = p (tt_canonical target) \<and> unnamed ts p target)"
  using assms
proof (induction t p ts arbitrary: target rule: translate_loop.induct)
  case (2 t p x rest)
  have sep: "fields_separate rest" "tt_canonical x \<notin> touched rest"
    "\<forall>y\<in>set (x # rest). tt_canonical y \<notin> set (legacy_fields x)"
    using "2.prems"(2) by (auto simp: fields_separate_def touched_def)
  consider (none) "translateTarget t p x = Inr None" "\<not> tt_required x" "translate_loop t p rest = Inr p'"
    | (some) a where "translateTarget t p x = Inr (Some a)"
      "translate_loop t (removeLegacyFields x (p(tt_canonical x \<mapsto> JAgent a))) rest = Inr p'"
    using "2.prems"(1) by (auto split: sum.splits option.splits if_splits)
  then show ?case
  proof cases
    case none
    show ?thesis
    proof (cases "target = x")
      case True
      with none(2) translate_loop_frame [OF none(3) sep(2)] translateTarget_None [OF none(1)] show ?thesis
        by (simp add: unnamed_def)
    next
      case False
      with "2.IH"(1) [OF none(1) refl none(2,3) sep(1), of target] "2.prems"(3,4) show ?thesis
        by (auto simp: unnamed_def)
    qed
  next
    case some
    let ?q = "removeLegacyFields x (p(tt_canonical x \<mapsto> JAgent a))"
    have q: "\<forall>y\<in>set rest. \<forall>g\<in>set (legacy_fields y). ?q g = p0 g \<or> ?q g = None"
      using "2.prems"(2,3) by (auto simp: removeLegacyFields_apply fields_separate_def)
    show ?thesis
    proof (cases "target = x")
      case True
      have "p' (tt_canonical x) = Some (JAgent a)"
        using translate_loop_frame [OF some(2) sep(2)] sep(3) by (simp add: removeLegacyFields_apply)
      moreover have "mapped_identity t p0 x a"
        using translateTarget_Some [OF some(1)] by (rule mapped_identity_mono) (use "2.prems"(3) in simp)
      moreover have "p' g = None" if "g \<in> set (legacy_fields x)" for g
      proof -
        from that "2.prems"(2) have "g \<notin> tt_canonical ` set rest" by (auto simp: fields_separate_def)
        from translate_loop_legacy [OF some(2) this] that show ?thesis by (simp add: removeLegacyFields_apply)
      qed
      ultimately show ?thesis using True by (auto simp: translated_for_def)
    next
      case False
      with "2.prems"(4) have m: "target \<in> set rest" by simp
      have "?q (tt_canonical target) = p (tt_canonical target)"
      proof -
        have "tt_canonical x \<notin> tt_canonical ` set rest" using "2.prems"(2) by (simp add: fields_separate_def)
        with m have "tt_canonical target \<noteq> tt_canonical x" by (metis imageI)
        with sep(3) m show ?thesis by (simp add: removeLegacyFields_apply)
      qed
      moreover have "unnamed (x # rest) p target" if "unnamed rest ?q target"
        using that False by (auto simp: unnamed_def removeLegacyFields_apply split: if_splits)
      ultimately show ?thesis using "2.IH"(2) [OF some(1) refl some(2) sep(1) q m] by auto
    qed
  qed
qed simp

section \<open>A legacy field as the canonical one\<close>

lemma translate_loop_append:
  "translate_loop t p (us @ vs) = (case translate_loop t p us of Inl e \<Rightarrow> Inl e | Inr q \<Rightarrow> translate_loop t q vs)"
  by (induction t p us rule: translate_loop.induct) (auto split: sum.splits option.splits)

lemma translate_loop_drops:
  assumes "translate_loop t p (us @ x # vs) = Inr p'" and "tt_required x"
    and "tt_canonical x \<in> set (legacy_fields x)" and "tt_canonical x \<notin> tt_canonical ` set vs"
  shows "p' (tt_canonical x) = None"
proof -
  from assms(1,2) obtain q a where
    "translate_loop t (removeLegacyFields x (q(tt_canonical x \<mapsto> JAgent a))) vs = Inr p'"
    unfolding translate_loop_append by (auto split: sum.splits option.splits)
  from translate_loop_legacy [OF this assms(4)] assms(3) show ?thesis by (auto simp: removeLegacyFields_apply)
qed

lemma configured_field:
  assumes "c \<in> set (configuredFields fs ds)" and "\<forall>d\<in>set ds. trim_space d = d \<and> d \<noteq> []"
  shows "trim_space c = c \<and> c \<noteq> []"
  using assms by (auto simp: configuredFields_def split: if_splits)

lemma target_legacy_field:
  assumes "newIdentityTranslationTarget x = Inr target" and "c \<in> set (legacy_fields target)"
  shows "trim_space c = c \<and> c \<noteq> []"
proof -
  have "\<forall>d\<in>set defaultProfileFields. trim_space d = d \<and> d \<noteq> []" "\<forall>d\<in>set defaultInstanceFields. trim_space d = d \<and> d \<noteq> []"
    "\<forall>d\<in>set defaultSessionFields. trim_space d = d \<and> d \<noteq> []" by code_simp+
  note defaults = this
  from assms(1) have "tt_profiles target = configuredFields (tf_profiles x) defaultProfileFields"
    "tt_instances target = configuredFields (tf_instances x) defaultInstanceFields"
    "tt_sessions target = configuredFields (tf_sessions x) defaultSessionFields"
    by (auto simp: newIdentityTranslationTarget_def split: if_splits)
  with assms(2) consider "c \<in> set (configuredFields (tf_profiles x) defaultProfileFields)"
    | "c \<in> set (configuredFields (tf_instances x) defaultInstanceFields)"
    | "c \<in> set (configuredFields (tf_sessions x) defaultSessionFields)"
    by (auto simp: legacy_fields_def)
  then show ?thesis by cases (rule configured_field, assumption, rule defaults)+
qed

text \<open>A legacy field of a target is accepted as its canonical field.\<close>

lemma retargeted:
  assumes "newIdentityTranslationTarget x = Inr target" and "c \<in> set (legacy_fields target)"
  shows "newIdentityTranslationTarget (x\<lparr>tf_canonical := c\<rparr>) = Inr (target\<lparr>tt_canonical := c\<rparr>)"
  using assms target_legacy_field [OF assms] by (auto simp: newIdentityTranslationTarget_def split: if_splits)

lemma accepted_retargeted:
  assumes "newIdentityTranslation file = Inr t" and "xf_enabled file" and "xf_targets file = us @ x # vs"
    and "newIdentityTranslationTarget x = Inr target" and "c \<in> set (legacy_fields target)"
  obtains us' vs' where "length us' = length us" and "map newIdentityTranslationTarget vs = map Inr vs'"
    and "it_enabled t" and "it_targets t = us' @ target # vs'"
    and "newIdentityTranslation (file\<lparr>xf_targets := us @ x\<lparr>tf_canonical := c\<rparr> # vs\<rparr>) = Inr (t\<lparr>it_targets := us' @ target\<lparr>tt_canonical := c\<rparr> # vs'\<rparr>)"
proof -
  from assms(1-3) obtain ts ms where t: "map newIdentityTranslationTarget (us @ x # vs) = map Inr ts"
    "mappings_loop Map.empty (xf_mappings file) = Inr ms" "xf_mappings file \<noteq> []" "t = \<lparr>it_enabled = True, it_targets = ts, it_mappings = ms\<rparr>"
    by (auto simp: newIdentityTranslation_def scan_all_Inr_iff split: if_splits sum.splits)
  from t(1) obtain us' y vs' where ts: "ts = us' @ y # vs'" "map newIdentityTranslationTarget us = map Inr us'"
    "newIdentityTranslationTarget x = Inr y" "map newIdentityTranslationTarget vs = map Inr vs'"
    by (auto simp: append_eq_map_conv map_eq_append_conv Cons_eq_map_conv map_eq_Cons_conv)
  with assms(4) have y: "y = target" by simp
  have "scan_all newIdentityTranslationTarget (us @ x\<lparr>tf_canonical := c\<rparr> # vs) = Inr (us' @ target\<lparr>tt_canonical := c\<rparr> # vs')"
    unfolding scan_all_Inr_iff using ts retargeted [OF assms(4,5)] by simp
  then have "newIdentityTranslation (file\<lparr>xf_targets := us @ x\<lparr>tf_canonical := c\<rparr> # vs\<rparr>) = Inr (t\<lparr>it_targets := us' @ target\<lparr>tt_canonical := c\<rparr> # vs'\<rparr>)"
    using t assms(2) by (simp add: newIdentityTranslation_def)
  moreover have "length us' = length us" using ts(2) by (metis length_map)
  ultimately show thesis using that ts t(4) y by simp
qed

lemma translation_failed_is [simp]: "errors_is (translation_failed s) ErrIdentityTranslationFailed"
  by (simp add: translation_failed_def ErrIdentityTranslationFailed_def)

lemma firstString_err: "firstString p gs = Inl e \<Longrightarrow> errors_is e ErrIdentityTranslationFailed"
  by (induction p gs rule: firstString.induct) (auto simp: Let_def split: option.splits if_splits)

lemma translateTarget_err: "translateTarget t p target = Inl e \<Longrightarrow> errors_is e ErrIdentityTranslationFailed"
  by (auto simp: translateTarget_def Let_def dest: firstString_err split: option.splits sum.splits)

lemma translate_loop_err: "translate_loop t p ts = Inl e \<Longrightarrow> errors_is e ErrIdentityTranslationFailed"
  by (induction t p ts rule: translate_loop.induct)
    (auto dest: translateTarget_err split: option.splits sum.splits if_splits)

lemma TranslateJSON_err: "TranslateJSON t body = Inl e \<Longrightarrow> errors_is e ErrIdentityTranslationFailed"
  by (auto simp: TranslateJSON_def dest: translate_loop_err split: json_body.splits sum.splits if_splits)
    (simp add: ErrIdentityTranslationFailed_def)

end
