(* ===== verification/Gateway_Props.thy ===== *)
theory Gateway_Props
  imports Gateway_Translation
begin

text \<open>
  Properties of the gateway: the route a request takes and where it is sent, the rewriting of
  paths, and the translation of identity fields.
\<close>

section \<open>A concrete gateway\<close>

definition ex_parse :: url_parser where
  "ex_parse raw =
     (if raw = ''http://legacy'' then Inr \<lparr>url_scheme = ''http'', url_host = ''legacy'', url_path = [], url_escaped = []\<rparr>
      else if raw = ''http://new'' then Inr \<lparr>url_scheme = ''http'', url_host = ''new'', url_path = [], url_escaped = []\<rparr>
      else Inl (Errorf ''bad url''))"

definition ex_translation_file :: "string \<Rightarrow> translation_file" where
  "ex_translation_file canonical =
     \<lparr>xf_enabled = True,
      xf_targets = [\<lparr>tf_canonical = canonical, tf_required = True, tf_profiles = [], tf_instances = [], tf_sessions = []\<rparr>],
      xf_mappings = [\<lparr>mf_legacy = ''planner'', mf_profile = ''planner'', mf_instance = ''planner@host'', mf_session = []\<rparr>]\<rparr>"

definition ex_route :: "string \<Rightarrow> string \<Rightarrow> string list \<Rightarrow> route_file" where
  "ex_route name pattern methods =
     \<lparr>rf_name = name, rf_pattern = pattern, rf_methods = methods, rf_legacy = ''http://legacy'',
      rf_successor = ''http://new'', rf_mode = ''always'', rf_translation = ex_translation_file ''target_identity'',
      rf_rewrite = \<lparr>pf_from = [], pf_to = []\<rparr>\<rparr>"

definition ex_moved :: route_file where
  "ex_moved = (ex_route ''moved'' ''/v1/old'' [])\<lparr>rf_rewrite := \<lparr>pf_from = ''/v1/old'', pf_to = ''/v2/new/''\<rparr>\<rparr>"

definition ex_files :: "route_file list" where
  "ex_files = [ex_route ''all'' ''/'' [], ex_route ''read'' ''/v1'' [''get''], ex_moved]"

definition ex_table :: route_table where
  "ex_table = (case NewRouteTable ex_parse ex_files of Inr t \<Rightarrow> t | Inl _ \<Rightarrow> [])"

lemma ex_table: "NewRouteTable ex_parse ex_files = Inr ex_table"
proof -
  have "\<not> isl (NewRouteTable ex_parse ex_files)" by code_simp
  then show ?thesis by (auto simp: ex_table_def split: sum.splits)
qed

section \<open>Routing\<close>

text \<open>
  C26. The route a request takes is one of the configured ones that match it, none that matches
  has a longer pattern, or an equally long one and more methods; the request goes to its successor
  exactly when it has one and the mode or the header asks for it. A request finds no route only
  when none matches.
\<close>

theorem match_most_specific:
  assumes "NewRouteTable parse files = Inr t"
  shows "case Match t method path prefer of
      None \<Rightarrow> \<not> (\<exists>f\<in>set files. \<exists>r. newRoute parse f = Inr r \<and> route_matches r method path)
    | Some m \<Rightarrow> \<exists>f\<in>set files. \<exists>r. newRoute parse f = Inr r \<and> route_matches r method path \<and>
        \<not> (\<exists>r'\<in>set t. route_matches r' method path \<and>
             (length (ro_pattern r') > length (ro_pattern r) \<or>
              length (ro_pattern r') = length (ro_pattern r) \<and> length (ro_methods r') > length (ro_methods r))) \<and>
        ma_uses_successor m = (ro_successor r \<noteq> None \<and> (ro_mode r = SuccessorModeAlways \<or> prefer)) \<and>
        Some (ma_target m) = (if ma_uses_successor m then ro_successor r else Some (ro_legacy r)) \<and>
        ma_translation m = (if ma_uses_successor m then ro_translation r else no_translation) \<and>
        ma_rewrite m = ro_rewrite r"
proof (cases "Match t method path prefer")
  case None
  then have "\<forall>r\<in>set t. \<not> route_matches r method path"
    by (simp add: Match_find find_None_iff_Ball)
  with table_routes(1) [OF assms] None show ?thesis by (auto simp: image_iff) (metis image_iff sum.inject(2))
next
  case (Some m)
  from Match_Some [OF assms Some] obtain f r where r: "f \<in> set files" "newRoute parse f = Inr r"
    "route_matches r method path" "m = route_result r prefer"
    "\<forall>r'\<in>set t. route_matches r' method path \<longrightarrow> \<not> route_less r' r" by blast
  have "ma_uses_successor m = usesSuccessor r prefer" "ma_rewrite m = ro_rewrite r"
    "ma_translation m = (if usesSuccessor r prefer then ro_translation r else no_translation)"
    "Some (ma_target m) = (if usesSuccessor r prefer then ro_successor r else Some (ro_legacy r))"
    by (auto simp: r(4) route_result_def usesSuccessor_def)
  moreover have "usesSuccessor r prefer = (ro_successor r \<noteq> None \<and> (ro_mode r = SuccessorModeAlways \<or> prefer))"
    by (simp add: usesSuccessor_def)
  moreover have "\<not> (\<exists>r'\<in>set t. route_matches r' method path \<and>
      (length (ro_pattern r') > length (ro_pattern r) \<or>
       length (ro_pattern r') = length (ro_pattern r) \<and> length (ro_methods r') > length (ro_methods r)))"
    using r(5) by (auto simp: route_less_def split: if_splits)
  ultimately show ?thesis using r(1-3) Some by auto
qed

lemma match_most_specific_witness:
  "case Match ex_table ''GET'' ''/v1/things'' False of
      None \<Rightarrow> False
    | Some m \<Rightarrow> ma_uses_successor m \<and>
        (\<exists>f\<in>set ex_files. \<exists>r. newRoute ex_parse f = Inr r \<and> route_matches r ''GET'' ''/v1/things'')"
proof -
  have "case Match ex_table ''GET'' ''/v1/things'' False of None \<Rightarrow> False | Some m \<Rightarrow> ma_uses_successor m" by code_simp
  with match_most_specific [OF ex_table, of "''GET''" "''/v1/things''" False] show ?thesis
    by (auto split: option.splits)
qed

text \<open>Two accepted tables of the same plain routes send every request the same way.\<close>

lemma same_routes_match:
  assumes t: "NewRouteTable parse files = Inr t" and t': "NewRouteTable parse files' = Inr t'"
    and st: "set t' = set t" and plain: "\<forall>r\<in>set t. plain_pattern (ro_pattern r)"
  shows "Match t' meth path p = Match t meth path p"
proof (cases "Match t meth path p")
  case None
  then have "\<forall>r\<in>set t'. \<not> route_matches r meth path"
    unfolding st by (simp add: Match_find find_None_iff_Ball)
  then have "find (\<lambda>r. route_matches r meth path) t' = None" unfolding find_None_iff_Ball .
  with None show ?thesis by (simp add: Match_find)
next
  case (Some m)
  from Match_Some [OF t Some] obtain a where a: "a \<in> set t" "route_ok a" "route_matches a meth path"
    "m = route_result a p" "\<forall>r\<in>set t. route_matches r meth path \<longrightarrow> \<not> route_less r a" by blast
  with st have "find (\<lambda>r. route_matches r meth path) t' \<noteq> None" unfolding find_None_iff_Ball by blast
  then obtain m' where m': "Match t' meth path p = Some m'" by (auto simp: Match_find)
  from Match_Some [OF t' m'] obtain b where b: "b \<in> set t" "route_ok b" "route_matches b meth path"
    "m' = route_result b p" "\<forall>r\<in>set t. route_matches r meth path \<longrightarrow> \<not> route_less r b"
    unfolding st by blast
  have "length (ro_pattern a) = length (ro_pattern b)"
    using a(5) b(5) a(1,3) b(1,3) by (metis linorder_neqE_nat route_less_def)
  with plain a b have "ro_pattern a = ro_pattern b" by (metis plain_match_unique)
  with method_overlap [OF b(3) a(3)] method_overlap [OF a(3) b(3)] have "\<not> routes_apart a b"
    by (auto simp: routes_apart_def)
  with table_routes(3) [OF t a(1) b(1)] have "a = b" by blast
  with Some m' a(4) b(4) show ?thesis by simp
qed

text \<open>
  When no pattern has a variable or ends in two slashes, the order of the routes in the
  configuration does not matter: every reordering is accepted as well and sends each request the
  same way.
\<close>

theorem match_order_independent:
  assumes t: "NewRouteTable parse files = Inr t" and perm: "mset files' = mset files"
    and plain: "\<forall>r\<in>set t. plain_pattern (ro_pattern r)"
  shows "\<exists>t'. NewRouteTable parse files' = Inr t' \<and>
    (\<forall>method path prefer. Match t' method path prefer = Match t method path prefer)"
proof -
  from t obtain rs where rs: "files \<noteq> []" "map (newRoute parse) files = map Inr rs" "sorted_wrt routes_apart rs"
    "t = sort_key route_key rs" by (auto simp: NewRouteTable_Inr)
  define g where "g f = projr (newRoute parse f)" for f
  have set: "set files' = set files" using perm by (metis set_mset_mset)
  have g: "newRoute parse f = Inr (g f)" if "f \<in> set files" for f
  proof -
    have "newRoute parse f \<in> set (map (newRoute parse) files)" using that by simp
    then have "newRoute parse f \<in> set (map Inr rs)" by (simp only: rs(2))
    then show ?thesis by (auto simp: g_def)
  qed
  then have "map (newRoute parse) files = map Inr (map g files)" by simp
  with rs(2) have "map Inr rs = (map Inr (map g files) :: (go_err + route) list)" by simp
  then have rs_g: "rs = map g files" by (metis inj_map_eq_map inj_Inr)
  let ?rs = "map g files'"
  let ?t = "sort_key route_key ?rs"
  have m: "mset ?rs = mset rs" using perm by (simp add: rs_g)
  then have "distinct ?rs \<longleftrightarrow> distinct rs" "set ?rs = set rs" by (metis mset_eq_imp_distinct_iff, metis set_mset_mset)
  with rs(3) have apart: "sorted_wrt routes_apart ?rs" by (simp add: apart_pairwise)
  have t': "NewRouteTable parse files' = Inr ?t"
  proof -
    have "files' \<noteq> []" using perm rs(1) by auto
    moreover have "map (newRoute parse) files' = map Inr ?rs" using set g by simp
    ultimately show ?thesis using apart unfolding NewRouteTable_Inr by blast
  qed
  have st: "set ?t = set t" using rs(4) \<open>set ?rs = set rs\<close> by simp
  from same_routes_match [OF t t' st plain] t' show ?thesis by blast
qed

lemma match_order_independent_witness:
  "\<exists>t'. NewRouteTable ex_parse (rev ex_files) = Inr t' \<and>
    (\<forall>method path prefer. Match t' method path prefer = Match ex_table method path prefer)"
proof (rule match_order_independent [OF ex_table])
  have "list_all (\<lambda>p. CHR ''{'' \<notin> set p \<and> \<not> prefix ''//'' (rev p)) (map ro_pattern ex_table)" by code_simp
  then show "\<forall>r\<in>set ex_table. plain_pattern (ro_pattern r)"
    by (auto simp: list_all_iff plain_pattern_def suffix_to_prefix)
qed simp

section \<open>Rewriting paths\<close>

text \<open>
  A route that rewrites paths replaces its prefix and keeps the rest, segment by segment: the
  path it matches starts with the prefix and goes on at a slash or not at all, and the segments of
  the rewritten path are those of the new prefix followed by those of the rest.
\<close>

theorem rewrite_segments:
  assumes "newRoute parse f = Inr r" and "route_matches r method path" and "rewrite_enabled (ro_rewrite r)"
  shows "\<exists>rest. path = pr_from (ro_rewrite r) @ rest \<and> (rest = [] \<or> hd rest = slash) \<and>
    rewrite_apply (ro_rewrite r) path = joinPaths (pr_to (ro_rewrite r)) rest \<and>
    splitPathSegments (rewrite_apply (ro_rewrite r) path) =
      splitPathSegments (pr_to (ro_rewrite r)) @ splitPathSegments rest"
proof -
  let ?from = "pr_from (ro_rewrite r)" and ?to = "pr_to (ro_rewrite r)"
  have "route_ok r" using assms(1) by (rule newRoute_ok)
  with assms(3) have rw: "?from = trim_right_char slash (ro_pattern r)" "?from \<noteq> []" "CHR ''{'' \<notin> set (ro_pattern r)"
    "trim_right_char slash ?to = ?to" "trim_left_char slash ?to \<noteq> []"
    by (auto simp: route_ok_def rewrite_ok_def rewrite_enabled_def no_rewrite_def)
  have "ro_pattern r \<noteq> ''/''" using rw(1,2) by (auto simp: trim_right_char_def slash_def)
  with assms(2) rw(1,3) have "path = ro_pattern r \<or> prefix (?from @ ''/'') path"
    by (auto simp: route_matches_def split: if_splits)
  then obtain rest where rest: "path = ?from @ rest" "rest = [] \<or> hd rest = slash"
  proof
    assume "path = ro_pattern r"
    moreover obtain n where "ro_pattern r = ?from @ replicate n slash" using trim_right_char_split rw(1) by metis
    ultimately show thesis by (intro that [of "replicate n slash"]) (cases n; simp)+
  qed (auto simp: prefix_def slash_def intro: that)
  have app: "rewrite_apply (ro_rewrite r) path = joinPaths ?to rest"
    using assms(3) rest(1) by (simp add: rewrite_apply_def trim_prefix_def)
  have to: "?to \<noteq> []" "?to \<noteq> ''/''" using rw(5) by (auto simp: trim_left_char_def slash_def)
  have "splitPathSegments (joinPaths ?to rest) = splitPathSegments ?to @ splitPathSegments rest"
  proof (cases "rest = [] \<or> rest = ''/''")
    case True
    then have "splitPathSegments rest = []" by (auto simp: splitPathSegments_def trim_left_char_def slash_def)
    with True to show ?thesis by (auto simp: joinPaths_def)
  next
    case False
    then have "joinPaths ?to rest = ?to @ slash # trim_left_char slash rest"
      using to rw(4) by (auto simp: joinPaths_def slash_def)
    with splitPathSegments_join [OF rw(4,5)] show ?thesis by simp
  qed
  with app have "splitPathSegments (rewrite_apply (ro_rewrite r) path) = splitPathSegments ?to @ splitPathSegments rest"
    by (simp only:)
  with rest app show ?thesis by (intro exI [of _ rest] conjI)
qed

lemma rewrite_segments_witness:
  "\<exists>r rest. newRoute ex_parse ex_moved = Inr r \<and> ''/v1/old/a/b'' = pr_from (ro_rewrite r) @ rest \<and>
     splitPathSegments (rewrite_apply (ro_rewrite r) ''/v1/old/a/b'') = [''v2'', ''new'', ''a'', ''b'']"
proof -
  have "case newRoute ex_parse ex_moved of Inl e \<Rightarrow> False | Inr r \<Rightarrow>
      route_matches r ''GET'' ''/v1/old/a/b'' \<and> rewrite_enabled (ro_rewrite r) \<and>
      splitPathSegments (rewrite_apply (ro_rewrite r) ''/v1/old/a/b'') = [''v2'', ''new'', ''a'', ''b'']"
    by code_simp
  then obtain r where r: "newRoute ex_parse ex_moved = Inr r" "route_matches r ''GET'' ''/v1/old/a/b''"
    "rewrite_enabled (ro_rewrite r)"
    "splitPathSegments (rewrite_apply (ro_rewrite r) ''/v1/old/a/b'') = [''v2'', ''new'', ''a'', ''b'']"
    by (auto split: sum.splits)
  from rewrite_segments [OF r(1-3)] r(1,4) show ?thesis by blast
qed

section \<open>Forwarding\<close>

text \<open>The body a request is forwarded with when its fields are translated.\<close>

definition body_translated ::
    "identity_translation \<Rightarrow> (go_err + json_body) option \<Rightarrow> (go_err + json_body) option \<Rightarrow> bool" where
  "body_translated t b b' \<longleftrightarrow>
     (case b of None \<Rightarrow> b' = None
      | Some r \<Rightarrow> \<exists>x y. r = Inr x \<and> TranslateJSON t x = Inr y \<and> b' = Some (Inr y))"

lemma translatedRequest_Inr:
  "translatedRequest r t = Inr r' \<Longrightarrow> body_translated t (rq_body r) (rq_body r') \<and> r' = r\<lparr>rq_body := rq_body r'\<rparr>"
  by (auto simp: translatedRequest_def body_translated_def split: option.splits sum.splits)

lemma translatedRequest_Inl:
  "translatedRequest r t = Inl e \<Longrightarrow> rq_body r = Some (Inl e) \<or> errors_is e ErrIdentityTranslationFailed"
  by (auto simp: translatedRequest_def dest: TranslateJSON_err split: option.splits sum.splits)

text \<open>The outcome once a route is selected.\<close>

lemma ServeHTTP_plain:
  assumes "Match t (rq_method q) (rq_path q) (preferSuccessor q) = Some (route_result r (preferSuccessor q))"
    and "\<not> (usesSuccessor r (preferSuccessor q) \<and> it_enabled (ro_translation r))"
  shows "ServeHTTP t q = Forward (rewriteProxyRequest q (ma_target (route_result r (preferSuccessor q))) (ro_rewrite r))"
  using assms by (auto simp: ServeHTTP_def route_result_def)

lemma ServeHTTP_translated:
  assumes "Match t (rq_method q) (rq_path q) (preferSuccessor q) = Some (route_result r (preferSuccessor q))"
    and "usesSuccessor r (preferSuccessor q)" "it_enabled (ro_translation r)"
  shows "ServeHTTP t q =
    (case translatedRequest q (ro_translation r) of
       Inr q' \<Rightarrow> Forward (rewriteProxyRequest q' (ma_target (route_result r (preferSuccessor q))) (ro_rewrite r))
     | Inl e \<Rightarrow>
         if errors_is e ErrIdentityTranslationFailed
         then GatewayError 400 \<lparr>eb_code = ''identity_translation_failed'', eb_message = err_text e\<rparr>
         else GatewayError (fst (statusForError e)) \<lparr>eb_code = snd (statusForError e), eb_message = err_text e\<rparr>)"
  using assms
  by (simp add: ServeHTTP_def route_result_def gateway_error_def WriteError_def WriteServiceError_def split_beta
      split: sum.splits)

lemma route_target:
  assumes "route_ok r"
  shows "Some (ma_target (route_result r p)) = (if usesSuccessor r p then ro_successor r else Some (ro_legacy r))"
    and "accepted_url (ma_target (route_result r p))"
  using assms by (auto simp: route_result_def usesSuccessor_def route_ok_def)

text \<open>
  C29. A forwarded request goes to an http or https host of a configured route that matches it, with
  the method and query unchanged and the path joined to the upstream's; its body is the client's,
  unless the successor is used and translates identities, and then it is the translated one. An
  error is answered only when that translation fails, with status 400, or the body cannot be read.
\<close>

theorem gateway_forward:
  assumes t: "NewRouteTable parse files = Inr t"
  shows "case ServeHTTP t q of
      RouteNotFound \<Rightarrow> \<not> (\<exists>r\<in>set t. route_matches r (rq_method q) (rq_path q))
    | GatewayError status b \<Rightarrow> \<exists>r\<in>set t. it_enabled (ro_translation r) \<and> usesSuccessor r (preferSuccessor q) \<and>
        ((status = 400 \<and> eb_code b = ''identity_translation_failed'') \<or>
         (\<exists>e. rq_body q = Some (Inl e) \<and> (status, eb_code b) = statusForError e))
    | Forward out \<Rightarrow> \<exists>r\<in>set t. \<exists>u. route_matches r (rq_method q) (rq_path q) \<and>
        Some u = (if usesSuccessor r (preferSuccessor q) then ro_successor r else Some (ro_legacy r)) \<and>
        url_scheme u \<in> {''http'', ''https''} \<and> url_host u \<noteq> [] \<and>
        out_scheme out = url_scheme u \<and> out_host out = url_host u \<and> out_url_host out = url_host u \<and>
        out_method out = rq_method q \<and> out_query out = rq_query q \<and>
        out_path out = joinPaths (url_path u) (rewrite_apply (ro_rewrite r) (rq_path q)) \<and>
        (if usesSuccessor r (preferSuccessor q) \<and> it_enabled (ro_translation r)
         then body_translated (ro_translation r) (rq_body q) (out_body out) else out_body out = rq_body q)"
proof (cases "Match t (rq_method q) (rq_path q) (preferSuccessor q)")
  case None
  then have "\<not> (\<exists>r\<in>set t. route_matches r (rq_method q) (rq_path q))"
    by (simp add: Match_find find_None_iff_Ball)
  moreover from None have "ServeHTTP t q = RouteNotFound" by (simp add: ServeHTTP_def)
  ultimately show ?thesis by simp
next
  case (Some m)
  from Match_Some [OF t Some] obtain r where r: "r \<in> set t" "route_ok r" "route_matches r (rq_method q) (rq_path q)"
    "m = route_result r (preferSuccessor q)" by blast
  note m = Some [unfolded r(4)] and target = route_target [OF r(2), of "preferSuccessor q"]
  let ?u = "ma_target (route_result r (preferSuccessor q))"
  show ?thesis
  proof (cases "usesSuccessor r (preferSuccessor q) \<and> it_enabled (ro_translation r)")
    case False
    show ?thesis
      unfolding ServeHTTP_plain [OF m False] gw_outcome.case
      by (intro bexI [of _ r] exI [of _ ?u] conjI,
         use False r(1,3) target in \<open>auto simp: rewriteProxyRequest_def accepted_url_def\<close>)
  next
    case True
    then have s: "ServeHTTP t q = (case translatedRequest q (ro_translation r) of
        Inr q' \<Rightarrow> Forward (rewriteProxyRequest q' ?u (ro_rewrite r))
      | Inl e \<Rightarrow>
          if errors_is e ErrIdentityTranslationFailed
          then GatewayError 400 \<lparr>eb_code = ''identity_translation_failed'', eb_message = err_text e\<rparr>
          else GatewayError (fst (statusForError e)) \<lparr>eb_code = snd (statusForError e), eb_message = err_text e\<rparr>)"
      by (intro ServeHTTP_translated [OF m]) simp_all
    show ?thesis
    proof (cases "translatedRequest q (ro_translation r)")
      case (Inl e)
      from translatedRequest_Inl [OF Inl] True r(1) show ?thesis
        unfolding s Inl by (cases "errors_is e ErrIdentityTranslationFailed") auto
    next
      case (Inr q')
      from translatedRequest_Inr [OF Inr] have "body_translated (ro_translation r) (rq_body q) (rq_body q')"
        "rq_method q' = rq_method q" "rq_path q' = rq_path q" "rq_query q' = rq_query q"
        by (metis gw_request.select_convs gw_request.surjective gw_request.update_convs(6))+
      then show ?thesis
        unfolding s Inr sum.case gw_outcome.case
        by (intro bexI [of _ r] exI [of _ ?u] conjI,
            use True r(1,3) target in \<open>simp_all add: rewriteProxyRequest_def accepted_url_def\<close>)
    qed
  qed
qed

definition ex_request :: gw_request where
  "ex_request = \<lparr>rq_method = ''POST'', rq_path = ''/v1/old/a'', rq_escaped_path = ''/v1/old/a'', rq_query = [],
     rq_migrated = [], rq_body = Some (Inr (ObjectBody [''agent_identity'' \<mapsto> JString ''planner'']))\<rparr>"

lemma gateway_forward_witness:
  "case ServeHTTP ex_table ex_request of
      Forward out \<Rightarrow> out_path out = ''/v2/new/a'' \<and> out_host out = ''new'' \<and>
        (\<exists>r\<in>set ex_table. route_matches r ''POST'' ''/v1/old/a'')
    | _ \<Rightarrow> False"
proof -
  have "case ServeHTTP ex_table ex_request of Forward out \<Rightarrow> out_path out = ''/v2/new/a'' \<and> out_host out = ''new'' | _ \<Rightarrow> False"
    "rq_method ex_request = ''POST''" "rq_path ex_request = ''/v1/old/a''" by code_simp+
  with gateway_forward [OF ex_table, of ex_request] show ?thesis by (auto split: gw_outcome.splits)
qed

section \<open>Identity translation\<close>

text \<open>
  C30. Suppose the canonical fields of the targets differ from each other and none of them is a legacy field of
  a target, and a JSON object is translated with success. Then no profile field of a target is left in it. For a
  required target, its canonical field holds a valid identity, of the profile that the identity in one of its
  profile fields is mapped to, and all its legacy fields are removed. For a target that is not required the
  same holds, or else no profile field named an identity for it (but for fields that another target takes away)
  and its canonical field is as it was. A field that is neither canonical nor legacy is unchanged.
\<close>

theorem translation_sound:
  assumes "it_enabled t" and "fields_separate (it_targets t)"
    and "TranslateJSON t (ObjectBody p) = Inr body"
  shows "\<exists>p'. body = ObjectBody p' \<and> (\<forall>f. f \<in> touched (it_targets t) \<or> p' f = p f) \<and>
    (\<forall>target\<in>set (it_targets t).
       (\<forall>g\<in>set (tt_profiles target). p' g = None) \<and>
       (((\<exists>a g s m. p' (tt_canonical target) = Some (JAgent a) \<and> agent_is_valid a \<and>
           g \<in> set (tt_profiles target) \<and> p g = Some (JString s) \<and>
           it_mappings t (trim_space s) = Some m \<and> ai_profile a = im_profile m) \<and>
         (\<forall>g\<in>set (legacy_fields target). p' g = None))
        \<or> (\<not> tt_required target \<and> p' (tt_canonical target) = p (tt_canonical target) \<and>
           (\<forall>g\<in>set (tt_profiles target). p g = None \<or>
              (\<exists>x\<in>set (it_targets t). x \<noteq> target \<and> g \<in> set (legacy_fields x))))))"
proof -
  from assms(1,3) obtain p' where p': "body = ObjectBody p'" "translate_loop t p (it_targets t) = Inr p'"
    by (auto simp: TranslateJSON_def split: sum.splits)
  have "translated_for t p p' target \<or>
      (\<not> tt_required target \<and> p' (tt_canonical target) = p (tt_canonical target) \<and> unnamed (it_targets t) p target)"
    if "target \<in> set (it_targets t)" for target
    using translate_loop_targets [OF p'(2) assms(2) _ that, of p] by simp
  moreover have gone: "p' g = None" if "target \<in> set (it_targets t)" "g \<in> set (tt_profiles target)" for target g
  proof (rule translate_loop_profiles [OF p'(2) that])
    show "g \<notin> tt_canonical ` set (it_targets t)"
      using assms(2) that by (auto simp: fields_separate_def legacy_fields_def)
  qed
  moreover have "f \<in> touched (it_targets t) \<or> p' f = p f" for f using translate_loop_frame [OF p'(2), of f] by blast
  ultimately show ?thesis
    unfolding p'(1) translated_for_def mapped_identity_def unnamed_def by (intro exI [of _ p'] conjI ballI allI refl) blast+
qed

definition ex_translation :: "string \<Rightarrow> identity_translation" where
  "ex_translation canonical =
     (case newIdentityTranslation (ex_translation_file canonical) of Inr t \<Rightarrow> t | Inl _ \<Rightarrow> no_translation)"

lemma translation_sound_witness:
  "\<exists>p' a. TranslateJSON (ex_translation ''target_identity'') (ObjectBody [''agent_identity'' \<mapsto> JString ''planner'']) = Inr (ObjectBody p') \<and>
     p' ''target_identity'' = Some (JAgent a) \<and> agent_is_valid a \<and> p' ''agent_identity'' = None"
proof -
  let ?t = "ex_translation ''target_identity''" and ?b = "ObjectBody [''agent_identity'' \<mapsto> JString ''planner'']"
  have v: "it_enabled ?t" "isl (TranslateJSON ?t ?b) = False" "map tt_canonical (it_targets ?t) = [''target_identity'']"
    "map tt_required (it_targets ?t) = [True]"
    "map legacy_fields (it_targets ?t) =
       [[''member_identity'', ''agent_identity'', ''agent_instance_id'', ''concrete_identity'', ''session_key'', ''hermes_session_key'']]"
    by code_simp+
  then obtain target where target: "it_targets ?t = [target]" "tt_canonical target = ''target_identity''"
    "tt_required target" "legacy_fields target =
       [''member_identity'', ''agent_identity'', ''agent_instance_id'', ''concrete_identity'', ''session_key'', ''hermes_session_key'']"
    by (auto simp: Cons_eq_map_conv map_eq_Cons_conv)
  then have sep: "fields_separate (it_targets ?t)" by (simp add: fields_separate_def)
  from v(2) obtain body where body: "TranslateJSON ?t ?b = Inr body" by (cases "TranslateJSON ?t ?b") auto
  from translation_sound [OF v(1) sep body] target body show ?thesis by auto
qed

text \<open>
  C31. Take any accepted configuration and make one of the legacy fields of a required target its canonical
  field, one that no later target writes. The configuration is accepted as well, and whenever it translates an
  object with success, that field, which should hold the identity, is not in the result. When the target is the
  only one, every object that the first configuration translates is translated by the changed one without an
  error, and is forwarded without the identity that it had.
\<close>

theorem translation_loses_canonical:
  assumes "newIdentityTranslation file = Inr t" and "xf_enabled file" and "xf_targets file = us @ x # vs"
    and "newIdentityTranslationTarget x = Inr target" and "tt_required target"
    and "c \<in> set (legacy_fields target)" and "\<forall>y\<in>set vs. trim_space (tf_canonical y) \<noteq> c"
  shows "\<exists>t'. newIdentityTranslation (file\<lparr>xf_targets := us @ x\<lparr>tf_canonical := c\<rparr> # vs\<rparr>) = Inr t' \<and>
    (\<forall>p body. TranslateJSON t' (ObjectBody p) = Inr body \<longrightarrow> (\<exists>p'. body = ObjectBody p' \<and> p' c = None)) \<and>
    (us = [] \<and> vs = [] \<and> tt_canonical target \<notin> set (legacy_fields target) \<longrightarrow>
      (\<forall>p q. TranslateJSON t (ObjectBody p) = Inr (ObjectBody q) \<longrightarrow>
         (\<exists>a. q (tt_canonical target) = Some (JAgent a)) \<and>
         TranslateJSON t' (ObjectBody p) = Inr (ObjectBody (q(tt_canonical target := p (tt_canonical target))))))"
proof -
  obtain us' vs' where ts: "length us' = length us" "map newIdentityTranslationTarget vs = map Inr vs'" "it_enabled t"
    "it_targets t = us' @ target # vs'" and new: "newIdentityTranslation (file\<lparr>xf_targets := us @ x\<lparr>tf_canonical := c\<rparr> # vs\<rparr>) =
      Inr (t\<lparr>it_targets := us' @ target\<lparr>tt_canonical := c\<rparr> # vs'\<rparr>)"
    by (rule accepted_retargeted [OF assms(1-4,6)])
  let ?x = "target\<lparr>tt_canonical := c\<rparr>"
  let ?t = "t\<lparr>it_targets := us' @ ?x # vs'\<rparr>"
  have legacy: "legacy_fields ?x = legacy_fields target" by (simp add: legacy_fields_def)
  have "c \<notin> tt_canonical ` set vs'"
  proof
    assume "c \<in> tt_canonical ` set vs'"
    then obtain v where v: "v \<in> set vs'" "c = tt_canonical v" by blast
    then have "Inr v \<in> newIdentityTranslationTarget ` set vs" using ts(2) by (metis image_eqI list.set_map)
    then obtain y where "y \<in> set vs" "newIdentityTranslationTarget y = Inr v" by (auto simp: eq_commute)
    with v assms(7) show False by (auto simp: newIdentityTranslationTarget_def split: if_splits)
  qed
  then have drops: "p' c = None" if "translate_loop ?t p (us' @ ?x # vs') = Inr p'" for p p'
    using translate_loop_drops [OF that] assms(5,6) legacy by simp
  have loses: "\<exists>p'. body = ObjectBody p' \<and> p' c = None" if "TranslateJSON ?t (ObjectBody p) = Inr body" for p body
    using that ts(3) drops by (auto simp: TranslateJSON_def split: sum.splits)
  have single: "(\<exists>a. q (tt_canonical target) = Some (JAgent a)) \<and>
      TranslateJSON ?t (ObjectBody p) = Inr (ObjectBody (q(tt_canonical target := p (tt_canonical target))))"
    if one: "us = []" "vs = []" "tt_canonical target \<notin> set (legacy_fields target)"
      and tr: "TranslateJSON t (ObjectBody p) = Inr (ObjectBody q)" for p q
  proof -
    from one ts(1,2) have e: "us' = []" "vs' = []" by auto
    from tr ts(3,4) e assms(5) obtain a where a: "translateTarget t p target = Inr (Some a)"
      "q = removeLegacyFields target (p(tt_canonical target \<mapsto> JAgent a))"
      by (auto simp: TranslateJSON_def split: sum.splits option.splits if_splits)
    have "translateTarget ?t p ?x = translateTarget t p target"
      by (simp add: translateTarget_def cong: sum.case_cong option.case_cong)
    with a(1) have "translateTarget ?t p ?x = Inr (Some a)" by simp
    moreover have "removeLegacyFields ?x (p(c \<mapsto> JAgent a)) = q(tt_canonical target := p (tt_canonical target))"
      using one(3) assms(6) legacy by (auto simp: a(2) removeLegacyFields_apply fun_eq_iff)
    ultimately show ?thesis
      using ts(3) e one(3) a(2) by (simp add: TranslateJSON_def removeLegacyFields_apply)
  qed
  from new loses single show ?thesis by blast
qed

lemma translation_loses_canonical_witness:
  "\<exists>t'. newIdentityTranslation (ex_translation_file ''agent_identity'') = Inr t' \<and>
     (\<exists>q. TranslateJSON t' (ObjectBody [''agent_identity'' \<mapsto> JString ''planner'']) = Inr (ObjectBody q) \<and>
        q ''target_identity'' = None \<and> q ''agent_identity'' = None)"
proof -
  let ?f = "ex_translation_file ''target_identity''" and ?x = "hd (xf_targets (ex_translation_file ''target_identity''))"
  let ?p = "[''agent_identity'' \<mapsto> JString ''planner''] :: json_payload"
  have "\<not> isl (newIdentityTranslation ?f)" "\<not> isl (newIdentityTranslationTarget ?x)" by code_simp+
  then have "newIdentityTranslation ?f = Inr (ex_translation ''target_identity'')" "\<exists>target. newIdentityTranslationTarget ?x = Inr target"
    by (cases "newIdentityTranslation ?f", simp_all add: ex_translation_def) (cases "newIdentityTranslationTarget ?x", simp_all)
  then obtain target where target: "newIdentityTranslation ?f = Inr (ex_translation ''target_identity'')" "newIdentityTranslationTarget ?x = Inr target"
    by blast
  have f: "xf_enabled ?f" "xf_targets ?f = [] @ ?x # []" by (simp_all add: ex_translation_file_def)
  have "tt_required (projr (newIdentityTranslationTarget ?x))" "''agent_identity'' \<in> set (legacy_fields (projr (newIdentityTranslationTarget ?x)))"
    "tt_canonical (projr (newIdentityTranslationTarget ?x)) = ''target_identity''"
    "tt_canonical (projr (newIdentityTranslationTarget ?x)) \<notin> set (legacy_fields (projr (newIdentityTranslationTarget ?x)))" by code_simp+
  with target(2) have t: "tt_required target" "''agent_identity'' \<in> set (legacy_fields target)" "tt_canonical target = ''target_identity''"
    "tt_canonical target \<notin> set (legacy_fields target)" by simp_all
  have "it_enabled (ex_translation ''target_identity'')" "\<not> isl (TranslateJSON (ex_translation ''target_identity'') (ObjectBody ?p))" by code_simp+
  then obtain q where q: "TranslateJSON (ex_translation ''target_identity'') (ObjectBody ?p) = Inr (ObjectBody q)"
    by (auto simp: TranslateJSON_def split: sum.splits)
  have new: "?f\<lparr>xf_targets := [] @ ?x\<lparr>tf_canonical := ''agent_identity''\<rparr> # []\<rparr> = ex_translation_file ''agent_identity''"
    by (simp add: ex_translation_file_def)
  from translation_loses_canonical [OF target(1) f target(2) t(1,2), unfolded new] t(3,4) q show ?thesis by fastforce
qed

end
