(* ===== verification/Go_Text.thy ===== *)
theory Go_Text
  imports Prelude
begin

text \<open>
  Further functions of package \<open>strings\<close>: searching for bytes and substrings, and the format verb
  \<open>%q\<close>. A position is an \<open>int\<close>, \<open>-1\<close> when there is none.
\<close>

definition contains_any :: "string \<Rightarrow> string \<Rightarrow> bool" where
  "contains_any s chars \<longleftrightarrow> (\<exists>c\<in>set s. c \<in> set chars)"

fun sub_index :: "string \<Rightarrow> string \<Rightarrow> nat option" where
  "sub_index p [] = (if p = [] then Some 0 else None)"
| "sub_index p (c # s) = (if prefix p (c # s) then Some 0 else map_option Suc (sub_index p s))"

definition str_index :: "string \<Rightarrow> string \<Rightarrow> int" where
  "str_index s p = (case sub_index p s of None \<Rightarrow> -1 | Some n \<Rightarrow> int n)"

definition str_contains :: "string \<Rightarrow> string \<Rightarrow> bool" where
  "str_contains s p \<longleftrightarrow> sub_index p s \<noteq> None"

text \<open>\<open>strings.LastIndex\<close> of a one-byte string.\<close>

definition last_index_byte :: "string \<Rightarrow> char \<Rightarrow> int" where
  "last_index_byte s c =
     (case sub_index [c] (rev s) of None \<Rightarrow> -1 | Some n \<Rightarrow> int (length s) - 1 - int n)"

text \<open>
  The format verb \<open>%q\<close>; the bytes of characters outside ASCII are copied.
\<close>

definition go_quote :: "string \<Rightarrow> string" where
  "go_quote s =
     CHR 0x22 # concat (map (\<lambda>c.
        if c = CHR 0x22 \<or> c = CHR 0x5C then [CHR 0x5C, c]
        else if c = CHR 0x0A then [CHR 0x5C, CHR ''n'']
        else if c = CHR 0x0D then [CHR 0x5C, CHR ''r'']
        else if c = CHR 0x09 then [CHR 0x5C, CHR ''t'']
        else [c]) s) @ [CHR 0x22]"

lemma sub_index_iff: "(\<exists>n. sub_index p s = Some n) \<longleftrightarrow> sublist p s"
  by (induction s) (auto simp: sublist_Cons_right)

lemma str_contains_sublist: "str_contains s p \<longleftrightarrow> sublist p s"
  by (simp add: str_contains_def sub_index_iff)

lemma contains_any_iff: "contains_any s chars \<longleftrightarrow> set s \<inter> set chars \<noteq> {}"
  by (auto simp: contains_any_def)

end
