(* ===== verification/Projects_Types.thy ===== *)
theory Projects_Types
  imports Go_Text Shared_Api
begin

text \<open>
  Package \<open>projects\<close>, the data (\<open>types.go\<close>, \<open>crew_notify.go\<close>): scopes, the validation of their
  fields and of repository URLs, and the crew addresses that are told about a project's tasks.
  \<open>url.Parse\<close> is an argument, \<open>parse\<close>, whose result is what the code reads of a parsed URL.
\<close>

section \<open>Constants and errors\<close>

definition KindProject :: string where "KindProject = ''project''"
definition KindPersonal :: string where "KindPersonal = ''personal''"
definition KindAssistant :: string where "KindAssistant = ''assistant''"
definition KindKnowledgeBase :: string where "KindKnowledgeBase = ''knowledge_base''"
definition KindSystem :: string where "KindSystem = ''system''"

definition VisibilityNormal :: string where "VisibilityNormal = ''normal''"
definition VisibilityHidden :: string where "VisibilityHidden = ''hidden''"
definition VisibilityArchived :: string where "VisibilityArchived = ''archived''"

lemmas scope_consts = KindProject_def KindPersonal_def KindAssistant_def KindKnowledgeBase_def KindSystem_def
  VisibilityNormal_def VisibilityHidden_def VisibilityArchived_def

definition projects_error :: "string \<Rightarrow> go_err" where
  "projects_error s = Sentinel ''projects'' s"

definition ErrScopeNotFound :: go_err where "ErrScopeNotFound = projects_error ''scope not found''"
definition ErrInvalidScope :: go_err where "ErrInvalidScope = projects_error ''invalid scope''"
definition ErrInvalidKind :: go_err where "ErrInvalidKind = projects_error ''invalid kind''"
definition ErrInvalidVisibility :: go_err where "ErrInvalidVisibility = projects_error ''invalid visibility''"
definition ErrMissingID :: go_err where "ErrMissingID = projects_error ''id is required''"
definition ErrMissingName :: go_err where "ErrMissingName = projects_error ''name is required''"
definition ErrArchivedScopeWrite :: go_err where "ErrArchivedScopeWrite = projects_error ''scope is archived''"
definition ErrDuplicateScope :: go_err where "ErrDuplicateScope = projects_error ''scope already exists''"
definition ErrScopeEmptyPatch :: go_err where "ErrScopeEmptyPatch = projects_error ''patch has no mutable fields''"
definition ErrProtectedScope :: go_err where "ErrProtectedScope = projects_error ''scope is protected''"
definition ErrInvalidRepositoryURL :: go_err where
  "ErrInvalidRepositoryURL = projects_error ''repository_url must be a Git remote URL''"

definition projects_invalid :: "go_err \<Rightarrow> go_err" where
  "projects_invalid e = ServiceErr e ''validation_failed'' 400"

definition scopeNotFound :: "string \<Rightarrow> go_err" where
  "scopeNotFound i = ServiceErr (Wrapped [] ErrScopeNotFound ('': '' @ i)) ''scope_not_found'' 404"

definition projects_conflict :: "go_err \<Rightarrow> string \<Rightarrow> go_err" where
  "projects_conflict e code = ServiceErr e code 409"

section \<open>Crew addresses\<close>

record crew_target =
  ct_address :: string
  ct_policy :: string

record crew_notify =
  cn_done :: "crew_target list"

record crew_request =
  cr_event :: string
  cr_add :: "crew_target list"
  cr_remove :: "string list"

definition CrewNotifyEventOnDone :: string where "CrewNotifyEventOnDone = ''on_done''"
definition CrewNotifyNoWake :: string where "CrewNotifyNoWake = ''no_wake''"
definition CrewNotifyNextTurn :: string where "CrewNotifyNextTurn = ''next_turn''"
definition MaxCrewNotifyTargets :: nat where "MaxCrewNotifyTargets = 16"

definition ErrInvalidCrewNotify :: go_err where
  "ErrInvalidCrewNotify = projects_error ''invalid crew_notify''"

definition no_crew :: crew_notify where "no_crew = \<lparr>cn_done = []\<rparr>"

definition crew_IsEmpty :: "crew_notify \<Rightarrow> bool" where
  "crew_IsEmpty c \<longleftrightarrow> length (cn_done c) = 0"

text \<open>The two regular expressions, anchored at both ends.\<close>

definition is_lower_alnum :: "char \<Rightarrow> bool" where
  "is_lower_alnum c = (is_digit c \<or> (let n = of_char c :: nat in 97 \<le> n \<and> n \<le> 122))"

definition is_lower_hex :: "char \<Rightarrow> bool" where
  "is_lower_hex c = (is_digit c \<or> (let n = of_char c :: nat in 97 \<le> n \<and> n \<le> 102))"

definition seat_part :: "string \<Rightarrow> bool" where
  "seat_part s =
     (case s of [] \<Rightarrow> False
      | c # cs \<Rightarrow> is_lower_alnum c \<and> list_all (\<lambda>d. is_lower_alnum d \<or> d = CHR ''-'') cs)"

definition crewSeatAddress :: "string \<Rightarrow> bool" where
  "crewSeatAddress s =
     (case split_on (CHR ''.'') s of [a, b] \<Rightarrow> seat_part a \<and> seat_part b | _ \<Rightarrow> False)"

definition crewSessionAddress :: "string \<Rightarrow> bool" where
  "crewSessionAddress s =
     (prefix ''s/'' s \<and> list_all is_lower_hex (drop 2 s) \<and> 8 \<le> length (drop 2 s) \<and> length (drop 2 s) \<le> 64)"

definition invalid_crew :: "string \<Rightarrow> go_err" where
  "invalid_crew why = Wrapped [] ErrInvalidCrewNotify ('': '' @ why)"

definition normalizeCrewNotifyTarget :: "crew_target \<Rightarrow> go_err + crew_target" where
  "normalizeCrewNotifyTarget target =
     (let address = trim_space (ct_address target) in
      if \<not> crewSeatAddress address \<and> \<not> crewSessionAddress address then
        Inl (invalid_crew (''address '' @ go_quote address @ '' is not a crew seat (scope.name) or session (s/<hex>)''))
      else
      let given = trim_space (ct_policy target);
          policy = (if given = [] then CrewNotifyNoWake else given) in
      if policy \<noteq> CrewNotifyNoWake \<and> policy \<noteq> CrewNotifyNextTurn then
        Inl (invalid_crew (''policy must be '' @ CrewNotifyNoWake @ '' or '' @ CrewNotifyNextTurn))
      else Inr \<lparr>ct_address = address, ct_policy = policy\<rparr>)"

text \<open>One turn of the loop over \<open>Add\<close>: replace every target with the address, else append.\<close>

definition put_target :: "crew_target \<Rightarrow> crew_target list \<Rightarrow> crew_target list" where
  "put_target t ts =
     (if \<exists>u\<in>set ts. ct_address u = ct_address t
      then map (\<lambda>u. if ct_address u = ct_address t then t else u) ts
      else ts @ [t])"

fun add_targets :: "crew_target list \<Rightarrow> crew_target list \<Rightarrow> go_err + crew_target list" where
  "add_targets [] ts = Inr ts"
| "add_targets (a # adds) ts =
     (case normalizeCrewNotifyTarget a of
        Inl e \<Rightarrow> Inl e
      | Inr t \<Rightarrow> add_targets adds (put_target t ts))"

definition crew_apply :: "crew_request \<Rightarrow> crew_notify \<Rightarrow> go_err + crew_notify" where
  "crew_apply r current =
     (let given = trim_space (cr_event r);
          event = (if given = [] then CrewNotifyEventOnDone else given) in
      if event \<noteq> CrewNotifyEventOnDone then Inl (invalid_crew (''event must be '' @ CrewNotifyEventOnDone))
      else if length (cr_add r) = 0 \<and> length (cr_remove r) = 0 then
        Inl (invalid_crew ''add or remove at least one address'')
      else
      let removed = map trim_space (cr_remove r);
          targets = filter (\<lambda>t. ct_address t \<notin> set removed) (cn_done current) in
      case add_targets (cr_add r) targets of
        Inl e \<Rightarrow> Inl e
      | Inr ts \<Rightarrow>
          if length ts > MaxCrewNotifyTargets then
            Inl (invalid_crew (''at most '' @ show_int (int MaxCrewNotifyTargets) @ '' addresses per event''))
          else Inr \<lparr>cn_done = ts\<rparr>)"

section \<open>Scopes\<close>

record scope =
  sc_id :: string
  sc_name :: string
  sc_kind :: string
  sc_visibility :: string
  sc_owner :: string
  sc_root :: string
  sc_repository :: string
  sc_description :: string
  sc_settings :: string
  sc_crew :: crew_notify
  sc_created :: time
  sc_updated :: time

definition defaultKind :: "string \<Rightarrow> string" where
  "defaultKind kind = (let kind = trim_space kind in if kind = [] then KindProject else kind)"

definition defaultVisibility :: "string \<Rightarrow> string" where
  "defaultVisibility visibility =
     (let visibility = trim_space visibility in if visibility = [] then VisibilityNormal else visibility)"

definition validKind :: "string \<Rightarrow> bool" where
  "validKind kind \<longleftrightarrow> kind \<in> set [KindProject, KindPersonal, KindAssistant, KindKnowledgeBase, KindSystem]"

definition validVisibility :: "string \<Rightarrow> bool" where
  "validVisibility visibility \<longleftrightarrow> visibility \<in> set [VisibilityNormal, VisibilityHidden, VisibilityArchived]"

definition protectedScopeID :: "string \<Rightarrow> bool" where
  "protectedScopeID i \<longleftrightarrow> trim_space i \<in> set [''_global'', ''den-core'', ''core'']"

definition scope_Writable :: "scope \<Rightarrow> bool" where
  "scope_Writable s \<longleftrightarrow> sc_visibility s \<noteq> VisibilityArchived"

definition ProtectedFromDelete :: "scope \<Rightarrow> bool" where
  "ProtectedFromDelete s \<longleftrightarrow>
     protectedScopeID (sc_id s) \<or> sc_kind s = KindSystem \<or> sc_kind s = KindPersonal"

subsection \<open>Repository URLs\<close>

record repo_url =
  ru_scheme :: string
  ru_opaque :: string
  ru_hostname :: string
  ru_path :: string
  ru_query :: string
  ru_force_query :: bool
  ru_fragment :: string
  ru_user :: "bool option"

type_synonym repo_parser = "string \<Rightarrow> repo_url option"

definition url_space :: string where
  "url_space = [CHR 0x20, CHR 0x09, CHR 0x0D, CHR 0x0A]"

definition trim_slashes :: "string \<Rightarrow> string" where
  "trim_slashes s = trim_right_char (CHR ''/'') (trim_left_char (CHR ''/'') s)"

text \<open>The position of the separating colon; \<open>None\<close> for the early return.\<close>

definition scp_colon :: "string \<Rightarrow> int option" where
  "scp_colon url =
     (if prefix ''['' url then
        (let closeBracket = str_index url '']:'' in
         if closeBracket < 0 then None else Some (closeBracket + 1))
      else if str_contains url ''@['' then
        (let bracketStart = str_index url ''@['' + 1;
             closeBracket = str_index (drop (nat bracketStart) url) '']:'' in
         if closeBracket < 0 then None else Some (bracketStart + closeBracket + 1))
      else Some (str_index url '':''))"

text \<open>The host part of the authority; \<open>None\<close> for an empty user or host around an \<open>@\<close>.\<close>

definition scp_host :: "string \<Rightarrow> string option" where
  "scp_host authority =
     (let at = last_index_byte authority (CHR ''@'') in
      if at \<ge> 0 then
        (if at = 0 \<or> at = int (length authority) - 1 then None else Some (drop (nat at + 1) authority))
      else Some authority)"

definition validSCPStyleRepositoryURL :: "string \<Rightarrow> bool" where
  "validSCPStyleRepositoryURL url =
     (case scp_colon url of
        None \<Rightarrow> False
      | Some colon \<Rightarrow>
          if colon \<le> 0 \<or> colon \<ge> int (length url) - 1 \<or> url ! nat colon \<noteq> CHR '':'' then False
          else
          let remotePath = drop (nat colon + 1) url in
          (case scp_host (take (nat colon) url) of
             None \<Rightarrow> False
           | Some authority \<Rightarrow>
               if authority = [] \<or> contains_any authority [CHR ''/'', CHR 0x5C, CHR ''?'', CHR ''#''] then False
               else if prefix ''['' authority \<and> (length authority < 3 \<or> \<not> suffix '']'' authority) then False
               else if \<not> prefix ''['' authority \<and> contains_any authority '':[]@'' then False
               else if contains_any remotePath (url_space @ [CHR ''?'', CHR ''#'', CHR 0x5C]) \<or> trim_slashes remotePath = [] then False
               else True))"

definition validRepositoryURL :: "repo_parser \<Rightarrow> string \<Rightarrow> bool" where
  "validRepositoryURL parse url =
     (if url = [] then True
      else if contains_any url url_space then False
      else if \<not> str_contains url ''://'' then validSCPStyleRepositoryURL url
      else case parse url of
        None \<Rightarrow> False
      | Some u \<Rightarrow>
          if to_lower (ru_scheme u) \<notin> set [''http'', ''https'', ''ssh'', ''git''] then False
          else if ru_opaque u \<noteq> [] \<or> ru_hostname u = [] \<or> trim_slashes (ru_path u) = [] \<or>
                  ru_query u \<noteq> [] \<or> ru_force_query u \<or> ru_fragment u \<noteq> [] then False
          else if ru_user u = Some True then False
          else True)"

subsection \<open>The constructor\<close>

text \<open>\<open>wall\<close> is what \<open>time.Now\<close> returns; it is used only for a missing creation time.\<close>

definition NewScope :: "repo_parser \<Rightarrow> time \<Rightarrow> scope \<Rightarrow> go_err + scope" where
  "NewScope parse wall p =
     (let i = trim_space (sc_id p) in
      if i = [] then Inl ErrMissingID
      else
      let name = trim_space (sc_name p) in
      if name = [] then Inl ErrMissingName
      else
      let kind = defaultKind (sc_kind p) in
      if \<not> validKind kind then Inl (Wrapped [] ErrInvalidKind ('': '' @ kind))
      else
      let visibility = defaultVisibility (sc_visibility p) in
      if \<not> validVisibility visibility then Inl (Wrapped [] ErrInvalidVisibility ('': '' @ visibility))
      else
      let repository = trim_space (sc_repository p) in
      if \<not> validRepositoryURL parse repository then Inl ErrInvalidRepositoryURL
      else
      let created = (if is_zero_time (sc_created p) then wall else sc_created p);
          updated = (if is_zero_time (sc_updated p) then created else sc_updated p)
      in Inr \<lparr>sc_id = i, sc_name = name, sc_kind = kind, sc_visibility = visibility,
           sc_owner = trim_space (sc_owner p), sc_root = trim_space (sc_root p), sc_repository = repository,
           sc_description = trim_space (sc_description p), sc_settings = sc_settings p,
           sc_crew = sc_crew p, sc_created = created, sc_updated = updated\<rparr>)"

end
