(* ===== verification/Pg_Tx.thy ===== *)
theory Pg_Tx
  imports Prelude
begin

text \<open>
  A database transaction: a sequence of statements on one connection. A statement that fails aborts
  the transaction, and then every later statement and the commit fail as well. The result \<open>None\<close> of
  an action means that it does not return.
\<close>

record 'd tx =
  tx_pg :: "'d pg"
  tx_aborted :: bool

type_synonym ('d, 'a) tx_action = "'d tx \<Rightarrow> ((go_err + 'a) \<times> 'd tx) option"

definition tx_data :: "'d tx \<Rightarrow> 'd" where
  "tx_data tx = pg_data (tx_pg tx)"

definition tx_query :: "('d, 'a) stmt \<Rightarrow> 'd tx \<Rightarrow> (go_err + 'a) \<times> 'd tx" where
  "tx_query q tx =
     (if tx_aborted tx then (Inl DriverErr, tx)
      else case pg_call q (tx_pg tx) of
             (Inl e, db) \<Rightarrow> (Inl e, tx\<lparr>tx_pg := db, tx_aborted := True\<rparr>)
           | (Inr x, db) \<Rightarrow> (Inr x, tx\<lparr>tx_pg := db\<rparr>))"

section \<open>Sequencing\<close>

definition tx_call :: "('d, 'a) stmt \<Rightarrow> ('d, 'a) tx_action" where
  "tx_call q tx = Some (tx_query q tx)"

definition tx_return :: "'a \<Rightarrow> ('d, 'a) tx_action" where
  "tx_return x tx = Some (Inr x, tx)"

definition tx_fail :: "go_err \<Rightarrow> ('d, 'a) tx_action" where
  "tx_fail e tx = Some (Inl e, tx)"

definition tx_lift :: "go_err + 'a \<Rightarrow> ('d, 'a) tx_action" where
  "tx_lift r tx = Some (r, tx)"

definition tx_bind :: "('d, 'a) tx_action \<Rightarrow> ('a \<Rightarrow> ('d, 'b) tx_action) \<Rightarrow> ('d, 'b) tx_action" where
  "tx_bind m k tx =
     (case m tx of
        None \<Rightarrow> None
      | Some (Inl e, tx') \<Rightarrow> Some (Inl e, tx')
      | Some (Inr x, tx') \<Rightarrow> k x tx')"

text \<open>\<open>fmt.Errorf\<close> around an error of an action.\<close>

definition tx_wrap :: "string \<Rightarrow> ('d, 'a) tx_action \<Rightarrow> ('d, 'a) tx_action" where
  "tx_wrap ctx m tx =
     (case m tx of
        None \<Rightarrow> None
      | Some (Inl e, tx') \<Rightarrow> Some (Inl (Wrapped ctx e []), tx')
      | Some (Inr x, tx') \<Rightarrow> Some (Inr x, tx'))"

fun tx_each :: "('b \<Rightarrow> ('d, unit) tx_action) \<Rightarrow> 'b list \<Rightarrow> ('d, unit) tx_action" where
  "tx_each f [] = tx_return ()"
| "tx_each f (x # xs) = tx_bind (f x) (\<lambda>_. tx_each f xs)"

text \<open>
  \<open>BeginTx\<close>, a body, and \<open>Commit\<close>, with the deferred \<open>Rollback\<close>: unless the commit succeeds, the
  tables are those the transaction began with. The body returns the text its commit's error is
  wrapped in.
\<close>

definition run_tx :: "string \<Rightarrow> ('d, 'a \<times> string) tx_action \<Rightarrow> 'd pg \<Rightarrow> ((go_err + 'a) \<times> 'd pg) option" where
  "run_tx begin_text body db =
     (case pg_call (read_only (\<lambda>_. ())) db of
        (Inl e, db0) \<Rightarrow> Some (Inl (Wrapped begin_text e []), db0)
      | (Inr _, db0) \<Rightarrow>
          (case body \<lparr>tx_pg = db0, tx_aborted = False\<rparr> of
             None \<Rightarrow> None
           | Some (Inl e, tx) \<Rightarrow> Some (Inl e, pg_rollback db0 (tx_pg tx))
           | Some (Inr (x, commit_text), tx) \<Rightarrow>
               (case tx_query (read_only (\<lambda>_. ())) tx of
                  (Inl e, tx') \<Rightarrow> Some (Inl (Wrapped commit_text e []), pg_rollback db0 (tx_pg tx'))
                | (Inr _, tx') \<Rightarrow> Some (Inr x, tx_pg tx'))))"

section \<open>Facts\<close>

named_theorems tx_simps

lemma tx_query_cases:
  obtains (fail) tx' where "tx_query q tx = (Inl DriverErr, tx')" "tx_data tx' = tx_data tx" "tx_aborted tx'"
  | (ok) x tx' where "tx_query q tx = (Inr x, tx')" "q (tx_data tx) = Some (x, tx_data tx')" "\<not> tx_aborted tx" "\<not> tx_aborted tx'"
proof (cases "tx_aborted tx")
  case True
  then show thesis by (intro fail [of tx]) (simp_all add: tx_query_def)
next
  case False
  show thesis
  proof (cases q "tx_pg tx" rule: pg_call_cases)
    case (fail db')
    with False show thesis
      by (intro that(1) [of "tx\<lparr>tx_pg := db', tx_aborted := True\<rparr>"]) (simp_all add: tx_query_def tx_data_def)
  next
    case (ok x db')
    with False show thesis
      by (intro that(2) [of x "tx\<lparr>tx_pg := db'\<rparr>"]) (simp_all add: tx_query_def tx_data_def)
  qed
qed

lemma tx_query_read_only [tx_simps]: "tx_data (snd (tx_query (read_only f) tx)) = tx_data tx"
  by (cases "read_only f" tx rule: tx_query_cases) (auto simp: read_only_def)

lemma tx_query_healthy:
  "\<not> tx_aborted tx \<Longrightarrow> pg_faults (tx_pg tx) = [] \<Longrightarrow> q (tx_data tx) = Some (x, d) \<Longrightarrow>
     tx_query q tx = (Inr x, tx\<lparr>tx_pg := (tx_pg tx)\<lparr>pg_data := d\<rparr>\<rparr>)"
  by (simp add: tx_query_def pg_call_healthy tx_data_def)

text \<open>
  Partial correctness of an action that starts on the tables \<open>d\<close>: it returns, an aborted transaction
  stays so, and an answer satisfies \<open>Q\<close> together with the tables after, as long as nothing has failed.
\<close>

definition tx_post :: "'d \<Rightarrow> ('a \<Rightarrow> 'd \<Rightarrow> bool) \<Rightarrow> ('d, 'a) tx_action \<Rightarrow> bool" where
  "tx_post d Q m \<longleftrightarrow>
     (\<forall>tx. tx_data tx = d \<longrightarrow>
        (\<exists>r tx'. m tx = Some (r, tx') \<and> (tx_aborted tx \<longrightarrow> tx_aborted tx') \<and>
           (\<forall>x. r = Inr x \<longrightarrow> \<not> tx_aborted tx' \<longrightarrow> Q x (tx_data tx'))))"

lemma tx_postI:
  assumes "\<And>tx. tx_data tx = d \<Longrightarrow>
    \<exists>r tx'. m tx = Some (r, tx') \<and> (tx_aborted tx \<longrightarrow> tx_aborted tx') \<and>
      (\<forall>x. r = Inr x \<longrightarrow> \<not> tx_aborted tx' \<longrightarrow> Q x (tx_data tx'))"
  shows "tx_post d Q m"
  using assms by (simp add: tx_post_def)

lemma tx_post_weaken:
  assumes "tx_post d Q' m" and "\<And>x d'. Q' x d' \<Longrightarrow> Q x d'"
  shows "tx_post d Q m"
  using assms unfolding tx_post_def by metis

lemma tx_post_call: "(\<And>x d'. q d = Some (x, d') \<Longrightarrow> Q x d') \<Longrightarrow> tx_post d Q (tx_call q)"
proof (rule tx_postI)
  fix tx
  assume a: "\<And>x d'. q d = Some (x, d') \<Longrightarrow> Q x d'" and d: "tx_data tx = d"
  show "\<exists>r tx'. tx_call q tx = Some (r, tx') \<and> (tx_aborted tx \<longrightarrow> tx_aborted tx') \<and>
      (\<forall>x. r = Inr x \<longrightarrow> \<not> tx_aborted tx' \<longrightarrow> Q x (tx_data tx'))"
    by (cases q tx rule: tx_query_cases) (use a d in \<open>auto simp: tx_call_def\<close>)
qed

lemma tx_post_return: "Q x d \<Longrightarrow> tx_post d Q (tx_return x)"
  by (simp add: tx_post_def tx_return_def)

lemma tx_post_fail [simp]: "tx_post d Q (tx_fail e)"
  by (simp add: tx_post_def tx_fail_def)

lemma tx_post_lift: "(\<And>x. r = Inr x \<Longrightarrow> Q x d) \<Longrightarrow> tx_post d Q (tx_lift r)"
  by (simp add: tx_post_def tx_lift_def)

lemma tx_post_wrap: "tx_post d Q m \<Longrightarrow> tx_post d Q (tx_wrap ctx m)"
  unfolding tx_post_def tx_wrap_def by (fastforce split: option.splits sum.splits prod.splits)

text \<open>An action that returns when the transaction is already aborted, and leaves it so.\<close>

definition tx_stops :: "('d, 'a) tx_action \<Rightarrow> bool" where
  "tx_stops m \<longleftrightarrow> (\<forall>tx. tx_aborted tx \<longrightarrow> (\<exists>r tx'. m tx = Some (r, tx') \<and> tx_aborted tx'))"

lemma tx_stops_basic [simp]: "tx_stops (tx_call q)" "tx_stops (tx_return x)" "tx_stops (tx_fail e)" "tx_stops (tx_lift r)"
  by (simp_all add: tx_stops_def tx_call_def tx_query_def tx_return_def tx_fail_def tx_lift_def)

lemma tx_stops_wrap [simp]: "tx_stops m \<Longrightarrow> tx_stops (tx_wrap ctx m)"
  unfolding tx_stops_def tx_wrap_def by (fastforce split: option.splits sum.splits prod.splits)

lemma tx_stops_bind [simp]: "tx_stops m \<Longrightarrow> (\<And>x. tx_stops (k x)) \<Longrightarrow> tx_stops (tx_bind m k)"
  unfolding tx_stops_def tx_bind_def by (fastforce split: option.splits sum.splits prod.splits)

lemma tx_stops_each [simp]: "(\<And>x. tx_stops (f x)) \<Longrightarrow> tx_stops (tx_each f xs)"
  by (induction xs) auto

lemma tx_stops_if [simp]: "(b \<Longrightarrow> tx_stops m) \<Longrightarrow> (\<not> b \<Longrightarrow> tx_stops n) \<Longrightarrow> tx_stops (if b then m else n)"
  by simp

lemma tx_stops_option [simp]:
  "(x = None \<Longrightarrow> tx_stops m) \<Longrightarrow> (\<And>y. x = Some y \<Longrightarrow> tx_stops (n y)) \<Longrightarrow> tx_stops (case x of None \<Rightarrow> m | Some y \<Rightarrow> n y)"
  by (cases x) simp_all

lemma tx_stops_prod [simp]: "(\<And>a b. x = (a, b) \<Longrightarrow> tx_stops (m a b)) \<Longrightarrow> tx_stops (case x of (a, b) \<Rightarrow> m a b)"
  by (cases x) simp

text \<open>The usual way to read a sequence: what holds between the two actions, then the rest.\<close>

lemma tx_post_bind:
  assumes "tx_post d R m" and "\<And>x d1. R x d1 \<Longrightarrow> tx_post d1 Q (k x)" and "\<And>x. tx_stops (k x)"
  shows "tx_post d Q (tx_bind m k)"
proof (rule tx_postI)
  fix tx assume d: "tx_data tx = d"
  from assms(1) d obtain r tx1 where 1: "m tx = Some (r, tx1)" "tx_aborted tx \<longrightarrow> tx_aborted tx1"
    "\<And>x. r = Inr x \<Longrightarrow> \<not> tx_aborted tx1 \<Longrightarrow> R x (tx_data tx1)"
    unfolding tx_post_def by blast
  show "\<exists>r tx'. tx_bind m k tx = Some (r, tx') \<and> (tx_aborted tx \<longrightarrow> tx_aborted tx') \<and>
      (\<forall>x. r = Inr x \<longrightarrow> \<not> tx_aborted tx' \<longrightarrow> Q x (tx_data tx'))"
  proof (cases r)
    case (Inl e)
    with 1(1,2) show ?thesis by (simp add: tx_bind_def)
  next
    case (Inr x)
    show ?thesis
    proof (cases "tx_aborted tx1")
      case True
      with assms(3) [of x] 1(1) Inr show ?thesis by (auto simp: tx_bind_def tx_stops_def)
    next
      case False
      with 1(3) [OF Inr] assms(2) have "tx_post (tx_data tx1) Q (k x)" by blast
      with 1(1,2) Inr False show ?thesis by (fastforce simp: tx_bind_def tx_post_def)
    qed
  qed
qed

lemma tx_post_read:
  assumes "tx_post d Q (k (f d))" and "\<And>x. tx_stops (k x)"
  shows "tx_post d Q (tx_bind (tx_call (read_only f)) k)"
  by (rule tx_post_bind [where R = "\<lambda>x d'. x = f d \<and> d' = d"])
    (use assms in \<open>auto intro!: tx_post_call simp: read_only_def\<close>)

lemma tx_post_call_bind:
  assumes "\<And>x d1. q d = Some (x, d1) \<Longrightarrow> tx_post d1 Q (k x)" and "\<And>x. tx_stops (k x)"
  shows "tx_post d Q (tx_bind (tx_call q) k)"
  by (rule tx_post_bind [where R = "\<lambda>x d'. q d = Some (x, d')"]) (use assms in \<open>auto intro!: tx_post_call\<close>)

lemma tx_post_wrap_bind: "tx_post d Q (tx_bind m k) \<Longrightarrow> tx_post d Q (tx_bind (tx_wrap ctx m) k)"
  unfolding tx_post_def tx_bind_def tx_wrap_def by (fastforce split: option.splits sum.splits prod.splits)

lemma tx_post_if: "(b \<Longrightarrow> tx_post d Q m) \<Longrightarrow> (\<not> b \<Longrightarrow> tx_post d Q n) \<Longrightarrow> tx_post d Q (if b then m else n)"
  by simp

lemma tx_post_option:
  "(x = None \<Longrightarrow> tx_post d Q m) \<Longrightarrow> (\<And>y. x = Some y \<Longrightarrow> tx_post d Q (n y)) \<Longrightarrow>
     tx_post d Q (case x of None \<Rightarrow> m | Some y \<Rightarrow> n y)"
  by (cases x) simp_all

lemmas tx_post_intros = tx_post_return tx_post_lift tx_post_read tx_post_call_bind tx_post_wrap_bind tx_post_wrap
  tx_post_if tx_post_option

text \<open>The laws of sequencing.\<close>

lemma tx_bind_return [tx_simps]: "tx_bind (tx_return x) k = k x"
  by (simp add: fun_eq_iff tx_bind_def tx_return_def)

lemma tx_bind_fail [tx_simps]: "tx_bind (tx_fail e) k = tx_fail e"
  by (simp add: fun_eq_iff tx_bind_def tx_fail_def)

lemma tx_bind_assoc [tx_simps]: "tx_bind (tx_bind m k) l = tx_bind m (\<lambda>x. tx_bind (k x) l)"
  by (auto simp: fun_eq_iff tx_bind_def split: option.splits sum.splits prod.splits)

lemma run_tx_post:
  assumes "tx_post (pg_data db) (\<lambda>(x, _) d'. Q x d') body"
  obtains r db' where "run_tx b body db = Some (r, db')"
    "\<And>e. r = Inl e \<Longrightarrow> pg_data db' = pg_data db" "\<And>x. r = Inr x \<Longrightarrow> Q x (pg_data db')"
proof (cases "pg_call (read_only (\<lambda>_. ())) db")
  case (Pair r0 db0)
  have d0: "pg_data db0 = pg_data db" using pg_call_read_only [of "\<lambda>_. ()" db] Pair by simp
  show thesis
  proof (cases r0)
    case (Inl e)
    with Pair that [of "Inl (Wrapped b e [])" db0] d0 show thesis by (simp add: run_tx_def)
  next
    case (Inr u)
    let ?tx = "\<lparr>tx_pg = db0, tx_aborted = False\<rparr>"
    have "tx_data ?tx = pg_data db" by (simp add: tx_data_def d0)
    with assms obtain r tx where 1: "body ?tx = Some (r, tx)"
      "\<And>x c. r = Inr (x, c) \<Longrightarrow> \<not> tx_aborted tx \<Longrightarrow> Q x (tx_data tx)"
      unfolding tx_post_def by fastforce
    show thesis
    proof (cases r)
      case (Inl e)
      with Pair Inr 1(1) that [of "Inl e" "pg_rollback db0 (tx_pg tx)"] d0 show thesis by (simp add: run_tx_def)
    next
      case (Inr xc)
      obtain x c where xc: "xc = (x, c)" by (cases xc)
      show thesis
      proof (cases "read_only (\<lambda>_. ()) :: ('a, unit) stmt" tx rule: tx_query_cases)
        case (fail tx')
        with Pair \<open>r0 = Inr u\<close> 1(1) Inr xc that [of "Inl (Wrapped c DriverErr [])" "pg_rollback db0 (tx_pg tx')"] d0
        show thesis by (simp add: run_tx_def)
      next
        case (ok y tx')
        have "tx_data tx' = tx_data tx" using ok(2) by (simp add: read_only_def)
        with Pair \<open>r0 = Inr u\<close> 1 Inr xc ok that [of "Inr x" "tx_pg tx'"] show thesis
          by (simp add: run_tx_def tx_data_def)
      qed
    qed
  qed
qed

section \<open>A driver that does not fail\<close>

text \<open>A transaction on the tables \<open>d\<close> in which no call fails by itself, and the same for a connection.\<close>

definition calm_pg :: "'d \<Rightarrow> 'd pg" where
  "calm_pg d = \<lparr>pg_data = d, pg_faults = []\<rparr>"

definition calm :: "'d \<Rightarrow> 'd tx" where
  "calm d = \<lparr>tx_pg = calm_pg d, tx_aborted = False\<rparr>"

named_theorems calm_simps

lemma calm_basic [simp]: "tx_data (calm d) = d" "\<not> tx_aborted (calm d)" "pg_data (calm_pg d) = d" "tx_pg (calm d) = calm_pg d"
  by (simp_all add: calm_def calm_pg_def tx_data_def)

lemma calm_eq [simp]: "calm d = calm d' \<longleftrightarrow> d = d'" "calm_pg d = calm_pg d' \<longleftrightarrow> d = d'"
  by (auto simp: calm_def calm_pg_def)

lemma calm_query [calm_simps]: "q d = Some (x, d') \<Longrightarrow> tx_query q (calm d) = (Inr x, calm d')"
  by (simp add: tx_query_def calm_def calm_pg_def pg_call_def)

lemma calm_query_read [calm_simps]: "tx_query (read_only f) (calm d) = (Inr (f d), calm d)"
  by (simp add: calm_simps read_only_def)

lemma calm_call [calm_simps]: "q d = Some (x, d') \<Longrightarrow> tx_call q (calm d) = Some (Inr x, calm d')"
  by (simp add: tx_call_def calm_simps)

lemma calm_call_read [calm_simps]: "tx_call (read_only f) (calm d) = Some (Inr (f d), calm d)"
  by (simp add: tx_call_def calm_simps)

lemma calm_bind [calm_simps]:
  "m (calm d) = Some (Inr x, tx) \<Longrightarrow> tx_bind m k (calm d) = k x tx"
  "m (calm d) = Some (Inl e, tx) \<Longrightarrow> tx_bind m k (calm d) = Some (Inl e, tx)"
  by (simp_all add: tx_bind_def)

lemma calm_wrap [calm_simps]:
  "m (calm d) = Some (Inr x, tx) \<Longrightarrow> tx_wrap ctx m (calm d) = Some (Inr x, tx)"
  by (simp add: tx_wrap_def)

lemma calm_pg_call [calm_simps]: "q d = Some (x, d') \<Longrightarrow> pg_call q (calm_pg d) = (Inr x, calm_pg d')"
  by (simp add: pg_call_def calm_pg_def)

lemma calm_pg_read [calm_simps]: "pg_call (read_only f) (calm_pg d) = (Inr (f d), calm_pg d)"
  by (simp add: calm_simps read_only_def)

lemma calm_run_tx:
  assumes "body (calm d) = Some (r, calm d')"
  shows "run_tx b body (calm_pg d) =
    Some (case r of Inl e \<Rightarrow> (Inl e, calm_pg d) | Inr (x, c) \<Rightarrow> (Inr x, calm_pg d'))"
proof -
  have "body \<lparr>tx_pg = calm_pg d, tx_aborted = False\<rparr> = Some (r, calm d')" using assms by (simp add: calm_def)
  moreover have "pg_rollback (calm_pg d) (calm_pg d') = calm_pg d" by (simp add: pg_rollback_def calm_pg_def)
  ultimately show ?thesis by (simp add: run_tx_def calm_simps split: sum.splits prod.splits)
qed

text \<open>An action that succeeds when the driver does not fail.\<close>

definition tx_live :: "'d \<Rightarrow> ('d, 'a) tx_action \<Rightarrow> bool" where
  "tx_live d m \<longleftrightarrow> (\<exists>x d'. m (calm d) = Some (Inr x, calm d'))"

lemma tx_live_post:
  assumes "tx_live d m" and "tx_post d Q m"
  obtains x d' where "m (calm d) = Some (Inr x, calm d')" "Q x d'"
proof -
  from assms(1) obtain x d' where "m (calm d) = Some (Inr x, calm d')" by (auto simp: tx_live_def)
  with assms(2) that [of x d'] show thesis by (fastforce simp: tx_post_def dest: spec [of _ "calm d"])
qed

lemma tx_live_basic [simp]: "tx_live d (tx_return x)" "tx_live d (tx_call q) \<longleftrightarrow> q d \<noteq> None"
proof -
  show "tx_live d (tx_return x)" by (simp add: tx_live_def tx_return_def)
  show "tx_live d (tx_call q) \<longleftrightarrow> q d \<noteq> None"
    by (cases "q d") (auto simp: tx_live_def calm_simps, simp add: tx_call_def tx_query_def calm_def calm_pg_def pg_call_def)
qed

lemma tx_live_wrap [simp]: "tx_live d m \<Longrightarrow> tx_live d (tx_wrap ctx m)"
  by (auto simp: tx_live_def calm_simps)

lemma tx_live_bind:
  assumes "tx_live d m" and "tx_post d R m" and "\<And>x d1. R x d1 \<Longrightarrow> tx_live d1 (k x)"
  shows "tx_live d (tx_bind m k)"
proof -
  obtain x d1 where "m (calm d) = Some (Inr x, calm d1)" "R x d1" by (rule tx_live_post [OF assms(1,2)])
  with assms(3) show ?thesis by (simp add: tx_live_def calm_simps)
qed

lemma run_tx_live:
  assumes "tx_live d body" and "tx_post d (\<lambda>xc. Q (fst xc)) body"
  shows "\<exists>x d'. run_tx b body (calm_pg d) = Some (Inr x, calm_pg d') \<and> Q x d'"
proof -
  obtain xc d' where "body (calm d) = Some (Inr xc, calm d')" "Q (fst xc) d'"
    by (rule tx_live_post [OF assms])
  then show ?thesis by (cases xc) (simp add: calm_run_tx)
qed

end
