(* ===== verification/Projects_Store.thy ===== *)
theory Projects_Store
  imports Projects_Types Pg_Tx "HOL-Library.List_Lexorder" "HOL-Library.Char_ord"
begin

text \<open>
  Package \<open>projects\<close>, the PostgreSQL store (\<open>store.go\<close> over the table of
  \<open>migration/postgres/den_projects\<close>). The column \<open>crew_notify_json\<close> holds what decoding it gives,
  so a value that does not decode is an error in it. What the database itself decides is a record
  of parameters: the text a \<open>jsonb\<close> column gives back for the text it is given (\<open>None\<close>: it is
  refused) and the sort key of its collation, next to \<open>url.Parse\<close>.
\<close>

type_synonym crew_column = "(go_err + crew_notify) option"

record scope_row =
  sw_id :: string
  sw_name :: string
  sw_kind :: string
  sw_visibility :: string
  sw_owner :: "string option"
  sw_root :: "string option"
  sw_repository :: "string option"
  sw_description :: "string option"
  sw_settings :: "string option"
  sw_crew :: crew_column
  sw_created :: time
  sw_updated :: time

record project_tables =
  pj_rows :: "scope_row list"
  pj_now :: time
  pj_wall :: time

record project_env =
  pe_parse :: repo_parser
  pe_jsonb :: "string \<Rightarrow> string option"
  pe_collate :: "string \<Rightarrow> string"

record list_scopes_query =
  sl_kind :: string
  sl_hidden :: bool
  sl_archived :: bool

record scope_patch =
  sp_name :: "string option"
  sp_root :: "string option"
  sp_repository :: "string option"
  sp_description :: "string option"
  sp_owner :: "string option"
  sp_settings :: string
  sp_has_settings :: bool

section \<open>Columns\<close>

definition scope_emptyToNil :: "string \<Rightarrow> string option" where
  "scope_emptyToNil v = (if v = [] then None else Some v)"

definition scope_nilToString :: "string option \<Rightarrow> string" where
  "scope_nilToString v = (case v of None \<Rightarrow> [] | Some s \<Rightarrow> s)"

definition scope_jsonOrNil :: "string \<Rightarrow> string option" where
  "scope_jsonOrNil v = (if length v = 0 then None else Some v)"

text \<open>Writing a parameter to a \<open>jsonb\<close> column: \<open>None\<close> when the database refuses the text.\<close>

definition jsonb_column :: "project_env \<Rightarrow> string option \<Rightarrow> string option option" where
  "jsonb_column env v = (case v of None \<Rightarrow> Some None | Some s \<Rightarrow> map_option Some (pe_jsonb env s))"

definition decodeCrewNotify :: "crew_column \<Rightarrow> go_err + crew_notify" where
  "decodeCrewNotify raw =
     (case raw of
        None \<Rightarrow> Inr no_crew
      | Some (Inl e) \<Rightarrow> Inl (Wrapped ''decoding crew_notify: '' e [])
      | Some (Inr c) \<Rightarrow> Inr c)"

definition encodeCrewNotify :: "crew_notify \<Rightarrow> crew_column" where
  "encodeCrewNotify notify = (if crew_IsEmpty notify then None else Some (Inr notify))"

definition scanScope :: "project_env \<Rightarrow> time \<Rightarrow> scope_row \<Rightarrow> go_err + scope" where
  "scanScope env wall r =
     (case decodeCrewNotify (sw_crew r) of
        Inl e \<Rightarrow> Inl (Wrapped (''scope '' @ sw_id r @ '': '') e [])
      | Inr crew \<Rightarrow>
          NewScope (pe_parse env) wall
            \<lparr>sc_id = sw_id r, sc_name = sw_name r, sc_kind = sw_kind r, sc_visibility = sw_visibility r,
             sc_owner = scope_nilToString (sw_owner r), sc_root = scope_nilToString (sw_root r),
             sc_repository = scope_nilToString (sw_repository r),
             sc_description = scope_nilToString (sw_description r),
             sc_settings = scope_nilToString (sw_settings r), sc_crew = crew,
             sc_created = sw_created r, sc_updated = sw_updated r\<rparr>)"

section \<open>Statements\<close>

text \<open>The answer \<open>None\<close> of the insert is a violation of the primary key.\<close>

definition createScopeSQL :: "project_env \<Rightarrow> scope \<Rightarrow> (project_tables, scope_row option) stmt" where
  "createScopeSQL env s d =
     (case jsonb_column env (scope_jsonOrNil (sc_settings s)) of
        None \<Rightarrow> None
      | Some settings \<Rightarrow>
          if \<exists>r\<in>set (pj_rows d). sw_id r = sc_id s then Some (None, d)
          else
          let r = \<lparr>sw_id = sc_id s, sw_name = sc_name s, sw_kind = sc_kind s, sw_visibility = sc_visibility s,
                   sw_owner = scope_emptyToNil (sc_owner s), sw_root = scope_emptyToNil (sc_root s),
                   sw_repository = scope_emptyToNil (sc_repository s),
                   sw_description = scope_emptyToNil (sc_description s), sw_settings = settings,
                   sw_crew = None, sw_created = sc_created s, sw_updated = sc_updated s\<rparr>
          in Some (Some r, d\<lparr>pj_rows := pj_rows d @ [r]\<rparr>))"

definition getScopeSQL :: "string \<Rightarrow> (project_tables, scope_row option) stmt" where
  "getScopeSQL i = read_only (\<lambda>d. row_lookup sw_id i (pj_rows d))"

definition listScopesSQL :: "project_env \<Rightarrow> string option \<Rightarrow> bool \<Rightarrow> bool \<Rightarrow> (project_tables, scope_row list) stmt" where
  "listScopesSQL env kind hidden archived =
     read_only (\<lambda>d. sort_key (\<lambda>r. pe_collate env (sw_id r))
       (filter (\<lambda>r. (case kind of None \<Rightarrow> True | Some k \<Rightarrow> sw_kind r = k) \<and>
                    (hidden \<or> sw_visibility r \<noteq> ''hidden'') \<and> (archived \<or> sw_visibility r \<noteq> ''archived''))
          (pj_rows d)))"

text \<open>The rows with the id take the new values, and the statement returns the row it changed.\<close>

definition update_scope_row :: "string \<Rightarrow> (scope_row \<Rightarrow> scope_row) \<Rightarrow> (project_tables, scope_row option) stmt" where
  "update_scope_row i f d =
     Some (map_option f (row_lookup sw_id i (pj_rows d)),
           d\<lparr>pj_rows := update_where (\<lambda>r. sw_id r = i) f (pj_rows d)\<rparr>)"

definition clearable :: "string option \<Rightarrow> string option \<Rightarrow> string option" where
  "clearable param old = (case param of None \<Rightarrow> old | Some v \<Rightarrow> if v = [] then None else Some v)"

definition updateScopeSQL :: "project_env \<Rightarrow> string \<Rightarrow> scope_patch \<Rightarrow> time \<Rightarrow> (project_tables, scope_row option) stmt" where
  "updateScopeSQL env i p at d =
     (case jsonb_column env (scope_jsonOrNil (sp_settings p)) of
        None \<Rightarrow> None
      | Some settings \<Rightarrow>
          update_scope_row i (\<lambda>r. r\<lparr>
            sw_name := (case sp_name p of None \<Rightarrow> sw_name r | Some n \<Rightarrow> n),
            sw_root := clearable (sp_root p) (sw_root r),
            sw_repository := clearable (sp_repository p) (sw_repository r),
            sw_description := clearable (sp_description p) (sw_description r),
            sw_owner := clearable (sp_owner p) (sw_owner r),
            sw_settings := (if sp_has_settings p then settings else sw_settings r),
            sw_updated := at\<rparr>) d)"

definition lockCrewNotifySQL :: "string \<Rightarrow> (project_tables, crew_column option) stmt" where
  "lockCrewNotifySQL i = read_only (\<lambda>d. map_option sw_crew (row_lookup sw_id i (pj_rows d)))"

definition updateCrewNotifySQL :: "string \<Rightarrow> crew_column \<Rightarrow> time \<Rightarrow> (project_tables, scope_row option) stmt" where
  "updateCrewNotifySQL i crew at = update_scope_row i (\<lambda>r. r\<lparr>sw_crew := crew, sw_updated := at\<rparr>)"

definition updateVisibilitySQL :: "string \<Rightarrow> string \<Rightarrow> time \<Rightarrow> (project_tables, scope_row option) stmt" where
  "updateVisibilitySQL i visibility at =
     update_scope_row i (\<lambda>r. r\<lparr>sw_visibility := visibility, sw_updated := at\<rparr>)"

definition deleteScopeSQL :: "string \<Rightarrow> (project_tables, scope_row option) stmt" where
  "deleteScopeSQL i d =
     Some (row_lookup sw_id i (pj_rows d), d\<lparr>pj_rows := filter (\<lambda>r. sw_id r \<noteq> i) (pj_rows d)\<rparr>)"

section \<open>Methods\<close>

type_synonym 'a scope_call = "project_tables pg \<Rightarrow> (go_err + 'a) \<times> project_tables pg"

definition scope_Ping :: "unit scope_call" where
  "scope_Ping db =
     (case pg_call (read_only (\<lambda>_. ())) db of
        (Inl e, db') \<Rightarrow> (Inl (Wrapped ''pinging projects store: '' e []), db')
      | (Inr _, db') \<Rightarrow> (Inr (), db'))"

text \<open>The scan of a returned row, whose error the method wraps.\<close>

definition scan_or_wrap :: "project_env \<Rightarrow> string \<Rightarrow> scope_row \<Rightarrow> project_tables pg \<Rightarrow> go_err + scope" where
  "scan_or_wrap env ctx r db =
     (case scanScope env (pj_wall (pg_data db)) r of
        Inl e \<Rightarrow> Inl (Wrapped ctx e [])
      | Inr s \<Rightarrow> Inr s)"

text \<open>The methods that select one row by id: no row is the 404 of the scope.\<close>

definition one_scope :: "project_env \<Rightarrow> string \<Rightarrow> string \<Rightarrow> (project_tables, scope_row option) stmt \<Rightarrow> scope scope_call" where
  "one_scope env what i q db =
     (case pg_call q db of
        (Inl e, db') \<Rightarrow> (Inl (Wrapped (what @ i @ '': '') e []), db')
      | (Inr None, db') \<Rightarrow> (Inl (scopeNotFound i), db')
      | (Inr (Some r), db') \<Rightarrow> (scan_or_wrap env (what @ i @ '': '') r db', db'))"

definition store_CreateScope :: "project_env \<Rightarrow> scope \<Rightarrow> scope scope_call" where
  "store_CreateScope env s db =
     (case pg_call (createScopeSQL env s) db of
        (Inl e, db') \<Rightarrow> (Inl (Wrapped (''creating scope '' @ sc_id s @ '': '') e []), db')
      | (Inr None, db') \<Rightarrow>
          (Inl (projects_conflict (Wrapped [] ErrDuplicateScope ('': '' @ sc_id s)) ''scope_already_exists''), db')
      | (Inr (Some r), db') \<Rightarrow> (scan_or_wrap env (''creating scope '' @ sc_id s @ '': '') r db', db'))"

definition store_GetScope :: "project_env \<Rightarrow> string \<Rightarrow> scope scope_call" where
  "store_GetScope env i = one_scope env ''getting scope '' i (getScopeSQL i)"

definition store_ListScopes :: "project_env \<Rightarrow> list_scopes_query \<Rightarrow> scope list scope_call" where
  "store_ListScopes env q db =
     (case pg_call (listScopesSQL env (scope_emptyToNil (sl_kind q)) (sl_hidden q) (sl_archived q)) db of
        (Inl e, db1) \<Rightarrow> (Inl (Wrapped ''listing scopes: '' e []), db1)
      | (Inr rs, db1) \<Rightarrow>
          (case scan_all (scanScope env (pj_wall (pg_data db1))) rs of
             Inl e \<Rightarrow> (Inl e, db1)
           | Inr ss \<Rightarrow>
               (case pg_call (read_only (\<lambda>_. ())) db1 of
                  (Inl e, db2) \<Rightarrow> (Inl (Wrapped ''reading scopes: '' e []), db2)
                | (Inr _, db2) \<Rightarrow> (Inr ss, db2))))"

definition store_UpdateScope :: "project_env \<Rightarrow> string \<Rightarrow> scope_patch \<Rightarrow> time \<Rightarrow> scope scope_call" where
  "store_UpdateScope env i p at = one_scope env ''updating scope '' i (updateScopeSQL env i p at)"

definition store_UpdateVisibility :: "project_env \<Rightarrow> string \<Rightarrow> string \<Rightarrow> time \<Rightarrow> scope scope_call" where
  "store_UpdateVisibility env i visibility at =
     one_scope env ''updating scope visibility '' i (updateVisibilitySQL i visibility at)"

definition store_DeleteScope :: "project_env \<Rightarrow> string \<Rightarrow> scope scope_call" where
  "store_DeleteScope env i = one_scope env ''deleting scope '' i (deleteScopeSQL i)"

text \<open>The scan of a returned row inside a transaction.\<close>

definition tx_scanScope :: "project_env \<Rightarrow> scope_row \<Rightarrow> (project_tables, scope) tx_action" where
  "tx_scanScope env r tx = tx_lift (scanScope env (pj_wall (tx_data tx)) r) tx"

definition update_crew_body ::
    "project_env \<Rightarrow> string \<Rightarrow> (crew_notify \<Rightarrow> go_err + crew_notify) \<Rightarrow> time \<Rightarrow> (project_tables, scope \<times> string) tx_action" where
  "update_crew_body env i edit at =
     tx_bind (tx_wrap (''reading crew_notify of '' @ i @ '': '') (tx_call (lockCrewNotifySQL i))) (\<lambda>found.
       case found of
         None \<Rightarrow> tx_fail (scopeNotFound i)
       | Some raw \<Rightarrow>
           tx_bind (tx_wrap (''scope '' @ i @ '': '') (tx_lift (decodeCrewNotify raw))) (\<lambda>current.
           tx_bind (tx_lift (edit current)) (\<lambda>next.
           tx_bind (tx_wrap (''updating crew_notify of '' @ i @ '': '')
             (tx_bind (tx_call (updateCrewNotifySQL i (encodeCrewNotify next) at)) (\<lambda>row.
                case row of
                  None \<Rightarrow> tx_fail ErrNoRows
                | Some r \<Rightarrow> tx_scanScope env r))) (\<lambda>s.
           tx_return (s, ''updating crew_notify of '' @ i @ '': '')))))"

definition store_UpdateCrewNotify ::
    "project_env \<Rightarrow> string \<Rightarrow> (crew_notify \<Rightarrow> go_err + crew_notify) \<Rightarrow> time \<Rightarrow> project_tables pg \<Rightarrow> ((go_err + scope) \<times> project_tables pg) option" where
  "store_UpdateCrewNotify env i edit at =
     run_tx (''updating crew_notify of '' @ i @ '': '') (update_crew_body env i edit at)"

end
