(* ===== verification/Projects_Service.thy ===== *)
theory Projects_Service
  imports Projects_Store Json_Syntax
begin

text \<open>
  Package \<open>projects\<close>, the service (\<open>service.go\<close>) over the interface \<open>ScopeStore\<close>, a record of
  functions on a world \<open>'w\<close>, the requests and responses of \<open>dto.go\<close>, and the handlers
  (\<open>handler.go\<close>), whose request bodies are inputs: a value of the request type or the error that
  decoding gave.
\<close>

type_synonym ('w, 'a) scope_op = "'w \<Rightarrow> (go_err + 'a) \<times> 'w"
type_synonym ('w, 'a) scope_tx = "'w \<Rightarrow> ((go_err + 'a) \<times> 'w) option"
type_synonym crew_edit = "crew_notify \<Rightarrow> go_err + crew_notify"

record 'w scope_store =
  ss_Ping :: "('w, unit) scope_op"
  ss_CreateScope :: "scope \<Rightarrow> ('w, scope) scope_op"
  ss_GetScope :: "string \<Rightarrow> ('w, scope) scope_op"
  ss_ListScopes :: "list_scopes_query \<Rightarrow> ('w, scope list) scope_op"
  ss_UpdateScope :: "string \<Rightarrow> scope_patch \<Rightarrow> time \<Rightarrow> ('w, scope) scope_op"
  ss_UpdateCrewNotify :: "string \<Rightarrow> crew_edit \<Rightarrow> time \<Rightarrow> ('w, scope) scope_tx"
  ss_UpdateVisibility :: "string \<Rightarrow> string \<Rightarrow> time \<Rightarrow> ('w, scope) scope_op"
  ss_DeleteScope :: "string \<Rightarrow> ('w, scope) scope_op"

record 'w scope_service =
  pv_store :: "'w scope_store"
  pv_clock :: "'w \<Rightarrow> time"
  pv_wall :: "'w \<Rightarrow> time"
  pv_parse :: repo_parser

section \<open>Requests\<close>

record create_project_request =
  cp_id :: string
  cp_name :: string
  cp_root :: string
  cp_repository :: string
  cp_description :: string

record create_space_request =
  ce_id :: string
  ce_name :: string
  ce_kind :: string
  ce_visibility :: string
  ce_owner :: string
  ce_root :: string
  ce_description :: string
  ce_settings :: "string option"

record update_project_request =
  up_name :: "string option"
  up_root :: "string option"
  up_repository :: "string option"
  up_description :: "string option"
  up_owner :: "string option"
  up_settings :: "string option"

definition project_HasChanges :: "update_project_request \<Rightarrow> bool" where
  "project_HasChanges r \<longleftrightarrow>
     up_name r \<noteq> None \<or> up_root r \<noteq> None \<or> up_repository r \<noteq> None \<or> up_description r \<noteq> None \<or>
     up_owner r \<noteq> None \<or> up_settings r \<noteq> None"

text \<open>A \<open>json.RawMessage\<close> is an option: \<open>None\<close> is the nil slice.\<close>

definition normalizeSettings :: "string option \<Rightarrow> go_err + string" where
  "normalizeSettings raw =
     (case raw of
        None \<Rightarrow> Inr []
      | Some s \<Rightarrow>
          if length s = 0 then Inr []
          else if \<not> json_valid s then Inl (Wrapped [] ErrInvalidScope '': settings_json must be valid json'')
          else Inr s)"

definition normalizePatchSettings :: "string option \<Rightarrow> go_err + string \<times> bool" where
  "normalizePatchSettings raw =
     (if raw = None then Inr ([], False)
      else case normalizeSettings raw of
        Inl e \<Rightarrow> Inl e
      | Inr settings \<Rightarrow> Inr (settings, True))"

definition scope_trimStringPointer :: "string option \<Rightarrow> string option" where
  "scope_trimStringPointer v = map_option trim_space v"

section \<open>The service\<close>

definition pv_CheckStore :: "'w scope_service \<Rightarrow> ('w, unit) scope_op" where
  "pv_CheckStore s w = ss_Ping (pv_store s) w"

definition pv_CreateProject :: "'w scope_service \<Rightarrow> create_project_request \<Rightarrow> ('w, scope) scope_op" where
  "pv_CreateProject s req w =
     (case NewScope (pv_parse s) (pv_wall s w)
         \<lparr>sc_id = cp_id req, sc_name = cp_name req, sc_kind = KindProject, sc_visibility = VisibilityNormal,
          sc_owner = [], sc_root = cp_root req, sc_repository = cp_repository req,
          sc_description = cp_description req, sc_settings = [], sc_crew = no_crew,
          sc_created = pv_clock s w, sc_updated = 0\<rparr> of
        Inl e \<Rightarrow> (Inl (projects_invalid e), w)
      | Inr sc \<Rightarrow> ss_CreateScope (pv_store s) sc w)"

definition pv_CreateSpace :: "'w scope_service \<Rightarrow> create_space_request \<Rightarrow> ('w, scope) scope_op" where
  "pv_CreateSpace s req w =
     (case normalizeSettings (ce_settings req) of
        Inl e \<Rightarrow> (Inl (projects_invalid e), w)
      | Inr settings \<Rightarrow>
          let now = pv_clock s w in
          (case NewScope (pv_parse s) (pv_wall s w)
              \<lparr>sc_id = ce_id req, sc_name = ce_name req, sc_kind = ce_kind req, sc_visibility = ce_visibility req,
               sc_owner = ce_owner req, sc_root = ce_root req, sc_repository = [],
               sc_description = ce_description req, sc_settings = settings, sc_crew = no_crew,
               sc_created = now, sc_updated = now\<rparr> of
             Inl e \<Rightarrow> (Inl (projects_invalid e), w)
           | Inr sc \<Rightarrow> ss_CreateScope (pv_store s) sc w))"

definition pv_GetScope :: "'w scope_service \<Rightarrow> string \<Rightarrow> ('w, scope) scope_op" where
  "pv_GetScope s i w =
     (let i = trim_space i in
      if i = [] then (Inl (projects_invalid ErrMissingID), w)
      else ss_GetScope (pv_store s) i w)"

definition pv_ListProjects :: "'w scope_service \<Rightarrow> bool \<Rightarrow> bool \<Rightarrow> ('w, scope list) scope_op" where
  "pv_ListProjects s hidden archived w =
     ss_ListScopes (pv_store s) \<lparr>sl_kind = KindProject, sl_hidden = hidden, sl_archived = archived\<rparr> w"

definition pv_ListSpaces :: "'w scope_service \<Rightarrow> string \<Rightarrow> bool \<Rightarrow> bool \<Rightarrow> ('w, scope list) scope_op" where
  "pv_ListSpaces s kind hidden archived w =
     (let kind = trim_space kind in
      if kind \<noteq> [] \<and> \<not> validKind kind then (Inl (projects_invalid (Wrapped [] ErrInvalidKind ('': '' @ kind))), w)
      else ss_ListScopes (pv_store s) \<lparr>sl_kind = kind, sl_hidden = hidden, sl_archived = archived\<rparr> w)"

definition pv_UpdateProject :: "'w scope_service \<Rightarrow> string \<Rightarrow> update_project_request \<Rightarrow> ('w, scope) scope_op" where
  "pv_UpdateProject s i req w =
     (if trim_space i = [] then (Inl (projects_invalid ErrMissingID), w)
      else if \<not> project_HasChanges req then (Inl (projects_invalid ErrScopeEmptyPatch), w)
      else if (case up_name req of None \<Rightarrow> False | Some n \<Rightarrow> trim_space n = []) then (Inl (projects_invalid ErrMissingName), w)
      else
      let repository = scope_trimStringPointer (up_repository req) in
      if (case repository of None \<Rightarrow> False | Some u \<Rightarrow> \<not> validRepositoryURL (pv_parse s) u) then
        (Inl (projects_invalid ErrInvalidRepositoryURL), w)
      else case normalizePatchSettings (up_settings req) of
        Inl e \<Rightarrow> (Inl (projects_invalid e), w)
      | Inr (settings, hasSettings) \<Rightarrow>
          ss_UpdateScope (pv_store s) (trim_space i)
            \<lparr>sp_name = scope_trimStringPointer (up_name req), sp_root = scope_trimStringPointer (up_root req),
             sp_repository = repository, sp_description = scope_trimStringPointer (up_description req),
             sp_owner = scope_trimStringPointer (up_owner req), sp_settings = settings,
             sp_has_settings = hasSettings\<rparr>
            (pv_clock s w) w)"

definition crew_edit_of :: "crew_request \<Rightarrow> crew_edit" where
  "crew_edit_of req current =
     (case crew_apply req current of Inl e \<Rightarrow> Inl (projects_invalid e) | Inr next \<Rightarrow> Inr next)"

definition pv_UpdateCrewNotify :: "'w scope_service \<Rightarrow> string \<Rightarrow> crew_request \<Rightarrow> ('w, scope) scope_tx" where
  "pv_UpdateCrewNotify s i req w =
     (let i = trim_space i in
      if i = [] then Some (Inl (projects_invalid ErrMissingID), w)
      else case crew_apply req no_crew of
        Inl e \<Rightarrow> Some (Inl (projects_invalid e), w)
      | Inr _ \<Rightarrow> ss_UpdateCrewNotify (pv_store s) i (crew_edit_of req) (pv_clock s w) w)"

definition pv_UpdateVisibility :: "'w scope_service \<Rightarrow> string \<Rightarrow> string \<Rightarrow> ('w, scope) scope_op" where
  "pv_UpdateVisibility s i visibility w =
     (let i = trim_space i in
      if i = [] then (Inl (projects_invalid ErrMissingID), w)
      else
      let visibility = trim_space visibility in
      if \<not> validVisibility visibility then
        (Inl (projects_invalid (Wrapped [] ErrInvalidVisibility ('': '' @ visibility))), w)
      else ss_UpdateVisibility (pv_store s) i visibility (pv_clock s w) w)"

definition pv_ArchiveSpace :: "'w scope_service \<Rightarrow> string \<Rightarrow> ('w, scope) scope_op" where
  "pv_ArchiveSpace s i w = pv_UpdateVisibility s i VisibilityArchived w"

definition pv_AssertWritable :: "'w scope_service \<Rightarrow> string \<Rightarrow> bool \<Rightarrow> ('w, scope) scope_op" where
  "pv_AssertWritable s i allowArchived w =
     (case pv_GetScope s i w of
        (Inl e, w1) \<Rightarrow> (Inl e, w1)
      | (Inr sc, w1) \<Rightarrow>
          if sc_visibility sc = VisibilityArchived \<and> \<not> allowArchived then
            (Inl (projects_conflict (Wrapped [] ErrArchivedScopeWrite ('': '' @ sc_id sc)) ''archived_scope''), w1)
          else (Inr sc, w1))"

definition pv_DeleteSpace :: "'w scope_service \<Rightarrow> string \<Rightarrow> bool \<Rightarrow> ('w, scope) scope_op" where
  "pv_DeleteSpace s i force w =
     (case pv_GetScope s i w of
        (Inl e, w1) \<Rightarrow> (Inl e, w1)
      | (Inr sc, w1) \<Rightarrow>
          if ProtectedFromDelete sc \<and> \<not> force then
            (Inl (projects_conflict (Wrapped [] ErrProtectedScope ('': '' @ sc_id sc @ '' requires force'')) ''protected_scope''), w1)
          else ss_DeleteScope (pv_store s) (sc_id sc) w1)"

section \<open>The PostgreSQL store behind the interface\<close>

definition pg_scope_store :: "project_env \<Rightarrow> project_tables pg scope_store" where
  "pg_scope_store env =
     \<lparr>ss_Ping = scope_Ping, ss_CreateScope = store_CreateScope env, ss_GetScope = store_GetScope env,
      ss_ListScopes = store_ListScopes env, ss_UpdateScope = store_UpdateScope env,
      ss_UpdateCrewNotify = store_UpdateCrewNotify env, ss_UpdateVisibility = store_UpdateVisibility env,
      ss_DeleteScope = store_DeleteScope env\<rparr>"

definition pg_scope_service :: "project_env \<Rightarrow> project_tables pg scope_service" where
  "pg_scope_service env =
     \<lparr>pv_store = pg_scope_store env, pv_clock = (\<lambda>db. pj_now (pg_data db)), pv_wall = (\<lambda>db. pj_wall (pg_data db)),
      pv_parse = pe_parse env\<rparr>"

section \<open>The handlers\<close>

record scope_response =
  sr_id :: string
  sr_name :: string
  sr_kind :: string
  sr_visibility :: string
  sr_owner :: string
  sr_root :: string
  sr_repository :: string
  sr_description :: string
  sr_settings :: "string option"
  sr_crew :: "crew_notify option"
  sr_created :: time
  sr_updated :: time
  sr_writable :: bool

record writable_response =
  wr_id :: string
  wr_writable :: bool
  wr_visibility :: string

record delete_response =
  dr_deleted :: bool
  dr_space :: scope_response
  dr_counts :: "(string \<times> int) list"
  dr_complete :: bool
  dr_message :: string

definition toScopeResponse :: "scope \<Rightarrow> scope_response" where
  "toScopeResponse s =
     \<lparr>sr_id = sc_id s, sr_name = sc_name s, sr_kind = sc_kind s, sr_visibility = sc_visibility s,
      sr_owner = sc_owner s, sr_root = sc_root s, sr_repository = sc_repository s,
      sr_description = sc_description s,
      sr_settings = (if length (sc_settings s) > 0 then Some (sc_settings s) else None),
      sr_crew = (if \<not> crew_IsEmpty (sc_crew s) then Some (sc_crew s) else None),
      sr_created = sc_created s, sr_updated = sc_updated s, sr_writable = scope_Writable s\<rparr>"

text \<open>What the handlers do with the outcome of a service call.\<close>

definition answer_with :: "int \<Rightarrow> ('a \<Rightarrow> 'b) \<Rightarrow> (go_err + 'a) \<times> 'w \<Rightarrow> 'b http_response \<times> 'w" where
  "answer_with status f out =
     (case out of
        (Inl e, w) \<Rightarrow> (WriteServiceError (Some e), w)
      | (Inr x, w) \<Rightarrow> (WriteJSON status (f x), w))"

definition with_body :: "(go_err + 'r) \<Rightarrow> ('r \<Rightarrow> 'w \<Rightarrow> 'b http_response \<times> 'w) \<Rightarrow> 'w \<Rightarrow> 'b http_response \<times> 'w" where
  "with_body body h w = (case body of Inl e \<Rightarrow> (WriteServiceError (Some e), w) | Inr req \<Rightarrow> h req w)"

definition hp_createProject where
  "hp_createProject s body = with_body body (\<lambda>req w. answer_with 201 toScopeResponse (pv_CreateProject s req w))"

definition hp_listProjects where
  "hp_listProjects s hidden archived w =
     answer_with 200 (map toScopeResponse) (pv_ListProjects s (hidden = ''true'') (archived = ''true'') w)"

definition hp_updateProject where
  "hp_updateProject s i body = with_body body (\<lambda>req w. answer_with 200 toScopeResponse (pv_UpdateProject s i req w))"

definition hp_updateCrewNotify ::
    "'w scope_service \<Rightarrow> string \<Rightarrow> go_err + crew_request \<Rightarrow> 'w \<Rightarrow> (scope_response http_response \<times> 'w) option" where
  "hp_updateCrewNotify s i body w =
     (case body of
        Inl e \<Rightarrow> Some (WriteServiceError (Some e), w)
      | Inr req \<Rightarrow> map_option (answer_with 200 toScopeResponse) (pv_UpdateCrewNotify s i req w))"

definition hp_createSpace where
  "hp_createSpace s body = with_body body (\<lambda>req w. answer_with 201 toScopeResponse (pv_CreateSpace s req w))"

definition hp_listSpaces where
  "hp_listSpaces s kind hidden archived w =
     answer_with 200 (map toScopeResponse) (pv_ListSpaces s kind (hidden = ''true'') (archived = ''true'') w)"

definition hp_updateSpaceVisibility where
  "hp_updateSpaceVisibility s i body =
     with_body body (\<lambda>visibility w. answer_with 200 toScopeResponse (pv_UpdateVisibility s i visibility w))"

definition hp_archiveSpace where
  "hp_archiveSpace s i w = answer_with 200 toScopeResponse (pv_ArchiveSpace s i w)"

definition hp_writeScope where
  "hp_writeScope s i w = answer_with 200 toScopeResponse (pv_GetScope s i w)"

text \<open>A missing or empty body is \<open>None\<close>, and then the request is the zero value.\<close>

definition hp_assertWritable ::
    "'w scope_service \<Rightarrow> string \<Rightarrow> (go_err + bool) option \<Rightarrow> 'w \<Rightarrow> writable_response http_response \<times> 'w" where
  "hp_assertWritable s i body =
     with_body (case body of None \<Rightarrow> Inr False | Some b \<Rightarrow> b) (\<lambda>allow w.
       answer_with 200 (\<lambda>sc. \<lparr>wr_id = sc_id sc, wr_writable = True, wr_visibility = sc_visibility sc\<rparr>)
         (pv_AssertWritable s i allow w))"

definition hp_deleteSpace ::
    "'w scope_service \<Rightarrow> string \<Rightarrow> (go_err + bool) option \<Rightarrow> 'w \<Rightarrow> delete_response http_response \<times> 'w" where
  "hp_deleteSpace s i body =
     with_body (case body of None \<Rightarrow> Inr False | Some b \<Rightarrow> b) (\<lambda>force w.
       answer_with 200 (\<lambda>sc. \<lparr>dr_deleted = True, dr_space = toScopeResponse sc, dr_counts = [], dr_complete = False,
           dr_message = ''Space deleted by admin route. Cross-domain dependent counts are not owned by projects; prefer archive_space for normal lifecycle removal.''\<rparr>)
         (pv_DeleteSpace s i force w))"

end
