(* ===== verification/Projects_Client.thy ===== *)
theory Projects_Client
  imports Projects_Service
begin

text \<open>
  When a stored scope conforms to what the package promises of a scope, and what each statement and
  method of the store does to the scopes it holds.
\<close>

section \<open>Conformance\<close>

definition target_ok :: "crew_target \<Rightarrow> bool" where
  "target_ok t \<longleftrightarrow> trim_space (ct_address t) = ct_address t \<and>
     (crewSeatAddress (ct_address t) \<or> crewSessionAddress (ct_address t)) \<and>
     (ct_policy t = CrewNotifyNoWake \<or> ct_policy t = CrewNotifyNextTurn)"

definition crew_ok :: "crew_notify \<Rightarrow> bool" where
  "crew_ok c \<longleftrightarrow> length (cn_done c) \<le> MaxCrewNotifyTargets \<and> distinct (map ct_address (cn_done c)) \<and>
     (\<forall>t\<in>set (cn_done c). target_ok t)"

definition neat :: "string \<Rightarrow> bool" where
  "neat s \<longleftrightarrow> trim_space s = s"

definition scope_ok :: "repo_parser \<Rightarrow> scope \<Rightarrow> bool" where
  "scope_ok parse s \<longleftrightarrow>
     sc_id s \<noteq> [] \<and> sc_name s \<noteq> [] \<and> validKind (sc_kind s) \<and> validVisibility (sc_visibility s) \<and>
     validRepositoryURL parse (sc_repository s) \<and> crew_ok (sc_crew s) \<and>
     neat (sc_id s) \<and> neat (sc_name s) \<and> neat (sc_owner s) \<and> neat (sc_root s) \<and> neat (sc_repository s) \<and>
     neat (sc_description s) \<and> \<not> is_zero_time (sc_created s) \<and> \<not> is_zero_time (sc_updated s)"

lemma neat_trim [simp]: "neat (trim_space s)"
  by (simp add: neat_def)

lemma neat_graphic: "\<forall>c\<in>set s. graphic c \<Longrightarrow> neat s"
  by (simp add: neat_def trim_space_graphic)

lemma neat_Nil [simp]: "neat []"
  by (simp add: neat_def)

lemma crew_ok_empty [simp]: "crew_ok no_crew"
  by (simp add: crew_ok_def no_crew_def)

lemma validKind_default: "validKind k \<Longrightarrow> defaultKind k = k"
  unfolding validKind_def defaultKind_def scope_consts
  by (auto simp: Let_def trim_space_graphic graphic_def)

lemma validVisibility_trim: "validVisibility v \<Longrightarrow> trim_space v = v \<and> v \<noteq> []"
  unfolding validVisibility_def scope_consts by (auto simp: trim_space_graphic graphic_def)

lemma validVisibility_default: "validVisibility v \<Longrightarrow> defaultVisibility v = v"
  using validVisibility_trim by (simp add: defaultVisibility_def)

lemma NewScope_ok:
  assumes "NewScope parse wall p = Inr s" and "\<not> is_zero_time wall" and "crew_ok (sc_crew p)"
  shows "scope_ok parse s"
  using assms unfolding NewScope_def Let_def scope_ok_def by (auto split: if_split_asm)

lemma NewScope_id: "scope_ok parse s \<Longrightarrow> NewScope parse wall s = Inr s"
  by (cases s) (simp add: NewScope_def scope_ok_def neat_def validKind_default validVisibility_default)

lemma NewScope_Inr:
  assumes "NewScope parse wall p = Inr s"
  shows "sc_id s = trim_space (sc_id p)" "sc_crew s = sc_crew p" "sc_settings s = sc_settings p"
    "sc_kind s = defaultKind (sc_kind p)" "sc_visibility s = defaultVisibility (sc_visibility p)"
  using assms unfolding NewScope_def Let_def by (auto split: if_split_asm)

section \<open>Crew addresses\<close>

lemma normalize_target_ok: "normalizeCrewNotifyTarget a = Inr t \<Longrightarrow> target_ok t \<and> ct_address t = trim_space (ct_address a)"
  by (auto simp: normalizeCrewNotifyTarget_def target_ok_def Let_def split: if_split_asm)

lemma normalize_target_id: "target_ok t \<Longrightarrow> normalizeCrewNotifyTarget t = Inr t"
  by (cases t) (auto simp: normalizeCrewNotifyTarget_def target_ok_def Let_def CrewNotifyNoWake_def
    CrewNotifyNextTurn_def trim_space_graphic graphic_def)

text \<open>The list of targets as a map from addresses to policies.\<close>

definition crew_map :: "crew_target list \<Rightarrow> string \<Rightarrow> string option" where
  "crew_map ts = map_of (map (\<lambda>t. (ct_address t, ct_policy t)) ts)"

lemma crew_map_Cons [simp]: "crew_map (t # ts) = (crew_map ts)(ct_address t \<mapsto> ct_policy t)"
  by (simp add: crew_map_def)

lemma crew_map_Nil [simp]: "crew_map [] = Map.empty"
  by (simp add: crew_map_def)

lemma crew_map_append: "crew_map (ts @ us) = crew_map us ++ crew_map ts"
  by (simp add: crew_map_def)

lemma dom_crew_map: "dom (crew_map ts) = ct_address ` set ts"
  by (simp add: crew_map_def dom_map_of_conv_image_fst image_image)

lemma crew_map_None: "crew_map ts a = None \<longleftrightarrow> a \<notin> ct_address ` set ts"
  by (metis dom_crew_map domIff)

lemma addresses_put [simp]:
  "map ct_address (put_target t ts) =
     (if ct_address t \<in> ct_address ` set ts then map ct_address ts else map ct_address ts @ [ct_address t])"
  by (auto simp: put_target_def intro: rev_image_eqI)

lemma distinct_put: "distinct (map ct_address ts) \<Longrightarrow> distinct (map ct_address (put_target t ts))"
  by simp

lemma put_target_ok: "target_ok t \<Longrightarrow> \<forall>u\<in>set ts. target_ok u \<Longrightarrow> \<forall>u\<in>set (put_target t ts). target_ok u"
  by (auto simp: put_target_def)

lemma add_targets_ok:
  "add_targets adds ts = Inr us \<Longrightarrow> \<forall>t\<in>set ts. target_ok t \<Longrightarrow> \<forall>t\<in>set us. target_ok t"
proof (induction adds ts rule: add_targets.induct)
  case (2 a adds ts)
  from "2.prems"(1) obtain t where t: "normalizeCrewNotifyTarget a = Inr t" by (auto split: sum.splits)
  with "2.prems"(1) have "add_targets adds (put_target t ts) = Inr us" by simp
  moreover have "\<forall>u\<in>set (put_target t ts). target_ok u"
    by (rule put_target_ok) (use normalize_target_ok [OF t] "2.prems"(2) in blast)+
  ultimately show ?case by (rule "2.IH" [OF t])
qed simp

lemma crew_map_replace:
  "crew_map (map (\<lambda>u. if ct_address u = ct_address t then t else u) ts) a =
     (if a = ct_address t \<and> a \<in> ct_address ` set ts then Some (ct_policy t) else crew_map ts a)"
  by (induction ts) auto

lemma crew_map_put: "crew_map (put_target t ts) = (crew_map ts)(ct_address t \<mapsto> ct_policy t)"
proof
  fix a
  show "crew_map (put_target t ts) a = ((crew_map ts)(ct_address t \<mapsto> ct_policy t)) a"
  proof (cases "\<exists>u\<in>set ts. ct_address u = ct_address t")
    case True
    then have "ct_address t \<in> ct_address ` set ts" by (metis imageI)
    then show ?thesis unfolding put_target_def if_P [OF True] crew_map_replace by simp
  next
    case False
    then have "crew_map ts (ct_address t) = None" by (auto simp: crew_map_None)
    then show ?thesis unfolding put_target_def if_not_P [OF False]
      by (simp add: crew_map_append map_add_def split: option.split)
  qed
qed

text \<open>What the request asks for: the removed addresses go, then the added ones are set in turn.\<close>

definition crew_updated :: "crew_request \<Rightarrow> (string \<Rightarrow> string option) \<Rightarrow> string \<Rightarrow> string option" where
  "crew_updated r m =
     fold (\<lambda>a m. case normalizeCrewNotifyTarget a of Inl _ \<Rightarrow> m | Inr t \<Rightarrow> m(ct_address t \<mapsto> ct_policy t)) (cr_add r)
       (m |` (- trim_space ` set (cr_remove r)))"

lemma add_targets_Inr:
  assumes "add_targets adds ts = Inr us"
  shows "crew_map us = fold (\<lambda>a m. case normalizeCrewNotifyTarget a of Inl _ \<Rightarrow> m | Inr t \<Rightarrow> m(ct_address t \<mapsto> ct_policy t)) adds (crew_map ts)"
    and "distinct (map ct_address ts) \<Longrightarrow> distinct (map ct_address us)"
    and "\<forall>a\<in>set adds. \<exists>t. normalizeCrewNotifyTarget a = Inr t"
  using assms
  by (induction adds ts rule: add_targets.induct)
    (auto split: sum.splits simp: crew_map_put dest: distinct_put)

lemma crew_map_filter:
  "crew_map (filter (\<lambda>t. ct_address t \<notin> R) ts) = crew_map ts |` (- R)"
  by (induction ts) (auto simp: fun_eq_iff restrict_map_def)

lemma crew_apply_Inr:
  assumes "crew_apply r c = Inr next"
  shows "crew_map (cn_done next) = crew_updated r (crew_map (cn_done c))"
    and "length (cn_done next) \<le> MaxCrewNotifyTargets"
    and "distinct (map ct_address (cn_done c)) \<Longrightarrow> distinct (map ct_address (cn_done next))"
    and "\<forall>t\<in>set (cn_done c). target_ok t \<Longrightarrow> \<forall>t\<in>set (cn_done next). target_ok t"
proof -
  let ?ts = "filter (\<lambda>t. ct_address t \<notin> trim_space ` set (cr_remove r)) (cn_done c)"
  from assms obtain us where us: "add_targets (cr_add r) ?ts = Inr us" "next = \<lparr>cn_done = us\<rparr>" "length us \<le> MaxCrewNotifyTargets"
    by (auto simp: crew_apply_def Let_def split: if_split_asm sum.split_asm)
  show "crew_map (cn_done next) = crew_updated r (crew_map (cn_done c))"
    using add_targets_Inr(1) [OF us(1)] us(2) by (simp add: crew_updated_def crew_map_filter)
  show "length (cn_done next) \<le> MaxCrewNotifyTargets" using us by simp
  show "distinct (map ct_address (cn_done next))" if "distinct (map ct_address (cn_done c))"
    using add_targets_Inr(2) [OF us(1)] that us(2) by (simp add: distinct_map_filter)
  show "\<forall>t\<in>set (cn_done next). target_ok t" if "\<forall>t\<in>set (cn_done c). target_ok t"
  proof -
    from that have "\<forall>t\<in>set ?ts. target_ok t" by simp
    with us(1) have "\<forall>t\<in>set us. target_ok t" by (rule add_targets_ok)
    with us(2) show ?thesis by simp
  qed
qed

lemma crew_apply_ok: "crew_apply r c = Inr next \<Longrightarrow> crew_ok c \<Longrightarrow> crew_ok next"
  unfolding crew_ok_def using crew_apply_Inr(2-4) [of r c "next"] by blast

section \<open>The contract of the store\<close>

text \<open>
  The contract between the projects service and its store (locale \<open>scope_store_laws\<close>), over an
  abstract state that maps an id to its scope, and what the service does over any store that keeps
  it (locale \<open>scope_service_laws\<close>).
\<close>

section \<open>Effects on the scopes\<close>

type_synonym scopes = "string \<Rightarrow> scope option"

definition scopes_ok :: "repo_parser \<Rightarrow> scopes \<Rightarrow> bool" where
  "scopes_ok parse v \<longleftrightarrow> (\<forall>i s. v i = Some s \<longrightarrow> scope_ok parse s \<and> sc_id s = i)"

text \<open>What the column \<open>settings_json\<close> gives back for the settings it is given.\<close>

definition stored_settings :: "project_env \<Rightarrow> string \<Rightarrow> string" where
  "stored_settings env s =
     (if s = [] then [] else case pe_jsonb env s of None \<Rightarrow> [] | Some u \<Rightarrow> u)"

definition scope_patched :: "project_env \<Rightarrow> scope_patch \<Rightarrow> time \<Rightarrow> scope \<Rightarrow> scope" where
  "scope_patched env p at s =
     s\<lparr>sc_name := (case sp_name p of None \<Rightarrow> sc_name s | Some n \<Rightarrow> n),
       sc_root := (case sp_root p of None \<Rightarrow> sc_root s | Some v \<Rightarrow> v),
       sc_repository := (case sp_repository p of None \<Rightarrow> sc_repository s | Some v \<Rightarrow> v),
       sc_description := (case sp_description p of None \<Rightarrow> sc_description s | Some v \<Rightarrow> v),
       sc_owner := (case sp_owner p of None \<Rightarrow> sc_owner s | Some v \<Rightarrow> v),
       sc_settings := (if sp_has_settings p then stored_settings env (sp_settings p) else sc_settings s),
       sc_updated := at\<rparr>"

definition scope_patch_ok :: "repo_parser \<Rightarrow> scope_patch \<Rightarrow> bool" where
  "scope_patch_ok parse p \<longleftrightarrow>
     (\<forall>n. sp_name p = Some n \<longrightarrow> n \<noteq> [] \<and> neat n) \<and> (\<forall>u. sp_repository p = Some u \<longrightarrow> validRepositoryURL parse u \<and> neat u) \<and>
     (\<forall>v. sp_root p = Some v \<longrightarrow> neat v) \<and> (\<forall>v. sp_description p = Some v \<longrightarrow> neat v) \<and> (\<forall>v. sp_owner p = Some v \<longrightarrow> neat v)"

lemma scope_patched_ok:
  "scope_ok parse s \<Longrightarrow> scope_patch_ok parse p \<Longrightarrow> \<not> is_zero_time at \<Longrightarrow> scope_ok parse (scope_patched env p at s)"
  by (auto simp: scope_ok_def scope_patch_ok_def scope_patched_def split: option.splits)

lemma scope_patched_fields [simp]:
  "sc_id (scope_patched env p at s) = sc_id s" "sc_kind (scope_patched env p at s) = sc_kind s"
  "sc_visibility (scope_patched env p at s) = sc_visibility s" "sc_crew (scope_patched env p at s) = sc_crew s"
  by (simp_all add: scope_patched_def)

text \<open>An error of the driver or the database, in the text of a method: the client sees status 500.\<close>

definition internal :: "go_err \<Rightarrow> bool" where
  "internal e \<longleftrightarrow> (\<exists>ctx. e = Wrapped ctx DriverErr [])"

lemma internalI [simp]: "internal (Wrapped ctx DriverErr [])"
  by (auto simp: internal_def)

lemma internal_status: "internal e \<Longrightarrow> statusForError e = (500, ''internal_error'')"
  by (auto simp: internal_def)

text \<open>
  What an operation on the scope \<open>i\<close> may do: give an error and leave the scopes, or answer with the
  scope as \<open>f\<close> makes it, the scopes being then as \<open>g\<close> makes them.
\<close>

definition scope_effect ::
    "string \<Rightarrow> (scope \<Rightarrow> scope) \<Rightarrow> (scopes \<Rightarrow> scopes) \<Rightarrow> scopes \<Rightarrow> go_err + scope \<Rightarrow> scopes \<Rightarrow> bool" where
  "scope_effect i f g v r v' \<longleftrightarrow>
     (case r of
        Inl e \<Rightarrow> v' = v \<and> (e = scopeNotFound i \<and> v i = None \<or> internal e)
      | Inr s' \<Rightarrow> (\<exists>s. v i = Some s \<and> s' = f s) \<and> v' = g v)"

definition change_at :: "string \<Rightarrow> (scope \<Rightarrow> scope) \<Rightarrow> scopes \<Rightarrow> scopes" where
  "change_at i f v = v(i := map_option f (v i))"

definition create_effect :: "project_env \<Rightarrow> scope \<Rightarrow> scopes \<Rightarrow> go_err + scope \<Rightarrow> scopes \<Rightarrow> bool" where
  "create_effect env s v r v' \<longleftrightarrow>
     (case r of
        Inl e \<Rightarrow> v' = v \<and>
          (e = projects_conflict (Wrapped [] ErrDuplicateScope ('': '' @ sc_id s)) ''scope_already_exists'' \<and> v (sc_id s) \<noteq> None
           \<or> internal e)
      | Inr s' \<Rightarrow> v (sc_id s) = None \<and> s' = s\<lparr>sc_settings := stored_settings env (sc_settings s)\<rparr> \<and> v' = v(sc_id s \<mapsto> s'))"

definition crew_effect :: "string \<Rightarrow> crew_edit \<Rightarrow> time \<Rightarrow> scopes \<Rightarrow> go_err + scope \<Rightarrow> scopes \<Rightarrow> bool" where
  "crew_effect i edit at v r v' \<longleftrightarrow>
     (case r of
        Inl e \<Rightarrow> v' = v
      | Inr s' \<Rightarrow> (\<exists>s crew. v i = Some s \<and> edit (sc_crew s) = Inr crew \<and>
           s' = s\<lparr>sc_crew := crew, sc_updated := at\<rparr>) \<and> v' = v(i \<mapsto> s'))"

section \<open>The contract\<close>

locale scope_store_laws =
  fixes store :: "'w scope_store" and env :: project_env and good :: "'w \<Rightarrow> bool" and view :: "'w \<Rightarrow> scopes"
  assumes conforms: "good w \<Longrightarrow> scopes_ok (pe_parse env) (view w)"
    and get: "good w \<Longrightarrow> ss_GetScope store i w = (r, w') \<Longrightarrow>
      good w' \<and> scope_effect i id id (view w) r (view w')"
    and list_frame: "good w \<Longrightarrow> ss_ListScopes store q w = (rs, w') \<Longrightarrow> good w' \<and> view w' = view w"
    and create: "good w \<Longrightarrow> scope_ok (pe_parse env) s \<Longrightarrow> sc_crew s = no_crew \<Longrightarrow> ss_CreateScope store s w = (r, w') \<Longrightarrow>
      good w' \<and> create_effect env s (view w) r (view w')"
    and update: "good w \<Longrightarrow> scope_patch_ok (pe_parse env) p \<Longrightarrow> \<not> is_zero_time at \<Longrightarrow>
      ss_UpdateScope store i p at w = (r, w') \<Longrightarrow>
      good w' \<and> scope_effect i (scope_patched env p at) (change_at i (scope_patched env p at)) (view w) r (view w')"
    and visibility: "good w \<Longrightarrow> validVisibility vis \<Longrightarrow> \<not> is_zero_time at \<Longrightarrow>
      ss_UpdateVisibility store i vis at w = (r, w') \<Longrightarrow>
      good w' \<and> scope_effect i (\<lambda>s. s\<lparr>sc_visibility := vis, sc_updated := at\<rparr>)
        (change_at i (\<lambda>s. s\<lparr>sc_visibility := vis, sc_updated := at\<rparr>)) (view w) r (view w')"
    and crew: "good w \<Longrightarrow> \<forall>c n. crew_ok c \<longrightarrow> edit c = Inr n \<longrightarrow> crew_ok n \<Longrightarrow> \<not> is_zero_time at \<Longrightarrow>
      \<exists>r w'. ss_UpdateCrewNotify store i edit at w = Some (r, w') \<and> good w' \<and> crew_effect i edit at (view w) r (view w')"
    and delete: "good w \<Longrightarrow> ss_DeleteScope store i w = (r, w') \<Longrightarrow>
      good w' \<and> scope_effect i id (\<lambda>v. v(i := None)) (view w) r (view w')"

section \<open>The service\<close>

datatype project_request =
    CreateProjectRequest create_project_request
  | CreateSpaceRequest create_space_request
  | UpdateProjectRequest string update_project_request
  | UpdateCrewNotifyRequest string crew_request
  | UpdateVisibilityRequest string string
  | DeleteSpaceRequest string bool
  | AssertWritableRequest string bool

definition scope_outcome :: "(go_err + 'a) \<times> 'w \<Rightarrow> go_err option \<times> 'w" where
  "scope_outcome x = (case fst x of Inl e \<Rightarrow> Some e | Inr _ \<Rightarrow> None, snd x)"

definition project_serve :: "'w scope_service \<Rightarrow> project_request \<Rightarrow> 'w \<Rightarrow> (go_err option \<times> 'w) option" where
  "project_serve s q w =
     (case q of
        CreateProjectRequest r \<Rightarrow> Some (scope_outcome (pv_CreateProject s r w))
      | CreateSpaceRequest r \<Rightarrow> Some (scope_outcome (pv_CreateSpace s r w))
      | UpdateProjectRequest i r \<Rightarrow> Some (scope_outcome (pv_UpdateProject s i r w))
      | UpdateCrewNotifyRequest i r \<Rightarrow> map_option scope_outcome (pv_UpdateCrewNotify s i r w)
      | UpdateVisibilityRequest i vis \<Rightarrow> Some (scope_outcome (pv_UpdateVisibility s i vis w))
      | DeleteSpaceRequest i force \<Rightarrow> Some (scope_outcome (pv_DeleteSpace s i force w))
      | AssertWritableRequest i allow \<Rightarrow> Some (scope_outcome (pv_AssertWritable s i allow w)))"

text \<open>A delete with \<open>force\<close>.\<close>

definition forced :: "project_request \<Rightarrow> bool" where
  "forced q \<longleftrightarrow> (case q of DeleteSpaceRequest _ force \<Rightarrow> force | _ \<Rightarrow> False)"

text \<open>What one request may do to the scopes: nothing, one new scope, a change of one that keeps its
  id and its kind, or the removal of one that is not protected or was forced.\<close>

definition scope_kept :: "scope \<Rightarrow> scope \<Rightarrow> bool" where
  "scope_kept s s' \<longleftrightarrow> sc_id s' = sc_id s \<and> sc_kind s' = sc_kind s"

inductive scopes_step :: "bool \<Rightarrow> scopes \<Rightarrow> scopes \<Rightarrow> bool" for force :: bool where
  stay: "scopes_step force v v"
| create: "v (sc_id s) = None \<Longrightarrow> scopes_step force v (v(sc_id s \<mapsto> s))"
| change: "v i = Some s \<Longrightarrow> scope_kept s s' \<Longrightarrow> scopes_step force v (v(i \<mapsto> s'))"
| remove: "v i = Some s \<Longrightarrow> ProtectedFromDelete s \<longrightarrow> force \<Longrightarrow> scopes_step force v (v(i := None))"

locale scope_service_laws = scope_store_laws store env good view
  for store :: "'w scope_store" and env :: project_env and good :: "'w \<Rightarrow> bool" and view :: "'w \<Rightarrow> scopes" +
  fixes s :: "'w scope_service"
  assumes store_of: "pv_store s = store" and parse_of: "pv_parse s = pe_parse env"
    and clock_runs: "good w \<Longrightarrow> \<not> is_zero_time (pv_clock s w)" "good w \<Longrightarrow> \<not> is_zero_time (pv_wall s w)"
begin

lemma get_scope:
  assumes "good w" and "pv_GetScope s i w = (r, w')"
  shows "good w'" and "view w' = view w"
    and "r = Inr sc \<Longrightarrow> view w (trim_space i) = Some sc \<and> trim_space i \<noteq> []"
    and "r = Inl e \<Longrightarrow> internal e \<or> e = projects_invalid ErrMissingID \<and> trim_space i = []
       \<or> e = scopeNotFound (trim_space i) \<and> view w (trim_space i) = None"
  using assms get [OF assms(1), of "trim_space i"]
  by (auto simp: pv_GetScope_def Let_def store_of scope_effect_def split: if_split_asm sum.split_asm)

lemma assert_writable:
  assumes "good w" and "pv_AssertWritable s i allow w = (r, w')"
  shows "good w' \<and> view w' = view w \<and>
    (case r of
       Inr sc \<Rightarrow> view w (trim_space i) = Some sc \<and> (scope_Writable sc \<or> allow)
     | Inl e \<Rightarrow> internal e \<or> e = projects_invalid ErrMissingID \<and> trim_space i = []
         \<or> e = scopeNotFound (trim_space i) \<and> view w (trim_space i) = None
         \<or> (\<exists>sc. view w (trim_space i) = Some sc \<and> \<not> scope_Writable sc \<and> \<not> allow \<and>
              e = projects_conflict (Wrapped [] ErrArchivedScopeWrite ('': '' @ trim_space i)) ''archived_scope''))"
proof -
  obtain g w1 where 1: "pv_GetScope s i w = (g, w1)" by fastforce
  note G = get_scope [OF assms(1) 1]
  show ?thesis
  proof (cases g)
    case (Inl e)
    with assms(2) 1 have r: "r = Inl e" "w' = w1" by (simp_all add: pv_AssertWritable_def)
    from G(1,2) G(4) [OF Inl] show ?thesis unfolding r by (simp only: sum.case) blast
  next
    case (Inr sc)
    with conforms [OF assms(1)] G(3) have "sc_id sc = trim_space i" by (auto simp: scopes_ok_def)
    with assms(2) 1 Inr G(1,2) G(3) [OF Inr] show ?thesis
      by (auto simp: pv_AssertWritable_def scope_Writable_def split: if_split_asm)
  qed
qed

lemma effect_step:
  assumes "scope_effect i f (change_at i f) v r v'" and "\<And>s. v i = Some s \<Longrightarrow> scope_kept s (f s)"
  shows "scopes_step force v v' \<and> (\<forall>e. r = Inl e \<longrightarrow> v' = v)"
proof (cases r)
  case (Inl e)
  with assms(1) show ?thesis by (auto simp: scope_effect_def intro: scopes_step.stay)
next
  case (Inr x)
  with assms(1) obtain s where "v i = Some s" "v' = v(i \<mapsto> f s)" by (auto simp: scope_effect_def change_at_def)
  with assms(2) Inr show ?thesis by (auto intro: scopes_step.change)
qed

text \<open>A service call that keeps the invariant, makes a step and changes nothing when it fails.\<close>

definition serves :: "bool \<Rightarrow> 'w \<Rightarrow> (go_err + scope) \<times> 'w \<Rightarrow> bool" where
  "serves force w out \<longleftrightarrow>
     good (snd out) \<and> scopes_step force (view w) (view (snd out)) \<and> (\<forall>e. fst out = Inl e \<longrightarrow> view (snd out) = view w)"

lemma serves_error [simp]: "good w \<Longrightarrow> serves force w (Inl e, w)"
  by (simp add: serves_def scopes_step.stay)

lemma serves_read: "good w' \<Longrightarrow> view w' = view w \<Longrightarrow> serves force w (r, w')"
  by (simp add: serves_def scopes_step.stay)

lemma serves_effect:
  assumes "good w' \<and> scope_effect i f (change_at i f) (view w) r (view w')" and "\<And>s. scope_kept s (f s)"
  shows "serves force w (r, w')"
  using assms effect_step [of i f "view w" r "view w'" force] by (simp add: serves_def)

lemma serves_create:
  assumes "good w" and "NewScope (pe_parse env) (pv_wall s w) p = Inr sc" and "sc_crew p = no_crew"
  shows "serves force w (ss_CreateScope store sc w)"
proof -
  obtain r w' where out: "ss_CreateScope store sc w = (r, w')" by fastforce
  have "scope_ok (pe_parse env) sc"
    by (rule NewScope_ok [OF assms(2) clock_runs(2) [OF assms(1)]]) (simp add: assms(3))
  moreover have "sc_crew sc = no_crew" using NewScope_Inr(2) [OF assms(2)] assms(3) by simp
  ultimately have "good w' \<and> create_effect env sc (view w) r (view w')"
    using create [OF assms(1) _ _ out] by blast
  moreover have "scopes_step force (view w) (view w')"
    if "r = Inr x" "view w (sc_id sc) = None" "view w' = (view w)(sc_id sc \<mapsto> x)" "sc_id x = sc_id sc" for x
    using scopes_step.create [of "view w" x force] that by simp
  ultimately show ?thesis
    unfolding out by (cases r) (auto simp: serves_def create_effect_def intro: scopes_step.stay)
qed

lemma create_project_serves: "good w \<Longrightarrow> serves force w (pv_CreateProject s r w)"
  by (auto simp: pv_CreateProject_def store_of parse_of split: sum.split intro: serves_create)

lemma create_space_serves: "good w \<Longrightarrow> serves force w (pv_CreateSpace s r w)"
  by (auto simp: pv_CreateSpace_def store_of parse_of Let_def split: sum.split intro: serves_create)

lemma update_project_serves:
  assumes "good w" shows "serves force w (pv_UpdateProject s i r w)"
proof -
  let ?repo = "scope_trimStringPointer (up_repository r)"
  define p where "p settings has = \<lparr>sp_name = scope_trimStringPointer (up_name r), sp_root = scope_trimStringPointer (up_root r),
    sp_repository = ?repo, sp_description = scope_trimStringPointer (up_description r),
    sp_owner = scope_trimStringPointer (up_owner r), sp_settings = settings, sp_has_settings = has\<rparr>" for settings has
  have "serves force w (ss_UpdateScope store (trim_space i) (p settings has) (pv_clock s w) w)"
    if "\<forall>n. up_name r = Some n \<longrightarrow> trim_space n \<noteq> []" "\<forall>u. ?repo = Some u \<longrightarrow> validRepositoryURL (pe_parse env) u" for settings has
  proof -
    obtain x w' where out: "ss_UpdateScope store (trim_space i) (p settings has) (pv_clock s w) w = (x, w')" by fastforce
    have "scope_patch_ok (pe_parse env) (p settings has)"
      using that by (auto simp: scope_patch_ok_def p_def scope_trimStringPointer_def)
    note this clock_runs(1) [OF assms] out
    from update [OF assms this] show ?thesis unfolding out by (rule serves_effect) (simp add: scope_kept_def)
  qed
  with assms show ?thesis
    unfolding pv_UpdateProject_def Let_def p_def store_of parse_of
    by (auto split: option.splits sum.splits)
qed

lemma update_visibility_serves:
  assumes "good w" shows "serves force w (pv_UpdateVisibility s i vis w)"
proof -
  have "serves force w (ss_UpdateVisibility store j v (pv_clock s w) w)" if "validVisibility v" for j v
  proof -
    obtain x w' where out: "ss_UpdateVisibility store j v (pv_clock s w) w = (x, w')" by fastforce
    from visibility [OF assms that clock_runs(1) [OF assms] out] show ?thesis
      unfolding out by (rule serves_effect) (simp add: scope_kept_def)
  qed
  with assms show ?thesis by (simp add: pv_UpdateVisibility_def Let_def store_of)
qed

lemma delete_serves:
  assumes "good w" shows "serves force w (pv_DeleteSpace s i force w)"
proof -
  obtain g w1 where 1: "pv_GetScope s i w = (g, w1)" by fastforce
  note G = get_scope [OF assms 1]
  show ?thesis
  proof (cases g)
    case (Inl e)
    with 1 G(1,2) show ?thesis by (simp add: pv_DeleteSpace_def serves_read)
  next
    case (Inr sc)
    note v = G(3) [OF Inr]
    with conforms [OF assms] have i: "view w (sc_id sc) = Some sc" by (auto simp: scopes_ok_def)
    obtain x w' where out: "ss_DeleteScope store (sc_id sc) w1 = (x, w')" by fastforce
    note D = delete [OF G(1) out]
    show ?thesis
    proof (cases "ProtectedFromDelete sc \<and> \<not> force")
      case True
      with 1 Inr G(1,2) show ?thesis by (simp add: pv_DeleteSpace_def serves_read)
    next
      case False
      with 1 Inr out have "pv_DeleteSpace s i force w = (x, w')" by (auto simp: pv_DeleteSpace_def store_of)
      moreover have "scopes_step force (view w) ((view w)(sc_id sc := None))"
        using i False by (intro scopes_step.remove) auto
      ultimately show ?thesis using D G(2)
        by (cases x) (auto simp: serves_def scope_effect_def intro: scopes_step.stay)
    qed
  qed
qed

lemma crew_serves:
  assumes "good w"
  shows "\<exists>r w'. pv_UpdateCrewNotify s i req w = Some (r, w') \<and> good w' \<and>
    (case r of
       Inl e \<Rightarrow> view w' = view w
     | Inr s' \<Rightarrow> (\<exists>sc crew. view w (trim_space i) = Some sc \<and> crew_apply req (sc_crew sc) = Inr crew \<and>
         s' = sc\<lparr>sc_crew := crew, sc_updated := pv_clock s w\<rparr> \<and> view w' = (view w)(trim_space i \<mapsto> s')))"
proof (cases "trim_space i = [] \<or> (\<exists>e. crew_apply req no_crew = Inl e)")
  case True
  with assms show ?thesis by (auto simp: pv_UpdateCrewNotify_def Let_def)
next
  case False
  then obtain n where n: "crew_apply req no_crew = Inr n" by (cases "crew_apply req no_crew") auto
  have "\<forall>c n. crew_ok c \<longrightarrow> crew_edit_of req c = Inr n \<longrightarrow> crew_ok n"
    by (auto simp: crew_edit_of_def split: sum.split_asm dest: crew_apply_ok)
  from crew [where edit = "crew_edit_of req" and i = "trim_space i", OF assms this clock_runs(1) [OF assms]] obtain r w'
    where 1: "ss_UpdateCrewNotify store (trim_space i) (crew_edit_of req) (pv_clock s w) w = Some (r, w')" "good w'"
      "crew_effect (trim_space i) (crew_edit_of req) (pv_clock s w) (view w) r (view w')" by blast
  with False n have "pv_UpdateCrewNotify s i req w = Some (r, w')"
    by (simp add: pv_UpdateCrewNotify_def Let_def store_of)
  moreover have "crew_apply req c = Inr n" if "crew_edit_of req c = Inr n" for c n
    using that by (auto simp: crew_edit_of_def split: sum.split_asm)
  ultimately show ?thesis using 1(2,3) by (auto simp: crew_effect_def split: sum.split_asm)
qed

lemma crew_request_serves:
  assumes "good w"
  obtains out where "pv_UpdateCrewNotify s i req w = Some out" "serves force w out"
proof -
  from crew_serves [OF assms, of i req] obtain r w' where 1: "pv_UpdateCrewNotify s i req w = Some (r, w')" "good w'"
    "case r of Inl e \<Rightarrow> view w' = view w
     | Inr s' \<Rightarrow> (\<exists>sc crew. view w (trim_space i) = Some sc \<and> crew_apply req (sc_crew sc) = Inr crew \<and>
         s' = sc\<lparr>sc_crew := crew, sc_updated := pv_clock s w\<rparr> \<and> view w' = (view w)(trim_space i \<mapsto> s'))" by blast
  have "scopes_step force (view w) (view w')"
  proof (cases r)
    case (Inl e)
    with 1(3) show ?thesis by (simp add: scopes_step.stay)
  next
    case (Inr s')
    with 1(3) obtain sc where "view w (trim_space i) = Some sc" "scope_kept sc s'" "view w' = (view w)(trim_space i \<mapsto> s')"
      by (auto simp: scope_kept_def)
    then show ?thesis by (auto intro: scopes_step.change)
  qed
  with 1 have "serves force w (r, w')" by (auto simp: serves_def split: sum.split_asm)
  with 1(1) show thesis by (rule that)
qed

lemma serves_outcome:
  "serves force w out \<Longrightarrow> scope_outcome out = (e, w') \<Longrightarrow>
     good w' \<and> scopes_step force (view w) (view w') \<and> (e \<noteq> None \<longrightarrow> view w' = view w)"
  by (auto simp: serves_def scope_outcome_def split: sum.split_asm)

text \<open>Every request returns, keeps the invariant, and makes one step, which is none when it fails.\<close>

lemma serve_step:
  assumes "good w"
  shows "\<exists>e w'. project_serve s q w = Some (e, w') \<and> good w' \<and> scopes_step (forced q) (view w) (view w') \<and>
    (e \<noteq> None \<longrightarrow> view w' = view w)"
proof -
  have direct: "\<exists>out. scope_outcome x = scope_outcome out \<and> serves force w out"
    if "serves force w x" for force and x :: "(go_err + scope) \<times> 'w"
    using that by (intro exI [of _ x]) simp
  have "\<exists>out. project_serve s q w = Some (scope_outcome out) \<and> serves (forced q) w out"
  proof (cases q)
    case (UpdateCrewNotifyRequest i r)
    obtain out where "pv_UpdateCrewNotify s i r w = Some out" "serves (forced q) w out"
      by (rule crew_request_serves [OF assms])
    with UpdateCrewNotifyRequest show ?thesis by (intro exI [of _ out]) (simp add: project_serve_def)
  next
    case (AssertWritableRequest i allow)
    obtain r w' where a: "pv_AssertWritable s i allow w = (r, w')" by fastforce
    with assert_writable [OF assms a] have "serves (forced q) w (pv_AssertWritable s i allow w)"
      by (simp add: serves_read)
    then show ?thesis unfolding AssertWritableRequest project_serve_def project_request.case
      by (intro exI conjI) (rule refl)
  qed (simp_all del: split_paired_Ex add: project_serve_def forced_def direct assms create_project_serves create_space_serves
      update_project_serves update_visibility_serves delete_serves)
  then obtain out where out: "project_serve s q w = Some (scope_outcome out)" "serves (forced q) w out" by blast
  obtain e w' where "scope_outcome out = (e, w')" by fastforce
  with out serves_outcome [OF out(2) this] show ?thesis by auto
qed

end

end
