(* ===== verification/Projects_System.thy ===== *)
theory Projects_System
  imports Projects_Client
begin

text \<open>
  The table of scopes: its invariant and the scopes it holds, the proof that the statements keep the
  contract of the store under every schedule of driver failures, and the states that requests reach.
\<close>

section \<open>Rows and scopes\<close>

definition scope_of_row :: "scope_row \<Rightarrow> scope" where
  "scope_of_row r =
     \<lparr>sc_id = sw_id r, sc_name = sw_name r, sc_kind = sw_kind r, sc_visibility = sw_visibility r,
      sc_owner = scope_nilToString (sw_owner r), sc_root = scope_nilToString (sw_root r),
      sc_repository = scope_nilToString (sw_repository r), sc_description = scope_nilToString (sw_description r),
      sc_settings = scope_nilToString (sw_settings r),
      sc_crew = (case sw_crew r of Some (Inr c) \<Rightarrow> c | _ \<Rightarrow> no_crew),
      sc_created = sw_created r, sc_updated = sw_updated r\<rparr>"

definition row_ok :: "repo_parser \<Rightarrow> scope_row \<Rightarrow> bool" where
  "row_ok parse r \<longleftrightarrow> scope_ok parse (scope_of_row r) \<and> (\<forall>e. sw_crew r \<noteq> Some (Inl e))"

lemma scope_scan_ok: "row_ok (pe_parse env) r \<Longrightarrow> scanScope env wall r = Inr (scope_of_row r)"
  unfolding row_ok_def scanScope_def decodeCrewNotify_def
  by (auto simp: scope_of_row_def dest: NewScope_id split: option.splits sum.splits)

lemma nil_clearable [simp]: "scope_nilToString (clearable p old) = (case p of None \<Rightarrow> scope_nilToString old | Some v \<Rightarrow> v)"
  by (simp add: clearable_def scope_nilToString_def split: option.split)

lemma scope_nil_empty [simp]: "scope_nilToString (scope_emptyToNil s) = s"
  by (simp add: scope_nilToString_def scope_emptyToNil_def)

lemma nil_jsonb [simp]:
  "jsonb_column env (scope_jsonOrNil s) = Some c \<Longrightarrow> scope_nilToString c = stored_settings env s"
  by (auto simp: jsonb_column_def scope_jsonOrNil_def scope_nilToString_def stored_settings_def split: if_splits option.splits)

lemma crew_column [simp]: "(case encodeCrewNotify c of Some (Inr c) \<Rightarrow> c | _ \<Rightarrow> no_crew) = c"
  by (auto simp: encodeCrewNotify_def crew_IsEmpty_def no_crew_def)

lemma crew_column_ok [simp]: "encodeCrewNotify c \<noteq> Some (Inl e)"
  by (simp add: encodeCrewNotify_def)

section \<open>The table\<close>

definition scopes_of :: "project_tables \<Rightarrow> scopes" where
  "scopes_of d i = map_option scope_of_row (row_lookup sw_id i (pj_rows d))"

definition projects_inv :: "project_env \<Rightarrow> project_tables \<Rightarrow> bool" where
  "projects_inv env d \<longleftrightarrow> distinct (map sw_id (pj_rows d)) \<and> (\<forall>r\<in>set (pj_rows d). row_ok (pe_parse env) r) \<and>
     \<not> is_zero_time (pj_now d) \<and> \<not> is_zero_time (pj_wall d)"

lemma scopes_of_lookup: "scopes_of d i = None \<longleftrightarrow> row_lookup sw_id i (pj_rows d) = None"
  by (simp add: scopes_of_def)

lemma scopes_conform: "projects_inv env d \<Longrightarrow> scopes_ok (pe_parse env) (scopes_of d)"
  by (auto simp: scopes_ok_def scopes_of_def projects_inv_def row_ok_def scope_of_row_def dest!: row_lookup_Some)

text \<open>An update of the row \<open>i\<close> that keeps ids, as a change of the scope \<open>i\<close>.\<close>

lemma update_row_effect:
  assumes inv: "projects_inv env d" and "update_scope_row i f d = Some (found, d')"
    and keep: "\<And>r. sw_id (f r) = sw_id r" and ok: "\<And>r. row_ok (pe_parse env) r \<Longrightarrow> row_ok (pe_parse env) (f r)"
    and abs: "\<And>r. scope_of_row (f r) = g (scope_of_row r)"
  shows "projects_inv env d'" and "scopes_of d' = change_at i g (scopes_of d)"
    and "map_option scope_of_row found = map_option g (scopes_of d i)" and "\<And>r. found = Some r \<Longrightarrow> row_ok (pe_parse env) r"
proof -
  have d': "d' = d\<lparr>pj_rows := update_where (\<lambda>r. sw_id r = i) f (pj_rows d)\<rparr>"
    and found: "found = map_option f (row_lookup sw_id i (pj_rows d))"
    using assms(2) by (simp_all add: update_scope_row_def)
  show "projects_inv env d'"
    using inv ok map_update_where [of sw_id f, OF keep, of "\<lambda>r. sw_id r = i" "pj_rows d"]
    by (auto simp: projects_inv_def d' dest!: set_update_where)
  have "scopes_of d' k = change_at i g (scopes_of d) k" for k
    unfolding scopes_of_def d' change_at_def
    by (cases "row_lookup sw_id k (pj_rows d)")
      (auto simp: row_lookup_update_where [of sw_id f, OF keep] abs dest: row_lookup_Some)
  then show "scopes_of d' = change_at i g (scopes_of d)" by (rule ext)
  show "map_option scope_of_row found = map_option g (scopes_of d i)"
    by (cases "row_lookup sw_id i (pj_rows d)") (simp_all add: found scopes_of_def abs)
  show "row_ok (pe_parse env) r" if "found = Some r" for r
  proof -
    from that found obtain r0 where r0: "row_lookup sw_id i (pj_rows d) = Some r0" "r = f r0" by auto
    then have "r0 \<in> set (pj_rows d)" by (auto dest: row_lookup_Some)
    with inv ok r0(2) show ?thesis by (auto simp: projects_inv_def)
  qed
qed

text \<open>A method that runs one statement with such an effect.\<close>

lemma one_scope_effect:
  assumes inv: "projects_inv env (pg_data db)" and out: "one_scope env what i q db = (r, db')"
    and effect: "\<And>found d'. q (pg_data db) = Some (found, d') \<Longrightarrow> projects_inv env d' \<and> scopes_of d' = g (scopes_of (pg_data db)) \<and>
      map_option scope_of_row found = map_option f (scopes_of (pg_data db) i) \<and> (\<forall>r. found = Some r \<longrightarrow> row_ok (pe_parse env) r)"
    and none: "scopes_of (pg_data db) i = None \<Longrightarrow> g (scopes_of (pg_data db)) = scopes_of (pg_data db)"
  shows "projects_inv env (pg_data db') \<and> scope_effect i f g (scopes_of (pg_data db)) r (scopes_of (pg_data db'))"
proof (cases q db rule: pg_call_cases)
  case (fail db1)
  with out inv show ?thesis by (auto simp: one_scope_def scope_effect_def)
next
  case (ok found db1)
  note E = effect [OF ok(2)]
  show ?thesis
  proof (cases found)
    case None
    with E have "scopes_of (pg_data db) i = None" by simp
    with out ok(1) None E none show ?thesis by (auto simp: one_scope_def scope_effect_def)
  next
    case (Some row)
    with E have row: "row_ok (pe_parse env) row" by blast
    from E Some have "map_option f (scopes_of (pg_data db) i) = Some (scope_of_row row)" by simp
    then obtain s where "scopes_of (pg_data db) i = Some s" "scope_of_row row = f s" by (auto simp: map_option_eq_Some)
    with out ok(1) Some E show ?thesis
      by (auto simp: one_scope_def scope_effect_def scan_or_wrap_def scope_scan_ok [OF row])
  qed
qed

section \<open>The methods\<close>

lemma store_get:
  assumes "projects_inv env (pg_data db)" and "store_GetScope env i db = (r, db')"
  shows "projects_inv env (pg_data db') \<and> scope_effect i id id (scopes_of (pg_data db)) r (scopes_of (pg_data db'))"
proof (rule one_scope_effect [OF assms(1) assms(2) [unfolded store_GetScope_def]])
  fix found d' assume "getScopeSQL i (pg_data db) = Some (found, d')"
  then have "d' = pg_data db" "found = row_lookup sw_id i (pj_rows (pg_data db))"
    unfolding getScopeSQL_def read_only_def by blast+
  with assms(1) show "projects_inv env d' \<and> scopes_of d' = id (scopes_of (pg_data db)) \<and>
      map_option scope_of_row found = map_option id (scopes_of (pg_data db) i) \<and> (\<forall>r. found = Some r \<longrightarrow> row_ok (pe_parse env) r)"
    by (auto simp: projects_inv_def scopes_of_def option.map_id dest: row_lookup_Some)
qed simp

lemma read_keeps: "pg_call (read_only f) db = (r, db') \<Longrightarrow> pg_data db' = pg_data db"
  using pg_call_read_only [of f db] by simp

lemma store_list: "store_ListScopes env q db = (rs, db') \<Longrightarrow> pg_data db' = pg_data db"
  unfolding store_ListScopes_def listScopesSQL_def
  by (auto split: prod.splits sum.splits dest!: read_keeps)

lemma store_create:
  assumes inv: "projects_inv env (pg_data db)" and "scope_ok (pe_parse env) s" and "sc_crew s = no_crew"
    and out: "store_CreateScope env s db = (r, db')"
  shows "projects_inv env (pg_data db') \<and> create_effect env s (scopes_of (pg_data db)) r (scopes_of (pg_data db'))"
proof (cases "createScopeSQL env s" db rule: pg_call_cases)
  case (fail db1)
  with out inv show ?thesis by (auto simp: store_CreateScope_def create_effect_def)
next
  case (ok found db1)
  obtain c where c: "jsonb_column env (scope_jsonOrNil (sc_settings s)) = Some c"
    using ok(2) by (auto simp: createScopeSQL_def split: option.splits)
  show ?thesis
  proof (cases "\<exists>r\<in>set (pj_rows (pg_data db)). sw_id r = sc_id s")
    case True
    with ok(2) c have "found = None" "pg_data db1 = pg_data db" by (auto simp: createScopeSQL_def split: if_split_asm)
    moreover have "scopes_of (pg_data db) (sc_id s) \<noteq> None" using True by (auto simp: scopes_of_lookup row_lookup_None intro: rev_image_eqI)
    ultimately show ?thesis using out ok(1) inv by (auto simp: store_CreateScope_def create_effect_def)
  next
    case False
    define row where "row = \<lparr>sw_id = sc_id s, sw_name = sc_name s, sw_kind = sc_kind s, sw_visibility = sc_visibility s,
      sw_owner = scope_emptyToNil (sc_owner s), sw_root = scope_emptyToNil (sc_root s),
      sw_repository = scope_emptyToNil (sc_repository s), sw_description = scope_emptyToNil (sc_description s),
      sw_settings = c, sw_crew = None, sw_created = sc_created s, sw_updated = sc_updated s\<rparr>"
    have found: "found = Some row" and d1: "pg_data db1 = (pg_data db)\<lparr>pj_rows := pj_rows (pg_data db) @ [row]\<rparr>"
      using ok(2) c False by (auto simp: createScopeSQL_def row_def Let_def)
    have sc: "scope_of_row row = s\<lparr>sc_settings := stored_settings env (sc_settings s)\<rparr>"
      using c assms(3) by (simp add: scope_of_row_def row_def)
    have row: "row_ok (pe_parse env) row" using assms(2) unfolding row_ok_def sc by (simp add: scope_ok_def row_def)
    have new: "row_lookup sw_id (sc_id s) (pj_rows (pg_data db)) = None" using False by (auto simp: row_lookup_None)
    have "scopes_of (pg_data db1) k = ((scopes_of (pg_data db))(sc_id s \<mapsto> scope_of_row row)) k" for k
      using new by (simp add: scopes_of_def d1 row_lookup_append row_def split: option.split)
    then have "scopes_of (pg_data db1) = (scopes_of (pg_data db))(sc_id s \<mapsto> scope_of_row row)" by (rule ext)
    moreover have "projects_inv env (pg_data db1)"
      using inv row False by (auto simp: projects_inv_def d1 row_def)
    moreover have "(r, db') = (Inr (scope_of_row row), db1)"
      using out ok(1) found by (simp add: store_CreateScope_def scan_or_wrap_def scope_scan_ok [OF row])
    ultimately show ?thesis using new by (simp add: create_effect_def sc scopes_of_lookup)
  qed
qed

lemma store_update:
  assumes inv: "projects_inv env (pg_data db)" and p: "scope_patch_ok (pe_parse env) p" "\<not> is_zero_time at"
    and out: "store_UpdateScope env i p at db = (r, db')"
  shows "projects_inv env (pg_data db') \<and> scope_effect i (scope_patched env p at) (change_at i (scope_patched env p at))
    (scopes_of (pg_data db)) r (scopes_of (pg_data db'))"
proof (rule one_scope_effect [OF inv out [unfolded store_UpdateScope_def]])
  fix found d' assume q: "updateScopeSQL env i p at (pg_data db) = Some (found, d')"
  then obtain c where c: "jsonb_column env (scope_jsonOrNil (sp_settings p)) = Some c"
    by (auto simp: updateScopeSQL_def split: option.splits)
  define f where "f r = r\<lparr>sw_name := (case sp_name p of None \<Rightarrow> sw_name r | Some n \<Rightarrow> n),
    sw_root := clearable (sp_root p) (sw_root r), sw_repository := clearable (sp_repository p) (sw_repository r),
    sw_description := clearable (sp_description p) (sw_description r), sw_owner := clearable (sp_owner p) (sw_owner r),
    sw_settings := (if sp_has_settings p then c else sw_settings r), sw_updated := at\<rparr>" for r :: scope_row
  have abs: "scope_of_row (f r) = scope_patched env p at (scope_of_row r)" for r
    using c by (simp add: scope_of_row_def f_def scope_patched_def split: option.split)
  have ok: "row_ok (pe_parse env) (f r)" if "row_ok (pe_parse env) r" for r
    using that scope_patched_ok [OF _ p] unfolding row_ok_def abs by (simp add: f_def)
  have "update_scope_row i f (pg_data db) = Some (found, d')" using q c by (simp add: updateScopeSQL_def f_def [abs_def])
  from update_row_effect [OF inv this _ ok abs]
  show "projects_inv env d' \<and> scopes_of d' = change_at i (scope_patched env p at) (scopes_of (pg_data db)) \<and>
      map_option scope_of_row found = map_option (scope_patched env p at) (scopes_of (pg_data db) i) \<and> (\<forall>r. found = Some r \<longrightarrow> row_ok (pe_parse env) r)"
    by (simp add: f_def)
qed (simp add: change_at_def fun_upd_idem)

lemma store_visibility:
  assumes inv: "projects_inv env (pg_data db)" and p: "validVisibility vis" "\<not> is_zero_time at"
    and out: "store_UpdateVisibility env i vis at db = (r, db')"
  shows "projects_inv env (pg_data db') \<and> scope_effect i (\<lambda>s. s\<lparr>sc_visibility := vis, sc_updated := at\<rparr>)
    (change_at i (\<lambda>s. s\<lparr>sc_visibility := vis, sc_updated := at\<rparr>)) (scopes_of (pg_data db)) r (scopes_of (pg_data db'))"
proof (rule one_scope_effect [OF inv out [unfolded store_UpdateVisibility_def]])
  let ?f = "\<lambda>r. r\<lparr>sw_visibility := vis, sw_updated := at\<rparr>" and ?g = "\<lambda>s. s\<lparr>sc_visibility := vis, sc_updated := at\<rparr>"
  fix found d' assume q: "updateVisibilitySQL i vis at (pg_data db) = Some (found, d')"
  have abs: "scope_of_row (?f r) = ?g (scope_of_row r)" for r by (simp add: scope_of_row_def)
  have ok: "row_ok (pe_parse env) (?f r)" if "row_ok (pe_parse env) r" for r
    using that p unfolding row_ok_def abs by (simp add: scope_ok_def)
  from update_row_effect [OF inv q [unfolded updateVisibilitySQL_def] _ ok abs]
  show "projects_inv env d' \<and> scopes_of d' = change_at i ?g (scopes_of (pg_data db)) \<and>
      map_option scope_of_row found = map_option ?g (scopes_of (pg_data db) i) \<and> (\<forall>r. found = Some r \<longrightarrow> row_ok (pe_parse env) r)"
    by simp
qed (simp add: change_at_def fun_upd_idem)

lemma store_delete:
  assumes inv: "projects_inv env (pg_data db)" and out: "store_DeleteScope env i db = (r, db')"
  shows "projects_inv env (pg_data db') \<and> scope_effect i id (\<lambda>v. v(i := None)) (scopes_of (pg_data db)) r (scopes_of (pg_data db'))"
proof (rule one_scope_effect [OF inv out [unfolded store_DeleteScope_def]])
  fix found d' assume q: "deleteScopeSQL i (pg_data db) = Some (found, d')"
  then have d': "d' = (pg_data db)\<lparr>pj_rows := filter (\<lambda>r. sw_id r \<noteq> i) (pj_rows (pg_data db))\<rparr>"
    and found: "found = row_lookup sw_id i (pj_rows (pg_data db))" by (simp_all add: deleteScopeSQL_def)
  have look: "row_lookup sw_id k (filter (\<lambda>r. sw_id r \<noteq> i) rs) = (if k = i then None else row_lookup sw_id k rs)" for k rs
    by (induction rs) auto
  have "scopes_of d' k = ((scopes_of (pg_data db))(i := None)) k" for k
    by (simp add: scopes_of_def d' look)
  then have "scopes_of d' = (scopes_of (pg_data db))(i := None)" by (rule ext)
  moreover have "projects_inv env d'" using inv by (auto simp: projects_inv_def d' distinct_map_filter)
  ultimately show "projects_inv env d' \<and> scopes_of d' = (scopes_of (pg_data db))(i := None) \<and>
      map_option scope_of_row found = map_option id (scopes_of (pg_data db) i) \<and> (\<forall>r. found = Some r \<longrightarrow> row_ok (pe_parse env) r)"
    using inv by (auto simp: found scopes_of_def option.map_id projects_inv_def dest: row_lookup_Some)
qed (simp add: fun_upd_idem)

text \<open>The transaction that edits the crew addresses of a scope.\<close>

definition crew_done :: "project_env \<Rightarrow> string \<Rightarrow> crew_edit \<Rightarrow> time \<Rightarrow> project_tables \<Rightarrow> scope \<Rightarrow> project_tables \<Rightarrow> bool" where
  "crew_done env i edit at d s' d' \<longleftrightarrow> projects_inv env d' \<and>
     (\<exists>s crew. scopes_of d i = Some s \<and> edit (sc_crew s) = Inr crew \<and> s' = s\<lparr>sc_crew := crew, sc_updated := at\<rparr>) \<and>
     scopes_of d' = (scopes_of d)(i \<mapsto> s')"

lemma crew_change:
  assumes inv: "projects_inv env d" and keeps: "\<forall>c n. crew_ok c \<longrightarrow> edit c = Inr n \<longrightarrow> crew_ok n"
    and at: "\<not> is_zero_time at" and raw: "map_option sw_crew (row_lookup sw_id i (pj_rows d)) = Some raw"
    and cur: "decodeCrewNotify raw = Inr c" and new: "edit c = Inr n"
    and q: "updateCrewNotifySQL i (encodeCrewNotify n) at d = Some (found, d1)"
  obtains row where "found = Some row" "row_ok (pe_parse env) row" "crew_done env i edit at d (scope_of_row row) d1"
proof -
  let ?f = "\<lambda>r. r\<lparr>sw_crew := encodeCrewNotify n, sw_updated := at\<rparr>" and ?g = "\<lambda>s. s\<lparr>sc_crew := n, sc_updated := at\<rparr>"
  from raw obtain r0 where r0: "row_lookup sw_id i (pj_rows d) = Some r0" "sw_crew r0 = raw" by auto
  with inv have ok0: "row_ok (pe_parse env) r0" by (auto simp: projects_inv_def dest: row_lookup_Some)
  have s: "scopes_of d i = Some (scope_of_row r0)" "sc_crew (scope_of_row r0) = c"
    using r0 cur by (auto simp: scopes_of_def scope_of_row_def decodeCrewNotify_def split: option.split_asm sum.split_asm)
  from ok0 s(2) have "crew_ok c" by (auto simp: row_ok_def scope_ok_def)
  with keeps new have n: "crew_ok n" by blast
  have abs: "scope_of_row (?f r) = ?g (scope_of_row r)" for r by (simp add: scope_of_row_def)
  have ok: "row_ok (pe_parse env) (?f r)" if "row_ok (pe_parse env) r" for r
    using that n at unfolding row_ok_def abs by (simp add: scope_ok_def)
  have keep: "sw_id (?f r) = sw_id r" for r by simp
  note U = update_row_effect [OF inv q [unfolded updateCrewNotifySQL_def] keep ok abs]
  have "map_option scope_of_row found = Some (?g (scope_of_row r0))" using U(3) s(1) by simp
  then obtain row where row: "found = Some row" "scope_of_row row = ?g (scope_of_row r0)" by auto
  have "crew_done env i edit at d (scope_of_row row) d1"
    using U(1,2) s new row(2) unfolding crew_done_def change_at_def by simp
  with row(1) U(4) [OF _ row(1)] show thesis by (intro that [of row]) simp_all
qed

lemma tx_stops_scope [simp]: "tx_stops (tx_scanScope env r)"
  by (simp add: tx_stops_def tx_scanScope_def tx_lift_def)

lemma tx_post_scope: "row_ok (pe_parse env) r \<Longrightarrow> Q (scope_of_row r) d \<Longrightarrow> tx_post d Q (tx_scanScope env r)"
  by (simp add: tx_post_def tx_scanScope_def tx_lift_def scope_scan_ok)

lemma crew_body:
  assumes inv: "projects_inv env d" and keeps: "\<forall>c n. crew_ok c \<longrightarrow> edit c = Inr n \<longrightarrow> crew_ok n"
    and at: "\<not> is_zero_time at"
  shows "tx_post d (\<lambda>(x, _) d'. crew_done env i edit at d x d') (update_crew_body env i edit at)"
  unfolding update_crew_body_def lockCrewNotifySQL_def
proof (intro tx_post_wrap_bind tx_post_read tx_post_option tx_post_fail)
  fix raw assume raw: "map_option sw_crew (row_lookup sw_id i (pj_rows d)) = Some raw"
  show "tx_post d (\<lambda>(x, _) d'. crew_done env i edit at d x d')
    (tx_bind (tx_lift (decodeCrewNotify raw)) (\<lambda>current.
         tx_bind (tx_lift (edit current)) (\<lambda>next.
         tx_bind (tx_wrap (''updating crew_notify of '' @ i @ '': '')
           (tx_bind (tx_call (updateCrewNotifySQL i (encodeCrewNotify next) at)) (\<lambda>row.
              case row of None \<Rightarrow> tx_fail ErrNoRows | Some r \<Rightarrow> tx_scanScope env r))) (\<lambda>s.
         tx_return (s, ''updating crew_notify of '' @ i @ '': '')))))"
  proof (rule tx_post_bind [where R = "\<lambda>c d'. decodeCrewNotify raw = Inr c \<and> d' = d"])
    fix c d1 assume c: "decodeCrewNotify raw = Inr c \<and> d1 = d"
    have update: "tx_post d (crew_done env i edit at d) (tx_wrap ctx
           (tx_bind (tx_call (updateCrewNotifySQL i (encodeCrewNotify n) at)) (\<lambda>row.
              case row of None \<Rightarrow> tx_fail ErrNoRows | Some r \<Rightarrow> tx_scanScope env r)))" if n: "edit c = Inr n" for n ctx
    proof (intro tx_post_wrap tx_post_call_bind)
      fix found d2 assume q: "updateCrewNotifySQL i (encodeCrewNotify n) at d = Some (found, d2)"
      obtain row where "found = Some row" "row_ok (pe_parse env) row" "crew_done env i edit at d (scope_of_row row) d2"
        by (rule crew_change [OF inv keeps at raw _ n q]) (use c in simp)
      then show "tx_post d2 (crew_done env i edit at d) (case found of None \<Rightarrow> tx_fail ErrNoRows | Some r \<Rightarrow> tx_scanScope env r)"
        by (simp add: tx_post_scope)
    qed simp
    show "tx_post d1 (\<lambda>(x, _) d'. crew_done env i edit at d x d')
      (tx_bind (tx_lift (edit c)) (\<lambda>next.
         tx_bind (tx_wrap (''updating crew_notify of '' @ i @ '': '')
           (tx_bind (tx_call (updateCrewNotifySQL i (encodeCrewNotify next) at)) (\<lambda>row.
              case row of None \<Rightarrow> tx_fail ErrNoRows | Some r \<Rightarrow> tx_scanScope env r))) (\<lambda>s.
         tx_return (s, ''updating crew_notify of '' @ i @ '': ''))))"
    proof (rule tx_post_bind [where R = "\<lambda>n d'. edit c = Inr n \<and> d' = d"])
      show "tx_post d1 (\<lambda>n d'. edit c = Inr n \<and> d' = d) (tx_lift (edit c))" using c by (simp add: tx_post_lift)
    next
      fix n d2 assume "edit c = Inr n \<and> d2 = d"
      with update show "tx_post d2 (\<lambda>(x, _) d'. crew_done env i edit at d x d')
        (tx_bind (tx_wrap (''updating crew_notify of '' @ i @ '': '')
           (tx_bind (tx_call (updateCrewNotifySQL i (encodeCrewNotify n) at)) (\<lambda>row.
              case row of None \<Rightarrow> tx_fail ErrNoRows | Some r \<Rightarrow> tx_scanScope env r))) (\<lambda>s.
         tx_return (s, ''updating crew_notify of '' @ i @ '': '')))"
        by (intro tx_post_bind [where R = "crew_done env i edit at d"]) (auto intro: tx_post_return)
    qed simp
  qed (simp_all add: tx_post_lift)
qed simp_all

lemma store_crew:
  assumes "projects_inv env (pg_data db)" and "\<forall>c n. crew_ok c \<longrightarrow> edit c = Inr n \<longrightarrow> crew_ok n" and "\<not> is_zero_time at"
  shows "\<exists>r db'. store_UpdateCrewNotify env i edit at db = Some (r, db') \<and> projects_inv env (pg_data db') \<and>
    crew_effect i edit at (scopes_of (pg_data db)) r (scopes_of (pg_data db'))"
proof -
  obtain r db' where 1: "store_UpdateCrewNotify env i edit at db = Some (r, db')"
    "\<And>e. r = Inl e \<Longrightarrow> pg_data db' = pg_data db" "\<And>x. r = Inr x \<Longrightarrow> crew_done env i edit at (pg_data db) x (pg_data db')"
    unfolding store_UpdateCrewNotify_def by (rule run_tx_post [OF crew_body [OF assms]]) blast
  with assms(1) show ?thesis by (cases r) (auto simp: crew_done_def crew_effect_def)
qed

section \<open>The whole service\<close>

definition projects_good :: "project_env \<Rightarrow> project_tables pg \<Rightarrow> bool" where
  "projects_good env db \<longleftrightarrow> projects_inv env (pg_data db)"

definition projects_view :: "project_tables pg \<Rightarrow> scopes" where
  "projects_view db = scopes_of (pg_data db)"

interpretation pg_scopes: scope_store_laws "pg_scope_store env" env "projects_good env" projects_view for env
  by unfold_locales
    (simp_all only: projects_good_def projects_view_def pg_scope_store_def scope_store.simps,
     ((rule scopes_conform store_get store_create store_update store_visibility store_delete store_crew; assumption)
      | simp add: store_list)+)

interpretation pg_projects: scope_service_laws "pg_scope_store env" env "projects_good env" projects_view "pg_scope_service env" for env
  by unfold_locales (simp_all add: pg_scope_service_def projects_good_def projects_inv_def)

definition empty_project_tables :: "nat \<Rightarrow> project_tables" where
  "empty_project_tables n = \<lparr>pj_rows = [], pj_now = 1 + int n, pj_wall = 1 + int n\<rparr>"

text \<open>Requests one after the other, and between them time passes and the driver's fortune changes.\<close>

inductive projects_reach :: "project_env \<Rightarrow> project_tables pg \<Rightarrow> bool" for env where
  start: "projects_reach env \<lparr>pg_data = empty_project_tables n, pg_faults = fs\<rparr>"
| serve: "projects_reach env db \<Longrightarrow> project_serve (pg_scope_service env) q db = Some (e, db') \<Longrightarrow> projects_reach env db'"
| pass: "projects_reach env db \<Longrightarrow>
    projects_reach env (db\<lparr>pg_data := (pg_data db)\<lparr>pj_now := 1 + int m, pj_wall := 1 + int n\<rparr>, pg_faults := fs\<rparr>)"

lemma projects_serve_step:
  assumes "projects_good env db" and "project_serve (pg_scope_service env) q db = Some (e, db')"
  shows "projects_good env db'" "scopes_step (forced q) (projects_view db) (projects_view db')"
    "e \<noteq> None \<Longrightarrow> projects_view db' = projects_view db"
  using pg_projects.serve_step [OF assms(1), of q] assms(2) by auto

lemma projects_reach_good: "projects_reach env db \<Longrightarrow> projects_good env db"
proof (induction rule: projects_reach.induct)
  case (serve db q e db')
  then show ?case by (blast dest: projects_serve_step)
qed (auto simp: projects_good_def projects_inv_def empty_project_tables_def is_zero_time_def)

end
