(* ===== verification/Tasks_Types.thy ===== *)
theory Tasks_Types
  imports Shared_Api
begin

text \<open>
  The tasks service's data (\<open>tasks/internal/types.go\<close>, the requests of \<open>dto.go\<close> and the patch of
  \<open>service.go\<close>): statuses, errors, tasks with their validation, and how a request becomes a patch.
\<close>

section \<open>Statuses and errors\<close>

definition StatusBacklog :: string where "StatusBacklog = ''backlog''"
definition StatusPlanned :: string where "StatusPlanned = ''planned''"
definition StatusInProgress :: string where "StatusInProgress = ''in_progress''"
definition StatusReview :: string where "StatusReview = ''review''"
definition StatusBlocked :: string where "StatusBlocked = ''blocked''"
definition StatusDone :: string where "StatusDone = ''done''"
definition StatusCancelled :: string where "StatusCancelled = ''cancelled''"

lemmas status_defs =
  StatusBacklog_def StatusPlanned_def StatusInProgress_def StatusReview_def StatusBlocked_def
  StatusDone_def StatusCancelled_def

definition TaskTransitionApplied :: string where "TaskTransitionApplied = ''transitioned''"
definition TaskTransitionAlreadySatisfied :: string where "TaskTransitionAlreadySatisfied = ''already_review''"
definition AvailabilityAvailable :: string where "AvailabilityAvailable = ''available''"
definition AvailabilityWaitingOnDependencies :: string where
  "AvailabilityWaitingOnDependencies = ''waiting_on_dependencies''"

definition ErrTaskNotFound :: go_err where "ErrTaskNotFound = Sentinel ''tasks'' ''task not found''"
definition ErrInvalidTask :: go_err where "ErrInvalidTask = Sentinel ''tasks'' ''invalid task''"
definition ErrTaskMissingProject :: go_err where "ErrTaskMissingProject = Sentinel ''tasks'' ''project_id is required''"
definition ErrTaskMissingTitle :: go_err where "ErrTaskMissingTitle = Sentinel ''tasks'' ''title is required''"
definition ErrInvalidStatus :: go_err where "ErrInvalidStatus = Sentinel ''tasks'' ''invalid status''"
definition ErrInvalidPriority :: go_err where "ErrInvalidPriority = Sentinel ''tasks'' ''priority must be 1 through 5''"
definition ErrMissingAgent :: go_err where "ErrMissingAgent = Sentinel ''tasks'' ''agent is required''"
definition ErrEmptyPatch :: go_err where "ErrEmptyPatch = Sentinel ''tasks'' ''patch has no mutable fields''"
definition ErrBlockedContextMissing :: go_err where
  "ErrBlockedContextMissing = Sentinel ''tasks'' ''blocked transition requires blocker_summary and blocker_reason''"
definition ErrParentProjectMismatch :: go_err where
  "ErrParentProjectMismatch = Sentinel ''tasks'' ''parent task must be in the same project''"
definition ErrDependencyCycle :: go_err where
  "ErrDependencyCycle = Sentinel ''tasks'' ''dependency would create a cycle''"
definition ErrParentCycle :: go_err where
  "ErrParentCycle = Sentinel ''tasks'' ''parent relationship would create a cycle''"
definition ErrReviewTransitionState :: go_err where
  "ErrReviewTransitionState = Sentinel ''tasks'' ''task must currently be in_progress or review''"

definition tasks_badRequest :: "go_err \<Rightarrow> go_err" where
  "tasks_badRequest e = ServiceErr e ''bad_request'' 400"

definition tasks_invalid :: "go_err \<Rightarrow> go_err" where
  "tasks_invalid e = ServiceErr e ''validation_failed'' 400"

definition taskNotFound :: "int \<Rightarrow> go_err" where
  "taskNotFound i = ServiceErr (Wrapped [] ErrTaskNotFound ('': '' @ show_int i)) ''task_not_found'' 404"

definition tasks_conflict :: "go_err \<Rightarrow> string \<Rightarrow> go_err" where
  "tasks_conflict e code = ServiceErr e code 409"

lemmas tasks_err_defs =
  tasks_badRequest_def tasks_invalid_def taskNotFound_def tasks_conflict_def

definition defaultStatus :: "string \<Rightarrow> string" where
  "defaultStatus status = (let s = trim_space status in if s = [] then StatusPlanned else s)"

definition validStatus :: "string \<Rightarrow> bool" where
  "validStatus s \<longleftrightarrow> s = StatusBacklog \<or> s = StatusPlanned \<or> s = StatusInProgress \<or> s = StatusReview \<or>
     s = StatusBlocked \<or> s = StatusDone \<or> s = StatusCancelled"

definition terminalStatus :: "string \<Rightarrow> bool" where
  "terminalStatus s \<longleftrightarrow> s = StatusDone \<or> s = StatusCancelled"

definition dependencySatisfiedStatus :: "string \<Rightarrow> bool" where
  "dependencySatisfiedStatus s \<longleftrightarrow> s = StatusReview \<or> terminalStatus s"

definition availability :: "string \<Rightarrow> int \<Rightarrow> string" where
  "availability status unfinished =
     (if status = StatusPlanned then
        (if unfinished > 0 then AvailabilityWaitingOnDependencies else AvailabilityAvailable)
      else status)"

section \<open>Tags\<close>

text \<open>The loop of \<open>normalizeTags\<close>; \<open>seen\<close> holds the tags kept so far.\<close>

fun normalize_tags_loop :: "string list \<Rightarrow> string list \<Rightarrow> string list" where
  "normalize_tags_loop seen [] = seen"
| "normalize_tags_loop seen (tag # tags) =
     (let tag = trim_space tag
      in if tag = [] \<or> tag \<in> set seen then normalize_tags_loop seen tags
         else normalize_tags_loop (seen @ [tag]) tags)"

definition normalizeTags :: "string list \<Rightarrow> string list" where
  "normalizeTags tags = normalize_tags_loop [] tags"

section \<open>Tasks\<close>

record task =
  ta_id :: int
  ta_project :: string
  ta_parent :: "int option"
  ta_title :: string
  ta_description :: string
  ta_status :: string
  ta_priority :: int
  ta_assigned :: string
  ta_tags :: "string list"
  ta_summary :: string
  ta_reason :: string
  ta_remedies :: string
  ta_next_step :: string
  ta_human :: bool
  ta_created :: time
  ta_updated :: time

text \<open>\<open>NewTaskParams\<close> has the fields of a task; \<open>wall\<close> is what \<open>time.Now\<close> answers.\<close>

definition default_priority :: "int \<Rightarrow> int" where
  "default_priority n = (if n = 0 then 3 else n)"

definition default_time :: "time \<Rightarrow> time \<Rightarrow> time" where
  "default_time t d = (if is_zero_time t then d else t)"

definition NewTask :: "time \<Rightarrow> task \<Rightarrow> go_err + task" where
  "NewTask wall p =
     (let project = trim_space (ta_project p) in
      if project = [] then Inl ErrTaskMissingProject
      else
      let title = trim_space (ta_title p) in
      if title = [] then Inl ErrTaskMissingTitle
      else
      let status = defaultStatus (ta_status p) in
      if \<not> validStatus status then Inl (Wrapped [] ErrInvalidStatus ('': '' @ status))
      else
      let priority = default_priority (ta_priority p) in
      if priority < 1 \<or> priority > 5 then Inl ErrInvalidPriority
      else
      let created = default_time (ta_created p) wall;
          updated = default_time (ta_updated p) created
      in Inr (p\<lparr>ta_project := project, ta_title := title, ta_description := trim_space (ta_description p),
           ta_status := status, ta_priority := priority, ta_assigned := trim_space (ta_assigned p),
           ta_tags := normalizeTags (ta_tags p), ta_summary := trim_space (ta_summary p),
           ta_reason := trim_space (ta_reason p), ta_remedies := trim_space (ta_remedies p),
           ta_next_step := trim_space (ta_next_step p), ta_created := created, ta_updated := updated\<rparr>))"

record dependency_info =
  dn_task :: int
  dn_project :: string
  dn_title :: string
  dn_status :: string

record task_summary =
  su_task :: task
  su_deps :: int
  su_unfinished :: int
  su_subtasks :: int

definition summary_availability :: "task_summary \<Rightarrow> string" where
  "summary_availability s = availability (ta_status (su_task s)) (su_unfinished s)"

record task_history =
  hi_id :: int
  hi_task :: int
  hi_field :: string
  hi_old :: string
  hi_new :: string
  hi_by :: string
  hi_at :: time

record task_change =
  ev_id :: int
  ev_kind :: string
  ev_at :: time
  ev_summary :: task_summary

section \<open>Requests and patches\<close>

record create_task_request =
  ct_title :: string
  ct_description :: string
  ct_priority :: int
  ct_tags :: "string list"
  ct_assigned :: string
  ct_depends :: "int list"
  ct_parent :: "int option"

text \<open>A pointer or a slice that may be nil is an option.\<close>

record update_task_request =
  ut_agent :: string
  ut_title :: "string option"
  ut_description :: "string option"
  ut_status :: "string option"
  ut_priority :: "int option"
  ut_assigned :: "string option"
  ut_tags :: "string list option"
  ut_parent :: "int option"
  ut_clear_parent :: bool
  ut_summary :: "string option"
  ut_reason :: "string option"
  ut_remedies :: "string option"
  ut_next_step :: "string option"
  ut_human :: "bool option"

definition HasChanges :: "update_task_request \<Rightarrow> bool" where
  "HasChanges r \<longleftrightarrow> ut_title r \<noteq> None \<or> ut_description r \<noteq> None \<or> ut_status r \<noteq> None \<or> ut_priority r \<noteq> None \<or>
     ut_assigned r \<noteq> None \<or> ut_tags r \<noteq> None \<or> ut_parent r \<noteq> None \<or> ut_clear_parent r \<or>
     ut_summary r \<noteq> None \<or> ut_reason r \<noteq> None \<or> ut_remedies r \<noteq> None \<or> ut_next_step r \<noteq> None \<or> ut_human r \<noteq> None"

record task_patch =
  pa_title :: "string option"
  pa_description :: "string option"
  pa_status :: "string option"
  pa_priority :: "int option"
  pa_assigned :: "string option"
  pa_tags :: "string list"
  pa_has_tags :: bool
  pa_parent :: "int option"
  pa_has_parent :: bool
  pa_summary :: "string option"
  pa_reason :: "string option"
  pa_remedies :: "string option"
  pa_next_step :: "string option"
  pa_human :: "bool option"

definition empty_patch :: task_patch where
  "empty_patch = \<lparr>pa_title = None, pa_description = None, pa_status = None, pa_priority = None,
     pa_assigned = None, pa_tags = [], pa_has_tags = False, pa_parent = None, pa_has_parent = False,
     pa_summary = None, pa_reason = None, pa_remedies = None, pa_next_step = None, pa_human = None\<rparr>"

text \<open>What leaving the blocked status does to the patch (also in \<open>completeTaskTx\<close>).\<close>

definition clear_blockers :: "task_patch \<Rightarrow> task_patch" where
  "clear_blockers p = p\<lparr>pa_summary := Some [], pa_reason := Some [], pa_remedies := Some [],
     pa_next_step := Some [], pa_human := Some False\<rparr>"

definition trimStringPointer :: "string option \<Rightarrow> string option" where
  "trimStringPointer v = map_option trim_space v"

definition blank_option :: "string option \<Rightarrow> bool" where
  "blank_option v = (case v of None \<Rightarrow> True | Some s \<Rightarrow> s = [])"

definition request_patch :: "update_task_request \<Rightarrow> task_patch" where
  "request_patch r =
     \<lparr>pa_title = trimStringPointer (ut_title r), pa_description = trimStringPointer (ut_description r),
      pa_status = None, pa_priority = ut_priority r, pa_assigned = trimStringPointer (ut_assigned r),
      pa_tags = normalizeTags (case ut_tags r of None \<Rightarrow> [] | Some ts \<Rightarrow> ts), pa_has_tags = (ut_tags r \<noteq> None),
      pa_parent = ut_parent r, pa_has_parent = (ut_parent r \<noteq> None \<or> ut_clear_parent r),
      pa_summary = trimStringPointer (ut_summary r), pa_reason = trimStringPointer (ut_reason r),
      pa_remedies = trimStringPointer (ut_remedies r), pa_next_step = trimStringPointer (ut_next_step r),
      pa_human = ut_human r\<rparr>"

text \<open>The status part of \<open>buildPatch\<close>, then its checks of the title and the priority.\<close>

definition patch_status :: "task \<Rightarrow> string option \<Rightarrow> task_patch \<Rightarrow> go_err + task_patch" where
  "patch_status current status patch =
     (case status of
        None \<Rightarrow> Inr patch
      | Some raw \<Rightarrow>
          let status = trim_space raw in
          if \<not> validStatus status then Inl (Wrapped [] ErrInvalidStatus ('': '' @ status))
          else
          let patch = patch\<lparr>pa_status := Some status\<rparr> in
          if status = StatusBlocked \<and> ta_status current \<noteq> StatusBlocked \<and>
             (blank_option (pa_summary patch) \<or> blank_option (pa_reason patch))
          then Inl ErrBlockedContextMissing
          else if status \<noteq> StatusBlocked \<and> ta_status current = StatusBlocked
          then Inr (clear_blockers patch)
          else Inr patch)"

definition buildPatch :: "task \<Rightarrow> update_task_request \<Rightarrow> go_err + task_patch" where
  "buildPatch current r =
     (case patch_status current (ut_status r) (request_patch r) of
        Inl e \<Rightarrow> Inl e
      | Inr patch \<Rightarrow>
          if pa_title patch = Some [] then Inl ErrTaskMissingTitle
          else if (case pa_priority patch of None \<Rightarrow> False | Some p \<Rightarrow> p < 1 \<or> p > 5) then Inl ErrInvalidPriority
          else Inr (if ut_clear_parent r then patch\<lparr>pa_parent := None\<rparr> else patch))"

record list_tasks_query =
  lq_project :: string
  lq_statuses :: "string list"
  lq_assigned :: string
  lq_tags :: "string list"
  lq_max_priority :: "int option"
  lq_parent :: "int option"
  lq_include_all :: bool
  lq_limit :: int
  lq_offset :: int

record task_change_query =
  gq_project :: string
  gq_after :: int
  gq_limit :: int

section \<open>Well-formed tasks\<close>

text \<open>What \<open>NewTask\<close> makes of any parameters, and on which it is the identity.\<close>

definition trimmed :: "string \<Rightarrow> bool" where
  "trimmed s \<longleftrightarrow> trim_space s = s"

definition task_ok :: "task \<Rightarrow> bool" where
  "task_ok t \<longleftrightarrow> ta_project t \<noteq> [] \<and> trimmed (ta_project t) \<and> ta_title t \<noteq> [] \<and> trimmed (ta_title t) \<and>
     trimmed (ta_description t) \<and> validStatus (ta_status t) \<and> 1 \<le> ta_priority t \<and> ta_priority t \<le> 5 \<and>
     trimmed (ta_assigned t) \<and> distinct (ta_tags t) \<and> (\<forall>g\<in>set (ta_tags t). g \<noteq> [] \<and> trimmed g) \<and>
     trimmed (ta_summary t) \<and> trimmed (ta_reason t) \<and> trimmed (ta_remedies t) \<and> trimmed (ta_next_step t) \<and>
     \<not> is_zero_time (ta_created t) \<and> \<not> is_zero_time (ta_updated t)"

lemma trimmed_trim [simp]: "trimmed (trim_space s)"
  by (simp add: trimmed_def)

lemma trimmed_Nil [simp]: "trimmed []"
  by (simp add: trimmed_def)

lemma validStatus_default [simp]: "validStatus s \<Longrightarrow> defaultStatus s = s"
proof -
  have all: "list_all (\<lambda>s. s \<noteq> [] \<and> list_all graphic s)
      [StatusBacklog, StatusPlanned, StatusInProgress, StatusReview, StatusBlocked, StatusDone, StatusCancelled]"
    by code_simp
  assume "validStatus s"
  then have "s \<in> set [StatusBacklog, StatusPlanned, StatusInProgress, StatusReview, StatusBlocked, StatusDone, StatusCancelled]"
    by (simp add: validStatus_def)
  with all have "s \<noteq> [] \<and> (\<forall>c\<in>set s. graphic c)" unfolding list_all_iff by blast
  then show ?thesis by (simp add: defaultStatus_def trim_space_graphic)
qed

lemma normalize_tags_loop_ok:
  "distinct seen \<Longrightarrow> \<forall>g\<in>set seen. g \<noteq> [] \<and> trimmed g \<Longrightarrow>
     distinct (normalize_tags_loop seen tags) \<and> (\<forall>g\<in>set (normalize_tags_loop seen tags). g \<noteq> [] \<and> trimmed g)"
proof (induction seen tags rule: normalize_tags_loop.induct)
  case (2 seen tag tags)
  show ?case
  proof (cases "trim_space tag = [] \<or> trim_space tag \<in> set seen")
    case True
    with "2.IH"(1) [OF refl True "2.prems"] show ?thesis by (simp add: Let_def)
  next
    case False
    with "2.prems" have "distinct (seen @ [trim_space tag])" "\<forall>g\<in>set (seen @ [trim_space tag]). g \<noteq> [] \<and> trimmed g" by auto
    from "2.IH"(2) [OF refl False this] False show ?thesis by (simp add: Let_def)
  qed
qed simp

lemma normalize_tags_loop_id:
  "distinct (seen @ tags) \<Longrightarrow> \<forall>g\<in>set tags. g \<noteq> [] \<and> trimmed g \<Longrightarrow> normalize_tags_loop seen tags = seen @ tags"
  by (induction seen tags rule: normalize_tags_loop.induct) (auto simp: Let_def trimmed_def)

lemma normalizeTags_ok: "distinct (normalizeTags tags)" "\<forall>g\<in>set (normalizeTags tags). g \<noteq> [] \<and> trimmed g"
  using normalize_tags_loop_ok [of "[]" tags] by (simp_all add: normalizeTags_def)

lemma normalizeTags_id: "distinct tags \<Longrightarrow> \<forall>g\<in>set tags. g \<noteq> [] \<and> trimmed g \<Longrightarrow> normalizeTags tags = tags"
  using normalize_tags_loop_id [of "[]" tags] by (simp add: normalizeTags_def)

lemma NewTask_Inr:
  assumes "NewTask wall p = Inr t" and "\<not> is_zero_time wall"
  shows "task_ok t \<and> ta_id t = ta_id p \<and> ta_parent t = ta_parent p"
proof -
  have "\<not> is_zero_time (default_time a wall)" "\<not> is_zero_time d \<Longrightarrow> \<not> is_zero_time (default_time a d)" for a d
    using assms(2) by (simp_all add: default_time_def)
  with assms(1) show ?thesis
    unfolding NewTask_def Let_def task_ok_def by (simp add: normalizeTags_ok split: if_split_asm) (force simp: normalizeTags_ok)
qed

lemma NewTask_id: "task_ok t \<Longrightarrow> NewTask wall t = Inr t"
  by (cases t) (simp add: NewTask_def task_ok_def trimmed_def normalizeTags_id default_priority_def default_time_def)

end
