(* ===== verification/Tasks_Store.thy ===== *)
theory Tasks_Store
  imports Tasks_Types Pg_Tx "HOL-Library.Product_Lexorder"
begin

text \<open>
  The PostgreSQL store of the tasks service (\<open>tasks/internal/store.go\<close> over the tables of
  \<open>migration/postgres/den_tasks\<close>): one function per statement, then the store's methods with their
  transactions. A JSON column holds the list of strings it encodes. \<open>tk_now\<close> is the database's
  \<open>now()\<close>, \<open>tk_wall\<close> what the process's \<open>time.Now\<close> answers.
\<close>

section \<open>Tables\<close>

record task_row =
  tr_id :: int
  tr_project :: string
  tr_parent :: "int option"
  tr_title :: string
  tr_description :: "string option"
  tr_status :: string
  tr_priority :: int
  tr_assigned :: "string option"
  tr_tags :: "string list option"
  tr_summary :: "string option"
  tr_reason :: "string option"
  tr_remedies :: "string option"
  tr_next_step :: "string option"
  tr_human :: bool
  tr_created :: time
  tr_updated :: time

record history_row =
  hr_id :: int
  hr_task :: int
  hr_field :: string
  hr_old :: "string option"
  hr_new :: "string option"
  hr_by :: "string option"
  hr_at :: time

record event_row =
  er_id :: int
  er_task :: int
  er_project :: string
  er_kind :: string
  er_at :: time

record accept_row =
  ar_id :: int
  ar_task :: int
  ar_project :: string
  ar_key :: string
  ar_fingerprint :: string
  ar_reviewer :: string
  ar_verdict :: string
  ar_rationale :: string
  ar_revision :: "string option"
  ar_build :: "string option"
  ar_environment :: "string option"
  ar_evidence :: "string list"
  ar_effect :: string
  ar_note :: string
  ar_before :: string
  ar_after :: string
  ar_parent :: "int option"
  ar_parent_before :: "string option"
  ar_parent_after :: "string option"
  ar_created :: time

record task_tables =
  tk_rows :: "task_row list"
  tk_deps :: "(int \<times> int) list"
  tk_history :: "history_row list"
  tk_events :: "event_row list"
  tk_accepts :: "accept_row list"
  tk_next_task :: int
  tk_next_history :: int
  tk_next_event :: int
  tk_next_accept :: int
  tk_now :: time
  tk_wall :: time

definition emptyToNil :: "string \<Rightarrow> string option" where
  "emptyToNil s = (if s = [] then None else Some s)"

definition nilToString :: "string option \<Rightarrow> string" where
  "nilToString v = (case v of None \<Rightarrow> [] | Some s \<Rightarrow> s)"

definition jsonOrNil :: "string list \<Rightarrow> string list option" where
  "jsonOrNil tags = (if length tags = 0 then None else Some tags)"

definition tagsFromJSON :: "string list option \<Rightarrow> string list" where
  "tagsFromJSON v = (case v of None \<Rightarrow> [] | Some tags \<Rightarrow> normalizeTags tags)"

definition int64String :: "int option \<Rightarrow> string" where
  "int64String v = (case v of None \<Rightarrow> [] | Some i \<Rightarrow> show_int i)"

text \<open>A scanned row as the parameters of \<open>NewTask\<close>.\<close>

definition row_params :: "task_row \<Rightarrow> task" where
  "row_params r =
     \<lparr>ta_id = tr_id r, ta_project = tr_project r, ta_parent = tr_parent r, ta_title = tr_title r,
      ta_description = nilToString (tr_description r), ta_status = tr_status r, ta_priority = tr_priority r,
      ta_assigned = nilToString (tr_assigned r), ta_tags = tagsFromJSON (tr_tags r),
      ta_summary = nilToString (tr_summary r), ta_reason = nilToString (tr_reason r),
      ta_remedies = nilToString (tr_remedies r), ta_next_step = nilToString (tr_next_step r),
      ta_human = tr_human r, ta_created = tr_created r, ta_updated = tr_updated r\<rparr>"

definition scanTask :: "time \<Rightarrow> task_row \<Rightarrow> go_err + task" where
  "scanTask wall r = NewTask wall (row_params r)"

section \<open>Statements\<close>

definition task_exists :: "int \<Rightarrow> task_tables \<Rightarrow> bool" where
  "task_exists i d \<longleftrightarrow> row_lookup tr_id i (tk_rows d) \<noteq> None"

definition createTaskSQL :: "task \<Rightarrow> (task_tables, task_row) stmt" where
  "createTaskSQL t d =
     (if (case ta_parent t of None \<Rightarrow> False | Some p \<Rightarrow> \<not> task_exists p d) then None
      else let r = \<lparr>tr_id = tk_next_task d, tr_project = ta_project t, tr_parent = ta_parent t,
                    tr_title = ta_title t, tr_description = emptyToNil (ta_description t),
                    tr_status = ta_status t, tr_priority = ta_priority t,
                    tr_assigned = emptyToNil (ta_assigned t), tr_tags = jsonOrNil (ta_tags t),
                    tr_summary = emptyToNil (ta_summary t), tr_reason = emptyToNil (ta_reason t),
                    tr_remedies = emptyToNil (ta_remedies t), tr_next_step = emptyToNil (ta_next_step t),
                    tr_human = ta_human t, tr_created = ta_created t, tr_updated = ta_updated t\<rparr>
           in Some (r, d\<lparr>tk_rows := tk_rows d @ [r], tk_next_task := tk_next_task d + 1\<rparr>))"

definition getTaskSQL :: "int \<Rightarrow> task_tables \<Rightarrow> task_row option" where
  "getTaskSQL i d = row_lookup tr_id i (tk_rows d)"

definition keep_or_set :: "string option \<Rightarrow> string option \<Rightarrow> string option" where
  "keep_or_set v old = (case v of None \<Rightarrow> old | Some s \<Rightarrow> if s = [] then None else Some s)"

definition coalesce :: "'a option \<Rightarrow> 'a \<Rightarrow> 'a" where
  "coalesce v old = (case v of None \<Rightarrow> old | Some x \<Rightarrow> x)"

definition patched_row :: "task_patch \<Rightarrow> time \<Rightarrow> task_row \<Rightarrow> task_row" where
  "patched_row p at r = r\<lparr>
     tr_title := coalesce (pa_title p) (tr_title r),
     tr_description := keep_or_set (pa_description p) (tr_description r),
     tr_status := coalesce (pa_status p) (tr_status r),
     tr_priority := coalesce (pa_priority p) (tr_priority r),
     tr_assigned := keep_or_set (pa_assigned p) (tr_assigned r),
     tr_tags := (if pa_has_tags p then jsonOrNil (pa_tags p) else tr_tags r),
     tr_parent := (if pa_has_parent p then pa_parent p else tr_parent r),
     tr_summary := keep_or_set (pa_summary p) (tr_summary r),
     tr_reason := keep_or_set (pa_reason p) (tr_reason r),
     tr_remedies := keep_or_set (pa_remedies p) (tr_remedies r),
     tr_next_step := keep_or_set (pa_next_step p) (tr_next_step r),
     tr_human := coalesce (pa_human p) (tr_human r),
     tr_updated := at\<rparr>"

definition updateTaskSQL :: "int \<Rightarrow> task_patch \<Rightarrow> time \<Rightarrow> (task_tables, task_row option) stmt" where
  "updateTaskSQL i p at d =
     (case row_lookup tr_id i (tk_rows d) of
        None \<Rightarrow> Some (None, d)
      | Some r \<Rightarrow>
          if pa_has_parent p \<and> (case pa_parent p of None \<Rightarrow> False | Some q \<Rightarrow> \<not> task_exists q d) then None
          else Some (Some (patched_row p at r),
                 d\<lparr>tk_rows := update_where (\<lambda>r. tr_id r = i) (patched_row p at) (tk_rows d)\<rparr>))"

definition addDependencySQL :: "int \<Rightarrow> int \<Rightarrow> (task_tables, unit) stmt" where
  "addDependencySQL i dep d =
     (if \<not> task_exists i d \<or> \<not> task_exists dep d \<or> i = dep then None
      else if (i, dep) \<in> set (tk_deps d) then Some ((), d)
      else Some ((), d\<lparr>tk_deps := tk_deps d @ [(i, dep)]\<rparr>))"

definition removeDependencySQL :: "int \<Rightarrow> int \<Rightarrow> (task_tables, unit) stmt" where
  "removeDependencySQL i dep d = Some ((), d\<lparr>tk_deps := filter (\<lambda>e. e \<noteq> (i, dep)) (tk_deps d)\<rparr>)"

definition dependencyIDsSQL :: "int \<Rightarrow> task_tables \<Rightarrow> int list" where
  "dependencyIDsSQL i d = map snd (filter (\<lambda>e. fst e = i) (tk_deps d))"

text \<open>The row's column, when there is a row.\<close>

definition parentIDSQL :: "int \<Rightarrow> task_tables \<Rightarrow> int option option" where
  "parentIDSQL i d = map_option tr_parent (row_lookup tr_id i (tk_rows d))"

definition dep_row :: "task_tables \<Rightarrow> int \<times> int \<Rightarrow> task_row option" where
  "dep_row d e = row_lookup tr_id (snd e) (tk_rows d)"

definition unsatisfied :: "task_tables \<Rightarrow> int \<times> int \<Rightarrow> bool" where
  "unsatisfied d e = (case dep_row d e of None \<Rightarrow> False | Some r \<Rightarrow> tr_status r \<notin> {''review'', ''done'', ''cancelled''})"

definition dep_count :: "task_tables \<Rightarrow> int \<Rightarrow> int" where
  "dep_count d i = count_where (\<lambda>e. fst e = i) (tk_deps d)"

definition unfinished_dep_count :: "task_tables \<Rightarrow> int \<Rightarrow> int" where
  "unfinished_dep_count d i = count_where (\<lambda>e. fst e = i \<and> unsatisfied d e) (tk_deps d)"

definition sub_count :: "task_tables \<Rightarrow> int \<Rightarrow> int" where
  "sub_count d i = count_where (\<lambda>r. tr_parent r = Some i) (tk_rows d)"

definition dependenciesSQL :: "int \<Rightarrow> task_tables \<Rightarrow> dependency_info list" where
  "dependenciesSQL i d =
     sort_key dn_task
       (map (\<lambda>r. \<lparr>dn_task = tr_id r, dn_project = tr_project r, dn_title = tr_title r, dn_status = tr_status r\<rparr>)
         (List.map_filter (dep_row d) (filter (\<lambda>e. fst e = i) (tk_deps d))))"

definition has_tags :: "string list \<Rightarrow> task_row \<Rightarrow> bool" where
  "has_tags tags r = (case tr_tags r of None \<Rightarrow> False | Some ts \<Rightarrow> list_all (\<lambda>g. g \<in> set ts) tags)"

definition listTasksSQL :: "list_tasks_query \<Rightarrow> task_tables \<Rightarrow> task_row list" where
  "listTasksSQL q d =
     (let selected = filter (\<lambda>r. tr_project r = lq_project q \<and>
             (lq_statuses q = [] \<or> tr_status r \<in> set (lq_statuses q)) \<and>
             (case emptyToNil (lq_assigned q) of None \<Rightarrow> True | Some a \<Rightarrow> tr_assigned r = Some a) \<and>
             (lq_tags q = [] \<or> has_tags (lq_tags q) r) \<and>
             (case lq_max_priority q of None \<Rightarrow> True | Some p \<Rightarrow> tr_priority r \<le> p) \<and>
             (case lq_parent q of Some p \<Rightarrow> tr_parent r = Some p
              | None \<Rightarrow> lq_include_all q \<or> tr_parent r = None)) (tk_rows d);
          rest = drop (nat (lq_offset q)) (sort_key (\<lambda>r. (tr_priority r, tr_id r)) selected)
      in if lq_limit q > 0 then take (nat (lq_limit q)) rest else rest)"

definition historySQL :: "int \<Rightarrow> task_tables \<Rightarrow> history_row list" where
  "historySQL i d = sort_key (\<lambda>h. (- hr_at h, - hr_id h)) (filter (\<lambda>h. hr_task h = i) (tk_history d))"

definition insertHistorySQL :: "int \<Rightarrow> string \<Rightarrow> string option \<Rightarrow> string option \<Rightarrow> string \<Rightarrow> (task_tables, unit) stmt" where
  "insertHistorySQL i field old new agent d =
     (if \<not> task_exists i d then None
      else Some ((), d\<lparr>tk_history := tk_history d @
             [\<lparr>hr_id = tk_next_history d, hr_task = i, hr_field = field, hr_old = old, hr_new = new,
               hr_by = Some agent, hr_at = tk_now d\<rparr>],
             tk_next_history := tk_next_history d + 1\<rparr>))"

definition insertTaskChangeSQL :: "int \<Rightarrow> string \<Rightarrow> (task_tables, unit) stmt" where
  "insertTaskChangeSQL i kind d =
     (case row_lookup tr_id i (tk_rows d) of
        None \<Rightarrow> Some ((), d)
      | Some r \<Rightarrow> Some ((), d\<lparr>tk_events := tk_events d @
             [\<lparr>er_id = tk_next_event d, er_task = i, er_project = tr_project r, er_kind = kind, er_at = tk_now d\<rparr>],
             tk_next_event := tk_next_event d + 1\<rparr>))"

definition listTaskChangesSQL :: "task_change_query \<Rightarrow> task_tables \<Rightarrow> (event_row \<times> task_row) list" where
  "listTaskChangesSQL q d =
     take (nat (gq_limit q))
       (List.map_filter (\<lambda>e. map_option (\<lambda>r. (e, r)) (row_lookup tr_id (er_task e) (tk_rows d)))
         (sort_key er_id (filter (\<lambda>e. er_project e = gq_project q \<and> er_id e > gq_after q) (tk_events d))))"

definition dependentTaskIDsSQL :: "int \<Rightarrow> task_tables \<Rightarrow> int list" where
  "dependentTaskIDsSQL i d = sort (map fst (filter (\<lambda>e. snd e = i) (tk_deps d)))"

definition unblocked :: "task_tables \<Rightarrow> int \<Rightarrow> bool" where
  "unblocked d i = (\<not> list_ex (\<lambda>e. fst e = i \<and> unsatisfied d e) (tk_deps d))"

definition assignable :: "string option \<Rightarrow> task_row \<Rightarrow> bool" where
  "assignable who r = (case who of None \<Rightarrow> True | Some a \<Rightarrow> tr_assigned r = None \<or> tr_assigned r = Some a)"

definition sub_candidate :: "task_tables \<Rightarrow> string \<Rightarrow> string option \<Rightarrow> task_row \<Rightarrow> bool" where
  "sub_candidate d project who r \<longleftrightarrow>
     (case tr_parent r of None \<Rightarrow> False
      | Some p \<Rightarrow> (case row_lookup tr_id p (tk_rows d) of None \<Rightarrow> False
                  | Some parent \<Rightarrow> tr_status parent \<in> {''in_progress'', ''review''})) \<and>
     tr_project r = project \<and> tr_status r \<in> {''planned'', ''in_progress''} \<and> unblocked d (tr_id r) \<and> assignable who r"

definition top_candidate :: "task_tables \<Rightarrow> string \<Rightarrow> string option \<Rightarrow> task_row \<Rightarrow> bool" where
  "top_candidate d project who r \<longleftrightarrow>
     tr_project r = project \<and> tr_parent r = None \<and> tr_status r = ''planned'' \<and> unblocked d (tr_id r) \<and> assignable who r"

definition nextTaskSQL :: "string \<Rightarrow> string option \<Rightarrow> task_tables \<Rightarrow> task_row option" where
  "nextTaskSQL project who d =
     (let candidates = map (\<lambda>r. (0::int, r)) (filter (sub_candidate d project who) (tk_rows d)) @
                       map (\<lambda>r. (1, r)) (filter (top_candidate d project who) (tk_rows d))
      in case sort_key (\<lambda>(tier, r). (tier, tr_priority r, dep_count d (tr_id r), tr_id r)) candidates of
           [] \<Rightarrow> None
         | (tier, r) # _ \<Rightarrow> Some r)"

section \<open>Reading rows\<close>

text \<open>\<open>Query\<close>, the rows one by one, then \<open>rows.Err\<close>.\<close>

definition query_rows ::
    "string \<Rightarrow> string \<Rightarrow> (task_tables \<Rightarrow> 'r list) \<Rightarrow> (task_tables \<Rightarrow> 'r \<Rightarrow> go_err + 'a) \<Rightarrow> task_tables pg \<Rightarrow>
     (go_err + 'a list) \<times> task_tables pg" where
  "query_rows query_text rows_text q scan db =
     (case pg_call (read_only q) db of
        (Inl e, db1) \<Rightarrow> (Inl (Wrapped query_text e []), db1)
      | (Inr rows, db1) \<Rightarrow>
          (case scan_all (scan (pg_data db1)) rows of
             Inl e \<Rightarrow> (Inl e, db1)
           | Inr xs \<Rightarrow>
               (case pg_call (read_only (\<lambda>_. ())) db1 of
                  (Inl e, db2) \<Rightarrow> (Inl (Wrapped rows_text e []), db2)
                | (Inr _, db2) \<Rightarrow> (Inr xs, db2))))"

definition scanTaskSummary :: "task_tables \<Rightarrow> task_row \<Rightarrow> go_err + task_summary" where
  "scanTaskSummary d r =
     (case scanTask (tk_wall d) r of
        Inl e \<Rightarrow> Inl e
      | Inr t \<Rightarrow> Inr \<lparr>su_task = t, su_deps = dep_count d (tr_id r), su_unfinished = unfinished_dep_count d (tr_id r),
                     su_subtasks = sub_count d (tr_id r)\<rparr>)"

definition scanTaskChangeEvent :: "task_tables \<Rightarrow> event_row \<times> task_row \<Rightarrow> go_err + task_change" where
  "scanTaskChangeEvent d er =
     (case scanTaskSummary d (snd er) of
        Inl e \<Rightarrow> Inl e
      | Inr s \<Rightarrow> Inr \<lparr>ev_id = er_id (fst er), ev_kind = er_kind (fst er), ev_at = er_at (fst er), ev_summary = s\<rparr>)"

definition scanHistory :: "history_row \<Rightarrow> task_history" where
  "scanHistory h =
     \<lparr>hi_id = hr_id h, hi_task = hr_task h, hi_field = hr_field h, hi_old = nilToString (hr_old h),
      hi_new = nilToString (hr_new h), hi_by = nilToString (hr_by h), hi_at = hr_at h\<rparr>"

end
