(* ===== verification/Tasks_Tx.thy ===== *)
theory Tasks_Tx
  imports Tasks_Store
begin

text \<open>
  The methods of the tasks store: what runs inside a transaction, as actions, and the transactions
  (\<open>tasks/internal/store.go\<close>).
\<close>

type_synonym 'a tasks_tx = "(task_tables, 'a) tx_action"

section \<open>Reading in a transaction\<close>

text \<open>Scanning a row that was read makes no call of the driver.\<close>

definition tx_scan :: "(task_tables \<Rightarrow> go_err + 'a) \<Rightarrow> 'a tasks_tx" where
  "tx_scan f tx = Some (f (tx_data tx), tx)"

text \<open>\<open>getTaskTx\<close>, and \<open>getTaskForUpdateTx\<close>, which also locks the row.\<close>

definition getTaskTx :: "int \<Rightarrow> task tasks_tx" where
  "getTaskTx i =
     tx_bind (tx_call (read_only (getTaskSQL i))) (\<lambda>found.
       case found of
         None \<Rightarrow> tx_fail (taskNotFound i)
       | Some r \<Rightarrow> tx_scan (\<lambda>d. scanTask (tk_wall d) r))"

definition getTaskForUpdateTx :: "int \<Rightarrow> task tasks_tx" where
  "getTaskForUpdateTx i = getTaskTx i"

definition dependentTaskIDsTx :: "int \<Rightarrow> int list tasks_tx" where
  "dependentTaskIDsTx i =
     tx_bind (tx_wrap ''listing task dependents: '' (tx_call (read_only (dependentTaskIDsSQL i)))) (\<lambda>ids.
     tx_bind (tx_wrap ''reading task dependents: '' (tx_call (read_only (\<lambda>_. ())))) (\<lambda>_.
     tx_return ids))"

section \<open>Cycles\<close>

lemma tx_query_data: "tx_query (read_only f) tx = (r, tx') \<Longrightarrow> tx_data tx' = tx_data tx"
  using tx_query_read_only [of f tx] by simp

lemma tx_query_read_only_Inr: "tx_query (read_only f) tx = (Inr x, tx') \<Longrightarrow> x = f (tx_data tx)"
  by (cases "read_only f" tx rule: tx_query_cases) (auto simp: read_only_def)

text \<open>A visit with successors uses up a task that has dependencies; any other step shortens the queue.\<close>

lemma dependency_loop_visit:
  assumes "tx_query (read_only (dependencyIDsSQL c)) tx = (Inr ids, tx1)"
    and "tx_query (read_only (\<lambda>_. ())) tx1 = (r, tx2)" and "c \<notin> set visited"
  shows "card (fst ` set (tk_deps (tx_data tx2)) - set (c # visited)) < card (fst ` set (tk_deps (tx_data tx)) - set visited) \<or>
    (card (fst ` set (tk_deps (tx_data tx2)) - set (c # visited)) = card (fst ` set (tk_deps (tx_data tx)) - set visited) \<and>
     ids = [])"
proof -
  have d: "tx_data tx2 = tx_data tx" using assms by (metis tx_query_data)
  have ids: "ids = dependencyIDsSQL c (tx_data tx)" using assms(1) by (rule tx_query_read_only_Inr)
  show ?thesis
  proof (cases "c \<in> fst ` set (tk_deps (tx_data tx))")
    case True
    have "card (fst ` set (tk_deps (tx_data tx2)) - set (c # visited)) < card (fst ` set (tk_deps (tx_data tx)) - set visited)"
      by (rule psubset_card_mono) (use True assms(3) d in auto)
    then show ?thesis ..
  next
    case False
    then have "ids = []" unfolding ids by (force simp: dependencyIDsSQL_def filter_empty_conv)
    moreover from False have "fst ` set (tk_deps (tx_data tx2)) - set (c # visited) = fst ` set (tk_deps (tx_data tx)) - set visited"
      unfolding d by auto
    ultimately show ?thesis by simp
  qed
qed

text \<open>
  The loop of \<open>createsDependencyCycle\<close>. An error of \<open>Query\<close> counts as a cycle; one while the rows are
  read is ignored, and then no row is taken.
\<close>

function dependency_loop :: "int \<Rightarrow> int list \<Rightarrow> int list \<Rightarrow> task_tables tx \<Rightarrow> bool \<times> task_tables tx" where
  "dependency_loop target visited [] tx = (False, tx)"
| "dependency_loop target visited (current # queue) tx =
     (if current = target then (True, tx)
      else if current \<in> set visited then dependency_loop target visited queue tx
      else case tx_query (read_only (dependencyIDsSQL current)) tx of
        (Inl e, tx1) \<Rightarrow> (True, tx1)
      | (Inr ids, tx1) \<Rightarrow>
          (case tx_query (read_only (\<lambda>_. ())) tx1 of
             (Inl e, tx2) \<Rightarrow> dependency_loop target (current # visited) queue tx2
           | (Inr _, tx2) \<Rightarrow> dependency_loop target (current # visited) (queue @ ids) tx2))"
  by pat_completeness auto

termination
proof (relation "measures [\<lambda>(t, visited, queue, tx). card (fst ` set (tk_deps (tx_data tx)) - set visited),
                           \<lambda>(t, visited, queue, tx). length queue]")
  show "wf (measures [\<lambda>(t, visited, queue, tx). card (fst ` set (tk_deps (tx_data tx)) - set visited),
                      \<lambda>(t, visited, queue, tx). length queue])" by simp
qed (auto dest!: dependency_loop_visit sym [of _ "tx_query _ _"] simp: tx_query_data)

text \<open>
  The loop of \<open>createsParentCycle\<close>. An error leaves \<open>next\<close> nil and so answers that there is no
  cycle. The loop does not return when the chain of parents runs into a cycle that misses the task.
\<close>

partial_function (option) parent_loop :: "int \<Rightarrow> int \<Rightarrow> task_tables tx \<Rightarrow> (bool \<times> task_tables tx) option" where
  "parent_loop target current tx =
     (if current = 0 then Some (False, tx)
      else if current = target then Some (True, tx)
      else case tx_query (read_only (parentIDSQL current)) tx of
        (Inl e, tx1) \<Rightarrow> Some (False, tx1)
      | (Inr None, tx1) \<Rightarrow> Some (False, tx1)
      | (Inr (Some None), tx1) \<Rightarrow> Some (False, tx1)
      | (Inr (Some (Some parent)), tx1) \<Rightarrow> parent_loop target parent tx1)"

definition createsDependencyCycle :: "int \<Rightarrow> int \<Rightarrow> bool tasks_tx" where
  "createsDependencyCycle i dep tx = (case dependency_loop i [] [dep] tx of (b, tx') \<Rightarrow> Some (Inr b, tx'))"

definition createsParentCycle :: "int \<Rightarrow> int \<Rightarrow> bool tasks_tx" where
  "createsParentCycle i parent tx =
     (case parent_loop i parent tx of None \<Rightarrow> None | Some (b, tx') \<Rightarrow> Some (Inr b, tx'))"

definition validateParent :: "string \<Rightarrow> int \<Rightarrow> int option \<Rightarrow> unit tasks_tx" where
  "validateParent project i parent =
     (case parent of
        None \<Rightarrow> tx_return ()
      | Some p \<Rightarrow>
          if i \<noteq> 0 \<and> p = i then tx_fail (tasks_invalid ErrParentCycle)
          else tx_bind (getTaskTx p) (\<lambda>t.
            if ta_project t \<noteq> project then tx_fail (tasks_invalid ErrParentProjectMismatch)
            else if i = 0 then tx_return ()
            else tx_bind (createsParentCycle i p) (\<lambda>cycle.
              if cycle then
                tx_fail (tasks_conflict (Wrapped [] ErrParentCycle ('': task '' @ show_int i @ '' parent '' @ show_int p)) ''parent_cycle'')
              else tx_return ())))"

definition addDependencyTx :: "int \<Rightarrow> int \<Rightarrow> unit tasks_tx" where
  "addDependencyTx i dep =
     (if i = dep then tx_fail (tasks_invalid ErrDependencyCycle)
      else
        tx_bind (getTaskTx i) (\<lambda>_.
        tx_bind (getTaskTx dep) (\<lambda>_.
        tx_bind (createsDependencyCycle i dep) (\<lambda>cycle.
        if cycle then
          tx_fail (tasks_conflict (Wrapped [] ErrDependencyCycle ('': '' @ show_int i @ '' depends on '' @ show_int dep)) ''dependency_cycle'')
        else
          tx_wrap (''adding dependency '' @ show_int i @ '' -> '' @ show_int dep @ '': '')
            (tx_call (addDependencySQL i dep))))))"

section \<open>Changes and history\<close>

text \<open>The loop of \<open>recordTaskChangesTx\<close>; \<open>seen\<close> holds the tasks already recorded.\<close>

fun record_changes_loop :: "string \<Rightarrow> int list \<Rightarrow> int list \<Rightarrow> unit tasks_tx" where
  "record_changes_loop kind seen [] = tx_return ()"
| "record_changes_loop kind seen (i # is) =
     (if i \<le> 0 \<or> i \<in> set seen then record_changes_loop kind seen is
      else tx_bind (tx_wrap (''recording task change '' @ show_int i @ '': '') (tx_call (insertTaskChangeSQL i kind))) (\<lambda>_.
           record_changes_loop kind (i # seen) is))"

definition recordTaskChangesTx :: "string \<Rightarrow> int list \<Rightarrow> unit tasks_tx" where
  "recordTaskChangesTx kind is = record_changes_loop kind [] is"

definition recordUpdateTaskChangesTx :: "task \<Rightarrow> task \<Rightarrow> task_patch \<Rightarrow> unit tasks_tx" where
  "recordUpdateTaskChangesTx current updated patch =
     tx_bind (if pa_status patch \<noteq> None then dependentTaskIDsTx (ta_id updated) else tx_return []) (\<lambda>dependents.
       recordTaskChangesTx ''updated''
         ([ta_id updated] @ dependents @
          (if pa_has_parent patch then
             (case ta_parent current of None \<Rightarrow> [] | Some p \<Rightarrow> [p]) @
             (case ta_parent updated of None \<Rightarrow> [] | Some p \<Rightarrow> [p])
           else [])))"

definition insertHistory :: "int \<Rightarrow> string \<Rightarrow> string \<Rightarrow> string \<Rightarrow> string \<Rightarrow> unit tasks_tx" where
  "insertHistory i field old new agent =
     tx_wrap ''writing task history: '' (tx_call (insertHistorySQL i field (emptyToNil old) (emptyToNil new) agent))"

text \<open>
  \<open>json.Marshal\<close> of a list of strings: a nil slice is \<open>null\<close>, and a string is quoted with the
  escapes of \<open>encoding/json\<close> (its bytes are taken to be valid UTF-8).
\<close>

definition hex_nibble :: "nat \<Rightarrow> char" where
  "hex_nibble n = (if n < 10 then char_of (48 + n) else char_of (87 + n))"

fun json_escape :: "string \<Rightarrow> string" where
  "json_escape [] = []"
| "json_escape (c # cs) =
     (if c = CHR 0xE2 \<and> length cs \<ge> 2 \<and> hd cs = CHR 0x80 \<and> (cs ! 1 = CHR 0xA8 \<or> cs ! 1 = CHR 0xA9)
      then [CHR 0x5C] @ ''u202'' @ [if cs ! 1 = CHR 0xA8 then CHR ''8'' else CHR ''9''] @ json_escape (drop 2 cs)
      else (if c = CHR 0x22 \<or> c = CHR 0x5C then [CHR 0x5C, c]
            else if c = CHR 0x08 then CHR 0x5C # ''b'' else if c = CHR 0x0C then CHR 0x5C # ''f''
            else if c = CHR 0x0A then CHR 0x5C # ''n'' else if c = CHR 0x0D then CHR 0x5C # ''r''
            else if c = CHR 0x09 then CHR 0x5C # ''t''
            else let n = of_char c :: nat in
              if n < 32 \<or> c = CHR ''<'' \<or> c = CHR ''>'' \<or> c = CHR ''&''
              then [CHR 0x5C] @ ''u00'' @ [hex_nibble (n div 16), hex_nibble (n mod 16)]
              else [c]) @ json_escape cs)"

definition marshal_tags :: "string list \<Rightarrow> string" where
  "marshal_tags tags =
     (if tags = [] then ''null''
      else ''['' @ join_on (CHR '','') (map (\<lambda>g. [CHR 0x22] @ json_escape g @ [CHR 0x22]) tags) @ '']'')"

definition show_bool :: "bool \<Rightarrow> string" where
  "show_bool b = (if b then ''true'' else ''false'')"

text \<open>The entries \<open>writeHistory\<close> inserts: the field, the old value and the new value.\<close>

definition text_changes :: "task \<Rightarrow> task_patch \<Rightarrow> (string \<times> string \<times> string option) list" where
  "text_changes t p =
     [(''title'', ta_title t, pa_title p), (''description'', ta_description t, pa_description p),
      (''status'', ta_status t, pa_status p), (''assigned_to'', ta_assigned t, pa_assigned p),
      (''blocker_summary'', ta_summary t, pa_summary p), (''blocker_reason'', ta_reason t, pa_reason p),
      (''blocker_attempted_remedies'', ta_remedies t, pa_remedies p),
      (''blocker_suggested_next_step'', ta_next_step t, pa_next_step p)]"

definition history_changes :: "task \<Rightarrow> task_patch \<Rightarrow> (string \<times> string \<times> string) list" where
  "history_changes t p =
     List.map_filter (\<lambda>(field, old, v). case v of None \<Rightarrow> None | Some new \<Rightarrow> if old = new then None else Some (field, old, new))
       (text_changes t p) @
     (case pa_priority p of None \<Rightarrow> []
      | Some n \<Rightarrow> if ta_priority t = n then [] else [(''priority'', show_int (ta_priority t), show_int n)]) @
     (if pa_has_tags p \<and> marshal_tags (ta_tags t) \<noteq> marshal_tags (pa_tags p)
      then [(''tags'', marshal_tags (ta_tags t), marshal_tags (pa_tags p))] else []) @
     (if pa_has_parent p \<and> int64String (ta_parent t) \<noteq> int64String (pa_parent p)
      then [(''parent_id'', int64String (ta_parent t), int64String (pa_parent p))] else []) @
     (case pa_human p of None \<Rightarrow> []
      | Some b \<Rightarrow> if ta_human t = b then []
                  else [(''blocker_requires_human_input'', show_bool (ta_human t), show_bool b)])"

definition writeHistory :: "int \<Rightarrow> task \<Rightarrow> task_patch \<Rightarrow> string \<Rightarrow> unit tasks_tx" where
  "writeHistory i current patch agent =
     tx_each (\<lambda>(field, old, new). insertHistory i field old new agent) (history_changes current patch)"

definition differs :: "'a option \<Rightarrow> 'a \<Rightarrow> bool" where
  "differs v old = (case v of None \<Rightarrow> False | Some x \<Rightarrow> old \<noteq> x)"

definition taskPatchChanges :: "task \<Rightarrow> task_patch \<Rightarrow> bool" where
  "taskPatchChanges t p \<longleftrightarrow>
     differs (pa_title p) (ta_title t) \<or> differs (pa_description p) (ta_description t) \<or>
     differs (pa_status p) (ta_status t) \<or> differs (pa_priority p) (ta_priority t) \<or>
     differs (pa_assigned p) (ta_assigned t) \<or> (pa_has_tags p \<and> ta_tags t \<noteq> pa_tags p) \<or>
     (pa_has_parent p \<and> int64String (ta_parent t) \<noteq> int64String (pa_parent p)) \<or>
     differs (pa_summary p) (ta_summary t) \<or> differs (pa_reason p) (ta_reason t) \<or>
     differs (pa_remedies p) (ta_remedies t) \<or> differs (pa_next_step p) (ta_next_step t) \<or>
     differs (pa_human p) (ta_human t)"

definition updateTaskTx :: "int \<Rightarrow> task \<Rightarrow> task_patch \<Rightarrow> string \<Rightarrow> time \<Rightarrow> task tasks_tx" where
  "updateTaskTx i current patch agent at =
     tx_bind (writeHistory i current patch agent) (\<lambda>_.
     tx_bind (tx_wrap (''updating task '' @ show_int i @ '': '') (tx_call (updateTaskSQL i patch at))) (\<lambda>found.
     case found of
       None \<Rightarrow> tx_fail (taskNotFound i)
     | Some r \<Rightarrow>
         tx_bind (tx_wrap (''updating task '' @ show_int i @ '': '') (tx_scan (\<lambda>d. scanTask (tk_wall d) r))) (\<lambda>updated.
         tx_bind (recordUpdateTaskChangesTx current updated patch) (\<lambda>_.
         tx_return updated))))"

section \<open>The store's methods\<close>

definition tk_Ping :: "task_tables pg \<Rightarrow> (go_err + unit) \<times> task_tables pg" where
  "tk_Ping db =
     (case pg_call (read_only (\<lambda>_. ())) db of
        (Inl e, db') \<Rightarrow> (Inl (Wrapped ''pinging tasks store: '' e []), db')
      | (Inr _, db') \<Rightarrow> (Inr (), db'))"

definition tk_CreateTask :: "task \<Rightarrow> int list \<Rightarrow> task_tables pg \<Rightarrow> ((go_err + task) \<times> task_tables pg) option" where
  "tk_CreateTask t depends_on =
     run_tx ''beginning create task: ''
       (tx_bind (validateParent (ta_project t) 0 (ta_parent t)) (\<lambda>_.
        tx_bind (tx_wrap ''creating task: ''
          (tx_bind (tx_call (createTaskSQL t)) (\<lambda>r. tx_scan (\<lambda>d. scanTask (tk_wall d) r)))) (\<lambda>created.
        tx_bind (tx_each (addDependencyTx (ta_id created)) depends_on) (\<lambda>_.
        tx_bind (recordTaskChangesTx ''created'' [ta_id created]) (\<lambda>_.
        tx_bind (case ta_parent created of None \<Rightarrow> tx_return ()
                 | Some p \<Rightarrow> recordTaskChangesTx ''subtask_created'' [p]) (\<lambda>_.
        tx_return (created, ''committing create task: '')))))))"

definition tk_GetTask :: "int \<Rightarrow> task_tables pg \<Rightarrow> (go_err + task) \<times> task_tables pg" where
  "tk_GetTask i db =
     (let ctx = ''getting task '' @ show_int i @ '': ''
      in case pg_call (read_only (getTaskSQL i)) db of
           (Inl e, db') \<Rightarrow> (Inl (Wrapped ctx e []), db')
         | (Inr None, db') \<Rightarrow> (Inl (taskNotFound i), db')
         | (Inr (Some r), db') \<Rightarrow>
             (case scanTask (tk_wall (pg_data db')) r of
                Inl e \<Rightarrow> (Inl (Wrapped ctx e []), db')
              | Inr t \<Rightarrow> (Inr t, db')))"

definition tk_ListTasks :: "list_tasks_query \<Rightarrow> task_tables pg \<Rightarrow> (go_err + task_summary list) \<times> task_tables pg" where
  "tk_ListTasks q = query_rows ''listing tasks: '' ''reading task summaries: '' (listTasksSQL q) scanTaskSummary"

definition tk_UpdateTask ::
    "int \<Rightarrow> task_patch \<Rightarrow> string \<Rightarrow> time \<Rightarrow> task_tables pg \<Rightarrow> ((go_err + task) \<times> task_tables pg) option" where
  "tk_UpdateTask i patch agent at =
     run_tx ''beginning update task: ''
       (tx_bind (getTaskForUpdateTx i) (\<lambda>current.
        tx_bind (if pa_has_parent patch then validateParent (ta_project current) i (pa_parent patch) else tx_return ()) (\<lambda>_.
        if \<not> taskPatchChanges current patch then tx_return (current, ''committing idempotent task update: '')
        else tx_bind (updateTaskTx i current patch agent at) (\<lambda>updated.
             tx_return (updated, ''committing update task: '')))))"

definition tk_TransitionTaskToReview ::
    "string \<Rightarrow> int \<Rightarrow> string \<Rightarrow> time \<Rightarrow> task_tables pg \<Rightarrow> ((go_err + task \<times> string) \<times> task_tables pg) option" where
  "tk_TransitionTaskToReview project i agent at =
     run_tx ''beginning review transition: ''
       (tx_bind (getTaskForUpdateTx i) (\<lambda>current.
        if ta_project current \<noteq> project then tx_fail (taskNotFound i)
        else if ta_status current = StatusReview then
          tx_return ((current, TaskTransitionAlreadySatisfied), ''committing idempotent review transition: '')
        else if ta_status current \<noteq> StatusInProgress then
          tx_fail (tasks_conflict (Wrapped [] ErrReviewTransitionState ('': current status is '' @ ta_status current))
                     ''review_transition_ineligible'')
        else tx_bind (updateTaskTx i current (empty_patch\<lparr>pa_status := Some StatusReview\<rparr>) agent at) (\<lambda>updated.
             tx_return ((updated, TaskTransitionApplied), ''committing review transition: ''))))"

definition tk_AddDependency :: "int \<Rightarrow> int \<Rightarrow> task_tables pg \<Rightarrow> ((go_err + unit) \<times> task_tables pg) option" where
  "tk_AddDependency i dep =
     run_tx ''beginning add dependency: ''
       (tx_bind (addDependencyTx i dep) (\<lambda>_.
        tx_bind (recordTaskChangesTx ''dependency_added'' [i]) (\<lambda>_.
        tx_return ((), ''committing add dependency: ''))))"

definition tk_RemoveDependency :: "int \<Rightarrow> int \<Rightarrow> task_tables pg \<Rightarrow> ((go_err + unit) \<times> task_tables pg) option" where
  "tk_RemoveDependency i dep =
     run_tx ''beginning remove dependency: ''
       (tx_bind (tx_wrap (''removing dependency '' @ show_int i @ '' -> '' @ show_int dep @ '': '')
                  (tx_call (removeDependencySQL i dep))) (\<lambda>_.
        tx_bind (recordTaskChangesTx ''dependency_removed'' [i]) (\<lambda>_.
        tx_return ((), ''committing remove dependency: ''))))"

definition tk_NextTask :: "string \<Rightarrow> string \<Rightarrow> task_tables pg \<Rightarrow> (go_err + task option) \<times> task_tables pg" where
  "tk_NextTask project assigned db =
     (case pg_call (read_only (nextTaskSQL project (emptyToNil assigned))) db of
        (Inl e, db') \<Rightarrow> (Inl (Wrapped ''getting next task: '' e []), db')
      | (Inr None, db') \<Rightarrow> (Inr None, db')
      | (Inr (Some r), db') \<Rightarrow>
          (case scanTask (tk_wall (pg_data db')) r of
             Inl e \<Rightarrow> (Inl (Wrapped ''getting next task: '' e []), db')
           | Inr t \<Rightarrow> (Inr (Some t), db')))"

definition tk_History :: "int \<Rightarrow> task_tables pg \<Rightarrow> (go_err + task_history list) \<times> task_tables pg" where
  "tk_History i =
     query_rows ''listing task history: '' ''reading history: '' (historySQL i) (\<lambda>_ h. Inr (scanHistory h))"

definition tk_ListTaskChanges :: "task_change_query \<Rightarrow> task_tables pg \<Rightarrow> (go_err + task_change list) \<times> task_tables pg" where
  "tk_ListTaskChanges q =
     query_rows ''listing task changes: '' ''reading task changes: '' (listTaskChangesSQL q) scanTaskChangeEvent"

definition tk_dependencies :: "int \<Rightarrow> task_tables pg \<Rightarrow> (go_err + dependency_info list) \<times> task_tables pg" where
  "tk_dependencies i =
     query_rows ''listing task dependencies: '' ''reading dependencies: '' (dependenciesSQL i) (\<lambda>_ x. Inr x)"

end
