(* ===== verification/Tasks_Accept.thy ===== *)
theory Tasks_Accept
  imports Tasks_Tx
begin

text \<open>
  Human acceptance of a task (\<open>tasks/internal/human_acceptance.go\<close>, \<open>human_acceptance_store.go\<close>):
  the normalised facts of a request and the transaction that records them and completes the task
  and its parent. The fingerprint of the facts, a digest of their JSON encoding, is an argument.
\<close>

section \<open>Facts\<close>

definition VerdictLooksGood :: string where "VerdictLooksGood = ''looks_good''"
definition HumanAcceptanceRecordOnly :: string where "HumanAcceptanceRecordOnly = ''record_only''"
definition HumanAcceptanceCompleteTask :: string where "HumanAcceptanceCompleteTask = ''complete_task''"
definition HumanAcceptanceCompleteTaskAndParent :: string where
  "HumanAcceptanceCompleteTaskAndParent = ''complete_task_and_parent''"

lemmas effect_defs =
  HumanAcceptanceRecordOnly_def HumanAcceptanceCompleteTask_def HumanAcceptanceCompleteTaskAndParent_def

definition ErrMissingReviewer :: go_err where "ErrMissingReviewer = Sentinel ''tasks'' ''reviewer_identity is required''"
definition ErrMissingIdempotencyKey :: go_err where "ErrMissingIdempotencyKey = Sentinel ''tasks'' ''idempotency_key is required''"
definition ErrInvalidVerdict :: go_err where "ErrInvalidVerdict = Sentinel ''tasks'' ''verdict must be looks_good''"
definition ErrInvalidEffect :: go_err where "ErrInvalidEffect = Sentinel ''tasks'' ''invalid lifecycle_effect''"
definition ErrAcceptanceTaskChanged :: go_err where
  "ErrAcceptanceTaskChanged = Sentinel ''tasks'' (''task changed after the caller'' @ [CHR 0x27] @ ''s readback'')"
definition ErrReconciliationRequired :: go_err where
  "ErrReconciliationRequired = Sentinel ''tasks'' ''reviewed_revision requires expected_task_updated_at reconciliation''"
definition ErrAcceptanceKeyConflict :: go_err where
  "ErrAcceptanceKeyConflict = Sentinel ''tasks'' ''idempotency key was already used with other facts''"
definition ErrAcceptanceCancelled :: go_err where
  "ErrAcceptanceCancelled = Sentinel ''tasks'' ''cancelled task cannot be accepted''"
definition ErrAcceptanceParentMissing :: go_err where
  "ErrAcceptanceParentMissing = Sentinel ''tasks'' ''task has no parent to complete''"
definition ErrAcceptanceParentIneligible :: go_err where
  "ErrAcceptanceParentIneligible = Sentinel ''tasks'' ''parent has unfinished children or dependencies''"

record acceptance_request =
  aq_reviewer :: string
  aq_verdict :: string
  aq_rationale :: string
  aq_revision :: string
  aq_build :: string
  aq_environment :: string
  aq_evidence :: "string list"
  aq_effect :: string
  aq_key :: string
  aq_expected :: "time option"

record acceptance_facts =
  af_reviewer :: string
  af_verdict :: string
  af_rationale :: string
  af_revision :: string
  af_build :: string
  af_environment :: string
  af_evidence :: "string list"
  af_effect :: string

record acceptance_command =
  ac_task :: int
  ac_key :: string
  ac_fingerprint :: string
  ac_facts :: acceptance_facts
  ac_expected :: "time option"
  ac_created :: time

record acceptance_review =
  av_id :: int
  av_task :: int
  av_project :: string
  av_key :: string
  av_fingerprint :: string
  av_reviewer :: string
  av_verdict :: string
  av_rationale :: string
  av_revision :: string
  av_build :: string
  av_environment :: string
  av_evidence :: "string list"
  av_effect :: string
  av_note :: string
  av_before :: string
  av_after :: string
  av_parent :: "int option"
  av_parent_before :: string
  av_parent_after :: string
  av_created :: time

record acceptance_mutation =
  am_review :: acceptance_review
  am_task :: task
  am_parent :: "task option"
  am_changed :: "int list"
  am_unchanged :: "int list"

text \<open>The loop of \<open>normalizeEvidenceLinks\<close> is the one of \<open>normalizeTags\<close>.\<close>

definition normalizeEvidenceLinks :: "string list \<Rightarrow> string list" where
  "normalizeEvidenceLinks values = normalize_tags_loop [] values"

definition normalizeHumanAcceptance ::
    "(acceptance_facts \<Rightarrow> string) \<Rightarrow> acceptance_request \<Rightarrow> go_err + acceptance_facts \<times> string" where
  "normalizeHumanAcceptance fingerprint r =
     (if trim_space (aq_reviewer r) = [] then Inl ErrMissingReviewer
      else
      let verdict = (if aq_verdict r = [] then VerdictLooksGood else aq_verdict r) in
      if verdict \<noteq> VerdictLooksGood then Inl ErrInvalidVerdict
      else
      let rationale = (if trim_space (aq_rationale r) = [] then ''Looks good.'' else trim_space (aq_rationale r));
          effect = (if aq_effect r = [] then HumanAcceptanceRecordOnly else aq_effect r)
      in if effect \<notin> {HumanAcceptanceRecordOnly, HumanAcceptanceCompleteTask, HumanAcceptanceCompleteTaskAndParent}
         then Inl ErrInvalidEffect
         else let facts = \<lparr>af_reviewer = trim_space (aq_reviewer r), af_verdict = verdict, af_rationale = rationale,
                           af_revision = trim_space (aq_revision r), af_build = trim_space (aq_build r),
                           af_environment = trim_space (aq_environment r),
                           af_evidence = normalizeEvidenceLinks (aq_evidence r), af_effect = effect\<rparr>
              in Inr (facts, fingerprint facts))"

fun join_text :: "string \<Rightarrow> string list \<Rightarrow> string" where
  "join_text sep [] = []"
| "join_text sep [x] = x"
| "join_text sep (x # y # zs) = x @ sep @ join_text sep (y # zs)"

definition humanAcceptanceNote :: "acceptance_facts \<Rightarrow> string" where
  "humanAcceptanceNote f =
     join_text [CHR 0x0A]
       ([''## Human acceptance: Looks good'', [], ''- Reviewer: '' @ af_reviewer f,
         ''- Observation: '' @ af_rationale f, ''- Lifecycle effect: '' @ af_effect f] @
        (if af_revision f \<noteq> [] then [''- Reviewed revision: '' @ af_revision f] else []) @
        (if af_build f \<noteq> [] then [''- Reviewed build: '' @ af_build f] else []) @
        (if af_environment f \<noteq> [] then [''- Environment: '' @ af_environment f] else []) @
        (if length (af_evidence f) > 0 then [''- Evidence: '' @ join_text '', '' (af_evidence f)] else []))"

section \<open>Statements\<close>

definition getHumanAcceptanceSQL :: "int \<Rightarrow> string \<Rightarrow> task_tables \<Rightarrow> accept_row option" where
  "getHumanAcceptanceSQL i key d = find (\<lambda>a. ar_task a = i \<and> ar_key a = key) (tk_accepts d)"

definition listHumanAcceptancesSQL :: "int \<Rightarrow> task_tables \<Rightarrow> accept_row list" where
  "listHumanAcceptancesSQL i d =
     sort_key (\<lambda>a. (- ar_created a, - ar_id a)) (filter (\<lambda>a. ar_task a = i) (tk_accepts d))"

definition unfinishedChildrenSQL :: "int \<Rightarrow> task_tables \<Rightarrow> int" where
  "unfinishedChildrenSQL p d =
     count_where (\<lambda>r. tr_parent r = Some p \<and> tr_status r \<notin> {''done'', ''cancelled''}) (tk_rows d)"

definition unfinishedParentDependenciesSQL :: "int \<Rightarrow> task_tables \<Rightarrow> int" where
  "unfinishedParentDependenciesSQL p d = unfinished_dep_count d p"

definition accept_row_of :: "acceptance_review \<Rightarrow> int \<Rightarrow> accept_row" where
  "accept_row_of v n =
     \<lparr>ar_id = n, ar_task = av_task v, ar_project = av_project v, ar_key = av_key v,
      ar_fingerprint = av_fingerprint v, ar_reviewer = av_reviewer v, ar_verdict = av_verdict v,
      ar_rationale = av_rationale v, ar_revision = emptyToNil (av_revision v), ar_build = emptyToNil (av_build v),
      ar_environment = emptyToNil (av_environment v), ar_evidence = av_evidence v, ar_effect = av_effect v,
      ar_note = av_note v, ar_before = av_before v, ar_after = av_after v, ar_parent = av_parent v,
      ar_parent_before = emptyToNil (av_parent_before v), ar_parent_after = emptyToNil (av_parent_after v),
      ar_created = av_created v\<rparr>"

definition scanHumanAcceptance :: "accept_row \<Rightarrow> acceptance_review" where
  "scanHumanAcceptance a =
     \<lparr>av_id = ar_id a, av_task = ar_task a, av_project = ar_project a, av_key = ar_key a,
      av_fingerprint = ar_fingerprint a, av_reviewer = ar_reviewer a, av_verdict = ar_verdict a,
      av_rationale = ar_rationale a, av_revision = nilToString (ar_revision a), av_build = nilToString (ar_build a),
      av_environment = nilToString (ar_environment a), av_evidence = ar_evidence a, av_effect = ar_effect a,
      av_note = ar_note a, av_before = ar_before a, av_after = ar_after a, av_parent = ar_parent a,
      av_parent_before = nilToString (ar_parent_before a), av_parent_after = nilToString (ar_parent_after a),
      av_created = ar_created a\<rparr>"

definition insertHumanAcceptanceSQL :: "acceptance_review \<Rightarrow> (task_tables, accept_row) stmt" where
  "insertHumanAcceptanceSQL v d =
     (if \<not> task_exists (av_task v) d \<or> getHumanAcceptanceSQL (av_task v) (av_key v) d \<noteq> None \<or>
         (case av_parent v of None \<Rightarrow> False | Some p \<Rightarrow> \<not> task_exists p d) then None
      else let a = accept_row_of v (tk_next_accept d)
           in Some (a, d\<lparr>tk_accepts := tk_accepts d @ [a], tk_next_accept := tk_next_accept d + 1\<rparr>))"

section \<open>The transaction\<close>

definition getHumanAcceptanceTx :: "int \<Rightarrow> string \<Rightarrow> acceptance_review option tasks_tx" where
  "getHumanAcceptanceTx i key =
     tx_bind (tx_call (read_only (getHumanAcceptanceSQL i key))) (\<lambda>found. tx_return (map_option scanHumanAcceptance found))"

definition insertHumanAcceptanceTx :: "acceptance_review \<Rightarrow> acceptance_review tasks_tx" where
  "insertHumanAcceptanceTx v =
     tx_bind (tx_wrap ''inserting human acceptance: '' (tx_call (insertHumanAcceptanceSQL v))) (\<lambda>a.
     tx_return (scanHumanAcceptance a))"

definition completion_patch :: "task \<Rightarrow> task_patch" where
  "completion_patch current =
     (let patch = empty_patch\<lparr>pa_status := Some StatusDone\<rparr>
      in if ta_status current = StatusBlocked then clear_blockers patch else patch)"

definition completeTaskTx :: "task \<Rightarrow> string \<Rightarrow> time \<Rightarrow> task tasks_tx" where
  "completeTaskTx current reviewer at =
     (if ta_status current = StatusDone then tx_return current
      else updateTaskTx (ta_id current) current (completion_patch current) reviewer at)"

definition parentCompletionEligibleTx :: "int \<Rightarrow> bool tasks_tx" where
  "parentCompletionEligibleTx p =
     tx_bind (tx_wrap ''checking parent children: '' (tx_call (read_only (unfinishedChildrenSQL p)))) (\<lambda>children.
     tx_bind (tx_wrap ''checking parent dependencies: '' (tx_call (read_only (unfinishedParentDependenciesSQL p)))) (\<lambda>deps.
     tx_return (children = 0 \<and> deps = 0)))"

definition split_change :: "bool \<Rightarrow> int \<Rightarrow> int list \<times> int list \<Rightarrow> int list \<times> int list" where
  "split_change same i cu = (case cu of (changed, unchanged) \<Rightarrow> if same then (changed, unchanged @ [i]) else (changed @ [i], unchanged))"

definition readHumanAcceptanceMutationTx :: "acceptance_review \<Rightarrow> task \<Rightarrow> acceptance_mutation tasks_tx" where
  "readHumanAcceptanceMutationTx v current =
     (let own = split_change (av_before v = av_after v) (ta_id current) ([], [])
      in case av_parent v of
           None \<Rightarrow> tx_return \<lparr>am_review = v, am_task = current, am_parent = None, am_changed = fst own, am_unchanged = snd own\<rparr>
         | Some p \<Rightarrow>
             tx_bind (getTaskTx p) (\<lambda>parent.
               let both = split_change (av_parent_before v = av_parent_after v) (ta_id parent) own
               in tx_return \<lparr>am_review = v, am_task = current, am_parent = Some parent, am_changed = fst both,
                             am_unchanged = snd both\<rparr>))"

text \<open>The part of \<open>RecordHumanAcceptance\<close> that completes the parent: its status before, and the parent after.\<close>

definition complete_parent :: "acceptance_command \<Rightarrow> task \<Rightarrow> (string \<times> task) tasks_tx" where
  "complete_parent c task_after =
     (case ta_parent task_after of
        None \<Rightarrow> tx_fail (tasks_conflict ErrAcceptanceParentMissing ''human_acceptance_parent_missing'')
      | Some p \<Rightarrow>
          tx_bind (getTaskForUpdateTx p) (\<lambda>parent.
          if ta_status parent = StatusCancelled then
            tx_fail (tasks_conflict ErrAcceptanceParentIneligible ''human_acceptance_parent_ineligible'')
          else tx_bind (parentCompletionEligibleTx (ta_id parent)) (\<lambda>eligible.
          if \<not> eligible then
            tx_fail (tasks_conflict ErrAcceptanceParentIneligible ''human_acceptance_parent_ineligible'')
          else tx_bind (completeTaskTx parent (af_reviewer (ac_facts c)) (ac_created c)) (\<lambda>after.
          tx_return (ta_status parent, after)))))"

definition review_of :: "acceptance_command \<Rightarrow> task \<Rightarrow> task \<Rightarrow> (string \<times> task) option \<Rightarrow> acceptance_review" where
  "review_of c current task_after parent =
     (let f = ac_facts c in
      \<lparr>av_id = 0, av_task = ac_task c, av_project = ta_project current, av_key = ac_key c,
       av_fingerprint = ac_fingerprint c, av_reviewer = af_reviewer f, av_verdict = af_verdict f,
       av_rationale = af_rationale f, av_revision = af_revision f, av_build = af_build f,
       av_environment = af_environment f, av_evidence = af_evidence f, av_effect = af_effect f,
       av_note = humanAcceptanceNote f, av_before = ta_status current, av_after = ta_status task_after,
       av_parent = map_option (\<lambda>(_, p). ta_id p) parent,
       av_parent_before = (case parent of None \<Rightarrow> [] | Some (before, _) \<Rightarrow> before),
       av_parent_after = (case parent of None \<Rightarrow> [] | Some (_, p) \<Rightarrow> ta_status p), av_created = ac_created c\<rparr>)"

definition record_acceptance_body :: "acceptance_command \<Rightarrow> task \<Rightarrow> acceptance_mutation tasks_tx" where
  "record_acceptance_body c current =
     (let effect = af_effect (ac_facts c) in
      tx_bind (if effect \<noteq> HumanAcceptanceRecordOnly
               then completeTaskTx current (af_reviewer (ac_facts c)) (ac_created c) else tx_return current) (\<lambda>task_after.
      let own = split_change (effect = HumanAcceptanceRecordOnly \<or> ta_status current = ta_status task_after)
                  (ta_id task_after) ([], []) in
      tx_bind (if effect = HumanAcceptanceCompleteTaskAndParent
               then tx_bind (complete_parent c task_after) (\<lambda>p. tx_return (Some p)) else tx_return None) (\<lambda>parent.
      let both = (case parent of None \<Rightarrow> own | Some (before, p) \<Rightarrow> split_change (before = ta_status p) (ta_id p) own) in
      tx_bind (insertHumanAcceptanceTx (review_of c current task_after parent)) (\<lambda>review.
      tx_bind (recordTaskChangesTx ''human_acceptance_recorded'' [ta_id task_after]) (\<lambda>_.
      tx_return \<lparr>am_review = review, am_task = task_after, am_parent = map_option snd parent,
                 am_changed = fst both, am_unchanged = snd both\<rparr>)))))"

definition tk_RecordHumanAcceptance ::
    "acceptance_command \<Rightarrow> task_tables pg \<Rightarrow> ((go_err + acceptance_mutation) \<times> task_tables pg) option" where
  "tk_RecordHumanAcceptance c =
     run_tx ''beginning human acceptance: ''
       (tx_bind (getTaskForUpdateTx (ac_task c)) (\<lambda>current.
        tx_bind (getHumanAcceptanceTx (ac_task c) (ac_key c)) (\<lambda>existing.
        case existing of
          Some v \<Rightarrow>
            if av_fingerprint v \<noteq> ac_fingerprint c then
              tx_fail (tasks_conflict ErrAcceptanceKeyConflict ''human_acceptance_idempotency_conflict'')
            else tx_bind (readHumanAcceptanceMutationTx v current) (\<lambda>m.
                 tx_return (m, ''committing human acceptance retry: ''))
        | None \<Rightarrow>
            if (case ac_expected c of None \<Rightarrow> False | Some at \<Rightarrow> ta_updated current \<noteq> at) then
              tx_fail (tasks_conflict ErrAcceptanceTaskChanged ''human_acceptance_task_changed'')
            else if ta_status current = StatusCancelled \<and> af_effect (ac_facts c) \<noteq> HumanAcceptanceRecordOnly then
              tx_fail (tasks_conflict ErrAcceptanceCancelled ''human_acceptance_task_cancelled'')
            else tx_bind (record_acceptance_body c current) (\<lambda>m.
                 tx_return (m, ''committing human acceptance: '')))))"

definition tk_humanAcceptanceReviews :: "int \<Rightarrow> task_tables pg \<Rightarrow> (go_err + acceptance_review list) \<times> task_tables pg" where
  "tk_humanAcceptanceReviews i =
     query_rows ''listing human acceptance reviews: '' ''reading human acceptance reviews: ''
       (listHumanAcceptancesSQL i) (\<lambda>_ a. Inr (scanHumanAcceptance a))"

record task_detail =
  td_task :: task
  td_deps :: "dependency_info list"
  td_subtasks :: "task_summary list"
  td_history :: "task_history list"
  td_reviews :: "acceptance_review list"

definition subtasks_query :: "task \<Rightarrow> list_tasks_query" where
  "subtasks_query t =
     \<lparr>lq_project = ta_project t, lq_statuses = [], lq_assigned = [], lq_tags = [], lq_max_priority = None,
      lq_parent = Some (ta_id t), lq_include_all = False, lq_limit = 0, lq_offset = 0\<rparr>"

definition tk_GetDetail :: "int \<Rightarrow> task_tables pg \<Rightarrow> (go_err + task_detail) \<times> task_tables pg" where
  "tk_GetDetail i db =
     (case tk_GetTask i db of (Inl e, db1) \<Rightarrow> (Inl e, db1) | (Inr t, db1) \<Rightarrow>
     (case tk_dependencies i db1 of (Inl e, db2) \<Rightarrow> (Inl e, db2) | (Inr deps, db2) \<Rightarrow>
     (case tk_ListTasks (subtasks_query t) db2 of (Inl e, db3) \<Rightarrow> (Inl e, db3) | (Inr subs, db3) \<Rightarrow>
     (case tk_History i db3 of (Inl e, db4) \<Rightarrow> (Inl e, db4) | (Inr hist, db4) \<Rightarrow>
     (case tk_humanAcceptanceReviews i db4 of (Inl e, db5) \<Rightarrow> (Inl e, db5) | (Inr reviews, db5) \<Rightarrow>
       (Inr \<lparr>td_task = t, td_deps = deps, td_subtasks = subs, td_history = hist, td_reviews = reviews\<rparr>, db5))))))"

end
