(* ===== verification/Tasks_Service.thy ===== *)
theory Tasks_Service
  imports Tasks_Accept
begin

text \<open>
  The tasks service (\<open>tasks/internal/service.go\<close>) over its store and its scope validator, whose
  interfaces are records of functions on a world \<open>'w\<close>. A method whose result is an option may fail
  to return.
\<close>

type_synonym ('w, 'a) task_read = "'w \<Rightarrow> (go_err + 'a) \<times> 'w"
type_synonym ('w, 'a) task_write = "'w \<Rightarrow> ((go_err + 'a) \<times> 'w) option"

record 'w task_store =
  ts_Ping :: "('w, unit) task_read"
  ts_CreateTask :: "task \<Rightarrow> int list \<Rightarrow> ('w, task) task_write"
  ts_GetTask :: "int \<Rightarrow> ('w, task) task_read"
  ts_GetDetail :: "int \<Rightarrow> ('w, task_detail) task_read"
  ts_ListTasks :: "list_tasks_query \<Rightarrow> ('w, task_summary list) task_read"
  ts_UpdateTask :: "int \<Rightarrow> task_patch \<Rightarrow> string \<Rightarrow> time \<Rightarrow> ('w, task) task_write"
  ts_TransitionTaskToReview :: "string \<Rightarrow> int \<Rightarrow> string \<Rightarrow> time \<Rightarrow> ('w, task \<times> string) task_write"
  ts_AddDependency :: "int \<Rightarrow> int \<Rightarrow> ('w, unit) task_write"
  ts_RemoveDependency :: "int \<Rightarrow> int \<Rightarrow> ('w, unit) task_write"
  ts_NextTask :: "string \<Rightarrow> string \<Rightarrow> ('w, task option) task_read"
  ts_History :: "int \<Rightarrow> ('w, task_history list) task_read"
  ts_ListTaskChanges :: "task_change_query \<Rightarrow> ('w, task_change list) task_read"
  ts_RecordHumanAcceptance :: "acceptance_command \<Rightarrow> ('w, acceptance_mutation) task_write"

record 'w task_service =
  tv_store :: "'w task_store"
  tv_writable :: "string \<Rightarrow> 'w \<Rightarrow> go_err option \<times> 'w"
  tv_clock :: "'w \<Rightarrow> time"
  tv_wall :: "'w \<Rightarrow> time"
  tv_fingerprint :: "acceptance_facts \<Rightarrow> string"

definition tv_CheckStore :: "'w task_service \<Rightarrow> ('w, unit) task_read" where
  "tv_CheckStore s w = ts_Ping (tv_store s) w"

definition tv_CreateTask :: "'w task_service \<Rightarrow> string \<Rightarrow> create_task_request \<Rightarrow> ('w, task) task_write" where
  "tv_CreateTask s project req w =
     (let project = trim_space project in
      if project = [] then Some (Inl (tasks_invalid ErrTaskMissingProject), w)
      else case tv_writable s project w of
        (Some e, w1) \<Rightarrow> Some (Inl e, w1)
      | (None, w1) \<Rightarrow>
          let now = tv_clock s w1 in
          (case NewTask (tv_wall s w1)
              \<lparr>ta_id = 0, ta_project = project, ta_parent = ct_parent req, ta_title = ct_title req,
               ta_description = ct_description req, ta_status = [], ta_priority = ct_priority req,
               ta_assigned = ct_assigned req, ta_tags = ct_tags req, ta_summary = [], ta_reason = [],
               ta_remedies = [], ta_next_step = [], ta_human = False, ta_created = now, ta_updated = now\<rparr> of
             Inl e \<Rightarrow> Some (Inl (tasks_invalid e), w1)
           | Inr t \<Rightarrow> ts_CreateTask (tv_store s) t (ct_depends req) w1))"

definition tv_GetTask :: "'w task_service \<Rightarrow> int \<Rightarrow> ('w, task_detail) task_read" where
  "tv_GetTask s i w = ts_GetDetail (tv_store s) i w"

definition tv_ListTasks :: "'w task_service \<Rightarrow> string \<Rightarrow> list_tasks_query \<Rightarrow> ('w, task_summary list) task_read" where
  "tv_ListTasks s project q w =
     (let project = trim_space project in
      if project = [] then (Inl (tasks_invalid ErrTaskMissingProject), w)
      else case find (\<lambda>st. \<not> validStatus st) (lq_statuses q) of
        Some st \<Rightarrow> (Inl (tasks_invalid (Wrapped [] ErrInvalidStatus ('': '' @ st))), w)
      | None \<Rightarrow>
          if (case lq_max_priority q of None \<Rightarrow> False | Some p \<Rightarrow> p < 1 \<or> p > 5) then (Inl (tasks_invalid ErrInvalidPriority), w)
          else if lq_limit q < 0 \<or> lq_limit q > 200 \<or> lq_offset q < 0 then (Inl (tasks_invalid ErrInvalidTask), w)
          else ts_ListTasks (tv_store s) (q\<lparr>lq_project := project\<rparr>) w)"

text \<open>The guard shared by the methods that change a stored task: it exists and its project is writable.\<close>

definition writable_task :: "'w task_service \<Rightarrow> int \<Rightarrow> ('w, task) task_read" where
  "writable_task s i w =
     (case ts_GetTask (tv_store s) i w of
        (Inl e, w1) \<Rightarrow> (Inl e, w1)
      | (Inr current, w1) \<Rightarrow>
          (case tv_writable s (ta_project current) w1 of
             (Some e, w2) \<Rightarrow> (Inl e, w2)
           | (None, w2) \<Rightarrow> (Inr current, w2)))"

definition tv_UpdateTask :: "'w task_service \<Rightarrow> int \<Rightarrow> update_task_request \<Rightarrow> ('w, task) task_write" where
  "tv_UpdateTask s i req w =
     (if trim_space (ut_agent req) = [] then Some (Inl (tasks_invalid ErrMissingAgent), w)
      else if \<not> HasChanges req then Some (Inl (tasks_invalid ErrEmptyPatch), w)
      else case writable_task s i w of
        (Inl e, w1) \<Rightarrow> Some (Inl e, w1)
      | (Inr current, w1) \<Rightarrow>
          (case buildPatch current req of
             Inl e \<Rightarrow> Some (Inl (tasks_invalid e), w1)
           | Inr patch \<Rightarrow> ts_UpdateTask (tv_store s) i patch (trim_space (ut_agent req)) (tv_clock s w1) w1))"

definition tv_TransitionTaskToReview ::
    "'w task_service \<Rightarrow> string \<Rightarrow> int \<Rightarrow> string \<Rightarrow> ('w, task \<times> string) task_write" where
  "tv_TransitionTaskToReview s project i agent w =
     (let project = trim_space project; agent = trim_space agent in
      if project = [] then Some (Inl (tasks_invalid ErrTaskMissingProject), w)
      else if agent = [] then Some (Inl (tasks_invalid ErrMissingAgent), w)
      else case ts_GetTask (tv_store s) i w of
        (Inl e, w1) \<Rightarrow> Some (Inl e, w1)
      | (Inr current, w1) \<Rightarrow>
          if ta_project current \<noteq> project then Some (Inl (taskNotFound i), w1)
          else (case tv_writable s project w1 of
            (Some e, w2) \<Rightarrow> Some (Inl e, w2)
          | (None, w2) \<Rightarrow> ts_TransitionTaskToReview (tv_store s) project i agent (tv_clock s w2) w2))"

definition tv_AddDependency :: "'w task_service \<Rightarrow> int \<Rightarrow> int \<Rightarrow> ('w, unit) task_write" where
  "tv_AddDependency s i dep w =
     (case writable_task s i w of
        (Inl e, w1) \<Rightarrow> Some (Inl e, w1)
      | (Inr _, w1) \<Rightarrow> ts_AddDependency (tv_store s) i dep w1)"

definition tv_RemoveDependency :: "'w task_service \<Rightarrow> int \<Rightarrow> int \<Rightarrow> ('w, unit) task_write" where
  "tv_RemoveDependency s i dep w =
     (case writable_task s i w of
        (Inl e, w1) \<Rightarrow> Some (Inl e, w1)
      | (Inr _, w1) \<Rightarrow> ts_RemoveDependency (tv_store s) i dep w1)"

definition tv_NextTask :: "'w task_service \<Rightarrow> string \<Rightarrow> string \<Rightarrow> ('w, task option) task_read" where
  "tv_NextTask s project assigned w =
     (let project = trim_space project in
      if project = [] then (Inl (tasks_invalid ErrTaskMissingProject), w)
      else ts_NextTask (tv_store s) project (trim_space assigned) w)"

definition tv_History :: "'w task_service \<Rightarrow> int \<Rightarrow> ('w, task_history list) task_read" where
  "tv_History s i w = ts_History (tv_store s) i w"

definition tv_RecordHumanAcceptance ::
    "'w task_service \<Rightarrow> int \<Rightarrow> acceptance_request \<Rightarrow> ('w, acceptance_mutation) task_write" where
  "tv_RecordHumanAcceptance s i req w =
     (case writable_task s i w of
        (Inl e, w1) \<Rightarrow> Some (Inl e, w1)
      | (Inr _, w1) \<Rightarrow>
          let key = trim_space (aq_key req) in
          if key = [] then Some (Inl (tasks_invalid ErrMissingIdempotencyKey), w1)
          else (case normalizeHumanAcceptance (tv_fingerprint s) req of
            Inl e \<Rightarrow> Some (Inl (tasks_invalid e), w1)
          | Inr (facts, fingerprint) \<Rightarrow>
              if af_revision facts \<noteq> [] \<and> aq_expected req = None then
                Some (Inl (tasks_conflict ErrReconciliationRequired ''human_acceptance_reconciliation_required''), w1)
              else ts_RecordHumanAcceptance (tv_store s)
                \<lparr>ac_task = i, ac_key = key, ac_fingerprint = fingerprint, ac_facts = facts,
                 ac_expected = aq_expected req, ac_created = tv_clock s w1\<rparr> w1))"

definition tv_ListTaskChanges :: "'w task_service \<Rightarrow> string \<Rightarrow> int \<Rightarrow> int \<Rightarrow> ('w, task_change list) task_read" where
  "tv_ListTaskChanges s project after limit w =
     (let project = trim_space project in
      if project = [] then (Inl (tasks_invalid ErrTaskMissingProject), w)
      else if after < 0 then (Inl (tasks_invalid (Errorf ''after must be non-negative'')), w)
      else if limit \<le> 0 then (Inl (tasks_invalid (Errorf ''limit must be positive'')), w)
      else ts_ListTaskChanges (tv_store s) \<lparr>gq_project = project, gq_after = after, gq_limit = limit\<rparr> w)"

section \<open>The PostgreSQL store behind the interface\<close>

definition pg_task_store :: "task_tables pg task_store" where
  "pg_task_store =
     \<lparr>ts_Ping = tk_Ping, ts_CreateTask = tk_CreateTask, ts_GetTask = tk_GetTask, ts_GetDetail = tk_GetDetail,
      ts_ListTasks = tk_ListTasks, ts_UpdateTask = tk_UpdateTask,
      ts_TransitionTaskToReview = tk_TransitionTaskToReview, ts_AddDependency = tk_AddDependency,
      ts_RemoveDependency = tk_RemoveDependency, ts_NextTask = tk_NextTask, ts_History = tk_History,
      ts_ListTaskChanges = tk_ListTaskChanges, ts_RecordHumanAcceptance = tk_RecordHumanAcceptance\<rparr>"

section \<open>The scope client\<close>

text \<open>
  \<open>ProjectScopeClient.AssertWritable\<close> (\<open>tasks/internal/scope.go\<close>): the HTTP exchange is an argument, a
  status with its text and the message of the decoded envelope, or an error of building or sending
  the request with the text the code wraps it in.
\<close>

definition ErrScopeClientUnconfigured :: go_err where
  "ErrScopeClientUnconfigured = Sentinel ''tasks'' ''projects scope client is not configured''"

record task_scope_reply =
  tq_code :: int
  tq_text :: string
  tq_message :: string

definition TaskScopeClient_AssertWritable ::
    "(string \<Rightarrow> 'w \<Rightarrow> (go_err + task_scope_reply) \<times> 'w) \<Rightarrow> string \<Rightarrow> string \<Rightarrow> 'w \<Rightarrow> go_err option \<times> 'w" where
  "TaskScopeClient_AssertWritable exchange baseURL project w =
     (if baseURL = [] then (Some (ServiceErr ErrScopeClientUnconfigured ''project_scope_client_unconfigured'' 500), w)
      else case exchange project w of
        (Inl e, w1) \<Rightarrow> (Some (Wrapped ''asserting project scope writable: '' e []), w1)
      | (Inr r, w1) \<Rightarrow>
          if tq_code r \<ge> 200 \<and> tq_code r < 300 then (None, w1)
          else
            let message = (if trim_space (tq_message r) = [] then tq_text r else trim_space (tq_message r)) in
            if tq_code r = 409 then
              (Some (tasks_conflict (Errorf (''project scope is not writable: '' @ message)) ''project_scope_not_writable''), w1)
            else if tq_code r = 404 then
              (Some (tasks_invalid (Errorf (''project scope not found: '' @ project))), w1)
            else (Some (Errorf (''project scope writable check failed: '' @ message)), w1))"

end
