(* ===== verification/Tasks_View.thy ===== *)
theory Tasks_View
  imports Tasks_Service
begin

text \<open>
  What the tasks store promises: a map of tasks and a graph of dependencies, well formed, and the
  effect of each operation on them.
\<close>

section \<open>The abstract state\<close>

record task_view =
  vt :: "int \<rightharpoonup> task"
  vd :: "(int \<times> int) set"

definition parents :: "(int \<rightharpoonup> task) \<Rightarrow> (int \<times> int) set" where
  "parents T = {(i, p). \<exists>t. T i = Some t \<and> ta_parent t = Some p}"

definition tasks_ok :: "(int \<rightharpoonup> task) \<Rightarrow> bool" where
  "tasks_ok T \<longleftrightarrow> finite (dom T) \<and> (\<forall>i t. T i = Some t \<longrightarrow> 0 < i \<and> ta_id t = i \<and> task_ok t) \<and>
     (\<forall>i t p. T i = Some t \<longrightarrow> ta_parent t = Some p \<longrightarrow> (\<exists>q. T p = Some q \<and> ta_project q = ta_project t)) \<and>
     acyclic (parents T)"

definition view_ok :: "task_view \<Rightarrow> bool" where
  "view_ok v \<longleftrightarrow> tasks_ok (vt v) \<and> vd v \<subseteq> dom (vt v) \<times> dom (vt v) \<and> acyclic (vd v)"

section \<open>Patches\<close>

definition patch_ok :: "task_patch \<Rightarrow> bool" where
  "patch_ok p \<longleftrightarrow> pred_option (\<lambda>s. s \<noteq> [] \<and> trimmed s) (pa_title p) \<and> pred_option trimmed (pa_description p) \<and>
     pred_option validStatus (pa_status p) \<and> pred_option (\<lambda>n. 1 \<le> n \<and> n \<le> 5) (pa_priority p) \<and>
     pred_option trimmed (pa_assigned p) \<and> distinct (pa_tags p) \<and> (\<forall>g\<in>set (pa_tags p). g \<noteq> [] \<and> trimmed g) \<and>
     pred_option trimmed (pa_summary p) \<and> pred_option trimmed (pa_reason p) \<and>
     pred_option trimmed (pa_remedies p) \<and> pred_option trimmed (pa_next_step p)"

definition patched :: "task_patch \<Rightarrow> time \<Rightarrow> task \<Rightarrow> task" where
  "patched p at t = t\<lparr>
     ta_title := coalesce (pa_title p) (ta_title t), ta_description := coalesce (pa_description p) (ta_description t),
     ta_status := coalesce (pa_status p) (ta_status t), ta_priority := coalesce (pa_priority p) (ta_priority t),
     ta_assigned := coalesce (pa_assigned p) (ta_assigned t),
     ta_tags := (if pa_has_tags p then pa_tags p else ta_tags t),
     ta_parent := (if pa_has_parent p then pa_parent p else ta_parent t),
     ta_summary := coalesce (pa_summary p) (ta_summary t), ta_reason := coalesce (pa_reason p) (ta_reason t),
     ta_remedies := coalesce (pa_remedies p) (ta_remedies t), ta_next_step := coalesce (pa_next_step p) (ta_next_step t),
     ta_human := coalesce (pa_human p) (ta_human t), ta_updated := at\<rparr>"

lemma patched_simps [simp]:
  "ta_id (patched p at t) = ta_id t" "ta_project (patched p at t) = ta_project t"
  "ta_status (patched p at t) = coalesce (pa_status p) (ta_status t)"
  "ta_parent (patched p at t) = (if pa_has_parent p then pa_parent p else ta_parent t)"
  "ta_updated (patched p at t) = at"
  by (simp_all add: patched_def)

lemma patched_ok:
  assumes "task_ok t" and "patch_ok p" and "\<not> is_zero_time at"
  shows "task_ok (patched p at t)"
proof -
  have "P (coalesce v old)" if "pred_option P v" "P old" for P and v :: "'b option" and old
    using that by (cases v) (simp_all add: coalesce_def)
  note co = this [of "\<lambda>s. s \<noteq> [] \<and> trimmed s"] this [of trimmed] this [of validStatus] this [of "\<lambda>n. 1 \<le> n \<and> n \<le> 5"]
  from assms show ?thesis
    unfolding task_ok_def patched_def patch_ok_def by (simp add: co)
qed

text \<open>The patch of the reviewed and of the accepted status.\<close>

lemma empty_patch_ok [simp]: "patch_ok empty_patch"
  by (simp add: patch_ok_def empty_patch_def)

lemma status_patch_ok [simp]: "patch_ok p \<Longrightarrow> validStatus s \<Longrightarrow> patch_ok (p\<lparr>pa_status := Some s\<rparr>)"
  by (simp add: patch_ok_def)

lemma clear_blockers_ok [simp]: "patch_ok p \<Longrightarrow> patch_ok (clear_blockers p)"
  by (simp add: patch_ok_def clear_blockers_def)

lemma validStatus_known [simp]: "validStatus StatusReview" "validStatus StatusDone"
  by (simp_all add: validStatus_def)

lemma completion_patch_ok [simp]: "patch_ok (completion_patch t)"
  by (simp add: completion_patch_def Let_def)

lemma request_patch_ok: "pa_title (request_patch r) \<noteq> Some [] \<Longrightarrow> pred_option (\<lambda>n. 1 \<le> n \<and> n \<le> 5) (ut_priority r) \<Longrightarrow>
    patch_ok (request_patch r)"
proof -
  assume a: "pa_title (request_patch r) \<noteq> Some []" "pred_option (\<lambda>n. 1 \<le> n \<and> n \<le> 5) (ut_priority r)"
  have "pred_option trimmed (trimStringPointer v)" for v by (cases v) (simp_all add: trimStringPointer_def)
  moreover from a(1) have "pred_option (\<lambda>s. s \<noteq> [] \<and> trimmed s) (trimStringPointer (ut_title r))"
    by (cases "ut_title r") (simp_all add: request_patch_def trimStringPointer_def)
  ultimately show "patch_ok (request_patch r)"
    using a(2) normalizeTags_ok by (simp add: patch_ok_def request_patch_def)
qed

lemma patch_status_fields:
  "patch_status current status p = Inr q \<Longrightarrow>
     pa_title q = pa_title p \<and> pa_priority q = pa_priority p \<and> pa_parent q = pa_parent p \<and> pa_has_parent q = pa_has_parent p \<and>
     (patch_ok p \<longrightarrow> patch_ok q) \<and> pa_status q = (case status of None \<Rightarrow> pa_status p | Some s \<Rightarrow> Some (trim_space s))"
proof (cases status)
  case (Some raw)
  let ?p = "p\<lparr>pa_status := Some (trim_space raw)\<rparr>"
  assume "patch_status current status p = Inr q"
  with Some have v: "validStatus (trim_space raw)" and q: "q = ?p \<or> q = clear_blockers ?p"
    by (auto simp: patch_status_def Let_def split: if_split_asm)
  from v have "patch_ok p \<longrightarrow> patch_ok q" using q by auto
  moreover from q have "pa_title q = pa_title p \<and> pa_priority q = pa_priority p \<and> pa_parent q = pa_parent p \<and>
      pa_has_parent q = pa_has_parent p \<and> pa_status q = Some (trim_space raw)"
    by (elim disjE) (simp_all add: clear_blockers_def)
  ultimately show ?thesis using Some by simp
qed (simp add: patch_status_def)

lemma buildPatch_ok:
  assumes "buildPatch current r = Inr p"
  shows "patch_ok p" and "pa_status p = map_option trim_space (ut_status r)"
    and "pa_has_parent p = (ut_parent r \<noteq> None \<or> ut_clear_parent r)"
    and "pa_parent p = (if ut_clear_parent r then None else ut_parent r)"
proof -
  from assms obtain q where q: "patch_status current (ut_status r) (request_patch r) = Inr q" "pa_title q \<noteq> Some []"
    "\<not> (case pa_priority q of None \<Rightarrow> False | Some p \<Rightarrow> p < 1 \<or> p > 5)"
    and p: "p = (if ut_clear_parent r then q\<lparr>pa_parent := None\<rparr> else q)"
    by (auto simp: buildPatch_def split: sum.splits if_splits)
  note f = patch_status_fields [OF q(1)]
  have "pred_option (\<lambda>n. 1 \<le> n \<and> n \<le> 5) (ut_priority r)"
    using q(3) f by (auto simp: request_patch_def not_less split: option.splits)
  with request_patch_ok [of r] q(2) f have "patch_ok q" by auto
  then show "patch_ok p" by (auto simp: p patch_ok_def)
  show "pa_status p = map_option trim_space (ut_status r)"
    "pa_has_parent p = (ut_parent r \<noteq> None \<or> ut_clear_parent r)"
    "pa_parent p = (if ut_clear_parent r then None else ut_parent r)"
    using f by (auto simp: p request_patch_def split: option.splits)
qed

section \<open>Effects\<close>

text \<open>A task may get a new parent: it is of the same project and not below the task.\<close>

definition parent_allowed :: "(int \<rightharpoonup> task) \<Rightarrow> string \<Rightarrow> int \<Rightarrow> int option \<Rightarrow> bool" where
  "parent_allowed T project i parent \<longleftrightarrow>
     (case parent of None \<Rightarrow> True
      | Some p \<Rightarrow> (\<exists>q. T p = Some q \<and> ta_project q = project) \<and> (i = 0 \<or> (p, i) \<notin> (parents T)\<^sup>*))"

lemma tasks_okD:
  assumes "tasks_ok T" and "T i = Some t"
  shows "0 < i" "ta_id t = i" "task_ok t" "ta_parent t = Some p \<Longrightarrow> \<exists>q. T p = Some q \<and> ta_project q = ta_project t"
  using assms unfolding tasks_ok_def by blast+

lemma tasks_ok_acyclic: "tasks_ok T \<Longrightarrow> acyclic (parents T)"
  by (simp add: tasks_ok_def)

lemma finite_parents: "finite (dom T) \<Longrightarrow> finite (parents T)"
proof -
  assume "finite (dom T)"
  moreover have "parents T \<subseteq> (\<lambda>i. (i, the (ta_parent (the (T i))))) ` dom T"
    by (force simp: parents_def)
  ultimately show ?thesis by (meson finite_imageI finite_subset)
qed

text \<open>An acyclic relation stays acyclic when one node's only successor is replaced.\<close>

lemma acyclic_redirect:
  assumes "acyclic R" and "(p, i) \<notin> R\<^sup>*"
  shows "acyclic (insert (i, p) R)"
  using assms by (simp add: acyclic_insert)

lemma tasks_ok_update:
  assumes T: "tasks_ok T" and t: "T i = Some t" and t': "task_ok t'" "ta_id t' = i" "ta_project t' = ta_project t"
    and par: "ta_parent t' = ta_parent t \<or> parent_allowed T (ta_project t) i (ta_parent t')"
  shows "tasks_ok (T(i \<mapsto> t'))"
proof -
  note i = tasks_okD [OF T t]
  have fin: "finite (dom (T(i \<mapsto> t')))" using T by (simp add: tasks_ok_def)
  have parent: "\<exists>q. (T(i \<mapsto> t')) p = Some q \<and> ta_project q = ta_project u"
    if "(T(i \<mapsto> t')) j = Some u" "ta_parent u = Some p" for j u p
  proof -
    have "\<exists>q. T p = Some q \<and> ta_project q = ta_project u"
    proof (cases "j = i")
      case True
      with that have "u = t'" by simp
      with that(2) par t'(3) i(4) show ?thesis by (auto simp: parent_allowed_def)
    next
      case False
      with that tasks_okD(4) [OF T] show ?thesis by simp
    qed
    with t t'(3) show ?thesis by auto
  qed
  have "acyclic (parents (T(i \<mapsto> t')))"
  proof (cases "ta_parent t'")
    case None
    have "parents (T(i \<mapsto> t')) \<subseteq> parents T" using None by (auto simp: parents_def split: if_splits)
    with T show ?thesis by (meson acyclic_subset tasks_ok_acyclic)
  next
    case (Some p)
    have sub: "parents (T(i \<mapsto> t')) \<subseteq> insert (i, p) (parents T)" using Some by (auto simp: parents_def split: if_splits)
    have "acyclic (insert (i, p) (parents T))"
    proof (cases "ta_parent t' = ta_parent t")
      case True
      with Some t have "(i, p) \<in> parents T" by (auto simp: parents_def)
      with T show ?thesis by (simp add: insert_absorb tasks_ok_acyclic)
    next
      case False
      with par Some i(1) have "(p, i) \<notin> (parents T)\<^sup>*" by (auto simp: parent_allowed_def)
      with T show ?thesis by (intro acyclic_redirect tasks_ok_acyclic)
    qed
    with sub show ?thesis by (rule acyclic_subset [rotated])
  qed
  moreover have "\<forall>j u. (T(i \<mapsto> t')) j = Some u \<longrightarrow> 0 < j \<and> ta_id u = j \<and> task_ok u"
    using tasks_okD [OF T] t' i by auto
  ultimately show ?thesis using fin parent unfolding tasks_ok_def by blast
qed

lemma tasks_ok_add:
  assumes T: "tasks_ok T" and i: "T i = None" "0 < i" and t: "task_ok t" "ta_id t = i"
    and par: "parent_allowed T (ta_project t) 0 (ta_parent t)"
  shows "tasks_ok (T(i \<mapsto> t))"
proof -
  have no_in: "(j, i) \<notin> parents T" for j
    using tasks_okD(4) [OF T] i(1) by (force simp: parents_def)
  have parent: "\<exists>q. (T(i \<mapsto> t)) p = Some q \<and> ta_project q = ta_project u"
    if "(T(i \<mapsto> t)) j = Some u" "ta_parent u = Some p" for j u p
  proof (cases "j = i")
    case True
    with that par i(1) show ?thesis by (auto simp: parent_allowed_def)
  next
    case False
    with that tasks_okD(4) [OF T] i(1) show ?thesis by (metis fun_upd_apply option.distinct(1))
  qed
  have "acyclic (parents (T(i \<mapsto> t)))"
  proof (cases "ta_parent t")
    case None
    then have "parents (T(i \<mapsto> t)) \<subseteq> parents T" by (auto simp: parents_def split: if_splits)
    with T show ?thesis by (meson acyclic_subset tasks_ok_acyclic)
  next
    case (Some p)
    then have sub: "parents (T(i \<mapsto> t)) \<subseteq> insert (i, p) (parents T)" by (auto simp: parents_def split: if_splits)
    from par Some i(1) have "p \<noteq> i" by (auto simp: parent_allowed_def)
    then have "(p, i) \<notin> (parents T)\<^sup>*" using no_in by (metis rtranclE)
    with T sub show ?thesis by (meson acyclic_redirect acyclic_subset tasks_ok_acyclic)
  qed
  moreover have "\<forall>j u. (T(i \<mapsto> t)) j = Some u \<longrightarrow> 0 < j \<and> ta_id u = j \<and> task_ok u"
    using tasks_okD [OF T] t i by auto
  moreover have "finite (dom (T(i \<mapsto> t)))" using T by (simp add: tasks_ok_def)
  ultimately show ?thesis using parent unfolding tasks_ok_def by blast
qed

end
