(* ===== verification/Tasks_Inv.thy ===== *)
theory Tasks_Inv
  imports Tasks_View
begin

text \<open>
  The tables of the tasks store: their invariant, the abstract state they hold, and the two searches
  for cycles.
\<close>

section \<open>Invariant and view\<close>

definition tasks_of :: "task_tables \<Rightarrow> int \<rightharpoonup> task" where
  "tasks_of d i = map_option row_params (row_lookup tr_id i (tk_rows d))"

definition view_of :: "task_tables \<Rightarrow> task_view" where
  "view_of d = \<lparr>vt = tasks_of d, vd = set (tk_deps d)\<rparr>"

definition tables_inv :: "task_tables \<Rightarrow> bool" where
  "tables_inv d \<longleftrightarrow> distinct (map tr_id (tk_rows d)) \<and> (\<forall>r\<in>set (tk_rows d). tr_id r < tk_next_task d) \<and>
     0 < tk_next_task d \<and> view_ok (view_of d) \<and> distinct (tk_deps d) \<and>
     sorted_wrt (<) (map er_id (tk_events d)) \<and> (\<forall>e\<in>set (tk_events d). er_id e < tk_next_event d) \<and>
     distinct (map (\<lambda>a. (ar_task a, ar_key a)) (tk_accepts d))"

lemma tables_invD:
  assumes "tables_inv d"
  shows "distinct (map tr_id (tk_rows d))" "view_ok (view_of d)" "tasks_ok (tasks_of d)"
    "set (tk_deps d) \<subseteq> dom (tasks_of d) \<times> dom (tasks_of d)" "acyclic (set (tk_deps d))" "distinct (tk_deps d)"
  using assms by (simp_all add: tables_inv_def view_ok_def view_of_def)

lemma task_exists_iff: "task_exists i d \<longleftrightarrow> tasks_of d i \<noteq> None"
  by (simp add: task_exists_def tasks_of_def)

lemma tasks_of_Some: "tasks_of d i = Some t \<longleftrightarrow> (\<exists>r. row_lookup tr_id i (tk_rows d) = Some r \<and> t = row_params r)"
  by (auto simp: tasks_of_def)

lemma row_of_id: "distinct (map tr_id rs) \<Longrightarrow> r \<in> set rs \<Longrightarrow> row_lookup tr_id (tr_id r) rs = Some r"
  by (metis row_lookup_distinct)

lemma scan_ok: "task_ok (row_params r) \<Longrightarrow> scanTask wall r = Inr (row_params r)"
  by (simp add: scanTask_def NewTask_id)

lemma scan_stored: "tables_inv d \<Longrightarrow> row_lookup tr_id i (tk_rows d) = Some r \<Longrightarrow> scanTask wall r = Inr (row_params r)"
  using tasks_okD(3) [OF tables_invD(3)] by (auto intro!: scan_ok simp: tasks_of_def)

section \<open>The search for a dependency cycle\<close>

lemma tx_query_aborted: "tx_query q tx = (r, tx') \<Longrightarrow> tx_aborted tx \<Longrightarrow> tx_aborted tx'"
  by (auto simp: tx_query_def)

lemma tx_query_Inl: "tx_query q tx = (Inl e, tx') \<Longrightarrow> tx_aborted tx'"
  by (cases q tx rule: tx_query_cases) auto

lemma dependency_loop_frame:
  "dependency_loop target visited queue tx = (b, tx') \<Longrightarrow> tx_data tx' = tx_data tx \<and> (tx_aborted tx \<longrightarrow> tx_aborted tx')"
  by (induction target visited queue tx rule: dependency_loop.induct)
    (auto split: if_splits prod.splits sum.splits; metis tx_query_data tx_query_aborted)+

lemma dependencyIDs_set: "set (dependencyIDsSQL i d) = set (tk_deps d) `` {i}"
  by (force simp: dependencyIDsSQL_def)

lemma rtrancl_closed: "(x, y) \<in> R\<^sup>* \<Longrightarrow> x \<in> A \<Longrightarrow> R `` A \<subseteq> A \<Longrightarrow> y \<in> A"
  by (induction rule: rtrancl_induct) auto

text \<open>
  \<open>visited\<close> and the queue together are closed under dependencies; the answer says whether the target
  is reachable from them.
\<close>

lemma dependency_loop_exact:
  assumes "dependency_loop target visited queue tx = (b, tx')" and "\<not> tx_aborted tx'"
    and "target \<notin> set visited" and "set (tk_deps (tx_data tx)) `` set visited \<subseteq> set visited \<union> set queue"
  shows "b \<longleftrightarrow> (\<exists>x\<in>set visited \<union> set queue. (x, target) \<in> (set (tk_deps (tx_data tx)))\<^sup>*)"
  using assms
proof (induction target visited queue tx rule: dependency_loop.induct)
  case (1 target visited tx)
  have "target \<in> set visited" if "x \<in> set visited" "(x, target) \<in> (set (tk_deps (tx_data tx)))\<^sup>*" for x
    using that(2,1) by (rule rtrancl_closed) (use 1 in simp)
  with 1 show ?case by auto
next
  case (2 target visited c queue tx)
  let ?R = "set (tk_deps (tx_data tx))"
  consider (hit) "c = target" | (seen) "c \<noteq> target" "c \<in> set visited" | (visit) "c \<noteq> target" "c \<notin> set visited" by blast
  then show ?case
  proof cases
    case hit
    with "2.prems"(1) show ?thesis by auto
  next
    case seen
    with 2 have "b \<longleftrightarrow> (\<exists>x\<in>set visited \<union> set queue. (x, target) \<in> ?R\<^sup>*)" by (auto simp: insert_absorb)
    with seen show ?thesis by auto
  next
    case visit
    obtain r1 tx1 where 1: "tx_query (read_only (dependencyIDsSQL c)) tx = (r1, tx1)" by fastforce
    obtain r2 tx2 where 2: "tx_query (read_only (\<lambda>_. ())) tx1 = (r2, tx2)" by fastforce
    obtain ids where ids: "r1 = Inr ids"
      using "2.prems"(1,2) visit 1 by (cases r1) (auto dest: tx_query_Inl)
    obtain u where u: "r2 = Inr u"
    proof (cases r2)
      case (Inl e)
      with visit 1 2 ids "2.prems"(1) have "dependency_loop target (c # visited) queue tx2 = (b, tx')" by simp
      with tx_query_Inl [of _ tx1 e tx2] 2 Inl dependency_loop_frame "2.prems"(2) show ?thesis by metis
    qed
    have d: "tx_data tx2 = tx_data tx" using 1 2 by (metis tx_query_data)
    have i: "set ids = ?R `` {c}" using tx_query_read_only_Inr 1 ids by (metis dependencyIDs_set)
    have run: "dependency_loop target (c # visited) (queue @ ids) tx2 = (b, tx')"
      using visit 1 2 ids u "2.prems"(1) by simp
    have "set (tk_deps (tx_data tx2)) `` set (c # visited) \<subseteq> set (c # visited) \<union> set (queue @ ids)"
      using "2.prems"(4) d i by auto
    with "2.IH"(3) [OF visit 1 [symmetric] ids 2 [symmetric] u run "2.prems"(2)] visit(1) "2.prems"(3)
    have "b \<longleftrightarrow> (\<exists>x\<in>set (c # visited) \<union> set (queue @ ids). (x, target) \<in> ?R\<^sup>*)" by (simp add: d)
    moreover have "(c, target) \<in> ?R\<^sup>*" if "x \<in> set ids" "(x, target) \<in> ?R\<^sup>*" for x
    proof (rule converse_rtrancl_into_rtrancl [OF _ that(2)])
      show "(c, x) \<in> ?R" using that(1) by (simp add: i)
    qed
    ultimately show ?thesis by auto
  qed
qed

lemma createsDependencyCycle_post:
  "tx_post d (\<lambda>b d'. d' = d \<and> (b \<longleftrightarrow> (dep, i) \<in> (set (tk_deps d))\<^sup>*)) (createsDependencyCycle i dep)"
proof (rule tx_postI)
  fix tx assume d: "tx_data tx = d"
  obtain b tx' where r: "dependency_loop i [] [dep] tx = (b, tx')" by fastforce
  from dependency_loop_frame [OF r] dependency_loop_exact [OF r] d
  show "\<exists>r tx'. createsDependencyCycle i dep tx = Some (r, tx') \<and> (tx_aborted tx \<longrightarrow> tx_aborted tx') \<and>
      (\<forall>b. r = Inr b \<longrightarrow> \<not> tx_aborted tx' \<longrightarrow> tx_data tx' = d \<and> (b \<longleftrightarrow> (dep, i) \<in> (set (tk_deps d))\<^sup>*))"
    unfolding createsDependencyCycle_def r by simp
qed

lemma createsDependencyCycle_stops [simp]: "tx_stops (createsDependencyCycle i dep)"
proof (unfold tx_stops_def, intro allI impI)
  fix tx :: "task_tables tx" assume "tx_aborted tx"
  moreover obtain b tx' where r: "dependency_loop i [] [dep] tx = (b, tx')" by fastforce
  ultimately show "\<exists>r tx'. createsDependencyCycle i dep tx = Some (r, tx') \<and> tx_aborted tx'"
    using dependency_loop_frame [OF r] unfolding createsDependencyCycle_def r by simp
qed

text \<open>On a driver that does not fail the answer is the exact one.\<close>

lemma dependency_loop_calm: "\<exists>b. dependency_loop target visited queue (calm d) = (b, calm d)"
proof -
  have "\<exists>b. dependency_loop target visited queue tx = (b, tx)" if "tx = calm d" for tx
    using that by (induction target visited queue tx rule: dependency_loop.induct) (auto simp: calm_simps)
  then show ?thesis by blast
qed

lemma createsDependencyCycle_calm [calm_simps]:
  "createsDependencyCycle i dep (calm d) = Some (Inr ((dep, i) \<in> (set (tk_deps d))\<^sup>*), calm d)"
proof -
  from dependency_loop_calm obtain b where r: "dependency_loop i [] [dep] (calm d) = (b, calm d)" by blast
  with dependency_loop_exact [OF r] show ?thesis by (simp add: createsDependencyCycle_def)
qed

section \<open>The search for a parent cycle\<close>

lemma parentIDs: "parentIDSQL i d = map_option ta_parent (tasks_of d i)"
  by (cases "row_lookup tr_id i (tk_rows d)") (simp_all add: parentIDSQL_def tasks_of_def row_params_def)

text \<open>
  Following the parents of tasks without a cycle returns, and says whether the target is on the way.
\<close>

lemma parent_loop_exact:
  assumes T: "tasks_ok T" and "target \<noteq> 0" and "tasks_of (tx_data tx) = T"
  shows "\<exists>b tx'. parent_loop target c tx = Some (b, tx') \<and> tx_data tx' = tx_data tx \<and> (tx_aborted tx \<longrightarrow> tx_aborted tx') \<and>
    (\<not> tx_aborted tx' \<longrightarrow> (b \<longleftrightarrow> (c, target) \<in> (parents T)\<^sup>*))"
proof -
  have "wf ((parents T)\<inverse>)"
    using T by (intro finite_acyclic_wf_converse tasks_ok_acyclic finite_parents) (simp add: tasks_ok_def)
  then show ?thesis using assms(3)
  proof (induction c arbitrary: tx rule: wf_induct_rule)
    case (less c)
    note unfold_loop = parent_loop.simps [of target c tx]
    have root: "(c, target) \<in> (parents T)\<^sup>* \<longleftrightarrow> c = target" if "\<forall>p. (c, p) \<notin> parents T"
      using that by (metis converse_rtranclE rtrancl.rtrancl_refl)
    show ?case
    proof (cases "c = 0 \<or> c = target")
      case True
      have "(0, target) \<notin> (parents T)\<^sup>*"
        using root tasks_okD(1) [OF T] assms(2) by (force simp: parents_def elim: converse_rtranclE)
      with True assms(2) show ?thesis by (auto simp: unfold_loop)
    next
      case False
      obtain r tx1 where 1: "tx_query (read_only (parentIDSQL c)) tx = (r, tx1)" by fastforce
      note d = tx_query_data [OF 1] and ab = tx_query_aborted [OF 1]
      show ?thesis
      proof (cases r)
        case (Inl e)
        have "tx_aborted tx1" using 1 Inl tx_query_Inl by blast
        with 1 Inl False d show ?thesis by (auto simp: unfold_loop)
      next
        case (Inr found)
        with 1 have f: "found = map_option ta_parent (T c)" using tx_query_read_only_Inr less.prems parentIDs by metis
        show ?thesis
        proof (cases "\<exists>p. found = Some (Some p)")
          case True
          then obtain p where p: "found = Some (Some p)" by blast
          with f obtain t where "T c = Some t" "ta_parent t = Some p" by (cases "T c") auto
          then have e: "(c, p) \<in> parents T" "\<And>q. (c, q) \<in> parents T \<Longrightarrow> q = p" by (simp_all add: parents_def)
          have "parent_loop target c tx = parent_loop target p tx1" using False 1 Inr p by (simp add: unfold_loop)
          moreover have "(c, target) \<in> (parents T)\<^sup>* \<longleftrightarrow> (p, target) \<in> (parents T)\<^sup>*"
            using e False by (metis converse_rtranclE converse_rtrancl_into_rtrancl)
          ultimately show ?thesis using less.IH [of p tx1] e(1) less.prems d ab by auto
        next
          case no: False
          then have "parent_loop target c tx = Some (False, tx1)"
            using False 1 Inr by (cases found) (auto simp: unfold_loop split: option.splits)
          moreover have "\<forall>p. (c, p) \<notin> parents T" using no f by (auto simp: parents_def)
          ultimately show ?thesis using root False d ab by auto
        qed
      qed
    qed
  qed
qed

lemma createsParentCycle_post:
  assumes "tables_inv d" and "i \<noteq> 0"
  shows "tx_post d (\<lambda>b d'. d' = d \<and> (b \<longleftrightarrow> (p, i) \<in> (parents (tasks_of d))\<^sup>*)) (createsParentCycle i p)"
proof (rule tx_postI)
  fix tx assume "tx_data tx = d"
  with parent_loop_exact [OF tables_invD(3) [OF assms(1)] assms(2), of tx p]
  show "\<exists>r tx'. createsParentCycle i p tx = Some (r, tx') \<and> (tx_aborted tx \<longrightarrow> tx_aborted tx') \<and>
      (\<forall>b. r = Inr b \<longrightarrow> \<not> tx_aborted tx' \<longrightarrow> tx_data tx' = d \<and> (b \<longleftrightarrow> (p, i) \<in> (parents (tasks_of d))\<^sup>*))"
    unfolding createsParentCycle_def by auto
qed

lemma createsParentCycle_stops [simp]: "tx_stops (createsParentCycle i p)"
proof (unfold tx_stops_def, intro allI impI)
  fix tx :: "task_tables tx" assume a: "tx_aborted tx"
  then have "tx_query q tx = (Inl DriverErr, tx)" for q :: "(task_tables, int option option) stmt"
    by (simp add: tx_query_def)
  then have "\<exists>b. parent_loop i p tx = Some (b, tx)" by (subst parent_loop.simps) auto
  with a show "\<exists>r tx'. createsParentCycle i p tx = Some (r, tx') \<and> tx_aborted tx'"
    by (auto simp: createsParentCycle_def)
qed

end
