(* ===== verification/Tasks_Laws.thy ===== *)
theory Tasks_Laws
  imports Tasks_Inv
begin

text \<open>
  What each action and each method of the tasks store does to the tables: partial correctness of the
  actions (\<open>tx_post\<close>), then the methods, which either answer and have their effect or report an error
  and leave the tables as they were.
\<close>

section \<open>Rows\<close>

lemma nil_empty [simp]: "nilToString (emptyToNil s) = s"
  by (simp add: nilToString_def emptyToNil_def)

lemma nil_keep [simp]: "nilToString (keep_or_set v old) = coalesce v (nilToString old)"
  by (simp add: nilToString_def keep_or_set_def coalesce_def split: option.splits)

lemma tags_json: "distinct tags \<Longrightarrow> \<forall>g\<in>set tags. g \<noteq> [] \<and> trimmed g \<Longrightarrow> tagsFromJSON (jsonOrNil tags) = tags"
  by (simp add: tagsFromJSON_def jsonOrNil_def normalizeTags_id)

lemma row_params_patched:
  assumes "patch_ok p"
  shows "row_params (patched_row p at r) = patched p at (row_params r)"
proof -
  have "tagsFromJSON (jsonOrNil (pa_tags p)) = pa_tags p" using assms by (simp add: patch_ok_def tags_json)
  then show ?thesis by (simp add: row_params_def patched_row_def patched_def)
qed

lemma patched_row_id [simp]: "tr_id (patched_row p at r) = tr_id r" "tr_project (patched_row p at r) = tr_project r"
  by (simp_all add: patched_row_def)

section \<open>Reading a task\<close>

lemma tx_stops_scan [simp]: "tx_stops (tx_scan f)"
  by (simp add: tx_stops_def tx_scan_def)

lemma tx_post_scan: "(\<And>x. f d = Inr x \<Longrightarrow> Q x d) \<Longrightarrow> tx_post d Q (tx_scan f)"
  by (simp add: tx_post_def tx_scan_def)

lemma getTaskTx_stops [simp]: "tx_stops (getTaskTx i)" "tx_stops (getTaskForUpdateTx i)"
  by (simp_all add: getTaskTx_def getTaskForUpdateTx_def)

lemma getTaskTx_post:
  assumes "tables_inv d"
  shows "tx_post d (\<lambda>t d'. d' = d \<and> tasks_of d i = Some t) (getTaskTx i)"
  unfolding getTaskTx_def
proof (intro tx_post_intros tx_post_scan)
  fix r t assume "getTaskSQL i d = Some r" "scanTask (tk_wall d) r = Inr t"
  with scan_stored [OF assms, of i r "tk_wall d"] show "d = d \<and> tasks_of d i = Some t"
    by (simp add: getTaskSQL_def tasks_of_def)
qed simp_all

lemma tx_post_task:
  assumes "tables_inv d" and "\<And>t. tasks_of d i = Some t \<Longrightarrow> tx_post d Q (k t)" and "\<And>t. tx_stops (k t)"
  shows "tx_post d Q (tx_bind (getTaskTx i) k)" "tx_post d Q (tx_bind (getTaskForUpdateTx i) k)"
  unfolding getTaskForUpdateTx_def
  by (rule tx_post_bind [OF getTaskTx_post [OF assms(1)]]; use assms in auto)+

lemma getTaskTx_calm [calm_simps]:
  assumes "tables_inv d"
  shows "getTaskTx i (calm d) = Some (case tasks_of d i of None \<Rightarrow> Inl (taskNotFound i) | Some t \<Rightarrow> Inr t, calm d)"
    "getTaskForUpdateTx i (calm d) = Some (case tasks_of d i of None \<Rightarrow> Inl (taskNotFound i) | Some t \<Rightarrow> Inr t, calm d)"
proof -
  show "getTaskTx i (calm d) = Some (case tasks_of d i of None \<Rightarrow> Inl (taskNotFound i) | Some t \<Rightarrow> Inr t, calm d)"
    by (cases "row_lookup tr_id i (tk_rows d)")
      (simp_all add: getTaskTx_def calm_simps getTaskSQL_def tasks_of_def tx_fail_def tx_scan_def scan_stored [OF assms])
  then show "getTaskForUpdateTx i (calm d) = Some (case tasks_of d i of None \<Rightarrow> Inl (taskNotFound i) | Some t \<Rightarrow> Inr t, calm d)"
    by (simp add: getTaskForUpdateTx_def)
qed

section \<open>Parents and dependencies\<close>

lemma validateParent_stops [simp]: "tx_stops (validateParent project i parent)"
  by (simp add: validateParent_def)

lemma validateParent_post:
  assumes "tables_inv d"
  shows "tx_post d (\<lambda>_ d'. d' = d \<and> parent_allowed (tasks_of d) project i parent) (validateParent project i parent)"
  unfolding validateParent_def
proof (intro tx_post_option tx_post_if tx_post_task [OF assms] tx_post_fail)
  show "parent = None \<Longrightarrow> tx_post d (\<lambda>_ d'. d' = d \<and> parent_allowed (tasks_of d) project i parent) (tx_return ())"
    by (rule tx_post_return) (simp add: parent_allowed_def)
next
  fix p q assume "parent = Some p" "tasks_of d p = Some q" "\<not> ta_project q \<noteq> project" "i = 0"
  then show "tx_post d (\<lambda>_ d'. d' = d \<and> parent_allowed (tasks_of d) project i parent) (tx_return ())"
    by (intro tx_post_return) (simp add: parent_allowed_def)
next
  fix p q assume a: "parent = Some p" "tasks_of d p = Some q" "\<not> ta_project q \<noteq> project" "i \<noteq> 0"
  show "tx_post d (\<lambda>_ d'. d' = d \<and> parent_allowed (tasks_of d) project i parent)
      (tx_bind (createsParentCycle i p) (\<lambda>cycle. if cycle
         then tx_fail (tasks_conflict (Wrapped [] ErrParentCycle ('': task '' @ show_int i @ '' parent '' @ show_int p)) ''parent_cycle'')
         else tx_return ()))"
    by (rule tx_post_bind [OF createsParentCycle_post [OF assms a(4)]])
      (use a in \<open>auto intro!: tx_post_return simp: parent_allowed_def\<close>)
qed simp_all

lemma tx_post_parent:
  assumes "tables_inv d" and "parent_allowed (tasks_of d) project i parent \<Longrightarrow> tx_post d Q (k ())" and "\<And>x. tx_stops (k x)"
  shows "tx_post d Q (tx_bind (validateParent project i parent) k)"
  by (rule tx_post_bind [OF validateParent_post [OF assms(1)]]) (use assms in auto)

definition with_dep :: "int \<Rightarrow> int \<Rightarrow> task_tables \<Rightarrow> task_tables" where
  "with_dep i dep d = (if (i, dep) \<in> set (tk_deps d) then d else d\<lparr>tk_deps := tk_deps d @ [(i, dep)]\<rparr>)"

lemma with_dep_view [simp]:
  "tasks_of (with_dep i dep d) = tasks_of d" "set (tk_deps (with_dep i dep d)) = insert (i, dep) (set (tk_deps d))"
  by (auto simp: with_dep_def tasks_of_def fun_eq_iff)

lemma with_dep_frame [simp]:
  "tk_rows (with_dep i dep d) = tk_rows d" "tk_history (with_dep i dep d) = tk_history d"
  "tk_events (with_dep i dep d) = tk_events d" "tk_accepts (with_dep i dep d) = tk_accepts d"
  "tk_next_task (with_dep i dep d) = tk_next_task d" "tk_next_event (with_dep i dep d) = tk_next_event d"
  "tk_next_history (with_dep i dep d) = tk_next_history d" "tk_now (with_dep i dep d) = tk_now d"
  by (simp_all add: with_dep_def)

lemma tables_inv_dep:
  assumes "tables_inv d" "i \<in> dom (tasks_of d)" "dep \<in> dom (tasks_of d)" "(dep, i) \<notin> (set (tk_deps d))\<^sup>*"
  shows "tables_inv (with_dep i dep d)"
proof -
  have "view_ok (view_of (with_dep i dep d))"
    using assms tables_invD(3-5) [OF assms(1)] by (auto simp: view_ok_def view_of_def acyclic_insert)
  moreover have "distinct (tk_deps (with_dep i dep d))" using tables_invD(6) [OF assms(1)] by (simp add: with_dep_def)
  ultimately show ?thesis using assms(1) by (simp add: tables_inv_def)
qed

lemma addDependencyTx_stops [simp]: "tx_stops (addDependencyTx i dep)"
  by (simp add: addDependencyTx_def)

lemma addDependencyTx_post:
  assumes "tables_inv d"
  shows "tx_post d (\<lambda>_ d'. d' = with_dep i dep d \<and> tables_inv d' \<and> i \<in> dom (tasks_of d) \<and> dep \<in> dom (tasks_of d) \<and>
      (dep, i) \<notin> (set (tk_deps d))\<^sup>*) (addDependencyTx i dep)"
    (is "tx_post d ?Q _")
proof -
  have add: "tx_post d ?Q (tx_wrap ctx (tx_call (addDependencySQL i dep)))"
    if "tasks_of d i = Some t" "tasks_of d dep = Some u" "(dep, i) \<notin> (set (tk_deps d))\<^sup>*" for ctx t u
  proof (intro tx_post_wrap tx_post_call)
    fix x d' assume "addDependencySQL i dep d = Some (x, d')"
    then have "d' = with_dep i dep d"
      by (auto simp: addDependencySQL_def with_dep_def split: if_splits)
    with tables_inv_dep [OF assms] that show "?Q x d'" by blast
  qed
  have look: "tx_post d ?Q (tx_bind (createsDependencyCycle i dep) (\<lambda>cycle. if cycle
      then tx_fail (tasks_conflict (Wrapped [] ErrDependencyCycle ('': '' @ show_int i @ '' depends on '' @ show_int dep)) ''dependency_cycle'')
      else tx_wrap (''adding dependency '' @ show_int i @ '' -> '' @ show_int dep @ '': '') (tx_call (addDependencySQL i dep))))"
    if "tasks_of d i = Some t" "tasks_of d dep = Some u" for t u
    by (rule tx_post_bind [OF createsDependencyCycle_post]) (use add [OF that] in auto)
  show ?thesis
    unfolding addDependencyTx_def by (intro tx_post_if tx_post_fail tx_post_task [OF assms] look) simp_all
qed

section \<open>Changes\<close>

text \<open>New events at the end of the table of changes, one for each of the tasks.\<close>

definition events_added :: "string \<Rightarrow> int set \<Rightarrow> task_tables \<Rightarrow> task_tables \<Rightarrow> bool" where
  "events_added kind is d d' \<longleftrightarrow>
     (\<exists>es. d' = d\<lparr>tk_events := tk_events d @ es, tk_next_event := tk_next_event d + int (length es)\<rparr> \<and>
        map er_id es = map (\<lambda>n. tk_next_event d + int n) [0..<length es] \<and>
        (\<forall>e\<in>set es. er_kind e = kind \<and> (\<exists>t. tasks_of d (er_task e) = Some t \<and> er_project e = ta_project t)) \<and>
        distinct (map er_task es) \<and> er_task ` set es = is \<inter> dom (tasks_of d))"

lemma tables_inv_events:
  assumes "tables_inv d" and "events_added kind is d d'"
  shows "tables_inv d'"
proof -
  from assms(2) obtain es where d': "d' = d\<lparr>tk_events := tk_events d @ es, tk_next_event := tk_next_event d + int (length es)\<rparr>"
    and ids: "map er_id es = map (\<lambda>n. tk_next_event d + int n) [0..<length es]" by (auto simp: events_added_def)
  have lt: "\<forall>e\<in>set es. tk_next_event d \<le> er_id e \<and> er_id e < tk_next_event d + int (length es)"
  proof
    fix e assume "e \<in> set es"
    then have "er_id e \<in> set (map er_id es)" by simp
    then show "tk_next_event d \<le> er_id e \<and> er_id e < tk_next_event d + int (length es)" unfolding ids by auto
  qed
  have "sorted_wrt (<) (map er_id es)" unfolding ids by (simp add: sorted_wrt_map sorted_wrt_upt)
  moreover have "\<forall>e\<in>set (tk_events d). er_id e < tk_next_event d" "sorted_wrt (<) (map er_id (tk_events d))"
    using assms(1) by (simp_all add: tables_inv_def)
  moreover have "view_of d' = view_of d" by (simp add: d' view_of_def tasks_of_def fun_eq_iff)
  moreover have "\<forall>x\<in>er_id ` set (tk_events d). \<forall>y\<in>er_id ` set es. x < y" using calculation(2) lt by fastforce
  ultimately show ?thesis using assms(1) lt unfolding tables_inv_def
    by (auto simp: d' sorted_wrt_append)
qed

lemma events_added_frame:
  assumes "events_added kind is d d'"
  shows "tk_rows d' = tk_rows d" "tk_deps d' = tk_deps d" "tk_history d' = tk_history d" "tk_accepts d' = tk_accepts d"
    "tk_next_task d' = tk_next_task d" "tasks_of d' = tasks_of d" "view_of d' = view_of d" "tk_now d' = tk_now d"
  using assms by (auto simp: events_added_def tasks_of_def view_of_def fun_eq_iff)

lemma record_changes_loop_stops [simp]: "tx_stops (record_changes_loop kind seen is)"
  by (induction kind seen "is" rule: record_changes_loop.induct) auto

lemma recordTaskChangesTx_stops [simp]: "tx_stops (recordTaskChangesTx kind is)"
  by (simp add: recordTaskChangesTx_def)

text \<open>One insert, then the rest of the loop.\<close>

lemma events_added_Cons:
  assumes "insertTaskChangeSQL i kind d = Some (x, d1)" and "events_added kind rest d1 d'" and "i \<notin> rest"
  shows "events_added kind (insert i rest) d d'"
proof (cases "row_lookup tr_id i (tk_rows d)")
  case None
  with assms(1) have "d1 = d" "i \<notin> dom (tasks_of d)" by (auto simp: insertTaskChangeSQL_def tasks_of_def)
  then have "insert i rest \<inter> dom (tasks_of d) = rest \<inter> dom (tasks_of d)" by auto
  with assms(2) \<open>d1 = d\<close> show ?thesis by (simp add: events_added_def)
next
  case (Some r)
  let ?e = "\<lparr>er_id = tk_next_event d, er_task = i, er_project = tr_project r, er_kind = kind, er_at = tk_now d\<rparr>"
  have d1: "d1 = d\<lparr>tk_events := tk_events d @ [?e], tk_next_event := tk_next_event d + 1\<rparr>"
    using assms(1) Some by (simp add: insertTaskChangeSQL_def)
  then have T: "tasks_of d1 = tasks_of d" by (simp add: tasks_of_def fun_eq_iff)
  have i: "tasks_of d i = Some (row_params r)" using Some by (simp add: tasks_of_def)
  from assms(2) obtain es where d': "d' = d1\<lparr>tk_events := tk_events d1 @ es, tk_next_event := tk_next_event d1 + int (length es)\<rparr>"
    and es: "map er_id es = map (\<lambda>n. tk_next_event d1 + int n) [0..<length es]"
      "\<forall>e\<in>set es. er_kind e = kind \<and> (\<exists>t. tasks_of d (er_task e) = Some t \<and> er_project e = ta_project t)"
      "distinct (map er_task es)" "er_task ` set es = rest \<inter> dom (tasks_of d)"
    unfolding events_added_def T by blast
  have "map er_id (?e # es) = map (\<lambda>n. tk_next_event d + int n) [0..<length (?e # es)]"
    using es(1) by (simp add: d1 upt_conv_Cons map_Suc_upt [symmetric] del: upt_Suc)
  moreover have "er_kind ?e = kind \<and> (\<exists>t. tasks_of d (er_task ?e) = Some t \<and> er_project ?e = ta_project t)"
    using i by (simp add: row_params_def)
  moreover have "distinct (map er_task (?e # es))"
    using es(3,4) assms(3) by auto
  moreover have "er_task ` set (?e # es) = insert i rest \<inter> dom (tasks_of d)" using es(4) i by auto
  moreover have "d' = d\<lparr>tk_events := tk_events d @ (?e # es), tk_next_event := tk_next_event d + int (length (?e # es))\<rparr>"
    by (simp add: d' d1)
  ultimately show ?thesis using es(2) unfolding events_added_def by (intro exI [of _ "?e # es"]) simp
qed

lemma record_changes_loop_post:
  "tx_post d (\<lambda>_ d'. events_added kind ({i\<in>set is. 0 < i} - set seen) d d') (record_changes_loop kind seen is)"
proof (induction kind seen "is" arbitrary: d rule: record_changes_loop.induct)
  case (1 kind seen)
  show ?case by (simp add: tx_post_return events_added_def)
next
  case (2 kind seen i "is")
  show ?case
  proof (cases "i \<le> 0 \<or> i \<in> set seen")
    case True
    then have "{j \<in> set (i # is). 0 < j} - set seen = {j \<in> set is. 0 < j} - set seen" by auto
    with 2(1) [OF True] True show ?thesis by simp
  next
    case False
    let ?rest = "{j \<in> set is. 0 < j} - set (i # seen)"
    have set: "{j \<in> set (i # is). 0 < j} - set seen = insert i ?rest" using False by auto
    have "tx_post d (\<lambda>_ d'. events_added kind (insert i ?rest) d d')
        (tx_bind (tx_wrap (''recording task change '' @ show_int i @ '': '') (tx_call (insertTaskChangeSQL i kind)))
          (\<lambda>_. record_changes_loop kind (i # seen) is))"
    proof (intro tx_post_wrap_bind tx_post_call_bind)
      fix x d1 assume "insertTaskChangeSQL i kind d = Some (x, d1)"
      with events_added_Cons show "tx_post d1 (\<lambda>_ d'. events_added kind (insert i ?rest) d d') (record_changes_loop kind (i # seen) is)"
        by (intro tx_post_weaken [OF 2(2) [OF False]]) auto
    qed simp
    with False show ?thesis unfolding set by simp
  qed
qed

lemma recordTaskChangesTx_post:
  "tx_post d (\<lambda>_ d'. events_added kind {i\<in>set is. 0 < i} d d') (recordTaskChangesTx kind is)"
  using record_changes_loop_post [of d kind "is" "[]"] by (simp add: recordTaskChangesTx_def)

text \<open>The tasks an update is reported for.\<close>

definition touched :: "task_tables \<Rightarrow> task \<Rightarrow> task \<Rightarrow> task_patch \<Rightarrow> int set" where
  "touched d current updated patch =
     {i. 0 < i \<and> (i = ta_id updated \<or> (pa_status patch \<noteq> None \<and> (i, ta_id updated) \<in> set (tk_deps d)) \<or>
        (pa_has_parent patch \<and> (ta_parent current = Some i \<or> ta_parent updated = Some i)))}"

lemma dependentTaskIDsTx_stops [simp]: "tx_stops (dependentTaskIDsTx i)"
  by (simp add: dependentTaskIDsTx_def)

lemma dependentTaskIDsTx_post: "tx_post d (\<lambda>is d'. d' = d \<and> is = dependentTaskIDsSQL i d) (dependentTaskIDsTx i)"
  unfolding dependentTaskIDsTx_def by (intro tx_post_intros) simp_all

lemma recordUpdateTaskChangesTx_stops [simp]: "tx_stops (recordUpdateTaskChangesTx current updated patch)"
  by (simp add: recordUpdateTaskChangesTx_def)

lemma recordUpdateTaskChangesTx_post:
  "tx_post d (\<lambda>_ d'. events_added ''updated'' (touched d current updated patch) d d') (recordUpdateTaskChangesTx current updated patch)"
  unfolding recordUpdateTaskChangesTx_def
proof (rule tx_post_bind [where R = "\<lambda>is d'. d' = d \<and> is = (if pa_status patch \<noteq> None then dependentTaskIDsSQL (ta_id updated) d else [])"])
  show "tx_post d (\<lambda>is d'. d' = d \<and> is = (if pa_status patch \<noteq> None then dependentTaskIDsSQL (ta_id updated) d else []))
      (if pa_status patch \<noteq> None then dependentTaskIDsTx (ta_id updated) else tx_return [])"
    by (cases "pa_status patch") (auto intro!: tx_post_return dependentTaskIDsTx_post)
next
  fix dependents d1
  assume d1: "d1 = d \<and> dependents = (if pa_status patch \<noteq> None then dependentTaskIDsSQL (ta_id updated) d else [])"
  have t: "{i \<in> set ([ta_id updated] @ dependents @ (if pa_has_parent patch then
             (case ta_parent current of None \<Rightarrow> [] | Some p \<Rightarrow> [p]) @
             (case ta_parent updated of None \<Rightarrow> [] | Some p \<Rightarrow> [p]) else [])). 0 < i} = touched d current updated patch"
  proof -
    have par: "i \<in> set (case v of None \<Rightarrow> [] | Some p \<Rightarrow> [p]) \<longleftrightarrow> v = Some i" for v and i :: int by (cases v) auto
    have dep: "i \<in> set dependents \<longleftrightarrow> pa_status patch \<noteq> None \<and> (i, ta_id updated) \<in> set (tk_deps d)" for i
      using d1 by (force simp: dependentTaskIDsSQL_def)
    have "(i \<in> set ([ta_id updated] @ dependents @ (if pa_has_parent patch then
             (case ta_parent current of None \<Rightarrow> [] | Some p \<Rightarrow> [p]) @
             (case ta_parent updated of None \<Rightarrow> [] | Some p \<Rightarrow> [p]) else [])) \<and> 0 < i) \<longleftrightarrow> i \<in> touched d current updated patch" for i
      by (cases "pa_has_parent patch") (auto simp: par dep touched_def)
    then show ?thesis by blast
  qed
  show "tx_post d1 (\<lambda>_ d'. events_added ''updated'' (touched d current updated patch) d d')
      (recordTaskChangesTx ''updated'' ([ta_id updated] @ dependents @ (if pa_has_parent patch then
             (case ta_parent current of None \<Rightarrow> [] | Some p \<Rightarrow> [p]) @
             (case ta_parent updated of None \<Rightarrow> [] | Some p \<Rightarrow> [p]) else [])))"
    unfolding conjunct1 [OF d1] t [symmetric] by (rule recordTaskChangesTx_post)
qed simp

end
