(* ===== verification/Tasks_Ops.thy ===== *)
theory Tasks_Ops
  imports Tasks_Laws
begin

text \<open>
  The methods of the tasks store that write: the update of a task with its history and its changes,
  creation, the review transition and the dependencies.
\<close>

section \<open>History\<close>

fun history_rows :: "int \<Rightarrow> string \<Rightarrow> time \<Rightarrow> int \<Rightarrow> (string \<times> string \<times> string) list \<Rightarrow> history_row list" where
  "history_rows i agent at n [] = []"
| "history_rows i agent at n ((field, old, new) # cs) =
     \<lparr>hr_id = n, hr_task = i, hr_field = field, hr_old = emptyToNil old, hr_new = emptyToNil new,
      hr_by = Some agent, hr_at = at\<rparr> # history_rows i agent at (n + 1) cs"

definition with_history :: "int \<Rightarrow> string \<Rightarrow> (string \<times> string \<times> string) list \<Rightarrow> task_tables \<Rightarrow> task_tables" where
  "with_history i agent cs d =
     d\<lparr>tk_history := tk_history d @ history_rows i agent (tk_now d) (tk_next_history d) cs,
       tk_next_history := tk_next_history d + int (length cs)\<rparr>"

lemma with_history_simps [simp]:
  "with_history i agent [] d = d"
  "tk_rows (with_history i agent cs d) = tk_rows d" "tk_deps (with_history i agent cs d) = tk_deps d"
  "tk_events (with_history i agent cs d) = tk_events d" "tk_accepts (with_history i agent cs d) = tk_accepts d"
  "tk_next_task (with_history i agent cs d) = tk_next_task d" "tk_next_event (with_history i agent cs d) = tk_next_event d"
  "tk_wall (with_history i agent cs d) = tk_wall d" "tasks_of (with_history i agent cs d) = tasks_of d"
  "view_of (with_history i agent cs d) = view_of d"
  by (simp_all add: with_history_def tasks_of_def view_of_def fun_eq_iff)

lemma with_history_inv [simp]: "tables_inv (with_history i agent cs d) = tables_inv d"
  by (simp add: tables_inv_def)

lemma writeHistory_stops [simp]: "tx_stops (writeHistory i current patch agent)"
  by (simp add: writeHistory_def insertHistory_def)

lemma insertHistory_post:
  "tx_post d (\<lambda>_ d'. d' = with_history i agent [(field, old, new)] d) (insertHistory i field old new agent)"
  unfolding insertHistory_def
  by (intro tx_post_wrap tx_post_call) (auto simp: insertHistorySQL_def with_history_def split: if_splits)

lemma writeHistory_post:
  "tx_post d (\<lambda>_ d'. d' = with_history i agent (history_changes current patch) d) (writeHistory i current patch agent)"
proof -
  have "tx_post d (\<lambda>_ d'. d' = with_history i agent cs d)
      (tx_each (\<lambda>(field, old, new). insertHistory i field old new agent) cs)" for cs
  proof (induction cs arbitrary: d)
    case (Cons c cs)
    obtain field old new where c: "c = (field, old, new)" by (cases c)
    have step: "with_history i agent cs (with_history i agent [c] d) = with_history i agent (c # cs) d"
      by (simp add: with_history_def c)
    have "tx_post d (\<lambda>_ d'. d' = with_history i agent (c # cs) d)
      (tx_bind (insertHistory i field old new agent) (\<lambda>_. tx_each (\<lambda>(field, old, new). insertHistory i field old new agent) cs))"
      by (rule tx_post_bind [OF insertHistory_post])
        (use Cons [of "with_history i agent [c] d"] step in \<open>auto simp: insertHistory_def c\<close>)
    then show ?case by (simp add: c)
  qed (simp add: tx_post_return)
  then show ?thesis unfolding writeHistory_def .
qed

section \<open>The update of a task\<close>

definition with_patch :: "int \<Rightarrow> task_patch \<Rightarrow> time \<Rightarrow> task_tables \<Rightarrow> task_tables" where
  "with_patch i p at d = d\<lparr>tk_rows := update_where (\<lambda>r. tr_id r = i) (patched_row p at) (tk_rows d)\<rparr>"

definition patch_allowed :: "task_tables \<Rightarrow> task \<Rightarrow> task_patch \<Rightarrow> time \<Rightarrow> bool" where
  "patch_allowed d t p at \<longleftrightarrow> patch_ok p \<and> \<not> is_zero_time at \<and>
     (pa_has_parent p \<longrightarrow> parent_allowed (tasks_of d) (ta_project t) (ta_id t) (pa_parent p))"

lemma with_patch_frame [simp]:
  "tk_deps (with_patch i p at d) = tk_deps d" "tk_history (with_patch i p at d) = tk_history d"
  "tk_events (with_patch i p at d) = tk_events d" "tk_accepts (with_patch i p at d) = tk_accepts d"
  "tk_next_task (with_patch i p at d) = tk_next_task d" "tk_next_event (with_patch i p at d) = tk_next_event d"
  by (simp_all add: with_patch_def)

lemma tasks_of_patch:
  assumes "patch_ok p" and "tasks_of d i = Some t"
  shows "tasks_of (with_patch i p at d) = (tasks_of d)(i \<mapsto> patched p at t)"
proof (rule ext)
  fix j
  have "row_lookup tr_id j (tk_rows (with_patch i p at d)) =
      map_option (\<lambda>r. if tr_id r = i then patched_row p at r else r) (row_lookup tr_id j (tk_rows d))"
    unfolding with_patch_def by (simp add: row_lookup_update_where)
  then show "tasks_of (with_patch i p at d) j = ((tasks_of d)(i \<mapsto> patched p at t)) j"
    using assms row_lookup_Some [of tr_id j "tk_rows d"]
    by (cases "row_lookup tr_id j (tk_rows d)") (auto simp: tasks_of_def row_params_patched)
qed

lemma tables_inv_patch:
  assumes inv: "tables_inv d" and t: "tasks_of d i = Some t" and p: "patch_allowed d t p at"
  shows "tables_inv (with_patch i p at d)"
proof -
  note T = tables_invD(3) [OF inv]
  have ok: "patch_ok p" and "\<not> is_zero_time at" using p by (simp_all add: patch_allowed_def)
  then have "task_ok (patched p at t)" using patched_ok tasks_okD(3) [OF T t] by blast
  moreover have "ta_parent (patched p at t) = ta_parent t \<or> parent_allowed (tasks_of d) (ta_project t) i (ta_parent (patched p at t))"
    using p tasks_okD(2) [OF T t] by (cases "pa_has_parent p") (simp_all add: patch_allowed_def)
  ultimately have "tasks_ok ((tasks_of d)(i \<mapsto> patched p at t))"
    using tasks_ok_update [OF T t, of "patched p at t"] tasks_okD(2) [OF T t] by simp
  moreover have "dom ((tasks_of d)(i \<mapsto> patched p at t)) = dom (tasks_of d)" using t by auto
  ultimately have "view_ok (view_of (with_patch i p at d))"
    using tables_invD(2) [OF inv] tasks_of_patch [OF ok t] by (simp add: view_ok_def view_of_def)
  moreover have "map tr_id (tk_rows (with_patch i p at d)) = map tr_id (tk_rows d)"
    unfolding with_patch_def by (simp add: map_update_where)
  moreover have "\<forall>r\<in>set (tk_rows (with_patch i p at d)). tr_id r < tk_next_task d"
    using inv by (auto simp: with_patch_def tables_inv_def update_where_def)
  ultimately show ?thesis using inv unfolding tables_inv_def by simp
qed

text \<open>The tables after an update: the history, the row and the changes reported.\<close>

definition task_updated :: "int \<Rightarrow> task \<Rightarrow> task_patch \<Rightarrow> string \<Rightarrow> time \<Rightarrow> task_tables \<Rightarrow> task_tables \<Rightarrow> bool" where
  "task_updated i t p agent at d d' \<longleftrightarrow>
     (let d1 = with_patch i p at (with_history i agent (history_changes t p) d)
      in events_added ''updated'' (touched d t (patched p at t) p) d1 d')"

lemma touched_deps: "tk_deps d' = tk_deps d \<Longrightarrow> touched d' t u p = touched d t u p"
  by (simp add: touched_def)

lemma updateTaskTx_stops [simp]: "tx_stops (updateTaskTx i current patch agent at)"
  by (simp add: updateTaskTx_def)

lemma updateTaskTx_post:
  assumes inv: "tables_inv d" and t: "tasks_of d i = Some t" and p: "patch_allowed d t p at"
  shows "tx_post d (\<lambda>x d'. x = patched p at t \<and> task_updated i t p agent at d d') (updateTaskTx i t p agent at)"
  unfolding updateTaskTx_def
proof (rule tx_post_bind [OF writeHistory_post], intro tx_post_wrap_bind tx_post_call_bind)
  fix x d1 found d2
  let ?d = "with_history i agent (history_changes t p) d"
  assume d1: "d1 = ?d" and q: "updateTaskSQL i p at d1 = Some (found, d2)"
  obtain r where r: "row_lookup tr_id i (tk_rows d) = Some r" "t = row_params r" using t by (auto simp: tasks_of_Some)
  have f: "found = Some (patched_row p at r)" and d2: "d2 = with_patch i p at ?d"
    using q r(1) by (auto simp: d1 updateTaskSQL_def with_patch_def split: if_splits)
  have ok: "patch_ok p" "\<not> is_zero_time at" using p by (simp_all add: patch_allowed_def)
  then have "task_ok (row_params (patched_row p at r))"
    using patched_ok tasks_okD(3) [OF tables_invD(3) [OF inv] t] r(2) by (simp add: row_params_patched)
  then have scan: "scanTask wall (patched_row p at r) = Inr (patched p at t)" for wall
    using scan_ok row_params_patched [OF ok(1)] r(2) by metis
  have "tx_post d2 (\<lambda>x d'. x = patched p at t \<and> task_updated i t p agent at d d')
      (tx_bind (tx_wrap ctx (tx_scan (\<lambda>d. scanTask (tk_wall d) (patched_row p at r)))) (\<lambda>updated.
         tx_bind (recordUpdateTaskChangesTx t updated p) (\<lambda>_. tx_return updated)))" for ctx
  proof (intro tx_post_wrap_bind tx_post_bind [where R = "\<lambda>x d'. d' = d2 \<and> x = patched p at t"])
    show "tx_post d2 (\<lambda>x d'. d' = d2 \<and> x = patched p at t) (tx_scan (\<lambda>d. scanTask (tk_wall d) (patched_row p at r)))"
      by (rule tx_post_scan) (simp add: scan)
  next
    fix x d3 assume x: "d3 = d2 \<and> x = patched p at t"
    have "touched d2 t (patched p at t) p = touched d t (patched p at t) p"
      by (rule touched_deps) (simp add: d2)
    then show "tx_post d3 (\<lambda>x d'. x = patched p at t \<and> task_updated i t p agent at d d')
        (tx_bind (recordUpdateTaskChangesTx t x p) (\<lambda>_. tx_return x))"
      using x by (auto intro!: tx_post_bind [OF recordUpdateTaskChangesTx_post] tx_post_return simp: task_updated_def d2)
  qed simp_all
  then show "tx_post d2 (\<lambda>x d'. x = patched p at t \<and> task_updated i t p agent at d d')
      (case found of None \<Rightarrow> tx_fail (taskNotFound i)
       | Some r \<Rightarrow> tx_bind (tx_wrap (''updating task '' @ show_int i @ '': '') (tx_scan (\<lambda>d. scanTask (tk_wall d) r)))
           (\<lambda>updated. tx_bind (recordUpdateTaskChangesTx t updated p) (\<lambda>_. tx_return updated)))"
    by (simp add: f)
qed simp_all

lemma task_updated_view:
  assumes "tables_inv d" "tasks_of d i = Some t" "patch_allowed d t p at" "task_updated i t p agent at d d'"
  shows "tables_inv d'" "tasks_of d' = (tasks_of d)(i \<mapsto> patched p at t)" "tk_deps d' = tk_deps d"
    "tk_accepts d' = tk_accepts d" "tk_history d' = tk_history d @
       history_rows i agent (tk_now d) (tk_next_history d) (history_changes t p)"
proof -
  let ?d = "with_history i agent (history_changes t p) d"
  have 1: "tables_inv ?d" "tasks_of ?d i = Some t" "patch_allowed ?d t p at" using assms(1-3) by (simp_all add: patch_allowed_def)
  from assms(4) have e: "events_added ''updated'' (touched d t (patched p at t) p) (with_patch i p at ?d) d'"
    by (simp add: task_updated_def)
  show "tables_inv d'" using tables_inv_events [OF tables_inv_patch [OF 1] e] .
  show "tasks_of d' = (tasks_of d)(i \<mapsto> patched p at t)" "tk_deps d' = tk_deps d" "tk_accepts d' = tk_accepts d"
    "tk_history d' = tk_history d @ history_rows i agent (tk_now d) (tk_next_history d) (history_changes t p)"
    using events_added_frame [OF e] tasks_of_patch [OF _ 1(2)] 1(3)
    by (simp_all add: patch_allowed_def) (simp add: with_history_def)
qed

section \<open>The methods that write\<close>

text \<open>
  A method that writes returns; an error leaves the tables as they were, and an answer comes with its
  effect and keeps the invariant.
\<close>

definition store_write ::
    "(task_tables \<Rightarrow> 'a \<Rightarrow> task_tables \<Rightarrow> bool) \<Rightarrow> (task_tables pg \<Rightarrow> ((go_err + 'a) \<times> task_tables pg) option) \<Rightarrow> bool" where
  "store_write E m \<longleftrightarrow>
     (\<forall>db. tables_inv (pg_data db) \<longrightarrow>
        (\<exists>r db'. m db = Some (r, db') \<and>
           (case r of Inl e \<Rightarrow> pg_data db' = pg_data db
            | Inr x \<Rightarrow> tables_inv (pg_data db') \<and> E (pg_data db) x (pg_data db'))))"

lemma store_writeI:
  assumes "\<And>d. tables_inv d \<Longrightarrow> tx_post d (\<lambda>(x, _) d'. tables_inv d' \<and> E d x d') body"
  shows "store_write E (run_tx b body)"
  unfolding store_write_def
proof (intro allI impI)
  fix db :: "task_tables pg" assume "tables_inv (pg_data db)"
  then have "tx_post (pg_data db) (\<lambda>(x, _) d'. tables_inv d' \<and> E (pg_data db) x d') body" by (rule assms)
  then obtain r db' where "run_tx b body db = Some (r, db')" "\<And>e. r = Inl e \<Longrightarrow> pg_data db' = pg_data db"
    "\<And>x. r = Inr x \<Longrightarrow> tables_inv (pg_data db') \<and> E (pg_data db) x (pg_data db')"
    by (rule run_tx_post [where b = b]) auto
  then show "\<exists>r db'. run_tx b body db = Some (r, db') \<and>
      (case r of Inl e \<Rightarrow> pg_data db' = pg_data db | Inr x \<Rightarrow> tables_inv (pg_data db') \<and> E (pg_data db) x (pg_data db'))"
    by (cases r) auto
qed

lemma store_writeE:
  assumes "store_write E m" and "tables_inv (pg_data db)"
  obtains (error) e db' where "m db = Some (Inl e, db')" "pg_data db' = pg_data db"
    | (answer) x db' where "m db = Some (Inr x, db')" "tables_inv (pg_data db')" "E (pg_data db) x (pg_data db')"
proof -
  from assms obtain r db' where "m db = Some (r, db')"
    "case r of Inl e \<Rightarrow> pg_data db' = pg_data db | Inr x \<Rightarrow> tables_inv (pg_data db') \<and> E (pg_data db) x (pg_data db')"
    unfolding store_write_def by blast
  then show thesis by (cases r) (auto intro: that)
qed

definition update_effect :: "int \<Rightarrow> task_patch \<Rightarrow> string \<Rightarrow> time \<Rightarrow> task_tables \<Rightarrow> task \<Rightarrow> task_tables \<Rightarrow> bool" where
  "update_effect i p agent at d x d' \<longleftrightarrow>
     (\<exists>t. tasks_of d i = Some t \<and>
        (if taskPatchChanges t p
         then patch_allowed d t p at \<and> x = patched p at t \<and> task_updated i t p agent at d d'
         else x = t \<and> d' = d))"

lemma tx_post_update:
  assumes "tables_inv d" "tasks_of d i = Some t" "patch_allowed d t p at"
    and "\<And>d'. tables_inv d' \<Longrightarrow> task_updated i t p agent at d d' \<Longrightarrow> tx_post d' Q (k (patched p at t))"
    and "\<And>x. tx_stops (k x)"
  shows "tx_post d Q (tx_bind (updateTaskTx i t p agent at) k)"
  by (rule tx_post_bind [OF updateTaskTx_post [OF assms(1-3)]]) (use assms(4,5) task_updated_view(1) [OF assms(1-3)] in auto)

lemma tk_UpdateTask_write:
  assumes "patch_ok p" and "\<not> is_zero_time at"
  shows "store_write (update_effect i p agent at) (tk_UpdateTask i p agent at)"
  unfolding tk_UpdateTask_def
proof (rule store_writeI, rule tx_post_task)
  fix d t assume inv: "tables_inv d" and t: "tasks_of d i = Some t"
  let ?Q = "\<lambda>(x, _) d'. tables_inv d' \<and> update_effect i p agent at d x d'"
  let ?k = "if \<not> taskPatchChanges t p then tx_return (t, ''committing idempotent task update: '')
        else tx_bind (updateTaskTx i t p agent at) (\<lambda>updated. tx_return (updated, ''committing update task: ''))"
  have k: "tx_post d ?Q ?k" if "pa_has_parent p \<Longrightarrow> parent_allowed (tasks_of d) (ta_project t) i (pa_parent p)"
  proof (cases "taskPatchChanges t p")
    case True
    have "patch_allowed d t p at"
      using that assms tasks_okD(2) [OF tables_invD(3) [OF inv] t] by (simp add: patch_allowed_def)
    with True t show ?thesis
      by (auto intro!: tx_post_update [OF inv t] tx_post_return simp: update_effect_def)
  next
    case False
    with inv t show ?thesis by (auto intro!: tx_post_return simp: update_effect_def)
  qed
  show "tx_post d ?Q (tx_bind (if pa_has_parent p then validateParent (ta_project t) i (pa_parent p) else tx_return ()) (\<lambda>_. ?k))"
  proof (cases "pa_has_parent p")
    case True
    with k show ?thesis by (auto intro!: tx_post_parent [OF inv])
  next
    case False
    with k show ?thesis by (simp add: tx_bind_return)
  qed
qed simp_all

definition review_patch :: task_patch where
  "review_patch = empty_patch\<lparr>pa_status := Some StatusReview\<rparr>"

definition transition_effect ::
    "string \<Rightarrow> int \<Rightarrow> string \<Rightarrow> time \<Rightarrow> task_tables \<Rightarrow> task \<times> string \<Rightarrow> task_tables \<Rightarrow> bool" where
  "transition_effect project i agent at d x d' \<longleftrightarrow>
     (\<exists>t. tasks_of d i = Some t \<and> ta_project t = project \<and>
        (if ta_status t = StatusReview then x = (t, TaskTransitionAlreadySatisfied) \<and> d' = d
         else ta_status t = StatusInProgress \<and> x = (patched review_patch at t, TaskTransitionApplied) \<and>
              task_updated i t review_patch agent at d d'))"

lemma review_patch_allowed: "\<not> is_zero_time at \<Longrightarrow> patch_allowed d t review_patch at"
  by (simp add: patch_allowed_def review_patch_def) (simp add: empty_patch_def)

lemma tk_TransitionTaskToReview_write:
  assumes "\<not> is_zero_time at"
  shows "store_write (transition_effect project i agent at) (tk_TransitionTaskToReview project i agent at)"
  unfolding tk_TransitionTaskToReview_def
proof (rule store_writeI, rule tx_post_task)
  fix d t assume inv: "tables_inv d" and t: "tasks_of d i = Some t"
  note upd = tx_post_update [OF inv t review_patch_allowed [OF assms]]
  show "tx_post d (\<lambda>(x, _) d'. tables_inv d' \<and> transition_effect project i agent at d x d')
    (if ta_project t \<noteq> project then tx_fail (taskNotFound i)
        else if ta_status t = StatusReview then
          tx_return ((t, TaskTransitionAlreadySatisfied), ''committing idempotent review transition: '')
        else if ta_status t \<noteq> StatusInProgress then
          tx_fail (tasks_conflict (Wrapped [] ErrReviewTransitionState ('': current status is '' @ ta_status t))
                     ''review_transition_ineligible'')
        else tx_bind (updateTaskTx i t (empty_patch\<lparr>pa_status := Some StatusReview\<rparr>) agent at) (\<lambda>updated.
             tx_return ((updated, TaskTransitionApplied), ''committing review transition: '')))"
    unfolding review_patch_def [symmetric] using inv t
    by (auto intro!: tx_post_if upd tx_post_return simp: transition_effect_def)
qed simp_all

definition add_dependency_effect :: "int \<Rightarrow> int \<Rightarrow> task_tables \<Rightarrow> unit \<Rightarrow> task_tables \<Rightarrow> bool" where
  "add_dependency_effect i dep d x d' \<longleftrightarrow>
     i \<in> dom (tasks_of d) \<and> dep \<in> dom (tasks_of d) \<and> (dep, i) \<notin> (set (tk_deps d))\<^sup>* \<and>
     events_added ''dependency_added'' {i} (with_dep i dep d) d'"

lemma singleton_events: "events_added kind {j \<in> set [i]. 0 < j} d d' \<Longrightarrow> tables_inv d \<Longrightarrow> events_added kind {i} d d'"
proof -
  assume a: "events_added kind {j \<in> set [i]. 0 < j} d d'" "tables_inv d"
  have "{j \<in> set [i]. 0 < j} \<inter> dom (tasks_of d) = {i} \<inter> dom (tasks_of d)"
    using tasks_okD(1) [OF tables_invD(3) [OF a(2)]] by auto
  with a(1) show ?thesis by (simp add: events_added_def)
qed

lemma tx_post_changes:
  assumes "tables_inv d" and "\<And>d'. tables_inv d' \<Longrightarrow> events_added kind {i} d d' \<Longrightarrow> tx_post d' Q (k ())" and "\<And>x. tx_stops (k x)"
  shows "tx_post d Q (tx_bind (recordTaskChangesTx kind [i]) k)"
  by (rule tx_post_bind [OF recordTaskChangesTx_post])
    (use assms singleton_events tables_inv_events in \<open>auto simp del: list.set\<close>)

lemma tk_AddDependency_write: "store_write (add_dependency_effect i dep) (tk_AddDependency i dep)"
  unfolding tk_AddDependency_def
proof (rule store_writeI, rule tx_post_bind [OF addDependencyTx_post])
  fix d x d1
  assume d1: "d1 = with_dep i dep d \<and> tables_inv d1 \<and> i \<in> dom (tasks_of d) \<and> dep \<in> dom (tasks_of d) \<and>
    (dep, i) \<notin> (set (tk_deps d))\<^sup>*"
  then have "tables_inv (with_dep i dep d)" by blast
  with d1 show "tx_post d1 (\<lambda>(x, _) d'. tables_inv d' \<and> add_dependency_effect i dep d x d')
    (tx_bind (recordTaskChangesTx ''dependency_added'' [i]) (\<lambda>_. tx_return ((), ''committing add dependency: '')))"
    by (intro tx_post_changes tx_post_return) (simp_all add: add_dependency_effect_def)
qed simp_all

definition without_dep :: "int \<Rightarrow> int \<Rightarrow> task_tables \<Rightarrow> task_tables" where
  "without_dep i dep d = d\<lparr>tk_deps := filter (\<lambda>e. e \<noteq> (i, dep)) (tk_deps d)\<rparr>"

lemma without_dep_view [simp]:
  "tasks_of (without_dep i dep d) = tasks_of d" "set (tk_deps (without_dep i dep d)) = set (tk_deps d) - {(i, dep)}"
  by (auto simp: without_dep_def tasks_of_def fun_eq_iff)

lemma tables_inv_without: "tables_inv d \<Longrightarrow> tables_inv (without_dep i dep d)"
proof -
  assume inv: "tables_inv d"
  have "view_ok (view_of (without_dep i dep d))"
    using tables_invD(3-5) [OF inv] by (auto simp: view_ok_def view_of_def elim: acyclic_subset)
  with inv show ?thesis unfolding tables_inv_def by (simp add: without_dep_def)
qed

definition remove_dependency_effect :: "int \<Rightarrow> int \<Rightarrow> task_tables \<Rightarrow> unit \<Rightarrow> task_tables \<Rightarrow> bool" where
  "remove_dependency_effect i dep d x d' \<longleftrightarrow> events_added ''dependency_removed'' {i} (without_dep i dep d) d'"

lemma tk_RemoveDependency_write: "store_write (remove_dependency_effect i dep) (tk_RemoveDependency i dep)"
  unfolding tk_RemoveDependency_def
proof (rule store_writeI, intro tx_post_wrap_bind tx_post_call_bind)
  fix d x d1 assume inv: "tables_inv d" and q: "removeDependencySQL i dep d = Some (x, d1)"
  then have "d1 = without_dep i dep d" by (simp add: removeDependencySQL_def without_dep_def)
  with tables_inv_without [OF inv]
  show "tx_post d1 (\<lambda>(x, _) d'. tables_inv d' \<and> remove_dependency_effect i dep d x d')
    (tx_bind (recordTaskChangesTx ''dependency_removed'' [i]) (\<lambda>_. tx_return ((), ''committing remove dependency: '')))"
    by (intro tx_post_changes tx_post_return) (simp_all add: remove_dependency_effect_def)
qed simp_all

section \<open>Creation\<close>

definition created_row :: "task \<Rightarrow> int \<Rightarrow> task_row" where
  "created_row t i =
     \<lparr>tr_id = i, tr_project = ta_project t, tr_parent = ta_parent t, tr_title = ta_title t,
      tr_description = emptyToNil (ta_description t), tr_status = ta_status t, tr_priority = ta_priority t,
      tr_assigned = emptyToNil (ta_assigned t), tr_tags = jsonOrNil (ta_tags t),
      tr_summary = emptyToNil (ta_summary t), tr_reason = emptyToNil (ta_reason t),
      tr_remedies = emptyToNil (ta_remedies t), tr_next_step = emptyToNil (ta_next_step t),
      tr_human = ta_human t, tr_created = ta_created t, tr_updated = ta_updated t\<rparr>"

definition with_task :: "task \<Rightarrow> task_tables \<Rightarrow> task_tables" where
  "with_task t d = d\<lparr>tk_rows := tk_rows d @ [created_row t (tk_next_task d)], tk_next_task := tk_next_task d + 1\<rparr>"

lemma created_row_params: "task_ok t \<Longrightarrow> row_params (created_row t i) = t\<lparr>ta_id := i\<rparr>"
  by (cases t) (simp add: row_params_def created_row_def tags_json task_ok_def)

lemma fresh_task: "tables_inv d \<Longrightarrow> tasks_of d (tk_next_task d) = None \<and> 0 < tk_next_task d"
  by (auto simp: tables_inv_def tasks_of_def row_lookup_None)

lemma with_task_frame [simp]:
  "tk_deps (with_task t d) = tk_deps d" "tk_history (with_task t d) = tk_history d"
  "tk_events (with_task t d) = tk_events d" "tk_accepts (with_task t d) = tk_accepts d"
  "tk_next_event (with_task t d) = tk_next_event d"
  by (simp_all add: with_task_def)

lemma tasks_of_with_task:
  assumes "tables_inv d" and "task_ok t"
  shows "tasks_of (with_task t d) = (tasks_of d)(tk_next_task d \<mapsto> t\<lparr>ta_id := tk_next_task d\<rparr>)"
proof (rule ext)
  fix j
  have "row_lookup tr_id (tk_next_task d) (tk_rows d) = None" using fresh_task [OF assms(1)] by (simp add: tasks_of_def)
  moreover have "tr_id (created_row t (tk_next_task d)) = tk_next_task d" by (simp add: created_row_def)
  ultimately show "tasks_of (with_task t d) j = ((tasks_of d)(tk_next_task d \<mapsto> t\<lparr>ta_id := tk_next_task d\<rparr>)) j"
    using created_row_params [OF assms(2)]
    by (auto simp: tasks_of_def with_task_def row_lookup_append split: option.splits)
qed

lemma task_ok_id [simp]: "task_ok (t\<lparr>ta_id := i\<rparr>) = task_ok t"
  by (simp add: task_ok_def)

lemma tables_inv_with_task:
  assumes inv: "tables_inv d" and t: "task_ok t" and par: "parent_allowed (tasks_of d) (ta_project t) 0 (ta_parent t)"
  shows "tables_inv (with_task t d)"
proof -
  let ?i = "tk_next_task d"
  have ok: "tasks_ok (tasks_of (with_task t d))"
    unfolding tasks_of_with_task [OF inv t]
    by (rule tasks_ok_add [OF tables_invD(3) [OF inv]]) (use fresh_task [OF inv] t par in auto)
  have "dom (tasks_of d) \<subseteq> dom (tasks_of (with_task t d))" unfolding tasks_of_with_task [OF inv t] by auto
  then have "view_ok (view_of (with_task t d))"
    using ok tables_invD(4,5) [OF inv] by (simp add: view_ok_def view_of_def) blast
  moreover have "\<forall>r\<in>set (tk_rows (with_task t d)). tr_id r < tk_next_task (with_task t d)"
    using inv by (auto simp: with_task_def created_row_def tables_inv_def)
  moreover have "distinct (map tr_id (tk_rows (with_task t d)))"
    using inv by (auto simp: with_task_def created_row_def tables_inv_def)
  ultimately show ?thesis using inv unfolding tables_inv_def by (simp add: with_task_def)
qed

text \<open>Adding the dependencies one after the other.\<close>

definition deps_added :: "int \<Rightarrow> int list \<Rightarrow> task_tables \<Rightarrow> task_tables \<Rightarrow> bool" where
  "deps_added i ds d d' \<longleftrightarrow> tables_inv d' \<and> d' = d\<lparr>tk_deps := tk_deps d'\<rparr> \<and>
     set (tk_deps d') = set (tk_deps d) \<union> {i} \<times> set ds \<and> set ds \<subseteq> dom (tasks_of d)"

lemma deps_added_Cons:
  assumes "d1 = with_dep i x d" "x \<in> dom (tasks_of d)" "deps_added i ds d1 d'"
  shows "deps_added i (x # ds) d d'"
proof -
  have "d' = d\<lparr>tk_deps := tk_deps d'\<rparr>" using assms(1,3) unfolding deps_added_def with_dep_def by (metis (no_types, lifting) task_tables.surjective task_tables.update_convs(2))
  with assms show ?thesis by (auto simp: deps_added_def)
qed

lemma addDependencies_post:
  "tables_inv d \<Longrightarrow> tx_post d (\<lambda>_ d'. deps_added i ds d d') (tx_each (addDependencyTx i) ds)"
proof (induction ds arbitrary: d)
  case Nil
  then show ?case by (auto intro!: tx_post_return simp: deps_added_def)
next
  case (Cons x ds)
  show ?case unfolding tx_each.simps
  proof (rule tx_post_bind [OF addDependencyTx_post [OF Cons.prems]])
    fix u d1
    assume d1: "d1 = with_dep i x d \<and> tables_inv d1 \<and> i \<in> dom (tasks_of d) \<and> x \<in> dom (tasks_of d) \<and> (x, i) \<notin> (set (tk_deps d))\<^sup>*"
    then have "tables_inv d1" by blast
    from Cons.IH [OF this] show "tx_post d1 (\<lambda>_ d'. deps_added i (x # ds) d d') (tx_each (addDependencyTx i) ds)"
      by (rule tx_post_weaken) (use d1 deps_added_Cons in blast)
  qed simp
qed

definition create_effect :: "task \<Rightarrow> int list \<Rightarrow> task_tables \<Rightarrow> task \<Rightarrow> task_tables \<Rightarrow> bool" where
  "create_effect t ds d x d' \<longleftrightarrow>
     parent_allowed (tasks_of d) (ta_project t) 0 (ta_parent t) \<and> x = t\<lparr>ta_id := tk_next_task d\<rparr> \<and>
     (\<exists>d1 d2. deps_added (ta_id x) ds (with_task t d) d1 \<and> events_added ''created'' {ta_id x} d1 d2 \<and>
        (case ta_parent t of None \<Rightarrow> d' = d2 | Some p \<Rightarrow> events_added ''subtask_created'' {p} d2 d'))"

lemma create_rest_post:
  assumes "tables_inv d1" "x = t\<lparr>ta_id := tk_next_task d\<rparr>"
    "parent_allowed (tasks_of d) (ta_project t) 0 (ta_parent t)" "deps_added (ta_id x) ds (with_task t d) d1"
  shows "tx_post d1 (\<lambda>(x, _) d'. tables_inv d' \<and> create_effect t ds d x d')
    (tx_bind (recordTaskChangesTx ''created'' [ta_id x]) (\<lambda>_.
     tx_bind (case ta_parent x of None \<Rightarrow> tx_return () | Some p \<Rightarrow> recordTaskChangesTx ''subtask_created'' [p]) (\<lambda>_.
     tx_return (x, c))))"
proof (rule tx_post_changes [OF assms(1)])
  fix d2 assume d2: "tables_inv d2" "events_added ''created'' {ta_id x} d1 d2"
  show "tx_post d2 (\<lambda>(x, _) d'. tables_inv d' \<and> create_effect t ds d x d')
    (tx_bind (case ta_parent x of None \<Rightarrow> tx_return () | Some p \<Rightarrow> recordTaskChangesTx ''subtask_created'' [p]) (\<lambda>_.
     tx_return (x, c)))"
  proof (cases "ta_parent t")
    case None
    with assms d2 show ?thesis by (auto intro!: tx_post_return simp: tx_bind_return create_effect_def)
  next
    case (Some p)
    with assms have "ta_parent x = Some p" by simp
    then show ?thesis
      using Some assms d2
      by (auto intro!: tx_post_changes tx_post_return simp: create_effect_def) blast
  qed
qed simp_all

lemma tk_CreateTask_write:
  assumes t: "task_ok t"
  shows "store_write (create_effect t ds) (tk_CreateTask t ds)"
  unfolding tk_CreateTask_def
proof (rule store_writeI, rule tx_post_parent)
  fix d assume inv: "tables_inv d" and par: "parent_allowed (tasks_of d) (ta_project t) 0 (ta_parent t)"
  let ?Q = "\<lambda>(x, _) d'. tables_inv d' \<and> create_effect t ds d x d'"
  note inv1 = tables_inv_with_task [OF inv t par]
  have scan: "scanTask wall (created_row t i) = Inr (t\<lparr>ta_id := i\<rparr>)" for wall i
    using scan_ok [of "created_row t i"] created_row_params [OF t] t by simp
  have made: "tx_post d (\<lambda>x d'. d' = with_task t d \<and> x = t\<lparr>ta_id := tk_next_task d\<rparr>)
      (tx_bind (tx_call (createTaskSQL t)) (\<lambda>r. tx_scan (\<lambda>d. scanTask (tk_wall d) r)))"
    by (intro tx_post_call_bind tx_post_scan)
      (auto simp: createTaskSQL_def with_task_def scan Let_def created_row_def [symmetric] split: if_splits)
  show "tx_post d ?Q
    (tx_bind (tx_wrap ''creating task: ''
          (tx_bind (tx_call (createTaskSQL t)) (\<lambda>r. tx_scan (\<lambda>d. scanTask (tk_wall d) r)))) (\<lambda>created.
        tx_bind (tx_each (addDependencyTx (ta_id created)) ds) (\<lambda>_.
        tx_bind (recordTaskChangesTx ''created'' [ta_id created]) (\<lambda>_.
        tx_bind (case ta_parent created of None \<Rightarrow> tx_return ()
                 | Some p \<Rightarrow> recordTaskChangesTx ''subtask_created'' [p]) (\<lambda>_.
        tx_return (created, ''committing create task: ''))))))"
  proof (rule tx_post_bind [OF tx_post_wrap [OF made]])
    fix x d1 assume d1: "d1 = with_task t d \<and> x = t\<lparr>ta_id := tk_next_task d\<rparr>"
    then have "tables_inv d1" using inv1 by blast
    from addDependencies_post [OF this]
    show "tx_post d1 ?Q (tx_bind (tx_each (addDependencyTx (ta_id x)) ds) (\<lambda>_.
        tx_bind (recordTaskChangesTx ''created'' [ta_id x]) (\<lambda>_.
        tx_bind (case ta_parent x of None \<Rightarrow> tx_return ()
                 | Some p \<Rightarrow> recordTaskChangesTx ''subtask_created'' [p]) (\<lambda>_.
        tx_return (x, ''committing create task: '')))))"
    proof (rule tx_post_bind)
      fix u d2 assume "deps_added (ta_id x) ds d1 d2"
      with d1 par show "tx_post d2 ?Q (tx_bind (recordTaskChangesTx ''created'' [ta_id x]) (\<lambda>_.
        tx_bind (case ta_parent x of None \<Rightarrow> tx_return ()
                 | Some p \<Rightarrow> recordTaskChangesTx ''subtask_created'' [p]) (\<lambda>_.
        tx_return (x, ''committing create task: ''))))"
        by (intro create_rest_post) (auto simp: deps_added_def)
    qed simp
  qed simp
qed simp_all

end
