(* ===== verification/Tasks_Accept_Laws.thy ===== *)
theory Tasks_Accept_Laws
  imports Tasks_Ops
begin

text \<open>
  Human acceptance: what the transaction does to the tables, on a first request and on a retry.
\<close>

section \<open>Completing a task\<close>

definition completed :: "task \<Rightarrow> string \<Rightarrow> time \<Rightarrow> task_tables \<Rightarrow> task \<Rightarrow> task_tables \<Rightarrow> bool" where
  "completed t reviewer at d x d' \<longleftrightarrow>
     (if ta_status t = StatusDone then x = t \<and> d' = d
      else x = patched (completion_patch t) at t \<and> task_updated (ta_id t) t (completion_patch t) reviewer at d d')"

lemma completion_patch_fields [simp]:
  "pa_status (completion_patch t) = Some StatusDone" "pa_has_parent (completion_patch t) = False"
  by (simp_all add: completion_patch_def Let_def clear_blockers_def) (simp_all add: empty_patch_def)

lemma completion_allowed: "\<not> is_zero_time at \<Longrightarrow> patch_allowed d t (completion_patch t) at"
  by (simp add: patch_allowed_def)

lemma completed_task:
  "completed t reviewer at d x d' \<Longrightarrow>
     ta_status x = StatusDone \<and> ta_id x = ta_id t \<and> ta_parent x = ta_parent t \<and> ta_project x = ta_project t"
  by (simp add: completed_def coalesce_def split: if_splits)

lemma completed_view:
  assumes "tables_inv d" "tasks_of d i = Some t" "\<not> is_zero_time at" "completed t reviewer at d x d'"
  shows "tables_inv d'" "tasks_of d' = (tasks_of d)(i \<mapsto> x)" "tk_deps d' = tk_deps d" "tk_accepts d' = tk_accepts d"
proof -
  have id: "ta_id t = i" using tasks_okD(2) [OF tables_invD(3) [OF assms(1)] assms(2)] .
  have "tables_inv d' \<and> tasks_of d' = (tasks_of d)(i \<mapsto> x) \<and> tk_deps d' = tk_deps d \<and> tk_accepts d' = tk_accepts d"
  proof (cases "ta_status t = StatusDone")
    case True
    with assms show ?thesis by (simp add: completed_def fun_upd_idem)
  next
    case False
    with assms(4) id have x: "x = patched (completion_patch t) at t"
      and u: "task_updated i t (completion_patch t) reviewer at d d'" by (simp_all add: completed_def)
    from task_updated_view [OF assms(1,2) completion_allowed [OF assms(3)] u] show ?thesis by (simp add: x)
  qed
  then show "tables_inv d'" "tasks_of d' = (tasks_of d)(i \<mapsto> x)" "tk_deps d' = tk_deps d" "tk_accepts d' = tk_accepts d"
    by blast+
qed

lemma completeTaskTx_stops [simp]: "tx_stops (completeTaskTx t reviewer at)"
  by (simp add: completeTaskTx_def)

lemma completeTaskTx_post:
  assumes "tables_inv d" "tasks_of d i = Some t" "\<not> is_zero_time at"
  shows "tx_post d (\<lambda>x d'. completed t reviewer at d x d') (completeTaskTx t reviewer at)"
proof (cases "ta_status t = StatusDone")
  case True
  then show ?thesis by (simp add: completeTaskTx_def completed_def tx_post_return)
next
  case False
  have "ta_id t = i" using tasks_okD(2) [OF tables_invD(3) [OF assms(1)] assms(2)] .
  then have "tx_post d (\<lambda>x d'. x = patched (completion_patch t) at t \<and> task_updated (ta_id t) t (completion_patch t) reviewer at d d')
      (updateTaskTx (ta_id t) t (completion_patch t) reviewer at)"
    using updateTaskTx_post [OF assms(1,2) completion_allowed [OF assms(3)]] by simp
  with False show ?thesis by (simp add: completeTaskTx_def completed_def)
qed

section \<open>Completing the parent\<close>

definition parent_eligible :: "task_tables \<Rightarrow> int \<Rightarrow> bool" where
  "parent_eligible d p \<longleftrightarrow>
     (\<forall>i t. tasks_of d i = Some t \<longrightarrow> ta_parent t = Some p \<longrightarrow> terminalStatus (ta_status t)) \<and>
     (\<forall>j t. (p, j) \<in> set (tk_deps d) \<longrightarrow> tasks_of d j = Some t \<longrightarrow> dependencySatisfiedStatus (ta_status t))"

lemma count_where_0: "count_where P xs = 0 \<longleftrightarrow> (\<forall>x\<in>set xs. \<not> P x)"
  by (simp add: count_where_def filter_empty_conv)

lemma unsatisfied_iff:
  "unsatisfied d e \<longleftrightarrow> (\<exists>t. tasks_of d (snd e) = Some t \<and> \<not> dependencySatisfiedStatus (ta_status t))"
  by (auto simp: unsatisfied_def dep_row_def tasks_of_def row_params_def dependencySatisfiedStatus_def
      terminalStatus_def status_defs split: option.splits)

lemma parent_eligible_counts:
  assumes "tables_inv d"
  shows "unfinishedChildrenSQL p d = 0 \<and> unfinishedParentDependenciesSQL p d = 0 \<longleftrightarrow> parent_eligible d p"
proof -
  have "(\<forall>r\<in>set (tk_rows d). \<not> (tr_parent r = Some p \<and> tr_status r \<notin> {''done'', ''cancelled''})) \<longleftrightarrow>
      (\<forall>i t. tasks_of d i = Some t \<longrightarrow> ta_parent t = Some p \<longrightarrow> terminalStatus (ta_status t))" (is "?L \<longleftrightarrow> ?R")
  proof
    assume L: ?L
    show ?R
    proof (intro allI impI)
      fix i t assume "tasks_of d i = Some t" "ta_parent t = Some p"
      then obtain r where "r \<in> set (tk_rows d)" "t = row_params r"
        using row_lookup_Some [of tr_id i "tk_rows d"] by (auto simp: tasks_of_Some)
      with L \<open>ta_parent t = Some p\<close> show "terminalStatus (ta_status t)"
        by (auto simp: row_params_def terminalStatus_def status_defs)
    qed
  next
    assume R: ?R
    show ?L
    proof
      fix r assume "r \<in> set (tk_rows d)"
      then have "tasks_of d (tr_id r) = Some (row_params r)"
        using row_of_id [OF tables_invD(1) [OF assms]] unfolding tasks_of_def by simp
      with R have "ta_parent (row_params r) = Some p \<longrightarrow> terminalStatus (ta_status (row_params r))" by blast
      then show "\<not> (tr_parent r = Some p \<and> tr_status r \<notin> {''done'', ''cancelled''})"
        by (auto simp: row_params_def terminalStatus_def status_defs)
    qed
  qed
  moreover have "(\<forall>e\<in>set (tk_deps d). \<not> (fst e = p \<and> unsatisfied d e)) \<longleftrightarrow>
      (\<forall>j t. (p, j) \<in> set (tk_deps d) \<longrightarrow> tasks_of d j = Some t \<longrightarrow> dependencySatisfiedStatus (ta_status t))"
    unfolding unsatisfied_iff by fastforce
  ultimately show ?thesis
    unfolding unfinishedChildrenSQL_def unfinishedParentDependenciesSQL_def unfinished_dep_count_def
      count_where_0 parent_eligible_def by blast
qed

lemma parentCompletionEligibleTx_stops [simp]: "tx_stops (parentCompletionEligibleTx p)"
  by (simp add: parentCompletionEligibleTx_def)

lemma parentCompletionEligibleTx_post:
  "tables_inv d \<Longrightarrow> tx_post d (\<lambda>b d'. d' = d \<and> (b \<longleftrightarrow> parent_eligible d p)) (parentCompletionEligibleTx p)"
  unfolding parentCompletionEligibleTx_def
  by (intro tx_post_wrap_bind tx_post_read tx_post_return) (simp_all add: parent_eligible_counts)

definition parent_completed :: "acceptance_command \<Rightarrow> task \<Rightarrow> task_tables \<Rightarrow> string \<times> task \<Rightarrow> task_tables \<Rightarrow> bool" where
  "parent_completed c t d bx d' \<longleftrightarrow>
     (\<exists>p q. ta_parent t = Some p \<and> tasks_of d p = Some q \<and> ta_status q \<noteq> StatusCancelled \<and> parent_eligible d p \<and>
        fst bx = ta_status q \<and> completed q (af_reviewer (ac_facts c)) (ac_created c) d (snd bx) d')"

lemma complete_parent_stops [simp]: "tx_stops (complete_parent c t)"
  by (simp add: complete_parent_def)

lemma complete_parent_post:
  assumes inv: "tables_inv d" and at: "\<not> is_zero_time (ac_created c)"
  shows "tx_post d (\<lambda>bx d'. parent_completed c t d bx d') (complete_parent c t)"
  unfolding complete_parent_def
proof (intro tx_post_option tx_post_fail tx_post_task [OF inv] tx_post_if)
  fix p q assume p: "ta_parent t = Some p" "tasks_of d p = Some q" "\<not> ta_status q = StatusCancelled"
  have id: "ta_id q = p" using tasks_okD(2) [OF tables_invD(3) [OF inv] p(2)] .
  show "tx_post d (\<lambda>bx d'. parent_completed c t d bx d')
     (tx_bind (parentCompletionEligibleTx (ta_id q)) (\<lambda>eligible.
          if \<not> eligible then
            tx_fail (tasks_conflict ErrAcceptanceParentIneligible ''human_acceptance_parent_ineligible'')
          else tx_bind (completeTaskTx q (af_reviewer (ac_facts c)) (ac_created c)) (\<lambda>after.
          tx_return (ta_status q, after))))"
    by (rule tx_post_bind [OF parentCompletionEligibleTx_post [OF inv]])
      (use p at id in \<open>auto intro!: tx_post_bind [OF completeTaskTx_post [OF inv]] tx_post_return simp: parent_completed_def\<close>)
qed simp_all

section \<open>Recording an acceptance\<close>

definition with_accept :: "acceptance_review \<Rightarrow> task_tables \<Rightarrow> task_tables" where
  "with_accept v d = d\<lparr>tk_accepts := tk_accepts d @ [accept_row_of v (tk_next_accept d)], tk_next_accept := tk_next_accept d + 1\<rparr>"

lemma with_accept_view [simp]:
  "tasks_of (with_accept v d) = tasks_of d" "tk_deps (with_accept v d) = tk_deps d" "view_of (with_accept v d) = view_of d"
  "tk_rows (with_accept v d) = tk_rows d" "tk_events (with_accept v d) = tk_events d"
  "tk_next_task (with_accept v d) = tk_next_task d" "tk_next_event (with_accept v d) = tk_next_event d"
  by (simp_all add: with_accept_def tasks_of_def view_of_def fun_eq_iff)

lemma scan_accept_row [simp]: "scanHumanAcceptance (accept_row_of v n) = v\<lparr>av_id := n\<rparr>"
  by (cases v) (simp add: scanHumanAcceptance_def accept_row_of_def)

lemma tables_inv_accept:
  assumes "tables_inv d" and "getHumanAcceptanceSQL (av_task v) (av_key v) d = None"
  shows "tables_inv (with_accept v d)"
proof -
  have "(av_task v, av_key v) \<notin> (\<lambda>a. (ar_task a, ar_key a)) ` set (tk_accepts d)"
    using assms(2) by (auto simp: getHumanAcceptanceSQL_def find_None_iff)
  then have "distinct (map (\<lambda>a. (ar_task a, ar_key a)) (tk_accepts (with_accept v d)))"
    using assms(1) by (simp add: with_accept_def accept_row_of_def tables_inv_def)
  with assms(1) show ?thesis unfolding tables_inv_def by simp
qed

lemma insertHumanAcceptanceTx_stops [simp]: "tx_stops (insertHumanAcceptanceTx v)"
  by (simp add: insertHumanAcceptanceTx_def)

lemma insertHumanAcceptanceTx_post:
  "tx_post d (\<lambda>x d'. getHumanAcceptanceSQL (av_task v) (av_key v) d = None \<and> d' = with_accept v d \<and>
      x = v\<lparr>av_id := tk_next_accept d\<rparr>) (insertHumanAcceptanceTx v)"
  unfolding insertHumanAcceptanceTx_def
  by (intro tx_post_wrap_bind tx_post_call_bind tx_post_return)
    (auto simp: insertHumanAcceptanceSQL_def with_accept_def Let_def split: if_splits)

text \<open>The task and the parent of a request that records.\<close>

definition task_part :: "acceptance_command \<Rightarrow> task \<Rightarrow> task_tables \<Rightarrow> task \<Rightarrow> task_tables \<Rightarrow> bool" where
  "task_part c t d x d' \<longleftrightarrow>
     (if af_effect (ac_facts c) = HumanAcceptanceRecordOnly then x = t \<and> d' = d
      else completed t (af_reviewer (ac_facts c)) (ac_created c) d x d')"

definition parent_part :: "acceptance_command \<Rightarrow> task \<Rightarrow> task_tables \<Rightarrow> (string \<times> task) option \<Rightarrow> task_tables \<Rightarrow> bool" where
  "parent_part c x d p d' \<longleftrightarrow>
     (if af_effect (ac_facts c) = HumanAcceptanceCompleteTaskAndParent
      then \<exists>bx. p = Some bx \<and> parent_completed c x d bx d' else p = None \<and> d' = d)"

definition accept_recorded :: "acceptance_command \<Rightarrow> task \<Rightarrow> task_tables \<Rightarrow> acceptance_mutation \<Rightarrow> task_tables \<Rightarrow> bool" where
  "accept_recorded c t d m d' \<longleftrightarrow>
     (\<exists>d1 d2 parent. task_part c t d (am_task m) d1 \<and> parent_part c (am_task m) d1 parent d2 \<and>
        am_parent m = map_option snd parent \<and>
        am_review m = (review_of c t (am_task m) parent)\<lparr>av_id := tk_next_accept d2\<rparr> \<and>
        events_added ''human_acceptance_recorded'' {ta_id t} (with_accept (review_of c t (am_task m) parent) d2) d')"

lemma task_part_view:
  assumes "tables_inv d" "tasks_of d i = Some t" "\<not> is_zero_time (ac_created c)" "task_part c t d x d'"
  shows "tables_inv d'" "tasks_of d' = (tasks_of d)(i \<mapsto> x)" "tk_accepts d' = tk_accepts d" "ta_id x = ta_id t" "ta_parent x = ta_parent t"
  using assms completed_view [OF assms(1-3)] completed_task
  by (auto simp: task_part_def fun_upd_idem split: if_splits)

lemma parent_part_view:
  assumes "tables_inv d" "\<not> is_zero_time (ac_created c)" "parent_part c x d p d'"
  shows "tables_inv d'" "tk_accepts d' = tk_accepts d"
    "tasks_of d' = (case p of None \<Rightarrow> tasks_of d | Some bx \<Rightarrow> (tasks_of d)(the (ta_parent x) \<mapsto> snd bx))"
  using assms completed_view [OF assms(1) _ assms(2)]
  by (auto simp: parent_part_def parent_completed_def split: if_splits)

lemma record_acceptance_body_stops [simp]: "tx_stops (record_acceptance_body c t)"
  by (simp add: record_acceptance_body_def Let_def)

lemma record_rest_post:
  assumes inv: "tables_inv d2" and v: "v = review_of c t x p" and t: "ta_id x = ta_id t" "0 < ta_id t"
    and parts: "task_part c t d x d1" "parent_part c x d1 p d2"
  shows "tx_post d2 (\<lambda>m d'. tables_inv d' \<and> accept_recorded c t d m d')
    (tx_bind (insertHumanAcceptanceTx v) (\<lambda>review.
      tx_bind (recordTaskChangesTx ''human_acceptance_recorded'' [ta_id x]) (\<lambda>_.
      tx_return \<lparr>am_review = review, am_task = x, am_parent = map_option snd p, am_changed = cs, am_unchanged = us\<rparr>)))"
proof (rule tx_post_bind [OF insertHumanAcceptanceTx_post])
  fix r d3
  assume 3: "getHumanAcceptanceSQL (av_task v) (av_key v) d2 = None \<and> d3 = with_accept v d2 \<and> r = v\<lparr>av_id := tk_next_accept d2\<rparr>"
  then have inv3: "tables_inv d3" using tables_inv_accept [OF inv] by blast
  show "tx_post d3 (\<lambda>m d'. tables_inv d' \<and> accept_recorded c t d m d')
    (tx_bind (recordTaskChangesTx ''human_acceptance_recorded'' [ta_id x]) (\<lambda>_.
      tx_return \<lparr>am_review = r, am_task = x, am_parent = map_option snd p, am_changed = cs, am_unchanged = us\<rparr>))"
  proof (rule tx_post_changes [OF inv3])
    fix d' assume d': "tables_inv d'" "events_added ''human_acceptance_recorded'' {ta_id x} d3 d'"
    show "tx_post d' (\<lambda>m d'. tables_inv d' \<and> accept_recorded c t d m d')
        (tx_return \<lparr>am_review = r, am_task = x, am_parent = map_option snd p, am_changed = cs, am_unchanged = us\<rparr>)"
      by (rule tx_post_return) (use d' 3 parts v t in \<open>auto simp: accept_recorded_def intro!: exI\<close>)
  qed simp
qed simp

lemma record_acceptance_body_post:
  assumes inv: "tables_inv d" and t: "tasks_of d i = Some t" and at: "\<not> is_zero_time (ac_created c)"
  shows "tx_post d (\<lambda>m d'. tables_inv d' \<and> accept_recorded c t d m d') (record_acceptance_body c t)"
  unfolding record_acceptance_body_def Let_def
proof (rule tx_post_bind [where R = "\<lambda>x d1. task_part c t d x d1"])
  show "tx_post d (\<lambda>x d1. task_part c t d x d1)
      (if af_effect (ac_facts c) \<noteq> HumanAcceptanceRecordOnly
       then completeTaskTx t (af_reviewer (ac_facts c)) (ac_created c) else tx_return t)"
    using completeTaskTx_post [OF inv t at] by (auto intro!: tx_post_return simp: task_part_def)
next
  fix x d1 assume 1: "task_part c t d x d1"
  note v1 = task_part_view [OF inv t at 1]
  have pos: "0 < ta_id t" using tasks_okD(1,2) [OF tables_invD(3) [OF inv] t] by simp
  have parent: "tx_post d1 (\<lambda>p d2. parent_part c x d1 p d2)
      (if af_effect (ac_facts c) = HumanAcceptanceCompleteTaskAndParent
       then tx_bind (complete_parent c x) (\<lambda>p. tx_return (Some p)) else tx_return None)"
    by (auto intro!: tx_post_bind [OF complete_parent_post [OF v1(1) at]] tx_post_return simp: parent_part_def)
  show "tx_post d1 (\<lambda>m d'. tables_inv d' \<and> accept_recorded c t d m d')
    (tx_bind (if af_effect (ac_facts c) = HumanAcceptanceCompleteTaskAndParent
       then tx_bind (complete_parent c x) (\<lambda>p. tx_return (Some p)) else tx_return None)
     (\<lambda>p. tx_bind (insertHumanAcceptanceTx (review_of c t x p)) (\<lambda>review.
        tx_bind (recordTaskChangesTx ''human_acceptance_recorded'' [ta_id x]) (\<lambda>_.
        tx_return \<lparr>am_review = review, am_task = x, am_parent = map_option snd p,
          am_changed = fst (case p of None \<Rightarrow> split_change (af_effect (ac_facts c) = HumanAcceptanceRecordOnly \<or> ta_status t = ta_status x) (ta_id x) ([], [])
             | Some (before, q) \<Rightarrow> split_change (before = ta_status q) (ta_id q)
                 (split_change (af_effect (ac_facts c) = HumanAcceptanceRecordOnly \<or> ta_status t = ta_status x) (ta_id x) ([], []))),
          am_unchanged = snd (case p of None \<Rightarrow> split_change (af_effect (ac_facts c) = HumanAcceptanceRecordOnly \<or> ta_status t = ta_status x) (ta_id x) ([], [])
             | Some (before, q) \<Rightarrow> split_change (before = ta_status q) (ta_id q)
                 (split_change (af_effect (ac_facts c) = HumanAcceptanceRecordOnly \<or> ta_status t = ta_status x) (ta_id x) ([], [])))\<rparr>))))"
  proof (rule tx_post_bind [OF parent])
    fix p d2 assume 2: "parent_part c x d1 p d2"
    show "tx_post d2 (\<lambda>m d'. tables_inv d' \<and> accept_recorded c t d m d')
      (tx_bind (insertHumanAcceptanceTx (review_of c t x p)) (\<lambda>review.
        tx_bind (recordTaskChangesTx ''human_acceptance_recorded'' [ta_id x]) (\<lambda>_.
        tx_return \<lparr>am_review = review, am_task = x, am_parent = map_option snd p, am_changed = fst cu, am_unchanged = snd cu\<rparr>)))" for cu
      by (rule record_rest_post [OF parent_part_view(1) [OF v1(1) at 2] refl v1(4) pos 1 2])
  qed simp
qed simp_all

definition accept_effect :: "acceptance_command \<Rightarrow> task_tables \<Rightarrow> acceptance_mutation \<Rightarrow> task_tables \<Rightarrow> bool" where
  "accept_effect c d m d' \<longleftrightarrow>
     (\<exists>t. tasks_of d (ac_task c) = Some t \<and>
        (case getHumanAcceptanceSQL (ac_task c) (ac_key c) d of
           Some a \<Rightarrow> ar_fingerprint a = ac_fingerprint c \<and> d' = d \<and> am_review m = scanHumanAcceptance a \<and> am_task m = t
         | None \<Rightarrow> (case ac_expected c of None \<Rightarrow> True | Some at \<Rightarrow> ta_updated t = at) \<and>
             (ta_status t = StatusCancelled \<longrightarrow> af_effect (ac_facts c) = HumanAcceptanceRecordOnly) \<and>
             accept_recorded c t d m d'))"

lemma readHumanAcceptanceMutationTx_post:
  "tables_inv d \<Longrightarrow> tx_post d (\<lambda>m d'. d' = d \<and> am_review m = v \<and> am_task m = t) (readHumanAcceptanceMutationTx v t)"
  unfolding readHumanAcceptanceMutationTx_def Let_def
  by (intro tx_post_option tx_post_return tx_post_task) simp_all

lemma readHumanAcceptanceMutationTx_stops [simp]: "tx_stops (readHumanAcceptanceMutationTx v t)"
  by (simp add: readHumanAcceptanceMutationTx_def Let_def)

lemma getHumanAcceptanceTx_stops [simp]: "tx_stops (getHumanAcceptanceTx i key)"
  by (simp add: getHumanAcceptanceTx_def)

lemma getHumanAcceptanceTx_post:
  "tx_post d (\<lambda>x d'. d' = d \<and> x = map_option scanHumanAcceptance (getHumanAcceptanceSQL i key d)) (getHumanAcceptanceTx i key)"
  unfolding getHumanAcceptanceTx_def by (intro tx_post_read tx_post_return) simp_all

lemma tk_RecordHumanAcceptance_write:
  assumes at: "\<not> is_zero_time (ac_created c)"
  shows "store_write (accept_effect c) (tk_RecordHumanAcceptance c)"
  unfolding tk_RecordHumanAcceptance_def
proof (rule store_writeI, rule tx_post_task)
  fix d t assume inv: "tables_inv d" and t: "tasks_of d (ac_task c) = Some t"
  let ?Q = "\<lambda>(m, _) d'. tables_inv d' \<and> accept_effect c d m d'"
  note body = record_acceptance_body_post [OF inv t at]
  show "tx_post d ?Q (tx_bind (getHumanAcceptanceTx (ac_task c) (ac_key c)) (\<lambda>existing.
        case existing of
          Some v \<Rightarrow>
            if av_fingerprint v \<noteq> ac_fingerprint c then
              tx_fail (tasks_conflict ErrAcceptanceKeyConflict ''human_acceptance_idempotency_conflict'')
            else tx_bind (readHumanAcceptanceMutationTx v t) (\<lambda>m.
                 tx_return (m, ''committing human acceptance retry: ''))
        | None \<Rightarrow>
            if (case ac_expected c of None \<Rightarrow> False | Some at \<Rightarrow> ta_updated t \<noteq> at) then
              tx_fail (tasks_conflict ErrAcceptanceTaskChanged ''human_acceptance_task_changed'')
            else if ta_status t = StatusCancelled \<and> af_effect (ac_facts c) \<noteq> HumanAcceptanceRecordOnly then
              tx_fail (tasks_conflict ErrAcceptanceCancelled ''human_acceptance_task_cancelled'')
            else tx_bind (record_acceptance_body c t) (\<lambda>m.
                 tx_return (m, ''committing human acceptance: ''))))"
  proof (rule tx_post_bind [OF getHumanAcceptanceTx_post])
    fix x d1 assume x: "d1 = d \<and> x = map_option scanHumanAcceptance (getHumanAcceptanceSQL (ac_task c) (ac_key c) d)"
    let ?old = "\<lambda>v. if av_fingerprint v \<noteq> ac_fingerprint c then
              tx_fail (tasks_conflict ErrAcceptanceKeyConflict ''human_acceptance_idempotency_conflict'')
            else tx_bind (readHumanAcceptanceMutationTx v t) (\<lambda>m.
                 tx_return (m, ''committing human acceptance retry: ''))"
    let ?new = "if (case ac_expected c of None \<Rightarrow> False | Some at \<Rightarrow> ta_updated t \<noteq> at) then
              tx_fail (tasks_conflict ErrAcceptanceTaskChanged ''human_acceptance_task_changed'')
            else if ta_status t = StatusCancelled \<and> af_effect (ac_facts c) \<noteq> HumanAcceptanceRecordOnly then
              tx_fail (tasks_conflict ErrAcceptanceCancelled ''human_acceptance_task_cancelled'')
            else tx_bind (record_acceptance_body c t) (\<lambda>m.
                 tx_return (m, ''committing human acceptance: ''))"
    have old: "tx_post d ?Q (?old (scanHumanAcceptance a))" if a: "getHumanAcceptanceSQL (ac_task c) (ac_key c) d = Some a" for a
      by (intro tx_post_if tx_post_fail tx_post_bind [OF readHumanAcceptanceMutationTx_post [OF inv]] tx_post_return)
        (use inv t a in \<open>simp_all add: accept_effect_def scanHumanAcceptance_def\<close>)
    have new: "tx_post d ?Q ?new" if n: "getHumanAcceptanceSQL (ac_task c) (ac_key c) d = None"
      by (intro tx_post_if tx_post_fail tx_post_bind [OF body] tx_post_return)
        (use t n in \<open>auto simp: accept_effect_def split: option.splits\<close>)
    show "tx_post d1 ?Q (case x of Some v \<Rightarrow> ?old v | None \<Rightarrow> ?new)"
      using x old new by (cases "getHumanAcceptanceSQL (ac_task c) (ac_key c) d") (simp_all del: not_None_eq)
  qed simp
qed simp_all

end
