(* ===== verification/Tasks_Client.thy ===== *)
theory Tasks_Client
  imports Tasks_Accept_Laws
begin

text \<open>
  The abstract machine of the tasks service: four kinds of steps on the tasks and their dependencies.
  A store that refines it (locale \<open>task_store_laws\<close>) makes the service over it refine it (locale
  \<open>task_service_laws\<close>), and the PostgreSQL store does.
\<close>

section \<open>The abstract machine\<close>

inductive task_step :: "task_view \<Rightarrow> task_view \<Rightarrow> bool" where
  create: "task_step v \<lparr>vt = (vt v)(i \<mapsto> t), vd = vd v \<union> {i} \<times> D\<rparr>"
    if "task_ok t" "0 < i" "ta_id t = i" "vt v i = None" "parent_allowed (vt v) (ta_project t) 0 (ta_parent t)" "D \<subseteq> dom (vt v)"
| update: "task_step v (v\<lparr>vt := (vt v)(i \<mapsto> patched p at t)\<rparr>)"
    if "vt v i = Some t" "patch_ok p" "\<not> is_zero_time at"
      "pa_has_parent p \<longrightarrow> parent_allowed (vt v) (ta_project t) i (pa_parent p)"
| depend: "task_step v (v\<lparr>vd := insert (i, dep) (vd v)\<rparr>)"
    if "i \<in> dom (vt v)" "dep \<in> dom (vt v)" "(dep, i) \<notin> (vd v)\<^sup>*"
| release: "task_step v (v\<lparr>vd := vd v - {(i, dep)}\<rparr>)"

inductive_cases task_stepE: "task_step v v'"

lemma acyclic_fresh:
  assumes "acyclic R" and "i \<notin> Range R" and "i \<notin> D"
  shows "acyclic (R \<union> {i} \<times> D)"
proof (rule acyclicI, intro allI notI)
  fix x assume x: "(x, x) \<in> (R \<union> {i} \<times> D)\<^sup>+"
  have "(a, b) \<in> R\<^sup>+ \<or> a = i" if "(a, b) \<in> (R \<union> {i} \<times> D)\<^sup>+" for a b
    using that
  proof (induction rule: trancl_induct)
    case (step y z)
    show ?case
    proof (cases "a = i")
      case False
      with step.IH have "y \<in> Range R" by (metis RangeI tranclE)
      with assms(2) step.hyps(2) have "(y, z) \<in> R" by auto
      with step.IH False show ?thesis by (meson trancl.trancl_into_trancl)
    qed simp
  qed auto
  with x assms(1) have "x = i" by (auto simp: acyclic_def)
  with x obtain y where "(y, i) \<in> R \<union> {i} \<times> D" by (meson tranclE)
  with assms(2,3) show False by auto
qed

lemma task_step_ok: "task_step v v' \<Longrightarrow> view_ok v \<Longrightarrow> view_ok v'"
proof (induction rule: task_step.induct)
  case (create t i v D)
  then have "tasks_ok ((vt v)(i \<mapsto> t))" by (intro tasks_ok_add) (simp_all add: view_ok_def)
  moreover have "i \<notin> Range (vd v)" "i \<notin> D" using create by (auto simp: view_ok_def)
  ultimately show ?case using create by (auto simp: view_ok_def intro: acyclic_fresh)
next
  case (update v i t p at)
  then have T: "tasks_ok (vt v)" by (simp add: view_ok_def)
  note i = tasks_okD [OF T update.hyps(1)]
  have "tasks_ok ((vt v)(i \<mapsto> patched p at t))"
    by (rule tasks_ok_update [OF T update.hyps(1)]) (use update i patched_ok in auto)
  moreover have "dom ((vt v)(i \<mapsto> patched p at t)) = dom (vt v)" using update.hyps(1) by auto
  ultimately show ?case using update.prems by (simp add: view_ok_def)
next
  case (depend i v dep)
  then show ?case by (auto simp: view_ok_def acyclic_insert)
next
  case (release v i dep)
  then show ?case by (auto simp: view_ok_def elim: acyclic_subset)
qed

lemma task_steps_ok: "task_step\<^sup>*\<^sup>* v v' \<Longrightarrow> view_ok v \<Longrightarrow> view_ok v'"
  by (induction rule: rtranclp_induct) (auto intro: task_step_ok)

text \<open>A task is never removed, and keeps its identity, its project and its time of creation.\<close>

lemma task_step_keeps:
  "task_step v v' \<Longrightarrow> vt v i = Some t \<Longrightarrow>
     \<exists>u. vt v' i = Some u \<and> ta_id u = ta_id t \<and> ta_project u = ta_project t \<and> ta_created u = ta_created t"
  by (induction rule: task_step.induct) (auto simp: patched_def)

lemma task_steps_keep:
  "task_step\<^sup>*\<^sup>* v v' \<Longrightarrow> vt v i = Some t \<Longrightarrow>
     \<exists>u. vt v' i = Some u \<and> ta_id u = ta_id t \<and> ta_project u = ta_project t \<and> ta_created u = ta_created t"
proof (induction rule: rtranclp_induct)
  case (step v1 v2)
  then obtain u where "vt v1 i = Some u" "ta_id u = ta_id t" "ta_project u = ta_project t" "ta_created u = ta_created t" by blast
  with task_step_keeps [OF step.hyps(2), of i u] show ?case by simp
qed simp

section \<open>What the service asks of its store\<close>

definition task_writes :: "('w \<Rightarrow> bool) \<Rightarrow> ('w \<Rightarrow> task_view) \<Rightarrow> ('w, 'a) task_write \<Rightarrow> bool" where
  "task_writes good view m \<longleftrightarrow>
     (\<forall>w. good w \<longrightarrow>
        (\<exists>r w'. m w = Some (r, w') \<and> good w' \<and>
           (case r of Inl e \<Rightarrow> view w' = view w | Inr x \<Rightarrow> task_step\<^sup>*\<^sup>* (view w) (view w'))))"

lemma task_writesE:
  assumes "task_writes good view m" and "good w"
  obtains r w' where "m w = Some (r, w')" "good w'" "task_step\<^sup>*\<^sup>* (view w) (view w')" "\<And>e. r = Inl e \<Longrightarrow> view w' = view w"
proof -
  from assms obtain r w' where a: "m w = Some (r, w')" "good w'"
    "case r of Inl e \<Rightarrow> view w' = view w | Inr x \<Rightarrow> task_step\<^sup>*\<^sup>* (view w) (view w')"
    unfolding task_writes_def by blast
  show thesis
  proof (rule that [OF a(1,2)])
    show "task_step\<^sup>*\<^sup>* (view w) (view w')" using a(3) by (cases r) simp_all
    show "view w' = view w" if "r = Inl e" for e using a(3) that by simp
  qed
qed

lemma task_writes_fail [simp]: "task_writes good view (\<lambda>w. Some (Inl e, w))"
  by (simp add: task_writes_def)

locale task_store_laws =
  fixes store :: "'w task_store" and good :: "'w \<Rightarrow> bool" and view :: "'w \<Rightarrow> task_view"
  assumes well_formed: "good w \<Longrightarrow> view_ok (view w)"
    and get_task: "good w \<Longrightarrow> ts_GetTask store i w = (r, w') \<Longrightarrow>
        good w' \<and> view w' = view w \<and> (\<forall>t. r = Inr t \<longrightarrow> vt (view w) i = Some t)"
    and create_writes: "task_ok t \<Longrightarrow> task_writes good view (ts_CreateTask store t ds)"
    and update_writes: "patch_ok p \<Longrightarrow> \<not> is_zero_time at \<Longrightarrow> task_writes good view (ts_UpdateTask store i p agent at)"
    and review_writes: "\<not> is_zero_time at \<Longrightarrow> task_writes good view (ts_TransitionTaskToReview store project i agent at)"
    and add_writes: "task_writes good view (ts_AddDependency store i dep)"
    and remove_writes: "task_writes good view (ts_RemoveDependency store i dep)"
    and accept_writes: "\<not> is_zero_time (ac_created c) \<Longrightarrow> task_writes good view (ts_RecordHumanAcceptance store c)"

section \<open>The service\<close>

datatype task_request =
    CreateTaskRequest string create_task_request
  | UpdateTaskRequest int update_task_request
  | ReviewRequest string int string
  | AddDependencyRequest int int
  | RemoveDependencyRequest int int
  | AcceptanceRequest int acceptance_request

definition task_outcome :: "((go_err + 'a) \<times> 'w) option \<Rightarrow> (go_err option \<times> 'w) option" where
  "task_outcome x = map_option (\<lambda>(r, w). (case r of Inl e \<Rightarrow> Some e | Inr _ \<Rightarrow> None, w)) x"

text \<open>The requests that write, and the error each answers with.\<close>

definition task_serve :: "'w task_service \<Rightarrow> task_request \<Rightarrow> 'w \<Rightarrow> (go_err option \<times> 'w) option" where
  "task_serve s q w =
     (case q of
        CreateTaskRequest project r \<Rightarrow> task_outcome (tv_CreateTask s project r w)
      | UpdateTaskRequest i r \<Rightarrow> task_outcome (tv_UpdateTask s i r w)
      | ReviewRequest project i agent \<Rightarrow> task_outcome (tv_TransitionTaskToReview s project i agent w)
      | AddDependencyRequest i dep \<Rightarrow> task_outcome (tv_AddDependency s i dep w)
      | RemoveDependencyRequest i dep \<Rightarrow> task_outcome (tv_RemoveDependency s i dep w)
      | AcceptanceRequest i r \<Rightarrow> task_outcome (tv_RecordHumanAcceptance s i r w))"

locale task_service_laws = task_store_laws store good view
  for store :: "'w task_store" and good :: "'w \<Rightarrow> bool" and view :: "'w \<Rightarrow> task_view" +
  fixes s :: "'w task_service"
  assumes store_of: "tv_store s = store"
    and scope_quiet: "good w \<Longrightarrow> tv_writable s project w = (e, w') \<Longrightarrow> good w' \<and> view w' = view w"
    and clock_runs: "\<not> is_zero_time (tv_clock s w)" "\<not> is_zero_time (tv_wall s w)"
begin

lemma writes_after:
  assumes "good w1" "view w1 = view w" "task_writes good view m"
  shows "\<exists>r w'. m w1 = Some (r, w') \<and> good w' \<and>
    (case r of Inl e \<Rightarrow> view w' = view w | Inr x \<Rightarrow> task_step\<^sup>*\<^sup>* (view w) (view w'))"
  using assms unfolding task_writes_def by metis

lemma writable_quiet:
  assumes "good w" "writable_task s i w = (r, w')"
  shows "good w' \<and> view w' = view w \<and> (\<forall>t. r = Inr t \<longrightarrow> vt (view w) i = Some t)"
proof (cases "ts_GetTask store i w")
  case (Pair g w1)
  note 1 = get_task [OF assms(1) Pair]
  show ?thesis
  proof (cases g)
    case (Inl e)
    with assms(2) Pair 1 show ?thesis by (auto simp: writable_task_def store_of)
  next
    case (Inr t)
    obtain e w2 where 2: "tv_writable s (ta_project t) w1 = (e, w2)" by fastforce
    with scope_quiet [of w1] 1 have "good w2" "view w2 = view w" by auto
    with assms(2) Pair 1 2 Inr show ?thesis by (cases e) (auto simp: writable_task_def store_of)
  qed
qed

lemma create_service: "task_writes good view (tv_CreateTask s project req)"
  unfolding task_writes_def
proof (intro allI impI)
  fix w assume w: "good w"
  let ?p = "trim_space project"
  obtain e w1 where 1: "tv_writable s ?p w = (e, w1)" by fastforce
  note q = scope_quiet [OF w 1]
  let ?new = "NewTask (tv_wall s w1) \<lparr>ta_id = 0, ta_project = ?p, ta_parent = ct_parent req, ta_title = ct_title req,
       ta_description = ct_description req, ta_status = [], ta_priority = ct_priority req,
       ta_assigned = ct_assigned req, ta_tags = ct_tags req, ta_summary = [], ta_reason = [],
       ta_remedies = [], ta_next_step = [], ta_human = False, ta_created = tv_clock s w1, ta_updated = tv_clock s w1\<rparr>"
  consider (err) err w' where "tv_CreateTask s project req w = Some (Inl err, w')" "w' = w \<or> w' = w1"
    | (ok) t where "?new = Inr t" "tv_CreateTask s project req w = ts_CreateTask store t (ct_depends req) w1"
    using 1 by (cases "?p = []"; cases e; cases ?new) (auto simp: tv_CreateTask_def Let_def store_of)
  then show "\<exists>r w'. tv_CreateTask s project req w = Some (r, w') \<and> good w' \<and>
      (case r of Inl e \<Rightarrow> view w' = view w | Inr x \<Rightarrow> task_step\<^sup>*\<^sup>* (view w) (view w'))"
  proof cases
    case err
    with w q show ?thesis by auto
  next
    case ok
    have "task_ok t" using NewTask_Inr [OF ok(1) clock_runs(2)] by blast
    with q show ?thesis unfolding ok(2) by (intro writes_after create_writes) simp_all
  qed
qed

text \<open>The methods that begin by finding the task and its writable project.\<close>

lemma writes_writable:
  assumes "\<And>t w1. task_writes good view (m t w1)"
    and "\<And>w. f w = (case writable_task s i w of (Inl e, w1) \<Rightarrow> Some (Inl e, w1) | (Inr t, w1) \<Rightarrow> m t w1 w1)"
  shows "task_writes good view f"
  unfolding task_writes_def
proof (intro allI impI)
  fix w assume w: "good w"
  obtain r w1 where 1: "writable_task s i w = (r, w1)" by fastforce
  note q = writable_quiet [OF w 1]
  show "\<exists>r w'. f w = Some (r, w') \<and> good w' \<and>
      (case r of Inl e \<Rightarrow> view w' = view w | Inr x \<Rightarrow> task_step\<^sup>*\<^sup>* (view w) (view w'))"
  proof (cases r)
    case (Inl e)
    with 1 q show ?thesis by (simp add: assms(2))
  next
    case (Inr t)
    with 1 have "f w = m t w1 w1" by (simp add: assms(2))
    with q show ?thesis using writes_after [OF _ _ assms(1) [of t w1]] by simp
  qed
qed

lemma update_service: "task_writes good view (tv_UpdateTask s i req)"
proof (cases "trim_space (ut_agent req) = [] \<or> \<not> HasChanges req")
  case True
  have "tv_UpdateTask s i req = (\<lambda>w. Some (Inl (if trim_space (ut_agent req) = [] then tasks_invalid ErrMissingAgent else tasks_invalid ErrEmptyPatch), w))"
    using True by (auto simp: fun_eq_iff tv_UpdateTask_def)
  then show ?thesis by simp
next
  case False
  let ?m = "\<lambda>t w1. case buildPatch t req of Inl e \<Rightarrow> (\<lambda>w. Some (Inl (tasks_invalid e), w))
      | Inr patch \<Rightarrow> ts_UpdateTask store i patch (trim_space (ut_agent req)) (tv_clock s w1)"
  have m: "task_writes good view (?m t w1)" for t w1
  proof (cases "buildPatch t req")
    case (Inr p)
    with buildPatch_ok(1) [OF Inr] show ?thesis by (simp add: update_writes clock_runs)
  qed simp
  show ?thesis
  proof (rule writes_writable [OF m])
    fix w
    show "tv_UpdateTask s i req w = (case writable_task s i w of (Inl e, w1) \<Rightarrow> Some (Inl e, w1) | (Inr t, w1) \<Rightarrow> ?m t w1 w1)"
      using False by (auto simp: tv_UpdateTask_def store_of split: prod.split sum.split)
  qed
qed

lemma review_service: "task_writes good view (tv_TransitionTaskToReview s project i agent)"
  unfolding task_writes_def
proof (intro allI impI)
  fix w assume w: "good w"
  obtain g w1 where 1: "ts_GetTask store i w = (g, w1)" by fastforce
  note q1 = get_task [OF w 1]
  obtain e w2 where 2: "tv_writable s (trim_space project) w1 = (e, w2)" by fastforce
  with scope_quiet [of w1] q1 have q2: "good w2" "view w2 = view w" by auto
  consider (err) err w' where "tv_TransitionTaskToReview s project i agent w = Some (Inl err, w')" "w' = w \<or> w' = w1 \<or> w' = w2"
    | (ok) "tv_TransitionTaskToReview s project i agent w =
        ts_TransitionTaskToReview store (trim_space project) i (trim_space agent) (tv_clock s w2) w2"
    using 1 2 unfolding tv_TransitionTaskToReview_def Let_def store_of
    by (cases "trim_space project = []"; cases "trim_space agent = []"; cases g; cases e;
        cases "ta_project (projr g) = trim_space project") auto
  then show "\<exists>r w'. tv_TransitionTaskToReview s project i agent w = Some (r, w') \<and> good w' \<and>
      (case r of Inl e \<Rightarrow> view w' = view w | Inr x \<Rightarrow> task_step\<^sup>*\<^sup>* (view w) (view w'))"
  proof cases
    case err
    with w q1 q2 show ?thesis by auto
  next
    case ok
    from q2 show ?thesis unfolding ok by (intro writes_after review_writes clock_runs) simp_all
  qed
qed

lemma dependency_service:
  "task_writes good view (tv_AddDependency s i dep)" "task_writes good view (tv_RemoveDependency s i dep)"
proof -
  show "task_writes good view (tv_AddDependency s i dep)"
    by (rule writes_writable [where m = "\<lambda>t w1. ts_AddDependency store i dep" and i = i, OF add_writes])
      (simp only: tv_AddDependency_def store_of)
  show "task_writes good view (tv_RemoveDependency s i dep)"
    by (rule writes_writable [where m = "\<lambda>t w1. ts_RemoveDependency store i dep" and i = i, OF remove_writes])
      (simp only: tv_RemoveDependency_def store_of)
qed

lemma acceptance_service: "task_writes good view (tv_RecordHumanAcceptance s i req)"
proof -
  let ?key = "trim_space (aq_key req)"
  let ?m = "\<lambda>t w1. if ?key = [] then (\<lambda>w. Some (Inl (tasks_invalid ErrMissingIdempotencyKey), w))
     else (case normalizeHumanAcceptance (tv_fingerprint s) req of
        Inl e \<Rightarrow> (\<lambda>w. Some (Inl (tasks_invalid e), w))
      | Inr ff \<Rightarrow>
          if af_revision (fst ff) \<noteq> [] \<and> aq_expected req = None
          then (\<lambda>w. Some (Inl (tasks_conflict ErrReconciliationRequired ''human_acceptance_reconciliation_required''), w))
          else ts_RecordHumanAcceptance store
            \<lparr>ac_task = i, ac_key = ?key, ac_fingerprint = snd ff, ac_facts = fst ff, ac_expected = aq_expected req,
             ac_created = tv_clock s w1\<rparr>)"
  have m: "task_writes good view (?m t w1)" for t :: task and w1
    by (cases "normalizeHumanAcceptance (tv_fingerprint s) req") (simp_all add: accept_writes clock_runs)
  show ?thesis
  proof (rule writes_writable [OF m])
    fix w
    show "tv_RecordHumanAcceptance s i req w =
        (case writable_task s i w of (Inl e, w1) \<Rightarrow> Some (Inl e, w1) | (Inr t, w1) \<Rightarrow> ?m t w1 w1)"
      unfolding tv_RecordHumanAcceptance_def Let_def store_of
      by (cases "?key = []"; cases "normalizeHumanAcceptance (tv_fingerprint s) req") (auto split: prod.split sum.split)
  qed
qed

lemma outcome_refines:
  assumes "task_writes good view m" and "task_serve s q w = task_outcome (m w)" and "good w"
  shows "\<exists>e w'. task_serve s q w = Some (e, w') \<and> good w' \<and> task_step\<^sup>*\<^sup>* (view w) (view w') \<and> (e \<noteq> None \<longrightarrow> view w' = view w)"
proof (rule task_writesE [OF assms(1,3)])
  fix r w' assume "m w = Some (r, w')" "good w'" "task_step\<^sup>*\<^sup>* (view w) (view w')" "\<And>e. r = Inl e \<Longrightarrow> view w' = view w"
  with assms(2) show ?thesis by (cases r) (simp_all add: task_outcome_def)
qed

text \<open>Every request returns; an error leaves the tasks as they were, and an answer is a run of the machine.\<close>

lemma serve_refines:
  assumes "good w"
  shows "\<exists>e w'. task_serve s q w = Some (e, w') \<and> good w' \<and> task_step\<^sup>*\<^sup>* (view w) (view w') \<and> (e \<noteq> None \<longrightarrow> view w' = view w)"
proof (cases q)
  case (CreateTaskRequest project r)
  then show ?thesis by (intro outcome_refines [OF create_service _ assms]) (simp add: task_serve_def)
next
  case (UpdateTaskRequest i r)
  then show ?thesis by (intro outcome_refines [OF update_service _ assms]) (simp add: task_serve_def)
next
  case (ReviewRequest project i agent)
  then show ?thesis by (intro outcome_refines [OF review_service _ assms]) (simp add: task_serve_def)
next
  case (AddDependencyRequest i dep)
  then show ?thesis by (intro outcome_refines [OF dependency_service(1) _ assms]) (simp add: task_serve_def)
next
  case (RemoveDependencyRequest i dep)
  then show ?thesis by (intro outcome_refines [OF dependency_service(2) _ assms]) (simp add: task_serve_def)
next
  case (AcceptanceRequest i r)
  then show ?thesis by (intro outcome_refines [OF acceptance_service _ assms]) (simp add: task_serve_def)
qed

end

end
