(* ===== verification/Tasks_System.thy ===== *)
theory Tasks_System
  imports Tasks_Client
begin

text \<open>
  The tasks service over the PostgreSQL store refines the abstract machine: the effects of the store's
  methods are its steps, and the reachable states of the whole are those of the machine.
\<close>

section \<open>Effects are steps\<close>

definition pg_ok :: "task_tables pg \<Rightarrow> bool" where
  "pg_ok db \<longleftrightarrow> tables_inv (pg_data db)"

definition pg_view :: "task_tables pg \<Rightarrow> task_view" where
  "pg_view db = view_of (pg_data db)"

lemma store_write_steps:
  assumes "store_write E m"
    and "\<And>d x d'. tables_inv d \<Longrightarrow> tables_inv d' \<Longrightarrow> E d x d' \<Longrightarrow> task_step\<^sup>*\<^sup>* (view_of d) (view_of d')"
  shows "task_writes pg_ok pg_view m"
  unfolding task_writes_def
proof (intro allI impI)
  fix db assume "pg_ok db"
  then have "tables_inv (pg_data db)" by (simp add: pg_ok_def)
  from assms(1) this show "\<exists>r db'. m db = Some (r, db') \<and> pg_ok db' \<and>
      (case r of Inl e \<Rightarrow> pg_view db' = pg_view db | Inr x \<Rightarrow> task_step\<^sup>*\<^sup>* (pg_view db) (pg_view db'))"
  proof (cases rule: store_writeE)
    case (error e db')
    with \<open>pg_ok db\<close> show ?thesis by (simp add: pg_ok_def pg_view_def)
  next
    case (answer x db')
    with assms(2) [OF \<open>tables_inv (pg_data db)\<close> answer(2,3)] show ?thesis by (simp add: pg_ok_def pg_view_def)
  qed
qed

lemma view_of_eq: "tasks_of d' = T \<Longrightarrow> set (tk_deps d') = D \<Longrightarrow> view_of d' = \<lparr>vt = T, vd = D\<rparr>"
  by (simp add: view_of_def)

lemma patch_steps:
  assumes "tables_inv d" "tasks_of d i = Some t" "patch_allowed d t p at"
  shows "task_step (view_of d) ((view_of d)\<lparr>vt := (tasks_of d)(i \<mapsto> patched p at t)\<rparr>)"
proof -
  have "ta_id t = i" using tasks_okD(2) [OF tables_invD(3) [OF assms(1)] assms(2)] .
  with task_step.update [of "view_of d" i t p at] assms(2,3) show ?thesis by (simp add: view_of_def patch_allowed_def)
qed

lemma task_updated_steps:
  assumes "tables_inv d" "tasks_of d i = Some t" "patch_allowed d t p at" "task_updated i t p agent at d d'"
  shows "task_step (view_of d) (view_of d')"
proof -
  have "view_of d' = (view_of d)\<lparr>vt := (tasks_of d)(i \<mapsto> patched p at t)\<rparr>"
    using task_updated_view(2,3) [OF assms] by (simp add: view_of_def)
  with patch_steps [OF assms(1-3)] show ?thesis by simp
qed

lemma update_steps: "tables_inv d \<Longrightarrow> update_effect i p agent at d x d' \<Longrightarrow> task_step\<^sup>*\<^sup>* (view_of d) (view_of d')"
  by (auto simp: update_effect_def split: if_splits intro: task_updated_steps)

lemma transition_steps:
  "tables_inv d \<Longrightarrow> \<not> is_zero_time at \<Longrightarrow> transition_effect project i agent at d x d' \<Longrightarrow> task_step\<^sup>*\<^sup>* (view_of d) (view_of d')"
  by (auto simp: transition_effect_def split: if_splits intro: task_updated_steps review_patch_allowed)

lemma add_dependency_steps:
  assumes "add_dependency_effect i dep d x d'"
  shows "task_step\<^sup>*\<^sup>* (view_of d) (view_of d')"
proof -
  have "view_of d' = (view_of d)\<lparr>vd := insert (i, dep) (vd (view_of d))\<rparr>"
    using assms events_added_frame(7) by (auto simp: add_dependency_effect_def view_of_def)
  with task_step.depend [of i "view_of d" dep] assms show ?thesis
    by (auto simp: add_dependency_effect_def view_of_def)
qed

lemma remove_dependency_steps:
  assumes "remove_dependency_effect i dep d x d'"
  shows "task_step\<^sup>*\<^sup>* (view_of d) (view_of d')"
proof -
  have "view_of d' = (view_of d)\<lparr>vd := vd (view_of d) - {(i, dep)}\<rparr>"
    using assms events_added_frame(7) by (auto simp: remove_dependency_effect_def view_of_def)
  with task_step.release [of "view_of d" i dep] show ?thesis by auto
qed

lemma create_view:
  assumes "tables_inv d" "task_ok t" "create_effect t ds d x d'"
  shows "x = t\<lparr>ta_id := tk_next_task d\<rparr>" "tables_inv d \<and> tasks_of d (tk_next_task d) = None \<and> 0 < tk_next_task d"
    "parent_allowed (tasks_of d) (ta_project t) 0 (ta_parent t)"
    "view_of d' = \<lparr>vt = (tasks_of d)(ta_id x \<mapsto> x), vd = set (tk_deps d) \<union> {ta_id x} \<times> set ds\<rparr>"
proof -
  from assms(3) obtain d1 d2 where x: "x = t\<lparr>ta_id := tk_next_task d\<rparr>"
    and 1: "deps_added (ta_id x) ds (with_task t d) d1" and 2: "events_added ''created'' {ta_id x} d1 d2"
    and 3: "case ta_parent t of None \<Rightarrow> d' = d2 | Some p \<Rightarrow> events_added ''subtask_created'' {p} d2 d'"
    unfolding create_effect_def by blast
  show "x = t\<lparr>ta_id := tk_next_task d\<rparr>" by (rule x)
  show "tables_inv d \<and> tasks_of d (tk_next_task d) = None \<and> 0 < tk_next_task d" using fresh_task assms(1) by blast
  show "parent_allowed (tasks_of d) (ta_project t) 0 (ta_parent t)" using assms(3) by (simp add: create_effect_def)
  have d1: "tk_rows d1 = tk_rows (with_task t d)" "set (tk_deps d1) = set (tk_deps d) \<union> {ta_id x} \<times> set ds"
  proof -
    have "d1 = (with_task t d)\<lparr>tk_deps := tk_deps d1\<rparr>" using 1 unfolding deps_added_def by blast
    then show "tk_rows d1 = tk_rows (with_task t d)" by (metis task_tables.ext_inject task_tables.surjective task_tables.update_convs(2))
    show "set (tk_deps d1) = set (tk_deps d) \<union> {ta_id x} \<times> set ds" using 1 by (simp add: deps_added_def)
  qed
  have "view_of d' = view_of d1"
    using 3 events_added_frame(7) [OF 2] events_added_frame(7) by (cases "ta_parent t") auto
  moreover have "tasks_of d1 = tasks_of (with_task t d)" using d1(1) by (simp add: tasks_of_def fun_eq_iff)
  ultimately show "view_of d' = \<lparr>vt = (tasks_of d)(ta_id x \<mapsto> x), vd = set (tk_deps d) \<union> {ta_id x} \<times> set ds\<rparr>"
    using d1(2) tasks_of_with_task [OF assms(1,2)] x by (simp add: view_of_def)
qed

lemma create_steps:
  assumes "tables_inv d" "tables_inv d'" "task_ok t" "create_effect t ds d x d'"
  shows "task_step\<^sup>*\<^sup>* (view_of d) (view_of d')"
proof -
  note c = create_view [OF assms(1,3,4)]
  let ?i = "tk_next_task d"
  have i: "ta_id x = ?i" by (simp add: c(1))
  have D: "set ds \<subseteq> dom (tasks_of d) \<union> {?i}"
    using tables_invD(4) [OF assms(2)] c(4) i by (auto simp: view_of_def)
  have "?i \<notin> set ds"
  proof
    assume "?i \<in> set ds"
    then have "(?i, ?i) \<in> set (tk_deps d')" using c(4) i by (auto simp: view_of_def)
    with tables_invD(5) [OF assms(2)] show False by (auto simp: acyclic_def)
  qed
  with D have "set ds \<subseteq> dom (vt (view_of d))" by (auto simp: view_of_def)
  then have "task_step (view_of d) \<lparr>vt = (vt (view_of d))(?i \<mapsto> x), vd = vd (view_of d) \<union> {?i} \<times> set ds\<rparr>"
    by (intro task_step.create) (use c assms(3) in \<open>simp_all add: view_of_def\<close>)
  then show ?thesis using c(4) i by (auto simp: view_of_def)
qed

lemma completed_steps:
  assumes "tables_inv d" "tasks_of d i = Some t" "\<not> is_zero_time at" "completed t reviewer at d x d'"
  shows "task_step\<^sup>*\<^sup>* (view_of d) (view_of d')"
proof -
  have "ta_id t = i" using tasks_okD(2) [OF tables_invD(3) [OF assms(1)] assms(2)] .
  with assms(4) task_updated_steps [OF assms(1,2) completion_allowed [OF assms(3)]] show ?thesis
    by (auto simp: completed_def split: if_splits)
qed

lemma accept_steps:
  assumes inv: "tables_inv d" and at: "\<not> is_zero_time (ac_created c)" and eff: "accept_effect c d m d'"
  shows "task_step\<^sup>*\<^sup>* (view_of d) (view_of d')"
proof -
  from eff obtain t where t: "tasks_of d (ac_task c) = Some t" and r: "d' = d \<or> accept_recorded c t d m d'"
    unfolding accept_effect_def by (auto split: option.splits)
  from r show ?thesis
  proof
    assume "accept_recorded c t d m d'"
    then obtain d1 d2 p where 1: "task_part c t d (am_task m) d1" and 2: "parent_part c (am_task m) d1 p d2"
      and 3: "events_added ''human_acceptance_recorded'' {ta_id t} (with_accept (review_of c t (am_task m) p) d2) d'"
      unfolding accept_recorded_def by blast
    note v1 = task_part_view [OF inv t at 1]
    have "task_step\<^sup>*\<^sup>* (view_of d) (view_of d1)"
      using 1 completed_steps [OF inv t at] by (auto simp: task_part_def split: if_splits)
    moreover have "task_step\<^sup>*\<^sup>* (view_of d1) (view_of d2)"
      using 2 completed_steps [OF v1(1) _ at] by (auto simp: parent_part_def parent_completed_def split: if_splits)
    moreover have "view_of d' = view_of d2" using events_added_frame(7) [OF 3] by simp
    ultimately show ?thesis by simp
  qed simp
qed

section \<open>The store is one the service can use\<close>

lemma tk_GetTask_get:
  assumes "pg_ok db" "tk_GetTask i db = (r, db')"
  shows "pg_ok db' \<and> pg_view db' = pg_view db \<and> (\<forall>t. r = Inr t \<longrightarrow> vt (pg_view db) i = Some t)"
proof (cases "read_only (getTaskSQL i)" db rule: pg_call_cases)
  case (fail db1)
  with assms show ?thesis by (auto simp: tk_GetTask_def pg_ok_def pg_view_def)
next
  case (ok found db1)
  then have f: "found = getTaskSQL i (pg_data db)" "pg_data db1 = pg_data db" by (auto simp: read_only_def)
  have inv: "tables_inv (pg_data db)" using assms(1) by (simp add: pg_ok_def)
  show ?thesis
  proof (cases found)
    case None
    with assms ok f show ?thesis by (auto simp: tk_GetTask_def pg_ok_def pg_view_def)
  next
    case (Some row)
    with f(1) have row: "row_lookup tr_id i (tk_rows (pg_data db)) = Some row" by (simp add: getTaskSQL_def)
    have "tk_GetTask i db = (Inr (row_params row), db1)"
      using ok(1) Some scan_stored [OF inv row] by (simp add: tk_GetTask_def Let_def)
    with assms f(2) row show ?thesis by (auto simp: pg_ok_def pg_view_def view_of_def tasks_of_def)
  qed
qed

interpretation pg_tasks: task_store_laws pg_task_store pg_ok pg_view
proof unfold_locales
  show "view_ok (pg_view w)" if "pg_ok w" for w
    using that tables_invD(2) by (simp add: pg_ok_def pg_view_def)
  show "pg_ok w' \<and> pg_view w' = pg_view w \<and> (\<forall>t. r = Inr t \<longrightarrow> vt (pg_view w) i = Some t)"
    if "pg_ok w" "ts_GetTask pg_task_store i w = (r, w')" for w i r w'
    using tk_GetTask_get that by (simp add: pg_task_store_def)
qed (auto simp: pg_task_store_def intro: store_write_steps [OF tk_CreateTask_write] store_write_steps [OF tk_UpdateTask_write]
    store_write_steps [OF tk_TransitionTaskToReview_write] store_write_steps [OF tk_AddDependency_write]
    store_write_steps [OF tk_RemoveDependency_write] store_write_steps [OF tk_RecordHumanAcceptance_write]
    create_steps update_steps transition_steps add_dependency_steps remove_dependency_steps accept_steps)

section \<open>The whole service\<close>

text \<open>
  A request is handled at an instant \<open>n\<close> after Go's zero time; \<open>reply\<close> is the answer of the projects
  service to the scope client.
\<close>

definition instant :: "nat \<Rightarrow> time" where
  "instant n = 1 + int n"

definition pg_task_service ::
    "(string \<Rightarrow> go_err + task_scope_reply) \<Rightarrow> (acceptance_facts \<Rightarrow> string) \<Rightarrow> string \<Rightarrow> nat \<Rightarrow> task_tables pg task_service" where
  "pg_task_service reply fp baseURL n =
     \<lparr>tv_store = pg_task_store,
      tv_writable = TaskScopeClient_AssertWritable (\<lambda>project w. (reply project, w)) baseURL,
      tv_clock = \<lambda>_. instant n, tv_wall = \<lambda>_. instant n, tv_fingerprint = fp\<rparr>"

lemma scope_client_quiet:
  "TaskScopeClient_AssertWritable (\<lambda>project w. (reply project, w)) baseURL project w = (e, w') \<Longrightarrow> w' = w"
  by (auto simp: TaskScopeClient_AssertWritable_def Let_def split: sum.splits if_splits)

interpretation pg_service: task_service_laws pg_task_store pg_ok pg_view "pg_task_service reply fp baseURL n"
  for reply fp baseURL n
  by unfold_locales (auto simp: pg_task_service_def instant_def is_zero_time_def dest: scope_client_quiet)

definition empty_task_tables :: "time \<Rightarrow> task_tables" where
  "empty_task_tables now =
     \<lparr>tk_rows = [], tk_deps = [], tk_history = [], tk_events = [], tk_accepts = [], tk_next_task = 1,
      tk_next_history = 1, tk_next_event = 1, tk_next_accept = 1, tk_now = now, tk_wall = now\<rparr>"

text \<open>Requests one after the other, and between them time passes and the driver's fortune changes.\<close>

inductive task_reach :: "task_tables pg \<Rightarrow> bool" where
  start: "task_reach \<lparr>pg_data = empty_task_tables now, pg_faults = fs\<rparr>"
| serve: "task_reach db \<Longrightarrow> task_serve (pg_task_service reply fp baseURL n) q db = Some (e, db') \<Longrightarrow> task_reach db'"
| pass: "task_reach db \<Longrightarrow> task_reach (db\<lparr>pg_data := (pg_data db)\<lparr>tk_now := a, tk_wall := b\<rparr>, pg_faults := fs\<rparr>)"

lemma tasks_of_clock [simp]: "tasks_of (d\<lparr>tk_now := a, tk_wall := b\<rparr>) = tasks_of d"
  by (simp add: tasks_of_def fun_eq_iff)

lemma tables_inv_clock [simp]: "tables_inv (d\<lparr>tk_now := a, tk_wall := b\<rparr>) = tables_inv d"
  unfolding tables_inv_def view_of_def tasks_of_clock by simp

lemma tasks_of_empty [simp]: "tasks_of (empty_task_tables now) = Map.empty"
  by (simp add: tasks_of_def empty_task_tables_def fun_eq_iff)

lemma tables_inv_empty: "tables_inv (empty_task_tables now)"
  unfolding tables_inv_def view_of_def view_ok_def tasks_of_empty
  by (simp add: empty_task_tables_def tasks_ok_def parents_def acyclic_def)

lemma task_reach_ok: "task_reach db \<Longrightarrow> pg_ok db"
proof (induction rule: task_reach.induct)
  case (start now fs)
  show ?case by (simp add: pg_ok_def tables_inv_empty)
next
  case (serve db reply fp baseURL n q e db')
  with pg_service.serve_refines [OF serve.IH, of reply fp baseURL n q] show ?case by auto
next
  case (pass db a b fs)
  then show ?case by (simp add: pg_ok_def)
qed

end
