(* ===== verification/Projects_Props.thy ===== *)
theory Projects_Props
  imports Projects_System Tasks_System
begin

text \<open>
  The properties of the projects service, and of the tasks service that asks it whether a project
  accepts writes.
\<close>

section \<open>Stored scopes\<close>

text \<open>
  C12. Whatever requests have been served one after the other, and however the driver failed during them, every stored row
  reads back as a scope that conforms: its kind, visibility and repository URL are among the valid ones,
  its id and name are not blank, its texts are trimmed, and it has at most 16 crew addresses, all
  well formed and distinct. No id is stored twice.
\<close>

theorem stored_scopes_conform:
  assumes "projects_reach env db" and "r \<in> set (pj_rows (pg_data db))"
  shows "\<exists>s. scanScope env wall r = Inr s \<and> scope_ok (pe_parse env) s \<and> sc_id s = sw_id r \<and>
    filter (\<lambda>r'. sw_id r' = sw_id r) (pj_rows (pg_data db)) = [r]"
proof -
  from projects_reach_good [OF assms(1)] have inv: "projects_inv env (pg_data db)" by (simp add: projects_good_def)
  with assms(2) have ok: "row_ok (pe_parse env) r" by (simp add: projects_inv_def)
  moreover have "filter (\<lambda>r'. sw_id r' = sw_id r) rs = [r]" if "distinct (map sw_id rs)" "r \<in> set rs" for rs
    using that by (induction rs) (auto simp: filter_empty_conv image_iff)
  moreover have "scope_ok (pe_parse env) (scope_of_row r)" using ok by (simp add: row_ok_def)
  moreover have "sc_id (scope_of_row r) = sw_id r" by (simp add: scope_of_row_def)
  moreover have "distinct (map sw_id (pj_rows (pg_data db)))" using inv by (simp add: projects_inv_def)
  ultimately show ?thesis using assms(2) scope_scan_ok [OF ok, of wall] by blast
qed

definition sample_env :: project_env where
  "sample_env = \<lparr>pe_parse = (\<lambda>_. None), pe_jsonb = (\<lambda>s. Some s), pe_collate = (\<lambda>s. s)\<rparr>"

definition sample_space :: project_request where
  "sample_space = CreateSpaceRequest \<lparr>ce_id = '' core '', ce_name = ''Core'', ce_kind = [], ce_visibility = ''archived'',
     ce_owner = [], ce_root = [], ce_description = [], ce_settings = Some ''{}''\<rparr>"

definition sample_scopes :: "project_tables pg" where
  "sample_scopes = snd (the (project_serve (pg_scope_service sample_env) sample_space (calm_pg (empty_project_tables 4))))"

lemma sample_scopes_reach: "projects_reach sample_env sample_scopes"
proof -
  have "(case project_serve (pg_scope_service sample_env) sample_space (calm_pg (empty_project_tables 4)) of
      Some (None, db) \<Rightarrow> True | _ \<Rightarrow> False)" by code_simp
  then have "project_serve (pg_scope_service sample_env) sample_space (calm_pg (empty_project_tables 4)) = Some (None, sample_scopes)"
    by (auto simp: sample_scopes_def split: option.splits prod.splits)
  then show ?thesis by (rule projects_reach.serve [rotated]) (simp add: calm_pg_def projects_reach.start)
qed

lemma stored_scopes_conform_witness:
  "projects_reach sample_env sample_scopes \<and> sw_id (hd (pj_rows (pg_data sample_scopes))) = ''core'' \<and>
   (\<exists>s. scanScope sample_env 9 (hd (pj_rows (pg_data sample_scopes))) = Inr s \<and> scope_ok (pe_parse sample_env) s)"
proof -
  have "sw_id (hd (pj_rows (pg_data sample_scopes))) = ''core'' \<and> pj_rows (pg_data sample_scopes) \<noteq> []" by code_simp
  moreover from this have "hd (pj_rows (pg_data sample_scopes)) \<in> set (pj_rows (pg_data sample_scopes))" by simp
  ultimately show ?thesis
    using sample_scopes_reach stored_scopes_conform [OF sample_scopes_reach, of "hd (pj_rows (pg_data sample_scopes))" 9] by blast
qed

section \<open>Protected scopes\<close>

text \<open>Requests none of which is a delete with \<open>force\<close>, at any times, with any failures of the driver.\<close>

inductive unforced_run :: "project_env \<Rightarrow> project_tables pg \<Rightarrow> project_tables pg \<Rightarrow> bool" for env db where
  refl: "unforced_run env db db"
| serve: "unforced_run env db db1 \<Longrightarrow> \<not> forced q \<Longrightarrow> project_serve (pg_scope_service env) q db1 = Some (e, db2) \<Longrightarrow> unforced_run env db db2"
| pass: "unforced_run env db db1 \<Longrightarrow>
    unforced_run env db (db1\<lparr>pg_data := (pg_data db1)\<lparr>pj_now := 1 + int m, pj_wall := 1 + int n\<rparr>, pg_faults := fs\<rparr>)"

lemma unforced_step_keeps:
  assumes "scopes_step False v v'" and "v i = Some s" and "ProtectedFromDelete s"
    and "\<forall>k t. v k = Some t \<longrightarrow> sc_id t = k"
  shows "\<exists>s'. v' i = Some s' \<and> scope_kept s s'"
  using assms(1)
proof cases
  case (create t)
  with assms(2) show ?thesis by (auto simp: scope_kept_def)
next
  case (change k t t')
  with assms show ?thesis by (auto simp: scope_kept_def)
next
  case (remove k t)
  with assms show ?thesis by (auto simp: scope_kept_def)
qed (use assms in \<open>auto simp: scope_kept_def\<close>)

text \<open>
  C20. A protected scope (one of the reserved ids, or of the kinds system and personal) survives every
  sequence of requests in which no delete is forced: it is still stored under its id, with its kind, and
  still protected, so a later unforced delete is refused again.
\<close>

theorem protected_scopes_survive:
  assumes "projects_reach env db" and "projects_view db i = Some s" and "ProtectedFromDelete s" and "unforced_run env db db'"
  shows "\<exists>s'. projects_view db' i = Some s' \<and> sc_kind s' = sc_kind s \<and> ProtectedFromDelete s'"
proof -
  have "projects_good env db' \<and> (\<exists>s'. projects_view db' i = Some s' \<and> scope_kept s s')"
    using assms(4)
  proof (induction rule: unforced_run.induct)
    case refl
    with projects_reach_good [OF assms(1)] assms(2) show ?case by (simp add: scope_kept_def)
  next
    case (serve db1 q e db2)
    then obtain t where g: "projects_good env db1" and t: "projects_view db1 i = Some t" "scope_kept s t" by blast
    note S = projects_serve_step [OF g serve.hyps(3)]
    have ids: "\<forall>k u. projects_view db1 k = Some u \<longrightarrow> sc_id u = k"
      using pg_scopes.conforms [OF g] by (auto simp: scopes_ok_def)
    have "ProtectedFromDelete t" using assms(3) t(2) by (simp add: ProtectedFromDelete_def scope_kept_def)
    moreover have "scopes_step False (projects_view db1) (projects_view db2)" using S(2) serve.hyps(2) by simp
    ultimately obtain t' where "projects_view db2 i = Some t'" "scope_kept t t'"
      using unforced_step_keeps [OF _ t(1) _ ids] by blast
    with S(1) t(2) show ?case by (auto simp: scope_kept_def)
  next
    case (pass db1 m n fs)
    then show ?case by (auto simp: projects_good_def projects_inv_def projects_view_def scopes_of_def is_zero_time_def)
  qed
  with assms(3) show ?thesis by (auto simp: scope_kept_def ProtectedFromDelete_def)
qed

definition sample_delete :: "project_request" where
  "sample_delete = DeleteSpaceRequest ''core'' False"

lemma protected_scopes_survive_witness:
  "\<exists>db'. unforced_run sample_env sample_scopes db' \<and> project_serve (pg_scope_service sample_env) sample_delete sample_scopes \<noteq> None \<and>
     (\<exists>s'. projects_view db' ''core'' = Some s' \<and> ProtectedFromDelete s')"
proof -
  have "(case projects_view sample_scopes ''core'' of Some s \<Rightarrow> ProtectedFromDelete s | None \<Rightarrow> False)" by code_simp
  then obtain s where s: "projects_view sample_scopes ''core'' = Some s" "ProtectedFromDelete s" by (auto split: option.splits)
  have "project_serve (pg_scope_service sample_env) sample_delete sample_scopes \<noteq> None" by code_simp
  then obtain e db' where d: "project_serve (pg_scope_service sample_env) sample_delete sample_scopes = Some (e, db')" by auto
  then have run: "unforced_run sample_env sample_scopes db'"
    by (rule unforced_run.serve [OF unforced_run.refl, rotated]) (simp add: sample_delete_def forced_def)
  from protected_scopes_survive [OF sample_scopes_reach s run] run d show ?thesis by auto
qed

section \<open>Crew addresses\<close>

text \<open>
  C39. An edit of the crew addresses of a scope always returns. When it succeeds, the addresses and
  policies stored for the scope are the old ones without the removed ones, then with the added ones set
  in turn; there are at most 16, and nothing else changes but the time of the update. When it fails, no
  scope has changed, and an edit that the request or the limit forbids does fail.
\<close>

theorem crew_edit_exact:
  assumes "projects_good env db"
  shows "\<exists>r db'. pv_UpdateCrewNotify (pg_scope_service env) i req db = Some (r, db') \<and>
    (case r of
       Inl e \<Rightarrow> projects_view db' = projects_view db
     | Inr s' \<Rightarrow> \<exists>s crew. projects_view db (trim_space i) = Some s \<and> crew_apply req (sc_crew s) = Inr crew \<and>
         crew_map (cn_done crew) = crew_updated req (crew_map (cn_done (sc_crew s))) \<and>
         length (cn_done crew) \<le> 16 \<and> s' = s\<lparr>sc_crew := crew, sc_updated := pj_now (pg_data db)\<rparr> \<and>
         projects_view db' = (projects_view db)(trim_space i \<mapsto> s'))"
proof -
  obtain r db' where run: "pv_UpdateCrewNotify (pg_scope_service env) i req db = Some (r, db')"
    and c: "case r of
       Inl e \<Rightarrow> projects_view db' = projects_view db
     | Inr s' \<Rightarrow> (\<exists>sc crew. projects_view db (trim_space i) = Some sc \<and> crew_apply req (sc_crew sc) = Inr crew \<and>
         s' = sc\<lparr>sc_crew := crew, sc_updated := pv_clock (pg_scope_service env) db\<rparr> \<and>
         projects_view db' = (projects_view db)(trim_space i \<mapsto> s'))"
    using pg_projects.crew_serves [OF assms, of i req] by blast
  show ?thesis
  proof (cases r)
    case (Inl e)
    with run c show ?thesis by simp
  next
    case (Inr s')
    with c obtain sc crew where 1: "projects_view db (trim_space i) = Some sc" "crew_apply req (sc_crew sc) = Inr crew"
      "s' = sc\<lparr>sc_crew := crew, sc_updated := pj_now (pg_data db)\<rparr>" "projects_view db' = (projects_view db)(trim_space i \<mapsto> s')"
      by (auto simp: pg_scope_service_def)
    with crew_apply_Inr(1,2) [OF 1(2)] run Inr show ?thesis by (auto simp: MaxCrewNotifyTargets_def)
  qed
qed

definition sample_crew :: crew_request where
  "sample_crew = \<lparr>cr_event = [], cr_add = [\<lparr>ct_address = ''den.lead'', ct_policy = []\<rparr>, \<lparr>ct_address = '' den.lead'', ct_policy = ''next_turn''\<rparr>],
     cr_remove = []\<rparr>"

lemma crew_edit_exact_witness:
  "projects_good sample_env sample_scopes \<and>
   (\<exists>r db' s'. pv_UpdateCrewNotify (pg_scope_service sample_env) ''core'' sample_crew sample_scopes = Some (r, db') \<and> r = Inr s' \<and>
      projects_view db' ''core'' = Some s')"
proof -
  have g: "projects_good sample_env sample_scopes" by (rule projects_reach_good) (rule sample_scopes_reach)
  have "(case pv_UpdateCrewNotify (pg_scope_service sample_env) ''core'' sample_crew sample_scopes of
     Some (Inr s', db') \<Rightarrow> True | _ \<Rightarrow> False)" by code_simp
  then obtain s' db' where "pv_UpdateCrewNotify (pg_scope_service sample_env) ''core'' sample_crew sample_scopes = Some (Inr s', db')"
    by (auto split: option.splits prod.splits sum.splits)
  moreover have "trim_space ''core'' = ''core''" by code_simp
  ultimately show ?thesis using crew_edit_exact [OF g, of "''core''" sample_crew] g by auto
qed

section \<open>Tasks ask projects\<close>

text \<open>The status line of an HTTP answer.\<close>

definition status_line :: "int \<Rightarrow> string" where
  "status_line code =
     show_int code @ '' '' @ (if code = 200 then ''OK'' else if code = 400 then ''Bad Request'' else if code = 404 then ''Not Found''
       else if code = 409 then ''Conflict'' else if code = 500 then ''Internal Server Error'' else [])"

text \<open>
  The request of the tasks service's scope client, answered by the handler of the projects service on
  its database \<open>pdb\<close>; \<open>lost\<close> is an error of the network, if there is one.
\<close>

definition scope_exchange :: "project_env \<Rightarrow> project_tables pg \<Rightarrow> go_err option \<Rightarrow> string \<Rightarrow> go_err + task_scope_reply" where
  "scope_exchange env pdb lost project =
     (case lost of
        Some e \<Rightarrow> Inl e
      | None \<Rightarrow>
          Inr (case fst (hp_assertWritable (pg_scope_service env) project (Some (Inr False)) pdb) of
            JSONResponse code _ \<Rightarrow> \<lparr>tq_code = code, tq_text = status_line code, tq_message = []\<rparr>
          | ErrorResponse code b \<Rightarrow> \<lparr>tq_code = code, tq_text = status_line code, tq_message = eb_message b\<rparr>))"

definition wired_tasks ::
    "project_env \<Rightarrow> project_tables pg \<Rightarrow> go_err option \<Rightarrow> (acceptance_facts \<Rightarrow> string) \<Rightarrow> string \<Rightarrow> nat \<Rightarrow> task_tables pg task_service" where
  "wired_tasks env pdb lost fp baseURL n = pg_task_service (scope_exchange env pdb lost) fp baseURL n"

lemma exchange_accepts:
  assumes "projects_good env pdb" and "trim_space p = p"
    and "TaskScopeClient_AssertWritable (\<lambda>project w. (scope_exchange env pdb lost project, w)) baseURL p w = (None, w')"
  shows "\<exists>s. projects_view pdb p = Some s \<and> scope_Writable s"
proof -
  obtain r db' where a: "pv_AssertWritable (pg_scope_service env) p False pdb = (r, db')" by fastforce
  note W = pg_projects.assert_writable [OF assms(1) a]
  show ?thesis
  proof (cases r)
    case (Inr s)
    with W assms(2) show ?thesis by auto
  next
    case (Inl e)
    have "scope_exchange env pdb lost p = Inl x \<or> (\<exists>q. scope_exchange env pdb lost p = Inr q \<and> tq_code q \<in> {400, 404, 409, 500})" if "lost = Some x" for x
      using that by (simp add: scope_exchange_def)
    moreover have "fst (statusForError e) \<in> {400, 404, 409, 500}"
      using W Inl by (auto simp: projects_invalid_def scopeNotFound_def projects_conflict_def internal_status)
    then have "\<exists>q. scope_exchange env pdb lost p = Inr q \<and> tq_code q \<in> {400, 404, 409, 500}" if "lost = None"
      using that a Inl by (cases "statusForError e") (auto simp: scope_exchange_def hp_assertWritable_def with_body_def answer_with_def
        WriteServiceError_def WriteError_def)
    ultimately show ?thesis using assms(3)
      by (cases lost) (auto simp: TaskScopeClient_AssertWritable_def Let_def split: if_split_asm sum.split_asm)
  qed
qed

text \<open>The project a request of the tasks service writes to, in the tasks stored before it.\<close>

definition task_target :: "task_tables pg \<Rightarrow> task_request \<Rightarrow> string option" where
  "task_target db q =
     (case q of
        CreateTaskRequest project r \<Rightarrow> Some (trim_space project)
      | UpdateTaskRequest i r \<Rightarrow> map_option ta_project (vt (pg_view db) i)
      | ReviewRequest project i agent \<Rightarrow> map_option ta_project (vt (pg_view db) i)
      | AddDependencyRequest i dep \<Rightarrow> map_option ta_project (vt (pg_view db) i)
      | RemoveDependencyRequest i dep \<Rightarrow> map_option ta_project (vt (pg_view db) i)
      | AcceptanceRequest i r \<Rightarrow> map_option ta_project (vt (pg_view db) i))"

lemma writable_task_asked:
  assumes "pg_ok db" and "tv_store s = pg_task_store" and "writable_task s i db = (Inr t, db')"
  shows "\<exists>w w'. map_option ta_project (vt (pg_view db) i) = Some (ta_project t) \<and> tv_writable s (ta_project t) w = (None, w')"
proof -
  obtain g w where g: "ts_GetTask pg_task_store i db = (g, w)" by fastforce
  from pg_tasks.get_task [OF assms(1) g] assms(2,3) g show ?thesis
    by (auto simp: writable_task_def split: sum.split_asm prod.split_asm option.split_asm)
qed

lemma accepted_was_asked:
  assumes "pg_ok db" and "tv_store s = pg_task_store" and "task_serve s q db = Some (None, db')"
  shows "\<exists>p w w'. task_target db q = Some p \<and> tv_writable s p w = (None, w')"
proof (cases q)
  case (CreateTaskRequest project r)
  with assms(3) show ?thesis
    by (auto simp: task_serve_def task_outcome_def tv_CreateTask_def Let_def task_target_def
        split: if_split_asm prod.split_asm option.split_asm)
next
  case (UpdateTaskRequest i r)
  with assms(3) obtain t w where "writable_task s i db = (Inr t, w)"
    by (auto simp: task_serve_def task_outcome_def tv_UpdateTask_def split: if_split_asm prod.split_asm sum.split_asm)
  from writable_task_asked [OF assms(1,2) this] show ?thesis unfolding UpdateTaskRequest task_target_def by auto
next
  case (ReviewRequest project i agent)
  obtain g w where g: "ts_GetTask pg_task_store i db = (g, w)" by fastforce
  obtain o1 w' where "tv_writable s (trim_space project) w = (o1, w')" by fastforce
  with assms(2,3) ReviewRequest g obtain t where "g = Inr t" "tv_writable s (ta_project t) w = (None, w')"
    by (cases g; cases o1) (auto simp: task_serve_def task_outcome_def tv_TransitionTaskToReview_def Let_def
        split: if_split_asm)
  with pg_tasks.get_task [OF assms(1) g] show ?thesis unfolding ReviewRequest task_target_def by auto
next
  case (AddDependencyRequest i dep)
  with assms(3) obtain t w where "writable_task s i db = (Inr t, w)"
    by (auto simp: task_serve_def task_outcome_def tv_AddDependency_def split: prod.split_asm sum.split_asm)
  from writable_task_asked [OF assms(1,2) this] show ?thesis unfolding AddDependencyRequest task_target_def by auto
next
  case (RemoveDependencyRequest i dep)
  with assms(3) obtain t w where "writable_task s i db = (Inr t, w)"
    by (auto simp: task_serve_def task_outcome_def tv_RemoveDependency_def split: prod.split_asm sum.split_asm)
  from writable_task_asked [OF assms(1,2) this] show ?thesis unfolding RemoveDependencyRequest task_target_def by auto
next
  case (AcceptanceRequest i r)
  with assms(3) obtain t w where "writable_task s i db = (Inr t, w)"
    by (auto simp: task_serve_def task_outcome_def tv_RecordHumanAcceptance_def split: prod.split_asm sum.split_asm)
  from writable_task_asked [OF assms(1,2) this] show ?thesis unfolding AcceptanceRequest task_target_def by auto
qed

lemma target_trimmed:
  assumes "pg_ok db" and "task_target db q = Some p"
  shows "trim_space p = p"
proof -
  have "trim_space (ta_project t) = ta_project t" if "vt (pg_view db) i = Some t" for i t
    using pg_tasks.well_formed [OF assms(1)] that by (auto simp: view_ok_def tasks_ok_def task_ok_def trimmed_def)
  with assms(2) show ?thesis by (auto simp: task_target_def split: task_request.split_asm)
qed

text \<open>
  C22. The two services together: a request that writes to the tasks service is accepted only when the
  project it writes to is stored by the projects service and is not archived. Otherwise, and also when
  the projects service fails or cannot be reached, the request is answered with an error and no task or
  dependency changes.
\<close>

theorem task_writes_need_writable_scope:
  assumes "projects_reach env pdb" and "task_reach db"
  shows "\<exists>e db'. task_serve (wired_tasks env pdb lost fp baseURL n) q db = Some (e, db') \<and>
    (if e = None then \<exists>p s. task_target db q = Some p \<and> projects_view pdb p = Some s \<and> sc_visibility s \<noteq> ''archived''
     else pg_view db' = pg_view db)"
proof -
  let ?s = "wired_tasks env pdb lost fp baseURL n"
  have ok: "pg_ok db" using assms(2) by (rule task_reach_ok)
  have good: "projects_good env pdb" using assms(1) by (rule projects_reach_good)
  obtain e db' where run: "task_serve ?s q db = Some (e, db')" "e \<noteq> None \<longrightarrow> pg_view db' = pg_view db"
    using pg_service.serve_refines [OF ok, of "scope_exchange env pdb lost" fp baseURL n q] unfolding wired_tasks_def by blast
  have "\<exists>p s. task_target db q = Some p \<and> projects_view pdb p = Some s \<and> sc_visibility s \<noteq> ''archived''" if "e = None"
  proof -
    have "tv_store ?s = pg_task_store" by (simp add: wired_tasks_def pg_task_service_def)
    from accepted_was_asked [OF ok this run(1) [unfolded that]] obtain p w w'
      where p: "task_target db q = Some p" and "tv_writable ?s p w = (None, w')" by blast
    then have "TaskScopeClient_AssertWritable (\<lambda>project w. (scope_exchange env pdb lost project, w)) baseURL p w = (None, w')"
      by (simp add: wired_tasks_def pg_task_service_def)
    from exchange_accepts [OF good target_trimmed [OF ok p] this] p show ?thesis
      by (auto simp: scope_Writable_def VisibilityArchived_def)
  qed
  with run show ?thesis by (cases e) auto
qed

definition archived_create :: task_request where
  "archived_create = CreateTaskRequest ''core'' \<lparr>ct_title = ''task'', ct_description = [], ct_priority = 0, ct_tags = [],
     ct_assigned = [], ct_depends = [], ct_parent = None\<rparr>"

lemma task_writes_need_writable_scope_witness:
  "projects_reach sample_env sample_scopes \<and> task_reach (calm_pg (empty_task_tables 9)) \<and>
   (\<exists>e db'. task_serve (wired_tasks sample_env sample_scopes None (\<lambda>_. []) ''http'' 4) archived_create (calm_pg (empty_task_tables 9)) = Some (Some e, db') \<and>
      pg_view db' = pg_view (calm_pg (empty_task_tables 9)))"
proof -
  let ?db = "calm_pg (empty_task_tables 9)"
  have r: "task_reach ?db" by (simp add: calm_pg_def task_reach.start)
  have "(case task_serve (wired_tasks sample_env sample_scopes None (\<lambda>_. []) ''http'' 4) archived_create ?db of
     Some (Some e, db') \<Rightarrow> True | _ \<Rightarrow> False)" by code_simp
  then obtain e db' where "task_serve (wired_tasks sample_env sample_scopes None (\<lambda>_. []) ''http'' 4) archived_create ?db = Some (Some e, db')"
    by (auto split: option.splits prod.splits)
  with task_writes_need_writable_scope [OF sample_scopes_reach r, of None "\<lambda>_. []" "''http''" 4 archived_create]
  show ?thesis using r sample_scopes_reach by auto
qed

end
