(* ===== verification/Ops_Types.thy ===== *)
theory Ops_Types
  imports Go_Text Shared_Api
begin

text \<open>
  Package \<open>ops\<close>, the data and the pure functions (\<open>types.go\<close>, \<open>state.go\<close>): schedules, the judgement
  of a job's condition, and what a report does to the stored run. The time zone database, the parser
  of durations and the text of durations and times are a record of parameters. A location is read
  through two functions: the civil day an instant falls on there, counted from 1 January of year 1, and
  \<open>time.Date\<close>, the instant of a day, an hour and a minute. A \<open>float64\<close> of seconds is either the number
  a reporter sent or the seconds of a duration.
\<close>

section \<open>Errors and identifiers\<close>

definition MaxIDBytes :: nat where "MaxIDBytes = 128"

definition ops_error :: "string \<Rightarrow> go_err" where
  "ops_error s = Sentinel ''ops'' s"

definition ErrJobNotFound :: go_err where "ErrJobNotFound = ops_error ''job not found''"
definition ErrRunNotFound :: go_err where "ErrRunNotFound = ops_error ''run not found''"
definition ErrVerificationNotFound :: go_err where "ErrVerificationNotFound = ops_error ''verification not found''"

definition ops_invalid :: "string \<Rightarrow> go_err" where
  "ops_invalid msg = ServiceErr (Errorf msg) ''validation_failed'' 400"

definition ops_notFound :: "go_err \<Rightarrow> string \<Rightarrow> string \<Rightarrow> go_err" where
  "ops_notFound e code i = ServiceErr (Wrapped [] e ('': '' @ i)) code 404"

definition is_alnum :: "char \<Rightarrow> bool" where
  "is_alnum c = (is_digit c \<or> (let n = of_char c :: nat in (65 \<le> n \<and> n \<le> 90) \<or> (97 \<le> n \<and> n \<le> 122)))"

text \<open>The regular expression of identifiers.\<close>

definition idPattern :: "string \<Rightarrow> bool" where
  "idPattern s =
     (case s of [] \<Rightarrow> False
      | c # cs \<Rightarrow> is_alnum c \<and> list_all (\<lambda>d. is_alnum d \<or> d \<in> set ''._:@-'') cs)"

definition ops_validateID :: "string \<Rightarrow> string \<Rightarrow> go_err option" where
  "ops_validateID name v =
     (if v = [] \<or> length v > MaxIDBytes \<or> \<not> idPattern v then
        Some (ops_invalid (name @ '' must be 1-'' @ show_int (int MaxIDBytes) @
          '' characters of letters, digits and ._:@- starting with a letter or digit''))
      else None)"

section \<open>States\<close>

type_synonym run_state = string

definition RunRunning :: run_state where "RunRunning = ''running''"
definition RunSuccess :: run_state where "RunSuccess = ''success''"
definition RunWarning :: run_state where "RunWarning = ''warning''"
definition RunFailed :: run_state where "RunFailed = ''failed''"
definition RunSkipped :: run_state where "RunSkipped = ''skipped''"

lemmas run_states = RunRunning_def RunSuccess_def RunWarning_def RunFailed_def RunSkipped_def

definition run_state_IsValid :: "run_state \<Rightarrow> bool" where
  "run_state_IsValid s \<longleftrightarrow> s \<in> set [RunRunning, RunSuccess, RunWarning, RunFailed, RunSkipped]"

definition VerificationCheck :: string where "VerificationCheck = ''verification''"
definition VerificationRestoreTest :: string where "VerificationRestoreTest = ''restore_test''"

definition verification_state_IsValid :: "string \<Rightarrow> bool" where
  "verification_state_IsValid s \<longleftrightarrow> s \<in> set [''success'', ''warning'', ''failed'']"

datatype job_status = StatusUnknown | StatusFailed | StatusOverdue | StatusNeverReported | StatusWarning
  | StatusRunning | StatusOK | StatusDisabled

definition AllJobStatuses :: "job_status list" where
  "AllJobStatuses = [StatusUnknown, StatusFailed, StatusOverdue, StatusNeverReported, StatusWarning,
     StatusRunning, StatusOK, StatusDisabled]"

datatype freshness = FreshnessFresh | FreshnessOverdue | FreshnessUnscheduled

datatype heartbeat_state = HeartbeatFresh | HeartbeatStale

section \<open>Parameters\<close>

record location =
  lo_name :: string
  lo_day :: "time \<Rightarrow> int"
  lo_at :: "int \<Rightarrow> int \<Rightarrow> int \<Rightarrow> time"

record ops_env =
  oe_zone :: "string \<Rightarrow> location option"
  oe_duration :: "string \<Rightarrow> duration option"
  oe_show_duration :: "duration \<Rightarrow> string"
  oe_show_time :: "time \<Rightarrow> string"

text \<open>\<open>Time.Sub\<close> saturates at the bounds of a duration.\<close>

definition time_sub :: "time \<Rightarrow> time \<Rightarrow> duration" where
  "time_sub a b = max (- (2 ^ 63)) (min (2 ^ 63 - 1) (a - b))"

text \<open>\<open>Duration.Round\<close> to a second, halves away from zero.\<close>

definition round_seconds :: "duration \<Rightarrow> duration" where
  "round_seconds d =
     (if d < 0 then - (((- d) + second_ns div 2) div second_ns) * second_ns
      else ((d + second_ns div 2) div second_ns) * second_ns)"

section \<open>Schedules\<close>

record schedule =
  sd_location :: location
  sd_times :: "(int \<times> int) list"
  sd_weekdays :: "int list"
  sd_grace :: duration

definition maxScheduleLookbackDays :: nat where "maxScheduleLookbackDays = 400"

text \<open>Sunday is 0, and 1 January of year 1 was a Monday.\<close>

definition weekday_of :: "int \<Rightarrow> int" where
  "weekday_of n = (n + 1) mod 7"

definition weekday_names :: "string list" where
  "weekday_names = [''Sun'', ''Mon'', ''Tue'', ''Wed'', ''Thu'', ''Fri'', ''Sat'']"

definition parseWeekday :: "string \<Rightarrow> int option" where
  "parseWeekday v =
     map_option int (find (\<lambda>n. to_lower v = to_lower (weekday_names ! n)) [0..<7])"

text \<open>\<open>time.Parse\<close> of the layout \<open>15:04\<close>: one or two digits, a colon and two digits.\<close>

definition parse_clock :: "string \<Rightarrow> (int \<times> int) option" where
  "parse_clock v =
     (let digits = (if length v \<ge> 2 \<and> is_digit (v ! 1) then 2 else 1 :: nat);
          hour = fold (\<lambda>c n. n * 10 + digit_value c) (take digits v) 0;
          rest = drop digits v
      in if v = [] \<or> \<not> is_digit (v ! 0) \<or> hour \<ge> 24 then None
         else (case rest of
             [colon, a, b] \<Rightarrow>
               if colon = CHR '':'' \<and> is_digit a \<and> is_digit b \<and> digit_value a * 10 + digit_value b < 60
               then Some (hour, digit_value a * 10 + digit_value b) else None
           | _ \<Rightarrow> None))"

text \<open>The format \<open>%02d\<close> of a number below 100.\<close>

definition two_digits :: "int \<Rightarrow> string" where
  "two_digits n = [char_of (48 + nat n div 10), char_of (48 + nat n mod 10)]"

definition clock_String :: "int \<times> int \<Rightarrow> string" where
  "clock_String c = two_digits (fst c) @ '':'' @ two_digits (snd c)"

fun parse_times :: "string list \<Rightarrow> go_err + (int \<times> int) list" where
  "parse_times [] = Inr []"
| "parse_times (v # vs) =
     (case parse_clock v of
        None \<Rightarrow> Inl (ops_invalid (''schedule.times entry '' @ go_quote v @ '' must be HH:MM''))
      | Some c \<Rightarrow> (case parse_times vs of Inl e \<Rightarrow> Inl e | Inr cs \<Rightarrow> Inr (c # cs)))"

fun parse_weekdays :: "int list \<Rightarrow> string list \<Rightarrow> go_err + int list" where
  "parse_weekdays days [] = Inr days"
| "parse_weekdays days (v # vs) =
     (case parseWeekday v of
        None \<Rightarrow> Inl (ops_invalid (''schedule.weekdays entry '' @ go_quote v @ '' must be one of sun mon tue wed thu fri sat''))
      | Some day \<Rightarrow> parse_weekdays (if day \<in> set days then days else days @ [day]) vs)"

definition NewSchedule :: "ops_env \<Rightarrow> string \<Rightarrow> string list \<Rightarrow> string list \<Rightarrow> duration \<Rightarrow> go_err + schedule" where
  "NewSchedule env timezone starts weekdays grace =
     (case (if timezone = [] then None else oe_zone env timezone) of
        None \<Rightarrow> Inl (ops_invalid (''schedule.timezone '' @ go_quote timezone @ '' is not a known IANA timezone''))
      | Some loc \<Rightarrow>
          if starts = [] then Inl (ops_invalid ''schedule.times needs at least one HH:MM start time'')
          else if grace \<le> 0 then Inl (ops_invalid ''schedule.grace must be positive'')
          else case parse_times starts of
            Inl e \<Rightarrow> Inl e
          | Inr cs \<Rightarrow>
              (case parse_weekdays [] weekdays of
                 Inl e \<Rightarrow> Inl e
               | Inr days \<Rightarrow>
                   Inr \<lparr>sd_location = loc, sd_times = sort_key (\<lambda>c. fst c * 60 + snd c) cs,
                        sd_weekdays = sort days, sd_grace = grace\<rparr>))"

definition schedule_Times :: "schedule \<Rightarrow> string list" where
  "schedule_Times s = map clock_String (sd_times s)"

definition schedule_Weekdays :: "schedule \<Rightarrow> string list" where
  "schedule_Weekdays s = map (\<lambda>d. to_lower (weekday_names ! nat d)) (sd_weekdays s)"

definition runsOn :: "schedule \<Rightarrow> int \<Rightarrow> bool" where
  "runsOn s day \<longleftrightarrow> sd_weekdays s = [] \<or> day \<in> set (sd_weekdays s)"

text \<open>
  The civil day of local midnight of a day, which may be the day before where a clock change skips
  midnight, and the starts of a day.
\<close>

definition local_day :: "location \<Rightarrow> int \<Rightarrow> int" where
  "local_day loc n = lo_day loc (lo_at loc n 0 0)"

definition day_slots :: "schedule \<Rightarrow> (int \<times> int) list \<Rightarrow> int \<Rightarrow> time list" where
  "day_slots s starts n =
     (let day = local_day (sd_location s) n in
      if \<not> runsOn s (weekday_of day) then []
      else map (\<lambda>(hour, minute). lo_at (sd_location s) day hour minute) starts)"

definition PreviousSlot :: "schedule \<Rightarrow> time \<Rightarrow> time option" where
  "PreviousSlot s at =
     (let today = lo_day (sd_location s) at in
      find (\<lambda>slot. \<not> at < slot)
        (concat (map (\<lambda>offset. day_slots s (rev (sd_times s)) (today - int offset)) [0..<maxScheduleLookbackDays + 1])))"

definition NextSlot :: "schedule \<Rightarrow> time \<Rightarrow> time option" where
  "NextSlot s at =
     (let today = lo_day (sd_location s) at in
      find (\<lambda>slot. at < slot)
        (concat (map (\<lambda>offset. day_slots s (sd_times s) (today + int offset)) [0..<maxScheduleLookbackDays + 1])))"

section \<open>Jobs, runs and checks\<close>

datatype seconds = GivenSeconds string | SecondsOf duration

record host =
  ho_id :: string
  ho_name :: string
  ho_role :: string
  ho_notes :: string
  ho_created :: time
  ho_updated :: time

record job =
  jo_id :: string
  jo_host :: string
  jo_name :: string
  jo_engine :: string
  jo_kind :: string
  jo_source :: string
  jo_scope :: string
  jo_target :: string
  jo_schedule :: "schedule option"
  jo_stale_after :: duration
  jo_retention :: string
  jo_recovery :: string
  jo_notes :: string
  jo_registered :: bool
  jo_enabled :: bool
  jo_created :: time
  jo_updated :: time

record archive_stats =
  as_original :: "int option"
  as_compressed :: "int option"
  as_deduplicated :: "int option"
  as_files :: "int option"

record run =
  ru_job :: string
  ru_id :: string
  ru_host :: string
  ru_kind :: string
  ru_engine :: string
  ru_runner :: string
  ru_state :: run_state
  ru_phase :: string
  ru_started :: time
  ru_updated :: time
  ru_finished :: "time option"
  ru_exit :: "int option"
  ru_error :: string
  ru_reason :: string
  ru_warnings :: "string list"
  ru_notices :: "string list"
  ru_target :: string
  ru_archive :: string
  ru_archive_name :: string
  ru_stats :: archive_stats
  ru_duration :: "seconds option"
  ru_complete :: bool
  ru_log :: string
  ru_manifest :: string
  ru_directory :: string
  ru_recovery :: string
  ru_raw :: string
  ru_received :: time
  ru_count :: int

definition run_IsTerminal :: "run \<Rightarrow> bool" where
  "run_IsTerminal r \<longleftrightarrow> ru_finished r \<noteq> None"

record verification =
  ve_job :: string
  ve_id :: string
  ve_run :: string
  ve_kind :: string
  ve_check :: string
  ve_state :: string
  ve_at :: time
  ve_scope :: string
  ve_archive :: string
  ve_full :: "bool option"
  ve_evidence :: string
  ve_checked :: "string list"
  ve_raw :: string
  ve_received :: time

section \<open>The condition of a job\<close>

record job_runs =
  jr_attempt :: "run option"
  jr_started :: "run option"
  jr_finished :: "run option"
  jr_success :: "run option"
  jr_archive :: "run option"
  jr_verification :: "verification option"
  jr_restore_test :: "verification option"

record job_view =
  jv_job :: job
  jv_runs :: job_runs
  jv_status :: job_status
  jv_reason :: string
  jv_freshness :: freshness
  jv_current :: "run option"
  jv_heartbeat :: "heartbeat_state option"
  jv_expected_by :: "time option"
  jv_next_due :: "time option"
  jv_evaluated :: time

definition coversSlot :: "schedule \<Rightarrow> time \<Rightarrow> run option \<Rightarrow> bool" where
  "coversSlot s slot r =
     (case r of
        None \<Rightarrow> False
      | Some run \<Rightarrow>
          let windowOpen = (case PreviousSlot s (slot - 1) of
              None \<Rightarrow> 0
            | Some prior \<Rightarrow> if slot < prior + sd_grace s then slot else prior + sd_grace s)
          in \<not> ru_started run < windowOpen)"

definition rollUp :: "ops_env \<Rightarrow> job \<Rightarrow> job_view \<Rightarrow> time \<Rightarrow> job_status \<times> string" where
  "rollUp env j view now =
     (let runs = jv_runs view;
          current_id = (case jv_current view of None \<Rightarrow> [] | Some r \<Rightarrow> ru_id r);
          current_updated = (case jv_current view of None \<Rightarrow> 0 | Some r \<Rightarrow> ru_updated r);
          finished_id = (case jr_finished runs of None \<Rightarrow> [] | Some r \<Rightarrow> ru_id r);
          finished_in = (\<lambda>st. case jr_finished runs of None \<Rightarrow> False | Some r \<Rightarrow> ru_state r = st)
      in if \<not> jo_enabled j then (StatusDisabled, ''job is disabled; freshness is not judged'')
         else if jr_attempt runs = None then (StatusNeverReported, ''no run has been reported for this job'')
         else if jv_heartbeat view = Some HeartbeatStale then
           (StatusUnknown, ''run '' @ current_id @ '' stopped reporting '' @
              oe_show_duration env (round_seconds (time_sub now current_updated)) @ '' ago without finishing'')
         else if finished_in RunFailed then (StatusFailed, ''latest finished run '' @ finished_id @ '' failed'')
         else if jv_freshness view = FreshnessOverdue then
           (StatusOverdue, ''no run started for the slot due by '' @
              oe_show_time env (case jv_expected_by view of None \<Rightarrow> 0 | Some t \<Rightarrow> t))
         else if finished_in RunWarning then
           (StatusWarning, ''latest finished run '' @ finished_id @ '' finished with warnings'')
         else if jv_current view \<noteq> None then (StatusRunning, ''run '' @ current_id @ '' is in progress'')
         else if jr_finished runs = None then (StatusUnknown, ''only skipped runs have been reported'')
         else (StatusOK, ''latest finished run '' @ finished_id @ '' succeeded''))"

definition EvaluateJob :: "ops_env \<Rightarrow> job \<Rightarrow> job_runs \<Rightarrow> time \<Rightarrow> job_view" where
  "EvaluateJob env j runs now =
     (let current = (case jr_attempt runs of None \<Rightarrow> None | Some r \<Rightarrow> if run_IsTerminal r then None else Some r);
          heartbeat = map_option (\<lambda>r. if time_sub now (ru_updated r) > jo_stale_after j then HeartbeatStale else HeartbeatFresh) current;
          expected = (case jo_schedule j of None \<Rightarrow> None | Some s \<Rightarrow> PreviousSlot s (now - sd_grace s));
          view = \<lparr>jv_job = j, jv_runs = runs, jv_status = StatusUnknown, jv_reason = [],
            jv_freshness = (case jo_schedule j of
                None \<Rightarrow> FreshnessUnscheduled
              | Some s \<Rightarrow> (case expected of
                  None \<Rightarrow> FreshnessFresh
                | Some slot \<Rightarrow> if coversSlot s slot (jr_started runs) then FreshnessFresh else FreshnessOverdue)),
            jv_current = current, jv_heartbeat = heartbeat,
            jv_expected_by = (case jo_schedule j of None \<Rightarrow> None | Some s \<Rightarrow> map_option (\<lambda>slot. slot + sd_grace s) expected),
            jv_next_due = (case jo_schedule j of None \<Rightarrow> None | Some s \<Rightarrow> NextSlot s now),
            jv_evaluated = now\<rparr>;
          (status, reason) = rollUp env j view now
      in view\<lparr>jv_status := status, jv_reason := reason\<rparr>)"

section \<open>What a report does to a stored run\<close>

datatype report_outcome = OutcomeCreated | OutcomeUpdated | OutcomeDuplicate | OutcomeIgnoredTerminal | OutcomeIgnoredStale

definition DecideReport :: "run option \<Rightarrow> run \<Rightarrow> report_outcome" where
  "DecideReport existing incoming =
     (case existing of
        None \<Rightarrow> OutcomeCreated
      | Some old \<Rightarrow>
          if run_IsTerminal old \<and> \<not> run_IsTerminal incoming then OutcomeIgnoredTerminal
          else if \<not> run_IsTerminal old \<and> run_IsTerminal incoming then OutcomeUpdated
          else if ru_updated incoming < ru_updated old then OutcomeIgnoredStale
          else if ru_updated incoming = ru_updated old \<and> run_IsTerminal incoming = run_IsTerminal old then OutcomeDuplicate
          else OutcomeUpdated)"

definition severity :: "job_status \<Rightarrow> int" where
  "severity status = (case find (\<lambda>(n, s). s = status) (zip [0..<length AllJobStatuses] AllJobStatuses) of
     None \<Rightarrow> -1 | Some (n, s) \<Rightarrow> int n)"

definition worse :: "job_status \<Rightarrow> job_status \<Rightarrow> bool" where
  "worse candidate current \<longleftrightarrow> severity candidate < severity current"

end
