(* ===== verification/Ops_Store.thy ===== *)
theory Ops_Store
  imports Ops_Types "HOL-Library.List_Lexorder" "HOL-Library.Char_ord" "HOL-Library.Product_Lexorder"
begin

text \<open>
  Package \<open>ops\<close>, the SQLite store (\<open>store.go\<close> over the tables of \<open>migrations\<close>). A job's row keeps its
  schedule as text and its durations in whole seconds, as the columns do; a run and a verification are
  stored as they are. The store has one connection, and a call of the driver can fail.
\<close>

record job_row =
  jw_id :: string
  jw_host :: string
  jw_name :: string
  jw_engine :: string
  jw_kind :: string
  jw_source :: string
  jw_scope :: string
  jw_target :: string
  jw_timezone :: "string option"
  jw_times :: "string option"
  jw_weekdays :: "string option"
  jw_grace :: "int option"
  jw_stale :: int
  jw_retention :: string
  jw_recovery :: string
  jw_notes :: string
  jw_registered :: bool
  jw_enabled :: bool
  jw_created :: time
  jw_updated :: time

record ops_tables =
  od_hosts :: "host list"
  od_jobs :: "job_row list"
  od_runs :: "run list"
  od_checks :: "verification list"

type_synonym 'a ops_call = "ops_tables pg \<Rightarrow> (go_err + 'a) \<times> ops_tables pg"

section \<open>Transactions\<close>

fun exec_all :: "(string \<times> ('d, unit) stmt) list \<Rightarrow> 'd pg \<Rightarrow> (go_err + unit) \<times> 'd pg" where
  "exec_all [] db = (Inr (), db)"
| "exec_all ((ctx, q) # work) db =
     (case pg_call q db of
        (Inl e, db') \<Rightarrow> (Inl (Wrapped ctx e []), db')
      | (Inr _, db') \<Rightarrow> exec_all work db')"

definition inTx :: "(string \<times> ('d, unit) stmt) list \<Rightarrow> 'd pg \<Rightarrow> (go_err + unit) \<times> 'd pg" where
  "inTx work db =
     (case pg_call (read_only (\<lambda>_. ())) db of
        (Inl e, db0) \<Rightarrow> (Inl e, db0)
      | (Inr _, db0) \<Rightarrow>
          (case exec_all work db0 of
             (Inl e, db1) \<Rightarrow> (Inl e, pg_rollback db0 db1)
           | (Inr _, db1) \<Rightarrow>
               (case pg_call (read_only (\<lambda>_. ())) db1 of
                  (Inl e, db2) \<Rightarrow> (Inl e, pg_rollback db0 db2)
                | (Inr _, db2) \<Rightarrow> (Inr (), db2))))"

text \<open>A query, the loop over its rows, and \<open>rows.Err\<close>.\<close>

definition query_all :: "string \<Rightarrow> ('d \<Rightarrow> 'r list) \<Rightarrow> ('r \<Rightarrow> go_err + 'a) \<Rightarrow> 'd pg \<Rightarrow> (go_err + 'a list) \<times> 'd pg" where
  "query_all ctx q scan db =
     (case pg_call (read_only q) db of
        (Inl e, db1) \<Rightarrow> (Inl (Wrapped ctx e []), db1)
      | (Inr rs, db1) \<Rightarrow>
          (case scan_all scan rs of
             Inl e \<Rightarrow> (Inl e, db1)
           | Inr xs \<Rightarrow>
               (case pg_call (read_only (\<lambda>_. ())) db1 of
                  (Inl e, db2) \<Rightarrow> (Inl e, db2)
                | (Inr _, db2) \<Rightarrow> (Inr xs, db2))))"

definition limit_rows :: "int \<Rightarrow> 'r list \<Rightarrow> 'r list" where
  "limit_rows n rs = (if n < 0 then rs else take (nat n) rs)"

section \<open>Hosts\<close>

definition upsertHostSQL :: "host \<Rightarrow> (ops_tables, unit) stmt" where
  "upsertHostSQL h d =
     Some ((), d\<lparr>od_hosts :=
       (if \<exists>r\<in>set (od_hosts d). ho_id r = ho_id h
        then update_where (\<lambda>r. ho_id r = ho_id h) (\<lambda>r. h\<lparr>ho_created := ho_created r\<rparr>) (od_hosts d)
        else od_hosts d @ [h])\<rparr>)"

definition ol_UpsertHost :: "host \<Rightarrow> unit ops_call" where
  "ol_UpsertHost h db =
     (case pg_call (upsertHostSQL h) db of
        (Inl e, db') \<Rightarrow> (Inl (Wrapped (''saving host '' @ ho_id h @ '': '') e []), db')
      | (Inr _, db') \<Rightarrow> (Inr (), db'))"

definition ol_ListHosts :: "host list ops_call" where
  "ol_ListHosts = query_all ''listing hosts: '' (\<lambda>d. sort_key ho_id (od_hosts d)) Inr"

section \<open>Jobs\<close>

text \<open>The columns \<open>upsertJob\<close> writes: integer division drops the fraction of a second.\<close>

definition job_row_of :: "job \<Rightarrow> job_row" where
  "job_row_of j =
     \<lparr>jw_id = jo_id j, jw_host = jo_host j, jw_name = jo_name j, jw_engine = jo_engine j, jw_kind = jo_kind j,
      jw_source = jo_source j, jw_scope = jo_scope j, jw_target = jo_target j,
      jw_timezone = map_option (\<lambda>s. lo_name (sd_location s)) (jo_schedule j),
      jw_times = map_option (\<lambda>s. join_on (CHR '','') (schedule_Times s)) (jo_schedule j),
      jw_weekdays = map_option (\<lambda>s. join_on (CHR '','') (schedule_Weekdays s)) (jo_schedule j),
      jw_grace = map_option (\<lambda>s. sd_grace s div second_ns) (jo_schedule j),
      jw_stale = jo_stale_after j div second_ns,
      jw_retention = jo_retention j, jw_recovery = jo_recovery j, jw_notes = jo_notes j,
      jw_registered = jo_registered j, jw_enabled = jo_enabled j, jw_created = jo_created j, jw_updated = jo_updated j\<rparr>"

definition upsertJobSQL :: "job \<Rightarrow> (ops_tables, unit) stmt" where
  "upsertJobSQL j d =
     Some ((), d\<lparr>od_jobs :=
       (if \<exists>r\<in>set (od_jobs d). jw_id r = jo_id j
        then update_where (\<lambda>r. jw_id r = jo_id j) (\<lambda>r. (job_row_of j)\<lparr>jw_created := jw_created r\<rparr>) (od_jobs d)
        else od_jobs d @ [job_row_of j])\<rparr>)"

definition upsertJob :: "job \<Rightarrow> string \<times> (ops_tables, unit) stmt" where
  "upsertJob j = (''saving job '' @ jo_id j @ '': '', upsertJobSQL j)"

definition ol_UpsertJob :: "job \<Rightarrow> unit ops_call" where
  "ol_UpsertJob j = inTx [upsertJob j]"

definition splitList :: "string \<Rightarrow> string list" where
  "splitList v = (if v = [] then [] else split_on (CHR '','') v)"

definition null_text :: "string option \<Rightarrow> string" where
  "null_text v = (case v of None \<Rightarrow> [] | Some s \<Rightarrow> s)"

definition scanJob :: "ops_env \<Rightarrow> job_row \<Rightarrow> go_err + job" where
  "scanJob env r =
     (let rest = (\<lambda>s. \<lparr>jo_id = jw_id r, jo_host = jw_host r, jo_name = jw_name r, jo_engine = jw_engine r,
            jo_kind = jw_kind r, jo_source = jw_source r, jo_scope = jw_scope r, jo_target = jw_target r,
            jo_schedule = s, jo_stale_after = jw_stale r * second_ns, jo_retention = jw_retention r,
            jo_recovery = jw_recovery r, jo_notes = jw_notes r, jo_registered = jw_registered r,
            jo_enabled = jw_enabled r, jo_created = jw_created r, jo_updated = jw_updated r\<rparr>)
      in case jw_timezone r of
           None \<Rightarrow> Inr (rest None)
         | Some timezone \<Rightarrow>
             (case NewSchedule env timezone (splitList (null_text (jw_times r))) (splitList (null_text (jw_weekdays r)))
                 ((case jw_grace r of None \<Rightarrow> 0 | Some g \<Rightarrow> g) * second_ns) of
                Inl e \<Rightarrow> Inl (Wrapped (''stored schedule for job '' @ jw_id r @ '': '') e [])
              | Inr s \<Rightarrow> Inr (rest (Some s))))"

definition ol_GetJob :: "ops_env \<Rightarrow> string \<Rightarrow> job ops_call" where
  "ol_GetJob env i db =
     (case pg_call (read_only (\<lambda>d. row_lookup jw_id i (od_jobs d))) db of
        (Inl e, db') \<Rightarrow> (Inl e, db')
      | (Inr None, db') \<Rightarrow> (Inl ErrJobNotFound, db')
      | (Inr (Some r), db') \<Rightarrow> (scanJob env r, db'))"

definition ol_ListJobs :: "ops_env \<Rightarrow> job list ops_call" where
  "ol_ListJobs env = query_all ''listing jobs: '' (\<lambda>d. sort_key (\<lambda>r. (jw_host r, jw_id r)) (od_jobs d)) (scanJob env)"

section \<open>Runs\<close>

definition same_run :: "string \<Rightarrow> string \<Rightarrow> run \<Rightarrow> bool" where
  "same_run j i r \<longleftrightarrow> ru_job r = j \<and> ru_id r = i"

text \<open>\<open>insert or replace\<close>, with the reference to the job.\<close>

definition saveRunSQL :: "run \<Rightarrow> (ops_tables, unit) stmt" where
  "saveRunSQL r d =
     (if \<forall>j\<in>set (od_jobs d). jw_id j \<noteq> ru_job r then None
      else Some ((), d\<lparr>od_runs := filter (\<lambda>q. \<not> same_run (ru_job r) (ru_id r) q) (od_runs d) @ [r]\<rparr>))"

definition saveRun :: "run \<Rightarrow> string \<times> (ops_tables, unit) stmt" where
  "saveRun r = (''saving run '' @ ru_job r @ ''/'' @ ru_id r @ '': '', saveRunSQL r)"

definition saveVerificationSQL :: "verification \<Rightarrow> (ops_tables, unit) stmt" where
  "saveVerificationSQL v d =
     (if \<forall>j\<in>set (od_jobs d). jw_id j \<noteq> ve_job v then None
      else Some ((), d\<lparr>od_checks := filter (\<lambda>u. \<not> (ve_job u = ve_job v \<and> ve_id u = ve_id v)) (od_checks d) @ [v]\<rparr>))"

definition saveVerification :: "verification \<Rightarrow> string \<times> (ops_tables, unit) stmt" where
  "saveVerification v = (''saving verification '' @ ve_job v @ ''/'' @ ve_id v @ '': '', saveVerificationSQL v)"

definition ol_SaveReport :: "job option \<Rightarrow> run option \<Rightarrow> verification list \<Rightarrow> unit ops_call" where
  "ol_SaveReport implicit r vs =
     inTx ((case implicit of None \<Rightarrow> [] | Some j \<Rightarrow> [upsertJob j]) @
           (case r of None \<Rightarrow> [] | Some run \<Rightarrow> [saveRun run]) @ map saveVerification vs)"

definition ol_GetRun :: "string \<Rightarrow> string \<Rightarrow> run ops_call" where
  "ol_GetRun j i db =
     (case pg_call (read_only (\<lambda>d. find (same_run j i) (od_runs d))) db of
        (Inl e, db') \<Rightarrow> (Inl e, db')
      | (Inr None, db') \<Rightarrow> (Inl ErrRunNotFound, db')
      | (Inr (Some r), db') \<Rightarrow> (Inr r, db'))"

definition queryRuns :: "(ops_tables \<Rightarrow> run list) \<Rightarrow> run list ops_call" where
  "queryRuns q = query_all ''querying runs: '' q Inr"

text \<open>\<open>order by started_at desc, run_id desc\<close>; rows with equal keys keep the table's order.\<close>

definition newest_runs :: "string \<Rightarrow> (run \<Rightarrow> bool) \<Rightarrow> ops_tables \<Rightarrow> run list" where
  "newest_runs j P d = rev (sort_key (\<lambda>r. (ru_started r, ru_id r)) (rev (filter (\<lambda>r. ru_job r = j \<and> P r) (od_runs d))))"

definition ol_ListRuns :: "string \<Rightarrow> int \<Rightarrow> run list ops_call" where
  "ol_ListRuns j n = queryRuns (\<lambda>d. limit_rows n (newest_runs j (\<lambda>_. True) d))"

definition ol_ListProblemRuns :: "int \<Rightarrow> run list ops_call" where
  "ol_ListProblemRuns n =
     queryRuns (\<lambda>d. limit_rows n (rev (sort_key (\<lambda>r. the (ru_finished r)) (rev
       (filter (\<lambda>r. (ru_state r = ''failed'' \<or> ru_state r = ''warning'') \<and> ru_finished r \<noteq> None) (od_runs d))))))"

definition firstRun :: "string \<Rightarrow> (run \<Rightarrow> bool) \<Rightarrow> run option ops_call" where
  "firstRun j P db =
     (case queryRuns (\<lambda>d. limit_rows 1 (newest_runs j P d)) db of
        (Inl e, db') \<Rightarrow> (Inl e, db')
      | (Inr [], db') \<Rightarrow> (Inr None, db')
      | (Inr (r # rs), db') \<Rightarrow> (Inr (Some r), db'))"

section \<open>Verifications\<close>

definition queryVerifications :: "(ops_tables \<Rightarrow> verification list) \<Rightarrow> verification list ops_call" where
  "queryVerifications q = query_all ''querying verifications: '' q Inr"

definition newest_checks :: "string \<Rightarrow> (verification \<Rightarrow> bool) \<Rightarrow> ops_tables \<Rightarrow> verification list" where
  "newest_checks j P d = rev (sort_key (\<lambda>v. (ve_at v, ve_id v)) (rev (filter (\<lambda>v. ve_job v = j \<and> P v) (od_checks d))))"

definition ol_GetVerification :: "string \<Rightarrow> string \<Rightarrow> verification ops_call" where
  "ol_GetVerification j i db =
     (case queryVerifications (\<lambda>d. filter (\<lambda>v. ve_job v = j \<and> ve_id v = i) (od_checks d)) db of
        (Inl e, db') \<Rightarrow> (Inl e, db')
      | (Inr [], db') \<Rightarrow> (Inl ErrVerificationNotFound, db')
      | (Inr (v # vs), db') \<Rightarrow> (Inr v, db'))"

definition ol_ListVerifications :: "string \<Rightarrow> int \<Rightarrow> verification list ops_call" where
  "ol_ListVerifications j n = queryVerifications (\<lambda>d. limit_rows n (newest_checks j (\<lambda>_. True) d))"

definition ol_ListFailedVerifications :: "int \<Rightarrow> verification list ops_call" where
  "ol_ListFailedVerifications n =
     queryVerifications (\<lambda>d. limit_rows n (rev (sort_key ve_at (rev (filter (\<lambda>v. ve_state v \<noteq> ''success'') (od_checks d))))))"

definition latestVerification :: "string \<Rightarrow> string \<Rightarrow> verification option ops_call" where
  "latestVerification j kind db =
     (case queryVerifications (\<lambda>d. limit_rows 1 (newest_checks j (\<lambda>v. ve_kind v = kind) d)) db of
        (Inl e, db') \<Rightarrow> (Inl e, db')
      | (Inr [], db') \<Rightarrow> (Inr None, db')
      | (Inr (v # vs), db') \<Rightarrow> (Inr (Some v), db'))"

section \<open>The runs a job is judged by\<close>

definition and_then :: "(go_err + 'a) \<times> 'w \<Rightarrow> ('a \<Rightarrow> 'w \<Rightarrow> (go_err + 'b) \<times> 'w) \<Rightarrow> (go_err + 'b) \<times> 'w" where
  "and_then out k = (case out of (Inl e, w) \<Rightarrow> (Inl e, w) | (Inr x, w) \<Rightarrow> k x w)"

definition is_started :: "run \<Rightarrow> bool" where "is_started r \<longleftrightarrow> ru_state r \<noteq> ''skipped''"
definition is_finished :: "run \<Rightarrow> bool" where "is_finished r \<longleftrightarrow> ru_state r \<noteq> ''skipped'' \<and> ru_finished r \<noteq> None"
definition is_success :: "run \<Rightarrow> bool" where "is_success r \<longleftrightarrow> ru_complete r \<and> ru_finished r \<noteq> None"
definition has_archive :: "run \<Rightarrow> bool" where "has_archive r \<longleftrightarrow> ru_archive r \<noteq> []"

definition ol_LoadJobRuns :: "string \<Rightarrow> job_runs ops_call" where
  "ol_LoadJobRuns j db =
     and_then (firstRun j (\<lambda>_. True) db) (\<lambda>attempt db.
     and_then (firstRun j is_started db) (\<lambda>started db.
     and_then (firstRun j is_finished db) (\<lambda>finished db.
     and_then (firstRun j is_success db) (\<lambda>success db.
     and_then (firstRun j has_archive db) (\<lambda>archive db.
     and_then (latestVerification j VerificationCheck db) (\<lambda>check db.
     and_then (latestVerification j VerificationRestoreTest db) (\<lambda>restore db.
       (Inr \<lparr>jr_attempt = attempt, jr_started = started, jr_finished = finished, jr_success = success,
          jr_archive = archive, jr_verification = check, jr_restore_test = restore\<rparr>, db))))))))"

end
