(* ===== verification/Ops_Service.thy ===== *)
theory Ops_Service
  imports Ops_Store
begin

text \<open>
  Package \<open>ops\<close>, the service (\<open>service.go\<close>) over the interface \<open>LedgerStore\<close>, a record of functions
  on a world \<open>'w\<close>, with the requests of \<open>dto.go\<close>. The mutex that serialises the reports is not a
  state here: a request is one function of the world. \<open>json.Marshal\<close> of an embedded check is a
  parameter of the service.
\<close>

type_synonym ('w, 'a) ledger_op = "'w \<Rightarrow> (go_err + 'a) \<times> 'w"

record 'w ledger_store =
  ls_UpsertHost :: "host \<Rightarrow> ('w, unit) ledger_op"
  ls_ListHosts :: "('w, host list) ledger_op"
  ls_UpsertJob :: "job \<Rightarrow> ('w, unit) ledger_op"
  ls_GetJob :: "string \<Rightarrow> ('w, job) ledger_op"
  ls_ListJobs :: "('w, job list) ledger_op"
  ls_GetRun :: "string \<Rightarrow> string \<Rightarrow> ('w, run) ledger_op"
  ls_SaveReport :: "job option \<Rightarrow> run option \<Rightarrow> verification list \<Rightarrow> ('w, unit) ledger_op"
  ls_ListRuns :: "string \<Rightarrow> int \<Rightarrow> ('w, run list) ledger_op"
  ls_ListProblemRuns :: "int \<Rightarrow> ('w, run list) ledger_op"
  ls_LoadJobRuns :: "string \<Rightarrow> ('w, job_runs) ledger_op"
  ls_GetVerification :: "string \<Rightarrow> string \<Rightarrow> ('w, verification) ledger_op"
  ls_ListVerifications :: "string \<Rightarrow> int \<Rightarrow> ('w, verification list) ledger_op"
  ls_ListFailedVerifications :: "int \<Rightarrow> ('w, verification list) ledger_op"

section \<open>Requests\<close>

record host_request =
  hr_name :: string
  hr_role :: string
  hr_notes :: string

record schedule_request =
  sq_timezone :: string
  sq_times :: "string list"
  sq_weekdays :: "string list"
  sq_grace :: string

record job_request =
  jq_host :: string
  jq_name :: string
  jq_engine :: string
  jq_kind :: string
  jq_source :: string
  jq_scope :: string
  jq_target :: string
  jq_schedule :: "schedule_request option"
  jq_stale_after :: string
  jq_retention :: string
  jq_recovery :: string
  jq_notes :: string
  jq_enabled :: "bool option"

definition job_request_Validate :: "job_request \<Rightarrow> go_err option" where
  "job_request_Validate r =
     (case ops_validateID ''host_id'' (jq_host r) of
        Some e \<Rightarrow> Some e
      | None \<Rightarrow> if jq_engine r = [] \<or> jq_kind r = [] then Some (ops_invalid ''engine and kind are required'') else None)"

record archive_report =
  ar_id :: string
  ar_name :: string
  ar_duration :: "seconds option"
  ar_stats :: "archive_stats option"

record verification_report =
  vp_kind :: string
  vp_type :: string
  vp_run :: string
  vp_state :: string
  vp_at :: "time option"
  vp_scope :: string
  vp_archive :: string
  vp_full :: "bool option"
  vp_evidence :: string
  vp_restored :: string
  vp_checked :: "string list"
  vp_files :: "string list"
  vp_repositories :: "string list"

record run_report =
  rr_job :: string
  rr_run :: string
  rr_host :: string
  rr_engine :: string
  rr_runner :: string
  rr_kind :: string
  rr_state :: string
  rr_phase :: string
  rr_started :: "time option"
  rr_updated :: "time option"
  rr_finished :: "time option"
  rr_exit :: "int option"
  rr_error :: string
  rr_reason :: string
  rr_warnings :: "string list"
  rr_notices :: "string list"
  rr_target :: string
  rr_archive :: "archive_report option"
  rr_stats :: "archive_stats option"
  rr_complete :: "bool option"
  rr_duration :: "seconds option"
  rr_log :: string
  rr_manifest :: string
  rr_directory :: string
  rr_recovery :: string
  rr_verification :: "verification_report option"
  rr_restore_test :: "verification_report option"

record 'w ops_service =
  op_store :: "'w ledger_store"
  op_now :: "'w \<Rightarrow> time"
  op_stale_after :: duration
  op_env :: ops_env
  op_marshal :: "verification_report \<Rightarrow> string"

section \<open>Reports\<close>

text \<open>The run a report describes; \<open>finishes\<close> is the state after the rule that only \<open>finished_at\<close> ends a run.\<close>

definition report_state :: "run_report \<Rightarrow> run_state" where
  "report_state r = (if rr_finished r = None then RunRunning else rr_state r)"

definition report_updated :: "run_report \<Rightarrow> time \<Rightarrow> time" where
  "report_updated r started =
     (case rr_updated r of
        Some t \<Rightarrow> t
      | None \<Rightarrow> (case rr_finished r of Some t \<Rightarrow> t | None \<Rightarrow> started))"

definition report_stats :: "run_report \<Rightarrow> archive_stats" where
  "report_stats r =
     (case (case rr_stats r of
          Some st \<Rightarrow> Some st
        | None \<Rightarrow> (case rr_archive r of None \<Rightarrow> None | Some a \<Rightarrow> ar_stats a)) of
        None \<Rightarrow> \<lparr>as_original = None, as_compressed = None, as_deduplicated = None, as_files = None\<rparr>
      | Some st \<Rightarrow> st)"

definition report_duration :: "run_report \<Rightarrow> time \<Rightarrow> seconds option" where
  "report_duration r started =
     (case rr_duration r of
        Some d \<Rightarrow> Some d
      | None \<Rightarrow>
          (case rr_finished r of
             Some t \<Rightarrow> Some (SecondsOf (time_sub t started))
           | None \<Rightarrow> (case rr_archive r of None \<Rightarrow> None | Some a \<Rightarrow> ar_duration a)))"

definition report_complete :: "run_report \<Rightarrow> bool" where
  "report_complete r =
     (let state = report_state r in
      if state = RunSuccess \<or> state = RunWarning
      then (case rr_complete r of Some b \<Rightarrow> b | None \<Rightarrow> state = RunSuccess)
      else False)"

definition runFromReport :: "string \<Rightarrow> string \<Rightarrow> run_report \<Rightarrow> string \<Rightarrow> time \<Rightarrow> go_err + run" where
  "runFromReport j i r raw now =
     (case ops_validateID ''job_id'' j of Some e \<Rightarrow> Inl e | None \<Rightarrow>
      case ops_validateID ''run_id'' i of Some e \<Rightarrow> Inl e | None \<Rightarrow>
      if (rr_job r \<noteq> [] \<and> rr_job r \<noteq> j) \<or> (rr_run r \<noteq> [] \<and> rr_run r \<noteq> i) then
        Inl (ops_invalid (''report job_id/run_id '' @ go_quote (rr_job r) @ ''/'' @ go_quote (rr_run r) @
          '' do not match '' @ go_quote j @ ''/'' @ go_quote i))
      else if \<not> run_state_IsValid (rr_state r) then
        Inl (ops_invalid (''state '' @ go_quote (rr_state r) @ '' must be one of running, success, warning, failed, skipped''))
      else case rr_started r of
        None \<Rightarrow> Inl (ops_invalid ''started_at is required'')
      | Some started \<Rightarrow>
          if rr_finished r \<noteq> None \<and> rr_state r = RunRunning then
            Inl (ops_invalid ''a report with finished_at needs a terminal state'')
          else Inr
            \<lparr>ru_job = j, ru_id = i, ru_host = rr_host r, ru_kind = rr_kind r, ru_engine = rr_engine r,
             ru_runner = rr_runner r, ru_state = report_state r, ru_phase = rr_phase r, ru_started = started,
             ru_updated = report_updated r started, ru_finished = rr_finished r, ru_exit = rr_exit r,
             ru_error = rr_error r, ru_reason = rr_reason r, ru_warnings = rr_warnings r, ru_notices = rr_notices r,
             ru_target = rr_target r,
             ru_archive = (case rr_archive r of None \<Rightarrow> [] | Some a \<Rightarrow> ar_id a),
             ru_archive_name = (case rr_archive r of None \<Rightarrow> [] | Some a \<Rightarrow> ar_name a),
             ru_stats = report_stats r, ru_duration = report_duration r started, ru_complete = report_complete r,
             ru_log = rr_log r, ru_manifest = rr_manifest r, ru_directory = rr_directory r,
             ru_recovery = rr_recovery r, ru_raw = raw, ru_received = now, ru_count = 0\<rparr>)"

definition verificationFromReport :: "string \<Rightarrow> string \<Rightarrow> verification_report \<Rightarrow> string \<Rightarrow> time \<Rightarrow> go_err + verification" where
  "verificationFromReport j i v raw now =
     (case ops_validateID ''verification_id'' i of Some e \<Rightarrow> Inl e | None \<Rightarrow>
      if \<not> verification_state_IsValid (vp_state v) then
        Inl (ops_invalid (''verification state '' @ go_quote (vp_state v) @ '' must be success, warning or failed''))
      else case vp_at v of
        None \<Rightarrow> Inl (ops_invalid ''verification at is required'')
      | Some at \<Rightarrow>
          Inr \<lparr>ve_job = j, ve_id = i, ve_run = vp_run v,
            ve_kind = (if vp_kind v = VerificationRestoreTest then VerificationRestoreTest else VerificationCheck),
            ve_check = (if vp_kind v \<in> set [VerificationRestoreTest, [], VerificationCheck] then vp_type v
              else if vp_type v = [] then vp_kind v else vp_type v),
            ve_state = vp_state v, ve_at = at, ve_scope = vp_scope v, ve_archive = vp_archive v, ve_full = vp_full v,
            ve_evidence = (if vp_evidence v = [] then vp_restored v else vp_evidence v),
            ve_checked = vp_checked v @ vp_repositories v @ vp_files v, ve_raw = raw, ve_received = now\<rparr>)"

fun embedded_loop ::
    "(verification_report \<Rightarrow> string) \<Rightarrow> run \<Rightarrow> time \<Rightarrow> (verification_report option \<times> string) list \<Rightarrow> go_err + verification list" where
  "embedded_loop marshal r now [] = Inr []"
| "embedded_loop marshal r now ((None, kind) # rest) = embedded_loop marshal r now rest"
| "embedded_loop marshal r now ((Some item, kind) # rest) =
     (let report = item\<lparr>vp_at := (case vp_at item of None \<Rightarrow> ru_finished r | Some t \<Rightarrow> Some t),
            vp_run := (if vp_run item = [] then ru_id r else vp_run item)\<rparr>
      in case verificationFromReport (ru_job r) (ru_id r @ '':'' @ kind) report (marshal item) now of
           Inl e \<Rightarrow> Inl (Wrapped (''embedded '' @ kind @ '': '') e [])
         | Inr v \<Rightarrow>
             (case embedded_loop marshal r now rest of
                Inl e \<Rightarrow> Inl e
              | Inr vs \<Rightarrow> Inr (v\<lparr>ve_kind := kind\<rparr> # vs)))"

definition embeddedVerifications :: "(verification_report \<Rightarrow> string) \<Rightarrow> run \<Rightarrow> run_report \<Rightarrow> time \<Rightarrow> go_err + verification list" where
  "embeddedVerifications marshal r request now =
     embedded_loop marshal r now [(rr_verification request, VerificationCheck), (rr_restore_test request, VerificationRestoreTest)]"

definition implicitJob :: "'w ops_service \<Rightarrow> string \<Rightarrow> run_report \<Rightarrow> time \<Rightarrow> job" where
  "implicitJob s j r now =
     \<lparr>jo_id = j, jo_host = (if ops_validateID ''host'' (rr_host r) \<noteq> None then ''unknown'' else rr_host r),
      jo_name = j, jo_engine = rr_engine r, jo_kind = rr_kind r, jo_source = [], jo_scope = [], jo_target = rr_target r,
      jo_schedule = None, jo_stale_after = op_stale_after s, jo_retention = [], jo_recovery = [],
      jo_notes = ''created from a report; register this job to declare its schedule'', jo_registered = False,
      jo_enabled = True, jo_created = now, jo_updated = now\<rparr>"

section \<open>The service\<close>

definition op_evaluate :: "'w ops_service \<Rightarrow> job \<Rightarrow> time \<Rightarrow> ('w, job_view) ledger_op" where
  "op_evaluate s j now w =
     and_then (ls_LoadJobRuns (op_store s) (jo_id j) w) (\<lambda>runs w. (Inr (EvaluateJob (op_env s) j runs now), w))"

definition op_RegisterHost :: "'w ops_service \<Rightarrow> string \<Rightarrow> host_request \<Rightarrow> ('w, host) ledger_op" where
  "op_RegisterHost s i r w =
     (case ops_validateID ''host_id'' i of
        Some e \<Rightarrow> (Inl e, w)
      | None \<Rightarrow>
          let now = op_now s w;
              h = \<lparr>ho_id = i, ho_name = (if hr_name r = [] then i else hr_name r), ho_role = hr_role r,
                   ho_notes = hr_notes r, ho_created = now, ho_updated = now\<rparr> in
          and_then (ls_ListHosts (op_store s) w) (\<lambda>hosts w.
            let h = (case find (\<lambda>e. ho_id e = i) hosts of None \<Rightarrow> h | Some e \<Rightarrow> h\<lparr>ho_created := ho_created e\<rparr>) in
            and_then (ls_UpsertHost (op_store s) h w) (\<lambda>_ w. (Inr h, w))))"

text \<open>The durations and the schedule of a registration.\<close>

definition request_stale_after :: "'w ops_service \<Rightarrow> job_request \<Rightarrow> go_err + duration" where
  "request_stale_after s r =
     (if jq_stale_after r = [] then Inr (op_stale_after s)
      else case oe_duration (op_env s) (jq_stale_after r) of
        None \<Rightarrow> Inl (ops_invalid ''heartbeat_stale_after must be a positive duration such as 15m'')
      | Some d \<Rightarrow>
          if d \<le> 0 then Inl (ops_invalid ''heartbeat_stale_after must be a positive duration such as 15m'') else Inr d)"

definition request_schedule :: "ops_env \<Rightarrow> job_request \<Rightarrow> go_err + schedule option" where
  "request_schedule env r =
     (case jq_schedule r of
        None \<Rightarrow> Inr None
      | Some q \<Rightarrow>
          (case oe_duration env (sq_grace q) of
             None \<Rightarrow> Inl (ops_invalid ''schedule.grace must be a duration such as 3h'')
           | Some grace \<Rightarrow>
               (case NewSchedule env (sq_timezone q) (sq_times q) (sq_weekdays q) grace of
                  Inl e \<Rightarrow> Inl e
                | Inr sch \<Rightarrow> Inr (Some sch))))"

definition registered_job :: "string \<Rightarrow> job_request \<Rightarrow> schedule option \<Rightarrow> duration \<Rightarrow> time \<Rightarrow> job" where
  "registered_job i r sch staleAfter now =
     \<lparr>jo_id = i, jo_host = jq_host r, jo_name = (if jq_name r = [] then i else jq_name r), jo_engine = jq_engine r,
      jo_kind = jq_kind r, jo_source = jq_source r, jo_scope = jq_scope r, jo_target = jq_target r,
      jo_schedule = sch, jo_stale_after = staleAfter, jo_retention = jq_retention r, jo_recovery = jq_recovery r,
      jo_notes = jq_notes r, jo_registered = True, jo_enabled = (jq_enabled r = None \<or> jq_enabled r = Some True),
      jo_created = now, jo_updated = now\<rparr>"

definition op_RegisterJob :: "'w ops_service \<Rightarrow> string \<Rightarrow> job_request \<Rightarrow> ('w, job_view) ledger_op" where
  "op_RegisterJob s i r w =
     (case ops_validateID ''job_id'' i of Some e \<Rightarrow> (Inl e, w) | None \<Rightarrow>
      case job_request_Validate r of Some e \<Rightarrow> (Inl e, w) | None \<Rightarrow>
      case request_stale_after s r of Inl e \<Rightarrow> (Inl e, w) | Inr staleAfter \<Rightarrow>
      case request_schedule (op_env s) r of Inl e \<Rightarrow> (Inl e, w) | Inr sch \<Rightarrow>
        let now = op_now s w;
            j = registered_job i r sch staleAfter now;
            save = (\<lambda>j w. and_then (ls_UpsertJob (op_store s) j w) (\<lambda>_ w. op_evaluate s j now w)) in
        case ls_GetJob (op_store s) i w of
          (Inr old, w1) \<Rightarrow> save (j\<lparr>jo_created := jo_created old\<rparr>) w1
        | (Inl e, w1) \<Rightarrow> if \<not> errors_is e ErrJobNotFound then (Inl e, w1) else save j w1)"

definition op_ReportRun ::
    "'w ops_service \<Rightarrow> string \<Rightarrow> string \<Rightarrow> run_report \<Rightarrow> string \<Rightarrow> ('w, report_outcome \<times> run option \<times> job_view) ledger_op" where
  "op_ReportRun s j i request raw w =
     (let now = op_now s w in
      case runFromReport j i request raw now of Inl e \<Rightarrow> (Inl e, w) | Inr incoming \<Rightarrow>
      let found = (case ls_GetJob (op_store s) j w of
            (Inr job, w1) \<Rightarrow> (Inr (None, job), w1)
          | (Inl e, w1) \<Rightarrow>
              if errors_is e ErrJobNotFound then (Inr (Some (implicitJob s j request now), implicitJob s j request now), w1)
              else (Inl e, w1)) in
      and_then found (\<lambda>(implicit, job) w1.
      let incoming = (if ru_host incoming = [] then incoming\<lparr>ru_host := jo_host job\<rparr> else incoming);
          stored = (case ls_GetRun (op_store s) j i w1 of
            (Inr r, w2) \<Rightarrow> (Inr (Some r), w2)
          | (Inl e, w2) \<Rightarrow> if \<not> errors_is e ErrRunNotFound then (Inl e, w2) else (Inr None, w2)) in
      and_then stored (\<lambda>existing w2.
      let outcome = DecideReport existing incoming;
          written = (if outcome = OutcomeCreated \<or> outcome = OutcomeUpdated then
            (let incoming = incoming\<lparr>ru_count := (case existing of None \<Rightarrow> 1 | Some old \<Rightarrow> ru_count old + 1)\<rparr> in
             case embeddedVerifications (op_marshal s) incoming request now of
               Inl e \<Rightarrow> (Inl e, w2)
             | Inr vs \<Rightarrow>
                 and_then (ls_SaveReport (op_store s) implicit (Some incoming) vs w2) (\<lambda>_ w. (Inr (Some incoming), w)))
            else (Inr existing, w2)) in
      and_then written (\<lambda>run w3.
      and_then (op_evaluate s job now w3) (\<lambda>view w4. (Inr (outcome, run, view), w4))))))"

definition op_ReportVerification ::
    "'w ops_service \<Rightarrow> string \<Rightarrow> string \<Rightarrow> verification_report \<Rightarrow> string \<Rightarrow> ('w, report_outcome \<times> verification) ledger_op" where
  "op_ReportVerification s j i report raw w =
     (case ops_validateID ''job_id'' j of Some e \<Rightarrow> (Inl e, w) | None \<Rightarrow>
      let now = op_now s w in
      case verificationFromReport j i report raw now of Inl e \<Rightarrow> (Inl e, w) | Inr v \<Rightarrow>
      case ls_GetJob (op_store s) j w of
        (Inl e, w1) \<Rightarrow> if errors_is e ErrJobNotFound then (Inl (ops_notFound e ''job_not_found'' j), w1) else (Inl e, w1)
      | (Inr _, w1) \<Rightarrow>
          let save = (\<lambda>outcome w. and_then (ls_SaveReport (op_store s) None None [v] w) (\<lambda>_ w. (Inr (outcome, v), w))) in
          case ls_GetVerification (op_store s) j i w1 of
            (Inl e, w2) \<Rightarrow> if errors_is e ErrVerificationNotFound then save OutcomeCreated w2 else (Inl e, w2)
          | (Inr old, w2) \<Rightarrow>
              if ve_at v < ve_at old then (Inr (OutcomeIgnoredStale, old), w2)
              else if ve_at v = ve_at old \<and> ve_state v = ve_state old then (Inr (OutcomeDuplicate, old), w2)
              else save OutcomeUpdated w2)"

fun evaluate_all :: "'w ops_service \<Rightarrow> time \<Rightarrow> job list \<Rightarrow> ('w, job_view list) ledger_op" where
  "evaluate_all s now [] w = (Inr [], w)"
| "evaluate_all s now (j # js) w =
     and_then (op_evaluate s j now w) (\<lambda>view w.
     and_then (evaluate_all s now js w) (\<lambda>views w. (Inr (view # views), w)))"

definition op_Jobs :: "'w ops_service \<Rightarrow> ('w, job_view list) ledger_op" where
  "op_Jobs s w = and_then (ls_ListJobs (op_store s) w) (\<lambda>jobs w. evaluate_all s (op_now s w) jobs w)"

definition op_getJob :: "'w ops_service \<Rightarrow> string \<Rightarrow> ('w, job) ledger_op" where
  "op_getJob s i w =
     (case ls_GetJob (op_store s) i w of
        (Inl e, w1) \<Rightarrow> if errors_is e ErrJobNotFound then (Inl (ops_notFound e ''job_not_found'' i), w1) else (Inl e, w1)
      | (Inr j, w1) \<Rightarrow> (Inr j, w1))"

record job_detail =
  jd_view :: job_view
  jd_runs :: "run list"
  jd_checks :: "verification list"

definition op_JobDetail :: "'w ops_service \<Rightarrow> string \<Rightarrow> int \<Rightarrow> ('w, job_detail) ledger_op" where
  "op_JobDetail s i limit w =
     and_then (op_getJob s i w) (\<lambda>j w.
     and_then (op_evaluate s j (op_now s w) w) (\<lambda>view w.
     and_then (ls_ListRuns (op_store s) i limit w) (\<lambda>runs w.
     and_then (ls_ListVerifications (op_store s) i limit w) (\<lambda>checks w.
       (Inr \<lparr>jd_view = view, jd_runs = runs, jd_checks = checks\<rparr>, w)))))"

definition op_Runs :: "'w ops_service \<Rightarrow> string \<Rightarrow> int \<Rightarrow> ('w, run list) ledger_op" where
  "op_Runs s i limit w = and_then (op_getJob s i w) (\<lambda>_ w. ls_ListRuns (op_store s) i limit w)"

definition op_Run :: "'w ops_service \<Rightarrow> string \<Rightarrow> string \<Rightarrow> ('w, run) ledger_op" where
  "op_Run s j i w =
     (case ls_GetRun (op_store s) j i w of
        (Inl e, w1) \<Rightarrow> if errors_is e ErrRunNotFound then (Inl (ops_notFound e ''run_not_found'' (j @ ''/'' @ i)), w1) else (Inl e, w1)
      | (Inr r, w1) \<Rightarrow> (Inr r, w1))"

definition op_Verifications :: "'w ops_service \<Rightarrow> string \<Rightarrow> int \<Rightarrow> ('w, verification list) ledger_op" where
  "op_Verifications s i limit w = and_then (op_getJob s i w) (\<lambda>_ w. ls_ListVerifications (op_store s) i limit w)"

section \<open>The summary\<close>

record host_view =
  hv_host :: host
  hv_registered :: bool
  hv_jobs :: int
  hv_configured :: bool
  hv_status :: job_status

record summary =
  su_generated :: time
  su_status :: job_status
  su_counts :: "job_status \<Rightarrow> int"
  su_hosts :: "host_view list"
  su_jobs :: "job_view list"

text \<open>
  The map \<open>byHost\<close> is the list of its values; the final sort by the distinct ids makes the order of the
  map irrelevant. The accumulated state of the loop is the list, the counts, the status and the number
  of enabled jobs.
\<close>

definition bare_host :: "string \<Rightarrow> host" where
  "bare_host i = \<lparr>ho_id = i, ho_name = i, ho_role = [], ho_notes = [], ho_created = 0, ho_updated = 0\<rparr>"

definition count_job :: "job_view \<Rightarrow> host_view \<Rightarrow> host_view" where
  "count_job v h =
     (let h = h\<lparr>hv_jobs := hv_jobs h + 1\<rparr> in
      if \<not> jo_enabled (jv_job v) then h
      else h\<lparr>hv_status := (if \<not> hv_configured h \<or> worse (jv_status v) (hv_status h) then jv_status v else hv_status h),
             hv_configured := True\<rparr>)"

definition add_view ::
    "job_view \<Rightarrow> host_view list \<times> (job_status \<Rightarrow> int) \<times> job_status \<times> nat \<Rightarrow> host_view list \<times> (job_status \<Rightarrow> int) \<times> job_status \<times> nat" where
  "add_view v acc =
     (case acc of (hosts, counts, status, enabled) \<Rightarrow>
       let i = jo_host (jv_job v);
           hosts = (if \<exists>h\<in>set hosts. ho_id (hv_host h) = i then hosts
             else hosts @ [\<lparr>hv_host = bare_host i, hv_registered = False, hv_jobs = 0, hv_configured = False, hv_status = StatusUnknown\<rparr>]);
           hosts = map (\<lambda>h. if ho_id (hv_host h) = i then count_job v h else h) hosts;
           counts = counts(jv_status v := counts (jv_status v) + 1)
       in if \<not> jo_enabled (jv_job v) then (hosts, counts, status, enabled)
          else (hosts, counts, if enabled = 0 \<or> worse (jv_status v) status then jv_status v else status, enabled + 1))"

definition op_Summary :: "'w ops_service \<Rightarrow> ('w, summary) ledger_op" where
  "op_Summary s w =
     and_then (op_Jobs s w) (\<lambda>views w.
     and_then (ls_ListHosts (op_store s) w) (\<lambda>hosts w.
       let start = map (\<lambda>h. \<lparr>hv_host = h, hv_registered = True, hv_jobs = 0, hv_configured = False, hv_status = StatusUnknown\<rparr>) hosts;
           (hosts, counts, status, enabled) = fold add_view views (start, (\<lambda>_. 0), StatusUnknown, 0)
       in (Inr \<lparr>su_generated = op_now s w, su_status = status, su_counts = counts,
              su_hosts = sort_key (\<lambda>h. ho_id (hv_host h)) hosts, su_jobs = views\<rparr>, w)))"

definition op_Hosts :: "'w ops_service \<Rightarrow> ('w, host_view list) ledger_op" where
  "op_Hosts s w = and_then (op_Summary s w) (\<lambda>su w. (Inr (su_hosts su), w))"

record errors_view =
  ev_generated :: time
  ev_problems :: "job_view list"
  ev_runs :: "run list"
  ev_checks :: "verification list"

definition op_Errors :: "'w ops_service \<Rightarrow> int \<Rightarrow> ('w, errors_view) ledger_op" where
  "op_Errors s limit w =
     and_then (op_Jobs s w) (\<lambda>views w.
       let generated = op_now s w;
           problems = sort_key (\<lambda>v. severity (jv_status v))
             (filter (\<lambda>v. jv_status v \<noteq> StatusOK \<and> jv_status v \<noteq> StatusRunning \<and> jv_status v \<noteq> StatusDisabled) views) in
     and_then (ls_ListProblemRuns (op_store s) limit w) (\<lambda>runs w.
     and_then (ls_ListFailedVerifications (op_store s) limit w) (\<lambda>checks w.
       (Inr \<lparr>ev_generated = generated, ev_problems = problems, ev_runs = runs, ev_checks = checks\<rparr>, w))))"

section \<open>The SQLite store behind the interface\<close>

definition sqlite_store :: "ops_env \<Rightarrow> ops_tables pg ledger_store" where
  "sqlite_store env =
     \<lparr>ls_UpsertHost = ol_UpsertHost, ls_ListHosts = ol_ListHosts, ls_UpsertJob = ol_UpsertJob,
      ls_GetJob = ol_GetJob env, ls_ListJobs = ol_ListJobs env, ls_GetRun = ol_GetRun, ls_SaveReport = ol_SaveReport,
      ls_ListRuns = ol_ListRuns, ls_ListProblemRuns = ol_ListProblemRuns, ls_LoadJobRuns = ol_LoadJobRuns,
      ls_GetVerification = ol_GetVerification, ls_ListVerifications = ol_ListVerifications,
      ls_ListFailedVerifications = ol_ListFailedVerifications\<rparr>"

end
