(* ===== verification/Ops_Schedule.thy ===== *)
theory Ops_Schedule
  imports Ops_Types "HOL-Library.Product_Lexorder"
begin

text \<open>
  Schedules: the slot searches find the neighbouring starts when the starts of every day are in order, which holds
  wherever the clock does not change and, with clock changes, for starts that are not skipped; and a schedule that was accepted is read back from its text unchanged.
\<close>

section \<open>Schedules whose starts follow each other\<close>

definition clock_ok :: "int \<times> int \<Rightarrow> bool" where
  "clock_ok c \<longleftrightarrow> 0 \<le> fst c \<and> fst c < 24 \<and> 0 \<le> snd c \<and> snd c < 60"

definition at_clock :: "location \<Rightarrow> int \<Rightarrow> int \<times> int \<Rightarrow> time" where
  "at_clock loc n c = lo_at loc n (fst c) (snd c)"

text \<open>
  Days are intervals from one midnight to the next, and on every day the starts of the schedule lie within the
  day and are in the order of their clock times. A start that a clock change skips can break this: \<open>time.Date\<close>
  moves it by the change, and then it may pass a neighbouring start. So the condition is one on the location and
  on the starts together.
\<close>

definition regular_schedule :: "schedule \<Rightarrow> bool" where
  "regular_schedule s \<longleftrightarrow>
     (\<forall>t n. lo_day (sd_location s) t = n \<longleftrightarrow> lo_at (sd_location s) n 0 0 \<le> t \<and> t < lo_at (sd_location s) (n + 1) 0 0) \<and>
     (\<forall>n. lo_at (sd_location s) n 0 0 < lo_at (sd_location s) (n + 1) 0 0) \<and>
     (\<forall>n. sorted (map (at_clock (sd_location s) n) (sd_times s))) \<and>
     (\<forall>n. \<forall>c\<in>set (sd_times s). lo_at (sd_location s) n 0 0 \<le> at_clock (sd_location s) n c \<and>
        at_clock (sd_location s) n c < lo_at (sd_location s) (n + 1) 0 0)"

lemma regular_day:
  "regular_schedule s \<Longrightarrow> lo_day (sd_location s) t = n \<longleftrightarrow> lo_at (sd_location s) n 0 0 \<le> t \<and> t < lo_at (sd_location s) (n + 1) 0 0"
  by (simp add: regular_schedule_def)

lemma regular_start:
  assumes "regular_schedule s" and "c \<in> set (sd_times s)"
  shows "lo_at (sd_location s) n 0 0 \<le> at_clock (sd_location s) n c" and "at_clock (sd_location s) n c < lo_at (sd_location s) (n + 1) 0 0"
  using assms by (simp_all add: regular_schedule_def)

lemma regular_local_day:
  assumes "regular_schedule s" shows "local_day (sd_location s) n = n"
  using assms unfolding local_day_def regular_schedule_def by blast

lemma regular_midnights:
  assumes "regular_schedule s" and "m < n" shows "lo_at (sd_location s) (m + 1) 0 0 \<le> lo_at (sd_location s) n 0 0"
proof -
  have step: "lo_at (sd_location s) k 0 0 \<le> lo_at (sd_location s) (k + 1) 0 0" for k
    using assms(1) by (simp add: regular_schedule_def less_imp_le)
  have "lo_at (sd_location s) (m + 1) 0 0 \<le> lo_at (sd_location s) (m + 1 + int k) 0 0" for k
  proof (induction k)
    case (Suc k)
    with step [of "m + 1 + int k"] show ?case by (simp add: algebra_simps)
  qed simp
  from this [of "nat (n - m - 1)"] assms(2) show ?thesis by simp
qed

section \<open>Searching\<close>

lemma find_first_le:
  fixes xs :: "int list"
  assumes "sorted_wrt (\<lambda>x y. y \<le> x) xs" and "find (\<lambda>x. \<not> at < x) xs = Some t"
  shows "t \<in> set xs \<and> t \<le> at \<and> (\<forall>y\<in>set xs. y \<le> at \<longrightarrow> y \<le> t)"
  using assms by (induction xs) (auto split: if_splits)

lemma find_first_gt:
  fixes xs :: "int list"
  assumes "sorted_wrt (\<le>) xs" and "find (\<lambda>x. at < x) xs = Some t"
  shows "t \<in> set xs \<and> at < t \<and> (\<forall>y\<in>set xs. at < y \<longrightarrow> t \<le> y)"
  using assms by (induction xs) (auto split: if_splits)

lemma sorted_wrt_concat:
  "sorted_wrt R (concat xss) \<longleftrightarrow>
     (\<forall>xs\<in>set xss. sorted_wrt R xs) \<and> sorted_wrt (\<lambda>xs ys. \<forall>x\<in>set xs. \<forall>y\<in>set ys. R x y) xss"
  by (induction xss) (auto simp: sorted_wrt_append)

definition schedule_ok :: "schedule \<Rightarrow> bool" where
  "schedule_ok s \<longleftrightarrow> sd_times s \<noteq> [] \<and> sorted (sd_times s) \<and> (\<forall>c\<in>set (sd_times s). clock_ok c) \<and>
     sorted (sd_weekdays s) \<and> distinct (sd_weekdays s) \<and> (\<forall>d\<in>set (sd_weekdays s). 0 \<le> d \<and> d < 7) \<and> 0 < sd_grace s"

text \<open>The starts of a schedule: a clock time on a day it runs on.\<close>

definition is_slot :: "schedule \<Rightarrow> time \<Rightarrow> bool" where
  "is_slot s t \<longleftrightarrow> (\<exists>n c. c \<in> set (sd_times s) \<and> runsOn s (weekday_of n) \<and> t = at_clock (sd_location s) n c)"

lemma day_slots_regular:
  assumes "regular_schedule s"
  shows "day_slots s ts n = (if runsOn s (weekday_of n) then map (at_clock (sd_location s) n) ts else [])"
  by (simp add: day_slots_def Let_def regular_local_day [OF assms] at_clock_def case_prod_beta')

lemma slot_day:
  assumes "regular_schedule s" and "schedule_ok s" and "t \<in> set (day_slots s (sd_times s) n)"
  shows "lo_at (sd_location s) n 0 0 \<le> t" and "t < lo_at (sd_location s) (n + 1) 0 0" and "is_slot s t"
  using assms regular_start [OF assms(1)]
  by (auto simp: day_slots_regular [OF assms(1)] schedule_ok_def is_slot_def split: if_splits)

lemma day_slots_sorted:
  assumes "regular_schedule s" and "schedule_ok s"
  shows "sorted (day_slots s (sd_times s) n)"
  using assms by (simp add: day_slots_regular regular_schedule_def)

lemma day_slots_rev: "day_slots s (rev ts) n = rev (day_slots s ts n)"
  by (simp add: day_slots_def Let_def rev_map)

lemma later_day:
  assumes "regular_schedule s" and "schedule_ok s" and "m < n"
    and "t \<in> set (day_slots s (sd_times s) m)" and "u \<in> set (day_slots s (sd_times s) n)"
  shows "t < u"
  using slot_day(2) [OF assms(1,2,4)] slot_day(1) [OF assms(1,2,5)] regular_midnights [OF assms(1,3)] by simp

text \<open>A schedule runs on one of any seven days in a row.\<close>

lemma week_has_day:
  assumes "schedule_ok s"
  shows "\<exists>k::nat. 1 \<le> k \<and> k \<le> 7 \<and> runsOn s (weekday_of (n + int k))" and "\<exists>k::nat. 1 \<le> k \<and> k \<le> 7 \<and> runsOn s (weekday_of (n - int k))"
proof -
  have next_day: "\<exists>k::nat. 1 \<le> k \<and> k \<le> 7 \<and> (m + int k) mod 7 = d" if "0 \<le> d" "d < 7" for d m :: int
  proof -
    have "(m + ((d - m - 1) mod 7 + 1)) mod 7 = ((d - m - 1) mod 7 + (m + 1)) mod 7" by (simp add: algebra_simps)
    also have "\<dots> = (d - m - 1 + (m + 1)) mod 7" by (rule mod_add_left_eq)
    also have "\<dots> = d" using that by simp
    finally have "(m + ((d - m - 1) mod 7 + 1)) mod 7 = d" .
    moreover have "0 \<le> (d - m - 1) mod 7" "(d - m - 1) mod 7 < 7" by simp_all
    ultimately show ?thesis by (intro exI [of _ "nat ((d - m - 1) mod 7 + 1)"]) (simp, arith)
  qed
  have ex: "\<exists>k::nat. 1 \<le> k \<and> k \<le> 7 \<and> (n + int k + 1) mod 7 = d" "\<exists>k::nat. 1 \<le> k \<and> k \<le> 7 \<and> (n - int k + 1) mod 7 = d"
    if d: "0 \<le> d" "d < 7" for d
  proof -
    from next_day [OF d, of "n + 1"] show "\<exists>k::nat. 1 \<le> k \<and> k \<le> 7 \<and> (n + int k + 1) mod 7 = d"
      by (simp add: algebra_simps)
    have "0 \<le> 6 - d" "6 - d < 7" using d by simp_all
    from next_day [OF this, of "- n - 2"] obtain k :: nat where k: "1 \<le> k" "k \<le> 7" "(int k - n - 2) mod 7 = 6 - d"
      by (auto simp: algebra_simps)
    have "(n - int k + 1) mod 7 = (- 1 - (int k - n - 2)) mod 7" by (rule arg_cong [where f = "\<lambda>x. x mod 7"]) simp
    also have "\<dots> = (- 1 - (6 - d)) mod 7" by (metis k(3) mod_diff_right_eq)
    also have "\<dots> = (d + 7 * (- 1)) mod 7" by simp
    also have "\<dots> = d mod 7" by (rule mod_mult_self2)
    also have "\<dots> = d" using d by simp
    finally show "\<exists>k::nat. 1 \<le> k \<and> k \<le> 7 \<and> (n - int k + 1) mod 7 = d" using k(1,2) by blast
  qed
  have "(\<forall>w. runsOn s w) \<or> (\<exists>d. 0 \<le> d \<and> d < 7 \<and> runsOn s d)"
    using assms by (cases "sd_weekdays s") (auto simp: schedule_ok_def runsOn_def)
  then obtain d :: int where d: "0 \<le> d" "d < 7" "runsOn s d"
  proof
    assume "\<forall>w. runsOn s w"
    then show thesis by (intro that [of 0]) simp_all
  qed blast
  from ex(1) [OF d(1,2)] d(3) show "\<exists>k::nat. 1 \<le> k \<and> k \<le> 7 \<and> runsOn s (weekday_of (n + int k))"
    unfolding weekday_of_def by metis
  from ex(2) [OF d(1,2)] d(3) show "\<exists>k::nat. 1 \<le> k \<and> k \<le> 7 \<and> runsOn s (weekday_of (n - int k))"
    unfolding weekday_of_def by metis
qed

lemma slot_location:
  assumes "regular_schedule s" and "schedule_ok s" and "is_slot s t"
  shows "t \<in> set (day_slots s (sd_times s) (lo_day (sd_location s) t))"
proof -
  from assms(3) obtain n c where c: "c \<in> set (sd_times s)" "runsOn s (weekday_of n)" "t = at_clock (sd_location s) n c"
    by (auto simp: is_slot_def)
  then have "lo_day (sd_location s) t = n"
    using regular_start [OF assms(1), where n = n and c = c] by (simp add: regular_day [OF assms(1)])
  with c show ?thesis by (simp add: day_slots_regular [OF assms(1)])
qed

text \<open>\<open>PreviousSlot\<close> finds the latest start that is not after the instant.\<close>

lemma previous_slot:
  assumes reg: "regular_schedule s" and ok: "schedule_ok s"
  obtains t where "PreviousSlot s at = Some t" "is_slot s t" "t \<le> at" "\<And>u. is_slot s u \<Longrightarrow> u \<le> at \<Longrightarrow> u \<le> t"
proof -
  let ?loc = "sd_location s"
  define today where "today = lo_day ?loc at"
  define N where "N = [0..<maxScheduleLookbackDays + 1]"
  have N: "k \<in> set N \<longleftrightarrow> k \<le> maxScheduleLookbackDays" "sorted_wrt (<) N" for k
    unfolding N_def by (auto simp: less_Suc_eq_le simp del: upt_Suc intro: sorted_wrt_upt)
  define days where "days = map (\<lambda>k. day_slots s (rev (sd_times s)) (today - int k)) N"
  have today: "lo_at ?loc today 0 0 \<le> at" "at < lo_at ?loc (today + 1) 0 0"
    using regular_day [OF reg, of at today] by (auto simp: today_def)
  have def: "PreviousSlot s at = find (\<lambda>x. \<not> at < x) (concat days)"
    by (simp add: PreviousSlot_def Let_def today_def days_def N_def)
  have "sorted_wrt (\<lambda>x y. y \<le> x) (concat days)"
  proof -
    have "sorted_wrt (\<lambda>x y. y \<le> x) (day_slots s (rev (sd_times s)) n)" for n
      using day_slots_sorted [OF reg ok, of n] by (simp add: day_slots_rev sorted_wrt_rev)
    moreover have "sorted_wrt (\<lambda>xs ys. \<forall>x\<in>set xs. \<forall>y\<in>set ys. y \<le> x) days"
      unfolding days_def sorted_wrt_map
    proof (rule sorted_wrt_mono_rel [OF _ N(2)])
      fix a b :: nat assume "a < b"
      then have "today - int b < today - int a" by simp
      from later_day [OF reg ok this]
      show "\<forall>x\<in>set (day_slots s (rev (sd_times s)) (today - int a)). \<forall>y\<in>set (day_slots s (rev (sd_times s)) (today - int b)). y \<le> x"
        by (simp add: day_slots_rev less_imp_le)
    qed
    ultimately show ?thesis unfolding sorted_wrt_concat by (simp add: days_def)
  qed
  note first = find_first_le [OF this]
  have listed: "u \<in> set (concat days) \<longleftrightarrow> (\<exists>k\<le>maxScheduleLookbackDays. u \<in> set (day_slots s (sd_times s) (today - int k)))" for u
    by (auto simp: days_def day_slots_rev N(1))
  obtain k where k: "1 \<le> k" "k \<le> 7" "runsOn s (weekday_of (today - int k))" using week_has_day(2) [OF ok] by blast
  obtain c where "c \<in> set (sd_times s)" using ok by (cases "sd_times s") (auto simp: schedule_ok_def)
  with k(3) have v: "at_clock ?loc (today - int k) c \<in> set (day_slots s (sd_times s) (today - int k))"
    by (simp add: day_slots_regular [OF reg])
  have v_le: "at_clock ?loc (today - int k) c \<le> at"
    using slot_day(2) [OF reg ok v] regular_midnights [OF reg, of "today - int k" today] k(1) today(1) by simp
  have v_in: "at_clock ?loc (today - int k) c \<in> set (concat days)"
    unfolding listed using v k(2) by (intro exI [of _ k]) (simp add: maxScheduleLookbackDays_def)
  obtain t where t: "find (\<lambda>x. \<not> at < x) (concat days) = Some t"
    using v_in v_le by (cases "find (\<lambda>x. \<not> at < x) (concat days)") (auto simp: find_None_iff simp del: set_concat)
  note T = first [OF t]
  have slot: "is_slot s t" using T listed slot_day(3) [OF reg ok] by blast
  have "u \<le> t" if u: "is_slot s u" "u \<le> at" for u
  proof -
    let ?n = "lo_day ?loc u"
    note U = slot_location [OF reg ok u(1)]
    have "?n \<le> today"
    proof (rule ccontr)
      assume "\<not> ?n \<le> today"
      with slot_day(1) [OF reg ok U] regular_midnights [OF reg, of today ?n] today(2) u(2) show False by simp
    qed
    show ?thesis
    proof (cases "nat (today - ?n) \<le> maxScheduleLookbackDays")
      case True
      with U \<open>?n \<le> today\<close> have "u \<in> set (concat days)" unfolding listed by (intro exI [of _ "nat (today - ?n)"]) simp
      with T u(2) show ?thesis by blast
    next
      case False
      with k(2) have "?n < today - int k" by (simp add: maxScheduleLookbackDays_def)
      from later_day [OF reg ok this U v] T v_in v_le show ?thesis by fastforce
    qed
  qed
  with t T slot show thesis by (intro that [of t]) (simp_all add: def)
qed

text \<open>\<open>NextSlot\<close> finds the earliest start after it.\<close>

lemma next_slot:
  assumes reg: "regular_schedule s" and ok: "schedule_ok s"
  obtains t where "NextSlot s at = Some t" "is_slot s t" "at < t" "\<And>u. is_slot s u \<Longrightarrow> at < u \<Longrightarrow> t \<le> u"
proof -
  let ?loc = "sd_location s"
  define today where "today = lo_day ?loc at"
  define N where "N = [0..<maxScheduleLookbackDays + 1]"
  have N: "k \<in> set N \<longleftrightarrow> k \<le> maxScheduleLookbackDays" "sorted_wrt (<) N" for k
    unfolding N_def by (auto simp: less_Suc_eq_le simp del: upt_Suc intro: sorted_wrt_upt)
  define days where "days = map (\<lambda>k. day_slots s (sd_times s) (today + int k)) N"
  have today: "lo_at ?loc today 0 0 \<le> at" "at < lo_at ?loc (today + 1) 0 0"
    using regular_day [OF reg, of at today] by (auto simp: today_def)
  have def: "NextSlot s at = find (\<lambda>x. at < x) (concat days)"
    by (simp add: NextSlot_def Let_def today_def days_def N_def)
  have "sorted_wrt (\<le>) (concat days)"
  proof -
    have "sorted_wrt (\<lambda>xs ys. \<forall>x\<in>set xs. \<forall>y\<in>set ys. x \<le> y) days"
      unfolding days_def sorted_wrt_map
    proof (rule sorted_wrt_mono_rel [OF _ N(2)])
      fix a b :: nat assume "a < b"
      then have "today + int a < today + int b" by simp
      from later_day [OF reg ok this]
      show "\<forall>x\<in>set (day_slots s (sd_times s) (today + int a)). \<forall>y\<in>set (day_slots s (sd_times s) (today + int b)). x \<le> y"
        by (simp add: less_imp_le)
    qed
    then show ?thesis unfolding sorted_wrt_concat using day_slots_sorted [OF reg ok] by (simp add: days_def)
  qed
  note first = find_first_gt [OF this]
  have listed: "u \<in> set (concat days) \<longleftrightarrow> (\<exists>k\<le>maxScheduleLookbackDays. u \<in> set (day_slots s (sd_times s) (today + int k)))" for u
    by (auto simp: days_def N(1))
  obtain k where k: "1 \<le> k" "k \<le> 7" "runsOn s (weekday_of (today + int k))" using week_has_day(1) [OF ok] by blast
  obtain c where "c \<in> set (sd_times s)" using ok by (cases "sd_times s") (auto simp: schedule_ok_def)
  with k(3) have v: "at_clock ?loc (today + int k) c \<in> set (day_slots s (sd_times s) (today + int k))"
    by (simp add: day_slots_regular [OF reg])
  have v_gt: "at < at_clock ?loc (today + int k) c"
    using slot_day(1) [OF reg ok v] regular_midnights [OF reg, of today "today + int k"] k(1) today(2) by simp
  have v_in: "at_clock ?loc (today + int k) c \<in> set (concat days)"
    unfolding listed using v k(2) by (intro exI [of _ k]) (simp add: maxScheduleLookbackDays_def)
  obtain t where t: "find (\<lambda>x. at < x) (concat days) = Some t"
    using v_in v_gt by (cases "find (\<lambda>x. at < x) (concat days)") (auto simp: find_None_iff simp del: set_concat)
  note T = first [OF t]
  have slot: "is_slot s t" using T listed slot_day(3) [OF reg ok] by blast
  have "t \<le> u" if u: "is_slot s u" "at < u" for u
  proof -
    let ?n = "lo_day ?loc u"
    note U = slot_location [OF reg ok u(1)]
    have "today \<le> ?n"
    proof (rule ccontr)
      assume "\<not> today \<le> ?n"
      with slot_day(2) [OF reg ok U] regular_midnights [OF reg, of ?n today] today(1) u(2) show False by simp
    qed
    show ?thesis
    proof (cases "nat (?n - today) \<le> maxScheduleLookbackDays")
      case True
      with U \<open>today \<le> ?n\<close> have "u \<in> set (concat days)" unfolding listed by (intro exI [of _ "nat (?n - today)"]) simp
      with T u(2) show ?thesis by blast
    next
      case False
      with k(2) have "today + int k < ?n" by (simp add: maxScheduleLookbackDays_def)
      from later_day [OF reg ok this v U] T v_in v_gt show ?thesis by fastforce
    qed
  qed
  with t T slot show thesis by (intro that [of t]) (simp_all add: def)
qed

section \<open>Locations\<close>

text \<open>A location without clock changes, as \<open>time.Date\<close> has it for a zone of a fixed offset.\<close>

definition fixed_zone :: "string \<Rightarrow> time \<Rightarrow> location" where
  "fixed_zone name offset =
     \<lparr>lo_name = name, lo_day = (\<lambda>t. (t + offset) div 86400000000000),
      lo_at = (\<lambda>n h m. n * 86400000000000 + (h * 60 + m) * 60000000000 - offset)\<rparr>"

definition utc :: location where
  "utc = fixed_zone ''UTC'' 0"

lemma day_of_iff: "(t :: int) div 86400000000000 = n \<longleftrightarrow> n * 86400000000000 \<le> t \<and> t < n * 86400000000000 + 86400000000000"
  by auto

lemma clock_le: "c \<le> c' \<Longrightarrow> clock_ok c \<Longrightarrow> clock_ok c' \<Longrightarrow> fst c * 60 + snd c \<le> fst c' * 60 + snd c'"
  by (cases c; cases c') (auto simp: clock_ok_def)

lemma sorted_starts:
  assumes "schedule_ok s" and "\<And>c c'. c \<in> set (sd_times s) \<Longrightarrow> c' \<in> set (sd_times s) \<Longrightarrow> c \<le> c' \<Longrightarrow> f c \<le> (f c' :: int)"
  shows "sorted (map f (sd_times s))"
proof -
  have "sorted_wrt (\<lambda>c c'. f c \<le> f c') (sd_times s)"
    by (rule sorted_wrt_mono_rel [of _ "(\<le>)"]) (use assms in \<open>auto simp: schedule_ok_def\<close>)
  then show ?thesis by (simp add: sorted_wrt_map)
qed

text \<open>There every schedule is regular.\<close>

lemma fixed_zone_regular:
  assumes "schedule_ok s" and "sd_location s = fixed_zone name offset"
  shows "regular_schedule s"
proof -
  have c: "0 \<le> fst c * 60 + snd c \<and> fst c * 60 + snd c < 1440" if "c \<in> set (sd_times s)" for c
    using that assms(1) by (auto simp: schedule_ok_def clock_ok_def)
  have "sorted (map (at_clock (sd_location s) n) (sd_times s))" for n
  proof (rule sorted_starts [OF assms(1)])
    fix c c' assume "c \<in> set (sd_times s)" "c' \<in> set (sd_times s)" "c \<le> c'"
    with assms(1) have "fst c * 60 + snd c \<le> fst c' * 60 + snd c'" by (intro clock_le) (auto simp: schedule_ok_def)
    then show "at_clock (sd_location s) n c \<le> at_clock (sd_location s) n c'" by (simp add: assms(2) at_clock_def fixed_zone_def)
  qed
  moreover have "lo_at (sd_location s) n 0 0 \<le> at_clock (sd_location s) n x \<and> at_clock (sd_location s) n x < lo_at (sd_location s) (n + 1) 0 0"
    if "x \<in> set (sd_times s)" for n x
    using c [OF that] by (simp add: assms(2) at_clock_def fixed_zone_def)
  ultimately show ?thesis
    unfolding regular_schedule_def by (auto simp: assms(2) fixed_zone_def day_of_iff)
qed

text \<open>
  Pacific time with the clock changes of 2026: to -7 hours on March 8 (day 20520) at 10:00 and back to -8 hours on
  November 1 (day 20758) at 9:00 universal time. \<open>time.Date\<close> looks up the offset at the wall clock's time as if it
  were universal time, and once more at the instant this gives.
\<close>

definition pacific_offset :: "time \<Rightarrow> time" where
  "pacific_offset t =
     (if 20520 * 86400000000000 + 36000000000000 \<le> t \<and> t < 20758 * 86400000000000 + 32400000000000
      then - 25200000000000 else - 28800000000000)"

definition pacific :: location where
  "pacific =
     \<lparr>lo_name = ''America/Los_Angeles'', lo_day = (\<lambda>t. (t + pacific_offset t) div 86400000000000),
      lo_at = (\<lambda>n h m. let wall = n * 86400000000000 + (h * 60 + m) * 60000000000
                       in wall - pacific_offset (wall - pacific_offset wall))\<rparr>"

lemma pacific_midnight:
  "lo_at pacific n 0 0 = n * 86400000000000 + (if 20520 < n \<and> n \<le> 20758 then 25200000000000 else 28800000000000)"
  by (simp add: pacific_def pacific_offset_def Let_def)

lemma pacific_start:
  assumes "0 \<le> w" and "w < 86400000000000" and "w < 7200000000000 \<or> 10800000000000 \<le> w"
  shows "n * 86400000000000 + w - pacific_offset (n * 86400000000000 + w - pacific_offset (n * 86400000000000 + w)) =
    n * 86400000000000 + w +
      (if 20520 < n \<and> n < 20758 \<or> n = 20520 \<and> 10800000000000 \<le> w \<or> n = 20758 \<and> w < 7200000000000
       then 25200000000000 else 28800000000000)"
proof -
  consider "n < 20520" | "n = 20520" | "20520 < n" "n < 20758" | "n = 20758" | "20758 < n" by linarith
  then show ?thesis
    by cases (use assms in \<open>auto simp: pacific_offset_def\<close>)
qed

text \<open>There every schedule is regular that has no start in the hour that is skipped in March.\<close>

lemma pacific_regular:
  assumes ok: "schedule_ok s" and loc: "sd_location s = pacific" and hour: "\<forall>c\<in>set (sd_times s). fst c \<noteq> 2"
  shows "regular_schedule s"
proof -
  define wall where "wall c = (fst c * 60 + snd c) * 60000000000" for c :: "int \<times> int"
  have w: "0 \<le> wall c \<and> wall c < 86400000000000 \<and> (wall c < 7200000000000 \<or> 10800000000000 \<le> wall c)" if "c \<in> set (sd_times s)" for c
    using that ok hour by (force simp: schedule_ok_def clock_ok_def wall_def)
  have at: "at_clock pacific n c = n * 86400000000000 + wall c +
      (if 20520 < n \<and> n < 20758 \<or> n = 20520 \<and> 10800000000000 \<le> wall c \<or> n = 20758 \<and> wall c < 7200000000000
       then 25200000000000 else 28800000000000)" if "c \<in> set (sd_times s)" for n c
    using pacific_start [of "wall c" n] w [OF that] by (simp add: at_clock_def pacific_def Let_def wall_def)
  have "sorted (map (at_clock pacific n) (sd_times s))" for n
  proof (rule sorted_starts [OF ok])
    fix c c' assume c: "c \<in> set (sd_times s)" "c' \<in> set (sd_times s)" "c \<le> c'"
    with ok have "fst c * 60 + snd c \<le> fst c' * 60 + snd c'" by (intro clock_le) (auto simp: schedule_ok_def)
    then have "wall c \<le> wall c'" by (simp add: wall_def)
    with w [OF c(1)] w [OF c(2)] show "at_clock pacific n c \<le> at_clock pacific n c'" by (auto simp: at c)
  qed
  moreover have "lo_at pacific n 0 0 \<le> at_clock pacific n c \<and> at_clock pacific n c < lo_at pacific (n + 1) 0 0"
    if "c \<in> set (sd_times s)" for n c
    using w [OF that] by (auto simp: at [OF that] pacific_midnight)
  moreover have "lo_day pacific t = n \<longleftrightarrow> lo_at pacific n 0 0 \<le> t \<and> t < lo_at pacific (n + 1) 0 0" for t n
    unfolding pacific_midnight by (simp add: pacific_def day_of_iff, simp add: pacific_offset_def, linarith)
  moreover have "lo_at pacific n 0 0 < lo_at pacific (n + 1) 0 0" for n
    by (simp add: pacific_midnight)
  ultimately show ?thesis by (simp add: regular_schedule_def loc)
qed

text \<open>
  With starts at 1:45 and 2:30, the second one is moved before the first on March 8: at 10:00 universal time
  \<open>PreviousSlot\<close> answers 9:30, though the schedule has a start at 9:45.
\<close>

lemma skipped_start:
  assumes "s = \<lparr>sd_location = pacific, sd_times = [(1, 45), (2, 30)], sd_weekdays = [], sd_grace = g\<rparr>"
  shows "PreviousSlot s (20520 * 86400000000000 + 36000000000000) = Some (20520 * 86400000000000 + 34200000000000)"
    and "is_slot s (20520 * 86400000000000 + 35100000000000)"
proof -
  define at :: int where "at = 20520 * 86400000000000 + 36000000000000"
  have day: "lo_day pacific at = 20520" by (simp add: pacific_def pacific_offset_def at_def)
  have N: "[0..<maxScheduleLookbackDays + 1] = 0 # [1..<maxScheduleLookbackDays + 1]"
    by (simp add: maxScheduleLookbackDays_def upt_conv_Cons del: upt_Suc)
  have local: "local_day pacific 20520 = 20520" by (simp add: local_day_def pacific_def pacific_offset_def Let_def)
  have slots: "day_slots s (rev (sd_times s)) 20520 = [20520 * 86400000000000 + 34200000000000, 20520 * 86400000000000 + 35100000000000]"
    by (simp add: assms day_slots_def local runsOn_def) (simp add: pacific_def pacific_offset_def Let_def)
  define f where "f offset = day_slots s (rev (sd_times s)) (lo_day (sd_location s) at - int offset)" for offset
  have "f 0 = [20520 * 86400000000000 + 34200000000000, 20520 * 86400000000000 + 35100000000000]"
    using slots day by (simp add: f_def assms)
  moreover have "PreviousSlot s at = find (\<lambda>x. \<not> at < x) (f 0 @ concat (map f [1..<maxScheduleLookbackDays + 1]))"
    unfolding PreviousSlot_def N Let_def f_def by simp
  ultimately have "PreviousSlot s at = Some (20520 * 86400000000000 + 34200000000000)"
    by (simp add: at_def)
  then show "PreviousSlot s (20520 * 86400000000000 + 36000000000000) = Some (20520 * 86400000000000 + 34200000000000)"
    by (simp only: at_def)
  have "20520 * 86400000000000 + 35100000000000 = at_clock (sd_location s) 20520 (1, 45)"
    by (simp add: assms at_clock_def pacific_def pacific_offset_def Let_def)
  moreover have "runsOn s w" for w by (simp add: assms runsOn_def)
  moreover have "(1, 45) \<in> set (sd_times s)" by (simp add: assms)
  ultimately show "is_slot s (20520 * 86400000000000 + 35100000000000)" unfolding is_slot_def by blast
qed

section \<open>The text of a schedule\<close>

lemma clock_digit_char: "k \<le> 9 \<Longrightarrow> is_digit (char_of (48 + k)) \<and> digit_value (char_of (48 + k)) = int k"
  by (simp add: is_digit_def digit_value_def Let_def)

lemma two_digits_ok:
  assumes "0 \<le> n" and "n < 60"
  shows "\<exists>a b. two_digits n = [a, b] \<and> is_digit a \<and> is_digit b \<and> digit_value a * 10 + digit_value b = n"
proof -
  have "nat n div 10 \<le> 9" "nat n mod 10 \<le> 9" using assms by auto
  from clock_digit_char [OF this(1)] clock_digit_char [OF this(2)] assms show ?thesis
    by (simp add: two_digits_def zdiv_int zmod_int nat_mod_distrib)
qed

lemma parse_clock_String: "clock_ok c \<Longrightarrow> parse_clock (clock_String c) = Some c"
proof -
  assume c: "clock_ok c"
  then have "0 \<le> fst c" "fst c < 60" "0 \<le> snd c" "snd c < 60" by (simp_all add: clock_ok_def)
  then obtain a b x y where "two_digits (fst c) = [a, b]" "is_digit a" "is_digit b" "digit_value a * 10 + digit_value b = fst c"
    "two_digits (snd c) = [x, y]" "is_digit x" "is_digit y" "digit_value x * 10 + digit_value y = snd c"
    using two_digits_ok [of "fst c"] two_digits_ok [of "snd c"] by blast
  with c show ?thesis by (cases c) (simp add: parse_clock_def clock_String_def clock_ok_def)
qed

lemma parse_clock_ok: "parse_clock v = Some c \<Longrightarrow> clock_ok c"
proof -
  have digit: "0 \<le> digit_value x \<and> digit_value x \<le> 9" if "is_digit x" for x
    using that by (auto simp: is_digit_def digit_value_def Let_def)
  have hour: "0 \<le> fold (\<lambda>c n. n * 10 + digit_value c) (take k v) 0" if "is_digit (v ! 0)" "k = 1 \<or> k = 2 \<and> length v \<ge> 2 \<and> is_digit (v ! 1)" "v \<noteq> []" for k
    using that digit [of "v ! 0"] digit [of "v ! 1"]
    by (cases v; cases "tl v") (auto simp: numeral_2_eq_2)
  assume "parse_clock v = Some c"
  with hour [of 1] hour [of 2] digit show ?thesis
    by (auto simp: parse_clock_def Let_def clock_ok_def split: if_split_asm list.split_asm)
qed

lemma parse_times_Inr: "parse_times vs = Inr cs \<Longrightarrow> length cs = length vs \<and> (\<forall>c\<in>set cs. clock_ok c)"
  by (induction vs arbitrary: cs) (auto split: option.splits sum.splits dest: parse_clock_ok)

lemma parse_times_String: "\<forall>c\<in>set cs. clock_ok c \<Longrightarrow> parse_times (map clock_String cs) = Inr cs"
  by (induction cs) (auto simp: parse_clock_String)

lemma parseWeekday_range: "parseWeekday v = Some d \<Longrightarrow> 0 \<le> d \<and> d < 7"
  unfolding parseWeekday_def by (auto simp: find_Some_iff)

lemma parseWeekday_name: "0 \<le> d \<Longrightarrow> d < 7 \<Longrightarrow> parseWeekday (to_lower (weekday_names ! nat d)) = Some d"
proof -
  assume d: "0 \<le> d" "d < 7"
  have "list_all (\<lambda>d. parseWeekday (to_lower (weekday_names ! nat d)) = Some d) (map int [0..<7])" by code_simp
  moreover have "d \<in> set (map int [0..<7])" using d by (auto intro!: image_eqI [of _ _ "nat d"])
  ultimately show ?thesis unfolding list_all_iff by blast
qed

lemma parse_weekdays_Inr:
  "parse_weekdays days vs = Inr ds \<Longrightarrow> distinct days \<Longrightarrow> \<forall>d\<in>set days. 0 \<le> d \<and> d < 7 \<Longrightarrow>
     distinct ds \<and> (\<forall>d\<in>set ds. 0 \<le> d \<and> d < 7)"
proof (induction days vs rule: parse_weekdays.induct)
  case (2 days v vs)
  from "2.prems"(1) obtain d where d: "parseWeekday v = Some d" by (auto split: option.split_asm)
  show ?case
  proof (rule "2.IH" [OF d])
    show "parse_weekdays (if d \<in> set days then days else days @ [d]) vs = Inr ds" using "2.prems"(1) d by simp
    show "distinct (if d \<in> set days then days else days @ [d])" using "2.prems"(2) by simp
    show "\<forall>d\<in>set (if d \<in> set days then days else days @ [d]). 0 \<le> d \<and> d < 7"
      using "2.prems"(3) parseWeekday_range [OF d] by simp
  qed
qed auto

lemma parse_weekdays_names:
  "distinct (days @ ds) \<Longrightarrow> \<forall>d\<in>set ds. 0 \<le> d \<and> d < 7 \<Longrightarrow>
     parse_weekdays days (map (\<lambda>d. to_lower (weekday_names ! nat d)) ds) = Inr (days @ ds)"
proof (induction ds arbitrary: days)
  case (Cons d ds)
  have "parse_weekdays (days @ [d]) (map (\<lambda>d. to_lower (weekday_names ! nat d)) ds) = Inr ((days @ [d]) @ ds)"
    by (rule Cons.IH) (use Cons.prems in auto)
  moreover have "d \<notin> set days" using Cons.prems(1) by auto
  ultimately show ?case using Cons.prems(2) by (simp add: parseWeekday_name)
qed simp

lemma clock_order: "clock_ok c \<Longrightarrow> clock_ok c' \<Longrightarrow> fst c * 60 + snd c \<le> fst c' * 60 + snd c' \<longleftrightarrow> c \<le> c'"
  by (cases c; cases c') (auto simp: clock_ok_def)

lemma sort_clock:
  assumes "\<forall>c\<in>set cs. clock_ok c" shows "sorted (sort_key (\<lambda>c. fst c * 60 + snd c) cs)"
proof -
  have "sorted ds" if "sorted (map (\<lambda>c. fst c * 60 + snd c) ds)" "\<forall>c\<in>set ds. clock_ok c" for ds
    using that by (induction ds) (auto simp: clock_order)
  with assms show ?thesis by simp
qed

lemma sort_key_clock_id: "sorted cs \<Longrightarrow> \<forall>c\<in>set cs. clock_ok c \<Longrightarrow> sort_key (\<lambda>c. fst c * 60 + snd c) cs = cs"
  by (induction cs) (auto simp: insort_is_Cons clock_order)

lemma NewSchedule_Inr:
  assumes "NewSchedule env tz starts wds grace = Inr s"
  shows "schedule_ok s" "sd_grace s = grace" "oe_zone env tz = Some (sd_location s)" "tz \<noteq> []" "starts \<noteq> []"
proof -
  from assms obtain loc cs ds where 1: "tz \<noteq> []" "oe_zone env tz = Some loc" "starts \<noteq> []" "0 < grace"
    "parse_times starts = Inr cs" "parse_weekdays [] wds = Inr ds"
    "s = \<lparr>sd_location = loc, sd_times = sort_key (\<lambda>c. fst c * 60 + snd c) cs, sd_weekdays = sort ds, sd_grace = grace\<rparr>"
    by (auto simp: NewSchedule_def not_le split: if_split_asm option.split_asm sum.split_asm)
  have "cs \<noteq> []" using parse_times_Inr [OF 1(5)] 1(3) by auto
  then have "sort_key (\<lambda>c. fst c * 60 + snd c) cs \<noteq> []" by (metis length_0_conv length_sort)
  with parse_times_Inr [OF 1(5)] parse_weekdays_Inr [OF 1(6)] show "schedule_ok s"
    unfolding schedule_ok_def 1(7) using 1(4) by (simp add: sort_clock)
  from 1 show "sd_grace s = grace" "oe_zone env tz = Some (sd_location s)" "tz \<noteq> []" "starts \<noteq> []" by simp_all
qed

lemma NewSchedule_text:
  assumes "schedule_ok s" and "oe_zone env tz = Some (sd_location s)" and "tz \<noteq> []" and "0 < grace"
  shows "NewSchedule env tz (schedule_Times s) (schedule_Weekdays s) grace = Inr (s\<lparr>sd_grace := grace\<rparr>)"
proof -
  have "parse_times (schedule_Times s) = Inr (sd_times s)"
    using assms(1) by (simp add: schedule_ok_def schedule_Times_def parse_times_String)
  moreover have "parse_weekdays [] (schedule_Weekdays s) = Inr (sd_weekdays s)"
    using parse_weekdays_names [of "[]" "sd_weekdays s"] assms(1) by (simp add: schedule_ok_def schedule_Weekdays_def)
  moreover have "schedule_Times s \<noteq> []" using assms(1) by (simp add: schedule_ok_def schedule_Times_def)
  ultimately show ?thesis
    using assms by (simp add: NewSchedule_def schedule_ok_def sort_key_clock_id sorted_sort_id)
qed

end
