(* ===== verification/Ops_Laws.thy ===== *)
theory Ops_Laws
  imports Ops_Service Ops_Schedule
begin

text \<open>
  What a report means: its key, the runs that conform, and the evidence behind a job's status. Then the
  contract of the ledger (locale \<open>ledger_laws\<close>), whose abstract state is the set of stored runs, and
  what the service does over any ledger that keeps it (locale \<open>ledger_service_laws\<close>).
\<close>

section \<open>The order of reports\<close>

text \<open>A report of a finished run beats any report of a running one, and otherwise the later one wins.\<close>

definition run_key :: "run \<Rightarrow> bool \<times> time" where
  "run_key r = (run_IsTerminal r, ru_updated r)"

definition takes :: "report_outcome \<Rightarrow> bool" where
  "takes x \<longleftrightarrow> x = OutcomeCreated \<or> x = OutcomeUpdated"

lemma decide_takes: "takes (DecideReport old new) \<longleftrightarrow> (case old of None \<Rightarrow> True | Some r \<Rightarrow> run_key r < run_key new)"
  by (auto simp: takes_def DecideReport_def run_key_def split: option.split)

definition run_ok :: "run \<Rightarrow> bool" where
  "run_ok r \<longleftrightarrow> run_state_IsValid (ru_state r) \<and> (ru_finished r = None \<longleftrightarrow> ru_state r = RunRunning) \<and>
     (ru_complete r \<longrightarrow> ru_state r = RunSuccess \<or> ru_state r = RunWarning) \<and>
     ops_validateID ''job_id'' (ru_job r) = None \<and> ops_validateID ''run_id'' (ru_id r) = None"

lemma runFromReport_ok:
  assumes "runFromReport j i req raw now = Inr r"
  shows "run_ok r" "ru_job r = j" "ru_id r = i"
proof -
  from assms have valid: "ops_validateID ''job_id'' j = None" "ops_validateID ''run_id'' i = None" "run_state_IsValid (rr_state req)"
    and fin: "\<not> (rr_finished req \<noteq> None \<and> rr_state req = RunRunning)"
    and r: "ru_state r = report_state req" "ru_finished r = rr_finished req" "ru_complete r = report_complete req"
      "ru_job r = j" "ru_id r = i"
    by (auto simp: runFromReport_def split: if_split_asm option.split_asm)
  have "run_state_IsValid RunRunning" by (simp add: run_state_IsValid_def)
  with valid fin show "run_ok r"
    unfolding run_ok_def r by (auto simp: report_state_def report_complete_def Let_def split: if_split_asm)
  show "ru_job r = j" "ru_id r = i" by (rule r)+
qed

text \<open>What a report says, apart from what the ledger adds when it arrives.\<close>

definition run_content :: "run \<Rightarrow> run" where
  "run_content r = r\<lparr>ru_host := [], ru_received := 0, ru_count := 0\<rparr>"

definition report_content :: "string \<Rightarrow> string \<Rightarrow> run_report \<Rightarrow> string \<Rightarrow> run option" where
  "report_content j i req raw =
     (case runFromReport j i req raw 0 of Inl _ \<Rightarrow> None | Inr r \<Rightarrow> Some (run_content r))"

lemma run_content_fields [simp]:
  "run_content (r\<lparr>ru_host := h\<rparr>) = run_content r" "run_content (r\<lparr>ru_count := n\<rparr>) = run_content r"
  "run_key (run_content r) = run_key r"
  by (simp_all add: run_content_def run_key_def run_IsTerminal_def)

lemma runFromReport_content:
  "runFromReport j i req raw now = Inr r \<Longrightarrow> report_content j i req raw = Some (run_content r)"
  unfolding report_content_def runFromReport_def
  by (simp add: run_content_def split: if_split_asm option.split_asm) auto

section \<open>Evidence\<close>

definition run_rank :: "run \<Rightarrow> time \<times> string" where
  "run_rank r = (ru_started r, ru_id r)"

text \<open>The newest of the runs of a job that satisfy a condition, if there is one.\<close>

definition newest_of :: "run set \<Rightarrow> string \<Rightarrow> (run \<Rightarrow> bool) \<Rightarrow> run option \<Rightarrow> bool" where
  "newest_of R j P x \<longleftrightarrow>
     (case x of
        None \<Rightarrow> \<forall>r\<in>R. ru_job r = j \<longrightarrow> \<not> P r
      | Some r \<Rightarrow> r \<in> R \<and> ru_job r = j \<and> P r \<and> (\<forall>q\<in>R. ru_job q = j \<longrightarrow> P q \<longrightarrow> run_rank q \<le> run_rank r))"

definition judged_by :: "run set \<Rightarrow> string \<Rightarrow> job_runs \<Rightarrow> bool" where
  "judged_by R j x \<longleftrightarrow>
     newest_of R j (\<lambda>_. True) (jr_attempt x) \<and> newest_of R j is_started (jr_started x) \<and>
     newest_of R j is_finished (jr_finished x) \<and> newest_of R j is_success (jr_success x)"

lemma ok_evidence:
  assumes "jv_status (EvaluateJob env j runs now) = StatusOK"
  shows "jo_enabled j" and "\<exists>r. jr_attempt runs = Some r \<and> run_IsTerminal r"
    and "\<exists>r. jr_finished runs = Some r \<and> ru_state r \<noteq> RunFailed \<and> ru_state r \<noteq> RunWarning"
    and "jo_schedule j = Some s \<Longrightarrow> PreviousSlot s (now - sd_grace s) = Some slot \<Longrightarrow> coversSlot s slot (jr_started runs)"
  using assms unfolding EvaluateJob_def rollUp_def Let_def
  by (auto split: if_split_asm option.split_asm)

lemma EvaluateJob_job [simp]: "jv_job (EvaluateJob env j runs now) = j"
  by (simp add: EvaluateJob_def Let_def split: prod.split)

section \<open>The contract\<close>

definition runs_ok :: "run set \<Rightarrow> bool" where
  "runs_ok R \<longleftrightarrow> (\<forall>r\<in>R. run_ok r) \<and> (\<forall>r\<in>R. \<forall>q\<in>R. ru_job r = ru_job q \<longrightarrow> ru_id r = ru_id q \<longrightarrow> r = q)"

definition put_run :: "run option \<Rightarrow> run set \<Rightarrow> run set" where
  "put_run x R = (case x of None \<Rightarrow> R | Some r \<Rightarrow> insert r {q \<in> R. \<not> same_run (ru_job r) (ru_id r) q})"

locale ledger_laws =
  fixes store :: "'w ledger_store" and good :: "'w \<Rightarrow> bool" and view :: "'w \<Rightarrow> run set"
  assumes conforms: "good w \<Longrightarrow> runs_ok (view w)"
    and get_job: "good w \<Longrightarrow> ls_GetJob store j w = (gj, w') \<Longrightarrow>
      good w' \<and> view w' = view w \<and> (\<forall>k. gj = Inr k \<longrightarrow> jo_id k = j)"
    and get_run: "good w \<Longrightarrow> ls_GetRun store j i w = (gr, w') \<Longrightarrow>
      good w' \<and> view w' = view w \<and> (\<forall>r. gr = Inr r \<longrightarrow> r \<in> view w \<and> same_run j i r) \<and>
      (\<forall>e. gr = Inl e \<longrightarrow> errors_is e ErrRunNotFound \<longrightarrow> (\<forall>r\<in>view w. \<not> same_run j i r))"
    and get_check: "good w \<Longrightarrow> ls_GetVerification store j i w = (c, w') \<Longrightarrow> good w' \<and> view w' = view w"
    and save: "good w \<Longrightarrow> \<forall>r. x = Some r \<longrightarrow> run_ok r \<Longrightarrow> ls_SaveReport store implicit x vs w = (u, w') \<Longrightarrow>
      good w' \<and> view w' = (case u of Inl e \<Rightarrow> view w | Inr _ \<Rightarrow> put_run x (view w))"
    and load: "good w \<Longrightarrow> ls_LoadJobRuns store j w = (y, w') \<Longrightarrow>
      good w' \<and> view w' = view w \<and> (\<forall>runs. y = Inr runs \<longrightarrow> judged_by (view w) j runs)"
    and list_jobs: "good w \<Longrightarrow> ls_ListJobs store w = (z, w') \<Longrightarrow> good w' \<and> view w' = view w"
    and list_hosts: "good w \<Longrightarrow> ls_ListHosts store w = (hs, w') \<Longrightarrow> good w' \<and> view w' = view w"
    and upsert_job: "good w \<Longrightarrow> ls_UpsertJob store k w = (u, w') \<Longrightarrow> good w' \<and> view w' = view w"
    and upsert_host: "good w \<Longrightarrow> ls_UpsertHost store h w = (u, w') \<Longrightarrow> good w' \<and> view w' = view w"

section \<open>The service\<close>

lemma and_then_cases:
  assumes "and_then out k = (x, w')"
  obtains (fail) e where "out = (Inl e, w')" "x = Inl e" | (ok) y w where "out = (Inr y, w)" "k y w = (x, w')"
  using assms by (cases out; cases "fst out") (auto simp: and_then_def)

locale ledger_service_laws = ledger_laws store good view
  for store :: "'w ledger_store" and good :: "'w \<Rightarrow> bool" and view :: "'w \<Rightarrow> run set" +
  fixes s :: "'w ops_service"
  assumes store_of: "op_store s = store"
begin

text \<open>An operation that leaves the runs.\<close>

definition quiet :: "'w \<Rightarrow> (go_err + 'a) \<times> 'w \<Rightarrow> bool" where
  "quiet w out \<longleftrightarrow> good (snd out) \<and> view (snd out) = view w"

lemma quietI: "good w' \<Longrightarrow> view w' = view w \<Longrightarrow> quiet w (x, w')"
  by (simp add: quiet_def)

lemma quiet_here [simp]: "good w \<Longrightarrow> quiet w (x, w)"
  by (simp add: quiet_def)

lemma quiet_then:
  assumes "quiet w out" and "\<And>y w1. good w1 \<Longrightarrow> view w1 = view w \<Longrightarrow> quiet w1 (k y w1)"
  shows "quiet w (and_then out k)"
  using assms by (cases out; cases "fst out") (auto simp: quiet_def and_then_def)

lemma quiet_load: "good w \<Longrightarrow> quiet w (ls_LoadJobRuns store j w)"
  using load [of w j] by (cases "ls_LoadJobRuns store j w") (auto intro: quietI)

lemma quiet_upsert_job: "good w \<Longrightarrow> quiet w (ls_UpsertJob store k w)"
  using upsert_job [of w k] by (cases "ls_UpsertJob store k w") (auto intro: quietI)

lemma quiet_evaluate: "good w \<Longrightarrow> quiet w (op_evaluate s k now w)"
  unfolding op_evaluate_def store_of by (rule quiet_then [OF quiet_load]) simp_all

lemma evaluate_judged:
  assumes "good w" and "op_evaluate s k now w = (Inr v, w')"
  obtains runs where "judged_by (view w) (jo_id k) runs" "v = EvaluateJob (op_env s) k runs now" "good w'" "view w' = view w"
proof -
  from assms(2) obtain runs w1 where 1: "ls_LoadJobRuns store (jo_id k) w = (Inr runs, w1)"
    "v = EvaluateJob (op_env s) k runs now" "w' = w1"
    unfolding op_evaluate_def store_of by (auto elim!: and_then_cases)
  from load [OF assms(1) 1(1)] 1 show thesis by (intro that [of runs]) auto
qed

text \<open>Every view of a job is judged by the stored runs.\<close>

definition judged_view :: "run set \<Rightarrow> time \<Rightarrow> job_view \<Rightarrow> bool" where
  "judged_view R now v \<longleftrightarrow> (\<exists>runs. judged_by R (jo_id (jv_job v)) runs \<and> v = EvaluateJob (op_env s) (jv_job v) runs now)"

lemma evaluate_all_judged:
  "good w \<Longrightarrow> evaluate_all s now ks w = (Inr vs, w') \<Longrightarrow> v \<in> set vs \<Longrightarrow> judged_view (view w) now v"
proof (induction ks arbitrary: w w' vs)
  case (Cons k ks)
  from Cons.prems(2) obtain v0 w1 vs0 w2 where 1: "op_evaluate s k now w = (Inr v0, w1)"
    "evaluate_all s now ks w1 = (Inr vs0, w2)" "vs = v0 # vs0"
    by (auto elim!: and_then_cases)
  obtain runs where r: "judged_by (view w) (jo_id k) runs" "v0 = EvaluateJob (op_env s) k runs now" "good w1" "view w1 = view w"
    by (rule evaluate_judged [OF Cons.prems(1) 1(1)])
  show ?case
  proof (cases "v = v0")
    case True
    with r(1,2) show ?thesis by (auto simp: judged_view_def)
  next
    case False
    with Cons.prems(3) 1(3) have "v \<in> set vs0" by simp
    from Cons.IH [OF r(3) 1(2) this] r(4) show ?thesis by simp
  qed
qed simp

lemma jobs_judged:
  assumes "good w" and "op_Jobs s w = (Inr vs, w')" and "v \<in> set vs"
  shows "\<exists>w1. judged_view (view w) (op_now s w1) v"
proof -
  from assms(2) obtain ks w1 where 1: "ls_ListJobs store w = (Inr ks, w1)" "evaluate_all s (op_now s w1) ks w1 = (Inr vs, w')"
    unfolding op_Jobs_def store_of by (auto elim!: and_then_cases)
  from list_jobs [OF assms(1) 1(1)] evaluate_all_judged [OF _ 1(2) assms(3)] show ?thesis by auto
qed

text \<open>A job shown as fine has a success behind it.\<close>

lemma ok_view:
  assumes "runs_ok R" and "judged_view R now v" and "jv_status v = StatusOK"
  shows "\<exists>r\<in>R. ru_job r = jo_id (jv_job v) \<and> ru_state r = RunSuccess \<and> ru_finished r \<noteq> None \<and>
      (\<forall>q\<in>R. ru_job q = jo_id (jv_job v) \<longrightarrow> is_finished q \<longrightarrow> run_rank q \<le> run_rank r)"
    and "\<exists>r\<in>R. ru_job r = jo_id (jv_job v) \<and> run_IsTerminal r \<and> (\<forall>q\<in>R. ru_job q = jo_id (jv_job v) \<longrightarrow> run_rank q \<le> run_rank r)"
    and "\<And>sch slot. jo_schedule (jv_job v) = Some sch \<Longrightarrow> PreviousSlot sch (now - sd_grace sch) = Some slot \<Longrightarrow>
      \<exists>r\<in>R. ru_job r = jo_id (jv_job v) \<and> is_started r \<and> coversSlot sch slot (Some r)"
proof -
  from assms(2) obtain runs where j: "judged_by R (jo_id (jv_job v)) runs" "v = EvaluateJob (op_env s) (jv_job v) runs now"
    by (auto simp: judged_view_def)
  have st: "jv_status (EvaluateJob (op_env s) (jv_job v) runs now) = StatusOK" using assms(3) j(2) by simp
  note E = ok_evidence [OF st]
  from E(3) obtain r where r: "jr_finished runs = Some r" "ru_state r \<noteq> RunFailed" "ru_state r \<noteq> RunWarning" by blast
  with j(1) have n: "r \<in> R" "ru_job r = jo_id (jv_job v)" "is_finished r"
    "\<forall>q\<in>R. ru_job q = jo_id (jv_job v) \<longrightarrow> is_finished q \<longrightarrow> run_rank q \<le> run_rank r"
    by (simp_all add: judged_by_def newest_of_def)
  with assms(1) have "run_ok r" by (simp add: runs_ok_def)
  with n(3) r(2,3) have "ru_state r = RunSuccess"
    by (auto simp: run_ok_def run_state_IsValid_def is_finished_def RunSkipped_def)
  with n show "\<exists>r\<in>R. ru_job r = jo_id (jv_job v) \<and> ru_state r = RunSuccess \<and> ru_finished r \<noteq> None \<and>
      (\<forall>q\<in>R. ru_job q = jo_id (jv_job v) \<longrightarrow> is_finished q \<longrightarrow> run_rank q \<le> run_rank r)"
    by (auto simp: is_finished_def)
  from E(2) obtain a where "jr_attempt runs = Some a" "run_IsTerminal a" by blast
  with j(1) show "\<exists>r\<in>R. ru_job r = jo_id (jv_job v) \<and> run_IsTerminal r \<and> (\<forall>q\<in>R. ru_job q = jo_id (jv_job v) \<longrightarrow> run_rank q \<le> run_rank r)"
    by (auto simp: judged_by_def newest_of_def)
  show "\<exists>r\<in>R. ru_job r = jo_id (jv_job v) \<and> is_started r \<and> coversSlot sch slot (Some r)"
    if "jo_schedule (jv_job v) = Some sch" "PreviousSlot sch (now - sd_grace sch) = Some slot" for sch slot
  proof -
    from E(4) [OF that] obtain b where b: "jr_started runs = Some b" "coversSlot sch slot (Some b)"
      by (cases "jr_started runs") (auto simp: coversSlot_def)
    with j(1) show ?thesis by (auto simp: judged_by_def newest_of_def)
  qed
qed

text \<open>A report of a run: what it leaves in the ledger, and what its answer guarantees.\<close>

definition report_effect :: "string \<Rightarrow> string \<Rightarrow> run option \<Rightarrow> run set \<Rightarrow> run set \<Rightarrow> bool" where
  "report_effect j i content R R' \<longleftrightarrow>
     R' = R \<or> (\<exists>r. run_ok r \<and> same_run j i r \<and> content = Some (run_content r) \<and>
       (\<forall>q\<in>R. same_run j i q \<longrightarrow> run_key q < run_key r) \<and> R' = put_run (Some r) R)"

definition report_landed :: "string \<Rightarrow> string \<Rightarrow> run option \<Rightarrow> run set \<Rightarrow> bool" where
  "report_landed j i content R' \<longleftrightarrow>
     (\<exists>c q. content = Some c \<and> q \<in> R' \<and> same_run j i q \<and> run_key c \<le> run_key q)"

text \<open>The two reads before the decision.\<close>

lemma report_found:
  assumes "good w" and "(case ls_GetJob store j w of
        (Inr job, w1) \<Rightarrow> (Inr (None, job), w1)
      | (Inl e, w1) \<Rightarrow> if errors_is e ErrJobNotFound then (Inr (Some k, k), w1) else (Inl e, w1)) = (y, w')"
  shows "good w' \<and> view w' = view w"
  using assms get_job [OF assms(1), of j] by (auto split: prod.split_asm sum.split_asm if_split_asm)

lemma report_stored:
  assumes "good w" and "(case ls_GetRun store j i w of
        (Inr r, w2) \<Rightarrow> (Inr (Some r), w2)
      | (Inl e, w2) \<Rightarrow> if \<not> errors_is e ErrRunNotFound then (Inl e, w2) else (Inr None, w2)) = (y, w')"
  shows "good w' \<and> view w' = view w \<and> (\<forall>x. y = Inr x \<longrightarrow> (\<forall>q\<in>view w. same_run j i q \<longrightarrow> x = Some q) \<and>
    (\<forall>q. x = Some q \<longrightarrow> q \<in> view w \<and> same_run j i q))"
proof (cases "ls_GetRun store j i w")
  case (Pair g w2)
  note G = get_run [OF assms(1) Pair]
  have unique: "q = r" if "q \<in> view w" "r \<in> view w" "same_run j i q" "same_run j i r" for q r
    using conforms [OF assms(1)] that by (auto simp: runs_ok_def same_run_def)
  show ?thesis
  proof (cases g)
    case (Inl e)
    with assms(2) Pair G show ?thesis by (auto split: if_split_asm)
  next
    case (Inr r)
    with assms(2) Pair have "y = Inr (Some r)" "w' = w2" by auto
    with G Inr unique show ?thesis by auto
  qed
qed

lemma report_written:
  assumes "good w" and inc: "run_ok r" "same_run j i r"
    and old: "\<forall>q\<in>view w. same_run j i q \<longrightarrow> existing = Some q" "\<forall>q. existing = Some q \<longrightarrow> q \<in> view w \<and> same_run j i q"
    and out: "(if DecideReport existing r = OutcomeCreated \<or> DecideReport existing r = OutcomeUpdated then
            (let incoming = r\<lparr>ru_count := n\<rparr> in
             case embeddedVerifications m incoming req now of
               Inl e \<Rightarrow> (Inl e, w)
             | Inr vs \<Rightarrow> and_then (ls_SaveReport store implicit (Some incoming) vs w) (\<lambda>_ w. (Inr (Some incoming), w)))
            else (Inr existing, w)) = (y, w')"
  shows "good w'" and "report_effect j i (Some (run_content r)) (view w) (view w')"
    and "y = Inr z \<Longrightarrow> report_landed j i (Some (run_content r)) (view w')"
proof -
  let ?r = "r\<lparr>ru_count := n\<rparr>"
  have ok: "run_ok ?r" "same_run j i ?r" "run_content ?r = run_content r" "run_key ?r = run_key r"
    using inc by (simp_all add: run_ok_def same_run_def run_key_def run_IsTerminal_def)
  have "good w' \<and> report_effect j i (Some (run_content r)) (view w) (view w') \<and>
      (\<forall>z. y = Inr z \<longrightarrow> report_landed j i (Some (run_content r)) (view w'))"
  proof (cases "takes (DecideReport existing r)")
    case False
    then obtain q where q: "existing = Some q" "run_key r \<le> run_key q" unfolding decide_takes by (auto split: option.split_asm)
    from out False have "w' = w" by (simp add: takes_def)
    with assms(1) q old(2) show ?thesis by (auto simp: report_effect_def report_landed_def)
  next
    case True
    then have newer: "\<forall>q\<in>view w. same_run j i q \<longrightarrow> run_key q < run_key r"
      using old(1) by (auto simp: decide_takes)
    show ?thesis
    proof (cases "embeddedVerifications m ?r req now")
      case (Inl e)
      with out True assms(1) show ?thesis by (auto simp: takes_def report_effect_def)
    next
      case (Inr vs)
      obtain u w2 where sv: "ls_SaveReport store implicit (Some ?r) vs w = (u, w2)" by fastforce
      with out True Inr have w': "w' = w2" and y: "y = (case u of Inl e \<Rightarrow> Inl e | Inr _ \<Rightarrow> Inr (Some ?r))"
        by (auto simp: takes_def and_then_def split: sum.split_asm)
      have S: "good w2" "view w2 = (case u of Inl e \<Rightarrow> view w | Inr _ \<Rightarrow> put_run (Some ?r) (view w))"
        using save [OF assms(1) _ sv] ok(1) by auto
      show ?thesis
      proof (cases u)
        case (Inl e)
        with S w' y show ?thesis by (simp add: report_effect_def)
      next
        case (Inr v)
        then have "view w' = put_run (Some ?r) (view w)" using S w' by simp
        moreover from this have "?r \<in> view w'" by (simp add: put_run_def)
        ultimately show ?thesis using S w' ok newer unfolding report_effect_def report_landed_def
          by (intro conjI disjI2 allI impI exI [of _ ?r] exI [of _ "run_content r"]) simp_all
      qed
    qed
  qed
  then show "good w'" "report_effect j i (Some (run_content r)) (view w) (view w')"
    "y = Inr z \<Longrightarrow> report_landed j i (Some (run_content r)) (view w')" by blast+
qed

lemma report_run:
  assumes "good w" and "op_ReportRun s j i req raw w = (x, w')"
  shows "good w'" and "report_effect j i (report_content j i req raw) (view w) (view w')"
    and "x = Inr y \<Longrightarrow> report_landed j i (report_content j i req raw) (view w')"
proof -
  let ?G = "good w' \<and> report_effect j i (report_content j i req raw) (view w) (view w') \<and>
    (\<forall>y. x = Inr y \<longrightarrow> report_landed j i (report_content j i req raw) (view w'))"
  define now where "now = op_now s w"
  have "?G"
  proof (cases "runFromReport j i req raw now")
    case (Inl e)
    with assms show ?thesis by (auto simp: op_ReportRun_def now_def Let_def report_effect_def)
  next
    case (Inr r0)
    note R = runFromReport_ok [OF Inr] and C = runFromReport_content [OF Inr]
    show ?thesis
      using assms(2) unfolding op_ReportRun_def Let_def now_def [symmetric] Inr sum.case store_of
    proof (rule and_then_cases, goal_cases)
      case (1 e)
      from report_found [OF assms(1) 1(1)] 1(2) show ?case by (simp add: report_effect_def)
    next
      case (2 y w1)
      obtain implicit job where y: "y = (implicit, job)" by (cases y)
      note F = report_found [OF assms(1) 2(1)]
      define r where "r = (if ru_host r0 = [] then r0\<lparr>ru_host := jo_host job\<rparr> else r0)"
      have r: "run_ok r" "same_run j i r" "run_content r = run_content r0"
        using R by (simp_all add: r_def run_ok_def same_run_def)
      show ?case
        using 2(2) unfolding y prod.case r_def [symmetric]
      proof (rule and_then_cases, goal_cases)
        case (1 e)
        from report_stored [OF _ 1(1)] 1(2) F show ?case by (simp add: report_effect_def)
      next
        case (2 existing w2)
        note T = report_stored [OF F [THEN conjunct1] 2(1)]
        have v: "view w2 = view w1" "view w1 = view w" using T F by blast+
        have T': "good w2" "view w2 = view w" "\<forall>q\<in>view w2. same_run j i q \<longrightarrow> existing = Some q"
          "\<forall>q. existing = Some q \<longrightarrow> q \<in> view w2 \<and> same_run j i q" unfolding v(1) using T v by blast+
        show ?case
          using 2(2)
        proof (rule and_then_cases, goal_cases)
          case (1 e)
          from report_written [unfolded Let_def, OF T'(1) r(1,2) T'(3,4) 1(1)] 1(2) C r(3) T'(2) show ?case by simp
        next
          case (2 z w3)
          from report_written [unfolded Let_def, OF T'(1) r(1,2) T'(3,4) 2(1)] C r(3) T'(2)
          have W: "good w3" "report_effect j i (report_content j i req raw) (view w) (view w3)"
            "report_landed j i (report_content j i req raw) (view w3)" by simp_all
          have "quiet w3 (x, w')"
            unfolding 2(2) [symmetric] by (rule quiet_then [OF quiet_evaluate [OF W(1)]]) simp
          with W show ?case by (simp add: quiet_def)
        qed
      qed
    qed
  qed
  then show "good w'" "report_effect j i (report_content j i req raw) (view w) (view w')"
    "x = Inr y \<Longrightarrow> report_landed j i (report_content j i req raw) (view w')" by blast+
qed

end

end
