(* ===== verification/Ops_System.thy ===== *)
theory Ops_System
  imports Ops_Laws
begin

text \<open>
  The ledger in SQLite keeps the contract under every schedule of driver failures, and the states that
  requests reach.
\<close>

section \<open>Transactions and queries\<close>

fun stmts_effect :: "(string \<times> ('d, unit) stmt) list \<Rightarrow> 'd \<Rightarrow> 'd option" where
  "stmts_effect [] d = Some d"
| "stmts_effect ((ctx, q) # work) d = (case q d of None \<Rightarrow> None | Some (_, d') \<Rightarrow> stmts_effect work d')"

lemma exec_all_Inr: "exec_all work db = (Inr u, db') \<Longrightarrow> stmts_effect work (pg_data db) = Some (pg_data db')"
proof (induction work arbitrary: db)
  case (Cons cq work)
  obtain ctx q where cq: "cq = (ctx, q)" by (cases cq)
  show ?case
  proof (cases q db rule: pg_call_cases)
    case (fail db1)
    with Cons.prems cq show ?thesis by simp
  next
    case (ok x db1)
    with Cons.prems cq have "exec_all work db1 = (Inr u, db')" by simp
    with Cons.IH ok(2) cq show ?thesis by simp
  qed
qed simp

lemma inTx_result:
  assumes "inTx work db = (u, db')"
  shows "u = Inl e \<Longrightarrow> pg_data db' = pg_data db" and "u = Inr v \<Longrightarrow> stmts_effect work (pg_data db) = Some (pg_data db')"
proof -
  obtain b db0 where b: "pg_call (read_only (\<lambda>_. ())) db = (b, db0)" by fastforce
  then have d0: "pg_data db0 = pg_data db" using pg_call_read_only [of "\<lambda>_. ()" db] by simp
  obtain y db1 where y: "exec_all work db0 = (y, db1)" by fastforce
  obtain c db2 where c: "pg_call (read_only (\<lambda>_. ())) db1 = (c, db2)" by fastforce
  then have d2: "pg_data db2 = pg_data db1" using pg_call_read_only [of "\<lambda>_. ()" db1] by simp
  from assms b d0 y c show "pg_data db' = pg_data db" if "u = Inl e"
    using that by (auto simp: inTx_def split: sum.split_asm)
  from assms b d0 y c d2 exec_all_Inr [of work db0] show "stmts_effect work (pg_data db) = Some (pg_data db')" if "u = Inr v"
    using that by (auto simp: inTx_def split: sum.split_asm)
qed

lemma query_all_reads:
  assumes "query_all ctx q scan db = (x, db')"
  shows "pg_data db' = pg_data db" and "x = Inr xs \<Longrightarrow> scan_all scan (q (pg_data db)) = Inr xs"
proof -
  have "pg_data db' = pg_data db \<and> (\<forall>xs. x = Inr xs \<longrightarrow> scan_all scan (q (pg_data db)) = Inr xs)"
  proof (cases "read_only q" db rule: pg_call_cases)
    case (fail db1)
    with assms show ?thesis by (auto simp: query_all_def)
  next
    case (ok rs db1)
    then have rs: "rs = q (pg_data db)" "pg_data db1 = pg_data db" by (auto simp: read_only_def)
    obtain c db2 where c: "pg_call (read_only (\<lambda>_. ())) db1 = (c, db2)" by fastforce
    then have "pg_data db2 = pg_data db1" using pg_call_read_only [of "\<lambda>_. ()" db1] by simp
    with assms ok(1) rs c show ?thesis by (auto simp: query_all_def split: sum.split_asm)
  qed
  then show "pg_data db' = pg_data db" "x = Inr xs \<Longrightarrow> scan_all scan (q (pg_data db)) = Inr xs" by blast+
qed

lemma scan_all_id [simp]: "scan_all Inr rs = Inr rs"
  by (induction rs) auto

section \<open>The newest runs\<close>

lemma set_newest_runs: "set (newest_runs j P d) = {r \<in> set (od_runs d). ru_job r = j \<and> P r}"
  by (auto simp: newest_runs_def)

lemma newest_first:
  assumes "newest_runs j P d = r # rs" and "q \<in> set (od_runs d)" and "ru_job q = j" and "P q"
  shows "run_rank q \<le> run_rank r"
proof -
  have "sorted (map run_rank (rev (newest_runs j P d)))"
    unfolding newest_runs_def run_rank_def by simp
  moreover have "q \<in> set (r # rs)" using assms set_newest_runs [of j P d] by auto
  ultimately show ?thesis unfolding assms(1) by (auto simp: sorted_append)
qed

lemma firstRun_newest:
  assumes "firstRun j P db = (x, db')"
  shows "pg_data db' = pg_data db" and "x = Inr y \<Longrightarrow> newest_of (set (od_runs (pg_data db))) j P y"
proof -
  obtain v db1 where q: "queryRuns (\<lambda>d. limit_rows 1 (newest_runs j P d)) db = (v, db1)" by fastforce
  note Q = query_all_reads [OF q [unfolded queryRuns_def]]
  have x: "x = (case v of Inl e \<Rightarrow> Inl e | Inr [] \<Rightarrow> Inr None | Inr (r # rs) \<Rightarrow> Inr (Some r))" "db' = db1"
    using assms q by (auto simp: firstRun_def split: sum.split_asm list.split_asm)
  show "pg_data db' = pg_data db" using x(2) Q(1) by simp
  show "newest_of (set (od_runs (pg_data db))) j P y" if y: "x = Inr y"
  proof (cases "newest_runs j P (pg_data db)")
    case Nil
    then have "v = Inr [] \<or> (\<exists>e. v = Inl e)" using Q(2) by (cases v) (auto simp: limit_rows_def)
    with x(1) y have "y = None" by auto
    with Nil set_newest_runs [of j P "pg_data db"] show ?thesis by (auto simp: newest_of_def)
  next
    case (Cons r rs)
    then have "v = Inr [r] \<or> (\<exists>e. v = Inl e)" using Q(2) by (cases v) (auto simp: limit_rows_def)
    with x(1) y have yr: "y = Some r" by auto
    have "r \<in> set (newest_runs j P (pg_data db))" using Cons by simp
    then have "r \<in> set (od_runs (pg_data db)) \<and> ru_job r = j \<and> P r" unfolding set_newest_runs by simp
    with newest_first [OF Cons] yr show ?thesis by (simp add: newest_of_def)
  qed
qed

lemma latest_frame: "latestVerification j kind db = (x, db') \<Longrightarrow> pg_data db' = pg_data db"
  unfolding latestVerification_def queryVerifications_def
  by (auto split: prod.split_asm sum.split_asm list.split_asm dest: query_all_reads(1))

text \<open>A step that reads, with what it answers.\<close>

definition reads :: "ops_tables pg \<Rightarrow> ('a \<Rightarrow> bool) \<Rightarrow> (go_err + 'a) \<times> ops_tables pg \<Rightarrow> bool" where
  "reads db Q out \<longleftrightarrow> pg_data (snd out) = pg_data db \<and> (\<forall>x. fst out = Inr x \<longrightarrow> Q x)"

lemma reads_then:
  assumes "reads db P out" and "\<And>y db1. pg_data db1 = pg_data db \<Longrightarrow> P y \<Longrightarrow> reads db1 Q (k y db1)"
  shows "reads db Q (and_then out k)"
  using assms by (cases out; cases "fst out") (auto simp: reads_def and_then_def)

lemma reads_first: "reads db (newest_of (set (od_runs (pg_data db))) j P) (firstRun j P db)"
  using firstRun_newest [of j P db] by (cases "firstRun j P db") (auto simp: reads_def)

lemma reads_latest: "reads db (\<lambda>_. True) (latestVerification j kind db)"
  using latest_frame [of j kind db] by (cases "latestVerification j kind db") (auto simp: reads_def)

lemma reads_load: "reads db (judged_by (set (od_runs (pg_data db))) j) (ol_LoadJobRuns j db)"
  unfolding ol_LoadJobRuns_def
  by (rule reads_then reads_first reads_latest)+ (simp add: reads_def judged_by_def)

lemma load_judged:
  assumes "ol_LoadJobRuns j db = (x, db')"
  shows "pg_data db' = pg_data db" and "x = Inr runs \<Longrightarrow> judged_by (set (od_runs (pg_data db))) j runs"
  using reads_load [of db j] unfolding assms reads_def by simp_all

section \<open>The ledger\<close>

definition ledger_inv :: "ops_tables \<Rightarrow> bool" where
  "ledger_inv d \<longleftrightarrow> distinct (map (\<lambda>r. (ru_job r, ru_id r)) (od_runs d)) \<and> (\<forall>r\<in>set (od_runs d). run_ok r)"

definition ledger_good :: "ops_tables pg \<Rightarrow> bool" where
  "ledger_good db \<longleftrightarrow> ledger_inv (pg_data db)"

definition ledger_view :: "ops_tables pg \<Rightarrow> run set" where
  "ledger_view db = set (od_runs (pg_data db))"

lemma ledger_runs_ok: "ledger_inv d \<Longrightarrow> runs_ok (set (od_runs d))"
  by (auto simp: ledger_inv_def runs_ok_def distinct_map inj_on_def)

lemma save_checks: "stmts_effect (map saveVerification vs) d = Some d' \<Longrightarrow> od_runs d' = od_runs d"
proof (induction vs arbitrary: d)
  case (Cons v vs)
  then show ?case
    by (auto simp: saveVerification_def saveVerificationSQL_def split: if_split_asm option.split_asm)
qed simp

lemma upsert_keeps: "upsertJobSQL k d = Some (u, d') \<Longrightarrow> od_runs d' = od_runs d"
  by (auto simp: upsertJobSQL_def)

lemma upsert_host_keeps: "upsertHostSQL k d = Some (u, d') \<Longrightarrow> od_runs d' = od_runs d"
  by (auto simp: upsertHostSQL_def)

lemma stmts_append: "stmts_effect (a @ b) d = (case stmts_effect a d of None \<Rightarrow> None | Some d1 \<Rightarrow> stmts_effect b d1)"
  by (induction a d rule: stmts_effect.induct) (auto split: option.split)

lemma save_report:
  assumes inv: "ledger_inv (pg_data db)" and ok: "\<forall>r. x = Some r \<longrightarrow> run_ok r" and out: "ol_SaveReport implicit x vs db = (u, db')"
  shows "ledger_inv (pg_data db') \<and>
    set (od_runs (pg_data db')) = (case u of Inl e \<Rightarrow> set (od_runs (pg_data db)) | Inr _ \<Rightarrow> put_run x (set (od_runs (pg_data db))))"
proof (cases u)
  case (Inl e)
  with inTx_result(1) [OF out [unfolded ol_SaveReport_def]] inv show ?thesis by simp
next
  case (Inr v)
  let ?d = "pg_data db"
  from inTx_result(2) [OF out [unfolded ol_SaveReport_def] Inr] obtain d1 d2 where
    1: "stmts_effect (case implicit of None \<Rightarrow> [] | Some j \<Rightarrow> [upsertJob j]) ?d = Some d1" and
    2: "stmts_effect (case x of None \<Rightarrow> [] | Some r \<Rightarrow> [saveRun r]) d1 = Some d2" and
    3: "stmts_effect (map saveVerification vs) d2 = Some (pg_data db')"
    by (auto simp: stmts_append split: option.split_asm)
  have r1: "od_runs d1 = od_runs ?d"
    using 1 by (auto simp: upsertJob_def dest: upsert_keeps split: option.split_asm)
  have r3: "od_runs (pg_data db') = od_runs d2" by (rule save_checks [OF 3])
  show ?thesis
  proof (cases x)
    case None
    with 2 r1 r3 inv Inr show ?thesis by (simp add: ledger_inv_def put_run_def)
  next
    case (Some r)
    have "od_runs d2 = filter (\<lambda>q. \<not> same_run (ru_job r) (ru_id r) q) (od_runs d1) @ [r]"
      using 2 Some by (auto simp: saveRun_def saveRunSQL_def split: if_split_asm)
    with r1 r3 have runs: "od_runs (pg_data db') = filter (\<lambda>q. \<not> same_run (ru_job r) (ru_id r) q) (od_runs ?d) @ [r]" by simp
    from inv ok Some have "ledger_inv (pg_data db')"
      unfolding ledger_inv_def runs by (auto simp: distinct_map_filter same_run_def)
    with Inr Some show ?thesis by (auto simp: runs put_run_def)
  qed
qed

lemma get_run_result:
  assumes "ol_GetRun j i db = (x, db')"
  shows "pg_data db' = pg_data db" and "x = Inr r \<Longrightarrow> r \<in> set (od_runs (pg_data db)) \<and> same_run j i r"
    and "x = Inl e \<Longrightarrow> errors_is e ErrRunNotFound \<Longrightarrow> \<forall>r\<in>set (od_runs (pg_data db)). \<not> same_run j i r"
proof -
  have "pg_data db' = pg_data db \<and> (\<forall>r. x = Inr r \<longrightarrow> r \<in> set (od_runs (pg_data db)) \<and> same_run j i r) \<and>
      (\<forall>e. x = Inl e \<longrightarrow> errors_is e ErrRunNotFound \<longrightarrow> (\<forall>r\<in>set (od_runs (pg_data db)). \<not> same_run j i r))"
  proof (cases "read_only (\<lambda>d::ops_tables. find (same_run j i) (od_runs d))" db rule: pg_call_cases)
    case (fail db1)
    with assms show ?thesis by (auto simp: ol_GetRun_def ErrRunNotFound_def ops_error_def)
  next
    case (ok y db1)
    then have y: "y = find (same_run j i) (od_runs (pg_data db))" "pg_data db1 = pg_data db" by (auto simp: read_only_def)
    show ?thesis
    proof (cases y)
      case None
      then have "\<forall>r\<in>set (od_runs (pg_data db)). \<not> same_run j i r" using y(1) by (metis find_None_iff)
      with None assms ok(1) y(2) show ?thesis by (auto simp: ol_GetRun_def)
    next
      case (Some r)
      with y(1) have "r \<in> set (od_runs (pg_data db))" "same_run j i r" by (metis find_Some_iff nth_mem)+
      with assms ok(1) y(2) Some show ?thesis by (auto simp: ol_GetRun_def)
    qed
  qed
  then show "pg_data db' = pg_data db" "x = Inr r \<Longrightarrow> r \<in> set (od_runs (pg_data db)) \<and> same_run j i r"
    "x = Inl e \<Longrightarrow> errors_is e ErrRunNotFound \<Longrightarrow> \<forall>r\<in>set (od_runs (pg_data db)). \<not> same_run j i r" by blast+
qed

lemma scanJob_id: "scanJob env r = Inr k \<Longrightarrow> jo_id k = jw_id r"
  by (auto simp: scanJob_def Let_def split: option.split_asm sum.split_asm)

lemma get_job_result:
  assumes "ol_GetJob env j db = (x, db')"
  shows "pg_data db' = pg_data db" and "x = Inr k \<Longrightarrow> jo_id k = j"
proof -
  have "pg_data db' = pg_data db \<and> (\<forall>k. x = Inr k \<longrightarrow> jo_id k = j)"
  proof (cases "read_only (\<lambda>d::ops_tables. row_lookup jw_id j (od_jobs d))" db rule: pg_call_cases)
    case (fail db1)
    with assms show ?thesis by (auto simp: ol_GetJob_def)
  next
    case (ok y db1)
    then have y: "y = row_lookup jw_id j (od_jobs (pg_data db))" "pg_data db1 = pg_data db" by (auto simp: read_only_def)
    show ?thesis
    proof (cases y)
      case None
      with assms ok(1) y(2) show ?thesis by (auto simp: ol_GetJob_def)
    next
      case (Some r)
      with y(1) have "jw_id r = j" by (metis row_lookup_Some)
      moreover have "x = scanJob env r" "db' = db1" using assms ok(1) Some by (simp_all add: ol_GetJob_def)
      ultimately show ?thesis using y(2) scanJob_id [of env r] by auto
    qed
  qed
  then show "pg_data db' = pg_data db" "x = Inr k \<Longrightarrow> jo_id k = j" by blast+
qed

lemma get_check_frame: "ol_GetVerification j i db = (x, db') \<Longrightarrow> pg_data db' = pg_data db"
  unfolding ol_GetVerification_def queryVerifications_def
  by (auto split: prod.split_asm sum.split_asm list.split_asm dest: query_all_reads(1))

lemma list_frames:
  "ol_ListJobs env db = (x, db') \<Longrightarrow> pg_data db' = pg_data db" "ol_ListHosts db = (y, db') \<Longrightarrow> pg_data db' = pg_data db"
  by (auto simp: ol_ListJobs_def ol_ListHosts_def dest: query_all_reads(1))

lemma upsert_frames:
  "ol_UpsertJob k db = (u, db') \<Longrightarrow> od_runs (pg_data db') = od_runs (pg_data db)"
  "ol_UpsertHost h db = (u, db') \<Longrightarrow> od_runs (pg_data db') = od_runs (pg_data db)"
proof -
  show "od_runs (pg_data db') = od_runs (pg_data db)" if "ol_UpsertJob k db = (u, db')"
  proof (cases u)
    case (Inl e)
    from inTx_result(1) [OF that [unfolded ol_UpsertJob_def] Inl] show ?thesis by simp
  next
    case (Inr v)
    from inTx_result(2) [OF that [unfolded ol_UpsertJob_def] Inr] obtain y where
      "upsertJobSQL k (pg_data db) = Some (y, pg_data db')" by (auto simp: upsertJob_def split: option.split_asm)
    then show ?thesis by (rule upsert_keeps)
  qed
  show "od_runs (pg_data db') = od_runs (pg_data db)" if "ol_UpsertHost h db = (u, db')"
  proof (cases "upsertHostSQL h" db rule: pg_call_cases)
    case (fail db1)
    with that show ?thesis by (auto simp: ol_UpsertHost_def)
  next
    case (ok x db1)
    with that have "db1 = db'" by (simp add: ol_UpsertHost_def)
    with upsert_host_keeps [OF ok(2)] show ?thesis by simp
  qed
qed

lemma same_runs: "od_runs (pg_data db') = od_runs (pg_data db) \<Longrightarrow> ledger_good db \<Longrightarrow> ledger_good db' \<and> ledger_view db' = ledger_view db"
  by (simp add: ledger_good_def ledger_view_def ledger_inv_def)

interpretation sqlite: ledger_laws "sqlite_store env" ledger_good ledger_view for env
proof unfold_locales
  show "runs_ok (ledger_view w)" if "ledger_good w" for w
    using that ledger_runs_ok by (simp add: ledger_good_def ledger_view_def)
  show "ledger_good w' \<and> ledger_view w' = ledger_view w \<and> (\<forall>k. gj = Inr k \<longrightarrow> jo_id k = j)"
    if "ledger_good w" "ls_GetJob (sqlite_store env) j w = (gj, w')" for w j gj w'
  proof -
    from that(2) have "ol_GetJob env j w = (gj, w')" by (simp add: sqlite_store_def)
    note G = get_job_result [OF this]
    then show ?thesis using same_runs [of w' w] that(1) by simp
  qed
  show "ledger_good w' \<and> ledger_view w' = ledger_view w \<and> (\<forall>r. gr = Inr r \<longrightarrow> r \<in> ledger_view w \<and> same_run j i r) \<and>
      (\<forall>e. gr = Inl e \<longrightarrow> errors_is e ErrRunNotFound \<longrightarrow> (\<forall>r\<in>ledger_view w. \<not> same_run j i r))"
    if "ledger_good w" "ls_GetRun (sqlite_store env) j i w = (gr, w')" for w j i gr w'
  proof -
    from that(2) have "ol_GetRun j i w = (gr, w')" by (simp add: sqlite_store_def)
    note G = get_run_result [OF this]
    have "ledger_good w' \<and> ledger_view w' = ledger_view w" by (rule same_runs [OF arg_cong [where f = od_runs, OF G(1)] that(1)])
    with G(2,3) show ?thesis unfolding ledger_view_def by blast
  qed
  show "ledger_good w' \<and> ledger_view w' = (case u of Inl e \<Rightarrow> ledger_view w | Inr _ \<Rightarrow> put_run x (ledger_view w))"
    if "ledger_good w" "\<forall>r. x = Some r \<longrightarrow> run_ok r" "ls_SaveReport (sqlite_store env) implicit x vs w = (u, w')" for w x implicit vs u w'
    using save_report [of w x implicit vs u w'] that by (simp add: sqlite_store_def ledger_good_def ledger_view_def split: sum.split)
  show "ledger_good w' \<and> ledger_view w' = ledger_view w \<and> (\<forall>runs. y = Inr runs \<longrightarrow> judged_by (ledger_view w) j runs)"
    if "ledger_good w" "ls_LoadJobRuns (sqlite_store env) j w = (y, w')" for w j y w'
  proof -
    from that(2) have "ol_LoadJobRuns j w = (y, w')" by (simp add: sqlite_store_def)
    note G = load_judged [OF this]
    have "ledger_good w' \<and> ledger_view w' = ledger_view w" by (rule same_runs [OF arg_cong [where f = od_runs, OF G(1)] that(1)])
    with G(2) show ?thesis unfolding ledger_view_def by blast
  qed
  show "ledger_good w' \<and> ledger_view w' = ledger_view w"
    if "ledger_good w" "ls_GetVerification (sqlite_store env) j i w = (c, w')" for w j i c w'
    by (rule same_runs [OF arg_cong [where f = od_runs, OF get_check_frame] that(1)]) (use that(2) in \<open>simp add: sqlite_store_def\<close>)
  show "ledger_good w' \<and> ledger_view w' = ledger_view w" if "ledger_good w" "ls_ListJobs (sqlite_store env) w = (z, w')" for w z w'
    by (rule same_runs [OF arg_cong [where f = od_runs, OF list_frames(1)] that(1)]) (use that(2) in \<open>simp add: sqlite_store_def\<close>)
  show "ledger_good w' \<and> ledger_view w' = ledger_view w" if "ledger_good w" "ls_ListHosts (sqlite_store env) w = (hs, w')" for w hs w'
    by (rule same_runs [OF arg_cong [where f = od_runs, OF list_frames(2)] that(1)]) (use that(2) in \<open>simp add: sqlite_store_def\<close>)
  show "ledger_good w' \<and> ledger_view w' = ledger_view w" if "ledger_good w" "ls_UpsertJob (sqlite_store env) k w = (u, w')" for w k u w'
    by (rule same_runs [OF _ that(1)], rule upsert_frames(1)) (use that(2) in \<open>simp add: sqlite_store_def\<close>)
  show "ledger_good w' \<and> ledger_view w' = ledger_view w" if "ledger_good w" "ls_UpsertHost (sqlite_store env) h w = (u, w')" for w h u w'
    by (rule same_runs [OF _ that(1)], rule upsert_frames(2)) (use that(2) in \<open>simp add: sqlite_store_def\<close>)
qed

section \<open>Requests\<close>

datatype ops_request =
    RegisterHostRequest string host_request
  | RegisterJobRequest string job_request
  | ReportRunRequest string string run_report string
  | ReportVerificationRequest string string verification_report string

definition outcome_of :: "(go_err + 'a) \<times> 'w \<Rightarrow> go_err option \<times> 'w" where
  "outcome_of x = (case fst x of Inl e \<Rightarrow> Some e | Inr _ \<Rightarrow> None, snd x)"

definition ops_serve :: "'w ops_service \<Rightarrow> ops_request \<Rightarrow> 'w \<Rightarrow> go_err option \<times> 'w" where
  "ops_serve s q w =
     (case q of
        RegisterHostRequest i r \<Rightarrow> outcome_of (op_RegisterHost s i r w)
      | RegisterJobRequest i r \<Rightarrow> outcome_of (op_RegisterJob s i r w)
      | ReportRunRequest j i r raw \<Rightarrow> outcome_of (op_ReportRun s j i r raw w)
      | ReportVerificationRequest j i r raw \<Rightarrow> outcome_of (op_ReportVerification s j i r raw w))"

context ledger_service_laws
begin

lemma quiet_outcome: "quiet w out \<Longrightarrow> outcome_of out = (e, w') \<Longrightarrow> good w' \<and> view w' = view w"
  by (auto simp: quiet_def outcome_of_def)

lemma quiet_list_hosts: "good w \<Longrightarrow> quiet w (ls_ListHosts store w)"
  using list_hosts [of w] by (cases "ls_ListHosts store w") (auto intro: quietI)

lemma quiet_upsert_host: "good w \<Longrightarrow> quiet w (ls_UpsertHost store h w)"
  using upsert_host [of w h] by (cases "ls_UpsertHost store h w") (auto intro: quietI)

lemma quiet_save_checks: "good w \<Longrightarrow> quiet w (ls_SaveReport store None None vs w)"
  using save [of w None None vs]
  by (cases "ls_SaveReport store None None vs w"; cases "fst (ls_SaveReport store None None vs w)")
    (auto intro: quietI simp: put_run_def)

lemma quiet_register_host: "good w \<Longrightarrow> quiet w (op_RegisterHost s i r w)"
  unfolding op_RegisterHost_def store_of Let_def
  by (auto split: option.split intro!: quiet_then quiet_list_hosts quiet_upsert_host)

lemma quiet_upsert_evaluate:
  "good w \<Longrightarrow> quiet w (and_then (ls_UpsertJob store j w) (\<lambda>_ w. op_evaluate s j now w))"
  by (rule quiet_then [OF quiet_upsert_job]) (simp_all add: quiet_evaluate)

lemma quiet_cong: "good w1 \<Longrightarrow> view w1 = view w \<Longrightarrow> quiet w1 out \<Longrightarrow> quiet w out"
  by (simp add: quiet_def)

lemma quiet_register_job:
  assumes "good w"
  shows "quiet w (op_RegisterJob s i r w)"
proof -
  obtain x w1 where x: "ls_GetJob store i w = (x, w1)" by fastforce
  with get_job [OF assms x] have "good w1" "view w1 = view w" by blast+
  note K = quiet_cong [OF this quiet_upsert_evaluate [OF this(1)]] and Q = quietI [OF this]
  show ?thesis
    unfolding op_RegisterJob_def store_of Let_def x prod.case
    using assms by (simp add: K Q split: option.split sum.split)
qed

lemma quiet_report_check:
  assumes "good w"
  shows "quiet w (op_ReportVerification s j i r raw w)"
proof -
  obtain x w1 where x: "ls_GetJob store j w = (x, w1)" by fastforce
  from get_job [OF assms x] have 1: "good w1" "view w1 = view w" by blast+
  obtain y w2 where y: "ls_GetVerification store j i w1 = (y, w2)" by fastforce
  from get_check [OF 1(1) y] 1(2) have 2: "good w2" "view w2 = view w" by simp_all
  have "quiet w2 (and_then (ls_SaveReport store None None [v] w2) (\<lambda>_ w. (Inr (out, v), w)))" for v and out :: report_outcome
    by (rule quiet_then [OF quiet_save_checks [OF 2(1)]]) simp
  note K = quiet_cong [OF 2 this]
  show ?thesis
    unfolding op_ReportVerification_def store_of Let_def x y prod.case
    using assms by (simp add: K quietI [OF 1] quietI [OF 2] split: option.split sum.split)
qed

lemma serve_step:
  assumes "good w" and "ops_serve s q w = (e, w')"
  shows "good w'"
    and "q = ReportRunRequest j i r raw \<Longrightarrow> report_effect j i (report_content j i r raw) (view w) (view w') \<and>
      (e = None \<longrightarrow> report_landed j i (report_content j i r raw) (view w'))"
    and "\<forall>j i r raw. q \<noteq> ReportRunRequest j i r raw \<Longrightarrow> view w' = view w"
proof -
  have "good w' \<and> (\<forall>j i r raw. q = ReportRunRequest j i r raw \<longrightarrow> report_effect j i (report_content j i r raw) (view w) (view w') \<and>
      (e = None \<longrightarrow> report_landed j i (report_content j i r raw) (view w'))) \<and>
    ((\<forall>j i r raw. q \<noteq> ReportRunRequest j i r raw) \<longrightarrow> view w' = view w)"
  proof (cases q)
    case (RegisterHostRequest i r)
    with quiet_outcome [OF quiet_register_host [OF assms(1)]] assms(2) show ?thesis by (simp add: ops_serve_def)
  next
    case (RegisterJobRequest i r)
    with quiet_outcome [OF quiet_register_job [OF assms(1)]] assms(2) show ?thesis by (simp add: ops_serve_def)
  next
    case (ReportVerificationRequest j i r raw)
    with quiet_outcome [OF quiet_report_check [OF assms(1)]] assms(2) show ?thesis by (simp add: ops_serve_def)
  next
    case (ReportRunRequest j i r raw)
    obtain x w1 where x: "op_ReportRun s j i r raw w = (x, w1)" by fastforce
    with assms(2) ReportRunRequest have w: "w' = w1" "e = (case x of Inl e \<Rightarrow> Some e | Inr _ \<Rightarrow> None)"
      by (simp_all add: ops_serve_def outcome_of_def)
    note R = report_run [OF assms(1) x]
    show ?thesis
    proof (cases x)
      case (Inl d)
      with R w ReportRunRequest show ?thesis by simp
    next
      case (Inr y)
      with R(1,2) R(3) [OF Inr] w ReportRunRequest show ?thesis by simp
    qed
  qed
  then show "good w'" "q = ReportRunRequest j i r raw \<Longrightarrow> report_effect j i (report_content j i r raw) (view w) (view w') \<and>
      (e = None \<longrightarrow> report_landed j i (report_content j i r raw) (view w'))"
    "\<forall>j i r raw. q \<noteq> ReportRunRequest j i r raw \<Longrightarrow> view w' = view w" by blast+
qed

end

section \<open>The whole service\<close>

text \<open>A request is handled at the instant \<open>n\<close>.\<close>

definition sqlite_service :: "ops_env \<Rightarrow> duration \<Rightarrow> (verification_report \<Rightarrow> string) \<Rightarrow> time \<Rightarrow> ops_tables pg ops_service" where
  "sqlite_service env stale m n =
     \<lparr>op_store = sqlite_store env, op_now = (\<lambda>_. n), op_stale_after = stale, op_env = env, op_marshal = m\<rparr>"

interpretation sqlite_ops: ledger_service_laws "sqlite_store env" ledger_good ledger_view "sqlite_service env stale m n"
  for env stale m n
  by unfold_locales (simp add: sqlite_service_def)

definition empty_ledger :: ops_tables where
  "empty_ledger = \<lparr>od_hosts = [], od_jobs = [], od_runs = [], od_checks = []\<rparr>"

inductive ledger_reach :: "ops_env \<Rightarrow> ops_tables pg \<Rightarrow> bool" for env where
  start: "ledger_reach env \<lparr>pg_data = empty_ledger, pg_faults = fs\<rparr>"
| serve: "ledger_reach env db \<Longrightarrow> ops_serve (sqlite_service env stale m n) q db = (e, db') \<Longrightarrow> ledger_reach env db'"
| fate: "ledger_reach env db \<Longrightarrow> ledger_reach env (db\<lparr>pg_faults := fs\<rparr>)"

lemma ledger_reach_good: "ledger_reach env db \<Longrightarrow> ledger_good db"
proof (induction rule: ledger_reach.induct)
  case (serve db stale m n q e db')
  then show ?case by (blast dest: sqlite_ops.serve_step(1))
qed (auto simp: ledger_good_def ledger_inv_def empty_ledger_def)

end
