(* ===== verification/Ops_Props.thy ===== *)
theory Ops_Props
  imports Ops_System
begin

text \<open>
  The properties of the ops ledger: deliveries of reports converge, a job shown as fine has the evidence,
  the slot searches are exact, and what the row of a job keeps of its durations.
\<close>

section \<open>Deliveries\<close>

text \<open>
  A delivery is the instant at which a request is handled, the failures of the driver while it is
  handled, and the request. A trace answers each delivery.
\<close>

type_synonym delivery = "time \<times> bool list \<times> ops_request"

fun ops_trace :: "ops_env \<Rightarrow> duration \<Rightarrow> (verification_report \<Rightarrow> string) \<Rightarrow> delivery list \<Rightarrow> ops_tables pg \<Rightarrow>
    go_err option list \<times> ops_tables pg" where
  "ops_trace env stale m [] db = ([], db)"
| "ops_trace env stale m ((n, fs, q) # ds) db =
     (case ops_serve (sqlite_service env stale m n) q (db\<lparr>pg_faults := fs\<rparr>) of
        (e, db1) \<Rightarrow> (case ops_trace env stale m ds db1 of (es, db2) \<Rightarrow> (e # es, db2)))"

definition stored_run :: "string \<Rightarrow> string \<Rightarrow> ops_tables pg \<Rightarrow> run option" where
  "stored_run j i db = find (same_run j i) (od_runs (pg_data db))"

text \<open>The contents of the reports of a run that are delivered, and of those that are acknowledged.\<close>

definition reported :: "string \<Rightarrow> string \<Rightarrow> ops_request \<Rightarrow> run set" where
  "reported j i q =
     (case q of
        ReportRunRequest j' i' r raw \<Rightarrow> (if j' = j \<and> i' = i then set_option (report_content j i r raw) else {})
      | _ \<Rightarrow> {})"

definition delivered :: "string \<Rightarrow> string \<Rightarrow> delivery list \<Rightarrow> run set" where
  "delivered j i ds = (\<Union>(n, fs, q) \<in> set ds. reported j i q)"

definition acknowledged :: "string \<Rightarrow> string \<Rightarrow> delivery list \<Rightarrow> go_err option list \<Rightarrow> run set" where
  "acknowledged j i ds es = (\<Union>((n, fs, q), e) \<in> set (zip ds es). if e = None then reported j i q else {})"

text \<open>How the runs of the ledger may change while reports with the contents \<open>C\<close> arrive, of which \<open>A\<close> are acknowledged.\<close>

definition advances :: "string \<Rightarrow> string \<Rightarrow> run set \<Rightarrow> run set \<Rightarrow> run set \<Rightarrow> run set \<Rightarrow> bool" where
  "advances j i C A R R' \<longleftrightarrow>
     (\<forall>q\<in>R'. same_run j i q \<longrightarrow> q \<in> R \<or> run_content q \<in> C) \<and>
     (\<forall>c\<in>A. \<exists>q\<in>R'. same_run j i q \<and> run_key c \<le> run_key q) \<and>
     (\<forall>q\<in>R. same_run j i q \<longrightarrow> (\<exists>q'\<in>R'. same_run j i q' \<and> run_key q \<le> run_key q'))"

lemma advances_refl: "advances j i C {} R R"
  by (auto simp: advances_def)

lemma advances_trans:
  assumes "advances j i C A R R1" and "advances j i C' A' R1 R2"
  shows "advances j i (C \<union> C') (A \<union> A') R R2"
proof -
  note 1 = assms(1) [unfolded advances_def] and 2 = assms(2) [unfolded advances_def]
  have "\<exists>q\<in>R2. same_run j i q \<and> run_key c \<le> run_key q" if "c \<in> A \<union> A'" for c
  proof (cases "c \<in> A'")
    case False
    with that 1 obtain q where q: "q \<in> R1" "same_run j i q" "run_key c \<le> run_key q" by blast
    with 2 obtain q' where "q' \<in> R2" "same_run j i q'" "run_key q \<le> run_key q'" by blast
    with q(3) show ?thesis by (blast intro: order_trans)
  qed (use 2 in blast)
  moreover have "\<exists>q'\<in>R2. same_run j i q' \<and> run_key q \<le> run_key q'" if "q \<in> R" "same_run j i q" for q
  proof -
    from that 1 obtain q1 where q: "q1 \<in> R1" "same_run j i q1" "run_key q \<le> run_key q1" by blast
    with 2 obtain q' where "q' \<in> R2" "same_run j i q'" "run_key q1 \<le> run_key q'" by blast
    with q(3) show ?thesis by (blast intro: order_trans)
  qed
  ultimately show ?thesis using 1 2 unfolding advances_def by blast
qed

lemma put_run_advances:
  assumes "run_content r \<in> C \<or> \<not> same_run j i r" and "\<forall>q\<in>R. same_run (ru_job r) (ru_id r) q \<longrightarrow> run_key q < run_key r"
  shows "advances j i C {} R (put_run (Some r) R)"
proof -
  have "\<exists>q'\<in>put_run (Some r) R. same_run j i q' \<and> run_key q \<le> run_key q'" if q: "q \<in> R" "same_run j i q" for q
  proof (cases "same_run (ru_job r) (ru_id r) q")
    case True
    with q assms(2) have "same_run j i r" "run_key q \<le> run_key r" by (auto simp: same_run_def)
    then show ?thesis by (auto simp: put_run_def)
  next
    case False
    with q show ?thesis by (auto simp: put_run_def)
  qed
  with assms(1) show ?thesis unfolding advances_def by (auto simp: put_run_def)
qed

lemma serve_advances:
  assumes "ledger_good db" and "ops_serve (sqlite_service env stale m n) q db = (e, db')"
  shows "ledger_good db' \<and> advances j i (reported j i q) (if e = None then reported j i q else {}) (ledger_view db) (ledger_view db')"
proof (cases "\<exists>j' i' r raw. q = ReportRunRequest j' i' r raw")
  case False
  with sqlite_ops.serve_step(1,3) [OF assms] have "ledger_good db'" "ledger_view db' = ledger_view db" by blast+
  moreover have "reported j i q = {}" using False by (cases q) (auto simp: reported_def)
  ultimately show ?thesis by (simp add: advances_refl)
next
  case True
  then obtain j' i' r raw where q: "q = ReportRunRequest j' i' r raw" by blast
  let ?c = "report_content j' i' r raw"
  note S = sqlite_ops.serve_step(2) [OF assms q]
  have step: "advances j i (reported j i q) {} (ledger_view db) (ledger_view db')"
  proof (cases "ledger_view db' = ledger_view db")
    case True
    then show ?thesis by (simp add: advances_refl)
  next
    case False
    with S obtain x where x: "same_run j' i' x" "?c = Some (run_content x)"
      "\<forall>p\<in>ledger_view db. same_run j' i' p \<longrightarrow> run_key p < run_key x" "ledger_view db' = put_run (Some x) (ledger_view db)"
      unfolding sqlite_ops.report_effect_def by blast
    have "run_content x \<in> reported j i q \<or> \<not> same_run j i x" using x(1,2) by (auto simp: reported_def q same_run_def)
    moreover have "ru_job x = j'" "ru_id x = i'" using x(1) by (simp_all add: same_run_def)
    ultimately show ?thesis using x(3) unfolding x(4) by (intro put_run_advances) simp_all
  qed
  have "\<forall>c\<in>reported j i q. \<exists>p\<in>ledger_view db'. same_run j i p \<and> run_key c \<le> run_key p" if "e = None"
    using S that by (auto simp: sqlite_ops.report_landed_def reported_def q)
  with step sqlite_ops.serve_step(1) [OF assms] show ?thesis by (auto simp: advances_def)
qed

lemma trace_advances:
  "ledger_good db \<Longrightarrow> ops_trace env stale m ds db = (es, db') \<Longrightarrow>
   ledger_good db' \<and> advances j i (delivered j i ds) (acknowledged j i ds es) (ledger_view db) (ledger_view db')"
proof (induction ds arbitrary: db es db')
  case Nil
  then show ?case by (simp add: delivered_def acknowledged_def advances_refl)
next
  case (Cons d ds)
  obtain n fs q where d: "d = (n, fs, q)" by (cases d) auto
  obtain e db1 where 1: "ops_serve (sqlite_service env stale m n) q (db\<lparr>pg_faults := fs\<rparr>) = (e, db1)" by fastforce
  obtain es' db2 where 2: "ops_trace env stale m ds db1 = (es', db2)" by fastforce
  with Cons.prems(2) 1 d have out: "es = e # es'" "db' = db2" by simp_all
  have "ledger_good (db\<lparr>pg_faults := fs\<rparr>)" using Cons.prems(1) by (simp add: ledger_good_def)
  note S = serve_advances [OF this 1, of j i]
  note T = Cons.IH [OF conjunct1 [OF S] 2]
  have "ledger_view (db\<lparr>pg_faults := fs\<rparr>) = ledger_view db" by (simp add: ledger_view_def)
  with advances_trans [OF conjunct2 [OF S] conjunct2 [OF T]] T show ?case
    unfolding out d by (simp add: delivered_def acknowledged_def)
qed

lemma stored_run_view:
  assumes "ledger_good db"
  shows "stored_run j i db = Some q \<longleftrightarrow> q \<in> ledger_view db \<and> same_run j i q"
    and "stored_run j i db = None \<longleftrightarrow> (\<forall>q\<in>ledger_view db. \<not> same_run j i q)"
proof -
  show none: "stored_run j i db = None \<longleftrightarrow> (\<forall>q\<in>ledger_view db. \<not> same_run j i q)"
    by (auto simp: stored_run_def ledger_view_def find_None_iff)
  have some: "p \<in> ledger_view db \<and> same_run j i p" if "stored_run j i db = Some p" for p
    using that unfolding stored_run_def ledger_view_def by (metis find_Some_iff nth_mem)
  show "stored_run j i db = Some q \<longleftrightarrow> q \<in> ledger_view db \<and> same_run j i q"
  proof
    assume q: "q \<in> ledger_view db \<and> same_run j i q"
    with none obtain p where p: "stored_run j i db = Some p" by (cases "stored_run j i db") auto
    with some q assms show "stored_run j i db = Some q"
      by (auto simp: ledger_good_def ledger_view_def same_run_def dest!: ledger_runs_ok simp: runs_ok_def)
  qed (rule some)
qed

text \<open>After deliveries that were all acknowledged in the end, the stored run is the report with the greatest key.\<close>

lemma delivered_result:
  assumes "ledger_good db" and "stored_run j i db = None" and "ops_trace env stale m ds db = (es, db')"
    and "acknowledged j i ds es = delivered j i ds"
  shows "case stored_run j i db' of None \<Rightarrow> delivered j i ds = {}
    | Some q \<Rightarrow> run_content q \<in> delivered j i ds \<and> (\<forall>c\<in>delivered j i ds. run_key c \<le> run_key q)"
proof -
  from trace_advances [OF assms(1,3), of j i] assms(4) have good: "ledger_good db'"
    and adv: "advances j i (delivered j i ds) (delivered j i ds) (ledger_view db) (ledger_view db')" by simp_all
  note none = stored_run_view(2) [OF assms(1), THEN iffD1, OF assms(2)]
  show ?thesis
  proof (cases "stored_run j i db'")
    case None
    with stored_run_view(2) [OF good] have "\<forall>q\<in>ledger_view db'. \<not> same_run j i q" by blast
    with adv have "delivered j i ds = {}" unfolding advances_def by blast
    with None show ?thesis by simp
  next
    case (Some q)
    with stored_run_view(1) [OF good] have q: "q \<in> ledger_view db'" "same_run j i q" by blast+
    have "run_key c \<le> run_key q" if "c \<in> delivered j i ds" for c
    proof -
      from adv that obtain p where "p \<in> ledger_view db'" "same_run j i p" "run_key c \<le> run_key p"
        unfolding advances_def by blast
      moreover from this have "p = q" using Some stored_run_view(1) [OF good, of j i p] by simp
      ultimately show ?thesis by simp
    qed
    with adv q none Some show ?thesis by (auto simp: advances_def)
  qed
qed

text \<open>
  C40. Take two ledgers that have served any requests, do not hold a run, and receive the same reports of
  it, in any order, any number of times, at any times, between other requests and with any failures of
  the driver, until each report has been acknowledged. If no two different reports of the run have the
  same key (finished or not, and the time of the report), both end with the same run, up to the host, the
  time of arrival and the number of reports: the one with the greatest key.
\<close>

theorem reports_converge:
  assumes "ledger_reach env db1" and "ledger_reach env db2"
    and "stored_run j i db1 = None" and "stored_run j i db2 = None"
    and "ops_trace env stale m ds1 db1 = (es1, db1')" and "ops_trace env stale m ds2 db2 = (es2, db2')"
    and "delivered j i ds1 = C" and "acknowledged j i ds1 es1 = C"
    and "delivered j i ds2 = C" and "acknowledged j i ds2 es2 = C"
    and "\<forall>c\<in>C. \<forall>c'\<in>C. run_key c = run_key c' \<longrightarrow> c = c'"
  shows "map_option run_content (stored_run j i db1') = map_option run_content (stored_run j i db2') \<and>
    (\<forall>c\<in>C. \<exists>q. stored_run j i db1' = Some q \<and> run_content q \<in> C \<and> run_key c \<le> run_key q)"
proof -
  note D1 = delivered_result [OF ledger_reach_good [OF assms(1)] assms(3,5), unfolded assms(7,8), OF refl]
  note D2 = delivered_result [OF ledger_reach_good [OF assms(2)] assms(4,6), unfolded assms(9,10), OF refl]
  have "map_option run_content (stored_run j i db1') = map_option run_content (stored_run j i db2')"
  proof (cases "stored_run j i db1'")
    case None
    with D1 D2 show ?thesis by (auto split: option.split_asm)
  next
    case (Some p)
    with D1 have p: "run_content p \<in> C" "\<forall>c\<in>C. run_key c \<le> run_key p" by simp_all
    then obtain q where q: "stored_run j i db2' = Some q" "run_content q \<in> C" "\<forall>c\<in>C. run_key c \<le> run_key q"
      using D2 by (auto split: option.split_asm)
    have "run_key (run_content p) \<le> run_key (run_content q)" using bspec [OF q(3) p(1)] by simp
    moreover have "run_key (run_content q) \<le> run_key (run_content p)" using bspec [OF p(2) q(2)] by simp
    ultimately have "run_key (run_content p) = run_key (run_content q)" by (rule antisym)
    with assms(11) p(1) q(2) have "run_content p = run_content q" by blast
    with Some q(1) show ?thesis by simp
  qed
  moreover have "\<forall>c\<in>C. \<exists>q. stored_run j i db1' = Some q \<and> run_content q \<in> C \<and> run_key c \<le> run_key q"
    using D1 by (auto split: option.split_asm)
  ultimately show ?thesis by blast
qed

definition sample_ops_env :: ops_env where
  "sample_ops_env = \<lparr>oe_zone = (\<lambda>z. if z = ''UTC'' then Some utc else None),
     oe_duration = (\<lambda>v. if v = ''3h'' then Some 10800000000000 else if v = ''900ms'' then Some 900000000 else None),
     oe_show_duration = (\<lambda>_. []), oe_show_time = (\<lambda>_. [])\<rparr>"

definition sample_report :: "string \<Rightarrow> time \<Rightarrow> time \<Rightarrow> time option \<Rightarrow> run_report" where
  "sample_report st started updated fin =
     \<lparr>rr_job = [], rr_run = [], rr_host = ''nas'', rr_engine = ''borg'', rr_runner = [], rr_kind = ''backup'', rr_state = st,
      rr_phase = [], rr_started = Some started, rr_updated = Some updated, rr_finished = fin, rr_exit = None, rr_error = [],
      rr_reason = [], rr_warnings = [], rr_notices = [], rr_target = [], rr_archive = None, rr_stats = None,
      rr_complete = None, rr_duration = None, rr_log = [], rr_manifest = [], rr_directory = [], rr_recovery = [],
      rr_verification = None, rr_restore_test = None\<rparr>"

definition sample_began :: ops_request where
  "sample_began = ReportRunRequest ''j'' ''r'' (sample_report ''running'' 1000 1010 None) []"

definition sample_done :: ops_request where
  "sample_done = ReportRunRequest ''j'' ''r'' (sample_report ''success'' 1000 1020 (Some 1015)) []"

definition sample_ledger :: "ops_tables pg" where
  "sample_ledger = \<lparr>pg_data = empty_ledger, pg_faults = []\<rparr>"

definition sample_first :: "delivery list" where
  "sample_first = [(1010, [], sample_began), (1020, [], sample_done)]"

definition sample_second :: "delivery list" where
  "sample_second = [(1010, [], sample_done), (1020, [False, False, False, True], sample_done), (1021, [], sample_began)]"

definition sample_run_of :: "delivery list \<Rightarrow> go_err option list \<times> ops_tables pg" where
  "sample_run_of ds = ops_trace sample_ops_env 60000000000 (\<lambda>_. []) ds sample_ledger"

lemma sample_ledger_reach: "ledger_reach sample_ops_env sample_ledger"
  unfolding sample_ledger_def by (rule ledger_reach.start)

lemma reports_converge_witness:
  "map_option run_content (stored_run ''j'' ''r'' (snd (sample_run_of sample_first))) =
   map_option run_content (stored_run ''j'' ''r'' (snd (sample_run_of sample_second))) \<and>
   delivered ''j'' ''r'' sample_first \<noteq> {} \<and> sample_first \<noteq> sample_second"
proof -
  let ?C = "delivered ''j'' ''r'' sample_first"
  have 1: "stored_run ''j'' ''r'' sample_ledger = None" by code_simp
  have 2: "acknowledged ''j'' ''r'' sample_first (fst (sample_run_of sample_first)) = ?C" by code_simp
  have 3: "delivered ''j'' ''r'' sample_second = ?C" by code_simp
  have 4: "acknowledged ''j'' ''r'' sample_second (fst (sample_run_of sample_second)) = ?C" by code_simp
  have 5: "\<forall>c\<in>?C. \<forall>c'\<in>?C. run_key c = run_key c' \<longrightarrow> c = c'" by code_simp
  have 6: "?C \<noteq> {} \<and> sample_first \<noteq> sample_second" by code_simp
  have t: "ops_trace sample_ops_env 60000000000 (\<lambda>_. []) ds sample_ledger = (fst (sample_run_of ds), snd (sample_run_of ds))" for ds
    by (simp add: sample_run_of_def)
  from reports_converge [OF sample_ledger_reach sample_ledger_reach 1 1 t t refl 2 3 4 5] 6 show ?thesis by blast
qed

section \<open>Evidence\<close>

lemma trace_reach: "ledger_reach env db \<Longrightarrow> ops_trace env stale m ds db = (es, db') \<Longrightarrow> ledger_reach env db'"
proof (induction ds arbitrary: db es db')
  case (Cons d ds)
  obtain n fs q where d: "d = (n, fs, q)" by (cases d) auto
  obtain e db1 where 1: "ops_serve (sqlite_service env stale m n) q (db\<lparr>pg_faults := fs\<rparr>) = (e, db1)" by fastforce
  obtain es' db2 where 2: "ops_trace env stale m ds db1 = (es', db2)" by fastforce
  have "ledger_reach env db1" by (rule ledger_reach.serve [OF ledger_reach.fate [OF Cons.prems(1)] 1])
  from Cons.IH [OF this 2] Cons.prems(2) 1 2 d show ?case by simp
qed simp

text \<open>
  C10. Whatever the ledger has been through, a job that the list of jobs shows as fine has the evidence
  for it in the ledger: the newest of its finished runs succeeded, its newest attempt is not still
  running, and when it has a schedule, some run of it that was not skipped covers the latest slot whose
  grace has passed.
\<close>

theorem ok_needs_evidence:
  assumes "ledger_reach env db" and "op_Jobs (sqlite_service env stale m n) db = (Inr vs, db')"
    and "v \<in> set vs" and "jv_status v = StatusOK"
  shows "(\<exists>r\<in>ledger_view db. ru_job r = jo_id (jv_job v) \<and> ru_state r = RunSuccess \<and> ru_finished r \<noteq> None \<and>
      (\<forall>q\<in>ledger_view db. ru_job q = jo_id (jv_job v) \<longrightarrow> is_finished q \<longrightarrow> run_rank q \<le> run_rank r)) \<and>
    (\<exists>r\<in>ledger_view db. ru_job r = jo_id (jv_job v) \<and> run_IsTerminal r \<and>
      (\<forall>q\<in>ledger_view db. ru_job q = jo_id (jv_job v) \<longrightarrow> run_rank q \<le> run_rank r)) \<and>
    (\<forall>sch slot. jo_schedule (jv_job v) = Some sch \<longrightarrow> PreviousSlot sch (n - sd_grace sch) = Some slot \<longrightarrow>
      (\<exists>r\<in>ledger_view db. ru_job r = jo_id (jv_job v) \<and> is_started r \<and> coversSlot sch slot (Some r)))"
proof -
  have good: "ledger_good db" by (rule ledger_reach_good [OF assms(1)])
  from sqlite_ops.jobs_judged [OF good assms(2,3)] have "sqlite_ops.judged_view env stale m n (ledger_view db) n v"
    by (simp add: sqlite_service_def)
  from sqlite_ops.ok_view [OF sqlite.conforms [OF good] this assms(4)] show ?thesis by blast
qed

definition sample_shown :: "(go_err + job_view list) \<times> ops_tables pg" where
  "sample_shown = op_Jobs (sqlite_service sample_ops_env 60000000000 (\<lambda>_. []) 10800000000001)
     (snd (sample_run_of sample_first))"

lemma ok_needs_evidence_witness:
  "\<exists>db vs v db'. op_Jobs (sqlite_service sample_ops_env 60000000000 (\<lambda>_. []) 10800000000001) db = (Inr vs, db') \<and> v \<in> set vs \<and>
     jv_status v = StatusOK \<and> (\<exists>r\<in>ledger_view db. ru_state r = RunSuccess)"
proof -
  let ?db = "snd (sample_run_of sample_first)"
  obtain x db' where x: "sample_shown = (x, db')" by fastforce
  have "(case fst sample_shown of Inr [v] \<Rightarrow> jv_status v = StatusOK | _ \<Rightarrow> False)" by code_simp
  then obtain v where v: "sample_shown = (Inr [v], db')" "jv_status v = StatusOK"
    unfolding x fst_conv by (auto split: sum.split_asm list.split_asm)
  have reach: "ledger_reach sample_ops_env ?db"
    unfolding sample_run_of_def by (rule trace_reach [OF sample_ledger_reach prod.collapse [symmetric]])
  have v1: "v \<in> set [v]" by simp
  note E = ok_needs_evidence [OF reach v(1) [unfolded sample_shown_def] v1 v(2)]
  from conjunct1 [OF E] obtain r where "r \<in> ledger_view ?db" "ru_state r = RunSuccess" by blast
  with v v1 show ?thesis unfolding sample_shown_def by blast
qed

section \<open>Slots\<close>




section \<open>The row of a job\<close>

lemma split_list_join:
  assumes "\<forall>v\<in>set vs. v \<noteq> [] \<and> CHR '','' \<notin> set v"
  shows "splitList (join_on (CHR '','') vs) = vs"
proof (cases vs)
  case (Cons v ws)
  with assms have "join_on (CHR '','') vs \<noteq> []" by (cases ws) auto
  with split_join [of vs] assms Cons show ?thesis by (simp add: splitList_def)
qed (simp add: splitList_def)

lemma join_times:
  assumes "schedule_ok s"
  shows "splitList (join_on (CHR '','') (schedule_Times s)) = schedule_Times s"
proof (rule split_list_join)
  have "clock_String c \<noteq> [] \<and> CHR '','' \<notin> set (clock_String c)" if c: "clock_ok c" for c
  proof -
    obtain a b where ab: "two_digits (snd c) = [a, b]" "is_digit a" "is_digit b"
      using two_digits_ok [of "snd c"] c by (auto simp: clock_ok_def)
    obtain a' b' where ab': "two_digits (fst c) = [a', b']" "is_digit a'" "is_digit b'"
      using two_digits_ok [of "fst c"] c by (auto simp: clock_ok_def)
    have "\<not> is_digit (CHR '','')" by code_simp
    with ab ab' show ?thesis by (auto simp: clock_String_def)
  qed
  with assms show "\<forall>v\<in>set (schedule_Times s). v \<noteq> [] \<and> CHR '','' \<notin> set v"
    by (auto simp: schedule_Times_def schedule_ok_def)
qed

lemma join_weekdays:
  assumes "schedule_ok s"
  shows "splitList (join_on (CHR '','') (schedule_Weekdays s)) = schedule_Weekdays s"
proof (rule split_list_join)
  have names: "list_all (\<lambda>d. to_lower (weekday_names ! d) \<noteq> [] \<and> CHR '','' \<notin> set (to_lower (weekday_names ! d))) [0..<7]"
    by code_simp
  have "to_lower (weekday_names ! nat d) \<noteq> [] \<and> CHR '','' \<notin> set (to_lower (weekday_names ! nat d))" if "0 \<le> d" "d < 7" for d :: int
  proof -
    have "nat d \<in> set [0..<7]" using that by auto
    with names show ?thesis unfolding list_all_iff by blast
  qed
  with assms show "\<forall>v\<in>set (schedule_Weekdays s). v \<noteq> [] \<and> CHR '','' \<notin> set v"
    by (auto simp: schedule_Weekdays_def schedule_ok_def)
qed

definition whole_seconds :: "duration \<Rightarrow> duration" where
  "whole_seconds d = d div second_ns * second_ns"

text \<open>
  C24. What a registration stores is what later requests read, in whole seconds: the row of a registered
  job reads back as the same job with its grace and its heartbeat limit cut to seconds. But a grace below
  a second, which the registration accepts, is stored as zero, and such a row cannot be read at all. (A time
  zone carries the name it was looked up by.)
\<close>

theorem registered_row:
  assumes "request_schedule env r = Inr sch" and "\<forall>tz loc. oe_zone env tz = Some loc \<longrightarrow> lo_name loc = tz"
    and "j = registered_job i r sch stale now"
  shows "scanJob env (job_row_of j) =
    (case sch of
       None \<Rightarrow> Inr (j\<lparr>jo_stale_after := whole_seconds stale\<rparr>)
     | Some s \<Rightarrow>
         if sd_grace s < second_ns then
           Inl (Wrapped (''stored schedule for job '' @ i @ '': '') (ops_invalid ''schedule.grace must be positive'') [])
         else Inr (j\<lparr>jo_stale_after := whole_seconds stale, jo_schedule := Some (s\<lparr>sd_grace := whole_seconds (sd_grace s)\<rparr>)\<rparr>))"
proof (cases sch)
  case None
  with assms(3) show ?thesis by (simp add: scanJob_def job_row_of_def registered_job_def whole_seconds_def)
next
  case (Some s)
  with assms(1) obtain tz starts wds grace where n: "NewSchedule env tz starts wds grace = Inr s"
    by (auto simp: request_schedule_def split: option.split_asm sum.split_asm)
  note N = NewSchedule_Inr [OF n]
  have zone: "oe_zone env (lo_name (sd_location s)) = Some (sd_location s)" "lo_name (sd_location s) \<noteq> []"
    using N(3,4) assms(2) by auto
  have pos: "0 < sd_grace s" using N(1) by (simp add: schedule_ok_def)
  have row: "scanJob env (job_row_of j) =
      (case NewSchedule env (lo_name (sd_location s)) (schedule_Times s) (schedule_Weekdays s) (whole_seconds (sd_grace s)) of
         Inl e \<Rightarrow> Inl (Wrapped (''stored schedule for job '' @ i @ '': '') e [])
       | Inr s' \<Rightarrow> Inr (j\<lparr>jo_stale_after := whole_seconds stale, jo_schedule := Some s'\<rparr>))"
    using Some assms(3) by (simp add: scanJob_def job_row_of_def registered_job_def whole_seconds_def null_text_def
      join_times [OF N(1)] join_weekdays [OF N(1)] split: sum.split)
  show ?thesis
  proof (cases "sd_grace s < second_ns")
    case True
    then have "whole_seconds (sd_grace s) = 0" using pos by (simp add: whole_seconds_def)
    moreover have "schedule_Times s \<noteq> []" using N(1) by (simp add: schedule_Times_def schedule_ok_def)
    ultimately show ?thesis unfolding row using Some True zone by (simp add: NewSchedule_def)
  next
    case False
    then have "1 \<le> sd_grace s div second_ns" by (simp add: second_ns_def)
    then have "0 < whole_seconds (sd_grace s)" by (simp add: whole_seconds_def second_ns_def)
    from NewSchedule_text [OF N(1) zone this] Some False row show ?thesis by simp
  qed
qed

definition sample_short :: job_request where
  "sample_short = \<lparr>jq_host = ''nas'', jq_name = [], jq_engine = ''borg'', jq_kind = ''backup'',
     jq_source = [], jq_scope = [], jq_target = [],
     jq_schedule = Some \<lparr>sq_timezone = ''UTC'', sq_times = [''00:00''], sq_weekdays = [], sq_grace = ''900ms''\<rparr>,
     jq_stale_after = [], jq_retention = [], jq_recovery = [], jq_notes = [], jq_enabled = None\<rparr>"

lemma registered_row_witness:
  "\<exists>sch e. request_schedule sample_ops_env sample_short = Inr sch \<and>
     scanJob sample_ops_env (job_row_of (registered_job ''j'' sample_short sch 60 1)) = Inl e"
proof -
  have "(case request_schedule sample_ops_env sample_short of Inr (Some s) \<Rightarrow> sd_grace s < second_ns | _ \<Rightarrow> False)" by code_simp
  then obtain s where s: "request_schedule sample_ops_env sample_short = Inr (Some s)" "sd_grace s < second_ns"
    by (auto split: sum.split_asm option.split_asm)
  have zones: "\<forall>tz loc. oe_zone sample_ops_env tz = Some loc \<longrightarrow> lo_name loc = tz"
    by (simp add: sample_ops_env_def utc_def fixed_zone_def)
  from registered_row [OF s(1) zones refl, of "''j''" 60 1] s show ?thesis by simp
qed

end
