(* ===== verification/Tasks_Live.thy ===== *)
theory Tasks_Live
  imports Tasks_System
begin

text \<open>
  What the tasks store does on a driver that does not fail: a permitted update, review transition or
  dependency succeeds, and a forbidden one is refused with its reason.
\<close>

section \<open>Actions that succeed\<close>

lemma writeHistory_live:
  assumes "i \<in> dom (tasks_of d)"
  shows "tx_live d (writeHistory i current patch agent)"
proof -
  have "tx_live d (tx_each (\<lambda>(field, old, new). insertHistory i field old new agent) cs)" for cs
    using assms
  proof (induction cs arbitrary: d)
    case (Cons c cs)
    obtain field old new where c: "c = (field, old, new)" by (cases c)
    have "tx_live d (insertHistory i field old new agent)"
      using Cons.prems by (auto simp: insertHistory_def insertHistorySQL_def task_exists_iff)
    then have "tx_live d (tx_bind (insertHistory i field old new agent)
        (\<lambda>_. tx_each (\<lambda>(field, old, new). insertHistory i field old new agent) cs))"
      by (rule tx_live_bind [OF _ insertHistory_post]) (use Cons in auto)
    then show ?case by (simp add: c)
  qed simp
  then show ?thesis by (simp add: writeHistory_def)
qed

lemma record_changes_loop_live: "tx_live d (record_changes_loop kind seen is)"
proof (induction kind seen "is" arbitrary: d rule: record_changes_loop.induct)
  case (2 kind seen i "is")
  show ?case
  proof (cases "i \<le> 0 \<or> i \<in> set seen")
    case True
    with 2(1) [OF True] show ?thesis by simp
  next
    case False
    have "tx_live d (tx_wrap (''recording task change '' @ show_int i @ '': '') (tx_call (insertTaskChangeSQL i kind)))"
      by (rule tx_live_wrap) (simp add: insertTaskChangeSQL_def split: option.split)
    then have "tx_live d (tx_bind (tx_wrap (''recording task change '' @ show_int i @ '': '') (tx_call (insertTaskChangeSQL i kind)))
        (\<lambda>_. record_changes_loop kind (i # seen) is))"
      by (rule tx_live_bind [where R = "\<lambda>_ _. True"]) (use 2(2) [OF False] in \<open>auto intro!: tx_post_wrap tx_post_call\<close>)
    with False show ?thesis by simp
  qed
qed simp

lemma recordTaskChangesTx_live [simp]: "tx_live d (recordTaskChangesTx kind is)"
  by (simp add: recordTaskChangesTx_def record_changes_loop_live)

lemma dependentTaskIDsTx_live: "tx_live d (dependentTaskIDsTx i)"
  by (simp add: dependentTaskIDsTx_def tx_live_def calm_simps tx_return_def)

lemma recordUpdateTaskChangesTx_live: "tx_live d (recordUpdateTaskChangesTx current updated patch)"
  unfolding recordUpdateTaskChangesTx_def
  by (rule tx_live_bind [where R = "\<lambda>_ _. True"])
    (auto simp: dependentTaskIDsTx_live intro: tx_post_weaken [OF dependentTaskIDsTx_post] tx_post_return)

lemma updateTaskTx_live:
  assumes inv: "tables_inv d" and t: "tasks_of d i = Some t" and p: "patch_allowed d t p at"
  shows "tx_live d (updateTaskTx i t p agent at)"
  unfolding updateTaskTx_def
proof (rule tx_live_bind [OF writeHistory_live writeHistory_post])
  show "i \<in> dom (tasks_of d)" using t by blast
next
  fix u d1
  let ?d = "with_history i agent (history_changes t p) d"
  assume d1: "d1 = ?d"
  obtain r where r: "row_lookup tr_id i (tk_rows d) = Some r" "t = row_params r" using t by (auto simp: tasks_of_Some)
  have par: "\<not> (pa_has_parent p \<and> (case pa_parent p of None \<Rightarrow> False | Some q \<Rightarrow> \<not> task_exists q d1))"
    using p by (auto simp: patch_allowed_def parent_allowed_def task_exists_iff d1 split: option.splits)
  have q: "updateTaskSQL i p at d1 = Some (Some (patched_row p at r), with_patch i p at d1)"
    using r(1) par unfolding d1 by (simp add: updateTaskSQL_def with_patch_def)
  have ok: "patch_ok p" "\<not> is_zero_time at" using p by (simp_all add: patch_allowed_def)
  then have "task_ok (row_params (patched_row p at r))"
    using patched_ok tasks_okD(3) [OF tables_invD(3) [OF inv] t] r(2) by (simp add: row_params_patched)
  then have scan: "scanTask wall (patched_row p at r) = Inr (row_params (patched_row p at r))" for wall by (rule scan_ok)
  obtain d2 where rec: "recordUpdateTaskChangesTx t (row_params (patched_row p at r)) p (calm (with_patch i p at d1)) = Some (Inr (), calm d2)"
    using recordUpdateTaskChangesTx_live [of "with_patch i p at d1" t "row_params (patched_row p at r)" p]
    by (auto simp: tx_live_def)
  show "tx_live d1 (tx_bind (tx_wrap (''updating task '' @ show_int i @ '': '') (tx_call (updateTaskSQL i p at))) (\<lambda>found.
     case found of
       None \<Rightarrow> tx_fail (taskNotFound i)
     | Some r \<Rightarrow>
         tx_bind (tx_wrap (''updating task '' @ show_int i @ '': '') (tx_scan (\<lambda>d. scanTask (tk_wall d) r))) (\<lambda>updated.
         tx_bind (recordUpdateTaskChangesTx t updated p) (\<lambda>_.
         tx_return updated))))"
    unfolding tx_live_def by (simp add: calm_simps q tx_scan_def scan rec tx_return_def)
qed

section \<open>The exact answers\<close>

text \<open>What \<open>AddDependency\<close> answers, as a function of the tasks and their dependencies.\<close>

definition add_dependency_answer :: "task_view \<Rightarrow> int \<Rightarrow> int \<Rightarrow> go_err option" where
  "add_dependency_answer v i dep =
     (if i = dep then Some (tasks_invalid ErrDependencyCycle)
      else if vt v i = None then Some (taskNotFound i)
      else if vt v dep = None then Some (taskNotFound dep)
      else if (dep, i) \<in> (vd v)\<^sup>*
      then Some (tasks_conflict (Wrapped [] ErrDependencyCycle ('': '' @ show_int i @ '' depends on '' @ show_int dep)) ''dependency_cycle'')
      else None)"

lemma addDependencyTx_calm:
  assumes inv: "tables_inv d"
  shows "addDependencyTx i dep (calm d) =
    (case add_dependency_answer (view_of d) i dep of Some e \<Rightarrow> Some (Inl e, calm d) | None \<Rightarrow> Some (Inr (), calm (with_dep i dep d)))"
proof (cases "i = dep \<or> tasks_of d i = None \<or> tasks_of d dep = None \<or> (dep, i) \<in> (set (tk_deps d))\<^sup>*")
  case True
  then show ?thesis
    by (cases "i = dep"; cases "tasks_of d i"; cases "tasks_of d dep")
      (auto simp: addDependencyTx_def add_dependency_answer_def view_of_def calm_simps getTaskTx_calm [OF inv] tx_fail_def)
next
  case False
  then obtain t u where "i \<noteq> dep" "tasks_of d i = Some t" "tasks_of d dep = Some u" "(dep, i) \<notin> (set (tk_deps d))\<^sup>*" by auto
  moreover from this have "addDependencySQL i dep d = Some ((), with_dep i dep d)"
    by (simp add: addDependencySQL_def with_dep_def task_exists_iff)
  ultimately show ?thesis
    by (simp add: addDependencyTx_def add_dependency_answer_def view_of_def calm_simps getTaskTx_calm [OF inv])
qed

lemma tk_AddDependency_calm:
  assumes inv: "tables_inv d"
  shows "case add_dependency_answer (view_of d) i dep of
      Some e \<Rightarrow> tk_AddDependency i dep (calm_pg d) = Some (Inl e, calm_pg d)
    | None \<Rightarrow> \<exists>d'. tk_AddDependency i dep (calm_pg d) = Some (Inr (), calm_pg d') \<and> add_dependency_effect i dep d () d'"
proof (cases "add_dependency_answer (view_of d) i dep")
  case (Some e)
  then show ?thesis
    by (simp add: tk_AddDependency_def calm_run_tx [where d' = d and r = "Inl e"] calm_simps addDependencyTx_calm [OF inv])
next
  case None
  obtain d' where "recordTaskChangesTx ''dependency_added'' [i] (calm (with_dep i dep d)) = Some (Inr (), calm d')"
    using recordTaskChangesTx_live [of "with_dep i dep d"] by (auto simp: tx_live_def)
  then have r: "tk_AddDependency i dep (calm_pg d) = Some (Inr (), calm_pg d')"
    unfolding tk_AddDependency_def
    by (subst calm_run_tx [where d' = d' and r = "Inr ((), ''committing add dependency: '')"])
      (simp_all add: calm_simps addDependencyTx_calm [OF inv] None tx_return_def)
  moreover have "add_dependency_effect i dep d () d'"
    by (rule store_writeE [OF tk_AddDependency_write [of i dep], of "calm_pg d"]) (use inv r in auto)
  ultimately show ?thesis using None by simp
qed

text \<open>What \<open>TransitionTaskToReview\<close> answers.\<close>

lemma in_progress_not_review [simp]: "StatusInProgress \<noteq> StatusReview"
  by (simp add: status_defs)

lemma tk_TransitionTaskToReview_calm:
  assumes inv: "tables_inv d" and at: "\<not> is_zero_time at"
  shows "case tasks_of d i of
      None \<Rightarrow> tk_TransitionTaskToReview project i agent at (calm_pg d) = Some (Inl (taskNotFound i), calm_pg d)
    | Some t \<Rightarrow>
        if ta_project t \<noteq> project
        then tk_TransitionTaskToReview project i agent at (calm_pg d) = Some (Inl (taskNotFound i), calm_pg d)
        else if ta_status t = StatusReview
        then tk_TransitionTaskToReview project i agent at (calm_pg d) = Some (Inr (t, TaskTransitionAlreadySatisfied), calm_pg d)
        else if ta_status t = StatusInProgress
        then \<exists>d'. tk_TransitionTaskToReview project i agent at (calm_pg d) =
               Some (Inr (patched review_patch at t, TaskTransitionApplied), calm_pg d') \<and>
             task_updated i t review_patch agent at d d'
        else tk_TransitionTaskToReview project i agent at (calm_pg d) =
               Some (Inl (tasks_conflict (Wrapped [] ErrReviewTransitionState ('': current status is '' @ ta_status t))
                            ''review_transition_ineligible''), calm_pg d)"
proof (cases "tasks_of d i")
  case None
  then show ?thesis
    by (simp add: tk_TransitionTaskToReview_def calm_run_tx [where d' = d] calm_simps getTaskTx_calm [OF inv])
next
  case (Some t)
  note g = getTaskTx_calm(2) [OF inv, of i, unfolded Some]
  consider "ta_project t \<noteq> project" | "ta_project t = project" "ta_status t = StatusReview"
    | (go) "ta_project t = project" "ta_status t \<noteq> StatusReview" "ta_status t = StatusInProgress"
    | "ta_project t = project" "ta_status t \<noteq> StatusReview" "ta_status t \<noteq> StatusInProgress" by blast
  then show ?thesis
  proof cases
    case go
    obtain x d' where 1: "updateTaskTx i t review_patch agent at (calm d) = Some (Inr x, calm d')"
      "x = patched review_patch at t \<and> task_updated i t review_patch agent at d d'"
      by (rule tx_live_post [OF updateTaskTx_live [OF inv Some review_patch_allowed [OF at], of agent]
            updateTaskTx_post [OF inv Some review_patch_allowed [OF at]]])
    then have "tk_TransitionTaskToReview project i agent at (calm_pg d) = Some (Inr (x, TaskTransitionApplied), calm_pg d')"
      unfolding tk_TransitionTaskToReview_def
      by (subst calm_run_tx [where d' = d' and r = "Inr ((x, TaskTransitionApplied), ''committing review transition: '')"])
        (simp_all add: calm_simps g go review_patch_def [symmetric] tx_return_def)
    with 1(2) Some go(1,2) show ?thesis by (simp add: go(3))
  qed (use Some in \<open>simp_all add: tk_TransitionTaskToReview_def calm_run_tx [where d' = d] calm_simps g tx_fail_def tx_return_def\<close>)
qed

section \<open>The next task\<close>

definition next_candidates :: "task_tables \<Rightarrow> string \<Rightarrow> string option \<Rightarrow> (int \<times> task_row) list" where
  "next_candidates d project who =
     map (\<lambda>r. (0::int, r)) (filter (sub_candidate d project who) (tk_rows d)) @
     map (\<lambda>r. (1, r)) (filter (top_candidate d project who) (tk_rows d))"

definition next_key :: "task_tables \<Rightarrow> int \<times> task_row \<Rightarrow> int \<times> int \<times> int \<times> int" where
  "next_key d = (\<lambda>(tier, r). (tier, tr_priority r, dep_count d (tr_id r), tr_id r))"

lemma sort_key_least:
  assumes "sort_key f xs = y # ys"
  shows "y \<in> set xs \<and> (\<forall>x\<in>set xs. f y \<le> f x)"
proof -
  have "set (y # ys) = set xs" using assms by (metis set_sort)
  moreover have "sorted (map f (y # ys))" using assms by (metis sorted_sort_key)
  ultimately show ?thesis by auto
qed

lemma nextTaskSQL_least:
  "case nextTaskSQL project who d of
     None \<Rightarrow> next_candidates d project who = []
   | Some r \<Rightarrow> \<exists>tier. (tier, r) \<in> set (next_candidates d project who) \<and>
       (\<forall>c\<in>set (next_candidates d project who). next_key d (tier, r) \<le> next_key d c)"
proof (cases "sort_key (next_key d) (next_candidates d project who)")
  case Nil
  then have "next_candidates d project who = []" by (metis length_0_conv length_sort)
  then show ?thesis by (simp add: nextTaskSQL_def next_candidates_def Let_def)
next
  case (Cons c cs)
  obtain tier r where c: "c = (tier, r)" by (cases c)
  have "nextTaskSQL project who d = Some r"
    using Cons unfolding nextTaskSQL_def Let_def next_candidates_def [symmetric] next_key_def [symmetric] by (simp add: c)
  with sort_key_least [OF Cons] c show ?thesis by auto
qed

lemma candidate_row:
  assumes "(tier, r) \<in> set (next_candidates d project who)"
  shows "r \<in> set (tk_rows d) \<and> tr_project r = project \<and> unblocked d (tr_id r) \<and> assignable who r"
  using assms by (auto simp: next_candidates_def sub_candidate_def top_candidate_def)

lemma tk_NextTask_calm:
  assumes inv: "tables_inv d"
  shows "tk_NextTask project assigned (calm_pg d) =
    (Inr (map_option row_params (nextTaskSQL project (emptyToNil assigned) d)), calm_pg d)"
proof (cases "nextTaskSQL project (emptyToNil assigned) d")
  case None
  then show ?thesis by (simp add: tk_NextTask_def calm_simps)
next
  case (Some r)
  with nextTaskSQL_least [of d project "emptyToNil assigned"] candidate_row have "r \<in> set (tk_rows d)" by auto
  with scan_stored [OF inv row_of_id [OF tables_invD(1) [OF inv]]] Some show ?thesis
    by (simp add: tk_NextTask_def calm_simps)
qed

text \<open>
  Planned tasks that wait only for each other: because the dependencies have no cycle, one of them
  waits for nothing.
\<close>

lemma some_unblocked:
  assumes inv: "tables_inv d" and R: "R \<subseteq> set (tk_rows d)" "R \<noteq> {}"
    and wait: "\<And>r e. r \<in> R \<Longrightarrow> e \<in> set (tk_deps d) \<Longrightarrow> fst e = tr_id r \<Longrightarrow> unsatisfied d e \<Longrightarrow> \<exists>q\<in>R. tr_id q = snd e"
  shows "\<exists>r\<in>R. unblocked d (tr_id r)"
proof -
  have "wf ((set (tk_deps d))\<inverse>)"
    using tables_invD(5) [OF inv] by (simp add: finite_acyclic_wf_converse)
  moreover obtain i0 where "i0 \<in> tr_id ` R" using R(2) by auto
  ultimately obtain i where i: "i \<in> tr_id ` R" and min: "\<And>j. (j, i) \<in> (set (tk_deps d))\<inverse> \<Longrightarrow> j \<notin> tr_id ` R"
    by (rule wfE_min) blast
  from i obtain r where r: "r \<in> R" "tr_id r = i" by blast
  have "unblocked d (tr_id r)"
  proof (rule ccontr)
    assume "\<not> unblocked d (tr_id r)"
    then obtain e where e: "e \<in> set (tk_deps d)" "fst e = tr_id r" "unsatisfied d e"
      by (auto simp: unblocked_def list_ex_iff)
    from wait [OF r(1) e] obtain q where q: "q \<in> R" "tr_id q = snd e" by blast
    have "(snd e, i) \<in> (set (tk_deps d))\<inverse>" using e(1,2) r(2) by (metis converse_iff prod.collapse)
    from min [OF this] q show False by (metis imageI)
  qed
  with r(1) show ?thesis by blast
qed

end
