(* ===== verification/Tasks_Props.thy ===== *)
theory Tasks_Props
  imports Tasks_Live
begin

text \<open>
  The properties of the tasks service: the refinement of the abstract machine, what its operations
  answer and change, the review transition, human acceptance, the choice of the next task, and a race
  of two requests for dependencies.
\<close>

section \<open>A small project\<close>

definition sample_row :: "int \<Rightarrow> int option \<Rightarrow> string \<Rightarrow> task_row" where
  "sample_row i parent status =
     \<lparr>tr_id = i, tr_project = ''den'', tr_parent = parent, tr_title = ''task'', tr_description = None,
      tr_status = status, tr_priority = 3, tr_assigned = None, tr_tags = None, tr_summary = None,
      tr_reason = None, tr_remedies = None, tr_next_step = None, tr_human = False, tr_created = 5, tr_updated = 7\<rparr>"

definition sample_tables :: "task_row list \<Rightarrow> (int \<times> int) list \<Rightarrow> task_tables" where
  "sample_tables rows deps =
     (empty_task_tables 9)\<lparr>tk_rows := rows, tk_deps := deps, tk_next_task := 1 + int (length rows)\<rparr>"

text \<open>Task 1 is planned and waits for 2; task 3, in progress, is below 2.\<close>

definition project_rows :: "task_row list" where
  "project_rows = [sample_row 1 None ''planned'', sample_row 2 None ''planned'', sample_row 3 (Some 2) ''in_progress'']"

lemma sample_task_ok: "s \<in> {''planned'', ''in_progress''} \<Longrightarrow> task_ok (row_params (sample_row i p s))"
  by (elim insertE emptyE; simp only:)
    (simp_all add: task_ok_def row_params_def sample_row_def trimmed_def trim_space_graphic graphic_def nilToString_def
      tagsFromJSON_def validStatus_def status_defs is_zero_time_def)

lemma project_tasks:
  "tasks_of (sample_tables project_rows deps) =
     [1 \<mapsto> row_params (sample_row 1 None ''planned''), 2 \<mapsto> row_params (sample_row 2 None ''planned''),
      3 \<mapsto> row_params (sample_row 3 (Some 2) ''in_progress'')]"
proof (rule ext)
  fix i
  have "tr_id (sample_row j p s) = j" for j p s by (simp add: sample_row_def)
  then show "tasks_of (sample_tables project_rows deps) i =
     [1 \<mapsto> row_params (sample_row 1 None ''planned''), 2 \<mapsto> row_params (sample_row 2 None ''planned''),
      3 \<mapsto> row_params (sample_row 3 (Some 2) ''in_progress'')] i"
    by (simp add: tasks_of_def sample_tables_def project_rows_def)
qed

lemma project_parents: "parents (tasks_of (sample_tables project_rows deps)) = {(3, 2)}"
  by (auto simp: parents_def project_tasks row_params_def sample_row_def split: if_splits)

lemma project_inv:
  assumes "deps = [] \<or> deps = [(1, 2)]"
  shows "tables_inv (sample_tables project_rows deps)"
proof -
  let ?T = "tasks_of (sample_tables project_rows deps)"
  have ok: "task_ok t \<and> 0 < i \<and> ta_id t = i" if "?T i = Some t" for i t
    using that sample_task_ok by (auto simp: project_tasks split: if_splits) (simp_all add: row_params_def sample_row_def)
  have par: "\<exists>q. ?T p = Some q \<and> ta_project q = ta_project t" if "?T i = Some t" "ta_parent t = Some p" for i t p
    using that by (auto simp: project_tasks row_params_def sample_row_def split: if_splits)
  have none: "acyclic ({} :: (int \<times> int) set)" by (simp add: acyclic_def)
  then have "acyclic {(3, 2) :: int \<times> int}" by (simp add: acyclic_insert)
  with ok par have "tasks_ok ?T" unfolding tasks_ok_def project_parents by (simp add: project_tasks)
  moreover have "set deps \<subseteq> dom ?T \<times> dom ?T"
    using assms by (elim disjE; simp only: project_tasks) simp_all
  moreover have "acyclic (set deps)" using assms none by (auto simp: acyclic_insert)
  moreover have "distinct deps" using assms by auto
  ultimately have "view_ok (view_of (sample_tables project_rows deps))"
    by (simp add: view_ok_def view_of_def) (simp add: sample_tables_def)
  then show ?thesis
    using \<open>distinct deps\<close> unfolding tables_inv_def
    by (simp add: sample_tables_def empty_task_tables_def project_rows_def sample_row_def)
qed

section \<open>The service as a whole\<close>

text \<open>
  C32. Whatever requests have been served one after the other, and however the driver failed during them, the tasks and
  their dependencies are well formed: every task is valid, a parent exists and is of the same project,
  and neither parents nor dependencies form a cycle. The next request returns; it makes steps of the
  abstract machine (creation, an update, a dependency added or removed), and when it answers an error it
  has changed no task and no dependency.
\<close>

theorem tasks_refine:
  assumes "task_reach db"
  shows "view_ok (pg_view db) \<and>
    (\<exists>e db'. task_serve (pg_task_service reply fp baseURL n) q db = Some (e, db') \<and>
       task_step\<^sup>*\<^sup>* (pg_view db) (pg_view db') \<and> (e \<noteq> None \<longrightarrow> pg_view db' = pg_view db))"
proof -
  have ok: "pg_ok db" using assms by (rule task_reach_ok)
  then have "view_ok (pg_view db)" by (rule pg_tasks.well_formed)
  with pg_service.serve_refines [OF ok, of reply fp baseURL n q] show ?thesis by blast
qed

definition sample_service :: "task_tables pg task_service" where
  "sample_service = pg_task_service (\<lambda>_. Inr \<lparr>tq_code = 200, tq_text = [], tq_message = []\<rparr>) (\<lambda>_. []) ''http'' 4"

definition sample_create :: task_request where
  "sample_create = CreateTaskRequest '' den '' \<lparr>ct_title = ''task'', ct_description = [], ct_priority = 0, ct_tags = [],
     ct_assigned = [], ct_depends = [], ct_parent = None\<rparr>"

definition sample_served :: "task_tables pg" where
  "sample_served = snd (the (task_serve sample_service sample_create (calm_pg (empty_task_tables 9))))"

lemma tasks_refine_witness:
  "task_reach sample_served \<and> vt (pg_view sample_served) 1 \<noteq> None \<and> view_ok (pg_view sample_served) \<and>
   (\<exists>e db'. task_serve sample_service (AddDependencyRequest 1 1) sample_served = Some (e, db') \<and>
     task_step\<^sup>*\<^sup>* (pg_view sample_served) (pg_view db') \<and> (e \<noteq> None \<longrightarrow> pg_view db' = pg_view sample_served))"
proof -
  have "fst (the (task_serve sample_service sample_create (calm_pg (empty_task_tables 9)))) = None \<and>
      task_serve sample_service sample_create (calm_pg (empty_task_tables 9)) \<noteq> None" by code_simp
  then have "task_serve sample_service sample_create (calm_pg (empty_task_tables 9)) = Some (None, sample_served)"
    by (auto simp: sample_served_def)
  then have r: "task_reach sample_served" unfolding sample_service_def
    by (rule task_reach.serve [rotated]) (simp add: calm_pg_def task_reach.start)
  moreover have "vt (pg_view sample_served) 1 \<noteq> None" by code_simp
  ultimately show ?thesis
    using tasks_refine [OF r, folded sample_service_def] tasks_refine [OF r] unfolding sample_service_def by blast
qed

section \<open>Dependencies\<close>



text \<open>
  C34. The check and the insert of \<open>AddDependency\<close> are separate statements and nothing locks the graph. Take any
  two tasks that neither depend on each other nor are in review, done or cancelled. When the search of a request
  that makes the first depend on the second has passed, a second request for the opposite dependency can run to
  its end before the first one's insert. Both dependencies are then stored, so the dependencies have a cycle, and
  no request for a next task, of whatever project and assignee, offers either of the two.
\<close>

theorem dependency_race:
  assumes "tables_inv d" and "i \<noteq> j" and "tasks_of d i = Some t" and "tasks_of d j = Some u"
    and "(i, j) \<notin> (set (tk_deps d))\<^sup>*" and "(j, i) \<notin> (set (tk_deps d))\<^sup>*"
    and "ta_status t \<notin> {StatusReview, StatusDone, StatusCancelled}" and "ta_status u \<notin> {StatusReview, StatusDone, StatusCancelled}"
  shows "createsDependencyCycle i j (calm d) = Some (Inr False, calm d) \<and>
   (\<exists>d2 d3. tk_AddDependency j i (calm_pg d) = Some (Inr (), calm_pg d2) \<and> addDependencySQL i j d2 = Some ((), d3) \<and>
      (i, j) \<in> set (tk_deps d3) \<and> (j, i) \<in> set (tk_deps d3) \<and> \<not> acyclic (set (tk_deps d3)) \<and>
      (\<forall>project who r. nextTaskSQL project who d3 = Some r \<longrightarrow> tr_id r \<noteq> i \<and> tr_id r \<noteq> j))"
proof -
  have "createsDependencyCycle i j (calm d) = Some (Inr False, calm d)"
    using createsDependencyCycle_calm [of i j d] assms(6) by simp
  moreover have "add_dependency_answer (view_of d) j i = None"
    using assms(2-5) by (simp add: add_dependency_answer_def view_of_def)
  with tk_AddDependency_calm [OF assms(1), of j i] obtain d2 where
    d2: "tk_AddDependency j i (calm_pg d) = Some (Inr (), calm_pg d2)" "add_dependency_effect j i d () d2" by auto
  then have e: "events_added ''dependency_added'' {j} (with_dep j i d) d2" by (simp add: add_dependency_effect_def)
  have rows: "tk_rows d2 = tk_rows d" and deps: "(j, i) \<in> set (tk_deps d2)"
    using e by (auto simp: events_added_def)
  have tasks: "tasks_of d2 i = Some t" "tasks_of d2 j = Some u" using assms(3,4) rows by (simp_all add: tasks_of_def)
  define d3 where "d3 = with_dep i j d2"
  have insert: "addDependencySQL i j d2 = Some ((), d3)"
    using tasks assms(2) by (simp add: d3_def addDependencySQL_def with_dep_def task_exists_iff)
  have both: "(i, j) \<in> set (tk_deps d3)" "(j, i) \<in> set (tk_deps d3)" using deps by (simp_all add: d3_def)
  then have "(i, i) \<in> (set (tk_deps d3))\<^sup>+" by (meson trancl.intros)
  then have cycle: "\<not> acyclic (set (tk_deps d3))" unfolding acyclic_def by blast
  have row: "\<exists>r. row_lookup tr_id k (tk_rows d3) = Some r \<and> tr_status r = ta_status x" if "tasks_of d k = Some x" for k x
    using that rows by (auto simp: d3_def tasks_of_Some row_params_def)
  have "unsatisfied d3 (i, j)" "unsatisfied d3 (j, i)"
    using row [OF assms(3)] row [OF assms(4)] assms(7,8) by (auto simp: unsatisfied_def dep_row_def status_defs)
  with both have "\<not> unblocked d3 i" "\<not> unblocked d3 j" by (force simp: unblocked_def list_ex_iff)+
  then have "tr_id r \<noteq> i \<and> tr_id r \<noteq> j" if "nextTaskSQL project who d3 = Some r" for project who r
    using nextTaskSQL_least [of d3 project who] that candidate_row [of _ r d3 project who] by auto
  with calculation d2(1) insert both cycle show ?thesis by blast
qed

lemma dependency_race_witness:
  "\<exists>d2 d3. tk_AddDependency 2 1 (calm_pg (sample_tables project_rows [])) = Some (Inr (), calm_pg d2) \<and>
     addDependencySQL 1 2 d2 = Some ((), d3) \<and> \<not> acyclic (set (tk_deps d3)) \<and>
     (\<forall>r. nextTaskSQL ''den'' None d3 = Some r \<longrightarrow> tr_id r \<noteq> 1 \<and> tr_id r \<noteq> 2)"
proof -
  let ?d = "sample_tables project_rows []"
  have inv: "tables_inv ?d" by (rule project_inv) simp
  have none: "(1 :: int, 2 :: int) \<notin> (set (tk_deps ?d))\<^sup>*" "(2 :: int, 1 :: int) \<notin> (set (tk_deps ?d))\<^sup>*"
    by (simp_all add: sample_tables_def)
  have planned: "ta_status (row_params (sample_row n p ''planned'')) \<notin> {StatusReview, StatusDone, StatusCancelled}" for n p
    by (simp add: row_params_def sample_row_def status_defs)
  have "tasks_of ?d 1 = Some (row_params (sample_row 1 None ''planned''))" "tasks_of ?d 2 = Some (row_params (sample_row 2 None ''planned''))"
    by (simp_all add: project_tasks)
  from dependency_race [OF inv _ this none planned planned] show ?thesis by fastforce
qed

section \<open>Updates\<close>

text \<open>
  C35. \<open>UpdateTask\<close> returns. When it reports an error nothing in the tables has changed. When it
  answers with the task, either the patch changes nothing and the tables are the same, or the task
  carries the patch, one history entry has been written for each changed field (who, what it was, what it
  is), every other task, the dependencies and the acceptances are as they were, and the task, its
  dependents when the status was given, and its old and new parent when the parent was given, are
  reported in the feed of changes.
\<close>

theorem update_exact:
  assumes "tables_inv (pg_data db)" and "patch_ok p" and "\<not> is_zero_time at"
  shows "\<exists>r db'. tk_UpdateTask i p agent at db = Some (r, db') \<and>
    (case r of
       Inl e \<Rightarrow> pg_data db' = pg_data db
     | Inr x \<Rightarrow> (\<exists>t. tasks_of (pg_data db) i = Some t \<and>
         (if taskPatchChanges t p
          then x = patched p at t \<and> tasks_of (pg_data db') = (tasks_of (pg_data db))(i \<mapsto> x) \<and>
               tk_deps (pg_data db') = tk_deps (pg_data db) \<and> tk_accepts (pg_data db') = tk_accepts (pg_data db) \<and>
               tk_history (pg_data db') = tk_history (pg_data db) @
                 history_rows i agent (tk_now (pg_data db)) (tk_next_history (pg_data db)) (history_changes t p) \<and>
               (\<exists>es. tk_events (pg_data db') = tk_events (pg_data db) @ es \<and>
                  er_task ` set es = touched (pg_data db) t x p \<inter> dom (tasks_of (pg_data db)))
          else x = t \<and> pg_data db' = pg_data db)))"
proof (rule store_writeE [OF tk_UpdateTask_write [OF assms(2,3), of i agent] assms(1)])
  fix x db'
  assume a: "tk_UpdateTask i p agent at db = Some (Inr x, db')" "update_effect i p agent at (pg_data db) x (pg_data db')"
  then obtain t where t: "tasks_of (pg_data db) i = Some t"
    and u: "taskPatchChanges t p \<Longrightarrow> patch_allowed (pg_data db) t p at \<and> x = patched p at t \<and> task_updated i t p agent at (pg_data db) (pg_data db')"
      "\<not> taskPatchChanges t p \<Longrightarrow> x = t \<and> pg_data db' = pg_data db"
    unfolding update_effect_def by (auto split: if_splits)
  show ?thesis
  proof (cases "taskPatchChanges t p")
    case True
    note v = task_updated_view [OF assms(1) t conjunct1 [OF u(1) [OF True]] conjunct2 [OF conjunct2 [OF u(1) [OF True]]]]
    have "\<exists>es. tk_events (pg_data db') = tk_events (pg_data db) @ es \<and>
        er_task ` set es = touched (pg_data db) t x p \<inter> dom (tasks_of (pg_data db))"
      using u(1) [OF True] tasks_of_patch [OF assms(2), of "with_history i agent (history_changes t p) (pg_data db)" i t at] t
      by (auto simp: task_updated_def events_added_def)
    with a(1) t v u(1) [OF True] True show ?thesis by simp
  next
    case False
    with a(1) t u(2) show ?thesis by simp
  qed
qed simp

definition sample_patch :: task_patch where
  "sample_patch = empty_patch\<lparr>pa_title := Some ''plan'', pa_status := Some ''done''\<rparr>"

lemma sample_patch_ok: "patch_ok sample_patch"
  by (simp add: sample_patch_def patch_ok_def empty_patch_def validStatus_def status_defs trimmed_def trim_space_graphic graphic_def)

lemma update_exact_witness:
  "case the (tk_UpdateTask 2 sample_patch ''ann'' 8 (calm_pg (sample_tables project_rows [(1, 2)]))) of
     (Inl e, db') \<Rightarrow> False
   | (Inr x, db') \<Rightarrow> ta_title x = ''plan'' \<and> tasks_of (pg_data db') = (tasks_of (sample_tables project_rows [(1, 2)]))(2 \<mapsto> x) \<and>
       map hr_field (tk_history (pg_data db')) = [''title'', ''status''] \<and> map er_task (tk_events (pg_data db')) = [2, 1]"
proof -
  let ?d = "sample_tables project_rows [(1, 2)]"
  let ?run = "tk_UpdateTask 2 sample_patch ''ann'' 8 (calm_pg ?d)"
  have t: "\<not> is_zero_time 8" by (simp add: is_zero_time_def)
  have inv: "tables_inv (pg_data (calm_pg ?d))" using project_inv by simp
  have run: "(case ?run of None \<Rightarrow> False | Some (Inl e, db') \<Rightarrow> False | Some (Inr x, db') \<Rightarrow>
      ta_title x = ''plan'' \<and> map hr_field (tk_history (pg_data db')) = [''title'', ''status''] \<and>
      map er_task (tk_events (pg_data db')) = [2, 1])" by code_simp
  then obtain x db' where r: "?run = Some (Inr x, db')" by (auto split: option.splits prod.splits sum.splits)
  have t2: "tasks_of ?d 2 = Some (row_params (sample_row 2 None ''planned''))" by (simp add: project_tasks)
  have ch: "taskPatchChanges (row_params (sample_row 2 None ''planned'')) sample_patch" by code_simp
  from r update_exact [OF inv sample_patch_ok t, of 2 "''ann''"] t2 ch
  have "tasks_of (pg_data db') = (tasks_of ?d)(2 \<mapsto> x)" by simp
  with r run show ?thesis by simp
qed

section \<open>The review transition\<close>

text \<open>
  C36. On a driver that does not fail, the transition to review answers exactly by the task's state: an
  unknown task or one of another project is not found; a task already in review is answered as it is; a
  task in progress goes to review, with its history entry and its changes reported, and asking again then
  changes nothing; and from every other status the transition is refused and nothing changes.
\<close>

theorem review_exact:
  assumes inv: "tables_inv d" and at: "\<not> is_zero_time at"
  shows "case tasks_of d i of
      None \<Rightarrow> tk_TransitionTaskToReview project i agent at (calm_pg d) = Some (Inl (taskNotFound i), calm_pg d)
    | Some t \<Rightarrow>
        if ta_project t \<noteq> project
        then tk_TransitionTaskToReview project i agent at (calm_pg d) = Some (Inl (taskNotFound i), calm_pg d)
        else if ta_status t = StatusReview
        then tk_TransitionTaskToReview project i agent at (calm_pg d) = Some (Inr (t, TaskTransitionAlreadySatisfied), calm_pg d)
        else if ta_status t = StatusInProgress
        then \<exists>d'. tk_TransitionTaskToReview project i agent at (calm_pg d) =
               Some (Inr (patched review_patch at t, TaskTransitionApplied), calm_pg d') \<and>
             task_updated i t review_patch agent at d d' \<and>
             tk_TransitionTaskToReview project i agent at (calm_pg d') =
               Some (Inr (patched review_patch at t, TaskTransitionAlreadySatisfied), calm_pg d')
        else tk_TransitionTaskToReview project i agent at (calm_pg d) =
               Some (Inl (tasks_conflict (Wrapped [] ErrReviewTransitionState ('': current status is '' @ ta_status t))
                            ''review_transition_ineligible''), calm_pg d)"
proof (cases "tasks_of d i")
  case None
  with tk_TransitionTaskToReview_calm [OF assms, of project i agent] show ?thesis by simp
next
  case (Some t)
  show ?thesis
  proof (cases "ta_project t = project \<and> ta_status t = StatusInProgress")
    case True
    with tk_TransitionTaskToReview_calm [OF assms, of project i agent] Some obtain d' where
      d': "tk_TransitionTaskToReview project i agent at (calm_pg d) = Some (Inr (patched review_patch at t, TaskTransitionApplied), calm_pg d')"
      "task_updated i t review_patch agent at d d'" by auto
    note v = task_updated_view [OF inv Some review_patch_allowed [OF at] d'(2)]
    have "tasks_of d' i = Some (patched review_patch at t)" using v(2) by simp
    moreover have "ta_status (patched review_patch at t) = StatusReview" by (simp add: review_patch_def coalesce_def)
    ultimately have "tk_TransitionTaskToReview project i agent at (calm_pg d') =
        Some (Inr (patched review_patch at t, TaskTransitionAlreadySatisfied), calm_pg d')"
      using tk_TransitionTaskToReview_calm [OF v(1) at, of project i agent] True by simp
    with d' Some True show ?thesis by auto
  next
    case False
    with tk_TransitionTaskToReview_calm [OF assms, of project i agent] Some show ?thesis by (auto split: if_splits)
  qed
qed

lemma review_exact_witness:
  "\<exists>d'. tk_TransitionTaskToReview ''den'' 3 ''ann'' 8 (calm_pg (sample_tables project_rows [])) =
     Some (Inr (patched review_patch 8 (row_params (sample_row 3 (Some 2) ''in_progress'')), TaskTransitionApplied), calm_pg d')"
proof -
  let ?t = "row_params (sample_row 3 (Some 2) ''in_progress'')"
  have t: "tasks_of (sample_tables project_rows []) 3 = Some ?t" by (simp add: project_tasks)
  have p: "ta_project ?t = ''den''" "ta_status ?t = StatusInProgress" by (simp_all add: row_params_def sample_row_def status_defs)
  have n: "\<not> is_zero_time 8" by (simp add: is_zero_time_def)
  show ?thesis
    using review_exact [OF project_inv [of "[]"] n, of "''den''" 3 "''ann''"] p unfolding t by auto
qed

section \<open>Human acceptance\<close>

lemma accept_lookup:
  assumes "getHumanAcceptanceSQL (av_task v) (av_key v) d = None"
  shows "getHumanAcceptanceSQL (av_task v) (av_key v) (with_accept v d) = Some (accept_row_of v (tk_next_accept d))"
proof -
  have "find P xs = None \<Longrightarrow> P y \<Longrightarrow> find P (xs @ [y]) = Some y" for P :: "accept_row \<Rightarrow> bool" and xs y by (induction xs) auto
  with assms show ?thesis by (simp add: getHumanAcceptanceSQL_def with_accept_def accept_row_of_def)
qed

lemma accept_recorded_lookup:
  assumes inv: "tables_inv d" and at: "\<not> is_zero_time (ac_created c)" and t: "tasks_of d (ac_task c) = Some t"
    and none: "getHumanAcceptanceSQL (ac_task c) (ac_key c) d = None" and rec: "accept_recorded c t d m d'"
  shows "\<exists>a. getHumanAcceptanceSQL (ac_task c) (ac_key c) d' = Some a \<and> ar_fingerprint a = ac_fingerprint c \<and>
    am_review m = scanHumanAcceptance a"
proof -
  from rec obtain d1 d2 p where 1: "task_part c t d (am_task m) d1" and 2: "parent_part c (am_task m) d1 p d2"
    and r: "am_review m = (review_of c t (am_task m) p)\<lparr>av_id := tk_next_accept d2\<rparr>"
    and 3: "events_added ''human_acceptance_recorded'' {ta_id t} (with_accept (review_of c t (am_task m) p) d2) d'"
    unfolding accept_recorded_def by blast
  let ?v = "review_of c t (am_task m) p"
  have v: "av_task ?v = ac_task c" "av_key ?v = ac_key c" "av_fingerprint ?v = ac_fingerprint c"
    by (simp_all add: review_of_def Let_def)
  note v1 = task_part_view [OF inv t at 1]
  note v2 = parent_part_view [OF v1(1) at 2]
  have "tk_accepts d2 = tk_accepts d" using v1(3) v2(2) by simp
  then have "getHumanAcceptanceSQL (av_task ?v) (av_key ?v) d2 = None" using none v by (simp add: getHumanAcceptanceSQL_def)
  from accept_lookup [OF this] have "getHumanAcceptanceSQL (ac_task c) (ac_key c) d' = Some (accept_row_of ?v (tk_next_accept d2))"
    using events_added_frame(4) [OF 3] v by (simp add: getHumanAcceptanceSQL_def)
  moreover have "ar_fingerprint (accept_row_of ?v (tk_next_accept d2)) = ac_fingerprint c" using v by (simp add: accept_row_of_def)
  ultimately show ?thesis using r by simp
qed

lemma accept_effect_lookup:
  assumes inv: "tables_inv d" and at: "\<not> is_zero_time (ac_created c)" and eff: "accept_effect c d m d'"
  shows "\<exists>a. getHumanAcceptanceSQL (ac_task c) (ac_key c) d' = Some a \<and> ar_fingerprint a = ac_fingerprint c \<and>
    am_review m = scanHumanAcceptance a"
proof (cases "getHumanAcceptanceSQL (ac_task c) (ac_key c) d")
  case None
  with eff obtain t where "tasks_of d (ac_task c) = Some t" "accept_recorded c t d m d'" by (auto simp: accept_effect_def)
  from accept_recorded_lookup [OF inv at this(1) None this(2)] show ?thesis .
next
  case (Some a)
  with eff show ?thesis by (auto simp: accept_effect_def)
qed

text \<open>What a first request may do to the statuses of the task and of its parent.\<close>

definition acceptance_allowed :: "acceptance_command \<Rightarrow> task_tables \<Rightarrow> acceptance_mutation \<Rightarrow> bool" where
  "acceptance_allowed c d m \<longleftrightarrow>
     (\<exists>t d1. tasks_of d (ac_task c) = Some t \<and> task_part c t d (am_task m) d1 \<and>
        (ta_status t = StatusCancelled \<longrightarrow> am_task m = t) \<and>
        (am_parent m \<noteq> None \<longrightarrow> af_effect (ac_facts c) = HumanAcceptanceCompleteTaskAndParent \<and>
           (\<exists>i. ta_parent (am_task m) = Some i \<and> parent_eligible d1 i)))"

lemma acceptance_effects:
  assumes "accept_effect c d m d'" and "getHumanAcceptanceSQL (ac_task c) (ac_key c) d = None"
  shows "acceptance_allowed c d m"
proof -
  from assms obtain t where t: "tasks_of d (ac_task c) = Some t"
    "ta_status t = StatusCancelled \<longrightarrow> af_effect (ac_facts c) = HumanAcceptanceRecordOnly" "accept_recorded c t d m d'"
    by (auto simp: accept_effect_def)
  then obtain d1 d2 p where p: "task_part c t d (am_task m) d1" "parent_part c (am_task m) d1 p d2" "am_parent m = map_option snd p"
    unfolding accept_recorded_def by blast
  have "ta_status t = StatusCancelled \<longrightarrow> am_task m = t" using t(2) p(1) by (auto simp: task_part_def)
  moreover have "am_parent m \<noteq> None \<longrightarrow> af_effect (ac_facts c) = HumanAcceptanceCompleteTaskAndParent \<and>
       (\<exists>i. ta_parent (am_task m) = Some i \<and> parent_eligible d1 i)"
    using p(2,3) by (auto simp: parent_part_def parent_completed_def split: if_splits)
  ultimately show ?thesis using t(1) p(1) unfolding acceptance_allowed_def by blast
qed

text \<open>
  C37. A task is accepted once per idempotency key. A request that succeeds leaves one acceptance with
  its key and its fingerprint; a cancelled task is never completed by it; the parent is completed only on
  request and only when all its children are done or cancelled and all its dependencies satisfied. Any
  later request with the same task and key changes nothing, whatever facts it carries, and is answered
  with the stored review or, when its facts differ, with an error.
\<close>

theorem acceptance_once:
  assumes inv: "tables_inv (pg_data db)" and at: "\<not> is_zero_time (ac_created c)" "\<not> is_zero_time (ac_created c')"
    and first: "tk_RecordHumanAcceptance c db = Some (Inr m, db1)"
    and same: "ac_task c' = ac_task c" "ac_key c' = ac_key c"
  shows "(getHumanAcceptanceSQL (ac_task c) (ac_key c) (pg_data db) = None \<longrightarrow> acceptance_allowed c (pg_data db) m) \<and>
    (\<exists>r db2. tk_RecordHumanAcceptance c' db1 = Some (r, db2) \<and> pg_data db2 = pg_data db1 \<and>
      (case r of Inl e \<Rightarrow> True | Inr m' \<Rightarrow> ac_fingerprint c' = ac_fingerprint c \<and> am_review m' = am_review m))"
proof
  have 1: "tables_inv (pg_data db1) \<and> accept_effect c (pg_data db) m (pg_data db1)"
    by (rule store_writeE [OF tk_RecordHumanAcceptance_write [OF at(1)] inv]) (use first in auto)
  then show "getHumanAcceptanceSQL (ac_task c) (ac_key c) (pg_data db) = None \<longrightarrow> acceptance_allowed c (pg_data db) m"
    using acceptance_effects by blast
  from accept_effect_lookup [OF inv at(1) conjunct2 [OF 1]] obtain a where
    a: "getHumanAcceptanceSQL (ac_task c') (ac_key c') (pg_data db1) = Some a" "ar_fingerprint a = ac_fingerprint c"
      "am_review m = scanHumanAcceptance a" using same by auto
  from tk_RecordHumanAcceptance_write [OF at(2)] conjunct1 [OF 1]
  show "\<exists>r db2. tk_RecordHumanAcceptance c' db1 = Some (r, db2) \<and> pg_data db2 = pg_data db1 \<and>
      (case r of Inl e \<Rightarrow> True | Inr m' \<Rightarrow> ac_fingerprint c' = ac_fingerprint c \<and> am_review m' = am_review m)"
  proof (cases rule: store_writeE)
    case (error e db')
    then show ?thesis by auto
  next
    case (answer m' db')
    then have "ar_fingerprint a = ac_fingerprint c'" "pg_data db' = pg_data db1" "am_review m' = scanHumanAcceptance a"
      using a(1) by (auto simp: accept_effect_def)
    with answer(1) a show ?thesis by auto
  qed
qed

definition sample_facts :: acceptance_facts where
  "sample_facts = \<lparr>af_reviewer = ''ann'', af_verdict = VerdictLooksGood, af_rationale = ''fine'', af_revision = [],
     af_build = [], af_environment = [], af_evidence = [], af_effect = HumanAcceptanceCompleteTaskAndParent\<rparr>"

definition sample_command :: acceptance_command where
  "sample_command = \<lparr>ac_task = 3, ac_key = ''k'', ac_fingerprint = ''f'', ac_facts = sample_facts, ac_expected = Some 7, ac_created = 8\<rparr>"

lemma acceptance_once_witness:
  "\<exists>m db1 r db2. tk_RecordHumanAcceptance sample_command (calm_pg (sample_tables project_rows [])) = Some (Inr m, db1) \<and>
     am_changed m = [3, 2] \<and> acceptance_allowed sample_command (sample_tables project_rows []) m \<and>
     tk_RecordHumanAcceptance (sample_command\<lparr>ac_fingerprint := ''g''\<rparr>) db1 = Some (r, db2) \<and> pg_data db2 = pg_data db1"
proof -
  let ?db = "calm_pg (sample_tables project_rows [])"
  have run: "(case tk_RecordHumanAcceptance sample_command ?db of Some (Inr m, db1) \<Rightarrow> am_changed m = [3, 2] | _ \<Rightarrow> False)"
    by code_simp
  then obtain m db1 where 1: "tk_RecordHumanAcceptance sample_command ?db = Some (Inr m, db1)" "am_changed m = [3, 2]"
    by (auto split: option.splits prod.splits sum.splits)
  have inv: "tables_inv (pg_data ?db)" using project_inv by simp
  have at: "\<not> is_zero_time (ac_created sample_command)" "\<not> is_zero_time (ac_created (sample_command\<lparr>ac_fingerprint := ''g''\<rparr>))"
    by (simp_all add: sample_command_def is_zero_time_def)
  have none: "getHumanAcceptanceSQL (ac_task sample_command) (ac_key sample_command) (pg_data ?db) = None" by code_simp
  from acceptance_once [OF inv at 1(1)] none 1 show ?thesis by fastforce
qed

section \<open>The next task\<close>

text \<open>
  C38. \<open>NextTask\<close> makes progress. Take a non-empty set of planned top-level tasks of a project that the
  caller may work on and that wait, if they wait, only for each other. Then, on a driver that does not
  fail, \<open>NextTask\<close> offers a task: one whose dependencies are all satisfied, and the least of all
  candidates by tier (subtasks of started parents first), priority, number of dependencies and identity.
\<close>

theorem next_task_progress:
  assumes inv: "tables_inv d" and R: "R \<subseteq> set (tk_rows d)" "R \<noteq> {}"
    and open_rows: "\<And>r. r \<in> R \<Longrightarrow> tr_project r = project \<and> tr_parent r = None \<and> tr_status r = ''planned'' \<and>
        assignable (emptyToNil assigned) r"
    and wait: "\<And>r e. r \<in> R \<Longrightarrow> e \<in> set (tk_deps d) \<Longrightarrow> fst e = tr_id r \<Longrightarrow> unsatisfied d e \<Longrightarrow> \<exists>q\<in>R. tr_id q = snd e"
  shows "\<exists>tier r. tk_NextTask project assigned (calm_pg d) = (Inr (Some (row_params r)), calm_pg d) \<and>
    (tier, r) \<in> set (next_candidates d project (emptyToNil assigned)) \<and>
    (\<forall>j t. (tr_id r, j) \<in> set (tk_deps d) \<longrightarrow> tasks_of d j = Some t \<longrightarrow> dependencySatisfiedStatus (ta_status t)) \<and>
    (\<forall>c\<in>set (next_candidates d project (emptyToNil assigned)). next_key d (tier, r) \<le> next_key d c)"
proof -
  let ?who = "emptyToNil assigned"
  have "\<exists>r\<in>R. unblocked d (tr_id r)" by (rule some_unblocked [OF inv R]) (rule wait)
  then obtain r0 where r0: "r0 \<in> R" "unblocked d (tr_id r0)" by blast
  have "(1, r0) \<in> set (next_candidates d project ?who)"
    using r0 R(1) open_rows [OF r0(1)] by (auto simp: next_candidates_def top_candidate_def)
  with nextTaskSQL_least [of d project ?who] obtain tier r where
    r: "nextTaskSQL project ?who d = Some r" "(tier, r) \<in> set (next_candidates d project ?who)"
      "\<forall>c\<in>set (next_candidates d project ?who). next_key d (tier, r) \<le> next_key d c"
    by (auto split: option.splits)
  have "\<not> unsatisfied d e" if "e \<in> set (tk_deps d)" "fst e = tr_id r" for e
    using candidate_row [OF r(2)] that by (auto simp: unblocked_def list_ex_iff)
  then have "\<forall>j t. (tr_id r, j) \<in> set (tk_deps d) \<longrightarrow> tasks_of d j = Some t \<longrightarrow> dependencySatisfiedStatus (ta_status t)"
    unfolding unsatisfied_iff by (metis fst_conv snd_conv)
  moreover have "tk_NextTask project assigned (calm_pg d) = (Inr (Some (row_params r)), calm_pg d)"
    using tk_NextTask_calm [OF inv, of project assigned] r(1) by simp
  ultimately show ?thesis using r(2,3) by (intro exI conjI)
qed

lemma next_task_progress_witness:
  "\<exists>tier r. tk_NextTask ''den'' [] (calm_pg (sample_tables project_rows [(1, 2)])) =
     (Inr (Some (row_params r)), calm_pg (sample_tables project_rows [(1, 2)])) \<and>
     (tier, r) \<in> set (next_candidates (sample_tables project_rows [(1, 2)]) ''den'' None)"
proof -
  let ?R = "{sample_row 1 None ''planned'', sample_row 2 None ''planned''}"
  have inv: "tables_inv (sample_tables project_rows [(1, 2)])" using project_inv by simp
  have rows: "?R \<subseteq> set (tk_rows (sample_tables project_rows [(1, 2)]))" by (simp add: sample_tables_def project_rows_def)
  have ne: "?R \<noteq> {}" by simp
  have deps: "tk_deps (sample_tables project_rows [(1, 2)]) = [(1, 2)]" by (simp add: sample_tables_def)
  have ids: "tr_id (sample_row i p st) = i" for i p st by (simp add: sample_row_def)
  have open_rows: "tr_project r = ''den'' \<and> tr_parent r = None \<and> tr_status r = ''planned'' \<and> assignable (emptyToNil []) r"
    if "r \<in> ?R" for r
  proof -
    from that have "\<exists>i. r = sample_row i None ''planned''" by blast
    moreover have "tr_project (sample_row i None ''planned'') = ''den'' \<and> tr_parent (sample_row i None ''planned'') = None \<and>
        tr_status (sample_row i None ''planned'') = ''planned'' \<and> assignable (emptyToNil []) (sample_row i None ''planned'')" for i
      by (simp add: sample_row_def assignable_def emptyToNil_def)
    ultimately show ?thesis by (elim exE) (simp only:)
  qed
  have wait: "\<exists>q\<in>?R. tr_id q = snd e" if "e \<in> set (tk_deps (sample_tables project_rows [(1, 2)]))" for e
    using that by (simp add: deps ids)
  have "\<exists>tier r. tk_NextTask ''den'' [] (calm_pg (sample_tables project_rows [(1, 2)])) =
     (Inr (Some (row_params r)), calm_pg (sample_tables project_rows [(1, 2)])) \<and>
     (tier, r) \<in> set (next_candidates (sample_tables project_rows [(1, 2)]) ''den'' (emptyToNil [])) \<and>
    (\<forall>j t. (tr_id r, j) \<in> set (tk_deps (sample_tables project_rows [(1, 2)])) \<longrightarrow>
       tasks_of (sample_tables project_rows [(1, 2)]) j = Some t \<longrightarrow> dependencySatisfiedStatus (ta_status t)) \<and>
    (\<forall>c\<in>set (next_candidates (sample_tables project_rows [(1, 2)]) ''den'' (emptyToNil [])).
       next_key (sample_tables project_rows [(1, 2)]) (tier, r) \<le> next_key (sample_tables project_rows [(1, 2)]) c)"
    by (rule next_task_progress [OF inv rows ne open_rows wait])
  then show ?thesis by (auto simp: emptyToNil_def)
qed

end
