(* ===== verification/Review_Checks.thy ===== *)
theory Review_Checks
  imports Go_Text Shared_Api "HOL-Library.List_Lexorder" "HOL-Library.Char_ord" "HOL-Library.Product_Lexorder" "HOL-Library.AList"
begin

text \<open>
  Package \<open>review\<close>, what its parts share: the errors and constants of \<open>types.go\<close>, the states of a
  GitHub check gate, its results and events, and helpers of \<open>service.go\<close>. A validation error keeps its
  text, its code and its status; the name of the field and the reference to a document, which only
  decorate the answer, are left out.
\<close>

section \<open>Errors\<close>

definition review_error :: "string \<Rightarrow> go_err" where
  "review_error s = Sentinel ''review'' s"

definition ErrReviewMissingProjectID :: go_err where "ErrReviewMissingProjectID = review_error ''project_id is required''"
definition ErrReviewMissingTaskID :: go_err where "ErrReviewMissingTaskID = review_error ''task_id is required''"
definition ErrMissingActor :: go_err where "ErrMissingActor = review_error ''actor is required''"
definition ErrInvalidTaskState :: go_err where "ErrInvalidTaskState = review_error ''task is not reviewable for packet kind''"
definition ErrGitHubChecksUnset :: go_err where "ErrGitHubChecksUnset = review_error ''github check provider is not configured''"

definition review_invalid :: "go_err \<Rightarrow> string \<Rightarrow> go_err" where
  "review_invalid e code = ServiceErr e code 400"

definition review_badRequest :: "go_err \<Rightarrow> go_err" where "review_badRequest e = ServiceErr e ''bad_request'' 400"
definition review_notFound :: "go_err \<Rightarrow> string \<Rightarrow> go_err" where "review_notFound e code = ServiceErr e code 404"
definition review_conflict :: "go_err \<Rightarrow> string \<Rightarrow> go_err" where "review_conflict e code = ServiceErr e code 409"

section \<open>States\<close>

definition GatePending :: string where "GatePending = ''pending''"
definition GatePassed :: string where "GatePassed = ''passed''"
definition GateFailed :: string where "GateFailed = ''failed''"
definition GateTimedOut :: string where "GateTimedOut = ''timed_out''"
definition GateSuperseded :: string where "GateSuperseded = ''superseded''"

lemmas gate_states = GatePending_def GatePassed_def GateFailed_def GateTimedOut_def GateSuperseded_def

definition ReasonChecksPassed :: string where "ReasonChecksPassed = ''checks_passed''"
definition ReasonChecksFailed :: string where "ReasonChecksFailed = ''checks_failed''"
definition ReasonRequiredChecksMissing :: string where "ReasonRequiredChecksMissing = ''required_checks_missing''"
definition ReasonTimedOut :: string where "ReasonTimedOut = ''timeout''"
definition ReasonSuperseded :: string where "ReasonSuperseded = ''superseded''"

lemmas gate_reasons = ReasonChecksPassed_def ReasonChecksFailed_def ReasonRequiredChecksMissing_def
  ReasonTimedOut_def ReasonSuperseded_def

definition EvidenceNotRequired :: string where "EvidenceNotRequired = ''not_required''"
definition EvidencePending :: string where "EvidencePending = ''pending''"
definition EvidencePosted :: string where "EvidencePosted = ''posted''"
definition EvidenceError :: string where "EvidenceError = ''error''"

lemmas evidence_states = EvidenceNotRequired_def EvidencePending_def EvidencePosted_def EvidenceError_def

definition validGitHubCheckGateStatus :: "string \<Rightarrow> bool" where
  "validGitHubCheckGateStatus s \<longleftrightarrow> s \<in> set [GatePending, GatePassed, GateFailed, GateTimedOut, GateSuperseded]"

definition terminalGitHubCheckGateStatus :: "string \<Rightarrow> bool" where
  "terminalGitHubCheckGateStatus s \<longleftrightarrow> s \<in> set [GatePassed, GateFailed, GateTimedOut, GateSuperseded]"

section \<open>Check runs and results\<close>

record check_run =
  gr_name :: string
  gr_sha :: string
  gr_status :: string
  gr_conclusion :: string
  gr_url :: string
  gr_details :: string
  gr_summary :: string
  gr_created :: "time option"
  gr_started :: "time option"
  gr_completed :: "time option"

record check_result =
  rs_status :: string
  rs_summary :: string
  rs_failure :: string
  rs_reason :: string
  rs_runs :: "check_run list"
  rs_observed :: "check_run list"
  rs_missing :: "string list"
  rs_all_terminal :: bool

record change_query =
  cq_repository :: string
  cq_commit :: string
  cq_ref :: string
  cq_required :: "string list"
  cq_later_limit :: int

section \<open>Helpers\<close>

definition trimSlice :: "string list \<Rightarrow> string list" where
  "trimSlice vs = filter (\<lambda>v. v \<noteq> []) (map trim_space vs)"

fun firstNonEmpty :: "string list \<Rightarrow> string" where
  "firstNonEmpty [] = []"
| "firstNonEmpty (v # vs) = (if trim_space v \<noteq> [] then trim_space v else firstNonEmpty vs)"

text \<open>\<open>strings.Join\<close>.\<close>

fun join_with :: "string \<Rightarrow> string list \<Rightarrow> string" where
  "join_with sep [] = []"
| "join_with sep [x] = x"
| "join_with sep (x # y # zs) = x @ sep @ join_with sep (y # zs)"

definition validGitHubSHA :: "string \<Rightarrow> bool" where
  "validGitHubSHA s \<longleftrightarrow> length s = 40 \<and>
     list_all (\<lambda>c. is_digit c \<or> (let n = of_char c :: nat in 97 \<le> n \<and> n \<le> 102)) s"

definition validGitHubRepository :: "string \<Rightarrow> bool" where
  "validGitHubRepository s \<longleftrightarrow>
     (case split_on (CHR ''/'') s of [a, b] \<Rightarrow> trim_space a \<noteq> [] \<and> trim_space b \<noteq> [] | _ \<Rightarrow> False)"

lemma trimSlice_ok: "v \<in> set (trimSlice vs) \<Longrightarrow> v \<noteq> [] \<and> trim_space v = v"
  by (auto simp: trimSlice_def)

lemma firstNonEmpty_neat: "v \<noteq> [] \<Longrightarrow> trim_space v = v \<Longrightarrow> firstNonEmpty (v # vs) = v"
  by simp

section \<open>The evaluation of checks\<close>

text \<open>
  Package \<open>review\<close>, the decision about a gate (\<open>github_checks.go\<close>): which of GitHub's check runs count
  for the required checks of a commit, on the commit itself, on later commits that contain it and on
  earlier ones, and what follows for the gate. A Go map from names to runs is an association list with
  one entry for a name.
\<close>

section \<open>What GitHub reports\<close>

record check_run_response =
  cr_id :: int
  cr_sha :: string
  cr_name :: string
  cr_status :: string
  cr_conclusion :: string
  cr_html_url :: string
  cr_details_url :: string
  cr_created :: "time option"
  cr_started :: "time option"
  cr_completed :: "time option"
  cr_title :: string
  cr_summary :: string

record commit_check_runs =
  cc_sha :: string
  cc_runs :: "check_run_response list"

record workflow_run =
  wr_id :: int
  wr_sha :: string
  wr_path :: string
  wr_event :: string
  wr_status :: string
  wr_conclusion :: string

type_synonym runs_by_name = "(string \<times> check_run_response) list"

definition completed :: "check_run_response \<Rightarrow> bool" where
  "completed r \<longleftrightarrow> cr_status r = ''completed''"

definition successfulGitHubConclusion :: "string \<Rightarrow> bool" where
  "successfulGitHubConclusion c \<longleftrightarrow> c \<in> set [''success'', ''neutral'', ''skipped'']"

definition succeeded :: "check_run_response \<Rightarrow> bool" where
  "succeeded r \<longleftrightarrow> completed r \<and> successfulGitHubConclusion (cr_conclusion r)"

definition convertGitHubCheckRun :: "check_run_response \<Rightarrow> check_run" where
  "convertGitHubCheckRun r =
     \<lparr>gr_name = cr_name r, gr_sha = to_lower (cr_sha r), gr_status = cr_status r, gr_conclusion = cr_conclusion r,
      gr_url = cr_html_url r, gr_details = cr_details_url r, gr_summary = firstNonEmpty [cr_title r, cr_summary r],
      gr_created = cr_created r, gr_started = cr_started r, gr_completed = cr_completed r\<rparr>"

section \<open>The newest run of a name\<close>

definition put_newer :: "check_run_response \<Rightarrow> runs_by_name \<Rightarrow> runs_by_name" where
  "put_newer r m =
     (case map_of m (cr_name r) of
        None \<Rightarrow> AList.update (cr_name r) r m
      | Some old \<Rightarrow> if cr_id r > cr_id old then AList.update (cr_name r) r m else m)"

definition latestGitHubCheckRunsByName :: "check_run_response list \<Rightarrow> runs_by_name" where
  "latestGitHubCheckRunsByName rs = fold put_newer rs []"

definition latestRunsPerCommit :: "commit_check_runs list \<Rightarrow> runs_by_name list" where
  "latestRunsPerCommit cs = map (\<lambda>c. latestGitHubCheckRunsByName (cc_runs c)) cs"

definition githubRunsCompleted :: "check_run_response list \<Rightarrow> bool" where
  "githubRunsCompleted rs \<longleftrightarrow> list_all (\<lambda>(_, r). completed r) (latestGitHubCheckRunsByName rs)"

section \<open>Later commits\<close>

definition checksNeedingLaterCommits :: "check_run_response list \<Rightarrow> string list \<Rightarrow> string list" where
  "checksNeedingLaterCommits own required =
     (let latest = latestGitHubCheckRunsByName own in
      filter (\<lambda>n. case map_of latest n of
          None \<Rightarrow> True
        | Some r \<Rightarrow> \<not> (\<not> completed r \<or> successfulGitHubConclusion (cr_conclusion r))) (trimSlice required))"

fun firstLaterSuccess :: "runs_by_name list \<Rightarrow> string \<Rightarrow> check_run_response option" where
  "firstLaterSuccess [] n = None"
| "firstLaterSuccess (m # ms) n =
     (case map_of m n of
        Some r \<Rightarrow> if succeeded r then Some r else firstLaterSuccess ms n
      | None \<Rightarrow> firstLaterSuccess ms n)"

definition laterCommitsSatisfy :: "commit_check_runs list \<Rightarrow> string list \<Rightarrow> bool" where
  "laterCommitsSatisfy later needed \<longleftrightarrow> list_all (\<lambda>n. firstLaterSuccess (latestRunsPerCommit later) n \<noteq> None) needed"

text \<open>The nearest later run in progress and the nearest of any state; the loop's two variables are its argument.\<close>

fun later_run_loop :: "runs_by_name list \<Rightarrow> string \<Rightarrow> check_run_response option \<times> check_run_response option \<Rightarrow>
    check_run_response option \<times> check_run_response option" where
  "later_run_loop [] n (running, seen) = (running, seen)"
| "later_run_loop (m # ms) n (running, seen) =
     (case map_of m n of
        None \<Rightarrow> later_run_loop ms n (running, seen)
      | Some r \<Rightarrow>
          later_run_loop ms n
            (if \<not> completed r \<and> running = None then Some r else running,
             if seen = None then Some r else seen))"

definition laterRunState :: "runs_by_name list \<Rightarrow> string \<Rightarrow> check_run_response option \<times> check_run_response option" where
  "laterRunState later n = later_run_loop later n (None, None)"

section \<open>The decision\<close>

record tally =
  ta_missing :: "string list"
  ta_pending :: "string list"
  ta_failed :: "string list"
  ta_runs :: "check_run list"
  ta_later :: bool
  ta_earlier :: bool

definition no_tally :: tally where
  "no_tally = \<lparr>ta_missing = [], ta_pending = [], ta_failed = [], ta_runs = [], ta_later = False, ta_earlier = False\<rparr>"

definition add_run :: "check_run_response \<Rightarrow> tally \<Rightarrow> tally" where
  "add_run r t = t\<lparr>ta_runs := ta_runs t @ [convertGitHubCheckRun r]\<rparr>"

definition wait_for :: "string \<Rightarrow> tally \<Rightarrow> tally" where
  "wait_for n t = t\<lparr>ta_pending := ta_pending t @ [n]\<rparr>"

definition pending_run :: "string \<Rightarrow> check_run" where
  "pending_run n = \<lparr>gr_name = n, gr_sha = [], gr_status = GatePending, gr_conclusion = [], gr_url = [], gr_details = [],
     gr_summary = [], gr_created = None, gr_started = None, gr_completed = None\<rparr>"

text \<open>One pass through the loop over the required checks.\<close>

definition judge_check :: "runs_by_name \<Rightarrow> runs_by_name list \<Rightarrow> runs_by_name \<Rightarrow> string \<Rightarrow> tally \<Rightarrow> tally" where
  "judge_check own later earlier n t =
     (let mine = map_of own n in
      case mine of
        Some r \<Rightarrow>
          if \<not> completed r then wait_for n (add_run r t)
          else if successfulGitHubConclusion (cr_conclusion r) then add_run r t
          else (case firstLaterSuccess later n of
              Some s \<Rightarrow> (add_run s t)\<lparr>ta_later := True\<rparr>
            | None \<Rightarrow>
                (case laterRunState later n of
                   (Some running, _) \<Rightarrow> add_run running (wait_for n t)
                 | (None, _) \<Rightarrow>
                     if cr_conclusion r \<noteq> ''cancelled'' then
                       add_run r (t\<lparr>ta_failed := ta_failed t @ [n @ '' ('' @ firstNonEmpty [cr_conclusion r, ''unknown''] @ '')'']\<rparr>)
                     else add_run r (wait_for n t)))
      | None \<Rightarrow>
          (case firstLaterSuccess later n of
             Some s \<Rightarrow> (add_run s t)\<lparr>ta_later := True\<rparr>
           | None \<Rightarrow>
               (case laterRunState later n of
                  (Some running, _) \<Rightarrow> add_run running (wait_for n t)
                | (None, Some seen) \<Rightarrow> add_run seen (wait_for n t)
                | (None, None) \<Rightarrow>
                    (case map_of earlier n of
                       Some e \<Rightarrow> (add_run e t)\<lparr>ta_earlier := True\<rparr>
                     | None \<Rightarrow> t\<lparr>ta_missing := ta_missing t @ [n], ta_runs := ta_runs t @ [pending_run n]\<rparr>))))"

definition evaluateGitHubGateRuns ::
    "check_run_response list \<Rightarrow> commit_check_runs list \<Rightarrow> runs_by_name \<Rightarrow> string list \<Rightarrow> check_result" where
  "evaluateGitHubGateRuns own later earlier required =
     (let ownLatest = latestGitHubCheckRunsByName own;
          laterLatest = latestRunsPerCommit later;
          observed = sort_key gr_name (map (\<lambda>(_, r). convertGitHubCheckRun r) ownLatest);
          all_terminal = (ownLatest \<noteq> [] \<and> list_all (\<lambda>(_, r). completed r) ownLatest);
          t = fold (judge_check ownLatest laterLatest earlier) (trimSlice required) no_tally;
          runs = sort_key gr_name (ta_runs t);
          waiting = ta_missing t @ ta_pending t
      in if ta_failed t \<noteq> [] then
           \<lparr>rs_status = GateFailed, rs_summary = ''One or more required GitHub checks failed.'',
            rs_failure = ''Failed checks: '' @ join_with '', '' (ta_failed t), rs_reason = ReasonChecksFailed,
            rs_runs = runs, rs_observed = observed, rs_missing = ta_missing t, rs_all_terminal = all_terminal\<rparr>
         else if waiting \<noteq> [] then
           \<lparr>rs_status = GatePending,
            rs_summary = ''Waiting for required checks: '' @ join_with '', '' waiting @
              (if ta_missing t \<noteq> [] \<and> observed \<noteq> [] then ''. Observed check runs: '' @ join_with '', '' (map gr_name observed) else []),
            rs_failure = [], rs_reason = [], rs_runs = runs, rs_observed = observed, rs_missing = ta_missing t,
            rs_all_terminal = all_terminal\<rparr>
         else
           \<lparr>rs_status = GatePassed,
            rs_summary =
              (if ta_earlier t then ''All required GitHub checks passed; some passed on an earlier commit, and their paths filters skip every file changed since.''
               else if ta_later t then ''All required GitHub checks passed; some passed on a later commit that contains this commit.''
               else ''All required GitHub checks passed.''),
            rs_failure = [], rs_reason = ReasonChecksPassed, rs_runs = runs, rs_observed = observed, rs_missing = [],
            rs_all_terminal = all_terminal\<rparr>)"

definition evaluateGitHubChangeRuns ::
    "check_run_response list \<Rightarrow> commit_check_runs list \<Rightarrow> string list \<Rightarrow> check_result" where
  "evaluateGitHubChangeRuns own later required = evaluateGitHubGateRuns own later [] required"

definition evaluateGitHubCheckRuns :: "check_run_response list \<Rightarrow> string list \<Rightarrow> check_result" where
  "evaluateGitHubCheckRuns runs required = evaluateGitHubChangeRuns runs [] required"

section \<open>Choosing commits and workflow runs\<close>

definition nearestAndHeadCommits :: "string list \<Rightarrow> int \<Rightarrow> string list" where
  "nearestAndHeadCommits commits limit =
     (if limit \<le> 0 then []
      else if int (length commits) \<le> limit then commits
      else take (nat (limit - 1)) commits @ [last commits])"

fun take_useful :: "(string \<Rightarrow> bool) \<Rightarrow> nat \<Rightarrow> string list \<Rightarrow> string list" where
  "take_useful useful n [] = []"
| "take_useful useful n (sha # shas) =
     (if n = 0 then []
      else if useful sha then sha # take_useful useful (n - 1) shas
      else take_useful useful n shas)"

definition laterCandidateCommits :: "string list \<Rightarrow> workflow_run list \<Rightarrow> bool \<Rightarrow> int \<Rightarrow> string list" where
  "laterCandidateCommits later runs actionsReadable limit =
     (if limit \<le> 0 \<or> later = [] then []
      else if \<not> actionsReadable then nearestAndHeadCommits later limit
      else
        let useful = map (\<lambda>r. to_lower (wr_sha r))
              (filter (\<lambda>r. wr_status r \<noteq> ''completed'' \<or> successfulGitHubConclusion (wr_conclusion r)) runs)
        in take_useful (\<lambda>sha. sha \<in> set useful) (nat (limit - 1)) (butlast later) @ [last later])"

definition workflowRunsActive :: "workflow_run list \<Rightarrow> string \<Rightarrow> string list \<Rightarrow> bool" where
  "workflowRunsActive runs sha later \<longleftrightarrow>
     list_ex (\<lambda>r. to_lower (wr_sha r) \<in> set (to_lower sha # later) \<and> wr_status r \<noteq> ''completed'') runs"

fun nearest_runs_loop :: "string list \<Rightarrow> workflow_run list \<Rightarrow> workflow_run list" where
  "nearest_runs_loop decided [] = []"
| "nearest_runs_loop decided (r # rs) =
     (if wr_path r \<in> set decided then nearest_runs_loop decided rs
      else if wr_event r \<noteq> ''push'' \<and> wr_event r \<noteq> ''workflow_dispatch'' then nearest_runs_loop decided rs
      else r # nearest_runs_loop (wr_path r # decided) rs)"

definition nearestEarlierWorkflowRuns :: "workflow_run list \<Rightarrow> string \<Rightarrow> string list \<Rightarrow> workflow_run list" where
  "nearestEarlierWorkflowRuns runs sha later =
     nearest_runs_loop (map wr_path (filter (\<lambda>r. to_lower (wr_sha r) \<in> set (to_lower sha # later)) runs)) runs"

section \<open>Path filters\<close>

text \<open>
  A pattern is compiled to a regular expression of four kinds of parts: \<open>(?:.*/)?\<close>, \<open>.*\<close>, \<open>[^/]*\<close> and a
  literal byte. The last kind \<open>AnyTextSlash\<close> is \<open>.*/\<close>, which only the matcher uses.
\<close>

datatype path_atom = AnyDirs | AnyText | AnySegment | Literal char | AnyTextSlash

record path_pattern =
  pp_negated :: bool
  pp_atoms :: "path_atom list"

record push_path_filter =
  pf_patterns :: "path_pattern list"
  pf_ignore :: bool

fun compile_glob :: "string \<Rightarrow> path_atom list" where
  "compile_glob [] = []"
| "compile_glob (c # cs) =
     (if c = CHR ''*'' then
        (case cs of
           d # ds \<Rightarrow>
             if d = CHR ''*'' then
               (case ds of
                  e # es \<Rightarrow> if e = CHR ''/'' then AnyDirs # compile_glob es else AnyText # compile_glob ds
                | [] \<Rightarrow> [AnyText])
             else AnySegment # compile_glob cs
         | [] \<Rightarrow> [AnySegment])
      else Literal c # compile_glob cs)"

definition compilePathPattern :: "string \<Rightarrow> path_pattern option" where
  "compilePathPattern raw =
     (let negated = prefix ''!'' raw;
          glob = (if negated then tl raw else raw)
      in if glob = [] \<or> suffix ''/'' glob \<or> contains_any glob (''?+[]'' @ [CHR 0x5C]) then None
         else Some \<lparr>pp_negated = negated, pp_atoms = compile_glob glob\<rparr>)"

fun atom_weight :: "path_atom \<Rightarrow> nat" where
  "atom_weight AnyDirs = 2"
| "atom_weight _ = 1"

text \<open>A dot does not match a newline.\<close>

function atoms_match :: "path_atom list \<Rightarrow> string \<Rightarrow> bool" where
  "atoms_match [] s = (s = [])"
| "atoms_match (Literal c # ps) s = (case s of [] \<Rightarrow> False | x # xs \<Rightarrow> x = c \<and> atoms_match ps xs)"
| "atoms_match (AnyText # ps) s =
     (atoms_match ps s \<or> (case s of [] \<Rightarrow> False | x # xs \<Rightarrow> x \<noteq> CHR 0x0A \<and> atoms_match (AnyText # ps) xs))"
| "atoms_match (AnySegment # ps) s =
     (atoms_match ps s \<or> (case s of [] \<Rightarrow> False | x # xs \<Rightarrow> x \<noteq> CHR ''/'' \<and> atoms_match (AnySegment # ps) xs))"
| "atoms_match (AnyDirs # ps) s = (atoms_match ps s \<or> atoms_match (AnyTextSlash # ps) s)"
| "atoms_match (AnyTextSlash # ps) s =
     (case s of [] \<Rightarrow> False
      | x # xs \<Rightarrow> (x = CHR ''/'' \<and> atoms_match ps xs) \<or> (x \<noteq> CHR 0x0A \<and> atoms_match (AnyTextSlash # ps) xs))"
  by pat_completeness auto
termination
  by (relation "measure (\<lambda>(ps, s). sum_list (map atom_weight ps) + length s)") auto

definition triggeredBy :: "push_path_filter \<Rightarrow> string \<Rightarrow> bool" where
  "triggeredBy f path \<longleftrightarrow>
     (fold (\<lambda>p matched. if atoms_match (pp_atoms p) path then \<not> pp_negated p else matched) (pf_patterns f) False) \<noteq> pf_ignore f"

fun compile_patterns :: "string list \<Rightarrow> path_pattern list option" where
  "compile_patterns [] = Some []"
| "compile_patterns (raw # raws) =
     (case compilePathPattern raw of
        None \<Rightarrow> None
      | Some p \<Rightarrow> map_option (\<lambda>ps. p # ps) (compile_patterns raws))"

text \<open>
  \<open>triggers\<close> is what the YAML package makes of a workflow file: the lists \<open>paths\<close> and \<open>paths-ignore\<close> of
  \<open>on.push\<close>, where \<open>on\<close> is a mapping that decodes.
\<close>

definition parsePushPathFilter :: "(string \<Rightarrow> (string list \<times> string list) option) \<Rightarrow> string \<Rightarrow> push_path_filter option" where
  "parsePushPathFilter triggers workflow =
     (case triggers workflow of
        None \<Rightarrow> None
      | Some (paths, ignored) \<Rightarrow>
          if (paths = []) = (ignored = []) then None
          else map_option (\<lambda>ps. \<lparr>pf_patterns = ps, pf_ignore = (ignored \<noteq> [])\<rparr>) (compile_patterns (paths @ ignored)))"

end
