(* ===== verification/Review_Gate_Store.thy ===== *)
theory Review_Gate_Store
  imports Review_Checks Pg_Tx
begin

text \<open>
  Package \<open>review\<close>, the PostgreSQL store of the GitHub check gates (\<open>store.go\<close> over the tables
  \<open>github_check_gates\<close> and \<open>github_check_gate_terminal_events\<close>). A row is what the columns of
  \<open>githubCheckGateColumns\<close> read back: a text column that is null is the empty string, a JSON column that
  is null the empty list.
\<close>

section \<open>Rows\<close>

record gate =
  gt_id :: int
  gt_project :: string
  gt_task :: int
  gt_repository :: string
  gt_sha :: string
  gt_ref :: string
  gt_required :: "string list"
  gt_status :: string
  gt_by :: string
  gt_profile :: string
  gt_instance :: string
  gt_session :: string
  gt_timeout :: time
  gt_interval :: int
  gt_next_poll :: time
  gt_checked :: "time option"
  gt_completed :: "time option"
  gt_url :: string
  gt_summary :: string
  gt_runs :: "check_run list"
  gt_failure :: string
  gt_reason :: string
  gt_missing :: "string list"
  gt_observed :: "check_run list"
  gt_evidence :: string
  gt_message :: "int option"
  gt_message_error :: string
  gt_attempted :: "time option"
  gt_created :: time
  gt_updated :: time
  gt_attempt :: int

record gate_event =
  ge_id :: int
  ge_gate :: int
  ge_project :: string
  ge_task :: int
  ge_repository :: string
  ge_sha :: string
  ge_ref :: string
  ge_status :: string
  ge_reason :: string
  ge_required :: "string list"
  ge_runs :: "check_run list"
  ge_observed :: "check_run list"
  ge_missing :: "string list"
  ge_summary :: string
  ge_failure :: string
  ge_by :: string
  ge_profile :: string
  ge_instance :: string
  ge_session :: string
  ge_gate_created :: time
  ge_completed :: time
  ge_created :: time
  ge_attempt :: int

record gate_tables =
  gd_gates :: "gate list"
  gd_next_gate :: int
  gd_events :: "gate_event list"
  gd_next_event :: int

record reopen_request =
  rq_id :: int
  rq_attempt :: int
  rq_required :: "string list"
  rq_ref :: string
  rq_timeout :: time
  rq_interval :: int

record events_query =
  eq_project :: string
  eq_task :: int
  eq_after :: int
  eq_limit :: int

text \<open>A column of type \<open>integer\<close>.\<close>

definition int4 :: "int \<Rightarrow> bool" where
  "int4 n \<longleftrightarrow> - (2 ^ 31) \<le> n \<and> n < 2 ^ 31"

definition gate_key :: "gate \<Rightarrow> string \<times> int \<times> string" where
  "gate_key g = (gt_project g, gt_task g, gt_sha g)"

section \<open>Terminal events\<close>

text \<open>
  The insert of the terminal events of the updated gates: a status that is not terminal, a missing reason
  or completion time violates a constraint, an event of the same gate and attempt is left.
\<close>

definition event_of :: "time \<Rightarrow> int \<Rightarrow> gate \<Rightarrow> time \<Rightarrow> gate_event" where
  "event_of now i g ended =
     \<lparr>ge_id = i, ge_gate = gt_id g, ge_project = gt_project g, ge_task = gt_task g, ge_repository = gt_repository g,
      ge_sha = gt_sha g, ge_ref = gt_ref g, ge_status = gt_status g, ge_reason = gt_reason g, ge_required = gt_required g,
      ge_runs = gt_runs g, ge_observed = gt_observed g, ge_missing = gt_missing g, ge_summary = gt_summary g,
      ge_failure = gt_failure g, ge_by = gt_by g, ge_profile = gt_profile g, ge_instance = gt_instance g,
      ge_session = gt_session g, ge_gate_created = gt_created g, ge_completed = ended, ge_created = now,
      ge_attempt = gt_attempt g\<rparr>"

definition has_event :: "gate_tables \<Rightarrow> int \<Rightarrow> int \<Rightarrow> bool" where
  "has_event d i a \<longleftrightarrow> (\<exists>e\<in>set (gd_events d). ge_gate e = i \<and> ge_attempt e = a)"

definition insert_event :: "time \<Rightarrow> gate \<Rightarrow> gate_tables \<Rightarrow> gate_tables option" where
  "insert_event now g d =
     (case gt_completed g of
        None \<Rightarrow> None
      | Some ended \<Rightarrow>
          if gt_reason g = [] \<or> \<not> terminalGitHubCheckGateStatus (gt_status g) then None
          else if has_event d (gt_id g) (gt_attempt g) then Some (d\<lparr>gd_next_event := gd_next_event d + 1\<rparr>)
          else Some (d\<lparr>gd_events := gd_events d @ [event_of now (gd_next_event d) g ended],
                       gd_next_event := gd_next_event d + 1\<rparr>))"

fun insert_events :: "time \<Rightarrow> gate list \<Rightarrow> gate_tables \<Rightarrow> gate_tables option" where
  "insert_events now [] d = Some d"
| "insert_events now (g # gs) d =
     (case insert_event now g d of None \<Rightarrow> None | Some d' \<Rightarrow> insert_events now gs d')"

section \<open>Statements\<close>

definition superseded_gate :: "string \<Rightarrow> time \<Rightarrow> gate \<Rightarrow> gate" where
  "superseded_gate sha now g =
     g\<lparr>gt_status := GateSuperseded, gt_completed := Some now, gt_summary := ''Superseded by newer commit '' @ sha,
       gt_reason := ReasonSuperseded, gt_evidence := EvidencePending, gt_message_error := [], gt_updated := now\<rparr>"

definition supersedes :: "string \<Rightarrow> int \<Rightarrow> string \<Rightarrow> gate \<Rightarrow> bool" where
  "supersedes project task sha g \<longleftrightarrow>
     gt_project g = project \<and> gt_task g = task \<and> gt_sha g \<noteq> sha \<and> gt_status g = GatePending"

definition supersedeGitHubCheckGatesSQL :: "string \<Rightarrow> int \<Rightarrow> string \<Rightarrow> time \<Rightarrow> (gate_tables, gate list) stmt" where
  "supersedeGitHubCheckGatesSQL project task sha now d =
     (let updated = map (superseded_gate sha now) (filter (supersedes project task sha) (gd_gates d)) in
      map_option (\<lambda>d'. (updated, d'))
        (insert_events now updated (d\<lparr>gd_gates := update_where (supersedes project task sha) (superseded_gate sha now) (gd_gates d)\<rparr>)))"

definition new_gate :: "int \<Rightarrow> gate \<Rightarrow> time \<Rightarrow> gate" where
  "new_gate i g now =
     g\<lparr>gt_id := i, gt_checked := None, gt_completed := None, gt_summary := [], gt_runs := [], gt_failure := [],
       gt_reason := [], gt_missing := [], gt_observed := [], gt_evidence := EvidenceNotRequired, gt_message := None,
       gt_message_error := [], gt_attempted := None, gt_updated := now, gt_attempt := 1\<rparr>"

definition registered_again :: "gate \<Rightarrow> time \<Rightarrow> gate \<Rightarrow> gate" where
  "registered_again new now g =
     (let pending = (gt_status g = GatePending) in
      g\<lparr>gt_repository := gt_repository new,
        gt_ref := (if pending then gt_ref new else gt_ref g),
        gt_required := (if pending then gt_required new else gt_required g),
        gt_by := gt_by new, gt_profile := gt_profile new, gt_instance := gt_instance new, gt_session := gt_session new,
        gt_interval := (if pending then gt_interval new else gt_interval g),
        gt_next_poll := (if pending then gt_next_poll new else gt_next_poll g),
        gt_url := gt_url new, gt_updated := now\<rparr>)"

definition upsertGitHubCheckGateSQL :: "gate \<Rightarrow> time \<Rightarrow> (gate_tables, gate) stmt" where
  "upsertGitHubCheckGateSQL g now d =
     (if gt_required g = [] \<or> \<not> int4 (gt_interval g) then None
      else case row_lookup gate_key (gate_key g) (gd_gates d) of
        None \<Rightarrow>
          let new = new_gate (gd_next_gate d) g now in
          Some (new, d\<lparr>gd_gates := gd_gates d @ [new], gd_next_gate := gd_next_gate d + 1\<rparr>)
      | Some old \<Rightarrow>
          Some (registered_again g now old,
            d\<lparr>gd_gates := update_where (\<lambda>r. gate_key r = gate_key g) (registered_again g now) (gd_gates d),
              gd_next_gate := gd_next_gate d + 1\<rparr>))"

definition limit_gates :: "int \<Rightarrow> 'r list \<Rightarrow> 'r list" where
  "limit_gates n rs = take (nat n) rs"

definition due :: "time \<Rightarrow> gate \<Rightarrow> bool" where
  "due now g \<longleftrightarrow> gt_status g = GatePending \<and> gt_next_poll g \<le> now"

definition listPendingGitHubCheckGatesSQL :: "time \<Rightarrow> int \<Rightarrow> (gate_tables, gate list) stmt" where
  "listPendingGitHubCheckGatesSQL now limit d =
     (if limit < 0 then None
      else Some (limit_gates limit (sort_key (\<lambda>g. (gt_next_poll g, gt_id g)) (filter (due now) (gd_gates d))), d))"

definition evidence_time :: "gate \<Rightarrow> time" where
  "evidence_time g =
     (case gt_attempted g of Some t \<Rightarrow> t
      | None \<Rightarrow> (case gt_completed g of Some t \<Rightarrow> t | None \<Rightarrow> gt_updated g))"

definition listGitHubCheckGatesPendingEvidenceSQL :: "int \<Rightarrow> (gate_tables, gate list) stmt" where
  "listGitHubCheckGatesPendingEvidenceSQL limit d =
     (if limit < 0 then None
      else Some (limit_gates limit (sort_key (\<lambda>g. (evidence_time g, gt_id g))
        (filter (\<lambda>g. gt_evidence g \<in> set [EvidencePending, EvidenceError] \<and> terminalGitHubCheckGateStatus (gt_status g)) (gd_gates d))), d))"

definition getGitHubCheckGateSQL :: "int \<Rightarrow> (gate_tables, gate option) stmt" where
  "getGitHubCheckGateSQL i = read_only (\<lambda>d. row_lookup gt_id i (gd_gates d))"

definition getGitHubCheckGateByCommitSQL :: "string \<Rightarrow> int \<Rightarrow> string \<Rightarrow> (gate_tables, gate option) stmt" where
  "getGitHubCheckGateByCommitSQL project task sha = read_only (\<lambda>d. row_lookup gate_key (project, task, sha) (gd_gates d))"

definition listGitHubCheckGateEventsSQL :: "events_query \<Rightarrow> (gate_tables, gate_event list) stmt" where
  "listGitHubCheckGateEventsSQL q d =
     (if eq_limit q < 0 then None
      else Some (limit_gates (eq_limit q) (sort_key ge_id
        (filter (\<lambda>e. ge_project e = eq_project q \<and> (eq_task q = 0 \<or> ge_task e = eq_task q) \<and> ge_id e > eq_after q) (gd_events d))), d))"

text \<open>
  An update of the row \<open>i\<close> where \<open>P\<close> holds, with the row it returns; the updates of one gate are of this
  form.
\<close>

definition update_gate :: "int \<Rightarrow> (gate \<Rightarrow> bool) \<Rightarrow> (gate \<Rightarrow> gate) \<Rightarrow> gate_tables \<Rightarrow> gate option \<times> gate_tables" where
  "update_gate i P f d =
     (case row_lookup gt_id i (gd_gates d) of
        None \<Rightarrow> (None, d)
      | Some g \<Rightarrow>
          if P g then (Some (f g), d\<lparr>gd_gates := update_where (\<lambda>r. gt_id r = i) f (gd_gates d)\<rparr>)
          else (None, d))"

definition pending_gate :: "gate \<Rightarrow> bool" where
  "pending_gate g \<longleftrightarrow> gt_status g = GatePending"

definition completed_gate :: "string \<Rightarrow> check_result \<Rightarrow> time \<Rightarrow> time \<Rightarrow> gate \<Rightarrow> gate" where
  "completed_gate status r at next_poll g =
     (let done = terminalGitHubCheckGateStatus status in
      g\<lparr>gt_status := status, gt_summary := rs_summary r, gt_runs := rs_runs r, gt_failure := rs_failure r,
        gt_reason := rs_reason r, gt_missing := rs_missing r, gt_observed := rs_observed r, gt_checked := Some at,
        gt_completed := (if done then Some at else gt_completed g), gt_next_poll := next_poll,
        gt_evidence := (if done then EvidencePending else gt_evidence g),
        gt_message_error := (if done then [] else gt_message_error g), gt_updated := at\<rparr>)"

definition completeGitHubCheckGateSQL :: "int \<Rightarrow> string \<Rightarrow> check_result \<Rightarrow> time \<Rightarrow> time \<Rightarrow> (gate_tables, gate option) stmt" where
  "completeGitHubCheckGateSQL i status r at next_poll d =
     (case update_gate i pending_gate (completed_gate status r at next_poll) d of
        (None, d') \<Rightarrow> Some (None, d')
      | (Some g, d') \<Rightarrow>
          if terminalGitHubCheckGateStatus status then map_option (\<lambda>d''. (Some g, d'')) (insert_event at g d')
          else Some (Some g, d'))"

definition reopened_gate :: "reopen_request \<Rightarrow> time \<Rightarrow> gate \<Rightarrow> gate" where
  "reopened_gate q now g =
     g\<lparr>gt_status := GatePending, gt_attempt := gt_attempt g + 1, gt_required := rq_required q, gt_ref := rq_ref q,
       gt_timeout := rq_timeout q, gt_interval := rq_interval q, gt_next_poll := now, gt_completed := None,
       gt_reason := [], gt_failure := [], gt_summary := ''Re-evaluating after re-registration.'',
       gt_evidence := EvidenceNotRequired, gt_message := None, gt_message_error := [], gt_attempted := None,
       gt_updated := now\<rparr>"

definition reopenGitHubCheckGateSQL :: "reopen_request \<Rightarrow> time \<Rightarrow> (gate_tables, gate option) stmt" where
  "reopenGitHubCheckGateSQL q now d =
     (if \<not> int4 (rq_interval q) then None
      else let (found, d') = update_gate (rq_id q)
          (\<lambda>g. gt_attempt g = rq_attempt q \<and> gt_status g \<in> set [GateFailed, GateTimedOut]) (reopened_gate q now) d
        in case found of
             None \<Rightarrow> Some (None, d')
           | Some g \<Rightarrow> if rq_required q \<noteq> [] \<and> int4 (gt_attempt g) then Some (Some g, d') else None)"

definition delayed_gate :: "check_result \<Rightarrow> time \<Rightarrow> time \<Rightarrow> gate \<Rightarrow> gate" where
  "delayed_gate r next_poll at g =
     g\<lparr>gt_summary := rs_summary r, gt_runs := rs_runs r, gt_failure := rs_failure r, gt_reason := rs_reason r,
       gt_missing := rs_missing r, gt_observed := rs_observed r, gt_checked := Some at, gt_next_poll := next_poll,
       gt_updated := at\<rparr>"

definition delayGitHubCheckGateSQL :: "int \<Rightarrow> check_result \<Rightarrow> time \<Rightarrow> time \<Rightarrow> (gate_tables, gate option) stmt" where
  "delayGitHubCheckGateSQL i r next_poll at d = Some (update_gate i pending_gate (delayed_gate r next_poll at) d)"

definition posted_gate :: "int \<Rightarrow> time \<Rightarrow> gate \<Rightarrow> gate" where
  "posted_gate message at g =
     g\<lparr>gt_evidence := EvidencePosted, gt_message := Some message, gt_message_error := [], gt_attempted := Some at,
       gt_updated := at\<rparr>"

definition markGitHubCheckGateEvidencePostedSQL :: "int \<Rightarrow> int \<Rightarrow> time \<Rightarrow> (gate_tables, gate option) stmt" where
  "markGitHubCheckGateEvidencePostedSQL i message at d = Some (update_gate i (\<lambda>_. True) (posted_gate message at) d)"

definition evidence_error_gate :: "string \<Rightarrow> time \<Rightarrow> gate \<Rightarrow> gate" where
  "evidence_error_gate err at g =
     g\<lparr>gt_evidence := EvidenceError, gt_message_error := err, gt_attempted := Some at, gt_updated := at\<rparr>"

definition recordGitHubCheckGateEvidenceErrorSQL :: "int \<Rightarrow> string \<Rightarrow> time \<Rightarrow> (gate_tables, gate option) stmt" where
  "recordGitHubCheckGateEvidenceErrorSQL i err at d = Some (update_gate i (\<lambda>_. True) (evidence_error_gate err at) d)"

section \<open>Methods\<close>

type_synonym 'a gate_call = "gate_tables pg \<Rightarrow> (go_err + 'a) \<times> gate_tables pg"

definition gateNotFound :: "string \<Rightarrow> go_err" where
  "gateNotFound text = review_notFound (Errorf text) ''github_check_gate_not_found''"

definition no_gate :: "int \<Rightarrow> go_err" where
  "no_gate i = gateNotFound (''github check gate not found: '' @ show_int i)"

text \<open>A query of one row; \<open>none\<close> handles \<open>ErrNoRows\<close>.\<close>

definition query_gate :: "string \<Rightarrow> (gate_tables, 'g option) stmt \<Rightarrow> ('g \<Rightarrow> 'a) \<Rightarrow> 'a gate_call \<Rightarrow> 'a gate_call" where
  "query_gate ctx q found none db =
     (case pg_call q db of
        (Inl e, db') \<Rightarrow> (Inl (Wrapped ctx e []), db')
      | (Inr None, db') \<Rightarrow> none db'
      | (Inr (Some g), db') \<Rightarrow> (Inr (found g), db'))"

definition gst_fail :: "go_err \<Rightarrow> 'a gate_call" where
  "gst_fail e db = (Inl e, db)"

text \<open>A query of many rows and \<open>rows.Err\<close>.\<close>

definition gate_rows :: "string \<Rightarrow> (gate_tables, 'r list) stmt \<Rightarrow> 'r list gate_call" where
  "gate_rows ctx q db =
     (case pg_call q db of
        (Inl e, db1) \<Rightarrow> (Inl (Wrapped ctx e []), db1)
      | (Inr rs, db1) \<Rightarrow>
          (case pg_call (read_only (\<lambda>_. ())) db1 of
             (Inl e, db2) \<Rightarrow> (Inl e, db2)
           | (Inr _, db2) \<Rightarrow> (Inr rs, db2)))"

definition gst_RegisterGitHubCheckGate :: "gate \<Rightarrow> time \<Rightarrow> (gate \<times> gate list) gate_call" where
  "gst_RegisterGitHubCheckGate g now db =
     (case pg_call (read_only (\<lambda>_. ())) db of
        (Inl e, db0) \<Rightarrow> (Inl (Wrapped ''beginning github check gate registration: '' e []), db0)
      | (Inr _, db0) \<Rightarrow>
          (case pg_call (supersedeGitHubCheckGatesSQL (gt_project g) (gt_task g) (gt_sha g) now) db0 of
             (Inl e, db1) \<Rightarrow> (Inl (Wrapped ''superseding github check gates: '' e []), pg_rollback db0 db1)
           | (Inr superseded, db1) \<Rightarrow>
               (case pg_call (read_only (\<lambda>_. ())) db1 of
                  (Inl e, db2) \<Rightarrow> (Inl e, pg_rollback db0 db2)
                | (Inr _, db2) \<Rightarrow>
                    (case pg_call (upsertGitHubCheckGateSQL g now) db2 of
                       (Inl e, db3) \<Rightarrow> (Inl (Wrapped ''upserting github check gate: '' e []), pg_rollback db0 db3)
                     | (Inr stored, db3) \<Rightarrow>
                         (case pg_call (read_only (\<lambda>_. ())) db3 of
                            (Inl e, db4) \<Rightarrow> (Inl (Wrapped ''committing github check gate registration: '' e []), pg_rollback db0 db4)
                          | (Inr _, db4) \<Rightarrow> (Inr (stored, superseded), db4))))))"

definition gst_GetGitHubCheckGate :: "string \<Rightarrow> int \<Rightarrow> string \<Rightarrow> gate gate_call" where
  "gst_GetGitHubCheckGate project task sha =
     query_gate ''getting github check gate by commit: '' (getGitHubCheckGateByCommitSQL project task sha) id
       (gst_fail (gateNotFound (''github check gate not found for task '' @ show_int task @ '' commit '' @ sha)))"

definition gst_getGitHubCheckGateByID :: "int \<Rightarrow> gate gate_call" where
  "gst_getGitHubCheckGateByID i =
     query_gate ''getting github check gate: '' (getGitHubCheckGateSQL i) id (gst_fail (no_gate i))"

definition gst_ListGitHubCheckGateEvents :: "events_query \<Rightarrow> gate_event list gate_call" where
  "gst_ListGitHubCheckGateEvents q =
     gate_rows ''listing github check gate terminal events: '' (listGitHubCheckGateEventsSQL q)"

definition gst_ListPendingGitHubCheckGates :: "time \<Rightarrow> int \<Rightarrow> gate list gate_call" where
  "gst_ListPendingGitHubCheckGates now limit =
     gate_rows ''listing pending github check gates: '' (listPendingGitHubCheckGatesSQL now limit)"

definition gst_ListGitHubCheckGatesPendingEvidence :: "int \<Rightarrow> gate list gate_call" where
  "gst_ListGitHubCheckGatesPendingEvidence limit =
     gate_rows ''listing github check gates pending evidence: '' (listGitHubCheckGatesPendingEvidenceSQL limit)"

text \<open>A guarded update of a gate: where no row is updated, the gate is read and reported unchanged.\<close>

definition update_or_read :: "string \<Rightarrow> (gate_tables, gate option) stmt \<Rightarrow> int \<Rightarrow> (gate \<times> bool) gate_call" where
  "update_or_read ctx q i =
     query_gate ctx q (\<lambda>g. (g, True))
       (\<lambda>db. case gst_getGitHubCheckGateByID i db of
          (Inl e, db') \<Rightarrow> (Inl e, db')
        | (Inr g, db') \<Rightarrow> (Inr (g, False), db'))"

definition gst_CompleteGitHubCheckGate :: "int \<Rightarrow> string \<Rightarrow> check_result \<Rightarrow> time \<Rightarrow> (gate \<times> bool) gate_call" where
  "gst_CompleteGitHubCheckGate i status r at db =
     (let complete = (\<lambda>next_poll. update_or_read ''completing github check gate: ''
            (completeGitHubCheckGateSQL i status r at next_poll) i)
      in if status = GatePending then
           (case gst_getGitHubCheckGateByID i db of
              (Inl e, db') \<Rightarrow> (Inl e, db')
            | (Inr current, db') \<Rightarrow> complete (at + wrap64 (gt_interval current * second_ns)) db')
         else complete at db)"

definition gst_ReopenGitHubCheckGate :: "reopen_request \<Rightarrow> time \<Rightarrow> (gate \<times> bool) gate_call" where
  "gst_ReopenGitHubCheckGate q now =
     update_or_read ''reopening github check gate: '' (reopenGitHubCheckGateSQL q now) (rq_id q)"

definition gst_DelayGitHubCheckGate :: "int \<Rightarrow> check_result \<Rightarrow> time \<Rightarrow> time \<Rightarrow> (gate \<times> bool) gate_call" where
  "gst_DelayGitHubCheckGate i r next_poll at =
     update_or_read ''delaying github check gate: '' (delayGitHubCheckGateSQL i r next_poll at) i"

definition gst_TimeoutGitHubCheckGate :: "int \<Rightarrow> time \<Rightarrow> (gate \<times> bool) gate_call" where
  "gst_TimeoutGitHubCheckGate i at db =
     (case gst_getGitHubCheckGateByID i db of
        (Inl e, db') \<Rightarrow> (Inl e, db')
      | (Inr current, db') \<Rightarrow>
          gst_CompleteGitHubCheckGate i GateTimedOut
            \<lparr>rs_status = GateTimedOut, rs_summary = ''GitHub check gate timed out before all required checks passed.'',
             rs_failure = [], rs_reason = ReasonTimedOut, rs_runs = gt_runs current, rs_observed = gt_observed current,
             rs_missing = gt_missing current, rs_all_terminal = False\<rparr> at db')"

definition gst_MarkGitHubCheckGateEvidencePosted :: "int \<Rightarrow> int \<Rightarrow> time \<Rightarrow> gate gate_call" where
  "gst_MarkGitHubCheckGateEvidencePosted i message at =
     query_gate ''marking github check gate evidence posted: '' (markGitHubCheckGateEvidencePostedSQL i message at) id
       (gst_fail (no_gate i))"

definition gst_RecordGitHubCheckGateEvidenceError :: "int \<Rightarrow> string \<Rightarrow> time \<Rightarrow> gate gate_call" where
  "gst_RecordGitHubCheckGateEvidenceError i err at =
     query_gate ''recording github check gate evidence error: '' (recordGitHubCheckGateEvidenceErrorSQL i err at) id
       (gst_fail (no_gate i))"

end
