(* ===== verification/Review_GitHub.thy ===== *)
theory Review_GitHub
  imports Review_Checks
begin

text \<open>
  Package \<open>review\<close>, the client of GitHub's REST interface (\<open>github_checks.go\<close>,
  \<open>github_checks_earlier.go\<close>). GitHub is a function of a request and a world \<open>'w\<close>. A body is what the
  JSON decoder makes of it for any of the response types: a record with the fields of all of them, one
  that the body lacks being empty. The parser of HTTP dates and the YAML package are parameters.
\<close>

section \<open>Requests and answers\<close>

record github_request =
  gq_url :: string
  gq_authorization :: "string option"

record job_response =
  jr_id :: int
  jr_name :: string
  jr_status :: string
  jr_conclusion :: string
  jr_html_url :: string
  jr_created :: "time option"
  jr_started :: "time option"
  jr_completed :: "time option"

record compare_file =
  cf_filename :: string
  cf_previous :: string

record github_body =
  gb_check_runs :: "check_run_response list"
  gb_workflow_runs :: "workflow_run list"
  gb_jobs :: "job_response list"
  gb_status :: string
  gb_commits :: "string list"
  gb_files :: "compare_file list"
  gb_encoding :: string
  gb_content :: string

record github_headers =
  gh_request_id :: string
  gh_remaining :: string
  gh_reset :: string
  gh_retry_after :: string

text \<open>\<open>gp_message\<close> is the field \<open>message\<close> of the first bytes of an error's body, or the error of reading them.\<close>

record github_reply =
  gp_status :: string
  gp_code :: int
  gp_headers :: github_headers
  gp_body :: "go_err + github_body"
  gp_message :: "go_err + string"

datatype transport = BadURL go_err | NoAnswer go_err | Answered github_reply

record 'w github_client =
  gc_base :: string
  gc_token :: string
  gc_do :: "github_request \<Rightarrow> 'w \<Rightarrow> transport \<times> 'w"
  gc_now :: "'w \<Rightarrow> time"
  gc_date :: "string \<Rightarrow> time option"
  gc_triggers :: "string \<Rightarrow> (string list \<times> string list) option"

section \<open>Errors\<close>

datatype error_class = PermissionDenied | PrimaryRateLimit | SecondaryRateLimit | OtherHTTPError

record github_http_error =
  he_status :: string
  he_code :: int
  he_message :: string
  he_remaining :: "int option"
  he_reset :: "time option"
  he_retry_after :: "duration option"
  he_request_id :: string

datatype github_err = GitHubHTTPError github_http_error | OtherError go_err

definition http_error_text :: "github_http_error \<Rightarrow> string" where
  "http_error_text e =
     (if trim_space (he_message e) \<noteq> [] then ''github checks request failed: '' @ he_status e @ '': '' @ he_message e
      else ''github checks request failed: '' @ he_status e)"

fun github_err_text :: "github_err \<Rightarrow> string" where
  "github_err_text (GitHubHTTPError e) = http_error_text e"
| "github_err_text (OtherError e) = err_text e"

definition Classification :: "github_http_error \<Rightarrow> error_class" where
  "Classification e =
     (let message = to_lower (trim_space (he_message e)) in
      if he_remaining e = Some 0 then PrimaryRateLimit
      else if (he_code e = 403 \<or> he_code e = 429) \<and>
          (he_retry_after e \<noteq> None \<or> str_contains message ''secondary rate limit'' \<or> str_contains message ''abuse detection'')
        then SecondaryRateLimit
      else if he_code e = 429 then SecondaryRateLimit
      else if he_code e = 403 then PermissionDenied
      else OtherHTTPError)"

text \<open>\<open>strconv.Atoi\<close> and \<open>ParseInt\<close> of base 10.\<close>

definition digits_value :: "string \<Rightarrow> nat" where
  "digits_value s = foldl (\<lambda>n c. 10 * n + (of_char c - 48)) 0 s"

definition parse_int :: "string \<Rightarrow> int option" where
  "parse_int s =
     (let negative = prefix ''-'' s;
          body = (if negative \<or> prefix ''+'' s then tl s else s);
          n = (if negative then - int (digits_value body) else int (digits_value body))
      in if body = [] \<or> \<not> list_all is_digit body \<or> n < - (2 ^ 63) \<or> n \<ge> 2 ^ 63 then None else Some n)"

text \<open>\<open>time.Unix\<close>, and the difference of instants, which stays within a \<open>Duration\<close>.\<close>

definition unix_time :: "int \<Rightarrow> time" where
  "unix_time sec = wrap64 (sec + 62135596800) * second_ns"

definition time_until :: "time \<Rightarrow> time \<Rightarrow> duration" where
  "time_until t now = max (- (2 ^ 63)) (min (2 ^ 63 - 1) (t - now))"

definition parseGitHubRetryAfter :: "(string \<Rightarrow> time option) \<Rightarrow> time \<Rightarrow> string \<Rightarrow> duration option" where
  "parseGitHubRetryAfter date now value =
     (let value = trim_space value in
      if value = [] then None
      else case parse_int value of
        Some seconds \<Rightarrow> if seconds \<le> 0 then None else Some (wrap64 (seconds * second_ns))
      | None \<Rightarrow>
          (case date value of
             None \<Rightarrow> None
           | Some at \<Rightarrow> let delay = time_until at now in if delay \<le> 0 then None else Some delay))"

definition newGitHubHTTPError :: "(string \<Rightarrow> time option) \<Rightarrow> time \<Rightarrow> github_reply \<Rightarrow> string \<Rightarrow> github_http_error" where
  "newGitHubHTTPError date now reply message =
     \<lparr>he_status = gp_status reply, he_code = gp_code reply, he_message = trim_space message,
      he_remaining = parse_int (trim_space (gh_remaining (gp_headers reply))),
      he_reset = map_option unix_time (parse_int (trim_space (gh_reset (gp_headers reply)))),
      he_retry_after = parseGitHubRetryAfter date now (gh_retry_after (gp_headers reply)),
      he_request_id = trim_space (gh_request_id (gp_headers reply))\<rparr>"

definition ignorableCompareError :: "github_http_error \<Rightarrow> bool" where
  "ignorableCompareError e \<longleftrightarrow>
     (if he_code e = 404 \<or> he_code e = 422 then True
      else if he_code e = 403 then Classification e = PermissionDenied
      else False)"

section \<open>Actions of the client\<close>

type_synonym ('w, 'a) github_op = "'w \<Rightarrow> (github_err + 'a) \<times> 'w"

definition gh_return :: "'a \<Rightarrow> ('w, 'a) github_op" where
  "gh_return x w = (Inr x, w)"

definition gh_fail :: "github_err \<Rightarrow> ('w, 'a) github_op" where
  "gh_fail e w = (Inl e, w)"

definition gh_then :: "('w, 'a) github_op \<Rightarrow> ('a \<Rightarrow> ('w, 'b) github_op) \<Rightarrow> ('w, 'b) github_op" where
  "gh_then m k w = (case m w of (Inl e, w') \<Rightarrow> (Inl e, w') | (Inr x, w') \<Rightarrow> k x w')"

text \<open>An error that \<open>P\<close> accepts is handled by \<open>k\<close>.\<close>

definition gh_handle :: "(github_http_error \<Rightarrow> bool) \<Rightarrow> ('w, 'a) github_op \<Rightarrow> ('w, 'a) github_op \<Rightarrow> ('w, 'a) github_op" where
  "gh_handle P m k w =
     (case m w of
        (Inl (GitHubHTTPError e), w') \<Rightarrow> if P e then k w' else (Inl (GitHubHTTPError e), w')
      | (Inl (OtherError e), w') \<Rightarrow> (Inl (OtherError e), w')
      | (Inr x, w') \<Rightarrow> (Inr x, w'))"

fun gh_concat :: "('b \<Rightarrow> ('w, 'a list) github_op) \<Rightarrow> 'b list \<Rightarrow> ('w, 'a list) github_op" where
  "gh_concat f [] = gh_return []"
| "gh_concat f (x # xs) = gh_then (f x) (\<lambda>a. gh_then (gh_concat f xs) (\<lambda>as. gh_return (a @ as)))"

definition getJSON :: "'w github_client \<Rightarrow> string \<Rightarrow> ('w, github_body) github_op" where
  "getJSON c path w =
     (case gc_do c \<lparr>gq_url = gc_base c @ path,
          gq_authorization = (if gc_token c \<noteq> [] then Some (''Bearer '' @ gc_token c) else None)\<rparr> w of
        (BadURL e, w') \<Rightarrow> (Inl (OtherError (Wrapped ''building github API request: '' e [])), w')
      | (NoAnswer e, w') \<Rightarrow> (Inl (OtherError (Wrapped ''requesting github API: '' e [])), w')
      | (Answered reply, w') \<Rightarrow>
          if gp_code reply < 200 \<or> gp_code reply \<ge> 300 then
            (case gp_message reply of
               Inl e \<Rightarrow> (Inl (OtherError (Wrapped ''reading github API error response: '' e [])), w')
             | Inr message \<Rightarrow> (Inl (GitHubHTTPError (newGitHubHTTPError (gc_date c) (gc_now c w') reply message)), w'))
          else
            (case gp_body reply of
               Inl e \<Rightarrow> (Inl (OtherError (Wrapped ''decoding github API response: '' e [])), w')
             | Inr body \<Rightarrow> (Inr body, w')))"

section \<open>URLs\<close>

definition url_unreserved :: "char \<Rightarrow> bool" where
  "url_unreserved c \<longleftrightarrow>
     (let n = of_char c :: nat in
      48 \<le> n \<and> n \<le> 57 \<or> 65 \<le> n \<and> n \<le> 90 \<or> 97 \<le> n \<and> n \<le> 122) \<or> c \<in> set ''-_.~''"

definition upper_hex :: "nat \<Rightarrow> char" where
  "upper_hex n = char_of (if n < 10 then 48 + n else 55 + n)"

definition percent :: "char \<Rightarrow> string" where
  "percent c = (let n = of_char c :: nat in [CHR ''%'', upper_hex (n div 16), upper_hex (n mod 16)])"

definition PathEscape :: "string \<Rightarrow> string" where
  "PathEscape s = concat (map (\<lambda>c. if url_unreserved c \<or> c \<in> set ''$&+=:@'' then [c] else percent c) s)"

definition QueryEscape :: "string \<Rightarrow> string" where
  "QueryEscape s = concat (map (\<lambda>c. if c = CHR '' '' then ''+'' else if url_unreserved c then [c] else percent c) s)"

text \<open>\<open>url.Values.Encode\<close>; the callers give the keys in their sorted order.\<close>

definition encode_values :: "(string \<times> string) list \<Rightarrow> string" where
  "encode_values kvs = join_on (CHR ''&'') (map (\<lambda>(k, v). QueryEscape k @ ''='' @ QueryEscape v) kvs)"

text \<open>\<open>strings.ReplaceAll (s, "%2F", "/")\<close>.\<close>

fun restore_slashes :: "string \<Rightarrow> string" where
  "restore_slashes s =
     (case s of
        [] \<Rightarrow> []
      | c # cs \<Rightarrow> if prefix ''%2F'' s then CHR ''/'' # restore_slashes (drop 2 cs) else c # restore_slashes cs)"

declare restore_slashes.simps [simp del]

section \<open>Endpoints\<close>

definition workflowRunPageSize :: nat where "workflowRunPageSize = 100"
definition maxWorkflowRunPages :: nat where "maxWorkflowRunPages = 5"

definition check_runs_path :: "string \<Rightarrow> string \<Rightarrow> string" where
  "check_runs_path repository sha = ''/repos/'' @ repository @ ''/commits/'' @ PathEscape sha @ ''/check-runs?per_page=100''"

definition commit_runs_path :: "string \<Rightarrow> string \<Rightarrow> string" where
  "commit_runs_path repository sha =
     ''/repos/'' @ repository @ ''/actions/runs?'' @ encode_values [(''head_sha'', sha), (''per_page'', ''100'')]"

definition run_jobs_path :: "string \<Rightarrow> int \<Rightarrow> string" where
  "run_jobs_path repository runID = ''/repos/'' @ repository @ ''/actions/runs/'' @ show_int runID @ ''/jobs?per_page=100''"

definition compare_ref_path :: "string \<Rightarrow> string \<Rightarrow> string \<Rightarrow> string" where
  "compare_ref_path repository sha ref =
     ''/repos/'' @ repository @ ''/compare/'' @ PathEscape sha @ ''...'' @ restore_slashes (PathEscape ref) @ ''?per_page=100''"

definition branch_runs_path :: "string \<Rightarrow> string \<Rightarrow> int \<Rightarrow> string" where
  "branch_runs_path repository ref page =
     ''/repos/'' @ repository @ ''/actions/runs?'' @
       encode_values [(''branch'', ref), (''page'', show_int page), (''per_page'', show_int (int workflowRunPageSize))]"

definition contents_path :: "string \<Rightarrow> string \<Rightarrow> string \<Rightarrow> string" where
  "contents_path repository path sha = ''/repos/'' @ repository @ ''/contents/'' @ path @ ''?'' @ encode_values [(''ref'', sha)]"

definition compare_path :: "string \<Rightarrow> string \<Rightarrow> string \<Rightarrow> string" where
  "compare_path repository earlier sha =
     ''/repos/'' @ repository @ ''/compare/'' @ PathEscape earlier @ ''...'' @ PathEscape sha"

section \<open>Check runs of a commit\<close>

definition commitCheckRunsFromChecksAPI :: "'w github_client \<Rightarrow> string \<Rightarrow> string \<Rightarrow> ('w, check_run_response list) github_op" where
  "commitCheckRunsFromChecksAPI c repository sha =
     gh_then (getJSON c (check_runs_path repository sha))
       (\<lambda>payload. gh_return (gb_check_runs payload))"

definition run_of_job :: "job_response \<Rightarrow> check_run_response" where
  "run_of_job j =
     \<lparr>cr_id = jr_id j, cr_sha = [], cr_name = jr_name j, cr_status = jr_status j, cr_conclusion = jr_conclusion j,
      cr_html_url = jr_html_url j, cr_details_url = [], cr_created = jr_created j, cr_started = jr_started j,
      cr_completed = jr_completed j, cr_title = [], cr_summary = []\<rparr>"

definition workflowRunJobs :: "'w github_client \<Rightarrow> string \<Rightarrow> int \<Rightarrow> ('w, check_run_response list) github_op" where
  "workflowRunJobs c repository runID =
     gh_then (getJSON c (run_jobs_path repository runID))
       (\<lambda>jobs. gh_return (map run_of_job (gb_jobs jobs)))"

definition commitCheckRunsFromActions :: "'w github_client \<Rightarrow> string \<Rightarrow> string \<Rightarrow> ('w, check_run_response list) github_op" where
  "commitCheckRunsFromActions c repository sha =
     gh_then (getJSON c (commit_runs_path repository sha))
       (\<lambda>runs. gh_concat (\<lambda>run. workflowRunJobs c repository (wr_id run)) (filter (\<lambda>run. wr_sha run = sha) (gb_workflow_runs runs)))"

definition commitCheckRuns :: "'w github_client \<Rightarrow> string \<Rightarrow> string \<Rightarrow> ('w, check_run_response list) github_op" where
  "commitCheckRuns c repository sha =
     gh_then
       (gh_handle (\<lambda>e. Classification e = PermissionDenied)
          (commitCheckRunsFromChecksAPI c repository sha)
          (commitCheckRunsFromActions c repository sha))
       (\<lambda>runs. gh_return (map (\<lambda>r. r\<lparr>cr_sha := sha\<rparr>) runs))"

section \<open>Commits and workflow runs of a ref\<close>

definition laterCommitsOnRef :: "'w github_client \<Rightarrow> string \<Rightarrow> string \<Rightarrow> string \<Rightarrow> ('w, string list) github_op" where
  "laterCommitsOnRef c repository sha ref =
     gh_handle ignorableCompareError
        (gh_then (getJSON c (compare_ref_path repository sha ref))
           (\<lambda>payload. gh_return (if gb_status payload \<noteq> ''ahead'' then [] else map to_lower (gb_commits payload))))
        (gh_return [])"

text \<open>\<open>left\<close> pages are left; the answer has no runs and \<open>False\<close> where Actions cannot be read.\<close>

fun branch_pages :: "'w github_client \<Rightarrow> string \<Rightarrow> string \<Rightarrow> string \<Rightarrow> nat \<Rightarrow> workflow_run list \<Rightarrow>
    ('w, workflow_run list \<times> bool) github_op" where
  "branch_pages c repository ref sha 0 all = gh_return (all, True)"
| "branch_pages c repository ref sha (Suc left) all =
     gh_handle ignorableCompareError
       (gh_then (getJSON c (branch_runs_path repository ref (int (maxWorkflowRunPages - left))))
          (\<lambda>runs.
             let page = gb_workflow_runs runs; all' = all @ page in
             if length page < workflowRunPageSize \<or> list_ex (\<lambda>r. to_lower (wr_sha r) = sha) page
             then gh_return (all', True)
             else branch_pages c repository ref sha left all'))
       (gh_return ([], False))"

definition branchWorkflowRuns :: "'w github_client \<Rightarrow> string \<Rightarrow> string \<Rightarrow> string \<Rightarrow> ('w, workflow_run list \<times> bool) github_op" where
  "branchWorkflowRuns c repository ref sha = branch_pages c repository ref (to_lower sha) maxWorkflowRunPages []"

section \<open>Passes on earlier commits\<close>

definition compareFileLimit :: nat where "compareFileLimit = 300"

fun base64_value :: "char \<Rightarrow> nat option" where
  "base64_value c =
     (let n = of_char c :: nat in
      if 65 \<le> n \<and> n \<le> 90 then Some (n - 65)
      else if 97 \<le> n \<and> n \<le> 122 then Some (n - 71)
      else if 48 \<le> n \<and> n \<le> 57 then Some (n + 4)
      else if c = CHR ''+'' then Some 62
      else if c = CHR ''/'' then Some 63
      else None)"

declare base64_value.simps [simp del]

text \<open>\<open>base64.StdEncoding\<close>, by groups of four; unused bits of the last group are dropped.\<close>

fun base64_groups :: "string \<Rightarrow> string option" where
  "base64_groups [] = Some []"
| "base64_groups (a # b # c # d # rest) =
     (case (base64_value a, base64_value b) of
        (Some w, Some x) \<Rightarrow>
          (if c = CHR ''='' then
             (if d = CHR ''='' \<and> rest = [] then Some [char_of (4 * w + x div 16)] else None)
           else case base64_value c of
             None \<Rightarrow> None
           | Some y \<Rightarrow>
               (if d = CHR ''='' then
                  (if rest = [] then Some [char_of (4 * w + x div 16), char_of (16 * (x mod 16) + y div 4)] else None)
                else case base64_value d of
                  None \<Rightarrow> None
                | Some z \<Rightarrow>
                    map_option (\<lambda>s. [char_of (4 * w + x div 16), char_of (16 * (x mod 16) + y div 4), char_of (64 * (y mod 4) + z)] @ s)
                      (base64_groups rest)))
      | _ \<Rightarrow> None)"
| "base64_groups _ = None"

text \<open>The decoder skips carriage returns and newlines.\<close>

definition base64_decode :: "string \<Rightarrow> string option" where
  "base64_decode s = base64_groups (filter (\<lambda>c. c \<noteq> CHR 0x0D \<and> c \<noteq> CHR 0x0A) s)"

definition fileAtCommit :: "'w github_client \<Rightarrow> string \<Rightarrow> string \<Rightarrow> string \<Rightarrow> ('w, string option) github_op" where
  "fileAtCommit c repository path sha =
     gh_handle ignorableCompareError
       (gh_then (getJSON c (contents_path repository path sha))
          (\<lambda>payload. gh_return
             (if gb_encoding payload \<noteq> ''base64'' then None
              else base64_decode (filter (\<lambda>b. b \<noteq> CHR 0x0A) (gb_content payload)))))
       (gh_return None)"

definition changed_names :: "compare_file list \<Rightarrow> string list" where
  "changed_names fs = concat (map (\<lambda>f. cf_filename f # (if cf_previous f \<noteq> [] then [cf_previous f] else [])) fs)"

definition filesChangedSince :: "'w github_client \<Rightarrow> string \<Rightarrow> string \<Rightarrow> string \<Rightarrow> ('w, string list option) github_op" where
  "filesChangedSince c repository earlier sha =
     gh_handle ignorableCompareError
       (gh_then (getJSON c (compare_path repository earlier sha))
          (\<lambda>payload. gh_return
             (if gb_status payload \<noteq> ''ahead'' \<or> length (gb_files payload) \<ge> compareFileLimit then None
              else Some (changed_names (gb_files payload)))))
       (gh_return None)"

definition workflowSkippedSince ::
    "'w github_client \<Rightarrow> string \<Rightarrow> string \<Rightarrow> string \<Rightarrow> string \<Rightarrow> ('w, bool) github_op" where
  "workflowSkippedSince c repository workflow earlier sha =
     gh_then (fileAtCommit c repository workflow sha) (\<lambda>found.
       case found of
         None \<Rightarrow> gh_return False
       | Some content \<Rightarrow>
           (case parsePushPathFilter (gc_triggers c) content of
              None \<Rightarrow> gh_return False
            | Some f \<Rightarrow>
                gh_then (filesChangedSince c repository earlier sha) (\<lambda>changed.
                  gh_return
                    (case changed of
                       None \<Rightarrow> False
                     | Some files \<Rightarrow> \<not> list_ex (\<lambda>p. p = workflow \<or> triggeredBy f p) files))))"

definition found_passes :: "check_run_response list \<Rightarrow> string list \<Rightarrow> check_run_response list" where
  "found_passes jobs missing =
     (let latest = latestGitHubCheckRunsByName jobs in
      List.map_filter (\<lambda>n. case map_of latest n of
          None \<Rightarrow> None
        | Some j \<Rightarrow> if completed j \<and> cr_conclusion j = ''success'' then Some j else None) missing)"

definition record_passes :: "string \<Rightarrow> check_run_response list \<Rightarrow> runs_by_name \<Rightarrow> runs_by_name" where
  "record_passes sha found passes = fold (\<lambda>j m. AList.update (cr_name j) (j\<lparr>cr_sha := sha\<rparr>) m) found passes"

fun passes_loop :: "'w github_client \<Rightarrow> change_query \<Rightarrow> string list \<Rightarrow> workflow_run list \<Rightarrow> runs_by_name \<Rightarrow>
    ('w, runs_by_name) github_op" where
  "passes_loop c q missing [] passes = gh_return passes"
| "passes_loop c q missing (run # runs) passes =
     gh_then (workflowRunJobs c (cq_repository q) (wr_id run)) (\<lambda>jobs.
       let found = found_passes jobs missing in
       if found = [] then passes_loop c q missing runs passes
       else gh_then (workflowSkippedSince c (cq_repository q) (wr_path run) (wr_sha run) (cq_commit q)) (\<lambda>skipped.
         if \<not> skipped then passes_loop c q missing runs passes
         else passes_loop c q missing runs (record_passes (wr_sha run) found passes)))"

definition earlierPathFilteredPasses ::
    "'w github_client \<Rightarrow> change_query \<Rightarrow> string list \<Rightarrow> string list \<Rightarrow> ('w, runs_by_name) github_op" where
  "earlierPathFilteredPasses c q laterCommits missing =
     gh_then (branchWorkflowRuns c (cq_repository q) (trim_space (cq_ref q)) []) (\<lambda>(runs, readable).
       if \<not> readable then gh_return []
       else passes_loop c q missing (nearestEarlierWorkflowRuns runs (cq_commit q) laterCommits) [])"

section \<open>The provider\<close>

definition checks_unset :: github_err where
  "checks_unset = OtherError (ServiceErr ErrGitHubChecksUnset ''github_checks_unconfigured'' 500)"

definition CheckCommit :: "'w github_client \<Rightarrow> string \<Rightarrow> string \<Rightarrow> string list \<Rightarrow> ('w, check_result) github_op" where
  "CheckCommit c repository sha required =
     (if gc_base c = [] then gh_fail checks_unset
      else gh_then (commitCheckRuns c repository sha) (\<lambda>runs. gh_return (evaluateGitHubCheckRuns runs required)))"

text \<open>The loop that reads later commits until they satisfy what is needed.\<close>

fun read_later :: "'w github_client \<Rightarrow> string \<Rightarrow> string list \<Rightarrow> string list \<Rightarrow> commit_check_runs list \<Rightarrow>
    ('w, commit_check_runs list) github_op" where
  "read_later c repository needed [] later = gh_return later"
| "read_later c repository needed (sha # shas) later =
     gh_then (commitCheckRuns c repository sha) (\<lambda>runs.
       let later' = later @ [\<lparr>cc_sha = sha, cc_runs = runs\<rparr>] in
       if laterCommitsSatisfy later' needed then gh_return later'
       else read_later c repository needed shas later')"

definition CheckChange :: "'w github_client \<Rightarrow> change_query \<Rightarrow> ('w, check_result) github_op" where
  "CheckChange c q =
     (if gc_base c = [] then gh_fail checks_unset
      else gh_then (commitCheckRuns c (cq_repository q) (cq_commit q)) (\<lambda>own.
        let needed = checksNeedingLaterCommits own (cq_required q); ref = trim_space (cq_ref q) in
        if needed = [] \<or> ref = [] \<or> cq_later_limit q \<le> 0 then
          gh_return (evaluateGitHubChangeRuns own [] (cq_required q))
        else
          gh_then (laterCommitsOnRef c (cq_repository q) (cq_commit q) ref) (\<lambda>laterCommits.
          gh_then (branchWorkflowRuns c (cq_repository q) ref (cq_commit q)) (\<lambda>(branchRuns, actionsReadable).
          gh_then (read_later c (cq_repository q) needed
              (laterCandidateCommits laterCommits branchRuns actionsReadable (cq_later_limit q)) []) (\<lambda>later.
            let result = evaluateGitHubChangeRuns own later (cq_required q) in
            if rs_status result \<noteq> GatePending \<or> rs_missing result = [] then gh_return result
            else
              let active = workflowRunsActive branchRuns (cq_commit q) laterCommits;
                  result = (if rs_all_terminal result \<and> active then
                      result\<lparr>rs_all_terminal := False,
                        rs_summary := rs_summary result @ ''. Workflow runs for this change are still queued or running.''\<rparr>
                    else result)
              in if active \<or> \<not> actionsReadable \<or> \<not> githubRunsCompleted own then gh_return result
                 else gh_then (earlierPathFilteredPasses c q laterCommits (rs_missing result)) (\<lambda>earlier.
                   gh_return
                     (if earlier \<noteq> [] then evaluateGitHubGateRuns own later earlier (cq_required q)
                      else result)))))))"

end
