(* ===== verification/Review_Gate_Service.thy ===== *)
theory Review_Gate_Service
  imports Review_Gate_Store Review_GitHub
begin

text \<open>
  Package \<open>review\<close>, the part of the service that keeps the check gates (\<open>service.go\<close>,
  \<open>github_checks.go\<close>), over the interfaces of its store, the tasks service, the messages service and the
  provider of check results, records of functions on a world \<open>'w\<close>: registration, discovery, evaluation,
  the delays after errors of GitHub, the evidence messages, the scan over the due gates and the waiting for
  terminal events. What is only logged is left out.
\<close>

type_synonym ('w, 'a) gate_op = "'w \<Rightarrow> (go_err + 'a) \<times> 'w"

section \<open>Interfaces\<close>

record 'w gate_store =
  gs_Register :: "gate \<Rightarrow> time \<Rightarrow> ('w, gate \<times> gate list) gate_op"
  gs_Get :: "string \<Rightarrow> int \<Rightarrow> string \<Rightarrow> ('w, gate) gate_op"
  gs_ListPending :: "time \<Rightarrow> int \<Rightarrow> ('w, gate list) gate_op"
  gs_ListEvidence :: "int \<Rightarrow> ('w, gate list) gate_op"
  gs_Complete :: "int \<Rightarrow> string \<Rightarrow> check_result \<Rightarrow> time \<Rightarrow> ('w, gate \<times> bool) gate_op"
  gs_Reopen :: "reopen_request \<Rightarrow> time \<Rightarrow> ('w, gate \<times> bool) gate_op"
  gs_Delay :: "int \<Rightarrow> check_result \<Rightarrow> time \<Rightarrow> time \<Rightarrow> ('w, gate \<times> bool) gate_op"
  gs_Timeout :: "int \<Rightarrow> time \<Rightarrow> ('w, gate \<times> bool) gate_op"
  gs_MarkPosted :: "int \<Rightarrow> int \<Rightarrow> time \<Rightarrow> ('w, gate) gate_op"
  gs_RecordError :: "int \<Rightarrow> string \<Rightarrow> time \<Rightarrow> ('w, gate) gate_op"
  gs_ListEvents :: "events_query \<Rightarrow> ('w, gate_event list) gate_op"

record 'w check_provider =
  cp_CheckCommit :: "string \<Rightarrow> string \<Rightarrow> string list \<Rightarrow> ('w, check_result) github_op"
  cp_CheckChange :: "change_query \<Rightarrow> ('w, check_result) github_op"

record task_context =
  tc_id :: int
  tc_project :: string
  tc_status :: string

record evidence_metadata =
  em_gate :: int
  em_status :: string
  em_repository :: string
  em_sha :: string
  em_ref :: string
  em_required :: "string list"
  em_observed :: "check_run list"
  em_missing :: "string list"
  em_reason :: string
  em_profile :: string
  em_instance :: string
  em_session :: string
  em_by :: string

record append_request =
  ar_task :: int
  ar_sender :: string
  ar_content :: string
  ar_intent :: string
  ar_metadata :: evidence_metadata

record github_options =
  go_default_timeout :: duration
  go_max_timeout :: duration
  go_interval :: duration
  go_grace :: duration
  go_status_base :: string
  go_wait_max :: duration
  go_wait_poll :: duration
  go_later_limit :: int

record 'w gate_service =
  gv_store :: "'w gate_store"
  gv_task :: "string \<Rightarrow> int \<Rightarrow> ('w, task_context) gate_op"
  gv_append :: "string \<Rightarrow> append_request \<Rightarrow> ('w, int) gate_op"
  gv_checks :: "'w check_provider option"
  gv_options :: github_options
  gv_clock :: "'w \<Rightarrow> time"
  gv_show_time :: "time \<Rightarrow> string"

definition minute_ns :: duration where "minute_ns = 60 * second_ns"

definition defaultGitHubCheckPollInterval :: duration where "defaultGitHubCheckPollInterval = 30 * second_ns"
definition defaultGitHubHTTPErrorBackoff :: duration where "defaultGitHubHTTPErrorBackoff = 15 * minute_ns"
definition defaultGitHubPermissionBackoff :: duration where "defaultGitHubPermissionBackoff = 30 * minute_ns"

lemmas backoffs = minute_ns_def defaultGitHubCheckPollInterval_def defaultGitHubHTTPErrorBackoff_def
  defaultGitHubPermissionBackoff_def second_ns_def

definition DefaultGitHubCheckOptions :: github_options where
  "DefaultGitHubCheckOptions =
     \<lparr>go_default_timeout = 120 * minute_ns, go_max_timeout = 720 * minute_ns, go_interval = defaultGitHubCheckPollInterval,
      go_grace = 2 * minute_ns, go_status_base = [], go_wait_max = 55 * second_ns, go_wait_poll = 500000000,
      go_later_limit = 5\<rparr>"

definition ConfigureGitHubChecks :: "'w check_provider option \<Rightarrow> github_options \<Rightarrow> 'w gate_service \<Rightarrow> 'w gate_service" where
  "ConfigureGitHubChecks provider opts s =
     (let d = DefaultGitHubCheckOptions;
          interval = (if go_interval opts \<le> 0 then go_interval d else go_interval opts)
      in s\<lparr>gv_checks := provider,
           gv_options :=
             \<lparr>go_default_timeout = (if go_default_timeout opts \<le> 0 then go_default_timeout d else go_default_timeout opts),
              go_max_timeout = (if go_max_timeout opts \<le> 0 then go_max_timeout d else go_max_timeout opts),
              go_interval = (if interval < defaultGitHubCheckPollInterval then defaultGitHubCheckPollInterval else interval),
              go_grace = (if go_grace opts \<le> 0 then go_grace d else go_grace opts),
              go_status_base = go_status_base opts,
              go_wait_max = (if go_wait_max opts \<le> 0 then go_wait_max d else go_wait_max opts),
              go_wait_poll = (if go_wait_poll opts \<le> 0 then go_wait_poll d else go_wait_poll opts),
              go_later_limit = (if go_later_limit opts < 0 then 0 else go_later_limit opts)\<rparr>\<rparr>)"

text \<open>A \<open>github_err\<close> as an error of the service.\<close>

fun go_of :: "github_err \<Rightarrow> go_err" where
  "go_of (GitHubHTTPError e) = Errorf (http_error_text e)"
| "go_of (OtherError e) = e"

definition checks_unconfigured :: go_err where
  "checks_unconfigured = ServiceErr ErrGitHubChecksUnset ''github_checks_unconfigured'' 500"

section \<open>Requests\<close>

record register_gate_request =
  gr_repository :: string
  gr_commit :: string
  gr_ref :: string
  gr_required :: "string list"
  gr_timeout :: "int option"
  gr_interval :: "int option"
  gr_by :: string
  gr_profile :: string
  gr_instance :: string
  gr_session :: string

definition rejected :: "string \<Rightarrow> string \<Rightarrow> go_err" where
  "rejected text code = review_invalid (Errorf text) code"

definition validateTask :: "'w gate_service \<Rightarrow> string \<Rightarrow> int \<Rightarrow> string list \<Rightarrow> ('w, task_context) gate_op" where
  "validateTask s project task allowed w =
     (let project = trim_space project in
      if project = [] then (Inl (review_invalid ErrReviewMissingProjectID ''missing_project_id''), w)
      else if task = 0 then (Inl (review_invalid ErrReviewMissingTaskID ''missing_task_id''), w)
      else case gv_task s project task w of
        (Inl e, w') \<Rightarrow> (Inl e, w')
      | (Inr t, w') \<Rightarrow>
          if tc_project t \<noteq> project then
            (Inl (rejected (''task '' @ show_int task @ '' is not in project '' @ project) ''project_mismatch''), w')
          else if allowed \<noteq> [] \<and> tc_status t \<notin> set allowed then
            (Inl (review_invalid (Wrapped [] ErrInvalidTaskState ('': '' @ tc_status t)) ''task_not_reviewable''), w')
          else (Inr t, w'))"

definition statusURL :: "github_options \<Rightarrow> string \<Rightarrow> int \<Rightarrow> string \<Rightarrow> string" where
  "statusURL opts project task sha =
     (if trim_space (go_status_base opts) = [] then []
      else trim_right_char (CHR ''/'') (go_status_base opts) @ ''/v1/projects/'' @ project @ ''/tasks/'' @ show_int task @
        ''/review/github-check-gates/'' @ sha)"

definition seconds_or :: "duration \<Rightarrow> int option \<Rightarrow> duration" where
  "seconds_or d n = (case n of None \<Rightarrow> d | Some k \<Rightarrow> wrap64 (k * second_ns))"

definition githubGateFromRequest ::
    "github_options \<Rightarrow> time \<Rightarrow> string \<Rightarrow> int \<Rightarrow> register_gate_request \<Rightarrow> go_err + gate" where
  "githubGateFromRequest opts now project task q =
     (let repository = trim_space (gr_repository q);
          sha = to_lower (trim_space (gr_commit q));
          required = trimSlice (gr_required q);
          ref = trim_space (gr_ref q);
          by = trim_space (gr_by q);
          timeout = seconds_or (go_default_timeout opts) (gr_timeout q);
          interval = seconds_or (go_interval opts) (gr_interval q)
      in if \<not> validGitHubRepository repository then Inl (rejected ''repository must be owner/name'' ''invalid_repository'')
         else if \<not> validGitHubSHA sha then Inl (rejected ''commit_sha must be a full 40-character hex SHA'' ''invalid_commit_sha'')
         else if required = [] then Inl (rejected ''required_checks is required'' ''missing_required_checks'')
         else if ref = [] then Inl (rejected ''ref is required'' ''missing_ref'')
         else if by = [] then Inl (review_invalid ErrMissingActor ''missing_requested_by'')
         else if timeout \<le> 0 \<or> timeout > go_max_timeout opts then
           Inl (rejected (''timeout_seconds must be positive and no greater than '' @ show_int (go_max_timeout opts div second_ns)) ''invalid_timeout'')
         else if interval \<le> 0 then Inl (rejected ''poll_interval_seconds must be positive'' ''invalid_poll_interval'')
         else
           let interval = (if interval < defaultGitHubCheckPollInterval then defaultGitHubCheckPollInterval else interval) in
           Inr \<lparr>gt_id = 0, gt_project = project, gt_task = task, gt_repository = repository, gt_sha = sha, gt_ref = ref,
             gt_required = required, gt_status = GatePending, gt_by = by, gt_profile = trim_space (gr_profile q),
             gt_instance = trim_space (gr_instance q), gt_session = trim_space (gr_session q), gt_timeout = now + timeout,
             gt_interval = interval div second_ns, gt_next_poll = now, gt_checked = None, gt_completed = None,
             gt_url = statusURL opts project task sha, gt_summary = [], gt_runs = [], gt_failure = [], gt_reason = [],
             gt_missing = [], gt_observed = [], gt_evidence = [], gt_message = None, gt_message_error = [],
             gt_attempted = None, gt_created = now, gt_updated = now, gt_attempt = 0\<rparr>)"

section \<open>Registration\<close>

definition reopenableGitHubCheckGateStatus :: "string \<Rightarrow> bool" where
  "reopenableGitHubCheckGateStatus s \<longleftrightarrow> s = GateFailed \<or> s = GateTimedOut"

definition gv_reopen :: "'w gate_service \<Rightarrow> gate \<Rightarrow> gate \<Rightarrow> ('w, gate) gate_op" where
  "gv_reopen s stored requested w =
     (let now = gv_clock s w in
      case gs_Reopen (gv_store s)
          \<lparr>rq_id = gt_id stored, rq_attempt = gt_attempt stored, rq_required = gt_required requested, rq_ref = gt_ref requested,
           rq_timeout = now + time_until (gt_timeout requested) (gt_created requested), rq_interval = gt_interval requested\<rparr> now w of
        (Inl e, w') \<Rightarrow> (Inl e, w')
      | (Inr (g, _), w') \<Rightarrow> (Inr g, w'))"

definition gv_RegisterGitHubCheckGate :: "'w gate_service \<Rightarrow> string \<Rightarrow> int \<Rightarrow> register_gate_request \<Rightarrow> ('w, gate) gate_op" where
  "gv_RegisterGitHubCheckGate s project task q w =
     (case validateTask s project task [] w of
        (Inl e, w1) \<Rightarrow> (Inl e, w1)
      | (Inr t, w1) \<Rightarrow>
          (case githubGateFromRequest (gv_options s) (gv_clock s w1) (tc_project t) task q of
             Inl e \<Rightarrow> (Inl e, w1)
           | Inr g \<Rightarrow>
               (case gs_Register (gv_store s) g (gv_clock s w1) w1 of
                  (Inl e, w2) \<Rightarrow> (Inl e, w2)
                | (Inr (stored, _), w2) \<Rightarrow>
                    if reopenableGitHubCheckGateStatus (gt_status stored) then gv_reopen s stored g w2
                    else (Inr stored, w2))))"

definition gv_GetGitHubCheckGate :: "'w gate_service \<Rightarrow> string \<Rightarrow> int \<Rightarrow> string \<Rightarrow> ('w, gate) gate_op" where
  "gv_GetGitHubCheckGate s project task sha w =
     (case validateTask s project task [] w of
        (Inl e, w1) \<Rightarrow> (Inl e, w1)
      | (Inr t, w1) \<Rightarrow>
          let sha = to_lower (trim_space sha) in
          if \<not> validGitHubSHA sha then (Inl (rejected ''commit_sha must be a full 40-character hex SHA'' ''invalid_commit_sha''), w1)
          else gs_Get (gv_store s) (tc_project t) task sha w1)"

section \<open>Discovery\<close>

record discovery =
  dy_repository :: string
  dy_sha :: string
  dy_required :: "string list"
  dy_configuration :: string
  dy_summary :: string
  dy_observed :: "check_run list"
  dy_missing :: "string list"
  dy_all_terminal :: bool

definition gv_DiscoverGitHubChecks :: "'w gate_service \<Rightarrow> string \<Rightarrow> string \<Rightarrow> string list \<Rightarrow> ('w, discovery) gate_op" where
  "gv_DiscoverGitHubChecks s repository sha required w =
     (let repository = trim_space repository; sha = to_lower (trim_space sha); required = trimSlice required in
      if \<not> validGitHubRepository repository then (Inl (rejected ''repository must be owner/name'' ''invalid_repository''), w)
      else if \<not> validGitHubSHA sha then (Inl (rejected ''commit_sha must be a full 40-character hex SHA'' ''invalid_commit_sha''), w)
      else case gv_checks s of
        None \<Rightarrow> (Inl checks_unconfigured, w)
      | Some provider \<Rightarrow>
          (case cp_CheckCommit provider repository sha required w of
             (Inl e, w') \<Rightarrow> (Inl (go_of e), w')
           | (Inr r, w') \<Rightarrow>
               (Inr \<lparr>dy_repository = repository, dy_sha = sha, dy_required = required,
                  dy_configuration =
                    (if required = [] then ''not_validated''
                     else if rs_missing r \<noteq> [] then ''missing_required_checks'' else ''valid''),
                  dy_summary =
                    (if required \<noteq> [] then
                       (if rs_missing r \<noteq> [] then ''One or more requested GitHub check names do not match the check runs currently observed for the exact commit.''
                        else ''Every requested GitHub check name exactly matches an observed check run.'')
                     else if rs_observed r = [] then ''No GitHub check runs are currently visible for the exact commit.''
                     else ''Observed GitHub check runs for the exact commit.''),
                  dy_observed = rs_observed r, dy_missing = rs_missing r, dy_all_terminal = rs_all_terminal r\<rparr>, w')))"

section \<open>Delays\<close>

definition delayableGitHubHTTPStatus :: "int \<Rightarrow> bool" where
  "delayableGitHubHTTPStatus code \<longleftrightarrow> code = 403 \<or> code = 429"

definition nextGitHubHTTPErrorPollAt :: "time \<Rightarrow> time \<Rightarrow> github_http_error \<Rightarrow> time" where
  "nextGitHubHTTPErrorPollAt now timeoutAt e =
     (let class = Classification e;
          next_poll =
            (if class = PermissionDenied then now + defaultGitHubPermissionBackoff
             else case he_retry_after e of
               Some d \<Rightarrow> now + d
             | None \<Rightarrow>
                 (case he_reset e of
                    Some reset \<Rightarrow>
                      if class = PrimaryRateLimit \<and> reset > now then reset + minute_ns
                      else now + defaultGitHubHTTPErrorBackoff
                  | None \<Rightarrow> now + defaultGitHubHTTPErrorBackoff))
      in if \<not> is_zero_time timeoutAt \<and> timeoutAt > now \<and> next_poll > timeoutAt then timeoutAt
         else if next_poll \<le> now then
           (if class = PermissionDenied then now + defaultGitHubPermissionBackoff else now + defaultGitHubHTTPErrorBackoff)
         else next_poll)"

fun class_text :: "error_class \<Rightarrow> string" where
  "class_text PermissionDenied = ''permission_denied''"
| "class_text PrimaryRateLimit = ''primary_rate_limit''"
| "class_text SecondaryRateLimit = ''secondary_rate_limit''"
| "class_text OtherHTTPError = ''http_error''"

definition githubHTTPErrorSummary :: "(time \<Rightarrow> string) \<Rightarrow> github_http_error \<Rightarrow> time \<Rightarrow> string" where
  "githubHTTPErrorSummary show_time e next_poll =
     (let status = (if trim_space (he_status e) = [] then ''HTTP '' @ show_int (he_code e) else trim_space (he_status e));
          message = trim_space (he_message e)
      in ''GitHub check polling delayed after GitHub returned '' @ status @ ''.'' @
         '' Classification: '' @ class_text (Classification e) @ ''.'' @
         (if message \<noteq> [] then '' '' @ message else []) @
         (case he_reset e of
            Some reset \<Rightarrow>
              if Classification e = PrimaryRateLimit then '' GitHub rate limit reset is '' @ show_time reset @ ''.'' else []
          | None \<Rightarrow> []) @
         '' Next poll is '' @ show_time next_poll @ ''.'')"

definition waiting_result :: "string \<Rightarrow> check_result" where
  "waiting_result summary =
     \<lparr>rs_status = GatePending, rs_summary = summary, rs_failure = [], rs_reason = [], rs_runs = [], rs_observed = [],
      rs_missing = [], rs_all_terminal = False\<rparr>"

definition only_gate :: "(go_err + gate \<times> bool) \<times> 'w \<Rightarrow> (go_err + gate) \<times> 'w" where
  "only_gate a = (case a of (Inl e, w) \<Rightarrow> (Inl e, w) | (Inr (g, _), w) \<Rightarrow> (Inr g, w))"

definition gv_delayAfterHTTPError :: "'w gate_service \<Rightarrow> gate \<Rightarrow> github_http_error \<Rightarrow> time \<Rightarrow> ('w, gate) gate_op" where
  "gv_delayAfterHTTPError s g e at w =
     (let next_poll = nextGitHubHTTPErrorPollAt at (gt_timeout g) e in
      only_gate (gs_Delay (gv_store s) (gt_id g)
        (waiting_result (githubHTTPErrorSummary (gv_show_time s) e next_poll)) next_poll at w))"

definition gv_delayAfterError :: "'w gate_service \<Rightarrow> gate \<Rightarrow> github_err \<Rightarrow> time \<Rightarrow> ('w, gate) gate_op" where
  "gv_delayAfterError s g e at w =
     (let next_poll = at + wrap64 (gt_interval g * second_ns);
          next_poll = (if next_poll > gt_timeout g then gt_timeout g else next_poll)
      in case gs_Delay (gv_store s) (gt_id g)
          (waiting_result (''GitHub check polling will retry after a request error: '' @ github_err_text e)) next_poll at w of
           (Inl err, w') \<Rightarrow>
             (Inl (Wrapped (''checking github commit '' @ gt_sha g @ '': '') (go_of e) (''; recording retry: '' @ err_text err)), w')
         | (Inr (g', _), w') \<Rightarrow> (Inr g', w'))"

section \<open>Evaluation\<close>

definition githubChangeQuery :: "github_options \<Rightarrow> gate \<Rightarrow> change_query" where
  "githubChangeQuery opts g =
     \<lparr>cq_repository = gt_repository g, cq_commit = gt_sha g, cq_ref = gt_ref g, cq_required = gt_required g,
      cq_later_limit = go_later_limit opts\<rparr>"

definition missingRequiredChecksAreInvalid :: "gate \<Rightarrow> check_result \<Rightarrow> time \<Rightarrow> duration \<Rightarrow> bool" where
  "missingRequiredChecksAreInvalid g r now grace \<longleftrightarrow>
     rs_missing r \<noteq> [] \<and> rs_observed r \<noteq> [] \<and> rs_all_terminal r \<and> now \<ge> gt_created g + grace"

definition never_ran :: "check_result \<Rightarrow> check_result" where
  "never_ran r =
     r\<lparr>rs_status := GateFailed, rs_reason := ReasonRequiredChecksMissing,
       rs_summary := ''Required GitHub checks never ran for this commit, or their names do not match the observed check runs.'',
       rs_failure := ''Missing required checks: '' @ join_with '', '' (rs_missing r) @ ''. Observed check runs: '' @
         join_with '', '' (map gr_name (rs_observed r)) @ ''. '' @
         ''If the name is right, its workflow probably did not run for this commit, for example because a paths filter skipped it: resubmit without that check, or run the workflow on the ref.''\<rparr>"

definition settled :: "gate \<Rightarrow> time \<Rightarrow> duration \<Rightarrow> check_result \<Rightarrow> check_result" where
  "settled g now grace r =
     (if rs_status r = GatePending \<and> missingRequiredChecksAreInvalid g r now grace then never_ran r else r)"

definition gv_evaluateGitHubCheckGate :: "'w gate_service \<Rightarrow> 'w check_provider \<Rightarrow> gate \<Rightarrow> ('w, gate) gate_op" where
  "gv_evaluateGitHubCheckGate s provider g w =
     (let now = gv_clock s w in
      if \<not> now < gt_timeout g then only_gate (gs_Timeout (gv_store s) (gt_id g) now w)
      else case cp_CheckChange provider (githubChangeQuery (gv_options s) g) w of
        (Inl (GitHubHTTPError e), w1) \<Rightarrow>
          if delayableGitHubHTTPStatus (he_code e) then gv_delayAfterHTTPError s g e now w1
          else gv_delayAfterError s g (GitHubHTTPError e) now w1
      | (Inl (OtherError e), w1) \<Rightarrow> gv_delayAfterError s g (OtherError e) now w1
      | (Inr r, w1) \<Rightarrow>
          let r = settled g now (go_grace (gv_options s)) r in
          if rs_status r = GatePending then
            only_gate (gs_Complete (gv_store s) (gt_id g) GatePending
              (r\<lparr>rs_failure := [], rs_reason := [], rs_all_terminal := False\<rparr>) now w1)
          else only_gate (gs_Complete (gv_store s) (gt_id g) (rs_status r) r now w1))"

section \<open>Evidence messages\<close>

definition newline :: string where "newline = [CHR 0x0A]"

definition run_line :: "string \<Rightarrow> bool \<Rightarrow> check_run \<Rightarrow> string" where
  "run_line sha commits r =
     (let link = firstNonEmpty [gr_url r, gr_details r];
          state = trim_space (gr_status r) @ (if gr_conclusion r \<noteq> [] then ''/'' @ gr_conclusion r else []) @
            (if commits \<and> gr_sha r \<noteq> [] \<and> gr_sha r \<noteq> sha then '' on commit `'' @ gr_sha r @ ''`'' else [])
      in ''- '' @ gr_name r @ '': '' @ state @ (if link \<noteq> [] then '' ('' @ link @ '')'' else []) @ newline)"

definition appendCheckRunLinks :: "string \<Rightarrow> check_run list \<Rightarrow> string" where
  "appendCheckRunLinks sha rs =
     (if rs = [] then [] else ''Check runs:'' @ newline @ concat (map (run_line sha True) rs))"

definition appendNamedCheckRunLinks :: "check_run list \<Rightarrow> string" where
  "appendNamedCheckRunLinks rs = concat (map (run_line [] False) rs)"

definition evidence_heading :: "string \<Rightarrow> string" where
  "evidence_heading status =
     (if status = GatePassed then ''GitHub checks passed for `''
      else if status = GateFailed then ''GitHub checks failed for `''
      else if status = GateTimedOut then ''GitHub checks timed out for `''
      else if status = GateSuperseded then ''GitHub check gate superseded for `''
      else ''GitHub checks updated for `'')"

definition renderGitHubCheckGateMessage :: "gate \<Rightarrow> string" where
  "renderGitHubCheckGateMessage g =
     trim_space
       (evidence_heading (gt_status g) @ gt_sha g @ ''` on `'' @ gt_ref g @ ''`.'' @ newline @ newline @
        (if gt_failure g \<noteq> [] then gt_failure g @ newline @ newline
         else if gt_summary g \<noteq> [] then gt_summary g @ newline @ newline else []) @
        (if gt_reason g \<noteq> [] then ''Reason: `'' @ gt_reason g @ ''`'' @ newline @ newline else []) @
        (if gt_missing g \<noteq> [] then ''Missing required checks: '' @ join_with '', '' (gt_missing g) @ newline @ newline else []) @
        appendCheckRunLinks (gt_sha g) (gt_runs g) @
        (if gt_missing g \<noteq> [] \<and> gt_observed g \<noteq> [] then
           newline @ ''Observed check runs:'' @ newline @ appendNamedCheckRunLinks (gt_observed g) else []))"

definition renderGitHubCheckGateEvidence :: "gate \<Rightarrow> string \<times> string" where
  "renderGitHubCheckGateEvidence g =
     (renderGitHubCheckGateMessage g,
      if gt_status g = GatePassed then ''github_checks_passed''
      else if gt_status g = GateFailed then ''github_checks_failed''
      else if gt_status g = GateTimedOut then ''github_checks_timeout''
      else if gt_status g = GateSuperseded then ''github_checks_superseded''
      else ''github_checks_updated'')"

definition evidence_request :: "gate \<Rightarrow> append_request" where
  "evidence_request g =
     \<lparr>ar_task = gt_task g, ar_sender = ''den-review'', ar_content = fst (renderGitHubCheckGateEvidence g),
      ar_intent = snd (renderGitHubCheckGateEvidence g),
      ar_metadata =
        \<lparr>em_gate = gt_id g, em_status = gt_status g, em_repository = gt_repository g, em_sha = gt_sha g, em_ref = gt_ref g,
         em_required = gt_required g, em_observed = gt_observed g, em_missing = gt_missing g, em_reason = gt_reason g,
         em_profile = gt_profile g, em_instance = gt_instance g, em_session = gt_session g, em_by = gt_by g\<rparr>\<rparr>"

definition gv_deliverGitHubCheckGateEvidence :: "'w gate_service \<Rightarrow> gate \<Rightarrow> ('w, unit) gate_op" where
  "gv_deliverGitHubCheckGateEvidence s g w =
     (if gt_evidence g = EvidencePosted then (Inr (), w)
      else case gv_append s (gt_project g) (evidence_request g) w of
        (Inl e, w1) \<Rightarrow>
          (case gs_RecordError (gv_store s) (gt_id g) (err_text e) (gv_clock s w1) w1 of
             (Inl re, w2) \<Rightarrow>
               (Inl (Wrapped ''appending github check evidence: '' e (''; recording evidence error: '' @ err_text re)), w2)
           | (Inr _, w2) \<Rightarrow> (Inl (Wrapped ''appending github check evidence: '' e []), w2))
      | (Inr message, w1) \<Rightarrow>
          (case gs_MarkPosted (gv_store s) (gt_id g) message (gv_clock s w1) w1 of
             (Inl e, w2) \<Rightarrow> (Inl e, w2)
           | (Inr _, w2) \<Rightarrow> (Inr (), w2)))"

text \<open>A loop over gates that goes on after an error; the result is the list of the errors that are joined.\<close>

fun each_gate :: "(gate \<Rightarrow> ('w, 'a) gate_op) \<Rightarrow> gate list \<Rightarrow> 'w \<Rightarrow> go_err list \<times> 'w" where
  "each_gate f [] w = ([], w)"
| "each_gate f (g # gs) w =
     (case f g w of
        (Inl e, w1) \<Rightarrow> (let (es, w2) = each_gate f gs w1 in (e # es, w2))
      | (Inr _, w1) \<Rightarrow> each_gate f gs w1)"

definition batch :: "int \<Rightarrow> int" where
  "batch limit = (if limit \<le> 0 then 10 else limit)"

definition gv_RetryGitHubCheckGateEvidence :: "'w gate_service \<Rightarrow> int \<Rightarrow> 'w \<Rightarrow> go_err list \<times> 'w" where
  "gv_RetryGitHubCheckGateEvidence s limit w =
     (case gs_ListEvidence (gv_store s) (batch limit) w of
        (Inl e, w1) \<Rightarrow> ([e], w1)
      | (Inr gs, w1) \<Rightarrow> each_gate (gv_deliverGitHubCheckGateEvidence s) gs w1)"

section \<open>The scan\<close>

text \<open>The scan's loop: an error of the listing ends it.\<close>

partial_function (option) scan_due ::
    "'w gate_service \<Rightarrow> 'w check_provider \<Rightarrow> int \<Rightarrow> go_err list \<Rightarrow> 'w \<Rightarrow> ((go_err list + go_err list) \<times> 'w) option" where
  "scan_due s provider limit errs w =
     (case gs_ListPending (gv_store s) (gv_clock s w) limit w of
        (Inl e, w1) \<Rightarrow> Some (Inl (errs @ [e]), w1)
      | (Inr gs, w1) \<Rightarrow>
          if gs = [] then Some (Inr errs, w1)
          else
            let (es, w2) = each_gate (gv_evaluateGitHubCheckGate s provider) gs w1 in
            if int (length gs) < limit then Some (Inr (errs @ es), w2)
            else scan_due s provider limit (errs @ es) w2)"

definition gv_PollGitHubCheckGates :: "'w gate_service \<Rightarrow> int \<Rightarrow> 'w \<Rightarrow> (go_err list \<times> 'w) option" where
  "gv_PollGitHubCheckGates s limit w =
     (case gv_checks s of
        None \<Rightarrow> Some ([checks_unconfigured], w)
      | Some provider \<Rightarrow>
          (case scan_due s provider (batch limit) [] w of
             None \<Rightarrow> None
           | Some (Inl errs, w1) \<Rightarrow> Some (errs, w1)
           | Some (Inr errs, w1) \<Rightarrow>
               let (es, w2) = gv_RetryGitHubCheckGateEvidence s (batch limit) w1 in Some (errs @ es, w2)))"

section \<open>Waiting for events\<close>

record event_page =
  ep_events :: "gate_event list"
  ep_cursor :: int
  ep_timed_out :: bool

record wait_receipt =
  wt_gate :: gate
  wt_event :: "gate_event option"
  wt_cursor :: int
  wt_terminal :: bool
  wt_timed_out :: bool

text \<open>What ends a turn of a waiting loop: the poll timer, the timeout, or the end of the request.\<close>

datatype wake = PollTimer | WaitOver | Cancelled go_err

partial_function (option) wait_events ::
    "'w gate_service \<Rightarrow> (duration \<Rightarrow> 'w \<Rightarrow> wake \<times> 'w) \<Rightarrow> events_query \<Rightarrow> duration \<Rightarrow> 'w \<Rightarrow> ((go_err + event_page) \<times> 'w) option" where
  "wait_events s sleep q wait w =
     (case gs_ListEvents (gv_store s) q w of
        (Inl e, w1) \<Rightarrow> Some (Inl e, w1)
      | (Inr es, w1) \<Rightarrow>
          if es \<noteq> [] then Some (Inr \<lparr>ep_events = es, ep_cursor = ge_id (last es), ep_timed_out = False\<rparr>, w1)
          else if wait = 0 then Some (Inr \<lparr>ep_events = [], ep_cursor = eq_after q, ep_timed_out = False\<rparr>, w1)
          else (case sleep wait w1 of
              (Cancelled e, w2) \<Rightarrow> Some (Inl e, w2)
            | (WaitOver, w2) \<Rightarrow> Some (Inr \<lparr>ep_events = [], ep_cursor = eq_after q, ep_timed_out = True\<rparr>, w2)
            | (PollTimer, w2) \<Rightarrow> wait_events s sleep q wait w2))"

definition gv_WaitGitHubCheckGateEvents ::
    "'w gate_service \<Rightarrow> (duration \<Rightarrow> 'w \<Rightarrow> wake \<times> 'w) \<Rightarrow> events_query \<Rightarrow> duration \<Rightarrow> 'w \<Rightarrow> ((go_err + event_page) \<times> 'w) option" where
  "gv_WaitGitHubCheckGateEvents s sleep q wait w =
     (let project = trim_space (eq_project q) in
      if project = [] then Some (Inl (review_badRequest ErrReviewMissingProjectID), w)
      else if eq_task q < 0 \<or> eq_after q < 0 \<or> eq_limit q < 0 \<or> wait < 0 then
        Some (Inl (review_badRequest (Errorf ''task_id, after_id, limit, and wait must not be negative'')), w)
      else
        let limit = (if eq_limit q = 0 then 50 else eq_limit q);
            limit = (if limit > 100 then 100 else limit)
        in wait_events s sleep (q\<lparr>eq_project := project, eq_limit := limit\<rparr>) (min wait (go_wait_max (gv_options s))) w)"

text \<open>\<open>wall\<close> is the machine's clock.\<close>

partial_function (option) wait_gate ::
    "'w gate_service \<Rightarrow> (duration \<Rightarrow> 'w \<Rightarrow> wake \<times> 'w) \<Rightarrow> ('w \<Rightarrow> time) \<Rightarrow> time \<Rightarrow> duration \<Rightarrow> gate \<Rightarrow> int \<Rightarrow> 'w \<Rightarrow>
      ((go_err + wait_receipt) \<times> 'w) option" where
  "wait_gate s sleep wall deadline wait g cursor w =
     (let remaining = time_until deadline (wall w) in
      if wait = 0 \<or> remaining \<le> 0 then
        Some (Inr \<lparr>wt_gate = g, wt_event = None, wt_cursor = cursor, wt_terminal = False, wt_timed_out = (wait > 0)\<rparr>, w)
      else case gv_WaitGitHubCheckGateEvents s sleep
          \<lparr>eq_project = gt_project g, eq_task = gt_task g, eq_after = cursor, eq_limit = 50\<rparr> remaining w of
          None \<Rightarrow> None
        | Some (Inl e, w1) \<Rightarrow> Some (Inl e, w1)
        | Some (Inr page, w1) \<Rightarrow>
            (case find (\<lambda>e. ge_gate e = gt_id g) (ep_events page) of
               Some e \<Rightarrow>
                 (case gs_Get (gv_store s) (gt_project g) (gt_task g) (gt_sha g) w1 of
                    (Inl err, w2) \<Rightarrow> Some (Inl err, w2)
                  | (Inr ended, w2) \<Rightarrow>
                      Some (Inr \<lparr>wt_gate = ended, wt_event = Some e, wt_cursor = ep_cursor page, wt_terminal = True, wt_timed_out = False\<rparr>, w2))
             | None \<Rightarrow>
                 if ep_timed_out page then
                   Some (Inr \<lparr>wt_gate = g, wt_event = None, wt_cursor = ep_cursor page, wt_terminal = False, wt_timed_out = True\<rparr>, w1)
                 else wait_gate s sleep wall deadline wait g (ep_cursor page) w1))"

definition gv_WaitForGitHubCheckGate ::
    "'w gate_service \<Rightarrow> (duration \<Rightarrow> 'w \<Rightarrow> wake \<times> 'w) \<Rightarrow> ('w \<Rightarrow> time) \<Rightarrow> string \<Rightarrow> int \<Rightarrow> string \<Rightarrow> int \<Rightarrow> duration \<Rightarrow> 'w \<Rightarrow>
      ((go_err + wait_receipt) \<times> 'w) option" where
  "gv_WaitForGitHubCheckGate s sleep wall project task sha after wait w =
     (if after < 0 \<or> wait < 0 then Some (Inl (review_badRequest (Errorf ''after_id and wait must not be negative'')), w)
      else
        let wait = min wait (50 * second_ns) in
        (case gv_GetGitHubCheckGate s project task sha w of
           (Inl e, w1) \<Rightarrow> Some (Inl e, w1)
         | (Inr g, w1) \<Rightarrow>
             if terminalGitHubCheckGateStatus (gt_status g) then
               Some (Inr \<lparr>wt_gate = g, wt_event = None, wt_cursor = after, wt_terminal = True, wt_timed_out = False\<rparr>, w1)
             else wait_gate s sleep wall (wall w1 + wait) wait g after w1))"

end
