(* ===== verification/Review_Gate_Laws.thy ===== *)
theory Review_Gate_Laws
  imports Review_Gate_Store
begin

text \<open>
  The tables of the check gates under every interleaving of statements: the invariant that ties gates to
  their terminal events, and the moves of a gate.
\<close>

section \<open>The invariant\<close>

text \<open>A terminal event tells the verdict of the gate.\<close>

definition tells :: "gate_event \<Rightarrow> gate \<Rightarrow> bool" where
  "tells e g \<longleftrightarrow>
     ge_gate e = gt_id g \<and> ge_attempt e = gt_attempt g \<and> ge_status e = gt_status g \<and> ge_reason e = gt_reason g \<and>
     ge_required e = gt_required g \<and> ge_ref e = gt_ref g \<and> ge_runs e = gt_runs g \<and> ge_observed e = gt_observed g \<and>
     ge_missing e = gt_missing g \<and> ge_summary e = gt_summary g \<and> ge_failure e = gt_failure g \<and>
     gt_completed g = Some (ge_completed e)"

definition retried :: "string \<Rightarrow> bool" where
  "retried s \<longleftrightarrow> s = GateFailed \<or> s = GateTimedOut"

text \<open>Every earlier attempt of a gate has an event that it failed, the current one has one exactly when it has ended.\<close>

definition gate_ok :: "gate_event list \<Rightarrow> gate \<Rightarrow> bool" where
  "gate_ok es g \<longleftrightarrow> validGitHubCheckGateStatus (gt_status g) \<and> 1 \<le> gt_attempt g \<and>
     (\<forall>a. 1 \<le> a \<and> a < gt_attempt g \<longrightarrow> (\<exists>e\<in>set es. ge_gate e = gt_id g \<and> ge_attempt e = a \<and> retried (ge_status e))) \<and>
     (if gt_status g = GatePending then \<forall>e\<in>set es. ge_gate e = gt_id g \<longrightarrow> ge_attempt e \<noteq> gt_attempt g
      else \<exists>e\<in>set es. tells e g)"

definition event_ok :: "gate list \<Rightarrow> gate_event \<Rightarrow> bool" where
  "event_ok gs e \<longleftrightarrow> terminalGitHubCheckGateStatus (ge_status e) \<and> ge_reason e \<noteq> [] \<and>
     (\<exists>g\<in>set gs. gt_id g = ge_gate e \<and> gate_key g = (ge_project e, ge_task e, ge_sha e) \<and>
        1 \<le> ge_attempt e \<and> ge_attempt e \<le> gt_attempt g)"

definition gates_inv :: "gate_tables \<Rightarrow> bool" where
  "gates_inv d \<longleftrightarrow>
     distinct (map gt_id (gd_gates d)) \<and> distinct (map gate_key (gd_gates d)) \<and>
     (\<forall>g\<in>set (gd_gates d). gt_id g < gd_next_gate d \<and> gate_ok (gd_events d) g) \<and>
     sorted_wrt (<) (map ge_id (gd_events d)) \<and> (\<forall>e\<in>set (gd_events d). ge_id e < gd_next_event d) \<and>
     distinct (map (\<lambda>e. (ge_gate e, ge_attempt e)) (gd_events d)) \<and>
     (\<forall>e\<in>set (gd_events d). event_ok (gd_gates d) e)"

definition no_gates :: gate_tables where
  "no_gates = \<lparr>gd_gates = [], gd_next_gate = 1, gd_events = [], gd_next_event = 1\<rparr>"

lemma no_gates_inv: "gates_inv no_gates"
  by (simp add: no_gates_def gates_inv_def)

lemma terminal_not_pending: "terminalGitHubCheckGateStatus s \<Longrightarrow> s \<noteq> GatePending"
  by (auto simp: terminalGitHubCheckGateStatus_def gate_states)

lemma valid_status: "validGitHubCheckGateStatus s \<longleftrightarrow> s = GatePending \<or> terminalGitHubCheckGateStatus s"
  by (auto simp: validGitHubCheckGateStatus_def terminalGitHubCheckGateStatus_def)

lemma retried_terminal: "retried s \<Longrightarrow> terminalGitHubCheckGateStatus s"
  by (auto simp: retried_def terminalGitHubCheckGateStatus_def)

section \<open>The moves of a gate\<close>

definition verdict_of :: "gate \<Rightarrow> _" where
  "verdict_of g = (gt_status g, gt_attempt g, gt_required g, gt_ref g, gt_reason g, gt_summary g, gt_failure g,
     gt_runs g, gt_observed g, gt_missing g, gt_completed g)"

inductive gate_moves :: "gate \<Rightarrow> gate \<Rightarrow> bool" where
  move_waits: "gt_status g = GatePending \<Longrightarrow> gt_status g' = GatePending \<Longrightarrow> gt_attempt g' = gt_attempt g \<Longrightarrow>
    gt_timeout g' = gt_timeout g \<Longrightarrow> gt_created g' = gt_created g \<Longrightarrow> gate_moves g g'"
| move_ends: "gt_status g = GatePending \<Longrightarrow> terminalGitHubCheckGateStatus (gt_status g') \<Longrightarrow> gt_attempt g' = gt_attempt g \<Longrightarrow>
    gate_moves g g'"
| move_keeps: "terminalGitHubCheckGateStatus (gt_status g) \<Longrightarrow> verdict_of g' = verdict_of g \<Longrightarrow> gate_moves g g'"
| move_reopens: "retried (gt_status g) \<Longrightarrow> gt_status g' = GatePending \<Longrightarrow> gt_attempt g' = gt_attempt g + 1 \<Longrightarrow> gate_moves g g'"

inductive_cases gate_movesE: "gate_moves g g'"

definition same_gate :: "gate \<Rightarrow> gate \<Rightarrow> bool" where
  "same_gate g g' \<longleftrightarrow> gt_id g' = gt_id g \<and> gate_key g' = gate_key g"

definition gates_move :: "gate_tables \<Rightarrow> gate_tables \<Rightarrow> bool" where
  "gates_move d d' \<longleftrightarrow> prefix (gd_events d) (gd_events d') \<and>
     (\<forall>g\<in>set (gd_gates d). \<exists>g'\<in>set (gd_gates d'). same_gate g g' \<and> gate_moves\<^sup>*\<^sup>* g g')"

lemma gates_move_refl: "gates_move d d"
  unfolding gates_move_def same_gate_def by auto

lemma gates_move_trans:
  assumes "gates_move d1 d2" and "gates_move d2 d3"
  shows "gates_move d1 d3"
proof -
  have "\<exists>g'\<in>set (gd_gates d3). same_gate g g' \<and> gate_moves\<^sup>*\<^sup>* g g'" if "g \<in> set (gd_gates d1)" for g
  proof -
    from assms(1) that obtain h where h: "h \<in> set (gd_gates d2)" "same_gate g h" "gate_moves\<^sup>*\<^sup>* g h"
      unfolding gates_move_def by blast
    from assms(2) h(1) obtain k where k: "k \<in> set (gd_gates d3)" "same_gate h k" "gate_moves\<^sup>*\<^sup>* h k"
      unfolding gates_move_def by blast
    with h show ?thesis unfolding same_gate_def by (metis rtranclp_trans)
  qed
  with assms show ?thesis unfolding gates_move_def by (meson prefix_order.trans)
qed

section \<open>Changes of rows\<close>

lemma gate_unique: "gates_inv d \<Longrightarrow> g \<in> set (gd_gates d) \<Longrightarrow> h \<in> set (gd_gates d) \<Longrightarrow> gt_id g = gt_id h \<Longrightarrow> g = h"
  unfolding gates_inv_def distinct_map by (elim conjE) (erule (3) inj_onD [rotated 1])

lemma event_attempt:
  assumes "gates_inv d" and "e \<in> set (gd_events d)" and "g \<in> set (gd_gates d)" and "ge_gate e = gt_id g"
  shows "ge_attempt e \<le> gt_attempt g"
proof -
  from assms(1,2) obtain h where h: "h \<in> set (gd_gates d)" "gt_id h = ge_gate e" "ge_attempt e \<le> gt_attempt h"
    unfolding gates_inv_def event_ok_def by blast
  with gate_unique [OF assms(1) h(1) assms(3)] assms(4) show ?thesis by simp
qed

lemma ok_same_verdict:
  assumes "gate_ok es g" and "verdict_of g' = verdict_of g" and "gt_id g' = gt_id g"
  shows "gate_ok es g'"
  using assms unfolding gate_ok_def tells_def verdict_of_def by auto

lemma ok_waits:
  assumes "gate_ok es g" and "gt_status g = GatePending" and "gt_status g' = GatePending"
    and "gt_attempt g' = gt_attempt g" and "gt_id g' = gt_id g"
  shows "gate_ok es g'"
  using assms unfolding gate_ok_def by auto

text \<open>A change of rows that keeps identities and inserts no event.\<close>

lemma rows_change:
  assumes inv: "gates_inv d"
    and same: "\<And>g. g \<in> set (gd_gates d) \<Longrightarrow> same_gate g (h g) \<and> gate_ok (gd_events d) (h g) \<and> gate_moves\<^sup>*\<^sup>* g (h g) \<and> gt_attempt g \<le> gt_attempt (h g)"
  shows "gates_inv (d\<lparr>gd_gates := map h (gd_gates d)\<rparr>) \<and> gates_move d (d\<lparr>gd_gates := map h (gd_gates d)\<rparr>)"
proof
  have ids: "map gt_id (map h (gd_gates d)) = map gt_id (gd_gates d)" "map gate_key (map h (gd_gates d)) = map gate_key (gd_gates d)"
    using same by (auto simp: same_gate_def)
  have ev: "event_ok (map h (gd_gates d)) e" if "event_ok (gd_gates d) e" for e
  proof -
    from that obtain g where g: "g \<in> set (gd_gates d)" "gt_id g = ge_gate e" "gate_key g = (ge_project e, ge_task e, ge_sha e)"
      "1 \<le> ge_attempt e" "ge_attempt e \<le> gt_attempt g" unfolding event_ok_def by blast
    from same [OF g(1)] g have "h g \<in> set (map h (gd_gates d))" "gt_id (h g) = ge_gate e"
      "gate_key (h g) = (ge_project e, ge_task e, ge_sha e)" "ge_attempt e \<le> gt_attempt (h g)"
      by (auto simp: same_gate_def)
    with that g(4) show ?thesis unfolding event_ok_def by blast
  qed
  show "gates_inv (d\<lparr>gd_gates := map h (gd_gates d)\<rparr>)"
  proof -
    have "distinct (map gt_id (map h (gd_gates d)))" "distinct (map gate_key (map h (gd_gates d)))"
      unfolding ids using inv by (simp_all add: gates_inv_def)
    moreover have "\<forall>g\<in>set (map h (gd_gates d)). gt_id g < gd_next_gate d \<and> gate_ok (gd_events d) g"
      using inv same by (auto simp: gates_inv_def same_gate_def)
    ultimately show ?thesis using inv ev unfolding gates_inv_def by simp
  qed
  show "gates_move d (d\<lparr>gd_gates := map h (gd_gates d)\<rparr>)"
    using same unfolding gates_move_def by auto
qed

text \<open>An update of one row.\<close>

lemma update_gate_found:
  assumes "update_gate i P f d = (Some g', d')"
  shows "\<exists>g. g \<in> set (gd_gates d) \<and> gt_id g = i \<and> P g \<and> g' = f g \<and> d' = d\<lparr>gd_gates := map (\<lambda>r. if gt_id r = i then f r else r) (gd_gates d)\<rparr>"
  using assms by (auto simp: update_gate_def update_where_def dest: row_lookup_Some split: option.split_asm if_split_asm)

lemma update_gate_missed: "update_gate i P f d = (None, d') \<Longrightarrow> d' = d"
  by (auto simp: update_gate_def split: option.split_asm if_split_asm)

lemma one_row_change:
  assumes inv: "gates_inv d" and upd: "update_gate i P f d = (found, d')"
    and ok: "\<And>g. g \<in> set (gd_gates d) \<Longrightarrow> P g \<Longrightarrow> same_gate g (f g) \<and> gate_ok (gd_events d) (f g) \<and> gate_moves g (f g) \<and> gt_attempt g \<le> gt_attempt (f g)"
  shows "gates_inv d' \<and> gates_move d d'"
proof (cases found)
  case None
  with upd inv show ?thesis using update_gate_missed gates_move_refl by blast
next
  case (Some g')
  from update_gate_found [OF upd [unfolded Some]] obtain g where g: "g \<in> set (gd_gates d)" "gt_id g = i" "P g"
    and d': "d' = d\<lparr>gd_gates := map (\<lambda>r. if gt_id r = i then f r else r) (gd_gates d)\<rparr>" by blast
  show ?thesis unfolding d'
  proof (rule rows_change [OF inv])
    fix r assume r: "r \<in> set (gd_gates d)"
    show "same_gate r (if gt_id r = i then f r else r) \<and> gate_ok (gd_events d) (if gt_id r = i then f r else r) \<and>
      gate_moves\<^sup>*\<^sup>* r (if gt_id r = i then f r else r) \<and> gt_attempt r \<le> gt_attempt (if gt_id r = i then f r else r)"
    proof (cases "gt_id r = i")
      case True
      with gate_unique [OF inv r g(1)] g have "r = g" by simp
      with ok [OF g(1,3)] True show ?thesis by auto
    next
      case False
      with r inv show ?thesis by (simp add: same_gate_def gates_inv_def)
    qed
  qed
qed

section \<open>Gates that end\<close>

lemma insert_event_new:
  assumes "insert_event now g d = Some d'" and "\<not> has_event d (gt_id g) (gt_attempt g)"
  shows "\<exists>e. d' = d\<lparr>gd_events := gd_events d @ [e], gd_next_event := gd_next_event d + 1\<rparr> \<and> ge_id e = gd_next_event d \<and>
    tells e g \<and> gate_key g = (ge_project e, ge_task e, ge_sha e) \<and> terminalGitHubCheckGateStatus (gt_status g) \<and> gt_reason g \<noteq> []"
proof -
  from assms(1) obtain ended where c: "gt_completed g = Some ended"
    by (auto simp: insert_event_def split: option.split_asm)
  with assms show ?thesis
    by (intro exI [of _ "event_of now (gd_next_event d) g ended"])
      (auto simp: insert_event_def event_of_def tells_def gate_key_def split: if_split_asm)
qed

lemma insert_event_gates: "insert_event now g d = Some d' \<Longrightarrow> gd_gates d' = gd_gates d \<and> gd_next_gate d' = gd_next_gate d"
  by (auto simp: insert_event_def split: option.split_asm if_split_asm)

text \<open>One pending gate ends: its row becomes \<open>f g\<close>, and its event is inserted.\<close>

lemma one_gate_ends:
  assumes inv: "gates_inv d" and g: "g \<in> set (gd_gates d)" "gt_status g = GatePending"
    and f: "same_gate g g'" "gt_attempt g' = gt_attempt g"
    and ins: "insert_event now g' (d\<lparr>gd_gates := map (\<lambda>r. if gt_id r = gt_id g then g' else r) (gd_gates d)\<rparr>) = Some d'"
  shows "gates_inv d' \<and> gates_move d d'"
proof -
  let ?h = "\<lambda>r. if gt_id r = gt_id g then g' else r"
  have only: "r = g" if "r \<in> set (gd_gates d)" "gt_id r = gt_id g" for r
    using gate_unique [OF inv that(1) g(1) that(2)] .
  from inv g have gok: "gate_ok (gd_events d) g" by (simp add: gates_inv_def)
  have none: "\<forall>e\<in>set (gd_events d). ge_gate e = gt_id g \<longrightarrow> ge_attempt e \<noteq> gt_attempt g"
    using gok g(2) by (simp add: gate_ok_def)
  then have "\<not> has_event (d\<lparr>gd_gates := map ?h (gd_gates d)\<rparr>) (gt_id g') (gt_attempt g')"
    using f by (auto simp: has_event_def same_gate_def)
  from insert_event_new [OF ins this] obtain e where
    d': "d' = d\<lparr>gd_gates := map ?h (gd_gates d), gd_events := gd_events d @ [e], gd_next_event := gd_next_event d + 1\<rparr>"
    and e: "ge_id e = gd_next_event d" "tells e g'" "gate_key g' = (ge_project e, ge_task e, ge_sha e)"
      "terminalGitHubCheckGateStatus (gt_status g')" "gt_reason g' \<noteq> []" by auto
  have eg: "ge_gate e = gt_id g" "ge_attempt e = gt_attempt g" "ge_status e = gt_status g'" "ge_reason e = gt_reason g'"
    using e(2) f by (auto simp: tells_def same_gate_def)
  have ids: "map gt_id (map ?h (gd_gates d)) = map gt_id (gd_gates d)" "map gate_key (map ?h (gd_gates d)) = map gate_key (gd_gates d)"
    using f only by (auto simp: same_gate_def)
  have rows_ok: "gate_ok (gd_events d') (?h r)" if r: "r \<in> set (gd_gates d)" for r
  proof (cases "gt_id r = gt_id g")
    case True
    then have "\<forall>a. 1 \<le> a \<and> a < gt_attempt g' \<longrightarrow> (\<exists>x\<in>set (gd_events d'). ge_gate x = gt_id g' \<and> ge_attempt x = a \<and> retried (ge_status x))"
      using gok f by (auto simp: gate_ok_def same_gate_def d')
    moreover have "1 \<le> gt_attempt g'" using gok f by (simp add: gate_ok_def)
    ultimately show ?thesis
      using True e terminal_not_pending [OF e(4)] by (auto simp: gate_ok_def valid_status d')
  next
    case False
    have "gate_ok (gd_events d) r" using inv r by (simp add: gates_inv_def)
    with False eg(1) show ?thesis by (auto simp: gate_ok_def d')
  qed
  have events_ok: "event_ok (gd_gates d') x" if "x \<in> set (gd_events d')" for x
  proof (cases "x = e")
    case True
    have "g' \<in> set (gd_gates d')" using g(1) by (auto simp: d')
    moreover have "1 \<le> gt_attempt g'" using gok f by (simp add: gate_ok_def)
    ultimately show ?thesis using True e eg f unfolding event_ok_def by (auto simp: same_gate_def)
  next
    case False
    with that have "x \<in> set (gd_events d)" by (simp add: d')
    with inv have x: "event_ok (gd_gates d) x" by (simp add: gates_inv_def)
    then obtain r where r: "r \<in> set (gd_gates d)" "gt_id r = ge_gate x" "gate_key r = (ge_project x, ge_task x, ge_sha x)"
      "1 \<le> ge_attempt x" "ge_attempt x \<le> gt_attempt r" unfolding event_ok_def by blast
    have "gt_id (?h r) = gt_id r" "gate_key (?h r) = gate_key r" "gt_attempt (?h r) = gt_attempt r"
      using only [OF r(1)] f by (auto simp: same_gate_def)
    moreover have "?h r \<in> set (gd_gates d')" using r(1) by (simp add: d')
    ultimately show ?thesis using x r unfolding event_ok_def by metis
  qed
  have rows_id: "gt_id (?h r) < gd_next_gate d" if "r \<in> set (gd_gates d)" for r
    using inv that f g by (auto simp: gates_inv_def same_gate_def)
  have gates': "gd_gates d' = map ?h (gd_gates d)" "gd_next_gate d' = gd_next_gate d" by (simp_all add: d')
  have rows: "\<forall>k\<in>set (gd_gates d'). gt_id k < gd_next_gate d' \<and> gate_ok (gd_events d') k"
  proof
    fix k assume "k \<in> set (gd_gates d')"
    then obtain r where "r \<in> set (gd_gates d)" "k = ?h r" unfolding gates' by auto
    then show "gt_id k < gd_next_gate d' \<and> gate_ok (gd_events d') k" using rows_ok rows_id unfolding gates' by blast
  qed
  have dist: "distinct (map gt_id (gd_gates d'))" "distinct (map gate_key (gd_gates d'))"
    unfolding gates' ids using inv by (simp_all add: gates_inv_def)
  have once: "distinct (map (\<lambda>e. (ge_gate e, ge_attempt e)) (gd_events d'))"
    using inv none eg by (auto simp: gates_inv_def d')
  have order: "sorted_wrt (<) (map ge_id (gd_events d'))" "\<forall>x\<in>set (gd_events d'). ge_id x < gd_next_event d'"
    using inv e(1) by (auto simp: gates_inv_def d' sorted_wrt_append)
  have "gates_inv d'" unfolding gates_inv_def
    using dist rows order once events_ok by blast
  moreover have "gates_move d d'"
  proof -
    have m: "gate_moves\<^sup>*\<^sup>* g g'"
      using move_ends [OF g(2) e(4) f(2)] by (rule r_into_rtranclp)
    have "\<exists>k\<in>set (gd_gates d'). same_gate r k \<and> gate_moves\<^sup>*\<^sup>* r k" if r: "r \<in> set (gd_gates d)" for r
    proof (rule bexI [of _ "?h r"])
      show "?h r \<in> set (gd_gates d')" using r by (simp add: d')
      show "same_gate r (?h r) \<and> gate_moves\<^sup>*\<^sup>* r (?h r)"
        using only [OF r] m f(1) by (auto simp: same_gate_def)
    qed
    then show ?thesis unfolding gates_move_def by (simp add: d')
  qed
  ultimately show ?thesis by blast
qed

text \<open>Several pending gates end in one statement: as if one after the other.\<close>

lemma insert_event_irrelevant:
  "insert_event now g (d\<lparr>gd_gates := x\<rparr>) = map_option (\<lambda>d'. d'\<lparr>gd_gates := x\<rparr>) (insert_event now g d)"
proof -
  have "has_event (d\<lparr>gd_gates := x\<rparr>) i a = has_event d i a" for i a by (simp add: has_event_def)
  then show ?thesis by (cases "gt_completed g") (simp_all add: insert_event_def)
qed

definition replace_gates :: "(gate \<Rightarrow> gate) \<Rightarrow> gate list \<Rightarrow> gate list \<Rightarrow> gate list" where
  "replace_gates f gs rows = map (\<lambda>r. if gt_id r \<in> gt_id ` set gs then f r else r) rows"

lemma replace_split:
  assumes "\<And>r. gt_id (f r) = gt_id r" and "\<And>r. r \<in> set rows \<Longrightarrow> gt_id r = gt_id g \<Longrightarrow> r = g" and "gt_id g \<notin> gt_id ` set gs"
  shows "replace_gates f (g # gs) rows = replace_gates f gs (map (\<lambda>r. if gt_id r = gt_id g then f g else r) rows)"
  using assms by (auto simp: replace_gates_def)

lemma gates_end:
  assumes "gates_inv d" and "\<forall>g\<in>set gs. g \<in> set (gd_gates d) \<and> gt_status g = GatePending" and "distinct (map gt_id gs)"
    and f: "\<And>r. same_gate r (f r)" "\<And>r. gt_attempt (f r) = gt_attempt r"
    and "insert_events now (map f gs) (d\<lparr>gd_gates := replace_gates f gs (gd_gates d)\<rparr>) = Some d'"
  shows "gates_inv d' \<and> gates_move d d'"
  using assms(1-3,6)
proof (induction gs arbitrary: d)
  case Nil
  then have "d' = d" by (simp add: replace_gates_def)
  with Nil gates_move_refl show ?case by blast
next
  case (Cons g gs)
  have fid: "\<And>r. gt_id (f r) = gt_id r" using f(1) by (simp add: same_gate_def)
  have g: "g \<in> set (gd_gates d)" "gt_status g = GatePending" and new: "gt_id g \<notin> gt_id ` set gs" using Cons.prems by auto
  let ?rows = "map (\<lambda>r. if gt_id r = gt_id g then f g else r) (gd_gates d)"
  have rows: "replace_gates f (g # gs) (gd_gates d) = replace_gates f gs ?rows"
    by (rule replace_split [OF fid _ new]) (rule gate_unique [OF Cons.prems(1) _ g(1)])
  from Cons.prems(4) obtain d1 where d1: "insert_event now (f g) d = Some d1"
    and rest: "insert_events now (map f gs) (d1\<lparr>gd_gates := replace_gates f gs ?rows\<rparr>) = Some d'"
    by (auto simp: rows insert_event_irrelevant split: option.split_asm)
  let ?d = "d1\<lparr>gd_gates := ?rows\<rparr>"
  have ins: "insert_event now (f g) (d\<lparr>gd_gates := ?rows\<rparr>) = Some ?d" using d1 by (simp add: insert_event_irrelevant)
  have one: "gates_inv ?d \<and> gates_move d ?d"
    by (rule one_gate_ends [OF Cons.prems(1) g f(1) f(2) ins])
  have mem: "h \<in> set (gd_gates ?d) \<and> gt_status h = GatePending" if "h \<in> set gs" for h
  proof -
    have h: "h \<in> set (gd_gates d)" "gt_status h = GatePending" using that Cons.prems(2) by simp_all
    have "gt_id h \<noteq> gt_id g" using that new by (metis image_eqI)
    then have "h = (if gt_id h = gt_id g then f g else h)" by simp
    with h show ?thesis by auto
  qed
  have "gates_inv d' \<and> gates_move ?d d'"
    by (rule Cons.IH) (use one mem Cons.prems(3) rest in auto)
  with one gates_move_trans show ?case by blast
qed

section \<open>Statements\<close>

lemma supersede_keeps:
  assumes inv: "gates_inv d" and "supersedeGitHubCheckGatesSQL project task sha now d = Some (gs, d')"
  shows "gates_inv d' \<and> gates_move d d'"
proof -
  let ?P = "supersedes project task sha" and ?f = "superseded_gate sha now"
  have "?P r \<longleftrightarrow> gt_id r \<in> gt_id ` set (filter ?P (gd_gates d))" if "r \<in> set (gd_gates d)" for r
    using that gate_unique [OF inv that] by auto
  then have "update_where ?P ?f (gd_gates d) = replace_gates ?f (filter ?P (gd_gates d)) (gd_gates d)"
    by (simp add: update_where_def replace_gates_def cong: map_cong)
  then have ins: "insert_events now (map ?f (filter ?P (gd_gates d)))
      (d\<lparr>gd_gates := replace_gates ?f (filter ?P (gd_gates d)) (gd_gates d)\<rparr>) = Some d'"
    using assms(2) by (auto simp: supersedeGitHubCheckGatesSQL_def Let_def)
  show ?thesis
  proof (rule gates_end [OF inv _ _ _ _ ins])
    show "\<forall>g\<in>set (filter ?P (gd_gates d)). g \<in> set (gd_gates d) \<and> gt_status g = GatePending"
      by (auto simp: supersedes_def)
    show "distinct (map gt_id (filter ?P (gd_gates d)))" using inv by (simp add: gates_inv_def distinct_map_filter)
  qed (simp_all add: superseded_gate_def same_gate_def gate_key_def)
qed

lemma complete_keeps:
  assumes inv: "gates_inv d" and valid: "validGitHubCheckGateStatus status"
    and out: "completeGitHubCheckGateSQL i status r at next_poll d = Some (found, d')"
  shows "gates_inv d' \<and> gates_move d d'"
proof (cases "terminalGitHubCheckGateStatus status")
  case False
  with valid have p: "status = GatePending" by (simp add: valid_status)
  let ?f = "completed_gate status r at next_poll"
  from out False have upd: "update_gate i pending_gate ?f d = (found, d')"
    by (auto simp: completeGitHubCheckGateSQL_def split: prod.split_asm option.split_asm)
  show ?thesis
  proof (rule one_row_change [OF inv upd])
    fix g assume g: "g \<in> set (gd_gates d)" "pending_gate g"
    then have gok: "gate_ok (gd_events d) g" and gp: "gt_status g = GatePending"
      using inv by (simp_all add: gates_inv_def pending_gate_def)
    have "gate_ok (gd_events d) (?f g)" by (rule ok_waits [OF gok gp]) (simp_all add: completed_gate_def Let_def p)
    moreover have "gate_moves g (?f g)" by (rule move_waits [OF gp]) (simp_all add: completed_gate_def Let_def p)
    ultimately show "same_gate g (?f g) \<and> gate_ok (gd_events d) (?f g) \<and> gate_moves g (?f g) \<and> gt_attempt g \<le> gt_attempt (?f g)"
      by (simp add: same_gate_def gate_key_def completed_gate_def Let_def)
  qed
next
  case True
  let ?f = "completed_gate status r at next_poll"
  show ?thesis
  proof (cases "update_gate i pending_gate ?f d")
    case (Pair x d1)
    show ?thesis
    proof (cases x)
      case None
      with Pair out have "d' = d1" by (simp add: completeGitHubCheckGateSQL_def)
      with update_gate_missed [OF Pair [unfolded None]] inv gates_move_refl show ?thesis by blast
    next
      case (Some g')
      from update_gate_found [OF Pair [unfolded Some]] obtain g where g: "g \<in> set (gd_gates d)" "gt_id g = i" "pending_gate g"
        "g' = ?f g" and d1: "d1 = d\<lparr>gd_gates := map (\<lambda>r. if gt_id r = i then ?f r else r) (gd_gates d)\<rparr>" by blast
      have "map (\<lambda>r. if gt_id r = i then ?f r else r) (gd_gates d) = map (\<lambda>r. if gt_id r = gt_id g then g' else r) (gd_gates d)"
      proof (rule map_cong [OF refl])
        fix r assume r: "r \<in> set (gd_gates d)"
        show "(if gt_id r = i then ?f r else r) = (if gt_id r = gt_id g then g' else r)"
          using gate_unique [OF inv r g(1)] g(2,4) by (cases "gt_id r = i") simp_all
      qed
      then have d1': "d1 = d\<lparr>gd_gates := map (\<lambda>r. if gt_id r = gt_id g then g' else r) (gd_gates d)\<rparr>" by (simp only: d1)
      have "map_option (\<lambda>d''. (Some g', d'')) (insert_event at g' d1) = Some (found, d')"
        using out unfolding completeGitHubCheckGateSQL_def Pair Some using True by simp
      then have ins: "insert_event at g' (d\<lparr>gd_gates := map (\<lambda>r. if gt_id r = gt_id g then g' else r) (gd_gates d)\<rparr>) = Some d'"
        unfolding d1' by (simp only: option.map_disc_iff map_option_eq_Some) blast
      show ?thesis
      proof (rule one_gate_ends [OF inv g(1) _ _ _ ins])
        show "gt_status g = GatePending" using g(3) by (simp add: pending_gate_def)
        show "same_gate g g'" "gt_attempt g' = gt_attempt g"
          by (simp_all add: g(4) same_gate_def gate_key_def completed_gate_def Let_def)
      qed
    qed
  qed
qed

lemma reopen_keeps:
  assumes inv: "gates_inv d" and out: "reopenGitHubCheckGateSQL q now d = Some (found, d')"
  shows "gates_inv d' \<and> gates_move d d'"
proof -
  let ?P = "\<lambda>g. gt_attempt g = rq_attempt q \<and> gt_status g \<in> set [GateFailed, GateTimedOut]" and ?f = "reopened_gate q now"
  from out have upd: "update_gate (rq_id q) ?P ?f d = (found, d')"
    by (auto simp: reopenGitHubCheckGateSQL_def split: prod.split_asm option.split_asm if_split_asm)
  show ?thesis
  proof (rule one_row_change [OF inv upd])
    fix g assume g: "g \<in> set (gd_gates d)" and P: "?P g"
    then have gok: "gate_ok (gd_events d) g" using inv by (simp add: gates_inv_def)
    have r: "retried (gt_status g)" using P by (auto simp: retried_def)
    then have "gt_status g \<noteq> GatePending" using retried_terminal terminal_not_pending by blast
    with gok obtain e where e: "e \<in> set (gd_events d)" "tells e g" by (auto simp: gate_ok_def)
    have "\<exists>x\<in>set (gd_events d). ge_gate x = gt_id g \<and> ge_attempt x = a \<and> retried (ge_status x)" if "1 \<le> a" "a < gt_attempt g + 1" for a
    proof (cases "a = gt_attempt g")
      case True
      with e r show ?thesis by (auto simp: tells_def)
    next
      case False
      with that gok show ?thesis by (simp add: gate_ok_def)
    qed
    moreover have "\<forall>x\<in>set (gd_events d). ge_gate x = gt_id g \<longrightarrow> ge_attempt x \<noteq> gt_attempt g + 1"
      using event_attempt [OF inv _ g] by fastforce
    ultimately have "gate_ok (gd_events d) (?f g)"
      using gok by (simp add: gate_ok_def reopened_gate_def valid_status)
    moreover have "gate_moves g (?f g)" by (rule move_reopens [OF r]) (simp_all add: reopened_gate_def)
    ultimately show "same_gate g (?f g) \<and> gate_ok (gd_events d) (?f g) \<and> gate_moves g (?f g) \<and> gt_attempt g \<le> gt_attempt (?f g)"
      by (simp add: same_gate_def gate_key_def reopened_gate_def)
  qed
qed

lemma delay_keeps:
  assumes inv: "gates_inv d" and out: "delayGitHubCheckGateSQL i r next_poll at d = Some (found, d')"
  shows "gates_inv d' \<and> gates_move d d'"
proof -
  let ?f = "delayed_gate r next_poll at"
  from out have upd: "update_gate i pending_gate ?f d = (found, d')" by (simp add: delayGitHubCheckGateSQL_def)
  show ?thesis
  proof (rule one_row_change [OF inv upd])
    fix g assume g: "g \<in> set (gd_gates d)" "pending_gate g"
    then have gok: "gate_ok (gd_events d) g" and gp: "gt_status g = GatePending"
      using inv by (simp_all add: gates_inv_def pending_gate_def)
    have "gate_ok (gd_events d) (?f g)" by (rule ok_waits [OF gok gp]) (simp_all add: delayed_gate_def gp)
    moreover have "gate_moves g (?f g)" by (rule move_waits [OF gp]) (simp_all add: delayed_gate_def gp)
    ultimately show "same_gate g (?f g) \<and> gate_ok (gd_events d) (?f g) \<and> gate_moves g (?f g) \<and> gt_attempt g \<le> gt_attempt (?f g)"
      by (simp add: same_gate_def gate_key_def delayed_gate_def)
  qed
qed

text \<open>A change of a row that keeps what the gate waits for or what it has decided.\<close>

lemma quiet_change:
  assumes "gate_ok es g" and "gt_id (f g) = gt_id g" and "verdict_of (f g) = verdict_of g"
    and "gt_timeout (f g) = gt_timeout g" and "gt_created (f g) = gt_created g"
  shows "gate_ok es (f g) \<and> gate_moves g (f g)"
proof
  show "gate_ok es (f g)" by (rule ok_same_verdict [OF assms(1) assms(3,2)])
  have v: "validGitHubCheckGateStatus (gt_status g)" using assms(1) by (simp add: gate_ok_def)
  show "gate_moves g (f g)"
  proof (cases "gt_status g = GatePending")
    case True
    with assms show ?thesis by (intro move_waits) (simp_all add: verdict_of_def)
  next
    case False
    with v have "terminalGitHubCheckGateStatus (gt_status g)" by (simp add: valid_status)
    then show ?thesis using assms(3) by (rule move_keeps)
  qed
qed

lemma posted_keeps:
  assumes inv: "gates_inv d" and out: "markGitHubCheckGateEvidencePostedSQL i m at d = Some (found, d')"
  shows "gates_inv d' \<and> gates_move d d'"
proof -
  from out have upd: "update_gate i (\<lambda>_. True) (posted_gate m at) d = (found, d')"
    by (simp add: markGitHubCheckGateEvidencePostedSQL_def)
  show ?thesis
  proof (rule one_row_change [OF inv upd])
    fix g assume "g \<in> set (gd_gates d)"
    then have "gate_ok (gd_events d) g" using inv by (simp add: gates_inv_def)
    from quiet_change [OF this, of "posted_gate m at"]
    show "same_gate g (posted_gate m at g) \<and> gate_ok (gd_events d) (posted_gate m at g) \<and> gate_moves g (posted_gate m at g) \<and>
        gt_attempt g \<le> gt_attempt (posted_gate m at g)"
      by (simp add: same_gate_def gate_key_def posted_gate_def verdict_of_def)
  qed
qed

lemma evidence_error_keeps:
  assumes inv: "gates_inv d" and out: "recordGitHubCheckGateEvidenceErrorSQL i m at d = Some (found, d')"
  shows "gates_inv d' \<and> gates_move d d'"
proof -
  from out have upd: "update_gate i (\<lambda>_. True) (evidence_error_gate m at) d = (found, d')"
    by (simp add: recordGitHubCheckGateEvidenceErrorSQL_def)
  show ?thesis
  proof (rule one_row_change [OF inv upd])
    fix g assume "g \<in> set (gd_gates d)"
    then have "gate_ok (gd_events d) g" using inv by (simp add: gates_inv_def)
    from quiet_change [OF this, of "evidence_error_gate m at"]
    show "same_gate g (evidence_error_gate m at g) \<and> gate_ok (gd_events d) (evidence_error_gate m at g) \<and>
        gate_moves g (evidence_error_gate m at g) \<and> gt_attempt g \<le> gt_attempt (evidence_error_gate m at g)"
      by (simp add: same_gate_def gate_key_def evidence_error_gate_def verdict_of_def)
  qed
qed

lemma registered_again_keeps:
  assumes "gate_ok es g" and "gate_key new = gate_key g"
  shows "same_gate g (registered_again new now g) \<and> gate_ok es (registered_again new now g) \<and>
    gate_moves g (registered_again new now g) \<and> gt_attempt g \<le> gt_attempt (registered_again new now g)"
proof -
  let ?g = "registered_again new now g"
  have same: "same_gate g ?g" "gt_attempt ?g = gt_attempt g" "gt_status ?g = gt_status g" "gt_id ?g = gt_id g"
    by (simp_all add: same_gate_def gate_key_def registered_again_def Let_def)
  show ?thesis
  proof (cases "gt_status g = GatePending")
    case True
    have "gate_ok es ?g" by (rule ok_waits [OF assms(1) True]) (simp_all add: same True)
    moreover have "gate_moves g ?g"
      by (rule move_waits [OF True]) (simp_all add: same True, simp_all add: registered_again_def Let_def)
    ultimately show ?thesis using same by simp
  next
    case False
    have "gate_ok es ?g \<and> gate_moves g ?g"
      by (rule quiet_change [OF assms(1)]) (simp_all add: registered_again_def Let_def verdict_of_def False)
    with same show ?thesis by simp
  qed
qed

lemma next_gate_inv: "gates_inv d \<Longrightarrow> gates_inv (d\<lparr>gd_next_gate := gd_next_gate d + 1\<rparr>)"
  unfolding gates_inv_def by fastforce

lemma next_gate_move: "gates_move d d' \<Longrightarrow> gates_move d (d'\<lparr>gd_next_gate := n\<rparr>)"
  by (simp add: gates_move_def)

lemma gate_upsert_keeps:
  assumes inv: "gates_inv d" and new: "gt_status new = GatePending" and out: "upsertGitHubCheckGateSQL new now d = Some (stored, d')"
  shows "gates_inv d' \<and> gates_move d d'"
proof (cases "row_lookup gate_key (gate_key new) (gd_gates d)")
  case (Some old)
  then have old: "old \<in> set (gd_gates d)" "gate_key old = gate_key new" by (auto dest: row_lookup_Some)
  let ?f = "\<lambda>r. if gate_key r = gate_key new then registered_again new now r else r"
  have "gates_inv (d\<lparr>gd_gates := map ?f (gd_gates d)\<rparr>) \<and> gates_move d (d\<lparr>gd_gates := map ?f (gd_gates d)\<rparr>)"
  proof (rule rows_change [OF inv])
    fix g assume "g \<in> set (gd_gates d)"
    then have ok: "gate_ok (gd_events d) g" using inv by (simp add: gates_inv_def)
    show "same_gate g (?f g) \<and> gate_ok (gd_events d) (?f g) \<and> gate_moves\<^sup>*\<^sup>* g (?f g) \<and> gt_attempt g \<le> gt_attempt (?f g)"
    proof (cases "gate_key g = gate_key new")
      case True
      from registered_again_keeps [OF ok True [symmetric], of now] True show ?thesis by auto
    next
      case False
      with ok show ?thesis by (simp add: same_gate_def)
    qed
  qed
  moreover have "d' = (d\<lparr>gd_gates := map ?f (gd_gates d)\<rparr>)\<lparr>gd_next_gate := gd_next_gate d + 1\<rparr>"
    using out Some by (auto simp: upsertGitHubCheckGateSQL_def update_where_def split: if_split_asm)
  ultimately show ?thesis
    using next_gate_inv [of "d\<lparr>gd_gates := map ?f (gd_gates d)\<rparr>"] next_gate_move [of d "d\<lparr>gd_gates := map ?f (gd_gates d)\<rparr>"] by simp
next
  case None
  let ?g = "new_gate (gd_next_gate d) new now"
  have d': "d' = d\<lparr>gd_gates := gd_gates d @ [?g], gd_next_gate := gd_next_gate d + 1\<rparr>"
    using out None by (auto simp: upsertGitHubCheckGateSQL_def Let_def split: if_split_asm)
  have ev: "ge_gate e < gd_next_gate d" if "e \<in> set (gd_events d)" for e
  proof -
    from inv that have "event_ok (gd_gates d) e" by (simp add: gates_inv_def)
    then show ?thesis using inv by (auto simp: event_ok_def gates_inv_def)
  qed
  have "gate_ok (gd_events d) ?g"
    using new ev by (fastforce simp: gate_ok_def new_gate_def valid_status)
  moreover have "gate_key ?g \<notin> gate_key ` set (gd_gates d)"
    using None by (simp add: row_lookup_None new_gate_def gate_key_def)
  moreover have "event_ok (gd_gates d @ [?g]) e" if "event_ok (gd_gates d) e" for e
    using that by (auto simp: event_ok_def)
  moreover have "gt_id ?g = gd_next_gate d" by (simp add: new_gate_def)
  ultimately have "gates_inv d'" using inv unfolding gates_inv_def d' by fastforce
  moreover have "gates_move d d'" by (auto simp: d' gates_move_def same_gate_def)
  ultimately show ?thesis by blast
qed

section \<open>Interleavings\<close>

text \<open>
  A statement that some request or the poller executes, with any arguments of the kinds they use; the
  transaction of a registration is two of these.
\<close>

inductive gate_step :: "gate_tables \<Rightarrow> gate_tables \<Rightarrow> bool" where
  step_supersede: "supersedeGitHubCheckGatesSQL project task sha now d = Some (gs, d') \<Longrightarrow> gate_step d d'"
| step_upsert: "gt_status new = GatePending \<Longrightarrow> upsertGitHubCheckGateSQL new now d = Some (g, d') \<Longrightarrow> gate_step d d'"
| step_complete: "validGitHubCheckGateStatus status \<Longrightarrow> completeGitHubCheckGateSQL i status r at next_poll d = Some (found, d') \<Longrightarrow>
    gate_step d d'"
| step_reopen: "reopenGitHubCheckGateSQL q now d = Some (found, d') \<Longrightarrow> gate_step d d'"
| step_delay: "delayGitHubCheckGateSQL i r next_poll at d = Some (found, d') \<Longrightarrow> gate_step d d'"
| step_posted: "markGitHubCheckGateEvidencePostedSQL i m at d = Some (found, d') \<Longrightarrow> gate_step d d'"
| step_evidence_error: "recordGitHubCheckGateEvidenceErrorSQL i err at d = Some (found, d') \<Longrightarrow> gate_step d d'"

lemma gate_step_keeps: "gate_step d d' \<Longrightarrow> gates_inv d \<Longrightarrow> gates_inv d' \<and> gates_move d d'"
proof (induction rule: gate_step.induct)
  case step_supersede
  then show ?case by (rule supersede_keeps [rotated])
next
  case step_upsert
  then show ?case by (metis gate_upsert_keeps)
next
  case step_complete
  then show ?case by (metis complete_keeps)
next
  case step_reopen
  then show ?case by (rule reopen_keeps [rotated])
next
  case step_delay
  then show ?case by (rule delay_keeps [rotated])
next
  case step_posted
  then show ?case by (rule posted_keeps [rotated])
next
  case step_evidence_error
  then show ?case by (rule evidence_error_keeps [rotated])
qed

lemma gate_steps_keep: "gate_step\<^sup>*\<^sup>* d d' \<Longrightarrow> gates_inv d \<Longrightarrow> gates_inv d' \<and> gates_move d d'"
proof (induction rule: rtranclp_induct)
  case base
  then show ?case by (simp add: gates_move_refl)
next
  case (step d1 d2)
  with gate_step_keeps gates_move_trans show ?case by blast
qed

text \<open>Along its moves a gate keeps its identity, and an end that is not retried is final.\<close>

lemma final_gate:
  assumes "gate_moves\<^sup>*\<^sup>* g g'" and "terminalGitHubCheckGateStatus (gt_status g)" and "\<not> retried (gt_status g)"
  shows "verdict_of g' = verdict_of g"
  using assms
proof (induction rule: rtranclp_induct)
  case (step g1 g2)
  then have v: "verdict_of g1 = verdict_of g" by blast
  then have s: "gt_status g1 = gt_status g" by (simp add: verdict_of_def)
  from step.hyps(2) have "verdict_of g2 = verdict_of g1"
  proof cases
    case move_keeps
    then show ?thesis by simp
  qed (use step.prems s terminal_not_pending in auto)
  with v show ?case by simp
qed simp

end
