(* ===== verification/Review_Checks_Laws.thy ===== *)
theory Review_Checks_Laws
  imports Review_Checks
begin

text \<open>
  What the evaluation of a gate decides, stated over the lists of runs GitHub reported, and which files a
  paths filter selects, stated over the text of its patterns.
\<close>

section \<open>The newest run\<close>

text \<open>The run of a name with the highest id; of runs that share it the first.\<close>

definition newest :: "string \<Rightarrow> check_run_response list \<Rightarrow> check_run_response \<Rightarrow> bool" where
  "newest n rs r \<longleftrightarrow> cr_name r = n \<and>
     (\<exists>xs ys. rs = xs @ r # ys \<and> (\<forall>q\<in>set xs. cr_name q = n \<longrightarrow> cr_id q < cr_id r) \<and>
        (\<forall>q\<in>set ys. cr_name q = n \<longrightarrow> cr_id q \<le> cr_id r))"

lemma latest_snoc: "latestGitHubCheckRunsByName (rs @ [r]) = put_newer r (latestGitHubCheckRunsByName rs)"
  by (simp add: latestGitHubCheckRunsByName_def)

lemma put_newer_map:
  "map_of (put_newer r m) n =
     (if n = cr_name r then
        (case map_of m n of None \<Rightarrow> Some r | Some old \<Rightarrow> if cr_id r > cr_id old then Some r else Some old)
      else map_of m n)"
  by (auto simp: put_newer_def update_conv split: option.splits)

lemma newest_Nil [simp]: "\<not> newest n [] r"
  by (simp add: newest_def)

lemma newest_in: "newest n rs r \<Longrightarrow> r \<in> set rs \<and> cr_name r = n"
  by (auto simp: newest_def)

lemma newest_snoc:
  "newest n (rs @ [q]) r \<longleftrightarrow>
     (if cr_name q = n then (q = r \<and> (\<forall>p\<in>set rs. cr_name p = n \<longrightarrow> cr_id p < cr_id q)) \<or> (newest n rs r \<and> cr_id q \<le> cr_id r)
      else newest n rs r)" (is "?l \<longleftrightarrow> ?r")
proof
  assume ?l
  then obtain xs ys where eq: "rs @ [q] = xs @ r # ys" and n: "cr_name r = n"
    and xs: "\<forall>p\<in>set xs. cr_name p = n \<longrightarrow> cr_id p < cr_id r" and ys: "\<forall>p\<in>set ys. cr_name p = n \<longrightarrow> cr_id p \<le> cr_id r"
    by (auto simp: newest_def)
  show ?r
  proof (cases ys rule: rev_cases)
    case Nil
    with eq n xs show ?thesis by auto
  next
    case (snoc zs z)
    with eq have "rs = xs @ r # zs" "z = q" by auto
    with n xs ys snoc have "newest n rs r" "cr_name q = n \<longrightarrow> cr_id q \<le> cr_id r" by (auto simp: newest_def)
    then show ?thesis by simp
  qed
next
  assume R: ?r
  show ?l
  proof (cases "cr_name q = n \<and> q = r \<and> (\<forall>p\<in>set rs. cr_name p = n \<longrightarrow> cr_id p < cr_id q)")
    case True
    then show ?thesis unfolding newest_def by (intro conjI exI [of _ rs] exI [of _ "[]"]) auto
  next
    case False
    with R have "newest n rs r" and q: "cr_name q = n \<Longrightarrow> cr_id q \<le> cr_id r" by (auto split: if_splits)
    then obtain xs ys where eq: "rs = xs @ r # ys" and "cr_name r = n"
      and "\<forall>p\<in>set xs. cr_name p = n \<longrightarrow> cr_id p < cr_id r" "\<forall>p\<in>set ys. cr_name p = n \<longrightarrow> cr_id p \<le> cr_id r"
      by (auto simp: newest_def)
    with q show ?thesis unfolding newest_def by (intro conjI exI [of _ xs] exI [of _ "ys @ [q]"]) auto
  qed
qed

lemma newest_above: "newest n rs r \<Longrightarrow> q \<in> set rs \<Longrightarrow> cr_name q = n \<Longrightarrow> cr_id q \<le> cr_id r"
proof -
  assume "newest n rs r" and q: "q \<in> set rs" "cr_name q = n"
  then obtain xs ys where "rs = xs @ r # ys" and xs: "\<forall>q\<in>set xs. cr_name q = n \<longrightarrow> cr_id q < cr_id r"
    and ys: "\<forall>q\<in>set ys. cr_name q = n \<longrightarrow> cr_id q \<le> cr_id r"
    unfolding newest_def by blast
  with q consider "q \<in> set xs" | "q = r" | "q \<in> set ys" by auto
  then show ?thesis
  proof cases
    case 1
    with xs q have "cr_id q < cr_id r" by blast
    then show ?thesis by simp
  qed (use ys q in auto)
qed

lemma latest_none: "map_of (latestGitHubCheckRunsByName rs) n = None \<longleftrightarrow> (\<forall>p\<in>set rs. cr_name p \<noteq> n)"
proof (induction rs rule: rev_induct)
  case Nil
  show ?case by (simp add: latestGitHubCheckRunsByName_def)
next
  case (snoc q rs)
  then show ?case by (auto simp: latest_snoc put_newer_map split: option.splits)
qed

lemma latest_newest: "map_of (latestGitHubCheckRunsByName rs) n = Some r \<longleftrightarrow> newest n rs r"
proof (induction rs arbitrary: r rule: rev_induct)
  case Nil
  show ?case by (simp add: latestGitHubCheckRunsByName_def)
next
  case (snoc q rs)
  show ?case
  proof (cases "cr_name q = n")
    case False
    with snoc show ?thesis by (simp add: latest_snoc put_newer_map newest_snoc)
  next
    case True
    show ?thesis
    proof (cases "map_of (latestGitHubCheckRunsByName rs) n")
      case None
      then have "\<forall>p\<in>set rs. cr_name p \<noteq> n" by (simp add: latest_none)
      with True None show ?thesis by (auto simp: latest_snoc put_newer_map newest_snoc dest: newest_in)
    next
      case (Some old)
      with snoc.IH have old: "newest n rs p \<longleftrightarrow> p = old" for p by (metis option.inject)
      then have "\<forall>p\<in>set rs. cr_name p = n \<longrightarrow> cr_id p \<le> cr_id old" and "old \<in> set rs" "cr_name old = n"
        by (auto dest: newest_above newest_in)
      with True Some old show ?thesis by (auto simp: latest_snoc put_newer_map newest_snoc)
    qed
  qed
qed

lemma newest_unique: "newest n rs r \<Longrightarrow> newest n rs q \<Longrightarrow> q = r"
  by (simp flip: latest_newest)

lemma newest_exists: "(\<exists>r. newest n rs r) \<longleftrightarrow> (\<exists>p\<in>set rs. cr_name p = n)"
  using latest_none [of rs n] by (auto simp flip: latest_newest)

lemma latest_distinct: "distinct (map fst (latestGitHubCheckRunsByName rs))"
proof (induction rs rule: rev_induct)
  case Nil
  show ?case by (simp add: latestGitHubCheckRunsByName_def)
next
  case (snoc q rs)
  then show ?case by (auto simp: latest_snoc put_newer_def distinct_update split: option.split)
qed

lemma latest_entries: "set (latestGitHubCheckRunsByName rs) = {(n, r). newest n rs r}"
  using latest_distinct by (auto simp flip: latest_newest)

section \<open>The verdict on a check\<close>

definition ran_on :: "string \<Rightarrow> check_run_response list \<Rightarrow> bool" where
  "ran_on n rs \<longleftrightarrow> (\<exists>r\<in>set rs. cr_name r = n)"

definition succeeds_on :: "string \<Rightarrow> check_run_response list \<Rightarrow> bool" where
  "succeeds_on n rs \<longleftrightarrow> (\<exists>r. newest n rs r \<and> succeeded r)"

definition running_on :: "string \<Rightarrow> check_run_response list \<Rightarrow> bool" where
  "running_on n rs \<longleftrightarrow> (\<exists>r. newest n rs r \<and> \<not> completed r)"

definition breaks_on :: "string \<Rightarrow> check_run_response list \<Rightarrow> bool" where
  "breaks_on n rs \<longleftrightarrow> (\<exists>r. newest n rs r \<and> completed r \<and> \<not> succeeded r \<and> cr_conclusion r \<noteq> ''cancelled'')"

text \<open>
  A check is satisfied by its own run, by a run on a later commit unless its own is still in progress,
  or, where it ran on none of these commits, by an earlier run. It is to blame when its own run broke and
  no later run succeeded or is in progress.
\<close>

definition satisfied :: "check_run_response list \<Rightarrow> commit_check_runs list \<Rightarrow> runs_by_name \<Rightarrow> string \<Rightarrow> bool" where
  "satisfied own later earlier n \<longleftrightarrow>
     succeeds_on n own \<or>
     (\<not> running_on n own \<and> (\<exists>c\<in>set later. succeeds_on n (cc_runs c))) \<or>
     (\<not> ran_on n own \<and> (\<forall>c\<in>set later. \<not> ran_on n (cc_runs c)) \<and> n \<in> fst ` set earlier)"

definition to_blame :: "check_run_response list \<Rightarrow> commit_check_runs list \<Rightarrow> string \<Rightarrow> bool" where
  "to_blame own later n \<longleftrightarrow>
     breaks_on n own \<and> (\<forall>c\<in>set later. \<not> succeeds_on n (cc_runs c) \<and> \<not> running_on n (cc_runs c))"

definition unseen :: "check_run_response list \<Rightarrow> commit_check_runs list \<Rightarrow> runs_by_name \<Rightarrow> string \<Rightarrow> bool" where
  "unseen own later earlier n \<longleftrightarrow>
     \<not> ran_on n own \<and> (\<forall>c\<in>set later. \<not> ran_on n (cc_runs c)) \<and> n \<notin> fst ` set earlier"

lemma ran_on_map: "ran_on n rs \<longleftrightarrow> map_of (latestGitHubCheckRunsByName rs) n \<noteq> None"
  by (auto simp: ran_on_def latest_none)

lemma first_success_none:
  "firstLaterSuccess (latestRunsPerCommit later) n = None \<longleftrightarrow> (\<forall>c\<in>set later. \<not> succeeds_on n (cc_runs c))"
  by (induction later) (auto simp: latestRunsPerCommit_def succeeds_on_def simp flip: latest_newest split: option.split)

lemma loop_running:
  "fst (later_run_loop (latestRunsPerCommit later) n (running, seen)) = None \<longleftrightarrow>
     running = None \<and> (\<forall>c\<in>set later. \<not> running_on n (cc_runs c))"
  by (induction later arbitrary: running seen)
    (auto simp: latestRunsPerCommit_def running_on_def simp flip: latest_newest split: option.split)

lemma loop_seen:
  "snd (later_run_loop (latestRunsPerCommit later) n (running, seen)) = None \<longleftrightarrow>
     seen = None \<and> (\<forall>c\<in>set later. \<not> ran_on n (cc_runs c))"
  by (induction later arbitrary: running seen)
    (auto simp: latestRunsPerCommit_def ran_on_map split: option.split)

lemma state_ran: "succeeds_on n rs \<Longrightarrow> ran_on n rs" "running_on n rs \<Longrightarrow> ran_on n rs"
  by (auto simp: succeeds_on_def running_on_def ran_on_def dest: newest_in)

text \<open>What one pass through the loop adds.\<close>

lemma judge_step:
  fixes own later earlier n t
  defines "t' \<equiv> judge_check (latestGitHubCheckRunsByName own) (latestRunsPerCommit later) earlier n t"
  shows "ta_failed t' \<noteq> [] \<longleftrightarrow> ta_failed t \<noteq> [] \<or> to_blame own later n"
    and "ta_missing t' = ta_missing t @ (if unseen own later earlier n then [n] else [])"
    and "ta_missing t' @ ta_pending t' \<noteq> [] \<longleftrightarrow> ta_missing t @ ta_pending t \<noteq> [] \<or> \<not> satisfied own later earlier n \<and> \<not> to_blame own later n"
proof -
  let ?own = "latestGitHubCheckRunsByName own" and ?later = "latestRunsPerCommit later"
  have none: "firstLaterSuccess ?later n = None \<longleftrightarrow> (\<forall>c\<in>set later. \<not> succeeds_on n (cc_runs c))"
    by (rule first_success_none)
  have running: "fst (laterRunState ?later n) = None \<longleftrightarrow> (\<forall>c\<in>set later. \<not> running_on n (cc_runs c))"
    using loop_running [of later n None None] by (simp add: laterRunState_def)
  have seen: "snd (laterRunState ?later n) = None \<longleftrightarrow> (\<forall>c\<in>set later. \<not> ran_on n (cc_runs c))"
    using loop_seen [of later n None None] by (simp add: laterRunState_def)
  have fst_set: "n \<in> fst ` set earlier \<longleftrightarrow> map_of earlier n \<noteq> None"
    by (simp add: map_of_eq_None_iff)
  have runs: "succeeds_on n rs \<longrightarrow> ran_on n rs" "running_on n rs \<longrightarrow> ran_on n rs" for rs
    using state_ran by blast+
  have all: "(ta_failed t' \<noteq> [] \<longleftrightarrow> ta_failed t \<noteq> [] \<or> to_blame own later n) \<and>
      ta_missing t' = ta_missing t @ (if unseen own later earlier n then [n] else []) \<and>
      (ta_missing t' @ ta_pending t' \<noteq> [] \<longleftrightarrow>
         ta_missing t @ ta_pending t \<noteq> [] \<or> \<not> satisfied own later earlier n \<and> \<not> to_blame own later n)"
  proof (cases "map_of ?own n")
    case None
    then have own: "\<not> ran_on n own" "\<not> succeeds_on n own" "\<not> running_on n own" "\<not> breaks_on n own"
      by (auto simp: ran_on_map succeeds_on_def running_on_def breaks_on_def simp flip: latest_newest)
    obtain a b where ab: "laterRunState ?later n = (a, b)" by fastforce
    show ?thesis
      using None own none running seen runs fst_set ab
      unfolding t'_def judge_check_def satisfied_def to_blame_def unseen_def
      by (auto simp: add_run_def wait_for_def split: option.split)
  next
    case (Some r)
    then have r: "newest n own r" by (simp add: latest_newest)
    then have own: "ran_on n own" "succeeds_on n own \<longleftrightarrow> succeeded r" "running_on n own \<longleftrightarrow> \<not> completed r"
      "breaks_on n own \<longleftrightarrow> completed r \<and> \<not> succeeded r \<and> cr_conclusion r \<noteq> ''cancelled''"
      by (auto simp: ran_on_def succeeds_on_def running_on_def breaks_on_def dest: newest_in newest_unique)
    obtain a b where ab: "laterRunState ?later n = (a, b)" by fastforce
    have unseen: "\<not> unseen own later earlier n" using own(1) by (simp add: unseen_def)
    note spec = satisfied_def to_blame_def
    note step = t'_def judge_check_def Some Let_def option.case if_True if_False add_run_def wait_for_def own unseen
    consider (run) "\<not> completed r" | (ok) "completed r" "succeeded r"
      | (later) s where "completed r" "\<not> succeeded r" "firstLaterSuccess ?later n = Some s"
      | (waits) "completed r" "\<not> succeeded r" "firstLaterSuccess ?later n = None" "a \<noteq> None"
      | (lost) "completed r" "\<not> succeeded r" "firstLaterSuccess ?later n = None" "a = None"
      by (cases "firstLaterSuccess ?later n") blast+
    then show ?thesis
    proof cases
      case run
      then have "\<not> succeeded r" by (simp add: succeeded_def)
      with run show ?thesis unfolding spec by (simp add: step)
    next
      case ok
      then show ?thesis unfolding spec by (simp add: step succeeded_def)
    next
      case later
      then have "\<exists>c\<in>set later. succeeds_on n (cc_runs c)" using none by auto
      with later show ?thesis unfolding spec by (auto simp: step succeeded_def)
    next
      case waits
      then have "\<not> (\<exists>c\<in>set later. succeeds_on n (cc_runs c))" "\<exists>c\<in>set later. running_on n (cc_runs c)"
        using none running ab by auto
      with waits ab show ?thesis unfolding spec by (auto simp: step succeeded_def)
    next
      case lost
      then have "\<forall>c\<in>set later. \<not> succeeds_on n (cc_runs c) \<and> \<not> running_on n (cc_runs c)"
        using none running ab by auto
      with lost ab show ?thesis unfolding spec by (cases "cr_conclusion r = ''cancelled''") (auto simp: step succeeded_def)
    qed
  qed
  from all show "ta_failed t' \<noteq> [] \<longleftrightarrow> ta_failed t \<noteq> [] \<or> to_blame own later n"
    and "ta_missing t' = ta_missing t @ (if unseen own later earlier n then [n] else [])"
    and "ta_missing t' @ ta_pending t' \<noteq> [] \<longleftrightarrow> ta_missing t @ ta_pending t \<noteq> [] \<or> \<not> satisfied own later earlier n \<and> \<not> to_blame own later n"
    by blast+
qed

lemma judge_all:
  fixes own later earlier names t
  defines "t' \<equiv> fold (judge_check (latestGitHubCheckRunsByName own) (latestRunsPerCommit later) earlier) names t"
  shows "ta_failed t' \<noteq> [] \<longleftrightarrow> ta_failed t \<noteq> [] \<or> (\<exists>n\<in>set names. to_blame own later n)"
    and "ta_missing t' = ta_missing t @ filter (unseen own later earlier) names"
    and "ta_missing t' @ ta_pending t' \<noteq> [] \<longleftrightarrow>
      ta_missing t @ ta_pending t \<noteq> [] \<or> (\<exists>n\<in>set names. \<not> satisfied own later earlier n \<and> \<not> to_blame own later n)"
  unfolding t'_def
proof (induction names arbitrary: t)
  case (Cons n names)
  let ?t = "judge_check (latestGitHubCheckRunsByName own) (latestRunsPerCommit later) earlier n t"
  { case 1 show ?case unfolding fold.simps(2) o_apply Cons(1) judge_step(1) by auto }
  { case 2 show ?case unfolding fold.simps(2) o_apply Cons(2) judge_step(2) by simp }
  { case 3 show ?case unfolding fold.simps(2) o_apply Cons(3) judge_step(3) by auto }
qed simp_all

text \<open>A check cannot be satisfied and to blame.\<close>

lemma satisfied_not_blamed: "satisfied own later earlier n \<Longrightarrow> \<not> to_blame own later n"
  by (auto simp: satisfied_def to_blame_def succeeds_on_def running_on_def breaks_on_def ran_on_def dest: newest_unique newest_in)

lemma unseen_not_satisfied: "unseen own later earlier n \<Longrightarrow> \<not> satisfied own later earlier n"
  unfolding satisfied_def unseen_def using state_ran by blast

section \<open>The decision\<close>

definition gate_verdict :: "check_run_response list \<Rightarrow> commit_check_runs list \<Rightarrow> runs_by_name \<Rightarrow> string list \<Rightarrow> string" where
  "gate_verdict own later earlier names =
     (if \<exists>n\<in>set names. to_blame own later n then GateFailed
      else if \<forall>n\<in>set names. satisfied own later earlier n then GatePassed
      else GatePending)"

lemma evaluate_status:
  "rs_status (evaluateGitHubGateRuns own later earlier required) = gate_verdict own later earlier (trimSlice required)"
  using judge_all [of own later earlier "trimSlice required" no_tally]
  by (auto simp: evaluateGitHubGateRuns_def Let_def gate_verdict_def no_tally_def simp del: append_is_Nil_conv)

lemma evaluate_missing:
  "rs_missing (evaluateGitHubGateRuns own later earlier required) = filter (unseen own later earlier) (trimSlice required)"
  using judge_all [of own later earlier "trimSlice required" no_tally] unseen_not_satisfied [of own later earlier]
  by (auto simp: evaluateGitHubGateRuns_def Let_def no_tally_def filter_empty_conv)

lemma evaluate_observed:
  "set (rs_observed (evaluateGitHubGateRuns own later earlier required)) = {convertGitHubCheckRun r | r n. newest n own r}"
  by (auto simp: evaluateGitHubGateRuns_def Let_def latest_entries image_iff)

lemma evaluate_reason:
  "rs_reason (evaluateGitHubGateRuns own later earlier required) =
     (if rs_status (evaluateGitHubGateRuns own later earlier required) = GateFailed then ReasonChecksFailed
      else if rs_status (evaluateGitHubGateRuns own later earlier required) = GatePassed then ReasonChecksPassed else [])"
  by (simp add: evaluateGitHubGateRuns_def Let_def gate_states)

lemma evaluate_terminal:
  "rs_all_terminal (evaluateGitHubGateRuns own later earlier required) \<longleftrightarrow> own \<noteq> [] \<and> (\<forall>n r. newest n own r \<longrightarrow> completed r)"
proof -
  have "latestGitHubCheckRunsByName own = [] \<longleftrightarrow> own = []"
    using latest_entries [of own] newest_exists [of _ own] by (cases own) (auto simp: latestGitHubCheckRunsByName_def, blast)
  then show ?thesis by (auto simp: evaluateGitHubGateRuns_def Let_def latest_entries list_all_iff)
qed

section \<open>Path filters\<close>

text \<open>
  What a pattern means, on its text: \<open>*\<close> stands for a part of a name, \<open>**\<close> for any text of one line, and
  \<open>**/\<close> for nothing or any text that ends in a slash.
\<close>

inductive glob :: "string \<Rightarrow> string \<Rightarrow> bool" where
  glob_end: "glob [] []"
| glob_byte: "c \<noteq> CHR ''*'' \<Longrightarrow> glob g s \<Longrightarrow> glob (c # g) (c # s)"
| glob_star: "\<not> prefix ''*'' g \<Longrightarrow> CHR ''/'' \<notin> set u \<Longrightarrow> glob g s \<Longrightarrow> glob (CHR ''*'' # g) (u @ s)"
| glob_stars: "\<not> prefix ''/'' g \<Longrightarrow> CHR 0x0A \<notin> set u \<Longrightarrow> glob g s \<Longrightarrow> glob (CHR ''*'' # CHR ''*'' # g) (u @ s)"
| glob_dirs: "CHR 0x0A \<notin> set u \<Longrightarrow> u = [] \<or> last u = CHR ''/'' \<Longrightarrow> glob g s \<Longrightarrow>
    glob (CHR ''*'' # CHR ''*'' # CHR ''/'' # g) (u @ s)"

text \<open>The same by the first bytes of the pattern.\<close>

lemma glob_Nil: "glob [] s \<longleftrightarrow> s = []"
  by (auto intro: glob_end elim: glob.cases)

lemma glob_Cons_byte: "c \<noteq> CHR ''*'' \<Longrightarrow> glob (c # g) s \<longleftrightarrow> (\<exists>t. s = c # t \<and> glob g t)"
  by (auto intro: glob_byte elim: glob.cases)

lemma glob_Cons_star:
  "\<not> prefix ''*'' g \<Longrightarrow> glob (CHR ''*'' # g) s \<longleftrightarrow> (\<exists>u v. s = u @ v \<and> CHR ''/'' \<notin> set u \<and> glob g v)"
  by (subst glob.simps) auto

lemma glob_Cons_stars:
  "\<not> prefix ''/'' g \<Longrightarrow> glob (CHR ''*'' # CHR ''*'' # g) s \<longleftrightarrow> (\<exists>u v. s = u @ v \<and> CHR 0x0A \<notin> set u \<and> glob g v)"
  by (subst glob.simps) auto

lemma glob_Cons_dirs:
  "glob (CHR ''*'' # CHR ''*'' # CHR ''/'' # g) s \<longleftrightarrow>
     (\<exists>u v. s = u @ v \<and> CHR 0x0A \<notin> set u \<and> (u = [] \<or> last u = CHR ''/'') \<and> glob g v)"
  by (subst glob.simps) auto

lemma match_text:
  "atoms_match (AnyText # ps) s \<longleftrightarrow> (\<exists>u v. s = u @ v \<and> CHR 0x0A \<notin> set u \<and> atoms_match ps v)"
proof (induction s)
  case (Cons x s)
  show ?case (is "_ \<longleftrightarrow> ?r")
  proof
    assume "atoms_match (AnyText # ps) (x # s)"
    then consider "atoms_match ps (x # s)" | "x \<noteq> CHR 0x0A" "atoms_match (AnyText # ps) s" by auto
    then show ?r
    proof cases
      case 1
      then show ?thesis by (intro exI [of _ "[]"] exI [of _ "x # s"]) simp
    next
      case 2
      with Cons obtain u v where "s = u @ v" "CHR 0x0A \<notin> set u" "atoms_match ps v" by auto
      with 2 show ?thesis by (intro exI [of _ "x # u"] exI [of _ v]) simp
    qed
  next
    assume ?r
    then obtain u v where uv: "x # s = u @ v" "CHR 0x0A \<notin> set u" "atoms_match ps v" by blast
    then show "atoms_match (AnyText # ps) (x # s)"
      using Cons by (cases u) auto
  qed
qed auto

lemma match_segment:
  "atoms_match (AnySegment # ps) s \<longleftrightarrow> (\<exists>u v. s = u @ v \<and> CHR ''/'' \<notin> set u \<and> atoms_match ps v)"
proof (induction s)
  case (Cons x s)
  show ?case (is "_ \<longleftrightarrow> ?r")
  proof
    assume "atoms_match (AnySegment # ps) (x # s)"
    then consider "atoms_match ps (x # s)" | "x \<noteq> CHR ''/''" "atoms_match (AnySegment # ps) s" by auto
    then show ?r
    proof cases
      case 1
      then show ?thesis by (intro exI [of _ "[]"] exI [of _ "x # s"]) simp
    next
      case 2
      with Cons obtain u v where "s = u @ v" "CHR ''/'' \<notin> set u" "atoms_match ps v" by auto
      with 2 show ?thesis by (intro exI [of _ "x # u"] exI [of _ v]) simp
    qed
  next
    assume ?r
    then obtain u v where uv: "x # s = u @ v" "CHR ''/'' \<notin> set u" "atoms_match ps v" by blast
    then show "atoms_match (AnySegment # ps) (x # s)"
      using Cons by (cases u) auto
  qed
qed auto

lemma match_text_slash:
  "atoms_match (AnyTextSlash # ps) s \<longleftrightarrow>
     (\<exists>u v. s = u @ CHR ''/'' # v \<and> CHR 0x0A \<notin> set u \<and> atoms_match ps v)"
proof (induction s)
  case (Cons x s)
  show ?case (is "_ \<longleftrightarrow> ?r")
  proof
    assume "atoms_match (AnyTextSlash # ps) (x # s)"
    then consider "x = CHR ''/''" "atoms_match ps s" | "x \<noteq> CHR 0x0A" "atoms_match (AnyTextSlash # ps) s" by auto
    then show ?r
    proof cases
      case 1
      then show ?thesis by (intro exI [of _ "[]"] exI [of _ s]) simp
    next
      case 2
      with Cons obtain u v where "s = u @ CHR ''/'' # v" "CHR 0x0A \<notin> set u" "atoms_match ps v" by auto
      with 2 show ?thesis by (intro exI [of _ "x # u"] exI [of _ v]) simp
    qed
  next
    assume ?r
    then obtain u v where uv: "x # s = u @ CHR ''/'' # v" "CHR 0x0A \<notin> set u" "atoms_match ps v" by blast
    then show "atoms_match (AnyTextSlash # ps) (x # s)"
      using Cons by (cases u) auto
  qed
qed auto

lemma match_dirs:
  "atoms_match (AnyDirs # ps) s \<longleftrightarrow>
     (\<exists>u v. s = u @ v \<and> CHR 0x0A \<notin> set u \<and> (u = [] \<or> last u = CHR ''/'') \<and> atoms_match ps v)" (is "_ \<longleftrightarrow> ?r")
proof
  assume "atoms_match (AnyDirs # ps) s"
  then consider "atoms_match ps s" | "atoms_match (AnyTextSlash # ps) s" by auto
  then show ?r
  proof cases
    case 1
    then show ?thesis by (intro exI [of _ "[]"] exI [of _ s]) simp
  next
    case 2
    then obtain u v where "s = u @ CHR ''/'' # v" "CHR 0x0A \<notin> set u" "atoms_match ps v"
      unfolding match_text_slash by blast
    then show ?thesis by (intro exI [of _ "u @ ''/''"] exI [of _ v]) simp
  qed
next
  assume ?r
  then obtain u v where uv: "s = u @ v" "CHR 0x0A \<notin> set u" "u = [] \<or> last u = CHR ''/''" "atoms_match ps v" by blast
  show "atoms_match (AnyDirs # ps) s"
  proof (cases u rule: rev_cases)
    case Nil
    with uv show ?thesis by simp
  next
    case (snoc w x)
    with uv have "s = w @ CHR ''/'' # v" "CHR 0x0A \<notin> set w" by auto
    with uv have "atoms_match (AnyTextSlash # ps) s" unfolding match_text_slash by blast
    then show ?thesis by simp
  qed
qed

theorem atoms_match_glob: "atoms_match (compile_glob g) s \<longleftrightarrow> glob g s"
proof (induction g arbitrary: s rule: length_induct)
  case (1 g)
  then have IH: "length h < length g \<Longrightarrow> atoms_match (compile_glob h) t \<longleftrightarrow> glob h t" for h t by blast
  show ?case
  proof (cases g)
    case Nil
    then show ?thesis by (simp add: glob_Nil)
  next
    case (Cons c cs)
    show ?thesis
    proof (cases "c = CHR ''*''")
      case False
      with Cons IH [of cs] show ?thesis by (cases s) (auto simp: glob_Cons_byte)
    next
      case star: True
      show ?thesis
      proof (cases "prefix ''*'' cs")
        case False
        then have comp: "compile_glob g = AnySegment # compile_glob cs"
          using Cons star by (cases cs) auto
        have "atoms_match (compile_glob cs) t = glob cs t" for t by (rule IH) (simp add: Cons)
        then show ?thesis unfolding comp match_segment unfolding Cons star glob_Cons_star [OF False] by simp
      next
        case True
        then obtain ds where ds: "cs = CHR ''*'' # ds" by (auto simp: prefix_def)
        show ?thesis
        proof (cases "prefix ''/'' ds")
          case False
          then have comp: "compile_glob g = AnyText # compile_glob ds"
            using Cons star ds by (cases ds) auto
          have "atoms_match (compile_glob ds) t = glob ds t" for t by (rule IH) (simp add: Cons ds)
          then show ?thesis unfolding comp match_text unfolding Cons star ds glob_Cons_stars [OF False] by simp
        next
          case True
          then obtain es where es: "ds = CHR ''/'' # es" by (auto simp: prefix_def)
          have comp: "compile_glob g = AnyDirs # compile_glob es"
            using Cons star ds es by simp
          have "atoms_match (compile_glob es) t = glob es t" for t by (rule IH) (simp add: Cons ds es)
          then show ?thesis unfolding comp match_dirs unfolding Cons star ds es glob_Cons_dirs by simp
        qed
      qed
    qed
  qed
qed

text \<open>The last pattern whose glob matches decides.\<close>

definition pattern_text :: "string \<Rightarrow> string" where
  "pattern_text raw = (if prefix ''!'' raw then tl raw else raw)"

definition selects :: "string list \<Rightarrow> string \<Rightarrow> bool" where
  "selects raws path \<longleftrightarrow>
     (\<exists>before raw after. raws = before @ raw # after \<and> glob (pattern_text raw) path \<and> \<not> prefix ''!'' raw \<and>
        (\<forall>r\<in>set after. \<not> glob (pattern_text r) path))"

lemma selects_snoc:
  "selects (raws @ [raw]) path \<longleftrightarrow> (if glob (pattern_text raw) path then \<not> prefix ''!'' raw else selects raws path)" (is "?l \<longleftrightarrow> ?r")
proof
  assume ?l
  then obtain before r after where eq: "raws @ [raw] = before @ r # after" and r: "glob (pattern_text r) path" "\<not> prefix ''!'' r"
    and after: "\<forall>q\<in>set after. \<not> glob (pattern_text q) path"
    unfolding selects_def by blast
  show ?r
  proof (cases after rule: rev_cases)
    case Nil
    with eq r show ?thesis by simp
  next
    case (snoc qs q)
    with eq have "q = raw" "raws = before @ r # qs" by auto
    with snoc r after show ?thesis unfolding selects_def by auto
  qed
next
  assume R: ?r
  show ?l
  proof (cases "glob (pattern_text raw) path")
    case True
    with R have "\<not> prefix ''!'' raw" by simp
    with True show ?thesis unfolding selects_def by (intro exI [of _ raws] exI [of _ raw] exI [of _ "[]"]) simp
  next
    case False
    with R obtain before r after where "raws = before @ r # after" "glob (pattern_text r) path" "\<not> prefix ''!'' r"
      "\<forall>q\<in>set after. \<not> glob (pattern_text q) path"
      unfolding selects_def by auto
    with False show ?thesis unfolding selects_def
      by (intro exI [of _ before] exI [of _ r] exI [of _ "after @ [raw]"]) auto
  qed
qed

lemma compiled_pattern:
  "compilePathPattern raw = Some p \<Longrightarrow>
     pp_negated p = prefix ''!'' raw \<and> (atoms_match (pp_atoms p) path \<longleftrightarrow> glob (pattern_text raw) path)"
  by (auto simp: compilePathPattern_def Let_def atoms_match_glob pattern_text_def split: if_splits)

lemma compiled_patterns: "compile_patterns raws = Some ps \<Longrightarrow> list_all2 (\<lambda>raw p. compilePathPattern raw = Some p) raws ps"
  by (induction raws arbitrary: ps) (auto split: option.splits)

lemma fold_patterns:
  assumes "list_all2 (\<lambda>raw p. compilePathPattern raw = Some p) raws ps"
  shows "fold (\<lambda>p matched. if atoms_match (pp_atoms p) path then \<not> pp_negated p else matched) ps False \<longleftrightarrow> selects raws path"
  using assms
proof (induction raws arbitrary: ps rule: rev_induct)
  case Nil
  then show ?case by (simp add: selects_def)
next
  case (snoc raw raws)
  then obtain qs p where ps: "ps = qs @ [p]" and qs: "list_all2 (\<lambda>raw p. compilePathPattern raw = Some p) raws qs"
    and p: "compilePathPattern raw = Some p"
    by (auto simp: list_all2_append1 list_all2_Cons1)
  have "fold (\<lambda>p matched. if atoms_match (pp_atoms p) path then \<not> pp_negated p else matched) qs False \<longleftrightarrow> selects raws path"
    by (rule snoc.IH [OF qs])
  then show ?case using compiled_pattern [OF p, of path] by (simp add: ps selects_snoc)
qed

end
