(* ===== verification/Review_GitHub_Props.thy ===== *)
theory Review_GitHub_Props
  imports Review_GitHub Review_Checks_Laws
begin

text \<open>
  What the client's answer rests on: the worlds a sequence of requests reaches, what GitHub answered
  there, and rules for the actions of the client that speak of it.
\<close>

section \<open>What GitHub answered\<close>

inductive github_after :: "'w github_client \<Rightarrow> 'w \<Rightarrow> 'w \<Rightarrow> bool" for c w where
  after_none: "github_after c w w"
| after_request: "github_after c w v \<Longrightarrow> getJSON c path v = (r, v') \<Longrightarrow> github_after c w v'"

definition answered :: "'w github_client \<Rightarrow> 'w \<Rightarrow> string \<Rightarrow> github_body \<Rightarrow> bool" where
  "answered c w path b \<longleftrightarrow> (\<exists>v v'. github_after c w v \<and> getJSON c path v = (Inr b, v'))"

definition gh_post :: "'w github_client \<Rightarrow> 'w \<Rightarrow> ('a \<Rightarrow> bool) \<Rightarrow> ('w, 'a) github_op \<Rightarrow> bool" where
  "gh_post c w Q m \<longleftrightarrow>
     (\<forall>v r v'. github_after c w v \<longrightarrow> m v = (r, v') \<longrightarrow> github_after c w v' \<and> (\<forall>x. r = Inr x \<longrightarrow> Q x))"

named_theorems gh_rules

lemma gh_post_result: "gh_post c w Q m \<Longrightarrow> m w = (Inr x, w') \<Longrightarrow> Q x"
  unfolding gh_post_def
  by (drule spec [of _ w], drule spec [of _ "Inr x"], drule spec [of _ w']) (simp add: after_none)

lemma gh_post_getJSON: "gh_post c w (answered c w path) (getJSON c path)"
  unfolding gh_post_def answered_def by (intro allI impI conjI) (erule (1) after_request, blast)

lemma gh_post_return: "Q x \<Longrightarrow> gh_post c w Q (gh_return x)"
  by (simp add: gh_post_def gh_return_def)

lemma gh_post_fail: "gh_post c w Q (gh_fail e)"
  by (simp add: gh_post_def gh_fail_def)

lemma gh_post_then:
  assumes "gh_post c w R m" and "\<And>x. R x \<Longrightarrow> gh_post c w Q (k x)"
  shows "gh_post c w Q (gh_then m k)"
proof -
  have "github_after c w v' \<and> (\<forall>x. r = Inr x \<longrightarrow> Q x)" if "github_after c w v" "gh_then m k v = (r, v')" for v r v'
  proof (cases "m v")
    case (Pair a u)
    with that assms(1) have u: "github_after c w u" "\<And>x. a = Inr x \<Longrightarrow> R x"
      unfolding gh_post_def by blast+
    show ?thesis
    proof (cases a)
      case (Inl e)
      with Pair that u show ?thesis by (auto simp: gh_then_def)
    next
      case (Inr x)
      with Pair that have "k x u = (r, v')" by (simp add: gh_then_def)
      with assms(2) [OF u(2) [OF Inr]] u(1) show ?thesis unfolding gh_post_def by blast
    qed
  qed
  then show ?thesis unfolding gh_post_def by blast
qed

lemma gh_post_handle:
  assumes "gh_post c w Q m" and "gh_post c w Q k"
  shows "gh_post c w Q (gh_handle P m k)"
proof -
  have "github_after c w v' \<and> (\<forall>x. r = Inr x \<longrightarrow> Q x)" if "github_after c w v" "gh_handle P m k v = (r, v')" for v r v'
  proof (cases "m v")
    case (Pair a u)
    with that assms(1) have u: "github_after c w u" "\<And>x. a = Inr x \<Longrightarrow> Q x"
      unfolding gh_post_def by blast+
    show ?thesis
    proof (cases "\<exists>e. a = Inl (GitHubHTTPError e) \<and> P e")
      case True
      with Pair that have "k u = (r, v')" by (auto simp: gh_handle_def)
      with assms(2) u(1) show ?thesis unfolding gh_post_def by blast
    next
      case False
      with Pair that have "r = a" "v' = u" by (auto simp: gh_handle_def split: sum.split_asm github_err.split_asm)
      with u show ?thesis by blast
    qed
  qed
  then show ?thesis unfolding gh_post_def by blast
qed

lemma gh_post_weaken: "gh_post c w R m \<Longrightarrow> (\<And>x. R x \<Longrightarrow> Q x) \<Longrightarrow> gh_post c w Q m"
  unfolding gh_post_def by blast

lemma gh_post_concat:
  assumes "\<And>x. x \<in> set xs \<Longrightarrow> gh_post c w (R x) (f x)"
  shows "gh_post c w (\<lambda>as. \<exists>ass. list_all2 R xs ass \<and> as = concat ass) (gh_concat f xs)"
  using assms
proof (induction xs)
  case Nil
  show ?case by (simp add: gh_post_return)
next
  case (Cons x xs)
  then have xs: "gh_post c w (\<lambda>as. \<exists>ass. list_all2 R xs ass \<and> as = concat ass) (gh_concat f xs)" by simp
  show ?case unfolding gh_concat.simps
  proof (rule gh_post_then [of c w "R x"])
    show "gh_post c w (R x) (f x)" using Cons.prems by simp
    fix a assume a: "R x a"
    show "gh_post c w (\<lambda>as. \<exists>ass. list_all2 R (x # xs) ass \<and> as = concat ass)
        (gh_then (gh_concat f xs) (\<lambda>as. gh_return (a @ as)))"
    proof (rule gh_post_then [OF xs], rule gh_post_return)
      fix as assume "\<exists>ass. list_all2 R xs ass \<and> as = concat ass"
      then obtain ass where "list_all2 R xs ass" "as = concat ass" by blast
      with a show "\<exists>ass. list_all2 R (x # xs) ass \<and> a @ as = concat ass" by (intro exI [of _ "a # ass"]) simp
    qed
  qed
qed

section \<open>The runs of a commit\<close>

definition jobs_of :: "'w github_client \<Rightarrow> 'w \<Rightarrow> string \<Rightarrow> int \<Rightarrow> check_run_response list \<Rightarrow> bool" where
  "jobs_of c w repository runID js \<longleftrightarrow>
     (\<exists>b. answered c w (run_jobs_path repository runID) b \<and> js = map run_of_job (gb_jobs b))"

definition runs_of :: "'w github_client \<Rightarrow> 'w \<Rightarrow> string \<Rightarrow> string \<Rightarrow> check_run_response list \<Rightarrow> bool" where
  "runs_of c w repository sha rs \<longleftrightarrow>
     (\<exists>raw. rs = map (\<lambda>r. r\<lparr>cr_sha := sha\<rparr>) raw \<and>
        ((\<exists>b. answered c w (check_runs_path repository sha) b \<and> raw = gb_check_runs b) \<or>
         (\<exists>b jobs. answered c w (commit_runs_path repository sha) b \<and>
            list_all2 (\<lambda>run. jobs_of c w repository (wr_id run)) (filter (\<lambda>r. wr_sha r = sha) (gb_workflow_runs b)) jobs \<and>
            raw = concat jobs)))"

lemma post_jobs: "gh_post c w (jobs_of c w repository runID) (workflowRunJobs c repository runID)"
  unfolding workflowRunJobs_def jobs_of_def
  by (rule gh_post_then [OF gh_post_getJSON], rule gh_post_return) blast

lemma post_commit_runs: "gh_post c w (runs_of c w repository sha) (commitCheckRuns c repository sha)"
proof -
  let ?R = "\<lambda>raw. (\<exists>b. answered c w (check_runs_path repository sha) b \<and> raw = gb_check_runs b) \<or>
      (\<exists>b jobs. answered c w (commit_runs_path repository sha) b \<and>
         list_all2 (\<lambda>run. jobs_of c w repository (wr_id run)) (filter (\<lambda>r. wr_sha r = sha) (gb_workflow_runs b)) jobs \<and>
         raw = concat jobs)"
  have api: "gh_post c w ?R (commitCheckRunsFromChecksAPI c repository sha)"
    unfolding commitCheckRunsFromChecksAPI_def
    by (rule gh_post_then [OF gh_post_getJSON], rule gh_post_return) blast
  have actions: "gh_post c w ?R (commitCheckRunsFromActions c repository sha)"
    unfolding commitCheckRunsFromActions_def
  proof (rule gh_post_then [OF gh_post_getJSON])
    fix b assume b: "answered c w (commit_runs_path repository sha) b"
    let ?runs = "filter (\<lambda>r. wr_sha r = sha) (gb_workflow_runs b)"
    have "gh_post c w (\<lambda>as. \<exists>ass. list_all2 (\<lambda>run. jobs_of c w repository (wr_id run)) ?runs ass \<and> as = concat ass)
        (gh_concat (\<lambda>run. workflowRunJobs c repository (wr_id run)) ?runs)"
      by (rule gh_post_concat) (rule post_jobs)
    then show "gh_post c w ?R (gh_concat (\<lambda>run. workflowRunJobs c repository (wr_id run)) ?runs)"
      by (rule gh_post_weaken) (use b in blast)
  qed
  show ?thesis unfolding commitCheckRuns_def
  proof (rule gh_post_then [OF gh_post_handle [OF api actions]], rule gh_post_return)
    fix raw assume "?R raw"
    then show "runs_of c w repository sha (map (\<lambda>r. r\<lparr>cr_sha := sha\<rparr>) raw)"
      unfolding runs_of_def by (intro exI [of _ raw] conjI refl)
  qed
qed

section \<open>Commits of the ref and runs of the branch\<close>

text \<open>A commit that GitHub's comparison of the ref with the gated commit lists, the ref being ahead.\<close>

definition contains_commit :: "'w github_client \<Rightarrow> 'w \<Rightarrow> change_query \<Rightarrow> string \<Rightarrow> bool" where
  "contains_commit c w q sha \<longleftrightarrow>
     (\<exists>b. answered c w (compare_ref_path (cq_repository q) (cq_commit q) (trim_space (cq_ref q))) b \<and>
        gb_status b = ''ahead'' \<and> sha \<in> to_lower ` set (gb_commits b))"

lemma post_later_commits:
  "gh_post c w (\<lambda>shas. \<forall>sha\<in>set shas. contains_commit c w q sha)
     (laterCommitsOnRef c (cq_repository q) (cq_commit q) (trim_space (cq_ref q)))"
  unfolding laterCommitsOnRef_def
proof (rule gh_post_handle)
  show "gh_post c w (\<lambda>shas. \<forall>sha\<in>set shas. contains_commit c w q sha)
      (gh_then (getJSON c (compare_ref_path (cq_repository q) (cq_commit q) (trim_space (cq_ref q))))
        (\<lambda>payload. gh_return (if gb_status payload \<noteq> ''ahead'' then [] else map to_lower (gb_commits payload))))"
    by (rule gh_post_then [OF gh_post_getJSON], rule gh_post_return) (auto simp: contains_commit_def)
qed (simp add: gh_post_return)

definition on_branch :: "'w github_client \<Rightarrow> 'w \<Rightarrow> change_query \<Rightarrow> workflow_run \<Rightarrow> bool" where
  "on_branch c w q run \<longleftrightarrow>
     (\<exists>page b. 1 \<le> page \<and> page \<le> int maxWorkflowRunPages \<and>
        answered c w (branch_runs_path (cq_repository q) (trim_space (cq_ref q)) page) b \<and> run \<in> set (gb_workflow_runs b))"

lemma post_branch_pages:
  assumes "left \<le> maxWorkflowRunPages" and "\<forall>r\<in>set all. on_branch c w q r"
  shows "gh_post c w (\<lambda>x. \<forall>r\<in>set (fst x). on_branch c w q r)
    (branch_pages c (cq_repository q) (trim_space (cq_ref q)) sha left all)"
  using assms
proof (induction left arbitrary: all)
  case 0
  then show ?case by (simp add: gh_post_return)
next
  case (Suc left)
  show ?case unfolding branch_pages.simps
  proof (rule gh_post_handle, rule gh_post_then [OF gh_post_getJSON])
    fix b
    assume b: "answered c w (branch_runs_path (cq_repository q) (trim_space (cq_ref q)) (int (maxWorkflowRunPages - left))) b"
    then have "\<forall>r\<in>set (gb_workflow_runs b). on_branch c w q r"
      unfolding on_branch_def using Suc.prems(1) by (intro ballI exI [of _ "int (maxWorkflowRunPages - left)"] exI [of _ b]) simp
    with Suc.prems have all: "\<forall>r\<in>set (all @ gb_workflow_runs b). on_branch c w q r" by auto
    with Suc show "gh_post c w (\<lambda>x. \<forall>r\<in>set (fst x). on_branch c w q r)
      (let page = gb_workflow_runs b; all' = all @ page in
         if length page < workflowRunPageSize \<or> list_ex (\<lambda>r. to_lower (wr_sha r) = sha) page then gh_return (all', True)
         else branch_pages c (cq_repository q) (trim_space (cq_ref q)) sha left all')"
      by (simp add: Let_def gh_post_return)
  qed (simp add: gh_post_return)
qed

lemma post_branch_runs:
  "gh_post c w (\<lambda>x. \<forall>r\<in>set (fst x). on_branch c w q r)
     (branchWorkflowRuns c (cq_repository q) (trim_space (cq_ref q)) sha)"
  unfolding branchWorkflowRuns_def by (rule post_branch_pages) simp_all

section \<open>Earlier passes\<close>

text \<open>
  Nothing that changed from \<open>earlier\<close> to the gated commit would have started the workflow, by its file at
  that commit and GitHub's complete list of changed files.
\<close>

definition skipped_since :: "'w github_client \<Rightarrow> 'w \<Rightarrow> change_query \<Rightarrow> string \<Rightarrow> string \<Rightarrow> bool" where
  "skipped_since c w q workflow earlier \<longleftrightarrow>
     (\<exists>b text f d.
        answered c w (contents_path (cq_repository q) workflow (cq_commit q)) b \<and> gb_encoding b = ''base64'' \<and>
        base64_decode (filter (\<lambda>x. x \<noteq> CHR 0x0A) (gb_content b)) = Some text \<and>
        parsePushPathFilter (gc_triggers c) text = Some f \<and>
        answered c w (compare_path (cq_repository q) earlier (cq_commit q)) d \<and> gb_status d = ''ahead'' \<and>
        length (gb_files d) < compareFileLimit \<and>
        (\<forall>p\<in>set (changed_names (gb_files d)). p \<noteq> workflow \<and> \<not> triggeredBy f p))"

definition earlier_pass :: "'w github_client \<Rightarrow> 'w \<Rightarrow> change_query \<Rightarrow> string \<Rightarrow> check_run_response \<Rightarrow> bool" where
  "earlier_pass c w q n r \<longleftrightarrow>
     (\<exists>run jobs j. on_branch c w q run \<and> wr_event run \<in> {''push'', ''workflow_dispatch''} \<and>
        to_lower (wr_sha run) \<noteq> to_lower (cq_commit q) \<and>
        jobs_of c w (cq_repository q) (wr_id run) jobs \<and> newest n jobs j \<and> completed j \<and> cr_conclusion j = ''success'' \<and>
        skipped_since c w q (wr_path run) (wr_sha run) \<and> r = j\<lparr>cr_sha := wr_sha run\<rparr>)"

lemma post_file:
  "gh_post c w (\<lambda>found. \<forall>text. found = Some text \<longrightarrow>
       (\<exists>b. answered c w (contents_path repository path sha) b \<and> gb_encoding b = ''base64'' \<and>
          base64_decode (filter (\<lambda>x. x \<noteq> CHR 0x0A) (gb_content b)) = Some text))
     (fileAtCommit c repository path sha)"
  unfolding fileAtCommit_def
  by (rule gh_post_handle, rule gh_post_then [OF gh_post_getJSON], rule gh_post_return)
    (auto split: if_splits intro: gh_post_return)

lemma post_changed:
  "gh_post c w (\<lambda>changed. \<forall>files. changed = Some files \<longrightarrow>
       (\<exists>d. answered c w (compare_path repository earlier sha) d \<and> gb_status d = ''ahead'' \<and>
          length (gb_files d) < compareFileLimit \<and> files = changed_names (gb_files d)))
     (filesChangedSince c repository earlier sha)"
  unfolding filesChangedSince_def
  by (rule gh_post_handle, rule gh_post_then [OF gh_post_getJSON], rule gh_post_return)
    (auto split: if_splits intro: gh_post_return)

lemma post_skipped:
  "gh_post c w (\<lambda>skipped. skipped \<longrightarrow> skipped_since c w q workflow earlier)
     (workflowSkippedSince c (cq_repository q) workflow earlier (cq_commit q))"
  unfolding workflowSkippedSince_def
proof (rule gh_post_then [OF post_file])
  fix found
  assume F: "\<forall>text. found = Some text \<longrightarrow>
    (\<exists>b. answered c w (contents_path (cq_repository q) workflow (cq_commit q)) b \<and> gb_encoding b = ''base64'' \<and>
       base64_decode (filter (\<lambda>x. x \<noteq> CHR 0x0A) (gb_content b)) = Some text)"
  let ?Q = "\<lambda>skipped. skipped \<longrightarrow> skipped_since c w q workflow earlier"
  show "gh_post c w ?Q (case found of None \<Rightarrow> gh_return False
     | Some content \<Rightarrow> (case parsePushPathFilter (gc_triggers c) content of None \<Rightarrow> gh_return False
        | Some f \<Rightarrow> gh_then (filesChangedSince c (cq_repository q) earlier (cq_commit q))
            (\<lambda>changed. gh_return (case changed of None \<Rightarrow> False
               | Some files \<Rightarrow> \<not> list_ex (\<lambda>p. p = workflow \<or> triggeredBy f p) files))))"
  proof (cases found)
    case None
    then show ?thesis by (simp add: gh_post_return)
  next
    case (Some content)
    show ?thesis
    proof (cases "parsePushPathFilter (gc_triggers c) content")
      case None
      with Some show ?thesis by (simp add: gh_post_return)
    next
      case f: (Some f)
      have "gh_post c w ?Q (gh_then (filesChangedSince c (cq_repository q) earlier (cq_commit q))
          (\<lambda>changed. gh_return (case changed of None \<Rightarrow> False
             | Some files \<Rightarrow> \<not> list_ex (\<lambda>p. p = workflow \<or> triggeredBy f p) files)))"
      proof (rule gh_post_then [OF post_changed], rule gh_post_return, rule impI)
        fix changed
        assume C: "\<forall>files. changed = Some files \<longrightarrow>
            (\<exists>d. answered c w (compare_path (cq_repository q) earlier (cq_commit q)) d \<and> gb_status d = ''ahead'' \<and>
               length (gb_files d) < compareFileLimit \<and> files = changed_names (gb_files d))"
          and T: "case changed of None \<Rightarrow> False | Some files \<Rightarrow> \<not> list_ex (\<lambda>p. p = workflow \<or> triggeredBy f p) files"
        from T obtain files where files: "changed = Some files" "\<not> list_ex (\<lambda>p. p = workflow \<or> triggeredBy f p) files"
          by (cases changed) simp_all
        with C obtain d where d: "answered c w (compare_path (cq_repository q) earlier (cq_commit q)) d" "gb_status d = ''ahead''"
          "length (gb_files d) < compareFileLimit" "files = changed_names (gb_files d)" by blast
        with files have "\<forall>p\<in>set (changed_names (gb_files d)). p \<noteq> workflow \<and> \<not> triggeredBy f p" by (auto simp: list_ex_iff)
        with F Some f d show "skipped_since c w q workflow earlier" unfolding skipped_since_def by blast
      qed
      with Some f show ?thesis by simp
    qed
  qed
qed

lemma found_pass:
  assumes "j \<in> set (found_passes jobs missing)"
  shows "newest (cr_name j) jobs j \<and> completed j \<and> cr_conclusion j = ''success''"
proof -
  have sub: "y \<in> set (List.map_filter f xs) \<Longrightarrow> \<exists>x. f x = Some y" for f :: "string \<Rightarrow> check_run_response option" and xs y
    by (induction xs) (auto simp: map_filter_simps split: option.split_asm)
  from sub [OF assms [unfolded found_passes_def Let_def]] obtain n where
    "map_of (latestGitHubCheckRunsByName jobs) n = Some j" "completed j" "cr_conclusion j = ''success''"
    by (auto split: option.split_asm if_splits)
  then show ?thesis using newest_in [of n jobs j] by (simp add: latest_newest)
qed

lemma record_passes_entries:
  "(n, r) \<in> set (record_passes sha found passes) \<Longrightarrow>
     (n, r) \<in> set passes \<or> (\<exists>j\<in>set found. n = cr_name j \<and> r = j\<lparr>cr_sha := sha\<rparr>)"
proof (induction found arbitrary: passes)
  case Nil
  then show ?case by (simp add: record_passes_def)
next
  case (Cons j found)
  have sub: "set (AList.update k v m) \<subseteq> insert (k, v) (set m)" for k :: string and v :: check_run_response and m
    by (induction m) auto
  from Cons.prems have "(n, r) \<in> set (record_passes sha found (AList.update (cr_name j) (j\<lparr>cr_sha := sha\<rparr>) passes))"
    by (simp add: record_passes_def)
  from Cons.IH [OF this] sub show ?case by auto
qed

lemma nearest_run:
  "r \<in> set (nearest_runs_loop decided runs) \<Longrightarrow>
     r \<in> set runs \<and> wr_event r \<in> {''push'', ''workflow_dispatch''} \<and> wr_path r \<notin> set decided"
  by (induction decided runs rule: nearest_runs_loop.induct) (auto split: if_splits)

lemma nearest_earlier:
  assumes "r \<in> set (nearestEarlierWorkflowRuns runs sha later)"
  shows "r \<in> set runs \<and> wr_event r \<in> {''push'', ''workflow_dispatch''} \<and> to_lower (wr_sha r) \<noteq> to_lower sha"
  using nearest_run [OF assms [unfolded nearestEarlierWorkflowRuns_def]] by auto

lemma post_passes_loop:
  assumes "\<forall>r\<in>set runs. on_branch c w q r \<and> wr_event r \<in> {''push'', ''workflow_dispatch''} \<and> to_lower (wr_sha r) \<noteq> to_lower (cq_commit q)"
    and "\<forall>(n, r)\<in>set passes. earlier_pass c w q n r"
  shows "gh_post c w (\<lambda>m. \<forall>(n, r)\<in>set m. earlier_pass c w q n r) (passes_loop c q missing runs passes)"
  using assms
proof (induction runs arbitrary: passes)
  case Nil
  then show ?case by (simp add: gh_post_return)
next
  case (Cons run runs)
  let ?Q = "\<lambda>m. \<forall>(n, r)\<in>set m. earlier_pass c w q n r"
  from Cons.prems(1) have rest: "\<forall>r\<in>set runs. on_branch c w q r \<and> wr_event r \<in> {''push'', ''workflow_dispatch''} \<and>
      to_lower (wr_sha r) \<noteq> to_lower (cq_commit q)"
    and run: "on_branch c w q run" "wr_event run \<in> {''push'', ''workflow_dispatch''}" "to_lower (wr_sha run) \<noteq> to_lower (cq_commit q)"
    by simp_all
  note same = Cons.IH [OF rest Cons.prems(2)]
  show ?case unfolding passes_loop.simps Let_def
  proof (rule gh_post_then [OF post_jobs])
    fix jobs assume jobs: "jobs_of c w (cq_repository q) (wr_id run) jobs"
    have "gh_post c w ?Q (gh_then (workflowSkippedSince c (cq_repository q) (wr_path run) (wr_sha run) (cq_commit q))
        (\<lambda>skipped. if \<not> skipped then passes_loop c q missing runs passes
          else passes_loop c q missing runs (record_passes (wr_sha run) (found_passes jobs missing) passes)))"
    proof (rule gh_post_then [OF post_skipped])
      fix skipped assume S: "skipped \<longrightarrow> skipped_since c w q (wr_path run) (wr_sha run)"
      have "?Q (record_passes (wr_sha run) (found_passes jobs missing) passes)" if "skipped"
      proof (intro ballI, clarify)
        fix n r assume "(n, r) \<in> set (record_passes (wr_sha run) (found_passes jobs missing) passes)"
        then consider "(n, r) \<in> set passes"
          | j where "j \<in> set (found_passes jobs missing)" "n = cr_name j" "r = j\<lparr>cr_sha := wr_sha run\<rparr>"
          using record_passes_entries by blast
        then show "earlier_pass c w q n r"
        proof cases
          case 1
          with Cons.prems(2) show ?thesis by blast
        next
          case 2
          with found_pass [OF 2(1)] run jobs S that show ?thesis unfolding earlier_pass_def by blast
        qed
      qed
      with same Cons.IH [OF rest, of "record_passes (wr_sha run) (found_passes jobs missing) passes"]
      show "gh_post c w ?Q (if \<not> skipped then passes_loop c q missing runs passes
          else passes_loop c q missing runs (record_passes (wr_sha run) (found_passes jobs missing) passes))" by simp
    qed
    with same show "gh_post c w ?Q (if found_passes jobs missing = [] then passes_loop c q missing runs passes
      else gh_then (workflowSkippedSince c (cq_repository q) (wr_path run) (wr_sha run) (cq_commit q))
        (\<lambda>skipped. if \<not> skipped then passes_loop c q missing runs passes
          else passes_loop c q missing runs (record_passes (wr_sha run) (found_passes jobs missing) passes)))" by simp
  qed
qed

lemma post_earlier:
  "gh_post c w (\<lambda>m. \<forall>(n, r)\<in>set m. earlier_pass c w q n r) (earlierPathFilteredPasses c q later missing)"
  unfolding earlierPathFilteredPasses_def
proof (rule gh_post_then [OF post_branch_runs], clarify)
  fix runs and readable :: bool assume "\<forall>r\<in>set (fst (runs, readable)). on_branch c w q r"
  then have "\<forall>r\<in>set (nearestEarlierWorkflowRuns runs (cq_commit q) later).
      on_branch c w q r \<and> wr_event r \<in> {''push'', ''workflow_dispatch''} \<and> to_lower (wr_sha r) \<noteq> to_lower (cq_commit q)"
    using nearest_earlier by fastforce
  from post_passes_loop [OF this] show "gh_post c w (\<lambda>m. \<forall>(n, r)\<in>set m. earlier_pass c w q n r)
      (if \<not> readable then gh_return []
       else passes_loop c q missing (nearestEarlierWorkflowRuns runs (cq_commit q) later) [])"
    by (simp add: gh_post_return)
qed

section \<open>The later commits that are read\<close>

lemma take_useful_sub: "set (take_useful f n shas) \<subseteq> set shas" and take_useful_length: "length (take_useful f n shas) \<le> n"
  by (induction f n shas rule: take_useful.induct) auto

lemma candidates_sub: "set (laterCandidateCommits later runs readable limit) \<subseteq> set later"
proof -
  have "set (nearestAndHeadCommits later limit) \<subseteq> set later" if "later \<noteq> []"
    using that by (auto simp: nearestAndHeadCommits_def dest: in_set_takeD)
  moreover have "set (take_useful f n (butlast later)) \<subseteq> set later" for f n
    using take_useful_sub [of f n "butlast later"] in_set_butlastD [of _ later] by fast
  ultimately show ?thesis by (auto simp: laterCandidateCommits_def Let_def)
qed

lemma candidates_length: "length (laterCandidateCommits later runs readable limit) \<le> nat limit"
proof -
  have "length (nearestAndHeadCommits later limit) \<le> nat limit" by (auto simp: nearestAndHeadCommits_def)
  moreover have "Suc (length (take_useful f (nat (limit - 1)) shas)) \<le> nat limit" if "limit > 0" for f shas
    using that take_useful_length [of f "nat (limit - 1)" shas] by linarith
  ultimately show ?thesis by (auto simp: laterCandidateCommits_def Let_def)
qed

definition later_backed :: "'w github_client \<Rightarrow> 'w \<Rightarrow> change_query \<Rightarrow> commit_check_runs \<Rightarrow> bool" where
  "later_backed c w q l \<longleftrightarrow> contains_commit c w q (cc_sha l) \<and> runs_of c w (cq_repository q) (cc_sha l) (cc_runs l)"

lemma post_read_later:
  assumes "\<forall>sha\<in>set shas. contains_commit c w q sha" and "\<forall>l\<in>set later. later_backed c w q l"
  shows "gh_post c w (\<lambda>ls. (\<forall>l\<in>set ls. later_backed c w q l) \<and> length ls \<le> length shas + length later)
    (read_later c (cq_repository q) needed shas later)"
  using assms
proof (induction shas arbitrary: later)
  case Nil
  then show ?case by (simp add: gh_post_return)
next
  case (Cons sha shas)
  let ?Q = "\<lambda>ls. (\<forall>l\<in>set ls. later_backed c w q l) \<and> length ls \<le> length (sha # shas) + length later"
  show ?case unfolding read_later.simps Let_def
  proof (rule gh_post_then [OF post_commit_runs])
    fix runs assume runs: "runs_of c w (cq_repository q) sha runs"
    let ?later = "later @ [\<lparr>cc_sha = sha, cc_runs = runs\<rparr>]"
    have L: "\<forall>l\<in>set ?later. later_backed c w q l" using Cons.prems runs by (simp add: later_backed_def)
    have "gh_post c w ?Q (read_later c (cq_repository q) needed shas ?later)"
      by (rule gh_post_weaken [OF Cons.IH [OF _ L]]) (use Cons.prems in simp_all)
    with L show "gh_post c w ?Q (if laterCommitsSatisfy ?later needed then gh_return ?later
        else read_later c (cq_repository q) needed shas ?later)"
      by (simp add: gh_post_return)
  qed
qed

section \<open>The answer of the provider\<close>

definition backed :: "'w github_client \<Rightarrow> 'w \<Rightarrow> change_query \<Rightarrow> check_run_response list \<Rightarrow> commit_check_runs list \<Rightarrow> runs_by_name \<Rightarrow> bool" where
  "backed c w q own later earlier \<longleftrightarrow>
     runs_of c w (cq_repository q) (cq_commit q) own \<and>
     (\<forall>l\<in>set later. later_backed c w q l) \<and> length later \<le> nat (cq_later_limit q) \<and>
     (\<forall>(n, r)\<in>set earlier. earlier_pass c w q n r)"

definition judged :: "check_run_response list \<Rightarrow> commit_check_runs list \<Rightarrow> runs_by_name \<Rightarrow> string list \<Rightarrow> check_result \<Rightarrow> bool" where
  "judged own later earlier names r \<longleftrightarrow>
     rs_status r = gate_verdict own later earlier names \<and>
     rs_reason r = (if rs_status r = GateFailed then ReasonChecksFailed else if rs_status r = GatePassed then ReasonChecksPassed else []) \<and>
     rs_missing r = filter (unseen own later earlier) names \<and>
     set (rs_observed r) = {convertGitHubCheckRun x | x n. newest n own x} \<and>
     (rs_all_terminal r \<longrightarrow> own \<noteq> [] \<and> (\<forall>n x. newest n own x \<longrightarrow> completed x))"

lemma gate_runs_judged: "judged own later earlier (trimSlice required) (evaluateGitHubGateRuns own later earlier required)"
  unfolding judged_def using evaluate_terminal evaluate_reason [of own later earlier required]
  by (simp add: evaluate_status evaluate_missing evaluate_observed)

lemma post_check_change:
  "gh_post c w (\<lambda>r. \<exists>own later earlier. backed c w q own later earlier \<and> judged own later earlier (trimSlice (cq_required q)) r)
     (CheckChange c q)"
proof (cases "gc_base c = []")
  case True
  then show ?thesis by (simp add: CheckChange_def gh_post_fail)
next
  case False
  let ?Q = "\<lambda>r. \<exists>own later earlier. backed c w q own later earlier \<and> judged own later earlier (trimSlice (cq_required q)) r"
  let ?ref = "trim_space (cq_ref q)"
  show ?thesis unfolding CheckChange_def Let_def if_not_P [OF False]
  proof (rule gh_post_then [OF post_commit_runs], goal_cases)
    case (1 own)
    then have none: "?Q (evaluateGitHubChangeRuns own [] (cq_required q))"
      unfolding evaluateGitHubChangeRuns_def
      by (intro exI [of _ own] exI [of _ "[]"] conjI gate_runs_judged) (simp add: backed_def)
    show ?case
    proof (cases "checksNeedingLaterCommits own (cq_required q) = [] \<or> ?ref = [] \<or> cq_later_limit q \<le> 0")
      case True
      with none show ?thesis by (simp only: if_True gh_post_return)
    next
      case needs: False
      show ?thesis unfolding if_not_P [OF needs]
      proof (rule gh_post_then [OF post_later_commits], rule gh_post_then [OF post_branch_runs], goal_cases)
        case (1 commits branch)
        obtain branchRuns readable where branch: "branch = (branchRuns, readable)" by fastforce
        let ?cands = "laterCandidateCommits commits branchRuns readable (cq_later_limit q)"
        have "\<forall>sha\<in>set ?cands. contains_commit c w q sha" using 1(1) candidates_sub by blast
        then have read: "gh_post c w (\<lambda>ls. (\<forall>l\<in>set ls. later_backed c w q l) \<and> length ls \<le> length ?cands + length ([] :: commit_check_runs list))
            (read_later c (cq_repository q) (checksNeedingLaterCommits own (cq_required q)) ?cands [])"
          by (rule post_read_later) simp
        show ?case unfolding branch case_prod_conv
        proof (rule gh_post_then [OF read], goal_cases)
          case (1 later)
          then have B: "backed c w q own later earlier" if "\<forall>(n, r)\<in>set earlier. earlier_pass c w q n r" for earlier
            unfolding backed_def using \<open>runs_of c w (cq_repository q) (cq_commit q) own\<close> that
              candidates_length [of commits branchRuns readable "cq_later_limit q"] by simp
          let ?r = "evaluateGitHubChangeRuns own later (cq_required q)"
          let ?active = "workflowRunsActive branchRuns (cq_commit q) commits"
          have J: "judged own later [] (trimSlice (cq_required q)) ?r"
            unfolding evaluateGitHubChangeRuns_def by (rule gate_runs_judged)
          then have J': "judged own later [] (trimSlice (cq_required q)) (?r\<lparr>rs_all_terminal := False, rs_summary := s\<rparr>)" for s
            by (simp add: judged_def)
          have QR: "?Q ?r" and QR': "?Q (?r\<lparr>rs_all_terminal := False, rs_summary := s\<rparr>)" for s
            using B [of "[]"] J J' [of s] by (intro exI conjI; simp)+
          have last: "gh_post c w ?Q (gh_then (earlierPathFilteredPasses c q commits missing)
              (\<lambda>earlier. gh_return (if earlier \<noteq> [] then evaluateGitHubGateRuns own later earlier (cq_required q) else r)))"
            if "?Q r" for missing r
          proof (rule gh_post_then [OF post_earlier], rule gh_post_return)
            fix earlier assume "\<forall>(n, r)\<in>set earlier. earlier_pass c w q n r"
            with B [of earlier] have "?Q (evaluateGitHubGateRuns own later earlier (cq_required q))"
              by (intro exI [of _ own] exI [of _ later] exI [of _ earlier] conjI gate_runs_judged)
            with that show "?Q (if earlier \<noteq> [] then evaluateGitHubGateRuns own later earlier (cq_required q) else r)" by simp
          qed
          show ?case
            using QR QR' last by (simp only: gh_post_return split: if_split) simp
        qed
      qed
    qed
  qed
qed

section \<open>The properties\<close>

text \<open>
  The properties of the evaluation of a gate and of the client of GitHub.
\<close>

section \<open>The decision\<close>

text \<open>
  C28. The evaluation of a gate decides by the newest run of each required check, whatever the order of
  the runs: it fails exactly when some required check is to blame, passes exactly when all are satisfied,
  and waits otherwise; it reports as missing the checks that ran nowhere, and as observed the newest runs
  of the commit itself, which are all terminal exactly when there are some and all are completed.
\<close>

theorem gate_decision_exact:
  "let r = evaluateGitHubGateRuns own later earlier required; names = trimSlice required in
     rs_status r =
       (if list_ex (to_blame own later) names then GateFailed
        else if list_all (satisfied own later earlier) names then GatePassed
        else GatePending) \<and>
     rs_missing r = filter (unseen own later earlier) names \<and>
     set (rs_observed r) = {convertGitHubCheckRun x | x n. newest n own x} \<and>
     (rs_all_terminal r \<longleftrightarrow> own \<noteq> [] \<and> (\<nexists>n. running_on n own))"
  by (simp add: Let_def evaluate_status gate_verdict_def list_ex_iff list_all_iff evaluate_missing evaluate_observed
      evaluate_terminal running_on_def)

text \<open>
  C25. What a workflow's paths filter selects is decided by the text of its last matching pattern: \<open>*\<close> stands
  for part of a name, \<open>**\<close> for any text, \<open>**/\<close> for any directories, and a leading exclamation mark excludes;
  a filter \<open>paths-ignore\<close> selects the files its patterns do not.
\<close>

theorem path_filter_exact:
  assumes "parsePushPathFilter triggers workflow = Some f"
  shows "\<exists>paths ignored. triggers workflow = Some (paths, ignored) \<and> (paths = [] \<longleftrightarrow> ignored \<noteq> []) \<and>
    (triggeredBy f path \<longleftrightarrow> (if ignored = [] then selects paths path else \<not> selects ignored path))"
proof -
  obtain paths ignored where t: "triggers workflow = Some (paths, ignored)"
    using assms by (cases "triggers workflow") (auto simp: parsePushPathFilter_def)
  have one: "(paths = []) \<noteq> (ignored = [])"
    using assms t by (auto simp: parsePushPathFilter_def split: if_split_asm)
  obtain ps where ps: "compile_patterns (paths @ ignored) = Some ps" and f: "f = \<lparr>pf_patterns = ps, pf_ignore = (ignored \<noteq> [])\<rparr>"
    using assms t one by (cases "compile_patterns (paths @ ignored)") (simp_all add: parsePushPathFilter_def)
  have "fold (\<lambda>p matched. if atoms_match (pp_atoms p) path then \<not> pp_negated p else matched) ps False \<longleftrightarrow> selects (paths @ ignored) path"
    by (rule fold_patterns) (rule compiled_patterns [OF ps])
  then have "triggeredBy f path \<longleftrightarrow> (if ignored = [] then selects paths path else \<not> selects ignored path)"
    using one by (auto simp: triggeredBy_def f)
  with t one show ?thesis by blast
qed

definition ex_triggers :: "string \<Rightarrow> (string list \<times> string list) option" where
  "ex_triggers workflow = Some ([''src/**/*.go'', ''!src/vendor/**''], [])"

lemma path_filter_exact_witness:
  "\<exists>f. parsePushPathFilter ex_triggers [] = Some f \<and> triggeredBy f ''src/a/b.go'' \<and> \<not> triggeredBy f ''src/vendor/b.go'' \<and>
     selects [''src/**/*.go'', ''!src/vendor/**''] ''src/a/b.go''"
proof -
  define f where "f = the (parsePushPathFilter ex_triggers [])"
  have f: "parsePushPathFilter ex_triggers [] = Some f" unfolding f_def by code_simp
  have yes: "triggeredBy f ''src/a/b.go''" and no: "\<not> triggeredBy f ''src/vendor/b.go''"
    unfolding f_def by code_simp+
  from path_filter_exact [OF f, of "''src/a/b.go''"] yes have "selects [''src/**/*.go'', ''!src/vendor/**''] ''src/a/b.go''"
    by (auto simp: ex_triggers_def)
  with f yes no show ?thesis by blast
qed

section \<open>The evidence\<close>

text \<open>
  C21. An answer about a change rests on what GitHub answered to this call: the runs of the commit, the runs
  of at most the configured number of commits that GitHub's comparison lists as later ones of the ref, and
  passing jobs of earlier push or manual runs on the branch whose workflow, by its file at the commit, no file
  changed since would have started; the status, the missing and the observed checks follow from these.
\<close>

theorem change_backed:
  assumes "CheckChange c q w = (Inr r, w')"
  shows "\<exists>own later earlier. backed c w q own later earlier \<and> judged own later earlier (trimSlice (cq_required q)) r"
  using post_check_change [of c w q] assms by (rule gh_post_result)

definition ex_run :: "string \<Rightarrow> string \<Rightarrow> check_run_response" where
  "ex_run n conclusion =
     \<lparr>cr_id = 1, cr_sha = [], cr_name = n, cr_status = ''completed'', cr_conclusion = conclusion, cr_html_url = [],
      cr_details_url = [], cr_created = None, cr_started = None, cr_completed = None, cr_title = [], cr_summary = []\<rparr>"

definition ex_body :: github_body where
  "ex_body = \<lparr>gb_check_runs = [], gb_workflow_runs = [], gb_jobs = [], gb_status = [], gb_commits = [], gb_files = [],
     gb_encoding = [], gb_content = []\<rparr>"

text \<open>The commit's own check failed; the ref is one commit ahead, and there it succeeded.\<close>

definition ex_answers :: "github_body list" where
  "ex_answers =
     [ex_body\<lparr>gb_check_runs := [ex_run ''ci'' ''failure'']\<rparr>,
      ex_body\<lparr>gb_status := ''ahead'', gb_commits := [''B'']\<rparr>,
      ex_body,
      ex_body\<lparr>gb_check_runs := [ex_run ''ci'' ''success'']\<rparr>]"

definition ex_client :: "nat github_client" where
  "ex_client =
     \<lparr>gc_base = ''https://api.github.com'', gc_token = [],
      gc_do = (\<lambda>_ n. (Answered \<lparr>gp_status = ''200 OK'', gp_code = 200,
        gp_headers = \<lparr>gh_request_id = [], gh_remaining = [], gh_reset = [], gh_retry_after = []\<rparr>,
        gp_body = Inr (nth ex_answers n), gp_message = Inr []\<rparr>, Suc n)),
      gc_now = (\<lambda>_. 1), gc_date = (\<lambda>_. None), gc_triggers = (\<lambda>_. None)\<rparr>"

definition ex_query :: change_query where
  "ex_query = \<lparr>cq_repository = ''o/r'', cq_commit = ''a'', cq_ref = ''main'', cq_required = [''ci''], cq_later_limit = 5\<rparr>"

lemma change_backed_witness:
  "\<exists>r own later earlier. fst (CheckChange ex_client ex_query 0) = Inr r \<and> rs_status r = GatePassed \<and>
     backed ex_client 0 ex_query own later earlier \<and> satisfied own later earlier ''ci''"
proof -
  obtain r w' where r: "CheckChange ex_client ex_query 0 = (Inr r, w')" and passed: "rs_status r = GatePassed"
  proof -
    have "case CheckChange ex_client ex_query 0 of (Inl e, w') \<Rightarrow> False | (Inr r, w') \<Rightarrow> rs_status r = GatePassed" by code_simp
    then show thesis using that by (auto split: prod.split_asm sum.split_asm)
  qed
  obtain own later earlier where B: "backed ex_client 0 ex_query own later earlier"
    and J: "judged own later earlier (trimSlice (cq_required ex_query)) r"
    using change_backed [OF r] by blast
  have "trimSlice (cq_required ex_query) = [''ci'']" by code_simp
  with J passed have "gate_verdict own later earlier [''ci''] = GatePassed" by (simp add: judged_def)
  then have "satisfied own later earlier ''ci''"
    by (auto simp: gate_verdict_def gate_states split: if_split_asm)
  with r passed B show ?thesis by auto
qed

end
