(* ===== verification/Review_Gate_System.thy ===== *)
theory Review_Gate_System
  imports Review_Gate_Service Review_Gate_Laws Review_GitHub_Props
begin

text \<open>
  The contract between the service of the check gates and its store (locale \<open>gate_store_laws\<close>): every
  operation executes statements of the gate tables. The service over any store that keeps it, whose other
  collaborators do not touch the tables (locale \<open>gate_service_laws\<close>), does so as well. The store over
  PostgreSQL keeps the contract under every schedule of driver failures, and the service over it and over
  the client of GitHub is an instance.
\<close>

abbreviation gate_steps :: "gate_tables \<Rightarrow> gate_tables \<Rightarrow> bool" where
  "gate_steps \<equiv> gate_step\<^sup>*\<^sup>*"

section \<open>The contract\<close>

locale gate_store_laws =
  fixes store :: "'w gate_store" and view :: "'w \<Rightarrow> gate_tables"
  assumes register: "gt_status g = GatePending \<Longrightarrow> gs_Register store g now w = (r, w') \<Longrightarrow> gate_steps (view w) (view w')"
    and get: "gs_Get store p t c w = (a, w') \<Longrightarrow> view w' = view w"
    and pending: "gs_ListPending store now limit w = (b, w') \<Longrightarrow> view w' = view w"
    and evidence: "gs_ListEvidence store limit w = (b, w') \<Longrightarrow> view w' = view w"
    and complete: "validGitHubCheckGateStatus status \<Longrightarrow> gs_Complete store i status result at w = (u, w') \<Longrightarrow> gate_steps (view w) (view w')"
    and reopen: "gs_Reopen store q now w = (u, w') \<Longrightarrow> gate_steps (view w) (view w')"
    and delay: "gs_Delay store i result next_poll at w = (u, w') \<Longrightarrow> gate_steps (view w) (view w')"
    and timeout: "gs_Timeout store i at w = (u, w') \<Longrightarrow> gate_steps (view w) (view w')"
    and posted: "gs_MarkPosted store i m at w = (a, w') \<Longrightarrow> gate_steps (view w) (view w')"
    and failed: "gs_RecordError store i err at w = (a, w') \<Longrightarrow> gate_steps (view w) (view w')"
    and events: "gs_ListEvents store eq w = (es, w') \<Longrightarrow> view w' = view w"

locale gate_service_laws = gate_store_laws store view
  for store :: "'w gate_store" and view :: "'w \<Rightarrow> gate_tables" +
  fixes s :: "'w gate_service"
  assumes store: "gv_store s = store"
    and task: "gv_task s p t w = (tc, w') \<Longrightarrow> view w' = view w"
    and append: "gv_append s p req w = (m, w') \<Longrightarrow> view w' = view w"
    and check_change: "gv_checks s = Some provider \<Longrightarrow> cp_CheckChange provider cq w = (result, w') \<Longrightarrow>
      view w' = view w \<and> (\<forall>x. result = Inr x \<longrightarrow> validGitHubCheckGateStatus (rs_status x))"
    and check_commit: "gv_checks s = Some provider \<Longrightarrow> cp_CheckCommit provider p c required w = (result, w') \<Longrightarrow> view w' = view w"

context gate_service_laws
begin

lemma validate_view: "validateTask s project t allowed w = (r, w') \<Longrightarrow> view w' = view w"
  by (auto simp: validateTask_def Let_def dest: task split: if_split_asm prod.split_asm sum.split_asm)

lemma request_pending: "githubGateFromRequest opts now project t q = Inr g \<Longrightarrow> gt_status g = GatePending"
  by (auto simp: githubGateFromRequest_def Let_def split: if_split_asm)

lemma reopen_steps: "gv_reopen s stored g w = (r, w') \<Longrightarrow> gate_steps (view w) (view w')"
  using reopen by (fastforce simp: gv_reopen_def Let_def store split: prod.split_asm sum.split_asm)

lemma register_steps:
  assumes "gv_RegisterGitHubCheckGate s project t q w = (r, w')"
  shows "gate_steps (view w) (view w')"
proof -
  obtain a w1 where v: "validateTask s project t [] w = (a, w1)" by fastforce
  note v1 = validate_view [OF v]
  show ?thesis
  proof (cases a)
    case (Inl e)
    with assms v v1 show ?thesis by (simp add: gv_RegisterGitHubCheckGate_def)
  next
    case (Inr tc)
    show ?thesis
    proof (cases "githubGateFromRequest (gv_options s) (gv_clock s w1) (tc_project tc) t q")
      case (Inl e)
      with assms v v1 Inr show ?thesis by (simp add: gv_RegisterGitHubCheckGate_def)
    next
      case g: (Inr g)
      obtain b w2 where b: "gs_Register store g (gv_clock s w1) w1 = (b, w2)" by fastforce
      note steps = register [OF request_pending [OF g] b]
      show ?thesis
      proof (cases b)
        case (Inl e)
        with assms v v1 Inr g b steps store show ?thesis by (simp add: gv_RegisterGitHubCheckGate_def)
      next
        case stored: (Inr x)
        obtain gs ss where x: "x = (gs, ss)" by fastforce
        show ?thesis
        proof (cases "reopenableGitHubCheckGateStatus (gt_status gs)")
          case True
          with assms v Inr g b stored x store have "gv_reopen s gs g w2 = (r, w')" by (simp add: gv_RegisterGitHubCheckGate_def)
          with reopen_steps steps v1 show ?thesis by (metis rtranclp_trans)
        next
          case False
          with assms v v1 Inr g b stored x store steps show ?thesis by (simp add: gv_RegisterGitHubCheckGate_def)
        qed
      qed
    qed
  qed
qed

lemma get_view: "gv_GetGitHubCheckGate s project t sha w = (r, w') \<Longrightarrow> view w' = view w"
  by (auto simp: gv_GetGitHubCheckGate_def Let_def store dest!: validate_view get split: prod.split_asm sum.split_asm if_split_asm)

lemma discover_view:
  assumes "gv_DiscoverGitHubChecks s repository sha required w = (r, w')"
  shows "view w' = view w"
proof (cases "gv_checks s")
  case None
  with assms show ?thesis by (auto simp: gv_DiscoverGitHubChecks_def Let_def split: if_split_asm)
next
  case (Some provider)
  with assms check_commit [OF Some] show ?thesis
    by (fastforce simp: gv_DiscoverGitHubChecks_def Let_def split: if_split_asm prod.split_asm sum.split_asm)
qed

lemma only_gate_snd: "snd (only_gate a) = snd a"
  by (simp add: only_gate_def split: prod.split sum.split)

lemma delay_http_steps: "gv_delayAfterHTTPError s g e at w = (r, w') \<Longrightarrow> gate_steps (view w) (view w')"
  unfolding gv_delayAfterHTTPError_def Let_def store using delay by (metis only_gate_snd prod.collapse snd_conv)

lemma delay_error_steps: "gv_delayAfterError s g e at w = (r, w') \<Longrightarrow> gate_steps (view w) (view w')"
  using delay by (fastforce simp: gv_delayAfterError_def Let_def store split: prod.split_asm sum.split_asm)

lemma settled_valid: "validGitHubCheckGateStatus (rs_status x) \<Longrightarrow> validGitHubCheckGateStatus (rs_status (settled g now grace x))"
  by (auto simp: settled_def never_ran_def validGitHubCheckGateStatus_def)

lemma complete_only_steps:
  "validGitHubCheckGateStatus status \<Longrightarrow> only_gate (gs_Complete store i status x at w) = (r, w') \<Longrightarrow> gate_steps (view w) (view w')"
  using complete by (metis only_gate_snd prod.collapse snd_conv)

lemma evaluate_steps:
  assumes p: "gv_checks s = Some provider" and out: "gv_evaluateGitHubCheckGate s provider g w = (r, w')"
  shows "gate_steps (view w) (view w')"
proof (cases "gv_clock s w < gt_timeout g")
  case False
  with out have "only_gate (gs_Timeout store (gt_id g) (gv_clock s w) w) = (r, w')"
    by (simp add: gv_evaluateGitHubCheckGate_def Let_def store)
  with timeout show ?thesis by (metis only_gate_snd prod.collapse snd_conv)
next
  case True
  obtain a w1 where a: "cp_CheckChange provider (githubChangeQuery (gv_options s) g) w = (a, w1)" by fastforce
  note v = check_change [OF p a]
  show ?thesis
  proof (cases a)
    case (Inl e)
    have "gv_delayAfterError s g e (gv_clock s w) w1 = (r, w') \<or> (\<exists>h. gv_delayAfterHTTPError s g h (gv_clock s w) w1 = (r, w'))"
      using out True a Inl by (cases e) (auto simp: gv_evaluateGitHubCheckGate_def Let_def split: if_split_asm)
    moreover have "view w = view w1" using v by simp
    ultimately show ?thesis using delay_http_steps delay_error_steps by metis
  next
    case (Inr x)
    let ?x = "settled g (gv_clock s w) (go_grace (gv_options s)) x"
    have "validGitHubCheckGateStatus (rs_status ?x)" "validGitHubCheckGateStatus GatePending"
      using v Inr settled_valid by (auto simp: validGitHubCheckGateStatus_def)
    moreover obtain st z where "validGitHubCheckGateStatus GatePending \<Longrightarrow> validGitHubCheckGateStatus (rs_status ?x) \<Longrightarrow> validGitHubCheckGateStatus st"
      and "only_gate (gs_Complete store (gt_id g) st z (gv_clock s w) w1) = (r, w')"
      using out True a Inr by (auto simp: gv_evaluateGitHubCheckGate_def Let_def store split: if_split_asm)
    moreover have "view w = view w1" using v by simp
    ultimately show ?thesis using complete_only_steps by metis
  qed
qed

lemma deliver_steps:
  assumes "gv_deliverGitHubCheckGateEvidence s g w = (r, w')"
  shows "gate_steps (view w) (view w')"
proof (cases "gt_evidence g = EvidencePosted")
  case True
  with assms show ?thesis by (simp add: gv_deliverGitHubCheckGateEvidence_def)
next
  case False
  obtain a w1 where a: "gv_append s (gt_project g) (evidence_request g) w = (a, w1)" by fastforce
  note v = append [OF a]
  show ?thesis
  proof (cases a)
    case (Inl e)
    obtain b w2 where b: "gs_RecordError store (gt_id g) (err_text e) (gv_clock s w1) w1 = (b, w2)" by fastforce
    with assms False a Inl have "w' = w2"
      by (auto simp: gv_deliverGitHubCheckGateEvidence_def store split: sum.split_asm)
    with failed [OF b] v show ?thesis by simp
  next
    case (Inr m)
    obtain b w2 where b: "gs_MarkPosted store (gt_id g) m (gv_clock s w1) w1 = (b, w2)" by fastforce
    with assms False a Inr have "w' = w2"
      by (auto simp: gv_deliverGitHubCheckGateEvidence_def store split: sum.split_asm)
    with posted [OF b] v show ?thesis by simp
  qed
qed

lemma each_gate_steps:
  assumes "\<And>g w r w'. f g w = (r, w') \<Longrightarrow> gate_steps (view w) (view w')"
  shows "gate_steps (view w) (view (snd (each_gate f gs w)))"
proof (induction gs arbitrary: w)
  case (Cons g gs)
  obtain r w1 where r: "f g w = (r, w1)" by fastforce
  with assms have "gate_steps (view w) (view w1)" by blast
  with Cons.IH [of w1] r show ?case
    by (auto split: sum.split prod.split simp: Let_def intro: rtranclp_trans)
qed simp

lemma retry_steps: "gate_steps (view w) (view (snd (gv_RetryGitHubCheckGateEvidence s limit w)))"
proof -
  obtain a w1 where a: "gs_ListEvidence store (batch limit) w = (a, w1)" by fastforce
  note v = evidence [OF a]
  have "gate_steps (view w1) (view (snd (each_gate (gv_deliverGitHubCheckGateEvidence s) gs w1)))" for gs
    by (rule each_gate_steps) (rule deliver_steps)
  with v a show ?thesis by (auto simp: gv_RetryGitHubCheckGateEvidence_def store split: sum.split)
qed

lemma scan_steps:
  assumes p: "gv_checks s = Some provider" and out: "scan_due s provider limit errs w = Some (r, w')"
  shows "gate_steps (view w) (view w')"
proof -
  have "s = s \<longrightarrow> provider = provider \<longrightarrow> gate_steps (view w) (view (snd (r, w')))"
    using out
  proof (rule scan_due.raw_induct
      [where P = "\<lambda>s' p' l e v y. s' = s \<longrightarrow> p' = provider \<longrightarrow> gate_steps (view v) (view (snd y))", rotated])
    fix rec :: "'w gate_service \<Rightarrow> 'w check_provider \<Rightarrow> int \<Rightarrow> go_err list \<Rightarrow> 'w \<Rightarrow> ((go_err list + go_err list) \<times> 'w) option"
    fix s' p' l e v y
    assume IH: "\<And>s' p' l e v y. rec s' p' l e v = Some y \<Longrightarrow> s' = s \<longrightarrow> p' = provider \<longrightarrow> gate_steps (view v) (view (snd y))"
      and body: "(case gs_ListPending (gv_store s') (gv_clock s' v) l v of
        (Inl err, w1) \<Rightarrow> Some (Inl (e @ [err]), w1)
      | (Inr gs, w1) \<Rightarrow>
          if gs = [] then Some (Inr e, w1)
          else
            let (es, w2) = each_gate (gv_evaluateGitHubCheckGate s' p') gs w1 in
            if int (length gs) < l then Some (Inr (e @ es), w2)
            else rec s' p' l (e @ es) w2) = Some y"
    show "s' = s \<longrightarrow> p' = provider \<longrightarrow> gate_steps (view v) (view (snd y))"
    proof (intro impI)
      assume s': "s' = s" "p' = provider"
      obtain a w1 where a: "gs_ListPending store (gv_clock s v) l v = (a, w1)" by fastforce
      note v1 = pending [OF a]
      show "gate_steps (view v) (view (snd y))"
      proof (cases a)
        case (Inl x)
        with body s' a v1 store show ?thesis by auto
      next
        case (Inr gs)
        obtain es w2 where es: "each_gate (gv_evaluateGitHubCheckGate s provider) gs w1 = (es, w2)" by fastforce
        have "gate_steps (view w1) (view (snd (each_gate (gv_evaluateGitHubCheckGate s provider) gs w1)))"
          by (rule each_gate_steps) (rule evaluate_steps [OF p])
        then have steps: "gate_steps (view v) (view w2)" using es v1 by simp
        have "gs = [] \<and> snd y = w1 \<or> snd y = w2 \<or> rec s provider l (e @ es) w2 = Some y"
          using body s' a Inr es store by (auto split: if_split_asm)
        then show ?thesis
        proof (elim disjE)
          assume "gs = [] \<and> snd y = w1"
          with v1 show ?thesis by simp
        next
          assume "snd y = w2"
          with steps show ?thesis by simp
        next
          assume "rec s provider l (e @ es) w2 = Some y"
          from IH [OF this] have "gate_steps (view w2) (view (snd y))" by simp
          with steps show ?thesis by (rule rtranclp_trans)
        qed
      qed
    qed
  qed
  then show ?thesis by simp
qed

lemma poll_steps:
  assumes "gv_PollGitHubCheckGates s limit w = Some (errs, w')"
  shows "gate_steps (view w) (view w')"
proof (cases "gv_checks s")
  case None
  with assms show ?thesis by (simp add: gv_PollGitHubCheckGates_def)
next
  case (Some provider)
  with assms obtain x w1 where x: "scan_due s provider (batch limit) [] w = Some (x, w1)"
    by (auto simp: gv_PollGitHubCheckGates_def split: option.split_asm)
  note steps = scan_steps [OF Some x]
  show ?thesis
  proof (cases x)
    case (Inl e)
    with assms Some x steps show ?thesis by (simp add: gv_PollGitHubCheckGates_def)
  next
    case (Inr e)
    with assms Some x have "w' = snd (gv_RetryGitHubCheckGateEvidence s (batch limit) w1)"
      by (auto simp: gv_PollGitHubCheckGates_def Let_def split: prod.split_asm)
    with retry_steps [of w1 "batch limit"] steps show ?thesis by (metis rtranclp_trans)
  qed
qed

end

section \<open>The methods execute statements\<close>

definition runs_steps :: "'a gate_call \<Rightarrow> bool" where
  "runs_steps m \<longleftrightarrow> (\<forall>db r db'. m db = (r, db') \<longrightarrow> gate_steps (pg_data db) (pg_data db'))"

lemma runs_stepsD: "runs_steps m \<Longrightarrow> m db = (r, db') \<Longrightarrow> gate_steps (pg_data db) (pg_data db')"
  unfolding runs_steps_def by blast

definition reads_only :: "'a gate_call \<Rightarrow> bool" where
  "reads_only m \<longleftrightarrow> (\<forall>db r db'. m db = (r, db') \<longrightarrow> pg_data db' = pg_data db)"

lemma reads_runs: "reads_only m \<Longrightarrow> runs_steps m"
  by (auto simp: reads_only_def runs_steps_def)

lemma query_gate_runs:
  assumes q: "\<And>x d d'. q d = Some (x, d') \<Longrightarrow> gate_steps d d'" and none: "runs_steps none"
  shows "runs_steps (query_gate ctx q found none)"
  unfolding runs_steps_def
proof (intro allI impI)
  fix db r db' assume out: "query_gate ctx q found none db = (r, db')"
  show "gate_steps (pg_data db) (pg_data db')"
  proof (cases q db rule: pg_call_cases)
    case (fail db1)
    with out show ?thesis by (simp add: query_gate_def)
  next
    case (ok x db1)
    note steps = q [OF ok(2)]
    show ?thesis
    proof (cases x)
      case None
      with out ok have "none db1 = (r, db')" by (simp add: query_gate_def)
      from runs_stepsD [OF none this] steps show ?thesis by (simp add: rtranclp_trans)
    next
      case (Some g)
      with out ok steps show ?thesis by (simp add: query_gate_def)
    qed
  qed
qed

lemma fail_reads: "reads_only (gst_fail e)"
  by (simp add: reads_only_def gst_fail_def)

lemma query_gate_reads: "reads_only none \<Longrightarrow> reads_only (query_gate ctx (read_only f) found none)"
  unfolding reads_only_def
proof (intro allI impI)
  fix db r db'
  assume none: "\<forall>db r db'. none db = (r, db') \<longrightarrow> pg_data db' = pg_data db"
    and out: "query_gate ctx (read_only f) found none db = (r, db')"
  obtain a db1 where a: "pg_call (read_only f) db = (a, db1)" by fastforce
  then have d: "pg_data db1 = pg_data db" using pg_call_read_only [of f db] by simp
  with none out a show "pg_data db' = pg_data db"
    by (auto simp: query_gate_def split: sum.split_asm option.split_asm)
qed

lemma gate_rows_reads:
  assumes "\<And>d x d'. q d = Some (x, d') \<Longrightarrow> d' = d"
  shows "reads_only (gate_rows ctx q)"
  unfolding reads_only_def
proof (intro allI impI)
  fix db r db' assume out: "gate_rows ctx q db = (r, db')"
  show "pg_data db' = pg_data db"
  proof (cases q db rule: pg_call_cases)
    case (fail db1)
    with out show ?thesis by (auto simp: gate_rows_def)
  next
    case (ok x db1)
    obtain b db2 where b: "pg_call (read_only (\<lambda>_. ())) db1 = (b, db2)" by fastforce
    then have "pg_data db2 = pg_data db1" using pg_call_read_only [of "\<lambda>_. ()" db1] by simp
    with out ok assms [OF ok(2)] b show ?thesis by (auto simp: gate_rows_def split: sum.split_asm)
  qed
qed

lemma by_id_reads: "reads_only (gst_getGitHubCheckGateByID i)"
  unfolding gst_getGitHubCheckGateByID_def getGitHubCheckGateSQL_def by (rule query_gate_reads) (rule fail_reads)

lemma by_commit_reads: "reads_only (gst_GetGitHubCheckGate p t c)"
  unfolding gst_GetGitHubCheckGate_def getGitHubCheckGateByCommitSQL_def by (rule query_gate_reads) (rule fail_reads)

lemma update_or_read_runs:
  assumes "\<And>x d d'. q d = Some (x, d') \<Longrightarrow> gate_steps d d'"
  shows "runs_steps (update_or_read ctx q i)"
  unfolding update_or_read_def
proof (rule query_gate_runs [OF assms])
  show "runs_steps (\<lambda>db. case gst_getGitHubCheckGateByID i db of (Inl e, db') \<Rightarrow> (Inl e, db') | (Inr g, db') \<Rightarrow> (Inr (g, False), db'))"
    using by_id_reads [of i] by (auto simp: runs_steps_def reads_only_def split: prod.split_asm sum.split_asm)
qed assumption

lemma complete_runs:
  assumes "validGitHubCheckGateStatus status"
  shows "runs_steps (gst_CompleteGitHubCheckGate i status x at)"
proof -
  have run: "runs_steps (update_or_read ctx (completeGitHubCheckGateSQL i status x at next_poll) i)" for ctx next_poll
    by (rule update_or_read_runs) (blast intro: step_complete [OF assms])
  have "gate_steps (pg_data db) (pg_data db')" if out: "gst_CompleteGitHubCheckGate i status x at db = (r, db')" for db r db'
  proof (cases "status = GatePending")
    case False
    with out runs_stepsD [OF run] show ?thesis by (auto simp: gst_CompleteGitHubCheckGate_def Let_def)
  next
    case True
    obtain a db1 where a: "gst_getGitHubCheckGateByID i db = (a, db1)" by fastforce
    with by_id_reads have d: "pg_data db1 = pg_data db" unfolding reads_only_def by blast
    show ?thesis
    proof (cases a)
      case (Inl e)
      with out True a d show ?thesis by (simp add: gst_CompleteGitHubCheckGate_def)
    next
      case (Inr g)
      with out True a runs_stepsD [OF run, of _ _ db1 r db'] d show ?thesis
        by (simp add: gst_CompleteGitHubCheckGate_def)
    qed
  qed
  then show ?thesis unfolding runs_steps_def by blast
qed

lemma timeout_runs: "runs_steps (gst_TimeoutGitHubCheckGate i at)"
  unfolding runs_steps_def
proof (intro allI impI)
  fix db r db' assume out: "gst_TimeoutGitHubCheckGate i at db = (r, db')"
  obtain a db1 where a: "gst_getGitHubCheckGateByID i db = (a, db1)" by fastforce
  with by_id_reads have d: "pg_data db1 = pg_data db" unfolding reads_only_def by blast
  have "validGitHubCheckGateStatus GateTimedOut" by (simp add: validGitHubCheckGateStatus_def)
  note run = complete_runs [OF this]
  show "gate_steps (pg_data db) (pg_data db')"
  proof (cases a)
    case (Inl e)
    with out a d show ?thesis by (simp add: gst_TimeoutGitHubCheckGate_def)
  next
    case (Inr g)
    with out a runs_stepsD [OF run, of _ _ _ db1 r db'] d show ?thesis
      by (simp add: gst_TimeoutGitHubCheckGate_def)
  qed
qed

lemma register_runs:
  assumes "gt_status g = GatePending"
  shows "runs_steps (gst_RegisterGitHubCheckGate g now)"
  unfolding runs_steps_def
proof (intro allI impI)
  fix db r db' assume out: "gst_RegisterGitHubCheckGate g now db = (r, db')"
  let ?super = "supersedeGitHubCheckGatesSQL (gt_project g) (gt_task g) (gt_sha g) now"
  obtain a db0 where a: "pg_call (read_only (\<lambda>_. ())) db = (a, db0)" by fastforce
  then have d0: "pg_data db0 = pg_data db" using pg_call_read_only [of "\<lambda>_. ()" db] by simp
  show "gate_steps (pg_data db) (pg_data db')"
  proof (cases ?super db0 rule: pg_call_cases)
    case (fail db1)
    with out a d0 show ?thesis by (auto simp: gst_RegisterGitHubCheckGate_def split: sum.split_asm)
  next
    case (ok gs db1)
    obtain b db2 where b: "pg_call (read_only (\<lambda>_. ())) db1 = (b, db2)" by fastforce
    then have d2: "pg_data db2 = pg_data db1" using pg_call_read_only [of "\<lambda>_. ()" db1] by simp
    have s1: "gate_steps (pg_data db) (pg_data db2)" using step_supersede [OF ok(2)] d0 d2 by auto
    show ?thesis
    proof (cases "upsertGitHubCheckGateSQL g now" db2 rule: pg_call_cases)
      case (fail db3)
      with out a d0 ok(1) b s1 show ?thesis by (auto simp: gst_RegisterGitHubCheckGate_def split: sum.split_asm)
    next
      case up: (ok x db3)
      obtain c db4 where c: "pg_call (read_only (\<lambda>_. ())) db3 = (c, db4)" by fastforce
      then have d4: "pg_data db4 = pg_data db3" using pg_call_read_only [of "\<lambda>_. ()" db3] by simp
      have s2: "gate_steps (pg_data db) (pg_data db4)"
        using rtranclp.rtrancl_into_rtrancl [OF s1 step_upsert [OF assms up(2)]] d4 by simp
      with out a d0 ok(1) b up(1) c s1 show ?thesis
        by (auto simp: gst_RegisterGitHubCheckGate_def split: sum.split_asm)
    qed
  qed
qed

lemma pending_reads: "reads_only (gst_ListPendingGitHubCheckGates now limit)"
  unfolding gst_ListPendingGitHubCheckGates_def
  by (rule gate_rows_reads) (auto simp: listPendingGitHubCheckGatesSQL_def split: if_split_asm)

lemma evidence_reads: "reads_only (gst_ListGitHubCheckGatesPendingEvidence limit)"
  unfolding gst_ListGitHubCheckGatesPendingEvidence_def
  by (rule gate_rows_reads) (auto simp: listGitHubCheckGatesPendingEvidenceSQL_def split: if_split_asm)

lemma events_reads: "reads_only (gst_ListGitHubCheckGateEvents q)"
  unfolding gst_ListGitHubCheckGateEvents_def
  by (rule gate_rows_reads) (auto simp: listGitHubCheckGateEventsSQL_def split: if_split_asm)

lemma reopen_runs: "runs_steps (gst_ReopenGitHubCheckGate q now)"
  unfolding gst_ReopenGitHubCheckGate_def by (rule update_or_read_runs) (blast intro: step_reopen)

lemma delay_runs: "runs_steps (gst_DelayGitHubCheckGate i x next_poll at)"
  unfolding gst_DelayGitHubCheckGate_def by (rule update_or_read_runs) (blast intro: step_delay)

lemma posted_runs: "runs_steps (gst_MarkGitHubCheckGateEvidencePosted i m at)"
  unfolding gst_MarkGitHubCheckGateEvidencePosted_def
  by (rule query_gate_runs [OF _ reads_runs [OF fail_reads]]) (blast intro: step_posted)

lemma evidence_error_runs: "runs_steps (gst_RecordGitHubCheckGateEvidenceError i err at)"
  unfolding gst_RecordGitHubCheckGateEvidenceError_def
  by (rule query_gate_runs [OF _ reads_runs [OF fail_reads]]) (blast intro: step_evidence_error)

section \<open>The store and the service\<close>

record 'x gate_world =
  gw_db :: "gate_tables pg"
  gw_rest :: 'x

definition on_db :: "'a gate_call \<Rightarrow> ('x gate_world, 'a) gate_op" where
  "on_db m w = (let (r, db) = m (gw_db w) in (r, w\<lparr>gw_db := db\<rparr>))"

definition on_rest :: "('x \<Rightarrow> 'r \<times> 'x) \<Rightarrow> 'x gate_world \<Rightarrow> 'r \<times> 'x gate_world" where
  "on_rest m w = (let (r, x) = m (gw_rest w) in (r, w\<lparr>gw_rest := x\<rparr>))"

definition pg_gate_store :: "'x gate_world gate_store" where
  "pg_gate_store =
     \<lparr>gs_Register = (\<lambda>g now. on_db (gst_RegisterGitHubCheckGate g now)),
      gs_Get = (\<lambda>p t c. on_db (gst_GetGitHubCheckGate p t c)),
      gs_ListPending = (\<lambda>now limit. on_db (gst_ListPendingGitHubCheckGates now limit)),
      gs_ListEvidence = (\<lambda>limit. on_db (gst_ListGitHubCheckGatesPendingEvidence limit)),
      gs_Complete = (\<lambda>i status x at. on_db (gst_CompleteGitHubCheckGate i status x at)),
      gs_Reopen = (\<lambda>q now. on_db (gst_ReopenGitHubCheckGate q now)),
      gs_Delay = (\<lambda>i x next_poll at. on_db (gst_DelayGitHubCheckGate i x next_poll at)),
      gs_Timeout = (\<lambda>i at. on_db (gst_TimeoutGitHubCheckGate i at)),
      gs_MarkPosted = (\<lambda>i m at. on_db (gst_MarkGitHubCheckGateEvidencePosted i m at)),
      gs_RecordError = (\<lambda>i err at. on_db (gst_RecordGitHubCheckGateEvidenceError i err at)),
      gs_ListEvents = (\<lambda>q. on_db (gst_ListGitHubCheckGateEvents q))\<rparr>"

definition gate_data :: "'x gate_world \<Rightarrow> gate_tables" where
  "gate_data w = pg_data (gw_db w)"

lemma on_db_runs: "runs_steps m \<Longrightarrow> on_db m w = (r, w') \<Longrightarrow> gate_steps (gate_data w) (gate_data w')"
  by (auto simp: on_db_def gate_data_def runs_steps_def split: prod.split_asm)

lemma on_db_reads: "reads_only m \<Longrightarrow> on_db m w = (r, w') \<Longrightarrow> gate_data w' = gate_data w"
  by (auto simp: on_db_def gate_data_def reads_only_def split: prod.split_asm)

lemma on_rest_data: "on_rest m w = (r, w') \<Longrightarrow> gate_data w' = gate_data w"
  by (auto simp: on_rest_def gate_data_def split: prod.split_asm)

text \<open>The other services, GitHub and the clock, on the rest of the world.\<close>

record 'x gate_env =
  gx_task :: "string \<Rightarrow> int \<Rightarrow> ('x, task_context) gate_op"
  gx_append :: "string \<Rightarrow> append_request \<Rightarrow> ('x, int) gate_op"
  gx_github :: "'x github_client option"
  gx_options :: github_options
  gx_clock :: "'x \<Rightarrow> time"
  gx_show_time :: "time \<Rightarrow> string"

definition provider_of :: "'x github_client \<Rightarrow> 'x gate_world check_provider" where
  "provider_of c =
     \<lparr>cp_CheckCommit = (\<lambda>repository sha required. on_rest (CheckCommit c repository sha required)),
      cp_CheckChange = (\<lambda>q. on_rest (CheckChange c q))\<rparr>"

definition pg_gate_service :: "'x gate_env \<Rightarrow> 'x gate_world gate_service" where
  "pg_gate_service env =
     \<lparr>gv_store = pg_gate_store, gv_task = (\<lambda>p t. on_rest (gx_task env p t)),
      gv_append = (\<lambda>p q. on_rest (gx_append env p q)), gv_checks = map_option provider_of (gx_github env),
      gv_options = gx_options env, gv_clock = (\<lambda>w. gx_clock env (gw_rest w)), gv_show_time = gx_show_time env\<rparr>"

interpretation pg_gates: gate_store_laws pg_gate_store gate_data
proof
  fix g now w r w'
  assume "gt_status g = GatePending" "gs_Register pg_gate_store g now w = (r, w' :: 'x gate_world)"
  then show "gate_steps (gate_data w) (gate_data w')"
    by (auto simp: pg_gate_store_def dest: on_db_runs [OF register_runs])
next
  fix p t c w a w' assume "gs_Get pg_gate_store p t c w = (a, w' :: 'x gate_world)"
  then show "gate_data w' = gate_data w"
    using on_db_reads [OF by_commit_reads] by (auto simp: pg_gate_store_def)
next
  fix now limit w b w' assume "gs_ListPending pg_gate_store now limit w = (b, w' :: 'x gate_world)"
  then show "gate_data w' = gate_data w"
    using on_db_reads [OF pending_reads] by (auto simp: pg_gate_store_def)
next
  fix limit w b w' assume "gs_ListEvidence pg_gate_store limit w = (b, w' :: 'x gate_world)"
  then show "gate_data w' = gate_data w"
    using on_db_reads [OF evidence_reads] by (auto simp: pg_gate_store_def)
next
  fix status i x at w u w'
  assume "validGitHubCheckGateStatus status" "gs_Complete pg_gate_store i status x at w = (u, w' :: 'x gate_world)"
  then show "gate_steps (gate_data w) (gate_data w')"
    by (auto simp: pg_gate_store_def dest: on_db_runs [OF complete_runs])
next
  fix q now w u w' assume "gs_Reopen pg_gate_store q now w = (u, w' :: 'x gate_world)"
  then show "gate_steps (gate_data w) (gate_data w')"
    using on_db_runs [OF reopen_runs] by (auto simp: pg_gate_store_def)
next
  fix i x next_poll at w u w' assume "gs_Delay pg_gate_store i x next_poll at w = (u, w' :: 'x gate_world)"
  then show "gate_steps (gate_data w) (gate_data w')"
    using on_db_runs [OF delay_runs] by (auto simp: pg_gate_store_def)
next
  fix i at w u w' assume "gs_Timeout pg_gate_store i at w = (u, w' :: 'x gate_world)"
  then show "gate_steps (gate_data w) (gate_data w')"
    using on_db_runs [OF timeout_runs] by (auto simp: pg_gate_store_def)
next
  fix i m at w a w' assume "gs_MarkPosted pg_gate_store i m at w = (a, w' :: 'x gate_world)"
  then show "gate_steps (gate_data w) (gate_data w')"
    using on_db_runs [OF posted_runs] by (auto simp: pg_gate_store_def)
next
  fix i err at w a w' assume "gs_RecordError pg_gate_store i err at w = (a, w' :: 'x gate_world)"
  then show "gate_steps (gate_data w) (gate_data w')"
    using on_db_runs [OF evidence_error_runs] by (auto simp: pg_gate_store_def)
next
  fix q w es w' assume "gs_ListEvents pg_gate_store q w = (es, w' :: 'x gate_world)"
  then show "gate_data w' = gate_data w"
    using on_db_reads [OF events_reads] by (auto simp: pg_gate_store_def)
qed

lemma check_change_status:
  assumes "CheckChange c q w = (Inr x, w')"
  shows "validGitHubCheckGateStatus (rs_status x)"
proof -
  from gh_post_result [OF post_check_change assms] obtain own later earlier where
    "judged own later earlier (trimSlice (cq_required q)) x" by blast
  then show ?thesis by (auto simp: judged_def gate_verdict_def validGitHubCheckGateStatus_def)
qed

interpretation pg_service: gate_service_laws pg_gate_store gate_data "pg_gate_service env" for env
proof
  show "gv_store (pg_gate_service env) = pg_gate_store" by (simp add: pg_gate_service_def)
next
  fix p t w tc w' assume "gv_task (pg_gate_service env) p t w = (tc, w')"
  then show "gate_data w' = gate_data w" by (auto simp: pg_gate_service_def dest: on_rest_data)
next
  fix p q w m w' assume "gv_append (pg_gate_service env) p q w = (m, w')"
  then show "gate_data w' = gate_data w" by (auto simp: pg_gate_service_def dest: on_rest_data)
next
  fix provider q w result w'
  assume "gv_checks (pg_gate_service env) = Some provider" "cp_CheckChange provider q w = (result, w')"
  then obtain c where c: "on_rest (CheckChange c q) w = (result, w')"
    by (auto simp: pg_gate_service_def provider_of_def)
  then have "gate_data w' = gate_data w" by (rule on_rest_data)
  moreover have "validGitHubCheckGateStatus (rs_status x)" if "result = Inr x" for x
    using c that by (auto simp: on_rest_def dest: check_change_status split: prod.split_asm)
  ultimately show "gate_data w' = gate_data w \<and> (\<forall>x. result = Inr x \<longrightarrow> validGitHubCheckGateStatus (rs_status x))" by blast
next
  fix provider p c required w result w'
  assume "gv_checks (pg_gate_service env) = Some provider" "cp_CheckCommit provider p c required w = (result, w')"
  then show "gate_data w' = gate_data w" by (auto simp: pg_gate_service_def provider_of_def dest: on_rest_data)
qed

end
