(* ===== verification/Review_Gate_Live.thy ===== *)
theory Review_Gate_Live
  imports Review_Gate_System
begin

text \<open>
  The check gates over a database that does not fail: what an evaluation does to the table, that a scan
  leaves no gate due (and returns on any driver), and what a registration does to the row of its commit and to the other
  gates of its task.
\<close>

section \<open>Delays lie in the future\<close>

lemma next_poll_later:
  "now < nextGitHubHTTPErrorPollAt now timeoutAt e"
  by (auto simp: nextGitHubHTTPErrorPollAt_def Let_def backoffs)

section \<open>Statements that succeed\<close>

definition set_row :: "gate \<Rightarrow> gate_tables \<Rightarrow> gate list" where
  "set_row g d = map (\<lambda>r. if gt_id r = gt_id g then g else r) (gd_gates d)"

lemma update_gate_at:
  assumes inv: "gates_inv d" and g: "g \<in> set (gd_gates d)" "P g" and f: "gt_id (f g) = gt_id g"
  shows "update_gate (gt_id g) P f d = (Some (f g), d\<lparr>gd_gates := set_row (f g) d\<rparr>)"
proof -
  have "row_lookup gt_id (gt_id g) (gd_gates d) = Some g"
    using inv g(1) by (simp add: gates_inv_def row_lookup_distinct)
  moreover have "update_where (\<lambda>r. gt_id r = gt_id g) f (gd_gates d) = set_row (f g) d"
    unfolding update_where_def set_row_def
  proof (rule map_cong [OF refl])
    fix r assume r: "r \<in> set (gd_gates d)"
    have "gt_id r = gt_id g \<Longrightarrow> r = g" by (rule gate_unique [OF inv r g(1)])
    then show "(if gt_id r = gt_id g then f r else r) = (if gt_id r = gt_id (f g) then f g else r)"
      using f by (cases "gt_id r = gt_id g") simp_all
  qed
  ultimately show ?thesis using g(2) by (simp add: update_gate_def)
qed

lemma insert_event_some:
  "gt_completed g = Some t \<Longrightarrow> gt_reason g \<noteq> [] \<Longrightarrow> terminalGitHubCheckGateStatus (gt_status g) \<Longrightarrow> \<exists>d'. insert_event now g d = Some d'"
  by (cases "has_event d (gt_id g) (gt_attempt g)") (simp_all add: insert_event_def)

lemma complete_ends:
  assumes inv: "gates_inv d" and g: "g \<in> set (gd_gates d)" "gt_status g = GatePending"
    and st: "terminalGitHubCheckGateStatus status" and reason: "rs_reason x \<noteq> []"
  shows "\<exists>d'. completeGitHubCheckGateSQL (gt_id g) status x at next_poll d = Some (Some (completed_gate status x at next_poll g), d') \<and>
    gd_gates d' = set_row (completed_gate status x at next_poll g) d"
proof -
  let ?f = "completed_gate status x at next_poll"
  have upd: "update_gate (gt_id g) pending_gate ?f d = (Some (?f g), d\<lparr>gd_gates := set_row (?f g) d\<rparr>)"
    by (rule update_gate_at [OF inv g(1)]) (simp_all add: pending_gate_def g completed_gate_def Let_def)
  obtain d' where d': "insert_event at (?f g) (d\<lparr>gd_gates := set_row (?f g) d\<rparr>) = Some d'"
    using insert_event_some [of "?f g" at] st reason by (simp add: completed_gate_def Let_def) blast
  with insert_event_gates [OF d'] upd st show ?thesis by (simp add: completeGitHubCheckGateSQL_def)
qed

lemma complete_waits:
  assumes inv: "gates_inv d" and g: "g \<in> set (gd_gates d)" "gt_status g = GatePending"
  shows "completeGitHubCheckGateSQL (gt_id g) GatePending x at next_poll d =
    Some (Some (completed_gate GatePending x at next_poll g), d\<lparr>gd_gates := set_row (completed_gate GatePending x at next_poll g) d\<rparr>)"
proof -
  let ?f = "completed_gate GatePending x at next_poll"
  have "update_gate (gt_id g) pending_gate ?f d = (Some (?f g), d\<lparr>gd_gates := set_row (?f g) d\<rparr>)"
    by (rule update_gate_at [OF inv g(1)]) (simp_all add: pending_gate_def g completed_gate_def Let_def)
  moreover have "\<not> terminalGitHubCheckGateStatus GatePending" using terminal_not_pending by blast
  ultimately show ?thesis by (simp add: completeGitHubCheckGateSQL_def)
qed

section \<open>Methods on a healthy driver\<close>

abbreviation healthy :: "gate_tables pg \<Rightarrow> bool" where
  "healthy db \<equiv> pg_faults db = []"

lemma healthy_id [simp]: "db\<lparr>pg_data := pg_data db\<rparr> = db"
  by (cases db) simp

lemma read_healthy: "healthy db \<Longrightarrow> pg_call (read_only f) db = (Inr (f (pg_data db)), db)"
  by (simp add: pg_call_healthy [of db "read_only f" "f (pg_data db)" "pg_data db"] read_only_def)

lemma update_or_read_healthy:
  assumes "healthy db" and "q (pg_data db) = Some (Some g, d')"
  shows "update_or_read ctx q i db = (Inr (g, True), db\<lparr>pg_data := d'\<rparr>)"
  by (simp add: update_or_read_def query_gate_def pg_call_healthy [where q = q, OF assms])

lemma by_id_healthy:
  assumes "healthy db" and "gates_inv (pg_data db)" and "g \<in> set (gd_gates (pg_data db))"
  shows "gst_getGitHubCheckGateByID (gt_id g) db = (Inr g, db)"
proof -
  have "row_lookup gt_id (gt_id g) (gd_gates (pg_data db)) = Some g"
    using assms(2,3) by (simp add: gates_inv_def row_lookup_distinct)
  with read_healthy [OF assms(1), of "\<lambda>d. row_lookup gt_id (gt_id g) (gd_gates d)"] show ?thesis
    by (simp add: gst_getGitHubCheckGateByID_def query_gate_def getGitHubCheckGateSQL_def)
qed

text \<open>An operation that answers and puts \<open>g'\<close> in place of the row of \<open>g\<close>.\<close>

definition sets_row :: "gate \<Rightarrow> (gate_tables pg \<Rightarrow> (go_err + gate \<times> bool) \<times> gate_tables pg) \<Rightarrow> (gate \<Rightarrow> bool) \<Rightarrow> gate_tables pg \<Rightarrow> bool" where
  "sets_row g m Q db \<longleftrightarrow>
     (\<exists>g' db'. m db = (Inr (g', True), db') \<and> healthy db' \<and> gt_id g' = gt_id g \<and> gt_interval g' = gt_interval g \<and>
        gt_timeout g' = gt_timeout g \<and>
        gd_gates (pg_data db') = set_row g' (pg_data db) \<and> Q g')"

lemma complete_end_sets:
  assumes db: "healthy db" "gates_inv (pg_data db)" "g \<in> set (gd_gates (pg_data db))" "gt_status g = GatePending"
    and st: "terminalGitHubCheckGateStatus status" and reason: "rs_reason x \<noteq> []"
  shows "sets_row g (gst_CompleteGitHubCheckGate (gt_id g) status x at) (\<lambda>g'. gt_status g' = status) db"
proof -
  obtain d' where d': "completeGitHubCheckGateSQL (gt_id g) status x at at (pg_data db) = Some (Some (completed_gate status x at at g), d')"
    "gd_gates d' = set_row (completed_gate status x at at g) (pg_data db)"
    using complete_ends [OF db(2-4) st reason] by blast
  from update_or_read_healthy [where q = "completeGitHubCheckGateSQL (gt_id g) status x at at", OF db(1) d'(1)] terminal_not_pending [OF st] d'(2) db(1) show ?thesis
    unfolding sets_row_def
    by (intro exI [of _ "completed_gate status x at at g"] exI [of _ "db\<lparr>pg_data := d'\<rparr>"])
      (simp add: gst_CompleteGitHubCheckGate_def, simp add: completed_gate_def Let_def)
qed

lemma complete_wait_sets:
  assumes db: "healthy db" "gates_inv (pg_data db)" "g \<in> set (gd_gates (pg_data db))" "gt_status g = GatePending"
    and interval: "0 < gt_interval g" "int4 (gt_interval g)"
  shows "sets_row g (gst_CompleteGitHubCheckGate (gt_id g) GatePending x at) (\<lambda>g'. at < gt_next_poll g') db"
proof -
  let ?n = "at + wrap64 (gt_interval g * second_ns)"
  let ?g = "completed_gate GatePending x at ?n g"
  have "wrap64 (gt_interval g * second_ns) = gt_interval g * second_ns"
    using interval by (intro wrap64_id) (simp_all add: int4_def second_ns_def)
  then have later: "at < ?n" using interval by (simp add: second_ns_def)
  have sql: "completeGitHubCheckGateSQL (gt_id g) GatePending x at ?n (pg_data db) =
      Some (Some ?g, (pg_data db)\<lparr>gd_gates := set_row ?g (pg_data db)\<rparr>)"
    by (rule complete_waits [OF db(2-4)])
  from update_or_read_healthy [where q = "completeGitHubCheckGateSQL (gt_id g) GatePending x at ?n", OF db(1) sql] by_id_healthy [OF db(1-3)] db(1) later show ?thesis
    unfolding sets_row_def
    by (intro exI [of _ ?g] exI [of _ "db\<lparr>pg_data := (pg_data db)\<lparr>gd_gates := set_row ?g (pg_data db)\<rparr>\<rparr>"])
      (simp add: gst_CompleteGitHubCheckGate_def, simp add: completed_gate_def Let_def)
qed

lemma timeout_sets:
  assumes db: "healthy db" "gates_inv (pg_data db)" "g \<in> set (gd_gates (pg_data db))" "gt_status g = GatePending"
  shows "sets_row g (gst_TimeoutGitHubCheckGate (gt_id g) at) (\<lambda>g'. gt_status g' = GateTimedOut) db"
proof -
  have st: "terminalGitHubCheckGateStatus GateTimedOut" by (simp add: terminalGitHubCheckGateStatus_def)
  have "sets_row g (gst_CompleteGitHubCheckGate (gt_id g) GateTimedOut x at) (\<lambda>g'. gt_status g' = GateTimedOut) db"
    if "rs_reason x = ReasonTimedOut" for x
    by (rule complete_end_sets [OF db st]) (simp add: that ReasonTimedOut_def)
  then show ?thesis
    unfolding sets_row_def gst_TimeoutGitHubCheckGate_def by (simp add: by_id_healthy [OF db(1-3)])
qed

lemma delay_sets:
  assumes db: "healthy db" "gates_inv (pg_data db)" "g \<in> set (gd_gates (pg_data db))" "gt_status g = GatePending"
  shows "sets_row g (gst_DelayGitHubCheckGate (gt_id g) x next_poll at) (\<lambda>g'. gt_next_poll g' = next_poll) db"
proof -
  let ?g = "delayed_gate x next_poll at g"
  have "update_gate (gt_id g) pending_gate (delayed_gate x next_poll at) (pg_data db) =
      (Some ?g, (pg_data db)\<lparr>gd_gates := set_row ?g (pg_data db)\<rparr>)"
    by (rule update_gate_at [OF db(2,3)]) (simp_all add: pending_gate_def db delayed_gate_def)
  then have sql: "delayGitHubCheckGateSQL (gt_id g) x next_poll at (pg_data db) =
      Some (Some ?g, (pg_data db)\<lparr>gd_gates := set_row ?g (pg_data db)\<rparr>)"
    by (simp add: delayGitHubCheckGateSQL_def)
  from update_or_read_healthy [where q = "delayGitHubCheckGateSQL (gt_id g) x next_poll at", OF db(1) sql] db(1) show ?thesis
    unfolding sets_row_def gst_DelayGitHubCheckGate_def
    by (intro exI [of _ ?g] exI [of _ "db\<lparr>pg_data := (pg_data db)\<lparr>gd_gates := set_row ?g (pg_data db)\<rparr>\<rparr>"])
      (simp, simp add: delayed_gate_def)
qed

section \<open>An evaluation\<close>

definition gate_scan_ok :: "'x gate_world \<Rightarrow> bool" where
  "gate_scan_ok w \<longleftrightarrow> healthy (gw_db w) \<and> gates_inv (gate_data w) \<and>
     (\<forall>g\<in>set (gd_gates (gate_data w)). 0 < gt_interval g \<and> int4 (gt_interval g))"

text \<open>The world \<open>w'\<close> has \<open>g'\<close> in place of the row of \<open>g\<close>.\<close>

definition row_set :: "gate \<Rightarrow> gate \<Rightarrow> 'x gate_world \<Rightarrow> 'x gate_world \<Rightarrow> bool" where
  "row_set g g' w w' \<longleftrightarrow> healthy (gw_db w') \<and> gt_id g' = gt_id g \<and> gt_interval g' = gt_interval g \<and> gt_timeout g' = gt_timeout g \<and>
     gd_gates (gate_data w') = set_row g' (gate_data w)"

lemma on_db_sets:
  assumes "sets_row g m Q (gw_db w)"
  shows "\<exists>g' w'. on_db m w = (Inr (g', True), w') \<and> row_set g g' w w' \<and> Q g'"
proof -
  from assms obtain g' db' where "m (gw_db w) = (Inr (g', True), db')" "healthy db'" "gt_id g' = gt_id g"
    "gt_interval g' = gt_interval g" "gt_timeout g' = gt_timeout g" "gd_gates (pg_data db') = set_row g' (pg_data (gw_db w))" "Q g'"
    unfolding sets_row_def by blast
  then show ?thesis by (intro exI [of _ g'] exI [of _ "w\<lparr>gw_db := db'\<rparr>"]) (simp add: on_db_def row_set_def gate_data_def)
qed

lemma only_gate_Inr: "only_gate (Inr (g, b), w) = (Inr g, w)"
  by (simp add: only_gate_def)

lemma result_reason:
  assumes "CheckChange c q x = (Inr r, x')" and "rs_status (settled g now grace r) \<noteq> GatePending"
  shows "terminalGitHubCheckGateStatus (rs_status (settled g now grace r)) \<and> rs_reason (settled g now grace r) \<noteq> []"
proof (cases "rs_status r = GatePending \<and> missingRequiredChecksAreInvalid g r now grace")
  case True
  then show ?thesis by (simp add: settled_def never_ran_def terminalGitHubCheckGateStatus_def ReasonRequiredChecksMissing_def)
next
  case False
  then have eq: "settled g now grace r = r" unfolding settled_def by (rule if_not_P)
  from gh_post_result [OF post_check_change assms(1)] obtain own later earlier where
    J: "judged own later earlier (trimSlice (cq_required q)) r" by blast
  then have "rs_status r = GateFailed \<or> rs_status r = GatePassed"
    using assms(2) eq by (auto simp: judged_def gate_verdict_def split: if_split_asm)
  then have "rs_reason r \<noteq> []" using J by (auto simp: judged_def ReasonChecksFailed_def ReasonChecksPassed_def)
  with \<open>rs_status r = GateFailed \<or> rs_status r = GatePassed\<close> eq show ?thesis
    by (auto simp: terminalGitHubCheckGateStatus_def)
qed

text \<open>The gate has ended, or waits for a later time before its deadline.\<close>

definition moved_on :: "time \<Rightarrow> gate \<Rightarrow> bool" where
  "moved_on now g \<longleftrightarrow> gt_status g \<noteq> GatePending \<or> now < gt_timeout g \<and> now < gt_next_poll g"

lemma moved_on_due: "moved_on now g \<Longrightarrow> since \<le> now \<Longrightarrow> \<not> due since g"
  by (auto simp: moved_on_def due_def)

lemma evaluate_leaves:
  assumes ok: "gate_scan_ok w" and g: "g \<in> set (gd_gates (gate_data w))" "due now g"
    and clock: "gx_clock env (gw_rest w) = now"
  shows "\<exists>g' w'. gv_evaluateGitHubCheckGate (pg_gate_service env) (provider_of c) g w = (Inr g', w') \<and>
    row_set g g' w w' \<and> moved_on now g'"
proof -
  have p: "gt_status g = GatePending" using g(2) by (simp add: due_def)
  have db: "healthy (gw_db w)" "gates_inv (pg_data (gw_db w))" "g \<in> set (gd_gates (pg_data (gw_db w)))"
    and interval: "0 < gt_interval g" "int4 (gt_interval g)"
    using ok g(1) by (simp_all add: gate_scan_ok_def gate_data_def)
  have time: "gv_clock (pg_gate_service env) w = now" using clock by (simp add: pg_gate_service_def)
  have store: "gv_store (pg_gate_service env) = pg_gate_store" by (simp add: pg_gate_service_def)
  show ?thesis
  proof (cases "now < gt_timeout g")
    case False
    from on_db_sets [OF timeout_sets [OF db p, of now]] obtain g' w' where
      "on_db (gst_TimeoutGitHubCheckGate (gt_id g) now) w = (Inr (g', True), w')" "row_set g g' w w'" "gt_status g' = GateTimedOut" by blast
    moreover from this(3) have "moved_on now g'" by (simp add: moved_on_def gate_states)
    ultimately show ?thesis using False
      by (simp add: gv_evaluateGitHubCheckGate_def time store only_gate_Inr pg_gate_store_def [where 'x = 'a])
  next
    case True
    obtain a x' where a: "CheckChange c (githubChangeQuery (gx_options env) g) (gw_rest w) = (a, x')" by fastforce
    let ?w = "w\<lparr>gw_rest := x'\<rparr>"
    have check: "cp_CheckChange (provider_of c) (githubChangeQuery (gv_options (pg_gate_service env)) g) w = (a, ?w)"
      using a by (simp add: provider_of_def pg_gate_service_def on_rest_def)
    have w: "gw_db ?w = gw_db w" "row_set g g' ?w w' = row_set g g' w w'" for g' w'
      by (simp_all add: row_set_def gate_data_def)
    have delayed: "\<exists>g' w'. on_db (gst_DelayGitHubCheckGate (gt_id g) z np now) ?w = (Inr (g', True), w') \<and> row_set g g' w w' \<and> moved_on now g'"
      if "now < np" for z np
    proof -
      have "sets_row g (gst_DelayGitHubCheckGate (gt_id g) z np now) (\<lambda>g'. gt_next_poll g' = np) (gw_db ?w)"
        unfolding w by (rule delay_sets [OF db p])
      from on_db_sets [OF this] w(2) that True show ?thesis by (fastforce simp: moved_on_def row_set_def)
    qed
    have later: "now < (if now + wrap64 (gt_interval g * second_ns) > gt_timeout g then gt_timeout g else now + wrap64 (gt_interval g * second_ns))"
      using True interval by (simp add: wrap64_id int4_def second_ns_def)
    have err: "\<exists>g' w'. gv_delayAfterError (pg_gate_service env) g e now ?w = (Inr g', w') \<and> row_set g g' w w' \<and> moved_on now g'" for e
      using delayed [OF later, of "waiting_result (''GitHub check polling will retry after a request error: '' @ github_err_text e)"]
      by (auto simp: gv_delayAfterError_def Let_def store pg_gate_store_def)
    have http: "\<exists>g' w'. gv_delayAfterHTTPError (pg_gate_service env) g e now ?w = (Inr g', w') \<and> row_set g g' w w' \<and> moved_on now g'" for e
      using delayed [OF next_poll_later [of now "gt_timeout g" e],
        of "waiting_result (githubHTTPErrorSummary (gv_show_time (pg_gate_service env)) e (nextGitHubHTTPErrorPollAt now (gt_timeout g) e))"]
      by (auto simp: gv_delayAfterHTTPError_def Let_def store pg_gate_store_def only_gate_Inr)
    show ?thesis
    proof (cases a)
      case (Inl e)
      with True err http check show ?thesis
        by (cases e) (simp_all add: gv_evaluateGitHubCheckGate_def time Let_def)
    next
      case (Inr r)
      let ?r = "settled g now (go_grace (gv_options (pg_gate_service env))) r"
      show ?thesis
      proof (cases "rs_status ?r = GatePending")
        case wait: True
        let ?z = "?r\<lparr>rs_failure := [], rs_reason := [], rs_all_terminal := False\<rparr>"
        have "sets_row g (gst_CompleteGitHubCheckGate (gt_id g) GatePending ?z now) (\<lambda>g'. now < gt_next_poll g') (gw_db ?w)"
          unfolding w by (rule complete_wait_sets [OF db p interval])
        from on_db_sets [OF this] obtain g' w' where
          "on_db (gst_CompleteGitHubCheckGate (gt_id g) GatePending ?z now) ?w = (Inr (g', True), w')" "row_set g g' w w'" "now < gt_next_poll g'"
          unfolding w by blast
        moreover from this(2) True have "now < gt_timeout g'" by (simp add: row_set_def)
        ultimately show ?thesis using True check Inr wait
          by (intro exI [of _ g'] exI [of _ w'])
            (simp add: gv_evaluateGitHubCheckGate_def time Let_def store pg_gate_store_def [where 'x = 'a] only_gate_Inr moved_on_def)
      next
        case ends: False
        from result_reason [OF a [unfolded Inr] ends] have R: "terminalGitHubCheckGateStatus (rs_status ?r)" "rs_reason ?r \<noteq> []" by blast+
        have "sets_row g (gst_CompleteGitHubCheckGate (gt_id g) (rs_status ?r) ?r now) (\<lambda>g'. gt_status g' = rs_status ?r) (gw_db ?w)"
          unfolding w by (rule complete_end_sets [OF db p R])
        from on_db_sets [OF this] obtain g' w' where
          "on_db (gst_CompleteGitHubCheckGate (gt_id g) (rs_status ?r) ?r now) ?w = (Inr (g', True), w')" "row_set g g' w w'" "gt_status g' = rs_status ?r"
          unfolding w by blast
        moreover have "rs_status ?r \<noteq> GatePending" by (rule ends)
        ultimately show ?thesis using True check Inr ends
          by (intro exI [of _ g'] exI [of _ w'])
            (simp add: gv_evaluateGitHubCheckGate_def time Let_def store pg_gate_store_def [where 'x = 'a] only_gate_Inr moved_on_def)
      qed
    qed
  qed
qed

section \<open>A scan\<close>

definition due_gates :: "time \<Rightarrow> 'x gate_world \<Rightarrow> gate list" where
  "due_gates now w = filter (due now) (gd_gates (gate_data w))"

lemma due_gates_set: "g \<in> set (due_gates now w) \<longleftrightarrow> g \<in> set (gd_gates (gate_data w)) \<and> due now g"
  by (auto simp: due_gates_def)

lemma row_set_due:
  assumes "row_set g g' w w'" and "\<not> due now g'"
  shows "due_gates now w' = filter (\<lambda>r. gt_id r \<noteq> gt_id g) (due_gates now w)"
proof -
  have "filter (due now) (map (\<lambda>r. if gt_id r = gt_id g then g' else r) rs) = filter (\<lambda>r. gt_id r \<noteq> gt_id g) (filter (due now) rs)" for rs
    using assms(2) by (induction rs) auto
  with assms(1) show ?thesis by (simp add: due_gates_def row_set_def set_row_def)
qed

lemma row_set_ok:
  assumes "gate_scan_ok w" and "row_set g g' w w'" and "g \<in> set (gd_gates (gate_data w))" and "gates_inv (gate_data w')"
  shows "gate_scan_ok w'"
  using assms by (auto simp: gate_scan_ok_def row_set_def set_row_def)

text \<open>
  The environment of a poller: GitHub is configured, and a request to GitHub may take any time but does not turn
  the clock back.
\<close>

definition steady_clock :: "'x gate_env \<Rightarrow> 'x github_client \<Rightarrow> bool" where
  "steady_clock env c \<longleftrightarrow> gx_github env = Some c \<and> (\<forall>q x. gx_clock env x \<le> gx_clock env (snd (gc_do c q x)))"

lemma github_after_clock:
  "github_after c x v \<Longrightarrow> steady_clock env c \<Longrightarrow> gx_clock env x \<le> gx_clock env v"
proof (induction rule: github_after.induct)
  case (after_request v path r v')
  let ?q = "\<lparr>gq_url = gc_base c @ path, gq_authorization = (if gc_token c \<noteq> [] then Some (''Bearer '' @ gc_token c) else None)\<rparr>"
  obtain a u where a: "gc_do c ?q v = (a, u)" by fastforce
  have "snd (getJSON c path v) = u" unfolding getJSON_def a by (simp split: transport.split sum.split)
  with after_request(2) a have "v' = snd (gc_do c ?q v)" by simp
  then have "gx_clock env v \<le> gx_clock env v'" using after_request.prems by (auto simp: steady_clock_def)
  with after_request show ?case by simp
qed simp

lemma check_change_clock:
  assumes "steady_clock env c" shows "gx_clock env x \<le> gx_clock env (snd (CheckChange c q x))"
proof -
  have "github_after c x (snd (CheckChange c q x))"
    using post_check_change [of c x q] after_none [of c x] unfolding gh_post_def by (metis prod.collapse)
  then show ?thesis by (rule github_after_clock [OF _ assms])
qed

text \<open>What a call does to the table and to the script of the driver, whether it fails or not.\<close>

definition tame :: "(gate_tables pg \<Rightarrow> 'r \<times> gate_tables pg) \<Rightarrow> bool" where
  "tame m \<longleftrightarrow> (\<forall>db. gt_interval ` set (gd_gates (pg_data (snd (m db)))) \<subseteq> gt_interval ` set (gd_gates (pg_data db)) \<and>
     length (pg_faults (snd (m db))) \<le> length (pg_faults db))"

lemma pg_call_script: "length (pg_faults (snd (pg_call q db))) = length (pg_faults db) - 1"
  by (simp add: pg_call_def Let_def split: option.split)

lemma tame_query_gate:
  assumes "\<And>d x d'. q d = Some (x, d') \<Longrightarrow> gt_interval ` set (gd_gates d') \<subseteq> gt_interval ` set (gd_gates d)" and "tame none"
  shows "tame (query_gate ctx q found none)"
  unfolding tame_def
proof
  fix db
  have l: "length (pg_faults (snd (pg_call q db))) \<le> length (pg_faults db)" by (simp add: pg_call_script)
  have n: "gt_interval ` set (gd_gates (pg_data (snd (none x)))) \<subseteq> gt_interval ` set (gd_gates (pg_data x))"
    "length (pg_faults (snd (none x))) \<le> length (pg_faults x)" for x
    using assms(2) by (simp_all add: tame_def)
  show "gt_interval ` set (gd_gates (pg_data (snd (query_gate ctx q found none db)))) \<subseteq> gt_interval ` set (gd_gates (pg_data db)) \<and>
     length (pg_faults (snd (query_gate ctx q found none db))) \<le> length (pg_faults db)"
  proof (cases q db rule: pg_call_cases)
    case (fail db')
    with l show ?thesis by (simp add: query_gate_def)
  next
    case (ok x db')
    have out: "query_gate ctx q found none db = (case x of None \<Rightarrow> none db' | Some g \<Rightarrow> (Inr (found g), db'))"
      using ok(1) by (simp add: query_gate_def split: option.split)
    have "length (pg_faults db') \<le> length (pg_faults db)" using l ok(1) by simp
    with order_trans [OF n(1) assms(1) [OF ok(2)]] order_trans [OF n(2)] assms(1) [OF ok(2)] show ?thesis
      unfolding out by (cases x) simp_all
  qed
qed

lemma tame_fail: "tame (gst_fail e)"
  by (simp add: tame_def gst_fail_def)

lemma tame_by_id: "tame (gst_getGitHubCheckGateByID i)"
  unfolding gst_getGitHubCheckGateByID_def
  by (rule tame_query_gate) (auto simp: getGitHubCheckGateSQL_def read_only_def tame_fail)

lemma tame_update_or_read:
  assumes "\<And>d x d'. q d = Some (x, d') \<Longrightarrow> gt_interval ` set (gd_gates d') \<subseteq> gt_interval ` set (gd_gates d)"
  shows "tame (update_or_read ctx q i)"
  unfolding update_or_read_def
proof (rule tame_query_gate [OF assms])
  show "tame (\<lambda>db. case gst_getGitHubCheckGateByID i db of (Inl e, db') \<Rightarrow> (Inl e, db') | (Inr g, db') \<Rightarrow> (Inr (g, False), db'))"
    using tame_by_id [of i] by (simp add: tame_def split: prod.split sum.split) (metis snd_conv)
qed

lemma update_gate_intervals:
  "update_gate i P f d = (x, d') \<Longrightarrow> (\<And>g. gt_interval (f g) = gt_interval g) \<Longrightarrow>
     gt_interval ` set (gd_gates d') \<subseteq> gt_interval ` set (gd_gates d)"
  by (auto simp: update_gate_def update_where_def split: option.split_asm if_split_asm)

lemma tame_complete: "tame (gst_CompleteGitHubCheckGate i status r at)"
proof -
  have "gt_interval ` set (gd_gates d') \<subseteq> gt_interval ` set (gd_gates d)"
    if "completeGitHubCheckGateSQL i status r at np d = Some (x, d')" for np d x d'
  proof -
    obtain y d1 where u: "update_gate i pending_gate (completed_gate status r at np) d = (y, d1)" by fastforce
    have "gd_gates d' = gd_gates d1"
      using that u insert_event_gates by (fastforce simp: completeGitHubCheckGateSQL_def split: option.split_asm if_split_asm)
    with update_gate_intervals [OF u] show ?thesis by (simp add: completed_gate_def Let_def)
  qed
  then have u: "tame (update_or_read ctx (completeGitHubCheckGateSQL i status r at np) i)" for ctx np
    by (rule tame_update_or_read)
  have "gt_interval ` set (gd_gates (pg_data (snd (gst_CompleteGitHubCheckGate i status r at db)))) \<subseteq> gt_interval ` set (gd_gates (pg_data db)) \<and>
     length (pg_faults (snd (gst_CompleteGitHubCheckGate i status r at db))) \<le> length (pg_faults db)" for db
  proof (cases "status = GatePending")
    case True
    obtain a db1 where a: "gst_getGitHubCheckGateByID i db = (a, db1)" by fastforce
    have 1: "gt_interval ` set (gd_gates (pg_data db1)) \<subseteq> gt_interval ` set (gd_gates (pg_data db))" "length (pg_faults db1) \<le> length (pg_faults db)"
      using tame_by_id [of i] a unfolding tame_def by (metis snd_conv)+
    show ?thesis
    proof (cases a)
      case (Inl e)
      with 1 a True show ?thesis by (simp add: gst_CompleteGitHubCheckGate_def)
    next
      case (Inr g)
      have e: "gst_CompleteGitHubCheckGate i status r at db =
          update_or_read ''completing github check gate: '' (completeGitHubCheckGateSQL i status r at (at + wrap64 (gt_interval g * second_ns))) i db1"
        using a Inr True by (simp add: gst_CompleteGitHubCheckGate_def)
      from u [of "''completing github check gate: ''" "at + wrap64 (gt_interval g * second_ns)"] 1 show ?thesis
        unfolding e tame_def by (meson order_trans)
    qed
  next
    case False
    with u [of "''completing github check gate: ''" at] show ?thesis by (simp add: gst_CompleteGitHubCheckGate_def tame_def)
  qed
  then show ?thesis by (simp add: tame_def)
qed

lemma tame_delay: "tame (gst_DelayGitHubCheckGate i r np at)"
  unfolding gst_DelayGitHubCheckGate_def
  by (rule tame_update_or_read) (auto simp: delayGitHubCheckGateSQL_def delayed_gate_def dest!: update_gate_intervals [THEN subsetD])

lemma tame_timeout: "tame (gst_TimeoutGitHubCheckGate i at)"
  unfolding tame_def
proof
  fix db
  obtain a db1 where a: "gst_getGitHubCheckGateByID i db = (a, db1)" by fastforce
  have 1: "gt_interval ` set (gd_gates (pg_data db1)) \<subseteq> gt_interval ` set (gd_gates (pg_data db))" "length (pg_faults db1) \<le> length (pg_faults db)"
    using tame_by_id [of i] a unfolding tame_def by (metis snd_conv)+
  show "gt_interval ` set (gd_gates (pg_data (snd (gst_TimeoutGitHubCheckGate i at db)))) \<subseteq> gt_interval ` set (gd_gates (pg_data db)) \<and>
     length (pg_faults (snd (gst_TimeoutGitHubCheckGate i at db))) \<le> length (pg_faults db)"
  proof (cases a)
    case (Inl e)
    with 1 a show ?thesis by (simp add: gst_TimeoutGitHubCheckGate_def)
  next
    case (Inr g)
    with a obtain z where e: "gst_TimeoutGitHubCheckGate i at db = gst_CompleteGitHubCheckGate i GateTimedOut z at db1"
      by (simp add: gst_TimeoutGitHubCheckGate_def)
    from tame_complete [of i GateTimedOut z at] 1 show ?thesis unfolding e tame_def by (meson order_trans)
  qed
qed

text \<open>The same for an operation of the service, with what it does to the clock.\<close>

definition tamed :: "'x gate_env \<Rightarrow> 'x gate_world \<Rightarrow> 'x gate_world \<Rightarrow> bool" where
  "tamed env w w' \<longleftrightarrow> gt_interval ` set (gd_gates (gate_data w')) \<subseteq> gt_interval ` set (gd_gates (gate_data w)) \<and>
     length (pg_faults (gw_db w')) \<le> length (pg_faults (gw_db w)) \<and> gx_clock env (gw_rest w) \<le> gx_clock env (gw_rest w')"

lemma tamed_refl: "tamed env w w"
  by (simp add: tamed_def)

lemma tamed_trans: "tamed env u v \<Longrightarrow> tamed env v w \<Longrightarrow> tamed env u w"
  unfolding tamed_def by (meson order_trans)

lemma tamed_on_db: "tame m \<Longrightarrow> tamed env w (snd (on_db m w))"
  by (simp add: tamed_def tame_def on_db_def gate_data_def split: prod.split) (metis snd_conv)

lemma evaluate_tamed:
  assumes "steady_clock env c"
  shows "tamed env w (snd (gv_evaluateGitHubCheckGate (pg_gate_service env) (provider_of c) g w))"
proof -
  let ?s = "pg_gate_service env"
  have store: "gv_store ?s = pg_gate_store" by (simp add: pg_gate_service_def)
  have complete: "tamed env v (snd (only_gate (gs_Complete pg_gate_store (gt_id g) st r at v)))" for v st r at
    using tamed_on_db [OF tame_complete, of env v "gt_id g" st r at] by (simp add: pg_service.only_gate_snd pg_gate_store_def)
  have timeout: "tamed env w (snd (only_gate (gs_Timeout pg_gate_store (gt_id g) at w)))" for at
    using tamed_on_db [OF tame_timeout, of env w "gt_id g" at] by (simp add: pg_service.only_gate_snd pg_gate_store_def)
  have delay: "tamed env v (snd (gs_Delay pg_gate_store (gt_id g) r np at v))" for v r np at
    using tamed_on_db [OF tame_delay, of env v "gt_id g" r np at] by (simp add: pg_gate_store_def)
  have http: "tamed env v (snd (gv_delayAfterHTTPError ?s g e at v))" for e at v
    using delay by (simp add: gv_delayAfterHTTPError_def Let_def store pg_service.only_gate_snd)
  have err: "tamed env v (snd (gv_delayAfterError ?s g e at v))" for e at v
  proof -
    have "\<exists>r np. snd (gv_delayAfterError ?s g e at v) = snd (gs_Delay pg_gate_store (gt_id g) r np at v)"
    proof -
      have "snd (case a of (Inl x, w) \<Rightarrow> (Inl (f x), w) | (Inr (h, b), w) \<Rightarrow> (Inr h, w)) = snd a"
        for a :: "(go_err + gate \<times> bool) \<times> 'a gate_world" and f :: "go_err \<Rightarrow> go_err"
        by (simp split: prod.split sum.split)
      then show ?thesis unfolding gv_delayAfterError_def Let_def store by metis
    qed
    with delay show ?thesis by metis
  qed
  obtain a x where a: "CheckChange c (githubChangeQuery (gv_options ?s) g) (gw_rest w) = (a, x)" by fastforce
  let ?w = "w\<lparr>gw_rest := x\<rparr>"
  have check: "cp_CheckChange (provider_of c) (githubChangeQuery (gv_options ?s) g) w = (a, ?w)"
    using a by (simp add: provider_of_def on_rest_def)
  have w: "tamed env w ?w"
    using check_change_clock [OF assms, of "gw_rest w" "githubChangeQuery (gv_options ?s) g"] a by (simp add: tamed_def gate_data_def)
  show ?thesis
  proof (cases "gv_clock ?s w < gt_timeout g")
    case False
    then show ?thesis using timeout by (simp add: gv_evaluateGitHubCheckGate_def Let_def store)
  next
    case True
    have "tamed env ?w (snd (gv_evaluateGitHubCheckGate ?s (provider_of c) g w))"
    proof (cases a)
      case (Inl e)
      with True check http err show ?thesis by (cases e) (simp_all add: gv_evaluateGitHubCheckGate_def Let_def)
    next
      case (Inr r)
      with True check complete store show ?thesis by (simp add: gv_evaluateGitHubCheckGate_def Let_def)
    qed
    with w show ?thesis by (rule tamed_trans)
  qed
qed

text \<open>
  What is left to do: a pending gate can be found due at most once at each instant from its next poll to its
  deadline, and once more to time out.
\<close>

definition left_to_do :: "gate \<Rightarrow> nat" where
  "left_to_do g = (if gt_status g = GatePending then Suc (nat (gt_timeout g - gt_next_poll g)) else 0)"

definition scan_work :: "'x gate_world \<Rightarrow> nat" where
  "scan_work w = sum_list (map left_to_do (gd_gates (gate_data w)))"

lemma moved_on_less:
  assumes "due now g" and "moved_on now g'" and "gt_timeout g' = gt_timeout g"
  shows "left_to_do g' < left_to_do g"
  using assms by (auto simp: due_def moved_on_def left_to_do_def)

lemma row_set_work:
  assumes "row_set g g' w w'" and "gates_inv (gate_data w)" and "g \<in> set (gd_gates (gate_data w))" and "left_to_do g' < left_to_do g"
  shows "scan_work w' < scan_work w"
proof -
  have "sum_list (map left_to_do (map (\<lambda>r. if gt_id r = gt_id g then g' else r) rs)) < sum_list (map left_to_do rs)"
    if "g \<in> set rs" "distinct (map gt_id rs)" for rs
    using that
  proof (induction rs)
    case (Cons r rs)
    show ?case
    proof (cases "r = g")
      case True
      with Cons.prems(2) have "map (\<lambda>r. if gt_id r = gt_id g then g' else r) rs = rs"
        by (intro map_idI) (metis distinct.simps(2) image_eqI list.set_map list.simps(9))
      with True assms(4) show ?thesis by simp
    next
      case False
      with Cons have "g \<in> set rs" by auto
      with Cons.prems(2) have "gt_id r \<noteq> gt_id g" by auto
      with Cons \<open>g \<in> set rs\<close> show ?thesis by simp
    qed
  qed simp
  with assms(1-3) show ?thesis by (simp add: scan_work_def row_set_def set_row_def gates_inv_def)
qed

lemma evaluate_step:
  assumes env: "steady_clock env c" and ok: "gate_scan_ok w" and g: "g \<in> set (due_gates since w)"
    and since: "since \<le> gx_clock env (gw_rest w)"
  shows "\<exists>g' w'. gv_evaluateGitHubCheckGate (pg_gate_service env) (provider_of c) g w = (Inr g', w') \<and> gate_scan_ok w' \<and>
    due_gates since w' = filter (\<lambda>r. gt_id r \<noteq> gt_id g) (due_gates since w) \<and> scan_work w' < scan_work w \<and>
    since \<le> gx_clock env (gw_rest w')"
proof -
  let ?now = "gx_clock env (gw_rest w)"
  from g have g: "g \<in> set (gd_gates (gate_data w))" "due since g" by (simp_all add: due_gates_set)
  with since have now: "due ?now g" by (simp add: due_def)
  from evaluate_leaves [OF ok g(1) now refl, of c] obtain g' w' where
    e: "gv_evaluateGitHubCheckGate (pg_gate_service env) (provider_of c) g w = (Inr g', w')" "row_set g g' w w'" "moved_on ?now g'" by blast
  have "gv_checks (pg_gate_service env) = Some (provider_of c)" using env by (simp add: pg_gate_service_def steady_clock_def)
  then have "gate_steps (gate_data w) (gate_data w')" by (rule pg_service.evaluate_steps [OF _ e(1)])
  then have "gates_inv (gate_data w')" using gate_steps_keep ok by (auto simp: gate_scan_ok_def)
  then have "gate_scan_ok w'" by (rule row_set_ok [OF ok e(2) g(1)])
  moreover have "scan_work w' < scan_work w"
  proof (rule row_set_work [OF e(2) _ g(1)])
    show "gates_inv (gate_data w)" using ok by (simp add: gate_scan_ok_def)
    show "left_to_do g' < left_to_do g" by (rule moved_on_less [OF now e(3)]) (use e(2) in \<open>simp add: row_set_def\<close>)
  qed
  moreover have "since \<le> gx_clock env (gw_rest w')"
    using evaluate_tamed [OF env, of w g] since e(1) by (simp add: tamed_def)
  ultimately show ?thesis using e(1) row_set_due [OF e(2) moved_on_due [OF e(3) since]] by blast
qed

lemma each_evaluates:
  assumes env: "steady_clock env c"
  shows "gate_scan_ok w \<Longrightarrow> set gs \<subseteq> set (due_gates since w) \<Longrightarrow> distinct (map gt_id gs) \<Longrightarrow> since \<le> gx_clock env (gw_rest w) \<Longrightarrow>
    \<exists>w'. each_gate (gv_evaluateGitHubCheckGate (pg_gate_service env) (provider_of c)) gs w = ([], w') \<and> gate_scan_ok w' \<and>
      due_gates since w' = filter (\<lambda>r. gt_id r \<notin> gt_id ` set gs) (due_gates since w) \<and>
      (gs \<noteq> [] \<longrightarrow> scan_work w' < scan_work w) \<and> since \<le> gx_clock env (gw_rest w')"
proof (induction gs arbitrary: w)
  case Nil
  then show ?case by simp
next
  case (Cons g gs)
  from Cons.prems(2) have g: "g \<in> set (due_gates since w)" by simp
  from evaluate_step [OF env Cons.prems(1) g Cons.prems(4)] obtain g' w1 where
    e: "gv_evaluateGitHubCheckGate (pg_gate_service env) (provider_of c) g w = (Inr g', w1)" "gate_scan_ok w1"
      "due_gates since w1 = filter (\<lambda>r. gt_id r \<noteq> gt_id g) (due_gates since w)" "scan_work w1 < scan_work w"
      "since \<le> gx_clock env (gw_rest w1)" by blast
  have "gt_id g \<notin> gt_id ` set gs" using Cons.prems(3) by simp
  then have "gt_id x \<noteq> gt_id g" if "x \<in> set gs" for x using that by (metis image_eqI)
  then have "set gs \<subseteq> set (due_gates since w1)" using Cons.prems(2) by (auto simp: e(3))
  with Cons.IH [OF e(2) _ _ e(5)] Cons.prems(3) obtain w' where
    w': "each_gate (gv_evaluateGitHubCheckGate (pg_gate_service env) (provider_of c)) gs w1 = ([], w')" "gate_scan_ok w'"
      "due_gates since w' = filter (\<lambda>r. gt_id r \<notin> gt_id ` set gs) (due_gates since w1)"
      "gs \<noteq> [] \<longrightarrow> scan_work w' < scan_work w1" "since \<le> gx_clock env (gw_rest w')" by auto
  have "due_gates since w' = filter (\<lambda>r. gt_id r \<notin> gt_id ` set (g # gs)) (due_gates since w)"
    unfolding w'(3) e(3) filter_filter by (rule filter_cong) auto
  moreover have "scan_work w' < scan_work w" using w'(1,4) e(4) by (cases "gs = []") auto
  ultimately show ?case using w' e(1) by simp
qed

lemma list_due:
  assumes ok: "gate_scan_ok w" and "0 < limit"
  shows "\<exists>gs. gs_ListPending pg_gate_store now limit w = (Inr gs, w) \<and> set gs \<subseteq> set (due_gates now w) \<and> distinct (map gt_id gs) \<and>
    (gs = [] \<longrightarrow> due_gates now w = []) \<and> (int (length gs) < limit \<longrightarrow> set gs = set (due_gates now w))"
proof -
  let ?s = "sort_key (\<lambda>g. (gt_next_poll g, gt_id g)) (due_gates now w)"
  let ?gs = "take (nat limit) ?s"
  from ok have h: "healthy (gw_db w)" by (simp add: gate_scan_ok_def)
  have sql: "listPendingGitHubCheckGatesSQL now limit (pg_data (gw_db w)) = Some (?gs, pg_data (gw_db w))"
    using assms(2) by (simp add: listPendingGitHubCheckGatesSQL_def limit_gates_def due_gates_def gate_data_def)
  have l: "gs_ListPending pg_gate_store now limit w = (Inr ?gs, w)"
    using pg_call_healthy [where q = "listPendingGitHubCheckGatesSQL now limit", OF h sql] read_healthy [OF h, of "\<lambda>_. ()"]
    by (simp add: pg_gate_store_def on_db_def gst_ListPendingGitHubCheckGates_def gate_rows_def)
  have sub: "set ?gs \<subseteq> set (due_gates now w)" using set_take_subset [of "nat limit" ?s] by simp
  have "distinct (map gt_id (due_gates now w))"
    using ok by (simp add: gate_scan_ok_def gates_inv_def due_gates_def distinct_map_filter)
  then have "inj_on gt_id (set (due_gates now w))" "distinct (due_gates now w)" by (simp_all add: distinct_map)
  with sub have dist: "distinct (map gt_id ?gs)" by (auto simp: distinct_map intro: inj_on_subset)
  have "?gs = [] \<longrightarrow> due_gates now w = []" using assms(2) by (metis length_greater_0_conv length_sort nat_0_iff not_le take_eq_Nil)
  moreover have "int (length ?gs) < limit \<longrightarrow> set ?gs = set (due_gates now w)" using assms(2) by (auto simp: min_def split: if_split_asm)
  ultimately show ?thesis using l sub dist by blast
qed

lemma scan_drains:
  assumes env: "steady_clock env c" and limit: "0 < limit"
  shows "gate_scan_ok w \<Longrightarrow> since \<le> gx_clock env (gw_rest w) \<Longrightarrow>
    \<exists>w'. scan_due (pg_gate_service env) (provider_of c) limit errs w = Some (Inr errs, w') \<and> gate_scan_ok w' \<and> due_gates since w' = []"
proof (induction "scan_work w" arbitrary: w rule: less_induct)
  case less
  let ?scan = "scan_due (pg_gate_service env) (provider_of c) limit errs" and ?now = "gx_clock env (gw_rest w)"
  have clock: "gv_clock (pg_gate_service env) w = ?now" and store: "gv_store (pg_gate_service env) = pg_gate_store"
    by (simp_all add: pg_gate_service_def)
  from list_due [OF less.prems(1) limit, of ?now] obtain gs where gs: "gs_ListPending pg_gate_store ?now limit w = (Inr gs, w)"
    "set gs \<subseteq> set (due_gates ?now w)" "distinct (map gt_id gs)" "gs = [] \<longrightarrow> due_gates ?now w = []"
    "int (length gs) < limit \<longrightarrow> set gs = set (due_gates ?now w)" by blast
  have earlier: "due_gates since v = []" if "due_gates ?now v = []" for v :: "'a gate_world"
    using that less.prems(2) by (auto simp: due_gates_def filter_empty_conv due_def)
  show ?case
  proof (cases "gs = []")
    case True
    with gs less.prems earlier show ?thesis by (subst scan_due.simps) (simp add: clock store)
  next
    case False
    from each_evaluates [OF env less.prems(1) gs(2,3) order_refl] False obtain w1 where
      w1: "each_gate (gv_evaluateGitHubCheckGate (pg_gate_service env) (provider_of c)) gs w = ([], w1)" "gate_scan_ok w1"
        "due_gates ?now w1 = filter (\<lambda>r. gt_id r \<notin> gt_id ` set gs) (due_gates ?now w)" "scan_work w1 < scan_work w"
        "?now \<le> gx_clock env (gw_rest w1)" by blast
    have eq: "?scan w = (if int (length gs) < limit then Some (Inr errs, w1) else ?scan w1)"
      by (subst scan_due.simps) (simp add: clock store gs(1) False w1(1))
    show ?thesis
    proof (cases "int (length gs) < limit")
      case True
      with gs(5) w1(3) have "due_gates ?now w1 = []" by simp
      with eq True w1(2) earlier show ?thesis by simp
    next
      case more: False
      have "since \<le> gx_clock env (gw_rest w1)" using less.prems(2) w1(5) by simp
      from less.hyps [OF w1(4) w1(2) this] eq more show ?thesis by simp
    qed
  qed
qed

text \<open>A driver that fails now and then cannot keep the scan going: each turn of the loop uses up a call of its script.\<close>

definition gate_rows_ok :: "'x gate_world \<Rightarrow> bool" where
  "gate_rows_ok w \<longleftrightarrow> gates_inv (gate_data w) \<and> (\<forall>g\<in>set (gd_gates (gate_data w)). 0 < gt_interval g \<and> int4 (gt_interval g))"

lemma tamed_rows_ok:
  assumes "tamed env w w'" and "gate_rows_ok w" and "gates_inv (gate_data w')"
  shows "gate_rows_ok w'"
proof -
  have "gt_interval g \<in> gt_interval ` set (gd_gates (gate_data w))" if "g \<in> set (gd_gates (gate_data w'))" for g
    using that assms(1) by (auto simp: tamed_def)
  with assms(2,3) show ?thesis unfolding gate_rows_ok_def by fastforce
qed

lemma each_tamed:
  assumes env: "steady_clock env c"
  shows "gate_rows_ok w \<Longrightarrow> each_gate (gv_evaluateGitHubCheckGate (pg_gate_service env) (provider_of c)) gs w = (es, w') \<Longrightarrow>
    gate_rows_ok w' \<and> tamed env w w'"
proof (induction gs arbitrary: w es)
  case Nil
  then show ?case by (simp add: tamed_refl)
next
  case (Cons g gs)
  obtain a w1 where a: "gv_evaluateGitHubCheckGate (pg_gate_service env) (provider_of c) g w = (a, w1)" by fastforce
  have t: "tamed env w w1" using evaluate_tamed [OF env, of w g] a by simp
  have "gv_checks (pg_gate_service env) = Some (provider_of c)" using env by (simp add: pg_gate_service_def steady_clock_def)
  then have "gate_steps (gate_data w) (gate_data w1)" by (rule pg_service.evaluate_steps [OF _ a])
  then have "gates_inv (gate_data w1)" using gate_steps_keep Cons.prems(1) by (auto simp: gate_rows_ok_def)
  then have ok: "gate_rows_ok w1" by (rule tamed_rows_ok [OF t Cons.prems(1)])
  obtain es1 where "each_gate (gv_evaluateGitHubCheckGate (pg_gate_service env) (provider_of c)) gs w1 = (es1, w')"
    using Cons.prems(2) a by (auto split: sum.split_asm prod.split_asm)
  from Cons.IH [OF ok this] tamed_trans [OF t] show ?case by blast
qed

lemma list_script:
  assumes "gs_ListPending pg_gate_store now limit w = (r, w1)" and "pg_faults (gw_db w) \<noteq> []"
  shows "gate_data w1 = gate_data w" and "gw_rest w1 = gw_rest w" and "length (pg_faults (gw_db w1)) < length (pg_faults (gw_db w))"
proof -
  show "gate_data w1 = gate_data w" using assms(1) by (rule pg_gates.pending)
  show "gw_rest w1 = gw_rest w" using assms(1) by (auto simp: pg_gate_store_def on_db_def split: prod.split_asm)
  have "length (pg_faults (snd (gate_rows ctx q db))) \<le> length (pg_faults db) - 1" for ctx and q :: "(gate_tables, gate list) stmt" and db
  proof -
    obtain b db1 where b: "pg_call q db = (b, db1)" by fastforce
    obtain b' db2 where b': "pg_call (read_only (\<lambda>_. ())) db1 = (b', db2)" by fastforce
    have "length (pg_faults db1) = length (pg_faults db) - 1" "length (pg_faults db2) \<le> length (pg_faults db1)"
      using pg_call_script [of q db] pg_call_script [of "read_only (\<lambda>_. ())" db1] b b' by simp_all
    moreover have "snd (gate_rows ctx q db) \<in> {db1, db2}" using b b' by (simp add: gate_rows_def split: sum.split)
    ultimately show ?thesis by auto
  qed
  from this [of "''listing pending github check gates: ''" "listPendingGitHubCheckGatesSQL now limit" "gw_db w"] assms
  show "length (pg_faults (gw_db w1)) < length (pg_faults (gw_db w))"
    by (auto simp: pg_gate_store_def on_db_def gst_ListPendingGitHubCheckGates_def split: prod.split_asm)
      (metis Suc_pred le_imp_less_Suc length_greater_0_conv snd_conv)
qed

lemma scan_returns:
  assumes env: "steady_clock env c" and limit: "0 < limit"
  shows "gate_rows_ok w \<Longrightarrow> \<exists>r w'. scan_due (pg_gate_service env) (provider_of c) limit errs w = Some (r, w')"
proof (induction "length (pg_faults (gw_db w))" arbitrary: w errs rule: less_induct)
  case less
  show ?case
  proof (cases "pg_faults (gw_db w) = []")
    case True
    with less.prems have "gate_scan_ok w" by (simp add: gate_rows_ok_def gate_scan_ok_def)
    from scan_drains [OF env limit this order_refl] show ?thesis by blast
  next
    case False
    let ?now = "gv_clock (pg_gate_service env) w"
    have store: "gv_store (pg_gate_service env) = pg_gate_store" by (simp add: pg_gate_service_def)
    obtain a w1 where a: "gs_ListPending pg_gate_store ?now limit w = (a, w1)" by fastforce
    note l = list_script [OF a False]
    have w1: "gate_rows_ok w1" using less.prems l(1) by (simp add: gate_rows_ok_def)
    show ?thesis
    proof (cases a)
      case (Inl e)
      with a show ?thesis by (subst scan_due.simps) (simp add: store)
    next
      case (Inr gs)
      obtain es w2 where es: "each_gate (gv_evaluateGitHubCheckGate (pg_gate_service env) (provider_of c)) gs w1 = (es, w2)" by fastforce
      from each_tamed [OF env w1 es] have w2: "gate_rows_ok w2" "length (pg_faults (gw_db w2)) < length (pg_faults (gw_db w))"
        using l(3) by (auto simp: tamed_def)
      from less.hyps [OF w2(2,1), of "errs @ es"] a Inr es show ?thesis
        by (subst scan_due.simps) (simp add: store)
    qed
  qed
qed

section \<open>The evidence after a scan\<close>

lemma post_quiet:
  assumes none: "due_gates now w = []"
  shows "snd (on_db (gst_MarkGitHubCheckGateEvidencePosted i m at) w) = w1 \<Longrightarrow> due_gates now w1 = []"
    and "snd (on_db (gst_RecordGitHubCheckGateEvidenceError i err at) w) = w1 \<Longrightarrow> due_gates now w1 = []"
proof -
  have quiet: "due_gates now w1 = []" if out: "snd (on_db (query_gate ctx q id (gst_fail e)) w) = w1"
    and q: "\<And>d x d'. q d = Some (x, d') \<Longrightarrow> filter (due now) (gd_gates d) = [] \<Longrightarrow> filter (due now) (gd_gates d') = []" for ctx q e
  proof (cases q "gw_db w" rule: pg_call_cases)
    case (fail db')
    with out none show ?thesis by (auto simp: on_db_def query_gate_def due_gates_def gate_data_def)
  next
    case (ok x db')
    with out none q [OF ok(2)] show ?thesis
      by (auto simp: on_db_def query_gate_def gst_fail_def due_gates_def gate_data_def split: option.split_asm)
  qed
  have row: "filter (due now) (gd_gates d') = []"
    if "update_gate i (\<lambda>_. True) f d = (x, d')" "filter (due now) (gd_gates d) = []"
      and f: "\<And>g. gt_status (f g) = gt_status g \<and> gt_next_poll (f g) = gt_next_poll g" for f d x d'
    using that by (auto simp: update_gate_def update_where_def filter_empty_conv due_def split: option.split_asm)
  show "snd (on_db (gst_MarkGitHubCheckGateEvidencePosted i m at) w) = w1 \<Longrightarrow> due_gates now w1 = []"
    unfolding gst_MarkGitHubCheckGateEvidencePosted_def
    by (erule quiet) (auto simp: markGitHubCheckGateEvidencePostedSQL_def posted_gate_def intro: row [of "posted_gate m at"])
  show "snd (on_db (gst_RecordGitHubCheckGateEvidenceError i err at) w) = w1 \<Longrightarrow> due_gates now w1 = []"
    unfolding gst_RecordGitHubCheckGateEvidenceError_def
    by (erule quiet) (auto simp: recordGitHubCheckGateEvidenceErrorSQL_def evidence_error_gate_def intro: row [of "evidence_error_gate err at"])
qed

lemma deliver_quiet:
  assumes none: "due_gates now w = []"
  shows "due_gates now (snd (gv_deliverGitHubCheckGateEvidence (pg_gate_service env) g w)) = []"
proof -
  obtain a w1 where a: "gv_append (pg_gate_service env) (gt_project g) (evidence_request g) w = (a, w1)" by fastforce
  have "due_gates now w1 = due_gates now w" using pg_service.append [OF a] by (simp add: due_gates_def)
  with none have w1: "due_gates now w1 = []" by simp
  have store: "gv_store (pg_gate_service env) = pg_gate_store" by (simp add: pg_gate_service_def)
  show ?thesis
  proof (cases "gt_evidence g = EvidencePosted")
    case True
    with none show ?thesis by (simp add: gv_deliverGitHubCheckGateEvidence_def)
  next
    case False
    show ?thesis
    proof (cases a)
      case (Inl e)
      obtain b w2 where b: "on_db (gst_RecordGitHubCheckGateEvidenceError (gt_id g) (err_text e) (gv_clock (pg_gate_service env) w1)) w1 = (b, w2)" by fastforce
      then have "due_gates now w2 = []" using post_quiet(2) [OF w1] by (metis snd_conv)
      with False a b Inl show ?thesis
        by (simp add: gv_deliverGitHubCheckGateEvidence_def store pg_gate_store_def split: sum.split)
    next
      case (Inr m)
      obtain b w2 where b: "on_db (gst_MarkGitHubCheckGateEvidencePosted (gt_id g) m (gv_clock (pg_gate_service env) w1)) w1 = (b, w2)" by fastforce
      then have "due_gates now w2 = []" using post_quiet(1) [OF w1] by (metis snd_conv)
      with False a b Inr show ?thesis
        by (simp add: gv_deliverGitHubCheckGateEvidence_def store pg_gate_store_def split: sum.split)
    qed
  qed
qed

lemma retry_quiet:
  assumes none: "due_gates now w = []"
  shows "due_gates now (snd (gv_RetryGitHubCheckGateEvidence (pg_gate_service env) limit w)) = []"
proof -
  have each: "due_gates now w = [] \<Longrightarrow> due_gates now (snd (each_gate (gv_deliverGitHubCheckGateEvidence (pg_gate_service env)) gs w)) = []" for gs w
  proof (induction gs arbitrary: w)
    case (Cons g gs)
    obtain r w1 where r: "gv_deliverGitHubCheckGateEvidence (pg_gate_service env) g w = (r, w1)" by fastforce
    with deliver_quiet [OF Cons.prems, of env g] have "due_gates now w1 = []" by simp
    from Cons.IH [OF this] r show ?case by (auto simp: Let_def split: sum.split prod.split)
  qed simp
  obtain a w1 where a: "gs_ListEvidence pg_gate_store (batch limit) w = (a, w1)" by fastforce
  have "due_gates now w1 = due_gates now w" using pg_gates.evidence [OF a] by (simp add: due_gates_def)
  with none a each [of w1] show ?thesis
    by (auto simp: gv_RetryGitHubCheckGateEvidence_def pg_gate_service_def split: sum.split)
qed

lemma poll_returns:
  assumes env: "steady_clock env c" and ok: "gate_rows_ok w"
  shows "\<exists>errs w'. gv_PollGitHubCheckGates (pg_gate_service env) limit w = Some (errs, w') \<and>
    (pg_faults (gw_db w) = [] \<longrightarrow> due_gates (gx_clock env (gw_rest w)) w' = [])"
proof -
  let ?s = "pg_gate_service env" and ?now = "gx_clock env (gw_rest w)"
  have b: "0 < batch limit" by (simp add: batch_def)
  have p: "gv_checks ?s = Some (provider_of c)" using env by (simp add: pg_gate_service_def steady_clock_def)
  show ?thesis
  proof (cases "pg_faults (gw_db w) = []")
    case True
    with ok have "gate_scan_ok w" by (simp add: gate_rows_ok_def gate_scan_ok_def)
    from scan_drains [OF env b this order_refl, of "[]"] obtain w1 where
      w1: "scan_due ?s (provider_of c) (batch limit) [] w = Some (Inr [], w1)" "due_gates ?now w1 = []" by blast
    then have "gv_PollGitHubCheckGates ?s limit w = Some (gv_RetryGitHubCheckGateEvidence ?s (batch limit) w1)"
      using p by (simp add: gv_PollGitHubCheckGates_def split: prod.split)
    with retry_quiet [OF w1(2), of env "batch limit"] show ?thesis by (metis prod.collapse)
  next
    case False
    obtain r w1 where "scan_due ?s (provider_of c) (batch limit) [] w = Some (r, w1)"
      using scan_returns [OF env b ok] by blast
    with False p show ?thesis by (auto simp: gv_PollGitHubCheckGates_def split: sum.split prod.split)
  qed
qed

section \<open>The statements of the transaction\<close>

lemma insert_events_some:
  "\<forall>g\<in>set gs. gt_completed g \<noteq> None \<and> gt_reason g \<noteq> [] \<and> terminalGitHubCheckGateStatus (gt_status g) \<Longrightarrow>
    \<exists>d'. insert_events now gs d = Some d' \<and> gd_gates d' = gd_gates d \<and> gd_next_gate d' = gd_next_gate d"
proof (induction gs arbitrary: d)
  case (Cons g gs)
  then obtain d1 where d1: "insert_event now g d = Some d1" using insert_event_some [of g _ now d] by auto
  from Cons.IH [of d1] Cons.prems insert_event_gates [OF d1] d1 show ?case by simp
qed simp

lemma supersede_succeeds:
  "\<exists>gs d'. supersedeGitHubCheckGatesSQL project task sha now d = Some (gs, d') \<and>
    gd_gates d' = update_where (supersedes project task sha) (superseded_gate sha now) (gd_gates d) \<and>
    gd_next_gate d' = gd_next_gate d"
proof -
  let ?u = "map (superseded_gate sha now) (filter (supersedes project task sha) (gd_gates d))"
  have "\<forall>g\<in>set ?u. gt_completed g \<noteq> None \<and> gt_reason g \<noteq> [] \<and> terminalGitHubCheckGateStatus (gt_status g)"
    by (simp add: superseded_gate_def ReasonSuperseded_def terminalGitHubCheckGateStatus_def)
  from insert_events_some [OF this, of now "d\<lparr>gd_gates := update_where (supersedes project task sha) (superseded_gate sha now) (gd_gates d)\<rparr>"]
  show ?thesis by (auto simp: supersedeGitHubCheckGatesSQL_def Let_def)
qed

text \<open>The table after the superseding and the upsert.\<close>

definition upserted :: "gate \<Rightarrow> time \<Rightarrow> gate_tables \<Rightarrow> gate \<Rightarrow> gate list \<Rightarrow> bool" where
  "upserted new now d stored rows \<longleftrightarrow>
     (let others = update_where (supersedes (gt_project new) (gt_task new) (gt_sha new)) (superseded_gate (gt_sha new) now) (gd_gates d) in
      case row_lookup gate_key (gate_key new) (gd_gates d) of
        None \<Rightarrow> stored = new_gate (gd_next_gate d) new now \<and> rows = others @ [stored]
      | Some old \<Rightarrow> stored = registered_again new now old \<and>
          rows = update_where (\<lambda>r. gate_key r = gate_key new) (registered_again new now) others)"

lemma lookup_not_superseded:
  "row_lookup gate_key (gate_key new) (update_where (supersedes (gt_project new) (gt_task new) (gt_sha new)) (superseded_gate (gt_sha new) now) rs) =
    row_lookup gate_key (gate_key new) rs"
  by (induction rs) (auto simp: update_where_def supersedes_def superseded_gate_def gate_key_def)

lemma register_healthy:
  assumes db: "healthy db" and new: "gt_required new \<noteq> []" "int4 (gt_interval new)"
  shows "\<exists>stored gs d'. gst_RegisterGitHubCheckGate new now db = (Inr (stored, gs), db\<lparr>pg_data := d'\<rparr>) \<and>
    upserted new now (pg_data db) stored (gd_gates d')"
proof -
  let ?super = "supersedeGitHubCheckGatesSQL (gt_project new) (gt_task new) (gt_sha new) now"
  have reads: "pg_call (read_only (\<lambda>_. ())) db' = (Inr (), db')" if "healthy db'" for db' :: "gate_tables pg"
    by (rule read_healthy [OF that, of "\<lambda>_. ()"])
  from supersede_succeeds [of "gt_project new" "gt_task new" "gt_sha new" now "pg_data db"] obtain gs d1 where
    s: "?super (pg_data db) = Some (gs, d1)"
      "gd_gates d1 = update_where (supersedes (gt_project new) (gt_task new) (gt_sha new)) (superseded_gate (gt_sha new) now) (gd_gates (pg_data db))"
      "gd_next_gate d1 = gd_next_gate (pg_data db)" by blast
  obtain stored d2 where u: "upsertGitHubCheckGateSQL new now d1 = Some (stored, d2)" "upserted new now (pg_data db) stored (gd_gates d2)"
    using new by (cases "row_lookup gate_key (gate_key new) (gd_gates (pg_data db))")
      (simp_all add: upsertGitHubCheckGateSQL_def upserted_def s(2,3) lookup_not_superseded Let_def)
  have call1: "pg_call ?super db = (Inr gs, db\<lparr>pg_data := d1\<rparr>)"
    by (rule pg_call_healthy [where q = ?super, OF db s(1)])
  have call2: "pg_call (upsertGitHubCheckGateSQL new now) (db\<lparr>pg_data := d1\<rparr>) = (Inr stored, db\<lparr>pg_data := d2\<rparr>)"
    using pg_call_healthy [where q = "upsertGitHubCheckGateSQL new now" and db = "db\<lparr>pg_data := d1\<rparr>"] db u(1) by simp
  have "gst_RegisterGitHubCheckGate new now db = (Inr (stored, gs), db\<lparr>pg_data := d2\<rparr>)"
    using db by (simp add: gst_RegisterGitHubCheckGate_def reads call1 call2)
  with u(2) show ?thesis by blast
qed

lemma upserted_row:
  assumes "upserted new now d stored rows"
  shows "row_lookup gate_key (gate_key new) rows = Some stored"
proof (cases "row_lookup gate_key (gate_key new) (gd_gates d)")
  case None
  then have "gate_key stored = gate_key new" using assms by (simp add: upserted_def Let_def new_gate_def gate_key_def)
  with None assms show ?thesis by (simp add: upserted_def Let_def row_lookup_append lookup_not_superseded)
next
  case (Some old)
  have "gate_key (registered_again new now r) = gate_key r" for r by (simp add: registered_again_def gate_key_def Let_def)
  with Some assms show ?thesis
    by (auto simp: upserted_def Let_def row_lookup_update_where lookup_not_superseded dest: row_lookup_Some)
qed

lemma upserted_others:
  assumes "upserted new now d stored rows" and "h \<in> set (gd_gates d)"
    and "supersedes (gt_project new) (gt_task new) (gt_sha new) h"
  shows "superseded_gate (gt_sha new) now h \<in> set rows"
proof -
  let ?h = "superseded_gate (gt_sha new) now h"
  have mem: "?h \<in> set (update_where (supersedes (gt_project new) (gt_task new) (gt_sha new)) (superseded_gate (gt_sha new) now) (gd_gates d))"
    using assms(2,3) by (auto simp: update_where_def image_iff intro!: bexI [of _ h])
  have "gate_key ?h \<noteq> gate_key new" using assms(3) by (simp add: supersedes_def superseded_gate_def gate_key_def)
  then have "?h \<in> set (update_where (\<lambda>r. gate_key r = gate_key new) f rs)" if "?h \<in> set rs" for f rs
    using that by (auto simp: update_where_def image_iff intro!: bexI [of _ ?h])
  with mem assms(1) show ?thesis by (auto simp: upserted_def Let_def split: option.split_asm)
qed

section \<open>The reopening\<close>

lemma reopen_healthy:
  assumes db: "healthy db" "gates_inv (pg_data db)" "g \<in> set (gd_gates (pg_data db))" and r: "retried (gt_status g)"
    and q: "rq_id q = gt_id g" "rq_attempt q = gt_attempt g" "rq_required q \<noteq> []" "int4 (rq_interval q)" "int4 (gt_attempt g + 1)"
  shows "gst_ReopenGitHubCheckGate q now db =
    (Inr (reopened_gate q now g, True), db\<lparr>pg_data := (pg_data db)\<lparr>gd_gates := set_row (reopened_gate q now g) (pg_data db)\<rparr>\<rparr>)"
proof -
  let ?P = "\<lambda>g. gt_attempt g = rq_attempt q \<and> gt_status g \<in> set [GateFailed, GateTimedOut]" and ?f = "reopened_gate q now"
  have P: "?P g" using r q by (auto simp: retried_def)
  have "update_gate (gt_id g) ?P ?f (pg_data db) = (Some (?f g), (pg_data db)\<lparr>gd_gates := set_row (?f g) (pg_data db)\<rparr>)"
    by (rule update_gate_at [OF db(2,3)]) (rule P, simp add: reopened_gate_def)
  then have "reopenGitHubCheckGateSQL q now (pg_data db) = Some (Some (?f g), (pg_data db)\<lparr>gd_gates := set_row (?f g) (pg_data db)\<rparr>)"
    using q by (simp add: reopenGitHubCheckGateSQL_def, simp add: reopened_gate_def)
  then show ?thesis
    unfolding gst_ReopenGitHubCheckGate_def
    by (rule update_or_read_healthy [where q = "reopenGitHubCheckGateSQL q now", OF db(1)])
qed

lemma lookup_set_row:
  assumes "gates_inv d" and "g \<in> set (gd_gates d)" and "gt_id g' = gt_id g" and "gate_key g' = gate_key g"
  shows "row_lookup gate_key (gate_key g) (set_row g' d) = Some g'"
    and "h \<in> set (gd_gates d) \<Longrightarrow> gate_key h \<noteq> gate_key g \<Longrightarrow> h \<in> set (set_row g' d)"
proof -
  have only: "r = g" if "r \<in> set (gd_gates d)" "gt_id r = gt_id g" for r
    using gate_unique [OF assms(1) that(1) assms(2) that(2)] .
  have key: "r = g" if "r \<in> set (gd_gates d)" "gate_key r = gate_key g" for r
    using assms(1,2) that by (auto simp: gates_inv_def distinct_map dest: inj_onD)
  have "row_lookup gate_key (gate_key g) (map (\<lambda>r. if gt_id r = gt_id g then g' else r) rs) = Some g'"
    if "set rs \<subseteq> set (gd_gates d)" "g \<in> set rs" for rs
    using that assms(4) key by (induction rs) auto
  from this [of "gd_gates d"] assms(2) show "row_lookup gate_key (gate_key g) (set_row g' d) = Some g'"
    by (simp add: set_row_def assms(3))
  show "h \<in> set (gd_gates d) \<Longrightarrow> gate_key h \<noteq> gate_key g \<Longrightarrow> h \<in> set (set_row g' d)"
    using only by (auto simp: set_row_def assms(3) image_iff intro!: bexI [of _ h])
qed

section \<open>A request\<close>

text \<open>The request of the gate \<open>new\<close> is accepted for a task that exists, at the time \<open>now\<close>.\<close>

definition accepts :: "'x gate_env \<Rightarrow> string \<Rightarrow> int \<Rightarrow> register_gate_request \<Rightarrow> 'x gate_world \<Rightarrow> time \<Rightarrow> gate \<Rightarrow> bool" where
  "accepts env project task q w now new \<longleftrightarrow>
     (case validateTask (pg_gate_service env) project task [] w of
        (Inl _, _) \<Rightarrow> False
      | (Inr t, w1) \<Rightarrow> gx_clock env (gw_rest w1) = now \<and> githubGateFromRequest (gx_options env) now (tc_project t) task q = Inr new)"

definition registered :: "gate \<Rightarrow> time \<Rightarrow> int \<Rightarrow> gate option \<Rightarrow> gate \<Rightarrow> bool" where
  "registered new now i old g =
     (case old of
        None \<Rightarrow> g = new_gate i new now
      | Some old \<Rightarrow>
          gt_id g = gt_id old \<and>
          (if gt_status old = GatePending then
             gt_status g = GatePending \<and> gt_attempt g = gt_attempt old \<and> gt_required g = gt_required new \<and>
             gt_ref g = gt_ref new \<and> gt_timeout g = gt_timeout old \<and> gt_next_poll g = now
           else if gt_status old = GateFailed \<or> gt_status old = GateTimedOut then
             gt_status g = GatePending \<and> gt_attempt g = gt_attempt old + 1 \<and> gt_required g = gt_required new \<and>
             gt_ref g = gt_ref new \<and> gt_timeout g = now + time_until (gt_timeout new) now \<and> gt_next_poll g = now
           else verdict_of g = verdict_of old))"

lemma request_shape:
  assumes "githubGateFromRequest opts now p t q = Inr new"
  shows "gt_status new = GatePending \<and> gt_required new \<noteq> [] \<and> gt_next_poll new = now \<and> gt_created new = now"
  using assms by (auto simp: githubGateFromRequest_def Let_def split: if_split_asm)

lemma registered_by_upsert:
  assumes "upserted new now d stored rows" and "gt_next_poll new = now" and "\<not> retried (gt_status stored)"
  shows "registered new now (gd_next_gate d) (row_lookup gate_key (gate_key new) (gd_gates d)) stored"
  using assms by (auto simp: registered_def upserted_def Let_def registered_again_def retried_def verdict_of_def split: option.split_asm)

lemma registered_by_reopen:
  assumes "upserted new now d stored rows" and "gt_created new = now" and "gt_status new = GatePending" and "retried (gt_status stored)"
    and "rq_required q = gt_required new" and "rq_ref q = gt_ref new" and "rq_timeout q = now + time_until (gt_timeout new) now"
  shows "registered new now (gd_next_gate d) (row_lookup gate_key (gate_key new) (gd_gates d)) (reopened_gate q now stored)"
proof (cases "row_lookup gate_key (gate_key new) (gd_gates d)")
  case None
  then have "gt_status stored = GatePending" using assms by (simp add: upserted_def Let_def new_gate_def)
  with assms(4) show ?thesis using retried_terminal terminal_not_pending by blast
next
  case (Some old)
  then have s: "stored = registered_again new now old" using assms by (simp add: upserted_def Let_def)
  then have "gt_status old = GateFailed \<or> gt_status old = GateTimedOut"
    using assms(4) by (simp add: retried_def registered_again_def Let_def)
  then show ?thesis
    using Some assms(5-7) by (auto simp: registered_def s reopened_gate_def registered_again_def Let_def gate_states)
qed

lemma validate_db:
  "validateTask (pg_gate_service env) p t allowed w = (a, w1) \<Longrightarrow> gw_db w1 = gw_db w"
  by (auto simp: validateTask_def Let_def pg_gate_service_def on_rest_def split: if_split_asm prod.split_asm sum.split_asm)

lemma attempt_int4:
  assumes "upserted new now d stored rows" and "\<forall>h\<in>set (gd_gates d). int4 (gt_attempt h + 1)"
  shows "int4 (gt_attempt stored + 1)"
  using assms by (auto simp: upserted_def Let_def new_gate_def registered_again_def int4_def dest!: row_lookup_Some split: option.split_asm)

lemma registration:
  assumes acc: "accepts env project task q w now new" and db: "healthy (gw_db w)" "gates_inv (gate_data w)"
    and int: "int4 (gt_interval new)" "\<forall>h\<in>set (gd_gates (gate_data w)). int4 (gt_attempt h + 1)"
  shows "\<exists>g w'. gv_RegisterGitHubCheckGate (pg_gate_service env) project task q w = (Inr g, w') \<and> healthy (gw_db w') \<and>
    gx_clock env (gw_rest w') = now \<and>
    registered new now (gd_next_gate (gate_data w)) (row_lookup gate_key (gate_key new) (gd_gates (gate_data w))) g \<and>
    row_lookup gate_key (gate_key new) (gd_gates (gate_data w')) = Some g \<and>
    (\<forall>h\<in>set (gd_gates (gate_data w)). supersedes (gt_project new) (gt_task new) (gt_sha new) h \<longrightarrow>
      superseded_gate (gt_sha new) now h \<in> set (gd_gates (gate_data w')))"
proof -
  let ?s = "pg_gate_service env" and ?d = "gate_data w"
  from acc obtain t w1 where v: "validateTask ?s project task [] w = (Inr t, w1)" and clock: "gx_clock env (gw_rest w1) = now"
    and new: "githubGateFromRequest (gx_options env) now (tc_project t) task q = Inr new"
    by (auto simp: accepts_def split: prod.split_asm sum.split_asm)
  note shape = request_shape [OF new]
  have w1: "gw_db w1 = gw_db w" by (rule validate_db [OF v])
  from register_healthy [of "gw_db w1" new now] w1 db shape int obtain stored gs d' where
    r: "gst_RegisterGitHubCheckGate new now (gw_db w1) = (Inr (stored, gs), (gw_db w1)\<lparr>pg_data := d'\<rparr>)"
    and up: "upserted new now ?d stored (gd_gates d')" by (auto simp: gate_data_def)
  let ?w2 = "w1\<lparr>gw_db := (gw_db w1)\<lparr>pg_data := d'\<rparr>\<rparr>"
  have svc: "gv_store ?s = pg_gate_store" "gv_options ?s = gx_options env" "\<And>w. gv_clock ?s w = gx_clock env (gw_rest w)"
    by (simp_all add: pg_gate_service_def)
  have out: "gv_RegisterGitHubCheckGate ?s project task q w =
      (if retried (gt_status stored) then gv_reopen ?s stored new ?w2 else (Inr stored, ?w2))"
    using v new r by (simp add: gv_RegisterGitHubCheckGate_def svc clock pg_gate_store_def on_db_def reopenableGitHubCheckGateStatus_def retried_def)
  have h2: "healthy (gw_db ?w2)" "gate_data ?w2 = d'" "gx_clock env (gw_rest ?w2) = now" using db w1 clock by (simp_all add: gate_data_def)
  have others: "\<forall>h\<in>set (gd_gates ?d). supersedes (gt_project new) (gt_task new) (gt_sha new) h \<longrightarrow>
      superseded_gate (gt_sha new) now h \<in> set (gd_gates d')"
    using upserted_others [OF up] by blast
  note row = upserted_row [OF up]
  show ?thesis
  proof (cases "retried (gt_status stored)")
    case False
    with registered_by_upsert [OF up] shape have reg: "registered new now (gd_next_gate ?d) (row_lookup gate_key (gate_key new) (gd_gates ?d)) stored" by blast
    from out False have "gv_RegisterGitHubCheckGate ?s project task q w = (Inr stored, ?w2)" by simp
    with reg row others h2 show ?thesis by (intro exI [of _ stored] exI [of _ ?w2]) (simp add: gate_data_def)
  next
    case True
    have "gate_steps (pg_data (gw_db w1)) (pg_data ((gw_db w1)\<lparr>pg_data := d'\<rparr>))"
      using register_runs shape r runs_stepsD by blast
    then have inv: "gates_inv d'" using gate_steps_keep [of ?d d'] db w1 by (simp add: gate_data_def)
    from row have st: "stored \<in> set (gd_gates d')" "gate_key stored = gate_key new" by (auto dest: row_lookup_Some)
    let ?q = "\<lparr>rq_id = gt_id stored, rq_attempt = gt_attempt stored, rq_required = gt_required new, rq_ref = gt_ref new,
      rq_timeout = now + time_until (gt_timeout new) now, rq_interval = gt_interval new\<rparr>"
    let ?g = "reopened_gate ?q now stored" and ?db = "(gw_db w1)\<lparr>pg_data := d'\<rparr>"
    let ?w3 = "?w2\<lparr>gw_db := ?db\<lparr>pg_data := d'\<lparr>gd_gates := set_row (reopened_gate ?q now stored) d'\<rparr>\<rparr>\<rparr>"
    have "gst_ReopenGitHubCheckGate ?q now ?db = (Inr (?g, True), ?db\<lparr>pg_data := (pg_data ?db)\<lparr>gd_gates := set_row ?g (pg_data ?db)\<rparr>\<rparr>)"
      by (rule reopen_healthy) (use db w1 inv st True shape int attempt_int4 [OF up] in \<open>simp_all add: gate_data_def\<close>)
    then have "gv_reopen ?s stored new ?w2 = (Inr ?g, ?w3)"
      using shape h2 by (simp add: gv_reopen_def Let_def svc pg_gate_store_def on_db_def)
    with out True have res: "gv_RegisterGitHubCheckGate ?s project task q w = (Inr ?g, ?w3)" by simp
    have same: "gt_id ?g = gt_id stored" "gate_key ?g = gate_key stored" by (simp_all add: reopened_gate_def gate_key_def)
    have reg: "registered new now (gd_next_gate ?d) (row_lookup gate_key (gate_key new) (gd_gates ?d)) ?g"
      by (rule registered_by_reopen [OF up]) (use shape True in simp_all)
    have data: "gate_data ?w3 = d'\<lparr>gd_gates := set_row ?g d'\<rparr>" "healthy (gw_db ?w3)" "gx_clock env (gw_rest ?w3) = now"
      using db w1 clock by (simp_all add: gate_data_def)
    have "superseded_gate (gt_sha new) now h \<in> set (set_row ?g d')"
      if "h \<in> set (gd_gates ?d)" "supersedes (gt_project new) (gt_task new) (gt_sha new) h" for h
    proof (rule lookup_set_row(2) [OF inv st(1) same])
      show "superseded_gate (gt_sha new) now h \<in> set (gd_gates d')" using others that by blast
      show "gate_key (superseded_gate (gt_sha new) now h) \<noteq> gate_key stored"
        using that(2) st(2) by (simp add: supersedes_def superseded_gate_def gate_key_def)
    qed
    moreover have "row_lookup gate_key (gate_key new) (set_row ?g d') = Some ?g"
      using lookup_set_row(1) [OF inv st(1) same] st(2) by simp
    ultimately show ?thesis
      using res reg data by (intro exI [of _ ?g] exI [of _ ?w3]) simp
  qed
qed

end
