(* ===== verification/Review_Gate_Props.thy ===== *)
theory Review_Gate_Props
  imports Review_Gate_Live
begin

text \<open>
  The properties of the check gates: registration, evaluation and evidence over the PostgreSQL store, with
  other replicas' statements in between.
\<close>

section \<open>Reachable gates\<close>

text \<open>
  What the requests of the service and the poller lead to. Between them, other replicas execute statements,
  and the rest of the world (the driver's faults, GitHub, the clock) changes as it likes.
\<close>

inductive gates_reach :: "'x gate_env \<Rightarrow> 'x gate_world \<Rightarrow> bool" for env where
  reach_start: "gate_data w = no_gates \<Longrightarrow> gates_reach env w"
| reach_register: "gates_reach env w \<Longrightarrow> gv_RegisterGitHubCheckGate (pg_gate_service env) project task q w = (r, w') \<Longrightarrow>
    gates_reach env w'"
| reach_get: "gates_reach env w \<Longrightarrow> gv_GetGitHubCheckGate (pg_gate_service env) project task sha w = (r, w') \<Longrightarrow> gates_reach env w'"
| reach_poll: "gates_reach env w \<Longrightarrow> gv_PollGitHubCheckGates (pg_gate_service env) limit w = Some (errs, w') \<Longrightarrow> gates_reach env w'"
| reach_replica: "gates_reach env w \<Longrightarrow> gate_step (gate_data w) (gate_data w') \<Longrightarrow> gates_reach env w'"
| reach_world: "gates_reach env w \<Longrightarrow> gate_data w' = gate_data w \<Longrightarrow> gates_reach env w'"

lemma reach_inv: "gates_reach env w \<Longrightarrow> gates_inv (gate_data w)"
proof (induction rule: gates_reach.induct)
  case (reach_start w)
  then show ?case by (simp add: no_gates_inv)
next
  case reach_register
  then show ?case using pg_service.register_steps gate_steps_keep by blast
next
  case reach_get
  then show ?case using pg_service.get_view by metis
next
  case reach_poll
  then show ?case using pg_service.poll_steps gate_steps_keep by blast
next
  case reach_replica
  then show ?case using gate_step_keeps by blast
next
  case reach_world
  then show ?case by simp
qed

definition attempt_events :: "gate_tables \<Rightarrow> int \<Rightarrow> int \<Rightarrow> gate_event list" where
  "attempt_events d i a = filter (\<lambda>e. ge_gate e = i \<and> ge_attempt e = a) (gd_events d)"

lemma attempt_once:
  assumes "gates_inv d" and "e \<in> set (gd_events d)"
  shows "attempt_events d (ge_gate e) (ge_attempt e) = [e]"
proof -
  have "distinct (map (\<lambda>e. (ge_gate e, ge_attempt e)) es) \<Longrightarrow> e \<in> set es \<Longrightarrow>
      filter (\<lambda>x. ge_gate x = ge_gate e \<and> ge_attempt x = ge_attempt e) es = [e]" for es
    by (induction es) (auto simp: filter_empty_conv image_iff)
  with assms show ?thesis by (simp add: attempt_events_def gates_inv_def)
qed

lemma attempts_grow: "gate_moves\<^sup>*\<^sup>* g g' \<Longrightarrow> gt_attempt g \<le> gt_attempt g'"
proof (induction rule: rtranclp_induct)
  case (step g1 g2)
  from step.hyps(2) have "gt_attempt g1 \<le> gt_attempt g2" by cases (simp_all add: verdict_of_def)
  with step.IH show ?case by simp
qed simp

lemma gate_history:
  assumes inv: "gates_inv d" and g: "g \<in> set (gd_gates d)"
  shows "1 \<le> a \<Longrightarrow> a < gt_attempt g \<Longrightarrow> \<exists>e. attempt_events d (gt_id g) a = [e] \<and> retried (ge_status e)"
    and "gt_status g = GatePending \<Longrightarrow> attempt_events d (gt_id g) (gt_attempt g) = []"
    and "gt_status g \<noteq> GatePending \<Longrightarrow> \<exists>e. attempt_events d (gt_id g) (gt_attempt g) = [e] \<and> tells e g"
    and "gt_attempt g < a \<Longrightarrow> attempt_events d (gt_id g) a = []"
proof -
  from inv g have ok: "gate_ok (gd_events d) g" by (simp add: gates_inv_def)
  show "\<exists>e. attempt_events d (gt_id g) a = [e] \<and> retried (ge_status e)" if "1 \<le> a" "a < gt_attempt g"
  proof -
    from ok that obtain e where "e \<in> set (gd_events d)" "ge_gate e = gt_id g" "ge_attempt e = a" "retried (ge_status e)"
      unfolding gate_ok_def by blast
    with attempt_once [OF inv] show ?thesis by metis
  qed
  show "attempt_events d (gt_id g) (gt_attempt g) = []" if "gt_status g = GatePending"
    using ok that by (auto simp: gate_ok_def attempt_events_def filter_empty_conv)
  show "\<exists>e. attempt_events d (gt_id g) (gt_attempt g) = [e] \<and> tells e g" if "gt_status g \<noteq> GatePending"
  proof -
    from ok that obtain e where "e \<in> set (gd_events d)" "tells e g" unfolding gate_ok_def by auto
    with attempt_once [OF inv, of e] show ?thesis by (auto simp: tells_def)
  qed
  show "attempt_events d (gt_id g) a = []" if "gt_attempt g < a"
    using event_attempt [OF inv _ g] that by (fastforce simp: attempt_events_def filter_empty_conv)
qed

text \<open>
  C3. However requests, scans and statements of other replicas interleave, and whatever the driver does:
  every finished attempt of a gate has exactly one terminal event, an earlier attempt one that it failed or
  timed out, the finished current one an event that tells the row's verdict, and a pending or later attempt
  none. Events are only appended, a gate keeps its identity and commit, its attempts never go back, and a
  gate that passed or was superseded keeps its verdict for good.
\<close>

theorem gates_exact:
  assumes "gates_reach env w" and "g \<in> set (gd_gates (gate_data w))" and "gate_step\<^sup>*\<^sup>* (gate_data w) later"
  shows "(\<forall>a. 1 \<le> a \<and> a < gt_attempt g \<longrightarrow> (\<exists>e. attempt_events (gate_data w) (gt_id g) a = [e] \<and> retried (ge_status e))) \<and>
    (gt_status g \<noteq> GatePending \<longrightarrow> (\<exists>e. attempt_events (gate_data w) (gt_id g) (gt_attempt g) = [e] \<and> tells e g)) \<and>
    (gt_status g = GatePending \<longrightarrow> attempt_events (gate_data w) (gt_id g) (gt_attempt g) = []) \<and>
    (\<forall>a. gt_attempt g < a \<longrightarrow> attempt_events (gate_data w) (gt_id g) a = []) \<and>
    prefix (gd_events (gate_data w)) (gd_events later) \<and>
    (\<exists>g'\<in>set (gd_gates later). gt_id g' = gt_id g \<and> gate_key g' = gate_key g \<and> gt_attempt g \<le> gt_attempt g' \<and>
       (gt_status g = GatePassed \<or> gt_status g = GateSuperseded \<longrightarrow> verdict_of g' = verdict_of g))"
proof -
  have inv: "gates_inv (gate_data w)" by (rule reach_inv [OF assms(1)])
  have "gates_move (gate_data w) later" using gate_steps_keep [OF assms(3) inv] by blast
  then obtain g' where p: "prefix (gd_events (gate_data w)) (gd_events later)" and g': "g' \<in> set (gd_gates later)"
    "same_gate g g'" "gate_moves\<^sup>*\<^sup>* g g'" using assms(2) unfolding gates_move_def by blast
  have "verdict_of g' = verdict_of g" if "gt_status g = GatePassed \<or> gt_status g = GateSuperseded"
    by (rule final_gate [OF g'(3)]) (use that in \<open>auto simp: terminalGitHubCheckGateStatus_def retried_def gate_states\<close>)
  then have "\<exists>g'\<in>set (gd_gates later). gt_id g' = gt_id g \<and> gate_key g' = gate_key g \<and> gt_attempt g \<le> gt_attempt g' \<and>
      (gt_status g = GatePassed \<or> gt_status g = GateSuperseded \<longrightarrow> verdict_of g' = verdict_of g)"
    using g' attempts_grow [OF g'(3)] unfolding same_gate_def by blast
  with p gate_history [OF inv assms(2)] show ?thesis by simp
qed

text \<open>An environment, a request and the gate it asks for.\<close>

definition ex_env :: "nat gate_env" where
  "ex_env =
     \<lparr>gx_task = (\<lambda>p t n. (Inr \<lparr>tc_id = t, tc_project = p, tc_status = ''review''\<rparr>, n)), gx_append = (\<lambda>_ _ n. (Inr 7, n)),
      gx_github = Some
        \<lparr>gc_base = [], gc_token = [], gc_do = (\<lambda>_ n. (Answered \<lparr>gp_status = ''403'', gp_code = 403,
           gp_headers = \<lparr>gh_request_id = [], gh_remaining = [], gh_reset = [], gh_retry_after = []\<rparr>,
           gp_body = Inl (Errorf []), gp_message = Inr []\<rparr>, Suc n)),
         gc_now = (\<lambda>_. 1000), gc_date = (\<lambda>_. None), gc_triggers = (\<lambda>_. None)\<rparr>,
      gx_options = DefaultGitHubCheckOptions, gx_clock = (\<lambda>_. 1000), gx_show_time = (\<lambda>_. [])\<rparr>"

definition ex_gate_request :: "int option \<Rightarrow> register_gate_request" where
  "ex_gate_request timeout =
     \<lparr>gr_repository = ''o/r'', gr_commit = replicate 40 (CHR ''A''), gr_ref = ''main'', gr_required = [''build'', ''deploy''],
      gr_timeout = timeout, gr_interval = None, gr_by = ''worker'', gr_profile = [], gr_instance = [], gr_session = []\<rparr>"

definition ex_gate :: "string list \<Rightarrow> time \<Rightarrow> gate" where
  "ex_gate required timeout =
     \<lparr>gt_id = 0, gt_project = ''den'', gt_task = 1, gt_repository = ''o/r'', gt_sha = replicate 40 (CHR ''a''), gt_ref = ''main'',
      gt_required = required, gt_status = GatePending, gt_by = ''worker'', gt_profile = [], gt_instance = [], gt_session = [],
      gt_timeout = timeout, gt_interval = 30, gt_next_poll = 1000, gt_checked = None, gt_completed = None,
      gt_url = [], gt_summary = [], gt_runs = [], gt_failure = [], gt_reason = [],
      gt_missing = [], gt_observed = [], gt_evidence = [], gt_message = None, gt_message_error = [],
      gt_attempted = None, gt_created = 1000, gt_updated = 1000, gt_attempt = 0\<rparr>"

lemma ex_from_request:
  "githubGateFromRequest DefaultGitHubCheckOptions 1000 ''den'' 1 (ex_gate_request None) = Inr (ex_gate [''build'', ''deploy''] 7200000001000)"
  by code_simp

lemma ex_accepts: "accepts ex_env ''den'' 1 (ex_gate_request None) w 1000 (ex_gate [''build'', ''deploy''] 7200000001000)"
proof -
  have "validateTask (pg_gate_service ex_env) ''den'' 1 [] w = (Inr \<lparr>tc_id = 1, tc_project = ''den'', tc_status = ''review''\<rparr>, w)"
  proof -
    have "trim_space ''den'' = ''den''" by code_simp
    then show ?thesis by (simp add: validateTask_def pg_gate_service_def ex_env_def on_rest_def)
  qed
  then show ?thesis using ex_from_request by (simp add: accepts_def) (simp add: ex_env_def)
qed

text \<open>A database with one gate, of the commit of the request or of another one.\<close>

definition ex_row :: "string \<Rightarrow> gate" where
  "ex_row sha = new_gate 1 (ex_gate [''build''] 5000000001000 \<lparr>gt_sha := sha\<rparr>) 1000"

definition ex_world :: "string \<Rightarrow> nat gate_world" where
  "ex_world sha = \<lparr>gw_db = \<lparr>pg_data = \<lparr>gd_gates = [ex_row sha], gd_next_gate = 2, gd_events = [], gd_next_event = 1\<rparr>, pg_faults = []\<rparr>, gw_rest = 0\<rparr>"

lemma ex_reach: "gates_reach env (ex_world sha)"
proof (rule reach_replica)
  let ?w = "\<lparr>gw_db = \<lparr>pg_data = no_gates, pg_faults = []\<rparr>, gw_rest = 0\<rparr> :: nat gate_world"
  let ?g = "ex_gate [''build''] 5000000001000 \<lparr>gt_sha := sha\<rparr>"
  show "gates_reach env ?w" by (rule reach_start) (simp add: gate_data_def)
  have "upsertGitHubCheckGateSQL ?g 1000 no_gates = Some (ex_row sha, gate_data (ex_world sha))"
    by (simp add: upsertGitHubCheckGateSQL_def no_gates_def int4_def ex_row_def ex_world_def gate_data_def ex_gate_def Let_def)
  then show "gate_step (gate_data ?w) (gate_data (ex_world sha))"
    by (intro step_upsert [of ?g 1000 _ "ex_row sha"]) (simp_all add: ex_gate_def gate_data_def)
qed

lemma ex_rows: "gd_gates (gate_data (ex_world sha)) = [ex_row sha]" "pg_faults (gw_db (ex_world sha)) = []"
  by (simp_all add: ex_world_def gate_data_def)

lemma gates_exact_witness:
  "\<exists>d. gate_step\<^sup>*\<^sup>* (gate_data (ex_world ''a'')) d \<and> prefix (gd_events (gate_data (ex_world ''a''))) (gd_events d) \<and>
     attempt_events (gate_data (ex_world ''a'')) 1 1 = [] \<and> (\<exists>g\<in>set (gd_gates d). gt_id g = 1)"
proof -
  have "gate_step\<^sup>*\<^sup>* (gate_data (ex_world ''a'')) (gate_data (ex_world ''a''))" by simp
  from gates_exact [OF ex_reach _ this, of "ex_row ''a''"] show ?thesis
    by (intro exI [of _ "gate_data (ex_world ''a'')"]) (auto simp: ex_rows, simp_all add: ex_row_def new_gate_def ex_gate_def)
qed

section \<open>Registration\<close>

text \<open>
  C7. A registration that is accepted answers the row of its commit, which is then stored: a new commit gets
  a pending gate in its first attempt; a pending gate takes the requested checks and ref, is polled at once
  and keeps attempt and deadline; a gate that failed or timed out starts its next attempt with the requested
  checks and a fresh deadline; one that passed or was superseded keeps its verdict. The pending gates of the
  other commits of the task are superseded. The driver does not fail, and the interval and the numbers of the
  attempts fit their 32-bit columns.
\<close>

theorem registration_exact:
  assumes "gates_reach env w" and "pg_faults (gw_db w) = []" and "accepts env project task q w now new"
    and "int4 (gt_interval new)" and "\<forall>h\<in>set (gd_gates (gate_data w)). int4 (gt_attempt h + 1)"
  shows "\<exists>g w'. gv_RegisterGitHubCheckGate (pg_gate_service env) project task q w = (Inr g, w') \<and>
    registered new now (gd_next_gate (gate_data w)) (row_lookup gate_key (gate_key new) (gd_gates (gate_data w))) g \<and>
    row_lookup gate_key (gate_key new) (gd_gates (gate_data w')) = Some g \<and>
    (\<forall>h\<in>set (gd_gates (gate_data w)). supersedes (gt_project new) (gt_task new) (gt_sha new) h \<longrightarrow>
      superseded_gate (gt_sha new) now h \<in> set (gd_gates (gate_data w')))"
  using registration [OF assms(3,2) reach_inv [OF assms(1)] assms(4,5)] by blast

lemma ex_int4: "int4 (gt_interval (ex_gate required timeout))" "\<forall>h\<in>set (gd_gates (gate_data (ex_world sha))). int4 (gt_attempt h + 1)"
  by (simp_all add: ex_rows ex_row_def new_gate_def ex_gate_def int4_def)

lemma registration_exact_witness:
  "\<exists>g w'. gv_RegisterGitHubCheckGate (pg_gate_service ex_env) ''den'' 1 (ex_gate_request None) (ex_world ''b'') = (Inr g, w') \<and>
     gt_id g = 2 \<and> gt_attempt g = 1 \<and> superseded_gate (replicate 40 (CHR ''a'')) 1000 (ex_row ''b'') \<in> set (gd_gates (gate_data w'))"
proof -
  let ?new = "ex_gate [''build'', ''deploy''] 7200000001000"
  have next_gate: "gd_next_gate (gate_data (ex_world ''b'')) = 2" by (simp add: ex_world_def gate_data_def)
  have none: "row_lookup gate_key (gate_key ?new) (gd_gates (gate_data (ex_world ''b''))) = None"
    by (simp add: ex_rows ex_row_def new_gate_def ex_gate_def gate_key_def numeral_eq_Suc)
  have old: "supersedes (gt_project ?new) (gt_task ?new) (gt_sha ?new) (ex_row ''b'')" "gt_sha ?new = replicate 40 (CHR ''a'')"
    by (simp_all add: supersedes_def ex_row_def new_gate_def ex_gate_def numeral_eq_Suc)
  from registration_exact [OF ex_reach ex_rows(2) ex_accepts ex_int4, of "''b''"] obtain g w' where
    "gv_RegisterGitHubCheckGate (pg_gate_service ex_env) ''den'' 1 (ex_gate_request None) (ex_world ''b'') = (Inr g, w')"
    "g = new_gate 2 ?new 1000" "superseded_gate (gt_sha ?new) 1000 (ex_row ''b'') \<in> set (gd_gates (gate_data w'))"
    unfolding next_gate none using old(1) by (auto simp: ex_rows registered_def)
  with old(2) show ?thesis by (auto simp: new_gate_def)
qed

section \<open>A stale pass\<close>

lemma complete_exact:
  assumes db: "healthy db" "gates_inv (pg_data db)" "g \<in> set (gd_gates (pg_data db))" "gt_status g = GatePending"
    and st: "terminalGitHubCheckGateStatus status" and reason: "rs_reason x \<noteq> []"
  shows "\<exists>d'. gst_CompleteGitHubCheckGate (gt_id g) status x at db = (Inr (completed_gate status x at at g, True), db\<lparr>pg_data := d'\<rparr>)"
proof -
  obtain d' where d': "completeGitHubCheckGateSQL (gt_id g) status x at at (pg_data db) = Some (Some (completed_gate status x at at g), d')"
    using complete_ends [OF db(2-4) st reason] by blast
  from update_or_read_healthy [where q = "completeGitHubCheckGateSQL (gt_id g) status x at at", OF db(1) d'] terminal_not_pending [OF st]
  have "gst_CompleteGitHubCheckGate (gt_id g) status x at db = (Inr (completed_gate status x at at g, True), db\<lparr>pg_data := d'\<rparr>)"
    by (simp add: gst_CompleteGitHubCheckGate_def)
  then show ?thesis by blast
qed

text \<open>
  C9. An evaluation completes the row of the gate it has read whatever was registered since: when the pending
  gate \<open>g\<close> is registered again with other required checks after the poller has listed it, and GitHub reports
  success for the old ones, the gate is stored as passed for the new ones, though the runs that were observed
  are those the old checks asked for. The driver does not fail, and the interval and the numbers of the attempts
  fit their 32-bit columns.
\<close>

theorem stale_pass:
  assumes reach: "gates_reach env w" and db: "pg_faults (gw_db w) = []" and acc: "accepts env project task q w now new"
    and int: "int4 (gt_interval new)" "\<forall>h\<in>set (gd_gates (gate_data w)). int4 (gt_attempt h + 1)"
    and g: "row_lookup gate_key (gate_key new) (gd_gates (gate_data w)) = Some g" "gt_status g = GatePending" "now < gt_timeout g"
    and answer: "\<forall>v. cp_CheckChange provider (githubChangeQuery (gx_options env) g) v = (Inr r, v)" "rs_status r = GatePassed" "rs_reason r \<noteq> []"
  shows "\<exists>g1 w1 g2 w2. gv_RegisterGitHubCheckGate (pg_gate_service env) project task q w = (Inr g1, w1) \<and>
    gt_required g1 = gt_required new \<and> gt_attempt g1 = gt_attempt g \<and>
    gv_evaluateGitHubCheckGate (pg_gate_service env) provider g w1 = (Inr g2, w2) \<and>
    gt_id g2 = gt_id g1 \<and> gt_status g2 = GatePassed \<and> gt_required g2 = gt_required new \<and> gt_observed g2 = rs_observed r"
proof -
  let ?s = "pg_gate_service env"
  from registration [OF acc db reach_inv [OF reach] int] obtain g1 w1 where
    out: "gv_RegisterGitHubCheckGate ?s project task q w = (Inr g1, w1)" and h1: "healthy (gw_db w1)" "gx_clock env (gw_rest w1) = now"
    and reg: "registered new now (gd_next_gate (gate_data w)) (Some g) g1"
    and row: "row_lookup gate_key (gate_key new) (gd_gates (gate_data w1)) = Some g1" unfolding g(1) by blast
  have g1: "gt_id g1 = gt_id g" "gt_status g1 = GatePending" "gt_required g1 = gt_required new" "gt_attempt g1 = gt_attempt g"
    using reg g(2) by (simp_all add: registered_def)
  have inv: "gates_inv (pg_data (gw_db w1))" and mem: "g1 \<in> set (gd_gates (pg_data (gw_db w1)))"
    using reach_inv [OF reach_register [OF reach out]] row_lookup_Some [OF row] by (simp_all add: gate_data_def)
  have keep: "settled g now grace r = r" for grace using answer(2) by (simp add: settled_def gate_states)
  have st: "terminalGitHubCheckGateStatus (rs_status r)" "rs_status r \<noteq> GatePending"
    using answer(2) by (simp_all add: terminalGitHubCheckGateStatus_def gate_states)
  obtain d' where c: "gst_CompleteGitHubCheckGate (gt_id g) (rs_status r) r now (gw_db w1) =
      (Inr (completed_gate (rs_status r) r now now g1, True), (gw_db w1)\<lparr>pg_data := d'\<rparr>)"
    using complete_exact [OF h1(1) inv mem g1(2) st(1) answer(3), of now] unfolding g1(1) by blast
  have "gv_evaluateGitHubCheckGate ?s provider g w1 =
      (Inr (completed_gate (rs_status r) r now now g1), w1\<lparr>gw_db := (gw_db w1)\<lparr>pg_data := d'\<rparr>\<rparr>)"
    using g(3) h1(2) answer(1) keep st(2) c
    by (simp add: gv_evaluateGitHubCheckGate_def pg_gate_service_def Let_def only_gate_def pg_gate_store_def on_db_def)
  with out g1 answer(2) show ?thesis
    by (intro exI [of _ g1] exI [of _ w1] exI [of _ "completed_gate (rs_status r) r now now g1"]
        exI [of _ "w1\<lparr>gw_db := (gw_db w1)\<lparr>pg_data := d'\<rparr>\<rparr>"]) (simp add: completed_gate_def Let_def)
qed

text \<open>GitHub has seen the check \<open>build\<close> succeed, and nothing else.\<close>

definition ex_passed :: check_result where
  "ex_passed = (let run = \<lparr>gr_name = ''build'', gr_sha = [], gr_status = ''completed'', gr_conclusion = ''success'', gr_url = [],
       gr_details = [], gr_summary = [], gr_created = None, gr_started = None, gr_completed = None\<rparr> in
     \<lparr>rs_status = GatePassed, rs_summary = [], rs_failure = [], rs_reason = ReasonChecksPassed, rs_runs = [run], rs_observed = [run],
      rs_missing = [], rs_all_terminal = True\<rparr>)"

definition ex_provider :: "nat gate_world check_provider" where
  "ex_provider = \<lparr>cp_CheckCommit = (\<lambda>_ _ _ v. (Inr ex_passed, v)), cp_CheckChange = (\<lambda>_ v. (Inr ex_passed, v))\<rparr>"

lemma stale_pass_witness:
  "\<exists>g1 w1 g2 w2. gv_RegisterGitHubCheckGate (pg_gate_service ex_env) ''den'' 1 (ex_gate_request None) (ex_world (replicate 40 (CHR ''a''))) = (Inr g1, w1) \<and>
     gv_evaluateGitHubCheckGate (pg_gate_service ex_env) ex_provider (ex_row (replicate 40 (CHR ''a''))) w1 = (Inr g2, w2) \<and>
     gt_status g2 = GatePassed \<and> ''deploy'' \<in> set (gt_required g2) \<and> ''deploy'' \<notin> gr_name ` set (gt_observed g2)"
proof -
  let ?new = "ex_gate [''build'', ''deploy''] 7200000001000" and ?w = "ex_world (replicate 40 (CHR ''a''))" and ?g = "ex_row (replicate 40 (CHR ''a''))"
  have row: "row_lookup gate_key (gate_key ?new) (gd_gates (gate_data ?w)) = Some ?g" "gt_status ?g = GatePending" "1000 < gt_timeout ?g"
    by (simp_all add: ex_rows ex_row_def new_gate_def ex_gate_def gate_key_def)
  have answer: "\<forall>v. cp_CheckChange ex_provider (githubChangeQuery (gx_options ex_env) ?g) v = (Inr ex_passed, v)"
    "rs_status ex_passed = GatePassed" "rs_reason ex_passed \<noteq> []"
    by (simp_all add: ex_provider_def ex_passed_def Let_def ReasonChecksPassed_def)
  have "gt_required ?new = [''build'', ''deploy'']" "''deploy'' \<notin> gr_name ` set (rs_observed ex_passed)"
    by (simp_all add: ex_gate_def ex_passed_def Let_def)
  with stale_pass [OF ex_reach ex_rows(2) ex_accepts ex_int4 row answer] show ?thesis by force
qed

section \<open>Bounds of a request\<close>

text \<open>
  C13. A gate that is asked for names a repository and a full commit in lower case, at least one check and
  none that is blank, a ref and an actor; its interval is at least 30 seconds, and it ends after now and
  within the configured maximum. The requested seconds are multiplied in 64 bits before that is checked, so
  what is accepted is the remainder: 18446744074 seconds end after less than a third of a second.
\<close>

theorem request_bounds:
  assumes "githubGateFromRequest opts now project task q = Inr g"
  shows "validGitHubRepository (gt_repository g) \<and> validGitHubSHA (gt_sha g) \<and> gt_required g \<noteq> [] \<and>
    (\<forall>c\<in>set (gt_required g). c \<noteq> [] \<and> trim_space c = c) \<and> gt_ref g \<noteq> [] \<and> gt_by g \<noteq> [] \<and> gt_status g = GatePending \<and>
    30 \<le> gt_interval g \<and> now < gt_timeout g \<and> gt_timeout g \<le> now + go_max_timeout opts \<and>
    (\<forall>n. gr_timeout q = Some n \<longrightarrow> gt_timeout g = now + wrap64 (n * second_ns))"
proof -
  have trimmed: "\<forall>c\<in>set (trimSlice cs). c \<noteq> [] \<and> trim_space c = c" for cs using trimSlice_ok by blast
  have least: "30 \<le> defaultGitHubCheckPollInterval div second_ns" by (simp add: backoffs)
  have longer: "\<not> i < defaultGitHubCheckPollInterval \<Longrightarrow> 30 \<le> i div second_ns" for i
    using zdiv_mono1 [of "30 * second_ns" i second_ns] by (simp add: backoffs)
  have sec: "gr_timeout q = Some n \<Longrightarrow> seconds_or d (gr_timeout q) = wrap64 (n * second_ns)" for n d
    by (simp add: seconds_or_def)
  show ?thesis
    using assms trimmed [of "gr_required q"] least longer sec
    by (auto simp: githubGateFromRequest_def Let_def split: if_split_asm)
qed

lemma request_bounds_witness:
  "\<exists>g. githubGateFromRequest DefaultGitHubCheckOptions 1000 ''den'' 1 (ex_gate_request (Some 18446744074)) = Inr g \<and>
     gt_timeout g = 1000 + 290448384 \<and> 30 \<le> gt_interval g"
proof -
  have g: "githubGateFromRequest DefaultGitHubCheckOptions 1000 ''den'' 1 (ex_gate_request (Some 18446744074)) = Inr (ex_gate [''build'', ''deploy''] 290449384)"
    by code_simp
  from request_bounds [OF g] have "30 \<le> gt_interval (ex_gate [''build'', ''deploy''] 290449384)" by blast
  with g show ?thesis by (intro exI [of _ "ex_gate [''build'', ''deploy''] 290449384"]) (simp, simp add: ex_gate_def)
qed

section \<open>The poller\<close>




end
