(* ===== verification/Review_Rounds.thy ===== *)
theory Review_Rounds
  imports Review_Checks Pg_Tx
begin

text \<open>
  Package \<open>review\<close>, the PostgreSQL store of review rounds, findings, packets and finalizations
  (\<open>store.go\<close>). A row is what the columns read back: a null text is the empty string, a null list the
  empty list. A packet's validation errors, which only packets from Markdown carry, are left out; the
  values of an envelope are \<open>any_value\<close>s, and its front matter equals the envelope.
\<close>

section \<open>Constants\<close>

definition VerdictChangesRequested :: string where "VerdictChangesRequested = ''changes_requested''"
definition VerdictLooksGood :: string where "VerdictLooksGood = ''looks_good''"
definition VerdictFollowUpNeeded :: string where "VerdictFollowUpNeeded = ''follow_up_needed''"
definition VerdictBlockedByDependency :: string where "VerdictBlockedByDependency = ''blocked_by_dependency''"
definition VerdictSuperseded :: string where "VerdictSuperseded = ''superseded''"

lemmas verdicts = VerdictChangesRequested_def VerdictLooksGood_def VerdictFollowUpNeeded_def
  VerdictBlockedByDependency_def VerdictSuperseded_def

definition FindingOpen :: string where "FindingOpen = ''open''"
definition FindingClaimedFixed :: string where "FindingClaimedFixed = ''claimed_fixed''"
definition FindingVerifiedFixed :: string where "FindingVerifiedFixed = ''verified_fixed''"
definition FindingNotFixed :: string where "FindingNotFixed = ''not_fixed''"
definition FindingSuperseded :: string where "FindingSuperseded = ''superseded''"
definition FindingSplit :: string where "FindingSplit = ''split_to_follow_up''"

lemmas finding_statuses = FindingOpen_def FindingClaimedFixed_def FindingVerifiedFixed_def FindingNotFixed_def
  FindingSuperseded_def FindingSplit_def

definition KindReviewRequest :: string where "KindReviewRequest = ''review_request''"
definition KindRereviewRequest :: string where "KindRereviewRequest = ''rereview_request''"
definition KindReviewFindings :: string where "KindReviewFindings = ''review_findings''"
definition KindResponse :: string where "KindResponse = ''implementer_response''"
definition KindCompletion :: string where "KindCompletion = ''completion_evidence''"

definition PacketValid :: string where "PacketValid = ''valid''"
definition PacketAccepted :: string where "PacketAccepted = ''accepted''"
definition PacketPendingAppend :: string where "PacketPendingAppend = ''pending_message_append''"

definition FinalPending :: string where "FinalPending = ''pending''"
definition FinalPosted :: string where "FinalPosted = ''packet_posted''"
definition FinalTransitioned :: string where "FinalTransitioned = ''task_transitioned''"
definition FinalComplete :: string where "FinalComplete = ''complete''"
definition FinalRetryable :: string where "FinalRetryable = ''retryable_error''"

lemmas final_states = FinalPending_def FinalPosted_def FinalTransitioned_def FinalComplete_def FinalRetryable_def

definition StepDelivery :: string where "StepDelivery = ''packet_delivery''"
definition StepTransition :: string where "StepTransition = ''task_transition''"
definition StepCompletion :: string where "StepCompletion = ''completion''"

lemmas final_steps = StepDelivery_def StepTransition_def StepCompletion_def

definition ErrMissingRound :: go_err where "ErrMissingRound = review_error ''review round not found''"
definition ErrMissingFinding :: go_err where "ErrMissingFinding = review_error ''review finding not found''"
definition ErrFinalizationConflict :: go_err where
  "ErrFinalizationConflict = review_error ''review round was finalized with different decision identity''"
definition ErrStaleReviewRound :: go_err where "ErrStaleReviewRound = review_error ''review round is no longer current''"

definition resolvedStatus :: "string \<Rightarrow> bool" where
  "resolvedStatus s \<longleftrightarrow> s = FindingVerifiedFixed \<or> s = FindingSuperseded \<or> s = FindingSplit"

section \<open>Rows\<close>

datatype any_value = AStr string | AInt int | AStrs "string list" | ARecs "(string \<times> any_value) list list"

record campaign_child =
  cc_project :: string
  cc_task :: int
  cc_round :: int
  cc_membership :: string
  cc_verdict :: string

record review_round =
  rd_id :: int
  rd_project :: string
  rd_task :: int
  rd_number :: int
  rd_by :: string
  rd_kind :: string
  rd_children :: "campaign_child list"
  rd_repositories :: "string list"
  rd_branch :: string
  rd_base :: string
  rd_tests :: "string list"
  rd_notes :: string
  rd_verdict :: string
  rd_verdict_by :: string
  rd_verdict_notes :: string
  rd_requested :: time
  rd_verdict_at :: "time option"
  rd_created :: time
  rd_updated :: time

text \<open>\<open>fd_round_number\<close> is the number of the finding's round, which its statements join and none changes.\<close>

record finding =
  fd_id :: int
  fd_project :: string
  fd_key :: string
  fd_task :: int
  fd_round :: int
  fd_round_number :: int
  fd_number :: int
  fd_by :: string
  fd_category :: string
  fd_summary :: string
  fd_notes :: string
  fd_files :: "string list"
  fd_tests :: "string list"
  fd_status :: string
  fd_status_by :: string
  fd_status_notes :: string
  fd_status_at :: "time option"
  fd_response_by :: string
  fd_response_notes :: string
  fd_response_at :: "time option"
  fd_follow_up :: "int option"
  fd_run :: string
  fd_role :: string
  fd_created :: time
  fd_updated :: time

record finding_event =
  fe_project :: string
  fe_task :: int
  fe_round :: int
  fe_finding :: int
  fe_kind :: string
  fe_actor :: string
  fe_old :: string
  fe_new :: string
  fe_notes :: string
  fe_response :: string
  fe_follow_up :: "int option"
  fe_run :: string
  fe_role :: string
  fe_created :: time

record packet =
  pk_id :: int
  pk_project :: string
  pk_task :: int
  pk_round :: "int option"
  pk_kind :: string
  pk_sender :: string
  pk_message :: "int option"
  pk_envelope :: "(string \<times> any_value) list"
  pk_source :: string
  pk_status :: string
  pk_key :: string
  pk_created :: time
  pk_accepted :: "time option"
  pk_transition :: string
  pk_resulting :: string

record finalization =
  fz_id :: int
  fz_project :: string
  fz_task :: int
  fz_round :: int
  fz_verdict :: string
  fz_by :: string
  fz_notes :: string
  fz_thread :: "int option"
  fz_run :: string
  fz_role :: string
  fz_target :: string
  fz_packet :: int
  fz_key :: string
  fz_digest :: string
  fz_packet_key :: string
  fz_state :: string
  fz_message :: "int option"
  fz_posted :: "time option"
  fz_transitioned :: "time option"
  fz_completed :: "time option"
  fz_error_step :: string
  fz_error :: string
  fz_message_attempts :: int
  fz_task_attempts :: int
  fz_created :: time
  fz_updated :: time

record review_tables =
  rv_rounds :: "review_round list"
  rv_next_round :: int
  rv_findings :: "finding list"
  rv_next_finding :: int
  rv_events :: "finding_event list"
  rv_packets :: "packet list"
  rv_next_packet :: int
  rv_finals :: "finalization list"
  rv_next_final :: int

type_synonym 'a rv_stmt = "(review_tables, 'a) stmt"

section \<open>Statements on rounds\<close>

definition of_task :: "string \<Rightarrow> int \<Rightarrow> review_tables \<Rightarrow> review_round list" where
  "of_task project task d = filter (\<lambda>r. rd_project r = project \<and> rd_task r = task) (rv_rounds d)"

definition last_row :: "'r list \<Rightarrow> 'r option" where
  "last_row rs = (if rs = [] then None else Some (last rs))"

definition latestRoundSQL :: "string \<Rightarrow> int \<Rightarrow> int option rv_stmt" where
  "latestRoundSQL project task = read_only (\<lambda>d. map_option rd_number (last_row (sort_key rd_number (of_task project task d))))"

definition createRoundSQL :: "review_round \<Rightarrow> review_round rv_stmt" where
  "createRoundSQL r d =
     (if \<exists>x\<in>set (rv_rounds d). rd_project x = rd_project r \<and> rd_task x = rd_task r \<and> rd_number x = rd_number r then None
      else
        let new = r\<lparr>rd_id := rv_next_round d, rd_verdict := [], rd_verdict_by := [], rd_verdict_notes := [], rd_verdict_at := None\<rparr>
        in Some (new, d\<lparr>rv_rounds := rv_rounds d @ [new], rv_next_round := rv_next_round d + 1\<rparr>))"

definition listRoundsSQL :: "string \<Rightarrow> int \<Rightarrow> review_round list rv_stmt" where
  "listRoundsSQL project task = read_only (\<lambda>d. sort_key rd_number (of_task project task d))"

definition getRoundSQL :: "int \<Rightarrow> review_round option rv_stmt" where
  "getRoundSQL i = read_only (\<lambda>d. row_lookup rd_id i (rv_rounds d))"

definition currentRoundForUpdateSQL :: "string \<Rightarrow> int \<Rightarrow> review_round option rv_stmt" where
  "currentRoundForUpdateSQL project task =
     read_only (\<lambda>d. last_row (sort_key (\<lambda>r. (rd_number r, rd_id r)) (of_task project task d)))"

definition lockReviewTaskSQL :: "unit rv_stmt" where
  "lockReviewTaskSQL = read_only (\<lambda>_. ())"

definition decided_round :: "string \<Rightarrow> string \<Rightarrow> string \<Rightarrow> time \<Rightarrow> review_round \<Rightarrow> review_round" where
  "decided_round verdict by notes at r =
     r\<lparr>rd_verdict := verdict, rd_verdict_by := by, rd_verdict_notes := notes, rd_verdict_at := Some at, rd_updated := at\<rparr>"

definition setVerdictSQL :: "int \<Rightarrow> string \<Rightarrow> string \<Rightarrow> string \<Rightarrow> time \<Rightarrow> review_round option rv_stmt" where
  "setVerdictSQL i verdict by notes at d =
     (case row_lookup rd_id i (rv_rounds d) of
        None \<Rightarrow> Some (None, d)
      | Some r \<Rightarrow>
          if rd_verdict r = VerdictSuperseded then Some (None, d)
          else Some (Some (decided_round verdict by notes at r),
            d\<lparr>rv_rounds := update_where (\<lambda>r. rd_id r = i) (decided_round verdict by notes at) (rv_rounds d)\<rparr>))"

text \<open>Whether a round has findings or a finalization.\<close>

definition roundReviewedSQL :: "int \<Rightarrow> bool rv_stmt" where
  "roundReviewedSQL i =
     read_only (\<lambda>d. (\<exists>f\<in>set (rv_findings d). fd_round f = i) \<or> (\<exists>z\<in>set (rv_finals d). fz_round z = i))"

definition roundVerdictSQL :: "int \<Rightarrow> string option rv_stmt" where
  "roundVerdictSQL i = read_only (\<lambda>d. map_option rd_verdict (row_lookup rd_id i (rv_rounds d)))"

section \<open>Statements on findings\<close>

record findings_query =
  fq_project :: string
  fq_task :: int
  fq_round :: "int option"
  fq_statuses :: "string list"
  fq_resolved :: "bool option"

definition nextFindingNumberSQL :: "string \<Rightarrow> int \<Rightarrow> int rv_stmt" where
  "nextFindingNumberSQL project task =
     read_only (\<lambda>d. Max (insert 0 (fd_number ` set (filter (\<lambda>f. fd_project f = project \<and> fd_task f = task) (rv_findings d)))) + 1)"

definition createFindingSQL :: "finding \<Rightarrow> finding rv_stmt" where
  "createFindingSQL f d =
     (case row_lookup rd_id (fd_round f) (rv_rounds d) of
        None \<Rightarrow> None
      | Some r \<Rightarrow>
          if \<exists>x\<in>set (rv_findings d). fd_key x = fd_key f \<or>
              (fd_project x = fd_project f \<and> fd_task x = fd_task f \<and> fd_number x = fd_number f) then None
          else
            let new = f\<lparr>fd_id := rv_next_finding d, fd_round_number := rd_number r, fd_status_by := [], fd_status_notes := [],
                  fd_status_at := None, fd_response_by := [], fd_response_notes := [], fd_response_at := None, fd_follow_up := None\<rparr>
            in Some (new, d\<lparr>rv_findings := rv_findings d @ [new], rv_next_finding := rv_next_finding d + 1\<rparr>))"

definition listFindingsSQL :: "findings_query \<Rightarrow> finding list rv_stmt" where
  "listFindingsSQL q =
     read_only (\<lambda>d. sort_key fd_number (filter (\<lambda>f.
       fd_project f = fq_project q \<and> fd_task f = fq_task q \<and>
       (case fq_round q of None \<Rightarrow> True | Some i \<Rightarrow> fd_round f = i) \<and>
       (fq_statuses q = [] \<or> fd_status f \<in> set (fq_statuses q)) \<and>
       (case fq_resolved q of None \<Rightarrow> True | Some b \<Rightarrow> resolvedStatus (fd_status f) = b)) (rv_findings d)))"

definition getFindingSQL :: "int \<Rightarrow> finding option rv_stmt" where
  "getFindingSQL i = read_only (\<lambda>d. row_lookup fd_id i (rv_findings d))"

record finding_response =
  fr_by :: string
  fr_notes :: string
  fr_status :: string
  fr_status_notes :: string
  fr_follow_up :: "int option"
  fr_run :: string
  fr_role :: string

definition keep_text :: "string \<Rightarrow> string \<Rightarrow> string" where
  "keep_text new old = (if new = [] then old else new)"

definition responded_finding :: "finding_response \<Rightarrow> time \<Rightarrow> finding \<Rightarrow> finding" where
  "responded_finding u at f =
     (let keep = (fr_status u = []) in
      f\<lparr>fd_response_by := fr_by u, fd_response_notes := fr_notes u, fd_response_at := Some at,
        fd_status := keep_text (fr_status u) (fd_status f),
        fd_status_by := (if keep then fd_status_by f else fr_by u),
        fd_status_notes := (if keep then fd_status_notes f else fr_status_notes u),
        fd_status_at := (if keep then fd_status_at f else Some at),
        fd_follow_up := (if fr_status u = FindingSplit then fr_follow_up u else if keep then fd_follow_up f else None),
        fd_run := keep_text (fr_run u) (fd_run f), fd_role := keep_text (fr_role u) (fd_role f), fd_updated := at\<rparr>)"

definition update_finding :: "int \<Rightarrow> (finding \<Rightarrow> finding) \<Rightarrow> finding option rv_stmt" where
  "update_finding i f d =
     Some (map_option f (row_lookup fd_id i (rv_findings d)),
       d\<lparr>rv_findings := update_where (\<lambda>r. fd_id r = i) f (rv_findings d)\<rparr>)"

definition respondFindingSQL :: "int \<Rightarrow> finding_response \<Rightarrow> time \<Rightarrow> finding option rv_stmt" where
  "respondFindingSQL i u at = update_finding i (responded_finding u at)"

record finding_status_update =
  fu_status :: string
  fu_by :: string
  fu_notes :: string
  fu_follow_up :: "int option"
  fu_run :: string
  fu_role :: string

definition statused_finding :: "finding_status_update \<Rightarrow> time \<Rightarrow> finding \<Rightarrow> finding" where
  "statused_finding u at f =
     f\<lparr>fd_status := fu_status u, fd_status_by := fu_by u, fd_status_notes := fu_notes u, fd_status_at := Some at,
       fd_follow_up := (if fu_status u = FindingSplit then fu_follow_up u else None),
       fd_run := keep_text (fu_run u) (fd_run f), fd_role := keep_text (fu_role u) (fd_role f), fd_updated := at\<rparr>"

definition setFindingStatusSQL :: "int \<Rightarrow> finding_status_update \<Rightarrow> time \<Rightarrow> finding option rv_stmt" where
  "setFindingStatusSQL i u at = update_finding i (statused_finding u at)"

definition insertFindingEventSQL :: "finding_event \<Rightarrow> unit rv_stmt" where
  "insertFindingEventSQL e d =
     (if \<exists>f\<in>set (rv_findings d). fd_id f = fe_finding e then Some ((), d\<lparr>rv_events := rv_events d @ [e]\<rparr>) else None)"

section \<open>Statements on packets\<close>

text \<open>On a conflict of the key the stored packet takes the new content; a null key conflicts with nothing.\<close>

definition stored_again :: "packet \<Rightarrow> packet \<Rightarrow> packet" where
  "stored_again p old =
     old\<lparr>pk_message := pk_message p, pk_envelope := pk_envelope p, pk_source := pk_source p, pk_status := pk_status p,
       pk_accepted := pk_accepted p\<rparr>"

definition same_key :: "packet \<Rightarrow> packet \<Rightarrow> bool" where
  "same_key p x \<longleftrightarrow> pk_key p \<noteq> [] \<and> pk_project x = pk_project p \<and> pk_key x = pk_key p"

definition storePacketSQL :: "packet \<Rightarrow> packet rv_stmt" where
  "storePacketSQL p d =
     (case find (same_key p) (rv_packets d) of
        Some old \<Rightarrow>
          Some (stored_again p old,
            d\<lparr>rv_packets := update_where (same_key p) (stored_again p) (rv_packets d), rv_next_packet := rv_next_packet d + 1\<rparr>)
      | None \<Rightarrow>
          let new = p\<lparr>pk_id := rv_next_packet d, pk_transition := [], pk_resulting := []\<rparr>
          in Some (new, d\<lparr>rv_packets := rv_packets d @ [new], rv_next_packet := rv_next_packet d + 1\<rparr>))"

definition getPacketSQL :: "int \<Rightarrow> packet option rv_stmt" where
  "getPacketSQL i = read_only (\<lambda>d. row_lookup pk_id i (rv_packets d))"

definition getPacketByIdempotencySQL :: "string \<Rightarrow> string \<Rightarrow> packet option rv_stmt" where
  "getPacketByIdempotencySQL project key =
     read_only (\<lambda>d. find (\<lambda>p. pk_project p = project \<and> pk_key p = key) (rv_packets d))"

text \<open>Posted packets before others, then the latest accepted (a null last), then the latest.\<close>

definition findings_packet_order :: "packet \<Rightarrow> bool \<times> (bool \<times> time) \<times> int" where
  "findings_packet_order p =
     (pk_message p \<noteq> None, (case pk_accepted p of None \<Rightarrow> (False, 0) | Some t \<Rightarrow> (True, t)), pk_id p)"

definition getReviewFindingsPacketForRoundSQL :: "int \<Rightarrow> packet option rv_stmt" where
  "getReviewFindingsPacketForRoundSQL i =
     read_only (\<lambda>d. last_row (sort_key findings_packet_order
       (filter (\<lambda>p. pk_round p = Some i \<and> pk_kind p = KindReviewFindings) (rv_packets d))))"

definition accepted_packet :: "int \<Rightarrow> time \<Rightarrow> packet \<Rightarrow> packet" where
  "accepted_packet message at p =
     p\<lparr>pk_message := (case pk_message p of None \<Rightarrow> Some message | m \<Rightarrow> m), pk_status := PacketAccepted,
       pk_accepted := (case pk_accepted p of None \<Rightarrow> Some at | t \<Rightarrow> t)\<rparr>"

definition acceptPacketSQL :: "int \<Rightarrow> int \<Rightarrow> time \<Rightarrow> packet option rv_stmt" where
  "acceptPacketSQL i message at d =
     Some (map_option (accepted_packet message at) (row_lookup pk_id i (rv_packets d)),
       d\<lparr>rv_packets := update_where (\<lambda>p. pk_id p = i) (accepted_packet message at) (rv_packets d)\<rparr>)"

section \<open>Statements on finalizations\<close>

definition getFinalizationByRoundSQL :: "int \<Rightarrow> finalization option rv_stmt" where
  "getFinalizationByRoundSQL i = read_only (\<lambda>d. row_lookup fz_round i (rv_finals d))"

definition getFinalizationForUpdateSQL :: "int \<Rightarrow> finalization option rv_stmt" where
  "getFinalizationForUpdateSQL i = read_only (\<lambda>d. row_lookup fz_id i (rv_finals d))"

definition insertFinalizationSQL :: "finalization \<Rightarrow> finalization rv_stmt" where
  "insertFinalizationSQL z d =
     (if (\<exists>x\<in>set (rv_finals d). fz_round x = fz_round z \<or> fz_key x = fz_key z) \<or>
         row_lookup rd_id (fz_round z) (rv_rounds d) = None \<or> row_lookup pk_id (fz_packet z) (rv_packets d) = None then None
      else
        let new = z\<lparr>fz_id := rv_next_final d, fz_transitioned := None, fz_completed := None, fz_error_step := [], fz_error := [],
              fz_message_attempts := 0, fz_task_attempts := 0\<rparr>
        in Some (new, d\<lparr>rv_finals := rv_finals d @ [new], rv_next_final := rv_next_final d + 1\<rparr>))"

definition update_final :: "int \<Rightarrow> (finalization \<Rightarrow> bool) \<Rightarrow> (finalization \<Rightarrow> finalization) \<Rightarrow> finalization option rv_stmt" where
  "update_final i P f d =
     (case row_lookup fz_id i (rv_finals d) of
        None \<Rightarrow> Some (None, d)
      | Some z \<Rightarrow>
          if P z then Some (Some (f z), d\<lparr>rv_finals := update_where (\<lambda>x. fz_id x = i) f (rv_finals d)\<rparr>)
          else Some (None, d))"

definition keep_first :: "'a option \<Rightarrow> 'a \<Rightarrow> 'a option" where
  "keep_first old new = (case old of None \<Rightarrow> Some new | _ \<Rightarrow> old)"

definition posted_final :: "int \<Rightarrow> time \<Rightarrow> finalization \<Rightarrow> finalization" where
  "posted_final message at z =
     z\<lparr>fz_state := (if fz_state z = FinalComplete then fz_state z else FinalPosted), fz_message := keep_first (fz_message z) message,
       fz_posted := keep_first (fz_posted z) at, fz_error_step := [], fz_error := [],
       fz_message_attempts := max (fz_message_attempts z) 1, fz_updated := at\<rparr>"

definition markFinalizationPacketPostedSQL :: "int \<Rightarrow> int \<Rightarrow> time \<Rightarrow> finalization option rv_stmt" where
  "markFinalizationPacketPostedSQL i message at = update_final i (\<lambda>_. True) (posted_final message at)"

definition transitioned_final :: "time \<Rightarrow> finalization \<Rightarrow> finalization" where
  "transitioned_final at z =
     z\<lparr>fz_state := (if fz_state z = FinalComplete then fz_state z else FinalTransitioned),
       fz_transitioned := keep_first (fz_transitioned z) at, fz_error_step := [], fz_error := [],
       fz_task_attempts := max (fz_task_attempts z) 1, fz_updated := at\<rparr>"

definition markFinalizationTaskTransitionedSQL :: "int \<Rightarrow> time \<Rightarrow> finalization option rv_stmt" where
  "markFinalizationTaskTransitionedSQL i at = update_final i (\<lambda>_. True) (transitioned_final at)"

definition completed_final :: "time \<Rightarrow> finalization \<Rightarrow> finalization" where
  "completed_final at z =
     z\<lparr>fz_state := FinalComplete, fz_completed := keep_first (fz_completed z) at, fz_error_step := [], fz_error := [], fz_updated := at\<rparr>"

definition completeFinalizationSQL :: "int \<Rightarrow> time \<Rightarrow> finalization option rv_stmt" where
  "completeFinalizationSQL i at =
     update_final i (\<lambda>z. fz_posted z \<noteq> None \<and> fz_transitioned z \<noteq> None) (completed_final at)"

definition past_step :: "string \<Rightarrow> finalization \<Rightarrow> bool" where
  "past_step step z \<longleftrightarrow> fz_state z = FinalComplete \<or> (step = StepDelivery \<and> fz_posted z \<noteq> None) \<or>
     (step = StepTransition \<and> fz_transitioned z \<noteq> None) \<or> (step = StepCompletion \<and> fz_completed z \<noteq> None)"

definition failed_final :: "string \<Rightarrow> string \<Rightarrow> time \<Rightarrow> finalization \<Rightarrow> finalization" where
  "failed_final step message at z =
     z\<lparr>fz_state := (if past_step step z then fz_state z else FinalRetryable),
       fz_error_step := (if past_step step z then fz_error_step z else step),
       fz_error := (if past_step step z then fz_error z else message),
       fz_message_attempts := (if step = StepDelivery then max (fz_message_attempts z) 1 else fz_message_attempts z),
       fz_task_attempts := (if step = StepTransition then max (fz_task_attempts z) 1 else fz_task_attempts z),
       fz_updated := at\<rparr>"

definition recordFinalizationErrorSQL :: "int \<Rightarrow> string \<Rightarrow> string \<Rightarrow> time \<Rightarrow> finalization option rv_stmt" where
  "recordFinalizationErrorSQL i step message at = update_final i (\<lambda>_. True) (failed_final step message at)"

section \<open>Packets and the methods of the store\<close>

text \<open>
  Package \<open>review\<close>, the rendering of packets (\<open>render.go\<close>, \<open>packet.go\<close>) and the methods of the store of
  rounds, findings, packets and finalizations (\<open>store.go\<close>). A packet's Markdown body equals its source.
\<close>

section \<open>Text\<close>

definition nl :: string where "nl = [CHR 0x0A]"

text \<open>\<open>strings.Fields\<close>: \<open>skip\<close> bytes of a separator are still to be passed, \<open>cur\<close> is the current field.\<close>

fun fields_from :: "nat \<Rightarrow> string \<Rightarrow> string \<Rightarrow> string list" where
  "fields_from skip cur [] = (if cur = [] then [] else [cur])"
| "fields_from skip cur (c # s) =
     (if skip > 0 then fields_from (skip - 1) cur s
      else case find (\<lambda>r. r \<noteq> [] \<and> prefix r (c # s)) space_runes of
        Some r \<Rightarrow> (if cur = [] then [] else [cur]) @ fields_from (length r - 1) [] s
      | None \<Rightarrow> fields_from 0 (cur @ [c]) s)"

definition collapseWhitespace :: "string \<Rightarrow> string" where
  "collapseWhitespace s = join_with '' '' (fields_from 0 [] s)"

definition or_default :: "string \<Rightarrow> string \<Rightarrow> string" where
  "or_default v d = firstNonEmpty [v, d]"

definition ReviewTargetCodeDiff :: string where "ReviewTargetCodeDiff = ''code_diff''"
definition ReviewTargetCampaign :: string where "ReviewTargetCampaign = ''campaign_reconciliation''"

section \<open>Packets\<close>

definition metadataTypeForPacket :: "string \<Rightarrow> string \<Rightarrow> string" where
  "metadataTypeForPacket kind verdict =
     (if kind = KindReviewRequest then ''review_request_packet''
      else if kind = KindRereviewRequest then ''rereview_packet''
      else if kind = KindReviewFindings then ''review_findings_packet''
      else if kind = KindCompletion then (if verdict = VerdictLooksGood then ''merge_request'' else ''review_feedback'')
      else kind)"

definition verdictType :: "string \<Rightarrow> string" where
  "verdictType verdict = (if verdict = VerdictLooksGood then ''merge_request'' else ''review_feedback'')"

definition packetKindForVerdict :: "string \<Rightarrow> string" where
  "packetKindForVerdict verdict = (if verdict = VerdictLooksGood then KindCompletion else KindReviewFindings)"

definition intentForVerdict :: "string \<Rightarrow> string" where
  "intentForVerdict verdict = (if verdict = VerdictLooksGood then ''review_approval'' else ''review_feedback'')"

definition intentForPacket :: "string \<Rightarrow> string \<Rightarrow> string" where
  "intentForPacket kind verdict =
     (if kind = KindReviewRequest \<or> kind = KindRereviewRequest then ''review_request''
      else if kind = KindCompletion then intentForVerdict verdict
      else ''review_feedback'')"

definition child_value :: "campaign_child \<Rightarrow> (string \<times> any_value) list" where
  "child_value c =
     [(''project_id'', AStr (cc_project c)), (''task_id'', AInt (cc_task c)), (''review_round_id'', AInt (cc_round c)),
      (''membership_kind'', AStr (cc_membership c)), (''approved_verdict'', AStr (cc_verdict c))]"

definition metadataForRound :: "review_round \<Rightarrow> string \<Rightarrow> string \<Rightarrow> string \<Rightarrow> (string \<times> any_value) list" where
  "metadataForRound r kind type verdict =
     [(''schema'', AStr ''den_review_packet''), (''schema_version'', AInt 1), (''type'', AStr type), (''packet_kind'', AStr kind),
      (''project_id'', AStr (rd_project r)), (''task_id'', AInt (rd_task r)), (''review_round_id'', AInt (rd_id r)),
      (''round_number'', AInt (rd_number r)), (''target_kind'', AStr (or_default (rd_kind r) ReviewTargetCodeDiff))] @
     (if rd_kind r = ReviewTargetCampaign then
        [(''campaign_children'', ARecs (map child_value (rd_children r))),
         (''campaign_repositories'', ARecs (map (\<lambda>x. [(''repository'', AStr x)]) (rd_repositories r)))]
      else [(''branch'', AStr (rd_branch r)), (''base_branch'', AStr (rd_base r))]) @
     (if verdict \<noteq> [] then [(''verdict'', AStr verdict)] else [])"

text \<open>Setting a key of a map.\<close>

definition put_key :: "string \<Rightarrow> any_value \<Rightarrow> (string \<times> any_value) list \<Rightarrow> (string \<times> any_value) list" where
  "put_key k v m = filter (\<lambda>x. fst x \<noteq> k) m @ [(k, v)]"

definition string_key :: "string \<Rightarrow> (string \<times> any_value) list \<Rightarrow> string" where
  "string_key k m = (case map_of m k of Some (AStr s) \<Rightarrow> trim_space s | _ \<Rightarrow> [])"

definition findingMetadata :: "finding list \<Rightarrow> any_value" where
  "findingMetadata fs =
     ARecs (map (\<lambda>f.
       [(''id'', AInt (fd_id f)), (''finding_key'', AStr (fd_key f)), (''review_round_number'', AInt (fd_round_number f)),
        (''category'', AStr (fd_category f)), (''status'', AStr (fd_status f)), (''summary'', AStr (fd_summary f)),
        (''file_references'', AStrs (fd_files f)), (''test_commands'', AStrs (fd_tests f))] @
       (case fd_follow_up f of None \<Rightarrow> [] | Some i \<Rightarrow> [(''follow_up_task_id'', AInt i)])) fs)"

definition uniqueFindingValues :: "finding list \<Rightarrow> (finding \<Rightarrow> string list) \<Rightarrow> string list" where
  "uniqueFindingValues fs values =
     rev (remdups (rev (filter (\<lambda>v. v \<noteq> []) (map trim_space (concat (map values fs))))))"

definition appendListSection :: "string \<Rightarrow> string list \<Rightarrow> string" where
  "appendListSection heading items =
     nl @ heading @ '':'' @ nl @
     (if items = [] then ''- (none recorded)'' @ nl else concat (map (\<lambda>x. ''- '' @ x @ nl) items))"

definition currentFindingDisplayNote :: "finding \<Rightarrow> string" where
  "currentFindingDisplayNote f =
     (if fd_status_notes f \<noteq> [] then fd_status_notes f
      else if fd_response_notes f = [] then []
      else if (case fd_status_at f of None \<Rightarrow> True
               | Some t \<Rightarrow> (case fd_response_at f of None \<Rightarrow> False | Some u \<Rightarrow> u > t)) then fd_response_notes f
      else if fd_status f = FindingClaimedFixed \<and> fd_status_by f = fd_response_by f then fd_response_notes f
      else [])"

definition unresolved_line :: "finding \<Rightarrow> string" where
  "unresolved_line f =
     (let detail = currentFindingDisplayNote f in
      fd_key f @ '' '' @ fd_category f @ '' '' @ fd_status f @ '' '' @ fd_summary f @
      (if detail \<noteq> [] then '' ('' @ collapseWhitespace detail @ '')'' else []))"

definition unresolvedFindingSummaries :: "finding list \<Rightarrow> string list" where
  "unresolvedFindingSummaries fs = map unresolved_line (filter (\<lambda>f. \<not> resolvedStatus (fd_status f)) fs)"

definition finding_block :: "finding \<Rightarrow> string" where
  "finding_block f =
     nl @ fd_key f @ '' - '' @ fd_category f @ nl @ ''Status: '' @ fd_status f @ nl @ ''Summary: '' @ fd_summary f @ nl @
     (if fd_files f \<noteq> [] then ''Files: '' @ join_with '', '' (fd_files f) @ nl else []) @
     (if fd_tests f \<noteq> [] then ''Tests: '' @ join_with '', '' (fd_tests f) @ nl else []) @
     (if fd_notes f \<noteq> [] then ''Notes: '' @ collapseWhitespace (fd_notes f) @ nl else [])"

record findings_request =
  ff_sender :: string
  ff_thread :: "int option"
  ff_notes :: string
  ff_run :: string
  ff_role :: string

definition findings_body :: "review_round \<Rightarrow> finding list \<Rightarrow> string list \<Rightarrow> findings_request \<Rightarrow> string" where
  "findings_body r fs open_lines q =
     trim_space
       (''Review findings'' @ nl @ nl @ ''Review round: `'' @ show_int (rd_number r) @ ''`'' @ nl @
        ''Verdict: `'' @ or_default (rd_verdict r) ''pending'' @ ''`'' @ nl @
        (if rd_kind r = ReviewTargetCampaign then
           ''Reviewed target: `campaign_reconciliation`'' @ nl @
           concat (map (\<lambda>c. ''Child: `'' @ cc_project c @ ''/'' @ show_int (cc_task c) @ ''` round `'' @ show_int (cc_round c) @ ''`'' @ nl) (rd_children r)) @
           concat (map (\<lambda>x. ''Repository: `'' @ x @ ''`'' @ nl) (rd_repositories r))
         else ''Reviewed source: current checkout'' @ nl) @
        appendListSection ''Reviewer test commands'' (uniqueFindingValues fs fd_tests) @
        nl @ ''Findings:'' @ nl @ (if fs = [] then ''- (none)'' @ nl else concat (map finding_block fs)) @
        appendListSection ''Open findings after review'' open_lines @
        (if trim_space (ff_notes q) \<noteq> [] then nl @ ''Notes:'' @ nl @ ''- '' @ collapseWhitespace (ff_notes q) @ nl else []))"

definition reviewFindingsPacket :: "review_round \<Rightarrow> finding list \<Rightarrow> string list \<Rightarrow> findings_request \<Rightarrow> packet" where
  "reviewFindingsPacket r fs open_lines q =
     (let body = findings_body r fs open_lines q;
          m = metadataForRound r KindReviewFindings (metadataTypeForPacket KindReviewFindings [])
                (or_default (rd_verdict r) VerdictChangesRequested);
          m = m @ [(''sender'', AStr (trim_space (ff_sender q))), (''findings'', findingMetadata fs), (''open_findings'', AStrs open_lines),
                   (''reviewer_test_commands'', AStrs (uniqueFindingValues fs fd_tests))] @
              (if trim_space (ff_run q) \<noteq> [] then [(''run_id'', AStr (trim_space (ff_run q)))] else []) @
              (if trim_space (ff_role q) \<noteq> [] then [(''subagent_role'', AStr (trim_space (ff_role q)))] else [])
      in \<lparr>pk_id = 0, pk_project = rd_project r, pk_task = rd_task r, pk_round = Some (rd_id r), pk_kind = KindReviewFindings,
          pk_sender = trim_space (ff_sender q), pk_message = None, pk_envelope = m, pk_source = body, pk_status = PacketValid,
          pk_key = [], pk_created = rd_updated r, pk_accepted = None, pk_transition = [], pk_resulting = []\<rparr>)"

definition renderReviewRequestPacket :: "review_round \<Rightarrow> string \<Rightarrow> string" where
  "renderReviewRequestPacket r kind =
     (if rd_kind r = ReviewTargetCampaign then ''# Campaign Reconciliation Review Request'' else ''# Review Request'') @ nl @ nl @
     ''- packet_kind: '' @ kind @ nl @ ''- project_id: '' @ rd_project r @ nl @ ''- task_id: '' @ show_int (rd_task r) @ nl @
     ''- review_round_id: '' @ show_int (rd_id r) @ nl @ ''- target_kind: '' @ or_default (rd_kind r) ReviewTargetCodeDiff @ nl @
     (if rd_kind r = ReviewTargetCampaign then
        nl @ ''## Approved child rounds'' @ nl @ nl @
        concat (map (\<lambda>c. ''- '' @ cc_project c @ ''/'' @ show_int (cc_task c) @ '' round '' @ show_int (cc_round c) @ '' ('' @ cc_membership c @ '')'' @ nl) (rd_children r)) @
        nl @ ''## Repositories'' @ nl @ nl @ concat (map (\<lambda>x. ''- '' @ x @ nl) (rd_repositories r)) @ nl
      else ''- branch: '' @ rd_branch r @ nl @ ''- base_branch: '' @ rd_base r @ nl @ ''- review_source: current checkout'' @ nl @ nl) @
     (if rd_notes r \<noteq> [] then ''## Notes'' @ nl @ nl @ rd_notes r @ nl @ nl else [])"

definition packetForRound :: "review_round \<Rightarrow> string \<Rightarrow> string \<Rightarrow> packet" where
  "packetForRound r kind run =
     \<lparr>pk_id = 0, pk_project = rd_project r, pk_task = rd_task r, pk_round = Some (rd_id r), pk_kind = kind, pk_sender = rd_by r,
      pk_message = None,
      pk_envelope = put_key ''packet_kind'' (AStr kind)
        (put_key ''run_id'' (AStr (trim_space run)) (metadataForRound r kind (metadataTypeForPacket kind []) [])),
      pk_source = renderReviewRequestPacket r kind, pk_status = PacketValid,
      pk_key = ''review-round:'' @ show_int (rd_id r) @ '':'' @ kind, pk_created = rd_created r, pk_accepted = None,
      pk_transition = [], pk_resulting = []\<rparr>"

definition renderVerdictPacket :: "review_round \<Rightarrow> string" where
  "renderVerdictPacket r =
     ''# Review Verdict'' @ nl @ nl @ ''- project_id: '' @ rd_project r @ nl @ ''- task_id: '' @ show_int (rd_task r) @ nl @
     ''- review_round_id: '' @ show_int (rd_id r) @ nl @ ''- verdict: '' @ rd_verdict r @ nl @ ''- decided_by: '' @ rd_verdict_by r @ nl @ nl @
     (if rd_verdict_notes r \<noteq> [] then rd_verdict_notes r @ nl else [])"

section \<open>Methods of one statement\<close>

type_synonym 'a rv_call = "review_tables pg \<Rightarrow> ((go_err + 'a) \<times> review_tables pg) option"

definition rv_query :: "string \<Rightarrow> ('q rv_stmt) \<Rightarrow> ('q \<Rightarrow> go_err + 'a) \<Rightarrow> 'a rv_call" where
  "rv_query ctx q answer db =
     (case pg_call q db of
        (Inl e, db') \<Rightarrow> Some (Inl (Wrapped ctx e []), db')
      | (Inr x, db') \<Rightarrow> Some (answer x, db'))"

definition found_or :: "go_err \<Rightarrow> 'a option \<Rightarrow> go_err + 'a" where
  "found_or e x = (case x of None \<Rightarrow> Inl e | Some y \<Rightarrow> Inr y)"

text \<open>A query of many rows and \<open>rows.Err\<close>.\<close>

definition rv_rows :: "string \<Rightarrow> 'r list rv_stmt \<Rightarrow> 'r list rv_call" where
  "rv_rows ctx q db =
     (case pg_call q db of
        (Inl e, db1) \<Rightarrow> Some (Inl (Wrapped ctx e []), db1)
      | (Inr rs, db1) \<Rightarrow>
          (case pg_call (read_only (\<lambda>_. ())) db1 of
             (Inl e, db2) \<Rightarrow> Some (Inl e, db2)
           | (Inr _, db2) \<Rightarrow> Some (Inr rs, db2)))"

definition no_round :: "int \<Rightarrow> go_err" where
  "no_round i = review_notFound (Wrapped [] ErrMissingRound ('': '' @ show_int i)) ''round_not_found''"

definition no_finding :: "int \<Rightarrow> go_err" where
  "no_finding i = review_notFound (Wrapped [] ErrMissingFinding ('': '' @ show_int i)) ''finding_not_found''"

definition no_final :: "int \<Rightarrow> go_err" where
  "no_final i = review_notFound (Errorf (''review finalization not found: '' @ show_int i)) ''review_finalization_not_found''"

definition rst_ListRounds :: "string \<Rightarrow> int \<Rightarrow> review_round list rv_call" where
  "rst_ListRounds project task = rv_rows ''listing review rounds: '' (listRoundsSQL project task)"

definition rst_GetRound :: "int \<Rightarrow> review_round rv_call" where
  "rst_GetRound i = rv_query (''getting review round '' @ show_int i @ '': '') (getRoundSQL i) (found_or (no_round i))"

definition rst_SetVerdict :: "int \<Rightarrow> string \<Rightarrow> string \<Rightarrow> string \<Rightarrow> time \<Rightarrow> review_round rv_call" where
  "rst_SetVerdict i verdict by notes at db =
     (case pg_call (setVerdictSQL i verdict by notes at) db of
        (Inl e, db1) \<Rightarrow> Some (Inl (Wrapped ''setting review verdict: '' e []), db1)
      | (Inr (Some r), db1) \<Rightarrow> Some (Inr r, db1)
      | (Inr None, db1) \<Rightarrow>
          (case rst_GetRound i db1 of
             None \<Rightarrow> None
           | Some (Inl _, db2) \<Rightarrow> Some (Inl (no_round i), db2)
           | Some (Inr r, db2) \<Rightarrow>
               Some (Inl (if rd_verdict r = VerdictSuperseded then review_conflict ErrStaleReviewRound ''stale_review_round'' else no_round i), db2)))"

definition rst_ListFindings :: "findings_query \<Rightarrow> finding list rv_call" where
  "rst_ListFindings q = rv_rows ''listing review findings: '' (listFindingsSQL q)"

definition rst_GetFinding :: "int \<Rightarrow> finding rv_call" where
  "rst_GetFinding i = rv_query (''getting review finding '' @ show_int i @ '': '') (getFindingSQL i) (found_or (no_finding i))"

definition rst_StorePacket :: "packet \<Rightarrow> packet rv_call" where
  "rst_StorePacket p = rv_query ''storing review packet: '' (storePacketSQL p) Inr"

definition rst_GetPacket :: "int \<Rightarrow> packet rv_call" where
  "rst_GetPacket i = rv_query (''getting review packet '' @ show_int i @ '': '') (getPacketSQL i)
     (found_or (review_notFound (Errorf (''review packet not found: '' @ show_int i)) ''packet_not_found''))"

definition rst_GetPacketByIdempotency :: "string \<Rightarrow> string \<Rightarrow> packet option rv_call" where
  "rst_GetPacketByIdempotency project key db =
     (if key = [] then Some (Inr None, db)
      else rv_query ''getting review packet by idempotency key: '' (getPacketByIdempotencySQL project key) Inr db)"

definition rst_GetReviewFindingsPacketForRound :: "int \<Rightarrow> packet option rv_call" where
  "rst_GetReviewFindingsPacketForRound i =
     rv_query (''getting review findings packet for round '' @ show_int i @ '': '') (getReviewFindingsPacketForRoundSQL i) Inr"

definition rst_GetFinalizationByRound :: "int \<Rightarrow> finalization option rv_call" where
  "rst_GetFinalizationByRound i =
     rv_query (''getting review finalization for round '' @ show_int i @ '': '') (getFinalizationByRoundSQL i) Inr"

definition rst_MarkFinalizationTaskTransitioned :: "int \<Rightarrow> time \<Rightarrow> finalization rv_call" where
  "rst_MarkFinalizationTaskTransitioned i at =
     rv_query ''recording finalization task checkpoint: '' (markFinalizationTaskTransitionedSQL i at) (found_or (no_final i))"

definition rst_CompleteFinalization :: "int \<Rightarrow> time \<Rightarrow> finalization rv_call" where
  "rst_CompleteFinalization i at =
     rv_query ''completing review finalization: '' (completeFinalizationSQL i at)
       (found_or (review_conflict (Errorf (''review finalization '' @ show_int i @ '' is missing a delivery checkpoint'')) ''review_finalization_incomplete''))"

definition rst_RecordFinalizationError :: "int \<Rightarrow> string \<Rightarrow> string \<Rightarrow> time \<Rightarrow> finalization rv_call" where
  "rst_RecordFinalizationError i step message at =
     rv_query ''recording review finalization error: '' (recordFinalizationErrorSQL i step message at) (found_or (no_final i))"

section \<open>Transactions\<close>

type_synonym 'a rv_tx = "(review_tables, 'a) tx_action"

text \<open>A statement of a row that must be there, as \<open>Scan\<close> demands it.\<close>

definition tx_row :: "string \<Rightarrow> 'r option rv_stmt \<Rightarrow> 'r rv_tx" where
  "tx_row ctx q = tx_wrap ctx (tx_bind (tx_call q) (\<lambda>x. case x of None \<Rightarrow> tx_fail ErrNoRows | Some r \<Rightarrow> tx_return r))"

text \<open>A statement of a row whose absence is the error \<open>e\<close>.\<close>

definition tx_found :: "string \<Rightarrow> go_err \<Rightarrow> 'r option rv_stmt \<Rightarrow> 'r rv_tx" where
  "tx_found ctx e q = tx_bind (tx_wrap ctx (tx_call q)) (\<lambda>x. case x of None \<Rightarrow> tx_fail e | Some r \<Rightarrow> tx_return r)"

definition tx_lock :: "string \<Rightarrow> unit rv_tx" where
  "tx_lock ctx = tx_wrap ctx (tx_call lockReviewTaskSQL)"

definition createRoundTx :: "review_round \<Rightarrow> review_round rv_tx" where
  "createRoundTx r =
     tx_bind (tx_wrap ''loading latest review round: '' (tx_call (latestRoundSQL (rd_project r) (rd_task r)))) (\<lambda>latest.
     let number = (case latest of None \<Rightarrow> 1 | Some n \<Rightarrow> n + 1) in
     tx_wrap ''creating review round: ''
       (tx_call (createRoundSQL (r\<lparr>rd_number := number, rd_kind := or_default (rd_kind r) ReviewTargetCodeDiff\<rparr>))))"

definition rst_CreateRound :: "review_round \<Rightarrow> review_round rv_call" where
  "rst_CreateRound r =
     run_tx ''beginning create review round: ''
       (tx_bind (tx_lock ''locking review task for round creation: '') (\<lambda>_.
        tx_bind (createRoundTx r) (\<lambda>created. tx_return (created, ''committing review round: ''))))"

definition sameReviewRequest :: "review_round \<Rightarrow> review_round \<Rightarrow> bool" where
  "sameReviewRequest existing requested \<longleftrightarrow>
     rd_kind existing = ReviewTargetCodeDiff \<and> rd_by existing = rd_by requested \<and> rd_branch existing = rd_branch requested \<and>
     rd_base existing = rd_base requested \<and> rd_tests existing = rd_tests requested \<and> rd_notes existing = rd_notes requested"

definition supersessionError :: "string \<Rightarrow> go_err" where
  "supersessionError message = review_conflict (Errorf message) ''round_not_supersedable''"

definition supersessionNotes :: "int \<Rightarrow> string \<Rightarrow> string" where
  "supersessionNotes i reason = ''Superseded by review round '' @ show_int i @ '': '' @ trim_space reason"

text \<open>The replay of a supersession: the current round, when it is the replacement that was asked for.\<close>

definition replayed_round :: "review_round \<Rightarrow> review_round \<Rightarrow> string \<Rightarrow> review_round option rv_tx" where
  "replayed_round r old reason =
     (if rd_verdict old = VerdictSuperseded then
        tx_bind (tx_row [] (currentRoundForUpdateSQL (rd_project r) (rd_task r))) (\<lambda>current.
        tx_return (if sameReviewRequest current r \<and> rd_verdict_notes old = supersessionNotes (rd_id current) reason then Some current else None))
      else tx_return None)"

text \<open>A transaction whose body may return before the commit (\<open>None\<close>), so that what it did is rolled back.\<close>

definition run_or_leave :: "string \<Rightarrow> ('a \<times> string option) rv_tx \<Rightarrow> 'a rv_call" where
  "run_or_leave begin_text body db =
     (case pg_call (read_only (\<lambda>_. ())) db of
        (Inl e, db0) \<Rightarrow> Some (Inl (Wrapped begin_text e []), db0)
      | (Inr _, db0) \<Rightarrow>
          (case body \<lparr>tx_pg = db0, tx_aborted = False\<rparr> of
             None \<Rightarrow> None
           | Some (Inl e, tx) \<Rightarrow> Some (Inl e, pg_rollback db0 (tx_pg tx))
           | Some (Inr (x, None), tx) \<Rightarrow> Some (Inr x, pg_rollback db0 (tx_pg tx))
           | Some (Inr (x, Some commit_text), tx) \<Rightarrow>
               (case tx_query (read_only (\<lambda>_. ())) tx of
                  (Inl e, tx') \<Rightarrow> Some (Inl (Wrapped commit_text e []), pg_rollback db0 (tx_pg tx'))
                | (Inr _, tx') \<Rightarrow> Some (Inr x, tx_pg tx'))))"

definition superseding_body :: "review_round \<Rightarrow> int \<Rightarrow> string \<Rightarrow> (review_round \<times> string option) rv_tx" where
  "superseding_body r supersedes reason =
     tx_bind (tx_lock ''locking task for review supersession: '') (\<lambda>_.
     tx_bind (tx_found ''loading superseded review round: '' (supersessionError ''supersedes_round does not exist'') (getRoundSQL supersedes)) (\<lambda>old.
     if rd_project old \<noteq> rd_project r \<or> rd_task old \<noteq> rd_task r then
       tx_fail (supersessionError ''supersedes_round must belong to the same task'')
     else
     tx_bind (replayed_round r old reason) (\<lambda>replay.
     case replay of
       Some current \<Rightarrow> tx_return (current, None)
     | None \<Rightarrow>
     if rd_verdict old \<noteq> [] then tx_fail (supersessionError ''supersedes_round already has a verdict'')
     else
     tx_bind (tx_wrap ''checking superseded round review evidence: '' (tx_call (roundReviewedSQL supersedes))) (\<lambda>reviewed.
     if reviewed then tx_fail (supersessionError ''supersedes_round already has review findings or finalization'')
     else
     tx_bind (createRoundTx r) (\<lambda>created.
     tx_bind (tx_wrap ''closing superseded review round: ''
       (tx_call (setVerdictSQL (rd_id old) VerdictSuperseded (rd_by r) (supersessionNotes (rd_id created) reason) (rd_requested r)))) (\<lambda>_.
     tx_return (created, Some ''committing review supersession: '')))))))"

definition rst_CreateRoundSuperseding :: "review_round \<Rightarrow> int \<Rightarrow> string \<Rightarrow> review_round rv_call" where
  "rst_CreateRoundSuperseding r supersedes reason = run_or_leave ''beginning review supersession: '' (superseding_body r supersedes reason)"

definition event_for :: "finding \<Rightarrow> string \<Rightarrow> string \<Rightarrow> string \<Rightarrow> string \<Rightarrow> string \<Rightarrow> int option \<Rightarrow> string \<Rightarrow> string \<Rightarrow> time \<Rightarrow> finding_event" where
  "event_for f kind actor old notes response follow_up run role at =
     \<lparr>fe_project = fd_project f, fe_task = fd_task f, fe_round = fd_round f, fe_finding = fd_id f, fe_kind = kind, fe_actor = actor,
      fe_old = old, fe_new = fd_status f, fe_notes = notes, fe_response = response, fe_follow_up = follow_up, fe_run = run,
      fe_role = role, fe_created = at\<rparr>"

definition writeFindingEvent :: "finding_event \<Rightarrow> unit rv_tx" where
  "writeFindingEvent e = tx_wrap ''writing finding event: '' (tx_call (insertFindingEventSQL e))"

definition finding_key_of :: "int \<Rightarrow> int \<Rightarrow> string" where
  "finding_key_of task number = ''R'' @ show_int task @ ''-'' @ show_int number"

definition create_finding_body :: "finding \<Rightarrow> (finding \<times> string) rv_tx" where
  "create_finding_body f =
     tx_bind (tx_lock ''locking review task for finding creation: '') (\<lambda>_.
     tx_bind (tx_row ''checking round before finding creation: '' (roundVerdictSQL (fd_round f))) (\<lambda>verdict.
     if verdict = VerdictSuperseded then tx_fail (review_conflict ErrStaleReviewRound ''stale_review_round'')
     else
     tx_bind (tx_wrap ''getting next finding number: '' (tx_call (nextFindingNumberSQL (fd_project f) (fd_task f)))) (\<lambda>number.
     tx_bind (tx_wrap ''creating review finding: ''
       (tx_call (createFindingSQL (f\<lparr>fd_number := number, fd_key := finding_key_of (fd_task f) number\<rparr>)))) (\<lambda>created.
     tx_bind (writeFindingEvent
       (event_for created ''finding_created'' (fd_by created) [] [] [] None (fd_run created) (fd_role created) (fd_created created))) (\<lambda>_.
     tx_return (created, ''committing review finding: ''))))))"

definition rst_CreateFinding :: "finding \<Rightarrow> finding rv_call" where
  "rst_CreateFinding f = run_tx ''beginning create finding: '' (create_finding_body f)"

text \<open>An error of this read is not wrapped.\<close>

definition getFindingTx :: "int \<Rightarrow> finding rv_tx" where
  "getFindingTx i =
     tx_bind (tx_call (getFindingSQL i)) (\<lambda>x. case x of None \<Rightarrow> tx_fail (no_finding i) | Some f \<Rightarrow> tx_return f)"

definition respond_body :: "int \<Rightarrow> finding_response \<Rightarrow> time \<Rightarrow> (finding \<times> string) rv_tx" where
  "respond_body i u at =
     tx_bind (getFindingTx i) (\<lambda>current.
     tx_bind (tx_row ''responding to review finding: '' (respondFindingSQL i u at)) (\<lambda>updated.
     tx_bind (writeFindingEvent
       (event_for updated ''implementer_response'' (fr_by u) (fd_status current) (fr_status_notes u) (fr_notes u) (fr_follow_up u) (fr_run u) (fr_role u) at)) (\<lambda>_.
     tx_return (updated, ''committing finding response: ''))))"

definition rst_RespondToFinding :: "int \<Rightarrow> finding_response \<Rightarrow> time \<Rightarrow> finding rv_call" where
  "rst_RespondToFinding i u at = run_tx ''beginning finding response: '' (respond_body i u at)"

definition finding_status_body :: "int \<Rightarrow> finding_status_update \<Rightarrow> time \<Rightarrow> (finding \<times> string) rv_tx" where
  "finding_status_body i u at =
     tx_bind (getFindingTx i) (\<lambda>current.
     tx_bind (tx_row ''setting review finding status: '' (setFindingStatusSQL i u at)) (\<lambda>updated.
     tx_bind (writeFindingEvent
       (event_for updated ''status_changed'' (fu_by u) (fd_status current) (fu_notes u) [] (fu_follow_up u) (fu_run u) (fu_role u) at)) (\<lambda>_.
     tx_return (updated, ''committing finding status: ''))))"

definition rst_SetFindingStatus :: "int \<Rightarrow> finding_status_update \<Rightarrow> time \<Rightarrow> finding rv_call" where
  "rst_SetFindingStatus i u at = run_tx ''beginning finding status: '' (finding_status_body i u at)"

section \<open>Finalization\<close>

record resolution =
  rs_finding :: int
  rs_resolved_as :: string
  rs_note :: string

record new_finding =
  nf_category :: string
  nf_summary :: string
  nf_notes :: string
  nf_files :: "string list"
  nf_tests :: "string list"

record mutation =
  mu_resolutions :: "resolution list"
  mu_new :: "new_finding list"

definition finalizationMaterialsMatch :: "finalization \<Rightarrow> finalization \<Rightarrow> bool" where
  "finalizationMaterialsMatch existing incoming \<longleftrightarrow>
     (let a = trim_space (fz_digest existing); b = trim_space (fz_digest incoming) in
      if a \<noteq> [] \<or> b \<noteq> [] then a \<noteq> [] \<and> a = b
      else trim_space (fz_key existing) = trim_space (fz_key incoming))"

definition apply_resolution :: "review_round \<Rightarrow> finalization \<Rightarrow> time \<Rightarrow> resolution \<Rightarrow> unit rv_tx" where
  "apply_resolution r z now x =
     tx_bind (getFindingTx (rs_finding x)) (\<lambda>current.
     if fd_project current \<noteq> rd_project r \<or> fd_task current \<noteq> rd_task r then
       tx_fail (review_notFound (Errorf (''finding '' @ show_int (rs_finding x) @ '' does not belong to this task'')) ''finding_not_found'')
     else
     tx_bind (tx_row (''applying finalization finding resolution '' @ show_int (rs_finding x) @ '': '')
       (respondFindingSQL (rs_finding x)
         \<lparr>fr_by = fz_by z, fr_notes = rs_note x, fr_status = rs_resolved_as x, fr_status_notes = rs_note x, fr_follow_up = None,
          fr_run = fz_run z, fr_role = fz_role z\<rparr> now)) (\<lambda>updated.
     writeFindingEvent
       (event_for updated ''review_finalization_resolution'' (fz_by z) (fd_status current) (rs_note x) (rs_note x) None (fz_run z) (fz_role z) now)))"

definition apply_new_finding :: "review_round \<Rightarrow> finalization \<Rightarrow> time \<Rightarrow> new_finding \<Rightarrow> unit rv_tx" where
  "apply_new_finding r z now x =
     tx_bind (tx_wrap ''getting next finalization finding number: '' (tx_call (nextFindingNumberSQL (rd_project r) (rd_task r)))) (\<lambda>number.
     tx_bind (tx_wrap ''creating finalization finding: '' (tx_call (createFindingSQL
       \<lparr>fd_id = 0, fd_project = rd_project r, fd_key = finding_key_of (rd_task r) number, fd_task = rd_task r, fd_round = rd_id r,
        fd_round_number = 0, fd_number = number, fd_by = fz_by z, fd_category = nf_category x, fd_summary = nf_summary x,
        fd_notes = nf_notes x, fd_files = nf_files x, fd_tests = nf_tests x, fd_status = FindingOpen, fd_status_by = [],
        fd_status_notes = [], fd_status_at = None, fd_response_by = [], fd_response_notes = [], fd_response_at = None,
        fd_follow_up = None, fd_run = fz_run z, fd_role = fz_role z, fd_created = now, fd_updated = now\<rparr>))) (\<lambda>created.
     writeFindingEvent
       (event_for created ''review_finalization_finding_created'' (fz_by z) [] [] [] None (fz_run z) (fz_role z) now)))"

definition applyFinalizationMutationTx :: "review_round \<Rightarrow> finalization \<Rightarrow> mutation \<Rightarrow> time \<Rightarrow> unit rv_tx" where
  "applyFinalizationMutationTx r z m now =
     tx_bind (tx_each (apply_resolution r z now) (mu_resolutions m)) (\<lambda>_.
     tx_each (apply_new_finding r z now) (mu_new m))"

definition task_findings :: "string \<Rightarrow> int \<Rightarrow> int option \<Rightarrow> findings_query" where
  "task_findings project task i = \<lparr>fq_project = project, fq_task = task, fq_round = i, fq_statuses = [], fq_resolved = None\<rparr>"

text \<open>Rows of a transaction, and \<open>rows.Err\<close>.\<close>

definition listFindingsTx :: "string \<Rightarrow> int \<Rightarrow> int option \<Rightarrow> finding list rv_tx" where
  "listFindingsTx project task i =
     tx_bind (tx_wrap ''listing finalization findings: '' (tx_call (listFindingsSQL (task_findings project task i)))) (\<lambda>fs.
     tx_bind (tx_wrap ''scanning finalization findings: '' (tx_call (read_only (\<lambda>_. ())))) (\<lambda>_. tx_return fs))"

definition request_of_final :: "finalization \<Rightarrow> findings_request" where
  "request_of_final z =
     \<lparr>ff_sender = fz_by z, ff_thread = fz_thread z, ff_notes = fz_notes z, ff_run = fz_run z, ff_role = fz_role z\<rparr>"

text \<open>The packet, rebuilt from the stored findings when the finalization changes any.\<close>

definition final_packet :: "review_round \<Rightarrow> finalization \<Rightarrow> packet \<Rightarrow> mutation \<Rightarrow> time \<Rightarrow> packet rv_tx" where
  "final_packet r z p m now =
     (if mu_resolutions m \<noteq> [] \<or> mu_new m \<noteq> [] then
        tx_bind (listFindingsTx (rd_project r) (rd_task r) (Some (rd_id r))) (\<lambda>mine.
        tx_bind (listFindingsTx (rd_project r) (rd_task r) None) (\<lambda>fs.
        let p' = reviewFindingsPacket (decided_round (fz_verdict z) (fz_by z) (fz_notes z) now r) mine (unresolvedFindingSummaries fs) (request_of_final z) in
        tx_return (p'\<lparr>pk_key := firstNonEmpty [pk_key p', fz_packet_key z]\<rparr>)))
      else tx_return p)"

definition reserved_final :: "finalization \<Rightarrow> packet \<Rightarrow> time \<Rightarrow> finalization" where
  "reserved_final z p now =
     (let z = z\<lparr>fz_packet := pk_id p, fz_digest := firstNonEmpty [fz_digest z, fz_key z], fz_packet_key := pk_key p, fz_state := FinalPending\<rparr> in
      case pk_message p of
        None \<Rightarrow> z
      | Some i \<Rightarrow> z\<lparr>fz_message := Some i, fz_posted := keep_first (pk_accepted p) now, fz_state := FinalPosted\<rparr>)"

text \<open>What follows when no finalization of the round is stored yet.\<close>

definition begin_new :: "review_round \<Rightarrow> finalization \<Rightarrow> packet \<Rightarrow> mutation \<Rightarrow> time \<Rightarrow> ((finalization \<times> packet \<times> review_round) \<times> string) rv_tx" where
  "begin_new r z p m now =
     tx_bind (tx_found ''loading current review round for finalization: ''
       (Errorf (''current review round disappeared while finalizing '' @ show_int (rd_id r))) (currentRoundForUpdateSQL (rd_project r) (rd_task r))) (\<lambda>current.
     if rd_id current \<noteq> rd_id r then
       tx_fail (review_conflict (Wrapped [] ErrStaleReviewRound
         ('': round '' @ show_int (rd_id r) @ '' is superseded by current round '' @ show_int (rd_id current))) ''stale_review_round'')
     else if rd_verdict r \<noteq> [] \<and> (rd_verdict r \<noteq> fz_verdict z \<or> rd_verdict_by r \<noteq> [] \<and> rd_verdict_by r \<noteq> fz_by z) then
       tx_fail (review_conflict ErrFinalizationConflict ''review_finalization_conflict'')
     else
     tx_bind (applyFinalizationMutationTx r z m now) (\<lambda>_.
     tx_bind (final_packet r z p m now) (\<lambda>p.
     tx_bind (tx_wrap ''reserving finalization packet: ''
       (tx_bind (tx_call (getReviewFindingsPacketForRoundSQL (fz_round z))) (\<lambda>x.
          case x of
            Some stored \<Rightarrow> tx_return stored
          | None \<Rightarrow> tx_call (storePacketSQL (p\<lparr>pk_status := PacketPendingAppend\<rparr>))))) (\<lambda>stored.
     tx_bind (tx_row ''persisting finalization verdict: '' (setVerdictSQL (rd_id r) (fz_verdict z) (fz_by z) (fz_notes z) now)) (\<lambda>round.
     tx_bind (tx_wrap ''creating review finalization: '' (tx_call (insertFinalizationSQL (reserved_final z stored now)))) (\<lambda>z'.
     tx_return ((z', stored, round), ''committing review finalization: '')))))))"

definition begin_body :: "finalization \<Rightarrow> packet \<Rightarrow> mutation \<Rightarrow> time \<Rightarrow> ((finalization \<times> packet \<times> review_round) \<times> string) rv_tx" where
  "begin_body z p m now =
     tx_bind (tx_lock ''locking review task for finalization: '') (\<lambda>_.
     tx_bind (tx_found ''locking review round for finalization: '' (no_round (fz_round z)) (getRoundSQL (fz_round z))) (\<lambda>r.
     tx_bind (tx_wrap ''checking existing review finalization: '' (tx_call (getFinalizationByRoundSQL (fz_round z)))) (\<lambda>x.
     case x of
       Some existing \<Rightarrow>
         if \<not> finalizationMaterialsMatch existing z then tx_fail (review_conflict ErrFinalizationConflict ''review_finalization_conflict'')
         else
         tx_bind (tx_row ''getting existing finalization packet: '' (getPacketSQL (fz_packet existing))) (\<lambda>stored.
         tx_return ((existing, stored, r), ''committing existing review finalization read: ''))
     | None \<Rightarrow> begin_new r z p m now)))"

definition rst_BeginFinalization :: "finalization \<Rightarrow> packet \<Rightarrow> mutation \<Rightarrow> time \<Rightarrow> (finalization \<times> packet \<times> review_round) rv_call" where
  "rst_BeginFinalization z p m now = run_tx ''beginning review finalization: '' (begin_body z p m now)"

definition mark_posted_body :: "int \<Rightarrow> int \<Rightarrow> time \<Rightarrow> ((finalization \<times> packet) \<times> string) rv_tx" where
  "mark_posted_body i message at =
     tx_bind (tx_found (''getting review finalization '' @ show_int i @ '': '') (no_final i) (getFinalizationForUpdateSQL i)) (\<lambda>current.
     tx_bind (tx_row ''accepting finalization packet: '' (acceptPacketSQL (fz_packet current) message at)) (\<lambda>p.
     tx_bind (tx_row ''recording finalization packet checkpoint: '' (markFinalizationPacketPostedSQL i message at)) (\<lambda>updated.
     tx_return ((updated, p), ''committing finalization packet checkpoint: ''))))"

definition rst_MarkFinalizationPacketPosted :: "int \<Rightarrow> int \<Rightarrow> time \<Rightarrow> (finalization \<times> packet) rv_call" where
  "rst_MarkFinalizationPacketPosted i message at = run_tx ''beginning finalization packet checkpoint: '' (mark_posted_body i message at)"

end
