(* ===== verification/Review_Service.thy ===== *)
theory Review_Service
  imports Review_Rounds Review_Gate_Service
begin

text \<open>
  Package \<open>review\<close>, the service of review rounds, findings and finalization (\<open>service.go\<close>), over the
  interfaces of its store, the tasks service, the projects service and the messages service. The part of
  the service that keeps the check gates is the record \<open>gate_service\<close>, whose task context it shares.
  The JSON and the hash behind the digest of a finalization are parameters; a receipt that accompanies an
  error, which the handler drops, is left out.
\<close>

section \<open>Operations\<close>

text \<open>An operation on a world; \<open>None\<close> is not returning.\<close>

type_synonym ('w, 'a) rv_op = "'w \<Rightarrow> ((go_err + 'a) \<times> 'w) option"

definition op_return :: "'a \<Rightarrow> ('w, 'a) rv_op" where
  "op_return x w = Some (Inr x, w)"

definition op_fail :: "go_err \<Rightarrow> ('w, 'a) rv_op" where
  "op_fail e w = Some (Inl e, w)"

definition op_bind :: "('w, 'a) rv_op \<Rightarrow> ('a \<Rightarrow> ('w, 'b) rv_op) \<Rightarrow> ('w, 'b) rv_op" where
  "op_bind m k w =
     (case m w of
        None \<Rightarrow> None
      | Some (Inl e, w') \<Rightarrow> Some (Inl e, w')
      | Some (Inr x, w') \<Rightarrow> k x w')"

text \<open>The result of an operation, error or not.\<close>

definition op_try :: "('w, 'a) rv_op \<Rightarrow> ('w, go_err + 'a) rv_op" where
  "op_try m w = (case m w of None \<Rightarrow> None | Some (r, w') \<Rightarrow> Some (Inr r, w'))"

definition op_lift :: "go_err + 'a \<Rightarrow> ('w, 'a) rv_op" where
  "op_lift r w = Some (r, w)"

text \<open>An operation that always returns, and a reading of the clock.\<close>

definition op_total :: "('w \<Rightarrow> (go_err + 'a) \<times> 'w) \<Rightarrow> ('w, 'a) rv_op" where
  "op_total m w = Some (m w)"

definition op_read :: "('w \<Rightarrow> 'a) \<Rightarrow> ('w, 'a) rv_op" where
  "op_read f w = Some (Inr (f w), w)"

section \<open>Interfaces\<close>

record packet_message =
  pm_task :: int
  pm_thread :: "int option"
  pm_sender :: string
  pm_content :: string
  pm_intent :: string
  pm_metadata :: "(string \<times> any_value) list"

record 'w review_store =
  st_CreateRound :: "review_round \<Rightarrow> ('w, review_round) rv_op"
  st_CreateRoundSuperseding :: "review_round \<Rightarrow> int \<Rightarrow> string \<Rightarrow> ('w, review_round) rv_op"
  st_ListRounds :: "string \<Rightarrow> int \<Rightarrow> ('w, review_round list) rv_op"
  st_GetRound :: "int \<Rightarrow> ('w, review_round) rv_op"
  st_SetVerdict :: "int \<Rightarrow> string \<Rightarrow> string \<Rightarrow> string \<Rightarrow> time \<Rightarrow> ('w, review_round) rv_op"
  st_CreateFinding :: "finding \<Rightarrow> ('w, finding) rv_op"
  st_ListFindings :: "findings_query \<Rightarrow> ('w, finding list) rv_op"
  st_GetFinding :: "int \<Rightarrow> ('w, finding) rv_op"
  st_RespondToFinding :: "int \<Rightarrow> finding_response \<Rightarrow> time \<Rightarrow> ('w, finding) rv_op"
  st_SetFindingStatus :: "int \<Rightarrow> finding_status_update \<Rightarrow> time \<Rightarrow> ('w, finding) rv_op"
  st_StorePacket :: "packet \<Rightarrow> ('w, packet) rv_op"
  st_GetPacket :: "int \<Rightarrow> ('w, packet) rv_op"
  st_GetPacketByIdempotency :: "string \<Rightarrow> string \<Rightarrow> ('w, packet option) rv_op"
  st_GetReviewFindingsPacketForRound :: "int \<Rightarrow> ('w, packet option) rv_op"
  st_GetFinalizationByRound :: "int \<Rightarrow> ('w, finalization option) rv_op"
  st_BeginFinalization :: "finalization \<Rightarrow> packet \<Rightarrow> mutation \<Rightarrow> time \<Rightarrow> ('w, finalization \<times> packet \<times> review_round) rv_op"
  st_MarkPosted :: "int \<Rightarrow> int \<Rightarrow> time \<Rightarrow> ('w, finalization \<times> packet) rv_op"
  st_MarkTransitioned :: "int \<Rightarrow> time \<Rightarrow> ('w, finalization) rv_op"
  st_Complete :: "int \<Rightarrow> time \<Rightarrow> ('w, finalization) rv_op"
  st_RecordError :: "int \<Rightarrow> string \<Rightarrow> string \<Rightarrow> time \<Rightarrow> ('w, finalization) rv_op"

record finalize_request =
  zq_round :: int
  zq_verdict :: string
  zq_by :: string
  zq_notes :: string
  zq_thread :: "int option"
  zq_run :: string
  zq_role :: string
  zq_resolutions :: "resolution list"
  zq_new :: "new_finding list"

record 'w review_service =
  sv_gates :: "'w gate_service"
  sv_store :: "'w review_store"
  sv_writable :: "string \<Rightarrow> ('w, unit) rv_op"
  sv_set_status :: "string \<Rightarrow> int \<Rightarrow> string \<Rightarrow> string \<Rightarrow> ('w, task_context) rv_op"
  sv_to_review :: "string \<Rightarrow> int \<Rightarrow> string \<Rightarrow> ('w, task_context \<times> string) rv_op"
  sv_append :: "string \<Rightarrow> packet_message \<Rightarrow> ('w, int) rv_op"
  sv_source :: "(string \<times> string \<times> string \<Rightarrow> ('w, unit) rv_op) option"
  sv_size :: "finalize_request \<Rightarrow> int"
  sv_digest :: "finalize_request \<Rightarrow> string"

definition sv_now :: "'w review_service \<Rightarrow> ('w, time) rv_op" where
  "sv_now s = op_read (gv_clock (sv_gates s))"

definition sv_task :: "'w review_service \<Rightarrow> string \<Rightarrow> int \<Rightarrow> ('w, task_context) rv_op" where
  "sv_task s project task = op_total (gv_task (sv_gates s) project task)"

definition sv_validateTask :: "'w review_service \<Rightarrow> string \<Rightarrow> int \<Rightarrow> string list \<Rightarrow> ('w, task_context) rv_op" where
  "sv_validateTask s project task allowed = op_total (validateTask (sv_gates s) project task allowed)"

definition TaskInProgress :: string where "TaskInProgress = ''in_progress''"
definition TaskReview :: string where "TaskReview = ''review''"
definition TaskDone :: string where "TaskDone = ''done''"

lemmas task_states = TaskInProgress_def TaskReview_def TaskDone_def

definition ErrInvalidVerdict :: go_err where "ErrInvalidVerdict = review_error ''invalid verdict''"
definition ErrInvalidCategory :: go_err where "ErrInvalidCategory = review_error ''invalid category''"
definition ErrReviewInvalidStatus :: go_err where "ErrReviewInvalidStatus = review_error ''invalid status''"
definition ErrFollowUpStatusMismatch :: go_err where
  "ErrFollowUpStatusMismatch = review_error ''follow_up_task_id requires split_to_follow_up status''"
definition ErrReviewRequestTooLarge :: go_err where
  "ErrReviewRequestTooLarge = review_error ''review request exceeds the bounded payload budget''"
definition ErrUnresolvedFindings :: go_err where
  "ErrUnresolvedFindings = review_error ''looks_good requires no unresolved findings for the task''"
definition ErrActionableFinding :: go_err where
  "ErrActionableFinding = review_error ''changes_requested requires an actionable finding in the current review round''"

definition validCategory :: "string \<Rightarrow> bool" where
  "validCategory c \<longleftrightarrow> c \<in> set [''blocking_bug'', ''acceptance_gap'', ''test_weakness'', ''follow_up_candidate'']"

definition validFindingStatus :: "string \<Rightarrow> bool" where
  "validFindingStatus s \<longleftrightarrow>
     s \<in> set [FindingOpen, FindingClaimedFixed, FindingVerifiedFixed, FindingNotFixed, FindingSuperseded, FindingSplit]"

section \<open>Packets\<close>

definition sv_appendPacketMessage :: "'w review_service \<Rightarrow> packet \<Rightarrow> int option \<Rightarrow> ('w, int) rv_op" where
  "sv_appendPacketMessage s p thread =
     sv_append s (pk_project p)
       \<lparr>pm_task = pk_task p, pm_thread = thread, pm_sender = pk_sender p, pm_content = pk_source p,
        pm_intent = intentForPacket (pk_kind p) (string_key ''verdict'' (pk_envelope p)),
        pm_metadata = put_key ''review_packet_id'' (AInt (pk_id p)) (pk_envelope p)\<rparr>"

definition sv_deliverReservedPacket :: "'w review_service \<Rightarrow> packet \<Rightarrow> int option \<Rightarrow> ('w, packet) rv_op" where
  "sv_deliverReservedPacket s p thread =
     op_bind (sv_appendPacketMessage s p thread) (\<lambda>message.
     op_bind (sv_now s) (\<lambda>now.
     st_StorePacket (sv_store s) (p\<lparr>pk_message := Some message, pk_status := PacketAccepted, pk_accepted := Some now\<rparr>)))"

text \<open>The packets that are accepted here carry a creation time and a key.\<close>

definition sv_acceptPacket :: "'w review_service \<Rightarrow> packet \<Rightarrow> int option \<Rightarrow> ('w, packet) rv_op" where
  "sv_acceptPacket s p thread =
     op_bind (st_GetPacketByIdempotency (sv_store s) (pk_project p) (pk_key p)) (\<lambda>found.
     case found of
       Some existing \<Rightarrow>
         if pk_status existing = PacketAccepted \<and> pk_message existing \<noteq> None then op_return existing
         else sv_deliverReservedPacket s existing thread
     | None \<Rightarrow>
         op_bind (st_StorePacket (sv_store s) (p\<lparr>pk_status := PacketPendingAppend, pk_accepted := None, pk_message := None\<rparr>)) (\<lambda>reserved.
         sv_deliverReservedPacket s reserved thread))"

section \<open>Rounds\<close>

record round_request =
  oq_by :: string
  oq_branch :: string
  oq_base :: string
  oq_tests :: "string list"
  oq_notes :: string
  oq_thread :: "int option"
  oq_run :: string
  oq_source :: "(string \<times> string \<times> string) option"
  oq_supersedes :: "int option"
  oq_reason :: string

definition roundFromRequest :: "string \<Rightarrow> int \<Rightarrow> round_request \<Rightarrow> time \<Rightarrow> go_err + review_round" where
  "roundFromRequest project task q now =
     (if trim_space (oq_by q) = [] then Inl (review_invalid ErrMissingActor ''missing_actor'')
      else Inr \<lparr>rd_id = 0, rd_project = project, rd_task = task, rd_number = 0, rd_by = trim_space (oq_by q),
        rd_kind = ReviewTargetCodeDiff, rd_children = [], rd_repositories = [], rd_branch = trim_space (oq_branch q),
        rd_base = trim_space (oq_base q), rd_tests = trimSlice (oq_tests q), rd_notes = trim_space (oq_notes q), rd_verdict = [],
        rd_verdict_by = [], rd_verdict_notes = [], rd_requested = now, rd_verdict_at = None, rd_created = now, rd_updated = now\<rparr>)"

definition sv_CreateRound :: "'w review_service \<Rightarrow> string \<Rightarrow> int \<Rightarrow> round_request \<Rightarrow> ('w, review_round) rv_op" where
  "sv_CreateRound s project task q =
     op_bind (sv_validateTask s project task [TaskInProgress, TaskReview]) (\<lambda>t.
     op_bind (sv_writable s (tc_project t)) (\<lambda>_.
     op_bind (sv_now s) (\<lambda>now.
     op_bind (op_lift (roundFromRequest (tc_project t) task q now)) (\<lambda>r.
     st_CreateRound (sv_store s) r))))"

text \<open>The latest round of the task, when it is undecided and the same request.\<close>

definition latest_round :: "review_round list \<Rightarrow> review_round option" where
  "latest_round rs =
     fold (\<lambda>r best. case best of None \<Rightarrow> Some r | Some b \<Rightarrow> if rd_number r > rd_number b then Some r else best) rs None"

definition sv_reusableReviewRound :: "'w review_service \<Rightarrow> review_round \<Rightarrow> ('w, review_round option) rv_op" where
  "sv_reusableReviewRound s r =
     op_bind (st_ListRounds (sv_store s) (rd_project r) (rd_task r)) (\<lambda>rs.
     op_return (case latest_round rs of
       None \<Rightarrow> None
     | Some x \<Rightarrow> if rd_verdict x = [] \<and> sameReviewRequest x r then Some x else None))"

definition sv_reusableOrNewReviewRound :: "'w review_service \<Rightarrow> review_round \<Rightarrow> ('w, review_round) rv_op" where
  "sv_reusableOrNewReviewRound s r =
     op_bind (sv_reusableReviewRound s r) (\<lambda>x.
     case x of
       Some existing \<Rightarrow> op_return existing
     | None \<Rightarrow>
         op_bind (op_try (st_CreateRound (sv_store s) r)) (\<lambda>y.
         case y of
           Inr created \<Rightarrow> op_return created
         | Inl e \<Rightarrow>
             op_bind (sv_reusableReviewRound s r) (\<lambda>z.
             case z of Some existing \<Rightarrow> op_return existing | None \<Rightarrow> op_fail e)))"

definition sv_validateReviewSource :: "'w review_service \<Rightarrow> string \<times> string \<times> string \<Rightarrow> ('w, unit) rv_op" where
  "sv_validateReviewSource s source =
     (case source of (repository, commit, base) \<Rightarrow>
        if \<not> validGitHubRepository repository \<or> \<not> validGitHubSHA commit \<or> \<not> validGitHubSHA base then
          op_fail (rejected ''source requires repository owner/name and full commit_sha and base_commit SHAs'' ''invalid_review_source'')
        else case sv_source s of
          None \<Rightarrow> op_fail (ServiceErr (Errorf ''GitHub source validation is unavailable; retry after restoring the Review GitHub configuration'') ''source_validation_unavailable'' 503)
        | Some validate \<Rightarrow> validate source)"

definition superseding_request :: "round_request \<Rightarrow> int \<Rightarrow> round_request" where
  "superseding_request q i =
     (let reason = trim_space (oq_reason q);
          reason = (if reason = [] then ''Replaced by a corrected review submission.'' else reason)
      in q\<lparr>oq_reason := reason, oq_notes := trim_space (oq_notes q) @ nl @ nl @ ''Supersedes review round '' @ show_int i @ '': '' @ reason\<rparr>)"

definition sv_round_for :: "'w review_service \<Rightarrow> round_request \<Rightarrow> review_round \<Rightarrow> ('w, review_round) rv_op" where
  "sv_round_for s q r =
     (case oq_supersedes q of
        Some i \<Rightarrow> st_CreateRoundSuperseding (sv_store s) r i (oq_reason q)
      | None \<Rightarrow> sv_reusableOrNewReviewRound s r)"

text \<open>The transition of the task: an error other than a conflict is one to retry.\<close>

definition sv_moveToReview :: "'w review_service \<Rightarrow> task_context \<Rightarrow> string \<Rightarrow> ('w, task_context \<times> string) rv_op" where
  "sv_moveToReview s t agent =
     op_bind (op_try (sv_to_review s (tc_project t) (tc_id t) agent)) (\<lambda>x.
     case x of
       Inl e \<Rightarrow>
         if map_option fst (errors_as_coded e) = Some 409 then op_fail e
         else op_fail (ServiceErr (Wrapped ''transitioning task to review: '' e []) ''task_transition_retryable'' 503)
     | Inr (t', transition) \<Rightarrow>
         if tc_status t' \<noteq> TaskReview then
           op_fail (Errorf (''task status transition returned '' @ go_quote (tc_status t') @ '', want '' @ go_quote TaskReview))
         else op_return (t', transition))"

definition sv_RequestReview :: "'w review_service \<Rightarrow> string \<Rightarrow> int \<Rightarrow> round_request \<Rightarrow> ('w, packet) rv_op" where
  "sv_RequestReview s project task q =
     op_bind (sv_validateTask s project task [TaskInProgress, TaskReview]) (\<lambda>t.
     op_bind (sv_writable s (tc_project t)) (\<lambda>_.
     op_bind (case oq_source q of None \<Rightarrow> op_return () | Some source \<Rightarrow> sv_validateReviewSource s source) (\<lambda>_.
     op_bind (case oq_supersedes q of
         None \<Rightarrow> op_return q
       | Some i \<Rightarrow>
           if i \<le> 0 then op_fail (rejected ''supersedes_round must be positive'' ''invalid_supersedes_round'')
           else op_return (superseding_request q i)) (\<lambda>q.
     op_bind (sv_now s) (\<lambda>now.
     op_bind (op_lift (roundFromRequest (tc_project t) task q now)) (\<lambda>requested.
     op_bind (sv_round_for s q requested) (\<lambda>r.
     let kind = (if rd_number r > 1 then KindRereviewRequest else KindReviewRequest) in
     op_bind (sv_acceptPacket s (packetForRound r kind (oq_run q)) (oq_thread q)) (\<lambda>p.
     op_bind (sv_moveToReview s t (oq_by q)) (\<lambda>(t', transition).
     op_return (p\<lparr>pk_transition := transition, pk_resulting := tc_status t'\<rparr>))))))))))"

section \<open>Findings and verdicts\<close>

record finding_request =
  iq_by :: string
  iq_category :: string
  iq_summary :: string
  iq_notes :: string
  iq_files :: "string list"
  iq_tests :: "string list"
  iq_run :: string
  iq_role :: string

definition sv_CreateFinding :: "'w review_service \<Rightarrow> int \<Rightarrow> finding_request \<Rightarrow> ('w, finding) rv_op" where
  "sv_CreateFinding s i q =
     op_bind (st_GetRound (sv_store s) i) (\<lambda>r.
     op_bind (sv_validateTask s (rd_project r) (rd_task r) [TaskReview, TaskInProgress]) (\<lambda>_.
     if trim_space (iq_by q) = [] then op_fail (review_invalid ErrMissingActor ''missing_actor'')
     else if \<not> validCategory (trim_space (iq_category q)) then
       op_fail (review_invalid (Wrapped [] ErrInvalidCategory ('': '' @ trim_space (iq_category q))) ''invalid_category'')
     else if trim_space (iq_summary q) = [] then op_fail (rejected ''summary is required'' ''missing_summary'')
     else
     op_bind (sv_now s) (\<lambda>now.
     st_CreateFinding (sv_store s)
       \<lparr>fd_id = 0, fd_project = rd_project r, fd_key = [], fd_task = rd_task r, fd_round = rd_id r, fd_round_number = rd_number r,
        fd_number = 0, fd_by = trim_space (iq_by q), fd_category = trim_space (iq_category q), fd_summary = trim_space (iq_summary q),
        fd_notes = trim_space (iq_notes q), fd_files = trimSlice (iq_files q), fd_tests = trimSlice (iq_tests q),
        fd_status = FindingOpen, fd_status_by = [], fd_status_notes = [], fd_status_at = None, fd_response_by = [],
        fd_response_notes = [], fd_response_at = None, fd_follow_up = None, fd_run = trim_space (iq_run q),
        fd_role = trim_space (iq_role q), fd_created = now, fd_updated = now\<rparr>)))"

definition sv_ListFindings :: "'w review_service \<Rightarrow> string \<Rightarrow> int \<Rightarrow> findings_query \<Rightarrow> ('w, finding list) rv_op" where
  "sv_ListFindings s project task q =
     op_bind (sv_validateTask s project task []) (\<lambda>_.
     case find (\<lambda>x. \<not> validFindingStatus x) (fq_statuses q) of
       Some x \<Rightarrow> op_fail (review_invalid (Wrapped [] ErrReviewInvalidStatus ('': '' @ x)) ''invalid_status'')
     | None \<Rightarrow> st_ListFindings (sv_store s) (q\<lparr>fq_project := trim_space project, fq_task := task\<rparr>))"

definition validateFollowUpStatus :: "string \<Rightarrow> int option \<Rightarrow> go_err + unit" where
  "validateFollowUpStatus status follow_up =
     (if follow_up \<noteq> None \<and> status \<noteq> FindingSplit then Inl (review_invalid ErrFollowUpStatusMismatch ''follow_up_status_mismatch'')
      else Inr ())"

definition sv_RespondToFinding :: "'w review_service \<Rightarrow> int \<Rightarrow> finding_response \<Rightarrow> ('w, finding) rv_op" where
  "sv_RespondToFinding s i u =
     op_bind (st_GetFinding (sv_store s) i) (\<lambda>f.
     op_bind (sv_validateTask s (fd_project f) (fd_task f) [TaskInProgress, TaskReview]) (\<lambda>_.
     let status = trim_space (fr_status u) in
     if status \<noteq> [] \<and> \<not> validFindingStatus status then
       op_fail (review_invalid (Wrapped [] ErrReviewInvalidStatus ('': '' @ status)) ''invalid_status'')
     else
     op_bind (op_lift (validateFollowUpStatus status (fr_follow_up u))) (\<lambda>_.
     op_bind (sv_now s) (\<lambda>now.
     st_RespondToFinding (sv_store s) i
       \<lparr>fr_by = trim_space (fr_by u), fr_notes = trim_space (fr_notes u), fr_status = status,
        fr_status_notes = trim_space (fr_status_notes u), fr_follow_up = fr_follow_up u, fr_run = trim_space (fr_run u),
        fr_role = trim_space (fr_role u)\<rparr> now))))"

definition sv_SetFindingStatus :: "'w review_service \<Rightarrow> int \<Rightarrow> finding_status_update \<Rightarrow> ('w, finding) rv_op" where
  "sv_SetFindingStatus s i u =
     op_bind (st_GetFinding (sv_store s) i) (\<lambda>f.
     op_bind (sv_validateTask s (fd_project f) (fd_task f) [TaskInProgress, TaskReview]) (\<lambda>_.
     let status = trim_space (fu_status u) in
     if \<not> validFindingStatus status then
       op_fail (review_invalid (Wrapped [] ErrReviewInvalidStatus ('': '' @ status)) ''invalid_status'')
     else
     op_bind (op_lift (validateFollowUpStatus status (fu_follow_up u))) (\<lambda>_.
     op_bind (sv_now s) (\<lambda>now.
     st_SetFindingStatus (sv_store s) i
       \<lparr>fu_status = status, fu_by = trim_space (fu_by u), fu_notes = trim_space (fu_notes u), fu_follow_up = fu_follow_up u,
        fu_run = trim_space (fu_run u), fu_role = trim_space (fu_role u)\<rparr> now))))"

definition validCompatibilityVerdict :: "string \<Rightarrow> bool" where
  "validCompatibilityVerdict v \<longleftrightarrow> v = VerdictFollowUpNeeded \<or> v = VerdictBlockedByDependency"

definition sv_SetVerdict :: "'w review_service \<Rightarrow> int \<Rightarrow> string \<Rightarrow> string \<Rightarrow> string \<Rightarrow> ('w, review_round) rv_op" where
  "sv_SetVerdict s i verdict by notes =
     op_bind (st_GetRound (sv_store s) i) (\<lambda>r.
     if rd_verdict r = VerdictSuperseded then op_fail (review_conflict ErrStaleReviewRound ''stale_review_round'')
     else
     op_bind (sv_validateTask s (rd_project r) (rd_task r) [TaskReview]) (\<lambda>_.
     let verdict = trim_space verdict; by = trim_space by in
     if \<not> validCompatibilityVerdict verdict then
       op_fail (review_invalid (Wrapped [] ErrInvalidVerdict ('': '' @ verdict)) ''invalid_verdict'')
     else if by = [] then op_fail (review_invalid ErrMissingActor ''missing_actor'')
     else
     op_bind (sv_now s) (\<lambda>now.
     op_bind (st_SetVerdict (sv_store s) i verdict by (trim_space notes) now) (\<lambda>updated.
     op_bind (sv_append s (rd_project updated)
       \<lparr>pm_task = rd_task updated, pm_thread = None, pm_sender = by, pm_content = renderVerdictPacket updated,
        pm_intent = intentForVerdict verdict,
        pm_metadata = metadataForRound updated (packetKindForVerdict verdict) (verdictType verdict) verdict\<rparr>) (\<lambda>_.
     op_return updated)))))"

definition sv_PostReviewFindings :: "'w review_service \<Rightarrow> string \<Rightarrow> int \<Rightarrow> int \<Rightarrow> findings_request \<Rightarrow> ('w, packet) rv_op" where
  "sv_PostReviewFindings s project task i q =
     op_bind (sv_validateTask s project task [TaskReview, TaskInProgress, TaskDone]) (\<lambda>t.
     if trim_space (ff_sender q) = [] then op_fail (review_invalid ErrMissingActor ''missing_sender'')
     else
     op_bind (st_GetRound (sv_store s) i) (\<lambda>r.
     if rd_project r \<noteq> tc_project t \<or> rd_task r \<noteq> task then op_fail (no_round i)
     else
     op_bind (st_GetReviewFindingsPacketForRound (sv_store s) (rd_id r)) (\<lambda>found.
     case found of
       Some existing \<Rightarrow>
         if pk_status existing = PacketAccepted \<and> pk_message existing \<noteq> None then op_return existing
         else sv_deliverReservedPacket s existing (ff_thread q)
     | None \<Rightarrow>
         op_bind (st_ListFindings (sv_store s) (task_findings (tc_project t) task (Some (rd_id r)))) (\<lambda>mine.
         op_bind (st_ListFindings (sv_store s) (task_findings (tc_project t) task None)) (\<lambda>fs.
         sv_acceptPacket s
           ((reviewFindingsPacket r mine (unresolvedFindingSummaries fs) q)\<lparr>pk_key := ''review-findings:'' @ show_int (rd_id r)\<rparr>)
           (ff_thread q))))))"

section \<open>Finalization\<close>

definition terminal_resolution :: "string \<Rightarrow> bool" where
  "terminal_resolution s \<longleftrightarrow> validFindingStatus s \<and> s \<noteq> FindingOpen \<and> s \<noteq> FindingClaimedFixed"

definition neat_resolution :: "resolution \<Rightarrow> resolution" where
  "neat_resolution x = x\<lparr>rs_resolved_as := trim_space (rs_resolved_as x), rs_note := trim_space (rs_note x)\<rparr>"

definition resolution_error :: "resolution \<Rightarrow> go_err option" where
  "resolution_error x =
     (if rs_finding x \<le> 0 then Some (rejected ''finding_id must be positive'' ''invalid_finding_id'')
      else if \<not> terminal_resolution (rs_resolved_as x) then
        Some (rejected (''resolution status must be terminal: '' @ rs_resolved_as x) ''invalid_resolution_status'')
      else if rs_note x = [] then Some (rejected ''verification_note is required'' ''missing_verification_note'')
      else None)"

definition neat_finding :: "new_finding \<Rightarrow> new_finding" where
  "neat_finding x =
     \<lparr>nf_category = trim_space (nf_category x), nf_summary = trim_space (nf_summary x), nf_notes = trim_space (nf_notes x),
      nf_files = trimSlice (nf_files x), nf_tests = trimSlice (nf_tests x)\<rparr>"

definition new_finding_error :: "new_finding \<Rightarrow> go_err option" where
  "new_finding_error x =
     (if \<not> validCategory (nf_category x) then
        Some (review_invalid (Wrapped [] ErrInvalidCategory ('': '' @ nf_category x)) ''invalid_category'')
      else if nf_summary x = [] then Some (rejected ''summary is required'' ''missing_summary'')
      else None)"

fun first_error :: "('a \<Rightarrow> go_err option) \<Rightarrow> 'a list \<Rightarrow> go_err option" where
  "first_error f [] = None"
| "first_error f (x # xs) = (case f x of Some e \<Rightarrow> Some e | None \<Rightarrow> first_error f xs)"

text \<open>The first finding that is resolved twice, in the order of ids.\<close>

fun repeated_finding :: "resolution list \<Rightarrow> go_err option" where
  "repeated_finding (x # y # zs) =
     (if rs_finding x = rs_finding y then
        Some (rejected (''finding_id '' @ show_int (rs_finding y) @ '' is repeated'') ''duplicate_finding_resolution'')
      else repeated_finding (y # zs))"
| "repeated_finding _ = None"

definition new_finding_order :: "new_finding \<Rightarrow> string \<times> string \<times> string \<times> string" where
  "new_finding_order x =
     (nf_category x, nf_summary x, nf_notes x, join_with [CHR 0x00] (nf_files x) @ join_with [CHR 0x00] (nf_tests x))"

definition normalizeFinalizationMutation :: "finalize_request \<Rightarrow> go_err + mutation" where
  "normalizeFinalizationMutation q =
     (let rs = map neat_resolution (zq_resolutions q); fs = map neat_finding (zq_new q); sorted = sort_key rs_finding rs in
      case first_error resolution_error rs of
        Some e \<Rightarrow> Inl e
      | None \<Rightarrow>
          (case repeated_finding sorted of
             Some e \<Rightarrow> Inl e
           | None \<Rightarrow>
               (case first_error new_finding_error fs of
                  Some e \<Rightarrow> Inl e
                | None \<Rightarrow> Inr \<lparr>mu_resolutions = sorted, mu_new = sort_key new_finding_order fs\<rparr>)))"

definition resolved_by :: "resolution list \<Rightarrow> finding \<Rightarrow> finding" where
  "resolved_by rs f =
     (case find (\<lambda>x. rs_finding x = fd_id f) rs of
        None \<Rightarrow> f
      | Some x \<Rightarrow> f\<lparr>fd_status := rs_resolved_as x, fd_status_notes := rs_note x\<rparr>)"

fun projected_new :: "int \<Rightarrow> int \<Rightarrow> new_finding list \<Rightarrow> finding list" where
  "projected_new task i [] = []"
| "projected_new task i (x # xs) =
     \<lparr>fd_id = - i, fd_project = [], fd_key = ''new-'' @ show_int i, fd_task = task, fd_round = 0, fd_round_number = 0, fd_number = 0,
      fd_by = [], fd_category = nf_category x, fd_summary = nf_summary x, fd_notes = nf_notes x, fd_files = nf_files x,
      fd_tests = nf_tests x, fd_status = FindingOpen, fd_status_by = [], fd_status_notes = [], fd_status_at = None,
      fd_response_by = [], fd_response_notes = [], fd_response_at = None, fd_follow_up = None, fd_run = [], fd_role = [],
      fd_created = 0, fd_updated = 0\<rparr> # projected_new task (i + 1) xs"

text \<open>
  A finding of the round as it is among the findings of the task, which are read after those of the round;
  as findings are never deleted, it is there.
\<close>

definition projected_row :: "finding list \<Rightarrow> mutation \<Rightarrow> finding \<Rightarrow> finding" where
  "projected_row fs m f =
     (case row_lookup fd_id (fd_id f) fs of None \<Rightarrow> f | Some x \<Rightarrow> resolved_by (mu_resolutions m) x)"

text \<open>
  The findings as the mutation will leave them. New findings, all without a number, keep the order of the
  request in the projection, where \<open>sort.Slice\<close> may order them in any way; the packet of a finalization
  with new findings is rebuilt from the stored ones.
\<close>

definition projectFinalizationFindings :: "finding list \<Rightarrow> finding list \<Rightarrow> mutation \<Rightarrow> go_err + (finding list \<times> finding list)" where
  "projectFinalizationFindings mine fs m =
     (case find (\<lambda>x. rs_finding x \<notin> set (map fd_id fs)) (mu_resolutions m) of
        Some x \<Rightarrow> Inl (review_notFound (Errorf (''finding '' @ show_int (rs_finding x) @ '' does not belong to this task'')) ''finding_not_found'')
      | None \<Rightarrow>
          let task = (case mine @ fs of [] \<Rightarrow> 0 | f # _ \<Rightarrow> fd_task f); new = projected_new task 1 (mu_new m) in
          Inr (map (projected_row fs m) mine @ new,
               sort_key fd_number (map (resolved_by (mu_resolutions m)) fs @ new)))"

definition validateFinalizationFindings :: "string \<Rightarrow> finding list \<Rightarrow> finding list \<Rightarrow> go_err option" where
  "validateFinalizationFindings verdict mine fs =
     (if verdict = VerdictLooksGood then
        (if \<exists>f\<in>set fs. \<not> resolvedStatus (fd_status f) then Some (review_conflict ErrUnresolvedFindings ''unresolved_review_findings'') else None)
      else if verdict = VerdictChangesRequested then
        (if \<exists>f\<in>set mine. \<not> resolvedStatus (fd_status f) then None
         else Some (review_conflict ErrActionableFinding ''actionable_review_finding_required''))
      else None)"

definition taskStatusForVerdict :: "string \<Rightarrow> string" where
  "taskStatusForVerdict v = (if v = VerdictLooksGood then TaskDone else TaskInProgress)"

definition finalizationKey :: "int \<Rightarrow> string \<Rightarrow> string" where
  "finalizationKey i digest = show_int i @ '':'' @ digest"

record receipt =
  rc_final :: finalization
  rc_round :: review_round
  rc_packet :: packet
  rc_status :: string

definition sv_finalizationFailure :: "'w review_service \<Rightarrow> receipt \<Rightarrow> string \<Rightarrow> go_err \<Rightarrow> ('w, 'a) rv_op" where
  "sv_finalizationFailure s rc step cause =
     op_bind (sv_now s) (\<lambda>now.
     op_bind (op_try (st_RecordError (sv_store s) (fz_id (rc_final rc)) step (err_text cause) now)) (\<lambda>x.
     op_fail (ServiceErr
       (case x of Inr _ \<Rightarrow> cause | Inl e \<Rightarrow> Wrapped [] cause (nl @ ''recording finalization error: '' @ err_text e))
       (''review_finalization_'' @ step @ ''_failed'') (if step = StepCompletion then 500 else 502))))"

text \<open>A step whose failure is recorded.\<close>

definition sv_step :: "'w review_service \<Rightarrow> receipt \<Rightarrow> string \<Rightarrow> ('w, 'a) rv_op \<Rightarrow> ('w, 'a) rv_op" where
  "sv_step s rc step m =
     op_bind (op_try m) (\<lambda>x. case x of Inl e \<Rightarrow> sv_finalizationFailure s rc step e | Inr y \<Rightarrow> op_return y)"

definition sv_deliver :: "'w review_service \<Rightarrow> receipt \<Rightarrow> ('w, receipt) rv_op" where
  "sv_deliver s rc =
     (if fz_posted (rc_final rc) \<noteq> None then op_return rc
      else
      op_bind (case pk_message (rc_packet rc) of
          Some message \<Rightarrow> op_return message
        | None \<Rightarrow> sv_step s rc StepDelivery (sv_appendPacketMessage s (rc_packet rc) (fz_thread (rc_final rc)))) (\<lambda>message.
      op_bind (sv_now s) (\<lambda>now.
      op_bind (st_MarkPosted (sv_store s) (fz_id (rc_final rc)) message now) (\<lambda>(z, p).
      op_return (rc\<lparr>rc_final := z, rc_packet := p\<rparr>)))))"

definition sv_apply_status :: "'w review_service \<Rightarrow> finalization \<Rightarrow> ('w, task_context) rv_op" where
  "sv_apply_status s z =
     op_bind (sv_task s (fz_project z) (fz_task z)) (\<lambda>t.
     if tc_status t = fz_target z then op_return t
     else if tc_status t \<noteq> TaskReview then
       op_fail (Errorf (''task status changed to '' @ tc_status t @ '' before finalization could apply '' @ fz_target z))
     else
     op_bind (sv_set_status s (fz_project z) (fz_task z) (fz_by z) (fz_target z)) (\<lambda>t.
     if tc_status t \<noteq> fz_target z then
       op_fail (Errorf (''tasks returned status '' @ tc_status t @ '' after requesting '' @ fz_target z))
     else op_return t))"

definition sv_transition :: "'w review_service \<Rightarrow> receipt \<Rightarrow> ('w, receipt) rv_op" where
  "sv_transition s rc =
     (if fz_transitioned (rc_final rc) \<noteq> None then op_return rc
      else
      op_bind (sv_step s rc StepTransition (sv_apply_status s (rc_final rc))) (\<lambda>t.
      op_bind (sv_now s) (\<lambda>now.
      op_bind (st_MarkTransitioned (sv_store s) (fz_id (rc_final rc)) now) (\<lambda>z.
      op_return (rc\<lparr>rc_final := z, rc_status := tc_status t\<rparr>)))))"

definition sv_resumeFinalization :: "'w review_service \<Rightarrow> receipt \<Rightarrow> ('w, receipt) rv_op" where
  "sv_resumeFinalization s rc =
     (if fz_state (rc_final rc) = FinalComplete then op_return (rc\<lparr>rc_status := fz_target (rc_final rc)\<rparr>)
      else
      op_bind (sv_deliver s rc) (\<lambda>rc.
      op_bind (sv_transition s rc) (\<lambda>rc.
      op_bind (sv_now s) (\<lambda>now.
      op_bind (sv_step s rc StepCompletion (st_Complete (sv_store s) (fz_id (rc_final rc)) now)) (\<lambda>z.
      op_return (rc\<lparr>rc_final := z, rc_status := fz_target z\<rparr>))))))"

definition neat_request :: "finalize_request \<Rightarrow> mutation \<Rightarrow> finalize_request" where
  "neat_request q m =
     q\<lparr>zq_round := max (zq_round q) 0, zq_verdict := trim_space (zq_verdict q), zq_by := trim_space (zq_by q),
       zq_notes := trim_space (zq_notes q), zq_run := trim_space (zq_run q), zq_role := trim_space (zq_role q),
       zq_resolutions := mu_resolutions m, zq_new := mu_new m\<rparr>"

text \<open>The checks before anything is read.\<close>

definition sv_checkFinalize :: "'w review_service \<Rightarrow> finalize_request \<Rightarrow> go_err + finalize_request \<times> mutation" where
  "sv_checkFinalize s q =
     (if sv_size s q > 16 * 1024 then Inl (review_invalid ErrReviewRequestTooLarge ''review_request_too_large'')
      else case normalizeFinalizationMutation q of
        Inl e \<Rightarrow> Inl e
      | Inr m \<Rightarrow>
          let q = neat_request q m in
          if zq_round q = 0 then Inl (review_invalid ErrMissingRound ''missing_review_round_id'')
          else if zq_verdict q \<noteq> VerdictLooksGood \<and> zq_verdict q \<noteq> VerdictChangesRequested then
            Inl (review_invalid (Wrapped [] ErrInvalidVerdict ('': '' @ zq_verdict q)) ''invalid_verdict'')
          else if zq_by q = [] then Inl (review_invalid ErrMissingActor ''missing_actor'')
          else Inr (q, m))"

definition request_findings :: "finalize_request \<Rightarrow> findings_request" where
  "request_findings q =
     \<lparr>ff_sender = zq_by q, ff_thread = zq_thread q, ff_notes = zq_notes q, ff_run = zq_run q, ff_role = zq_role q\<rparr>"

definition new_final :: "review_round \<Rightarrow> finalize_request \<Rightarrow> string \<Rightarrow> time \<Rightarrow> finalization" where
  "new_final r q digest now =
     \<lparr>fz_id = 0, fz_project = rd_project r, fz_task = rd_task r, fz_round = rd_id r, fz_verdict = zq_verdict q, fz_by = zq_by q,
      fz_notes = zq_notes q, fz_thread = zq_thread q, fz_run = zq_run q, fz_role = zq_role q,
      fz_target = taskStatusForVerdict (zq_verdict q), fz_packet = 0, fz_key = finalizationKey (rd_id r) digest, fz_digest = digest,
      fz_packet_key = ''review-finalization-packet:'' @ finalizationKey (rd_id r) digest, fz_state = FinalPending, fz_message = None,
      fz_posted = None, fz_transitioned = None, fz_completed = None, fz_error_step = [], fz_error = [], fz_message_attempts = 0,
      fz_task_attempts = 0, fz_created = now, fz_updated = now\<rparr>"

text \<open>What a first finalization decides before its transaction: the task's status, the row and the packet.\<close>

definition sv_prepare :: "'w review_service \<Rightarrow> finalize_request \<Rightarrow> mutation \<Rightarrow> review_round \<Rightarrow> ('w, task_context \<times> finalization \<times> packet \<times> time) rv_op" where
  "sv_prepare s q m r =
     op_bind (sv_validateTask s (rd_project r) (rd_task r) [TaskReview]) (\<lambda>t.
     op_bind (st_ListFindings (sv_store s) (task_findings (rd_project r) (rd_task r) (Some (rd_id r)))) (\<lambda>mine.
     op_bind (st_ListFindings (sv_store s) (task_findings (rd_project r) (rd_task r) None)) (\<lambda>fs.
     op_bind (op_lift (projectFinalizationFindings mine fs m)) (\<lambda>(mine', fs').
     case validateFinalizationFindings (zq_verdict q) mine' fs' of
       Some e \<Rightarrow> op_fail e
     | None \<Rightarrow>
     op_bind (sv_now s) (\<lambda>now.
     let z = new_final r q (sv_digest s q) now;
         p = reviewFindingsPacket (decided_round (zq_verdict q) (zq_by q) (zq_notes q) now r) mine' (unresolvedFindingSummaries fs') (request_findings q)
     in op_return (t, z, p\<lparr>pk_key := fz_packet_key z\<rparr>, now))))))"

definition sv_begin :: "'w review_service \<Rightarrow> finalize_request \<Rightarrow> mutation \<Rightarrow> review_round \<Rightarrow> ('w, receipt) rv_op" where
  "sv_begin s q m r =
     op_bind (sv_prepare s q m r) (\<lambda>(t, z, p, now).
     op_bind (st_BeginFinalization (sv_store s) z p m now) (\<lambda>(z', p', r').
     if fz_verdict z' \<noteq> zq_verdict q \<or> fz_by z' \<noteq> zq_by q then op_fail (review_conflict ErrFinalizationConflict ''review_finalization_conflict'')
     else op_return \<lparr>rc_final = z', rc_round = r', rc_packet = p', rc_status = tc_status t\<rparr>))"

definition sv_existing :: "'w review_service \<Rightarrow> finalize_request \<Rightarrow> finalization \<Rightarrow> ('w, receipt) rv_op" where
  "sv_existing s q z =
     (if fz_verdict z \<noteq> zq_verdict q \<or> fz_by z \<noteq> zq_by q \<or> fz_digest z \<noteq> [] \<and> fz_digest z \<noteq> sv_digest s q then
        op_fail (review_conflict ErrFinalizationConflict ''review_finalization_conflict'')
      else
      op_bind (st_GetPacket (sv_store s) (fz_packet z)) (\<lambda>p.
      op_bind (st_GetRound (sv_store s) (fz_round z)) (\<lambda>r.
      op_return \<lparr>rc_final = z, rc_round = r, rc_packet = p, rc_status = fz_target z\<rparr>)))"

definition sv_FinalizeReview :: "'w review_service \<Rightarrow> finalize_request \<Rightarrow> ('w, receipt) rv_op" where
  "sv_FinalizeReview s q =
     op_bind (op_lift (sv_checkFinalize s q)) (\<lambda>(q, m).
     op_bind (st_GetRound (sv_store s) (zq_round q)) (\<lambda>r.
     op_bind (st_GetFinalizationByRound (sv_store s) (zq_round q)) (\<lambda>found.
     op_bind (case found of Some z \<Rightarrow> sv_existing s q z | None \<Rightarrow> sv_begin s q m r) (\<lambda>rc.
     sv_resumeFinalization s rc))))"

end
