(* ===== verification/Review_Rounds_Laws.thy ===== *)
theory Review_Rounds_Laws
  imports Review_Service
begin

text \<open>
  The tables of rounds, findings, packets and finalizations under every interleaving of statements: the
  invariant, what never changes, and that the methods of the store execute only such statements.
\<close>

section \<open>The invariant\<close>

definition final_ok :: "finalization \<Rightarrow> bool" where
  "final_ok z \<longleftrightarrow>
     fz_state z \<in> set [FinalPending, FinalPosted, FinalTransitioned, FinalComplete, FinalRetryable] \<and>
     (fz_state z = FinalComplete \<longleftrightarrow> fz_completed z \<noteq> None) \<and>
     (fz_completed z \<noteq> None \<longrightarrow> fz_posted z \<noteq> None \<and> fz_transitioned z \<noteq> None) \<and>
     (fz_posted z \<noteq> None \<longrightarrow> fz_message z \<noteq> None) \<and>
     (fz_state z = FinalPosted \<longrightarrow> fz_posted z \<noteq> None) \<and> (fz_state z = FinalTransitioned \<longrightarrow> fz_transitioned z \<noteq> None) \<and>
     fz_target z = taskStatusForVerdict (fz_verdict z)"

definition round_key :: "review_round \<Rightarrow> string \<times> int \<times> int" where
  "round_key r = (rd_project r, rd_task r, rd_number r)"

definition finding_numbering :: "finding \<Rightarrow> string \<times> int \<times> int" where
  "finding_numbering f = (fd_project f, fd_task f, fd_number f)"

definition rounds_ok :: "review_round list \<Rightarrow> int \<Rightarrow> bool" where
  "rounds_ok rs n \<longleftrightarrow> distinct (map rd_id rs) \<and> distinct (map round_key rs) \<and> (\<forall>r\<in>set rs. rd_id r < n)"

definition findings_ok :: "int set \<Rightarrow> finding list \<Rightarrow> int \<Rightarrow> bool" where
  "findings_ok rounds fs n \<longleftrightarrow> distinct (map fd_id fs) \<and> distinct (map finding_numbering fs) \<and>
     (\<forall>f\<in>set fs. fd_id f < n \<and> fd_round f \<in> rounds)"

definition packets_ok :: "packet list \<Rightarrow> int \<Rightarrow> bool" where
  "packets_ok ps n \<longleftrightarrow> distinct (map pk_id ps) \<and> (\<forall>p\<in>set ps. pk_id p < n)"

definition finals_ok :: "int set \<Rightarrow> int set \<Rightarrow> finalization list \<Rightarrow> int \<Rightarrow> bool" where
  "finals_ok rounds packets zs n \<longleftrightarrow> distinct (map fz_id zs) \<and> distinct (map fz_round zs) \<and>
     (\<forall>z\<in>set zs. fz_id z < n \<and> final_ok z \<and> fz_round z \<in> rounds \<and> fz_packet z \<in> packets)"

definition review_inv :: "review_tables \<Rightarrow> bool" where
  "review_inv d \<longleftrightarrow>
     rounds_ok (rv_rounds d) (rv_next_round d) \<and>
     findings_ok (rd_id ` set (rv_rounds d)) (rv_findings d) (rv_next_finding d) \<and>
     packets_ok (rv_packets d) (rv_next_packet d) \<and>
     finals_ok (rd_id ` set (rv_rounds d)) (pk_id ` set (rv_packets d)) (rv_finals d) (rv_next_final d)"

section \<open>What never changes\<close>

definition final_identity :: "finalization \<Rightarrow> _" where
  "final_identity z = (fz_id z, fz_project z, fz_task z, fz_round z, fz_verdict z, fz_by z, fz_notes z, fz_thread z, fz_run z, fz_role z,
     fz_target z, fz_packet z, fz_key z, fz_digest z, fz_packet_key z, fz_created z)"

definition final_moves :: "finalization \<Rightarrow> finalization \<Rightarrow> bool" where
  "final_moves z z' \<longleftrightarrow> final_identity z' = final_identity z \<and>
     (fz_message z \<noteq> None \<longrightarrow> fz_message z' = fz_message z) \<and> (fz_posted z \<noteq> None \<longrightarrow> fz_posted z' = fz_posted z) \<and>
     (fz_transitioned z \<noteq> None \<longrightarrow> fz_transitioned z' = fz_transitioned z) \<and>
     (fz_completed z \<noteq> None \<longrightarrow> fz_completed z' = fz_completed z) \<and>
     (fz_state z = FinalComplete \<longrightarrow> fz_state z' = FinalComplete)"

definition round_moves :: "review_round \<Rightarrow> review_round \<Rightarrow> bool" where
  "round_moves r r' \<longleftrightarrow> rd_id r' = rd_id r \<and> round_key r' = round_key r \<and> (rd_verdict r = VerdictSuperseded \<longrightarrow> r' = r)"

definition finding_moves :: "finding \<Rightarrow> finding \<Rightarrow> bool" where
  "finding_moves f f' \<longleftrightarrow> fd_id f' = fd_id f \<and> fd_key f' = fd_key f \<and> finding_numbering f' = finding_numbering f \<and>
     fd_round f' = fd_round f \<and> fd_category f' = fd_category f \<and> fd_summary f' = fd_summary f"

definition review_moves :: "review_tables \<Rightarrow> review_tables \<Rightarrow> bool" where
  "review_moves d d' \<longleftrightarrow>
     (\<forall>r\<in>set (rv_rounds d). \<exists>r'\<in>set (rv_rounds d'). round_moves r r') \<and>
     (\<forall>f\<in>set (rv_findings d). \<exists>f'\<in>set (rv_findings d'). finding_moves f f') \<and>
     (\<forall>z\<in>set (rv_finals d). \<exists>z'\<in>set (rv_finals d'). final_moves z z') \<and>
     prefix (rv_events d) (rv_events d')"

lemma moves_refl: "final_moves z z" "round_moves r r" "finding_moves f f" "review_moves d d"
  by (auto simp: final_moves_def round_moves_def finding_moves_def review_moves_def)

lemma final_moves_trans: "final_moves z1 z2 \<Longrightarrow> final_moves z2 z3 \<Longrightarrow> final_moves z1 z3"
  unfolding final_moves_def by (metis option.distinct(1))

lemma round_moves_trans: "round_moves r1 r2 \<Longrightarrow> round_moves r2 r3 \<Longrightarrow> round_moves r1 r3"
  by (auto simp: round_moves_def)

lemma finding_moves_trans: "finding_moves f1 f2 \<Longrightarrow> finding_moves f2 f3 \<Longrightarrow> finding_moves f1 f3"
  by (simp add: finding_moves_def)

lemma review_moves_trans: "review_moves d1 d2 \<Longrightarrow> review_moves d2 d3 \<Longrightarrow> review_moves d1 d3"
  unfolding review_moves_def
  by (meson final_moves_trans round_moves_trans finding_moves_trans prefix_order.trans)

section \<open>Statements\<close>

text \<open>A row of a new finalization.\<close>

definition fresh_final :: "finalization \<Rightarrow> bool" where
  "fresh_final z \<longleftrightarrow> fz_posted z = None \<and> fz_message z = None \<and> fz_target z = taskStatusForVerdict (fz_verdict z)"

definition reserved :: "finalization \<Rightarrow> bool" where
  "reserved z \<longleftrightarrow> fz_target z = taskStatusForVerdict (fz_verdict z) \<and>
     (fz_state z = FinalPending \<and> fz_posted z = None \<or> fz_state z = FinalPosted \<and> fz_posted z \<noteq> None \<and> fz_message z \<noteq> None)"

inductive review_step :: "review_tables \<Rightarrow> review_tables \<Rightarrow> bool" where
  step_round: "createRoundSQL r d = Some (x, d') \<Longrightarrow> review_step d d'"
| step_verdict: "setVerdictSQL i verdict by notes at d = Some (x, d') \<Longrightarrow> review_step d d'"
| step_finding: "createFindingSQL f d = Some (x, d') \<Longrightarrow> review_step d d'"
| step_respond: "respondFindingSQL i u at d = Some (x, d') \<Longrightarrow> review_step d d'"
| step_status: "setFindingStatusSQL i v at d = Some (x, d') \<Longrightarrow> review_step d d'"
| step_event: "insertFindingEventSQL e d = Some (x, d') \<Longrightarrow> review_step d d'"
| step_packet: "storePacketSQL p d = Some (x, d') \<Longrightarrow> review_step d d'"
| step_accept: "acceptPacketSQL i m at d = Some (x, d') \<Longrightarrow> review_step d d'"
| step_final: "reserved z \<Longrightarrow> insertFinalizationSQL z d = Some (x, d') \<Longrightarrow> review_step d d'"
| step_final_posted: "markFinalizationPacketPostedSQL i m at d = Some (x, d') \<Longrightarrow> review_step d d'"
| step_final_transitioned: "markFinalizationTaskTransitionedSQL i at d = Some (x, d') \<Longrightarrow> review_step d d'"
| step_final_complete: "completeFinalizationSQL i at d = Some (x, d') \<Longrightarrow> review_step d d'"
| step_final_error: "recordFinalizationErrorSQL i step message at d = Some (x, d') \<Longrightarrow> review_step d d'"

abbreviation review_steps :: "review_tables \<Rightarrow> review_tables \<Rightarrow> bool" where
  "review_steps \<equiv> review_step\<^sup>*\<^sup>*"

section \<open>Rows of a table\<close>

lemma rows_snoc: "distinct (map key rs) \<Longrightarrow> key x \<notin> key ` set rs \<Longrightarrow> distinct (map key (rs @ [x]))"
  by simp

lemma rows_mapped: "(\<And>r. r \<in> set rs \<Longrightarrow> key (f r) = key r) \<Longrightarrow> map key (map f rs) = map key rs"
  by simp

lemma only_row: "distinct (map key rs) \<Longrightarrow> row_lookup key k rs = Some r \<Longrightarrow> y \<in> set rs \<Longrightarrow> key y = k \<Longrightarrow> y = r"
  using row_lookup_distinct [of key rs y] by simp

lemma find_mapped: "(\<And>r. r \<in> set rs \<Longrightarrow> key (if P r then f r else r) = key r) \<Longrightarrow>
    map key (update_where P f rs) = map key rs"
  by (simp add: update_where_def)

lemma updated_row: "x \<in> set (update_where P f rs) \<longleftrightarrow> (\<exists>r\<in>set rs. x = (if P r then f r else r))"
  by (auto simp: update_where_def)

lemma updated_moves:
  assumes "y \<in> set rs" and "P y \<Longrightarrow> M y (f y)" and "M y y"
  shows "\<exists>y'\<in>set (update_where P f rs). M y y'"
  by (rule bexI [of _ "if P y then f y else y"]) (use assms updated_row [of _ P f rs] in auto)

lemma key_image: "map key rs' = map key rs \<Longrightarrow> key ` set rs' = key ` set rs"
  by (metis set_map)

lemma rounds_ok_new: "rounds_ok rs n \<Longrightarrow> rd_id x = n \<Longrightarrow> round_key x \<notin> round_key ` set rs \<Longrightarrow> rounds_ok (rs @ [x]) (n + 1)"
  by (auto simp: rounds_ok_def)

lemma rounds_ok_update:
  "rounds_ok rs n \<Longrightarrow> (\<And>r. rd_id (f r) = rd_id r \<and> round_key (f r) = round_key r) \<Longrightarrow>
     rounds_ok (update_where P f rs) n \<and> rd_id ` set (update_where P f rs) = rd_id ` set rs"
proof
  assume ok: "rounds_ok rs n" and f: "\<And>r. rd_id (f r) = rd_id r \<and> round_key (f r) = round_key r"
  have maps: "map rd_id (update_where P f rs) = map rd_id rs" "map round_key (update_where P f rs) = map round_key rs"
    by (rule find_mapped; simp add: f)+
  with ok show "rounds_ok (update_where P f rs) n" by (auto simp: rounds_ok_def updated_row f)
  show "rd_id ` set (update_where P f rs) = rd_id ` set rs" by (rule key_image [OF maps(1)])
qed

lemma findings_ok_new:
  "findings_ok rounds fs n \<Longrightarrow> fd_id x = n \<Longrightarrow> finding_numbering x \<notin> finding_numbering ` set fs \<Longrightarrow> fd_round x \<in> rounds \<Longrightarrow>
     findings_ok rounds (fs @ [x]) (n + 1)"
  by (auto simp: findings_ok_def)

lemma findings_ok_mono: "findings_ok rounds fs n \<Longrightarrow> rounds \<subseteq> rounds' \<Longrightarrow> findings_ok rounds' fs n"
  by (auto simp: findings_ok_def)

lemma findings_ok_update:
  assumes ok: "findings_ok rounds fs n" and f: "\<And>x. finding_moves x (f x)"
  shows "findings_ok rounds (update_where P f fs) n"
proof -
  have same: "fd_id (f x) = fd_id x" "finding_numbering (f x) = finding_numbering x" "fd_round (f x) = fd_round x" for x
    using f by (simp_all add: finding_moves_def)
  have "map fd_id (update_where P f fs) = map fd_id fs" "map finding_numbering (update_where P f fs) = map finding_numbering fs"
    by (rule find_mapped; simp add: same)+
  with ok show ?thesis by (auto simp: findings_ok_def updated_row same)
qed

lemma packets_ok_new: "packets_ok ps n \<Longrightarrow> pk_id x = n \<Longrightarrow> packets_ok (ps @ [x]) (n + 1)"
  by (auto simp: packets_ok_def)

lemma packets_ok_update:
  assumes ok: "packets_ok ps n" and f: "\<And>p. pk_id (f p) = pk_id p" and n: "n \<le> n'"
  shows "packets_ok (update_where P f ps) n' \<and> pk_id ` set (update_where P f ps) = pk_id ` set ps"
proof
  have maps: "map pk_id (update_where P f ps) = map pk_id ps" by (rule find_mapped) (simp add: f)
  with ok n show "packets_ok (update_where P f ps) n'" by (fastforce simp: packets_ok_def updated_row f)
  show "pk_id ` set (update_where P f ps) = pk_id ` set ps" by (rule key_image [OF maps])
qed

lemma finals_ok_mono:
  "finals_ok rounds packets zs n \<Longrightarrow> rounds \<subseteq> rounds' \<Longrightarrow> packets \<subseteq> packets' \<Longrightarrow> finals_ok rounds' packets' zs n"
  by (auto simp: finals_ok_def)

lemma finals_ok_new:
  "finals_ok rounds packets zs n \<Longrightarrow> fz_id x = n \<Longrightarrow> fz_round x \<notin> fz_round ` set zs \<Longrightarrow> final_ok x \<Longrightarrow> fz_round x \<in> rounds \<Longrightarrow>
     fz_packet x \<in> packets \<Longrightarrow> finals_ok rounds packets (zs @ [x]) (n + 1)"
  by (auto simp: finals_ok_def)

lemma finals_ok_update:
  assumes ok: "finals_ok rounds packets zs n" and f: "\<And>z. z \<in> set zs \<Longrightarrow> P z \<Longrightarrow> final_moves z (f z) \<and> final_ok (f z)"
  shows "finals_ok rounds packets (update_where P f zs) n"
proof -
  have same: "fz_id (f z) = fz_id z" "fz_round (f z) = fz_round z" "fz_packet (f z) = fz_packet z" "final_ok (f z)"
    if "z \<in> set zs" "P z" for z using f [OF that] by (simp_all add: final_moves_def final_identity_def)
  have "map fz_id (update_where P f zs) = map fz_id zs" "map fz_round (update_where P f zs) = map fz_round zs"
    by (rule find_mapped; simp add: same)+
  with ok same show ?thesis by (auto simp: finals_ok_def updated_row)
qed

section \<open>Changes of finalization rows\<close>

lemma update_final_keeps:
  assumes inv: "review_inv d" and out: "update_final i P f d = Some (x, d')"
    and ok: "\<And>z. P z \<Longrightarrow> final_ok z \<Longrightarrow> final_moves z (f z) \<and> final_ok (f z)"
  shows "review_inv d' \<and> review_moves d d'"
proof (cases "d' = d")
  case True
  with inv moves_refl(4) show ?thesis by simp
next
  case False
  with out obtain z where z: "row_lookup fz_id i (rv_finals d) = Some z" "P z"
    and d': "d' = d\<lparr>rv_finals := update_where (\<lambda>x. fz_id x = i) f (rv_finals d)\<rparr>"
    by (auto simp: update_final_def split: option.split_asm if_split_asm)
  have fin: "finals_ok (rd_id ` set (rv_rounds d)) (pk_id ` set (rv_packets d)) (rv_finals d) (rv_next_final d)"
    using inv by (simp add: review_inv_def)
  have f: "final_moves y (f y) \<and> final_ok (f y)" if "y \<in> set (rv_finals d)" "fz_id y = i" for y
  proof -
    have "y = z" using only_row [OF _ z(1) that] fin by (simp add: finals_ok_def)
    with z(2) that fin ok show ?thesis by (auto simp: finals_ok_def)
  qed
  have "finals_ok (rd_id ` set (rv_rounds d)) (pk_id ` set (rv_packets d)) (update_where (\<lambda>x. fz_id x = i) f (rv_finals d)) (rv_next_final d)"
    by (rule finals_ok_update [OF fin f])
  moreover have "\<exists>z'\<in>set (update_where (\<lambda>x. fz_id x = i) f (rv_finals d)). final_moves y z'" if "y \<in> set (rv_finals d)" for y
    by (rule updated_moves [OF that]) (use f that moves_refl(1) in auto)
  ultimately show ?thesis using inv moves_refl by (auto simp: review_inv_def review_moves_def d')
qed

lemma posted_final_ok: "final_ok z \<Longrightarrow> final_moves z (posted_final m at z) \<and> final_ok (posted_final m at z)"
  by (auto simp: final_ok_def final_moves_def final_identity_def posted_final_def keep_first_def final_states split: option.splits)

lemma transitioned_final_ok: "final_ok z \<Longrightarrow> final_moves z (transitioned_final at z) \<and> final_ok (transitioned_final at z)"
  by (auto simp: final_ok_def final_moves_def final_identity_def transitioned_final_def keep_first_def final_states split: option.splits)

lemma completed_final_ok:
  "fz_posted z \<noteq> None \<and> fz_transitioned z \<noteq> None \<Longrightarrow> final_ok z \<Longrightarrow> final_moves z (completed_final at z) \<and> final_ok (completed_final at z)"
  by (auto simp: final_ok_def final_moves_def final_identity_def completed_final_def keep_first_def final_states split: option.splits)

lemma failed_final_ok: "final_ok z \<Longrightarrow> final_moves z (failed_final step m at z) \<and> final_ok (failed_final step m at z)"
  by (auto simp: final_ok_def final_moves_def final_identity_def failed_final_def past_step_def final_states)

lemma reserved_ok: "reserved z \<Longrightarrow> fz_completed z = None \<Longrightarrow> final_ok z"
  by (auto simp: reserved_def final_ok_def final_states)

section \<open>Every statement keeps the invariant\<close>

lemma create_round_keeps:
  assumes inv: "review_inv d" and out: "createRoundSQL r d = Some (x, d')"
  shows "review_inv d' \<and> review_moves d d'"
proof -
  have rs: "rv_rounds d' = rv_rounds d @ [x]" "rv_next_round d' = rv_next_round d + 1" and x: "rd_id x = rv_next_round d" "round_key x \<notin> round_key ` set (rv_rounds d)"
    and rest: "rv_findings d' = rv_findings d" "rv_next_finding d' = rv_next_finding d" "rv_packets d' = rv_packets d"
      "rv_next_packet d' = rv_next_packet d" "rv_finals d' = rv_finals d" "rv_next_final d' = rv_next_final d" "rv_events d' = rv_events d"
    using out by (auto simp: createRoundSQL_def Let_def round_key_def split: if_split_asm)
  have "rd_id ` set (rv_rounds d) \<subseteq> rd_id ` set (rv_rounds d')" by (auto simp: rs)
  then have "review_inv d'"
    using inv rounds_ok_new [of "rv_rounds d" "rv_next_round d" x] x
    by (auto simp: review_inv_def rest rs(2) intro: findings_ok_mono finals_ok_mono) (simp add: rs)
  moreover have "review_moves d d'" using moves_refl by (auto simp: review_moves_def rest rs)
  ultimately show ?thesis ..
qed

lemma set_verdict_keeps:
  assumes inv: "review_inv d" and out: "setVerdictSQL i verdict by notes at d = Some (x, d')"
  shows "review_inv d' \<and> review_moves d d'"
proof (cases "d' = d")
  case True
  with inv moves_refl(4) show ?thesis by simp
next
  case False
  let ?f = "decided_round verdict by notes at"
  from False out obtain r where r: "row_lookup rd_id i (rv_rounds d) = Some r" "rd_verdict r \<noteq> VerdictSuperseded"
    and d': "d' = d\<lparr>rv_rounds := update_where (\<lambda>r. rd_id r = i) ?f (rv_rounds d)\<rparr>"
    by (auto simp: setVerdictSQL_def split: option.split_asm if_split_asm)
  have rounds: "rounds_ok (rv_rounds d) (rv_next_round d)" using inv by (simp add: review_inv_def)
  from rounds_ok_update [OF this, of ?f "\<lambda>r. rd_id r = i"] inv have "review_inv d'"
    by (simp add: review_inv_def d' decided_round_def round_key_def)
  moreover have "\<exists>r'\<in>set (update_where (\<lambda>r. rd_id r = i) ?f (rv_rounds d)). round_moves y r'" if y: "y \<in> set (rv_rounds d)" for y
  proof (rule updated_moves [OF y])
    assume "rd_id y = i"
    from only_row [OF _ r(1) y this] rounds have "y = r" by (simp add: rounds_ok_def)
    with r(2) show "round_moves y (?f y)" by (simp add: round_moves_def decided_round_def round_key_def)
  qed (rule moves_refl(2))
  ultimately show ?thesis using moves_refl by (auto simp: review_moves_def d')
qed

lemma create_finding_keeps:
  assumes inv: "review_inv d" and out: "createFindingSQL f d = Some (x, d')"
  shows "review_inv d' \<and> review_moves d d'"
proof -
  have d': "d' = d\<lparr>rv_findings := rv_findings d @ [x], rv_next_finding := rv_next_finding d + 1\<rparr>"
    and x: "fd_id x = rv_next_finding d" "finding_numbering x \<notin> finding_numbering ` set (rv_findings d)" "fd_round x \<in> rd_id ` set (rv_rounds d)"
    using out by (auto simp: createFindingSQL_def Let_def finding_numbering_def dest!: row_lookup_Some intro: rev_image_eqI split: if_split_asm option.split_asm)
  from findings_ok_new [OF _ x] inv have "review_inv d'" by (simp add: review_inv_def d')
  moreover have "review_moves d d'" using moves_refl by (auto simp: review_moves_def d')
  ultimately show ?thesis ..
qed

lemma update_finding_keeps:
  assumes inv: "review_inv d" and out: "update_finding i f d = Some (x, d')" and f: "\<And>y. finding_moves y (f y)"
  shows "review_inv d' \<and> review_moves d d'"
proof -
  have d': "d' = d\<lparr>rv_findings := update_where (\<lambda>r. fd_id r = i) f (rv_findings d)\<rparr>" using out by (simp add: update_finding_def)
  from findings_ok_update [OF _ f] inv have "review_inv d'" by (simp add: review_inv_def d')
  moreover have "review_moves d d'" using moves_refl f updated_moves [where M = finding_moves] by (simp add: review_moves_def d')
  ultimately show ?thesis ..
qed

lemma store_packet_keeps:
  assumes inv: "review_inv d" and out: "storePacketSQL p d = Some (x, d')"
  shows "review_inv d' \<and> review_moves d d'"
proof (cases "find (same_key p) (rv_packets d)")
  case None
  then have d': "d' = d\<lparr>rv_packets := rv_packets d @ [x], rv_next_packet := rv_next_packet d + 1\<rparr>" and x: "pk_id x = rv_next_packet d"
    using out by (auto simp: storePacketSQL_def Let_def)
  have "pk_id ` set (rv_packets d) \<subseteq> pk_id ` set (rv_packets d @ [x])" by auto
  then have "review_inv d'" using inv packets_ok_new [OF _ x] by (auto simp: review_inv_def d' intro: finals_ok_mono)
  moreover have "review_moves d d'" using moves_refl by (auto simp: review_moves_def d')
  ultimately show ?thesis ..
next
  case (Some old)
  then have d': "d' = d\<lparr>rv_packets := update_where (same_key p) (stored_again p) (rv_packets d), rv_next_packet := rv_next_packet d + 1\<rparr>"
    using out by (simp add: storePacketSQL_def)
  have "packets_ok (rv_packets d) (rv_next_packet d)" using inv by (simp add: review_inv_def)
  from packets_ok_update [OF this, of "stored_again p" "rv_next_packet d + 1" "same_key p"]
  have "review_inv d'" using inv by (simp add: review_inv_def d' stored_again_def)
  moreover have "review_moves d d'" using moves_refl by (auto simp: review_moves_def d')
  ultimately show ?thesis ..
qed

lemma accept_packet_keeps:
  assumes inv: "review_inv d" and out: "acceptPacketSQL i m at d = Some (x, d')"
  shows "review_inv d' \<and> review_moves d d'"
proof -
  have d': "d' = d\<lparr>rv_packets := update_where (\<lambda>p. pk_id p = i) (accepted_packet m at) (rv_packets d)\<rparr>"
    using out by (simp add: acceptPacketSQL_def)
  have "packets_ok (rv_packets d) (rv_next_packet d)" using inv by (simp add: review_inv_def)
  from packets_ok_update [OF this, of "accepted_packet m at" "rv_next_packet d" "\<lambda>p. pk_id p = i"]
  have "review_inv d'" using inv by (simp add: review_inv_def d' accepted_packet_def)
  moreover have "review_moves d d'" using moves_refl by (auto simp: review_moves_def d')
  ultimately show ?thesis ..
qed

lemma insert_final_keeps:
  assumes inv: "review_inv d" and z: "reserved z" and out: "insertFinalizationSQL z d = Some (x, d')"
  shows "review_inv d' \<and> review_moves d d'"
proof -
  have d': "d' = d\<lparr>rv_finals := rv_finals d @ [x], rv_next_final := rv_next_final d + 1\<rparr>" and x: "fz_id x = rv_next_final d"
    "fz_round x \<notin> fz_round ` set (rv_finals d)" "fz_round x \<in> rd_id ` set (rv_rounds d)" "fz_packet x \<in> pk_id ` set (rv_packets d)"
    and new: "reserved x" "fz_completed x = None"
    using out z by (auto simp: insertFinalizationSQL_def Let_def reserved_def row_lookup_None split: if_split_asm)
  from finals_ok_new [OF _ x(1,2) reserved_ok [OF new] x(3,4)] inv have "review_inv d'" by (simp add: review_inv_def d')
  moreover have "review_moves d d'" using moves_refl by (auto simp: review_moves_def d')
  ultimately show ?thesis ..
qed

lemma insert_event_keeps:
  assumes "review_inv d" and out: "insertFindingEventSQL e d = Some (x, d')"
  shows "review_inv d' \<and> review_moves d d'"
proof -
  have "d' = d\<lparr>rv_events := rv_events d @ [e]\<rparr>" using out by (auto simp: insertFindingEventSQL_def split: if_split_asm)
  with assms(1) moves_refl show ?thesis by (auto simp: review_inv_def review_moves_def)
qed

lemma responded_moves: "finding_moves y (responded_finding u at y)"
  by (simp add: finding_moves_def responded_finding_def finding_numbering_def Let_def)

lemma statused_moves: "finding_moves y (statused_finding u at y)"
  by (simp add: finding_moves_def statused_finding_def finding_numbering_def)

lemma review_step_keeps: "review_step d d' \<Longrightarrow> review_inv d \<Longrightarrow> review_inv d' \<and> review_moves d d'"
proof (induction rule: review_step.induct)
  case (step_respond i u at d x d')
  then show ?case using update_finding_keeps responded_moves by (simp add: respondFindingSQL_def)
next
  case (step_status i v at d x d')
  then show ?case using update_finding_keeps statused_moves by (simp add: setFindingStatusSQL_def)
next
  case (step_final_posted i m at d x d')
  then show ?case using update_final_keeps posted_final_ok by (simp add: markFinalizationPacketPostedSQL_def)
next
  case (step_final_transitioned i at d x d')
  then show ?case using update_final_keeps transitioned_final_ok by (simp add: markFinalizationTaskTransitionedSQL_def)
next
  case (step_final_complete i at d x d')
  then show ?case using update_final_keeps [OF _ _ completed_final_ok] by (simp add: completeFinalizationSQL_def)
next
  case (step_final_error i step message at d x d')
  then show ?case using update_final_keeps failed_final_ok by (simp add: recordFinalizationErrorSQL_def)
next
  case (step_round r d x d')
  then show ?case using create_round_keeps by blast
next
  case (step_verdict i verdict actor remarks at d x d')
  then show ?case using set_verdict_keeps by blast
next
  case (step_finding f d x d')
  then show ?case using create_finding_keeps by blast
next
  case (step_event e d x d')
  then show ?case using insert_event_keeps by blast
next
  case (step_packet p d x d')
  then show ?case using store_packet_keeps by blast
next
  case (step_accept i m at d x d')
  then show ?case using accept_packet_keeps by blast
next
  case (step_final z d x d')
  then show ?case using insert_final_keeps by blast
qed

lemma review_steps_keep: "review_steps d d' \<Longrightarrow> review_inv d \<Longrightarrow> review_inv d' \<and> review_moves d d'"
proof (induction rule: rtranclp_induct)
  case base
  then show ?case using moves_refl by simp
next
  case (step d1 d2)
  then show ?case using review_step_keeps review_moves_trans by blast
qed

end
