(* ===== verification/Review_Rounds_System.thy ===== *)
theory Review_Rounds_System
  imports Review_Rounds_Laws
begin

text \<open>
  The contract between the service of rounds, findings and finalizations and its store (locale
  \<open>review_store_laws\<close>): every operation returns and executes statements of the review tables. The service
  over any store that keeps it, whose other collaborators return and do not touch the tables (locale
  \<open>review_service_laws\<close>), does so as well. The store over PostgreSQL is an instance under every schedule of
  driver failures, and so is the service over it.
\<close>

section \<open>Operations that execute statements\<close>

definition op_runs :: "('w \<Rightarrow> review_tables) \<Rightarrow> ('w, 'a) rv_op \<Rightarrow> bool" where
  "op_runs view m \<longleftrightarrow> (\<forall>w. \<exists>r w'. m w = Some (r, w') \<and> review_steps (view w) (view w'))"

definition op_frames :: "('w \<Rightarrow> review_tables) \<Rightarrow> ('w, 'a) rv_op \<Rightarrow> bool" where
  "op_frames view m \<longleftrightarrow> (\<forall>w. \<exists>r w'. m w = Some (r, w') \<and> view w' = view w)"

named_theorems op_intros

lemma op_runs_basic [op_intros]: "op_runs v (op_return x)" "op_runs v (op_fail e)" "op_runs v (op_lift r)" "op_runs v (op_read f)"
  by (simp_all add: op_runs_def op_return_def op_fail_def op_lift_def op_read_def)

lemma op_frames_runs: "op_frames v m \<Longrightarrow> op_runs v m"
  unfolding op_frames_def op_runs_def by (metis rtranclp.rtrancl_refl)

lemma op_runs_bind [op_intros]:
  assumes m: "op_runs v m" and k: "\<And>x. op_runs v (k x)"
  shows "op_runs v (op_bind m k)"
  unfolding op_runs_def
proof
  fix w
  obtain r w1 where 1: "m w = Some (r, w1)" "review_steps (v w) (v w1)" using m unfolding op_runs_def by blast
  show "\<exists>r w'. op_bind m k w = Some (r, w') \<and> review_steps (v w) (v w')"
  proof (cases r)
    case (Inl e)
    with 1 show ?thesis by (simp add: op_bind_def)
  next
    case (Inr x)
    obtain r' w2 where 2: "k x w1 = Some (r', w2)" "review_steps (v w1) (v w2)" using k [of x] unfolding op_runs_def by blast
    with 1 Inr show ?thesis by (auto simp: op_bind_def intro: rtranclp_trans)
  qed
qed

lemma op_runs_try [op_intros]: "op_runs v m \<Longrightarrow> op_runs v (op_try m)"
  unfolding op_runs_def op_try_def by (metis (no_types, lifting) case_prod_conv option.simps(5))

lemma op_runs_if [op_intros]: "op_runs v m \<Longrightarrow> op_runs v n \<Longrightarrow> op_runs v (if b then m else n)"
  by simp

lemma op_runs_option [op_intros]: "op_runs v m \<Longrightarrow> (\<And>y. op_runs v (n y)) \<Longrightarrow> op_runs v (case x of None \<Rightarrow> m | Some y \<Rightarrow> n y)"
  by (cases x) simp_all

lemma op_runs_sum [op_intros]: "(\<And>y. op_runs v (m y)) \<Longrightarrow> (\<And>y. op_runs v (n y)) \<Longrightarrow> op_runs v (case x of Inl y \<Rightarrow> m y | Inr y \<Rightarrow> n y)"
  by (cases x) simp_all

lemma op_runs_prod [op_intros]: "(\<And>a b. op_runs v (m a b)) \<Longrightarrow> op_runs v (case x of (a, b) \<Rightarrow> m a b)"
  by (cases x) simp

lemma op_runs_let [op_intros]: "(\<And>y. op_runs v (m y)) \<Longrightarrow> op_runs v (let y = x in m y)"
  by (simp add: Let_def)

section \<open>The contract\<close>

locale review_store_laws =
  fixes store :: "'w review_store" and view :: "'w \<Rightarrow> review_tables"
  assumes CreateRound: "op_runs view (st_CreateRound store r)"
    and CreateRoundSuperseding: "op_runs view (st_CreateRoundSuperseding store r i reason)"
    and ListRounds: "op_runs view (st_ListRounds store p t)"
    and GetRound: "op_runs view (st_GetRound store i)"
    and SetVerdict: "op_runs view (st_SetVerdict store i verdict actor remarks at)"
    and CreateFinding: "op_runs view (st_CreateFinding store f)"
    and ListFindings: "op_runs view (st_ListFindings store fq)"
    and GetFinding: "op_runs view (st_GetFinding store i)"
    and RespondToFinding: "op_runs view (st_RespondToFinding store i fr at)"
    and SetFindingStatus: "op_runs view (st_SetFindingStatus store i fu at)"
    and StorePacket: "op_runs view (st_StorePacket store pk)"
    and GetPacket: "op_runs view (st_GetPacket store i)"
    and GetPacketByIdempotency: "op_runs view (st_GetPacketByIdempotency store p key)"
    and GetFindingsPacket: "op_runs view (st_GetReviewFindingsPacketForRound store i)"
    and GetFinalizationByRound: "op_runs view (st_GetFinalizationByRound store i)"
    and BeginFinalization: "fresh_final z \<Longrightarrow> op_runs view (st_BeginFinalization store z pk m at)"
    and MarkPosted: "op_runs view (st_MarkPosted store i message at)"
    and MarkTransitioned: "op_runs view (st_MarkTransitioned store i at)"
    and Complete: "op_runs view (st_Complete store i at)"
    and RecordError: "op_runs view (st_RecordError store i step cause at)"

locale review_service_laws = review_store_laws store view
  for store :: "'w review_store" and view :: "'w \<Rightarrow> review_tables" +
  fixes s :: "'w review_service"
  assumes store: "sv_store s = store"
    and task: "gv_task (sv_gates s) p t w = (tc, w') \<Longrightarrow> view w' = view w"
    and writable: "op_frames view (sv_writable s p)"
    and set_status: "op_frames view (sv_set_status s p t actor status)"
    and to_review: "op_frames view (sv_to_review s p t actor)"
    and append: "op_frames view (sv_append s p message)"
    and source: "sv_source s = Some validate \<Longrightarrow> op_frames view (validate x)"

context review_service_laws
begin

lemmas store_runs = CreateRound CreateRoundSuperseding ListRounds GetRound SetVerdict CreateFinding ListFindings GetFinding
  RespondToFinding SetFindingStatus StorePacket GetPacket GetPacketByIdempotency GetFindingsPacket GetFinalizationByRound
  MarkPosted MarkTransitioned Complete RecordError

lemmas env_runs = op_frames_runs [OF writable] op_frames_runs [OF set_status] op_frames_runs [OF to_review] op_frames_runs [OF append]

lemma task_runs: "op_runs view (sv_task s p t)"
proof -
  have "op_frames view (sv_task s p t)" using task by (auto simp: op_frames_def sv_task_def op_total_def) (metis surj_pair)
  then show ?thesis by (rule op_frames_runs)
qed

lemma validate_runs: "op_runs view (sv_validateTask s p t allowed)"
proof -
  have "view w' = view w" if "validateTask (sv_gates s) p t allowed w = (r, w')" for w r w'
    using that by (auto simp: validateTask_def Let_def dest: task split: if_split_asm prod.split_asm sum.split_asm)
  then have "op_frames view (sv_validateTask s p t allowed)"
    by (auto simp: op_frames_def sv_validateTask_def op_total_def) (metis surj_pair)
  then show ?thesis by (rule op_frames_runs)
qed

lemma now_runs: "op_runs view (sv_now s)"
  unfolding sv_now_def by (rule op_runs_basic(4))

lemmas runs = op_intros store_runs env_runs task_runs validate_runs now_runs

lemma create_round_runs: "op_runs view (sv_CreateRound s p t q)"
  unfolding sv_CreateRound_def store by (intro runs)

lemma accept_runs: "op_runs view (sv_acceptPacket s pk thread)" "op_runs view (sv_deliverReservedPacket s pk thread)"
  unfolding sv_acceptPacket_def sv_deliverReservedPacket_def sv_appendPacketMessage_def store by (intro runs)+

lemma source_runs: "op_runs view (sv_validateReviewSource s x)"
  unfolding sv_validateReviewSource_def
  by (cases "sv_source s") (auto intro!: runs op_frames_runs [OF source] split: prod.split)

lemma round_for_runs: "op_runs view (sv_round_for s q r)"
  unfolding sv_round_for_def sv_reusableOrNewReviewRound_def sv_reusableReviewRound_def store by (intro runs)

lemma to_review_runs: "op_runs view (sv_moveToReview s t agent)"
  unfolding sv_moveToReview_def by (intro runs)

lemma request_review_runs: "op_runs view (sv_RequestReview s p t q)"
  unfolding sv_RequestReview_def by (intro runs source_runs round_for_runs accept_runs to_review_runs)

lemma create_finding_runs: "op_runs view (sv_CreateFinding s i q)"
  unfolding sv_CreateFinding_def store by (intro runs)

lemma list_findings_runs: "op_runs view (sv_ListFindings s p t q)"
  unfolding sv_ListFindings_def store by (intro runs)

lemma respond_runs: "op_runs view (sv_RespondToFinding s i u)"
  unfolding sv_RespondToFinding_def store by (intro runs)

lemma set_finding_runs: "op_runs view (sv_SetFindingStatus s i u2)"
  unfolding sv_SetFindingStatus_def store by (intro runs)

lemma set_verdict_runs: "op_runs view (sv_SetVerdict s i verdict actor remarks)"
  unfolding sv_SetVerdict_def store by (intro runs)

lemma post_findings_runs: "op_runs view (sv_PostReviewFindings s p t i q)"
  unfolding sv_PostReviewFindings_def store by (intro runs accept_runs)

lemma step_runs: "op_runs view m \<Longrightarrow> op_runs view (sv_step s rc step m)"
  unfolding sv_step_def sv_finalizationFailure_def store by (intro runs)

lemma deliver_runs: "op_runs view (sv_deliver s rc)"
  unfolding sv_deliver_def sv_appendPacketMessage_def store by (intro runs step_runs)

lemma transition_runs: "op_runs view (sv_transition s rc)"
  unfolding sv_transition_def sv_apply_status_def store by (intro runs step_runs)

lemma resume_runs: "op_runs view (sv_resumeFinalization s rc)"
  unfolding sv_resumeFinalization_def store by (intro runs step_runs deliver_runs transition_runs)

lemma prepare_fresh: "sv_prepare s q m r w = Some (Inr (t, z, pk, now), w') \<Longrightarrow> fresh_final z"
  by (auto simp: sv_prepare_def op_bind_def op_return_def op_fail_def op_lift_def new_final_def fresh_final_def Let_def
      split: option.split_asm sum.split_asm prod.split_asm)

lemma prepare_runs: "op_runs view (sv_prepare s q m r)"
  unfolding sv_prepare_def store by (intro runs)

lemma begin_runs: "op_runs view (sv_begin s q m r)"
  unfolding op_runs_def
proof
  fix w
  let ?k = "\<lambda>(t, z, p, now). op_bind (st_BeginFinalization (sv_store s) z p m now) (\<lambda>(z', p', r').
     if fz_verdict z' \<noteq> zq_verdict q \<or> fz_by z' \<noteq> zq_by q then op_fail (review_conflict ErrFinalizationConflict ''review_finalization_conflict'')
     else op_return \<lparr>rc_final = z', rc_round = r', rc_packet = p', rc_status = tc_status t\<rparr>)"
  obtain x w1 where x: "sv_prepare s q m r w = Some (x, w1)" and steps: "review_steps (view w) (view w1)"
    using prepare_runs unfolding op_runs_def by blast
  show "\<exists>y w'. sv_begin s q m r w = Some (y, w') \<and> review_steps (view w) (view w')"
  proof (cases x)
    case (Inl e)
    with x steps show ?thesis by (simp add: sv_begin_def op_bind_def)
  next
    case (Inr y)
    obtain t z p now where y: "y = (t, z, p, now)" by (cases y)
    have "op_runs view (?k y)" unfolding y store
      using BeginFinalization [OF prepare_fresh] x Inr y by (auto intro!: op_intros)
    then obtain r' w2 where "?k y w1 = Some (r', w2)" "review_steps (view w1) (view w2)" unfolding op_runs_def by blast
    with x Inr steps show ?thesis
      by (intro exI [of _ r'] exI [of _ w2]) (auto simp: sv_begin_def op_bind_def intro: rtranclp_trans)
  qed
qed

lemma existing_runs: "op_runs view (sv_existing s q z)"
  unfolding sv_existing_def store by (intro runs)

lemma finalize_runs: "op_runs view (sv_FinalizeReview s q)"
  unfolding sv_FinalizeReview_def store by (intro runs existing_runs begin_runs resume_runs)

end

section \<open>The methods execute statements\<close>

text \<open>
  An action of a transaction that returns, and leaves tables which the relation \<open>R\<close> relates to those it
  found. Every such relation that is reflexive and transitive is one of a sequence of actions.
\<close>

definition tx_rel :: "(review_tables \<Rightarrow> review_tables \<Rightarrow> bool) \<Rightarrow> 'a rv_tx \<Rightarrow> bool" where
  "tx_rel R m \<longleftrightarrow> tx_stops m \<and> (\<forall>d. tx_post d (\<lambda>_. R d) m)"

named_theorems tx_intros

lemma tx_rel_call: "(\<And>d x d'. q d = Some (x, d') \<Longrightarrow> R d d') \<Longrightarrow> tx_rel R (tx_call q)"
  by (auto simp: tx_rel_def intro!: tx_post_call)

lemma tx_rel_wrap [tx_intros]: "tx_rel R m \<Longrightarrow> tx_rel R (tx_wrap ctx m)"
  by (simp add: tx_rel_def tx_post_wrap)

lemma tx_rel_fail [tx_intros]: "tx_rel R (tx_fail e)"
  by (simp add: tx_rel_def)

lemma tx_rel_if [tx_intros]: "tx_rel R m \<Longrightarrow> tx_rel R n \<Longrightarrow> tx_rel R (if b then m else n)"
  by simp

lemma tx_rel_option [tx_intros]: "tx_rel R m \<Longrightarrow> (\<And>y. tx_rel R (n y)) \<Longrightarrow> tx_rel R (case x of None \<Rightarrow> m | Some y \<Rightarrow> n y)"
  by (cases x) simp_all

lemma tx_rel_let [tx_intros]: "(\<And>y. tx_rel R (m y)) \<Longrightarrow> tx_rel R (let y = x in m y)"
  by (simp add: Let_def)

locale tx_relation =
  fixes R :: "review_tables \<Rightarrow> review_tables \<Rightarrow> bool"
  assumes same: "R d d" and chain: "R d1 d2 \<Longrightarrow> R d2 d3 \<Longrightarrow> R d1 d3"

context tx_relation
begin

lemma rel_return [tx_intros]: "tx_rel R (tx_return x)"
  by (simp add: tx_rel_def tx_post_return same)

lemma rel_read [tx_intros]: "tx_rel R (tx_call (read_only f))"
  by (rule tx_rel_call) (auto simp: read_only_def same)

lemma rel_bind [tx_intros]:
  assumes m: "tx_rel R m" and k: "\<And>x. tx_rel R (k x)"
  shows "tx_rel R (tx_bind m k)"
  unfolding tx_rel_def
proof (intro conjI allI)
  show "tx_stops (tx_bind m k)" using assms by (auto simp: tx_rel_def)
  fix d
  show "tx_post d (\<lambda>_. R d) (tx_bind m k)"
  proof (rule tx_post_bind [where R = "\<lambda>_. R d"])
    show "tx_post d (\<lambda>_. R d) m" using m by (simp add: tx_rel_def)
    show "tx_post d1 (\<lambda>_. R d) (k x)" if "R d d1" for x d1
      by (rule tx_post_weaken [where Q' = "\<lambda>_. R d1"]) (use k that in \<open>auto simp: tx_rel_def intro: chain\<close>)
    show "tx_stops (k x)" for x using k by (simp add: tx_rel_def)
  qed
qed

lemma rel_each [tx_intros]: "(\<And>x. tx_rel R (f x)) \<Longrightarrow> tx_rel R (tx_each f xs)"
  by (induction xs) (auto intro: rel_return rel_bind)

lemma rel_row [tx_intros]: "tx_rel R (tx_call q) \<Longrightarrow> tx_rel R (tx_row ctx q)"
  unfolding tx_row_def by (rule tx_rel_wrap rel_bind tx_rel_option rel_return tx_rel_fail | assumption)+

lemma rel_found [tx_intros]: "tx_rel R (tx_call q) \<Longrightarrow> tx_rel R (tx_found ctx e q)"
  unfolding tx_found_def by (rule tx_rel_wrap rel_bind tx_rel_option rel_return tx_rel_fail | assumption)+

lemma rel_lock [tx_intros]: "tx_rel R (tx_lock ctx)"
  unfolding tx_lock_def lockReviewTaskSQL_def by (intro tx_intros)

lemma rel_reads [tx_intros]:
  "tx_rel R (tx_call (latestRoundSQL p t))" "tx_rel R (tx_call (getRoundSQL i))" "tx_rel R (tx_call (currentRoundForUpdateSQL p t))"
  "tx_rel R (tx_call (roundReviewedSQL i))" "tx_rel R (tx_call (roundVerdictSQL i))" "tx_rel R (tx_call (nextFindingNumberSQL p t))"
  "tx_rel R (tx_call (listFindingsSQL q))" "tx_rel R (tx_call (getFindingSQL i))" "tx_rel R (tx_call (getPacketSQL i))"
  "tx_rel R (tx_call (getReviewFindingsPacketForRoundSQL i))" "tx_rel R (tx_call (getFinalizationByRoundSQL i))"
  "tx_rel R (tx_call (getFinalizationForUpdateSQL i))"
  unfolding latestRoundSQL_def getRoundSQL_def currentRoundForUpdateSQL_def roundReviewedSQL_def roundVerdictSQL_def
    nextFindingNumberSQL_def listFindingsSQL_def getFindingSQL_def getPacketSQL_def getReviewFindingsPacketForRoundSQL_def
    getFinalizationByRoundSQL_def getFinalizationForUpdateSQL_def
  by (rule rel_read)+

end

interpretation tx_steps: tx_relation review_steps
  by unfold_locales auto

definition keeps_findings :: "review_tables \<Rightarrow> review_tables \<Rightarrow> bool" where
  "keeps_findings d d' \<longleftrightarrow> rv_findings d' = rv_findings d"

interpretation tx_findings: tx_relation keeps_findings
  by unfold_locales (simp_all add: keeps_findings_def)

abbreviation tx_runs :: "'a rv_tx \<Rightarrow> bool" where
  "tx_runs \<equiv> tx_rel review_steps"

lemma tx_runs_statements [tx_intros]:
  "tx_runs (tx_call (createRoundSQL r))" "tx_runs (tx_call (setVerdictSQL i verdict actor remarks at))"
  "tx_runs (tx_call (createFindingSQL f))" "tx_runs (tx_call (respondFindingSQL i u at))" "tx_runs (tx_call (setFindingStatusSQL i v at))"
  "tx_runs (tx_call (insertFindingEventSQL e))" "tx_runs (tx_call (storePacketSQL p))" "tx_runs (tx_call (acceptPacketSQL i m at))"
  "tx_runs (tx_call (markFinalizationPacketPostedSQL i m at))"
  by (rule tx_rel_call; blast intro: review_step.intros)+

lemma reserved_final_reserved: "fresh_final z \<Longrightarrow> reserved (reserved_final z p now)"
  by (auto simp: reserved_final_def reserved_def fresh_final_def Let_def keep_first_def split: option.split)

lemma tx_runs_final: "reserved z \<Longrightarrow> tx_runs (tx_call (insertFinalizationSQL z))"
  by (rule tx_rel_call) (blast intro: step_final)

lemma create_round_tx_runs: "tx_runs (createRoundTx r)"
  unfolding createRoundTx_def by (intro tx_intros)

lemma replayed_runs: "tx_runs (replayed_round r old reason)"
  unfolding replayed_round_def by (intro tx_intros)

lemma superseding_runs: "tx_runs (superseding_body r i reason)"
  unfolding superseding_body_def by (intro tx_intros create_round_tx_runs replayed_runs)

lemma write_event_runs: "tx_runs (writeFindingEvent e)"
  unfolding writeFindingEvent_def by (intro tx_intros)

lemma create_finding_body_runs: "tx_runs (create_finding_body f)"
  unfolding create_finding_body_def by (intro tx_intros write_event_runs)

lemma get_finding_tx_runs: "tx_runs (getFindingTx i)"
  unfolding getFindingTx_def by (intro tx_intros)

lemma respond_body_runs: "tx_runs (respond_body i u at)" "tx_runs (finding_status_body i v at)"
  unfolding respond_body_def finding_status_body_def by (intro tx_intros write_event_runs get_finding_tx_runs)+

lemma mutation_runs: "tx_runs (applyFinalizationMutationTx r z m now)"
  unfolding applyFinalizationMutationTx_def apply_resolution_def apply_new_finding_def
  by (intro tx_intros write_event_runs get_finding_tx_runs)

lemma final_packet_runs: "tx_runs (final_packet r z p m now)"
  unfolding final_packet_def listFindingsTx_def by (intro tx_intros)

lemma begin_body_runs: "fresh_final z \<Longrightarrow> tx_runs (begin_body z p m now)"
  unfolding begin_body_def begin_new_def
  by (intro tx_intros mutation_runs final_packet_runs tx_runs_final reserved_final_reserved)

lemma mark_posted_body_runs: "tx_runs (mark_posted_body i m at)"
  unfolding mark_posted_body_def by (intro tx_intros)

text \<open>Transactions and single statements.\<close>

lemma run_tx_runs:
  assumes "tx_runs body"
  shows "op_runs pg_data (run_tx b body)"
  unfolding op_runs_def
proof
  fix db :: "review_tables pg"
  have "tx_post (pg_data db) (\<lambda>(x, _). review_steps (pg_data db)) body"
    using assms by (simp add: tx_rel_def case_prod_unfold)
  then obtain r db' where "run_tx b body db = Some (r, db')" "\<And>e. r = Inl e \<Longrightarrow> pg_data db' = pg_data db"
    "\<And>x. r = Inr x \<Longrightarrow> review_steps (pg_data db) (pg_data db')"
    using run_tx_post [where Q = "\<lambda>_. review_steps (pg_data db)" and b = b] by blast
  then show "\<exists>r db'. run_tx b body db = Some (r, db') \<and> review_steps (pg_data db) (pg_data db')"
    by (cases r) auto
qed

lemma run_or_leave_runs:
  assumes "tx_runs body"
  shows "op_runs pg_data (run_or_leave b body)"
  unfolding op_runs_def
proof
  fix db :: "review_tables pg"
  obtain a db0 where a: "pg_call (read_only (\<lambda>_. ())) db = (a, db0)" by fastforce
  have d0: "pg_data db0 = pg_data db" using pg_call_read_only [of "\<lambda>_. ()" db] a by simp
  show "\<exists>r db'. run_or_leave b body db = Some (r, db') \<and> review_steps (pg_data db) (pg_data db')"
  proof (cases a)
    case (Inl e)
    with a d0 show ?thesis by (simp add: run_or_leave_def)
  next
    case (Inr u)
    obtain r tx where body: "body \<lparr>tx_pg = db0, tx_aborted = False\<rparr> = Some (r, tx)"
      and ok: "\<And>x. r = Inr x \<Longrightarrow> \<not> tx_aborted tx \<Longrightarrow> review_steps (pg_data db) (tx_data tx)"
      using assms d0 unfolding tx_rel_def tx_post_def tx_data_def by (metis (no_types, lifting) tx.select_convs(1))
    obtain c tx' where c: "tx_query (read_only (\<lambda>_. ())) tx = (c, tx')" by fastforce
    have commit: "review_steps (pg_data db) (pg_data (tx_pg tx'))" if "r = Inr x" "c = Inr y" for x y
    proof (cases "read_only (\<lambda>_. ()) :: unit rv_stmt" tx rule: tx_query_cases)
      case (fail tx1)
      with c that show ?thesis by simp
    next
      case (ok z tx1)
      from ok(2) have "tx_data tx1 = tx_data tx" by (simp add: read_only_def)
      with ok(1,3) c \<open>\<And>x. r = Inr x \<Longrightarrow> \<not> tx_aborted tx \<Longrightarrow> review_steps (pg_data db) (tx_data tx)\<close> [OF that(1)] show ?thesis
        by (simp add: tx_data_def)
    qed
    have rolled: "pg_data (pg_rollback db0 db1) = pg_data db" for db1 by (simp add: pg_rollback_def d0)
    show ?thesis
      using a Inr body c commit rolled by (auto simp: run_or_leave_def split: sum.split option.split)
  qed
qed

lemma rv_query_runs:
  assumes "\<And>d x d'. q d = Some (x, d') \<Longrightarrow> review_steps d d'"
  shows "op_runs pg_data (rv_query ctx q answer)"
  unfolding op_runs_def
proof
  fix db :: "review_tables pg"
  show "\<exists>r db'. rv_query ctx q answer db = Some (r, db') \<and> review_steps (pg_data db) (pg_data db')"
    by (cases q db rule: pg_call_cases) (use assms in \<open>auto simp: rv_query_def\<close>)
qed

lemma rv_query_read: "op_runs pg_data (rv_query ctx (read_only f) answer)"
  by (rule rv_query_runs) (auto simp: read_only_def)

lemma rv_rows_read: "op_runs pg_data (rv_rows ctx (read_only f))"
  unfolding op_runs_def
proof
  fix db :: "review_tables pg"
  obtain a db1 where a: "pg_call (read_only f) db = (a, db1)" by fastforce
  obtain b db2 where b: "pg_call (read_only (\<lambda>_. ())) db1 = (b, db2)" by fastforce
  have "pg_data db1 = pg_data db" "pg_data db2 = pg_data db1"
    using pg_call_read_only [of f db] a pg_call_read_only [of "\<lambda>_. ()" db1] b by simp_all
  with a b show "\<exists>r db'. rv_rows ctx (read_only f) db = Some (r, db') \<and> review_steps (pg_data db) (pg_data db')"
    by (auto simp: rv_rows_def split: sum.split)
qed

lemma reads_run:
  "op_runs pg_data (rst_ListRounds p t)" "op_runs pg_data (rst_GetRound i)" "op_runs pg_data (rst_ListFindings q)"
  "op_runs pg_data (rst_GetFinding i)" "op_runs pg_data (rst_GetPacket i)" "op_runs pg_data (rst_GetReviewFindingsPacketForRound i)"
  "op_runs pg_data (rst_GetFinalizationByRound i)"
  unfolding rst_ListRounds_def rst_GetRound_def rst_ListFindings_def rst_GetFinding_def rst_GetPacket_def
    rst_GetReviewFindingsPacketForRound_def rst_GetFinalizationByRound_def listRoundsSQL_def getRoundSQL_def listFindingsSQL_def
    getFindingSQL_def getPacketSQL_def getReviewFindingsPacketForRoundSQL_def getFinalizationByRoundSQL_def
  by (rule rv_query_read rv_rows_read)+

lemma packet_by_key_runs: "op_runs pg_data (rst_GetPacketByIdempotency p key)"
proof -
  have "op_runs pg_data (rv_query ctx (getPacketByIdempotencySQL p key) Inr)" for ctx
    unfolding getPacketByIdempotencySQL_def by (rule rv_query_read)
  then show ?thesis by (simp add: op_runs_def rst_GetPacketByIdempotency_def)
qed

lemma writes_run:
  "op_runs pg_data (rst_StorePacket p)" "op_runs pg_data (rst_MarkFinalizationTaskTransitioned i at)"
  "op_runs pg_data (rst_CompleteFinalization i at)" "op_runs pg_data (rst_RecordFinalizationError i step cause at)"
  unfolding rst_StorePacket_def rst_MarkFinalizationTaskTransitioned_def rst_CompleteFinalization_def rst_RecordFinalizationError_def
  by (rule rv_query_runs; blast intro: review_step.intros)+

lemma set_verdict_method_runs: "op_runs pg_data (rst_SetVerdict i verdict actor remarks at)"
  unfolding op_runs_def
proof
  fix db :: "review_tables pg"
  show "\<exists>r db'. rst_SetVerdict i verdict actor remarks at db = Some (r, db') \<and> review_steps (pg_data db) (pg_data db')"
  proof (cases "setVerdictSQL i verdict actor remarks at" db rule: pg_call_cases)
    case (fail db1)
    then show ?thesis by (simp add: rst_SetVerdict_def)
  next
    case (ok x db1)
    have steps: "review_steps (pg_data db) (pg_data db1)" using ok(2) by (blast intro: step_verdict)
    obtain y db2 where y: "rst_GetRound i db1 = Some (y, db2)" "review_steps (pg_data db1) (pg_data db2)"
      using reads_run(2) unfolding op_runs_def by blast
    from steps y(2) have "review_steps (pg_data db) (pg_data db2)" by (rule rtranclp_trans)
    with ok(1) steps y(1) show ?thesis by (auto simp: rst_SetVerdict_def split: option.split sum.split)
  qed
qed

lemma transactions_run:
  "op_runs pg_data (rst_CreateRound r)" "op_runs pg_data (rst_CreateRoundSuperseding r i reason)" "op_runs pg_data (rst_CreateFinding f)"
  "op_runs pg_data (rst_RespondToFinding i u at)" "op_runs pg_data (rst_SetFindingStatus i v at)"
  "op_runs pg_data (rst_MarkFinalizationPacketPosted i m at)"
proof -
  have "tx_runs (tx_bind (tx_lock ctx) (\<lambda>_. tx_bind (createRoundTx r) (\<lambda>created. tx_return (created, commit))))" for ctx commit
    by (intro tx_intros create_round_tx_runs)
  then show "op_runs pg_data (rst_CreateRound r)" unfolding rst_CreateRound_def by (rule run_tx_runs)
qed (auto simp: rst_CreateRoundSuperseding_def rst_CreateFinding_def rst_RespondToFinding_def rst_SetFindingStatus_def
    rst_MarkFinalizationPacketPosted_def intro!: run_tx_runs run_or_leave_runs superseding_runs create_finding_body_runs
    respond_body_runs mark_posted_body_runs)

lemma begin_method_runs: "fresh_final z \<Longrightarrow> op_runs pg_data (rst_BeginFinalization z p m now)"
  unfolding rst_BeginFinalization_def by (intro run_tx_runs begin_body_runs)

section \<open>The store and the service\<close>

record 'x review_world =
  rw_db :: "review_tables pg"
  rw_rest :: 'x

definition review_data :: "'x review_world \<Rightarrow> review_tables" where
  "review_data w = pg_data (rw_db w)"

definition on_rounds :: "'a rv_call \<Rightarrow> ('x review_world, 'a) rv_op" where
  "on_rounds m w = (case m (rw_db w) of None \<Rightarrow> None | Some (r, db) \<Rightarrow> Some (r, w\<lparr>rw_db := db\<rparr>))"

definition beside :: "('x \<Rightarrow> 'r \<times> 'x) \<Rightarrow> 'x review_world \<Rightarrow> 'r \<times> 'x review_world" where
  "beside m w = (let (r, x) = m (rw_rest w) in (r, w\<lparr>rw_rest := x\<rparr>))"

definition pg_review_store :: "'x review_world review_store" where
  "pg_review_store =
     \<lparr>st_CreateRound = (\<lambda>r. on_rounds (rst_CreateRound r)),
      st_CreateRoundSuperseding = (\<lambda>r i reason. on_rounds (rst_CreateRoundSuperseding r i reason)),
      st_ListRounds = (\<lambda>p t. on_rounds (rst_ListRounds p t)),
      st_GetRound = (\<lambda>i. on_rounds (rst_GetRound i)),
      st_SetVerdict = (\<lambda>i v by notes at. on_rounds (rst_SetVerdict i v by notes at)),
      st_CreateFinding = (\<lambda>f. on_rounds (rst_CreateFinding f)),
      st_ListFindings = (\<lambda>q. on_rounds (rst_ListFindings q)),
      st_GetFinding = (\<lambda>i. on_rounds (rst_GetFinding i)),
      st_RespondToFinding = (\<lambda>i u at. on_rounds (rst_RespondToFinding i u at)),
      st_SetFindingStatus = (\<lambda>i u at. on_rounds (rst_SetFindingStatus i u at)),
      st_StorePacket = (\<lambda>p. on_rounds (rst_StorePacket p)),
      st_GetPacket = (\<lambda>i. on_rounds (rst_GetPacket i)),
      st_GetPacketByIdempotency = (\<lambda>p key. on_rounds (rst_GetPacketByIdempotency p key)),
      st_GetReviewFindingsPacketForRound = (\<lambda>i. on_rounds (rst_GetReviewFindingsPacketForRound i)),
      st_GetFinalizationByRound = (\<lambda>i. on_rounds (rst_GetFinalizationByRound i)),
      st_BeginFinalization = (\<lambda>z p m now. on_rounds (rst_BeginFinalization z p m now)),
      st_MarkPosted = (\<lambda>i m at. on_rounds (rst_MarkFinalizationPacketPosted i m at)),
      st_MarkTransitioned = (\<lambda>i at. on_rounds (rst_MarkFinalizationTaskTransitioned i at)),
      st_Complete = (\<lambda>i at. on_rounds (rst_CompleteFinalization i at)),
      st_RecordError = (\<lambda>i step message at. on_rounds (rst_RecordFinalizationError i step message at))\<rparr>"

text \<open>The other services and the clock, on the rest of the world, and the check gates' part of the service.\<close>

record 'x review_env =
  rx_gates :: "'x review_world gate_service"
  rx_task :: "string \<Rightarrow> int \<Rightarrow> 'x \<Rightarrow> (go_err + task_context) \<times> 'x"
  rx_clock :: "'x \<Rightarrow> time"
  rx_writable :: "string \<Rightarrow> 'x \<Rightarrow> (go_err + unit) \<times> 'x"
  rx_set_status :: "string \<Rightarrow> int \<Rightarrow> string \<Rightarrow> string \<Rightarrow> 'x \<Rightarrow> (go_err + task_context) \<times> 'x"
  rx_to_review :: "string \<Rightarrow> int \<Rightarrow> string \<Rightarrow> 'x \<Rightarrow> (go_err + task_context \<times> string) \<times> 'x"
  rx_append :: "string \<Rightarrow> packet_message \<Rightarrow> 'x \<Rightarrow> (go_err + int) \<times> 'x"
  rx_source :: "(string \<times> string \<times> string \<Rightarrow> 'x \<Rightarrow> (go_err + unit) \<times> 'x) option"
  rx_size :: "finalize_request \<Rightarrow> int"
  rx_digest :: "finalize_request \<Rightarrow> string"

definition pg_review_service :: "'x review_env \<Rightarrow> 'x review_world review_service" where
  "pg_review_service env =
     \<lparr>sv_gates = (rx_gates env)\<lparr>gv_task := \<lambda>p t. beside (rx_task env p t), gv_clock := \<lambda>w. rx_clock env (rw_rest w)\<rparr>,
      sv_store = pg_review_store, sv_writable = (\<lambda>p. op_total (beside (rx_writable env p))),
      sv_set_status = (\<lambda>p t by status. op_total (beside (rx_set_status env p t by status))),
      sv_to_review = (\<lambda>p t by. op_total (beside (rx_to_review env p t by))),
      sv_append = (\<lambda>p message. op_total (beside (rx_append env p message))),
      sv_source = map_option (\<lambda>f x. op_total (beside (f x))) (rx_source env),
      sv_size = rx_size env, sv_digest = rx_digest env\<rparr>"

lemma on_rounds_runs: "op_runs pg_data m \<Longrightarrow> op_runs review_data (on_rounds m)"
  unfolding op_runs_def
proof
  fix w :: "'b review_world"
  assume "\<forall>db. \<exists>r db'. m db = Some (r, db') \<and> review_steps (pg_data db) (pg_data db')"
  then obtain r db' where "m (rw_db w) = Some (r, db')" "review_steps (pg_data (rw_db w)) (pg_data db')" by blast
  then show "\<exists>r w'. on_rounds m w = Some (r, w') \<and> review_steps (review_data w) (review_data w')"
    by (simp add: on_rounds_def review_data_def)
qed

lemma beside_data: "beside m w = (r, w') \<Longrightarrow> review_data w' = review_data w"
  by (auto simp: beside_def review_data_def split: prod.split_asm)

lemma beside_frames: "op_frames review_data (op_total (beside m))"
  by (auto simp: op_frames_def op_total_def intro: beside_data) (metis beside_data surj_pair)

interpretation pg_rounds: review_store_laws pg_review_store review_data
  by unfold_locales
    (simp_all add: pg_review_store_def on_rounds_runs transactions_run reads_run writes_run set_verdict_method_runs packet_by_key_runs
      begin_method_runs)

interpretation pg_reviews: review_service_laws pg_review_store review_data "pg_review_service env" for env
  by unfold_locales (auto simp: pg_review_service_def beside_frames dest: beside_data)

end
