(* ===== verification/Review_Rounds_Live.thy ===== *)
theory Review_Rounds_Live
  imports Review_Rounds_System
begin

text \<open>
  What the operations of review rounds and finalizations do when the driver does not fail: the finalization
  of a stored decision is carried to its end, and repeated without effect.
\<close>

section \<open>A driver that does not fail\<close>

definition calm_world :: "review_tables \<Rightarrow> 'x \<Rightarrow> 'x review_world" where
  "calm_world d x = \<lparr>rw_db = calm_pg d, rw_rest = x\<rparr>"

lemma calm_world_of: "pg_faults (rw_db w) = [] \<Longrightarrow> w = calm_world (review_data w) (rw_rest w)"
  for w :: "'x review_world"
  by (cases w) (simp add: calm_world_def review_data_def calm_pg_def)

lemma calm_world_data [simp]: "review_data (calm_world d x) = d" "rw_rest (calm_world d x) = x"
  by (simp_all add: calm_world_def review_data_def)

lemma calm_world_eq [simp]: "calm_world d x = calm_world d' x' \<longleftrightarrow> d = d' \<and> x = x'"
  by (simp add: calm_world_def)

lemma on_rounds_calm: "m (calm_pg d) = Some (r, calm_pg d') \<Longrightarrow> on_rounds m (calm_world d x) = Some (r, calm_world d' x)"
  by (simp add: on_rounds_def calm_world_def)

lemma beside_calm: "m x = (r, x') \<Longrightarrow> beside m (calm_world d x) = (r, calm_world d x')"
  by (simp add: beside_def calm_world_def)

lemma rv_query_calm: "q d = Some (x, d') \<Longrightarrow> rv_query ctx q answer (calm_pg d) = Some (answer x, calm_pg d')"
  by (simp add: rv_query_def calm_simps)

lemma query_calm:
  "q d = Some (y, d') \<Longrightarrow> on_rounds (rv_query ctx q answer) (calm_world d x) = Some (answer y, calm_world d' x)"
  by (rule on_rounds_calm) (rule rv_query_calm)

lemma query_read_calm: "on_rounds (rv_query ctx (read_only f) answer) (calm_world d x) = Some (answer (f d), calm_world d x)"
  by (rule query_calm) (simp add: read_only_def)

lemma tx_found_calm: "q d = Some (Some r, d') \<Longrightarrow> tx_found ctx e q (calm d) = Some (Inr r, calm d')"
  by (simp add: tx_found_def calm_simps tx_return_def)

lemma tx_row_calm: "q d = Some (Some r, d') \<Longrightarrow> tx_row ctx q (calm d) = Some (Inr r, calm d')"
  by (simp add: tx_row_def calm_simps tx_return_def)

lemma sv_step_run: "m w = Some (Inr y, w') \<Longrightarrow> sv_step s rc step m w = Some (Inr y, w')"
  by (simp add: sv_step_def op_bind_def op_try_def op_return_def)

lemmas step_defs = op_bind_def op_return_def

lemma now_calm: "sv_now (pg_review_service env) (calm_world d x) = Some (Inr (rx_clock env x), calm_world d x)"
  by (simp add: sv_now_def op_read_def pg_review_service_def)

lemma get_round_calm: "row_lookup rd_id i (rv_rounds d) = Some r \<Longrightarrow>
    st_GetRound pg_review_store i (calm_world d x) = Some (Inr r, calm_world d x)"
  by (simp add: pg_review_store_def rst_GetRound_def getRoundSQL_def query_read_calm found_or_def)

lemma get_packet_calm: "row_lookup pk_id i (rv_packets d) = Some p \<Longrightarrow>
    st_GetPacket pg_review_store i (calm_world d x) = Some (Inr p, calm_world d x)"
  by (simp add: pg_review_store_def rst_GetPacket_def getPacketSQL_def query_read_calm found_or_def)

lemma get_final_calm: "st_GetFinalizationByRound pg_review_store i (calm_world d x) =
    Some (Inr (row_lookup fz_round i (rv_finals d)), calm_world d x)"
  by (simp add: pg_review_store_def rst_GetFinalizationByRound_def getFinalizationByRoundSQL_def query_read_calm)

section \<open>Checkpoints\<close>

lemma update_final_run:
  assumes z: "row_lookup fz_id i (rv_finals d) = Some z" "P z" and f: "\<And>y. fz_id (f y) = fz_id y"
  shows "\<exists>d'. update_final i P f d = Some (Some (f z), d') \<and> row_lookup fz_id i (rv_finals d') = Some (f z)"
proof -
  have "row_lookup fz_id i (update_where (\<lambda>x. fz_id x = i) f (rv_finals d)) = Some (f z)"
    using row_lookup_Some [OF z(1)] by (subst row_lookup_update_where) (auto simp: f z)
  with z show ?thesis by (simp add: update_final_def)
qed

text \<open>The row of a finalization, and that it can take its next steps.\<close>

definition at_row :: "review_tables \<Rightarrow> finalization \<Rightarrow> bool" where
  "at_row d z \<longleftrightarrow> review_inv d \<and> row_lookup fz_id (fz_id z) (rv_finals d) = Some z"

lemma at_row_ok: "at_row d z \<Longrightarrow> final_ok z \<and> fz_packet z \<in> pk_id ` set (rv_packets d) \<and> fz_round z \<in> rd_id ` set (rv_rounds d)"
  by (auto simp: at_row_def review_inv_def finals_ok_def dest!: row_lookup_Some)

lemma by_round:
  assumes "at_row d z"
  shows "row_lookup fz_round (fz_round z) (rv_finals d) = Some z"
proof (rule row_lookup_distinct)
  show "distinct (map fz_round (rv_finals d))" using assms by (simp add: at_row_def review_inv_def finals_ok_def)
  have "row_lookup fz_id (fz_id z) (rv_finals d) = Some z" using assms by (simp add: at_row_def)
  from row_lookup_Some [OF this] show "z \<in> set (rv_finals d)" ..
qed

lemma of_round: "review_inv d \<Longrightarrow> row_lookup fz_round i (rv_finals d) = Some z \<Longrightarrow> at_row d z \<and> fz_round z = i"
  using row_lookup_distinct [of fz_id "rv_finals d" z] row_lookup_Some [of fz_round i "rv_finals d" z]
  by (simp add: at_row_def review_inv_def finals_ok_def)

lemma row_of_key: "k \<in> key ` set rs \<Longrightarrow> \<exists>r. row_lookup key k rs = Some r"
  using row_lookup_None [of key k rs] by (cases "row_lookup key k rs") auto

lemma mark_posted_run:
  assumes "at_row d z"
  shows "\<exists>p d'. st_MarkPosted pg_review_store (fz_id z) m at (calm_world d x) = Some (Inr (posted_final m at z, p), calm_world d' x) \<and>
    at_row d' (posted_final m at z)"
proof -
  have z: "row_lookup fz_id (fz_id z) (rv_finals d) = Some z" using assms by (simp add: at_row_def)
  obtain p where p: "row_lookup pk_id (fz_packet z) (rv_packets d) = Some p" using at_row_ok [OF assms] row_of_key [of "fz_packet z" pk_id "rv_packets d"] by blast
  define d1 where "d1 = d\<lparr>rv_packets := update_where (\<lambda>p. pk_id p = fz_packet z) (accepted_packet m at) (rv_packets d)\<rparr>"
  have a: "acceptPacketSQL (fz_packet z) m at d = Some (Some (accepted_packet m at p), d1)" by (simp add: acceptPacketSQL_def p d1_def)
  have "row_lookup fz_id (fz_id z) (rv_finals d1) = Some z" by (simp add: d1_def z)
  from update_final_run [where P = "\<lambda>_. True" and f = "posted_final m at", OF this] obtain d' where
    d': "markFinalizationPacketPostedSQL (fz_id z) m at d1 = Some (Some (posted_final m at z), d')"
      "row_lookup fz_id (fz_id z) (rv_finals d') = Some (posted_final m at z)"
    by (auto simp: markFinalizationPacketPostedSQL_def posted_final_def)
  have g: "getFinalizationForUpdateSQL (fz_id z) d = Some (Some z, d)" by (simp add: getFinalizationForUpdateSQL_def read_only_def z)
  have runs: "tx_found ctx e (getFinalizationForUpdateSQL (fz_id z)) (calm d) = Some (Inr z, calm d)"
    "tx_row ctx (acceptPacketSQL (fz_packet z) m at) (calm d) = Some (Inr (accepted_packet m at p), calm d1)"
    "tx_row ctx (markFinalizationPacketPostedSQL (fz_id z) m at) (calm d1) = Some (Inr (posted_final m at z), calm d')" for ctx e
    by (rule tx_found_calm, rule g) (rule tx_row_calm, rule a, rule tx_row_calm, rule d'(1))
  have "mark_posted_body (fz_id z) m at (calm d) =
      Some (Inr ((posted_final m at z, accepted_packet m at p), ''committing finalization packet checkpoint: ''), calm d')"
    by (simp add: mark_posted_body_def tx_bind_def runs tx_return_def)
  from calm_run_tx [where body = "mark_posted_body (fz_id z) m at", OF this, of "''beginning finalization packet checkpoint: ''"]
  have run: "st_MarkPosted pg_review_store (fz_id z) m at (calm_world d x) =
      Some (Inr (posted_final m at z, accepted_packet m at p), calm_world d' x)"
    by (simp add: pg_review_store_def rst_MarkFinalizationPacketPosted_def on_rounds_def calm_world_def)
  have "review_inv d'"
    using review_step_keeps [OF step_accept [OF a]] review_step_keeps [OF step_final_posted [OF d'(1)]] assms by (simp add: at_row_def)
  with d'(2) run show ?thesis by (auto simp: at_row_def posted_final_def)
qed

lemma mark_transitioned_run:
  assumes "at_row d z"
  shows "\<exists>d'. st_MarkTransitioned pg_review_store (fz_id z) at (calm_world d x) = Some (Inr (transitioned_final at z), calm_world d' x) \<and>
    at_row d' (transitioned_final at z)"
proof -
  have "row_lookup fz_id (fz_id z) (rv_finals d) = Some z" using assms by (simp add: at_row_def)
  from update_final_run [where P = "\<lambda>_. True" and f = "transitioned_final at", OF this] obtain d' where
    d': "markFinalizationTaskTransitionedSQL (fz_id z) at d = Some (Some (transitioned_final at z), d')"
      "row_lookup fz_id (fz_id z) (rv_finals d') = Some (transitioned_final at z)"
    by (auto simp: markFinalizationTaskTransitionedSQL_def transitioned_final_def)
  have "review_inv d'" using review_step_keeps [OF step_final_transitioned [OF d'(1)]] assms by (simp add: at_row_def)
  moreover have "st_MarkTransitioned pg_review_store (fz_id z) at (calm_world d x) = Some (Inr (transitioned_final at z), calm_world d' x)"
    by (simp add: pg_review_store_def rst_MarkFinalizationTaskTransitioned_def found_or_def
        query_calm [where q = "markFinalizationTaskTransitionedSQL (fz_id z) at" and y = "Some (transitioned_final at z)" and d' = d'] d'(1))
  ultimately show ?thesis using d'(2) by (auto simp: at_row_def transitioned_final_def)
qed

lemma complete_run:
  assumes "at_row d z" and ready: "fz_posted z \<noteq> None" "fz_transitioned z \<noteq> None"
  shows "\<exists>d'. st_Complete pg_review_store (fz_id z) at (calm_world d x) = Some (Inr (completed_final at z), calm_world d' x) \<and>
    at_row d' (completed_final at z)"
proof -
  have "row_lookup fz_id (fz_id z) (rv_finals d) = Some z" using assms by (simp add: at_row_def)
  from update_final_run [where P = "\<lambda>z. fz_posted z \<noteq> None \<and> fz_transitioned z \<noteq> None" and f = "completed_final at", OF this] ready
  obtain d' where
    d': "completeFinalizationSQL (fz_id z) at d = Some (Some (completed_final at z), d')"
      "row_lookup fz_id (fz_id z) (rv_finals d') = Some (completed_final at z)"
    by (auto simp: completeFinalizationSQL_def completed_final_def)
  have "review_inv d'" using review_step_keeps [OF step_final_complete [OF d'(1)]] assms by (simp add: at_row_def)
  moreover have "st_Complete pg_review_store (fz_id z) at (calm_world d x) = Some (Inr (completed_final at z), calm_world d' x)"
    by (simp add: pg_review_store_def rst_CompleteFinalization_def found_or_def
        query_calm [where q = "completeFinalizationSQL (fz_id z) at" and y = "Some (completed_final at z)" and d' = d'] d'(1))
  ultimately show ?thesis using d'(2) by (auto simp: at_row_def completed_final_def)
qed

section \<open>Resuming a finalization\<close>

text \<open>Services that accept the message, and let the task go from review to the target of the finalization.\<close>

definition obliging :: "'x review_env \<Rightarrow> finalization \<Rightarrow> bool" where
  "obliging env z \<longleftrightarrow>
     (\<forall>p m x. \<exists>i x'. rx_append env p m x = (Inr i, x')) \<and>
     (\<forall>x. \<exists>t x'. rx_task env (fz_project z) (fz_task z) x = (Inr t, x') \<and> (tc_status t = TaskReview \<or> tc_status t = fz_target z)) \<and>
     (\<forall>actor x. \<exists>t x'. rx_set_status env (fz_project z) (fz_task z) actor (fz_target z) x = (Inr t, x') \<and> tc_status t = fz_target z)"

lemma obliging_identity: "final_identity z' = final_identity z \<Longrightarrow> obliging env z' \<longleftrightarrow> obliging env z"
  by (simp add: obliging_def final_identity_def)

lemma deliver_run:
  assumes z: "at_row d (rc_final rc)" and env: "obliging env (rc_final rc)"
  shows "\<exists>rc1 d1 x1. sv_deliver (pg_review_service env) rc (calm_world d x) = Some (Inr rc1, calm_world d1 x1) \<and>
    at_row d1 (rc_final rc1) \<and> final_moves (rc_final rc) (rc_final rc1) \<and> fz_posted (rc_final rc1) \<noteq> None"
proof (cases "fz_posted (rc_final rc)")
  case (Some t)
  with z moves_refl(1) show ?thesis by (auto simp: sv_deliver_def step_defs)
next
  case None
  let ?s = "pg_review_service env" and ?z = "rc_final rc"
  have "\<exists>m x1. (case pk_message (rc_packet rc) of Some m \<Rightarrow> op_return m
      | None \<Rightarrow> sv_step ?s rc StepDelivery (sv_appendPacketMessage ?s (rc_packet rc) (fz_thread ?z))) (calm_world d x) =
      Some (Inr m, calm_world d x1)"
  proof (cases "pk_message (rc_packet rc)")
    case None
    obtain m x1 where "rx_append env (pk_project (rc_packet rc))
        \<lparr>pm_task = pk_task (rc_packet rc), pm_thread = fz_thread ?z, pm_sender = pk_sender (rc_packet rc), pm_content = pk_source (rc_packet rc),
         pm_intent = intentForPacket (pk_kind (rc_packet rc)) (string_key ''verdict'' (pk_envelope (rc_packet rc))),
         pm_metadata = put_key ''review_packet_id'' (AInt (pk_id (rc_packet rc))) (pk_envelope (rc_packet rc))\<rparr> x = (Inr m, x1)"
      using env unfolding obliging_def by blast
    then have "sv_appendPacketMessage ?s (rc_packet rc) (fz_thread ?z) (calm_world d x) = Some (Inr m, calm_world d x1)"
      by (simp add: sv_appendPacketMessage_def pg_review_service_def op_total_def beside_def calm_world_def)
    from sv_step_run [where m = "sv_appendPacketMessage ?s (rc_packet rc) (fz_thread ?z)", OF this] None show ?thesis by simp
  next
    case (Some m)
    then show ?thesis by (auto simp: step_defs)
  qed
  then obtain m x1 where m: "(case pk_message (rc_packet rc) of Some m \<Rightarrow> op_return m
      | None \<Rightarrow> sv_step ?s rc StepDelivery (sv_appendPacketMessage ?s (rc_packet rc) (fz_thread ?z))) (calm_world d x) =
      Some (Inr m, calm_world d x1)" by blast
  let ?t = "rx_clock env x1"
  obtain p d1 where p: "st_MarkPosted pg_review_store (fz_id ?z) m ?t (calm_world d x1) = Some (Inr (posted_final m ?t ?z, p), calm_world d1 x1)"
    "at_row d1 (posted_final m ?t ?z)" using mark_posted_run [where m = m and at = ?t and x = x1, OF z] by blast
  have store: "sv_store ?s = pg_review_store" by (simp add: pg_review_service_def)
  have "sv_deliver ?s rc (calm_world d x) = Some (Inr (rc\<lparr>rc_final := posted_final m ?t ?z, rc_packet := p\<rparr>), calm_world d1 x1)"
    using None by (simp add: sv_deliver_def m now_calm store p(1) step_defs)
  moreover have "final_moves ?z (posted_final m ?t ?z)" using posted_final_ok at_row_ok [OF z] by blast
  moreover have "fz_posted (posted_final m ?t ?z) \<noteq> None" by (simp add: posted_final_def keep_first_def split: option.split)
  ultimately show ?thesis using p(2) by (intro exI conjI) auto
qed

lemma apply_status_run:
  assumes "obliging env z"
  shows "\<exists>t x'. sv_apply_status (pg_review_service env) z (calm_world d x) = Some (Inr t, calm_world d x') \<and> tc_status t = fz_target z"
proof -
  let ?s = "pg_review_service env"
  obtain t x1 where t: "rx_task env (fz_project z) (fz_task z) x = (Inr t, x1)" "tc_status t = TaskReview \<or> tc_status t = fz_target z"
    using assms unfolding obliging_def by blast
  have t1: "sv_task ?s (fz_project z) (fz_task z) (calm_world d x) = Some (Inr t, calm_world d x1)"
    by (simp add: sv_task_def op_total_def pg_review_service_def beside_def calm_world_def t(1))
  obtain t' x2 where t': "rx_set_status env (fz_project z) (fz_task z) (fz_by z) (fz_target z) x1 = (Inr t', x2)" "tc_status t' = fz_target z"
    using assms unfolding obliging_def by blast
  have t2: "sv_set_status ?s (fz_project z) (fz_task z) (fz_by z) (fz_target z) (calm_world d x1) = Some (Inr t', calm_world d x2)"
    by (simp add: op_total_def pg_review_service_def beside_def calm_world_def t'(1))
  show ?thesis
  proof (cases "tc_status t = fz_target z")
    case True
    then show ?thesis by (simp add: sv_apply_status_def t1 step_defs)
  next
    case False
    with t(2) t'(2) show ?thesis by (simp add: sv_apply_status_def t1 t2 step_defs)
  qed
qed

lemma transition_run:
  assumes z: "at_row d (rc_final rc)" and env: "obliging env (rc_final rc)"
  shows "\<exists>rc1 d1 x1. sv_transition (pg_review_service env) rc (calm_world d x) = Some (Inr rc1, calm_world d1 x1) \<and>
    at_row d1 (rc_final rc1) \<and> final_moves (rc_final rc) (rc_final rc1) \<and> fz_transitioned (rc_final rc1) \<noteq> None"
proof (cases "fz_transitioned (rc_final rc)")
  case (Some t)
  with z moves_refl(1) show ?thesis by (auto simp: sv_transition_def step_defs)
next
  case None
  let ?s = "pg_review_service env" and ?z = "rc_final rc"
  obtain t x1 where t: "sv_apply_status ?s ?z (calm_world d x) = Some (Inr t, calm_world d x1)" using apply_status_run [OF env] by blast
  have st: "sv_step ?s rc StepTransition (sv_apply_status ?s ?z) (calm_world d x) = Some (Inr t, calm_world d x1)"
    by (rule sv_step_run) (rule t)
  let ?t = "rx_clock env x1"
  obtain d1 where d1: "st_MarkTransitioned pg_review_store (fz_id ?z) ?t (calm_world d x1) = Some (Inr (transitioned_final ?t ?z), calm_world d1 x1)"
    "at_row d1 (transitioned_final ?t ?z)" using mark_transitioned_run [where at = ?t and x = x1, OF z] by blast
  have store: "sv_store ?s = pg_review_store" by (simp add: pg_review_service_def)
  have "sv_transition ?s rc (calm_world d x) = Some (Inr (rc\<lparr>rc_final := transitioned_final ?t ?z, rc_status := tc_status t\<rparr>), calm_world d1 x1)"
    using None by (simp add: sv_transition_def st now_calm store d1(1) step_defs)
  moreover have "final_moves ?z (transitioned_final ?t ?z)" using transitioned_final_ok at_row_ok [OF z] by blast
  moreover have "fz_transitioned (transitioned_final ?t ?z) \<noteq> None" by (simp add: transitioned_final_def keep_first_def split: option.split)
  ultimately show ?thesis using d1(2) by (intro exI conjI) auto
qed

lemma resume_run:
  assumes z: "at_row d (rc_final rc)" and env: "obliging env (rc_final rc)"
  shows "\<exists>rc' d' x'. sv_resumeFinalization (pg_review_service env) rc (calm_world d x) = Some (Inr rc', calm_world d' x') \<and>
    at_row d' (rc_final rc') \<and> final_moves (rc_final rc) (rc_final rc') \<and> fz_state (rc_final rc') = FinalComplete \<and>
    rc_status rc' = fz_target (rc_final rc) \<and> (fz_state (rc_final rc) = FinalComplete \<longrightarrow> d' = d \<and> x' = x \<and> rc_final rc' = rc_final rc)"
proof (cases "fz_state (rc_final rc) = FinalComplete")
  case True
  with z moves_refl(1) show ?thesis by (auto simp: sv_resumeFinalization_def step_defs)
next
  case False
  let ?s = "pg_review_service env"
  from deliver_run [OF z env] obtain rc1 d1 x1 where 1: "sv_deliver ?s rc (calm_world d x) = Some (Inr rc1, calm_world d1 x1)"
    "at_row d1 (rc_final rc1)" "final_moves (rc_final rc) (rc_final rc1)" "fz_posted (rc_final rc1) \<noteq> None" by blast
  have env1: "obliging env (rc_final rc1)" using 1(3) env obliging_identity by (auto simp: final_moves_def)
  from transition_run [OF 1(2) env1] obtain rc2 d2 x2 where 2: "sv_transition ?s rc1 (calm_world d1 x1) = Some (Inr rc2, calm_world d2 x2)"
    "at_row d2 (rc_final rc2)" "final_moves (rc_final rc1) (rc_final rc2)" "fz_transitioned (rc_final rc2) \<noteq> None" by blast
  have posted: "fz_posted (rc_final rc2) \<noteq> None" using 2(3) 1(4) by (simp add: final_moves_def)
  let ?t = "rx_clock env x2" and ?z = "rc_final rc2"
  obtain d3 where 3: "st_Complete pg_review_store (fz_id ?z) ?t (calm_world d2 x2) = Some (Inr (completed_final ?t ?z), calm_world d3 x2)"
    "at_row d3 (completed_final ?t ?z)" using complete_run [where at = ?t and x = x2, OF 2(2) posted 2(4)] by blast
  have st: "sv_step ?s rc2 StepCompletion (st_Complete pg_review_store (fz_id ?z) ?t) (calm_world d2 x2) =
      Some (Inr (completed_final ?t ?z), calm_world d3 x2)" by (rule sv_step_run) (rule 3(1))
  have store: "sv_store ?s = pg_review_store" by (simp add: pg_review_service_def)
  have "sv_resumeFinalization ?s rc (calm_world d x) =
      Some (Inr (rc2\<lparr>rc_final := completed_final ?t ?z, rc_status := fz_target (completed_final ?t ?z)\<rparr>), calm_world d3 x2)"
    using False by (simp add: sv_resumeFinalization_def 1(1) 2(1) now_calm store
        st step_defs)
  moreover have m: "final_moves (rc_final rc) (completed_final ?t ?z)"
    using completed_final_ok at_row_ok [OF 2(2)] posted 2(4) 1(3) 2(3) final_moves_trans by metis
  moreover have "fz_target (completed_final ?t ?z) = fz_target (rc_final rc)"
    using m by (simp add: final_moves_def final_identity_def)
  ultimately show ?thesis using 3(2) False by (intro exI conjI) (auto simp: completed_final_def)
qed

section \<open>The whole finalization of a stored decision\<close>

definition asks_for :: "'x review_env \<Rightarrow> finalize_request \<Rightarrow> finalization \<Rightarrow> bool" where
  "asks_for env q z \<longleftrightarrow> fz_verdict z = zq_verdict q \<and> fz_by z = zq_by q \<and> (fz_digest z = [] \<or> fz_digest z = rx_digest env q)"

lemma asks_for_moved: "final_moves z z' \<Longrightarrow> asks_for env q z' \<longleftrightarrow> asks_for env q z"
  by (simp add: asks_for_def final_moves_def final_identity_def)

lemma finalize_run:
  assumes inv: "review_inv d" and q: "sv_checkFinalize (pg_review_service env) q = Inr (q', m)"
    and z: "row_lookup fz_round (zq_round q') (rv_finals d) = Some z" and ask: "asks_for env q' z" and env: "obliging env z"
  shows "\<exists>rc d' x'. sv_FinalizeReview (pg_review_service env) q (calm_world d x) = Some (Inr rc, calm_world d' x') \<and>
    review_inv d' \<and> row_lookup fz_round (zq_round q') (rv_finals d') = Some (rc_final rc) \<and> final_moves z (rc_final rc) \<and>
    fz_state (rc_final rc) = FinalComplete \<and> rc_status rc = fz_target z \<and>
    (fz_state z = FinalComplete \<longrightarrow> d' = d \<and> x' = x \<and> rc_final rc = z)"
proof -
  let ?s = "pg_review_service env"
  have row: "at_row d z" "fz_round z = zq_round q'" using of_round [OF inv z] by simp_all
  obtain r where r: "row_lookup rd_id (zq_round q') (rv_rounds d) = Some r"
    using at_row_ok [OF row(1)] row_of_key [of "zq_round q'" rd_id "rv_rounds d"] row(2) by auto
  obtain p where p: "row_lookup pk_id (fz_packet z) (rv_packets d) = Some p"
    using at_row_ok [OF row(1)] row_of_key [of "fz_packet z" pk_id "rv_packets d"] by blast
  let ?rc = "\<lparr>rc_final = z, rc_round = r, rc_packet = p, rc_status = fz_target z\<rparr>"
  have store: "sv_store ?s = pg_review_store" "sv_digest ?s = rx_digest env" by (simp_all add: pg_review_service_def)
  note reads = get_round_calm [OF r] get_final_calm get_packet_calm [OF p]
  have "sv_FinalizeReview ?s q (calm_world d x) = sv_resumeFinalization ?s ?rc (calm_world d x)"
    using ask by (auto simp: sv_FinalizeReview_def op_lift_def q op_bind_def store reads z sv_existing_def op_return_def row(2) asks_for_def)
  moreover obtain rc d' x' where run: "sv_resumeFinalization ?s ?rc (calm_world d x) = Some (Inr rc, calm_world d' x')"
    "at_row d' (rc_final rc)" "final_moves z (rc_final rc)" "fz_state (rc_final rc) = FinalComplete" "rc_status rc = fz_target z"
    "fz_state z = FinalComplete \<longrightarrow> d' = d \<and> x' = x \<and> rc_final rc = z"
    using resume_run [where x = x and rc = ?rc and d = d and env = env] row(1) env by auto
  moreover have "row_lookup fz_round (zq_round q') (rv_finals d') = Some (rc_final rc)"
    using by_round [OF run(2)] run(3) row(2) by (simp add: final_moves_def final_identity_def)
  moreover have "review_inv d'" using run(2) by (simp add: at_row_def)
  ultimately show ?thesis by (intro exI [of _ rc] exI [of _ d'] exI [of _ x']) simp
qed

section \<open>What a decision leaves of the findings\<close>

text \<open>These facts hold whatever the driver does.\<close>

interpretation tx_same: tx_relation "(=)"
  by unfold_locales simp_all

lemma op_bind_Inr: "op_bind m k w = Some (Inr y, w') \<Longrightarrow> \<exists>x w1. m w = Some (Inr x, w1) \<and> k x w1 = Some (Inr y, w')"
  by (auto simp: op_bind_def split: option.split_asm sum.split_asm prod.split_asm)

definition stored_listing :: "findings_query \<Rightarrow> review_tables \<Rightarrow> finding list" where
  "stored_listing q d = fst (the (listFindingsSQL q d))"

lemma list_findings_Inr:
  assumes "st_ListFindings pg_review_store q w = Some (Inr fs, w')"
  shows "fs = stored_listing q (review_data w) \<and> review_data w' = review_data w"
proof -
  obtain f where q: "listFindingsSQL q = read_only f" by (simp add: listFindingsSQL_def)
  obtain db where db: "rv_rows ''listing review findings: '' (listFindingsSQL q) (rw_db w) = Some (Inr fs, db)" "review_data w' = pg_data db"
    using assms by (auto simp: pg_review_store_def rst_ListFindings_def on_rounds_def review_data_def split: option.split_asm)
  obtain a db1 where a: "pg_call (read_only f) (rw_db w) = (a, db1)" by fastforce
  obtain b db2 where b: "pg_call (read_only (\<lambda>_. ())) db1 = (b, db2)" by fastforce
  have "a = Inr fs \<and> db = db2" using db(1) a b unfolding q by (auto simp: rv_rows_def split: sum.split_asm)
  then have "fs = f (pg_data (rw_db w)) \<and> pg_data db1 = pg_data (rw_db w)" "pg_data db = pg_data db1"
    using a b pg_call_read_only_Inr [of f "rw_db w" fs db1] pg_call_read_only [of "\<lambda>_. ()" db1] by simp_all
  then show ?thesis using db(2) by (simp add: stored_listing_def q read_only_def review_data_def)
qed

lemma list_findings_calm: "st_ListFindings pg_review_store q (calm_world d x) = Some (Inr (stored_listing q d), calm_world d x)"
  by (simp add: pg_review_store_def rst_ListFindings_def on_rounds_def calm_world_def rv_rows_def listFindingsSQL_def calm_pg_read
      stored_listing_def) (simp add: read_only_def)

lemma listing_set: "set (stored_listing (task_findings p t None) d) = {f \<in> set (rv_findings d). fd_project f = p \<and> fd_task f = t}"
  by (auto simp: stored_listing_def listFindingsSQL_def read_only_def task_findings_def)

lemma validate_task_data:
  assumes "sv_validateTask (pg_review_service env) p t allowed w = Some (r, w')"
  shows "review_data w' = review_data w"
  using assms
  by (auto simp: sv_validateTask_def op_total_def validateTask_def Let_def pg_review_service_def dest!: beside_data
      split: if_split_asm prod.split_asm sum.split_asm)

text \<open>The status of a finding after the resolutions of a decision.\<close>

definition new_status :: "resolution list \<Rightarrow> finding \<Rightarrow> string" where
  "new_status rs f = fd_status (resolved_by rs f)"

lemma new_status_simps:
  "new_status [] f = fd_status f"
  "new_status (x # rs) f = (if rs_finding x = fd_id f then rs_resolved_as x else new_status rs f)"
  by (simp_all add: new_status_def resolved_by_def)

lemma new_status_other: "fd_id f \<notin> rs_finding ` set rs \<Longrightarrow> new_status rs f = fd_status f"
  by (induction rs) (auto simp: new_status_simps)

lemma new_status_same: "fd_id f' = fd_id f \<Longrightarrow> fd_status f' = fd_status f \<Longrightarrow> new_status rs f' = new_status rs f"
  by (induction rs) (simp_all add: new_status_simps)

definition resolves :: "resolution list \<Rightarrow> review_tables \<Rightarrow> review_tables \<Rightarrow> bool" where
  "resolves rs d d' \<longleftrightarrow> list_all2 (\<lambda>f f'. fd_id f' = fd_id f \<and> fd_project f' = fd_project f \<and> fd_task f' = fd_task f \<and>
     fd_status f' = new_status rs f) (rv_findings d) (rv_findings d')"

lemma resolves_Nil: "resolves [] d d"
  by (simp add: resolves_def new_status_simps list_all2_same)

lemma resolves_Cons:
  assumes "resolves [x] d d1" and "resolves rs d1 d2" and "rs_finding x \<notin> rs_finding ` set rs"
  shows "resolves (x # rs) d d2"
  unfolding resolves_def
proof (rule list_all2_trans [OF _ assms(1,2) [unfolded resolves_def]])
  fix f f1 f2
  assume 1: "fd_id f1 = fd_id f \<and> fd_project f1 = fd_project f \<and> fd_task f1 = fd_task f \<and> fd_status f1 = new_status [x] f"
    and 2: "fd_id f2 = fd_id f1 \<and> fd_project f2 = fd_project f1 \<and> fd_task f2 = fd_task f1 \<and> fd_status f2 = new_status rs f1"
  have "new_status rs f1 = new_status (x # rs) f"
    using 1 assms(3) new_status_other [of f1 rs] new_status_same [of f1 f rs] by (auto simp: new_status_simps)
  with 1 2 show "fd_id f2 = fd_id f \<and> fd_project f2 = fd_project f \<and> fd_task f2 = fd_task f \<and> fd_status f2 = new_status (x # rs) f"
    by simp
qed

lemma respond_resolves:
  assumes "respondFindingSQL (rs_finding x) u at d = Some (y, d')" and "fr_status u = rs_resolved_as x" "rs_resolved_as x \<noteq> []"
  shows "resolves [x] d d'"
proof -
  have "rv_findings d' = map (\<lambda>f. if fd_id f = rs_finding x then responded_finding u at f else f) (rv_findings d)"
    using assms(1) by (auto simp: respondFindingSQL_def update_finding_def update_where_def)
  then show ?thesis using assms(2,3)
    by (auto simp: resolves_def list_all2_map2 list_all2_same new_status_simps responded_finding_def keep_text_def Let_def)
qed

lemma keeps_resolves: "resolves rs d d1 \<Longrightarrow> keeps_findings d1 d2 \<Longrightarrow> resolves rs d d2"
  by (simp add: resolves_def keeps_findings_def)

lemma tx_post_rel: "tx_rel R m \<Longrightarrow> (\<And>x d'. R d d' \<Longrightarrow> Q x d') \<Longrightarrow> tx_post d Q m"
  by (rule tx_post_weaken [where Q' = "\<lambda>_. R d"]) (simp_all add: tx_rel_def)

lemma tx_rel_stops: "tx_rel R m \<Longrightarrow> tx_stops m"
  by (simp add: tx_rel_def)

lemma keep_statements [tx_intros]:
  "tx_rel keeps_findings (tx_call (setVerdictSQL i verdict actor remarks at))" "tx_rel keeps_findings (tx_call (insertFindingEventSQL e))"
  "tx_rel keeps_findings (tx_call (storePacketSQL p))" "tx_rel keeps_findings (tx_call (insertFinalizationSQL z))"
proof -
  show "tx_rel keeps_findings (tx_call (setVerdictSQL i verdict actor remarks at))"
    by (rule tx_rel_call) (auto simp: keeps_findings_def setVerdictSQL_def split: option.split_asm if_split_asm)
  show "tx_rel keeps_findings (tx_call (insertFindingEventSQL e))"
    by (rule tx_rel_call) (auto simp: keeps_findings_def insertFindingEventSQL_def split: if_split_asm)
  show "tx_rel keeps_findings (tx_call (storePacketSQL p))"
    by (rule tx_rel_call) (auto simp: keeps_findings_def storePacketSQL_def Let_def split: option.split_asm)
  show "tx_rel keeps_findings (tx_call (insertFinalizationSQL z))"
    by (rule tx_rel_call) (auto simp: keeps_findings_def insertFinalizationSQL_def Let_def split: if_split_asm)
qed

lemma keep_event [tx_intros]: "tx_rel keeps_findings (writeFindingEvent e)"
  unfolding writeFindingEvent_def by (intro tx_intros)

lemma keep_packet [tx_intros]: "tx_rel keeps_findings (final_packet r z p m now)"
  unfolding final_packet_def listFindingsTx_def by (intro tx_intros)

lemma resolution_post:
  assumes as: "rs_resolved_as x \<noteq> []"
  shows "tx_post d (\<lambda>_. resolves [x] d) (apply_resolution r z now x)"
  unfolding apply_resolution_def
proof (rule tx_post_bind [where R = "\<lambda>_ d1. d1 = d"])
  have "tx_rel (=) (getFindingTx (rs_finding x))" unfolding getFindingTx_def by (intro tx_intros)
  then show "tx_post d (\<lambda>_ d1. d1 = d) (getFindingTx (rs_finding x))" by (rule tx_post_rel) simp
next
  fix current d1 assume d1: "d1 = d"
  let ?u = "\<lparr>fr_by = fz_by z, fr_notes = rs_note x, fr_status = rs_resolved_as x, fr_status_notes = rs_note x, fr_follow_up = None,
    fr_run = fz_run z, fr_role = fz_role z\<rparr>"
  have row: "tx_post d (\<lambda>_. resolves [x] d) (tx_row ctx (respondFindingSQL (rs_finding x) ?u now))" for ctx
    unfolding tx_row_def
    by (intro tx_post_wrap tx_post_call_bind tx_post_option tx_post_fail tx_post_return tx_stops_option) (use as in \<open>auto intro: respond_resolves\<close>)
  have ev: "tx_post d2 (\<lambda>_. resolves [x] d) (writeFindingEvent e)" if "resolves [x] d d2" for e d2
    by (rule tx_post_rel [OF keep_event]) (rule keeps_resolves [OF that])
  show "tx_post d1 (\<lambda>_. resolves [x] d)
     (if fd_project current \<noteq> rd_project r \<or> fd_task current \<noteq> rd_task r then
        tx_fail (review_notFound (Errorf (''finding '' @ show_int (rs_finding x) @ '' does not belong to this task'')) ''finding_not_found'')
      else tx_bind (tx_row (''applying finalization finding resolution '' @ show_int (rs_finding x) @ '': '') (respondFindingSQL (rs_finding x) ?u now))
        (\<lambda>updated. writeFindingEvent (event_for updated ''review_finalization_resolution'' (fz_by z) (fd_status current) (rs_note x) (rs_note x) None (fz_run z) (fz_role z) now)))"
    unfolding d1
    by (intro tx_post_if tx_post_fail tx_post_bind [OF row]) (use ev tx_rel_stops [OF keep_event] in auto)
next
  show "tx_stops (if fd_project c \<noteq> rd_project r \<or> fd_task c \<noteq> rd_task r then
        tx_fail (review_notFound (Errorf (''finding '' @ show_int (rs_finding x) @ '' does not belong to this task'')) ''finding_not_found'')
      else tx_bind (tx_row (''applying finalization finding resolution '' @ show_int (rs_finding x) @ '': '') (respondFindingSQL (rs_finding x)
         \<lparr>fr_by = fz_by z, fr_notes = rs_note x, fr_status = rs_resolved_as x, fr_status_notes = rs_note x, fr_follow_up = None,
          fr_run = fz_run z, fr_role = fz_role z\<rparr> now))
        (\<lambda>updated. writeFindingEvent (event_for updated ''review_finalization_resolution'' (fz_by z) (fd_status c) (rs_note x) (rs_note x) None (fz_run z) (fz_role z) now)))" for c
    by (simp add: tx_row_def tx_rel_stops [OF keep_event])
qed

lemma resolution_stops: "tx_stops (apply_resolution r z now x)"
  by (simp add: apply_resolution_def getFindingTx_def tx_row_def tx_rel_stops [OF keep_event])

lemma resolutions_post:
  assumes "\<forall>x\<in>set rs. rs_resolved_as x \<noteq> []" and "distinct (map rs_finding rs)"
  shows "tx_post d (\<lambda>_. resolves rs d) (tx_each (apply_resolution r z now) rs)"
  using assms
proof (induction rs arbitrary: d)
  case Nil
  then show ?case by (simp add: tx_post_return resolves_Nil)
next
  case (Cons x rs)
  show ?case unfolding tx_each.simps
  proof (rule tx_post_bind [OF resolution_post])
    show "rs_resolved_as x \<noteq> []" using Cons.prems by simp
    show "tx_post d1 (\<lambda>_. resolves (x # rs) d) (tx_each (apply_resolution r z now) rs)" if "resolves [x] d d1" for d1
      by (rule tx_post_weaken [OF Cons.IH [of d1]]) (use Cons.prems resolves_Cons [OF that] in auto)
    show "tx_stops (tx_each (apply_resolution r z now) rs)" by (simp add: resolution_stops)
  qed
qed

lemma after_mutation: "tx_rel keeps_findings
   (tx_bind (final_packet r z p m now) (\<lambda>p.
    tx_bind (tx_wrap ''reserving finalization packet: ''
      (tx_bind (tx_call (getReviewFindingsPacketForRoundSQL (fz_round z))) (\<lambda>x.
         case x of Some stored \<Rightarrow> tx_return stored | None \<Rightarrow> tx_call (storePacketSQL (p\<lparr>pk_status := PacketPendingAppend\<rparr>))))) (\<lambda>stored.
    tx_bind (tx_row ''persisting finalization verdict: '' (setVerdictSQL (rd_id r) (fz_verdict z) (fz_by z) (fz_notes z) now)) (\<lambda>round.
    tx_bind (tx_wrap ''creating review finalization: '' (tx_call (insertFinalizationSQL (reserved_final z stored now)))) (\<lambda>z'.
    tx_return ((z', stored, round), ''committing review finalization: ''))))))"
  by (intro tx_intros)

lemma mutation_post:
  assumes "\<forall>x\<in>set (mu_resolutions m). rs_resolved_as x \<noteq> []" and "distinct (map rs_finding (mu_resolutions m))" and "mu_new m = []"
  shows "tx_post d (\<lambda>_. resolves (mu_resolutions m) d) (applyFinalizationMutationTx r z m now)"
  unfolding applyFinalizationMutationTx_def
  by (rule tx_post_bind [OF resolutions_post [OF assms(1,2)]]) (simp_all add: assms(3) tx_post_return)

lemma mutation_stops: "tx_stops (applyFinalizationMutationTx r z m now)"
  by (rule tx_rel_stops [OF mutation_runs])

lemma begin_new_post:
  assumes m: "\<forall>x\<in>set (mu_resolutions m). rs_resolved_as x \<noteq> []" "distinct (map rs_finding (mu_resolutions m))" "mu_new m = []"
  shows "tx_post d (\<lambda>_. resolves (mu_resolutions m) d) (begin_new r z p m now)"
  unfolding begin_new_def
proof (rule tx_post_bind [where R = "\<lambda>_ d1. d1 = d"], goal_cases)
  case 1
  have "tx_rel (=) (tx_found ctx e (currentRoundForUpdateSQL p t))" for ctx e p t by (intro tx_intros)
  then show ?case by (rule tx_post_rel) simp
next
  case (2 current d1)
  have d1: "d1 = d" using 2 by simp
  show ?case unfolding d1
    by (intro tx_post_if tx_post_fail tx_post_bind [OF mutation_post [OF m]] tx_rel_stops [OF after_mutation])
      (rule tx_post_rel [OF after_mutation], erule keeps_resolves)
next
  case (3 current)
  show ?case by (simp add: mutation_stops tx_rel_stops [OF after_mutation])
qed

lemma begin_new_stops: "fresh_final z \<Longrightarrow> tx_stops (begin_new r z p m now)"
proof -
  assume z: "fresh_final z"
  have "tx_rel review_steps (begin_new r z p m now)"
    unfolding begin_new_def by (intro tx_intros mutation_runs final_packet_runs tx_runs_final reserved_final_reserved z)
  then show ?thesis by (rule tx_rel_stops)
qed

lemma begin_body_post:
  assumes m: "\<forall>x\<in>set (mu_resolutions m). rs_resolved_as x \<noteq> []" "distinct (map rs_finding (mu_resolutions m))" "mu_new m = []"
    and none: "row_lookup fz_round (fz_round z) (rv_finals d) = None" and z: "fresh_final z"
  shows "tx_post d (\<lambda>_. resolves (mu_resolutions m) d) (begin_body z p m now)"
proof -
  have reads: "tx_rel (=) (tx_lock ctx)" "tx_rel (=) (tx_found ctx e (getRoundSQL i))" for ctx e i by (intro tx_intros)+
  have branch: "tx_stops (case x of
       Some existing \<Rightarrow>
         if \<not> finalizationMaterialsMatch existing z then tx_fail (review_conflict ErrFinalizationConflict ''review_finalization_conflict'')
         else
         tx_bind (tx_row ''getting existing finalization packet: '' (getPacketSQL (fz_packet existing))) (\<lambda>stored.
         tx_return ((existing, stored, r), ''committing existing review finalization read: ''))
     | None \<Rightarrow> begin_new r z p m now)" for x r
    by (simp add: begin_new_stops [OF z] tx_row_def split: option.split)
  have none': "tx_post d (\<lambda>x d1. d1 = d \<and> x = None) (tx_wrap ctx (tx_call (getFinalizationByRoundSQL (fz_round z))))" for ctx
    by (intro tx_post_wrap tx_post_call) (auto simp: getFinalizationByRoundSQL_def read_only_def none)
  have found: "tx_post d (\<lambda>_ d1. d1 = d) (tx_found ctx e (getRoundSQL i))" for ctx e i
    by (rule tx_post_rel [OF reads(2)]) simp
  show ?thesis unfolding begin_body_def
  proof (rule tx_post_bind [where R = "\<lambda>_ d1. d1 = d"], goal_cases)
    case 1
    show ?case by (rule tx_post_rel [OF reads(1)]) simp
  next
    case (2 x d1)
    then have d1: "d1 = d" .
    show ?case unfolding d1
    proof (rule tx_post_bind [OF found], goal_cases)
      case (1 r d2)
      then have d2: "d2 = d" .
      show ?case unfolding d2
        by (rule tx_post_bind [OF none']) (auto intro: begin_new_post [OF m] branch [simplified])
    next
      case (2 r)
      show ?case by (intro tx_stops_bind tx_stops_wrap tx_stops_basic branch)
    qed
  next
    case (3 x)
    show ?case by (intro tx_stops_bind tx_stops_wrap tx_stops_basic branch tx_rel_stops [OF reads(2)])
  qed
qed

section \<open>What a decision was checked against\<close>

lemma first_refusal_None: "first_error f xs = None \<longleftrightarrow> (\<forall>x\<in>set xs. f x = None)"
  by (induction xs) (auto split: option.split)

lemma repeated_finding_None: "sorted (map rs_finding xs) \<Longrightarrow> repeated_finding xs = None \<Longrightarrow> distinct (map rs_finding xs)"
proof (induction xs rule: repeated_finding.induct)
  case (1 x y zs)
  then show ?case by (force split: if_split_asm)
qed simp_all

lemma check_finalize_Inr:
  assumes "sv_checkFinalize s q0 = Inr (q, m)"
  shows "(\<forall>x\<in>set (mu_resolutions m). rs_resolved_as x \<noteq> []) \<and> distinct (map rs_finding (mu_resolutions m)) \<and>
    (zq_verdict q = VerdictLooksGood \<or> zq_verdict q = VerdictChangesRequested)"
proof -
  have n: "normalizeFinalizationMutation q0 = Inr m" and v: "zq_verdict q = VerdictLooksGood \<or> zq_verdict q = VerdictChangesRequested"
    using assms by (auto simp: sv_checkFinalize_def Let_def split: if_split_asm sum.split_asm)
  let ?rs = "map neat_resolution (zq_resolutions q0)"
  from n have e: "first_error resolution_error ?rs = None" and d: "repeated_finding (sort_key rs_finding ?rs) = None"
    and m: "mu_resolutions m = sort_key rs_finding ?rs"
    by (auto simp: normalizeFinalizationMutation_def Let_def split: option.split_asm)
  have "rs_resolved_as x \<noteq> []" if "resolution_error x = None" for x
    using that by (auto simp: resolution_error_def terminal_resolution_def validFindingStatus_def finding_statuses split: if_split_asm)
  with e have "\<forall>x\<in>set (mu_resolutions m). rs_resolved_as x \<noteq> []" unfolding first_refusal_None m set_sort by blast
  moreover have "distinct (map rs_finding (mu_resolutions m))" unfolding m by (rule repeated_finding_None [OF _ d]) simp
  ultimately show ?thesis using v by blast
qed

lemma project_Inr:
  assumes p: "projectFinalizationFindings mine fs m = Inr (mine', fs')"
    and v: "validateFinalizationFindings VerdictLooksGood mine' fs' = None"
  shows "mu_new m = [] \<and> (\<forall>f\<in>set fs. resolvedStatus (new_status (mu_resolutions m) f))"
proof -
  have all: "\<forall>f\<in>set fs'. resolvedStatus (fd_status f)" using v by (simp add: validateFinalizationFindings_def split: if_split_asm)
  have fs': "fs' = sort_key fd_number (map (resolved_by (mu_resolutions m)) fs @
      projected_new (case mine @ fs of [] \<Rightarrow> 0 | f # _ \<Rightarrow> fd_task f) 1 (mu_new m))"
    using p by (simp add: projectFinalizationFindings_def Let_def split: option.split_asm)
  have "mu_new m = []"
  proof (cases "mu_new m")
    case (Cons x xs)
    with all have "resolvedStatus FindingOpen" unfolding fs' by simp
    then show ?thesis by (simp add: resolvedStatus_def finding_statuses)
  qed
  with all show ?thesis unfolding fs' by (simp add: new_status_def)
qed

lemma prepare_Inr:
  assumes "sv_prepare (pg_review_service env) q m r w = Some (Inr (t, z, p, now), w1)"
  shows "review_data w1 = review_data w \<and> z = new_final r q (rx_digest env q) now \<and>
    (zq_verdict q = VerdictLooksGood \<longrightarrow> mu_new m = [] \<and>
      (\<forall>f\<in>set (rv_findings (review_data w)). fd_project f = rd_project r \<and> fd_task f = rd_task r \<longrightarrow>
         resolvedStatus (new_status (mu_resolutions m) f)))"
proof -
  let ?s = "pg_review_service env"
  have env: "sv_store ?s = pg_review_store" "sv_digest ?s = rx_digest env" by (simp_all add: pg_review_service_def)
  from assms obtain t0 wa mine wb fs wc mine' fs' where
    a: "sv_validateTask ?s (rd_project r) (rd_task r) [TaskReview] w = Some (Inr t0, wa)"
    and b: "st_ListFindings pg_review_store (task_findings (rd_project r) (rd_task r) (Some (rd_id r))) wa = Some (Inr mine, wb)"
    and c: "st_ListFindings pg_review_store (task_findings (rd_project r) (rd_task r) None) wb = Some (Inr fs, wc)"
    and p: "projectFinalizationFindings mine fs m = Inr (mine', fs')"
    and v: "validateFinalizationFindings (zq_verdict q) mine' fs' = None" and w1: "w1 = wc" and z: "z = new_final r q (rx_digest env q) now"
    by (auto simp: sv_prepare_def env op_bind_def op_lift_def op_return_def op_fail_def sv_now_def op_read_def Let_def
        split: sum.split_asm prod.split_asm option.split_asm)
  have data: "review_data wa = review_data w" "review_data wb = review_data wa" "review_data wc = review_data wb"
    and fs: "fs = stored_listing (task_findings (rd_project r) (rd_task r) None) (review_data wb)"
    using validate_task_data [OF a] list_findings_Inr [OF b] list_findings_Inr [OF c] by simp_all
  have "mu_new m = [] \<and> (\<forall>f\<in>set fs. resolvedStatus (new_status (mu_resolutions m) f))" if "zq_verdict q = VerdictLooksGood"
    using project_Inr [OF p] v that by simp
  with data fs w1 z show ?thesis by (auto simp: listing_set)
qed

lemma run_tx_Inr:
  assumes "tx_post (pg_data db) (\<lambda>(x, _). Q x) body" and "run_tx b body db = Some (Inr y, db')"
  shows "Q y (pg_data db')"
  using run_tx_post [where Q = Q and b = b, OF assms(1)] assms(2) by (metis option.inject prod.inject)

lemma begin_resolves:
  assumes q: "sv_checkFinalize (pg_review_service env) q0 = Inr (q, m)" and v: "zq_verdict q = VerdictLooksGood"
    and none: "row_lookup fz_round (rd_id r) (rv_finals (review_data w)) = None"
    and out: "sv_begin (pg_review_service env) q m r w = Some (Inr rc, w')"
  shows "resolves (mu_resolutions m) (review_data w) (review_data w') \<and>
    (\<forall>f\<in>set (rv_findings (review_data w)). fd_project f = rd_project r \<and> fd_task f = rd_task r \<longrightarrow>
       resolvedStatus (new_status (mu_resolutions m) f)) \<and> fz_verdict (rc_final rc) = VerdictLooksGood"
proof -
  let ?s = "pg_review_service env"
  from out [unfolded sv_begin_def, THEN op_bind_Inr] obtain x w1 where x: "sv_prepare ?s q m r w = Some (Inr x, w1)"
    and rest: "(case x of (t, z, p, now) \<Rightarrow> op_bind (st_BeginFinalization (sv_store ?s) z p m now) (\<lambda>(z', p', r').
     if fz_verdict z' \<noteq> zq_verdict q \<or> fz_by z' \<noteq> zq_by q then op_fail (review_conflict ErrFinalizationConflict ''review_finalization_conflict'')
     else op_return \<lparr>rc_final = z', rc_round = r', rc_packet = p', rc_status = tc_status t\<rparr>)) w1 = Some (Inr rc, w')" by blast
  obtain t z p now where txz: "x = (t, z, p, now)" by (cases x)
  note pr = prepare_Inr [OF x [unfolded txz]]
  have fresh: "fresh_final z" and round: "fz_round z = rd_id r" using pr by (simp_all add: new_final_def fresh_final_def)
  from rest obtain z' p' r' where b: "st_BeginFinalization pg_review_store z p m now w1 = Some (Inr (z', p', r'), w')"
    and z': "fz_verdict z' = zq_verdict q" "rc_final rc = z'"
    by (auto simp: txz op_bind_def op_fail_def op_return_def pg_review_service_def split: option.split_asm sum.split_asm prod.split_asm if_split_asm)
  obtain db where db: "rst_BeginFinalization z p m now (rw_db w1) = Some (Inr (z', p', r'), db)" "review_data w' = pg_data db"
    using b by (auto simp: pg_review_store_def on_rounds_def review_data_def split: option.split_asm)
  have d: "pg_data (rw_db w1) = review_data w" using pr by (simp add: review_data_def)
  have "tx_post (pg_data (rw_db w1)) (\<lambda>_. resolves (mu_resolutions m) (review_data w)) (begin_body z p m now)"
    unfolding d using begin_body_post check_finalize_Inr [OF q] pr v none round fresh by simp
  then have post: "tx_post (pg_data (rw_db w1)) (\<lambda>(x, _). resolves (mu_resolutions m) (review_data w)) (begin_body z p m now)"
    by (simp add: case_prod_unfold)
  have "resolves (mu_resolutions m) (review_data w) (review_data w')"
    using run_tx_Inr [where Q = "\<lambda>_. resolves (mu_resolutions m) (review_data w)", OF post] db by (simp add: rst_BeginFinalization_def)
  with pr v z' show ?thesis by simp
qed

section \<open>A finding between the check and the decision\<close>

lemma tx_wrap_calm: "m (calm d) = Some (Inr x, tx) \<Longrightarrow> tx_wrap ctx m (calm d) = Some (Inr x, tx)"
  by (simp add: tx_wrap_def)

lemma call_calm: "q d = Some (x, d') \<Longrightarrow> tx_call q (calm d) = Some (Inr x, calm d')"
  by (rule calm_call)

lemma lock_calm: "tx_lock ctx (calm d) = Some (Inr (), calm d)"
  by (simp add: tx_lock_def tx_wrap_def lockReviewTaskSQL_def calm_call_read)

text \<open>The tables agree on what a decision about a round reads, apart from findings and packets.\<close>

definition same_rounds :: "review_tables \<Rightarrow> review_tables \<Rightarrow> bool" where
  "same_rounds d d' \<longleftrightarrow> rv_rounds d' = rv_rounds d \<and> rv_finals d' = rv_finals d"

lemma create_finding_calm:
  assumes r: "row_lookup rd_id (fd_round f) (rv_rounds d) = Some r" "rd_verdict r \<noteq> VerdictSuperseded"
    and key: "finding_key_of (fd_task f) (fst (the (nextFindingNumberSQL (fd_project f) (fd_task f) d))) \<notin> fd_key ` set (rv_findings d)"
  shows "\<exists>f' d'. st_CreateFinding pg_review_store f (calm_world d x) = Some (Inr f', calm_world d' x) \<and>
    f' \<in> set (rv_findings d') \<and> fd_status f' = fd_status f \<and> fd_project f' = fd_project f \<and> fd_task f' = fd_task f \<and> same_rounds d d'"
proof -
  define n where "n = fst (the (nextFindingNumberSQL (fd_project f) (fd_task f) d))"
  have next_n: "nextFindingNumberSQL (fd_project f) (fd_task f) d = Some (n, d)"
    by (simp add: n_def nextFindingNumberSQL_def read_only_def)
  let ?S = "insert 0 (fd_number ` set (filter (\<lambda>x. fd_project x = fd_project f \<and> fd_task x = fd_task f) (rv_findings d)))"
  have "n = Max ?S + 1" by (simp add: n_def nextFindingNumberSQL_def read_only_def)
  moreover have "fd_number x \<le> Max ?S" if "x \<in> set (rv_findings d)" "fd_project x = fd_project f" "fd_task x = fd_task f" for x
    by (rule Max_ge) (use that in auto)
  ultimately have fresh: "fd_number x \<noteq> n" if "x \<in> set (rv_findings d)" "fd_project x = fd_project f" "fd_task x = fd_task f" for x
    using that by fastforce
  let ?f = "f\<lparr>fd_number := n, fd_key := finding_key_of (fd_task f) n\<rparr>"
  define new where "new = ?f\<lparr>fd_id := rv_next_finding d, fd_round_number := rd_number r, fd_status_by := [], fd_status_notes := [],
    fd_status_at := None, fd_response_by := [], fd_response_notes := [], fd_response_at := None, fd_follow_up := None\<rparr>"
  define d1 where d1: "d1 = d\<lparr>rv_findings := rv_findings d @ [new], rv_next_finding := rv_next_finding d + 1\<rparr>"
  have unique: "\<not> (\<exists>x\<in>set (rv_findings d). fd_key x = finding_key_of (fd_task f) n \<or>
      fd_project x = fd_project f \<and> fd_task x = fd_task f \<and> fd_number x = n)"
    using fresh key unfolding n_def [symmetric] by (metis image_eqI)
  have new: "createFindingSQL ?f d = Some (new, d1)"
    unfolding createFindingSQL_def using unique by (simp add: r(1) Let_def new_def d1)
  have same: "fd_status new = fd_status f" "fd_project new = fd_project f" "fd_task new = fd_task f" by (simp_all add: new_def)
  let ?e = "event_for new ''finding_created'' (fd_by new) [] [] [] None (fd_run new) (fd_role new) (fd_created new)"
  define d2 where "d2 = d1\<lparr>rv_events := rv_events d1 @ [?e]\<rparr>"
  have ev: "insertFindingEventSQL ?e d1 = Some ((), d2)" by (simp add: insertFindingEventSQL_def event_for_def d1 d2_def)
  have verdict: "roundVerdictSQL (fd_round f) d = Some (Some (rd_verdict r), d)" by (simp add: roundVerdictSQL_def read_only_def r(1))
  have runs: "tx_row ctx (roundVerdictSQL (fd_round f)) (calm d) = Some (Inr (rd_verdict r), calm d)"
    "tx_wrap ctx (tx_call (nextFindingNumberSQL (fd_project f) (fd_task f))) (calm d) = Some (Inr n, calm d)"
    "tx_wrap ctx (tx_call (createFindingSQL ?f)) (calm d) = Some (Inr new, calm d1)"
    "writeFindingEvent ?e (calm d1) = Some (Inr (), calm d2)" for ctx
    unfolding writeFindingEvent_def
    by (rule tx_row_calm, rule verdict) (rule tx_wrap_calm, rule call_calm, rule next_n new ev)+
  have body: "create_finding_body f (calm d) = Some (Inr (new, ''committing review finding: ''), calm d2)"
    using r(2) by (simp add: create_finding_body_def tx_bind_def lock_calm runs tx_return_def)
  have "st_CreateFinding pg_review_store f (calm_world d x) = Some (Inr new, calm_world d2 x)"
    using calm_run_tx [where body = "create_finding_body f", OF body, of "''beginning create finding: ''"]
    by (simp add: pg_review_store_def rst_CreateFinding_def on_rounds_def calm_world_def)
  then show ?thesis using same by (intro exI [of _ new] exI [of _ d2]) (simp add: d2_def d1 same_rounds_def)
qed

lemma reserve_calm:
  "\<exists>stored d'. tx_wrap ctx
      (tx_bind (tx_call (getReviewFindingsPacketForRoundSQL i)) (\<lambda>x.
         case x of Some stored \<Rightarrow> tx_return stored | None \<Rightarrow> tx_call (storePacketSQL p))) (calm d) = Some (Inr stored, calm d') \<and>
    pk_id stored \<in> pk_id ` set (rv_packets d') \<and> rv_findings d' = rv_findings d \<and> same_rounds d d'"
proof -
  let ?ps = "sort_key findings_packet_order (filter (\<lambda>p. pk_round p = Some i \<and> pk_kind p = KindReviewFindings) (rv_packets d))"
  have g: "tx_call (getReviewFindingsPacketForRoundSQL i) (calm d) = Some (Inr (last_row ?ps), calm d)"
    unfolding getReviewFindingsPacketForRoundSQL_def by (rule calm_call_read)
  show ?thesis
  proof (cases "last_row ?ps")
    case (Some stored)
    then have "stored = last ?ps" "?ps \<noteq> []" unfolding last_row_def by (auto split: if_split_asm)
    then have "stored \<in> set ?ps" by (metis last_in_set)
    then have "stored \<in> set (rv_packets d)" by simp
    with Some g show ?thesis by (auto simp: tx_wrap_def tx_bind_def tx_return_def same_rounds_def)
  next
    case None
    obtain stored d' where s: "storePacketSQL p d = Some (stored, d')" and p: "pk_id stored \<in> pk_id ` set (rv_packets d')"
      and same: "rv_findings d' = rv_findings d" "same_rounds d d'"
    proof (cases "find (same_key p) (rv_packets d)")
      case None
      then show thesis using that by (auto simp: storePacketSQL_def Let_def same_rounds_def)
    next
      case (Some old)
      then have "old \<in> set (rv_packets d)" "same_key p old" by (auto simp: find_Some_iff)
      then have "stored_again p old \<in> set (update_where (same_key p) (stored_again p) (rv_packets d))" by (auto simp: updated_row)
      with Some show thesis using that by (auto simp: storePacketSQL_def same_rounds_def)
    qed
    have "tx_call (storePacketSQL p) (calm d) = Some (Inr stored, calm d')" by (rule call_calm) (rule s)
    with None g p same show ?thesis by (auto simp: tx_wrap_def tx_bind_def)
  qed
qed

lemma begin_calm:
  assumes r: "row_lookup rd_id (fz_round z) (rv_rounds d) = Some r" "rd_verdict r = []"
    and current: "last_row (sort_key (\<lambda>r. (rd_number r, rd_id r)) (of_task (rd_project r) (rd_task r) d)) = Some r"
    and new: "\<forall>y\<in>set (rv_finals d). fz_round y \<noteq> fz_round z \<and> fz_key y \<noteq> fz_key z"
    and m: "mu_resolutions m = []" "mu_new m = []"
  shows "\<exists>z' p' r' d'. st_BeginFinalization pg_review_store z p m now (calm_world d x) = Some (Inr (z', p', r'), calm_world d' x) \<and>
    fz_round z' = fz_round z \<and> fz_verdict z' = fz_verdict z \<and> fz_by z' = fz_by z \<and> fz_target z' = fz_target z \<and> z' \<in> set (rv_finals d') \<and> rv_findings d' = rv_findings d"
proof -
  have id: "rd_id r = fz_round z" using row_lookup_Some [OF r(1)] by simp
  obtain stored d1 where s: "tx_wrap ''reserving finalization packet: ''
      (tx_bind (tx_call (getReviewFindingsPacketForRoundSQL (fz_round z))) (\<lambda>x.
         case x of Some stored \<Rightarrow> tx_return stored | None \<Rightarrow> tx_call (storePacketSQL (p\<lparr>pk_status := PacketPendingAppend\<rparr>)))) (calm d) =
      Some (Inr stored, calm d1)" and s': "pk_id stored \<in> pk_id ` set (rv_packets d1)" "rv_findings d1 = rv_findings d" "same_rounds d d1"
    using reserve_calm by blast
  let ?r = "decided_round (fz_verdict z) (fz_by z) (fz_notes z) now r"
  define d2 where "d2 = d1\<lparr>rv_rounds := update_where (\<lambda>r. rd_id r = fz_round z) (decided_round (fz_verdict z) (fz_by z) (fz_notes z) now) (rv_rounds d1)\<rparr>"
  have v: "setVerdictSQL (fz_round z) (fz_verdict z) (fz_by z) (fz_notes z) now d1 = Some (Some ?r, d2)"
    using r s'(3) by (simp add: setVerdictSQL_def same_rounds_def VerdictSuperseded_def d2_def)
  have r2: "row_lookup rd_id (fz_round z) (rv_rounds d2) = Some ?r"
    using r(1) s'(3) row_lookup_Some [OF r(1)]
    by (simp add: d2_def same_rounds_def, subst row_lookup_update_where) (auto simp: decided_round_def)
  let ?z = "reserved_final z stored now"
  have same: "fz_round ?z = fz_round z" "fz_key ?z = fz_key z" "fz_packet ?z = pk_id stored" "fz_verdict ?z = fz_verdict z" "fz_by ?z = fz_by z" "fz_target ?z = fz_target z"
    by (simp_all add: reserved_final_def Let_def split: option.split)
  have packets: "rv_packets d2 = rv_packets d1" "rv_finals d2 = rv_finals d" using s'(3) by (simp_all add: d2_def same_rounds_def)
  have pk: "row_lookup pk_id (pk_id stored) (rv_packets d2) \<noteq> None" unfolding packets row_lookup_None using s'(1) by simp
  define z' where "z' = ?z\<lparr>fz_id := rv_next_final d2, fz_transitioned := None, fz_completed := None, fz_error_step := [], fz_error := [],
    fz_message_attempts := 0, fz_task_attempts := 0\<rparr>"
  define d3 where d3: "d3 = d2\<lparr>rv_finals := rv_finals d2 @ [z'], rv_next_final := rv_next_final d2 + 1\<rparr>"
  have unique: "\<not> (\<exists>x\<in>set (rv_finals d2). fz_round x = fz_round ?z \<or> fz_key x = fz_key ?z)"
    unfolding packets same using new by blast
  have z': "insertFinalizationSQL ?z d2 = Some (z', d3)"
    unfolding insertFinalizationSQL_def using unique pk r2 by (simp add: same Let_def z'_def d3)
  have same': "fz_round z' = fz_round z" "fz_verdict z' = fz_verdict z" "fz_by z' = fz_by z" "fz_target z' = fz_target z" by (simp_all add: z'_def same)
  have reads: "getRoundSQL (fz_round z) d = Some (Some r, d)" "currentRoundForUpdateSQL (rd_project r) (rd_task r) d = Some (Some r, d)"
    by (simp_all add: getRoundSQL_def currentRoundForUpdateSQL_def read_only_def r(1) current)
  have "row_lookup fz_round (fz_round z) (rv_finals d) = None" using new by (auto simp: row_lookup_None)
  then have none: "getFinalizationByRoundSQL (fz_round z) d = Some (None, d)" by (simp add: getFinalizationByRoundSQL_def read_only_def)
  have runs: "tx_found ctx e (getRoundSQL (fz_round z)) (calm d) = Some (Inr r, calm d)"
    "tx_found ctx e (currentRoundForUpdateSQL (rd_project r) (rd_task r)) (calm d) = Some (Inr r, calm d)"
    "tx_wrap ctx (tx_call (getFinalizationByRoundSQL (fz_round z))) (calm d) = Some (Inr None, calm d)"
    "tx_row ctx (setVerdictSQL (fz_round z) (fz_verdict z) (fz_by z) (fz_notes z) now) (calm d1) = Some (Inr ?r, calm d2)"
    "tx_wrap ctx (tx_call (insertFinalizationSQL ?z)) (calm d2) = Some (Inr z', calm d3)" for ctx e
    by (rule tx_found_calm, rule reads, rule tx_found_calm, rule reads, rule tx_wrap_calm, rule call_calm, rule none,
        rule tx_row_calm, rule v, rule tx_wrap_calm, rule call_calm, rule z')
  have unchanged: "applyFinalizationMutationTx r z m now (calm d) = Some (Inr (), calm d)" "final_packet r z p m now (calm d) = Some (Inr p, calm d)"
    by (simp_all add: applyFinalizationMutationTx_def final_packet_def m tx_bind_def tx_return_def)
  have "begin_new r z p m now (calm d) = Some (Inr ((z', stored, ?r), ''committing review finalization: ''), calm d3)"
    using r(2) id by (simp add: begin_new_def tx_bind_def [of "tx_found _ _ _"] runs unchanged tx_bind_def [of "applyFinalizationMutationTx _ _ _ _"]
        tx_bind_def [of "final_packet _ _ _ _ _"] tx_bind_def [of "tx_wrap _ _"] s tx_bind_def [of "tx_row _ _"] tx_return_def)
  then have body: "begin_body z p m now (calm d) = Some (Inr ((z', stored, ?r), ''committing review finalization: ''), calm d3)"
    by (simp add: begin_body_def tx_bind_def lock_calm runs)
  have "st_BeginFinalization pg_review_store z p m now (calm_world d x) = Some (Inr (z', stored, ?r), calm_world d3 x)"
    using calm_run_tx [where body = "begin_body z p m now", OF body, of "''beginning review finalization: ''"]
    by (simp add: pg_review_store_def rst_BeginFinalization_def on_rounds_def calm_world_def)
  then show ?thesis using same' s'(2) by (intro exI [of _ z'] exI [of _ stored] exI [of _ ?r] exI [of _ d3]) (simp add: d3 d2_def)
qed

end
