(* ===== verification/Review_Rounds_Props.thy ===== *)
theory Review_Rounds_Props
  imports Review_Rounds_Live
begin

text \<open>
  The properties of review rounds and their finalization, over the PostgreSQL store and with other replicas'
  statements in between.
\<close>

section \<open>Reachable reviews\<close>

definition no_reviews :: review_tables where
  "no_reviews =
     \<lparr>rv_rounds = [], rv_next_round = 1, rv_findings = [], rv_next_finding = 1, rv_events = [], rv_packets = [], rv_next_packet = 1,
      rv_finals = [], rv_next_final = 1\<rparr>"

text \<open>
  What the requests of the service lead to. Between them, other replicas execute statements, and the rest of
  the world (the driver's faults, the other services, the clock) changes as it likes.
\<close>

inductive reviews_reach :: "'x review_env \<Rightarrow> 'x review_world \<Rightarrow> bool" for env where
  rv_start: "review_data w = no_reviews \<Longrightarrow> reviews_reach env w"
| rv_create_round: "reviews_reach env w \<Longrightarrow> sv_CreateRound (pg_review_service env) p t q w = Some (r, w') \<Longrightarrow> reviews_reach env w'"
| rv_request: "reviews_reach env w \<Longrightarrow> sv_RequestReview (pg_review_service env) p t q w = Some (r, w') \<Longrightarrow> reviews_reach env w'"
| rv_create_finding: "reviews_reach env w \<Longrightarrow> sv_CreateFinding (pg_review_service env) i q w = Some (r, w') \<Longrightarrow> reviews_reach env w'"
| rv_list_findings: "reviews_reach env w \<Longrightarrow> sv_ListFindings (pg_review_service env) p t q w = Some (r, w') \<Longrightarrow> reviews_reach env w'"
| rv_respond: "reviews_reach env w \<Longrightarrow> sv_RespondToFinding (pg_review_service env) i u w = Some (r, w') \<Longrightarrow> reviews_reach env w'"
| rv_status: "reviews_reach env w \<Longrightarrow> sv_SetFindingStatus (pg_review_service env) i u w = Some (r, w') \<Longrightarrow> reviews_reach env w'"
| rv_verdict: "reviews_reach env w \<Longrightarrow> sv_SetVerdict (pg_review_service env) i verdict actor remarks w = Some (r, w') \<Longrightarrow> reviews_reach env w'"
| rv_post: "reviews_reach env w \<Longrightarrow> sv_PostReviewFindings (pg_review_service env) p t i q w = Some (r, w') \<Longrightarrow> reviews_reach env w'"
| rv_finalize: "reviews_reach env w \<Longrightarrow> sv_FinalizeReview (pg_review_service env) q w = Some (r, w') \<Longrightarrow> reviews_reach env w'"
| rv_replica: "reviews_reach env w \<Longrightarrow> review_step (review_data w) (review_data w') \<Longrightarrow> reviews_reach env w'"
| rv_world: "reviews_reach env w \<Longrightarrow> review_data w' = review_data w \<Longrightarrow> reviews_reach env w'"

lemma op_runs_keep: "op_runs review_data m \<Longrightarrow> m w = Some (r, w') \<Longrightarrow> review_inv (review_data w) \<Longrightarrow> review_inv (review_data w')"
  unfolding op_runs_def using review_steps_keep by (metis option.inject prod.inject)

lemma reviews_inv: "reviews_reach env w \<Longrightarrow> review_inv (review_data w)"
proof (induction rule: reviews_reach.induct)
  case (rv_start w)
  then show ?case
    by (simp add: no_reviews_def review_inv_def rounds_ok_def findings_ok_def packets_ok_def finals_ok_def)
next
  case rv_create_round
  then show ?case using op_runs_keep [OF pg_reviews.create_round_runs] by blast
next
  case rv_request
  then show ?case using op_runs_keep [OF pg_reviews.request_review_runs] by blast
next
  case rv_create_finding
  then show ?case using op_runs_keep [OF pg_reviews.create_finding_runs] by blast
next
  case rv_list_findings
  then show ?case using op_runs_keep [OF pg_reviews.list_findings_runs] by blast
next
  case rv_respond
  then show ?case using op_runs_keep [OF pg_reviews.respond_runs] by blast
next
  case rv_status
  then show ?case using op_runs_keep [OF pg_reviews.set_finding_runs] by blast
next
  case rv_verdict
  then show ?case using op_runs_keep [OF pg_reviews.set_verdict_runs] by blast
next
  case rv_post
  then show ?case using op_runs_keep [OF pg_reviews.post_findings_runs] by blast
next
  case rv_finalize
  then show ?case using op_runs_keep [OF pg_reviews.finalize_runs] by blast
next
  case rv_replica
  then show ?case using review_step_keeps by blast
next
  case rv_world
  then show ?case by simp
qed

text \<open>
  C8. However requests and statements of other replicas interleave, and whatever the driver does: a round has
  at most one finalization; a finalization is complete only when its packet was posted, with the message that
  was appended, and the status of its task was changed; its target is done exactly for the verdict looks good;
  its decision never changes, and what was posted, changed and completed stays so. The numbers of the
  rounds and of the findings of a task are unique, a superseded round keeps its content for good, a finding
  keeps its round, key, category and summary, and events are only appended.
\<close>

theorem finalizations_exact:
  assumes "reviews_reach env w" and "z \<in> set (rv_finals (review_data w))" and "review_step\<^sup>*\<^sup>* (review_data w) later"
  shows "(\<forall>y\<in>set (rv_finals (review_data w)). fz_round y = fz_round z \<longrightarrow> y = z) \<and>
    (fz_state z = FinalComplete \<longrightarrow> fz_posted z \<noteq> None \<and> fz_message z \<noteq> None \<and> fz_transitioned z \<noteq> None \<and> fz_completed z \<noteq> None) \<and>
    (fz_target z = TaskDone \<longleftrightarrow> fz_verdict z = VerdictLooksGood) \<and>
    (\<exists>z'\<in>set (rv_finals later). final_moves z z') \<and>
    distinct (map round_key (rv_rounds later)) \<and> distinct (map finding_numbering (rv_findings later)) \<and>
    (\<forall>r\<in>set (rv_rounds (review_data w)). rd_verdict r = VerdictSuperseded \<longrightarrow> r \<in> set (rv_rounds later)) \<and>
    (\<forall>f\<in>set (rv_findings (review_data w)). \<exists>f'\<in>set (rv_findings later). finding_moves f f') \<and>
    prefix (rv_events (review_data w)) (rv_events later)"
proof -
  have inv: "review_inv (review_data w)" by (rule reviews_inv [OF assms(1)])
  have later: "review_inv later" "review_moves (review_data w) later" using review_steps_keep [OF assms(3) inv] by simp_all
  have finals: "finals_ok (rd_id ` set (rv_rounds (review_data w))) (pk_id ` set (rv_packets (review_data w)))
      (rv_finals (review_data w)) (rv_next_final (review_data w))" using inv by (simp add: review_inv_def)
  then have one: "\<forall>y\<in>set (rv_finals (review_data w)). fz_round y = fz_round z \<longrightarrow> y = z"
    using assms(2) by (auto simp: finals_ok_def distinct_map dest: inj_onD)
  from finals assms(2) have ok: "final_ok z" by (simp add: finals_ok_def)
  have "fz_target z = TaskDone \<longleftrightarrow> fz_verdict z = VerdictLooksGood"
    using ok by (simp add: final_ok_def taskStatusForVerdict_def task_states)
  moreover have "\<forall>r\<in>set (rv_rounds (review_data w)). rd_verdict r = VerdictSuperseded \<longrightarrow> r \<in> set (rv_rounds later)"
    using later(2) unfolding review_moves_def round_moves_def by metis
  moreover have "distinct (map round_key (rv_rounds later))" "distinct (map finding_numbering (rv_findings later))"
    using later(1) by (simp_all add: review_inv_def rounds_ok_def findings_ok_def)
  ultimately show ?thesis using one ok later(2) assms(2) by (simp add: review_moves_def final_ok_def)
qed

text \<open>An environment; its task is in review and the message service counts the messages.\<close>

definition ex_review_env :: "nat review_world gate_service \<Rightarrow> nat review_env" where
  "ex_review_env gates =
     \<lparr>rx_gates = gates, rx_task = (\<lambda>p t n. (Inr \<lparr>tc_id = t, tc_project = p, tc_status = TaskReview\<rparr>, n)), rx_clock = (\<lambda>_. 1000),
      rx_writable = (\<lambda>_ n. (Inr (), n)), rx_set_status = (\<lambda>p t _ status n. (Inr \<lparr>tc_id = t, tc_project = p, tc_status = status\<rparr>, n)),
      rx_to_review = (\<lambda>p t _ n. (Inr (\<lparr>tc_id = t, tc_project = p, tc_status = TaskReview\<rparr>, []), n)),
      rx_append = (\<lambda>_ _ n. (Inr 7, Suc n)), rx_source = None, rx_size = (\<lambda>_. 0), rx_digest = (\<lambda>_. ''d'')\<rparr>"

definition ex_finalize :: finalize_request where
  "ex_finalize =
     \<lparr>zq_round = 1, zq_verdict = VerdictLooksGood, zq_by = ''ann'', zq_notes = [], zq_thread = None, zq_run = [], zq_role = [],
      zq_resolutions = [], zq_new = []\<rparr>"

definition ex_no_mutation :: mutation where
  "ex_no_mutation = \<lparr>mu_resolutions = [], mu_new = []\<rparr>"

lemma ex_checked: "sv_checkFinalize (pg_review_service (ex_review_env gates)) ex_finalize = Inr (ex_finalize, ex_no_mutation)"
proof -
  have "trim_space VerdictLooksGood = VerdictLooksGood" "trim_space ''ann'' = ''ann''" "trim_space [] = []" by code_simp+
  then show ?thesis
    by (simp add: sv_checkFinalize_def normalizeFinalizationMutation_def neat_request_def ex_finalize_def ex_no_mutation_def Let_def
        pg_review_service_def ex_review_env_def)
qed

text \<open>A task with an open round and a finding that was verified as fixed.\<close>

definition ex_round :: review_round where
  "ex_round =
     \<lparr>rd_id = 1, rd_project = ''den'', rd_task = 1, rd_number = 1, rd_by = ''bob'', rd_kind = ReviewTargetCodeDiff, rd_children = [],
      rd_repositories = [], rd_branch = ''b'', rd_base = ''main'', rd_tests = [], rd_notes = [], rd_verdict = [], rd_verdict_by = [],
      rd_verdict_notes = [], rd_requested = 1, rd_verdict_at = None, rd_created = 1, rd_updated = 1\<rparr>"

definition ex_finding :: "int \<Rightarrow> string \<Rightarrow> finding" where
  "ex_finding n status =
     \<lparr>fd_id = n, fd_project = ''den'', fd_key = finding_key_of 1 n, fd_task = 1, fd_round = 1, fd_round_number = 1, fd_number = n,
      fd_by = ''ann'', fd_category = ''blocking_bug'', fd_summary = ''s'', fd_notes = [], fd_files = [], fd_tests = [],
      fd_status = status, fd_status_by = [], fd_status_notes = [], fd_status_at = None, fd_response_by = [],
      fd_response_notes = [], fd_response_at = None, fd_follow_up = None, fd_run = [], fd_role = [], fd_created = 1, fd_updated = 1\<rparr>"

definition ex_packet :: packet where
  "ex_packet = (reviewFindingsPacket ex_round [] [] (request_findings ex_finalize))\<lparr>pk_id := 1, pk_key := ''k''\<rparr>"

definition ex_open :: review_tables where
  "ex_open = no_reviews\<lparr>rv_rounds := [ex_round], rv_next_round := 2, rv_findings := [ex_finding 1 FindingVerifiedFixed], rv_next_finding := 2\<rparr>"

text \<open>The same task when its decision is stored and nothing else has happened.\<close>

definition ex_final :: finalization where
  "ex_final = (new_final ex_round ex_finalize ''d'' 1000)\<lparr>fz_id := 1, fz_packet := 1\<rparr>"

definition ex_decided :: review_tables where
  "ex_decided = ex_open\<lparr>rv_packets := [ex_packet], rv_next_packet := 2, rv_finals := [ex_final], rv_next_final := 2\<rparr>"

lemma ex_steps: "review_steps no_reviews ex_open" "review_steps ex_open ex_decided"
proof -
  let ?d = "no_reviews\<lparr>rv_rounds := [ex_round], rv_next_round := 2\<rparr>"
  have "createRoundSQL ex_round no_reviews = Some (ex_round, ?d)" by (simp add: createRoundSQL_def no_reviews_def ex_round_def Let_def)
  moreover have "createFindingSQL (ex_finding 1 FindingVerifiedFixed) ?d = Some (ex_finding 1 FindingVerifiedFixed, ex_open)"
    by (simp add: createFindingSQL_def no_reviews_def ex_open_def ex_round_def ex_finding_def Let_def)
  ultimately show "review_steps no_reviews ex_open" by (blast intro: step_round step_finding rtranclp.rtrancl_into_rtrancl rtranclp.rtrancl_refl)
  let ?e = "ex_open\<lparr>rv_packets := [ex_packet], rv_next_packet := 2\<rparr>"
  have "storePacketSQL ex_packet ex_open = Some (ex_packet, ?e)"
    by (simp add: storePacketSQL_def ex_open_def no_reviews_def ex_packet_def reviewFindingsPacket_def Let_def)
  moreover have "insertFinalizationSQL ex_final ?e = Some (ex_final, ex_decided)"
    by (simp add: insertFinalizationSQL_def ex_decided_def ex_open_def no_reviews_def ex_final_def new_final_def ex_round_def ex_packet_def Let_def)
  moreover have "reserved ex_final" by (simp add: reserved_def ex_final_def new_final_def)
  ultimately show "review_steps ex_open ex_decided" by (blast intro: step_packet step_final rtranclp.rtrancl_into_rtrancl rtranclp.rtrancl_refl)
qed

lemma ex_reached: "review_steps no_reviews d \<Longrightarrow> reviews_reach env (calm_world d x)"
proof (induction rule: rtranclp_induct)
  case base
  then show ?case by (intro rv_start) simp
next
  case (step d1 d2)
  then show ?case by (intro rv_replica [OF step.IH]) simp
qed

lemma ex_reach_decided: "reviews_reach env (calm_world ex_decided x)"
  by (rule ex_reached) (rule rtranclp_trans [OF ex_steps])

lemma ex_decided_final: "rv_finals ex_decided = [ex_final]" "fz_round ex_final = 1"
  by (simp_all add: ex_decided_def ex_final_def new_final_def ex_round_def)

lemma finalizations_exact_witness:
  "\<forall>env :: nat review_env. reviews_reach env (calm_world ex_decided 0) \<and> ex_final \<in> set (rv_finals ex_decided) \<and>
     fz_target ex_final = TaskDone \<and> (\<exists>z'\<in>set (rv_finals ex_decided). final_moves ex_final z') \<and> prefix (rv_events ex_decided) (rv_events ex_decided)"
proof
  fix env :: "nat review_env"
  have mem: "ex_final \<in> set (rv_finals (review_data (calm_world ex_decided 0)))" by (simp add: ex_decided_final)
  have verdict: "fz_verdict ex_final = VerdictLooksGood" by (simp add: ex_final_def new_final_def ex_finalize_def)
  from finalizations_exact [OF ex_reach_decided mem rtranclp.rtrancl_refl] ex_reach_decided [of env 0] mem verdict
  show "reviews_reach env (calm_world ex_decided 0) \<and> ex_final \<in> set (rv_finals ex_decided) \<and>
     fz_target ex_final = TaskDone \<and> (\<exists>z'\<in>set (rv_finals ex_decided). final_moves ex_final z') \<and> prefix (rv_events ex_decided) (rv_events ex_decided)"
    by simp
qed

section \<open>A decision is carried out\<close>

text \<open>
  C27. When the decision of a round is stored, in whatever state its finalization was left, the same request
  carries it to its end: the finalization becomes complete with the checkpoints it had, the task gets the
  target status, and the stored row is the one that is answered. The request once more answers the same and
  changes nothing, neither the tables nor the other services. The driver does not fail, and the other services
  accept the message and let the task go from review to the target.
\<close>

theorem finalize_resumes:
  assumes "reviews_reach env w" and "pg_faults (rw_db w) = []" and "sv_checkFinalize (pg_review_service env) q = Inr (q', m)"
    and "row_lookup fz_round (zq_round q') (rv_finals (review_data w)) = Some z" and "asks_for env q' z" and "obliging env z"
  shows "\<exists>rc w'. sv_FinalizeReview (pg_review_service env) q w = Some (Inr rc, w') \<and>
    row_lookup fz_round (zq_round q') (rv_finals (review_data w')) = Some (rc_final rc) \<and>
    fz_state (rc_final rc) = FinalComplete \<and> final_moves z (rc_final rc) \<and> rc_status rc = fz_target z \<and>
    (\<exists>rc'. sv_FinalizeReview (pg_review_service env) q w' = Some (Inr rc', w') \<and> rc_final rc' = rc_final rc \<and> rc_status rc' = fz_target z)"
proof -
  let ?s = "pg_review_service env"
  obtain rc d x where 1: "sv_FinalizeReview ?s q w = Some (Inr rc, calm_world d x)" "review_inv d"
    "row_lookup fz_round (zq_round q') (rv_finals d) = Some (rc_final rc)" "final_moves z (rc_final rc)"
    "fz_state (rc_final rc) = FinalComplete" "rc_status rc = fz_target z"
    using finalize_run [OF reviews_inv [OF assms(1)] assms(3-6), of "rw_rest w"] unfolding calm_world_of [OF assms(2), symmetric] by blast
  have env: "obliging env (rc_final rc)" using 1(4) assms(6) obliging_identity by (auto simp: final_moves_def)
  have same: "fz_target (rc_final rc) = fz_target z" using 1(4) by (simp add: final_moves_def final_identity_def)
  obtain rc' where 2: "sv_FinalizeReview ?s q (calm_world d x) = Some (Inr rc', calm_world d x)" "rc_final rc' = rc_final rc"
    "rc_status rc' = fz_target z"
    using finalize_run [OF 1(2) assms(3) 1(3) _ env, of x] asks_for_moved [OF 1(4)] assms(5) 1(5) same by auto
  show ?thesis using 1 2 by (intro exI [of _ rc] exI [of _ "calm_world d x"] conjI exI [of _ rc']) simp_all
qed

lemma finalize_resumes_witness:
  "\<forall>gates. \<exists>rc w'. sv_FinalizeReview (pg_review_service (ex_review_env gates)) ex_finalize (calm_world ex_decided 0) = Some (Inr rc, w') \<and>
     fz_state ex_final = FinalPending \<and> fz_state (rc_final rc) = FinalComplete \<and> rc_status rc = TaskDone"
proof
  fix gates
  let ?env = "ex_review_env gates"
  have row: "row_lookup fz_round (zq_round ex_finalize) (rv_finals (review_data (calm_world ex_decided 0))) = Some ex_final"
    by (simp add: ex_decided_final) (simp add: ex_finalize_def)
  have ask: "asks_for ?env ex_finalize ex_final" by (simp add: asks_for_def ex_final_def new_final_def ex_review_env_def)
  have env: "obliging ?env ex_final" by (simp add: obliging_def ex_review_env_def)
  have healthy: "pg_faults (rw_db (calm_world ex_decided 0)) = []" by (simp add: calm_world_def calm_pg_def)
  have "fz_state ex_final = FinalPending" "fz_target ex_final = TaskDone"
    by (simp_all add: ex_final_def new_final_def ex_finalize_def taskStatusForVerdict_def)
  with finalize_resumes [OF ex_reach_decided healthy ex_checked row ask env]
  show "\<exists>rc w'. sv_FinalizeReview (pg_review_service ?env) ex_finalize (calm_world ex_decided 0) = Some (Inr rc, w') \<and>
     fz_state ex_final = FinalPending \<and> fz_state (rc_final rc) = FinalComplete \<and> rc_status rc = TaskDone" by auto
qed

section \<open>A verdict of looks good\<close>

text \<open>
  C17. When a first finalization with the verdict looks good is stored and nothing comes in between, no finding
  of the task is left unresolved, whatever the driver does: what the transaction stores of the findings are
  the statuses the check was made against, each finding's own or the one the request resolves it as.
\<close>

theorem looks_good_resolves:
  assumes "sv_checkFinalize (pg_review_service env) q0 = Inr (q, m)" and "zq_verdict q = VerdictLooksGood"
    and "row_lookup fz_round (rd_id r) (rv_finals (review_data w)) = None"
    and "sv_begin (pg_review_service env) q m r w = Some (Inr rc, w')"
  shows "fz_verdict (rc_final rc) = VerdictLooksGood \<and>
    list_all2 (\<lambda>f f'. fd_id f' = fd_id f \<and> fd_project f' = fd_project f \<and> fd_task f' = fd_task f \<and>
        fd_status f' = fd_status (resolved_by (mu_resolutions m) f)) (rv_findings (review_data w)) (rv_findings (review_data w')) \<and>
    (\<forall>f\<in>set (rv_findings (review_data w')). fd_project f = rd_project r \<and> fd_task f = rd_task r \<longrightarrow> resolvedStatus (fd_status f))"
proof -
  note b = begin_resolves [OF assms]
  then have l: "list_all2 (\<lambda>f f'. fd_id f' = fd_id f \<and> fd_project f' = fd_project f \<and> fd_task f' = fd_task f \<and>
        fd_status f' = new_status (mu_resolutions m) f) (rv_findings (review_data w)) (rv_findings (review_data w'))"
    by (simp add: resolves_def)
  then have "\<exists>f\<in>set (rv_findings (review_data w)). fd_project f' = fd_project f \<and> fd_task f' = fd_task f \<and>
      fd_status f' = new_status (mu_resolutions m) f" if "f' \<in> set (rv_findings (review_data w'))" for f'
    using that by (fastforce simp: list_all2_conv_all_nth in_set_conv_nth)
  with b have "\<forall>f\<in>set (rv_findings (review_data w')). fd_project f = rd_project r \<and> fd_task f = rd_task r \<longrightarrow> resolvedStatus (fd_status f)"
    by metis
  with b l show ?thesis by (simp add: new_status_def)
qed

text \<open>
  C11. The check is made before the transaction, which does not repeat it: when a finding is created after the
  check of a finalization with the verdict looks good has passed and before its transaction begins, the
  decision is stored all the same, the task's target is done, and the finding is open. The round is the latest
  one of its task and not yet decided, the request resolves no earlier findings, the key that the finding gets is
  not taken, and the driver does not fail.
\<close>

theorem looks_good_race:
  assumes prep: "sv_prepare (pg_review_service env) q m r w = Some (Inr (t, z, p, now), w1)"
    and v: "zq_verdict q = VerdictLooksGood" and m: "mu_resolutions m = []"
    and db: "pg_faults (rw_db w1) = []"
    and r: "row_lookup rd_id (rd_id r) (rv_rounds (review_data w)) = Some r" "rd_verdict r = []"
      "last_row (sort_key (\<lambda>r. (rd_number r, rd_id r)) (of_task (rd_project r) (rd_task r) (review_data w))) = Some r"
    and new: "\<forall>y\<in>set (rv_finals (review_data w)). fz_round y \<noteq> rd_id r \<and> fz_key y \<noteq> finalizationKey (rd_id r) (rx_digest env q)"
    and f: "fd_round f = rd_id r" "fd_project f = rd_project r" "fd_task f = rd_task r" "fd_status f = FindingOpen"
    and key: "finding_key_of (fd_task f) (fst (the (nextFindingNumberSQL (fd_project f) (fd_task f) (review_data w)))) \<notin>
      fd_key ` set (rv_findings (review_data w))"
  shows "\<exists>f' w2 z' p' r' w3. st_CreateFinding pg_review_store f w1 = Some (Inr f', w2) \<and>
    st_BeginFinalization pg_review_store z p m now w2 = Some (Inr (z', p', r'), w3) \<and>
    z' \<in> set (rv_finals (review_data w3)) \<and> fz_round z' = rd_id r \<and> fz_verdict z' = VerdictLooksGood \<and> fz_target z' = TaskDone \<and>
    f' \<in> set (rv_findings (review_data w3)) \<and> fd_project f' = rd_project r \<and> fd_task f' = rd_task r \<and> \<not> resolvedStatus (fd_status f')"
proof -
  note pr = prepare_Inr [OF prep]
  let ?d = "review_data w"
  have w1: "w1 = calm_world ?d (rw_rest w1)" using calm_world_of [OF db] pr by simp
  have none: "mu_new m = []" using pr v by simp
  have z: "fz_round z = rd_id r" "fz_key z = finalizationKey (rd_id r) (rx_digest env q)" "fz_verdict z = VerdictLooksGood" "fz_target z = TaskDone"
    using pr v by (simp_all add: new_final_def taskStatusForVerdict_def)
  have row: "row_lookup rd_id (fd_round f) (rv_rounds ?d) = Some r" "rd_verdict r \<noteq> VerdictSuperseded"
    using r f by (simp_all add: VerdictSuperseded_def)
  obtain f' d2 where c: "st_CreateFinding pg_review_store f (calm_world ?d (rw_rest w1)) = Some (Inr f', calm_world d2 (rw_rest w1))"
    "f' \<in> set (rv_findings d2)" "fd_status f' = fd_status f" "fd_project f' = fd_project f" "fd_task f' = fd_task f" "same_rounds ?d d2"
    using create_finding_calm [OF row key, of "rw_rest w1"] by blast
  have same: "rv_rounds d2 = rv_rounds ?d" "rv_finals d2 = rv_finals ?d" "of_task p t d2 = of_task p t ?d" for p t
    using c(6) by (simp_all add: same_rounds_def of_task_def)
  have "\<exists>z' p' r' d3. st_BeginFinalization pg_review_store z p m now (calm_world d2 (rw_rest w1)) = Some (Inr (z', p', r'), calm_world d3 (rw_rest w1)) \<and>
      fz_round z' = fz_round z \<and> fz_verdict z' = fz_verdict z \<and> fz_by z' = fz_by z \<and> fz_target z' = fz_target z \<and> z' \<in> set (rv_finals d3) \<and> rv_findings d3 = rv_findings d2"
    by (rule begin_calm [where r = r]) (use r new m none z in \<open>simp_all add: same\<close>)
  then obtain z' p' r' d3 where b: "st_BeginFinalization pg_review_store z p m now (calm_world d2 (rw_rest w1)) = Some (Inr (z', p', r'), calm_world d3 (rw_rest w1))"
    "fz_round z' = rd_id r" "fz_verdict z' = VerdictLooksGood" "fz_target z' = TaskDone" "z' \<in> set (rv_finals d3)" "rv_findings d3 = rv_findings d2"
    unfolding z by blast
  have "\<not> resolvedStatus FindingOpen" by (simp add: resolvedStatus_def finding_statuses)
  then show ?thesis using c b f
    by (subst w1, intro exI [of _ f'] exI [of _ "calm_world d2 (rw_rest w1)"] exI [of _ z'] exI [of _ p'] exI [of _ r']
        exI [of _ "calm_world d3 (rw_rest w1)"]) simp
qed

lemma ex_prepare:
  "\<exists>t p. sv_prepare (pg_review_service (ex_review_env gates)) ex_finalize ex_no_mutation ex_round (calm_world ex_open 0) =
     Some (Inr (t, new_final ex_round ex_finalize ''d'' 1000, p, 1000), calm_world ex_open 0)"
proof -
  let ?s = "pg_review_service (ex_review_env gates)"
  have trims: "trim_space ''den'' = ''den''" by code_simp
  have task: "sv_validateTask ?s ''den'' 1 [TaskReview] (calm_world ex_open 0) =
      Some (Inr \<lparr>tc_id = 1, tc_project = ''den'', tc_status = TaskReview\<rparr>, calm_world ex_open 0)"
    by (simp add: sv_validateTask_def op_total_def validateTask_def Let_def trims pg_review_service_def ex_review_env_def beside_def calm_world_def)
  have listing: "stored_listing (task_findings ''den'' 1 i) ex_open = (if i = None \<or> i = Some 1 then [ex_finding 1 FindingVerifiedFixed] else [])" for i
    by (auto simp: stored_listing_def listFindingsSQL_def read_only_def task_findings_def ex_open_def ex_finding_def split: option.split)
  have ok: "projectFinalizationFindings [ex_finding 1 FindingVerifiedFixed] [ex_finding 1 FindingVerifiedFixed] ex_no_mutation =
      Inr ([ex_finding 1 FindingVerifiedFixed], [ex_finding 1 FindingVerifiedFixed])"
    by (simp add: projectFinalizationFindings_def projected_row_def ex_no_mutation_def resolved_by_def)
  have valid: "validateFinalizationFindings VerdictLooksGood [ex_finding 1 FindingVerifiedFixed] [ex_finding 1 FindingVerifiedFixed] = None"
    by (simp add: validateFinalizationFindings_def ex_finding_def resolvedStatus_def)
  have round: "rd_project ex_round = ''den''" "rd_task ex_round = 1" "rd_id ex_round = 1" by (simp_all add: ex_round_def)
  have env: "sv_store ?s = pg_review_store" "sv_digest ?s = (\<lambda>_. ''d'')" "rx_clock (ex_review_env gates) = (\<lambda>_. 1000)" "zq_verdict ex_finalize = VerdictLooksGood"
    by (simp_all add: pg_review_service_def ex_review_env_def ex_finalize_def)
  show ?thesis
    by (simp add: sv_prepare_def op_bind_def round task env list_findings_calm listing op_lift_def ok valid now_calm op_return_def Let_def)
qed

lemma ex_open_rows: "rv_rounds ex_open = [ex_round]" "rv_finals ex_open = []" "rv_findings ex_open = [ex_finding 1 FindingVerifiedFixed]"
  "rd_id ex_round = 1" "rd_project ex_round = ''den''" "rd_task ex_round = 1" "rd_verdict ex_round = []"
  by (simp_all add: ex_open_def no_reviews_def ex_round_def)

lemma ex_current: "last_row (sort_key (\<lambda>r. (rd_number r, rd_id r)) (of_task ''den'' 1 ex_open)) = Some ex_round"
  by (simp add: of_task_def ex_open_rows last_row_def)

lemma looks_good_resolves_witness:
  "\<forall>gates. \<exists>rc w'. sv_begin (pg_review_service (ex_review_env gates)) ex_finalize ex_no_mutation ex_round (calm_world ex_open 0) = Some (Inr rc, w') \<and>
     length (rv_findings (review_data w')) = 1 \<and>
     (\<forall>f\<in>set (rv_findings (review_data w')). fd_project f = ''den'' \<and> fd_task f = 1 \<longrightarrow> resolvedStatus (fd_status f))"
proof
  fix gates
  let ?s = "pg_review_service (ex_review_env gates)" and ?z = "new_final ex_round ex_finalize ''d'' 1000"
  obtain t p where p: "sv_prepare ?s ex_finalize ex_no_mutation ex_round (calm_world ex_open 0) = Some (Inr (t, ?z, p, 1000), calm_world ex_open 0)"
    using ex_prepare by blast
  have env: "sv_store ?s = pg_review_store" by (simp add: pg_review_service_def)
  have asked: "zq_verdict ex_finalize = VerdictLooksGood" "zq_by ex_finalize = ''ann''" by (simp_all add: ex_finalize_def)
  have z: "fz_round ?z = 1" "fz_verdict ?z = VerdictLooksGood" "fz_by ?z = ''ann''" by (simp_all add: new_final_def ex_round_def ex_finalize_def)
  obtain z' p' r' d' where b: "st_BeginFinalization pg_review_store ?z p ex_no_mutation 1000 (calm_world ex_open (0 :: nat)) =
      Some (Inr (z', p', r'), calm_world d' 0)"
    "fz_verdict z' = fz_verdict ?z" "fz_by z' = fz_by ?z"
    using begin_calm [where z = ?z and d = ex_open and r = ex_round and m = ex_no_mutation and p = p and now = 1000 and x = "0 :: nat"] ex_current z
    by (auto simp: ex_open_rows ex_no_mutation_def)
  have "\<exists>rc w'. sv_begin ?s ex_finalize ex_no_mutation ex_round (calm_world ex_open 0) = Some (Inr rc, w')"
    by (simp add: sv_begin_def op_bind_def p env b z asked op_return_def)
  then obtain rc w' where out: "sv_begin ?s ex_finalize ex_no_mutation ex_round (calm_world ex_open 0) = Some (Inr rc, w')" by blast
  have v: "zq_verdict ex_finalize = VerdictLooksGood" by (simp add: ex_finalize_def)
  have none: "row_lookup fz_round (rd_id ex_round) (rv_finals (review_data (calm_world ex_open (0::nat)))) = None" by (simp add: ex_open_rows)
  from looks_good_resolves [OF ex_checked v none out]
  have "length (rv_findings (review_data w')) = 1 \<and>
     (\<forall>f\<in>set (rv_findings (review_data w')). fd_project f = ''den'' \<and> fd_task f = 1 \<longrightarrow> resolvedStatus (fd_status f))"
    by (auto simp: ex_open_rows dest: list_all2_lengthD)
  with out show "\<exists>rc w'. sv_begin ?s ex_finalize ex_no_mutation ex_round (calm_world ex_open 0) = Some (Inr rc, w') \<and>
     length (rv_findings (review_data w')) = 1 \<and>
     (\<forall>f\<in>set (rv_findings (review_data w')). fd_project f = ''den'' \<and> fd_task f = 1 \<longrightarrow> resolvedStatus (fd_status f))" by blast
qed

lemma looks_good_race_witness:
  "\<forall>gates. \<exists>t z p now w1 f' w2 z' p' r' w3.
     sv_prepare (pg_review_service (ex_review_env gates)) ex_finalize ex_no_mutation ex_round (calm_world ex_open 0) = Some (Inr (t, z, p, now), w1) \<and>
     st_CreateFinding pg_review_store (ex_finding 0 FindingOpen) w1 = Some (Inr f', w2) \<and>
     st_BeginFinalization pg_review_store z p ex_no_mutation now w2 = Some (Inr (z', p', r'), w3) \<and>
     fz_target z' = TaskDone \<and> f' \<in> set (rv_findings (review_data w3)) \<and> fd_task f' = 1 \<and> \<not> resolvedStatus (fd_status f')"
proof
  fix gates
  let ?s = "pg_review_service (ex_review_env gates)" and ?w = "calm_world ex_open (0 :: nat)" and ?f = "ex_finding 0 FindingOpen"
  obtain t p where p: "sv_prepare ?s ex_finalize ex_no_mutation ex_round ?w = Some (Inr (t, new_final ex_round ex_finalize ''d'' 1000, p, 1000), ?w)"
    using ex_prepare by blast
  have v: "zq_verdict ex_finalize = VerdictLooksGood" "mu_resolutions ex_no_mutation = []" "pg_faults (rw_db ?w) = []"
    by (simp_all add: ex_finalize_def ex_no_mutation_def calm_world_def calm_pg_def)
  have r: "row_lookup rd_id (rd_id ex_round) (rv_rounds (review_data ?w)) = Some ex_round" "rd_verdict ex_round = []"
    "last_row (sort_key (\<lambda>r. (rd_number r, rd_id r)) (of_task (rd_project ex_round) (rd_task ex_round) (review_data ?w))) = Some ex_round"
    using ex_current by (simp_all add: ex_open_rows)
  have f: "fd_round ?f = rd_id ex_round" "fd_project ?f = rd_project ex_round" "fd_task ?f = rd_task ex_round" "fd_status ?f = FindingOpen"
    by (simp_all add: ex_finding_def ex_open_rows)
  have n: "fst (the (nextFindingNumberSQL ''den'' 1 ex_open)) = 2"
    by (simp add: nextFindingNumberSQL_def read_only_def ex_open_rows ex_finding_def)
  have keys: "finding_key_of 1 2 \<noteq> finding_key_of 1 1" by code_simp
  have key: "finding_key_of (fd_task ?f) (fst (the (nextFindingNumberSQL (fd_project ?f) (fd_task ?f) (review_data ?w)))) \<notin> fd_key ` set (rv_findings (review_data ?w))"
    using n keys by (simp add: f ex_open_rows) (simp add: ex_finding_def)
  have new: "\<forall>y\<in>set (rv_finals (review_data ?w)). fz_round y \<noteq> rd_id ex_round \<and> fz_key y \<noteq> finalizationKey (rd_id ex_round) (rx_digest (ex_review_env gates) ex_finalize)"
    by (simp add: ex_open_rows)
  from looks_good_race [OF p v r new f key] p
  show "\<exists>t z p now w1 f' w2 z' p' r' w3. sv_prepare ?s ex_finalize ex_no_mutation ex_round ?w = Some (Inr (t, z, p, now), w1) \<and>
     st_CreateFinding pg_review_store ?f w1 = Some (Inr f', w2) \<and>
     st_BeginFinalization pg_review_store z p ex_no_mutation now w2 = Some (Inr (z', p', r'), w3) \<and>
     fz_target z' = TaskDone \<and> f' \<in> set (rv_findings (review_data w3)) \<and> fd_task f' = 1 \<and> \<not> resolvedStatus (fd_status f')"
    unfolding ex_open_rows by blast
qed

end
