(* ===== verification/Spec2Isabelle.thy ===== *)
theory Spec2Isabelle
  imports Runtime_Props Board_Pages Gateway_Props Projects_Props Ops_Props Tasks_Props Review_Gate_Props Review_Rounds_Props
begin

text \<open>
  A model of the services of this repository and their correctness. Each Go package of a service is
  a group of theories: its data and pure functions, its store, its service, the contract between
  them, and its properties. The root theory imports them all and holds nothing else.

  \<^bold>\<open>The program.\<close> The repository is a set of HTTP services. A service is a handler that
  decodes a request, a \<open>Service\<close> that checks it and calls a store, and a store over PostgreSQL (the
  board also has one in memory). Services call each other over HTTP through small clients: delivery
  asks runtime whether an agent instance is alive before it hands out a delivery intent; tasks and
  the board ask projects whether a scope accepts writes. The gateway stands in front and forwards
  each request to an upstream that its route table selects.

  \<^bold>\<open>Theories and files.\<close>
  \<^item> \<open>Prelude\<close>: Go strings as byte lists with the functions of \<open>strings\<close> the sources call, 64-bit
    integers, instants and durations as integers of nanoseconds, error values, the driver's
    failures, and the theorem collections.
  \<^item> \<open>Shared_Api\<close>, \<open>Idempotency\<close>: \<open>shared/api\<close> with \<open>shared/identity\<close>, and \<open>shared/idempotency\<close>.
  \<^item> \<open>Delivery_Types\<close>, \<open>_Store\<close>, \<open>_Service\<close> model \<open>delivery/internal\<close>: intents, claims, events, the
    statements of \<open>store.go\<close> over two tables, the service and the liveness client, the handlers.
    \<open>_Inv\<close> and \<open>_System\<close> hold the invariant, the lifecycle of an intent as a step relation, and the
    interleavings of concurrent requests; \<open>_Client\<close> and \<open>_Ops\<close> hold the contract \<open>intent_store_laws\<close>
    and what the service does over any store that keeps it.
  \<^item> \<open>Runtime_Types\<close>, \<open>_Store\<close>, \<open>_Service\<close> model \<open>runtime/internal\<close>: instances, cursors, heartbeats,
    the sweep; \<open>_Client\<close> the contract and \<open>_Pg\<close> the proof that the statements keep it.
  \<^item> \<open>Den_World\<close> runs delivery and runtime together; \<open>Den_Props\<close> and \<open>Runtime_Props\<close> state their
    properties.
  \<^item> \<open>Json_Syntax\<close>: the scanner of \<open>json.Valid\<close>.
  \<^item> \<open>Board_Types\<close>, \<open>_Memory\<close>, \<open>_Service\<close> model \<open>board/internal\<close>: posts, comments, limits, the store
    in memory, the service, the client of the projects service; \<open>_Laws\<close> the contract of a store,
    \<open>_Mem_Laws\<close> and \<open>_Mem\<close> its proof, \<open>_Client\<close> the service over it, \<open>_Props\<close> and \<open>_Pages\<close> the
    properties.
  \<^item> \<open>Gateway_Routing\<close>, \<open>_Identity\<close> model \<open>gateway/internal\<close>: the route table with the handler, and
    the translation of identity fields; \<open>_Laws\<close>, \<open>_Table\<close>, \<open>_Translation\<close>, \<open>_Props\<close>.
  \<^item> \<open>Pg_Tx\<close>: a transaction as a program over a connection, its weakest preconditions (\<open>tx_post\<close>)
    and its total correctness on a driver that does not fail (\<open>tx_live\<close>).
  \<^item> \<open>Tasks_Types\<close>, \<open>_Store\<close>, \<open>_Tx\<close>, \<open>_Accept\<close>, \<open>_Service\<close> model \<open>tasks/internal\<close>; \<open>_View\<close> and
    \<open>_Inv\<close> the abstract tasks and the invariant of the tables, \<open>_Laws\<close>, \<open>_Ops\<close> and \<open>_Accept_Laws\<close>
    the effect of every method, \<open>_Client\<close> and \<open>_System\<close> the abstract machine and the refinement,
    \<open>_Live\<close> the exact answers, \<open>_Props\<close> the properties.
  \<^item> \<open>Go_Text\<close>: searching in strings and \<open>%q\<close>.
  \<^item> \<open>Projects_Types\<close>, \<open>_Store\<close>, \<open>_Service\<close> model \<open>projects/internal\<close>: scopes, repository
    addresses, crew addresses, the store, the service and its answers; \<open>_Client\<close> the scopes that
    conform and the contracts \<open>scope_store_laws\<close> and \<open>scope_service_laws\<close>, \<open>_System\<close> their
    proof for the tables, \<open>_Props\<close> the properties, among them that of tasks over projects.
  \<^item> \<open>Ops_Types\<close>, \<open>_Store\<close>, \<open>_Service\<close> model \<open>ops/internal\<close>: schedules and the judgement of a
    job (\<open>state.go\<close>), the SQLite store, the service; \<open>_Schedule\<close> holds the lemmas on slots and on the
    text of a schedule, \<open>_Laws\<close> the contract \<open>ledger_laws\<close> of a ledger and the service over it,
    \<open>_System\<close> its proof for SQLite and the reachable ledgers, \<open>_Props\<close> the properties.
  \<^item> \<open>Review_Checks\<close>, \<open>Review_GitHub\<close> model the GitHub check gates of \<open>review/internal\<close>: the types, the
    evaluation of check runs and path filters, and the client of GitHub; \<open>_Checks_Laws\<close> says what the
    evaluation decides, \<open>_GitHub_Props\<close> what the client's answer rests on, by rules for its actions over
    the worlds that requests reach (\<open>gh_post\<close>), and the properties.
  \<^item> \<open>Review_Gate_Store\<close>, \<open>_Service\<close> model the stored gates and their terminal events, the
    registration, the poller and the waiting; \<open>_Laws\<close> holds the invariant of the tables and the moves
    of a gate under every statement, \<open>_System\<close> the contracts \<open>gate_store_laws\<close> and
    \<open>gate_service_laws\<close> with their proof for the tables and for the client of GitHub, \<open>_Live\<close> the
    exact effects on a driver that does not fail, \<open>_Props\<close> the properties.
  \<^item> \<open>Review_Rounds\<close> models the rounds, findings, packets and finalizations of \<open>review/internal\<close>: their
    types, what \<open>render.go\<close> and \<open>packet.go\<close> make of them, the statements and transactions of \<open>store.go\<close>;
    \<open>Review_Service\<close> the requests of \<open>service.go\<close>, with the finalization and its resumption.
    \<open>Review_Rounds_Laws\<close> holds the invariant of the tables, what a statement may move, and that every
    statement keeps both; \<open>_System\<close> the contracts \<open>review_store_laws\<close>, \<open>review_service_laws\<close> and
    \<open>tx_relation\<close> with their proof for the tables; \<open>_Live\<close> the exact effects on a driver that does not
    fail, and what the transaction of a finalization stores whatever the driver does; \<open>_Props\<close> the
    reachable reviews and the properties.

  \<^bold>\<open>State and operations.\<close> A table is a list of row records in the order of insertion with the next
  value of its sequence; a statement is a function on the tables, named after the constant that holds
  its text. A store method is a function from the tables to a result and new tables. Results are sums
  whose left side is an error of the source. A service is a function over a record of the store's
  methods, as it is over an interface in the source.

  \<^bold>\<open>Bounds and fuel.\<close> Nothing is bounded by fuel. The loops that follow references (the
  dependency and parent searches of tasks, the descendants and ancestors of the board) are
  \<open>partial_function (option)\<close>, whose value \<open>None\<close> is not returning; that they return in every state
  that satisfies the invariant is proved (\<open>createsDependencyCycle\<close>, \<open>createsParentCycle\<close>,
  \<open>hasActiveDescendant\<close>, the listing of comments; the scan of the check gates, which the deadlines of the gates end, on any driver and
  with a clock that moves). The loops that wait for
  terminal events are such functions as well; they end by the timers. Ids, ttl and path parameters are kept at 64 bits
  where the code computes with them.

  \<^bold>\<open>What is assumed of code outside the repository.\<close>
  \<^item> The driver: whether a call fails is a script consumed by the calls, so that every schedule of
    failures is an instance. A call that fails has no effect, a failed commit leaves the database
    as it was, and \<open>rows.Err\<close> is a second call of the driver. In a transaction, a failed statement
    makes the later ones and the commit fail.
  \<^item> PostgreSQL: a statement is atomic, and so is a transaction, except where a theorem is about two
    of them that overlap. Equal keys of an \<open>ORDER BY\<close> keep the order of the table. A \<open>jsonb\<close> column
    holds the value it encodes. A rollback also restores a sequence (the model reuses numbers that
    PostgreSQL would skip; nothing depends on them).
  \<^item> Bodies arrive decoded: decoding JSON into the request structs is not modelled. Upper and lower
    case, trimming and \<open>%q\<close> are on ASCII. \<open>url.PathEscape\<close> and its inverse cancel. \<open>url.Parse\<close> and the
    hash that \<open>fingerprint\<close> computes are parameters.
  \<^item> A loop over a Go map goes through it in the order of an arbitrary association list.
  \<^item> Projects: what \<open>url.Parse\<close> finds in an address, the text a \<open>jsonb\<close> column gives back and the
    collation of \<open>ORDER BY\<close> are the record \<open>project_env\<close>.
  \<^item> Ops: the time zone database, \<open>time.ParseDuration\<close> and the texts of durations and times are the
    record \<open>ops_env\<close>; \<open>json.Marshal\<close> of an embedded check is a parameter of the service. The store
    has one connection, so its calls do not interleave, and the mutex of the service makes a report
    one step. A \<open>float64\<close> of seconds is kept as the number sent or as the duration it was computed
    from. The properties of slots are for schedules whose starts follow each other on every
    day (\<open>regular_schedule\<close>), which is proved of every schedule in a zone of a fixed offset, and, as an
    example of a zone with clock changes, of Pacific time in 2026 for starts outside the skipped hour.
  \<^item> Review: GitHub is a function of the request and a world, the YAML package and the parser of HTTP
    dates are parameters, as are the digest of a finalization, the size of its JSON, and the tasks, projects
    and message services that the review service calls. The clock moves with the calls of other services, not
    during a statement. The regular expressions of path patterns are four kinds of parts with their
    own matcher; what ends a turn of a waiting loop is a parameter; names of files and patterns are valid UTF-8, where matching by bytes agrees.
  \<^item> Timestamps are exact; the resolution of PostgreSQL's is not modelled.

  \<^bold>\<open>Not modelled.\<close> Process set-up, configuration files, the registration of HTTP routes and the
  encoding of responses. The services that are listed as not modelled in the manifest.
\<close>

end
